(* ===== verification/Prelude.thy ===== *)
theory Prelude
  imports Complex_Main "HOL-Library.Word" "HOL-Library.AList" "HOL-Library.Char_ord"
    "HOL-Library.List_Lexorder" "HOL-Library.Product_Lexorder"
begin

text \<open>
  Shared vocabulary of the development: bytes, Python exceptions as values, computations that
  may raise or never return, dictionaries with their insertion order, capped logs, and the
  generic notion of a labelled transition system with invariants.  Nothing here depends on a
  particular component.
\<close>

section \<open>Bytes and exceptions\<close>

type_synonym byte = "8 word"
type_synonym bytes = "byte list"

text \<open>
  The Python exceptions the modelled code can raise.  \<open>OtherError\<close> is an exception that
  comes out of a routine which is a parameter of the model.
\<close>

datatype py_exn =
    StructError
  | AttributeError
  | KeyError
  | TypeError
  | IndexError
  | ValueError string
  | AssertionError
  | OverflowError
  | OtherError string

type_synonym 'a res = "py_exn + 'a"

text \<open>
  A computation that may raise or may never return: \<open>None\<close> is "does not return".
\<close>

type_synonym 'a run = "(py_exn + 'a) option"

definition ret :: "'a \<Rightarrow> 'a run" where
  "ret x = Some (Inr x)"

definition raise :: "py_exn \<Rightarrow> 'a run" where
  "raise e = Some (Inl e)"

definition run_bind :: "'a run \<Rightarrow> ('a \<Rightarrow> 'b run) \<Rightarrow> 'b run" where
  "run_bind m f =
     (case m of None \<Rightarrow> None | Some (Inl e) \<Rightarrow> Some (Inl e) | Some (Inr x) \<Rightarrow> f x)"

definition lift_res :: "'a res \<Rightarrow> 'a run" where
  "lift_res r = Some r"

named_theorems run_simps

lemma run_bind_simps [run_simps, simp]:
  "run_bind None f = None"
  "run_bind (Some (Inl e)) f = Some (Inl e)"
  "run_bind (Some (Inr x)) f = f x"
  "run_bind (ret x) f = f x"
  "run_bind (raise e) f = raise e"
  by (simp_all add: run_bind_def ret_def raise_def)

lemma ret_eq_iff [simp]: "ret x = ret y \<longleftrightarrow> x = y"
  by (simp add: ret_def)

lemma ret_neq_raise [simp]: "ret x \<noteq> raise e" "raise e \<noteq> ret x"
  by (simp_all add: ret_def raise_def)

lemma ret_neq_None [simp]: "ret x \<noteq> None" "raise e \<noteq> (None :: 'a run)"
  by (simp_all add: ret_def raise_def)

lemma run_bind_ret_iff [run_simps]:
  "run_bind m f = ret y \<longleftrightarrow> (\<exists>x. m = ret x \<and> f x = ret y)"
  by (auto simp: run_bind_def ret_def split: option.splits sum.splits)

lemma run_bind_assoc: "run_bind (run_bind m f) g = run_bind m (\<lambda>x. run_bind (f x) g)"
  by (auto simp: run_bind_def split: option.splits sum.splits)

section \<open>Dictionaries that remember insertion order\<close>

text \<open>
  A Python \<open>dict\<close> is iterated in insertion order, so the dictionaries whose order or size
  the code observes are association lists over \<open>AList\<close>: assignment to a present key keeps
  its place, assignment to a new key appends.
\<close>

type_synonym ('k, 'v) dict = "('k \<times> 'v) list"

definition dict_wf :: "('k, 'v) dict \<Rightarrow> bool" where
  "dict_wf d \<longleftrightarrow> distinct (map fst d)"

definition dict_get :: "('k, 'v) dict \<Rightarrow> 'k \<Rightarrow> 'v option" where
  "dict_get d k = map_of d k"

definition dict_set :: "'k \<Rightarrow> 'v \<Rightarrow> ('k, 'v) dict \<Rightarrow> ('k, 'v) dict" where
  "dict_set k v d = AList.update k v d"

definition dict_keys :: "('k, 'v) dict \<Rightarrow> 'k list" where
  "dict_keys d = map fst d"

text \<open>\<open>for k in [k for k in d if P k]: del d[k]\<close>.\<close>

definition dict_remove_if :: "('k \<Rightarrow> bool) \<Rightarrow> ('k, 'v) dict \<Rightarrow> ('k, 'v) dict" where
  "dict_remove_if P d = filter (\<lambda>(k, _). \<not> P k) d"

named_theorems dict_simps

lemma dict_get_set [dict_simps, simp]:
  "dict_get (dict_set k v d) k' = (if k' = k then Some v else dict_get d k')"
  by (simp add: dict_get_def dict_set_def update_conv')

lemma dict_get_empty [dict_simps, simp]: "dict_get [] k = None"
  by (simp add: dict_get_def)

lemma map_of_filter_keys: "map_of (filter (\<lambda>(k, _). \<not> P k) d) k = (if P k then None else map_of d k)"
  by (induction d) auto

lemma dict_get_remove_if [dict_simps, simp]:
  "dict_get (dict_remove_if P d) k = (if P k then None else dict_get d k)"
  by (simp add: dict_get_def dict_remove_if_def map_of_filter_keys)

lemma dict_wf_empty [simp]: "dict_wf []"
  by (simp add: dict_wf_def)

lemma dict_wf_set [simp]: "dict_wf d \<Longrightarrow> dict_wf (dict_set k v d)"
  by (simp add: dict_wf_def dict_set_def distinct_update)

lemma dict_wf_remove_if [simp]: "dict_wf d \<Longrightarrow> dict_wf (dict_remove_if P d)"
  by (induction d) (auto simp: dict_wf_def dict_remove_if_def)

lemma dict_keys_iff: "k \<in> set (dict_keys d) \<longleftrightarrow> dict_get d k \<noteq> None"
  by (force simp: dict_keys_def dict_get_def map_of_eq_None_iff)

lemma find_SomeD: "find P xs = Some x \<Longrightarrow> x \<in> set xs \<and> P x"
  by (induction xs) (auto split: if_splits)

lemma find_NoneD: "find P xs = None \<Longrightarrow> x \<in> set xs \<Longrightarrow> \<not> P x"
  by (auto simp: find_None_iff)

lemma find_append:
  "find P (xs @ ys) = (case find P xs of None \<Rightarrow> find P ys | Some x \<Rightarrow> Some x)"
  by (induction xs) auto

section \<open>Logs with a cap\<close>

text \<open>
  \<open>log.append(e)\<close> followed by \<open>if len(log) > cap: log.pop(0)\<close>.
\<close>

definition append_capped :: "nat \<Rightarrow> 'a list \<Rightarrow> 'a \<Rightarrow> 'a list" where
  "append_capped cap xs x =
     (let ys = xs @ [x] in if length ys > cap then tl ys else ys)"

lemma append_capped_length: "length xs \<le> cap \<Longrightarrow> length (append_capped cap xs x) \<le> cap"
  by (auto simp: append_capped_def Let_def)

lemma append_capped_not_Nil [simp]: "0 < cap \<Longrightarrow> append_capped cap xs x \<noteq> []"
  by (cases xs) (auto simp: append_capped_def Let_def)

lemma append_capped_last [simp]: "0 < cap \<Longrightarrow> last (append_capped cap xs x) = x"
  by (cases xs) (auto simp: append_capped_def Let_def)

lemma append_capped_takes:
  "length xs \<le> cap \<Longrightarrow>
     append_capped cap xs x = drop (length xs + 1 - cap) (xs @ [x])"
  by (cases xs) (auto simp: append_capped_def Let_def Suc_diff_le)

text \<open>\<open>xs[-n:]\<close>: the last \<open>n\<close> elements, for positive \<open>n\<close>.\<close>

definition last_n :: "nat \<Rightarrow> 'a list \<Rightarrow> 'a list" where
  "last_n n xs = drop (length xs - n) xs"

lemma last_n_length: "length (last_n n xs) = min n (length xs)"
  by (simp add: last_n_def)

section \<open>Values\<close>

text \<open>\<open>int(x)\<close> of a float rounds towards zero.\<close>

definition py_trunc :: "rat \<Rightarrow> int" where
  "py_trunc t = (if t < 0 then \<lceil>t\<rceil> else \<lfloor>t\<rfloor>)"

text \<open>An optional value with its default.\<close>

definition or_else :: "'a option \<Rightarrow> 'a \<Rightarrow> 'a" where
  "or_else x d = (case x of None \<Rightarrow> d | Some v \<Rightarrow> v)"

section \<open>Transition systems\<close>

text \<open>
  A component driven by events: an initial state and a step relation labelled with events.
  The reachable states and the invariant rule are proved once here and used by every
  component that is a state machine.
\<close>

locale transition_system =
  fixes start :: "'s \<Rightarrow> bool"
    and step :: "'s \<Rightarrow> 'e \<Rightarrow> 's \<Rightarrow> bool"
begin

inductive reachable :: "'s \<Rightarrow> bool" where
  reach_start: "start s \<Longrightarrow> reachable s"
| reach_step: "reachable s \<Longrightarrow> step s e t \<Longrightarrow> reachable t"

inductive steps :: "'s \<Rightarrow> 'e list \<Rightarrow> 's \<Rightarrow> bool" where
  steps_nil: "steps s [] s"
| steps_cons: "step s e t \<Longrightarrow> steps t es u \<Longrightarrow> steps s (e # es) u"

lemma invariant_rule:
  assumes "reachable s"
    and "\<And>s. start s \<Longrightarrow> I s"
    and "\<And>s e t. I s \<Longrightarrow> step s e t \<Longrightarrow> I t"
  shows "I s"
  using assms(1) by (induction rule: reachable.induct) (auto intro: assms(2,3))

lemma steps_preserve:
  assumes "steps s es t" and "I s"
    and "\<And>s e t. I s \<Longrightarrow> step s e t \<Longrightarrow> I t"
  shows "I t"
  using assms(1,2) by (induction rule: steps.induct) (auto intro: assms(3))

lemma steps_reachable: "steps s es t \<Longrightarrow> reachable s \<Longrightarrow> reachable t"
  by (induction rule: steps.induct) (auto intro: reach_step)

lemma steps_append: "steps s es t \<Longrightarrow> steps t fs u \<Longrightarrow> steps s (es @ fs) u"
  by (induction rule: steps.induct) (auto intro: steps_cons)

end

end
