(* ===== verification/Py_Strings.thy ===== *)
theory Py_Strings
  imports Prelude
begin

text \<open>
  The part of Python's string library that the program uses: decimal printing (\<open>str(n)\<close>,
  f-strings), \<open>str.zfill\<close>, \<open>str.strip\<close>, \<open>str.split('.')\<close>, \<open>int(s)\<close> and
  \<open>ipaddress.IPv4Address(s)\<close>.  A string is a list of code points below 256.  The main
  fact is that \<open>IPv4Address\<close> accepts exactly the canonical dotted quads.
\<close>

section \<open>Decimal numbers\<close>

definition digit_char :: "nat \<Rightarrow> char" where
  "digit_char d = char_of (48 + d)"

definition digit_val :: "char \<Rightarrow> nat" where
  "digit_val c = of_char c - 48"

definition is_digit :: "char \<Rightarrow> bool" where
  "is_digit c \<longleftrightarrow> 48 \<le> (of_char c :: nat) \<and> (of_char c :: nat) \<le> 57"

fun nat_str :: "nat \<Rightarrow> string" where
  "nat_str n = (if n < 10 then [digit_char n] else nat_str (n div 10) @ [digit_char (n mod 10)])"

declare nat_str.simps [simp del]

definition int_str :: "int \<Rightarrow> string" where
  "int_str i = (if i < 0 then CHR ''-'' # nat_str (nat (- i)) else nat_str (nat i))"

definition digits_val :: "string \<Rightarrow> nat" where
  "digits_val s = foldl (\<lambda>a c. 10 * a + digit_val c) 0 s"

lemma of_char_digit_char: "d < 10 \<Longrightarrow> (of_char (digit_char d) :: nat) = 48 + d"
  by (simp add: digit_char_def)

lemma digit_val_digit_char [simp]: "d < 10 \<Longrightarrow> digit_val (digit_char d) = d"
  by (simp add: digit_val_def of_char_digit_char)

lemma is_digit_digit_char [simp]: "d < 10 \<Longrightarrow> is_digit (digit_char d)"
  by (simp add: is_digit_def of_char_digit_char)

lemma digit_char_digit_val [simp]: "is_digit c \<Longrightarrow> digit_char (digit_val c) = c"
  by (simp add: is_digit_def digit_char_def digit_val_def)

lemma digit_val_less [simp]: "is_digit c \<Longrightarrow> digit_val c < 10"
  by (auto simp: is_digit_def digit_val_def)

lemma digits_val_snoc [simp]: "digits_val (s @ [c]) = 10 * digits_val s + digit_val c"
  by (simp add: digits_val_def)

lemma digits_val_Nil [simp]: "digits_val [] = 0"
  by (simp add: digits_val_def)

lemma nat_str_not_Nil [simp]: "nat_str n \<noteq> []"
  by (subst nat_str.simps) simp

lemma nat_str_digits: "c \<in> set (nat_str n) \<Longrightarrow> is_digit c"
proof (induction n rule: nat_str.induct)
  case (1 n)
  then show ?case
    by (cases "n < 10") (auto simp: nat_str.simps [of n])
qed

lemma digits_val_nat_str [simp]: "digits_val (nat_str n) = n"
proof (induction n rule: nat_str.induct)
  case (1 n)
  show ?case
  proof (cases "n < 10")
    case True
    then have "nat_str n = [] @ [digit_char n]" by (simp add: nat_str.simps)
    then show ?thesis using True by (simp only: digits_val_snoc) simp
  next
    case False
    with 1 show ?thesis by (simp add: nat_str.simps [of n])
  qed
qed

lemma nat_str_inject [simp]: "nat_str m = nat_str n \<longleftrightarrow> m = n"
  by (metis digits_val_nat_str)

lemma char_of_zero_digit: "char_of (48 :: nat) = CHR ''0''"
  by (simp add: char_of_eq_iff)

lemma digits_val_zero_prefix:
  "\<lbrakk>\<forall>c \<in> set s. is_digit c; s \<noteq> []; hd s \<noteq> CHR ''0''\<rbrakk> \<Longrightarrow> 0 < digits_val s"
proof (induction s rule: rev_induct)
  case (snoc c s)
  show ?case
  proof (cases s)
    case Nil
    with snoc.prems have "is_digit c" "c \<noteq> CHR ''0''" by auto
    then have "digit_val c \<noteq> 0"
      using digit_char_digit_val [of c] by (metis digit_char_def add_0_right char_of_zero_digit)
    with Nil show ?thesis by (simp add: digits_val_def)
  next
    case (Cons a t)
    with snoc.IH snoc.prems have "0 < digits_val s" by auto
    then show ?thesis by simp
  qed
qed simp

lemma nat_str_digits_val:
  "\<lbrakk>\<forall>c \<in> set s. is_digit c; s \<noteq> []; s = ''0'' \<or> hd s \<noteq> CHR ''0''\<rbrakk>
     \<Longrightarrow> nat_str (digits_val s) = s"
proof (induction s rule: rev_induct)
  case (snoc c s)
  show ?case
  proof (cases "s = []")
    case True
    with snoc.prems show ?thesis
      by (simp add: digits_val_def nat_str.simps)
  next
    case False
    with snoc.prems have hd: "hd s \<noteq> CHR ''0''" by auto
    with snoc.IH snoc.prems False have IH: "nat_str (digits_val s) = s" by auto
    from digits_val_zero_prefix snoc.prems False hd have "0 < digits_val s" by auto
    then have "\<not> digits_val (s @ [c]) < 10" by simp
    with snoc.prems IH show ?thesis
      by (simp add: nat_str.simps [of "10 * digits_val s + digit_val c"])
  qed
qed simp

text \<open>\<open>s.zfill(n)\<close> for a string of digits.\<close>

definition zfill :: "nat \<Rightarrow> string \<Rightarrow> string" where
  "zfill n s = replicate (n - length s) (CHR ''0'') @ s"

lemma digits_val_replicate [simp]:
  "digits_val (replicate n (CHR ''0'') @ s) = digits_val s"
proof (induction s rule: rev_induct)
  case Nil
  show ?case
  proof (induction n)
    case (Suc n)
    have "digits_val (replicate (Suc n) (CHR ''0'')) = digits_val (replicate n (CHR ''0'') @ [CHR ''0''])"
      by (simp add: replicate_append_same)
    with Suc show ?case by (simp only: digits_val_snoc) (simp add: digit_val_def)
  qed simp
next
  case (snoc c s)
  then show ?case by (simp flip: append_assoc)
qed

lemma zfill_inject: "zfill k (nat_str m) = zfill k (nat_str n) \<Longrightarrow> m = n"
  by (metis zfill_def digits_val_replicate digits_val_nat_str)

section \<open>Whitespace, splitting, \<open>int(s)\<close>\<close>

definition is_space :: "char \<Rightarrow> bool" where
  "is_space c \<longleftrightarrow> (of_char c :: nat) \<in> {9, 10, 11, 12, 13, 28, 29, 30, 31, 32, 133, 160}"

definition strip_by :: "(char \<Rightarrow> bool) \<Rightarrow> string \<Rightarrow> string" where
  "strip_by P s = rev (dropWhile P (rev (dropWhile P s)))"

definition strip :: "string \<Rightarrow> string" where
  "strip s = strip_by is_space s"

text \<open>\<open>int\<close> does not count the information separators as whitespace.\<close>

definition int_space :: "char \<Rightarrow> bool" where
  "int_space c \<longleftrightarrow> (of_char c :: nat) \<in> {9, 10, 11, 12, 13, 32, 133, 160}"

definition int_strip :: "string \<Rightarrow> string" where
  "int_strip s = strip_by int_space s"

fun split_on :: "char \<Rightarrow> string \<Rightarrow> string list" where
  "split_on c [] = [[]]"
| "split_on c (x # xs) =
     (if x = c then [] # split_on c xs
      else (case split_on c xs of [] \<Rightarrow> [[x]] | y # ys \<Rightarrow> (x # y) # ys))"

lemma split_on_not_Nil [simp]: "split_on c s \<noteq> []"
  by (cases s) (auto split: list.splits)

fun join_on :: "char \<Rightarrow> string list \<Rightarrow> string" where
  "join_on c [] = []"
| "join_on c [x] = x"
| "join_on c (x # y # ys) = x @ c # join_on c (y # ys)"

lemma join_on_Cons_cons: "join_on c ((x # y) # ys) = x # join_on c (y # ys)"
  by (cases ys) auto

lemma join_split [simp]: "join_on c (split_on c s) = s"
proof (induction s)
  case (Cons x xs)
  obtain y ys where y: "split_on c xs = y # ys" by (cases "split_on c xs") auto
  with Cons show ?case by (auto simp: join_on_Cons_cons)
qed simp

lemma split_on_no_sep [simp]: "c \<notin> set s \<Longrightarrow> split_on c s = [s]"
  by (induction s) auto

lemma split_on_append_sep: "c \<notin> set s \<Longrightarrow> split_on c (s @ c # t) = s # split_on c t"
  by (induction s) auto

text \<open>
  \<open>int(s)\<close>: surrounding whitespace, an optional sign, decimal digits with single
  underscores between them, at most 4300 digits.
\<close>

fun strip_underscores :: "bool \<Rightarrow> string \<Rightarrow> string option" where
  "strip_underscores after_digit [] = (if after_digit then Some [] else None)"
| "strip_underscores after_digit (c # cs) =
     (if is_digit c then map_option (Cons c) (strip_underscores True cs)
      else if c = CHR ''_'' \<and> after_digit then strip_underscores False cs
      else None)"

definition parse_digits :: "string \<Rightarrow> nat option" where
  "parse_digits s =
     (case strip_underscores False s of
        None \<Rightarrow> None
      | Some ds \<Rightarrow> if length ds > 4300 then None else Some (digits_val ds))"

definition py_int :: "string \<Rightarrow> int option" where
  "py_int s =
     (case int_strip s of
        [] \<Rightarrow> None
      | c # cs \<Rightarrow>
          if c = CHR ''-'' then map_option (\<lambda>n. - int n) (parse_digits cs)
          else if c = CHR ''+'' then map_option int (parse_digits cs)
          else map_option int (parse_digits (c # cs)))"

lemma strip_underscores_digits:
  "\<forall>c \<in> set s. is_digit c \<Longrightarrow> b \<or> s \<noteq> [] \<Longrightarrow> strip_underscores b s = Some s"
  by (induction s arbitrary: b) auto

lemma digit_not_space: "is_digit c \<Longrightarrow> \<not> is_space c"
  by (auto simp: is_digit_def is_space_def)

lemma strip_by_id: "s = [] \<or> \<not> P (hd s) \<and> \<not> P (last s) \<Longrightarrow> strip_by P s = s"
proof -
  assume a: "s = [] \<or> \<not> P (hd s) \<and> \<not> P (last s)"
  have "dropWhile P s = s" using a by (cases s) auto
  moreover have "dropWhile P (rev s) = rev s"
    using a by (cases s rule: rev_cases) auto
  ultimately show ?thesis by (simp add: strip_by_def)
qed

lemma int_strip_id:
  assumes "s = [] \<or> \<not> is_space (hd s) \<and> \<not> is_space (last s)"
  shows "int_strip s = s"
  unfolding int_strip_def by (rule strip_by_id) (use assms in \<open>auto simp: is_space_def int_space_def\<close>)

lemma length_nat_str: "0 < k \<Longrightarrow> n < 10 ^ k \<Longrightarrow> length (nat_str n) \<le> k"
proof (induction n arbitrary: k rule: nat_str.induct)
  case (1 n)
  show ?case
  proof (cases "n < 10")
    case True
    with "1.prems" show ?thesis by (simp add: nat_str.simps)
  next
    case False
    with "1.prems" obtain k' where k: "k = Suc k'" "0 < k'"
      by (cases k; cases "k - 1") auto
    with "1.prems" have "n div 10 < 10 ^ k'" by (simp add: less_mult_imp_div_less)
    with "1.IH" False k have "length (nat_str (n div 10)) \<le> k'" by blast
    with False k show ?thesis by (simp add: nat_str.simps [of n])
  qed
qed

lemma py_int_nat_str: "n < 10 ^ 5 \<Longrightarrow> py_int (nat_str n) = Some (int n)"
proof -
  assume n: "n < 10 ^ 5"
  have dig: "\<forall>c \<in> set (nat_str n). is_digit c" using nat_str_digits by blast
  then have "is_digit (hd (nat_str n))" "is_digit (last (nat_str n))" by simp_all
  then have s: "int_strip (nat_str n) = nat_str n" by (simp add: int_strip_id digit_not_space)
  obtain c cs where c: "nat_str n = c # cs" by (cases "nat_str n") auto
  with dig have dc: "is_digit c" by simp
  then have "c \<noteq> CHR ''-''" "c \<noteq> CHR ''+''" by (auto simp: is_digit_def)
  moreover have "parse_digits (nat_str n) = Some n"
    using length_nat_str [of 5 n] n dig
    by (simp add: parse_digits_def strip_underscores_digits)
  ultimately show ?thesis using s c by (simp add: py_int_def)
qed

section \<open>\<open>ipaddress.IPv4Address(s)\<close>\<close>

definition parse_octet :: "string \<Rightarrow> nat option" where
  "parse_octet s =
     (if s = [] then None
      else if \<not> list_all is_digit s then None
      else if length s > 3 then None
      else if s \<noteq> ''0'' \<and> hd s = CHR ''0'' then None
      else if digits_val s > 255 then None
      else Some (digits_val s))"

definition ipv4_octets :: "string \<Rightarrow> (nat \<times> nat \<times> nat \<times> nat) option" where
  "ipv4_octets s =
     (if CHR ''/'' \<in> set s then None
      else case split_on (CHR ''.'') s of
        [a, b, c, d] \<Rightarrow>
          (case (parse_octet a, parse_octet b, parse_octet c, parse_octet d) of
             (Some w, Some x, Some y, Some z) \<Rightarrow> Some (w, x, y, z)
           | _ \<Rightarrow> None)
      | _ \<Rightarrow> None)"

definition valid_ipv4 :: "string \<Rightarrow> bool" where
  "valid_ipv4 s \<longleftrightarrow> ipv4_octets s \<noteq> None"

definition dotted_quad :: "nat \<Rightarrow> nat \<Rightarrow> nat \<Rightarrow> nat \<Rightarrow> string" where
  "dotted_quad a b c d = join_on (CHR ''.'') [nat_str a, nat_str b, nat_str c, nat_str d]"

lemma nat_str_hd: "0 < n \<Longrightarrow> hd (nat_str n) \<noteq> CHR ''0''"
proof (induction n rule: nat_str.induct)
  case (1 n)
  show ?case
  proof (cases "n < 10")
    case True
    with "1.prems" show ?thesis
      using digit_val_digit_char [of n] by (auto simp: nat_str.simps digit_val_def)
  next
    case False
    with 1 show ?thesis by (simp add: nat_str.simps [of n])
  qed
qed

lemma parse_octet_iff: "parse_octet s = Some n \<longleftrightarrow> n < 256 \<and> s = nat_str n"
proof
  assume "parse_octet s = Some n"
  then have "s \<noteq> []" "\<forall>c \<in> set s. is_digit c" "s = ''0'' \<or> hd s \<noteq> CHR ''0''"
    "digits_val s = n" "n \<le> 255"
    by (auto simp: parse_octet_def list_all_iff split: if_splits)
  with nat_str_digits_val show "n < 256 \<and> s = nat_str n" by fastforce
next
  assume a: "n < 256 \<and> s = nat_str n"
  have len: "length (nat_str n) \<le> 3" using length_nat_str [of 3 n] a by simp
  have hd: "nat_str n = ''0'' \<or> hd (nat_str n) \<noteq> CHR ''0''"
    using nat_str_hd [of n] by (cases "n = 0") (auto simp: nat_str.simps digit_char_def)
  show "parse_octet s = Some n"
    using a len hd by (auto simp: parse_octet_def list_all_iff nat_str_digits)
qed

lemma parse_octet_nat_str [simp]: "n < 256 \<Longrightarrow> parse_octet (nat_str n) = Some n"
  by (simp add: parse_octet_iff)

lemma nat_str_no_dot: "CHR ''.'' \<notin> set (nat_str n)" "CHR ''/'' \<notin> set (nat_str n)"
  using nat_str_digits [of "CHR ''.''" n] nat_str_digits [of "CHR ''/''" n]
  by (auto simp: is_digit_def)

lemma split_dotted_quad:
  "split_on (CHR ''.'') (dotted_quad a b c d) = [nat_str a, nat_str b, nat_str c, nat_str d]"
  by (simp add: dotted_quad_def split_on_append_sep nat_str_no_dot)

lemma ipv4_octets_dotted_quad:
  "\<lbrakk>a < 256; b < 256; c < 256; d < 256\<rbrakk> \<Longrightarrow> ipv4_octets (dotted_quad a b c d) = Some (a, b, c, d)"
  by (simp add: ipv4_octets_def split_dotted_quad)
    (simp add: dotted_quad_def nat_str_no_dot)

lemma ipv4_octets_iff:
  "ipv4_octets s = Some (a, b, c, d) \<longleftrightarrow>
     a < 256 \<and> b < 256 \<and> c < 256 \<and> d < 256 \<and> s = dotted_quad a b c d"
proof
  assume h: "ipv4_octets s = Some (a, b, c, d)"
  then obtain w x y z where sp: "split_on (CHR ''.'') s = [w, x, y, z]"
    and "parse_octet w = Some a" "parse_octet x = Some b" "parse_octet y = Some c"
      "parse_octet z = Some d"
    by (auto simp: ipv4_octets_def split: if_splits list.splits option.splits)
  then have o: "a < 256" "b < 256" "c < 256" "d < 256"
    "w = nat_str a" "x = nat_str b" "y = nat_str c" "z = nat_str d"
    by (auto simp: parse_octet_iff)
  have "s = join_on (CHR ''.'') [w, x, y, z]" using join_split [of "CHR ''.''" s] sp by simp
  with o show "a < 256 \<and> b < 256 \<and> c < 256 \<and> d < 256 \<and> s = dotted_quad a b c d"
    by (simp add: dotted_quad_def)
qed (auto simp: ipv4_octets_dotted_quad)

lemma valid_ipv4_iff:
  "valid_ipv4 s \<longleftrightarrow>
     (\<exists>a b c d. a < 256 \<and> b < 256 \<and> c < 256 \<and> d < 256 \<and> s = dotted_quad a b c d)"
proof
  assume "valid_ipv4 s"
  then obtain q where "ipv4_octets s = Some q" by (auto simp: valid_ipv4_def)
  moreover obtain a b c d where "q = (a, b, c, d)" by (cases q) auto
  ultimately show "\<exists>a b c d. a < 256 \<and> b < 256 \<and> c < 256 \<and> d < 256 \<and> s = dotted_quad a b c d"
    by (auto simp: ipv4_octets_iff)
qed (auto simp: valid_ipv4_def ipv4_octets_dotted_quad)

lemma dotted_quad_inject:
  "\<lbrakk>dotted_quad a b c d = dotted_quad a' b' c' d'\<rbrakk> \<Longrightarrow> a = a' \<and> b = b' \<and> c = c' \<and> d = d'"
  by (metis split_dotted_quad list.inject nat_str_inject)

end
