(* ===== verification/Regex.thy ===== *)
theory Regex
  imports Prelude
begin

text \<open>
  The fragment of \<open>re\<close> that the built-in signatures, the pattern-name check and
  \<open>DANGEROUS_RE\<close> use: classes of bytes, alternation, concatenation, bounded and unbounded
  repetition, and the boolean outcome of \<open>Pattern.search\<close>.  That outcome does not depend on
  greediness, so a language semantics is enough; the executable search follows
  Brzozowski's derivatives and is proved against it.
\<close>

section \<open>Syntax, language and derivative\<close>

datatype 'a rx =
    Zero
  | One
  | Cls "'a \<Rightarrow> bool"
  | Alt "'a rx" "'a rx"
  | Seq "'a rx" "'a rx"
  | Star "'a rx"

inductive matches :: "'a rx \<Rightarrow> 'a list \<Rightarrow> bool" where
  m_one: "matches One []"
| m_cls: "p x \<Longrightarrow> matches (Cls p) [x]"
| m_alt1: "matches r s \<Longrightarrow> matches (Alt r q) s"
| m_alt2: "matches q s \<Longrightarrow> matches (Alt r q) s"
| m_seq: "matches r s \<Longrightarrow> matches q t \<Longrightarrow> matches (Seq r q) (s @ t)"
| m_star0: "matches (Star r) []"
| m_star1: "matches r s \<Longrightarrow> matches (Star r) t \<Longrightarrow> matches (Star r) (s @ t)"

inductive_simps matches_simps [simp]:
  "matches Zero s"
  "matches One s"
  "matches (Cls p) s"
  "matches (Alt r q) s"
  "matches (Seq r q) s"

inductive_cases matches_StarE: "matches (Star r) s"

fun nullable :: "'a rx \<Rightarrow> bool" where
  "nullable Zero = False"
| "nullable One = True"
| "nullable (Cls p) = False"
| "nullable (Alt r q) = (nullable r \<or> nullable q)"
| "nullable (Seq r q) = (nullable r \<and> nullable q)"
| "nullable (Star r) = True"

fun alt :: "'a rx \<Rightarrow> 'a rx \<Rightarrow> 'a rx" where
  "alt Zero q = q"
| "alt r Zero = r"
| "alt r q = Alt r q"

fun seq :: "'a rx \<Rightarrow> 'a rx \<Rightarrow> 'a rx" where
  "seq Zero q = Zero"
| "seq One q = q"
| "seq r q = Seq r q"

fun deriv :: "'a \<Rightarrow> 'a rx \<Rightarrow> 'a rx" where
  "deriv c Zero = Zero"
| "deriv c One = Zero"
| "deriv c (Cls p) = (if p c then One else Zero)"
| "deriv c (Alt r q) = alt (deriv c r) (deriv c q)"
| "deriv c (Seq r q) =
     (if nullable r then alt (seq (deriv c r) q) (deriv c q) else seq (deriv c r) q)"
| "deriv c (Star r) = seq (deriv c r) (Star r)"

lemma matches_alt [simp]: "matches (alt r q) s \<longleftrightarrow> matches r s \<or> matches q s"
  by (induction r q rule: alt.induct) auto

lemma matches_seq [simp]: "matches (seq r q) s \<longleftrightarrow> matches (Seq r q) s"
  by (induction r q rule: seq.induct) auto

lemma nullable_iff: "nullable r \<longleftrightarrow> matches r []"
  by (induction r) (auto intro: m_star0)

lemma matches_Star_Cons:
  "matches (Star r) (c # s) \<longleftrightarrow> (\<exists>u v. s = u @ v \<and> matches r (c # u) \<and> matches (Star r) v)"
proof
  assume "matches (Star r) (c # s)"
  then show "\<exists>u v. s = u @ v \<and> matches r (c # u) \<and> matches (Star r) v"
  proof (induction "Star r" "c # s" rule: matches.induct)
    case (m_star1 a b)
    then show ?case by (cases a) auto
  qed
next
  assume "\<exists>u v. s = u @ v \<and> matches r (c # u) \<and> matches (Star r) v"
  then obtain u v where s: "s = u @ v" and u: "matches r (c # u)" and v: "matches (Star r) v"
    by blast
  from m_star1 [OF u v] s show "matches (Star r) (c # s)" by simp
qed

lemma matches_deriv: "matches (deriv c r) s \<longleftrightarrow> matches r (c # s)"
proof (induction r arbitrary: s)
  case (Seq r q)
  have cons: "matches (Seq r q) (c # s) \<longleftrightarrow>
      (\<exists>u v. s = u @ v \<and> matches r (c # u) \<and> matches q v) \<or> (matches r [] \<and> matches q (c # s))"
    by (auto simp: Cons_eq_append_conv)
  show ?case by (subst cons) (auto simp: Seq nullable_iff)
next
  case (Star r)
  then show ?case by (auto simp: matches_Star_Cons)
qed auto

section \<open>\<open>re.match\<close> at a position and \<open>re.search\<close>\<close>

fun match_prefix :: "'a rx \<Rightarrow> 'a list \<Rightarrow> bool" where
  "match_prefix r [] = nullable r"
| "match_prefix r (c # s) = (nullable r \<or> match_prefix (deriv c r) s)"

fun search :: "'a rx \<Rightarrow> 'a list \<Rightarrow> bool" where
  "search r [] = nullable r"
| "search r (c # s) = (match_prefix r (c # s) \<or> search r s)"

lemma match_prefix_iff: "match_prefix r s \<longleftrightarrow> (\<exists>u v. s = u @ v \<and> matches r u)"
proof (induction s arbitrary: r)
  case (Cons c s)
  have "(\<exists>u v. c # s = u @ v \<and> matches r u) \<longleftrightarrow>
      matches r [] \<or> (\<exists>u v. s = u @ v \<and> matches r (c # u))"
    by (auto simp: Cons_eq_append_conv)
  with Cons show ?case by (simp add: nullable_iff matches_deriv)
qed (simp add: nullable_iff)

lemma search_iff: "search r s \<longleftrightarrow> (\<exists>u v w. s = u @ v @ w \<and> matches r v)"
proof (induction s)
  case (Cons c s)
  have "(\<exists>u v w. c # s = u @ v @ w \<and> matches r v) \<longleftrightarrow>
      (\<exists>v w. c # s = v @ w \<and> matches r v) \<or> (\<exists>u v w. s = u @ v @ w \<and> matches r v)"
    by (metis Cons_eq_append_conv append_Cons append_Nil)
  with Cons show ?case by (simp add: match_prefix_iff)
qed (simp add: nullable_iff)

lemma search_append: "search r s \<Longrightarrow> search r (t @ s @ u)"
  unfolding search_iff by (metis append_assoc)

lemma search_mono: "search r s \<Longrightarrow> search r (s @ u)"
  using search_append [of r s "[]" u] by simp

section \<open>Derived constructs\<close>

definition Alts :: "'a rx list \<Rightarrow> 'a rx" where
  "Alts rs = foldr Alt rs Zero"

definition Seqs :: "'a rx list \<Rightarrow> 'a rx" where
  "Seqs rs = foldr Seq rs One"

definition Plus :: "'a rx \<Rightarrow> 'a rx" where
  "Plus r = Seq r (Star r)"

fun Exactly :: "nat \<Rightarrow> 'a rx \<Rightarrow> 'a rx" where
  "Exactly 0 r = One"
| "Exactly (Suc n) r = Seq r (Exactly n r)"

text \<open>\<open>r{n,}\<close> and \<open>r{0,n}\<close>.\<close>

definition At_least :: "nat \<Rightarrow> 'a rx \<Rightarrow> 'a rx" where
  "At_least n r = Seq (Exactly n r) (Star r)"

fun At_most :: "nat \<Rightarrow> 'a rx \<Rightarrow> 'a rx" where
  "At_most 0 r = One"
| "At_most (Suc n) r = Alt One (Seq r (At_most n r))"

lemma matches_Alts: "matches (Alts rs) s \<longleftrightarrow> (\<exists>r \<in> set rs. matches r s)"
  by (induction rs) (auto simp: Alts_def)

lemma matches_Seqs_Cons:
  "matches (Seqs (r # rs)) s \<longleftrightarrow> (\<exists>u v. s = u @ v \<and> matches r u \<and> matches (Seqs rs) v)"
  by (auto simp: Seqs_def)

lemma matches_Seqs_Nil: "matches (Seqs []) s \<longleftrightarrow> s = []"
  by (simp add: Seqs_def)

lemma matches_replicate: "p x \<Longrightarrow> matches (Exactly n (Cls p)) (replicate n x)"
  by (induction n) (auto intro: exI [of _ "[x]" for x])

lemma matches_star_all: "\<forall>x \<in> set s. p x \<Longrightarrow> matches (Star (Cls p)) s"
proof (induction s)
  case (Cons x s)
  then have "matches (Star (Cls p)) ([x] @ s)"
    by (intro m_star1) auto
  then show ?case by simp
qed (rule m_star0)

lemma matches_star_cls: "matches (Star (Cls p)) s \<longleftrightarrow> (\<forall>x \<in> set s. p x)"
proof
  assume "matches (Star (Cls p)) s"
  then show "\<forall>x \<in> set s. p x"
    by (induction "Star (Cls p)" s rule: matches.induct) auto
qed (rule matches_star_all)

lemma matches_exactly_cls:
  "matches (Exactly n (Cls p)) s \<longleftrightarrow> length s = n \<and> (\<forall>x \<in> set s. p x)"
proof (induction n arbitrary: s)
  case (Suc n)
  have "matches (Exactly (Suc n) (Cls p)) s \<longleftrightarrow>
      (\<exists>x t. s = x # t \<and> p x \<and> length t = n \<and> (\<forall>y \<in> set t. p y))"
    by (auto simp: Suc) (metis append_Cons append_Nil)
  also have "\<dots> \<longleftrightarrow> length s = Suc n \<and> (\<forall>x \<in> set s. p x)"
    by (cases s) auto
  finally show ?case .
qed auto

lemma matches_at_least_cls:
  "matches (At_least n (Cls p)) s \<longleftrightarrow> n \<le> length s \<and> (\<forall>x \<in> set s. p x)"
proof
  assume "matches (At_least n (Cls p)) s"
  then show "n \<le> length s \<and> (\<forall>x \<in> set s. p x)"
    by (auto simp: At_least_def matches_exactly_cls matches_star_cls)
next
  assume a: "n \<le> length s \<and> (\<forall>x \<in> set s. p x)"
  then have "matches (Exactly n (Cls p)) (take n s)" "matches (Star (Cls p)) (drop n s)"
    by (auto simp: matches_exactly_cls matches_star_cls dest: in_set_takeD in_set_dropD)
  then show "matches (At_least n (Cls p)) s"
    unfolding At_least_def by (simp, metis append_take_drop_id)
qed

section \<open>Byte and text patterns\<close>

definition bytes_of :: "string \<Rightarrow> bytes" where
  "bytes_of s = map of_char s"

text \<open>\<open>re.IGNORECASE\<close> in bytes mode folds ASCII letters only.\<close>

definition fold_case :: "byte \<Rightarrow> byte" where
  "fold_case b = (if 65 \<le> b \<and> b \<le> 90 then b + 32 else b)"

definition Byte :: "byte \<Rightarrow> byte rx" where
  "Byte b = Cls (\<lambda>x. fold_case x = fold_case b)"

definition Lit :: "string \<Rightarrow> byte rx" where
  "Lit s = Seqs (map Byte (bytes_of s))"

text \<open>\<open>\\s\<close>, \<open>\\S\<close> on bytes.\<close>

definition space_byte :: "byte \<Rightarrow> bool" where
  "space_byte b \<longleftrightarrow> b \<in> {32, 9, 10, 13, 12, 11}"

definition Space :: "byte rx" where
  "Space = Cls space_byte"

definition Not_space :: "byte rx" where
  "Not_space = Cls (\<lambda>b. \<not> space_byte b)"

lemma matches_Lit: "matches (Lit s) (bytes_of s)"
proof (induction s)
  case (Cons c s)
  have b: "matches (Byte (of_char c)) [of_char c]" by (simp add: Byte_def)
  have "Lit (c # s) = Seq (Byte (of_char c)) (Lit s)"
    by (simp add: Lit_def bytes_of_def Seqs_def)
  moreover have "bytes_of (c # s) = [of_char c] @ bytes_of s" by (simp add: bytes_of_def)
  ultimately show ?case using m_seq [OF b Cons] by simp
qed (simp add: Lit_def bytes_of_def matches_Seqs_Nil)

end
