(* ===== verification/Inspector.thy ===== *)
theory Inspector
  imports Prelude
begin

text \<open>
  The interface between the flow table and the payload matcher: a predicate on byte strings
  that never flags the empty string.  The bounded per-direction stream buffer is a client of
  that interface; what it reports over a sequence of segments is proved here once.  For a
  matcher that is monotone (a match is not lost by appending bytes) the outcome depends only on
  the stream, not on how it was cut into segments.
\<close>

section \<open>The bounded stream buffer\<close>

text \<open>
  \<open>remaining = MAX - len(buf); if remaining > 0: buf.extend(payload[:remaining])\<close>.
\<close>

definition feed :: "nat \<Rightarrow> bytes \<Rightarrow> bytes \<Rightarrow> bytes" where
  "feed cap buf payload =
     (if int cap - int (length buf) > 0 then buf @ take (cap - length buf) payload else buf)"

lemma feed_alt: "feed cap buf payload = buf @ take (cap - length buf) payload"
  by (simp add: feed_def)

lemma feed_length: "length buf \<le> cap \<Longrightarrow> length (feed cap buf payload) \<le> cap"
  by (simp add: feed_alt)

lemma feed_full: "cap \<le> length buf \<Longrightarrow> feed cap buf payload = buf"
  by (simp add: feed_def)

lemma feed_take: "length buf \<le> cap \<Longrightarrow> feed cap buf payload = take cap (buf @ payload)"
  by (simp add: feed_alt)

lemma feed_take_take: "feed cap (take cap s) payload = take cap (s @ payload)"
  by (simp add: feed_alt min_def)

lemma feed_prefix: "\<exists>t. feed cap buf payload = buf @ t"
  by (auto simp: feed_alt)

section \<open>Inspecting a sequence of segments\<close>

locale payload_inspector =
  fixes flags :: "bytes \<Rightarrow> bool"
  assumes empty_clean: "\<not> flags []"
begin

text \<open>Does inspection fire at some segment?  Empty segments are not inspected.\<close>

fun scan :: "nat \<Rightarrow> bytes \<Rightarrow> bytes list \<Rightarrow> bool" where
  "scan cap buf [] = False"
| "scan cap buf (p # ps) =
     (if p = [] then scan cap buf ps
      else flags (feed cap buf p) \<or> scan cap (feed cap buf p) ps)"

lemma scan_iff:
  "scan cap (take cap s) ps \<longleftrightarrow>
     (\<exists>n < length ps. ps ! n \<noteq> [] \<and> flags (take cap (s @ concat (take (Suc n) ps))))"
proof (induction ps arbitrary: s)
  case (Cons p ps)
  show ?case
  proof (cases "p = []")
    case True
    then show ?thesis by (simp add: Cons Ex_less_Suc2 del: take_append)
  next
    case False
    then show ?thesis
      using Cons [of "s @ p"]
      by (simp add: feed_take_take Ex_less_Suc2 del: take_append)
  qed
qed simp

lemma scan_append:
  "scan cap (take cap s) (ps @ qs) \<longleftrightarrow>
     scan cap (take cap s) ps \<or> scan cap (take cap (s @ concat ps)) qs"
proof (induction ps arbitrary: s)
  case (Cons p ps)
  then show ?case
    using Cons [of "s @ p"] by (simp add: feed_take_take)
qed simp

text \<open>
  The buffer stops growing at its cap: once it is full and clean, nothing that follows is
  ever flagged.
\<close>

lemma scan_full_clean:
  assumes "cap \<le> length buf" and "\<not> flags buf"
  shows "\<not> scan cap buf ps"
  using assms by (induction ps) (auto simp: feed_full)

end

locale monotone_inspector = payload_inspector +
  assumes flags_mono: "flags s \<Longrightarrow> flags (s @ t)"
begin

lemma flags_take_mono: "flags (take m s) \<Longrightarrow> m \<le> n \<Longrightarrow> flags (take n s)"
proof -
  assume f: "flags (take m s)" and "m \<le> n"
  then have "take n s = take m s @ take (n - m) (drop m s)"
    by (metis le_add_diff_inverse take_add)
  with flags_mono [OF f] show ?thesis by simp
qed

lemma flags_prefix_mono: "flags (take cap s) \<Longrightarrow> flags (take cap (s @ t))"
  by (simp add: flags_mono)

theorem scan_segmentation:
  "scan cap [] ps \<longleftrightarrow> flags (take cap (concat ps))"
proof (induction ps rule: rev_induct)
  case Nil
  then show ?case by (simp add: empty_clean)
next
  case (snoc p ps)
  have "scan cap [] (ps @ [p]) \<longleftrightarrow>
      flags (take cap (concat ps)) \<or> scan cap (take cap (concat ps)) [p]"
    using scan_append [of cap "[]" ps "[p]"] snoc by simp
  also have "\<dots> \<longleftrightarrow> flags (take cap (concat ps @ p))"
    using flags_prefix_mono [of cap "concat ps" p] by (auto simp: feed_take_take)
  finally show ?case by simp
qed

end

end
