(* ===== verification/Dpi_Engine.thy ===== *)
theory Dpi_Engine
  imports Py_Strings Regex Inspector
begin

text \<open>
  The payload matcher of \<open>src/dpi_engine.py\<close>: the built-in signatures, \<open>DPIEngine.inspect\<close>,
  and the three operations on the pattern list behind the REST interface.  The compiler for
  user-supplied patterns (\<open>re.compile\<close> on an arbitrary string) is the parameter \<open>rc\<close>; the
  six built-in expressions and the two fixed expressions of the validation are translated.
\<close>

section \<open>JSON values\<close>

text \<open>What \<open>json.loads\<close> can return; the REST handlers pass such values on unchecked.\<close>

datatype json =
    JNull
  | JBool bool
  | JInt int
  | JFloat rat
  | JNan
  | JInf bool
  | JStr string
  | JList "json list"
  | JObj "(string \<times> json) list"

fun truthy :: "json \<Rightarrow> bool" where
  "truthy JNull = False"
| "truthy (JBool b) = b"
| "truthy (JInt i) = (i \<noteq> 0)"
| "truthy (JFloat q) = (q \<noteq> 0)"
| "truthy JNan = True"
| "truthy (JInf b) = True"
| "truthy (JStr s) = (s \<noteq> [])"
| "truthy (JList xs) = (xs \<noteq> [])"
| "truthy (JObj kvs) = (kvs \<noteq> [])"

section \<open>Signatures\<close>

definition MAX_BUFFER_BYTES :: nat where "MAX_BUFFER_BYTES = 8192"
definition MAX_PATTERN_LEN :: nat where "MAX_PATTERN_LEN = 512"
definition MAX_USER_PATTERNS :: nat where "MAX_USER_PATTERNS = 50"

definition Chr :: "char \<Rightarrow> char rx" where
  "Chr c = Cls (\<lambda>x. x = c)"

definition DANGEROUS_RE :: "char rx" where
  "DANGEROUS_RE = Alts [
     Seqs [Chr (CHR '')''), Chr (CHR ''+'')],
     Seqs [Chr (CHR '')''), Chr (CHR ''*'')],
     Seqs [Chr (CHR '')''), Chr (CHR ''{''), Star (Cls (\<lambda>x. x \<noteq> CHR ''}'')), Chr (CHR ''}'')]]"

definition backslash :: byte where "backslash = 92"

definition sql_injection_re :: "byte rx" where
  "sql_injection_re = Alts [
     Seqs [Lit ''union'', Plus Space, Lit ''select''],
     Seqs [Lit ''drop'', Plus Space, Lit ''table''],
     Seqs [Lit ''or'', Plus Space, Lit ''1'', Star Space, Lit ''='', Star Space, Lit ''1''],
     Lit ''--'',
     Seqs [Lit '';'', Star Space, Lit ''drop'']]"

definition nop_sled_re :: "byte rx" where
  "nop_sled_re = At_least 16 (Cls (\<lambda>b. b = 0x90))"

definition xss_re :: "byte rx" where
  "xss_re = Seqs [Lit ''<'', Star Space, Lit ''script'',
     At_most 100 (Cls (\<lambda>b. b \<noteq> of_char (CHR ''>''))), Lit ''>'']"

definition path_traversal_re :: "byte rx" where
  "path_traversal_re = Alts [
     At_least 2 (Seqs [Lit ''..'', Cls (\<lambda>b. b = backslash \<or> b = of_char (CHR ''/''))]),
     At_least 2 (Lit ''%2e%2e%2f'')]"

definition cmd_injection_re :: "byte rx" where
  "cmd_injection_re = Seqs [
     Alts [Lit '';'', Lit ''||'', Lit ''&&'', Byte 96, Lit ''$('' ],
     Star Space,
     Alts (map Lit [''ls'', ''cat'', ''id'', ''whoami'', ''wget'', ''curl'', ''bash'', ''sh'',
                    ''nc'', ''python''])]"

definition ftp_creds_re :: "byte rx" where
  "ftp_creds_re = Seqs [Alts [Lit ''USER'', Lit ''PASS''], Plus Space, Plus Not_space,
     Byte 13, Byte 10]"

section \<open>Patterns, verdicts, the engine\<close>

record dpi_pattern =
  pat_name :: string
  raw_pattern :: string
  compiled :: "bytes \<Rightarrow> bool"
  description :: json
  enabled :: bool
  builtin :: bool

record dpi_verdict =
  matched :: bool
  pattern_name :: "string option"
  pattern_description :: "json option"

type_synonym dpi_engine = "dpi_pattern list"

definition builtin_pattern :: "string \<Rightarrow> string \<Rightarrow> byte rx \<Rightarrow> string \<Rightarrow> dpi_pattern" where
  "builtin_pattern nm raw r descr =
     \<lparr>pat_name = nm, raw_pattern = raw, compiled = search r, description = JStr descr,
      enabled = True, builtin = True\<rparr>"

definition BUILTIN_DPI_PATTERNS :: "dpi_engine" where
  "BUILTIN_DPI_PATTERNS = [
     builtin_pattern ''SQL_INJECTION''
       (''union'' @ CHR 0x5C # ''s+select|drop'' @ CHR 0x5C # ''s+table|or'' @ CHR 0x5C # ''s+1''
        @ CHR 0x5C # ''s*='' @ CHR 0x5C # ''s*1|--|;'' @ CHR 0x5C # ''s*drop'')
       sql_injection_re
       ''SQL injection patterns: UNION SELECT, DROP TABLE, OR 1=1, comment sequences'',
     builtin_pattern ''SHELLCODE_NOP_SLED'' (CHR 0x5C # ''x90{16,}'') nop_sled_re
       ''x86 NOP sled (16+ consecutive 0x90 bytes) - likely shellcode prefix'',
     builtin_pattern ''XSS_SCRIPT_TAG'' (''<'' @ CHR 0x5C # ''s*script[^>]{0,100}>'') xss_re
       ''Cross-site scripting: <script> tag injection'',
     builtin_pattern ''PATH_TRAVERSAL''
       (''(?:'' @ CHR 0x5C # ''.'' @ CHR 0x5C # ''.['' @ CHR 0x5C # CHR 0x5C # ''/]){2,}|(?:%2e%2e%2f){2,}'')
       path_traversal_re
       ''Directory traversal attempts (../../ or URL-encoded)'',
     builtin_pattern ''CMD_INJECTION''
       (''(?:;|'' @ CHR 0x5C # ''|'' @ CHR 0x5C # ''||&&|'' @ CHR 0x60 # ''|'' @ CHR 0x5C # ''$''
        @ CHR 0x5C # ''()'' @ CHR 0x5C # ''s*(?:ls|cat|id|whoami|wget|curl|bash|sh|nc|python)'')
       cmd_injection_re
       ''Shell command injection chained with common commands'',
     builtin_pattern ''FTP_CLEARTEXT_CREDS''
       (''(?:USER|PASS)'' @ CHR 0x5C # ''s+'' @ CHR 0x5C # ''S+'' @ CHR 0x5C # ''r'' @ CHR 0x5C # ''n'')
       ftp_creds_re
       ''FTP credentials transmitted in cleartext (alerts on compliance issue)'']"

text \<open>\<open>DPIEngine.__init__\<close> and \<open>_init_builtin_patterns\<close>.\<close>

definition init_engine :: dpi_engine where
  "init_engine = BUILTIN_DPI_PATTERNS"

definition no_match :: dpi_verdict where
  "no_match = \<lparr>matched = False, pattern_name = None, pattern_description = None\<rparr>"

definition match_of :: "dpi_pattern \<Rightarrow> dpi_verdict" where
  "match_of p = \<lparr>matched = True, pattern_name = Some (pat_name p),
                 pattern_description = Some (description p)\<rparr>"

fun inspect_loop :: "dpi_engine \<Rightarrow> bytes \<Rightarrow> dpi_verdict" where
  "inspect_loop [] payload = no_match"
| "inspect_loop (p # ps) payload =
     (if \<not> enabled p then inspect_loop ps payload
      else if compiled p payload then match_of p
      else inspect_loop ps payload)"

definition inspect :: "dpi_engine \<Rightarrow> bytes \<Rightarrow> dpi_verdict" where
  "inspect e payload = (if payload = [] then no_match else inspect_loop e payload)"

section \<open>Adding, removing, listing\<close>

text \<open>The outcome of \<open>re.compile\<close>: a matcher, \<open>re.error\<close>, or another exception.\<close>

datatype compile_result = Compiled "bytes \<Rightarrow> bool" | ReError string | CompileRaises py_exn

definition name_char :: "char \<Rightarrow> bool" where
  "name_char c \<longleftrightarrow> (let n = (of_char c :: nat) in
     65 \<le> n \<and> n \<le> 90 \<or> 97 \<le> n \<and> n \<le> 122 \<or> 48 \<le> n \<and> n \<le> 57 \<or> n = 95 \<or> n = 45)"

text \<open>\<open>re.match(r'^[A-Za-z0-9_\-]+$', name)\<close>; the dollar also matches before a final newline.\<close>

definition name_ok :: "string \<Rightarrow> bool" where
  "name_ok s \<longleftrightarrow>
     (s \<noteq> [] \<and> list_all name_char s) \<or>
     (s \<noteq> [] \<and> last s = CHR 0x0A \<and> butlast s \<noteq> [] \<and> list_all name_char (butlast s))"

definition user_count :: "dpi_engine \<Rightarrow> nat" where
  "user_count e = length (filter (\<lambda>p. \<not> builtin p) e)"

definition add_pattern ::
  "(string \<Rightarrow> compile_result) \<Rightarrow> dpi_engine \<Rightarrow> json \<Rightarrow> json \<Rightarrow> json \<Rightarrow> (dpi_pattern \<times> dpi_engine) res"
where
  "add_pattern rc e jname jraw descr =
     (case jname of
        JStr name0 \<Rightarrow>
          (let name = strip name0 in
           if name = [] then Inl (ValueError ''Pattern name is required'')
           else if length name > 64 then Inl (ValueError ''Pattern name is too long'')
           else if \<not> name_ok name then Inl (ValueError ''Pattern name is invalid'')
           else if name \<in> pat_name ` set e
             then Inl (ValueError (''Pattern \"'' @ name @ ''\" already exists''))
           else if \<not> truthy jraw then Inl (ValueError ''Pattern body is required'')
           else (case jraw of
             JStr raw \<Rightarrow>
               (if strip raw = [] then Inl (ValueError ''Pattern body is required'')
                else if length raw > MAX_PATTERN_LEN
                  then Inl (ValueError ''Pattern body is too long (max 512 chars)'')
                else if search DANGEROUS_RE raw
                  then Inl (ValueError ''Pattern contains constructs that risk catastrophic backtracking. Use a simpler pattern'')
                else if user_count e \<ge> MAX_USER_PATTERNS
                  then Inl (ValueError ''User pattern limit reached (max 50)'')
                else (case rc raw of
                    ReError m \<Rightarrow> Inl (ValueError (''Invalid regex syntax: '' @ m))
                  | CompileRaises x \<Rightarrow> Inl x
                  | Compiled f \<Rightarrow>
                      (let p = \<lparr>pat_name = name, raw_pattern = raw, compiled = f,
                                description = descr, enabled = True, builtin = False\<rparr>
                       in Inr (p, e @ [p]))))
           | _ \<Rightarrow> Inl AttributeError))
      | _ \<Rightarrow> Inl AttributeError)"

definition remove_pattern :: "dpi_engine \<Rightarrow> string \<Rightarrow> (bool \<times> dpi_engine) res" where
  "remove_pattern e name =
     (case find (\<lambda>p. pat_name p = name) e of
        None \<Rightarrow> Inr (False, e)
      | Some target \<Rightarrow>
          if builtin target
          then Inl (ValueError (''Pattern \"'' @ name @ ''\" is built-in and cannot be removed''))
          else Inr (True, filter (\<lambda>p. pat_name p \<noteq> name) e))"

definition list_patterns :: "dpi_engine \<Rightarrow> json list" where
  "list_patterns e = map (\<lambda>p. JObj [
     (''name'', JStr (pat_name p)), (''raw_pattern'', JStr (raw_pattern p)),
     (''description'', description p), (''enabled'', JBool (enabled p)),
     (''builtin'', JBool (builtin p))]) e"

section \<open>What inspection reports\<close>

named_theorems dpi_simps

lemma no_match_simps [simp, dpi_simps]:
  "matched no_match = False" "pattern_name no_match = None"
  by (simp_all add: no_match_def)

lemma match_of_simps [simp, dpi_simps]:
  "matched (match_of p) = True" "pattern_name (match_of p) = Some (pat_name p)"
  "pattern_description (match_of p) = Some (description p)"
  by (simp_all add: match_of_def)

definition fires :: "bytes \<Rightarrow> dpi_pattern \<Rightarrow> bool" where
  "fires payload p \<longleftrightarrow> enabled p \<and> compiled p payload"

lemma inspect_loop_find:
  "inspect_loop e payload =
     (case find (fires payload) e of None \<Rightarrow> no_match | Some p \<Rightarrow> match_of p)"
  by (induction e) (auto simp: fires_def)

lemma inspect_loop_matched: "matched (inspect_loop e payload) \<longleftrightarrow> (\<exists>p \<in> set e. fires payload p)"
  by (induction e) (auto simp: fires_def)

lemma inspect_matched:
  "matched (inspect e payload) \<longleftrightarrow> payload \<noteq> [] \<and> (\<exists>p \<in> set e. fires payload p)"
  by (simp add: inspect_def inspect_loop_matched)

lemma inspect_not_matched: "\<not> matched (inspect e payload) \<Longrightarrow> inspect e payload = no_match"
  by (auto simp: inspect_def inspect_loop_find split: option.splits)

section \<open>Well-formed engines\<close>

text \<open>
  The engine always starts with the six built-in signatures, unchanged and enabled; names are
  distinct; at most fifty further patterns follow, none of them marked built-in, each with a
  legal name and a body of legal length.
\<close>

definition user_pattern_ok :: "dpi_pattern \<Rightarrow> bool" where
  "user_pattern_ok p \<longleftrightarrow>
     \<not> builtin p \<and> enabled p \<and> length (pat_name p) \<le> 64 \<and> name_ok (pat_name p) \<and>
     length (raw_pattern p) \<le> MAX_PATTERN_LEN \<and> \<not> search DANGEROUS_RE (raw_pattern p)"

definition engine_wf :: "dpi_engine \<Rightarrow> bool" where
  "engine_wf e \<longleftrightarrow>
     (\<exists>us. e = BUILTIN_DPI_PATTERNS @ us \<and> list_all user_pattern_ok us) \<and>
     distinct (map pat_name e) \<and> user_count e \<le> MAX_USER_PATTERNS"

lemma builtin_all: "list_all (\<lambda>p. builtin p \<and> enabled p) BUILTIN_DPI_PATTERNS"
  by (simp add: BUILTIN_DPI_PATTERNS_def builtin_pattern_def)

lemma builtin_names:
  "map pat_name BUILTIN_DPI_PATTERNS =
     [''SQL_INJECTION'', ''SHELLCODE_NOP_SLED'', ''XSS_SCRIPT_TAG'', ''PATH_TRAVERSAL'',
      ''CMD_INJECTION'', ''FTP_CLEARTEXT_CREDS'']"
  by (simp add: BUILTIN_DPI_PATTERNS_def builtin_pattern_def)

lemma user_count_builtin [simp]: "user_count BUILTIN_DPI_PATTERNS = 0"
  using builtin_all by (simp add: user_count_def list_all_iff)

lemma user_count_append [simp]: "user_count (e @ f) = user_count e + user_count f"
  by (simp add: user_count_def)

lemma user_count_filter: "user_count (filter P e) \<le> user_count e"
  by (induction e) (auto simp: user_count_def)

lemma engine_wf_init: "engine_wf init_engine"
  by (simp add: engine_wf_def init_engine_def builtin_names)

text \<open>What a successful \<open>add_pattern\<close> has checked, in one inversion rule.\<close>

lemma add_patternD:
  assumes "add_pattern rc e jn jr descr = Inr (p, e')"
  obtains raw f where
    "e' = e @ [p]" "rc raw = Compiled f" "jr = JStr raw"
    "compiled p = f" "raw_pattern p = raw" "user_pattern_ok p"
    "pat_name p \<notin> pat_name ` set e" "user_count e < MAX_USER_PATTERNS"
  using assms
  by (auto simp: add_pattern_def Let_def user_pattern_ok_def
      split: json.splits if_splits compile_result.splits)

lemma add_pattern_wf:
  assumes "engine_wf e" and "add_pattern rc e jn jr descr = Inr (p, e')"
  shows "engine_wf e'"
  using assms(2)
proof (cases rule: add_patternD)
  case (1 raw f)
  from assms(1) obtain us where e: "e = BUILTIN_DPI_PATTERNS @ us"
    and us: "list_all user_pattern_ok us" and d: "distinct (map pat_name e)"
    by (auto simp: engine_wf_def)
  have "e' = BUILTIN_DPI_PATTERNS @ (us @ [p])" "list_all user_pattern_ok (us @ [p])"
    using 1 e us by simp_all
  moreover have "distinct (map pat_name e')" using 1 d by auto
  moreover have "user_count e' \<le> MAX_USER_PATTERNS"
    using 1 by (auto simp: user_count_def)
  ultimately show ?thesis unfolding engine_wf_def by blast
qed

lemma engine_wf_builtin_name:
  assumes "engine_wf e" and "q \<in> set BUILTIN_DPI_PATTERNS" and "p \<in> set e"
    and "pat_name p = pat_name q"
  shows "p = q"
proof -
  have "q \<in> set e" using assms(1,2) by (auto simp: engine_wf_def)
  then show ?thesis
    using assms by (auto simp: engine_wf_def distinct_map dest: inj_onD)
qed

lemma remove_patternD:
  assumes "remove_pattern e name = Inr (True, e')"
  obtains p where "p \<in> set e" "pat_name p = name" "\<not> builtin p"
    "e' = filter (\<lambda>p. pat_name p \<noteq> name) e"
  using assms
  by (auto simp: remove_pattern_def split: option.splits if_splits dest!: find_SomeD)

lemma remove_pattern_False: "remove_pattern e name = Inr (False, e') \<Longrightarrow> e' = e"
  by (auto simp: remove_pattern_def split: option.splits if_splits)

lemma remove_pattern_wf:
  assumes wf: "engine_wf e" and rm: "remove_pattern e name = Inr (b, e')"
  shows "engine_wf e'"
proof (cases b)
  case False
  with rm wf show ?thesis by (auto dest: remove_pattern_False)
next
  case True
  with rm obtain p where p: "p \<in> set e" "pat_name p = name" "\<not> builtin p"
    and e': "e' = filter (\<lambda>p. pat_name p \<noteq> name) e"
    by (auto elim: remove_patternD)
  from wf obtain us where e: "e = BUILTIN_DPI_PATTERNS @ us" and us: "list_all user_pattern_ok us"
    by (auto simp: engine_wf_def)
  have "pat_name q \<noteq> name" if q: "q \<in> set BUILTIN_DPI_PATTERNS" for q
  proof
    assume "pat_name q = name"
    then have "p = q" using engine_wf_builtin_name [OF wf q p(1)] p(2) by simp
    moreover have "builtin q" using builtin_all q unfolding list_all_iff by blast
    ultimately show False using p(3) by simp
  qed
  then have "filter (\<lambda>p. pat_name p \<noteq> name) BUILTIN_DPI_PATTERNS = BUILTIN_DPI_PATTERNS"
    by (simp add: filter_id_conv)
  then have "e' = BUILTIN_DPI_PATTERNS @ filter (\<lambda>p. pat_name p \<noteq> name) us"
    by (simp add: e' e)
  moreover have "distinct (map pat_name e')"
    using wf by (simp add: e' engine_wf_def distinct_map_filter)
  moreover have "user_count e' \<le> user_count e"
    by (simp add: e' user_count_filter)
  ultimately show ?thesis
    using wf us by (auto simp: engine_wf_def list_all_iff)
qed

lemma remove_builtin:
  assumes wf: "engine_wf e" and q: "q \<in> set BUILTIN_DPI_PATTERNS"
  shows "\<exists>m. remove_pattern e (pat_name q) = Inl (ValueError m)"
proof -
  have "q \<in> set e" using wf q by (auto simp: engine_wf_def)
  then obtain p where p: "find (\<lambda>p. pat_name p = pat_name q) e = Some p"
    by (cases "find (\<lambda>p. pat_name p = pat_name q) e") (auto simp: find_None_iff)
  then have "p \<in> set e" "pat_name p = pat_name q" by (auto dest: find_SomeD)
  with engine_wf_builtin_name [OF wf q] have "p = q" by blast
  with p q builtin_all show ?thesis by (auto simp: remove_pattern_def list_all_iff)
qed

lemma add_then_remove:
  assumes "add_pattern rc e jn jr descr = Inr (p, e')"
  shows "remove_pattern e' (pat_name p) = Inr (True, e)"
  using assms
proof (cases rule: add_patternD)
  case (1 raw f)
  then have fresh: "pat_name q \<noteq> pat_name p" if "q \<in> set e" for q
    using that by (metis imageI)
  then have "find (\<lambda>q. pat_name q = pat_name p) e = None"
    by (auto simp: find_None_iff)
  then have "find (\<lambda>q. pat_name q = pat_name p) e' = Some p"
    using 1 by (simp add: find_append)
  moreover have "filter (\<lambda>q. pat_name q \<noteq> pat_name p) e' = e"
    using 1(1) fresh by (simp add: filter_id_conv)
  ultimately show ?thesis
    using 1 by (simp add: remove_pattern_def user_pattern_ok_def)
qed

section \<open>The engine as an inspector\<close>

definition flagged :: "dpi_engine \<Rightarrow> bytes \<Rightarrow> bool" where
  "flagged e payload \<longleftrightarrow> matched (inspect e payload)"

interpretation engine: payload_inspector "flagged e" for e
  by unfold_locales (simp add: flagged_def inspect_def)

text \<open>
  Every built-in expression is free of anchors, so the engine of the built-in signatures is
  monotone; a user pattern may be anchored, so the general engine is not.
\<close>

lemma builtin_compiled: "p \<in> set BUILTIN_DPI_PATTERNS \<Longrightarrow> \<exists>r. compiled p = search r"
  by (auto simp: BUILTIN_DPI_PATTERNS_def builtin_pattern_def)

lemma flagged_builtin_append:
  assumes "flagged BUILTIN_DPI_PATTERNS s"
  shows "flagged BUILTIN_DPI_PATTERNS (t @ s @ u)"
proof -
  from assms obtain p where p: "p \<in> set BUILTIN_DPI_PATTERNS" "fires s p" and "s \<noteq> []"
    by (auto simp: flagged_def inspect_matched)
  moreover from p have "fires (t @ s @ u) p"
    using builtin_compiled [OF p(1)] by (auto simp: fires_def search_append)
  ultimately show ?thesis by (auto simp: flagged_def inspect_matched)
qed

interpretation builtin_engine: monotone_inspector "flagged BUILTIN_DPI_PATTERNS"
  by unfold_locales (use flagged_builtin_append [of _ "[]"] in simp)

text \<open>User patterns only add matches.\<close>

lemma flagged_wf_builtin:
  "engine_wf e \<Longrightarrow> flagged BUILTIN_DPI_PATTERNS s \<Longrightarrow> flagged e s"
  by (auto simp: engine_wf_def flagged_def inspect_matched)

end
