(* ===== verification/Packet_Struct.thy ===== *)
theory Packet_Struct
  imports Prelude
begin

unbundle bit_operations_syntax

text \<open>
  Python's \<open>struct\<close> on big-endian unsigned fields and byte slices, as the packet library uses
  them, and the address converters of \<open>ryu/lib/addrconv.py\<close>, whose work is done by the
  \<open>netaddr\<close> package and is therefore a parameter.  The locale \<open>codec\<close> is the contract
  between a header's \<open>serialize\<close> and its \<open>parser\<close>.
\<close>

section \<open>Fields\<close>

definition slice :: "nat \<Rightarrow> nat \<Rightarrow> 'a list \<Rightarrow> 'a list" where
  "slice a b xs = drop a (take b xs)"

definition be16 :: "nat \<Rightarrow> bytes" where
  "be16 n = [word_of_nat (n div 256), word_of_nat n]"

definition be32 :: "nat \<Rightarrow> bytes" where
  "be32 n = [word_of_nat (n div 16777216), word_of_nat (n div 65536),
             word_of_nat (n div 256), word_of_nat n]"

definition u8_at :: "bytes \<Rightarrow> nat \<Rightarrow> nat" where
  "u8_at b i = unat (b ! i)"

definition u16_at :: "bytes \<Rightarrow> nat \<Rightarrow> nat" where
  "u16_at b i = unat (b ! i) * 256 + unat (b ! Suc i)"

definition u32_at :: "bytes \<Rightarrow> nat \<Rightarrow> nat" where
  "u32_at b i = u16_at b i * 65536 + u16_at b (Suc (Suc i))"

text \<open>Packing raises \<open>struct.error\<close> when the value does not fit the field.\<close>

definition pack_B :: "nat \<Rightarrow> bytes res" where
  "pack_B n = (if n < 256 then Inr [word_of_nat n] else Inl StructError)"

definition pack_H :: "nat \<Rightarrow> bytes res" where
  "pack_H n = (if n < 65536 then Inr (be16 n) else Inl StructError)"

definition pack_I :: "nat \<Rightarrow> bytes res" where
  "pack_I n = (if n < 4294967296 then Inr (be32 n) else Inl StructError)"

text \<open>\<open>struct.pack\<close> of several fields: each is checked, the bytes are concatenated.\<close>

fun pack_all :: "bytes res list \<Rightarrow> bytes res" where
  "pack_all [] = Inr []"
| "pack_all (Inl e # fs) = Inl e"
| "pack_all (Inr b # fs) = (case pack_all fs of Inl e \<Rightarrow> Inl e | Inr bs \<Rightarrow> Inr (b @ bs))"

named_theorems wire_simps

lemma be16_length [simp]: "length (be16 n) = 2"
  by (simp add: be16_def)

lemma be32_length [simp]: "length (be32 n) = 4"
  by (simp add: be32_def)

lemma unat_byte [wire_simps]: "unat (word_of_nat n :: byte) = n mod 256"
  by (simp add: unat_of_nat)

lemma div_mod_256: "n < 65536 \<Longrightarrow> (n div 256) mod 256 * 256 + n mod 256 = (n :: nat)"
  by (simp add: less_mult_imp_div_less)

lemma u16_be16:
  "\<lbrakk>n < 65536; b ! i = word_of_nat (n div 256); b ! Suc i = word_of_nat n\<rbrakk> \<Longrightarrow> u16_at b i = n"
  by (simp add: u16_at_def unat_byte div_mod_256)

lemma u32_be32:
  assumes "n < 4294967296" and "b ! i = word_of_nat (n div 16777216)"
    and "b ! (i + 1) = word_of_nat (n div 65536)" and "b ! (i + 2) = word_of_nat (n div 256)"
    and "b ! (i + 3) = word_of_nat n"
  shows "u32_at b i = n"
proof -
  have hi: "n div 65536 < 65536" using assms(1) by (simp add: less_mult_imp_div_less)
  have "n div 16777216 = n div 65536 div 256" by (simp add: div_mult2_eq [symmetric])
  then have "u16_at b i = n div 65536"
    using assms hi by (intro u16_be16) simp_all
  moreover have "u16_at b (Suc (Suc i)) = n mod 65536"
  proof -
    have "(n div 256) mod 256 = (n mod 65536) div 256"
      using mod_mult2_eq [of n 256 256] by simp
    moreover have "n mod 256 = (n mod 65536) mod 256" by (simp add: mod_mod_cancel)
    ultimately show ?thesis
      using assms by (simp add: u16_at_def unat_byte numeral_3_eq_3 div_mod_256)
  qed
  ultimately show ?thesis by (simp add: u32_at_def)
qed

lemma unat_byte_less: "unat (w :: byte) < 256"
  using unsigned_less [of w, where ?'a = nat] by simp

lemma u16_at_less: "u16_at b i < 65536"
  using unat_byte_less [of "b ! i"] unat_byte_less [of "b ! Suc i"] by (simp add: u16_at_def)

lemma u8_at_less: "u8_at b i < 256"
  by (simp add: u8_at_def unat_byte_less)

lemma u32_at_less: "u32_at b i < 4294967296"
  using u16_at_less [of b i] u16_at_less [of b "Suc (Suc i)"] by (simp add: u32_at_def)

section \<open>Shifts and masks on field values\<close>

lemma or_disjoint: "b < 2 ^ n \<Longrightarrow> push_bit n a OR b = a * 2 ^ n + (b :: nat)"
proof -
  assume b: "b < 2 ^ n"
  then have "take_bit n b = b" by (simp add: take_bit_nat_eq_self)
  then have bits: "\<not> bit b m" if "n \<le> m" for m
    using that by (metis bit_take_bit_iff leD)
  then have "push_bit n a + b = push_bit n a OR b"
    by (intro disjunctive_add_eq_or bit_eqI) (auto simp: bit_and_iff bit_push_bit_iff dest: bits)
  then show ?thesis by (simp add: push_bit_eq_mult)
qed

lemma and_mask: "(a :: nat) AND (2 ^ n - 1) = a mod 2 ^ n"
  by (metis mask_eq_exp_minus_1 take_bit_eq_mask take_bit_eq_mod)

lemma and_masks [wire_simps]:
  "(a :: nat) AND 15 = a mod 16" "(a :: nat) AND 63 = a mod 64"
  "(a :: nat) AND 4095 = a mod 4096" "(a :: nat) AND 8191 = a mod 8192"
  "(a :: nat) AND 65535 = a mod 65536" "(a :: nat) AND 32767 = a mod 32768"
  "(a :: nat) AND 255 = a mod 256" "(a :: nat) AND 1 = a mod 2"
  using and_mask [of a 4] and_mask [of a 6] and_mask [of a 12] and_mask [of a 13]
    and_mask [of a 16] and_mask [of a 15] and_mask [of a 8] and_mask [of a 1] by simp_all

section \<open>Addresses\<close>

text \<open>
  \<open>addrconv.mac\<close> and \<open>addrconv.ipv4\<close>: conversion between the wire bytes and the text in the
  header objects.  What the development relies on, where it does, is \<open>addrconv_ok\<close>: text is
  parsed back to the bytes it was printed from.
\<close>

record addrconv =
  mac_to_text :: "bytes \<Rightarrow> string"
  mac_to_bin :: "string \<Rightarrow> bytes res"
  ip_to_text :: "bytes \<Rightarrow> string"
  ip_to_bin :: "string \<Rightarrow> bytes res"

definition addrconv_ok :: "addrconv \<Rightarrow> bool" where
  "addrconv_ok ac \<longleftrightarrow>
     (\<forall>b. length b = 6 \<longrightarrow> mac_to_bin ac (mac_to_text ac b) = Inr b) \<and>
     (\<forall>b. length b = 4 \<longrightarrow> ip_to_bin ac (ip_to_text ac b) = Inr b)"

definition mac_text_of :: "addrconv \<Rightarrow> string \<Rightarrow> bytes \<Rightarrow> bool" where
  "mac_text_of ac t b \<longleftrightarrow> length b = 6 \<and> mac_to_bin ac t = Inr b \<and> mac_to_text ac b = t"

definition ip_text_of :: "addrconv \<Rightarrow> string \<Rightarrow> bytes \<Rightarrow> bool" where
  "ip_text_of ac t b \<longleftrightarrow> length b = 4 \<and> ip_to_bin ac t = Inr b \<and> ip_to_text ac b = t"

lemma addrconv_okD:
  "addrconv_ok ac \<Longrightarrow> length b = 6 \<Longrightarrow> mac_text_of ac (mac_to_text ac b) b"
  "addrconv_ok ac \<Longrightarrow> length b = 4 \<Longrightarrow> ip_text_of ac (ip_to_text ac b) b"
  by (simp_all add: addrconv_ok_def mac_text_of_def ip_text_of_def)

section \<open>The codec contract\<close>

text \<open>
  What a header class promises: on a well-formed header, serialising succeeds, and parsing
  the bytes followed by any payload returns the header (as normalised by serialising) and the
  payload.
\<close>

locale codec =
  fixes wf :: "'h \<Rightarrow> bytes \<Rightarrow> bool"
    and ser :: "'h \<Rightarrow> bytes \<Rightarrow> bytes res"
    and norm :: "'h \<Rightarrow> bytes \<Rightarrow> 'h"
    and par :: "bytes \<Rightarrow> ('h \<times> bytes) res"
  assumes ser_ok: "wf h payload \<Longrightarrow> \<exists>b. ser h payload = Inr b"
    and par_ser: "wf h payload \<Longrightarrow> ser h payload = Inr b \<Longrightarrow>
      par (b @ payload) = Inr (norm h payload, payload)"
begin

lemma roundtrip:
  assumes "wf h payload"
  obtains b where "ser h payload = Inr b" "par (b @ payload) = Inr (norm h payload, payload)"
  using ser_ok [OF assms] par_ser [OF assms] by blast

text \<open>Two headers with the same bytes over the same payload are the same after normalising.\<close>

lemma ser_inject:
  "\<lbrakk>wf h p; wf h' p; ser h p = Inr b; ser h' p = Inr b\<rbrakk> \<Longrightarrow> norm h p = norm h' p"
  by (metis par_ser Pair_inject sum.inject(2))

end

end
