(* ===== verification/Packet_Utils.thy ===== *)
theory Packet_Utils
  imports Packet_Struct
begin

text \<open>
  \<open>ryu/lib/packet/packet_utils.py\<close>: the Internet checksum and the pseudo-header checksum.
  \<open>array.array('H', data)\<close> and \<open>socket.ntohs\<close> depend on the host's byte order, which is the
  argument \<open>le\<close> (little-endian); the result is shown not to depend on it, and appending the
  checksum makes the data verify.
\<close>

section \<open>The Internet checksum\<close>

definition carry_around_add :: "nat \<Rightarrow> nat \<Rightarrow> nat" where
  "carry_around_add a b = (let c = a + b in (c AND 65535) + drop_bit 16 c)"

definition word16 :: "bool \<Rightarrow> byte \<Rightarrow> byte \<Rightarrow> nat" where
  "word16 le x y = (if le then unat x + 256 * unat y else 256 * unat x + unat y)"

text \<open>\<open>sum(array.array('H', data))\<close>, after padding to an even length.\<close>

fun sum16 :: "bool \<Rightarrow> bytes \<Rightarrow> nat" where
  "sum16 le [] = 0"
| "sum16 le [x] = word16 le x 0"
| "sum16 le (x # y # zs) = word16 le x y + sum16 le zs"

definition ntohs :: "bool \<Rightarrow> nat \<Rightarrow> nat" where
  "ntohs le n = (if le then (n mod 256) * 256 + n div 256 else n)"

definition fold16 :: "nat \<Rightarrow> nat" where
  "fold16 s0 =
     (let s1 = (s0 AND 65535) + drop_bit 16 s0; s2 = s1 + drop_bit 16 s1
      in 65535 - (s2 AND 65535))"

definition checksum :: "bool \<Rightarrow> bytes \<Rightarrow> nat" where
  "checksum le data = ntohs le (fold16 (sum16 le data))"

datatype ip_view =
    V4 (ipv_src: string) (ipv_dst: string) (ipv_proto: nat)
  | Other_version nat

text \<open>
  \<open>checksum_ip\<close> for an IPv4 enclosing header.  An \<open>ipv4\<close> object whose version field is 6 takes
  the IPv6 branch, where its dotted-quad addresses are refused by \<open>netaddr\<close>; any other version
  raises \<open>ValueError\<close>.
\<close>

definition checksum_ip :: "bool \<Rightarrow> addrconv \<Rightarrow> ip_view \<Rightarrow> nat \<Rightarrow> bytes \<Rightarrow> nat res" where
  "checksum_ip le ac v len payload =
     (case v of
        V4 src dst proto \<Rightarrow>
          (case pack_all [ip_to_bin ac src, ip_to_bin ac dst, Inr [0], pack_B proto, pack_H len] of
             Inl e \<Rightarrow> Inl e
           | Inr header \<Rightarrow> Inr (checksum le (header @ payload)))
      | Other_version n \<Rightarrow>
          if n = 6 then Inl (OtherError ''AddrFormatError'')
          else Inl (ValueError ''Unknown IP version''))"

section \<open>Folding is addition modulo 65535\<close>

lemma fold16_div_mod:
  "fold16 s = 65535 - ((s mod 65536 + s div 65536) + (s mod 65536 + s div 65536) div 65536) mod 65536"
  by (simp add: fold16_def Let_def and_masks drop_bit_eq_div)

definition ones_sum :: "nat \<Rightarrow> nat" where
  "ones_sum s = (if s = 0 then 0 else (s - 1) mod 65535 + 1)"

lemma mod_once: "(m :: nat) \<le> a \<Longrightarrow> a < 2 * m \<Longrightarrow> a mod m = a - m"
  by (simp add: le_mod_geq)

lemma fold_once:
  assumes "0 < u" and "u \<le> 131070"
  shows "(u + u div 65536) mod 65536 = (u - 1) mod 65535 + (1 :: nat)"
proof (cases "u \<le> 65535")
  case True
  then have "u div 65536 = 0" "u mod 65536 = u" "(u - 1) mod 65535 = u - 1"
    using assms by simp_all
  then show ?thesis using assms by simp
next
  case False
  then have "u div 65536 = 1" using assms by (intro div_nat_eqI) simp_all
  moreover have "(u + 1) mod 65536 = u + 1 - 65536" using False assms by (intro mod_once) simp_all
  moreover have "(u - 1) mod 65535 = u - 1 - 65535" using False assms by (intro mod_once) simp_all
  ultimately show ?thesis using False by simp
qed

lemma fold16_ones_sum:
  assumes "s \<le> 65536 * 65535"
  shows "fold16 s = 65535 - ones_sum s"
proof -
  define q r where "q = s div 65536" and "r = s mod 65536"
  have s: "s = 65536 * q + r" by (simp add: q_def r_def)
  have r: "r < 65536" by (simp add: r_def)
  have q: "q \<le> 65535" using assms by (simp add: q_def)
  show ?thesis
  proof (cases "s = 0")
    case True
    then show ?thesis by (simp add: ones_sum_def fold16_div_mod)
  next
    case False
    define u where "u = q + r"
    have u0: "0 < u" "u \<le> 131070" using False s q r by (auto simp: u_def)
    have "s - 1 = 65535 * q + (u - 1)" using s u0 by (simp add: u_def)
    then have "(s - 1) mod 65535 = (u - 1) mod 65535" by simp
    moreover have "(u + u div 65536) mod 65536 = (u - 1) mod 65535 + 1"
      using u0 by (rule fold_once)
    moreover have "s mod 65536 + s div 65536 = u" by (simp add: u_def q_def r_def)
    ultimately show ?thesis using False by (simp add: fold16_div_mod ones_sum_def)
  qed
qed

lemma ones_sum_bound: "ones_sum s \<le> 65535"
proof -
  have "(s - 1) mod 65535 < 65535" by simp
  then have "(s - 1) mod 65535 + 1 \<le> 65535" by linarith
  then show ?thesis unfolding ones_sum_def by (cases "s = 0") (simp, simp only: if_False)
qed

lemma ones_sum_mod: "ones_sum s mod 65535 = s mod 65535"
  by (cases s) (simp_all add: ones_sum_def mod_Suc_eq)

lemma ones_sum_0 [simp]: "ones_sum s = 0 \<longleftrightarrow> s = 0"
  by (simp add: ones_sum_def)

lemma ones_sum_unique:
  "\<lbrakk>a mod 65535 = b mod 65535; a = 0 \<longleftrightarrow> b = 0; a \<le> 65535; b \<le> 65535\<rbrakk> \<Longrightarrow> a = (b :: nat)"
  by (cases "a = 65535"; cases "b = 65535") auto

lemma word16_le: "word16 le x y \<le> 65535"
  using unat_byte_less [of x] unat_byte_less [of y] by (simp add: word16_def)

lemma sum16_bound: "sum16 le bs \<le> 65535 * ((length bs + 1) div 2)"
proof (induction le bs rule: sum16.induct)
  case (3 le x y zs)
  then show ?case using word16_le [of le x y] by simp
qed (simp_all add: word16_le)

lemma sum16_append: "even (length a) \<Longrightarrow> sum16 le (a @ b) = sum16 le a + sum16 le b"
  by (induction le a rule: sum16.induct) auto

lemma sum16_le_be: "sum16 True bs mod 65535 = (256 * sum16 False bs) mod 65535"
proof (induction "False" bs rule: sum16.induct)
  case (2 x)
  have "256 * word16 False x 0 = word16 True x 0 + 65535 * unat x"
    by (simp add: word16_def)
  then show ?case by simp
next
  case (3 x y zs)
  have "256 * word16 False x y = word16 True x y + 65535 * unat x"
    by (simp add: word16_def algebra_simps)
  then have "word16 True x y mod 65535 = (256 * word16 False x y) mod 65535"
    by simp
  with 3 show ?case by (simp add: distrib_left) (metis mod_add_cong)
qed simp

lemma sum16_zero: "sum16 True bs = 0 \<longleftrightarrow> sum16 False bs = 0"
  by (induction "False" bs rule: sum16.induct) (auto simp: word16_def)

lemma ntohs_involutive: "n < 65536 \<Longrightarrow> ntohs le (ntohs le n) = n"
  by (simp add: ntohs_def less_mult_imp_div_less)

lemma ntohs_True_0: "ntohs True n = 0 \<longleftrightarrow> n = 0"
proof
  assume "ntohs True n = 0"
  then have "n mod 256 = 0" "n div 256 = 0" by (simp_all add: ntohs_def)
  then show "n = 0" using div_mult_mod_eq [of n 256] by linarith
qed (simp add: ntohs_def)

lemma ntohs_bound: "n < 65536 \<Longrightarrow> ntohs le n < 65536"
proof -
  assume "n < 65536"
  then have "n div 256 < 256" "n mod 256 < 256" by (simp_all add: less_mult_imp_div_less)
  then have "n mod 256 * 256 + n div 256 < 65536" by linarith
  with \<open>n < 65536\<close> show ?thesis by (simp add: ntohs_def)
qed

section \<open>Independence of the host's byte order, verification\<close>

text \<open>A datagram is at most 65535 bytes; the two folds are exact up to twice that.\<close>

definition fits :: "bytes \<Rightarrow> bool" where
  "fits bs \<longleftrightarrow> length bs \<le> 131070"

lemma sum16_fits: "fits bs \<Longrightarrow> sum16 le bs \<le> 65536 * 65535"
proof -
  assume "fits bs"
  then have "(length bs + 1) div 2 \<le> 65536" by (simp add: fits_def)
  then have "65535 * ((length bs + 1) div 2) \<le> 65535 * 65536" by (intro mult_le_mono2)
  with sum16_bound [of le bs] show ?thesis by simp
qed

lemma fold16_fits: "fits bs \<Longrightarrow> fold16 (sum16 le bs) = 65535 - ones_sum (sum16 le bs)"
  by (intro fold16_ones_sum sum16_fits)

lemma swap_mod: "n \<le> 65535 \<Longrightarrow> ((n mod 256) * 256 + n div 256) mod 65535 = (256 * n) mod (65535 :: nat)"
proof -
  have "256 * n = (n mod 256) * 256 + n div 256 + 65535 * (n div 256)"
    using div_mult_mod_eq [of n 256] by linarith
  then show ?thesis by (metis mod_mult_self2)
qed

lemma ntohs_split: "a < 256 \<Longrightarrow> b < 256 \<Longrightarrow> ntohs True (256 * a + b) = 256 * b + a"
  by (simp add: ntohs_def)

lemma ntohs_complement:
  assumes "n \<le> 65535"
  shows "ntohs True (65535 - ntohs True n) = 65535 - n"
proof -
  define h l where "h = n div 256" and "l = n mod 256"
  have n: "n = 256 * h + l" by (simp add: h_def l_def)
  have hl: "h < 256" "l < 256" using assms by (simp_all add: h_def l_def)
  have "ntohs True n = 256 * l + h" using hl by (simp add: n ntohs_split)
  moreover have "65535 - (256 * l + h) = 256 * (255 - l) + (255 - h)" using hl by simp
  moreover have "ntohs True (256 * (255 - l) + (255 - h)) = 256 * (255 - h) + (255 - l)"
    by (rule ntohs_split) simp_all
  moreover have "256 * (255 - h) + (255 - l) = 65535 - n" using hl n by simp
  ultimately show ?thesis by simp
qed

lemma checksum_endian:
  assumes "fits bs"
  shows "checksum True bs = checksum False bs"
proof -
  let ?b = "ones_sum (sum16 False bs)" and ?l = "ones_sum (sum16 True bs)"
  have l: "?l = ntohs True ?b"
  proof (rule ones_sum_unique)
    show "?l mod 65535 = ntohs True ?b mod 65535"
    proof -
      have "ntohs True ?b mod 65535 = (256 * ?b) mod 65535"
        using swap_mod [OF ones_sum_bound] by (simp add: ntohs_def)
      also have "\<dots> = (256 * sum16 False bs) mod 65535"
        by (metis mod_mult_right_eq ones_sum_mod)
      finally show ?thesis by (simp only: ones_sum_mod sum16_le_be)
    qed
    show "?l = 0 \<longleftrightarrow> ntohs True ?b = 0"
      by (simp add: sum16_zero ntohs_True_0)
    show "ntohs True ?b \<le> 65535"
      using ntohs_bound [of ?b True] ones_sum_bound [of "sum16 False bs"] by simp
  qed (rule ones_sum_bound)
  have "checksum True bs = ntohs True (65535 - ntohs True ?b)"
    unfolding checksum_def fold16_fits [OF assms] l ..
  also have "\<dots> = 65535 - ?b"
    by (rule ntohs_complement) (rule ones_sum_bound)
  also have "\<dots> = checksum False bs"
    unfolding checksum_def fold16_fits [OF assms] by (simp add: ntohs_def)
  finally show ?thesis .
qed

lemma checksum_bound: "checksum le bs < 65536"
  unfolding checksum_def by (rule ntohs_bound) (simp add: fold16_def Let_def)

lemma sum16_be16: "n < 65536 \<Longrightarrow> sum16 le (be16 n) = ntohs le n"
  using less_mult_imp_div_less [of n 256 256]
  by (simp add: be16_def word16_def ntohs_def unat_byte)

lemma ones_sum_complement: "ones_sum (s + (65535 - ones_sum s)) = 65535"
proof (rule ones_sum_unique)
  have "(s + (65535 - ones_sum s)) mod 65535 = (ones_sum s + (65535 - ones_sum s)) mod 65535"
    by (metis mod_add_left_eq ones_sum_mod)
  also have "ones_sum s + (65535 - ones_sum s) = 65535" using ones_sum_bound [of s] by linarith
  finally show "ones_sum (s + (65535 - ones_sum s)) mod 65535 = 65535 mod 65535"
    by (simp only: ones_sum_mod)
  have "s + (65535 - ones_sum s) \<noteq> 0"
    by (cases "s = 0") (simp_all add: ones_sum_def)
  then show "ones_sum (s + (65535 - ones_sum s)) = 0 \<longleftrightarrow> 65535 = (0 :: nat)"
    by (simp only: ones_sum_0) simp
qed (rule ones_sum_bound, simp)

lemma checksum_insert:
  assumes "even (length a)" and "fits (a @ [0, 0] @ b)"
  shows "checksum le (a @ be16 (checksum le (a @ [0, 0] @ b)) @ b) = 0"
proof -
  let ?s = "sum16 le (a @ [0, 0] @ b)" and ?c = "checksum le (a @ [0, 0] @ b)"
  have "?s = sum16 le a + sum16 le b"
    using assms(1) by (simp add: sum16_append word16_def)
  moreover have "sum16 le (a @ be16 ?c @ b) = sum16 le a + (ntohs le ?c + sum16 le b)"
    using assms(1) by (simp add: sum16_append sum16_be16 checksum_bound)
  moreover have "ntohs le ?c = 65535 - ones_sum ?s"
    using sum16_fits [OF assms(2)] by (simp add: checksum_def ntohs_involutive fold16_ones_sum)
  ultimately have s': "sum16 le (a @ be16 ?c @ b) = ?s + (65535 - ones_sum ?s)" by simp
  have "ones_sum (?s + (65535 - ones_sum ?s)) = 65535" by (rule ones_sum_complement)
  then have one: "ones_sum (sum16 le (a @ be16 ?c @ b)) = 65535" by (simp only: s')
  have "fits (a @ be16 ?c @ b)" using assms(2) by (simp add: fits_def)
  from fold16_fits [OF this] one have "fold16 (sum16 le (a @ be16 ?c @ b)) = 0" by simp
  then show ?thesis by (simp only: checksum_def) (simp add: ntohs_def)
qed

end
