(* ===== verification/Headers.thy ===== *)
theory Headers
  imports Packet_Utils
begin

text \<open>
  The header classes of \<open>ryu/lib/packet\<close> that the firewall reads: \<open>ethernet.py\<close>,
  \<open>vlan.py\<close>, \<open>arp.py\<close>, \<open>ipv4.py\<close> and \<open>udp.py\<close>, each with its \<open>parser\<close> and
  \<open>serialize\<close>.  Header fields are naturals: a header object built by \<open>parser\<close> has no
  negative field.  \<open>parser\<close> returns the header, the numbers that select the class of the
  rest, and the rest of the buffer.
\<close>

section \<open>Ethernet\<close>

record ethernet =
  eth_dst :: string
  eth_src :: string
  ethertype :: nat

definition ethernet_parser :: "addrconv \<Rightarrow> bytes \<Rightarrow> (ethernet \<times> bytes) res" where
  "ethernet_parser ac buf =
     (if length buf < 14 then Inl StructError
      else Inr (\<lparr>eth_dst = mac_to_text ac (slice 0 6 buf), eth_src = mac_to_text ac (slice 6 12 buf),
                 ethertype = u16_at buf 12\<rparr>, drop 14 buf))"

text \<open>
  \<open>serialize\<close> pads the payload in place to 46 bytes: the result is the header and the payload
  as it is afterwards.
\<close>

definition ethernet_serialize :: "addrconv \<Rightarrow> ethernet \<Rightarrow> bytes \<Rightarrow> (bytes \<times> bytes) res" where
  "ethernet_serialize ac h payload =
     (let padded = payload @ replicate (46 - length payload) 0 in
      case pack_all [mac_to_bin ac (eth_dst h), mac_to_bin ac (eth_src h), pack_H (ethertype h)] of
        Inl e \<Rightarrow> Inl e
      | Inr hdr \<Rightarrow> Inr (hdr, padded))"

section \<open>802.1Q\<close>

record vlan =
  pcp :: nat
  cfi :: nat
  vid :: nat
  vlan_ethertype :: nat

definition vlan_parser :: "bytes \<Rightarrow> (vlan \<times> bytes) res" where
  "vlan_parser buf =
     (if length buf < 4 then Inl StructError
      else let tci = u16_at buf 0 in
        Inr (\<lparr>pcp = drop_bit 13 tci, cfi = drop_bit 12 tci AND 1, vid = tci AND 4095,
              vlan_ethertype = u16_at buf 2\<rparr>, drop 4 buf))"

definition vlan_serialize :: "vlan \<Rightarrow> bytes res" where
  "vlan_serialize h =
     (let tci = push_bit 13 (pcp h) OR push_bit 12 (cfi h) OR vid h
      in pack_all [pack_H tci, pack_H (vlan_ethertype h)])"

section \<open>ARP\<close>

record arp =
  hwtype :: nat
  arp_proto :: nat
  hlen :: nat
  plen :: nat
  opcode :: nat
  src_mac :: string
  src_ip :: string
  dst_mac :: string
  dst_ip :: string

definition arp_parser :: "addrconv \<Rightarrow> bytes \<Rightarrow> (arp \<times> bytes) res" where
  "arp_parser ac buf =
     (if length buf < 28 then Inl StructError
      else Inr (\<lparr>hwtype = u16_at buf 0, arp_proto = u16_at buf 2, hlen = u8_at buf 4,
                 plen = u8_at buf 5, opcode = u16_at buf 6,
                 src_mac = mac_to_text ac (slice 8 14 buf), src_ip = ip_to_text ac (slice 14 18 buf),
                 dst_mac = mac_to_text ac (slice 18 24 buf),
                 dst_ip = ip_to_text ac (slice 24 28 buf)\<rparr>, drop 28 buf))"

definition arp_serialize :: "addrconv \<Rightarrow> arp \<Rightarrow> bytes res" where
  "arp_serialize ac h =
     (case pack_all [mac_to_bin ac (src_mac h), ip_to_bin ac (src_ip h),
              mac_to_bin ac (dst_mac h), ip_to_bin ac (dst_ip h)] of
        Inl e \<Rightarrow> Inl e
      | Inr addrs \<Rightarrow>
          pack_all [pack_H (hwtype h), pack_H (arp_proto h), pack_B (hlen h), pack_B (plen h),
            pack_H (opcode h), Inr addrs])"

definition arp_ip :: "nat \<Rightarrow> string \<Rightarrow> string \<Rightarrow> string \<Rightarrow> string \<Rightarrow> arp" where
  "arp_ip op smac sip dmac dip =
     \<lparr>hwtype = 1, arp_proto = 0x0800, hlen = 6, plen = 4, opcode = op,
      src_mac = smac, src_ip = sip, dst_mac = dmac, dst_ip = dip\<rparr>"

section \<open>IPv4\<close>

record ipv4 =
  version :: nat
  header_length :: nat
  tos :: nat
  total_length :: nat
  identification :: nat
  flags :: nat
  offset :: nat
  ttl :: nat
  proto :: nat
  csum :: nat
  src :: string
  dst :: string
  option :: "bytes option"

definition ipv4_parser :: "addrconv \<Rightarrow> bytes \<Rightarrow> (ipv4 \<times> bytes) res" where
  "ipv4_parser ac buf =
     (if length buf < 20 then Inl StructError
      else
        let vhl = u8_at buf 0; fo = u16_at buf 6; hl = vhl AND 15; len = hl * 4;
            tl = u16_at buf 2 in
        Inr (\<lparr>version = drop_bit 4 vhl, header_length = hl, tos = u8_at buf 1,
              total_length = tl, identification = u16_at buf 4, flags = drop_bit 13 fo,
              offset = fo AND 8191, ttl = u8_at buf 8, proto = u8_at buf 9,
              csum = u16_at buf 10, src = ip_to_text ac (slice 12 16 buf),
              dst = ip_to_text ac (slice 16 20 buf),
              option = (if len > 20 then Some (slice 20 len buf) else None)\<rparr>,
             slice len tl buf))"

definition ipv4_total_length :: "ipv4 \<Rightarrow> bytes \<Rightarrow> nat" where
  "ipv4_total_length h payload =
     (if total_length h = 0 then header_length h * 4 + length payload else total_length h)"

definition opt_bytes :: "ipv4 \<Rightarrow> bytes" where
  "opt_bytes h = (case option h of None \<Rightarrow> [] | Some b \<Rightarrow> b)"

text \<open>
  The header with the checksum field set to \<open>c\<close>; \<open>pack_into\<close> needs room for twenty bytes,
  and longer headers are filled with zeros where the options do not reach.
\<close>

definition ipv4_fixed :: "addrconv \<Rightarrow> ipv4 \<Rightarrow> bytes \<Rightarrow> (bytes \<times> bytes) res" where
  "ipv4_fixed ac h payload =
     (case pack_all [ip_to_bin ac (src h), ip_to_bin ac (dst h)] of
        Inl e \<Rightarrow> Inl e
      | Inr addrs \<Rightarrow>
          (case pack_all [pack_B (push_bit 4 (version h) OR header_length h), pack_B (tos h),
                  pack_H (ipv4_total_length h payload), pack_H (identification h),
                  pack_H (push_bit 13 (flags h) OR offset h), pack_B (ttl h), pack_B (proto h)] of
             Inl e \<Rightarrow> Inl e
           | Inr front \<Rightarrow> Inr (front, addrs)))"

definition ipv4_serialize ::
  "bool \<Rightarrow> addrconv \<Rightarrow> ipv4 \<Rightarrow> bytes \<Rightarrow> (bytes \<times> ipv4) res" where
  "ipv4_serialize le ac h payload =
     (case ipv4_fixed ac h payload of
        Inl e \<Rightarrow> Inl e
      | Inr (front, addrs) \<Rightarrow>
          if header_length h * 4 < 20 then Inl StructError
          else if header_length h * 4 - 20 < length (opt_bytes h) then Inl AssertionError
          else
            (let rest = addrs @ opt_bytes h @
                   replicate (header_length h * 4 - 20 - length (opt_bytes h)) 0;
                 c = checksum le (front @ [0, 0] @ rest)
             in Inr (front @ be16 c @ rest,
                     h\<lparr>total_length := ipv4_total_length h payload, csum := c\<rparr>)))"

section \<open>UDP\<close>

record udp =
  udp_src_port :: nat
  udp_dst_port :: nat
  udp_total_length :: nat
  udp_csum :: nat

definition udp_parser :: "bytes \<Rightarrow> (udp \<times> bytes) res" where
  "udp_parser buf =
     (if length buf < 8 then Inl StructError
      else Inr (\<lparr>udp_src_port = u16_at buf 0, udp_dst_port = u16_at buf 2,
                 udp_total_length = u16_at buf 4, udp_csum = u16_at buf 6\<rparr>,
                slice 8 (u16_at buf 4) buf))"

definition udp_pack :: "udp \<Rightarrow> bytes res" where
  "udp_pack h = pack_all [pack_H (udp_src_port h), pack_H (udp_dst_port h),
     pack_H (udp_total_length h), pack_H (udp_csum h)]"

text \<open>\<open>prev\<close> is the enclosing IP header; without one \<open>checksum_ip\<close> has no \<open>version\<close>.\<close>

definition udp_serialize ::
  "bool \<Rightarrow> addrconv \<Rightarrow> udp \<Rightarrow> bytes \<Rightarrow> ip_view option \<Rightarrow> (bytes \<times> udp) res" where
  "udp_serialize le ac h payload prev =
     (let h1 = (if udp_total_length h = 0
                then h\<lparr>udp_total_length := 8 + length payload\<rparr> else h) in
      case udp_pack h1 of
        Inl e \<Rightarrow> Inl e
      | Inr b \<Rightarrow>
          if udp_csum h1 \<noteq> 0 then Inr (b, h1)
          else (case prev of
              None \<Rightarrow> Inl AttributeError
            | Some v \<Rightarrow>
                (case checksum_ip le ac v (udp_total_length h1) (b @ payload) of
                   Inl e \<Rightarrow> Inl e
                 | Inr c \<Rightarrow>
                     (let h2 = h1\<lparr>udp_csum := c\<rparr> in
                      case udp_pack h2 of Inl e \<Rightarrow> Inl e | Inr b2 \<Rightarrow> Inr (b2, h2)))))"

end
