(* ===== verification/Tcp.thy ===== *)
theory Tcp
  imports Headers
begin

text \<open>
  \<open>ryu/lib/packet/tcp.py\<close>: the header, the option classes and the option loop of
  \<open>tcp.parser\<close>.  The loop consumes what each option's \<open>parse\<close> consumed, and three of the
  classes consume as many bytes as the attacker-controlled length byte says.  A length of zero
  consumes nothing, so the loop is a \<open>partial_function\<close> and not returning is a value.
\<close>

section \<open>Options\<close>

datatype tcp_option =
    EndOfOptionList
  | NoOperation
  | MaximumSegmentSize nat
  | WindowScale nat
  | SACKPermitted
  | SACK "(nat \<times> nat) list" nat
  | Timestamps nat nat
  | UserTimeout nat nat
  | Authentication nat nat bytes nat
  | Unknown bytes nat nat

fun sack_blocks :: "bytes \<Rightarrow> (nat \<times> nat) list res" where
  "sack_blocks buf =
     (if buf = [] then Inr []
      else if length buf < 8 then Inl StructError
      else (case sack_blocks (drop 8 buf) of
              Inl e \<Rightarrow> Inl e
            | Inr bs \<Rightarrow> Inr ((u32_at buf 0, u32_at buf 4) # bs)))"

declare sack_blocks.simps [simp del]

text \<open>\<open>TCPOption.parser\<close>: dispatch on the kind byte, then the class's \<open>parse\<close>.\<close>

definition option_parser :: "bytes \<Rightarrow> (tcp_option \<times> bytes) res" where
  "option_parser buf =
     (if buf = [] then Inl StructError
      else
        let kind = u8_at buf 0; len = u8_at buf 1 in
        if kind = 0 then Inr (EndOfOptionList, drop 1 buf)
        else if kind = 1 then Inr (NoOperation, drop 1 buf)
        else if kind = 2 then
          (if length buf < 4 then Inl StructError
           else Inr (MaximumSegmentSize (u16_at buf 2), drop 4 buf))
        else if kind = 3 then
          (if length buf < 3 then Inl StructError else Inr (WindowScale (u8_at buf 2), drop 3 buf))
        else if kind = 4 then Inr (SACKPermitted, drop 2 buf)
        else if kind = 5 then
          (if length buf < 2 then Inl StructError
           else (case sack_blocks (slice 2 len buf) of
                   Inl e \<Rightarrow> Inl e
                 | Inr bs \<Rightarrow> Inr (SACK bs len, drop len buf)))
        else if kind = 8 then
          (if length buf < 10 then Inl StructError
           else Inr (Timestamps (u32_at buf 2) (u32_at buf 6), drop 10 buf))
        else if kind = 28 then
          (if length buf < 4 then Inl StructError
           else let body = u16_at buf 2 in
             Inr (UserTimeout (drop_bit 15 body) (body AND 32767), drop 4 buf))
        else if kind = 29 then
          (if length buf < 4 then Inl StructError
           else Inr (Authentication (u8_at buf 2) (u8_at buf 3) (slice 4 len buf) len, drop len buf))
        else
          (if length buf < 2 then Inl StructError
           else Inr (Unknown (slice 2 len buf) kind len, drop len buf)))"

text \<open>\<open>while option_buf: opt, option_buf = TCPOption.parser(option_buf); option.append(opt)\<close>.\<close>

partial_function (option) options_loop :: "bytes \<Rightarrow> tcp_option list \<Rightarrow> tcp_option list run" where
  "options_loop buf acc =
     (if buf = [] then Some (Inr acc)
      else (case option_parser buf of
              Inl e \<Rightarrow> Some (Inl e)
            | Inr (opt, rest) \<Rightarrow> options_loop rest (acc @ [opt])))"

section \<open>The header\<close>

datatype tcp_options = NoOptions | OptionList "tcp_option list" | RawOptions bytes

record tcp =
  tcp_src_port :: nat
  tcp_dst_port :: nat
  seq_no :: nat
  ack_no :: nat
  tcp_offset :: nat
  bits :: nat
  window_size :: nat
  tcp_csum :: nat
  urgent :: nat
  tcp_opts :: tcp_options

definition has_flags :: "tcp \<Rightarrow> nat list \<Rightarrow> bool" where
  "has_flags h fs = (bits h AND sum_list fs = sum_list fs)"

text \<open>Only \<open>struct.error\<close> is caught; it leaves the raw option bytes in the header.\<close>

definition tcp_parser :: "bytes \<Rightarrow> (tcp \<times> bytes) run" where
  "tcp_parser buf =
     (if length buf < 20 then raise StructError
      else
        let off = drop_bit 4 (u8_at buf 12); len = off * 4;
            mk = (\<lambda>opts. \<lparr>tcp_src_port = u16_at buf 0, tcp_dst_port = u16_at buf 2,
                   seq_no = u32_at buf 4, ack_no = u32_at buf 8, tcp_offset = off,
                   bits = u8_at buf 13 AND 63, window_size = u16_at buf 14,
                   tcp_csum = u16_at buf 16, urgent = u16_at buf 18, tcp_opts = opts\<rparr>)
        in if len > 20 then
             (case options_loop (slice 20 len buf) [] of
                None \<Rightarrow> None
              | Some (Inr os) \<Rightarrow> ret (mk (OptionList os), drop len buf)
              | Some (Inl StructError) \<Rightarrow> ret (mk (RawOptions (slice 20 len buf)), drop len buf)
              | Some (Inl e) \<Rightarrow> raise e)
           else ret (mk NoOptions, drop len buf))"

fun blocks_bytes :: "(nat \<times> nat) list \<Rightarrow> bytes res" where
  "blocks_bytes [] = Inr []"
| "blocks_bytes ((l, r) # bs) =
     (case pack_all [pack_I l, pack_I r] of
        Inl e \<Rightarrow> Inl e
      | Inr b \<Rightarrow> (case blocks_bytes bs of Inl e \<Rightarrow> Inl e | Inr c \<Rightarrow> Inr (b @ c)))"

text \<open>
  \<open>serialize\<close> of an option object whose kind and length are those of its class; the length of
  the variable-length classes is recomputed from the body.
\<close>

fun option_serialize :: "tcp_option \<Rightarrow> bytes res" where
  "option_serialize EndOfOptionList = pack_B 0"
| "option_serialize NoOperation = pack_B 1"
| "option_serialize (MaximumSegmentSize m) = pack_all [pack_B 2, pack_B 4, pack_H m]"
| "option_serialize (WindowScale s) = pack_all [pack_B 3, pack_B 3, pack_B s]"
| "option_serialize SACKPermitted = pack_all [pack_B 4, pack_B 2]"
| "option_serialize (SACK blocks n) =
     (case blocks_bytes blocks of
        Inl e \<Rightarrow> Inl e
      | Inr b \<Rightarrow> pack_all [pack_B 5, pack_B (2 + length b), Inr b])"
| "option_serialize (Timestamps v e) = pack_all [pack_B 8, pack_B 10, pack_I v, pack_I e]"
| "option_serialize (UserTimeout g u) =
     pack_all [pack_B 28, pack_B 4, pack_H (push_bit 15 g OR u)]"
| "option_serialize (Authentication k r mac n) =
     pack_all [pack_B 29, pack_B (4 + length mac), pack_B k, pack_B r, Inr mac]"
| "option_serialize (Unknown v kind n) = pack_all [pack_B kind, pack_B (2 + length v), Inr v]"

text \<open>The option object after \<open>serialize\<close>: its length attribute is the one written.\<close>

fun option_norm :: "tcp_option \<Rightarrow> tcp_option" where
  "option_norm (SACK bs n) = SACK bs (2 + 8 * length bs)"
| "option_norm (Authentication k r mac n) = Authentication k r mac (4 + length mac)"
| "option_norm (Unknown v kind n) = Unknown v kind (2 + length v)"
| "option_norm opt = opt"

definition options_bytes :: "tcp_option list \<Rightarrow> bytes res" where
  "options_bytes os = pack_all (map option_serialize os)"

definition tcp_pack :: "tcp \<Rightarrow> nat \<Rightarrow> nat \<Rightarrow> bytes res" where
  "tcp_pack h off_byte c =
     pack_all [pack_H (tcp_src_port h), pack_H (tcp_dst_port h), pack_I (seq_no h),
       pack_I (ack_no h), pack_B off_byte, pack_B (bits h), pack_H (window_size h),
       pack_H c, pack_H (urgent h)]"

text \<open>The bytes appended for \<open>self.option\<close>; an empty list or buffer counts as no option.\<close>

definition opts_body :: "tcp_options \<Rightarrow> bytes res" where
  "opts_body opts =
     (case opts of NoOptions \<Rightarrow> Inr [] | RawOptions b \<Rightarrow> Inr b | OptionList os \<Rightarrow> options_bytes os)"

definition has_option :: "tcp_options \<Rightarrow> bool" where
  "has_option opts =
     (case opts of NoOptions \<Rightarrow> False | RawOptions b \<Rightarrow> b \<noteq> [] | OptionList os \<Rightarrow> os \<noteq> [])"

definition pad_to :: "nat \<Rightarrow> bytes \<Rightarrow> bytes" where
  "pad_to n b = b @ replicate (n - length b) 0"

definition tcp_serialize ::
  "bool \<Rightarrow> addrconv \<Rightarrow> tcp \<Rightarrow> bytes \<Rightarrow> ip_view option \<Rightarrow> (bytes \<times> tcp) res" where
  "tcp_serialize le ac h payload prev =
     (case tcp_pack h (push_bit 4 (tcp_offset h)) (tcp_csum h) of
        Inl e \<Rightarrow> Inl e
      | Inr fixed \<Rightarrow>
          (case opts_body (tcp_opts h) of
             Inl e \<Rightarrow> Inl e
           | Inr body \<Rightarrow>
               (let b0 = (if has_option (tcp_opts h)
                          then pad_to (if tcp_offset h \<noteq> 0 then push_bit 2 (tcp_offset h) else 0)
                                 (pad_to (20 + length body + (if length body mod 4 = 0 then 0
                                            else 4 - length body mod 4)) (fixed @ body))
                          else fixed);
                    off = (if tcp_offset h = 0 then drop_bit 2 (length b0) else tcp_offset h)
                in case pack_B (push_bit 4 off) of
                     Inl e \<Rightarrow> Inl e
                   | Inr ob \<Rightarrow>
                       (let b1 = take 12 b0 @ ob @ drop 13 b0; h1 = h\<lparr>tcp_offset := off\<rparr> in
                        if tcp_csum h \<noteq> 0 then Inr (b1, h1)
                        else (case prev of
                            None \<Rightarrow> Inl AttributeError
                          | Some v \<Rightarrow>
                              (case checksum_ip le ac v (length b1 + length payload) (b1 @ payload) of
                                 Inl e \<Rightarrow> Inl e
                               | Inr c \<Rightarrow> Inr (take 16 b1 @ be16 c @ drop 18 b1,
                                            h1\<lparr>tcp_csum := c\<rparr>)))))))"

end
