(* ===== verification/Packet_Parse.thy ===== *)
theory Packet_Parse
  imports Tcp
begin

text \<open>
  \<open>ryu/lib/packet/packet.py\<close>: decoding a frame into a list of protocol objects, looking a
  protocol up, and encoding; the header class of OpenFlow, and which headers the decoder comes to
  on a frame.  The other header classes are reached through the parameter \<open>oth\<close>, which stands
  for their \<open>parser\<close> methods; those that are modelled elsewhere are put in its place there.
\<close>

section \<open>Classes and objects\<close>

datatype pclass = CEthernet | CVlan | CSvlan | CArp | CIpv4 | CTcp | CUdp | COther string

datatype proto_obj =
    PEthernet ethernet
  | PVlan vlan
  | PSvlan vlan
  | PArp arp
  | PIpv4 ipv4
  | PTcp tcp
  | PUdp udp
  | POther string nat bytes
  | PRaw bytes

text \<open>
  \<open>bool(proto)\<close>: the objects define \<open>__len__\<close>, so an IPv4 header whose length field is zero
  and a TCP header whose offset is zero count as false.  The number in \<open>POther\<close> is the
  object's \<open>__len__\<close>.
\<close>

fun proto_truthy :: "proto_obj \<Rightarrow> bool" where
  "proto_truthy (PIpv4 h) = (header_length h * 4 \<noteq> 0)"
| "proto_truthy (PTcp h) = (tcp_offset h * 4 \<noteq> 0)"
| "proto_truthy (POther n l b) = (l \<noteq> 0)"
| "proto_truthy (PRaw b) = (b \<noteq> [])"
| "proto_truthy p = True"

text \<open>
  \<open>PacketBase._TYPES\<close> is one dictionary: no header class of the IP or Ethernet family overrides
  the class attribute, so every \<open>register_packet_type\<close> call fills the same table.  A class whose
  module is not loaded is not in it, which is the same as a parser that takes nothing:
  \<open>oth n buf = ret (None, None, buf)\<close>.
\<close>

definition packet_types :: "(nat \<times> pclass) list" where
  "packet_types = [
     (0x0806, CArp), (0x0800, CIpv4), (0x86dd, COther ''ipv6''), (0x88cc, COther ''lldp''),
     (0x8809, COther ''slow''), (0x05dc, COther ''llc''), (0x8902, COther ''cfm''),
     (0x88e7, COther ''itag''),
     (0x8100, CVlan), (0x88a8, CSvlan), (0x8847, COther ''mpls''),
     (1, COther ''icmp''), (2, COther ''igmp''), (6, CTcp), (17, CUdp), (132, COther ''sctp''),
     (89, COther ''ospf''), (47, COther ''gre''), (58, COther ''icmpv6''), (0x42, COther ''bpdu''),
     (112, COther ''vrrp'')]"

definition get_packet_type :: "nat \<Rightarrow> pclass option" where
  "get_packet_type t = map_of packet_types t"

text \<open>The Length/Type field: values up to 1500 are lengths and select LLC.\<close>

definition get_ether_type :: "nat \<Rightarrow> pclass option" where
  "get_ether_type t = get_packet_type (if t \<le> 0x05dc then 0x05dc else t)"

definition tcp_payload_type :: "nat \<Rightarrow> nat \<Rightarrow> pclass option" where
  "tcp_payload_type sp dp =
     (if 179 \<in> {sp, dp} then Some (COther ''bgp'')
      else if sp \<in> {6653, 6633} \<or> dp \<in> {6653, 6633} then Some (COther ''openflow'')
      else if sp = 2600 then Some (COther ''zebra_from'')
      else if dp = 2600 then Some (COther ''zebra'')
      else None)"

definition udp_payload_type :: "nat \<Rightarrow> nat \<Rightarrow> pclass option" where
  "udp_payload_type sp dp =
     (if sp \<in> {67, 68} \<and> dp = 67 \<or> dp \<in> {67, 68} \<and> sp = 67 then Some (COther ''dhcp'')
      else if sp \<in> {546, 547} \<and> dp = 547 \<or> dp \<in> {546, 547} \<and> sp = 547 then Some (COther ''dhcp6'')
      else if dp = 4789 \<or> dp = 8472 then Some (COther ''vxlan'')
      else if dp = 6081 then Some (COther ''geneve'')
      else None)"

type_synonym parsed = "proto_obj option \<times> pclass option \<times> bytes"
type_synonym other_parsers = "string \<Rightarrow> bytes \<Rightarrow> parsed run"

definition parsed_of :: "('h \<Rightarrow> proto_obj) \<Rightarrow> ('h \<Rightarrow> pclass option) \<Rightarrow> ('h \<times> bytes) res \<Rightarrow> parsed run" where
  "parsed_of con nxt r =
     (case r of Inl e \<Rightarrow> raise e | Inr (h, rest) \<Rightarrow> ret (Some (con h), nxt h, rest))"

text \<open>\<open>cls.parser(rest_data)\<close>.  \<open>svlan\<close> inherits \<open>_vlan.parser\<close>, which asks \<open>vlan\<close> for the
  class of the rest.\<close>

fun class_parser :: "addrconv \<Rightarrow> other_parsers \<Rightarrow> pclass \<Rightarrow> bytes \<Rightarrow> parsed run" where
  "class_parser ac oth CEthernet buf =
     parsed_of PEthernet (\<lambda>h. get_ether_type (ethertype h)) (ethernet_parser ac buf)"
| "class_parser ac oth CVlan buf =
     parsed_of PVlan (\<lambda>h. get_ether_type (vlan_ethertype h)) (vlan_parser buf)"
| "class_parser ac oth CSvlan buf =
     parsed_of PSvlan (\<lambda>h. get_ether_type (vlan_ethertype h)) (vlan_parser buf)"
| "class_parser ac oth CArp buf = parsed_of PArp (\<lambda>h. None) (arp_parser ac buf)"
| "class_parser ac oth CIpv4 buf =
     parsed_of PIpv4 (\<lambda>h. get_packet_type (proto h)) (ipv4_parser ac buf)"
| "class_parser ac oth CTcp buf =
     run_bind (tcp_parser buf) (\<lambda>(h, rest).
       ret (Some (PTcp h), tcp_payload_type (tcp_src_port h) (tcp_dst_port h), rest))"
| "class_parser ac oth CUdp buf =
     parsed_of PUdp (\<lambda>h. udp_payload_type (udp_src_port h) (udp_dst_port h)) (udp_parser buf)"
| "class_parser ac oth (COther n) buf = oth n buf"

section \<open>\<open>Packet._parser\<close>\<close>

definition all_zero :: "bytes \<Rightarrow> bool" where
  "all_zero b \<longleftrightarrow> list_all (\<lambda>x. x = 0) b"

lemma all_zero_nth: "all_zero b \<Longrightarrow> i < length b \<Longrightarrow> b ! i = 0"
  by (simp add: all_zero_def list_all_length)

lemma all_zero_append: "all_zero (a @ b) \<longleftrightarrow> all_zero a \<and> all_zero b"
  by (simp add: all_zero_def)

lemma all_zero_simps:
  "all_zero (x # a) \<longleftrightarrow> x = 0 \<and> all_zero a" "all_zero []" "all_zero (replicate n 0)"
  by (simp_all add: all_zero_def) (induction n; simp)

definition with_rest :: "proto_obj list \<Rightarrow> bytes \<Rightarrow> proto_obj list" where
  "with_rest acc rest = (if all_zero rest then acc else acc @ [PRaw rest])"

definition add_proto :: "proto_obj list \<Rightarrow> proto_obj option \<Rightarrow> proto_obj list" where
  "add_proto acc p =
     (case p of Some q \<Rightarrow> if proto_truthy q then acc @ [q] else acc | None \<Rightarrow> acc)"

partial_function (option) parser_loop ::
  "addrconv \<Rightarrow> other_parsers \<Rightarrow> pclass option \<Rightarrow> bytes \<Rightarrow> proto_obj list \<Rightarrow> proto_obj list run" where
  "parser_loop ac oth cls rest acc =
     (case cls of
        None \<Rightarrow> Some (Inr (with_rest acc rest))
      | Some c \<Rightarrow>
          if all_zero rest then Some (Inr (with_rest acc rest))
          else (case class_parser ac oth c rest of
                  None \<Rightarrow> None
                | Some (Inl e) \<Rightarrow>
                    if e = StructError then Some (Inr (with_rest acc rest)) else Some (Inl e)
                | Some (Inr (p, cls', rest')) \<Rightarrow>
                    parser_loop ac oth cls' rest' (add_proto acc p)))"

text \<open>\<open>Packet(data)\<close>.\<close>

definition Packet :: "addrconv \<Rightarrow> other_parsers \<Rightarrow> bytes \<Rightarrow> proto_obj list run" where
  "Packet ac oth data =
     (if data = [] then ret [] else parser_loop ac oth (Some CEthernet) data [])"

section \<open>\<open>get_protocol\<close>\<close>

fun class_of :: "proto_obj \<Rightarrow> pclass option" where
  "class_of (PEthernet h) = Some CEthernet"
| "class_of (PVlan h) = Some CVlan"
| "class_of (PSvlan h) = Some CSvlan"
| "class_of (PArp h) = Some CArp"
| "class_of (PIpv4 h) = Some CIpv4"
| "class_of (PTcp h) = Some CTcp"
| "class_of (PUdp h) = Some CUdp"
| "class_of (POther n l b) = Some (COther n)"
| "class_of (PRaw b) = None"

definition get_protocols :: "proto_obj list \<Rightarrow> pclass \<Rightarrow> proto_obj list" where
  "get_protocols pkt c = filter (\<lambda>p. class_of p = Some c) pkt"

definition get_protocol :: "proto_obj list \<Rightarrow> pclass \<Rightarrow> proto_obj option" where
  "get_protocol pkt c = (case get_protocols pkt c of [] \<Rightarrow> None | p # _ \<Rightarrow> Some p)"

definition get_ethernet :: "proto_obj list \<Rightarrow> ethernet option" where
  "get_ethernet pkt = (case get_protocol pkt CEthernet of Some (PEthernet h) \<Rightarrow> Some h | _ \<Rightarrow> None)"

definition get_arp :: "proto_obj list \<Rightarrow> arp option" where
  "get_arp pkt = (case get_protocol pkt CArp of Some (PArp h) \<Rightarrow> Some h | _ \<Rightarrow> None)"

definition get_ipv4 :: "proto_obj list \<Rightarrow> ipv4 option" where
  "get_ipv4 pkt = (case get_protocol pkt CIpv4 of Some (PIpv4 h) \<Rightarrow> Some h | _ \<Rightarrow> None)"

definition get_tcp :: "proto_obj list \<Rightarrow> tcp option" where
  "get_tcp pkt = (case get_protocol pkt CTcp of Some (PTcp h) \<Rightarrow> Some h | _ \<Rightarrow> None)"

definition get_udp :: "proto_obj list \<Rightarrow> udp option" where
  "get_udp pkt = (case get_protocol pkt CUdp of Some (PUdp h) \<Rightarrow> Some h | _ \<Rightarrow> None)"

section \<open>\<open>Packet.serialize\<close>\<close>

definition ip_view_of :: "proto_obj option \<Rightarrow> ip_view option" where
  "ip_view_of p =
     (case p of
        Some (PIpv4 h) \<Rightarrow>
          Some (if version h = 4 then V4 (src h) (dst h) (proto h) else Other_version (version h))
      | _ \<Rightarrow> None)"

text \<open>One step: the header bytes and the payload, which \<open>ethernet.serialize\<close> may have padded.\<close>

fun serialize_one ::
  "bool \<Rightarrow> addrconv \<Rightarrow> proto_obj \<Rightarrow> bytes \<Rightarrow> proto_obj option \<Rightarrow> (bytes \<times> bytes) res" where
  "serialize_one le ac (PEthernet h) data prev = ethernet_serialize ac h data"
| "serialize_one le ac (PVlan h) data prev = map_sum id (\<lambda>b. (b, data)) (vlan_serialize h)"
| "serialize_one le ac (PSvlan h) data prev = map_sum id (\<lambda>b. (b, data)) (vlan_serialize h)"
| "serialize_one le ac (PArp h) data prev = map_sum id (\<lambda>b. (b, data)) (arp_serialize ac h)"
| "serialize_one le ac (PIpv4 h) data prev =
     map_sum id (\<lambda>(b, h'). (b, data)) (ipv4_serialize le ac h data)"
| "serialize_one le ac (PTcp h) data prev =
     map_sum id (\<lambda>(b, h'). (b, data)) (tcp_serialize le ac h data (ip_view_of prev))"
| "serialize_one le ac (PUdp h) data prev =
     map_sum id (\<lambda>(b, h'). (b, data)) (udp_serialize le ac h data (ip_view_of prev))"
| "serialize_one le ac (POther n l b) data prev = Inl (OtherError n)"
| "serialize_one le ac (PRaw b) data prev = Inr (b, data)"

fun serialize_loop :: "bool \<Rightarrow> addrconv \<Rightarrow> proto_obj list \<Rightarrow> bytes \<Rightarrow> bytes res" where
  "serialize_loop le ac [] data = Inr data"
| "serialize_loop le ac (p # r) data =
     (case serialize_one le ac p data (case r of [] \<Rightarrow> None | q # _ \<Rightarrow> Some q) of
        Inl e \<Rightarrow> Inl e
      | Inr (hdr, data') \<Rightarrow> serialize_loop le ac r (hdr @ data'))"

definition serialize :: "bool \<Rightarrow> addrconv \<Rightarrow> proto_obj list \<Rightarrow> bytes res" where
  "serialize le ac protocols = serialize_loop le ac (rev protocols) []"

section \<open>\<open>openflow.parser\<close>\<close>

text \<open>
  The header class of \<open>ryu/lib/packet/openflow.py\<close>, which \<open>tcp.py\<close> selects for the ports 6633 and
  6653; its header is the one of \<open>ofproto_parser.header\<close>.  The message parsers of the OpenFlow
  versions raise nothing here, the bare \<open>except\<close> turns every error into an unparseable message;
  but they may not return.  \<open>stuck version msg_type data\<close> says for which messages the parser of
  that version does not return; it is false for a version without a parser.  The object has the
  length of a header.
\<close>

definition openflow_parser :: "(nat \<Rightarrow> nat \<Rightarrow> bytes \<Rightarrow> bool) \<Rightarrow> bytes \<Rightarrow> parsed run" where
  "openflow_parser stuck buf =
     (if length buf < 8 then raise AssertionError
      else
        let version = u8_at buf 0; msg_type = u8_at buf 1; msg_len = u16_at buf 2
        in if stuck version msg_type (take msg_len buf) then None
           else ret (Some (POther ''openflow'' 8 buf), Some (COther ''openflow''), drop msg_len buf))"

definition openflow_parsers :: "(nat \<Rightarrow> nat \<Rightarrow> bytes \<Rightarrow> bool) \<Rightarrow> other_parsers \<Rightarrow> other_parsers" where
  "openflow_parsers stuck oth n buf = (if n = ''openflow'' then openflow_parser stuck buf else oth n buf)"

text \<open>A message with a length takes at least one byte, and leaves less than it was given.\<close>

lemma openflow_parser_advances:
  "openflow_parser stuck b = Some (Inr (p, c, r)) \<Longrightarrow> 0 < u16_at b 2 \<Longrightarrow> length r < length b"
  by (auto simp: openflow_parser_def ret_def raise_def Let_def split: if_splits)

section \<open>A header that takes nothing\<close>

text \<open>If a parser names its own class and leaves all of its input, the loop never ends.\<close>

lemma parser_loop_repeats:
  assumes "\<not> all_zero b" and "class_parser ac oth c b = Some (Inr (p, Some c, b))"
  shows "parser_loop ac oth (Some c) b acc = None"
proof -
  have "\<not> (ac' = ac \<and> oth' = oth \<and> cls = Some c \<and> rest = b)"
    if "parser_loop ac' oth' cls rest acc' = Some y" for ac' oth' cls rest acc' y
  proof (rule parser_loop.raw_induct
      [where P = "\<lambda>ac' oth' cls rest acc' y. \<not> (ac' = ac \<and> oth' = oth \<and> cls = Some c \<and> rest = b)", OF _ that],
      goal_cases)
    case (1 f ac' oth' cls rest acc' y)
    show ?case
    proof
      assume *: "ac' = ac \<and> oth' = oth \<and> cls = Some c \<and> rest = b"
      then have "f ac oth (Some c) b (add_proto acc' p) = Some y"
        using 1(2) assms by simp
      then show False using 1(1) by blast
    qed
  qed
  then show ?thesis by (cases "parser_loop ac oth (Some c) b acc") blast+
qed

lemma openflow_zero_length:
  assumes "8 \<le> length b" and "u16_at b 2 = 0" and "\<not> all_zero b"
  shows "parser_loop ac (openflow_parsers stuck oth) (Some (COther ''openflow'')) b acc = None"
proof (cases "stuck (u8_at b 0) (u8_at b 1) []")
  case True
  then show ?thesis
    using assms by (subst parser_loop.simps) (simp add: openflow_parsers_def openflow_parser_def Let_def)
next
  case False
  then show ?thesis
    using assms
    by (intro parser_loop_repeats) (auto simp: openflow_parsers_def openflow_parser_def Let_def ret_def)
qed

section \<open>The headers of a frame\<close>

text \<open>
  The classes and the parts of the frame that \<open>Packet._parser\<close> comes to.  A part that holds only
  zeros is not parsed.
\<close>

inductive parse_visits :: "addrconv \<Rightarrow> other_parsers \<Rightarrow> bytes \<Rightarrow> pclass \<Rightarrow> bytes \<Rightarrow> bool"
  for ac :: addrconv and oth :: other_parsers and data :: bytes where
  visit_start: "parse_visits ac oth data CEthernet data"
| visit_next: "parse_visits ac oth data c b \<Longrightarrow> \<not> all_zero b \<Longrightarrow>
     class_parser ac oth c b = Some (Inr (p, Some c', r)) \<Longrightarrow> parse_visits ac oth data c' r"

text \<open>
  The classes outside the model take something of the frame whenever they name a next class.
  A parser that ends the decoding may leave whatever it likes.
\<close>

definition others_advance :: "addrconv \<Rightarrow> other_parsers \<Rightarrow> bytes \<Rightarrow> bool" where
  "others_advance ac oth data \<longleftrightarrow>
     (\<forall>n b p c r. parse_visits ac oth data (COther n) b \<longrightarrow> \<not> all_zero b \<longrightarrow>
        oth n b = Some (Inr (p, Some c, r)) \<longrightarrow> length r < length b)"

text \<open>A set of parts that holds the frame and is closed under a step has all that is visited.\<close>

lemma parse_visits_within:
  assumes "parse_visits ac oth data c b" and "S CEthernet data"
    and "\<And>c b p c' r. S c b \<Longrightarrow> \<not> all_zero b \<Longrightarrow> class_parser ac oth c b = Some (Inr (p, Some c', r)) \<Longrightarrow> S c' r"
  shows "S c b"
  using assms(1) by (induction rule: parse_visits.induct) (auto intro: assms(2,3))

end
