(* ===== verification/Fw_State.thy ===== *)
theory Fw_State
  imports Dpi_Engine Packet_Parse
begin

text \<open>
  The state of \<open>FirewallApp\<close> (\<open>src/firewall_app.py\<close>), the verdicts of its checks, its event
  log, and the OpenFlow messages it sends.  Messages to switches and to WebSocket clients are
  appended to the traces \<open>sent\<close> and \<open>ws_out\<close>; a datapath is identified by its id.
\<close>

section \<open>OpenFlow 1.3 messages\<close>

text \<open>Match fields, as the keyword arguments of \<open>OFPMatch\<close> that the firewall uses.\<close>

datatype oxm =
    In_port nat
  | Eth_type nat
  | Eth_src string
  | Eth_dst string
  | Ip_proto nat
  | Ipv4_src string
  | Ipv4_dst string
  | Tcp_src int
  | Tcp_dst int
  | Udp_src int
  | Udp_dst int
  | Arp_spa string

datatype action = Output nat nat

definition OFPP_FLOOD :: nat where "OFPP_FLOOD = 0xfffffffb"
definition OFPP_CONTROLLER :: nat where "OFPP_CONTROLLER = 0xfffffffd"
definition OFPP_ANY :: nat where "OFPP_ANY = 0xffffffff"
definition OFPG_ANY :: nat where "OFPG_ANY = 0xffffffff"
definition OFP_NO_BUFFER :: nat where "OFP_NO_BUFFER = 0xffffffff"
definition OFPCML_MAX :: nat where "OFPCML_MAX = 0xffe5"

datatype fm_command = OFPFC_ADD | OFPFC_DELETE

datatype instruction = ApplyActions "action list"

record flow_mod =
  fm_command :: fm_command
  fm_priority :: nat
  fm_idle :: nat
  fm_hard :: nat
  fm_buffer :: nat
  fm_out_port :: nat
  fm_out_group :: nat
  fm_match :: "oxm list"
  fm_instructions :: "instruction list"

record packet_out =
  po_buffer :: nat
  po_in_port :: nat
  po_actions :: "action list"
  po_data :: "bytes option"

datatype of_msg = FlowMod flow_mod | PacketOut packet_out

text \<open>The defaults of \<open>OFPFlowMod\<close>.\<close>

definition flow_mod_default :: flow_mod where
  "flow_mod_default =
     \<lparr>fm_command = OFPFC_ADD, fm_priority = 0x8000, fm_idle = 0, fm_hard = 0,
      fm_buffer = OFP_NO_BUFFER, fm_out_port = 0, fm_out_group = 0, fm_match = [],
      fm_instructions = []\<rparr>"

definition delete_flows :: "oxm list \<Rightarrow> flow_mod" where
  "delete_flows m =
     flow_mod_default\<lparr>fm_command := OFPFC_DELETE, fm_match := m, fm_out_port := OFPP_ANY,
       fm_out_group := OFPG_ANY\<rparr>"

section \<open>Parameters of the trust flows, verdicts\<close>

definition TRUST_K :: nat where "TRUST_K = 5"
definition TRUST_FLOW_PRIORITY :: nat where "TRUST_FLOW_PRIORITY = 400"
definition TRUST_FLOW_IDLE_TIMEOUT :: nat where "TRUST_FLOW_IDLE_TIMEOUT = 60"
definition TRUST_FLOW_HARD_TIMEOUT :: nat where "TRUST_FLOW_HARD_TIMEOUT = 300"

record trust_entry =
  count :: nat
  installed :: bool
  buf_a :: bytes
  buf_b :: bytes
  blocked :: bool

type_synonym endpoint = "string \<times> nat"
type_synonym trust_key = "nat \<times> endpoint \<times> endpoint"

datatype check_result =
    ALLOWED | IP_BLOCKED | IP_NOT_ALLOWLIST | PORT_BLOCKED | RATE_LIMITED | ARP_SPOOF
  | XMAS_SCAN | NULL_SCAN | SYN_FIN | SYN_RST | FIN_SCAN | DPI_BLOCKED

datatype stat_key = K_blocked | K_rate_limited | K_arp_spoof | K_scan_detected | K_dpi_blocked

text \<open>A message template: literal text and fields in braces.\<close>

datatype segment = Txt string | Fld string

fun level :: "check_result \<Rightarrow> string" where
  "level ALLOWED = ''allow''"
| "level IP_BLOCKED = ''block''"
| "level IP_NOT_ALLOWLIST = ''block''"
| "level PORT_BLOCKED = ''block''"
| "level RATE_LIMITED = ''block''"
| "level DPI_BLOCKED = ''block''"
| "level _ = ''warn''"

fun msg_template :: "check_result \<Rightarrow> segment list" where
  "msg_template ALLOWED = [Txt ''Packet allowed'']"
| "msg_template IP_BLOCKED = [Txt ''IP blocked: '', Fld ''src'']"
| "msg_template IP_NOT_ALLOWLIST = [Txt ''IP not in allowlist: '', Fld ''src'']"
| "msg_template PORT_BLOCKED = [Fld ''proto'', Txt '' port '', Fld ''port'', Txt '' blocked'']"
| "msg_template RATE_LIMITED = [Txt ''Rate limit exceeded: '', Fld ''src'']"
| "msg_template ARP_SPOOF = [Txt ''ARP spoof: '', Fld ''src'']"
| "msg_template XMAS_SCAN = [Txt ''Xmas scan from '', Fld ''src'']"
| "msg_template NULL_SCAN = [Txt ''NULL scan from '', Fld ''src'']"
| "msg_template SYN_FIN = [Txt ''SYN+FIN from '', Fld ''src'']"
| "msg_template SYN_RST = [Txt ''SYN+RST from '', Fld ''src'']"
| "msg_template FIN_SCAN = [Txt ''FIN scan from '', Fld ''src'']"
| "msg_template DPI_BLOCKED = [Txt ''DPI blocked ['', Fld ''sig'', Txt ''] from '', Fld ''src'']"

fun result_stat_key :: "check_result \<Rightarrow> stat_key option" where
  "result_stat_key ALLOWED = None"
| "result_stat_key IP_BLOCKED = Some K_blocked"
| "result_stat_key IP_NOT_ALLOWLIST = Some K_blocked"
| "result_stat_key PORT_BLOCKED = Some K_blocked"
| "result_stat_key RATE_LIMITED = Some K_rate_limited"
| "result_stat_key ARP_SPOOF = Some K_arp_spoof"
| "result_stat_key DPI_BLOCKED = Some K_dpi_blocked"
| "result_stat_key _ = Some K_scan_detected"

fun extra_tag :: "check_result \<Rightarrow> string" where
  "extra_tag ALLOWED = ''ALLOWED''"
| "extra_tag IP_BLOCKED = ''IP_BLOCK''"
| "extra_tag IP_NOT_ALLOWLIST = ''IP_ALLOWLIST''"
| "extra_tag PORT_BLOCKED = ''PORT_BLOCK''"
| "extra_tag RATE_LIMITED = ''RATE_LIMIT''"
| "extra_tag ARP_SPOOF = ''ARP_SPOOF''"
| "extra_tag XMAS_SCAN = ''XMAS_SCAN''"
| "extra_tag NULL_SCAN = ''NULL_SCAN''"
| "extra_tag DPI_BLOCKED = ''DPI_BLOCK''"
| "extra_tag _ = ''MALFORMED''"

text \<open>\<open>self.msg_template.format(**kwargs)\<close>: a missing field is a \<open>KeyError\<close>.\<close>

fun resolve :: "segment list \<Rightarrow> (string \<times> string) list \<Rightarrow> string res" where
  "resolve [] kw = Inr []"
| "resolve (Txt t # r) kw =
     (case resolve r kw of Inl e \<Rightarrow> Inl e | Inr s \<Rightarrow> Inr (t @ s))"
| "resolve (Fld f # r) kw =
     (case map_of kw f of
        None \<Rightarrow> Inl KeyError
      | Some v \<Rightarrow> (case resolve r kw of Inl e \<Rightarrow> Inl e | Inr s \<Rightarrow> Inr (v @ s)))"

section \<open>The application state\<close>

record stats =
  n_allowed :: nat
  n_blocked :: nat
  n_total :: nat
  n_arp_spoof :: nat
  n_rate_limited :: nat
  n_scan_detected :: nat
  n_trust_flows_installed :: nat
  n_dpi_blocked :: nat

record log_entry =
  le_ts :: string
  le_level :: string
  le_msg :: string
  le_src :: string
  le_dst :: string
  le_extra :: string

datatype ws_msg = WsEvent log_entry | WsStats stats

record fw_state =
  mac_to_port :: "string \<Rightarrow> (string \<rightharpoonup> nat)"
  arp_table :: "string \<rightharpoonup> string"
  datapaths :: "nat list"
  blocked_ips :: "string set"
  blocked_ports :: "(int \<times> int) set"
  allowed_ips :: "string set"
  rate_tracker :: "string \<rightharpoonup> rat list"
  rate_limit :: int
  rate_window :: rat
  trust_table :: "(trust_key, trust_entry) dict"
  dpi :: dpi_engine
  event_log :: "log_entry list"
  stats :: stats
  sent :: "(nat \<times> of_msg) list"
  ws_out :: "ws_msg list"

definition init_stats :: stats where
  "init_stats =
     \<lparr>n_allowed = 0, n_blocked = 0, n_total = 0, n_arp_spoof = 0, n_rate_limited = 0,
      n_scan_detected = 0, n_trust_flows_installed = 0, n_dpi_blocked = 0\<rparr>"

definition init_state :: fw_state where
  "init_state =
     \<lparr>mac_to_port = (\<lambda>_. Map.empty), arp_table = Map.empty, datapaths = [], blocked_ips = {},
      blocked_ports = {}, allowed_ips = {}, rate_tracker = Map.empty, rate_limit = 1000,
      rate_window = 1, trust_table = [], dpi = init_engine, event_log = [],
      stats = init_stats, sent = [], ws_out = []\<rparr>"

text \<open>The clock readings of one event: \<open>time.time()\<close> and \<open>time.strftime('%H:%M:%S')\<close>.\<close>

record clock =
  now :: rat
  hms :: string

definition LOG_CAP :: nat where "LOG_CAP = 200"

definition or_empty :: "string option \<Rightarrow> string" where
  "or_empty x = (case x of None \<Rightarrow> [] | Some s \<Rightarrow> s)"

definition fw_log ::
  "clock \<Rightarrow> string \<Rightarrow> string \<Rightarrow> string option \<Rightarrow> string option \<Rightarrow> string option \<Rightarrow> fw_state \<Rightarrow> fw_state"
where
  "fw_log clk lvl msg sr ds ex s =
     (let entry = \<lparr>le_ts = hms clk, le_level = lvl, le_msg = msg, le_src = or_empty sr,
                   le_dst = or_empty ds, le_extra = or_empty ex\<rparr>
      in s\<lparr>event_log := append_capped LOG_CAP (event_log s) entry,
           ws_out := ws_out s @ [WsEvent entry, WsStats (stats s)]\<rparr>)"

definition send_msg :: "nat \<Rightarrow> of_msg \<Rightarrow> fw_state \<Rightarrow> fw_state" where
  "send_msg dp m s = s\<lparr>sent := sent s @ [(dp, m)]\<rparr>"

definition add_flow ::
  "nat \<Rightarrow> nat \<Rightarrow> oxm list \<Rightarrow> action list \<Rightarrow> nat \<Rightarrow> nat \<Rightarrow> nat option \<Rightarrow> fw_state \<Rightarrow> fw_state"
where
  "add_flow dp priority match actions idle_timeout hard_timeout buffer_id s =
     (let m0 = flow_mod_default\<lparr>fm_priority := priority, fm_idle := idle_timeout,
                 fm_hard := hard_timeout, fm_match := match,
                 fm_instructions := [ApplyActions actions]\<rparr>;
          m = (case buffer_id of None \<Rightarrow> m0 | Some b \<Rightarrow> m0\<lparr>fm_buffer := b\<rparr>)
      in send_msg dp (FlowMod m) s)"

fun bump_stat :: "stat_key \<Rightarrow> stats \<Rightarrow> stats" where
  "bump_stat K_blocked st = st\<lparr>n_blocked := n_blocked st + 1\<rparr>"
| "bump_stat K_rate_limited st = st\<lparr>n_rate_limited := n_rate_limited st + 1\<rparr>"
| "bump_stat K_arp_spoof st = st\<lparr>n_arp_spoof := n_arp_spoof st + 1\<rparr>"
| "bump_stat K_scan_detected st = st\<lparr>n_scan_detected := n_scan_detected st + 1\<rparr>"
| "bump_stat K_dpi_blocked st = st\<lparr>n_dpi_blocked := n_dpi_blocked st + 1\<rparr>"

text \<open>\<open>str(x)\<close> of an optional string, as a format field.\<close>

definition opt_str :: "string option \<Rightarrow> string" where
  "opt_str x = (case x of None \<Rightarrow> ''None'' | Some s \<Rightarrow> s)"

definition apply_result ::
  "clock \<Rightarrow> check_result \<Rightarrow> string option \<Rightarrow> string option \<Rightarrow> string \<Rightarrow> nat \<Rightarrow> fw_state \<Rightarrow>
     fw_state \<times> py_exn option"
where
  "apply_result clk result sr ds protoname port s =
     (if result = DPI_BLOCKED then (s, None)
      else
        let s1 = (case result_stat_key result of
                    None \<Rightarrow> s | Some k \<Rightarrow> s\<lparr>stats := bump_stat k (stats s)\<rparr>) in
        case resolve (msg_template result)
               [(''src'', opt_str sr), (''dst'', opt_str ds), (''proto'', protoname),
                (''port'', nat_str port)] of
          Inl e \<Rightarrow> (s1, Some e)
        | Inr msg \<Rightarrow> (fw_log clk (level result) msg sr ds (Some (extra_tag result)) s1, None))"

section \<open>What a log call and a message leave alone\<close>

named_theorems fw_frame

lemma fw_log_frame [simp, fw_frame]:
  "mac_to_port (fw_log clk lvl msg sr ds ex s) = mac_to_port s"
  "arp_table (fw_log clk lvl msg sr ds ex s) = arp_table s"
  "datapaths (fw_log clk lvl msg sr ds ex s) = datapaths s"
  "blocked_ips (fw_log clk lvl msg sr ds ex s) = blocked_ips s"
  "blocked_ports (fw_log clk lvl msg sr ds ex s) = blocked_ports s"
  "allowed_ips (fw_log clk lvl msg sr ds ex s) = allowed_ips s"
  "rate_tracker (fw_log clk lvl msg sr ds ex s) = rate_tracker s"
  "rate_limit (fw_log clk lvl msg sr ds ex s) = rate_limit s"
  "rate_window (fw_log clk lvl msg sr ds ex s) = rate_window s"
  "trust_table (fw_log clk lvl msg sr ds ex s) = trust_table s"
  "dpi (fw_log clk lvl msg sr ds ex s) = dpi s"
  "stats (fw_log clk lvl msg sr ds ex s) = stats s"
  "sent (fw_log clk lvl msg sr ds ex s) = sent s"
  by (simp_all add: fw_log_def Let_def)

lemma send_msg_frame [simp, fw_frame]:
  "mac_to_port (send_msg dp m s) = mac_to_port s"
  "arp_table (send_msg dp m s) = arp_table s"
  "datapaths (send_msg dp m s) = datapaths s"
  "blocked_ips (send_msg dp m s) = blocked_ips s"
  "blocked_ports (send_msg dp m s) = blocked_ports s"
  "allowed_ips (send_msg dp m s) = allowed_ips s"
  "rate_tracker (send_msg dp m s) = rate_tracker s"
  "rate_limit (send_msg dp m s) = rate_limit s"
  "rate_window (send_msg dp m s) = rate_window s"
  "trust_table (send_msg dp m s) = trust_table s"
  "dpi (send_msg dp m s) = dpi s"
  "event_log (send_msg dp m s) = event_log s"
  "stats (send_msg dp m s) = stats s"
  "ws_out (send_msg dp m s) = ws_out s"
  "sent (send_msg dp m s) = sent s @ [(dp, m)]"
  by (simp_all add: send_msg_def)

text \<open>The message that \<open>add_flow\<close> sends.\<close>

definition flow_add :: "nat \<Rightarrow> oxm list \<Rightarrow> action list \<Rightarrow> nat \<Rightarrow> nat \<Rightarrow> flow_mod" where
  "flow_add pr m acts idle hard =
     flow_mod_default\<lparr>fm_priority := pr, fm_idle := idle, fm_hard := hard, fm_match := m,
       fm_instructions := [ApplyActions acts]\<rparr>"

lemma add_flow_send:
  "add_flow dp pr m acts idle hard None s = send_msg dp (FlowMod (flow_add pr m acts idle hard)) s"
  "add_flow dp pr m acts idle hard (Some b) s =
     send_msg dp (FlowMod ((flow_add pr m acts idle hard)\<lparr>fm_buffer := b\<rparr>)) s"
  by (simp_all add: add_flow_def flow_add_def)

lemma add_flow_ex: "\<exists>m. add_flow dp pr mt acts idle hard b s = send_msg dp (FlowMod m) s"
  by (cases b) (auto simp: add_flow_send)

lemma resolve_total:
  "result \<noteq> DPI_BLOCKED \<Longrightarrow>
     \<exists>msg. resolve (msg_template result)
       [(''src'', a), (''dst'', b), (''proto'', c), (''port'', d)] = Inr msg"
  by (cases result) auto

lemma apply_result_no_exn: "snd (apply_result clk result sr ds pn port s) = None"
proof (cases "result = DPI_BLOCKED")
  case False
  from resolve_total [OF False, of "opt_str sr" "opt_str ds" pn "nat_str port"]
  show ?thesis by (auto simp: apply_result_def)
qed (simp add: apply_result_def)

lemma apply_result_state:
  assumes "result \<noteq> DPI_BLOCKED"
  shows "\<exists>msg. apply_result clk result sr ds pn port s =
     (fw_log clk (level result) msg sr ds (Some (extra_tag result))
        (case result_stat_key result of
           None \<Rightarrow> s | Some k \<Rightarrow> s\<lparr>stats := bump_stat k (stats s)\<rparr>), None)"
  using resolve_total [OF assms, of "opt_str sr" "opt_str ds" pn "nat_str port"] assms
  by (auto simp: apply_result_def)

end
