(* ===== verification/Fw_Checks.thy ===== *)
theory Fw_Checks
  imports Fw_State
begin

text \<open>
  The checks of \<open>FirewallApp\<close> that do not touch the trust table: address block, rate limit,
  port block, ARP spoofing and TCP flags.  Each returns its verdict and the new state.  The
  lemmas give the verdict of each check as a condition, the bound of the sliding window, and
  what a check leaves alone.
\<close>

section \<open>The checks\<close>

definition check_ip_block :: "string \<Rightarrow> fw_state \<Rightarrow> check_result" where
  "check_ip_block ip_src s =
     (if ip_src \<in> blocked_ips s then IP_BLOCKED
      else if allowed_ips s \<noteq> {} \<and> ip_src \<notin> allowed_ips s then IP_NOT_ALLOWLIST
      else ALLOWED)"

text \<open>The \<open>while tracker and now - tracker[0] >= window: tracker.popleft()\<close> loop.\<close>

fun expire :: "rat \<Rightarrow> rat \<Rightarrow> rat list \<Rightarrow> rat list" where
  "expire t window [] = []"
| "expire t window (x # xs) = (if t - x \<ge> window then expire t window xs else x # xs)"

definition check_ip_rate_limit ::
  "clock \<Rightarrow> nat \<Rightarrow> string \<Rightarrow> fw_state \<Rightarrow> check_result \<times> fw_state"
where
  "check_ip_rate_limit clk dp ip_src s =
     (let tracker0 = (case rate_tracker s ip_src of None \<Rightarrow> [] | Some d \<Rightarrow> d);
          tracker = expire (now clk) (rate_window s) tracker0
      in if int (length tracker) \<ge> rate_limit s then
           (RATE_LIMITED,
            add_flow dp 200 [Eth_type 0x0800, Ipv4_src ip_src] [] 10 0 None
              (s\<lparr>rate_tracker := (rate_tracker s)(ip_src \<mapsto> tracker)\<rparr>))
         else
           (ALLOWED, s\<lparr>rate_tracker := (rate_tracker s)(ip_src \<mapsto> tracker @ [now clk])\<rparr>))"

definition check_port_block :: "int \<Rightarrow> nat \<Rightarrow> fw_state \<Rightarrow> check_result" where
  "check_port_block proto_num dst_port s =
     (if (int dst_port, proto_num) \<in> blocked_ports s then PORT_BLOCKED else ALLOWED)"

definition check_arp_spoof :: "nat \<Rightarrow> string \<Rightarrow> string \<Rightarrow> fw_state \<Rightarrow> check_result \<times> fw_state" where
  "check_arp_spoof dp mac ip_src s =
     (case arp_table s ip_src of
        None \<Rightarrow> (ALLOWED, s\<lparr>arp_table := (arp_table s)(ip_src \<mapsto> mac)\<rparr>)
      | Some m \<Rightarrow>
          if m \<noteq> mac then
            (ARP_SPOOF, add_flow dp 200 [Eth_type 0x0806, Arp_spa ip_src] [] 10 0 None s)
          else (ALLOWED, s))"

definition TF_FIN :: nat where "TF_FIN = 0x01"
definition TF_SYN :: nat where "TF_SYN = 0x02"
definition TF_RST :: nat where "TF_RST = 0x04"
definition TF_PSH :: nat where "TF_PSH = 0x08"
definition TF_ACK :: nat where "TF_ACK = 0x10"
definition TF_URG :: nat where "TF_URG = 0x20"

lemmas tcp_flag_defs = TF_FIN_def TF_SYN_def TF_RST_def TF_PSH_def TF_ACK_def TF_URG_def

definition check_tcp_flags :: "tcp \<Rightarrow> check_result" where
  "check_tcp_flags tcp_pkt =
     (let flags_bits = bits tcp_pkt;
          xmas = or (or TF_FIN TF_PSH) TF_URG
      in if and flags_bits xmas = xmas then XMAS_SCAN
         else if flags_bits = 0 then NULL_SCAN
         else if and flags_bits (or TF_SYN TF_FIN) = or TF_SYN TF_FIN then SYN_FIN
         else if and flags_bits (or TF_SYN TF_RST) = or TF_SYN TF_RST then SYN_RST
         else if flags_bits = TF_FIN then FIN_SCAN
         else ALLOWED)"

section \<open>Verdicts\<close>

named_theorems fw_verdict

lemma check_ip_block_allowed [fw_verdict]:
  "check_ip_block ip s = ALLOWED \<longleftrightarrow>
     ip \<notin> blocked_ips s \<and> (allowed_ips s = {} \<or> ip \<in> allowed_ips s)"
  by (auto simp: check_ip_block_def)

lemma check_ip_block_not_dpi [simp]: "check_ip_block ip s \<noteq> DPI_BLOCKED"
  by (simp add: check_ip_block_def)

lemma check_port_block_allowed [fw_verdict]:
  "check_port_block pn port s = ALLOWED \<longleftrightarrow> (int port, pn) \<notin> blocked_ports s"
  "check_port_block pn port s \<in> {ALLOWED, PORT_BLOCKED}"
  by (auto simp: check_port_block_def)

text \<open>A mask is contained in a number when all its bits are.\<close>

lemma and_eq_mask_iff: "and n m = m \<longleftrightarrow> (\<forall>i. bit m i \<longrightarrow> bit n i)" for n m :: nat
  by (auto simp: bit_eq_iff bit_and_iff)

lemma and_or_iff: "and n (or a b) = or a b \<longleftrightarrow> and n a = a \<and> and n b = b" for n a b :: nat
  by (auto simp: and_eq_mask_iff bit_or_iff)

lemma and_pow2_iff: "and n (2 ^ i) = (2 ^ i :: nat) \<longleftrightarrow> bit n i" for n :: nat
  by (auto simp: and_eq_mask_iff bit_exp_iff)

lemma flag_set_bit:
  fixes n :: nat
  shows "and n TF_FIN = TF_FIN \<longleftrightarrow> bit n 0" "and n TF_SYN = TF_SYN \<longleftrightarrow> bit n 1"
    "and n TF_RST = TF_RST \<longleftrightarrow> bit n 2" "and n TF_PSH = TF_PSH \<longleftrightarrow> bit n 3"
    "and n TF_ACK = TF_ACK \<longleftrightarrow> bit n 4" "and n TF_URG = TF_URG \<longleftrightarrow> bit n 5"
  using and_pow2_iff [of n 0] and_pow2_iff [of n 1] and_pow2_iff [of n 2] and_pow2_iff [of n 3]
    and_pow2_iff [of n 4] and_pow2_iff [of n 5]
  by (simp_all add: tcp_flag_defs)

lemma check_tcp_flags_allowed [fw_verdict]:
  "check_tcp_flags t = ALLOWED \<longleftrightarrow>
     bits t \<noteq> 0 \<and> bits t \<noteq> TF_FIN \<and>
     \<not> (bit (bits t) 0 \<and> bit (bits t) 3 \<and> bit (bits t) 5) \<and>
     \<not> (bit (bits t) 1 \<and> bit (bits t) 0) \<and> \<not> (bit (bits t) 1 \<and> bit (bits t) 2)"
  by (auto simp: check_tcp_flags_def Let_def and_or_iff flag_set_bit)

lemma check_tcp_flags_range:
  "check_tcp_flags t \<in> {ALLOWED, XMAS_SCAN, NULL_SCAN, SYN_FIN, SYN_RST, FIN_SCAN}"
  by (simp add: check_tcp_flags_def Let_def)

section \<open>The sliding window\<close>

lemma expire_dropWhile: "expire t w xs = dropWhile (\<lambda>x. t - x \<ge> w) xs"
  by (induction xs) auto

lemma expire_subset: "set (expire t w xs) \<subseteq> set xs"
  by (auto simp: expire_dropWhile dest: set_dropWhileD)

lemma expire_sorted: "sorted xs \<Longrightarrow> sorted (expire t w xs)"
  by (simp add: expire_dropWhile sorted_dropWhile)

lemma expire_sorted_iff:
  "sorted xs \<Longrightarrow> expire t w xs = filter (\<lambda>x. t - x < w) xs"
proof (induction xs)
  case (Cons x xs)
  show ?case
  proof (cases "t - x \<ge> w")
    case False
    then have "\<forall>y \<in> set xs. t - y < w" using Cons.prems by force
    then show ?thesis using False by simp
  qed (use Cons in simp)
qed simp

text \<open>A tracker is well formed when its timestamps are in order and not in the future.\<close>

definition tracker_wf :: "rat \<Rightarrow> rat list \<Rightarrow> bool" where
  "tracker_wf t xs \<longleftrightarrow> sorted xs \<and> (\<forall>x \<in> set xs. x \<le> t)"

definition trackers_wf :: "rat \<Rightarrow> fw_state \<Rightarrow> bool" where
  "trackers_wf t s \<longleftrightarrow> (\<forall>ip d. rate_tracker s ip = Some d \<longrightarrow> tracker_wf t d)"

lemma tracker_wf_later: "tracker_wf t xs \<Longrightarrow> t \<le> t' \<Longrightarrow> tracker_wf t' xs"
  by (force simp: tracker_wf_def)

lemma tracker_wf_expire: "tracker_wf t xs \<Longrightarrow> tracker_wf t (expire t' w xs)"
  using expire_subset by (fastforce simp: tracker_wf_def expire_sorted)

lemma tracker_wf_snoc: "tracker_wf t xs \<Longrightarrow> tracker_wf t (xs @ [t])"
  by (auto simp: tracker_wf_def sorted_append)

section \<open>What a check leaves alone\<close>

text \<open>
  The parts of the state that only configuration changes: two states agree on them.
\<close>

definition same_config :: "fw_state \<Rightarrow> fw_state \<Rightarrow> bool" where
  "same_config s t \<longleftrightarrow>
     datapaths t = datapaths s \<and> blocked_ips t = blocked_ips s \<and>
     blocked_ports t = blocked_ports s \<and> allowed_ips t = allowed_ips s \<and>
     rate_limit t = rate_limit s \<and> rate_window t = rate_window s \<and> dpi t = dpi s"

lemma same_config_refl [simp, intro]: "same_config s s"
  by (simp add: same_config_def)

lemma same_config_trans [trans]: "same_config s t \<Longrightarrow> same_config t u \<Longrightarrow> same_config s u"
  by (simp add: same_config_def)

lemma same_config_log [simp]: "same_config s (fw_log clk lvl msg sr ds ex t) = same_config s t"
  by (simp add: same_config_def)

lemma same_config_send [simp]: "same_config s (send_msg dp m t) = same_config s t"
  by (simp add: same_config_def)

lemma same_config_updates [simp]:
  "same_config s (t\<lparr>stats := x\<rparr>) = same_config s t"
  "same_config s (t\<lparr>trust_table := y\<rparr>) = same_config s t"
  "same_config s (t\<lparr>rate_tracker := z\<rparr>) = same_config s t"
  "same_config s (t\<lparr>arp_table := a\<rparr>) = same_config s t"
  "same_config s (t\<lparr>mac_to_port := b\<rparr>) = same_config s t"
  by (simp_all add: same_config_def)

lemma same_config_add_flow [simp]:
  "same_config s (add_flow dp pr m acts i h b t) = same_config s t"
  using add_flow_ex [of dp pr m acts i h b t] by auto

lemma same_config_rate [simp]:
  "same_config s (snd (check_ip_rate_limit clk dp ip t)) = same_config s t"
  by (simp add: check_ip_rate_limit_def Let_def)

lemma same_config_arp [simp]:
  "same_config s (snd (check_arp_spoof dp m ip t)) = same_config s t"
  by (simp add: check_arp_spoof_def split: option.splits)

lemma same_config_apply_result [simp]:
  "same_config s (fst (apply_result clk r sr ds pn port t)) = same_config s t"
proof (cases "r = DPI_BLOCKED")
  case False
  from apply_result_state [OF False, of clk sr ds pn port t] show ?thesis
    by (auto split: option.splits)
qed (simp add: apply_result_def)

text \<open>Every flow installed by a check that refuses a packet is a drop flow.\<close>

definition is_drop :: "of_msg \<Rightarrow> bool" where
  "is_drop m \<longleftrightarrow> (\<exists>fm. m = FlowMod fm \<and> fm_command fm = OFPFC_ADD \<and> fm_instructions fm = [ApplyActions []])"

lemma flow_add_simps [simp]:
  "fm_command (flow_add pr m acts i h) = OFPFC_ADD"
  "fm_priority (flow_add pr m acts i h) = pr"
  "fm_match (flow_add pr m acts i h) = m"
  "fm_idle (flow_add pr m acts i h) = i"
  "fm_hard (flow_add pr m acts i h) = h"
  "fm_instructions (flow_add pr m acts i h) = [ApplyActions acts]"
  by (simp_all add: flow_add_def flow_mod_default_def)

lemma delete_flows_simps [simp]:
  "fm_command (delete_flows m) = OFPFC_DELETE"
  "fm_match (delete_flows m) = m"
  by (simp_all add: delete_flows_def flow_mod_default_def)

lemma check_ip_rate_limit_cases:
  obtains (limited) "fst (check_ip_rate_limit clk dp ip s) = RATE_LIMITED"
      "sent (snd (check_ip_rate_limit clk dp ip s)) =
         sent s @ [(dp, FlowMod (flow_add 200 [Eth_type 0x0800, Ipv4_src ip] [] 10 0))]"
  | (ok) "fst (check_ip_rate_limit clk dp ip s) = ALLOWED"
      "sent (snd (check_ip_rate_limit clk dp ip s)) = sent s"
  by (cases "fst (check_ip_rate_limit clk dp ip s) = RATE_LIMITED")
     (auto simp: check_ip_rate_limit_def Let_def add_flow_send split: if_splits)

lemma check_arp_spoof_cases:
  obtains (spoof) m where "arp_table s ip = Some m" "m \<noteq> mac"
      "check_arp_spoof dp mac ip s =
         (ARP_SPOOF, send_msg dp (FlowMod (flow_add 200 [Eth_type 0x0806, Arp_spa ip] [] 10 0)) s)"
  | (new) "arp_table s ip = None"
      "check_arp_spoof dp mac ip s = (ALLOWED, s\<lparr>arp_table := (arp_table s)(ip \<mapsto> mac)\<rparr>)"
  | (known) "arp_table s ip = Some mac" "check_arp_spoof dp mac ip s = (ALLOWED, s)"
  by (cases "arp_table s ip") (auto simp: check_arp_spoof_def add_flow_send)

end
