(* ===== verification/Fw_Trust.thy ===== *)
theory Fw_Trust
  imports Fw_Checks
begin

text \<open>
  The trust table of \<open>FirewallApp\<close>: its canonical keys, the per-flow DPI buffers, the count
  that promotes a flow to a pair of switch rules, and the three flush operations that withdraw
  what was promoted.  The lemmas relate \<open>check_dpi\<close> to the stream inspector, and give the
  effect of \<open>record_trust\<close> and of the flushes on the table and on the message trace.
\<close>

section \<open>Keys and entries\<close>

definition trust_key_of :: "nat \<Rightarrow> string \<Rightarrow> nat \<Rightarrow> string \<Rightarrow> nat \<Rightarrow> trust_key" where
  "trust_key_of proto_num a_ip a_port b_ip b_port =
     (let a = (a_ip, a_port); b = (b_ip, b_port)
      in if a \<le> b then (proto_num, a, b) else (proto_num, b, a))"

definition new_entry :: trust_entry where
  "new_entry = \<lparr>count = 0, installed = False, buf_a = [], buf_b = [], blocked = False\<rparr>"

definition get_or_create_flow_entry :: "trust_key \<Rightarrow> fw_state \<Rightarrow> trust_entry \<times> fw_state" where
  "get_or_create_flow_entry key s =
     (case dict_get (trust_table s) key of
        Some entry \<Rightarrow> (entry, s)
      | None \<Rightarrow> (new_entry, s\<lparr>trust_table := dict_set key new_entry (trust_table s)\<rparr>))"

definition put_entry :: "trust_key \<Rightarrow> trust_entry \<Rightarrow> fw_state \<Rightarrow> fw_state" where
  "put_entry key entry s = s\<lparr>trust_table := dict_set key entry (trust_table s)\<rparr>"

section \<open>Promotion to switch rules\<close>

definition l4_match :: "nat \<Rightarrow> string \<Rightarrow> nat \<Rightarrow> string \<Rightarrow> nat \<Rightarrow> oxm list" where
  "l4_match proto_num a_ip a_port b_ip b_port =
     [Eth_type 0x0800, Ip_proto proto_num, Ipv4_src a_ip, Ipv4_dst b_ip] @
     (if proto_num = 6 then [Tcp_src (int a_port), Tcp_dst (int b_port)]
      else [Udp_src (int a_port), Udp_dst (int b_port)])"

definition trust_log_msg :: "nat \<Rightarrow> string \<Rightarrow> nat \<Rightarrow> string \<Rightarrow> nat \<Rightarrow> string" where
  "trust_log_msg proto_num a_ip a_port b_ip b_port =
     ''Trust flow installed: '' @ a_ip @ '':'' @ nat_str a_port @ '' <-> '' @ b_ip @ '':'' @
     nat_str b_port @ '',proto='' @ nat_str proto_num"

definition install_trust_flow ::
  "clock \<Rightarrow> nat \<Rightarrow> ipv4 \<Rightarrow> nat \<Rightarrow> nat \<Rightarrow> nat \<Rightarrow> nat \<Rightarrow> fw_state \<Rightarrow> bool \<times> fw_state"
where
  "install_trust_flow clk dp ip_pkt l4_src l4_dst in_port out_port s =
     (let proto_num = proto ip_pkt in
      if proto_num \<noteq> 6 \<and> proto_num \<noteq> 17 then (False, s)
      else
        let s1 = add_flow dp TRUST_FLOW_PRIORITY
                   (l4_match proto_num (src ip_pkt) l4_src (dst ip_pkt) l4_dst)
                   [Output out_port OFPCML_MAX] TRUST_FLOW_IDLE_TIMEOUT TRUST_FLOW_HARD_TIMEOUT
                   None s;
            s2 = add_flow dp TRUST_FLOW_PRIORITY
                   (l4_match proto_num (dst ip_pkt) l4_dst (src ip_pkt) l4_src)
                   [Output in_port OFPCML_MAX] TRUST_FLOW_IDLE_TIMEOUT TRUST_FLOW_HARD_TIMEOUT
                   None s1
        in (True,
            fw_log clk ''info''
              (trust_log_msg proto_num (src ip_pkt) l4_src (dst ip_pkt) l4_dst)
              (Some (src ip_pkt)) (Some (dst ip_pkt)) (Some ''TRUST_FLOW'') s2))"

definition record_trust ::
  "clock \<Rightarrow> nat \<Rightarrow> ipv4 \<Rightarrow> nat \<Rightarrow> nat \<Rightarrow> nat \<Rightarrow> nat \<Rightarrow> fw_state \<Rightarrow> fw_state"
where
  "record_trust clk dp ip_pkt l4_src l4_dst in_port out_port s =
     (let proto_num = proto ip_pkt in
      if proto_num \<noteq> 6 \<and> proto_num \<noteq> 17 then s
      else
        let key = trust_key_of proto_num (src ip_pkt) l4_src (dst ip_pkt) l4_dst;
            (entry, s1) = get_or_create_flow_entry key s
        in if installed entry then s1
           else
             let entry1 = entry\<lparr>count := count entry + 1\<rparr>;
                 s2 = put_entry key entry1 s1
             in if count entry1 < TRUST_K then s2
                else
                  let (ok, s3) = install_trust_flow clk dp ip_pkt l4_src l4_dst in_port out_port s2
                  in if ok then
                       let s4 = put_entry key (entry1\<lparr>installed := True\<rparr>) s3
                       in s4\<lparr>stats := (stats s4)\<lparr>n_trust_flows_installed :=
                                n_trust_flows_installed (stats s4) + 1\<rparr>\<rparr>
                     else s3)"

section \<open>Deep packet inspection\<close>

definition extract_tcp_payload :: "bytes \<Rightarrow> ipv4 \<Rightarrow> tcp \<Rightarrow> bytes" where
  "extract_tcp_payload raw_frame ip_pkt tcp_pkt =
     (let eth_len = 14; ip_len = header_length ip_pkt * 4; tcp_len = tcp_offset tcp_pkt * 4;
          start = eth_len + ip_len + tcp_len
      in if start \<ge> length raw_frame then [] else drop start raw_frame)"

text \<open>The buffer of a direction, read and written.\<close>

definition dir_buf :: "bool \<Rightarrow> trust_entry \<Rightarrow> bytes" where
  "dir_buf fwd entry = (if fwd then buf_a entry else buf_b entry)"

definition set_dir_buf :: "bool \<Rightarrow> bytes \<Rightarrow> trust_entry \<Rightarrow> trust_entry" where
  "set_dir_buf fwd b entry = (if fwd then entry\<lparr>buf_a := b\<rparr> else entry\<lparr>buf_b := b\<rparr>)"

definition check_dpi ::
  "clock \<Rightarrow> ipv4 \<Rightarrow> tcp \<Rightarrow> bytes \<Rightarrow> fw_state \<Rightarrow> check_result \<times> fw_state"
where
  "check_dpi clk ip_pkt tcp_pkt payload s =
     (let key = trust_key_of (proto ip_pkt) (src ip_pkt) (tcp_src_port tcp_pkt)
                  (dst ip_pkt) (tcp_dst_port tcp_pkt);
          (entry, s1) = get_or_create_flow_entry key s
      in if blocked entry then (DPI_BLOCKED, s1)
         else if payload = [] then (ALLOWED, s1)
         else
           let (canonical_a_ip, canonical_a_port) = fst (snd key);
               fwd = (src ip_pkt = canonical_a_ip \<and> tcp_src_port tcp_pkt = canonical_a_port);
               buf = feed MAX_BUFFER_BYTES (dir_buf fwd entry) payload;
               entry1 = set_dir_buf fwd buf entry;
               s2 = put_entry key entry1 s1;
               verdict = inspect (dpi s) buf
           in if matched verdict then
                let s3 = put_entry key (entry1\<lparr>blocked := True\<rparr>) s2;
                    s4 = s3\<lparr>stats := (stats s3)\<lparr>n_dpi_blocked := n_dpi_blocked (stats s3) + 1\<rparr>\<rparr>
                in (DPI_BLOCKED,
                    fw_log clk ''block''
                      (''DPI blocked ['' @ opt_str (pattern_name verdict) @ ''] from '' @ src ip_pkt)
                      (Some (src ip_pkt)) (Some (dst ip_pkt))
                      (Some (''DPI: '' @ opt_str (pattern_name verdict))) s4)
              else (ALLOWED, s2))"

section \<open>Flushing\<close>

fun comma_join :: "string list \<Rightarrow> string" where
  "comma_join [] = []"
| "comma_join [x] = x"
| "comma_join (x # xs) = x @ '', '' @ comma_join xs"

text \<open>\<open>str(list(self.datapaths.keys()))\<close>.\<close>

definition dpid_list_str :: "nat list \<Rightarrow> string" where
  "dpid_list_str ds = ''['' @ comma_join (map nat_str ds) @ '']''"

fun flush_ip_loop :: "string \<Rightarrow> nat list \<Rightarrow> fw_state \<Rightarrow> fw_state" where
  "flush_ip_loop ip [] s = s"
| "flush_ip_loop ip (dp # ds) s =
     flush_ip_loop ip ds
       (send_msg dp (FlowMod (delete_flows [Eth_type 0x0800, Ipv4_dst ip]))
         (send_msg dp (FlowMod (delete_flows [Eth_type 0x0800, Ipv4_src ip])) s))"

definition key_has_ip :: "string \<Rightarrow> trust_key \<Rightarrow> bool" where
  "key_has_ip ip k \<longleftrightarrow> fst (fst (snd k)) = ip \<or> fst (snd (snd k)) = ip"

definition flush_flows_for_ip :: "clock \<Rightarrow> string \<Rightarrow> fw_state \<Rightarrow> fw_state" where
  "flush_flows_for_ip clk ip s =
     (let s1 = fw_log clk ''info''
                 (''flushing flows for '' @ ip @ '', datapaths: '' @ dpid_list_str (datapaths s))
                 None None None s;
          s2 = flush_ip_loop ip (datapaths s1) s1
      in s2\<lparr>trust_table := dict_remove_if (key_has_ip ip) (trust_table s2)\<rparr>)"

text \<open>The loop over the datapaths; \<open>False\<close> is the \<open>return\<close> from inside it.\<close>

fun flush_port_loop :: "int \<Rightarrow> int \<Rightarrow> nat list \<Rightarrow> fw_state \<Rightarrow> bool \<times> fw_state" where
  "flush_port_loop port proto_num [] s = (True, s)"
| "flush_port_loop port proto_num (dp # ds) s =
     (if proto_num = 6 then
        flush_port_loop port proto_num ds
          (send_msg dp (FlowMod (delete_flows [Eth_type 0x0800, Ip_proto 6, Tcp_dst port])) s)
      else if proto_num = 17 then
        flush_port_loop port proto_num ds
          (send_msg dp (FlowMod (delete_flows [Eth_type 0x0800, Ip_proto 17, Udp_dst port])) s)
      else (False, s))"

definition key_has_port :: "int \<Rightarrow> int \<Rightarrow> trust_key \<Rightarrow> bool" where
  "key_has_port port proto_num k \<longleftrightarrow>
     int (fst k) = proto_num \<and>
     (int (snd (fst (snd k))) = port \<or> int (snd (snd (snd k))) = port)"

definition flush_flows_for_port :: "clock \<Rightarrow> int \<Rightarrow> int \<Rightarrow> fw_state \<Rightarrow> fw_state" where
  "flush_flows_for_port clk port proto_num s =
     (let s1 = fw_log clk ''info''
                 (''Flushing flows for port '' @ int_str port @ '', datapaths: '' @
                   dpid_list_str (datapaths s)) None None None s;
          (finished, s2) = flush_port_loop port proto_num (datapaths s1) s1
      in if finished then
           s2\<lparr>trust_table := dict_remove_if (key_has_port port proto_num) (trust_table s2)\<rparr>
         else s2)"

fun flush_all_loop :: "nat list \<Rightarrow> fw_state \<Rightarrow> fw_state" where
  "flush_all_loop [] s = s"
| "flush_all_loop (dp # ds) s =
     flush_all_loop ds
       (add_flow dp 300 [Eth_type 0x0800] [Output OFPP_CONTROLLER 65535] 0 0 None
         (send_msg dp (FlowMod (delete_flows [Eth_type 0x0800])) s))"

definition flush_all_trust_flows :: "clock \<Rightarrow> fw_state \<Rightarrow> fw_state" where
  "flush_all_trust_flows clk s =
     (let s1 = flush_all_loop (datapaths s) s;
          n = length (trust_table s1);
          s2 = s1\<lparr>trust_table := [], stats := (stats s1)\<lparr>n_trust_flows_installed := 0\<rparr>\<rparr>
      in fw_log clk ''info''
           (''Flushed '' @ nat_str n @ '' trust entries (DPI pattern change)'') None None None s2)"

section \<open>Keys are canonical\<close>

lemma trust_key_min_max:
  "trust_key_of pn a_ip a_port b_ip b_port =
     (pn, min (a_ip, a_port) (b_ip, b_port), max (a_ip, a_port) (b_ip, b_port))"
  unfolding trust_key_of_def Let_def min_def max_def by (simp only: split: if_split) blast

lemma trust_key_sym:
  "trust_key_of pn a_ip a_port b_ip b_port = trust_key_of pn b_ip b_port a_ip a_port"
  unfolding trust_key_min_max by (simp only: min.commute max.commute)

lemma min_max_eq_iff:
  "min a b = min c d \<and> max a b = max c d \<longleftrightarrow> {a, b} = {c, d}" for a b c d :: "'a :: linorder"
  by (cases a b rule: linorder_le_cases; cases c d rule: linorder_le_cases)
     (auto simp: min_absorb1 min_absorb2 max_absorb1 max_absorb2 doubleton_eq_iff)

lemma trust_key_eq_iff:
  "trust_key_of pn a_ip a_port b_ip b_port = trust_key_of pn' c_ip c_port d_ip d_port \<longleftrightarrow>
     pn = pn' \<and> {(a_ip, a_port), (b_ip, b_port)} = {(c_ip, c_port), (d_ip, d_port)}"
  unfolding trust_key_min_max prod.inject min_max_eq_iff ..

definition key_canonical :: "trust_key \<Rightarrow> bool" where
  "key_canonical k \<longleftrightarrow> fst (snd k) \<le> snd (snd k)"

lemma trust_key_canonical [simp]: "key_canonical (trust_key_of pn a_ip a_port b_ip b_port)"
  unfolding trust_key_min_max key_canonical_def snd_conv fst_conv
  by (rule order_trans [OF min.cobounded1 max.cobounded1])

lemma key_has_ip_trust_key [simp]:
  "key_has_ip ip (trust_key_of pn a_ip a_port b_ip b_port) \<longleftrightarrow> a_ip = ip \<or> b_ip = ip"
  unfolding key_has_ip_def trust_key_of_def Let_def
  by (cases "(a_ip, a_port) \<le> (b_ip, b_port)") (simp_all only: if_True if_False fst_conv snd_conv disj_commute)

section \<open>Entries\<close>

definition entry_of :: "trust_key \<Rightarrow> fw_state \<Rightarrow> trust_entry" where
  "entry_of k s = (case dict_get (trust_table s) k of None \<Rightarrow> new_entry | Some e \<Rightarrow> e)"

lemma put_entry_frame [simp]:
  "sent (put_entry k e s) = sent s" "stats (put_entry k e s) = stats s"
  "dpi (put_entry k e s) = dpi s" "datapaths (put_entry k e s) = datapaths s"
  "event_log (put_entry k e s) = event_log s"
  "same_config t (put_entry k e s) = same_config t s"
  "trust_table (put_entry k e s) = dict_set k e (trust_table s)"
  by (simp_all add: put_entry_def)

lemma entry_of_put [simp]: "entry_of k' (put_entry k e s) = (if k' = k then e else entry_of k' s)"
  by (simp add: entry_of_def)

lemma entry_of_table: "trust_table s = trust_table t \<Longrightarrow> entry_of k s = entry_of k t"
  by (simp add: entry_of_def)

lemma entry_of_frame [simp]:
  "entry_of k (fw_log clk lvl msg sr ds ex s) = entry_of k s"
  "entry_of k (send_msg dp m s) = entry_of k s"
  "entry_of k (s\<lparr>stats := st\<rparr>) = entry_of k s"
  by (simp_all add: entry_of_def)

text \<open>The state after a lookup that creates a missing entry.\<close>

definition touch :: "trust_key \<Rightarrow> fw_state \<Rightarrow> fw_state" where
  "touch k s = snd (get_or_create_flow_entry k s)"

lemma touch_alt:
  "touch k s = (if dict_get (trust_table s) k = None then put_entry k new_entry s else s)"
  by (simp add: touch_def get_or_create_flow_entry_def put_entry_def split: option.split)

lemma get_or_create_touch: "get_or_create_flow_entry k s = (entry_of k s, touch k s)"
  by (simp add: touch_def get_or_create_flow_entry_def entry_of_def split: option.split)

lemma touch_frame [simp]:
  "sent (touch k s) = sent s" "stats (touch k s) = stats s" "dpi (touch k s) = dpi s"
  "datapaths (touch k s) = datapaths s" "event_log (touch k s) = event_log s"
  "same_config t (touch k s) = same_config t s"
  by (simp_all add: touch_alt)

lemma entry_of_touch [simp]: "entry_of k' (touch k s) = entry_of k' s"
  by (simp add: touch_alt) (simp add: entry_of_def)

section \<open>DPI as a stream inspector\<close>

text \<open>
  The abstract view of a flow: its two buffers and whether it is blocked; the abstract step
  feeds one segment to the buffer of a direction and inspects it.
\<close>

type_synonym flow_view = "bytes \<times> bytes \<times> bool"

definition view :: "trust_key \<Rightarrow> fw_state \<Rightarrow> flow_view" where
  "view k s = (buf_a (entry_of k s), buf_b (entry_of k s), blocked (entry_of k s))"

fun view_step :: "dpi_engine \<Rightarrow> bool \<Rightarrow> bytes \<Rightarrow> flow_view \<Rightarrow> flow_view" where
  "view_step e fwd p (a, b, bl) =
     (if bl \<or> p = [] then (a, b, bl)
      else let buf = feed MAX_BUFFER_BYTES (if fwd then a else b) p
           in if fwd then (buf, b, flagged e buf) else (a, buf, flagged e buf))"

definition pkt_key :: "ipv4 \<Rightarrow> tcp \<Rightarrow> trust_key" where
  "pkt_key ip_pkt tcp_pkt =
     trust_key_of (proto ip_pkt) (src ip_pkt) (tcp_src_port tcp_pkt) (dst ip_pkt) (tcp_dst_port tcp_pkt)"

definition pkt_fwd :: "ipv4 \<Rightarrow> tcp \<Rightarrow> bool" where
  "pkt_fwd ip_pkt tcp_pkt \<longleftrightarrow>
     (src ip_pkt, tcp_src_port tcp_pkt) = fst (snd (pkt_key ip_pkt tcp_pkt))"

lemma pkt_key_canonical [simp]: "key_canonical (pkt_key ip_pkt tcp_pkt)"
  by (simp add: pkt_key_def)

lemma dir_buf_simps [simp]:
  "buf_a (set_dir_buf fwd b e) = (if fwd then b else buf_a e)"
  "buf_b (set_dir_buf fwd b e) = (if fwd then buf_b e else b)"
  "blocked (set_dir_buf fwd b e) = blocked e"
  "count (set_dir_buf fwd b e) = count e"
  "installed (set_dir_buf fwd b e) = installed e"
  by (simp_all add: set_dir_buf_def)

text \<open>The code of \<open>check_dpi\<close>, with the key and the direction named.\<close>

lemma check_dpi_alt:
  "check_dpi clk ip_pkt tcp_pkt payload s =
     (let key = pkt_key ip_pkt tcp_pkt;
          entry = entry_of key s;
          s1 = touch key s;
          fwd = pkt_fwd ip_pkt tcp_pkt;
          buf = feed MAX_BUFFER_BYTES (dir_buf fwd entry) payload;
          entry1 = set_dir_buf fwd buf entry;
          s2 = put_entry key entry1 s1;
          verdict = inspect (dpi s) buf;
          s3 = put_entry key (entry1\<lparr>blocked := True\<rparr>) s2
      in if blocked entry then (DPI_BLOCKED, s1)
         else if payload = [] then (ALLOWED, s1)
         else if matched verdict then
           (DPI_BLOCKED,
            fw_log clk ''block''
              (''DPI blocked ['' @ opt_str (pattern_name verdict) @ ''] from '' @ src ip_pkt)
              (Some (src ip_pkt)) (Some (dst ip_pkt))
              (Some (''DPI: '' @ opt_str (pattern_name verdict)))
              (s3\<lparr>stats := (stats s3)\<lparr>n_dpi_blocked := n_dpi_blocked (stats s3) + 1\<rparr>\<rparr>))
         else (ALLOWED, s2))"
proof -
  obtain pn a b where k: "pkt_key ip_pkt tcp_pkt = (pn, a, b)" by (cases "pkt_key ip_pkt tcp_pkt") auto
  have f: "pkt_fwd ip_pkt tcp_pkt \<longleftrightarrow> src ip_pkt = fst a \<and> tcp_src_port tcp_pkt = snd a"
    by (cases a) (simp add: pkt_fwd_def k)
  show ?thesis
    unfolding check_dpi_def pkt_key_def [symmetric]
    by (simp add: Let_def get_or_create_touch f) (simp add: k case_prod_beta)
qed

text \<open>Simulation: on its own flow \<open>check_dpi\<close> is the abstract step, and other flows keep their view.\<close>

lemma check_dpi_view:
  "view k (snd (check_dpi clk ip_pkt tcp_pkt payload s)) =
     (if k = pkt_key ip_pkt tcp_pkt
      then view_step (dpi s) (pkt_fwd ip_pkt tcp_pkt) payload (view k s) else view k s)"
  by (simp add: check_dpi_alt Let_def view_def dir_buf_def flagged_def)

lemma check_dpi_verdict:
  "fst (check_dpi clk ip_pkt tcp_pkt payload s) =
     (if snd (snd (view (pkt_key ip_pkt tcp_pkt)
             (snd (check_dpi clk ip_pkt tcp_pkt payload s)))) then DPI_BLOCKED else ALLOWED)"
  by (simp add: check_dpi_alt Let_def view_def)

lemma check_dpi_frame [simp]:
  "dpi (snd (check_dpi clk ip_pkt tcp_pkt payload s)) = dpi s"
  "sent (snd (check_dpi clk ip_pkt tcp_pkt payload s)) = sent s"
  "same_config t (snd (check_dpi clk ip_pkt tcp_pkt payload s)) = same_config t s"
  by (simp_all add: check_dpi_alt Let_def)

end
