(* ===== verification/Fw_Flows.thy ===== *)
theory Fw_Flows
  imports Fw_Trust
begin

text \<open>
  What the trust operations achieve over sequences of packets: the DPI outcome of a flow as a
  statement about its two byte streams, the number of packets that promotes a flow, and what a
  flush leaves in the switches.  A switch is represented by the flow entries that the messages
  sent to it leave standing (\<open>flow_table\<close>).
\<close>

section \<open>DPI over a sequence of packets\<close>

type_synonym tcp_pkt = "ipv4 \<times> tcp \<times> bytes"

definition dpi_packets :: "clock \<Rightarrow> tcp_pkt list \<Rightarrow> fw_state \<Rightarrow> fw_state" where
  "dpi_packets clk pkts s =
     fold (\<lambda>(ip_pkt, tcp_pkt, payload) s. snd (check_dpi clk ip_pkt tcp_pkt payload s)) pkts s"

text \<open>The segments of one direction of one flow.\<close>

definition dir_segments :: "trust_key \<Rightarrow> bool \<Rightarrow> tcp_pkt list \<Rightarrow> bytes list" where
  "dir_segments k fwd pkts =
     map (\<lambda>(i, t, p). p) (filter (\<lambda>(i, t, p). pkt_key i t = k \<and> pkt_fwd i t = fwd) pkts)"

lemma dpi_packets_Nil [simp]: "dpi_packets clk [] s = s"
  by (simp add: dpi_packets_def)

lemma dpi_packets_Cons [simp]:
  "dpi_packets clk ((i, t, p) # r) s = dpi_packets clk r (snd (check_dpi clk i t p s))"
  by (simp add: dpi_packets_def)

lemma dir_segments_simps [simp]:
  "dir_segments k fwd [] = []"
  "dir_segments k fwd ((i, t, p) # r) =
     (if pkt_key i t = k \<and> pkt_fwd i t = fwd then p # dir_segments k fwd r
      else dir_segments k fwd r)"
  by (simp_all add: dir_segments_def)

lemma blocked_stays:
  "snd (snd (view k s)) \<Longrightarrow> snd (snd (view k (dpi_packets clk pkts s)))"
proof (induction pkts arbitrary: s)
  case (Cons p r)
  obtain i t b where p: "p = (i, t, b)" by (cases p) auto
  have "snd (snd (view k (snd (check_dpi clk i t b s))))"
    using Cons.prems by (cases "view k s") (auto simp: check_dpi_view)
  then show ?case using Cons.IH by (simp add: p)
qed simp

text \<open>
  A flow ends up blocked exactly when inspection of one of its directions fires, whatever
  packets of other flows come in between.
\<close>

lemma dpi_packets_scan:
  assumes "view k s = (a, b, False)"
  shows "snd (snd (view k (dpi_packets clk pkts s))) \<longleftrightarrow>
     engine.scan (dpi s) MAX_BUFFER_BYTES a (dir_segments k True pkts) \<or>
     engine.scan (dpi s) MAX_BUFFER_BYTES b (dir_segments k False pkts)"
  using assms
proof (induction pkts arbitrary: s a b)
  case (Cons p r)
  obtain i t x where p: "p = (i, t, x)" by (cases p) auto
  define s' where "s' = snd (check_dpi clk i t x s)"
  have d: "dpi s' = dpi s" by (simp add: s'_def)
  show ?case
  proof (cases "pkt_key i t = k \<and> x \<noteq> []")
    case False
    then have "view k s' = (a, b, False)"
      using Cons.prems by (auto simp: s'_def check_dpi_view)
    from Cons.IH [OF this] False d show ?thesis by (auto simp: p s'_def [symmetric])
  next
    case True
    define buf where "buf = feed MAX_BUFFER_BYTES (if pkt_fwd i t then a else b) x"
    have v: "view k s' = (if pkt_fwd i t then (buf, b, flagged (dpi s) buf) else (a, buf, flagged (dpi s) buf))"
      using Cons.prems True by (auto simp: s'_def check_dpi_view buf_def Let_def)
    show ?thesis
    proof (cases "flagged (dpi s) buf")
      case True
      then have "snd (snd (view k s'))" using v by auto
      then have "snd (snd (view k (dpi_packets clk r s')))" by (rule blocked_stays)
      then show ?thesis
        using True \<open>pkt_key i t = k \<and> x \<noteq> []\<close> by (auto simp: p s'_def buf_def split: if_splits)
    next
      case False
      with v Cons.IH [of s' "if pkt_fwd i t then buf else a" "if pkt_fwd i t then b else buf"] True d
      show ?thesis by (auto simp: p s'_def [symmetric] buf_def split: if_splits)
    qed
  qed
qed simp

text \<open>The engines of well-formed pattern tables flag at least what the built-ins flag.\<close>

lemma scan_builtin_mono:
  assumes "engine_wf e" and "engine.scan BUILTIN_DPI_PATTERNS cap buf ps"
  shows "engine.scan e cap buf ps"
  using assms(2)
  by (induction ps arbitrary: buf) (auto dest: flagged_wf_builtin [OF assms(1)] split: if_splits)

lemma fresh_view: "dict_get (trust_table s) k = None \<Longrightarrow> view k s = ([], [], False)"
  by (simp add: view_def entry_of_def new_entry_def)

section \<open>Promotion\<close>

text \<open>A packet, as \<open>record_trust\<close> sees it.\<close>

record l4_event =
  ev_dp :: nat
  ev_ip :: ipv4
  ev_src :: nat
  ev_dst :: nat
  ev_in :: nat
  ev_out :: nat

definition ev_key :: "l4_event \<Rightarrow> trust_key" where
  "ev_key e = trust_key_of (proto (ev_ip e)) (src (ev_ip e)) (ev_src e) (dst (ev_ip e)) (ev_dst e)"

definition record_event :: "clock \<Rightarrow> l4_event \<Rightarrow> fw_state \<Rightarrow> fw_state" where
  "record_event clk e s =
     record_trust clk (ev_dp e) (ev_ip e) (ev_src e) (ev_dst e) (ev_in e) (ev_out e) s"

text \<open>The pair of rules that promotion installs.\<close>

definition trust_rule :: "oxm list \<Rightarrow> nat \<Rightarrow> flow_mod" where
  "trust_rule m port =
     flow_add TRUST_FLOW_PRIORITY m [Output port OFPCML_MAX]
       TRUST_FLOW_IDLE_TIMEOUT TRUST_FLOW_HARD_TIMEOUT"

definition fwd_match :: "l4_event \<Rightarrow> oxm list" where
  "fwd_match e = l4_match (proto (ev_ip e)) (src (ev_ip e)) (ev_src e) (dst (ev_ip e)) (ev_dst e)"

definition rev_match :: "l4_event \<Rightarrow> oxm list" where
  "rev_match e = l4_match (proto (ev_ip e)) (dst (ev_ip e)) (ev_dst e) (src (ev_ip e)) (ev_src e)"

definition trust_pair :: "l4_event \<Rightarrow> (nat \<times> of_msg) list" where
  "trust_pair e =
     [(ev_dp e, FlowMod (trust_rule (fwd_match e) (ev_out e))),
      (ev_dp e, FlowMod (trust_rule (rev_match e) (ev_in e)))]"

definition l4_proto :: "l4_event \<Rightarrow> bool" where
  "l4_proto e \<longleftrightarrow> proto (ev_ip e) = 6 \<or> proto (ev_ip e) = 17"

lemma install_trust_flow_effect:
  assumes "l4_proto e"
  shows "fst (install_trust_flow clk (ev_dp e) (ev_ip e) (ev_src e) (ev_dst e) (ev_in e) (ev_out e) s)"
    and "sent (snd (install_trust_flow clk (ev_dp e) (ev_ip e) (ev_src e) (ev_dst e) (ev_in e) (ev_out e) s))
       = sent s @ trust_pair e"
    and "trust_table (snd (install_trust_flow clk (ev_dp e) (ev_ip e) (ev_src e) (ev_dst e) (ev_in e) (ev_out e) s))
       = trust_table s"
    and "stats (snd (install_trust_flow clk (ev_dp e) (ev_ip e) (ev_src e) (ev_dst e) (ev_in e) (ev_out e) s))
       = stats s"
    and "same_config t (snd (install_trust_flow clk (ev_dp e) (ev_ip e) (ev_src e) (ev_dst e) (ev_in e) (ev_out e) s))
       = same_config t s"
  using assms
  by (auto simp: install_trust_flow_def Let_def l4_proto_def trust_pair_def trust_rule_def
      fwd_match_def rev_match_def add_flow_send)

lemma entry_of_install:
  "entry_of k (snd (install_trust_flow clk dp ip sp dq inp outp s)) = entry_of k s"
  by (simp add: install_trust_flow_def Let_def add_flow_send)

text \<open>The effect of one packet on the entry of its flow and on the trace.\<close>

lemma record_event_effect:
  fixes e s
  defines "ent \<equiv> entry_of (ev_key e) s"
  assumes "l4_proto e"
  shows "sent (record_event clk e s) =
      sent s @ (if \<not> installed ent \<and> TRUST_K \<le> count ent + 1 then trust_pair e else [])"
    and "entry_of k (record_event clk e s) =
      (if k = ev_key e \<and> \<not> installed ent
       then ent\<lparr>count := count ent + 1, installed := (TRUST_K \<le> count ent + 1)\<rparr>
       else entry_of k s)"
    and "same_config t (record_event clk e s) = same_config t s"
  using assms(2) install_trust_flow_effect [OF assms(2)]
  by (auto simp: record_event_def record_trust_def Let_def get_or_create_touch l4_proto_def
      ent_def ev_key_def case_prod_beta entry_of_install)

text \<open>
  A run of packets of one flow, in either direction: the switch rules are sent at the fifth
  packet, for that packet's switch and ports, and never again.
\<close>

definition record_events :: "clock \<Rightarrow> l4_event list \<Rightarrow> fw_state \<Rightarrow> fw_state" where
  "record_events clk es s = fold (record_event clk) es s"

lemma record_events_effect:
  assumes "\<forall>e \<in> set es. l4_proto e \<and> ev_key e = k" and "entry_of k s = new_entry"
  shows "sent (record_events clk es s) =
      sent s @ (if length es < TRUST_K then [] else trust_pair (es ! (TRUST_K - 1)))"
    and "installed (entry_of k (record_events clk es s)) \<longleftrightarrow> TRUST_K \<le> length es"
    and "count (entry_of k (record_events clk es s)) = min TRUST_K (length es)"
  using assms(1)
proof (induction es rule: rev_induct)
  case (snoc e es)
  {
    case 1
    with snoc record_event_effect(1) [of e clk "record_events clk es s"] show ?case
      by (auto simp: record_events_def nth_append TRUST_K_def)
  next
    case 2
    with snoc record_event_effect(2) [of e k clk "record_events clk es s"] show ?case
      by (auto simp: record_events_def TRUST_K_def)
  next
    case 3
    with snoc record_event_effect(2) [of e k clk "record_events clk es s"] show ?case
      by (auto simp: record_events_def TRUST_K_def)
  }
qed (simp_all add: record_events_def assms(2) new_entry_def TRUST_K_def)

section \<open>Flow entries that a trace leaves standing\<close>

text \<open>
  A delete removes the entries whose match has at least its fields; an add replaces an entry
  of the same match and priority.  Time-outs can only remove more.
\<close>

definition flow_covers :: "oxm list \<Rightarrow> oxm list \<Rightarrow> bool" where
  "flow_covers m m' \<longleftrightarrow> set m \<subseteq> set m'"

definition apply_flow_mod :: "flow_mod \<Rightarrow> flow_mod list \<Rightarrow> flow_mod list" where
  "apply_flow_mod f tab =
     (case fm_command f of
        OFPFC_ADD \<Rightarrow>
          filter (\<lambda>g. \<not> (set (fm_match g) = set (fm_match f) \<and> fm_priority g = fm_priority f)) tab @ [f]
      | OFPFC_DELETE \<Rightarrow> filter (\<lambda>g. \<not> flow_covers (fm_match f) (fm_match g)) tab)"

definition apply_msg :: "nat \<Rightarrow> nat \<times> of_msg \<Rightarrow> flow_mod list \<Rightarrow> flow_mod list" where
  "apply_msg dp m tab =
     (case m of (d, FlowMod f) \<Rightarrow> if d = dp then apply_flow_mod f tab else tab | _ \<Rightarrow> tab)"

definition flow_table :: "nat \<Rightarrow> (nat \<times> of_msg) list \<Rightarrow> flow_mod list" where
  "flow_table dp tr = fold (apply_msg dp) tr []"

lemma flow_table_append: "flow_table dp (tr @ ms) = fold (apply_msg dp) ms (flow_table dp tr)"
  by (simp add: flow_table_def)

text \<open>After a delete, only later adds can bring a covered entry back.\<close>

lemma apply_msg_keeps_out:
  assumes "\<forall>g \<in> set tab. \<not> P g" and "\<forall>f. m = FlowMod f \<and> fm_command f = OFPFC_ADD \<longrightarrow> \<not> P f"
  shows "\<forall>g \<in> set (apply_msg dp (d, m) tab). \<not> P g"
  using assms by (auto simp: apply_msg_def apply_flow_mod_def split: of_msg.splits fm_command.splits)

lemma fold_msgs_keeps_out:
  assumes "\<forall>g \<in> set tab. \<not> P g"
    and "\<forall>d f. (d, FlowMod f) \<in> set ms \<and> fm_command f = OFPFC_ADD \<longrightarrow> \<not> P f"
  shows "\<forall>g \<in> set (fold (apply_msg dp) ms tab). \<not> P g"
  using assms
proof (induction ms arbitrary: tab)
  case (Cons m ms)
  obtain d x where m: "m = (d, x)" by (cases m)
  have "\<forall>g \<in> set (apply_msg dp m tab). \<not> P g"
    unfolding m by (rule apply_msg_keeps_out) (use Cons.prems m in auto)
  from Cons.IH [OF this] Cons.prems(2) show ?case by (metis fold_simps(2) list.set_intros(2))
qed simp

lemma delete_clears:
  assumes "(dp, FlowMod (delete_flows m)) \<in> set ms"
    and "\<forall>d f. (d, FlowMod f) \<in> set ms \<longrightarrow> fm_command f = OFPFC_ADD \<longrightarrow> \<not> flow_covers m (fm_match f)"
  shows "\<forall>g \<in> set (flow_table dp (tr @ ms)). \<not> flow_covers m (fm_match g)"
proof -
  from assms(1) obtain pre post where ms: "ms = pre @ (dp, FlowMod (delete_flows m)) # post"
    by (auto simp: in_set_conv_decomp)
  let ?t = "fold (apply_msg dp) pre (flow_table dp tr)"
  have "\<forall>g \<in> set (apply_msg dp (dp, FlowMod (delete_flows m)) ?t). \<not> flow_covers m (fm_match g)"
    by (auto simp: apply_msg_def apply_flow_mod_def)
  then have "\<forall>g \<in> set (fold (apply_msg dp) post (apply_msg dp (dp, FlowMod (delete_flows m)) ?t)).
      \<not> flow_covers m (fm_match g)"
    by (rule fold_msgs_keeps_out) (use assms(2) ms in auto)
  then show ?thesis by (simp add: flow_table_append ms)
qed

section \<open>Flushing\<close>

definition flush_ip_msgs :: "string \<Rightarrow> nat list \<Rightarrow> (nat \<times> of_msg) list" where
  "flush_ip_msgs ip ds =
     concat (map (\<lambda>dp. [(dp, FlowMod (delete_flows [Eth_type 0x0800, Ipv4_src ip])),
                        (dp, FlowMod (delete_flows [Eth_type 0x0800, Ipv4_dst ip]))]) ds)"

lemma flush_ip_loop_effect:
  "flush_ip_loop ip ds s = s\<lparr>sent := sent s @ flush_ip_msgs ip ds\<rparr>"
  by (induction ds arbitrary: s) (simp_all add: flush_ip_msgs_def send_msg_def)

lemma flush_flows_for_ip_effect:
  "sent (flush_flows_for_ip clk ip s) = sent s @ flush_ip_msgs ip (datapaths s)"
  "trust_table (flush_flows_for_ip clk ip s) = dict_remove_if (key_has_ip ip) (trust_table s)"
  "stats (flush_flows_for_ip clk ip s) = stats s"
  "same_config t (flush_flows_for_ip clk ip s) = same_config t s"
  by (simp_all add: flush_flows_for_ip_def Let_def flush_ip_loop_effect same_config_def)

text \<open>The addresses that a flow entry matches on.\<close>

definition mentions_ip :: "string \<Rightarrow> flow_mod \<Rightarrow> bool" where
  "mentions_ip ip f \<longleftrightarrow> Eth_type 0x0800 \<in> set (fm_match f) \<and>
     (Ipv4_src ip \<in> set (fm_match f) \<or> Ipv4_dst ip \<in> set (fm_match f))"

lemma mentions_ip_covers:
  "mentions_ip ip f \<longleftrightarrow> flow_covers [Eth_type 0x0800, Ipv4_src ip] (fm_match f) \<or>
     flow_covers [Eth_type 0x0800, Ipv4_dst ip] (fm_match f)"
  by (auto simp: mentions_ip_def flow_covers_def)

lemma flush_ip_clears:
  assumes "dp \<in> set (datapaths s)" and "f \<in> set (flow_table dp (sent (flush_flows_for_ip clk ip s)))"
  shows "\<not> mentions_ip ip f"
proof -
  have no_add: "\<forall>d f. (d, FlowMod f) \<in> set (flush_ip_msgs ip (datapaths s)) \<longrightarrow>
      fm_command f = OFPFC_ADD \<longrightarrow> \<not> flow_covers m (fm_match f)" for m
    by (auto simp: flush_ip_msgs_def)
  have del: "(dp, FlowMod (delete_flows [Eth_type 0x0800, m])) \<in> set (flush_ip_msgs ip (datapaths s))"
    if "m = Ipv4_src ip \<or> m = Ipv4_dst ip" for m
    using assms(1) that by (auto simp: flush_ip_msgs_def)
  from delete_clears [OF del no_add, of "Ipv4_src ip" "sent s"]
    delete_clears [OF del no_add, of "Ipv4_dst ip" "sent s"] assms(2)
  show ?thesis by (simp add: mentions_ip_covers flush_flows_for_ip_effect)
qed

definition port_oxm :: "int \<Rightarrow> int \<Rightarrow> oxm" where
  "port_oxm port pn = (if pn = 6 then Tcp_dst port else Udp_dst port)"

definition flush_port_msgs :: "int \<Rightarrow> int \<Rightarrow> nat list \<Rightarrow> (nat \<times> of_msg) list" where
  "flush_port_msgs port pn ds =
     map (\<lambda>dp. (dp, FlowMod (delete_flows [Eth_type 0x0800, Ip_proto (nat pn), port_oxm port pn]))) ds"

lemma flush_port_loop_effect:
  assumes "pn = 6 \<or> pn = 17"
  shows "flush_port_loop port pn ds s = (True, s\<lparr>sent := sent s @ flush_port_msgs port pn ds\<rparr>)"
proof (induction ds arbitrary: s)
  case (Cons dp ds)
  from assms Cons show ?case
    by (elim disjE) (simp_all add: flush_port_msgs_def send_msg_def port_oxm_def)
qed (simp add: flush_port_msgs_def)

lemma flush_port_loop_other:
  assumes "pn \<noteq> 6" "pn \<noteq> 17"
  shows "flush_port_loop port pn ds s = (ds = [], s)"
  using assms by (cases ds) simp_all

lemma flush_flows_for_port_effect:
  assumes "pn = 6 \<or> pn = 17"
  shows "sent (flush_flows_for_port clk port pn s) = sent s @ flush_port_msgs port pn (datapaths s)"
    "trust_table (flush_flows_for_port clk port pn s) =
       dict_remove_if (key_has_port port pn) (trust_table s)"
    "stats (flush_flows_for_port clk port pn s) = stats s"
    "same_config t (flush_flows_for_port clk port pn s) = same_config t s"
  by (simp_all add: flush_flows_for_port_def Let_def flush_port_loop_effect [OF assms] same_config_def)

lemma flush_port_clears:
  assumes "pn = 6 \<or> pn = 17" and "dp \<in> set (datapaths s)"
    and "f \<in> set (flow_table dp (sent (flush_flows_for_port clk port pn s)))"
  shows "\<not> flow_covers [Eth_type 0x0800, Ip_proto (nat pn), port_oxm port pn] (fm_match f)"
proof -
  let ?ms = "flush_port_msgs port pn (datapaths s)"
  have "(dp, FlowMod (delete_flows [Eth_type 0x0800, Ip_proto (nat pn), port_oxm port pn])) \<in> set ?ms"
    using assms(2) by (auto simp: flush_port_msgs_def)
  moreover have "\<forall>d f. (d, FlowMod f) \<in> set ?ms \<longrightarrow> fm_command f = OFPFC_ADD \<longrightarrow>
      \<not> flow_covers m (fm_match f)" for m
    by (auto simp: flush_port_msgs_def)
  ultimately show ?thesis
    using delete_clears assms(3) by (metis flush_flows_for_port_effect(1) [OF assms(1)])
qed

text \<open>The IPv4-to-controller rule.\<close>

definition to_controller :: "nat \<Rightarrow> oxm list \<Rightarrow> flow_mod" where
  "to_controller pr m = flow_add pr m [Output OFPP_CONTROLLER 65535] 0 0"

definition flush_all_msgs :: "nat list \<Rightarrow> (nat \<times> of_msg) list" where
  "flush_all_msgs ds =
     concat (map (\<lambda>dp. [(dp, FlowMod (delete_flows [Eth_type 0x0800])),
                        (dp, FlowMod (to_controller 300 [Eth_type 0x0800]))]) ds)"

lemma flush_all_loop_effect:
  "flush_all_loop ds s = s\<lparr>sent := sent s @ flush_all_msgs ds\<rparr>"
  by (induction ds arbitrary: s)
     (simp_all add: flush_all_msgs_def add_flow_send send_msg_def to_controller_def)

lemma flush_all_trust_flows_effect:
  "sent (flush_all_trust_flows clk s) = sent s @ flush_all_msgs (datapaths s)"
  "trust_table (flush_all_trust_flows clk s) = []"
  "stats (flush_all_trust_flows clk s) = (stats s)\<lparr>n_trust_flows_installed := 0\<rparr>"
  "same_config t (flush_all_trust_flows clk s) = same_config t s"
  by (simp_all add: flush_all_trust_flows_def Let_def flush_all_loop_effect same_config_def)

text \<open>
  After the flush the controller rule stands and is the only entry for IPv4: nothing is
  forwarded by a switch without inspection.
\<close>

abbreviation ipv4_entries :: "flow_mod list \<Rightarrow> flow_mod list" where
  "ipv4_entries \<equiv> filter (\<lambda>f. Eth_type 0x0800 \<in> set (fm_match f))"

lemma flush_all_msgs_table:
  assumes "dp \<in> set ds \<or> ipv4_entries tab = [to_controller 300 [Eth_type 0x0800]]"
  shows "ipv4_entries (fold (apply_msg dp) (flush_all_msgs ds) tab) = [to_controller 300 [Eth_type 0x0800]]"
  using assms
proof (induction ds arbitrary: tab)
  case (Cons d ds)
  let ?tab = "fold (apply_msg dp) [(d, FlowMod (delete_flows [Eth_type 0x0800])),
      (d, FlowMod (to_controller 300 [Eth_type 0x0800]))] tab"
  have "dp \<in> set ds \<or> ipv4_entries ?tab = [to_controller 300 [Eth_type 0x0800]]"
    using Cons.prems
    by (auto simp: apply_msg_def apply_flow_mod_def flow_covers_def to_controller_def filter_empty_conv)
  from Cons.IH [OF this] show ?case by (simp add: flush_all_msgs_def)
qed (simp add: flush_all_msgs_def)

lemma flush_all_table:
  assumes "dp \<in> set (datapaths s)"
  shows "ipv4_entries (flow_table dp (sent (flush_all_trust_flows clk s))) = [to_controller 300 [Eth_type 0x0800]]"
  using flush_all_msgs_table [of dp "datapaths s"] assms
  by (simp add: flush_all_trust_flows_effect flow_table_append)

end
