(* ===== verification/Fw_Packet_In.thy ===== *)
theory Fw_Packet_In
  imports Fw_Flows
begin

text \<open>
  The handlers of \<open>FirewallApp\<close>: the switch handshake and the packet-in handler with the
  per-protocol handlers it calls.  A handler returns the final state and the exception that
  ended it, if any; the packet-in handler may also not return, because decoding may not.
\<close>

section \<open>Events\<close>

record packet_in =
  pi_dp :: nat
  pi_data :: bytes
  pi_msg_len :: nat
  pi_total_len :: nat
  pi_in_port :: "nat option"
  pi_buffer_id :: nat

type_synonym verdict = "check_result res \<times> fw_state"

definition ETH_TYPE_IP :: nat where "ETH_TYPE_IP = 2048"
definition ETH_TYPE_ARP :: nat where "ETH_TYPE_ARP = 2054"

text \<open>\<open>for check in checks: result = check(); if result != ALLOWED: return result\<close>.\<close>

fun run_checks :: "(fw_state \<Rightarrow> check_result \<times> fw_state) list \<Rightarrow> fw_state \<Rightarrow> check_result \<times> fw_state" where
  "run_checks [] s = (ALLOWED, s)"
| "run_checks (c # cs) s =
     (let (result, s') = c s in if result \<noteq> ALLOWED then (result, s') else run_checks cs s')"

section \<open>Per-protocol handlers\<close>

definition icmp_packet_handler :: "proto_obj option \<Rightarrow> check_result" where
  "icmp_packet_handler icmp_pkt = ALLOWED"

definition udp_packet_handler :: "udp option \<Rightarrow> fw_state \<Rightarrow> verdict" where
  "udp_packet_handler udp_pkt s =
     (case udp_pkt of
        None \<Rightarrow> (Inl AttributeError, s)
      | Some u \<Rightarrow> (Inr (check_port_block 17 (udp_dst_port u) s), s))"

definition tcp_packet_handler :: "clock \<Rightarrow> tcp option \<Rightarrow> ipv4 \<Rightarrow> bytes \<Rightarrow> fw_state \<Rightarrow> verdict" where
  "tcp_packet_handler clk tcp_pkt ip_pkt raw_frame s =
     (case tcp_pkt of
        None \<Rightarrow> (Inl AttributeError, s)
      | Some t \<Rightarrow>
          let payload = extract_tcp_payload raw_frame ip_pkt t;
              (result, s') = run_checks
                [\<lambda>s. (check_port_block 6 (tcp_dst_port t) s, s),
                 \<lambda>s. (check_tcp_flags t, s),
                 \<lambda>s. check_dpi clk ip_pkt t payload s] s
          in (Inr result, s'))"

definition ipv4_packet_handler ::
  "addrconv \<Rightarrow> other_parsers \<Rightarrow> clock \<Rightarrow> packet_in \<Rightarrow> ipv4 option \<Rightarrow> fw_state \<Rightarrow> verdict option"
where
  "ipv4_packet_handler ac oth clk m ip_pkt s =
     (case Packet ac oth (pi_data m) of
        None \<Rightarrow> None
      | Some (Inl e) \<Rightarrow> Some (Inl e, s)
      | Some (Inr pkt) \<Rightarrow> Some
          (case ip_pkt of
             None \<Rightarrow> (Inl AttributeError, s)
           | Some ip \<Rightarrow>
               let (result, s') = run_checks
                     [\<lambda>s. (check_ip_block (src ip) s, s),
                      \<lambda>s. check_ip_rate_limit clk (pi_dp m) (src ip) s] s
               in if result \<noteq> ALLOWED then (Inr result, s')
                  else if proto ip = 1 then
                    (Inr (icmp_packet_handler (get_protocol pkt (COther ''icmp''))), s')
                  else if proto ip = 6 then tcp_packet_handler clk (get_tcp pkt) ip (pi_data m) s'
                  else if proto ip = 17 then udp_packet_handler (get_udp pkt) s'
                  else (Inr ALLOWED, s')))"

definition arp_packet_handler :: "packet_in \<Rightarrow> arp option \<Rightarrow> fw_state \<Rightarrow> verdict" where
  "arp_packet_handler m arp_pkt s =
     (case arp_pkt of
        None \<Rightarrow> (Inl AttributeError, s)
      | Some a \<Rightarrow>
          let (result, s') = check_arp_spoof (pi_dp m) (src_mac a) (src_ip a) s in (Inr result, s'))"

section \<open>The switch handshake\<close>

definition switch_handshake_handler :: "nat \<Rightarrow> fw_state \<Rightarrow> fw_state" where
  "switch_handshake_handler dp s =
     (let s1 = s\<lparr>datapaths := if dp \<in> set (datapaths s) then datapaths s else datapaths s @ [dp]\<rparr>;
          actions = [Output OFPP_CONTROLLER 65535];
          s2 = s1\<lparr>arp_table := Map.empty\<rparr>;
          s3 = add_flow dp 0 [] actions 0 0 None s2
      in add_flow dp 300 [Eth_type 0x0800] actions 0 0 None s3)"

section \<open>The packet-in handler\<close>

text \<open>\<open>format(datapath.id, "d").zfill(16)\<close>.\<close>

definition dpid_str :: "nat \<Rightarrow> string" where
  "dpid_str dp = zfill 16 (nat_str dp)"

definition learn_mac :: "string \<Rightarrow> string \<Rightarrow> nat \<Rightarrow> fw_state \<Rightarrow> fw_state" where
  "learn_mac dpid mac port s =
     s\<lparr>mac_to_port := (mac_to_port s)(dpid := (mac_to_port s dpid)(mac \<mapsto> port))\<rparr>"

text \<open>
  The branch for refused packets: the protocol and port named in the log message, then
  \<open>_apply_result\<close>.
\<close>

definition report_refused ::
  "clock \<Rightarrow> proto_obj list \<Rightarrow> ethernet \<Rightarrow> check_result \<Rightarrow> fw_state \<Rightarrow> fw_state \<times> py_exn option"
where
  "report_refused clk pkt eth result s =
     (if ethertype eth \<noteq> ETH_TYPE_IP then
        apply_result clk result (Some (eth_src eth)) (Some (eth_dst eth)) [] 0 s
      else
        let ip_pkt = get_ipv4 pkt;
            log_src = map_option src ip_pkt; log_dst = map_option dst ip_pkt
        in if result = PORT_BLOCKED then
             (case ip_pkt of
                None \<Rightarrow> (s, Some AttributeError)
              | Some ip \<Rightarrow>
                  if proto ip = 6 then
                    (case get_tcp pkt of
                       None \<Rightarrow> (s, Some AttributeError)
                     | Some t \<Rightarrow> apply_result clk result log_src log_dst ''TCP'' (tcp_dst_port t) s)
                  else if proto ip = 17 then
                    (case get_udp pkt of
                       None \<Rightarrow> (s, Some AttributeError)
                     | Some u \<Rightarrow> apply_result clk result log_src log_dst ''UDP'' (udp_dst_port u) s)
                  else apply_result clk result log_src log_dst (nat_str (proto ip)) 0 s)
           else apply_result clk result log_src log_dst [] 0 s)"

text \<open>\<open>record trust for IPv4 TCP/UDP flows\<close>, at the end of the handler.\<close>

definition trust_allowed ::
  "clock \<Rightarrow> packet_in \<Rightarrow> proto_obj list \<Rightarrow> nat \<Rightarrow> nat \<Rightarrow> fw_state \<Rightarrow> fw_state"
where
  "trust_allowed clk m pkt in_port out_port s =
     (case get_ipv4 pkt of
        None \<Rightarrow> s
      | Some ip \<Rightarrow>
          if proto ip = 6 then
            (case get_tcp pkt of
               None \<Rightarrow> s
             | Some t \<Rightarrow>
                 record_trust clk (pi_dp m) ip (tcp_src_port t) (tcp_dst_port t) in_port out_port s)
          else if proto ip = 17 then
            (case get_udp pkt of
               None \<Rightarrow> s
             | Some u \<Rightarrow>
                 record_trust clk (pi_dp m) ip (udp_src_port u) (udp_dst_port u) in_port out_port s)
          else s)"

definition forward_allowed ::
  "clock \<Rightarrow> packet_in \<Rightarrow> proto_obj list \<Rightarrow> ethernet \<Rightarrow> nat \<Rightarrow> fw_state \<Rightarrow> fw_state"
where
  "forward_allowed clk m pkt eth in_port s0 =
     (let s = s0\<lparr>stats := (stats s0)\<lparr>n_allowed := n_allowed (stats s0) + 1\<rparr>\<rparr>;
          out_port = (case mac_to_port s (dpid_str (pi_dp m)) (eth_dst eth) of
                        Some p \<Rightarrow> p | None \<Rightarrow> OFPP_FLOOD);
          actions = [Output out_port OFPCML_MAX];
          direct = (ethertype eth \<noteq> ETH_TYPE_IP \<and> out_port \<noteq> OFPP_FLOOD);
          match = [In_port in_port, Eth_dst (eth_dst eth), Eth_src (eth_src eth)]
      in if direct \<and> pi_buffer_id m \<noteq> OFP_NO_BUFFER then
           add_flow (pi_dp m) 1 match actions 0 0 (Some (pi_buffer_id m)) s
         else
           let s1 = (if direct then add_flow (pi_dp m) 1 match actions 0 0 None s else s);
               data = (if pi_buffer_id m = OFP_NO_BUFFER then Some (pi_data m) else None);
               s2 = send_msg (pi_dp m)
                      (PacketOut \<lparr>po_buffer = pi_buffer_id m, po_in_port = in_port,
                                  po_actions = actions, po_data = data\<rparr>) s1
           in if ethertype eth = ETH_TYPE_IP \<and> out_port \<noteq> OFPP_FLOOD
              then trust_allowed clk m pkt in_port out_port s2 else s2)"

text \<open>The second half of the handler: what follows from the verdict.\<close>

definition conclude ::
  "clock \<Rightarrow> packet_in \<Rightarrow> proto_obj list \<Rightarrow> ethernet \<Rightarrow> check_result \<Rightarrow> fw_state \<Rightarrow>
     fw_state \<times> py_exn option"
where
  "conclude clk m pkt eth result s0 =
     (let s = s0\<lparr>stats := (stats s0)\<lparr>n_total := n_total (stats s0) + 1\<rparr>\<rparr> in
      case pi_in_port m of
        None \<Rightarrow> (s, Some KeyError)
      | Some in_port \<Rightarrow>
          let s1 = learn_mac (dpid_str (pi_dp m)) (eth_src eth) in_port s
          in if result = DPI_BLOCKED then (s1, None)
             else if result \<noteq> ALLOWED then report_refused clk pkt eth result s1
             else (forward_allowed clk m pkt eth in_port s1, None))"

definition conclude_verdict ::
  "clock \<Rightarrow> packet_in \<Rightarrow> proto_obj list \<Rightarrow> ethernet \<Rightarrow> verdict \<Rightarrow> fw_state \<times> py_exn option"
where
  "conclude_verdict clk m pkt eth v =
     (case v of
        (Inl e, s) \<Rightarrow> (s, Some e)
      | (Inr result, s) \<Rightarrow> conclude clk m pkt eth result s)"

definition packet_in_handler ::
  "addrconv \<Rightarrow> other_parsers \<Rightarrow> clock \<Rightarrow> packet_in \<Rightarrow> fw_state \<Rightarrow> (fw_state \<times> py_exn option) option"
where
  "packet_in_handler ac oth clk m s =
     (if pi_data m = [] then Some (s, None)
      else if pi_msg_len m < pi_total_len m then Some (s, None)
      else
        case Packet ac oth (pi_data m) of
          None \<Rightarrow> None
        | Some (Inl e) \<Rightarrow> Some (s, Some e)
        | Some (Inr pkt) \<Rightarrow>
            (case get_ethernet pkt of
               None \<Rightarrow> Some (s, Some AttributeError)
             | Some eth \<Rightarrow>
                 if ethertype eth = ETH_TYPE_IP then
                   map_option (conclude_verdict clk m pkt eth)
                     (ipv4_packet_handler ac oth clk m (get_ipv4 pkt) s)
                 else if ethertype eth = ETH_TYPE_ARP then
                   Some (conclude_verdict clk m pkt eth (arp_packet_handler m (get_arp pkt) s))
                 else Some (s, None)))"

section \<open>RPC reads\<close>

definition get_log :: "fw_state \<Rightarrow> log_entry list" where
  "get_log s = last_n 50 (event_log s)"

record rules =
  r_blocked_ips :: "string set"
  r_blocked_ports :: "(int \<times> int) set"
  r_allowed_ips :: "string set"
  r_rate_limit :: int
  r_rate_window :: rat

definition get_rules :: "fw_state \<Rightarrow> rules" where
  "get_rules s =
     \<lparr>r_blocked_ips = blocked_ips s, r_blocked_ports = blocked_ports s,
      r_allowed_ips = allowed_ips s, r_rate_limit = rate_limit s, r_rate_window = rate_window s\<rparr>"

end
