(* ===== verification/Fw_Wsgi.thy ===== *)
theory Fw_Wsgi
  imports Fw_Packet_In
begin

text \<open>
  The REST handlers of \<open>src/firewall_wsgi.py\<close>.  A request body is what \<open>json.loads\<close> made of
  it (\<open>None\<close>: not JSON).  A handler returns the new state and either the response or the
  exception that escaped it.  Sets in a response stand for the lists the code makes of them.
\<close>

datatype response_body =
    BError string
  | BOk
  | BBlockedIps "string set"
  | BBlockedPorts "(int \<times> int) set"
  | BPattern string
  | BRules rules
  | BPatterns "json list"
  | BStats stats
  | BLog "log_entry list"

record response =
  status :: nat
  body :: response_body

type_synonym reply = "fw_state \<times> response res"

definition json_response :: "response_body \<Rightarrow> nat \<Rightarrow> response" where
  "json_response b st = \<lparr>status = st, body = b\<rparr>"

definition wsgi_get_rules :: "fw_state \<Rightarrow> reply" where
  "wsgi_get_rules s = (s, Inr (json_response (BRules (get_rules s)) 200))"

definition invalid_ip :: "string \<Rightarrow> response" where
  "invalid_ip ip = json_response (BError (''Invalid IPv4 address: '' @ ip)) 400"

definition add_blocked_ip :: "clock \<Rightarrow> string \<Rightarrow> fw_state \<Rightarrow> reply" where
  "add_blocked_ip clk ip s =
     (if \<not> valid_ipv4 ip then (s, Inr (invalid_ip ip))
      else
        let s1 = s\<lparr>blocked_ips := insert ip (blocked_ips s)\<rparr>;
            s2 = flush_flows_for_ip clk ip s1;
            s3 = fw_log clk ''info'' (''Rule added: block IP '' @ ip) (Some ip) None None s2
        in (s3, Inr (json_response (BBlockedIps (blocked_ips s3)) 200)))"

definition del_blocked_ip :: "clock \<Rightarrow> string \<Rightarrow> fw_state \<Rightarrow> reply" where
  "del_blocked_ip clk ip s =
     (if \<not> valid_ipv4 ip then (s, Inr (invalid_ip ip))
      else if ip \<notin> blocked_ips s then
        (s, Inr (json_response (BError (''IP '' @ ip @ '' is not blocked'')) 404))
      else
        let s1 = s\<lparr>blocked_ips := blocked_ips s - {ip}\<rparr>;
            s2 = fw_log clk ''info'' (''Rule removed: unblock IP '' @ ip) (Some ip) None None s1
        in (s2, Inr (json_response (BBlockedIps (blocked_ips s2)) 200)))"

text \<open>The validation that both port handlers begin with.\<close>

definition port_args :: "string \<Rightarrow> string \<Rightarrow> response + (int \<times> int)" where
  "port_args port protocol =
     (case (py_int port, py_int protocol) of
        (Some port_int, Some proto_int) \<Rightarrow>
          (if \<not> (0 \<le> port_int \<and> port_int \<le> 65535) then
             Inl (json_response
               (BError (''Port '' @ int_str port_int @ '' out of range (0-65535)'')) 400)
           else if proto_int \<noteq> 6 \<and> proto_int \<noteq> 17 then
             Inl (json_response
               (BError (''Proto must be 6 (TCP) or 17 (UDP), got '' @ int_str proto_int)) 400)
           else Inr (port_int, proto_int))
      | _ \<Rightarrow> Inl (json_response (BError ''Port and proto must be integers'') 400))"

definition add_blocked_port :: "clock \<Rightarrow> string \<Rightarrow> string \<Rightarrow> fw_state \<Rightarrow> reply" where
  "add_blocked_port clk port protocol s =
     (case port_args port protocol of
        Inl r \<Rightarrow> (s, Inr r)
      | Inr (port_int, proto_int) \<Rightarrow>
          let s1 = s\<lparr>blocked_ports := insert (port_int, proto_int) (blocked_ports s)\<rparr>;
              s2 = flush_flows_for_port clk port_int proto_int s1;
              s3 = fw_log clk ''info''
                     (''Rule added: block protocol '' @ protocol @ '' at port '' @ port)
                     None None None s2
          in (s3, Inr (json_response (BBlockedPorts (blocked_ports s3)) 200)))"

definition del_blocked_port :: "clock \<Rightarrow> string \<Rightarrow> string \<Rightarrow> fw_state \<Rightarrow> reply" where
  "del_blocked_port clk port protocol s =
     (case port_args port protocol of
        Inl r \<Rightarrow> (s, Inr r)
      | Inr (port_int, proto_int) \<Rightarrow>
          let s1 = s\<lparr>blocked_ports := blocked_ports s - {(port_int, proto_int)}\<rparr>;
              s2 = fw_log clk ''info''
                     (''Rule removed: unblock protocol '' @ protocol @ '' at port '' @ port)
                     None None None s1
          in (s2, Inr (json_response (BBlockedPorts (blocked_ports s2)) 200)))"

section \<open>Rate limit\<close>

text \<open>\<open>int(x)\<close> of a JSON value.\<close>

fun json_int :: "json \<Rightarrow> int res" where
  "json_int (JBool b) = Inr (if b then 1 else 0)"
| "json_int (JInt i) = Inr i"
| "json_int (JFloat q) = Inr (if 0 \<le> q then \<lfloor>q\<rfloor> else \<lceil>q\<rceil>)"
| "json_int JNan = Inl (ValueError ''cannot convert float NaN to integer'')"
| "json_int (JInf b) = Inl OverflowError"
| "json_int (JStr t) =
     (case py_int t of
        None \<Rightarrow> Inl (ValueError ''invalid literal for int() with base 10'')
      | Some i \<Rightarrow> Inr i)"
| "json_int _ = Inl TypeError"

text \<open>\<open>body.get(key, default)\<close>.\<close>

fun json_get :: "json \<Rightarrow> string \<Rightarrow> json \<Rightarrow> json res" where
  "json_get (JObj kvs) k dflt = Inr (case map_of kvs k of None \<Rightarrow> dflt | Some v \<Rightarrow> v)"
| "json_get _ k dflt = Inl AttributeError"

definition get_int :: "json \<Rightarrow> string \<Rightarrow> json \<Rightarrow> int res" where
  "get_int b k dflt = (case json_get b k dflt of Inl e \<Rightarrow> Inl e | Inr v \<Rightarrow> json_int v)"

definition set_rate_limit :: "clock \<Rightarrow> json option \<Rightarrow> fw_state \<Rightarrow> reply" where
  "set_rate_limit clk req_body s =
     (case req_body of
        None \<Rightarrow> (s, Inl (ValueError ''JSONDecodeError''))
      | Some b \<Rightarrow>
          (case get_int b ''limit'' (JInt (rate_limit s)) of
             Inl e \<Rightarrow> (s, Inl e)
           | Inr limit \<Rightarrow>
               let s1 = s\<lparr>rate_limit := limit\<rparr> in
               (case get_int b ''window'' (JFloat (rate_window s1)) of
                  Inl e \<Rightarrow> (s1, Inl e)
                | Inr window \<Rightarrow>
                    let s2 = s1\<lparr>rate_window := of_int window\<rparr>;
                        s3 = fw_log clk ''info''
                               (''Rate limit updated: '' @ int_str limit @ '' pkts/'' @
                                int_str window @ ''s'') None None None s2
                    in (s3, Inr (json_response BOk 200)))))"

section \<open>DPI patterns, statistics and log\<close>

definition get_dpi_patterns :: "fw_state \<Rightarrow> reply" where
  "get_dpi_patterns s = (s, Inr (json_response (BPatterns (list_patterns (dpi s))) 200))"

definition add_dpi_pattern ::
  "(string \<Rightarrow> compile_result) \<Rightarrow> clock \<Rightarrow> json option \<Rightarrow> fw_state \<Rightarrow> reply"
where
  "add_dpi_pattern rc clk req_body s =
     (case req_body of
        None \<Rightarrow> (s, Inr (json_response (BError ''Invalid JSON body'') 400))
      | Some b \<Rightarrow>
          (case (json_get b ''name'' (JStr []), json_get b ''pattern'' (JStr []),
                 json_get b ''description'' (JStr [])) of
             (Inr n, Inr r, Inr d) \<Rightarrow>
               (case add_pattern rc (dpi s) n r d of
                  Inl (ValueError m) \<Rightarrow> (s, Inr (json_response (BError m) 400))
                | Inl e \<Rightarrow> (s, Inl e)
                | Inr (p, e') \<Rightarrow>
                    let s1 = s\<lparr>dpi := e'\<rparr>;
                        s2 = flush_all_trust_flows clk s1;
                        s3 = fw_log clk ''info'' (''DPI pattern added: '' @ pat_name p)
                               None None None s2
                    in (s3, Inr (json_response (BPattern (pat_name p)) 200)))
           | _ \<Rightarrow> (s, Inl AttributeError)))"

definition del_dpi_pattern :: "clock \<Rightarrow> string \<Rightarrow> fw_state \<Rightarrow> reply" where
  "del_dpi_pattern clk name s =
     (case remove_pattern (dpi s) name of
        Inl (ValueError m) \<Rightarrow> (s, Inr (json_response (BError m) 403))
      | Inl e \<Rightarrow> (s, Inl e)
      | Inr (removed, e') \<Rightarrow>
          if \<not> removed then
            (s\<lparr>dpi := e'\<rparr>,
             Inr (json_response (BError (''Pattern \"'' @ name @ ''\" not found'')) 404))
          else
            (fw_log clk ''info'' (''DPI pattern removed: '' @ name) None None None (s\<lparr>dpi := e'\<rparr>),
             Inr (json_response BOk 200)))"

definition wsgi_get_stats :: "fw_state \<Rightarrow> reply" where
  "wsgi_get_stats s = (s, Inr (json_response (BStats (stats s)) 200))"

definition wsgi_get_log :: "fw_state \<Rightarrow> reply" where
  "wsgi_get_log s = (s, Inr (json_response (BLog (last_n 100 (event_log s))) 200))"

section \<open>The validated arguments\<close>

lemma port_args_iff:
  "port_args port protocol = Inr (p, pn) \<longleftrightarrow>
     py_int port = Some p \<and> py_int protocol = Some pn \<and> 0 \<le> p \<and> p \<le> 65535 \<and> (pn = 6 \<or> pn = 17)"
  by (auto simp: port_args_def split: option.splits)

lemma port_args_status: "port_args port protocol = Inl r \<Longrightarrow> status r = 400"
  by (auto simp: port_args_def json_response_def split: option.splits if_splits)

end
