(* ===== verification/Fw_Invariants.thy ===== *)
theory Fw_Invariants
  imports Fw_Wsgi
begin

text \<open>
  The invariant of the firewall state and the contract of the checks: what a check may do to
  the counters, the log, the trust table and the message trace, proved operation by operation.
\<close>

section \<open>The invariant\<close>

definition entry_ok :: "trust_entry \<Rightarrow> bool" where
  "entry_ok e \<longleftrightarrow>
     length (buf_a e) \<le> MAX_BUFFER_BYTES \<and> length (buf_b e) \<le> MAX_BUFFER_BYTES \<and>
     count e \<le> TRUST_K \<and> (installed e \<longleftrightarrow> count e = TRUST_K)"

definition table_ok :: "(trust_key, trust_entry) dict \<Rightarrow> bool" where
  "table_ok d \<longleftrightarrow> dict_wf d \<and> (\<forall>k e. dict_get d k = Some e \<longrightarrow> key_canonical k \<and> entry_ok e)"

definition config_ok :: "fw_state \<Rightarrow> bool" where
  "config_ok s \<longleftrightarrow>
     engine_wf (dpi s) \<and> distinct (datapaths s) \<and> allowed_ips s = {} \<and>
     (\<forall>ip \<in> blocked_ips s. valid_ipv4 ip) \<and>
     (\<forall>(p, pn) \<in> blocked_ports s. 0 \<le> p \<and> p \<le> 65535 \<and> (pn = 6 \<or> pn = 17))"

definition outcomes :: "stats \<Rightarrow> nat" where
  "outcomes st =
     n_allowed st + n_blocked st + n_rate_limited st + n_arp_spoof st + n_scan_detected st +
     n_dpi_blocked st"

definition log_ok :: "fw_state \<Rightarrow> bool" where
  "log_ok s \<longleftrightarrow> length (event_log s) \<le> LOG_CAP"

definition stats_ok :: "fw_state \<Rightarrow> bool" where
  "stats_ok s \<longleftrightarrow> outcomes (stats s) \<le> n_total (stats s)"

definition fw_inv :: "fw_state \<Rightarrow> bool" where
  "fw_inv s \<longleftrightarrow> config_ok s \<and> table_ok (trust_table s) \<and> log_ok s \<and> stats_ok s"

lemma fw_invI [intro?]:
  "config_ok s \<Longrightarrow> table_ok (trust_table s) \<Longrightarrow> log_ok s \<Longrightarrow> stats_ok s \<Longrightarrow> fw_inv s"
  by (simp add: fw_inv_def)

lemma fw_inv_init: "fw_inv init_state"
  by (simp add: fw_inv_def init_state_def init_stats_def config_ok_def table_ok_def log_ok_def
      stats_ok_def outcomes_def engine_wf_init)

subsection \<open>Parts of the invariant\<close>

lemma config_ok_same: "same_config s t \<Longrightarrow> config_ok t = config_ok s"
  by (simp add: same_config_def config_ok_def)

lemma log_ok_log [simp]: "log_ok s \<Longrightarrow> log_ok (fw_log clk lvl msg sr ds ex s)"
  by (simp add: log_ok_def fw_log_def Let_def append_capped_length)

lemma log_ok_event_log: "event_log s = event_log t \<Longrightarrow> log_ok s = log_ok t"
  by (simp add: log_ok_def)

lemma log_ok_frame [simp]:
  "log_ok (send_msg dp m s) = log_ok s"
  "log_ok (put_entry k e s) = log_ok s"
  "log_ok (touch k s) = log_ok s"
  "log_ok (s\<lparr>stats := a\<rparr>) = log_ok s"
  "log_ok (s\<lparr>trust_table := b\<rparr>) = log_ok s"
  "log_ok (s\<lparr>rate_tracker := c\<rparr>) = log_ok s"
  "log_ok (s\<lparr>arp_table := d\<rparr>) = log_ok s"
  "log_ok (s\<lparr>mac_to_port := f\<rparr>) = log_ok s"
  "log_ok (s\<lparr>dpi := g\<rparr>) = log_ok s"
  "log_ok (s\<lparr>blocked_ips := h\<rparr>) = log_ok s"
  "log_ok (s\<lparr>blocked_ports := i\<rparr>) = log_ok s"
  "log_ok (s\<lparr>rate_limit := j\<rparr>) = log_ok s"
  "log_ok (s\<lparr>rate_window := l\<rparr>) = log_ok s"
  "log_ok (s\<lparr>datapaths := n\<rparr>) = log_ok s"
  "log_ok (s\<lparr>sent := p\<rparr>) = log_ok s"
  by (simp_all add: log_ok_def)

lemma log_ok_add_flow [simp]: "log_ok (add_flow dp pr m acts i h b s) = log_ok s"
  using add_flow_ex [of dp pr m acts i h b s] by auto

lemma arp_table_add_flow [simp]: "arp_table (add_flow dp pr m acts i h b s) = arp_table s"
  using add_flow_ex [of dp pr m acts i h b s] by auto

lemma trust_table_add_flow [simp]: "trust_table (add_flow dp pr m acts i h b s) = trust_table s"
  using add_flow_ex [of dp pr m acts i h b s] by auto

lemma stats_add_flow [simp]: "stats (add_flow dp pr m acts i h b s) = stats s"
  using add_flow_ex [of dp pr m acts i h b s] by auto

lemma table_ok_set: "table_ok d \<Longrightarrow> key_canonical k \<Longrightarrow> entry_ok e \<Longrightarrow> table_ok (dict_set k e d)"
  by (auto simp: table_ok_def)

lemma table_ok_remove: "table_ok d \<Longrightarrow> table_ok (dict_remove_if P d)"
  by (auto simp: table_ok_def)

lemma table_ok_empty [simp]: "table_ok []"
  by (simp add: table_ok_def)

lemma entry_ok_new [simp]: "entry_ok new_entry"
  by (simp add: entry_ok_def new_entry_def TRUST_K_def)

lemma table_okD: "table_ok d \<Longrightarrow> dict_get d k = Some e \<Longrightarrow> key_canonical k \<and> entry_ok e"
  unfolding table_ok_def by blast

lemma table_ok_entry: "table_ok (trust_table s) \<Longrightarrow> entry_ok (entry_of k s)"
  by (cases "dict_get (trust_table s) k") (simp_all add: entry_of_def table_okD)

lemma table_ok_touch: "table_ok (trust_table s) \<Longrightarrow> key_canonical k \<Longrightarrow> table_ok (trust_table (touch k s))"
  by (simp add: touch_alt table_ok_set)

lemma entry_ok_dir_buf:
  "entry_ok e \<Longrightarrow> length b \<le> MAX_BUFFER_BYTES \<Longrightarrow> entry_ok (set_dir_buf fwd b e)"
  by (simp add: entry_ok_def)

lemma entry_ok_blocked [simp]: "entry_ok (e\<lparr>blocked := b\<rparr>) = entry_ok e"
  by (simp add: entry_ok_def)

section \<open>The contract of a check\<close>

text \<open>
  From \<open>s\<close> with verdict \<open>r\<close> to \<open>t\<close>: configuration and MAC tables stay, the table and log stay
  well formed, at most one outcome is counted and only for a DPI verdict, and every message
  sent is a drop rule.
\<close>

definition check_contract :: "fw_state \<Rightarrow> check_result \<Rightarrow> fw_state \<Rightarrow> bool" where
  "check_contract s r t \<longleftrightarrow>
     same_config s t \<and> mac_to_port t = mac_to_port s \<and> arp_table s \<subseteq>\<^sub>m arp_table t \<and>
     (table_ok (trust_table s) \<longrightarrow> table_ok (trust_table t)) \<and>
     (log_ok s \<longrightarrow> log_ok t) \<and>
     n_total (stats t) = n_total (stats s) \<and> n_allowed (stats t) = n_allowed (stats s) \<and>
     outcomes (stats t) \<le> outcomes (stats s) + (if r = DPI_BLOCKED then 1 else 0) \<and>
     (\<exists>ms. sent t = sent s @ ms \<and> (\<forall>m \<in> set ms. is_drop (snd m)))"

lemma check_contract_refl [simp, intro]: "check_contract s r s"
  by (simp add: check_contract_def)

lemma check_contract_trans:
  assumes "check_contract s r t" and "r \<noteq> DPI_BLOCKED" and "check_contract t r' u"
  shows "check_contract s r' u"
proof -
  from assms obtain ms ms' where
    "sent t = sent s @ ms" "\<forall>m \<in> set ms. is_drop (snd m)"
    "sent u = sent t @ ms'" "\<forall>m \<in> set ms'. is_drop (snd m)"
    unfolding check_contract_def by blast
  then have "\<exists>ms. sent u = sent s @ ms \<and> (\<forall>m \<in> set ms. is_drop (snd m))" by auto
  then show ?thesis
    using assms unfolding check_contract_def
    by (auto intro: same_config_trans map_le_trans dest!: spec)
qed

lemma is_drop_flow_add [simp]: "is_drop (FlowMod (flow_add pr m acts i h)) \<longleftrightarrow> acts = []"
  by (simp add: is_drop_def)

lemma contract_rate_limit:
  "check_contract s (fst (check_ip_rate_limit clk dp ip s)) (snd (check_ip_rate_limit clk dp ip s))"
  by (simp add: check_contract_def check_ip_rate_limit_def Let_def add_flow_send)

lemma contract_arp_spoof:
  "check_contract s (fst (check_arp_spoof dp mac ip s)) (snd (check_arp_spoof dp mac ip s))"
  by (rule check_arp_spoof_cases [of s ip mac dp]) (auto simp: check_contract_def map_le_def)

lemma mac_to_port_put [simp]: "mac_to_port (put_entry k e s) = mac_to_port s"
  "mac_to_port (touch k s) = mac_to_port s" "arp_table (put_entry k e s) = arp_table s"
  "arp_table (touch k s) = arp_table s"
  by (simp_all add: put_entry_def touch_alt)

lemma contract_dpi:
  "check_contract s (fst (check_dpi clk ip_pkt t p s)) (snd (check_dpi clk ip_pkt t p s))"
proof -
  have tab: "table_ok (trust_table s) \<Longrightarrow> table_ok (trust_table (snd (check_dpi clk ip_pkt t p s)))"
    by (auto simp: check_dpi_alt Let_def dir_buf_def entry_ok_def
        intro!: table_ok_set table_ok_touch entry_ok_dir_buf feed_length
        dest: table_ok_entry [of s "pkt_key ip_pkt t"])
  show ?thesis
    unfolding check_contract_def using tab
    by (simp add: check_dpi_alt Let_def outcomes_def)
qed

section \<open>Sequences of checks and the protocol handlers\<close>

lemma run_checks_contract:
  assumes "\<forall>c \<in> set cs. \<forall>s. check_contract s (fst (c s)) (snd (c s))"
  shows "check_contract s (fst (run_checks cs s)) (snd (run_checks cs s))"
  using assms
proof (induction cs arbitrary: s)
  case (Cons c cs)
  obtain r s' where c: "c s = (r, s')" by (cases "c s")
  with Cons.prems have "check_contract s r s'" by (metis fst_conv snd_conv list.set_intros(1))
  then show ?case using Cons c by (auto intro: check_contract_trans [of s ALLOWED])
qed simp

text \<open>A verdict of a handler: a result, or an exception that counts as no DPI verdict.\<close>

definition verdict_contract :: "fw_state \<Rightarrow> verdict \<Rightarrow> bool" where
  "verdict_contract s v \<longleftrightarrow>
     check_contract s (case fst v of Inl e \<Rightarrow> ALLOWED | Inr r \<Rightarrow> r) (snd v)"

lemma udp_contract: "verdict_contract s (udp_packet_handler u s)"
  by (simp add: udp_packet_handler_def verdict_contract_def split: option.split)

lemma tcp_contract: "verdict_contract s (tcp_packet_handler clk t ip raw s)"
proof (cases t)
  case (Some t')
  let ?cs = "[\<lambda>s. (check_port_block 6 (tcp_dst_port t') s, s), \<lambda>s. (check_tcp_flags t', s),
     \<lambda>s. check_dpi clk ip t' (extract_tcp_payload raw ip t') s]"
  have "check_contract s (fst (run_checks ?cs s)) (snd (run_checks ?cs s))"
    by (rule run_checks_contract) (simp add: contract_dpi)
  then show ?thesis
    by (simp add: tcp_packet_handler_def Some verdict_contract_def Let_def case_prod_beta del: run_checks.simps)
qed (simp add: tcp_packet_handler_def verdict_contract_def)

lemma verdict_contract_trans:
  "check_contract s ALLOWED t \<Longrightarrow> verdict_contract t v \<Longrightarrow> verdict_contract s v"
  by (auto simp: verdict_contract_def intro: check_contract_trans)

lemma arp_contract: "verdict_contract s (arp_packet_handler m a s)"
  by (simp add: arp_packet_handler_def verdict_contract_def case_prod_beta contract_arp_spoof
      split: option.split)

text \<open>The address and rate checks that every IPv4 packet passes first.\<close>

definition ip_checks :: "clock \<Rightarrow> packet_in \<Rightarrow> ipv4 \<Rightarrow> fw_state \<Rightarrow> check_result \<times> fw_state" where
  "ip_checks clk m ip s =
     run_checks [\<lambda>s. (check_ip_block (src ip) s, s),
                 \<lambda>s. check_ip_rate_limit clk (pi_dp m) (src ip) s] s"

lemma ip_checks_contract:
  "check_contract s (fst (ip_checks clk m ip s)) (snd (ip_checks clk m ip s))"
  unfolding ip_checks_def by (rule run_checks_contract) (simp add: contract_rate_limit)

lemma ipv4_handler_alt:
  assumes "Packet ac oth (pi_data m) = Some (Inr pkt)"
  shows "ipv4_packet_handler ac oth clk m (Some ip) s = Some
     (let r = fst (ip_checks clk m ip s); s' = snd (ip_checks clk m ip s)
      in if r \<noteq> ALLOWED then (Inr r, s')
         else if proto ip = 1 then (Inr ALLOWED, s')
         else if proto ip = 6 then tcp_packet_handler clk (get_tcp pkt) ip (pi_data m) s'
         else if proto ip = 17 then udp_packet_handler (get_udp pkt) s'
         else (Inr ALLOWED, s'))"
  by (simp add: ipv4_packet_handler_def assms ip_checks_def [symmetric] case_prod_beta Let_def
      icmp_packet_handler_def del: run_checks.simps)

lemma ipv4_contract:
  assumes "ipv4_packet_handler ac oth clk m ip_pkt s = Some v"
  shows "verdict_contract s v"
proof (cases "Packet ac oth (pi_data m)")
  case None
  with assms show ?thesis by (simp add: ipv4_packet_handler_def)
next
  case (Some p)
  show ?thesis
  proof (cases p)
    case (Inl e)
    with assms Some show ?thesis by (auto simp: ipv4_packet_handler_def verdict_contract_def)
  next
    case (Inr pkt)
    note pk = Some [unfolded Inr]
    show ?thesis
    proof (cases ip_pkt)
      case None
      with assms pk show ?thesis by (auto simp: ipv4_packet_handler_def verdict_contract_def)
    next
      case (Some ip)
      let ?r = "ip_checks clk m ip s"
      have c: "check_contract s (fst ?r) (snd ?r)" by (rule ip_checks_contract)
      have k: "fst ?r = ALLOWED \<Longrightarrow> verdict_contract (snd ?r) w \<Longrightarrow> verdict_contract s w" for w
        using c by (auto intro: verdict_contract_trans)
      have triv: "verdict_contract (snd ?r) (Inr ALLOWED, snd ?r)"
        by (simp add: verdict_contract_def)
      from assms have v: "v = (if fst ?r \<noteq> ALLOWED then (Inr (fst ?r), snd ?r)
         else if proto ip = 1 then (Inr ALLOWED, snd ?r)
         else if proto ip = 6 then tcp_packet_handler clk (get_tcp pkt) ip (pi_data m) (snd ?r)
         else if proto ip = 17 then udp_packet_handler (get_udp pkt) (snd ?r)
         else (Inr ALLOWED, snd ?r))"
        by (simp add: Some ipv4_handler_alt [OF pk] Let_def)
      show ?thesis
      proof (cases "fst ?r = ALLOWED")
        case True
        then show ?thesis
          unfolding v using k [OF True] triv tcp_contract udp_contract by simp
      next
        case False
        then show ?thesis using c by (simp add: v verdict_contract_def)
      qed
    qed
  qed
qed

section \<open>After the verdict\<close>

lemma outcomes_bump: "outcomes (bump_stat k st) = outcomes st + 1" "n_total (bump_stat k st) = n_total st"
  by (cases k; simp add: outcomes_def)+

text \<open>
  The conclusion of a packet-in event keeps the configuration, the table and the log well
  formed and counts at most one outcome, for the one packet it counts.
\<close>

definition conclude_contract :: "fw_state \<Rightarrow> fw_state \<Rightarrow> bool" where
  "conclude_contract s t \<longleftrightarrow>
     same_config s t \<and> arp_table t = arp_table s \<and>
     (table_ok (trust_table s) \<longrightarrow> table_ok (trust_table t)) \<and>
     (log_ok s \<longrightarrow> log_ok t) \<and> n_total (stats t) = n_total (stats s) \<and>
     outcomes (stats t) \<le> outcomes (stats s) + 1"

lemma conclude_contract_refl [simp, intro]: "conclude_contract s s"
  by (simp add: conclude_contract_def)

lemma apply_result_contract:
  "conclude_contract s (fst (apply_result clk r sr ds pn port s))"
proof (cases "r = DPI_BLOCKED")
  case False
  from apply_result_state [OF False, of clk sr ds pn port s] obtain msg where
    a: "apply_result clk r sr ds pn port s =
     (fw_log clk (level r) msg sr ds (Some (extra_tag r))
        (case result_stat_key r of
           None \<Rightarrow> s | Some k \<Rightarrow> s\<lparr>stats := bump_stat k (stats s)\<rparr>), None)" by blast
  show ?thesis
    by (cases "result_stat_key r") (simp_all add: a conclude_contract_def outcomes_bump)
qed (simp add: apply_result_def)

lemma apply_result_sent: "sent (fst (apply_result clk r sr ds pn port s)) = sent s"
proof (cases "r = DPI_BLOCKED")
  case False
  from apply_result_state [OF False, of clk sr ds pn port s] show ?thesis
    by (auto split: option.splits)
qed (simp add: apply_result_def)

lemma report_refused_contract:
  "conclude_contract s (fst (report_refused clk pkt eth r s))"
  "sent (fst (report_refused clk pkt eth r s)) = sent s"
  unfolding report_refused_def Let_def
  by (simp_all add: apply_result_contract apply_result_sent split: option.split)

lemma entry_ok_count:
  assumes "entry_ok e" "\<not> installed e"
  shows "entry_ok (e\<lparr>count := count e + 1, installed := (TRUST_K \<le> count e + 1)\<rparr>)"
  using assms by (auto simp: entry_ok_def)

lemma record_trust_table:
  assumes "table_ok (trust_table s)"
  shows "table_ok (trust_table (record_trust clk dp ip sp dq inp outp s))"
proof -
  define k where "k = trust_key_of (proto ip) (src ip) sp (dst ip) dq"
  define e where "e = entry_of k s"
  have k: "key_canonical k" and e: "entry_ok e"
    using assms by (simp_all add: k_def e_def table_ok_entry)
  have t: "table_ok (trust_table (touch k s))" using assms k by (rule table_ok_touch)
  have inst: "trust_table (snd (install_trust_flow clk dp ip sp dq inp outp u)) = trust_table u" for u
    by (simp add: install_trust_flow_def Let_def)
  have ok: "\<not> installed e \<Longrightarrow> count e + 1 < TRUST_K \<Longrightarrow> entry_ok (e\<lparr>count := count e + 1\<rparr>)"
    using e by (simp add: entry_ok_def)
  have ok': "\<not> installed e \<Longrightarrow> \<not> count e + 1 < TRUST_K \<Longrightarrow>
      entry_ok (e\<lparr>count := count e + 1, installed := True\<rparr>)"
    using e by (simp add: entry_ok_def)
  have fst_ok: "proto ip = 6 \<or> proto ip = 17 \<Longrightarrow> fst (install_trust_flow clk dp ip sp dq inp outp u)" for u
    by (auto simp: install_trust_flow_def Let_def)
  have set_set: "table_ok (dict_set k x (dict_set k y (trust_table (touch k s))))" if "entry_ok x" for x y
    using table_ok_set [OF t k that] k t that
    by (simp add: table_ok_def)
  show ?thesis
  proof (cases "proto ip = 6 \<or> proto ip = 17")
    case True
    then show ?thesis
      unfolding record_trust_def Let_def k_def [symmetric] get_or_create_touch e_def [symmetric]
      using t k e ok ok' fst_ok [OF True] set_set
      by (auto simp: case_prod_beta inst intro!: table_ok_set)
  next
    case False
    then show ?thesis using assms by (simp add: record_trust_def)
  qed
qed

lemma record_trust_frame:
  "arp_table (record_trust clk dp ip sp dq inp outp s) = arp_table s"
  "same_config u (record_trust clk dp ip sp dq inp outp s) = same_config u s"
  "outcomes (stats (record_trust clk dp ip sp dq inp outp s)) = outcomes (stats s)"
  "n_total (stats (record_trust clk dp ip sp dq inp outp s)) = n_total (stats s)"
  "log_ok s \<Longrightarrow> log_ok (record_trust clk dp ip sp dq inp outp s)"
  by (simp_all add: record_trust_def Let_def get_or_create_touch case_prod_beta install_trust_flow_def
      outcomes_def)

lemma record_trust_contract: "conclude_contract s (record_trust clk dp ip sp dq inp outp s)"
  by (simp add: conclude_contract_def record_trust_frame record_trust_table)

lemma trust_allowed_contract: "conclude_contract s (trust_allowed clk m pkt inp outp s)"
  by (simp add: trust_allowed_def record_trust_contract split: option.split)

lemma conclude_contract_count:
  assumes "conclude_contract s t" and "outcomes (stats t) = outcomes (stats s)"
    and "conclude_contract t u" and "outcomes (stats u) = outcomes (stats t)"
  shows "conclude_contract s u" "outcomes (stats u) = outcomes (stats s)"
  using assms by (auto simp: conclude_contract_def intro: same_config_trans)

lemma trust_allowed_outcomes: "outcomes (stats (trust_allowed clk m pkt inp outp s)) = outcomes (stats s)"
  by (simp add: trust_allowed_def record_trust_frame split: option.split)

lemma conclude_contract_sends [simp]:
  "conclude_contract s (send_msg dp m t) = conclude_contract s t"
  "conclude_contract s (add_flow dp pr mt acts i h b t) = conclude_contract s t"
  by (simp_all add: conclude_contract_def)

lemma conclude_contract_allowed:
  "conclude_contract s (s\<lparr>stats := (stats s)\<lparr>n_allowed := Suc (n_allowed (stats s))\<rparr>\<rparr>)"
  by (simp add: conclude_contract_def outcomes_def)

lemma conclude_trust:
  assumes "conclude_contract s t"
  shows "conclude_contract s (trust_allowed clk m pkt inp outp t)"
  using assms trust_allowed_contract [of t clk m pkt inp outp]
    trust_allowed_outcomes [of clk m pkt inp outp t]
  by (auto simp: conclude_contract_def intro: same_config_trans)

lemma forward_allowed_contract: "conclude_contract s (forward_allowed clk m pkt eth inp s)"
  by (simp add: forward_allowed_def Let_def conclude_contract_allowed conclude_trust)

lemma learn_mac_frame [simp]:
  "sent (learn_mac d a p s) = sent s" "arp_table (learn_mac d a p s) = arp_table s" "stats (learn_mac d a p s) = stats s"
  "trust_table (learn_mac d a p s) = trust_table s" "log_ok (learn_mac d a p s) = log_ok s"
  "same_config u (learn_mac d a p s) = same_config u s"
  "event_log (learn_mac d a p s) = event_log s"
  by (simp_all add: learn_mac_def)

section \<open>Every event keeps the invariant\<close>

lemma conclude_inv:
  assumes "check_contract s r s0" and "fw_inv s"
  shows "fw_inv (fst (conclude clk m pkt eth r s0))"
proof -
  define u where "u = s0\<lparr>stats := (stats s0)\<lparr>n_total := Suc (n_total (stats s0))\<rparr>\<rparr>"
  have base: "config_ok u" "table_ok (trust_table u)" "log_ok u"
      "n_total (stats u) = n_total (stats s) + 1"
      "outcomes (stats u) \<le> outcomes (stats s) + (if r = DPI_BLOCKED then 1 else 0)"
    using assms config_ok_same [of s s0] config_ok_same [of s u]
    by (auto simp: check_contract_def fw_inv_def u_def outcomes_def)
  have small: "outcomes (stats s) \<le> n_total (stats s)"
    using assms(2) by (simp add: fw_inv_def stats_ok_def)
  have keep: "fw_inv t" if "conclude_contract u t" "r \<noteq> DPI_BLOCKED" for t
    using that base small config_ok_same [of u t]
    by (auto simp: conclude_contract_def fw_inv_def stats_ok_def)
  have fin: "fw_inv u"
    using base small by (cases "r = DPI_BLOCKED") (auto simp: fw_inv_def stats_ok_def)
  show ?thesis
  proof (cases "pi_in_port m")
    case None
    then show ?thesis using fin by (simp add: conclude_def u_def [symmetric])
  next
    case (Some ip)
    define v where "v = learn_mac (dpid_str (pi_dp m)) (eth_src eth) ip u"
    have cv: "conclude_contract u v" by (simp add: conclude_contract_def v_def)
    have st: "stats v = stats u" by (simp add: v_def)
    have lift: "conclude_contract u t" if "conclude_contract v t" for t
      using that cv st by (auto simp: conclude_contract_def intro: same_config_trans)
    have "fw_inv v"
      using fin config_ok_same [of u v] by (simp add: fw_inv_def v_def stats_ok_def)
    then show ?thesis
      using Some keep lift report_refused_contract(1) forward_allowed_contract
      by (simp add: conclude_def Let_def u_def [symmetric] v_def [symmetric])
  qed
qed

lemma verdict_inv:
  assumes "verdict_contract s v" and "fw_inv s"
  shows "fw_inv (fst (conclude_verdict clk m pkt eth v))"
proof (cases v)
  case (Pair r t)
  show ?thesis
  proof (cases r)
    case (Inl e)
    have "fw_inv t"
      using assms config_ok_same [of s t]
      by (auto simp: verdict_contract_def Pair Inl check_contract_def fw_inv_def stats_ok_def)
    then show ?thesis by (simp add: conclude_verdict_def Pair Inl)
  next
    case (Inr x)
    then show ?thesis
      using assms by (simp add: conclude_verdict_def Pair verdict_contract_def conclude_inv)
  qed
qed

text \<open>
  A packet-in event either leaves the state alone or concludes a verdict that keeps the
  contract.
\<close>

lemma packet_in_verdict:
  assumes "packet_in_handler ac oth clk m s = Some (t, e)"
  obtains "t = s"
  | pkt eth v where "Packet ac oth (pi_data m) = Some (Inr pkt)" "get_ethernet pkt = Some eth"
      "verdict_contract s v" "(t, e) = conclude_verdict clk m pkt eth v"
proof (cases "pi_data m = [] \<or> pi_msg_len m < pi_total_len m \<or> (\<exists>x. Packet ac oth (pi_data m) = Some (Inl x))")
  case True
  then show ?thesis using assms that(1) by (auto simp: packet_in_handler_def split: if_splits)
next
  case False
  with assms obtain pkt where pk: "Packet ac oth (pi_data m) = Some (Inr pkt)"
    by (auto simp: packet_in_handler_def split: option.splits sum.splits)
  show ?thesis
  proof (cases "get_ethernet pkt")
    case None
    then show ?thesis using assms False pk that(1) by (simp add: packet_in_handler_def)
  next
    case (Some eth)
    consider "ethertype eth = ETH_TYPE_IP" | "ethertype eth \<noteq> ETH_TYPE_IP" "ethertype eth = ETH_TYPE_ARP"
      | "ethertype eth \<noteq> ETH_TYPE_IP" "ethertype eth \<noteq> ETH_TYPE_ARP" by blast
    then show ?thesis
    proof cases
      case 1
      with assms False pk Some obtain v where
        "ipv4_packet_handler ac oth clk m (get_ipv4 pkt) s = Some v"
        "(t, e) = conclude_verdict clk m pkt eth v"
        by (auto simp: packet_in_handler_def)
      then show ?thesis using that(2) [OF pk Some ipv4_contract] by blast
    next
      case 2
      with assms False pk Some have
        "(t, e) = conclude_verdict clk m pkt eth (arp_packet_handler m (get_arp pkt) s)"
        by (auto simp: packet_in_handler_def)
      then show ?thesis using that(2) [OF pk Some arp_contract] by blast
    next
      case 3
      then show ?thesis using assms False pk Some that(1) by (simp add: packet_in_handler_def)
    qed
  qed
qed

lemma packet_in_inv:
  assumes "packet_in_handler ac oth clk m s = Some (t, e)" and "fw_inv s"
  shows "fw_inv t"
  using assms(1)
proof (rule packet_in_verdict)
  fix pkt eth v
  assume "verdict_contract s v" "(t, e) = conclude_verdict clk m pkt eth v"
  then show ?thesis using verdict_inv [OF _ assms(2)] by (metis fst_conv)
qed (simp add: assms(2))

end
