(* ===== verification/Fw_System.thy ===== *)
theory Fw_System
  imports Fw_Invariants
begin

text \<open>
  The firewall as a state machine: OpenFlow events and REST requests, handled one at a time,
  in any order.  An event whose handler does not return has no step.
\<close>

datatype fw_event =
    Ev_packet_in clock packet_in
  | Ev_switch_join nat
  | Ev_add_ip clock string
  | Ev_del_ip clock string
  | Ev_add_port clock string string
  | Ev_del_port clock string string
  | Ev_rate_limit clock "json option"
  | Ev_add_dpi clock "json option"
  | Ev_del_dpi clock string

text \<open>What the code that is not modelled contributes.\<close>

record env =
  e_ac :: addrconv
  e_oth :: other_parsers
  e_rc :: "string \<Rightarrow> compile_result"

inductive fw_step :: "env \<Rightarrow> fw_state \<Rightarrow> fw_event \<Rightarrow> fw_state \<Rightarrow> bool" for env where
  step_packet_in:
    "pi_dp m \<in> set (datapaths s) \<Longrightarrow>
     packet_in_handler (e_ac env) (e_oth env) clk m s = Some (t, e) \<Longrightarrow>
     fw_step env s (Ev_packet_in clk m) t"
| step_switch_join: "fw_step env s (Ev_switch_join dp) (switch_handshake_handler dp s)"
| step_add_ip: "fw_step env s (Ev_add_ip clk ip) (fst (add_blocked_ip clk ip s))"
| step_del_ip: "fw_step env s (Ev_del_ip clk ip) (fst (del_blocked_ip clk ip s))"
| step_add_port: "fw_step env s (Ev_add_port clk p pn) (fst (add_blocked_port clk p pn s))"
| step_del_port: "fw_step env s (Ev_del_port clk p pn) (fst (del_blocked_port clk p pn s))"
| step_rate_limit: "fw_step env s (Ev_rate_limit clk b) (fst (set_rate_limit clk b s))"
| step_add_dpi: "fw_step env s (Ev_add_dpi clk b) (fst (add_dpi_pattern (e_rc env) clk b s))"
| step_del_dpi: "fw_step env s (Ev_del_dpi clk nm) (fst (del_dpi_pattern clk nm s))"

inductive_cases packet_in_stepE: "fw_step env s (Ev_packet_in clk m) t"
inductive_cases switch_join_stepE: "fw_step env s (Ev_switch_join dp) t"
inductive_simps fw_step_simps:
  "fw_step env s (Ev_packet_in clk m) t"
  "fw_step env s (Ev_switch_join dp) t"
  "fw_step env s (Ev_add_ip clk ip) t"
  "fw_step env s (Ev_del_ip clk ip) t"
  "fw_step env s (Ev_add_port clk p pn) t"
  "fw_step env s (Ev_del_port clk p pn) t"
  "fw_step env s (Ev_rate_limit clk b) t"
  "fw_step env s (Ev_add_dpi clk b) t"
  "fw_step env s (Ev_del_dpi clk nm) t"

interpretation fw: transition_system "\<lambda>s. s = init_state" "fw_step env" for env .

section \<open>Configuration changes keep the invariant\<close>

lemma fw_inv_log [simp]: "fw_inv s \<Longrightarrow> fw_inv (fw_log clk lvl msg sr ds ex s)"
  using config_ok_same [of s "fw_log clk lvl msg sr ds ex s"]
  by (simp add: fw_inv_def stats_ok_def)

lemma handshake_inv:
  assumes "fw_inv s"
  shows "fw_inv (switch_handshake_handler dp s)"
proof -
  let ?s = "s\<lparr>datapaths := (if dp \<in> set (datapaths s) then datapaths s else datapaths s @ [dp]),
              arp_table := Map.empty\<rparr>"
  have "config_ok ?s" using assms by (auto simp: fw_inv_def config_ok_def)
  moreover have "config_ok (switch_handshake_handler dp s) = config_ok ?s"
    by (rule config_ok_same) (simp add: switch_handshake_handler_def Let_def)
  ultimately show ?thesis
    using assms by (simp add: fw_inv_def stats_ok_def switch_handshake_handler_def Let_def)
qed

lemma flush_ip_inv: "fw_inv s \<Longrightarrow> fw_inv (flush_flows_for_ip clk ip s)"
  using config_ok_same [of s "flush_flows_for_ip clk ip s"] flush_flows_for_ip_effect [where clk = clk and ip = ip and s = s]
  by (simp add: fw_inv_def stats_ok_def table_ok_remove)
     (simp add: flush_flows_for_ip_def Let_def flush_ip_loop_effect)

lemma flush_port_inv:
  assumes "pn = 6 \<or> pn = 17" and "fw_inv s"
  shows "fw_inv (flush_flows_for_port clk p pn s)"
  using config_ok_same [of s "flush_flows_for_port clk p pn s"] assms(2)
    flush_flows_for_port_effect [OF assms(1), where clk = clk and port = p and s = s]
  by (simp add: fw_inv_def stats_ok_def table_ok_remove)
     (simp add: flush_flows_for_port_def Let_def flush_port_loop_effect [OF assms(1)])

lemma flush_all_inv: "fw_inv s \<Longrightarrow> fw_inv (flush_all_trust_flows clk s)"
  using config_ok_same [of s "flush_all_trust_flows clk s"] flush_all_trust_flows_effect [where clk = clk and s = s]
  by (simp add: fw_inv_def stats_ok_def outcomes_def)
     (simp add: flush_all_trust_flows_def Let_def flush_all_loop_effect)

lemma fw_inv_config:
  assumes "fw_inv s" and "config_ok t" and "trust_table t = trust_table s"
    and "event_log t = event_log s" and "stats t = stats s"
  shows "fw_inv t"
  using assms by (simp add: fw_inv_def stats_ok_def log_ok_def)

lemma fw_inv_updates:
  assumes "fw_inv s"
  shows "\<forall>ip \<in> X. valid_ipv4 ip \<Longrightarrow> fw_inv (s\<lparr>blocked_ips := X\<rparr>)"
    and "\<forall>(p, pn) \<in> Y. 0 \<le> p \<and> p \<le> 65535 \<and> (pn = 6 \<or> pn = 17) \<Longrightarrow> fw_inv (s\<lparr>blocked_ports := Y\<rparr>)"
    and "fw_inv (s\<lparr>rate_limit := i\<rparr>)"
    and "fw_inv (s\<lparr>rate_window := w\<rparr>)"
    and "engine_wf e \<Longrightarrow> fw_inv (s\<lparr>dpi := e\<rparr>)"
  using assms by (auto simp: fw_inv_def config_ok_def stats_ok_def)

lemma fw_inv_blocked_ips: "fw_inv s \<Longrightarrow> ip \<in> blocked_ips s \<Longrightarrow> valid_ipv4 ip"
  by (simp add: fw_inv_def config_ok_def)

lemma add_ip_inv: "fw_inv s \<Longrightarrow> fw_inv (fst (add_blocked_ip clk ip s))"
  by (auto simp: add_blocked_ip_def Let_def
      intro!: fw_inv_log flush_ip_inv fw_inv_updates dest: fw_inv_blocked_ips)

lemma del_ip_inv: "fw_inv s \<Longrightarrow> fw_inv (fst (del_blocked_ip clk ip s))"
  by (auto simp: del_blocked_ip_def Let_def intro!: fw_inv_log fw_inv_updates dest: fw_inv_blocked_ips)

lemma add_port_inv: "fw_inv s \<Longrightarrow> fw_inv (fst (add_blocked_port clk p pn s))"
proof (cases "port_args p pn")
  case (Inr a)
  assume inv: "fw_inv s"
  obtain i j where a: "a = (i, j)" by (cases a)
  have v: "0 \<le> i" "i \<le> 65535" "j = 6 \<or> j = 17" using Inr a by (auto simp: port_args_iff)
  have "fw_inv (s\<lparr>blocked_ports := insert (i, j) (blocked_ports s)\<rparr>)"
    by (rule fw_inv_config [OF inv]) (use inv v in \<open>auto simp: fw_inv_def config_ok_def\<close>)
  then show ?thesis
    by (simp add: add_blocked_port_def Inr a Let_def flush_port_inv [OF v(3)])
qed (simp add: add_blocked_port_def)

lemma del_port_inv: "fw_inv s \<Longrightarrow> fw_inv (fst (del_blocked_port clk p pn s))"
proof (cases "port_args p pn")
  case (Inr a)
  assume inv: "fw_inv s"
  obtain i j where a: "a = (i, j)" by (cases a)
  have "fw_inv (s\<lparr>blocked_ports := blocked_ports s - {(i, j)}\<rparr>)"
    by (rule fw_inv_config [OF inv]) (use inv in \<open>auto simp: fw_inv_def config_ok_def\<close>)
  then show ?thesis by (simp add: del_blocked_port_def Inr a Let_def)
qed (simp add: del_blocked_port_def)

lemma rate_limit_inv: "fw_inv s \<Longrightarrow> fw_inv (fst (set_rate_limit clk b s))"
  by (auto simp: set_rate_limit_def Let_def intro!: fw_inv_log fw_inv_updates
      split: option.split sum.split)

lemma add_dpi_inv:
  assumes "fw_inv s"
  shows "fw_inv (fst (add_dpi_pattern rc clk b s))"
proof -
  have wf: "engine_wf (dpi s)" using assms by (simp add: fw_inv_def config_ok_def)
  show ?thesis
    using assms
    by (auto simp: add_dpi_pattern_def Let_def dest: add_pattern_wf [OF wf]
        intro!: fw_inv_log flush_all_inv fw_inv_updates
        split: option.split sum.split py_exn.split)
qed

lemma del_dpi_inv:
  assumes "fw_inv s"
  shows "fw_inv (fst (del_dpi_pattern clk nm s))"
proof -
  have wf: "engine_wf (dpi s)" using assms by (simp add: fw_inv_def config_ok_def)
  show ?thesis
    using assms
    by (auto simp: del_dpi_pattern_def dest: remove_pattern_wf [OF wf]
        intro!: fw_inv_log fw_inv_updates split: option.split sum.split py_exn.split)
qed

lemma step_inv: "fw_step env s e t \<Longrightarrow> fw_inv s \<Longrightarrow> fw_inv t"
  by (induction rule: fw_step.induct)
     (auto intro: packet_in_inv handshake_inv add_ip_inv del_ip_inv add_port_inv del_port_inv
        rate_limit_inv add_dpi_inv del_dpi_inv)

lemma reachable_inv: "fw.reachable env s \<Longrightarrow> fw_inv s"
  by (rule fw.invariant_rule [where I = fw_inv]) (auto intro: fw_inv_init step_inv)

end
