(* ===== verification/Sample_Frames.thy ===== *)
theory Sample_Frames
  imports Fw_Packet_In
begin

text \<open>
  Concrete frames and a concrete address converter, on which the hypotheses of properties are
  shown to be satisfiable.  The converter prints an IPv4 address as a dotted quad and a MAC
  address as one character per byte.
\<close>

text \<open>Decoding a frame one header at a time.\<close>

lemma parser_loop_step:
  "\<not> all_zero rest \<Longrightarrow> class_parser ac oth c rest = Some (Inr (p, cls', rest')) \<Longrightarrow>
     parser_loop ac oth (Some c) rest acc = parser_loop ac oth cls' rest' (add_proto acc p)"
  by (subst parser_loop.simps) simp

lemma parser_loop_done:
  "parser_loop ac oth None rest acc = Some (Inr (with_rest acc rest))"
  "all_zero rest \<Longrightarrow> parser_loop ac oth cls rest acc = Some (Inr (with_rest acc rest))"
  by (subst parser_loop.simps; simp split: option.split)+

lemma Packet_start:
  "data \<noteq> [] \<Longrightarrow> Packet ac oth data = parser_loop ac oth (Some CEthernet) data []"
  by (simp add: Packet_def)

definition raw_text :: "bytes \<Rightarrow> string" where
  "raw_text b = map (\<lambda>x. char_of (unat x)) b"

definition raw_bin :: "string \<Rightarrow> bytes res" where
  "raw_bin s = Inr (map (\<lambda>c. word_of_nat (of_char c)) s)"

definition quad_text :: "bytes \<Rightarrow> string" where
  "quad_text b = (case b of [w, x, y, z] \<Rightarrow> dotted_quad (unat w) (unat x) (unat y) (unat z) | _ \<Rightarrow> [])"

definition quad_bin :: "string \<Rightarrow> bytes res" where
  "quad_bin s =
     (case ipv4_octets s of
        Some (w, x, y, z) \<Rightarrow> Inr [word_of_nat w, word_of_nat x, word_of_nat y, word_of_nat z]
      | None \<Rightarrow> Inl (OtherError ''AddrFormatError''))"

definition sample_ac :: addrconv where
  "sample_ac = \<lparr>mac_to_text = raw_text, mac_to_bin = raw_bin, ip_to_text = quad_text, ip_to_bin = quad_bin\<rparr>"

definition sample_oth :: other_parsers where
  "sample_oth = (\<lambda>n b. raise StructError)"

lemma raw_roundtrip: "raw_bin (raw_text b) = Inr b"
  using unat_byte_less by (induction b) (simp_all add: raw_bin_def raw_text_def)

lemma quad_roundtrip:
  assumes "length b = 4"
  shows "quad_bin (quad_text b) = Inr b"
proof -
  from assms obtain w x y z where b: "b = [w, x, y, z]"
    by (auto simp: length_Suc_conv eval_nat_numeral)
  show ?thesis
    by (simp add: b quad_text_def quad_bin_def ipv4_octets_dotted_quad unat_byte_less)
qed

lemma sample_ac_ok: "addrconv_ok sample_ac"
  by (simp add: addrconv_ok_def sample_ac_def raw_roundtrip quad_roundtrip)

lemma sample_types:
  "get_ether_type 2048 = Some CIpv4" "get_ether_type 2054 = Some CArp"
  "get_packet_type 17 = Some CUdp" "get_packet_type 6 = Some CTcp"
  "udp_payload_type 7 53 = None" "tcp_payload_type 7 80 = None"
  by (simp_all add: get_ether_type_def get_packet_type_def udp_payload_type_def tcp_payload_type_def
      get_packet_type_def packet_types_def)

lemma sample_rest: "\<not> all_zero [9, 9]" "all_zero []"
  by (simp_all add: all_zero_def)

text \<open>A UDP datagram from port 7 to port 53 with a payload of two bytes.\<close>

definition udp_frame :: bytes where
  "udp_frame =
     [1,1,1,1,1,1, 2,2,2,2,2,2, 8,0,
      0x45,0, 0,30, 0,0, 0,0, 64,17, 0,0, 65,66,67,68, 69,70,71,72,
      0,7, 0,53, 0,10, 0,0, 9,9]"

definition tcp_frame :: bytes where
  "tcp_frame =
     [1,1,1,1,1,1, 2,2,2,2,2,2, 8,0,
      0x45,0, 0,42, 0,0, 0,0, 64,6, 0,0, 65,66,67,68, 69,70,71,72,
      0,7, 0,80, 0,0,0,0, 0,0,0,0, 0x50,0x10, 0,0, 0,0, 0,0, 9,9]"

definition sample_eth :: ethernet where
  "sample_eth = \<lparr>eth_dst = replicate 6 (CHR 0x01), eth_src = replicate 6 (CHR 0x02), ethertype = 2048\<rparr>"

definition sample_ip :: "nat \<Rightarrow> nat \<Rightarrow> ipv4" where
  "sample_ip pn len =
     \<lparr>version = 4, header_length = 5, tos = 0, total_length = len, identification = 0, flags = 0,
      offset = 0, ttl = 64, proto = pn, csum = 0, src = ''65.66.67.68'', dst = ''69.70.71.72'', option = None\<rparr>"

definition sample_udp :: udp where
  "sample_udp = \<lparr>udp_src_port = 7, udp_dst_port = 53, udp_total_length = 10, udp_csum = 0\<rparr>"

lemma sample_truthy: "0 < header_length (sample_ip pn len)"
  by (simp add: sample_ip_def)

lemma udp_frame_headers:
  "ethernet_parser sample_ac udp_frame = Inr (sample_eth, drop 14 udp_frame)"
  "ipv4_parser sample_ac (drop 14 udp_frame) = Inr (sample_ip 17 30, drop 34 udp_frame)"
  "udp_parser (drop 34 udp_frame) = Inr (sample_udp, [9, 9])"
  by code_simp+

lemma udp_frame_steps:
  "class_parser sample_ac sample_oth CEthernet udp_frame =
     Some (Inr (Some (PEthernet sample_eth), Some CIpv4, drop 14 udp_frame))"
  "class_parser sample_ac sample_oth CIpv4 (drop 14 udp_frame) =
     Some (Inr (Some (PIpv4 (sample_ip 17 30)), Some CUdp, drop 34 udp_frame))"
  "class_parser sample_ac sample_oth CUdp (drop 34 udp_frame) =
     Some (Inr (Some (PUdp sample_udp), None, [9, 9]))"
  by (simp_all add: parsed_of_def udp_frame_headers) (simp_all add: sample_eth_def sample_ip_def sample_udp_def
      sample_types ret_def)

lemma udp_frame_nonzero: "\<not> all_zero udp_frame" "\<not> all_zero (drop 14 udp_frame)" "\<not> all_zero (drop 34 udp_frame)"
  "udp_frame \<noteq> []"
  by (simp_all add: all_zero_def udp_frame_def)

lemma udp_frame_parsed:
  "Packet sample_ac sample_oth udp_frame =
     Some (Inr [PEthernet sample_eth, PIpv4 (sample_ip 17 30), PUdp sample_udp, PRaw [9, 9]])"
  by (simp add: Packet_start udp_frame_nonzero sample_rest add_proto_def with_rest_def
      parser_loop_step [OF _ udp_frame_steps(1)] parser_loop_step [OF _ udp_frame_steps(2)] parser_loop_step [OF _ udp_frame_steps(3)]
      parser_loop_done sample_truthy)

definition sample_tcp :: tcp where
  "sample_tcp =
     \<lparr>tcp_src_port = 7, tcp_dst_port = 80, seq_no = 0, ack_no = 0, tcp_offset = 5, bits = 16,
      window_size = 0, tcp_csum = 0, urgent = 0, tcp_opts = NoOptions\<rparr>"

lemma sample_tcp_truthy: "0 < tcp_offset sample_tcp"
  by (simp add: sample_tcp_def)

lemma tcp_frame_headers:
  "ethernet_parser sample_ac tcp_frame = Inr (sample_eth, drop 14 tcp_frame)"
  "ipv4_parser sample_ac (drop 14 tcp_frame) = Inr (sample_ip 6 42, drop 34 tcp_frame)"
  "tcp_parser (drop 34 tcp_frame) = Some (Inr (sample_tcp, [9, 9]))"
  by (code_simp, code_simp)
    (simp add: tcp_parser_def tcp_frame_def u8_at_def u16_at_def u32_at_def
      slice_def sample_tcp_def ret_def)

lemma tcp_frame_steps:
  "class_parser sample_ac sample_oth CEthernet tcp_frame =
     Some (Inr (Some (PEthernet sample_eth), Some CIpv4, drop 14 tcp_frame))"
  "class_parser sample_ac sample_oth CIpv4 (drop 14 tcp_frame) =
     Some (Inr (Some (PIpv4 (sample_ip 6 42)), Some CTcp, drop 34 tcp_frame))"
  "class_parser sample_ac sample_oth CTcp (drop 34 tcp_frame) =
     Some (Inr (Some (PTcp sample_tcp), None, [9, 9]))"
  by (simp_all add: parsed_of_def tcp_frame_headers) (simp_all add: sample_eth_def sample_ip_def sample_tcp_def
      sample_types ret_def)

lemma tcp_frame_nonzero: "\<not> all_zero tcp_frame" "\<not> all_zero (drop 14 tcp_frame)" "\<not> all_zero (drop 34 tcp_frame)"
  "tcp_frame \<noteq> []"
  by (simp_all add: all_zero_def tcp_frame_def)

lemma tcp_frame_parsed:
  "Packet sample_ac sample_oth tcp_frame =
     Some (Inr [PEthernet sample_eth, PIpv4 (sample_ip 6 42), PTcp sample_tcp, PRaw [9, 9]])"
  by (simp add: Packet_start tcp_frame_nonzero sample_rest add_proto_def with_rest_def
      parser_loop_step [OF _ tcp_frame_steps(1)] parser_loop_step [OF _ tcp_frame_steps(2)] parser_loop_step [OF _ tcp_frame_steps(3)]
      parser_loop_done sample_truthy sample_tcp_truthy)

text \<open>An ARP request; the sender claims the address \<open>65.66.67.68\<close>.\<close>

definition arp_frame :: bytes where
  "arp_frame =
     [1,1,1,1,1,1, 2,2,2,2,2,2, 8,6,
      0,1, 8,0, 6, 4, 0,1, 2,2,2,2,2,2, 65,66,67,68, 0,0,0,0,0,0, 69,70,71,72]"

definition sample_arp :: arp where
  "sample_arp =
     \<lparr>hwtype = 1, arp_proto = 2048, hlen = 6, plen = 4, opcode = 1, src_mac = replicate 6 (CHR 0x02),
      src_ip = ''65.66.67.68'', dst_mac = replicate 6 (CHR 0x00), dst_ip = ''69.70.71.72''\<rparr>"

lemma arp_frame_headers:
  "ethernet_parser sample_ac arp_frame = Inr (sample_eth\<lparr>ethertype := 2054\<rparr>, drop 14 arp_frame)"
  "arp_parser sample_ac (drop 14 arp_frame) = Inr (sample_arp, [])"
  by code_simp+

lemma arp_frame_steps:
  "class_parser sample_ac sample_oth CEthernet arp_frame =
     Some (Inr (Some (PEthernet (sample_eth\<lparr>ethertype := 2054\<rparr>)), Some CArp, drop 14 arp_frame))"
  "class_parser sample_ac sample_oth CArp (drop 14 arp_frame) = Some (Inr (Some (PArp sample_arp), None, []))"
  by (simp_all add: parsed_of_def arp_frame_headers) (simp_all add: sample_eth_def sample_ip_def sample_arp_def
      sample_types ret_def)

lemma arp_frame_nonzero: "\<not> all_zero arp_frame" "\<not> all_zero (drop 14 arp_frame)" "arp_frame \<noteq> []"
  by (simp_all add: all_zero_def arp_frame_def)

lemma arp_frame_parsed:
  "Packet sample_ac sample_oth arp_frame =
     Some (Inr [PEthernet (sample_eth\<lparr>ethertype := 2054\<rparr>), PArp sample_arp])"
  by (simp add: Packet_start arp_frame_nonzero sample_rest add_proto_def with_rest_def
      parser_loop_step [OF _ arp_frame_steps(1)] parser_loop_step [OF _ arp_frame_steps(2)]
      parser_loop_done sample_truthy)

text \<open>A TCP segment whose header has one option of kind 99 and length 0.\<close>

definition hang_frame :: bytes where
  "hang_frame =
     [1,1,1,1,1,1, 2,2,2,2,2,2, 8,0,
      0x45,0, 0,44, 0,0, 0,0, 64,6, 0,0, 65,66,67,68, 69,70,71,72,
      0,7, 0,80, 0,0,0,0, 0,0,0,0, 0x60,0x10, 0,0, 0,0, 0,0, 99,0,0,0]"

text \<open>The events that carry the frames.\<close>

definition frame_in :: "bytes \<Rightarrow> packet_in" where
  "frame_in b = \<lparr>pi_dp = 1, pi_data = b, pi_msg_len = 100, pi_total_len = 100, pi_in_port = Some 2,
                 pi_buffer_id = OFP_NO_BUFFER\<rparr>"

definition sample_clk :: clock where
  "sample_clk = \<lparr>now = 0, hms = ''00:00:00''\<rparr>"

lemma sample_valid: "valid_ipv4 ''65.66.67.68''" "valid_ipv4 ''69.70.71.72''"
  by code_simp+

end
