(* ===== verification/Fw_Properties.thy ===== *)
theory Fw_Properties
  imports Fw_System Sample_Frames
begin

text \<open>
  The properties of the firewall: what a blocked source, a blocked port, a new signature or a
  refused packet can and cannot cause, over single packets and over whole runs.
\<close>

section \<open>What a refusal leaves alone\<close>

lemma apply_result_frame:
  "trust_table (fst (apply_result clk r sr ds pn port s)) = trust_table s"
  "n_allowed (stats (fst (apply_result clk r sr ds pn port s))) = n_allowed (stats s)"
proof -
  have bump: "n_allowed (bump_stat k st) = n_allowed st" for k st by (cases k) simp_all
  have "trust_table (fst (apply_result clk r sr ds pn port s)) = trust_table s \<and>
     n_allowed (stats (fst (apply_result clk r sr ds pn port s))) = n_allowed (stats s)"
  proof (cases "r = DPI_BLOCKED")
    case False
    from apply_result_state [OF False, of clk sr ds pn port s] show ?thesis
      by (auto simp: bump split: option.splits)
  qed (simp add: apply_result_def)
  then show "trust_table (fst (apply_result clk r sr ds pn port s)) = trust_table s"
    "n_allowed (stats (fst (apply_result clk r sr ds pn port s))) = n_allowed (stats s)"
    by simp_all
qed

lemma report_refused_frame:
  "trust_table (fst (report_refused clk pkt eth r s)) = trust_table s"
  "n_allowed (stats (fst (report_refused clk pkt eth r s))) = n_allowed (stats s)"
  unfolding report_refused_def Let_def
  by (simp_all add: apply_result_frame split: option.split)

lemma conclude_refused:
  assumes "r \<noteq> ALLOWED"
  shows "sent (fst (conclude clk m pkt eth r s)) = sent s"
    and "trust_table (fst (conclude clk m pkt eth r s)) = trust_table s"
    and "n_allowed (stats (fst (conclude clk m pkt eth r s))) = n_allowed (stats s)"
  using assms
  by (simp_all add: conclude_def Let_def report_refused_contract(2) report_refused_frame
      split: option.split)

section \<open>The handler returns when decoding does\<close>

lemma ipv4_handler_None_iff:
  "ipv4_packet_handler ac oth clk m ip s = None \<longleftrightarrow> Packet ac oth (pi_data m) = None"
  by (simp add: ipv4_packet_handler_def split: option.split sum.split)

lemma packet_in_None_iff:
  "packet_in_handler ac oth clk m s = None \<longleftrightarrow>
     pi_data m \<noteq> [] \<and> \<not> pi_msg_len m < pi_total_len m \<and> Packet ac oth (pi_data m) = None"
  by (cases "Packet ac oth (pi_data m)")
     (simp_all del: not_None_eq add: packet_in_handler_def ipv4_handler_None_iff split: option.split sum.split)

lemma packet_in_returns:
  "Packet ac oth (pi_data m) = Some p \<Longrightarrow> \<exists>t e. packet_in_handler ac oth clk m s = Some (t, e)"
  using packet_in_None_iff [of ac oth clk m s] by (cases "packet_in_handler ac oth clk m s") auto

section \<open>Blocked sources\<close>

lemma ip_checks_blocked: "src ip \<in> blocked_ips s \<Longrightarrow> ip_checks clk m ip s = (IP_BLOCKED, s)"
  by (simp add: ip_checks_def check_ip_block_def)

lemma blocked_source_concludes:
  assumes "Packet ac oth (pi_data m) = Some (Inr pkt)"
    and "get_ethernet pkt = Some eth" "ethertype eth = ETH_TYPE_IP" "get_ipv4 pkt = Some ip"
    and "src ip \<in> blocked_ips s"
  shows "packet_in_handler ac oth clk m s =
     Some (if pi_data m = [] \<or> pi_msg_len m < pi_total_len m then (s, None)
           else conclude clk m pkt eth IP_BLOCKED s)"
  using assms
  by (simp add: packet_in_handler_def ipv4_handler_alt [OF assms(1)] ip_checks_blocked conclude_verdict_def)

lemma blocked_source_inert:
  assumes "packet_in_handler ac oth clk m s = Some (t, e)"
    and "Packet ac oth (pi_data m) = Some (Inr pkt)"
    and "get_ethernet pkt = Some eth" "ethertype eth = ETH_TYPE_IP" "get_ipv4 pkt = Some ip"
    and "src ip \<in> blocked_ips s"
  shows "sent t = sent s" "trust_table t = trust_table s" "n_allowed (stats t) = n_allowed (stats s)"
proof -
  have "sent t = sent s \<and> trust_table t = trust_table s \<and> n_allowed (stats t) = n_allowed (stats s)"
  proof (cases "pi_data m = [] \<or> pi_msg_len m < pi_total_len m")
    case False
    with blocked_source_concludes [OF assms(2-6), of clk] assms(1)
    have "t = fst (conclude clk m pkt eth IP_BLOCKED s)" by (auto simp: prod_eq_iff)
    then show ?thesis by (simp add: conclude_refused)
  qed (use blocked_source_concludes [OF assms(2-6), of clk] assms(1) in auto)
  then show "sent t = sent s" "trust_table t = trust_table s" "n_allowed (stats t) = n_allowed (stats s)"
    by simp_all
qed

text \<open>
  C1.  A packet-in event of an IPv4 frame whose source address is blocked sends nothing to any
  switch, leaves the trust table alone and is not counted as allowed.
\<close>

theorem blocked_source_sends_nothing:
  assumes "packet_in_handler ac oth clk m s = Some (t, e)"
    and "Packet ac oth (pi_data m) = Some (Inr pkt)"
    and "get_ethernet pkt = Some eth" "ethertype eth = ETH_TYPE_IP" "get_ipv4 pkt = Some ip"
    and "src ip \<in> blocked_ips s"
  shows "sent t = sent s \<and> trust_table t = trust_table s \<and> n_allowed (stats t) = n_allowed (stats s)"
  using blocked_source_inert [OF assms] by blast

text \<open>The sample datagram, decoded.\<close>

lemma sample_get:
  "get_ethernet [PEthernet sample_eth, PIpv4 i, u, r] = Some sample_eth"
  "get_ipv4 [PEthernet sample_eth, PIpv4 i, u, r] = Some i"
  by (simp_all add: get_ethernet_def get_ipv4_def get_protocol_def get_protocols_def)

lemma sample_fields [simp]:
  "ethertype sample_eth = ETH_TYPE_IP" "src (sample_ip pn len) = ''65.66.67.68''"
  "dst (sample_ip pn len) = ''69.70.71.72''" "proto (sample_ip pn len) = pn"
  "pi_data (frame_in b) = b" "pi_dp (frame_in b) = 1" "pi_in_port (frame_in b) = Some 2"
  "pi_msg_len (frame_in b) = 100" "pi_total_len (frame_in b) = 100"
  "pi_buffer_id (frame_in b) = OFP_NO_BUFFER"
  by (simp_all add: sample_eth_def sample_ip_def frame_in_def ETH_TYPE_IP_def)

definition sample_blocked :: fw_state where
  "sample_blocked = init_state\<lparr>blocked_ips := {''65.66.67.68''}\<rparr>"

lemma sample_udp_packet:
  "Packet sample_ac sample_oth (pi_data (frame_in udp_frame)) =
     Some (Inr [PEthernet sample_eth, PIpv4 (sample_ip 17 30), PUdp sample_udp, PRaw [9, 9]])"
  by (simp add: udp_frame_parsed)

lemma sample_udp_returns:
  "\<exists>t e. packet_in_handler sample_ac sample_oth clk (frame_in udp_frame) s = Some (t, e)"
  using packet_in_returns sample_udp_packet by blast

theorem blocked_source_sends_nothing_witness:
  "\<exists>t e. packet_in_handler sample_ac sample_oth sample_clk (frame_in udp_frame) sample_blocked = Some (t, e) \<and>
     sent t = sent sample_blocked \<and> trust_table t = trust_table sample_blocked \<and>
     n_allowed (stats t) = n_allowed (stats sample_blocked)"
proof -
  have b: "src (sample_ip 17 30) \<in> blocked_ips sample_blocked" by (simp add: sample_blocked_def)
  obtain t e where te: "packet_in_handler sample_ac sample_oth sample_clk (frame_in udp_frame) sample_blocked = Some (t, e)"
    using sample_udp_returns by blast
  show ?thesis
    using te blocked_source_sends_nothing [OF te sample_udp_packet sample_get(1) sample_fields(1) sample_get(2) b]
    by blast
qed

section \<open>Configuration over runs\<close>

lemma conclude_same_config:
  assumes "same_config s s0"
  shows "same_config s (fst (conclude clk m pkt eth r s0))"
proof -
  have "same_config s (fst (report_refused clk pkt eth r u))"
    and "same_config s (forward_allowed clk m pkt eth p u)" if "same_config s u" for u p
    using that report_refused_contract(1) [of u clk pkt eth r] forward_allowed_contract [of u clk m pkt eth p]
    by (auto simp: conclude_contract_def intro: same_config_trans)
  then show ?thesis
    using assms by (simp add: conclude_def Let_def split: option.split)
qed

lemma packet_in_same_config:
  assumes "packet_in_handler ac oth clk m s = Some (t, e)"
  shows "same_config s t"
  using assms
proof (rule packet_in_verdict)
  fix pkt eth v
  assume v: "verdict_contract s v" and t: "(t, e) = conclude_verdict clk m pkt eth v"
  obtain r s0 where "v = (r, s0)" by (cases v)
  with v have sc: "same_config s s0" by (simp add: verdict_contract_def check_contract_def)
  show ?thesis
  proof (cases r)
    case (Inr x)
    then have "t = fst (conclude clk m pkt eth x s0)"
      using t \<open>v = (r, s0)\<close> by (simp add: conclude_verdict_def prod_eq_iff)
    then show ?thesis using conclude_same_config [OF sc] by simp
  qed (use t sc \<open>v = (r, s0)\<close> in \<open>simp add: conclude_verdict_def\<close>)
qed simp

lemma blocked_ips_handshake [simp]: "blocked_ips (switch_handshake_handler dp s) = blocked_ips s"
  by (simp add: switch_handshake_handler_def Let_def add_flow_send)

lemma blocked_ips_flush [simp]:
  "blocked_ips (flush_flows_for_ip clk ip s) = blocked_ips s"
  "blocked_ips (flush_all_trust_flows clk s) = blocked_ips s"
  "blocked_ips (flush_flows_for_port clk p pn s) = blocked_ips s"
proof -
  have "blocked_ips (snd (flush_port_loop p pn ds u)) = blocked_ips u" for ds u
    by (cases "pn = 6 \<or> pn = 17") (simp_all add: flush_port_loop_effect flush_port_loop_other)
  then show "blocked_ips (flush_flows_for_port clk p pn s) = blocked_ips s"
    by (simp add: flush_flows_for_port_def Let_def case_prod_beta)
qed (use flush_flows_for_ip_effect(4) [of s clk ip s] flush_all_trust_flows_effect(4) [of s clk s]
      in \<open>simp_all add: same_config_def\<close>)

lemma step_keeps_block:
  assumes "fw_step env s ev t" and "ip \<in> blocked_ips s" and "\<forall>clk. ev \<noteq> Ev_del_ip clk ip"
  shows "ip \<in> blocked_ips t"
  using assms
proof (induction rule: fw_step.induct)
  case (step_packet_in m s clk t e)
  then show ?case using packet_in_same_config by (fastforce simp: same_config_def)
qed (auto simp: add_blocked_ip_def del_blocked_ip_def add_blocked_port_def del_blocked_port_def
       set_rate_limit_def add_dpi_pattern_def del_dpi_pattern_def Let_def
     split: sum.split option.split py_exn.split)

lemma steps_keep_block:
  assumes "fw.steps env s evs t" and "ip \<in> blocked_ips s" and "\<forall>clk. Ev_del_ip clk ip \<notin> set evs"
  shows "ip \<in> blocked_ips t"
  using assms
  by (induction rule: fw.steps.induct) (auto dest: step_keeps_block)

lemma add_ip_inserts: "valid_ipv4 ip \<Longrightarrow> ip \<in> blocked_ips (fst (add_blocked_ip clk ip s))"
  by (simp add: add_blocked_ip_def Let_def)

text \<open>
  C2.  From the REST request that blocks an address until the request that unblocks it, whatever
  packets, switch connections and other requests come in between, no IPv4 packet from that
  address makes the controller send a message or is counted as allowed.
\<close>

theorem block_holds_until_removed:
  assumes "valid_ipv4 addr"
    and "fw.steps env (fst (add_blocked_ip clk addr s)) evs u"
    and "\<forall>clk. Ev_del_ip clk addr \<notin> set evs"
    and "packet_in_handler (e_ac env) (e_oth env) clk' m u = Some (t, e)"
    and "Packet (e_ac env) (e_oth env) (pi_data m) = Some (Inr pkt)"
    and "get_ethernet pkt = Some eth" "ethertype eth = ETH_TYPE_IP" "get_ipv4 pkt = Some ip"
    and "src ip = addr"
  shows "sent t = sent u \<and> n_allowed (stats t) = n_allowed (stats u)"
proof -
  from assms(1-3) have b: "src ip \<in> blocked_ips u"
    using steps_keep_block add_ip_inserts assms(9) by blast
  show ?thesis
    using blocked_source_inert(1) [OF assms(4-8) b] blocked_source_inert(3) [OF assms(4-8) b] ..
qed

definition sample_env :: env where
  "sample_env = \<lparr>e_ac = sample_ac, e_oth = sample_oth, e_rc = (\<lambda>r. ReError [])\<rparr>"

theorem block_holds_until_removed_witness:
  "\<exists>u t e. fw.steps sample_env (fst (add_blocked_ip sample_clk ''65.66.67.68'' init_state))
       [Ev_switch_join 1, Ev_del_ip sample_clk ''69.70.71.72''] u \<and>
     packet_in_handler (e_ac sample_env) (e_oth sample_env) sample_clk (frame_in udp_frame) u = Some (t, e) \<and>
     sent t = sent u \<and> n_allowed (stats t) = n_allowed (stats u)"
proof -
  define u where "u = fst (del_blocked_ip sample_clk ''69.70.71.72''
    (switch_handshake_handler 1 (fst (add_blocked_ip sample_clk ''65.66.67.68'' init_state))))"
  have st: "fw.steps sample_env (fst (add_blocked_ip sample_clk ''65.66.67.68'' init_state))
       [Ev_switch_join 1, Ev_del_ip sample_clk ''69.70.71.72''] u"
    unfolding u_def
    by (rule fw.steps_cons [OF step_switch_join fw.steps_cons [OF step_del_ip fw.steps_nil]])
  have env: "e_ac sample_env = sample_ac" "e_oth sample_env = sample_oth"
    by (simp_all add: sample_env_def)
  obtain t e where te: "packet_in_handler (e_ac sample_env) (e_oth sample_env) sample_clk (frame_in udp_frame) u = Some (t, e)"
    unfolding env using sample_udp_returns by blast
  have nodel: "\<forall>clk. Ev_del_ip clk ''65.66.67.68'' \<notin> set [Ev_switch_join 1, Ev_del_ip sample_clk ''69.70.71.72'']"
    by simp
  show ?thesis
    using st te block_holds_until_removed [OF sample_valid(1) st nodel te
        sample_udp_packet [folded env] sample_get(1) sample_fields(1) sample_get(2) sample_fields(2)]
    by blast
qed

section \<open>What a new rule withdraws from the switches\<close>

text \<open>
  C3.  Blocking a valid address answers 200 and leaves, on every known switch, no flow entry
  that matches the address as source or destination, and no trust entry of the address.
\<close>

theorem block_ip_withdraws_flows:
  assumes "valid_ipv4 addr" and "add_blocked_ip clk addr s = (t, r)"
  shows "(\<forall>dp \<in> set (datapaths s). \<forall>f \<in> set (flow_table dp (sent t)). \<not> mentions_ip addr f) \<and>
     (\<forall>k. key_has_ip addr k \<longrightarrow> dict_get (trust_table t) k = None) \<and>
     (\<exists>a. r = Inr a \<and> status a = 200)"
  using assms flush_ip_clears [of _ "s\<lparr>blocked_ips := insert addr (blocked_ips s)\<rparr>" _ clk addr]
  by (auto simp: add_blocked_ip_def Let_def flush_flows_for_ip_effect(2) json_response_def)

definition sample_joined :: fw_state where
  "sample_joined = init_state\<lparr>datapaths := [1], sent := [(1, FlowMod (trust_rule
     [Eth_type 0x0800, Ipv4_src ''65.66.67.68''] 2))]\<rparr>"

theorem block_ip_withdraws_flows_witness:
  "\<exists>t r. add_blocked_ip sample_clk ''65.66.67.68'' sample_joined = (t, r) \<and>
     (\<forall>f \<in> set (flow_table 1 (sent t)). \<not> mentions_ip ''65.66.67.68'' f)"
proof -
  obtain t r where tr: "add_blocked_ip sample_clk ''65.66.67.68'' sample_joined = (t, r)" by fastforce
  have "1 \<in> set (datapaths sample_joined)" by (simp add: sample_joined_def)
  then show ?thesis using tr block_ip_withdraws_flows [OF sample_valid(1) tr] by blast
qed

lemma key_has_port_dict:
  "key_has_port p pn k \<Longrightarrow> dict_get (dict_remove_if (key_has_port p pn) d) k = None"
  by simp

text \<open>
  Blocking a valid port and protocol answers 200, records the pair, leaves on every known
  switch no flow entry towards that port, and forgets the trust entries with the port at
  either end.
\<close>

theorem block_port_withdraws_flows:
  assumes "port_args p pn = Inr (port, pr)" and "add_blocked_port clk p pn s = (t, r)"
  shows "(port, pr) \<in> blocked_ports t \<and>
     (\<forall>dp \<in> set (datapaths s). \<forall>f \<in> set (flow_table dp (sent t)).
        \<not> flow_covers [Eth_type 0x0800, Ip_proto (nat pr), port_oxm port pr] (fm_match f)) \<and>
     (\<forall>k. key_has_port port pr k \<longrightarrow> dict_get (trust_table t) k = None) \<and>
     (\<exists>a. r = Inr a \<and> status a = 200)"
proof -
  define s1 where "s1 = s\<lparr>blocked_ports := insert (port, pr) (blocked_ports s)\<rparr>"
  have pr: "pr = 6 \<or> pr = 17" using assms(1) by (simp add: port_args_iff)
  have t: "sent t = sent (flush_flows_for_port clk port pr s1)"
    "trust_table t = trust_table (flush_flows_for_port clk port pr s1)"
    "blocked_ports t = blocked_ports (flush_flows_for_port clk port pr s1)"
    "\<exists>a. r = Inr a \<and> status a = 200"
    using assms by (auto simp: add_blocked_port_def Let_def s1_def json_response_def)
  have d: "datapaths s1 = datapaths s" by (simp add: s1_def)
  have "blocked_ports t = blocked_ports s1"
    using flush_flows_for_port_effect(4) [OF pr, of s1 clk port s1] t(3) by (simp add: same_config_def)
  then show ?thesis
    using t(4) flush_port_clears [OF pr, of _ s1 _ clk port] t(1) d
      flush_flows_for_port_effect(2) [OF pr, of clk port s1] t(2)
    by (simp add: s1_def)
qed

lemma sample_port_args: "port_args ''80'' ''6'' = Inr (80, 6)"
  by code_simp

theorem block_port_withdraws_flows_witness:
  "\<exists>t r. add_blocked_port sample_clk ''80'' ''6'' sample_joined = (t, r) \<and> (80, 6) \<in> blocked_ports t \<and>
     (\<forall>f \<in> set (flow_table 1 (sent t)).
        \<not> flow_covers [Eth_type 0x0800, Ip_proto 6, Tcp_dst 80] (fm_match f))"
proof -
  obtain t r where tr: "add_blocked_port sample_clk ''80'' ''6'' sample_joined = (t, r)" by fastforce
  have "1 \<in> set (datapaths sample_joined)" by (simp add: sample_joined_def)
  then show ?thesis
    using tr block_port_withdraws_flows [OF sample_port_args tr] by (simp add: port_oxm_def)
qed

text \<open>
  C4.  After a DPI pattern has been accepted, each known switch has exactly one flow entry for
  IPv4, the rule of priority 300 that sends it to the controller: the rule is there, no other
  entry forwards or drops IPv4, and no flow is trusted any more.
\<close>

theorem new_pattern_reinspects:
  assumes "add_dpi_pattern rc clk b s = (t, Inr r)" and "status r = 200" and "dp \<in> set (datapaths s)"
  shows "filter (\<lambda>f. Eth_type 0x0800 \<in> set (fm_match f)) (flow_table dp (sent t)) =
      [to_controller 300 [Eth_type 0x0800]] \<and> trust_table t = []"
proof -
  from assms(1,2) obtain e' where
    t: "sent t = sent (flush_all_trust_flows clk (s\<lparr>dpi := e'\<rparr>))" "trust_table t = []"
    by (auto simp: add_dpi_pattern_def Let_def json_response_def flush_all_trust_flows_effect
        split: option.splits sum.splits py_exn.splits)
  show ?thesis using flush_all_table [of dp "s\<lparr>dpi := e'\<rparr>" clk] assms(3) t by simp
qed

definition sample_pattern :: json where
  "sample_pattern = JObj [(''name'', JStr ''EICAR''), (''pattern'', JStr ''eicar'')]"

definition sample_rc :: "string \<Rightarrow> compile_result" where
  "sample_rc raw = Compiled (\<lambda>b. search (Lit raw) b)"

lemma sample_accepted: "\<not> isl (add_pattern sample_rc init_engine (JStr ''EICAR'') (JStr ''eicar'') (JStr []))"
  by code_simp

lemma sample_add_pattern:
  assumes "dpi s = init_engine"
  shows "\<exists>t r. add_dpi_pattern sample_rc clk (Some sample_pattern) s = (t, Inr r) \<and> status r = 200"
  using sample_accepted
  by (cases "add_pattern sample_rc init_engine (JStr ''EICAR'') (JStr ''eicar'') (JStr [])")
     (auto simp: add_dpi_pattern_def sample_pattern_def assms Let_def json_response_def)

theorem new_pattern_reinspects_witness:
  "\<exists>t r. add_dpi_pattern sample_rc sample_clk (Some sample_pattern) sample_joined = (t, Inr r) \<and>
     filter (\<lambda>f. Eth_type 0x0800 \<in> set (fm_match f)) (flow_table 1 (sent t)) =
       [to_controller 300 [Eth_type 0x0800]] \<and> trust_table t = []"
proof -
  have j: "dpi sample_joined = init_engine" "1 \<in> set (datapaths sample_joined)"
    by (simp_all add: sample_joined_def init_state_def)
  obtain t r where tr: "add_dpi_pattern sample_rc sample_clk (Some sample_pattern) sample_joined = (t, Inr r)"
    "status r = 200"
    using sample_add_pattern [OF j(1)] by blast
  then show ?thesis using new_pattern_reinspects [OF tr j(2)] by blast
qed

section \<open>Refused and forwarded packets\<close>

lemma record_trust_allowed:
  "n_allowed (stats (record_trust clk dp ip sp dq inp outp s)) = n_allowed (stats s)"
  by (simp add: record_trust_def Let_def get_or_create_touch case_prod_beta install_trust_flow_def)

lemma forward_counts: "n_allowed (stats (forward_allowed clk m pkt eth p s)) = n_allowed (stats s) + 1"
  by (simp add: forward_allowed_def Let_def trust_allowed_def record_trust_allowed add_flow_send
      split: option.split)

text \<open>The two ways in which an event ends, told apart by the counter of allowed packets.\<close>

lemma conclude_counts:
  "n_allowed (stats (fst (conclude clk m pkt eth r s))) =
     n_allowed (stats s) + (if r = ALLOWED \<and> pi_in_port m \<noteq> None then 1 else 0)"
proof (cases "r = ALLOWED")
  case True
  then show ?thesis by (simp add: conclude_def Let_def forward_counts split: option.split)
qed (simp add: conclude_refused)

text \<open>
  C5.  A packet-in event that does not count a packet as allowed sends only drop rules (flow
  entries that add an empty action list): whatever the checks raise or answer, a packet they
  refuse is not forwarded, nor are later packets of its flow.
\<close>

theorem refused_packets_only_drop:
  assumes "packet_in_handler ac oth clk m s = Some (t, e)"
    and "n_allowed (stats t) = n_allowed (stats s)"
  shows "\<exists>ms. sent t = sent s @ ms \<and> (\<forall>x \<in> set ms. is_drop (snd x))"
  using assms(1)
proof (rule packet_in_verdict)
  fix pkt eth v
  assume v: "verdict_contract s v" and t: "(t, e) = conclude_verdict clk m pkt eth v"
  obtain r s0 where rs: "v = (r, s0)" by (cases v)
  with v obtain ms where ms: "sent s0 = sent s @ ms" "\<forall>x \<in> set ms. is_drop (snd x)"
    and na: "n_allowed (stats s0) = n_allowed (stats s)"
    by (auto simp: verdict_contract_def check_contract_def)
  have "sent t = sent s0"
  proof (cases r)
    case (Inr x)
    then have c: "t = fst (conclude clk m pkt eth x s0)"
      using t rs by (simp add: conclude_verdict_def prod_eq_iff)
    show ?thesis
    proof (cases "x = ALLOWED")
      case True
      then have "pi_in_port m = None"
        using assms(2) na conclude_counts [of clk m pkt eth x s0] by (simp add: c split: if_splits)
      then show ?thesis by (simp add: c conclude_def)
    qed (simp add: c conclude_refused)
  qed (use t rs in \<open>simp add: conclude_verdict_def\<close>)
  then show ?thesis using ms by simp
qed simp

text \<open>A limit of no packets refuses the sample datagram and installs a drop rule.\<close>

theorem refused_packets_only_drop_witness:
  "\<exists>t e ms. packet_in_handler sample_ac sample_oth sample_clk (frame_in udp_frame) sample_blocked = Some (t, e) \<and>
     sent t = sent sample_blocked @ ms \<and> (\<forall>x \<in> set ms. is_drop (snd x))"
proof -
  have b: "src (sample_ip 17 30) \<in> blocked_ips sample_blocked" by (simp add: sample_blocked_def)
  obtain t e where te: "packet_in_handler sample_ac sample_oth sample_clk (frame_in udp_frame) sample_blocked = Some (t, e)"
    using sample_udp_returns by blast
  then show ?thesis
    using refused_packets_only_drop [OF te
        blocked_source_inert(3) [OF te sample_udp_packet sample_get(1) sample_fields(1) sample_get(2) b]]
    by blast
qed

text \<open>The policy that an IPv4 packet has met when it is forwarded.\<close>

definition policy_met :: "packet_in \<Rightarrow> proto_obj list \<Rightarrow> ipv4 \<Rightarrow> fw_state \<Rightarrow> bool" where
  "policy_met m pkt ip s \<longleftrightarrow>
     src ip \<notin> blocked_ips s \<and> (allowed_ips s = {} \<or> src ip \<in> allowed_ips s) \<and>
     (proto ip = 17 \<longrightarrow>
        (\<exists>u. get_udp pkt = Some u \<and> (int (udp_dst_port u), 17) \<notin> blocked_ports s)) \<and>
     (proto ip = 6 \<longrightarrow>
        (\<exists>h. get_tcp pkt = Some h \<and> (int (tcp_dst_port h), 6) \<notin> blocked_ports s \<and>
             check_tcp_flags h = ALLOWED \<and>
             \<not> snd (snd (view_step (dpi s) (pkt_fwd ip h) (extract_tcp_payload (pi_data m) ip h)
                        (view (pkt_key ip h) s)))))"

lemma ip_checks_allowed:
  assumes "fst (ip_checks clk m ip s) = ALLOWED"
  shows "src ip \<notin> blocked_ips s" "allowed_ips s = {} \<or> src ip \<in> allowed_ips s"
    and "blocked_ports (snd (ip_checks clk m ip s)) = blocked_ports s"
    and "dpi (snd (ip_checks clk m ip s)) = dpi s"
    and "trust_table (snd (ip_checks clk m ip s)) = trust_table s"
proof -
  have a: "check_ip_block (src ip) s = ALLOWED"
    using assms by (auto simp: ip_checks_def split: if_splits)
  show "src ip \<notin> blocked_ips s" "allowed_ips s = {} \<or> src ip \<in> allowed_ips s"
    using a by (auto simp: check_ip_block_allowed)
  have e: "ip_checks clk m ip s =
      (let (r, s') = check_ip_rate_limit clk (pi_dp m) (src ip) s in (r, s'))"
    by (simp add: ip_checks_def a Let_def case_prod_beta) (metis prod.collapse)
  show "blocked_ports (snd (ip_checks clk m ip s)) = blocked_ports s"
    "dpi (snd (ip_checks clk m ip s)) = dpi s"
    "trust_table (snd (ip_checks clk m ip s)) = trust_table s"
    by (simp_all add: e case_prod_beta check_ip_rate_limit_def Let_def add_flow_send)
qed

lemma tcp_handler_allowed:
  assumes "fst (tcp_packet_handler clk t ip raw s) = Inr ALLOWED"
  obtains h where "t = Some h" "(int (tcp_dst_port h), 6) \<notin> blocked_ports s"
    "check_tcp_flags h = ALLOWED"
    "\<not> snd (snd (view_step (dpi s) (pkt_fwd ip h) (extract_tcp_payload raw ip h) (view (pkt_key ip h) s)))"
proof (cases t)
  case (Some h)
  have p: "check_port_block 6 (tcp_dst_port h) s = ALLOWED"
    using assms by (auto simp: tcp_packet_handler_def Some Let_def case_prod_beta split: if_splits)
  have f: "check_tcp_flags h = ALLOWED"
    using assms by (auto simp: tcp_packet_handler_def Some Let_def case_prod_beta p split: if_splits)
  have d: "fst (check_dpi clk ip h (extract_tcp_payload raw ip h) s) = ALLOWED"
    using assms by (auto simp: tcp_packet_handler_def Some Let_def case_prod_beta p f split: if_splits)
  from that [OF Some] p f d show ?thesis
    by (simp add: check_port_block_allowed check_dpi_verdict check_dpi_view split: if_splits)
qed (use assms in \<open>simp add: tcp_packet_handler_def\<close>)

lemma ipv4_handler_allowed:
  assumes pk: "Packet ac oth (pi_data m) = Some (Inr pkt)"
    and v: "ipv4_packet_handler ac oth clk m (Some ip) s = Some v" and a: "fst v = Inr ALLOWED"
  shows "policy_met m pkt ip s"
proof -
  define s' where "s' = snd (ip_checks clk m ip s)"
  have e: "v = (if fst (ip_checks clk m ip s) \<noteq> ALLOWED then (Inr (fst (ip_checks clk m ip s)), s')
         else if proto ip = 1 then (Inr ALLOWED, s')
         else if proto ip = 6 then tcp_packet_handler clk (get_tcp pkt) ip (pi_data m) s'
         else if proto ip = 17 then udp_packet_handler (get_udp pkt) s'
         else (Inr ALLOWED, s'))"
    using v unfolding ipv4_handler_alt [OF pk] Let_def s'_def option.inject by (rule sym)
  have ok: "fst (ip_checks clk m ip s) = ALLOWED" using a by (simp add: e split: if_splits)
  note ch = ip_checks_allowed [OF ok, folded s'_def]
  have view: "view k s' = view k s" for k by (simp add: view_def entry_of_table [OF ch(5)])
  have udp: "\<exists>u. get_udp pkt = Some u \<and> (int (udp_dst_port u), 17) \<notin> blocked_ports s"
    if "proto ip = 17"
    using a that ok
    by (auto simp: e udp_packet_handler_def check_port_block_allowed ch(3) split: option.splits)
  have tcp: "\<exists>h. get_tcp pkt = Some h \<and> (int (tcp_dst_port h), 6) \<notin> blocked_ports s \<and>
             check_tcp_flags h = ALLOWED \<and>
             \<not> snd (snd (view_step (dpi s) (pkt_fwd ip h) (extract_tcp_payload (pi_data m) ip h)
                        (view (pkt_key ip h) s)))" if "proto ip = 6"
  proof -
    have "fst (tcp_packet_handler clk (get_tcp pkt) ip (pi_data m) s') = Inr ALLOWED"
      using a that ok by (simp add: e)
    then show ?thesis by (rule tcp_handler_allowed) (use ch view in auto)
  qed
  show ?thesis using ch(1,2) udp tcp by (simp add: policy_met_def)
qed

text \<open>
  C6.  An IPv4 packet that is counted as allowed has met the whole policy: its source is not
  blocked, its destination port is not blocked for its protocol, and if it is TCP its flags are
  no scan, its flow is not blocked and its payload brings no signature into the flow's buffer.
\<close>

theorem forwarded_packets_meet_policy:
  assumes "packet_in_handler ac oth clk m s = Some (t, e)"
    and "Packet ac oth (pi_data m) = Some (Inr pkt)"
    and "get_ethernet pkt = Some eth" "ethertype eth = ETH_TYPE_IP" "get_ipv4 pkt = Some ip"
    and "n_allowed (stats t) \<noteq> n_allowed (stats s)"
  shows "policy_met m pkt ip s"
proof -
  have nz: "\<not> (pi_data m = [] \<or> pi_msg_len m < pi_total_len m)"
    using assms(1,6) by (auto simp: packet_in_handler_def split: if_splits)
  then obtain v where v: "ipv4_packet_handler ac oth clk m (Some ip) s = Some v"
    and t: "(t, e) = conclude_verdict clk m pkt eth v"
    using assms(1-5) by (auto simp: packet_in_handler_def)
  obtain r s0 where rs: "v = (r, s0)" by (cases v)
  have "n_allowed (stats s0) = n_allowed (stats s)"
    using ipv4_contract [OF v] rs by (simp add: verdict_contract_def check_contract_def)
  then have "r = Inr ALLOWED"
    using assms(6) t rs conclude_counts [of clk m pkt eth _ s0]
    by (cases r) (auto simp: conclude_verdict_def prod_eq_iff split: if_splits)
  then show ?thesis using ipv4_handler_allowed [OF assms(2) v] rs by simp
qed

lemma sample_udp_counted:
  assumes "packet_in_handler sample_ac sample_oth sample_clk (frame_in udp_frame) init_state = Some (t, e)"
  shows "n_allowed (stats t) = 1"
proof -
  have ok: "ip_checks sample_clk (frame_in udp_frame) (sample_ip 17 30) init_state =
      (ALLOWED, init_state\<lparr>rate_tracker := (rate_tracker init_state)(''65.66.67.68'' \<mapsto> [0])\<rparr>)"
    by (simp add: ip_checks_def check_ip_block_def init_state_def check_ip_rate_limit_def Let_def
        sample_clk_def)
  have u: "get_udp [PEthernet sample_eth, PIpv4 (sample_ip 17 30), PUdp sample_udp, PRaw [9, 9]] = Some sample_udp"
    by (simp add: get_udp_def get_protocol_def get_protocols_def)
  obtain s' where "ipv4_packet_handler sample_ac sample_oth sample_clk (frame_in udp_frame)
      (Some (sample_ip 17 30)) init_state = Some (Inr ALLOWED, s')" "n_allowed (stats s') = 0"
    by (simp add: ipv4_handler_alt [OF sample_udp_packet] ok u udp_packet_handler_def check_port_block_def)
       (simp add: init_state_def init_stats_def)
  then show ?thesis
    using assms conclude_counts [of sample_clk "frame_in udp_frame"
        "[PEthernet sample_eth, PIpv4 (sample_ip 17 30), PUdp sample_udp, PRaw [9, 9]]" sample_eth ALLOWED s']
    by (simp add: packet_in_handler_def sample_udp_packet [simplified] sample_get udp_frame_nonzero
        conclude_verdict_def prod_eq_iff)
qed

theorem forwarded_packets_meet_policy_witness:
  "policy_met (frame_in udp_frame)
     [PEthernet sample_eth, PIpv4 (sample_ip 17 30), PUdp sample_udp, PRaw [9, 9]] (sample_ip 17 30) init_state"
proof -
  obtain t e where te: "packet_in_handler sample_ac sample_oth sample_clk (frame_in udp_frame) init_state = Some (t, e)"
    using sample_udp_returns by blast
  have "n_allowed (stats t) \<noteq> n_allowed (stats init_state)"
    using sample_udp_counted [OF te] by (simp add: init_state_def init_stats_def)
  then show ?thesis
    using forwarded_packets_meet_policy [OF te sample_udp_packet sample_get(1) sample_fields(1) sample_get(2)] by blast
qed

end
