(* ===== verification/Fw_Flow_Properties.thy ===== *)
theory Fw_Flow_Properties
  imports Fw_Properties
begin

text \<open>
  The properties of trusted flows and of deep packet inspection: when a flow is promoted to
  switch rules and to which, which rules outlive a port block, and which byte streams block a
  flow.
\<close>

section \<open>Promotion\<close>

text \<open>
  C7.  A run of packets of one TCP or UDP flow, in either direction and through any ports, makes
  the controller install the pair of forwarding rules exactly once: at the fifth packet, for
  that packet's switch and ports.
\<close>

theorem promoted_at_fifth_packet:
  assumes "\<forall>e \<in> set es. l4_proto e \<and> ev_key e = k" and "entry_of k s = new_entry"
  shows "sent (record_events clk es s) =
      sent s @ (if length es < TRUST_K then [] else trust_pair (es ! (TRUST_K - 1))) \<and>
     (installed (entry_of k (record_events clk es s)) \<longleftrightarrow> TRUST_K \<le> length es) \<and>
     count (entry_of k (record_events clk es s)) = min TRUST_K (length es)"
  using record_events_effect [OF assms] by blast

definition sample_ev :: l4_event where
  "sample_ev = \<lparr>ev_dp = 1, ev_ip = sample_ip 17 30, ev_src = 7, ev_dst = 53, ev_in = 2, ev_out = 3\<rparr>"

definition sample_reply :: l4_event where
  "sample_reply =
     \<lparr>ev_dp = 1, ev_ip = (sample_ip 17 30)\<lparr>src := ''69.70.71.72'', dst := ''65.66.67.68''\<rparr>,
      ev_src = 53, ev_dst = 7, ev_in = 3, ev_out = 2\<rparr>"

lemma sample_ev_key: "ev_key sample_reply = ev_key sample_ev"
  by (simp add: ev_key_def sample_ev_def sample_reply_def sample_ip_def
      trust_key_sym [of 17 "''65.66.67.68''"])

lemma sample_l4: "l4_proto sample_ev" "l4_proto sample_reply"
  by (simp_all add: l4_proto_def sample_ev_def sample_reply_def)

theorem promoted_at_fifth_packet_witness:
  "sent (record_events sample_clk [sample_ev, sample_ev, sample_reply, sample_ev, sample_reply, sample_ev]
     init_state) = trust_pair sample_reply"
proof -
  have "\<forall>e \<in> set [sample_ev, sample_ev, sample_reply, sample_ev, sample_reply, sample_ev].
      l4_proto e \<and> ev_key e = ev_key sample_ev"
    using sample_l4 sample_ev_key by simp
  from promoted_at_fifth_packet [OF this, of init_state sample_clk] show ?thesis
    by (simp add: entry_of_def init_state_def TRUST_K_def)
qed

text \<open>
  C8.  The rule for the reverse direction is installed whether or not the destination of the
  promoted packet is a blocked address: after the fifth packet towards a blocked host, a
  standing rule of priority 400, above the rule of priority 300 that sends IPv4 to the
  controller, forwards that host's packets without inspection.
\<close>

theorem reverse_rule_for_blocked_destination:
  assumes "l4_proto e" and "count (entry_of (ev_key e) s) + 1 = TRUST_K"
    and "\<not> installed (entry_of (ev_key e) s)"
    and "dst (ev_ip e) \<in> blocked_ips s"
  shows "\<exists>f \<in> set (flow_table (ev_dp e) (sent (record_event clk e s))).
     Ipv4_src (dst (ev_ip e)) \<in> set (fm_match f) \<and> fm_priority f = 400 \<and>
     fm_instructions f = [ApplyActions [Output (ev_in e) OFPCML_MAX]] \<and>
     dst (ev_ip e) \<in> blocked_ips (record_event clk e s)"
proof -
  have "sent (record_event clk e s) = sent s @ trust_pair e"
    using record_event_effect(1) [OF assms(1), of clk s] assms(2,3) by simp
  moreover have "same_config s (record_event clk e s)"
    using record_event_effect(3) [OF assms(1), of s clk s] by simp
  ultimately show ?thesis
    using assms(4)
    by (auto simp: flow_table_append trust_pair_def apply_msg_def apply_flow_mod_def trust_rule_def
        rev_match_def l4_match_def TRUST_FLOW_PRIORITY_def same_config_def)
qed

definition sample_warm :: fw_state where
  "sample_warm = put_entry (ev_key sample_ev) (new_entry\<lparr>count := 4\<rparr>)
     (init_state\<lparr>blocked_ips := {''69.70.71.72''}\<rparr>)"

theorem reverse_rule_for_blocked_destination_witness:
  "\<exists>f \<in> set (flow_table 1 (sent (record_event sample_clk sample_ev sample_warm))).
     Ipv4_src ''69.70.71.72'' \<in> set (fm_match f) \<and> fm_priority f = 400 \<and>
     ''69.70.71.72'' \<in> blocked_ips (record_event sample_clk sample_ev sample_warm)"
proof -
  have w: "entry_of (ev_key sample_ev) sample_warm = new_entry\<lparr>count := 4\<rparr>"
    by (simp add: sample_warm_def)
  have f: "dst (ev_ip sample_ev) = ''69.70.71.72''" "ev_dp sample_ev = 1"
    by (simp_all add: sample_ev_def)
  have b: "dst (ev_ip sample_ev) \<in> blocked_ips sample_warm"
    by (simp add: f sample_warm_def put_entry_def)
  have "count (entry_of (ev_key sample_ev) sample_warm) + 1 = TRUST_K"
    "\<not> installed (entry_of (ev_key sample_ev) sample_warm)"
    by (simp_all add: w new_entry_def TRUST_K_def)
  from reverse_rule_for_blocked_destination [OF sample_l4(1) this b, of sample_clk]
  show ?thesis unfolding f by blast
qed

text \<open>
  Blocking a port removes only entries towards the port: an entry that matches the port as
  a source, as the reverse rule of a trusted flow does, still stands on every switch afterwards.
\<close>

theorem port_block_keeps_reverse_rules:
  assumes "port_args p pn = Inr (port, pr)" and "add_blocked_port clk p pn s = (t, r)"
    and "f \<in> set (flow_table dp (sent s))" and "port_oxm port pr \<notin> set (fm_match f)"
  shows "f \<in> set (flow_table dp (sent t))"
proof -
  have pr: "pr = 6 \<or> pr = 17" using assms(1) by (simp add: port_args_iff)
  have st: "sent t = sent s @ flush_port_msgs port pr (datapaths s)"
    using assms(1,2) flush_flows_for_port_effect(1) [OF pr]
    by (auto simp: add_blocked_port_def Let_def)
  have "f \<in> set (fold (apply_msg dp) (flush_port_msgs port pr ds) tab)" if "f \<in> set tab" for ds tab
    using that
  proof (induction ds arbitrary: tab)
    case (Cons d ds)
    have "f \<in> set (apply_msg dp (d, FlowMod (delete_flows [Eth_type 0x0800, Ip_proto (nat pr), port_oxm port pr])) tab)"
      using Cons.prems assms(4) by (simp add: apply_msg_def apply_flow_mod_def flow_covers_def)
    from Cons.IH [OF this] show ?case by (simp add: flush_port_msgs_def)
  qed (simp add: flush_port_msgs_def)
  from this [OF assms(3)] show ?thesis by (simp add: st flow_table_append)
qed

theorem port_block_keeps_reverse_rules_witness:
  "\<exists>t r. add_blocked_port sample_clk ''80'' ''6''
       (init_state\<lparr>datapaths := [1], sent := [(1, FlowMod (trust_rule [Tcp_src 80] 2))]\<rparr>) = (t, r) \<and>
     trust_rule [Tcp_src 80] 2 \<in> set (flow_table 1 (sent t))"
proof -
  let ?s = "init_state\<lparr>datapaths := [1], sent := [(1, FlowMod (trust_rule [Tcp_src 80] 2))]\<rparr>"
  obtain t r where tr: "add_blocked_port sample_clk ''80'' ''6'' ?s = (t, r)" by fastforce
  have "trust_rule [Tcp_src 80] 2 \<in> set (flow_table 1 (sent ?s))"
    "port_oxm 80 6 \<notin> set (fm_match (trust_rule [Tcp_src 80] 2))"
    by (simp_all add: flow_table_def apply_msg_def apply_flow_mod_def trust_rule_def port_oxm_def)
  then show ?thesis using tr port_block_keeps_reverse_rules [OF sample_port_args tr] by blast
qed

section \<open>Deep packet inspection\<close>

text \<open>
  C9.  With the built-in patterns, a new TCP flow ends up blocked exactly when the first 8192
  bytes of one of its two directions contain a signature, however the bytes are cut into
  segments and whatever packets of other flows are interleaved.
\<close>

theorem dpi_blocks_exactly_signature_streams:
  assumes "dpi s = init_engine" and "dict_get (trust_table s) k = None"
  shows "blocked (entry_of k (dpi_packets clk pkts s)) \<longleftrightarrow>
     flagged init_engine (take MAX_BUFFER_BYTES (concat (dir_segments k True pkts))) \<or>
     flagged init_engine (take MAX_BUFFER_BYTES (concat (dir_segments k False pkts)))"
  using dpi_packets_scan [OF fresh_view [OF assms(2)], of clk pkts] assms(1)
    builtin_engine.scan_segmentation
  by (simp add: view_def init_engine_def)

lemma sample_flagged: "flagged init_engine (take MAX_BUFFER_BYTES (bytes_of ''union select''))"
  by code_simp

definition sample_segments :: "tcp_pkt list" where
  "sample_segments =
     [(sample_ip 6 42, sample_tcp, bytes_of ''uni''), (sample_ip 6 42, sample_tcp, bytes_of ''on select'')]"

lemma sample_dir_segments:
  "concat (dir_segments (pkt_key (sample_ip 6 42) sample_tcp) (pkt_fwd (sample_ip 6 42) sample_tcp) sample_segments) =
     bytes_of ''union select''"
  by (simp add: sample_segments_def bytes_of_def)

theorem dpi_blocks_exactly_signature_streams_witness:
  "blocked (entry_of (pkt_key (sample_ip 6 42) sample_tcp) (dpi_packets sample_clk sample_segments init_state))"
proof -
  have "dpi init_state = init_engine"
    "dict_get (trust_table init_state) (pkt_key (sample_ip 6 42) sample_tcp) = None"
    by (simp_all add: init_state_def)
  from dpi_blocks_exactly_signature_streams [OF this, of sample_clk sample_segments]
    sample_dir_segments sample_flagged
  show ?thesis by (cases "pkt_fwd (sample_ip 6 42) sample_tcp") simp_all
qed

text \<open>
  In every reachable state, whatever patterns the REST interface has added and removed, a
  new flow that carries a built-in signature in the first 8192 bytes of a direction ends up
  blocked.
\<close>

theorem builtin_signatures_always_block:
  assumes "fw.reachable env s" and "dict_get (trust_table s) k = None"
    and "flagged init_engine (take MAX_BUFFER_BYTES (concat (dir_segments k d pkts)))"
  shows "blocked (entry_of k (dpi_packets clk pkts s))"
proof -
  have wf: "engine_wf (dpi s)"
    using reachable_inv [OF assms(1)] by (simp add: fw_inv_def config_ok_def)
  have "engine.scan (dpi s) MAX_BUFFER_BYTES [] (dir_segments k d pkts)"
    using assms(3) builtin_engine.scan_segmentation scan_builtin_mono [OF wf]
    by (simp add: init_engine_def)
  then show ?thesis
    using dpi_packets_scan [OF fresh_view [OF assms(2)], of clk pkts]
    by (cases d) (simp_all add: view_def)
qed

theorem builtin_signatures_always_block_witness:
  "blocked (entry_of (pkt_key (sample_ip 6 42) sample_tcp) (dpi_packets sample_clk sample_segments init_state))"
proof -
  have r: "fw.reachable sample_env init_state" by (rule fw.reach_start) simp
  have n: "dict_get (trust_table init_state) (pkt_key (sample_ip 6 42) sample_tcp) = None"
    by (simp add: init_state_def)
  show ?thesis
    by (rule builtin_signatures_always_block [OF r n, where d = "pkt_fwd (sample_ip 6 42) sample_tcp"])
       (simp add: sample_dir_segments sample_flagged)
qed

text \<open>
  Once both buffers of a flow are full and clean, no later byte of the flow can block it,
  whatever the patterns: inspection stops at 8192 bytes per direction.
\<close>

theorem full_buffers_stay_clean:
  assumes "view k s = (a, b, False)"
    and "MAX_BUFFER_BYTES \<le> length a" "MAX_BUFFER_BYTES \<le> length b"
    and "\<not> flagged (dpi s) a" "\<not> flagged (dpi s) b"
  shows "\<not> blocked (entry_of k (dpi_packets clk pkts s))"
  using dpi_packets_scan [OF assms(1), of clk pkts] engine.scan_full_clean [OF assms(2,4)]
    engine.scan_full_clean [OF assms(3,5)]
  by (simp add: view_def)

text \<open>A flow with 8192 zero bytes in each direction: no signature starts with a zero byte.\<close>

definition dead :: "byte \<Rightarrow> byte rx \<Rightarrow> bool" where
  "dead c r \<longleftrightarrow> \<not> nullable r \<and> (case deriv c r of Zero \<Rightarrow> True | _ \<Rightarrow> False)"

lemma match_prefix_Zero [simp]: "\<not> match_prefix Zero s"
  by (induction s) simp_all

lemma dead_search: "dead c r \<Longrightarrow> \<not> search r (replicate n c)"
  by (induction n) (auto simp: dead_def split: rx.splits)

lemma builtin_dead:
  "dead 0 sql_injection_re" "dead 0 nop_sled_re" "dead 0 xss_re" "dead 0 path_traversal_re"
  "dead 0 cmd_injection_re" "dead 0 ftp_creds_re"
  by code_simp+

lemma zeros_clean: "\<not> flagged init_engine (replicate n 0)"
  using dead_search [OF builtin_dead(1)] dead_search [OF builtin_dead(2)] dead_search [OF builtin_dead(3)]
    dead_search [OF builtin_dead(4)] dead_search [OF builtin_dead(5)] dead_search [OF builtin_dead(6)]
  by (simp add: flagged_def inspect_matched init_engine_def BUILTIN_DPI_PATTERNS_def builtin_pattern_def
      fires_def)

definition sample_full :: fw_state where
  "sample_full = put_entry (pkt_key (sample_ip 6 42) sample_tcp)
     (new_entry\<lparr>buf_a := replicate 8192 0, buf_b := replicate 8192 0\<rparr>) init_state"

theorem full_buffers_stay_clean_witness:
  "\<not> blocked (entry_of (pkt_key (sample_ip 6 42) sample_tcp) (dpi_packets sample_clk sample_segments sample_full))"
proof -
  have v: "view (pkt_key (sample_ip 6 42) sample_tcp) sample_full = (replicate 8192 0, replicate 8192 0, False)"
    by (simp add: sample_full_def view_def new_entry_def)
  have d: "dpi sample_full = init_engine" by (simp add: sample_full_def init_state_def)
  show ?thesis
    by (rule full_buffers_stay_clean [OF v]) (simp_all add: d zeros_clean MAX_BUFFER_BYTES_def)
qed

section \<open>The pattern table\<close>

text \<open>
  In every reachable state each built-in pattern is in the table and a request to delete it
  is answered 403 and changes nothing.
\<close>

theorem builtin_patterns_are_permanent:
  assumes "fw.reachable env s" and "q \<in> set BUILTIN_DPI_PATTERNS"
  shows "q \<in> set (dpi s) \<and> (\<exists>r. del_dpi_pattern clk (pat_name q) s = (s, Inr r) \<and> status r = 403)"
proof -
  have wf: "engine_wf (dpi s)"
    using reachable_inv [OF assms(1)] by (simp add: fw_inv_def config_ok_def)
  then have "q \<in> set (dpi s)" using assms(2) by (auto simp: engine_wf_def)
  moreover obtain m where "remove_pattern (dpi s) (pat_name q) = Inl (ValueError m)"
    using remove_builtin [OF wf assms(2)] by blast
  ultimately show ?thesis by (simp add: del_dpi_pattern_def json_response_def)
qed

theorem builtin_patterns_are_permanent_witness:
  "\<exists>r. del_dpi_pattern sample_clk ''SQL_INJECTION'' init_state = (init_state, Inr r) \<and> status r = 403"
proof -
  have q: "hd BUILTIN_DPI_PATTERNS \<in> set BUILTIN_DPI_PATTERNS" "pat_name (hd BUILTIN_DPI_PATTERNS) = ''SQL_INJECTION''"
    by (simp_all add: BUILTIN_DPI_PATTERNS_def builtin_pattern_def)
  have r: "fw.reachable sample_env init_state" by (rule fw.reach_start) simp
  from builtin_patterns_are_permanent [OF r q(1), of sample_clk] show ?thesis by (simp add: q(2))
qed

lemma add_dpi_accepted:
  assumes "add_dpi_pattern rc clk b s = (t, Inr r)" and "status r = 200"
  obtains jn jr d p e' where "add_pattern rc (dpi s) jn jr d = Inr (p, e')"
    "t = fw_log clk ''info'' (''DPI pattern added: '' @ pat_name p) None None None
        (flush_all_trust_flows clk (s\<lparr>dpi := e'\<rparr>))"
    "body r = BPattern (pat_name p)"
proof (cases b)
  case (Some j)
  show ?thesis
  proof (cases "json_get j ''name'' (JStr [])")
    case n: (Inr n)
    show ?thesis
    proof (cases "json_get j ''pattern'' (JStr [])")
      case q: (Inr q)
      show ?thesis
      proof (cases "json_get j ''description'' (JStr [])")
        case d: (Inr d)
        show ?thesis
        proof (cases "add_pattern rc (dpi s) n q d")
          case (Inl e)
          with assms Some n q d show ?thesis
            by (cases e) (auto simp: add_dpi_pattern_def json_response_def)
        next
          case (Inr pe)
          obtain p e' where pe: "pe = (p, e')" by (cases pe)
          from that [OF Inr [unfolded pe]] assms Some n q d Inr pe show ?thesis
            by (auto simp: add_dpi_pattern_def json_response_def Let_def)
        qed
      qed (use assms Some n q in \<open>simp add: add_dpi_pattern_def\<close>)
    qed (use assms Some n in \<open>simp add: add_dpi_pattern_def\<close>)
  qed (use assms Some in \<open>simp add: add_dpi_pattern_def\<close>)
next
  case None
  with assms show ?thesis by (auto simp: add_dpi_pattern_def json_response_def)
qed

text \<open>
  Deleting a pattern right after adding it restores the pattern table, and both requests
  succeed; the trust table stays empty, so every flow is inspected again.
\<close>

theorem add_then_delete_pattern:
  assumes "add_dpi_pattern rc clk b s = (t, Inr r)" and "status r = 200"
  shows "\<exists>nm u q. del_dpi_pattern clk' nm t = (u, Inr q) \<and> body r = BPattern nm \<and> status q = 200 \<and>
     dpi u = dpi s \<and> trust_table u = []"
proof -
  from assms obtain jn jr d p e' where
    add: "add_pattern rc (dpi s) jn jr d = Inr (p, e')"
    and t: "t = fw_log clk ''info'' (''DPI pattern added: '' @ pat_name p) None None None
        (flush_all_trust_flows clk (s\<lparr>dpi := e'\<rparr>))"
    and r: "body r = BPattern (pat_name p)"
    by (rule add_dpi_accepted)
  have "dpi t = e'" "trust_table t = []"
    using flush_all_trust_flows_effect(4) [of "s\<lparr>dpi := e'\<rparr>" clk "s\<lparr>dpi := e'\<rparr>"]
    by (simp_all add: t same_config_def flush_all_trust_flows_effect(2))
  then show ?thesis
    using add_then_remove [OF add] r by (simp add: del_dpi_pattern_def json_response_def)
qed

theorem add_then_delete_pattern_witness:
  "\<exists>t r nm u q. add_dpi_pattern sample_rc sample_clk (Some sample_pattern) init_state = (t, Inr r) \<and>
     del_dpi_pattern sample_clk nm t = (u, Inr q) \<and> dpi u = dpi init_state"
proof -
  obtain t r where tr: "add_dpi_pattern sample_rc sample_clk (Some sample_pattern) init_state = (t, Inr r)"
    "status r = 200"
    using sample_add_pattern [of init_state sample_clk] by (auto simp: init_state_def)
  from add_then_delete_pattern [OF tr, of sample_clk] tr(1) show ?thesis by blast
qed

end
