(* ===== verification/Fw_Rate.thy ===== *)
theory Fw_Rate
  imports Fw_Checks
begin

text \<open>
  The rate limiter of \<open>_check_ip_rate_limit\<close> over a sequence of packets of one source: the
  deque that forgets old timestamps decides as a reference limiter that keeps the time of
  every accepted packet, and in no window does it accept more packets than the limit.
\<close>

section \<open>A run of the check\<close>

definition at_time :: "rat \<Rightarrow> clock" where
  "at_time t = \<lparr>now = t, hms = []\<rparr>"

fun rate_run :: "nat \<Rightarrow> string \<Rightarrow> rat list \<Rightarrow> fw_state \<Rightarrow> bool list" where
  "rate_run dp ip [] s = []"
| "rate_run dp ip (t # ts) s =
     (let (r, s') = check_ip_rate_limit (at_time t) dp ip s in (r = ALLOWED) # rate_run dp ip ts s')"

text \<open>The reference: \<open>hist\<close> holds the times of all accepted packets.\<close>

definition recent :: "rat \<Rightarrow> rat \<Rightarrow> rat list \<Rightarrow> rat list" where
  "recent w t hist = filter (\<lambda>x. t - x < w) hist"

definition accepts :: "int \<Rightarrow> rat \<Rightarrow> rat list \<Rightarrow> rat \<Rightarrow> bool" where
  "accepts limit w hist t \<longleftrightarrow> int (length (recent w t hist)) < limit"

fun ref_run :: "int \<Rightarrow> rat \<Rightarrow> rat list \<Rightarrow> rat list \<Rightarrow> bool list" where
  "ref_run limit w hist [] = []"
| "ref_run limit w hist (t # ts) =
     accepts limit w hist t #
     ref_run limit w (if accepts limit w hist t then hist @ [t] else hist) ts"

text \<open>The times of the accepted packets of a run.\<close>

definition accepted :: "rat list \<Rightarrow> bool list \<Rightarrow> rat list" where
  "accepted ts bs = map fst (filter snd (zip ts bs))"

lemma accepted_simps [simp]:
  "accepted [] bs = []" "accepted (t # ts) (b # bs) = (if b then [t] else []) @ accepted ts bs"
  by (simp_all add: accepted_def)

section \<open>The deque holds the recent part of the history\<close>

definition tracker :: "string \<Rightarrow> fw_state \<Rightarrow> rat list" where
  "tracker ip s = (case rate_tracker s ip of None \<Rightarrow> [] | Some d \<Rightarrow> d)"

definition tracks :: "rat \<Rightarrow> string \<Rightarrow> rat list \<Rightarrow> fw_state \<Rightarrow> bool" where
  "tracks t ip hist s \<longleftrightarrow> tracker_wf t hist \<and> tracker ip s = recent (rate_window s) t hist"

lemma expire_recent:
  assumes "tracks t0 ip hist s" and "t0 \<le> t"
  shows "expire t (rate_window s) (tracker ip s) = recent (rate_window s) t hist"
proof -
  have "expire t (rate_window s) (recent (rate_window s) t0 hist) =
      filter (\<lambda>x. t - x < rate_window s) (recent (rate_window s) t0 hist)"
    by (rule expire_sorted_iff) (use assms in \<open>simp add: tracks_def tracker_wf_def recent_def sorted_wrt_filter\<close>)
  also have "\<dots> = recent (rate_window s) t hist"
    using assms(2) by (auto simp: recent_def intro!: filter_cong)
  finally show ?thesis using assms(1) by (simp add: tracks_def)
qed

lemma check_tracks:
  fixes dp :: nat
  assumes tr: "tracks t0 ip hist s" and t: "t0 \<le> t" and w: "0 < rate_window s"
  defines "res \<equiv> check_ip_rate_limit (at_time t) dp ip s"
  shows "fst res = (if accepts (rate_limit s) (rate_window s) hist t then ALLOWED else RATE_LIMITED)"
    and "tracks t ip (if accepts (rate_limit s) (rate_window s) hist t then hist @ [t] else hist) (snd res)"
    and "rate_limit (snd res) = rate_limit s" and "rate_window (snd res) = rate_window s"
proof -
  note e = expire_recent [OF tr t, unfolded tracker_def]
  have wf: "tracker_wf t hist" using tr t tracker_wf_later by (auto simp: tracks_def)
  show "fst res = (if accepts (rate_limit s) (rate_window s) hist t then ALLOWED else RATE_LIMITED)"
    by (simp add: res_def check_ip_rate_limit_def at_time_def e Let_def accepts_def)
  show "tracks t ip (if accepts (rate_limit s) (rate_window s) hist t then hist @ [t] else hist) (snd res)"
    using wf tracker_wf_snoc [OF wf] w
    by (simp add: res_def check_ip_rate_limit_def at_time_def e Let_def accepts_def tracks_def
        tracker_def recent_def add_flow_send)
  show "rate_limit (snd res) = rate_limit s" "rate_window (snd res) = rate_window s"
    by (simp_all add: res_def check_ip_rate_limit_def Let_def add_flow_send)
qed

lemma rate_run_ref:
  assumes "tracks t0 ip hist s" and "sorted (t0 # ts)" and "0 < rate_window s"
  shows "rate_run dp ip ts s = ref_run (rate_limit s) (rate_window s) hist ts"
  using assms
proof (induction ts arbitrary: t0 hist s)
  case (Cons t ts)
  note c = check_tracks [OF Cons.prems(1) _ Cons.prems(3), of t dp]
  from Cons.prems(2) have t: "t0 \<le> t" "sorted (t # ts)" by simp_all
  from Cons.IH [OF c(2) [OF t(1)] t(2)] c(1,3,4) [OF t(1)] Cons.prems(3)
  show ?case by (simp add: Let_def case_prod_beta)
qed simp

section \<open>The bound\<close>

text \<open>Accepted packets in the window of width \<open>w\<close> that ends at \<open>t\<close>.\<close>

definition in_window :: "rat \<Rightarrow> rat \<Rightarrow> rat list \<Rightarrow> rat list" where
  "in_window w t hist = filter (\<lambda>x. t - w < x \<and> x \<le> t) hist"

definition bounded :: "int \<Rightarrow> rat \<Rightarrow> rat list \<Rightarrow> bool" where
  "bounded limit w hist \<longleftrightarrow> (\<forall>t. int (length (in_window w t hist)) \<le> max 0 limit)"

lemma bounded_snoc:
  assumes "bounded limit w hist" and "\<forall>x \<in> set hist. x \<le> t" and "accepts limit w hist t"
  shows "bounded limit w (hist @ [t])"
  unfolding bounded_def
proof
  fix u
  show "int (length (in_window w u (hist @ [t]))) \<le> max 0 limit"
  proof (cases "u - w < t \<and> t \<le> u")
    case True
    then have "in_window w u hist = filter (\<lambda>x. u - w < x \<and> x \<le> u) (recent w t hist)"
      unfolding in_window_def recent_def by (auto intro: filter_cong)
    then have "length (in_window w u hist) \<le> length (recent w t hist)" by simp
    then have "int (length (in_window w u hist)) + 1 \<le> limit" using assms(3) by (simp add: accepts_def)
    then show ?thesis using True by (simp add: in_window_def)
  next
    case False
    then have "in_window w u (hist @ [t]) = in_window w u hist" by (auto simp: in_window_def)
    then show ?thesis using assms(1) by (simp add: bounded_def)
  qed
qed

lemma ref_run_bounded:
  assumes "bounded limit w hist" and "sorted (hist @ ts)"
  shows "bounded limit w (hist @ accepted ts (ref_run limit w hist ts))"
  using assms
proof (induction ts arbitrary: hist)
  case (Cons t ts)
  show ?case
  proof (cases "accepts limit w hist t")
    case True
    have "\<forall>x \<in> set hist. x \<le> t" using Cons.prems(2) by (auto simp: sorted_append)
    from Cons.IH [OF bounded_snoc [OF Cons.prems(1) this True]] Cons.prems(2) True
    show ?thesis by simp
  next
    case False
    have "sorted (hist @ ts)" using Cons.prems(2) by (auto simp: sorted_append)
    from Cons.IH [OF Cons.prems(1) this] False show ?thesis by simp
  qed
qed simp

section \<open>Properties\<close>

lemma tracks_fresh: "rate_tracker s ip = None \<Longrightarrow> tracks t ip [] s"
  by (simp add: tracks_def tracker_wf_def tracker_def recent_def)

lemma rate_run_fresh:
  assumes "rate_tracker s ip = None" and "sorted ts" and "0 < rate_window s"
  shows "rate_run dp ip ts s = ref_run (rate_limit s) (rate_window s) [] ts"
proof (cases ts)
  case (Cons t us)
  then have "sorted (t # ts)" using assms(2) by simp
  from rate_run_ref [OF tracks_fresh [OF assms(1)] this assms(3)] show ?thesis .
qed simp

text \<open>
  C11.  For a new source and a positive window the rate limiter decides every packet of a run as
  the reference limiter that remembers all accepted packets.
\<close>

theorem rate_limiter_is_sliding_window:
  assumes "rate_tracker s ip = None" and "sorted ts" and "0 < rate_window s"
  shows "rate_run dp ip ts s = ref_run (rate_limit s) (rate_window s) [] ts"
  using rate_run_fresh [OF assms] .

theorem rate_limiter_is_sliding_window_witness:
  "rate_run 1 ''a'' [0, 1, 2, 20] (init_state\<lparr>rate_limit := 2, rate_window := 10\<rparr>) = [True, True, False, True]"
  using rate_limiter_is_sliding_window [of "init_state\<lparr>rate_limit := 2, rate_window := 10\<rparr>" "''a''" "[0, 1, 2, 20]" 1]
  by (simp add: init_state_def accepts_def recent_def)

text \<open>
  C12.  However the packets of a source arrive, in no window of the configured width are more
  packets accepted than the limit.
\<close>

theorem rate_limit_bounds_every_window:
  assumes "rate_tracker s ip = None" and "sorted ts" and "0 < rate_window s"
  shows "int (length (in_window (rate_window s) t (accepted ts (rate_run dp ip ts s)))) \<le> max 0 (rate_limit s)"
proof -
  have "bounded (rate_limit s) (rate_window s) []" by (simp add: bounded_def in_window_def)
  from ref_run_bounded [OF this, of ts] assms(2) show ?thesis
    by (simp add: rate_run_fresh [OF assms] bounded_def)
qed

theorem rate_limit_bounds_every_window_witness:
  "int (length (in_window 10 5 (accepted [0, 1, 2, 20]
     (rate_run 1 ''a'' [0, 1, 2, 20] (init_state\<lparr>rate_limit := 2, rate_window := 10\<rparr>))))) \<le> 2"
  using rate_limit_bounds_every_window
    [of "init_state\<lparr>rate_limit := 2, rate_window := 10\<rparr>" "''a''" "[0, 1, 2, 20]" 5 1]
  by (simp add: init_state_def)

text \<open>
   A window of zero seconds, which the REST interface accepts, disables the limiter: with a
  positive limit every packet is allowed, at any rate.
\<close>

theorem zero_window_disables_limit:
  assumes "rate_window s = 0" and "0 < rate_limit s" and "tracker_wf (now clk) (tracker ip s)"
  shows "fst (check_ip_rate_limit clk dp ip s) = ALLOWED"
proof -
  have "expire (now clk) 0 (tracker ip s) = []"
    using assms(3) by (auto simp: expire_dropWhile tracker_wf_def)
  then show ?thesis
    using assms(1,2) by (simp add: check_ip_rate_limit_def Let_def tracker_def)
qed

theorem zero_window_disables_limit_witness:
  "fst (check_ip_rate_limit (at_time 5) 1 ''a''
     (init_state\<lparr>rate_limit := 1, rate_window := 0, rate_tracker := (\<lambda>_. Some [5, 5, 5])\<rparr>)) = ALLOWED"
  by (rule zero_window_disables_limit) (simp_all add: tracker_def tracker_wf_def at_time_def)

end
