(* ===== verification/Codecs.thy ===== *)
theory Codecs
  imports Headers
begin

text \<open>
  Every header of \<open>Headers\<close> satisfies the codec contract on its well-formed values, and the
  IPv4 header that is sent passes the receiver's checksum test.
\<close>

section \<open>Reading back packed fields\<close>

lemma u16_pair [simp]:
  "n < 65536 \<Longrightarrow> unat (word_of_nat (n div 256) :: byte) * 256 + unat (word_of_nat n :: byte) = n"
  using u16_be16 [of n "be16 n" 0] by (simp add: u16_at_def be16_def)

lemma u16_low [simp]: "n div 256 * 256 + unat (word_of_nat n :: byte) = n"
  by (simp add: unat_byte)

lemma unat_small [simp]: "n < 256 \<Longrightarrow> unat (word_of_nat n :: byte) = n"
  by (simp add: unat_byte)

lemmas read_simps = u16_at_def u8_at_def be16_def slice_def

declare unsigned_of_nat [simp del]

lemma pack_all_Inr [simp]:
  "pack_all (pack_H n # fs) = (if n < 65536 then
      (case pack_all fs of Inl e \<Rightarrow> Inl e | Inr bs \<Rightarrow> Inr (be16 n @ bs)) else Inl StructError)"
  "pack_all (pack_B n # fs) = (if n < 256 then
      (case pack_all fs of Inl e \<Rightarrow> Inl e | Inr bs \<Rightarrow> Inr (word_of_nat n # bs)) else Inl StructError)"
  by (auto simp: pack_H_def pack_B_def split: sum.splits)

section \<open>Well-formed headers\<close>

definition ethernet_wf :: "addrconv \<Rightarrow> ethernet \<Rightarrow> bytes \<Rightarrow> bool" where
  "ethernet_wf ac h payload \<longleftrightarrow>
     (\<exists>d. mac_text_of ac (eth_dst h) d) \<and> (\<exists>s. mac_text_of ac (eth_src h) s) \<and>
     ethertype h < 65536 \<and> 46 \<le> length payload"

definition vlan_wf :: "vlan \<Rightarrow> bytes \<Rightarrow> bool" where
  "vlan_wf h payload \<longleftrightarrow> pcp h < 8 \<and> cfi h < 2 \<and> vid h < 4096 \<and> vlan_ethertype h < 65536"

definition arp_wf :: "addrconv \<Rightarrow> arp \<Rightarrow> bytes \<Rightarrow> bool" where
  "arp_wf ac h payload \<longleftrightarrow>
     hwtype h < 65536 \<and> arp_proto h < 65536 \<and> hlen h < 256 \<and> plen h < 256 \<and> opcode h < 65536 \<and>
     (\<exists>b. mac_text_of ac (src_mac h) b) \<and> (\<exists>b. ip_text_of ac (src_ip h) b) \<and>
     (\<exists>b. mac_text_of ac (dst_mac h) b) \<and> (\<exists>b. ip_text_of ac (dst_ip h) b)"

definition udp_wf :: "udp \<Rightarrow> bytes \<Rightarrow> bool" where
  "udp_wf h payload \<longleftrightarrow>
     udp_src_port h < 65536 \<and> udp_dst_port h < 65536 \<and> 0 < udp_csum h \<and> udp_csum h < 65536 \<and>
     udp_total_length h \<in> {0, 8 + length payload} \<and> 8 + length payload < 65536"

definition udp_norm :: "udp \<Rightarrow> bytes \<Rightarrow> udp" where
  "udp_norm h payload = h\<lparr>udp_total_length := 8 + length payload\<rparr>"

definition ipv4_wf :: "addrconv \<Rightarrow> ipv4 \<Rightarrow> bytes \<Rightarrow> bool" where
  "ipv4_wf ac h payload \<longleftrightarrow>
     version h < 16 \<and> 5 \<le> header_length h \<and> header_length h < 16 \<and> tos h < 256 \<and>
     total_length h \<in> {0, header_length h * 4 + length payload} \<and>
     header_length h * 4 + length payload < 65536 \<and>
     identification h < 65536 \<and> flags h < 8 \<and> offset h < 8192 \<and> ttl h < 256 \<and> proto h < 256 \<and>
     (\<exists>b. ip_text_of ac (src h) b) \<and> (\<exists>b. ip_text_of ac (dst h) b) \<and>
     length (opt_bytes h) = header_length h * 4 - 20 \<and> (option h = None \<longleftrightarrow> header_length h = 5)"

definition ipv4_norm :: "bool \<Rightarrow> addrconv \<Rightarrow> ipv4 \<Rightarrow> bytes \<Rightarrow> ipv4" where
  "ipv4_norm le ac h payload =
     (case ipv4_serialize le ac h payload of Inl e \<Rightarrow> h | Inr (b, h') \<Rightarrow> h')"

section \<open>Ethernet, 802.1Q, ARP, UDP\<close>

lemma ethernet_serialize_wf:
  assumes "ethernet_wf ac h payload"
  shows "\<exists>hdr. ethernet_serialize ac h payload = Inr (hdr, payload) \<and>
     ethernet_parser ac (hdr @ payload) = Inr (h, payload)"
proof -
  from assms obtain d s where "mac_text_of ac (eth_dst h) d" "mac_text_of ac (eth_src h) s"
    and "ethertype h < 65536" "46 \<le> length payload"
    by (auto simp: ethernet_wf_def)
  then show ?thesis
    by (cases h) (simp add: ethernet_serialize_def ethernet_parser_def mac_text_of_def read_simps
        nth_append)
qed

interpretation ethernet_codec: codec "ethernet_wf ac"
    "\<lambda>h p. map_sum id fst (ethernet_serialize ac h p)" "\<lambda>h p. h" "ethernet_parser ac" for ac
  by unfold_locales (use ethernet_serialize_wf in fastforce)+

lemma tci_fields:
  assumes "p < 8" and "c < 2" and "v < 4096"
  shows "push_bit 13 p OR push_bit 12 c OR v = p * 8192 + c * 4096 + (v :: nat)"
proof -
  have "push_bit 12 c OR v = c * 4096 + v" using or_disjoint [of v 12 c] assms(3) by simp
  moreover have "c * 4096 + v < 2 ^ 13" using assms by simp
  ultimately show ?thesis
    using or_disjoint [of "c * 4096 + v" 13 p] by (simp add: or.assoc)
qed

lemma tci_parts:
  assumes "p < 8" and "c < 2" and "v < (4096 :: nat)"
  defines "t \<equiv> p * 8192 + c * 4096 + v"
  shows "t < 65536" "t div 8192 = p" "t div 4096 mod 2 = c" "t mod 4096 = v"
proof -
  have lo: "c * 4096 + v < 8192" using assms by simp
  show "t < 65536" using assms by simp
  show "t div 8192 = p" using lo by (simp add: t_def add.assoc)
  have t: "t = (2 * p + c) * 4096 + v" by (simp add: t_def)
  show "t mod 4096 = v" using assms(3) by (simp only: t mod_mult_self3) simp
  have "t div 4096 = 2 * p + c" using assms(3) by (simp only: t) simp
  then show "t div 4096 mod 2 = c" using assms(2) by simp
qed

lemma vlan_parser_bytes:
  "\<lbrakk>t < 65536; e < 65536\<rbrakk> \<Longrightarrow> vlan_parser (be16 t @ be16 e @ payload) =
     Inr (\<lparr>pcp = t div 8192, cfi = t div 4096 mod 2, vid = t mod 4096, vlan_ethertype = e\<rparr>, payload)"
  by (simp add: vlan_parser_def u16_at_def be16_def and_masks drop_bit_eq_div)

lemma vlan_serialize_wf:
  assumes "vlan_wf h payload"
  shows "\<exists>hdr. vlan_serialize h = Inr hdr \<and> vlan_parser (hdr @ payload) = Inr (h, payload)"
proof -
  from assms have b: "pcp h < 8" "cfi h < 2" "vid h < 4096" "vlan_ethertype h < 65536"
    by (auto simp: vlan_wf_def)
  let ?t = "pcp h * 8192 + cfi h * 4096 + vid h"
  have "?t < 65536" "?t div 8192 = pcp h" "?t div 4096 mod 2 = cfi h" "?t mod 4096 = vid h"
    using tci_parts [OF b(1-3)] by simp_all
  moreover have "vlan_serialize h = Inr (be16 ?t @ be16 (vlan_ethertype h))"
    using b calculation(1) by (simp add: vlan_serialize_def tci_fields)
  ultimately show ?thesis using b(4) by (simp add: vlan_parser_bytes)
qed

interpretation vlan_codec: codec vlan_wf "\<lambda>h p. vlan_serialize h" "\<lambda>h p. h" vlan_parser
  by unfold_locales (use vlan_serialize_wf in fastforce)+

lemma arp_serialize_wf:
  assumes "arp_wf ac h payload"
  shows "\<exists>hdr. arp_serialize ac h = Inr hdr \<and> arp_parser ac (hdr @ payload) = Inr (h, payload)"
proof -
  from assms obtain sm si dm di where
    "mac_text_of ac (src_mac h) sm" "ip_text_of ac (src_ip h) si"
    "mac_text_of ac (dst_mac h) dm" "ip_text_of ac (dst_ip h) di"
    and "hwtype h < 65536" "arp_proto h < 65536" "hlen h < 256" "plen h < 256" "opcode h < 65536"
    by (auto simp: arp_wf_def)
  then show ?thesis
    by (cases h) (simp add: arp_serialize_def arp_parser_def mac_text_of_def ip_text_of_def read_simps
        nth_append)
qed

interpretation arp_codec: codec "arp_wf ac" "\<lambda>h p. arp_serialize ac h" "\<lambda>h p. h" "arp_parser ac" for ac
  by unfold_locales (use arp_serialize_wf in fastforce)+

lemma udp_pack_parser:
  assumes "udp_src_port h < 65536" "udp_dst_port h < 65536" "udp_total_length h < 65536"
    "udp_csum h < 65536"
  shows "\<exists>hdr. udp_pack h = Inr hdr \<and> length hdr = 8 \<and>
     udp_parser (hdr @ payload) = Inr (h, slice 8 (udp_total_length h) (hdr @ payload))"
  using assms by (cases h) (simp add: udp_pack_def udp_parser_def u16_at_def be16_def)

lemma slice_append_payload: "length hdr = n \<Longrightarrow> slice n (n + length payload) (hdr @ payload) = payload"
  by (simp add: slice_def)

lemma udp_serialize_wf:
  assumes "udp_wf h payload"
  shows "\<exists>hdr. udp_serialize le ac h payload prev = Inr (hdr, udp_norm h payload) \<and>
     udp_parser (hdr @ payload) = Inr (udp_norm h payload, payload)"
proof -
  from assms have b: "udp_src_port h < 65536" "udp_dst_port h < 65536" "0 < udp_csum h"
    "udp_csum h < 65536" "8 + length payload < 65536"
    and tl: "udp_total_length h = 0 \<or> udp_total_length h = 8 + length payload"
    by (auto simp: udp_wf_def)
  let ?h = "udp_norm h payload"
  have norm: "(if udp_total_length h = 0 then h\<lparr>udp_total_length := 8 + length payload\<rparr> else h) = ?h"
    using tl by (auto simp: udp_norm_def)
  obtain hdr where hdr: "udp_pack ?h = Inr hdr" "length hdr = 8"
    "udp_parser (hdr @ payload) = Inr (?h, slice 8 (udp_total_length ?h) (hdr @ payload))"
    using udp_pack_parser [of ?h payload] b by (auto simp: udp_norm_def)
  then have "udp_parser (hdr @ payload) = Inr (?h, payload)"
    by (simp add: slice_append_payload udp_norm_def)
  moreover have "udp_serialize le ac h payload prev = Inr (hdr, ?h)"
    using hdr(1) b(3) by (simp add: udp_serialize_def norm) (simp add: udp_norm_def)
  ultimately show ?thesis by blast
qed

interpretation udp_codec: codec udp_wf
    "\<lambda>h p. map_sum id fst (udp_serialize le ac h p prev)" udp_norm udp_parser for le ac prev
  by unfold_locales (metis udp_serialize_wf map_sum.simps(2) fst_conv sum.inject(2))+

section \<open>IPv4\<close>

definition ipv4_bytes :: "nat \<Rightarrow> nat \<Rightarrow> nat \<Rightarrow> nat \<Rightarrow> nat \<Rightarrow> nat \<Rightarrow> nat \<Rightarrow> nat \<Rightarrow> bytes \<Rightarrow> bytes" where
  "ipv4_bytes b0 b1 tlen i fo b8 b9 c rest =
     word_of_nat b0 # word_of_nat b1 # be16 tlen @ be16 i @ be16 fo @
     word_of_nat b8 # word_of_nat b9 # be16 c @ rest"

lemma ipv4_parser_bytes:
  assumes "b0 < 256" "b1 < 256" "b8 < 256" "b9 < 256"
    and "tlen < 65536" "i < 65536" "fo < 65536" "c < 65536"
    and "length s = 4" "length d = 4"
  shows "ipv4_parser ac (ipv4_bytes b0 b1 tlen i fo b8 b9 c (s @ d @ rest)) =
     Inr (\<lparr>version = b0 div 16, header_length = b0 mod 16, tos = b1, total_length = tlen,
           identification = i, flags = fo div 8192, offset = fo mod 8192, ttl = b8, proto = b9,
           csum = c, src = ip_to_text ac s, dst = ip_to_text ac d,
           option = (if b0 mod 16 * 4 > 20 then Some (take (b0 mod 16 * 4 - 20) rest) else None)\<rparr>,
          slice (b0 mod 16 * 4) tlen (ipv4_bytes b0 b1 tlen i fo b8 b9 c (s @ d @ rest)))"
proof -
  let ?b = "ipv4_bytes b0 b1 tlen i fo b8 b9 c (s @ d @ rest)"
  have rd: "u16_at ?b 2 = tlen" "u16_at ?b 4 = i" "u16_at ?b 6 = fo" "u16_at ?b 10 = c"
    "u8_at ?b 0 = b0" "u8_at ?b 1 = b1" "u8_at ?b 8 = b8" "u8_at ?b 9 = b9"
    using assms by (simp_all add: ipv4_bytes_def read_simps)
  have sl: "slice 12 16 ?b = s" "slice 16 20 ?b = d"
    using assms by (simp_all add: ipv4_bytes_def slice_def be16_def)
  have op: "20 < n \<Longrightarrow> slice 20 n ?b = take (n - 20) rest" for n
    using assms by (simp add: ipv4_bytes_def slice_def drop_take be16_def)
  have "20 \<le> length ?b" using assms by (simp add: ipv4_bytes_def)
  then show ?thesis
    unfolding ipv4_parser_def Let_def rd sl and_masks
    by (simp add: op drop_bit_eq_div)
qed

lemma nibbles: "hl < 16 \<Longrightarrow> push_bit 4 v OR hl = v * 16 + (hl :: nat)"
  using or_disjoint [of hl 4 v] by simp

lemma flag_bits: "off < 8192 \<Longrightarrow> push_bit 13 fl OR off = fl * 8192 + (off :: nat)"
  using or_disjoint [of off 13 fl] by simp

text \<open>What \<open>serialize\<close> produces for a well-formed header.\<close>

definition ipv4_front :: "ipv4 \<Rightarrow> bytes \<Rightarrow> nat \<Rightarrow> bytes \<Rightarrow> bytes" where
  "ipv4_front h payload c rest =
     ipv4_bytes (version h * 16 + header_length h) (tos h) (header_length h * 4 + length payload)
       (identification h) (flags h * 8192 + offset h) (ttl h) (proto h) c rest"

lemma ipv4_serialize_bytes:
  assumes "ipv4_wf ac h payload"
  obtains s d c where "ip_text_of ac (src h) s" "ip_text_of ac (dst h) d"
    "c = checksum le (ipv4_front h payload 0 (s @ d @ opt_bytes h))"
    "ipv4_serialize le ac h payload =
       Inr (ipv4_front h payload c (s @ d @ opt_bytes h),
            h\<lparr>total_length := header_length h * 4 + length payload, csum := c\<rparr>)"
proof -
  from assms obtain s d where s: "ip_text_of ac (src h) s" and d: "ip_text_of ac (dst h) d"
    by (auto simp: ipv4_wf_def)
  have tl: "ipv4_total_length h payload = header_length h * 4 + length payload"
    using assms by (auto simp: ipv4_wf_def ipv4_total_length_def)
  let ?c = "checksum le (ipv4_front h payload 0 (s @ d @ opt_bytes h))"
  have bounds: "version h * 16 + header_length h < 256" "flags h * 8192 + offset h < 65536"
    using assms by (simp_all add: ipv4_wf_def)
  have "be16 0 = [0, 0]" by (simp add: be16_def)
  then have "ipv4_serialize le ac h payload =
       Inr (ipv4_front h payload ?c (s @ d @ opt_bytes h),
            h\<lparr>total_length := header_length h * 4 + length payload, csum := ?c\<rparr>)"
    using assms s d bounds
    by (simp add: ipv4_serialize_def ipv4_fixed_def tl nibbles flag_bits ipv4_wf_def ip_text_of_def
        ipv4_front_def ipv4_bytes_def Let_def)
  with s d that show thesis by blast
qed

lemma ipv4_roundtrip:
  assumes "ipv4_wf ac h payload"
  shows "\<exists>hdr. ipv4_serialize le ac h payload = Inr (hdr, ipv4_norm le ac h payload) \<and>
     ipv4_parser ac (hdr @ payload) = Inr (ipv4_norm le ac h payload, payload)"
proof -
  obtain s d c where s: "ip_text_of ac (src h) s" and d: "ip_text_of ac (dst h) d"
    and ck: "c = checksum le (ipv4_front h payload 0 (s @ d @ opt_bytes h))"
    and ser: "ipv4_serialize le ac h payload =
       Inr (ipv4_front h payload c (s @ d @ opt_bytes h),
            h\<lparr>total_length := header_length h * 4 + length payload, csum := c\<rparr>)"
    by (rule ipv4_serialize_bytes [OF assms])
  have wf: "version h < 16" "header_length h < 16" "5 \<le> header_length h" "tos h < 256"
    "flags h < 8" "offset h < 8192" "ttl h < 256" "proto h < 256" "identification h < 65536"
    "header_length h * 4 + length payload < 65536" "c < 65536"
    "length (opt_bytes h) = header_length h * 4 - 20" "option h = None \<longleftrightarrow> header_length h = 5"
    using assms by (auto simp: ipv4_wf_def ck checksum_bound)
  let ?hdr = "ipv4_front h payload c (s @ d @ opt_bytes h)"
  have app: "?hdr @ payload = ipv4_front h payload c (s @ d @ opt_bytes h @ payload)"
    by (simp add: ipv4_front_def ipv4_bytes_def)
  have len: "length ?hdr = header_length h * 4"
    using s d wf by (simp add: ipv4_front_def ipv4_bytes_def ip_text_of_def)
  have pay: "slice (header_length h * 4) (header_length h * 4 + length payload) (?hdr @ payload) = payload"
    by (rule slice_append_payload [OF len])
  have opt: "(if header_length h * 4 > 20
      then Some (take (header_length h * 4 - 20) (opt_bytes h @ payload)) else None) = option h"
    using wf by (cases "option h") (auto simp: opt_bytes_def)
  have "ipv4_parser ac (?hdr @ payload) =
      Inr (h\<lparr>total_length := header_length h * 4 + length payload, csum := c\<rparr>, payload)"
    unfolding app unfolding ipv4_front_def
    using wf s d opt pay [unfolded app, unfolded ipv4_front_def]
    by (subst ipv4_parser_bytes) (auto simp: ip_text_of_def)
  then show ?thesis by (simp add: ser ipv4_norm_def)
qed

interpretation ipv4_codec: codec "ipv4_wf ac"
    "\<lambda>h p. map_sum id fst (ipv4_serialize le ac h p)" "ipv4_norm le ac" "ipv4_parser ac" for le ac
  by unfold_locales (metis ipv4_roundtrip map_sum.simps(2) fst_conv sum.inject(2))+

text \<open>A receiver that sums the whole header gets zero.\<close>

lemma ipv4_header_verifies:
  assumes "ipv4_wf ac h payload" and "ipv4_serialize le ac h payload = Inr (hdr, h')"
  shows "checksum le hdr = 0"
proof -
  obtain s d c where ck: "c = checksum le (ipv4_front h payload 0 (s @ d @ opt_bytes h))"
    and s: "ip_text_of ac (src h) s" and d: "ip_text_of ac (dst h) d"
    and ser: "ipv4_serialize le ac h payload =
       Inr (ipv4_front h payload c (s @ d @ opt_bytes h),
            h\<lparr>total_length := header_length h * 4 + length payload, csum := c\<rparr>)"
    by (rule ipv4_serialize_bytes [OF assms(1)])
  define f where "f = take 10 (ipv4_front h payload 0 [])"
  have split: "ipv4_front h payload n r = f @ be16 n @ r" for n r
    by (simp add: f_def ipv4_front_def ipv4_bytes_def be16_def)
  have "length f = 10" by (simp add: f_def ipv4_front_def ipv4_bytes_def)
  moreover have "fits (f @ [0, 0] @ (s @ d @ opt_bytes h))"
    using assms(1) s d calculation by (auto simp: fits_def ipv4_wf_def ip_text_of_def)
  moreover have "be16 0 = [0, 0]" by (simp add: be16_def)
  ultimately show ?thesis
    using checksum_insert [of f "s @ d @ opt_bytes h" le] assms(2) ser ck
    by (simp add: split)
qed

end
