(* ===== verification/Wire.thy ===== *)
theory Wire
  imports Codecs
begin

text \<open>
  Reading packed fields back at an offset of a longer buffer, and the 64-bit fields: the
  lemmas that the round trips of TCP options, match fields, OpenFlow messages and bridge
  protocol data units share.
\<close>

section \<open>64-bit fields\<close>

definition be64 :: "nat \<Rightarrow> bytes" where
  "be64 n = be32 (n div 4294967296) @ be32 (n mod 4294967296)"

definition u64_at :: "bytes \<Rightarrow> nat \<Rightarrow> nat" where
  "u64_at b i = u32_at b i * 4294967296 + u32_at b (i + 4)"

definition pack_Q :: "nat \<Rightarrow> bytes res" where
  "pack_Q n = (if n < 18446744073709551616 then Inr (be64 n) else Inl StructError)"

lemma u8_at_append: "length pre = k \<Longrightarrow> u8_at (pre @ b) k = u8_at b 0"
  by (auto simp: u8_at_def nth_append)

lemma u8_at_byte [simp]: "n < 256 \<Longrightarrow> u8_at (word_of_nat n # b) 0 = n"
  by (simp add: u8_at_def)

lemma u16_at_be16: "n < 65536 \<Longrightarrow> u16_at (be16 n @ rest) 0 = n"
  by (simp add: u16_at_def be16_def)

lemma u16_at_append: "length pre = k \<Longrightarrow> u16_at (pre @ b) k = u16_at b 0"
  by (auto simp: u16_at_def nth_append)

lemma u32_at_be32: "n < 4294967296 \<Longrightarrow> u32_at (be32 n @ rest) 0 = n"
  by (rule u32_be32) (simp_all add: be32_def)

lemma u32_at_append: "length a = i \<Longrightarrow> u32_at (a @ b) i = u32_at b 0"
  by (simp add: u32_at_def u16_at_def nth_append numeral_2_eq_2 numeral_3_eq_3)

lemma be64_length [simp]: "length (be64 n) = 8"
  by (simp add: be64_def)

lemma u64_at_be64:
  assumes "n < 18446744073709551616"
  shows "u64_at (be64 n @ rest) 0 = n"
proof -
  have "n div 4294967296 < 4294967296" using assms by (simp add: less_mult_imp_div_less)
  then show ?thesis
    by (simp add: u64_at_def be64_def u32_at_be32 u32_at_append)
qed

lemma u64_at_append: "length pre = k \<Longrightarrow> u64_at (pre @ b) k = u64_at b 0"
  using u32_at_append [of pre k b] u32_at_append [of "pre @ take 4 b" "k + 4" "drop 4 b"]
  by (cases "4 \<le> length b") (auto simp: u64_at_def u32_at_def u16_at_def nth_append)

lemma pack_all_I [simp]:
  "pack_all (pack_I n # fs) = (if n < 4294967296 then
      (case pack_all fs of Inl e \<Rightarrow> Inl e | Inr bs \<Rightarrow> Inr (be32 n @ bs)) else Inl StructError)"
  by (auto simp: pack_I_def split: sum.splits)

lemma pack_Q_Inr [simp]:
  "pack_all (pack_Q n # fs) = (if n < 18446744073709551616 then
      (case pack_all fs of Inl e \<Rightarrow> Inl e | Inr bs \<Rightarrow> Inr (be64 n @ bs)) else Inl StructError)"
  by (auto simp: pack_Q_def split: sum.splits)

section \<open>Reading packed fields at an offset\<close>

lemma read_behind:
  assumes "length pre \<le> k"
  shows "u8_at (pre @ b) k = u8_at b (k - length pre)"
    and "u16_at (pre @ b) k = u16_at b (k - length pre)"
    and "u32_at (pre @ b) k = u32_at b (k - length pre)"
    and "u64_at (pre @ b) k = u64_at b (k - length pre)"
proof -
  have u16: "u16_at (pre @ b) n = u16_at b (n - length pre)" if "length pre \<le> n" for n
    using that by (simp add: u16_at_def nth_append Suc_diff_le)
  then have u32: "u32_at (pre @ b) n = u32_at b (n - length pre)" if "length pre \<le> n" for n
    using that by (simp add: u32_at_def Suc_diff_le)
  show "u8_at (pre @ b) k = u8_at b (k - length pre)" using assms by (simp add: u8_at_def nth_append)
  show "u16_at (pre @ b) k = u16_at b (k - length pre)" using assms by (rule u16)
  show "u32_at (pre @ b) k = u32_at b (k - length pre)" using assms by (rule u32)
  show "u64_at (pre @ b) k = u64_at b (k - length pre)" using assms by (simp add: u64_at_def u32)
qed

lemma read_behind_Cons:
  "0 < k \<Longrightarrow> u8_at (x # b) k = u8_at b (k - 1)"
  "0 < k \<Longrightarrow> u16_at (x # b) k = u16_at b (k - 1)"
  "0 < k \<Longrightarrow> u32_at (x # b) k = u32_at b (k - 1)"
  "0 < k \<Longrightarrow> u64_at (x # b) k = u64_at b (k - 1)"
  using read_behind [of "[x]" k b] by simp_all

lemma slice_behind: "length pre = k \<Longrightarrow> slice (k + i) (k + j) (pre @ b) = slice i j b"
  by (simp add: slice_def take_drop drop_append)

lemmas read_fields = read_behind read_behind_Cons u16_at_be16 u32_at_be32 u64_at_be64 u8_at_byte

end
