(* ===== verification/Tcp_Props.thy ===== *)
theory Tcp_Props
  imports Tcp Wire
begin

text \<open>
  When the option loop of \<open>tcp.parser\<close> returns, that it reads back what \<open>serialize\<close> wrote,
  and the round trip of the whole header.
\<close>

section \<open>Termination of the option loop\<close>

text \<open>
  An option of length zero is parsed without consuming anything; the loop then sees the same
  buffer for ever.
\<close>

function hangs :: "bytes \<Rightarrow> bool" where
  "hangs buf =
     (case option_parser buf of
        Inl e \<Rightarrow> False
      | Inr (opt, rest) \<Rightarrow> if length rest < length buf then hangs rest else buf \<noteq> [])"
  by pat_completeness auto
termination
  by (relation "measure length") auto

declare hangs.simps [simp del]

lemma option_parser_rest: "option_parser buf = Inr (opt, rest) \<Longrightarrow> \<exists>n. rest = drop n buf"
  by (auto simp: option_parser_def Let_def split: if_splits sum.splits)

lemma option_parser_no_progress:
  "option_parser buf = Inr (opt, rest) \<Longrightarrow> \<not> length rest < length buf \<Longrightarrow> rest = buf"
proof -
  assume "option_parser buf = Inr (opt, rest)" and l: "\<not> length rest < length buf"
  then obtain n where n: "rest = drop n buf" using option_parser_rest by blast
  with l show "rest = buf" by (cases "n = 0"; cases "buf = []") auto
qed

lemma hangs_Nil [simp]: "\<not> hangs []"
  by (simp add: hangs.simps option_parser_def)

lemma options_loop_returns:
  assumes "options_loop buf acc = Some r"
  shows "\<not> hangs buf"
proof (rule options_loop.raw_induct [where P = "\<lambda>buf acc r. \<not> hangs buf", OF _ assms])
  fix f buf acc r
  assume IH: "\<And>buf acc r. f buf acc = Some r \<Longrightarrow> \<not> hangs buf"
    and eq: "(if buf = [] then Some (Inr acc)
       else case option_parser buf of Inl e \<Rightarrow> Some (Inl e)
          | Inr (opt, rest) \<Rightarrow> f rest (acc @ [opt])) = Some r"
  show "\<not> hangs buf"
  proof (cases "option_parser buf")
    case (Inl e)
    then show ?thesis by (simp add: hangs.simps)
  next
    case (Inr p)
    obtain opt rest where p: "p = (opt, rest)" by (cases p)
    show ?thesis
    proof (cases "buf = []")
      case False
      with eq Inr p have "\<not> hangs rest" using IH by auto
      with Inr p option_parser_no_progress [of buf opt rest] show ?thesis
        by (cases "length rest < length buf") (auto simp: hangs.simps [of buf])
    qed simp
  qed
qed

lemma options_loop_terminates: "\<not> hangs buf \<Longrightarrow> \<exists>r. options_loop buf acc = Some r"
proof (induction buf arbitrary: acc rule: length_induct)
  case (1 buf)
  show ?case
  proof (cases "buf = [] \<or> (\<exists>e. option_parser buf = Inl e)")
    case True
    then show ?thesis by (auto simp: options_loop.simps [of buf])
  next
    case False
    then obtain opt rest where p: "option_parser buf = Inr (opt, rest)" and ne: "buf \<noteq> []"
      by (cases "option_parser buf") auto
    with "1.prems" have l: "length rest < length buf" and "\<not> hangs rest"
      by (auto simp: hangs.simps [of buf] split: if_splits)
    with "1.IH" obtain r where "options_loop rest (acc @ [opt]) = Some r" by blast
    with p ne show ?thesis by (simp add: options_loop.simps [of buf])
  qed
qed

lemma options_loop_None_iff: "options_loop buf acc = None \<longleftrightarrow> hangs buf"
  using options_loop_returns options_loop_terminates by (metis not_None_eq)

lemma option_parser_errors: "option_parser buf = Inl e \<Longrightarrow> e = StructError"
proof -
  have sb: "sack_blocks b = Inl e \<Longrightarrow> e = StructError" for b
  proof (induction b rule: sack_blocks.induct)
    case (1 b)
    then show ?case
      by (auto simp: sack_blocks.simps [of b] split: if_splits sum.splits)
  qed
  show "option_parser buf = Inl e \<Longrightarrow> e = StructError"
    by (auto simp: option_parser_def Let_def split: if_splits sum.splits dest: sb)
qed

lemma options_loop_errors: "options_loop buf acc = Some (Inl e) \<Longrightarrow> e = StructError"
proof -
  assume ret: "options_loop buf acc = Some (Inl e)"
  have "\<forall>e. r = Inl e \<longrightarrow> e = StructError" if "options_loop buf acc = Some r" for r
  proof (rule options_loop.raw_induct [where P = "\<lambda>buf acc r. \<forall>e. r = Inl e \<longrightarrow> e = StructError",
        OF _ that])
    fix f buf acc r
    assume IH: "\<And>buf acc r. f buf acc = Some r \<Longrightarrow> \<forall>e. r = Inl e \<longrightarrow> e = StructError"
      and eq: "(if buf = [] then Some (Inr acc)
         else case option_parser buf of Inl e \<Rightarrow> Some (Inl e)
            | Inr (opt, rest) \<Rightarrow> f rest (acc @ [opt])) = Some r"
    show "\<forall>e. r = Inl e \<longrightarrow> e = StructError"
    proof (cases "buf = [] \<or> (\<exists>e. option_parser buf = Inl e)")
      case True
      with eq show ?thesis by (cases "buf = []") (auto dest: option_parser_errors)
    next
      case False
      then obtain opt rest where "option_parser buf = Inr (opt, rest)" "buf \<noteq> []"
        by (cases "option_parser buf") auto
      with eq have "f rest (acc @ [opt]) = Some r" by simp
      then show ?thesis by (rule IH)
    qed
  qed
  with ret show "e = StructError" by blast
qed

text \<open>The whole parser: it returns except on a header whose options hang, and then raises only
  on a buffer shorter than the fixed header.\<close>

lemma tcp_parser_None_iff:
  "tcp_parser buf = None \<longleftrightarrow>
     20 \<le> length buf \<and> 20 < drop_bit 4 (u8_at buf 12) * 4 \<and>
     hangs (slice 20 (drop_bit 4 (u8_at buf 12) * 4) buf)"
  by (auto simp: tcp_parser_def Let_def ret_def raise_def
      split: option.splits sum.splits py_exn.splits dest: options_loop_errors
      simp flip: options_loop_None_iff [of _ "[]"])

lemma tcp_parser_raises: "tcp_parser buf = raise e \<Longrightarrow> e = StructError \<and> length buf < 20"
  by (auto simp: tcp_parser_def Let_def ret_def raise_def
      split: if_splits option.splits sum.splits py_exn.splits dest: options_loop_errors)

section \<open>Options are read back\<close>

definition sack_ok :: "(nat \<times> nat) list \<Rightarrow> bool" where
  "sack_ok bs \<longleftrightarrow> (\<forall>(l, r) \<in> set bs. l < 2 ^ 32 \<and> r < 2 ^ 32) \<and> length bs < 31"

fun option_wf :: "tcp_option \<Rightarrow> bool" where
  "option_wf EndOfOptionList = True"
| "option_wf NoOperation = True"
| "option_wf (MaximumSegmentSize m) = (m < 65536)"
| "option_wf (WindowScale s) = (s < 256)"
| "option_wf SACKPermitted = True"
| "option_wf (SACK bs n) = sack_ok bs"
| "option_wf (Timestamps v e) = (v < 2 ^ 32 \<and> e < 2 ^ 32)"
| "option_wf (UserTimeout g u) = (g < 2 \<and> u < 32768)"
| "option_wf (Authentication k r mac n) = (k < 256 \<and> r < 256 \<and> length mac < 252)"
| "option_wf (Unknown v kind n) =
     (kind < 256 \<and> kind \<notin> {0, 1, 2, 3, 4, 5, 8, 28, 29} \<and> length v < 254)"

lemma be32_not_Nil [simp]: "be32 n \<noteq> []"
  by (simp add: be32_def)

lemma blocks_roundtrip:
  assumes "\<forall>(l, r) \<in> set bs. l < 2 ^ 32 \<and> r < 2 ^ 32"
  shows "\<exists>b. blocks_bytes bs = Inr b \<and> length b = 8 * length bs \<and> sack_blocks b = Inr bs"
  using assms
proof (induction bs)
  case (Cons x bs)
  obtain l r where x: "x = (l, r)" by (cases x)
  with Cons obtain b where b: "blocks_bytes bs = Inr b" "length b = 8 * length bs"
    "sack_blocks b = Inr bs" and lr: "l < 2 ^ 32" "r < 2 ^ 32" by auto
  have "sack_blocks (be32 l @ be32 r @ b) = Inr ((l, r) # bs)"
    using b lr u32_at_append [of "be32 l" 4 "be32 r @ b"]
    by (subst sack_blocks.simps) (simp add: u32_at_be32)
  with b lr x show ?case by simp
qed (simp add: sack_blocks.simps)

lemma sack_parser:
  "\<lbrakk>unat w = 2 + length b; sack_blocks b = Inr bs\<rbrakk> \<Longrightarrow>
     option_parser (5 # w # b @ rest) = Inr (SACK bs (2 + length b), rest)"
  by (simp add: option_parser_def u8_at_def slice_def)

lemma auth_parser:
  assumes "unat w = 4 + length mac"
  shows "option_parser (29 # w # a # b # mac @ rest) =
     Inr (Authentication (unat a) (unat b) mac (4 + length mac), rest)"
proof -
  have l: "29 # w # a # b # mac @ rest = [29, w, a, b] @ mac @ rest" by simp
  have "slice 4 (4 + length mac) (29 # w # a # b # mac @ rest) = mac"
    "drop (4 + length mac) (29 # w # a # b # mac @ rest) = rest"
    unfolding l slice_def by (simp_all del: append_Cons append_Nil)
  with assms show ?thesis by (simp add: option_parser_def u8_at_def Let_def)
qed

lemma timeout_parser:
  "t < 65536 \<Longrightarrow> option_parser (28 # 4 # be16 t @ rest) =
     Inr (UserTimeout (t div 32768) (t mod 32768), rest)"
  by (simp add: option_parser_def u8_at_def u16_at_def be16_def Let_def and_masks drop_bit_eq_div)

lemma option_roundtrip:
  assumes "option_wf opt"
  shows "\<exists>b. option_serialize opt = Inr b \<and> b \<noteq> [] \<and>
     option_parser (b @ rest) = Inr (option_norm opt, rest)"
proof (cases opt)
  case (SACK bs n)
  with assms have ok: "\<forall>(l, r) \<in> set bs. l < 2 ^ 32 \<and> r < 2 ^ 32" and l: "length bs < 31"
    by (auto simp: sack_ok_def)
  obtain b where b: "blocks_bytes bs = Inr b" "length b = 8 * length bs" "sack_blocks b = Inr bs"
    using blocks_roundtrip [OF ok] by blast
  have n: "2 + length b < 256" using b(2) l by simp
  have "unat (word_of_nat (2 + length b) :: byte) = 2 + length b" using n by (rule unat_small)
  from sack_parser [OF this b(3)] SACK b n show ?thesis by simp
next
  case (Timestamps v e)
  have e2: "u32_at (8 # 10 # be32 v @ be32 e @ rest) 2 = u32_at (be32 v @ be32 e @ rest) 0"
    using u32_at_append [of "[8, 10]" 2 "be32 v @ be32 e @ rest"] by simp
  have e6: "u32_at (8 # 10 # be32 v @ be32 e @ rest) 6 = u32_at (be32 e @ rest) 0"
    using u32_at_append [of "[8, 10] @ be32 v" 6 "be32 e @ rest"] by simp
  from Timestamps assms show ?thesis
    by (simp add: option_parser_def u8_at_def Let_def e2 e6 u32_at_be32)
next
  case (UserTimeout g u)
  have "push_bit 15 g OR u = g * 32768 + u" using or_disjoint [of u 15 g] UserTimeout assms by simp
  moreover have "g * 32768 + u < 65536" using UserTimeout assms by simp
  moreover have "(g * 32768 + u) div 32768 = g" "(g * 32768 + u) mod 32768 = u"
    using UserTimeout assms by simp_all
  ultimately show ?thesis
    using UserTimeout timeout_parser [of "g * 32768 + u" rest] by simp
next
  case (Authentication k r mac n)
  have "unat (word_of_nat (4 + length mac) :: byte) = 4 + length mac"
    using Authentication assms by (intro unat_small) simp
  from auth_parser [OF this] Authentication assms show ?thesis by simp
next
  case (Unknown v kind n)
  define m where "m = 2 + length v"
  have "m < 256" using Unknown assms by (simp add: m_def)
  then have "option_parser (word_of_nat kind # word_of_nat m # v @ rest) = Inr (Unknown v kind m, rest)"
    using Unknown assms
    by (simp add: option_parser_def u8_at_def slice_def Let_def) (simp add: m_def)
  with Unknown assms \<open>m < 256\<close> show ?thesis by (simp add: m_def)
qed (use assms in \<open>simp_all add: option_parser_def u8_at_def u16_at_def be16_def Let_def pack_B_def\<close>)

interpretation option_codec: codec "\<lambda>opt p. option_wf opt" "\<lambda>opt p. option_serialize opt"
    "\<lambda>opt p. option_norm opt" option_parser
  by unfold_locales (metis option_roundtrip sum.inject(2))+

lemma options_bytes_Cons:
  "options_bytes (opt # os) =
     (case option_serialize opt of
        Inl e \<Rightarrow> Inl e
      | Inr b \<Rightarrow> (case options_bytes os of Inl e \<Rightarrow> Inl e | Inr bs \<Rightarrow> Inr (b @ bs)))"
  by (simp add: options_bytes_def split: sum.splits)

lemma options_loop_Nil [simp]: "options_loop [] acc = Some (Inr acc)"
  by (simp add: options_loop.simps)

lemma options_loop_zeros:
  "options_loop (replicate n 0) acc = Some (Inr (acc @ replicate n EndOfOptionList))"
proof (induction n arbitrary: acc)
  case (Suc n)
  have "option_parser (replicate (Suc n) 0) = Inr (EndOfOptionList, replicate n 0)"
    by (simp add: option_parser_def u8_at_def)
  with Suc show ?case by (subst options_loop.simps) simp
qed simp

lemma options_roundtrip:
  assumes "list_all option_wf os"
  shows "\<exists>b. options_bytes os = Inr b \<and>
     (\<forall>rest acc. options_loop (b @ rest) acc = options_loop rest (acc @ map option_norm os))"
  using assms
proof (induction os)
  case (Cons opt os)
  then obtain bs where bs: "options_bytes os = Inr bs"
    "\<And>rest acc. options_loop (bs @ rest) acc = options_loop rest (acc @ map option_norm os)"
    by auto
  obtain b where b: "option_serialize opt = Inr b" "b \<noteq> []"
    "\<And>rest. option_parser (b @ rest) = Inr (option_norm opt, rest)"
    using option_roundtrip Cons.prems by (metis list.pred_inject(2) sum.inject(2))
  have "options_loop ((b @ bs) @ rest) acc =
      options_loop rest (acc @ map option_norm (opt # os))" for rest acc
    using b bs(2) by (subst options_loop.simps) simp
  then show ?case using b(1) bs(1) by (auto simp: options_bytes_Cons)
qed (simp add: options_bytes_def)

end
