(* ===== verification/Fw_Input_Properties.thy ===== *)
theory Fw_Input_Properties
  imports Fw_Flow_Properties Fw_Rate Tcp_Props
begin

text \<open>
  The properties of what the firewall makes of its inputs: the invariant over all runs, TCP
  flags, ARP bindings, the arguments of REST requests, and for which frames the packet-in
  handler returns.
\<close>

section \<open>The invariant\<close>

text \<open>
  C10.  In every reachable state of the firewall: at most 50 user patterns next to the built-in
  ones; each trust entry has a canonical key, at most 8192 buffered bytes per direction, a
  count of at most five, and is installed exactly at five; the log holds at most 200 entries;
  no more outcomes than packets are counted; blocked addresses and ports are valid ones; the
  allow list is empty.
\<close>

theorem firewall_invariant:
  assumes "fw.reachable env s"
  shows "user_count (dpi s) \<le> 50 \<and>
     (\<forall>k e. dict_get (trust_table s) k = Some e \<longrightarrow> key_canonical k \<and>
        length (buf_a e) \<le> 8192 \<and> length (buf_b e) \<le> 8192 \<and> count e \<le> 5 \<and>
        (installed e \<longleftrightarrow> count e = 5)) \<and>
     length (event_log s) \<le> 200 \<and> outcomes (stats s) \<le> n_total (stats s) \<and>
     (\<forall>ip \<in> blocked_ips s. valid_ipv4 ip) \<and>
     (\<forall>(p, pn) \<in> blocked_ports s. 0 \<le> p \<and> p \<le> 65535 \<and> (pn = 6 \<or> pn = 17)) \<and>
     allowed_ips s = {}"
  using reachable_inv [OF assms]
  unfolding fw_inv_def config_ok_def table_ok_def entry_ok_def log_ok_def stats_ok_def engine_wf_def
    LOG_CAP_def MAX_BUFFER_BYTES_def TRUST_K_def MAX_USER_PATTERNS_def
  by blast

theorem firewall_invariant_witness:
  "length (event_log (fst (add_blocked_ip sample_clk ''65.66.67.68'' init_state))) \<le> 200"
proof -
  have "fw.reachable sample_env (fst (add_blocked_ip sample_clk ''65.66.67.68'' init_state))"
    by (rule fw.reach_step [OF fw.reach_start step_add_ip]) simp
  from firewall_invariant [OF this] show ?thesis by blast
qed

section \<open>TCP flags\<close>

text \<open>
  The verdict on the six TCP flag bits (FIN 0, SYN 1, RST 2, PSH 3, ACK 4, URG 5): which
  combinations are refused, and with which verdict, in the order of the tests.
\<close>

theorem tcp_flag_verdicts:
  "check_tcp_flags t =
     (if bit (bits t) 0 \<and> bit (bits t) 3 \<and> bit (bits t) 5 then XMAS_SCAN
      else if bits t = 0 then NULL_SCAN
      else if bit (bits t) 1 \<and> bit (bits t) 0 then SYN_FIN
      else if bit (bits t) 1 \<and> bit (bits t) 2 then SYN_RST
      else if bits t = 1 then FIN_SCAN else ALLOWED)"
  unfolding check_tcp_flags_def Let_def and_or_iff flag_set_bit by (simp add: TF_FIN_def)

section \<open>REST arguments\<close>

text \<open>
  A request to block a port is answered 200 exactly when both arguments are integers, the
  port is between 0 and 65535 and the protocol is 6 or 17; every other request is answered 400
  and changes nothing.
\<close>

theorem add_port_accepts_exactly_valid:
  "\<exists>t r. add_blocked_port clk port protocol s = (t, Inr r) \<and>
     (if \<exists>p pn. py_int port = Some p \<and> py_int protocol = Some pn \<and> 0 \<le> p \<and> p \<le> 65535 \<and> (pn = 6 \<or> pn = 17)
      then status r = 200 else status r = 400 \<and> t = s)"
proof (cases "port_args port protocol")
  case (Inl r)
  then have "\<not> (\<exists>p pn. port_args port protocol = Inr (p, pn))" by simp
  then show ?thesis
    unfolding port_args_iff using port_args_status [OF Inl] by (simp add: add_blocked_port_def Inl)
next
  case (Inr a)
  obtain p pn where a: "a = (p, pn)" by (cases a)
  with Inr have "py_int port = Some p \<and> py_int protocol = Some pn \<and> 0 \<le> p \<and> p \<le> 65535 \<and> (pn = 6 \<or> pn = 17)"
    by (simp add: port_args_iff)
  then show ?thesis
    using Inr a by (auto simp: add_blocked_port_def Let_def json_response_def)
qed

section \<open>ARP bindings\<close>

lemma conclude_arp: "arp_table (fst (conclude clk m pkt eth r s)) = arp_table s"
proof -
  have "arp_table (fst (report_refused clk pkt eth r u)) = arp_table u"
    and "arp_table (forward_allowed clk m pkt eth p u) = arp_table u" for u p
    using report_refused_contract(1) [of u clk pkt eth r] forward_allowed_contract [of u clk m pkt eth p]
    by (simp_all add: conclude_contract_def)
  then show ?thesis by (simp add: conclude_def Let_def split: option.split)
qed

lemma packet_in_arp:
  assumes "packet_in_handler ac oth clk m s = Some (t, e)"
  shows "arp_table s \<subseteq>\<^sub>m arp_table t"
  using assms
proof (rule packet_in_verdict)
  fix pkt eth v
  assume v: "verdict_contract s v" and t: "(t, e) = conclude_verdict clk m pkt eth v"
  obtain r s0 where rs: "v = (r, s0)" by (cases v)
  have "arp_table t = arp_table s0"
    using t rs conclude_arp [of clk m pkt eth _ s0]
    by (cases r) (auto simp: conclude_verdict_def prod_eq_iff)
  then show ?thesis using v rs by (simp add: verdict_contract_def check_contract_def)
qed simp

lemma arp_frame [simp]:
  "arp_table (flush_flows_for_ip clk ip s) = arp_table s"
  "arp_table (flush_flows_for_port clk p pn s) = arp_table s"
  "arp_table (flush_all_trust_flows clk s) = arp_table s"
proof -
  have "arp_table (snd (flush_port_loop p pn ds u)) = arp_table u" for ds u
    by (cases "pn = 6 \<or> pn = 17") (simp_all add: flush_port_loop_effect flush_port_loop_other)
  then show "arp_table (flush_flows_for_port clk p pn s) = arp_table s"
    by (simp add: flush_flows_for_port_def Let_def case_prod_beta)
qed (simp_all add: flush_flows_for_ip_def flush_all_trust_flows_def Let_def flush_ip_loop_effect
      flush_all_loop_effect)

lemma arp_step_keeps:
  assumes "fw_step env s ev t" and "\<forall>dp. ev \<noteq> Ev_switch_join dp"
  shows "arp_table s \<subseteq>\<^sub>m arp_table t"
  using assms
proof (induction rule: fw_step.induct)
  case (step_packet_in m s clk t e)
  then show ?case using packet_in_arp by blast
next
  case (step_switch_join dp s)
  then show ?case by blast
qed (simp_all add: add_blocked_ip_def del_blocked_ip_def add_blocked_port_def del_blocked_port_def
       set_rate_limit_def add_dpi_pattern_def del_dpi_pattern_def Let_def
     split: sum.split option.split py_exn.split)

lemma arp_steps_keep:
  assumes "fw.steps env s evs t" and "\<forall>dp. Ev_switch_join dp \<notin> set evs"
  shows "arp_table s \<subseteq>\<^sub>m arp_table t"
  using assms
proof (induction rule: fw.steps.induct)
  case (steps_cons s e t es u)
  then show ?case using arp_step_keeps [of env s e t] map_le_trans by fastforce
qed simp

text \<open>
  C13.  Once an ARP packet has bound an address to a MAC address, and until a switch connects
  again, an ARP packet that claims the address for another MAC address is refused: it is not
  forwarded, and the only message sent is a rule that drops ARP from that address.
\<close>

theorem arp_binding_holds:
  assumes "arp_table s (src_ip a) = Some mac" and "mac \<noteq> src_mac a"
    and "fw.steps env s evs u" and "\<forall>dp. Ev_switch_join dp \<notin> set evs"
    and "packet_in_handler (e_ac env) (e_oth env) clk m u = Some (t, e)"
    and "pi_data m \<noteq> []" "\<not> pi_msg_len m < pi_total_len m"
    and "Packet (e_ac env) (e_oth env) (pi_data m) = Some (Inr pkt)"
    and "get_ethernet pkt = Some eth" "ethertype eth = ETH_TYPE_ARP" "get_arp pkt = Some a"
  shows "sent t = sent u @
     [(pi_dp m, FlowMod (flow_add 200 [Eth_type 0x0806, Arp_spa (src_ip a)] [] 10 0))] \<and>
     n_allowed (stats t) = n_allowed (stats u)"
proof -
  have b: "arp_table u (src_ip a) = Some mac"
    using arp_steps_keep [OF assms(3,4)] assms(1) by (simp add: map_le_def dom_def)
  let ?m = "FlowMod (flow_add 200 [Eth_type 0x0806, Arp_spa (src_ip a)] [] 10 0)"
  have "arp_packet_handler m (Some a) u = (Inr ARP_SPOOF, send_msg (pi_dp m) ?m u)"
    using b assms(2) by (simp add: arp_packet_handler_def check_arp_spoof_def add_flow_send)
  then have "conclude clk m pkt eth ARP_SPOOF (send_msg (pi_dp m) ?m u) = (t, e)"
    using assms(5-11) by (simp add: packet_in_handler_def conclude_verdict_def
        ETH_TYPE_IP_def ETH_TYPE_ARP_def)
  then have "t = fst (conclude clk m pkt eth ARP_SPOOF (send_msg (pi_dp m) ?m u))" by simp
  then show ?thesis by (simp add: conclude_refused)
qed

definition sample_bound :: fw_state where
  "sample_bound = init_state\<lparr>arp_table := [''65.66.67.68'' \<mapsto> ''other'']\<rparr>"

lemma sample_arp_packet:
  "Packet sample_ac sample_oth (pi_data (frame_in arp_frame)) =
     Some (Inr [PEthernet (sample_eth\<lparr>ethertype := 2054\<rparr>), PArp sample_arp])"
  by (simp add: arp_frame_parsed)

lemma sample_arp_get:
  "get_ethernet [PEthernet e, PArp a] = Some e" "get_arp [PEthernet e, PArp a] = Some a"
  by (simp_all add: get_ethernet_def get_arp_def get_protocol_def get_protocols_def)

theorem arp_binding_holds_witness:
  "\<exists>t e. packet_in_handler sample_ac sample_oth sample_clk (frame_in arp_frame) sample_bound = Some (t, e) \<and>
     sent t = [(1, FlowMod (flow_add 200 [Eth_type 0x0806, Arp_spa ''65.66.67.68''] [] 10 0))]"
proof -
  have env: "e_ac sample_env = sample_ac" "e_oth sample_env = sample_oth"
    by (simp_all add: sample_env_def)
  have a: "src_ip sample_arp = ''65.66.67.68''" "src_mac sample_arp = replicate 6 (CHR 0x02)"
    by (simp_all add: sample_arp_def)
  obtain t e where te: "packet_in_handler (e_ac sample_env) (e_oth sample_env) sample_clk (frame_in arp_frame) sample_bound = Some (t, e)"
    unfolding env using packet_in_returns sample_arp_packet by blast
  have st: "fw.steps sample_env sample_bound [] sample_bound" by (rule fw.steps_nil)
  have b: "arp_table sample_bound (src_ip sample_arp) = Some ''other''" "''other'' \<noteq> src_mac sample_arp"
    by (simp_all add: sample_bound_def a numeral_eq_Suc)
  have f: "pi_data (frame_in arp_frame) \<noteq> []" "\<not> pi_msg_len (frame_in arp_frame) < pi_total_len (frame_in arp_frame)"
    by (simp_all add: arp_frame_nonzero)
  have ty: "ethertype (sample_eth\<lparr>ethertype := 2054\<rparr>) = ETH_TYPE_ARP" by (simp add: ETH_TYPE_ARP_def)
  have n: "\<forall>dp. Ev_switch_join dp \<notin> set []" by simp
  from arp_binding_holds [OF b st n te f sample_arp_packet [folded env] sample_arp_get(1) ty sample_arp_get(2)] te
  show ?thesis by (simp add: a env) (simp add: sample_bound_def init_state_def)
qed

section \<open>Frames on which the handler returns\<close>

text \<open>
  The parsers hand on a shorter part of their input except for IPv4 and TCP headers with a
  length field of 0, which hand on their whole input to a later class.
\<close>

lemma slice_length_le: "length (slice i j b) \<le> length b"
  by (simp add: slice_def)

fun class_rank :: "pclass option \<Rightarrow> nat" where
  "class_rank (Some CIpv4) = 2"
| "class_rank (Some CTcp) = 1"
| "class_rank (Some CUdp) = 1"
| "class_rank (Some (COther n)) = 0"
| "class_rank None = 0"
| "class_rank (Some c) = 3"

lemma ip_next_rank: "n < 256 \<Longrightarrow> get_packet_type n \<noteq> Some CIpv4 \<and> class_rank (get_packet_type n) < 2"
  by (auto simp: get_packet_type_def packet_types_def)

lemma tcp_next_rank: "class_rank (tcp_payload_type a b) = 0"
  by (simp add: tcp_payload_type_def)

definition shrinks :: "pclass \<Rightarrow> bytes \<Rightarrow> pclass option \<Rightarrow> bytes \<Rightarrow> bool" where
  "shrinks c b c' r \<longleftrightarrow> length r < length b \<or> length r = length b \<and> class_rank c' < class_rank (Some c)"

lemma class_parser_shrinks:
  assumes "class_parser ac oth c b = Some (Inr (p, c', r))" and "b \<noteq> []" and "\<forall>n. c \<noteq> COther n"
  shows "shrinks c b c' r"
proof (cases c)
  case CIpv4
  then obtain h where h: "ipv4_parser ac b = Inr (h, r)" "c' = get_packet_type (proto h)"
    using assms(1) by (auto simp: parsed_of_def ret_def raise_def split: sum.splits)
  have "proto h < 256" "length r \<le> length b"
    using h(1) slice_length_le
    by (auto simp: ipv4_parser_def Let_def u8_at_def unat_byte_less split: if_splits)
  then show ?thesis using ip_next_rank [of "proto h"] h(2) CIpv4 by (auto simp: shrinks_def)
next
  case CTcp
  then obtain h where h: "tcp_parser b = Some (Inr (h, r))"
      "c' = tcp_payload_type (tcp_src_port h) (tcp_dst_port h)"
    using assms(1) by (auto simp: run_bind_def ret_def split: option.splits sum.splits)
  then have "\<exists>n. r = drop n b"
    by (auto simp: tcp_parser_def Let_def ret_def raise_def split: if_splits option.splits sum.splits py_exn.splits)
  then show ?thesis using tcp_next_rank h(2) CTcp by (auto simp: shrinks_def)
next
  case CUdp
  then show ?thesis
    using assms(1)
    by (auto simp: parsed_of_def ret_def raise_def udp_parser_def slice_def shrinks_def split: sum.splits if_splits)
qed (use assms in \<open>auto simp: parsed_of_def ret_def raise_def ethernet_parser_def vlan_parser_def
       arp_parser_def Let_def shrinks_def split: sum.splits if_splits\<close>)

text \<open>Only an option list and a class outside the model may never end.\<close>

lemma class_parser_None:
  "class_parser ac oth c b = None \<longleftrightarrow> c = CTcp \<and> tcp_parser b = None \<or> (\<exists>n. c = COther n \<and> oth n b = None)"
  by (cases c) (auto simp: parsed_of_def ret_def raise_def run_bind_def split: sum.splits option.splits)

text \<open>What is visited is parsed, so a parser that hangs there hangs the decoding.\<close>

lemma visited_is_parsed:
  assumes "parse_visits ac oth data c b" and "data \<noteq> []"
  shows "\<exists>acc. Packet ac oth data = parser_loop ac oth (Some c) b acc"
  using assms(1)
proof (induction rule: parse_visits.induct)
  case visit_start
  show ?case using Packet_start [OF assms(2)] by blast
next
  case (visit_next c b p c' r)
  then show ?case using parser_loop_step by metis
qed

lemma visited_returns:
  assumes "others_advance ac oth data" and "parse_visits ac oth data c b"
    and "\<And>c b. parse_visits ac oth data c b \<Longrightarrow> \<not> all_zero b \<Longrightarrow> class_parser ac oth c b \<noteq> None"
  shows "parser_loop ac oth (Some c) b acc \<noteq> None"
  using assms(2)
proof (induction "(length b, class_rank (Some c))" arbitrary: b c acc
    rule: wf_induct_rule [OF wf_lex_prod [OF wf_less_than wf_less_than]])
  case 1
  show ?case
  proof (cases "all_zero b")
    case True
    then show ?thesis by (simp add: parser_loop_done)
  next
    case z: False
    then have nb: "b \<noteq> []" by (auto simp: all_zero_def)
    from assms(3) [OF "1.prems" z] obtain x where x: "class_parser ac oth c b = Some x" by auto
    show ?thesis
    proof (cases x)
      case (Inl e)
      then show ?thesis using x z by (subst parser_loop.simps) simp
    next
      case (Inr y)
      obtain p c' r where y: "y = (p, c', r)" by (cases y)
      note step = x [unfolded Inr y]
      have "parser_loop ac oth c' r (add_proto acc p) \<noteq> None"
      proof (cases c')
        case (Some k)
        have "shrinks c b (Some k) r"
        proof (cases "\<exists>n. c = COther n")
          case True
          then show ?thesis
            using assms(1) "1.prems" z step Some by (auto simp: others_advance_def shrinks_def)
        qed (use class_parser_shrinks [OF step nb] Some in auto)
        then have "parser_loop ac oth (Some k) r (add_proto acc p) \<noteq> None"
          by (intro "1.hyps" visit_next [OF "1.prems" z step [unfolded Some]]) (auto simp: shrinks_def)
        then show ?thesis using Some by simp
      qed (simp add: parser_loop_done)
      then show ?thesis using parser_loop_step [OF z step, of acc] by simp
    qed
  qed
qed

text \<open>
  C14.  The packet-in handler hangs on a frame exactly when it decodes it and comes to a TCP
  header whose option list never ends, or to a header outside the model whose own parser does
  not return; else it returns.  It is assumed of the frame that a header outside the model that
  names a next class takes at least one byte of its input.  The parsers that end the decoding
  may leave all of it, as those of LLDP and of the slow protocols do.  A message of length 0 in
  the header classes of OpenFlow, BGP and Zebra takes nothing, and its frame is one on which
  the assumption fails (\<open>openflow_length_zero_hangs\<close> shows that the handler then does not
  return).
\<close>

theorem packet_in_terminates:
  assumes "others_advance ac oth (pi_data m)"
  shows "packet_in_handler ac oth clk m s = None \<longleftrightarrow>
    pi_data m \<noteq> [] \<and> \<not> pi_msg_len m < pi_total_len m \<and>
    (\<exists>b. \<not> all_zero b \<and>
       (parse_visits ac oth (pi_data m) CTcp b \<and> tcp_parser b = None \<or>
        (\<exists>n. parse_visits ac oth (pi_data m) (COther n) b \<and> oth n b = None)))"
proof -
  let ?stuck = "\<exists>c b. parse_visits ac oth (pi_data m) c b \<and> \<not> all_zero b \<and> class_parser ac oth c b = None"
  have "Packet ac oth (pi_data m) = None \<longleftrightarrow> ?stuck" if ne: "pi_data m \<noteq> []"
  proof
    assume "Packet ac oth (pi_data m) = None"
    then show ?stuck
      using visited_returns [OF assms visit_start] Packet_start [OF ne] by metis
  next
    assume ?stuck
    then obtain c b where v: "parse_visits ac oth (pi_data m) c b" "\<not> all_zero b" "class_parser ac oth c b = None"
      by blast
    from visited_is_parsed [OF v(1) ne] obtain acc where
      "Packet ac oth (pi_data m) = parser_loop ac oth (Some c) b acc" by blast
    also have "\<dots> = None" using v(2,3) by (subst parser_loop.simps) simp
    finally show "Packet ac oth (pi_data m) = None" .
  qed
  moreover have "?stuck \<longleftrightarrow> (\<exists>b. \<not> all_zero b \<and>
       (parse_visits ac oth (pi_data m) CTcp b \<and> tcp_parser b = None \<or>
        (\<exists>n. parse_visits ac oth (pi_data m) (COther n) b \<and> oth n b = None)))"
    unfolding class_parser_None by blast
  ultimately show ?thesis unfolding packet_in_None_iff by blast
qed

text \<open>
  A HELLO of OpenFlow 1.3 to port 6633: the decoding goes through Ethernet, IPv4, TCP and the
  header class of OpenFlow, which names itself and leaves nothing.
\<close>

definition to_6633 :: "bytes \<Rightarrow> bytes" where
  "to_6633 payload =
     [1,1,1,1,1,1, 2,2,2,2,2,2, 8,0,
      0x45,0, 0,48, 0,0, 0,0, 64,6, 0,0, 65,66,67,68, 69,70,71,72,
      0,7, 0x19,0xe9, 0,0,0,0, 0,0,0,0, 0x50,0x10, 0,0, 0,0, 0,0] @ payload"

definition hello_msg :: bytes where
  "hello_msg = [4, 0, 0,8, 0,0,0,1]"

definition empty_msg :: bytes where
  "empty_msg = [4, 0, 0,0, 0,0,0,1]"

lemma to_6633_steps:
  assumes "length payload = 8"
  shows "\<exists>h. class_parser ac oth CEthernet (to_6633 payload) =
      Some (Inr (Some (PEthernet h), Some CIpv4, drop 14 (to_6633 payload)))"
    and "\<exists>h. class_parser ac oth CIpv4 (drop 14 (to_6633 payload)) =
      Some (Inr (Some (PIpv4 h), Some CTcp, drop 34 (to_6633 payload)))"
    and "\<exists>h. class_parser ac oth CTcp (drop 34 (to_6633 payload)) =
      Some (Inr (Some (PTcp h), Some (COther ''openflow''), payload))"
proof -
  show "\<exists>h. class_parser ac oth CEthernet (to_6633 payload) =
      Some (Inr (Some (PEthernet h), Some CIpv4, drop 14 (to_6633 payload)))"
    by (simp add: parsed_of_def ethernet_parser_def ret_def) (simp add: to_6633_def u16_at_def sample_types)
  show "\<exists>h. class_parser ac oth CIpv4 (drop 14 (to_6633 payload)) =
      Some (Inr (Some (PIpv4 h), Some CTcp, drop 34 (to_6633 payload)))"
    using assms by (simp add: parsed_of_def ipv4_parser_def ret_def Let_def)
      (simp add: to_6633_def u16_at_def u8_at_def slice_def sample_types)
  show "\<exists>h. class_parser ac oth CTcp (drop 34 (to_6633 payload)) =
      Some (Inr (Some (PTcp h), Some (COther ''openflow''), payload))"
    using assms by (simp add: tcp_parser_def to_6633_def u8_at_def u16_at_def u32_at_def slice_def ret_def
        run_bind_def tcp_payload_type_def)
qed

lemma to_6633_nonzero:
  "to_6633 payload \<noteq> []" "\<not> all_zero (to_6633 payload)" "\<not> all_zero (drop 14 (to_6633 payload))"
  "\<not> all_zero (drop 34 (to_6633 payload))"
  by (simp_all add: all_zero_def to_6633_def)

lemma to_6633_visits:
  assumes "length payload = 8"
  shows "parse_visits ac oth (to_6633 payload) (COther ''openflow'') payload"
proof -
  note nz = to_6633_nonzero [of payload]
  obtain e i t where st:
    "class_parser ac oth CEthernet (to_6633 payload) = Some (Inr (e, Some CIpv4, drop 14 (to_6633 payload)))"
    "class_parser ac oth CIpv4 (drop 14 (to_6633 payload)) = Some (Inr (i, Some CTcp, drop 34 (to_6633 payload)))"
    "class_parser ac oth CTcp (drop 34 (to_6633 payload)) = Some (Inr (t, Some (COther ''openflow''), payload))"
    using to_6633_steps [OF assms, of ac oth] by blast
  from visit_next [OF visit_start nz(2) st(1)] have "parse_visits ac oth (to_6633 payload) CIpv4 (drop 14 (to_6633 payload))" .
  from visit_next [OF this nz(3) st(2)] have "parse_visits ac oth (to_6633 payload) CTcp (drop 34 (to_6633 payload))" .
  from visit_next [OF this nz(4) st(3)] show ?thesis .
qed

lemma openflow_length_zero_hangs:
  "packet_in_handler ac (openflow_parsers stuck oth) clk (frame_in (to_6633 empty_msg)) s = None"
proof -
  let ?oth = "openflow_parsers stuck oth"
  have l: "length empty_msg = 8" by (simp add: empty_msg_def)
  have "\<exists>acc. Packet ac ?oth (to_6633 empty_msg) = parser_loop ac ?oth (Some (COther ''openflow'')) empty_msg acc"
    by (rule visited_is_parsed [OF to_6633_visits [OF l] to_6633_nonzero(1)])
  moreover have "parser_loop ac ?oth (Some (COther ''openflow'')) empty_msg acc = None" for acc
    by (rule openflow_zero_length)
      (simp_all add: empty_msg_def u16_at_def all_zero_def)
  ultimately show ?thesis by (auto simp: packet_in_None_iff to_6633_nonzero)
qed

lemma hello_visits:
  assumes "parse_visits ac (openflow_parsers (\<lambda>v t b. False) oth) (to_6633 hello_msg) c b"
  shows "c \<in> {CEthernet, CIpv4} \<or> c = CTcp \<and> b = drop 34 (to_6633 hello_msg) \<or>
    c = COther ''openflow'' \<and> b \<in> {hello_msg, []}"
proof -
  let ?oth = "openflow_parsers (\<lambda>v t b. False) oth"
  let ?f = "to_6633 hello_msg"
  have l: "length hello_msg = 8" by (simp add: hello_msg_def)
  define S where "S c b \<longleftrightarrow> c = CEthernet \<and> b = ?f \<or> c = CIpv4 \<and> b = drop 14 ?f \<or> c = CTcp \<and> b = drop 34 ?f \<or>
    c = COther ''openflow'' \<and> b \<in> {hello_msg, []}" for c b
  obtain q where q: "class_parser ac ?oth (COther ''openflow'') hello_msg =
      Some (Inr (q, Some (COther ''openflow''), []))"
    by (simp add: openflow_parsers_def openflow_parser_def hello_msg_def u8_at_def
        ret_def u16_at_def)
  have closed: "S c' r" if sz: "S c b" "\<not> all_zero b" and st: "class_parser ac ?oth c b = Some (Inr (p, Some c', r))"
    for c b p c' r
  proof -
    consider "c = CEthernet" "b = ?f" | "c = CIpv4" "b = drop 14 ?f" | "c = CTcp" "b = drop 34 ?f" |
      "c = COther ''openflow''" "b = hello_msg"
      using sz all_zero_simps(2) unfolding S_def by blast
    then show ?thesis
    proof cases
      case 1 then show ?thesis using st to_6633_steps(1) [OF l, of ac ?oth] by (simp only: S_def) auto
    next
      case 2 then show ?thesis using st to_6633_steps(2) [OF l, of ac ?oth] by (simp only: S_def) auto
    next
      case 3 then show ?thesis using st to_6633_steps(3) [OF l, of ac ?oth] by (simp only: S_def) auto
    next
      case 4 then show ?thesis using st q by (simp only: S_def) auto
    qed
  qed
  have "S CEthernet ?f" by (simp add: S_def)
  with assms have "S c b" using closed by (rule parse_visits_within)
  then show ?thesis unfolding S_def by blast
qed

theorem packet_in_terminates_witness:
  "others_advance sample_ac (openflow_parsers (\<lambda>v t b. False) sample_oth) (to_6633 hello_msg) \<and>
   packet_in_handler sample_ac (openflow_parsers (\<lambda>v t b. False) sample_oth) sample_clk
     (frame_in (to_6633 hello_msg)) init_state \<noteq> None"
proof -
  let ?oth = "openflow_parsers (\<lambda>v t b. False) sample_oth"
  have l: "length hello_msg = 8" by (simp add: hello_msg_def)
  have of: "openflow_parser (\<lambda>v t b. False) hello_msg = Some (Inr (p, c, r)) \<Longrightarrow> r = []"
    "openflow_parser (\<lambda>v t b. False) hello_msg \<noteq> None" for p c r
    by (auto simp: openflow_parser_def hello_msg_def u8_at_def ret_def u16_at_def)
  have adv: "others_advance sample_ac ?oth (pi_data (frame_in (to_6633 hello_msg)))"
    using of(1) l by (fastforce simp: others_advance_def openflow_parsers_def all_zero_def frame_in_def
        dest: hello_visits)
  have tcp: "tcp_parser (drop 34 (to_6633 hello_msg)) \<noteq> None"
    using to_6633_steps(3) [OF l, of sample_ac ?oth]
    by (cases "tcp_parser (drop 34 (to_6633 hello_msg))") (auto simp: run_bind_def)
  have "\<not> (\<exists>b. \<not> all_zero b \<and>
       (parse_visits sample_ac ?oth (to_6633 hello_msg) CTcp b \<and> tcp_parser b = None \<or>
        (\<exists>n. parse_visits sample_ac ?oth (to_6633 hello_msg) (COther n) b \<and> ?oth n b = None)))"
    using tcp of(2) by (auto simp: openflow_parsers_def all_zero_def dest: hello_visits)
  then show ?thesis
    using packet_in_terminates [OF adv, of sample_clk init_state] adv by (simp add: frame_in_def)
qed

text \<open>
  C15.  There is a frame of 58 bytes, an ordinary TCP segment with one option of length 0, on
  which the handler never returns, in any state and whatever the other parsers do.
\<close>

theorem zero_length_option_hangs_controller:
  "packet_in_handler ac oth clk (frame_in hang_frame) s = None"
proof -
  have nz: "\<not> all_zero hang_frame" "\<not> all_zero (drop 14 hang_frame)" "\<not> all_zero (drop 34 hang_frame)"
    "hang_frame \<noteq> []"
    by (simp_all add: all_zero_def hang_frame_def)
  have "\<exists>h. class_parser ac oth CEthernet hang_frame = Some (Inr (Some (PEthernet h), Some CIpv4, drop 14 hang_frame))"
    by (simp add: parsed_of_def ethernet_parser_def ret_def)
       (simp add: hang_frame_def u16_at_def sample_types)
  moreover have "\<exists>h. class_parser ac oth CIpv4 (drop 14 hang_frame) = Some (Inr (Some (PIpv4 h), Some CTcp, drop 34 hang_frame))"
    by (simp add: parsed_of_def ipv4_parser_def ret_def Let_def)
       (simp add: hang_frame_def u16_at_def u8_at_def slice_def sample_types)
  moreover have "class_parser ac oth CTcp (drop 34 hang_frame) = None"
  proof -
    have "hangs [99, 0, 0, 0]"
      by (simp add: hangs.simps option_parser_def u8_at_def slice_def)
    then have "tcp_parser (drop 34 hang_frame) = None"
      by (simp add: tcp_parser_None_iff hang_frame_def u8_at_def slice_def)
    then show ?thesis by simp
  qed
  ultimately have "Packet ac oth hang_frame = None"
    using nz by (auto simp: Packet_start parser_loop_step)
       (subst parser_loop.simps, simp)
  then show ?thesis by (simp add: packet_in_None_iff nz)
qed

end
