(* ===== verification/Net_Properties.thy ===== *)
theory Net_Properties
  imports Codecs Tcp_Props Sample_Frames
begin

text \<open>
  The properties of the packet library: whole frames survive encoding and decoding, TCP option
  lists do too, the checksum does not depend on the host, and the one input on which decoding
  a TCP header does not return is characterised.
\<close>

section \<open>Encoding and decoding a frame\<close>

lemma all_zero_u16: "all_zero b \<Longrightarrow> Suc i < length b \<Longrightarrow> u16_at b i = 0"
  by (simp add: u16_at_def all_zero_nth)

lemma ethernet_not_zero:
  "ethernet_parser ac b = Inr (h, r) \<Longrightarrow> ethertype h \<noteq> 0 \<Longrightarrow> \<not> all_zero b"
  using all_zero_u16 [of b 12] by (auto simp: ethernet_parser_def split: if_splits)

lemma ipv4_not_zero:
  "ipv4_parser ac b = Inr (h, r) \<Longrightarrow> header_length h \<noteq> 0 \<Longrightarrow> \<not> all_zero b"
  by (cases b) (auto simp: ipv4_parser_def Let_def u8_at_def all_zero_def split: if_splits)

lemma udp_not_zero:
  "udp_parser b = Inr (h, r) \<Longrightarrow> udp_total_length h \<noteq> 0 \<Longrightarrow> \<not> all_zero b"
  using all_zero_u16 [of b 4] by (auto simp: udp_parser_def split: if_splits)

lemma ipv4_wf_length: "length p = length q \<Longrightarrow> ipv4_wf ac h p = ipv4_wf ac h q"
  by (simp add: ipv4_wf_def)

lemma ipv4_serialize_ok:
  assumes "ipv4_wf ac h p"
  obtains b h' where "ipv4_serialize le ac h p = Inr (b, h')" "ipv4_parser ac (b @ p) = Inr (h', p)"
    "length b = header_length h * 4" "header_length h' = header_length h" "proto h' = proto h"
    "src h' = src h" "dst h' = dst h"
proof -
  from assms obtain s d c where sd: "ip_text_of ac (src h) s" "ip_text_of ac (dst h) d"
    and ser: "ipv4_serialize le ac h p = Inr (ipv4_front h p c (s @ d @ opt_bytes h),
            h\<lparr>total_length := header_length h * 4 + length p, csum := c\<rparr>)"
    by (rule ipv4_serialize_bytes)
  have "length (ipv4_front h p c (s @ d @ opt_bytes h)) = 20 + length (opt_bytes h)"
    using sd by (simp add: ipv4_front_def ipv4_bytes_def ip_text_of_def)
  then have len: "length (ipv4_front h p c (s @ d @ opt_bytes h)) = header_length h * 4"
    using assms by (auto simp: ipv4_wf_def)
  have "ipv4_norm le ac h p = h\<lparr>total_length := header_length h * 4 + length p, csum := c\<rparr>"
    by (simp add: ipv4_norm_def ser)
  with ipv4_roundtrip [OF assms, of le] ser have
    "ipv4_parser ac (ipv4_front h p c (s @ d @ opt_bytes h) @ p) =
       Inr (h\<lparr>total_length := header_length h * 4 + length p, csum := c\<rparr>, p)" by auto
  from that [OF ser this len] show ?thesis by simp
qed

lemma udp_pack_ok:
  assumes "udp_pack h = Inr b"
  shows "length b = 8" "udp_parser (b @ p) = Inr (h, slice 8 (udp_total_length h) (b @ p))"
proof -
  have "udp_src_port h < 65536" "udp_dst_port h < 65536" "udp_total_length h < 65536" "udp_csum h < 65536"
    using assms by (simp_all add: udp_pack_def split: if_splits sum.splits)
  from udp_pack_parser [OF this, of p] assms
  show "length b = 8" "udp_parser (b @ p) = Inr (h, slice 8 (udp_total_length h) (b @ p))" by auto
qed

text \<open>Whatever \<open>udp.serialize\<close> produces, given or computed checksum, is parsed back.\<close>

lemma udp_serialize_parse:
  assumes "udp_serialize le ac h p prev = Inr (b, h')" and "udp_total_length h \<in> {0, 8 + length p}"
  shows "length b = 8" "udp_parser (b @ p) = Inr (h', p)"
    and "udp_src_port h' = udp_src_port h" "udp_dst_port h' = udp_dst_port h"
    and "udp_total_length h' = 8 + length p"
proof -
  define h1 where "h1 = h\<lparr>udp_total_length := 8 + length p\<rparr>"
  have h1: "(if udp_total_length h = 0 then h\<lparr>udp_total_length := 8 + length p\<rparr> else h) = h1"
    using assms(2) by (auto simp: h1_def)
  have "\<exists>c. udp_pack (h1\<lparr>udp_csum := c\<rparr>) = Inr b \<and> h' = h1\<lparr>udp_csum := c\<rparr>"
  proof (cases "udp_csum h1 = 0")
    case True
    with assms(1) show ?thesis
      unfolding udp_serialize_def Let_def h1 by (auto split: sum.splits option.splits)
  next
    case False
    with assms(1) show ?thesis
      unfolding udp_serialize_def Let_def h1
      by (intro exI [of _ "udp_csum h1"]) (auto split: sum.splits)
  qed
  then obtain c where c: "udp_pack (h1\<lparr>udp_csum := c\<rparr>) = Inr b" "h' = h1\<lparr>udp_csum := c\<rparr>" by blast
  show l: "length b = 8" by (rule udp_pack_ok(1) [OF c(1)])
  have t: "udp_total_length h' = 8 + length p" by (simp add: c(2) h1_def)
  then show "udp_total_length h' = 8 + length p" .
  show "udp_parser (b @ p) = Inr (h', p)"
    using udp_pack_ok(2) [OF c(1), of p] t l by (simp add: c(2) slice_append_payload)
  show "udp_src_port h' = udp_src_port h" "udp_dst_port h' = udp_dst_port h"
    by (simp_all add: c(2) h1_def)
qed

text \<open>
  C16.  Whenever a UDP datagram in IPv4 in Ethernet is encoded, the firewall's decoder gets the
  same protocol objects back, with the lengths and checksums that encoding filled in: addresses,
  ports and payload are unchanged.
\<close>

theorem udp_frame_roundtrip:
  assumes "serialize le ac [PEthernet e, PIpv4 i, PUdp u, PRaw pay] = Inr b"
    and "udp_total_length u \<in> {0, 8 + length pay}"
    and "udp_payload_type (udp_src_port u) (udp_dst_port u) = None"
    and "ipv4_wf ac i ippay" "length ippay = 8 + length pay" "proto i = 17"
    and "ethernet_wf ac e epay" "length epay = header_length i * 4 + 8 + length pay" "ethertype e = 0x0800"
    and "\<not> all_zero pay"
  shows "\<exists>i' u'. Packet ac oth b = Some (Inr [PEthernet e, PIpv4 i', PUdp u', PRaw pay]) \<and>
     src i' = src i \<and> dst i' = dst i \<and> udp_src_port u' = udp_src_port u \<and>
     udp_dst_port u' = udp_dst_port u \<and> udp_total_length u' = 8 + length pay"
proof -
  obtain hu u' where su: "udp_serialize le ac u pay (ip_view_of (Some (PIpv4 i))) = Inr (hu, u')"
    using assms(1) by (auto simp: serialize_def map_sum_def split: sum.splits)
  note pu = udp_serialize_parse [OF su assms(2)]
  have wi: "ipv4_wf ac i (hu @ pay)"
    using assms(4) ipv4_wf_length [of ippay "hu @ pay"] assms(5) pu(1) by simp
  obtain hi i' where si: "ipv4_serialize le ac i (hu @ pay) = Inr (hi, i')"
    and pi: "ipv4_parser ac (hi @ hu @ pay) = Inr (i', hu @ pay)"
    and li: "length hi = header_length i * 4"
    and fi: "header_length i' = header_length i" "proto i' = proto i" "src i' = src i" "dst i' = dst i"
    using ipv4_serialize_ok [OF wi, where le = le] by blast
  have we: "ethernet_wf ac e (hi @ hu @ pay)"
    using assms(7,8) li pu(1) by (simp add: ethernet_wf_def)
  obtain he where se: "ethernet_serialize ac e (hi @ hu @ pay) = Inr (he, hi @ hu @ pay)"
    and pe: "ethernet_parser ac (he @ hi @ hu @ pay) = Inr (e, hi @ hu @ pay)"
    using ethernet_serialize_wf [OF we] by blast
  have b: "b = he @ hi @ hu @ pay"
    using assms(1) su si se by (simp add: serialize_def)
  have hl: "5 \<le> header_length i" using assms(4) by (simp add: ipv4_wf_def)
  have "\<not> all_zero b" "\<not> all_zero (hi @ hu @ pay)" "\<not> all_zero (hu @ pay)" "b \<noteq> []"
    using ethernet_not_zero [OF pe] assms(9) ipv4_not_zero [OF pi] fi(1) hl udp_not_zero [OF pu(2)] pu(5) b
    by (auto simp: all_zero_def)
  moreover have "class_parser ac oth CEthernet b = Some (Inr (Some (PEthernet e), Some CIpv4, hi @ hu @ pay))"
    using pe assms(9) by (simp add: b parsed_of_def ret_def sample_types)
  moreover have "class_parser ac oth CIpv4 (hi @ hu @ pay) = Some (Inr (Some (PIpv4 i'), Some CUdp, hu @ pay))"
    using pi assms(6) by (simp add: parsed_of_def ret_def sample_types fi)
  moreover have "class_parser ac oth CUdp (hu @ pay) = Some (Inr (Some (PUdp u'), None, pay))"
    using pu assms(3) by (simp add: parsed_of_def ret_def)
  ultimately have "Packet ac oth b = Some (Inr [PEthernet e, PIpv4 i', PUdp u', PRaw pay])"
    using assms(10) fi hl
    by (simp add: Packet_start parser_loop_step parser_loop_done add_proto_def with_rest_def
        del: class_parser.simps)
  then show ?thesis using fi pu(3-5) by blast
qed

definition sample_payload :: bytes where
  "sample_payload = replicate 20 1"

definition sample_out :: "proto_obj list" where
  "sample_out = [PEthernet sample_eth, PIpv4 (sample_ip 17 0),
     PUdp (sample_udp\<lparr>udp_total_length := 0\<rparr>), PRaw sample_payload]"

lemma sample_ip_wf:
  assumes "length p = 28"
  shows "ipv4_wf sample_ac (sample_ip 17 0) p"
proof -
  have "ip_text_of sample_ac ''65.66.67.68'' [65, 66, 67, 68]" "ip_text_of sample_ac ''69.70.71.72'' [69, 70, 71, 72]"
    by code_simp+
  then show ?thesis
    using assms by (auto simp: ipv4_wf_def sample_ip_def opt_bytes_def)
qed

lemma sample_eth_wf:
  assumes "length p = 48"
  shows "ethernet_wf sample_ac sample_eth p"
proof -
  have "mac_text_of sample_ac (replicate 6 (CHR 0x01)) (replicate 6 1)"
    "mac_text_of sample_ac (replicate 6 (CHR 0x02)) (replicate 6 2)"
    by code_simp+
  then show ?thesis using assms by (auto simp: ethernet_wf_def sample_eth_def)
qed

lemma sample_ip_bin:
  "ip_to_bin sample_ac ''65.66.67.68'' = Inr [65, 66, 67, 68]"
  "ip_to_bin sample_ac ''69.70.71.72'' = Inr [69, 70, 71, 72]"
  by code_simp+

lemma sample_udp_encodes:
  "\<exists>hu u'. udp_serialize True sample_ac (sample_udp\<lparr>udp_total_length := 0\<rparr>) sample_payload
     (ip_view_of (Some (PIpv4 (sample_ip 17 0)))) = Inr (hu, u')"
  by (simp add: udp_serialize_def udp_pack_def checksum_ip_def ip_view_of_def sample_ip_def sample_udp_def
      sample_ip_bin sample_payload_def checksum_bound Let_def)

lemma sample_out_encodes: "\<exists>b. serialize True sample_ac sample_out = Inr b"
proof -
  obtain hu u' where u: "udp_serialize True sample_ac (sample_udp\<lparr>udp_total_length := 0\<rparr>) sample_payload
     (ip_view_of (Some (PIpv4 (sample_ip 17 0)))) = Inr (hu, u')"
    using sample_udp_encodes by blast
  have hu: "length hu = 8"
    using udp_serialize_parse(1) [OF u] by (simp add: sample_udp_def)
  have w: "ipv4_wf sample_ac (sample_ip 17 0) (hu @ sample_payload)"
    by (rule sample_ip_wf) (simp add: hu sample_payload_def)
  obtain hi i' where i: "ipv4_serialize True sample_ac (sample_ip 17 0) (hu @ sample_payload) = Inr (hi, i')"
    "length hi = header_length (sample_ip 17 0) * 4"
    using ipv4_serialize_ok [OF w, where le = True] by metis
  have we: "ethernet_wf sample_ac sample_eth (hi @ hu @ sample_payload)"
    by (rule sample_eth_wf) (simp add: i(2) hu sample_payload_def sample_ip_def)
  from ethernet_serialize_wf [OF we] obtain he where
    "ethernet_serialize sample_ac sample_eth (hi @ hu @ sample_payload) = Inr (he, hi @ hu @ sample_payload)"
    by blast
  then show ?thesis using u i(1) by (simp add: serialize_def sample_out_def)
qed

theorem udp_frame_roundtrip_witness:
  "\<exists>b i' u'. serialize True sample_ac sample_out = Inr b \<and>
     Packet sample_ac sample_oth b = Some (Inr [PEthernet sample_eth, PIpv4 i', PUdp u', PRaw sample_payload])"
proof -
  obtain b where b: "serialize True sample_ac sample_out = Inr b"
    using sample_out_encodes by blast
  have u: "udp_total_length (sample_udp\<lparr>udp_total_length := 0\<rparr>) \<in> {0, 8 + length sample_payload}"
    "udp_payload_type (udp_src_port (sample_udp\<lparr>udp_total_length := 0\<rparr>))
       (udp_dst_port (sample_udp\<lparr>udp_total_length := 0\<rparr>)) = None"
    by (simp_all add: sample_udp_def sample_types)
  have l: "length (replicate 28 0 :: bytes) = 8 + length sample_payload"
    "length (replicate 48 0 :: bytes) = header_length (sample_ip 17 0) * 4 + 8 + length sample_payload"
    by (simp_all add: sample_payload_def sample_ip_def)
  have e: "proto (sample_ip 17 0) = 17" "ethertype sample_eth = 0x0800" "\<not> all_zero sample_payload"
    by (simp_all add: sample_ip_def sample_eth_def sample_payload_def all_zero_def list_all_iff)
  from udp_frame_roundtrip [OF b [unfolded sample_out_def] u
      sample_ip_wf [of "replicate 28 0"] l(1) e(1) sample_eth_wf [of "replicate 48 0"] l(2) e(2,3), of sample_oth]
  show ?thesis using b by auto
qed

section \<open>Checksums\<close>

text \<open>
  The IPv4 header that is sent passes the receiver's test, whatever the byte order of
  either host: the checksum of its bytes, computed in either order, is 0.
\<close>

theorem sent_ipv4_header_verifies:
  assumes "ipv4_wf ac h payload" and "ipv4_serialize le ac h payload = Inr (hdr, h')"
  shows "checksum True hdr = 0 \<and> checksum False hdr = 0"
proof -
  have "checksum le hdr = 0" by (rule ipv4_header_verifies [OF assms])
  moreover have "fits hdr"
  proof -
    have "length hdr = header_length h * 4"
      using ipv4_serialize_ok [OF assms(1), where le = le] assms(2) by (metis Inr_inject Pair_inject)
    then show ?thesis using assms(1) by (simp add: fits_def ipv4_wf_def)
  qed
  ultimately show ?thesis using checksum_endian by (cases le) simp_all
qed

theorem sent_ipv4_header_verifies_witness:
  "\<exists>hdr h'. ipv4_serialize True sample_ac (sample_ip 17 0) (replicate 28 0) = Inr (hdr, h') \<and> checksum False hdr = 0"
proof -
  have w: "ipv4_wf sample_ac (sample_ip 17 0) (replicate 28 0)" by (rule sample_ip_wf) simp
  obtain hdr h' where s: "ipv4_serialize True sample_ac (sample_ip 17 0) (replicate 28 0) = Inr (hdr, h')"
    using ipv4_serialize_ok [OF w, where le = True] by blast
  then show ?thesis using sent_ipv4_header_verifies [OF w s] by blast
qed

section \<open>TCP options\<close>

text \<open>
  A list of well-formed TCP options is encoded, and decoding the bytes gives the list back,
  with the lengths that encoding writes.
\<close>

theorem tcp_options_roundtrip:
  assumes "list_all option_wf os"
  shows "\<exists>b. options_bytes os = Inr b \<and> options_loop b [] = Some (Inr (map option_norm os))"
proof -
  from options_roundtrip [OF assms] obtain b where
    b: "options_bytes os = Inr b" "\<And>rest acc. options_loop (b @ rest) acc = options_loop rest (acc @ map option_norm os)"
    by blast
  from b(2) [of "[]" "[]"] b(1) show ?thesis by simp
qed

definition sample_options :: "tcp_option list" where
  "sample_options = [MaximumSegmentSize 1460, SACKPermitted, Timestamps 1 2, NoOperation, WindowScale 7]"

theorem tcp_options_roundtrip_witness:
  "\<exists>b. options_bytes sample_options = Inr b \<and> options_loop b [] = Some (Inr sample_options)"
  using tcp_options_roundtrip [of sample_options] by (simp add: sample_options_def)

text \<open>
  Decoding a TCP header fails to return exactly when the header has an option area in which
  some option, reached by decoding the ones before it, consumes no byte.
\<close>

theorem tcp_decoding_returns_iff:
  "(\<exists>r. tcp_parser buf = Some r) \<longleftrightarrow>
     \<not> (20 \<le> length buf \<and> 20 < drop_bit 4 (u8_at buf 12) * 4 \<and>
        hangs (slice 20 (drop_bit 4 (u8_at buf 12) * 4) buf))"
  using tcp_parser_None_iff [of buf] by (cases "tcp_parser buf") simp_all

end
