(* ===== verification/Ctl_Tables.thy ===== *)
theory Ctl_Tables
  imports Prelude
begin

text \<open>
  The small tables of \<open>ryu/controller\<close>: \<open>mac_to_port.py\<close>, \<open>mac_to_network.py\<close> and
  \<open>tunnels.py\<close>, with the exceptions of \<open>ryu/exception.py\<close> they raise.  An operation returns
  its result or exception and the state after it; \<open>send_event\<close> appends to a trace.  The
  interface \<open>mirrored\<close> says that the events of a component are enough to keep a copy of it.
\<close>

section \<open>Exceptions\<close>

datatype ryu_exn =
    NetworkNotFound
  | NetworkAlreadyExist
  | PortNotFound
  | PortAlreadyExist
  | PortUnknown
  | MacAddressDuplicated
  | MacAddressAlreadyExist
  | RemoteDPIDAlreadyExist
  | TunnelKeyAlreadyExist
  | TunnelKeyNotFound
  | Py py_exn

type_synonym 'a ryu = "ryu_exn + 'a"

section \<open>Deleting a key of a dictionary\<close>

definition dict_del :: "'k \<Rightarrow> ('k, 'v) dict \<Rightarrow> ('k, 'v) dict" where
  "dict_del k d = dict_remove_if (\<lambda>x. x = k) d"

definition dict_values :: "('k, 'v) dict \<Rightarrow> 'v list" where
  "dict_values d = map snd d"

lemma dict_get_del [simp]: "dict_get (dict_del k d) k' = (if k' = k then None else dict_get d k')"
  by (simp add: dict_del_def)

lemma dict_wf_del [simp]: "dict_wf d \<Longrightarrow> dict_wf (dict_del k d)"
  by (simp add: dict_del_def)

lemma dict_values_iff: "dict_wf d \<Longrightarrow> v \<in> set (dict_values d) \<longleftrightarrow> (\<exists>k. dict_get d k = Some v)"
  by (force simp: dict_values_def dict_wf_def dict_get_def)

lemma dict_in_iff: "dict_wf d \<Longrightarrow> (k, v) \<in> set d \<longleftrightarrow> dict_get d k = Some v"
  by (simp add: dict_wf_def dict_get_def)

section \<open>\<open>MacToPortTable\<close>\<close>

text \<open>\<open>haddr_to_str\<close>, which the log calls apply to the address, is the parameter \<open>hs\<close>.\<close>

type_synonym ('d, 'm, 'p) mac_table = "('d, ('m, 'p) dict) dict"

definition mtp_dpid_add :: "'d \<Rightarrow> ('d, 'm, 'p) mac_table \<Rightarrow> ('d, 'm, 'p) mac_table" where
  "mtp_dpid_add dpid t = (case dict_get t dpid of None \<Rightarrow> dict_set dpid [] t | Some _ \<Rightarrow> t)"

definition mtp_port_add ::
  "('m \<Rightarrow> string res) \<Rightarrow> 'd \<Rightarrow> 'p \<Rightarrow> 'm \<Rightarrow> ('d, 'm, 'p) mac_table \<Rightarrow>
     'p option res \<times> ('d, 'm, 'p) mac_table"
where
  "mtp_port_add hs dpid port mac t =
     (case dict_get t dpid of
        None \<Rightarrow> (Inl KeyError, t)
      | Some row \<Rightarrow>
          let old_port = dict_get row mac;
              t' = dict_set dpid (dict_set mac port row) t
          in if old_port \<noteq> None \<and> old_port \<noteq> Some port then
               (case hs mac of Inl e \<Rightarrow> (Inl e, t') | Inr _ \<Rightarrow> (Inr old_port, t'))
             else (Inr old_port, t'))"

definition mtp_port_get :: "'d \<Rightarrow> 'm \<Rightarrow> ('d, 'm, 'p) mac_table \<Rightarrow> 'p option res" where
  "mtp_port_get dpid mac t =
     (case dict_get t dpid of None \<Rightarrow> Inl KeyError | Some row \<Rightarrow> Inr (dict_get row mac))"

definition mtp_mac_list :: "'d \<Rightarrow> 'p \<Rightarrow> ('d, 'm, 'p) mac_table \<Rightarrow> 'm list" where
  "mtp_mac_list dpid port t =
     (case dict_get t dpid of
        None \<Rightarrow> [] | Some row \<Rightarrow> map fst (filter (\<lambda>(mac, q). q = port) row))"

definition mtp_mac_del :: "'d \<Rightarrow> 'm \<Rightarrow> ('d, 'm, 'p) mac_table \<Rightarrow> ('d, 'm, 'p) mac_table res" where
  "mtp_mac_del dpid mac t =
     (case dict_get t dpid of
        None \<Rightarrow> Inl KeyError
      | Some row \<Rightarrow>
          if dict_get row mac = None then Inl KeyError
          else Inr (dict_set dpid (dict_del mac row) t))"

definition mtp_wf :: "('d, 'm, 'p) mac_table \<Rightarrow> bool" where
  "mtp_wf t \<longleftrightarrow> dict_wf t \<and> (\<forall>d row. dict_get t d = Some row \<longrightarrow> dict_wf row)"

lemma mtp_wf_ops:
  assumes "mtp_wf t"
  shows "mtp_wf (mtp_dpid_add d t)"
    and "mtp_wf (snd (mtp_port_add hs d p m t))"
    and "mtp_mac_del d m t = Inr t' \<Longrightarrow> mtp_wf t'"
  using assms
  by (auto simp: mtp_wf_def mtp_dpid_add_def mtp_port_add_def mtp_mac_del_def Let_def
      split: option.splits sum.splits if_splits)

text \<open>The list of addresses behind a port is exactly what lookups report.\<close>

lemma mtp_mac_list_iff:
  assumes "mtp_wf t"
  shows "m \<in> set (mtp_mac_list d p t) \<longleftrightarrow> mtp_port_get d m t = Inr (Some p)"
proof (cases "dict_get t d")
  case (Some row)
  with assms have "dict_wf row" by (simp add: mtp_wf_def)
  then show ?thesis
    using Some by (force simp: mtp_mac_list_def mtp_port_get_def dict_in_iff [symmetric])
qed (simp add: mtp_mac_list_def mtp_port_get_def)

lemma mtp_port_add_get:
  assumes "dict_get t d \<noteq> None"
  shows "mtp_port_get d' m' (snd (mtp_port_add hs d p m t)) =
     (if d' = d \<and> m' = m then Inr (Some p) else mtp_port_get d' m' t)"
  using assms by (auto simp: mtp_port_add_def mtp_port_get_def Let_def split: option.splits sum.splits)

section \<open>\<open>MacToNetwork\<close>\<close>

definition mtn_get_network :: "'m \<Rightarrow> 'n option \<Rightarrow> ('m \<rightharpoonup> 'n) \<Rightarrow> 'n option" where
  "mtn_get_network mac dflt t = (case t mac of None \<Rightarrow> dflt | Some n \<Rightarrow> Some n)"

definition mtn_add_mac ::
  "('m \<Rightarrow> string res) \<Rightarrow> 'm \<Rightarrow> 'n \<Rightarrow> 'n option \<Rightarrow> ('m \<rightharpoonup> 'n) \<Rightarrow> unit ryu \<times> ('m \<rightharpoonup> 'n)"
where
  "mtn_add_mac hs mac nw_id nw_id_external t =
     (if t mac = Some nw_id then (Inr (), t)
      else if t mac = None \<or> t mac = nw_id_external then
        (case hs mac of
           Inl e \<Rightarrow> (Inl (Py e), t(mac \<mapsto> nw_id)) | Inr _ \<Rightarrow> (Inr (), t(mac \<mapsto> nw_id)))
      else if Some nw_id = nw_id_external then (Inr (), t)
      else (case hs mac of Inl e \<Rightarrow> (Inl (Py e), t) | Inr _ \<Rightarrow> (Inl MacAddressDuplicated, t)))"

definition mtn_del_mac :: "'m \<Rightarrow> ('m \<rightharpoonup> 'n) \<Rightarrow> ('m \<rightharpoonup> 'n) res" where
  "mtn_del_mac mac t = (if t mac = None then Inl KeyError else Inr (t(mac := None)))"

text \<open>
  An address once bound to a network other than the external one keeps it, whatever is learned
  later; from the external network it may move once.
\<close>

definition mtn_learn ::
  "('m \<Rightarrow> string res) \<Rightarrow> 'n option \<Rightarrow> ('m \<times> 'n) list \<Rightarrow> ('m \<rightharpoonup> 'n) \<Rightarrow> ('m \<rightharpoonup> 'n)" where
  "mtn_learn hs ext xs t = fold (\<lambda>(m, n) t. snd (mtn_add_mac hs m n ext t)) xs t"

lemma mtn_add_mac_other: "m' \<noteq> m \<Longrightarrow> snd (mtn_add_mac hs m n ext t) m' = t m'"
  by (simp add: mtn_add_mac_def split: sum.split)

lemma mtn_add_mac_bound:
  "t m = Some n \<Longrightarrow> Some n \<noteq> ext \<Longrightarrow> snd (mtn_add_mac hs m' n' ext t) m = Some n"
  by (cases "m' = m") (auto simp: mtn_add_mac_other mtn_add_mac_def split: sum.splits)

lemma mtn_learn_bound:
  assumes "t m = Some n" "Some n \<noteq> ext"
  shows "mtn_learn hs ext xs t m = Some n"
  using assms by (induction xs arbitrary: t) (auto simp: mtn_learn_def mtn_add_mac_bound)

section \<open>Components whose events tell their state\<close>

text \<open>
  \<open>oper c s\<close> is the state after a call and the events it sent; \<open>apply_ev\<close> is what an observer
  does with an event to its copy.
\<close>

locale mirrored =
  fixes oper :: "'c \<Rightarrow> 's \<Rightarrow> 's \<times> 'e list"
    and apply_ev :: "'e \<Rightarrow> 'v \<Rightarrow> 'v"
    and observed :: "'s \<Rightarrow> 'v"
    and good :: "'s \<Rightarrow> bool"
  assumes good_oper: "good s \<Longrightarrow> good (fst (oper c s))"
    and mirror: "good s \<Longrightarrow> observed (fst (oper c s)) = fold apply_ev (snd (oper c s)) (observed s)"
begin

fun run :: "'c list \<Rightarrow> 's \<Rightarrow> 's \<times> 'e list" where
  "run [] s = (s, [])"
| "run (c # cs) s =
     (let (s1, es1) = oper c s; (s2, es2) = run cs s1 in (s2, es1 @ es2))"

lemma run_good: "good s \<Longrightarrow> good (fst (run cs s))"
proof (induction cs arbitrary: s)
  case (Cons c cs)
  then show ?case using good_oper [of s c] by (simp add: Let_def case_prod_beta)
qed simp

lemma run_mirror: "good s \<Longrightarrow> observed (fst (run cs s)) = fold apply_ev (snd (run cs s)) (observed s)"
proof (induction cs arbitrary: s)
  case (Cons c cs)
  from Cons.IH [OF good_oper [OF Cons.prems, of c]] mirror [OF Cons.prems, of c]
  show ?case by (simp add: Let_def case_prod_beta)
qed simp

end

section \<open>\<open>tunnels.TunnelKeys\<close>\<close>

datatype 'n key_event = EventTunnelKeyAdd 'n nat | EventTunnelKeyDel 'n nat

type_synonym 'n tunnel_keys = "('n, nat) dict"
type_synonym ('n, 'a) tk_result = "'a ryu \<times> 'n tunnel_keys \<times> 'n key_event list"

definition tk_get_key :: "'n \<Rightarrow> 'n tunnel_keys \<Rightarrow> nat ryu" where
  "tk_get_key nw d = (case dict_get d nw of None \<Rightarrow> Inl TunnelKeyNotFound | Some k \<Rightarrow> Inr k)"

definition tk_set_key :: "'n \<Rightarrow> nat \<Rightarrow> 'n tunnel_keys \<Rightarrow> ('n, unit) tk_result" where
  "tk_set_key nw k d = (Inr (), dict_set nw k d, [EventTunnelKeyAdd nw k])"

definition tk_register_key :: "'n \<Rightarrow> nat \<Rightarrow> 'n tunnel_keys \<Rightarrow> ('n, unit) tk_result" where
  "tk_register_key nw k d =
     (if dict_get d nw \<noteq> None then (Inl NetworkAlreadyExist, d, [])
      else if k \<in> set (dict_values d) then (Inl TunnelKeyAlreadyExist, d, [])
      else tk_set_key nw k d)"

definition tk_update_key :: "'n \<Rightarrow> nat \<Rightarrow> 'n tunnel_keys \<Rightarrow> ('n, unit) tk_result" where
  "tk_update_key nw k d =
     (if dict_get d nw = None \<and> k \<in> set (dict_values d) then (Inl TunnelKeyAlreadyExist, d, [])
      else (case dict_get d nw of
              None \<Rightarrow> tk_set_key nw k d
            | Some key \<Rightarrow>
                if key \<noteq> k then (Inl NetworkAlreadyExist, d, []) else (Inr (), d, [])))"

definition tk_delete_key :: "'n \<Rightarrow> 'n tunnel_keys \<Rightarrow> ('n, unit) tk_result" where
  "tk_delete_key nw d =
     (case dict_get d nw of
        None \<Rightarrow> (Inl NetworkNotFound, d, [])
      | Some k \<Rightarrow> (Inr (), dict_del nw d, [EventTunnelKeyDel nw k]))"

datatype 'n key_call = Register_key 'n nat | Update_key 'n nat | Delete_key 'n

fun do_key_call :: "'n key_call \<Rightarrow> 'n tunnel_keys \<Rightarrow> 'n tunnel_keys \<times> 'n key_event list" where
  "do_key_call (Register_key nw k) d = snd (tk_register_key nw k d)"
| "do_key_call (Update_key nw k) d = snd (tk_update_key nw k d)"
| "do_key_call (Delete_key nw) d = snd (tk_delete_key nw d)"

text \<open>Two networks never share a key.\<close>

definition tk_ok :: "'n tunnel_keys \<Rightarrow> bool" where
  "tk_ok d \<longleftrightarrow> dict_wf d \<and> (\<forall>a b k. dict_get d a = Some k \<and> dict_get d b = Some k \<longrightarrow> a = b)"

fun apply_key_event :: "'n key_event \<Rightarrow> ('n \<rightharpoonup> nat) \<Rightarrow> ('n \<rightharpoonup> nat)" where
  "apply_key_event (EventTunnelKeyAdd nw k) m = m(nw \<mapsto> k)"
| "apply_key_event (EventTunnelKeyDel nw k) m = m(nw := None)"

lemma tk_set_ok:
  assumes "tk_ok d" "k \<notin> set (dict_values d)"
  shows "tk_ok (dict_set nw k d)"
  using assms dict_values_iff [of d k] by (auto simp: tk_ok_def)

lemma do_key_call_ok: "tk_ok d \<Longrightarrow> tk_ok (fst (do_key_call c d))"
proof (cases c)
  case (Delete_key nw)
  assume "tk_ok d"
  then have "tk_ok (dict_del nw d)" by (auto simp: tk_ok_def)
  with \<open>tk_ok d\<close> show ?thesis by (simp add: Delete_key tk_delete_key_def split: option.split)
qed (auto simp: tk_register_key_def tk_update_key_def tk_set_key_def tk_set_ok split: option.split)

interpretation tunnel_keys: mirrored do_key_call apply_key_event dict_get tk_ok
proof
  show "dict_get (fst (do_key_call c s)) = fold apply_key_event (snd (do_key_call c s)) (dict_get s)"
    if "tk_ok s" for c and s :: "'n tunnel_keys"
    by (cases c) (auto simp: tk_register_key_def tk_update_key_def tk_delete_key_def tk_set_key_def
        fun_eq_iff split: option.splits)
qed (rule do_key_call_ok)

section \<open>\<open>tunnels.DPIDs\<close>\<close>

text \<open>The ports of a datapath; \<open>defaultdict\<close> makes a missing datapath an empty row.\<close>

datatype tunnel_event = EventTunnelPort nat nat nat bool

type_synonym tunnel_dpids = "nat \<Rightarrow> (nat, nat) dict"
type_synonym 'a td_result = "'a ryu \<times> tunnel_dpids \<times> tunnel_event list"

definition td_list_ports :: "nat \<Rightarrow> tunnel_dpids \<Rightarrow> (nat, nat) dict" where
  "td_list_ports dpid d = d dpid"

definition td_add_raw :: "nat \<Rightarrow> nat \<Rightarrow> nat \<Rightarrow> tunnel_dpids \<Rightarrow> unit td_result" where
  "td_add_raw dpid port remote d =
     (Inr (), d(dpid := dict_set port remote (d dpid)), [EventTunnelPort dpid port remote True])"

definition td_add_remote_dpid :: "nat \<Rightarrow> nat \<Rightarrow> nat \<Rightarrow> tunnel_dpids \<Rightarrow> unit td_result" where
  "td_add_remote_dpid dpid port remote d =
     (if dict_get (d dpid) port \<noteq> None then (Inl PortAlreadyExist, d, [])
      else td_add_raw dpid port remote d)"

definition td_update_remote_dpid :: "nat \<Rightarrow> nat \<Rightarrow> nat \<Rightarrow> tunnel_dpids \<Rightarrow> unit td_result" where
  "td_update_remote_dpid dpid port remote d =
     (case dict_get (d dpid) port of
        None \<Rightarrow> td_add_raw dpid port remote d
      | Some r \<Rightarrow>
          if r \<noteq> remote then (Inl RemoteDPIDAlreadyExist, d, []) else (Inr (), d, []))"

definition td_get_remote_dpid :: "nat \<Rightarrow> nat \<Rightarrow> tunnel_dpids \<Rightarrow> nat ryu" where
  "td_get_remote_dpid dpid port d =
     (case dict_get (d dpid) port of None \<Rightarrow> Inl PortNotFound | Some r \<Rightarrow> Inr r)"

definition td_delete_port :: "nat \<Rightarrow> nat \<Rightarrow> tunnel_dpids \<Rightarrow> unit td_result" where
  "td_delete_port dpid port d =
     (case dict_get (d dpid) port of
        None \<Rightarrow> (Inl PortNotFound, d, [])
      | Some r \<Rightarrow>
          (Inr (), d(dpid := dict_del port (d dpid)), [EventTunnelPort dpid port r False]))"

text \<open>\<open>assert len(res) <= 1\<close> is an \<open>AssertionError\<close> when two ports lead to the same peer.\<close>

definition td_get_port :: "nat \<Rightarrow> nat \<Rightarrow> tunnel_dpids \<Rightarrow> nat ryu" where
  "td_get_port dpid remote d =
     (let res = map fst (filter (\<lambda>(p, r). r = remote) (d dpid))
      in if length res > 1 then Inl (Py AssertionError)
         else if res = [] then Inl PortNotFound else Inr (hd res))"

datatype port_call =
    Register_port nat nat nat
  | Update_port nat nat nat
  | Delete_port nat nat

fun do_port_call :: "port_call \<Rightarrow> tunnel_dpids \<Rightarrow> tunnel_dpids \<times> tunnel_event list" where
  "do_port_call (Register_port dpid port remote) d = snd (td_add_remote_dpid dpid port remote d)"
| "do_port_call (Update_port dpid port remote) d = snd (td_update_remote_dpid dpid port remote d)"
| "do_port_call (Delete_port dpid port) d = snd (td_delete_port dpid port d)"

fun apply_tunnel_event :: "tunnel_event \<Rightarrow> (nat \<times> nat \<rightharpoonup> nat) \<Rightarrow> (nat \<times> nat \<rightharpoonup> nat)" where
  "apply_tunnel_event (EventTunnelPort dpid port remote add) m =
     (if add then m((dpid, port) \<mapsto> remote) else m((dpid, port) := None))"

definition td_view :: "tunnel_dpids \<Rightarrow> nat \<times> nat \<rightharpoonup> nat" where
  "td_view d = (\<lambda>(dpid, port). dict_get (d dpid) port)"

definition td_ok :: "tunnel_dpids \<Rightarrow> bool" where
  "td_ok d \<longleftrightarrow> (\<forall>dpid. dict_wf (d dpid))"

lemmas td_ops = td_add_remote_dpid_def td_update_remote_dpid_def td_delete_port_def td_add_raw_def

interpretation tunnel_ports: mirrored do_port_call apply_tunnel_event td_view td_ok
proof
  fix s :: tunnel_dpids and c
  assume "td_ok s"
  then show "td_ok (fst (do_port_call c s))"
    by (cases c) (auto simp: td_ops td_ok_def split: option.split)
  show "td_view (fst (do_port_call c s)) = fold apply_tunnel_event (snd (do_port_call c s)) (td_view s)"
    by (cases c) (auto simp: td_ops td_view_def fun_eq_iff split: option.split)
qed

text \<open>
  \<open>get_port\<close> inverts \<open>get_remote_dpid\<close> where no two ports of the datapath share a peer, and is
  an assertion failure where they do.
\<close>

lemma td_get_port_filter:
  assumes "dict_wf r"
  shows "set (map fst (filter (\<lambda>(p, q). q = remote) r)) = {p. dict_get r p = Some remote}"
    and "distinct (map fst (filter (\<lambda>(p, q). q = remote) r))"
  using assms by (force simp: dict_in_iff [symmetric], simp add: dict_wf_def distinct_map_filter)

lemma distinct_one:
  assumes "distinct xs"
  shows "xs = [p] \<longleftrightarrow> set xs = {p}" "length xs > 1 \<longleftrightarrow> (\<exists>p q. p \<noteq> q \<and> p \<in> set xs \<and> q \<in> set xs)"
proof -
  show "xs = [p] \<longleftrightarrow> set xs = {p}"
    using assms by (cases xs; cases "tl xs") auto
  show "length xs > 1 \<longleftrightarrow> (\<exists>p q. p \<noteq> q \<and> p \<in> set xs \<and> q \<in> set xs)"
    using assms by (cases xs; cases "tl xs") auto
qed

lemma td_get_port_iff:
  assumes "td_ok d"
  shows "td_get_port dpid remote d = Inr p \<longleftrightarrow>
      (\<forall>q. td_get_remote_dpid dpid q d = Inr remote \<longleftrightarrow> q = p)"
    and "td_get_port dpid remote d = Inl (Py AssertionError) \<longleftrightarrow>
      (\<exists>p q. p \<noteq> q \<and> td_get_remote_dpid dpid p d = Inr remote \<and>
             td_get_remote_dpid dpid q d = Inr remote)"
proof -
  define xs where "xs = map fst (filter (\<lambda>(p, q). q = remote) (d dpid))"
  have wf: "dict_wf (d dpid)" using assms by (simp add: td_ok_def)
  have st: "set xs = {q. td_get_remote_dpid dpid q d = Inr remote}"
    using td_get_port_filter(1) [OF wf]
    by (auto simp: xs_def td_get_remote_dpid_def split: option.splits)
  have ds: "distinct xs" using td_get_port_filter(2) [OF wf] by (simp add: xs_def)
  have gp: "td_get_port dpid remote d =
      (if length xs > 1 then Inl (Py AssertionError) else if xs = [] then Inl PortNotFound else Inr (hd xs))"
    by (simp add: td_get_port_def xs_def Let_def)
  have "td_get_port dpid remote d = Inr p \<longleftrightarrow> xs = [p]"
    unfolding gp by (cases xs; cases "tl xs") auto
  then show "td_get_port dpid remote d = Inr p \<longleftrightarrow> (\<forall>q. td_get_remote_dpid dpid q d = Inr remote \<longleftrightarrow> q = p)"
    unfolding distinct_one(1) [OF ds] st by blast
  have "td_get_port dpid remote d = Inl (Py AssertionError) \<longleftrightarrow> length xs > 1"
    unfolding gp by simp
  then show "td_get_port dpid remote d = Inl (Py AssertionError) \<longleftrightarrow>
      (\<exists>p q. p \<noteq> q \<and> td_get_remote_dpid dpid p d = Inr remote \<and>
             td_get_remote_dpid dpid q d = Inr remote)"
    unfolding distinct_one(2) [OF ds] st by blast
qed

section \<open>\<open>tunnels.Tunnels\<close>\<close>

datatype 'n tunnels_event = Key_event "'n key_event" | Port_event tunnel_event

record 'n tunnels =
  tn_keys :: "'n tunnel_keys"
  tn_dpids :: tunnel_dpids
  tn_events :: "'n tunnels_event list"

definition tunnels_init :: "'n tunnels" where
  "tunnels_init = \<lparr>tn_keys = [], tn_dpids = (\<lambda>_. []), tn_events = []\<rparr>"

definition on_keys ::
  "('n tunnel_keys \<Rightarrow> ('n, 'a) tk_result) \<Rightarrow> 'n tunnels \<Rightarrow> 'a ryu \<times> 'n tunnels" where
  "on_keys f t =
     (let (r, d, es) = f (tn_keys t)
      in (r, t\<lparr>tn_keys := d, tn_events := tn_events t @ map Key_event es\<rparr>))"

definition on_dpids ::
  "(tunnel_dpids \<Rightarrow> 'a td_result) \<Rightarrow> 'n tunnels \<Rightarrow> 'a ryu \<times> 'n tunnels" where
  "on_dpids f t =
     (let (r, d, es) = f (tn_dpids t)
      in (r, t\<lparr>tn_dpids := d, tn_events := tn_events t @ map Port_event es\<rparr>))"

definition tunnels_register_key :: "'n \<Rightarrow> nat \<Rightarrow> 'n tunnels \<Rightarrow> unit ryu \<times> 'n tunnels" where
  "tunnels_register_key nw k = on_keys (tk_register_key nw k)"

definition tunnels_update_key :: "'n \<Rightarrow> nat \<Rightarrow> 'n tunnels \<Rightarrow> unit ryu \<times> 'n tunnels" where
  "tunnels_update_key nw k = on_keys (tk_update_key nw k)"

definition tunnels_delete_key :: "'n \<Rightarrow> 'n tunnels \<Rightarrow> unit ryu \<times> 'n tunnels" where
  "tunnels_delete_key nw = on_keys (tk_delete_key nw)"

definition tunnels_register_port :: "nat \<Rightarrow> nat \<Rightarrow> nat \<Rightarrow> 'n tunnels \<Rightarrow> unit ryu \<times> 'n tunnels" where
  "tunnels_register_port dpid port remote = on_dpids (td_add_remote_dpid dpid port remote)"

definition tunnels_update_port :: "nat \<Rightarrow> nat \<Rightarrow> nat \<Rightarrow> 'n tunnels \<Rightarrow> unit ryu \<times> 'n tunnels" where
  "tunnels_update_port dpid port remote = on_dpids (td_update_remote_dpid dpid port remote)"

definition tunnels_delete_port :: "nat \<Rightarrow> nat \<Rightarrow> 'n tunnels \<Rightarrow> unit ryu \<times> 'n tunnels" where
  "tunnels_delete_port dpid port = on_dpids (td_delete_port dpid port)"

end
