(* ===== verification/Ctl_Network.thy ===== *)
theory Ctl_Network
  imports Ctl_Tables
begin

text \<open>
  \<open>ryu/controller/network.py\<close>: which ports and addresses belong to which tenant network, and
  the isolation queries built on it.  Network ids and addresses are strings.  The set of ports
  of a network is a list without repetitions, in the order the ports were added; the order in
  which Python empties the set on removal is not specified.
\<close>

section \<open>State and events\<close>

type_synonym port_ref = "nat \<times> nat"

datatype net_event =
    EventNetworkDel string
  | EventNetworkPort string nat nat bool
  | EventMacAddress nat nat string string bool

record net_port =
  np_no :: nat
  np_network :: string
  np_mac :: "string option"

type_synonym mac_to_ports = "(string, port_ref list) dict"

record network =
  nw_id_unknown :: string
  networks :: "(string, port_ref list) dict"
  dpids :: "(nat, (nat, net_port) dict) dict"
  mac_addresses :: "(string, mac_to_ports) dict"
  net_events :: "net_event list"

definition NW_ID_UNKNOWN :: string where "NW_ID_UNKNOWN = ''__NW_ID_UNKNOWN__''"

definition network_init :: "string \<Rightarrow> network" where
  "network_init unknown =
     \<lparr>nw_id_unknown = unknown, networks = [], dpids = [], mac_addresses = [], net_events = []\<rparr>"

type_synonym 'a net = "network \<Rightarrow> 'a ryu \<times> network"

definition net_send :: "net_event list \<Rightarrow> network \<Rightarrow> network" where
  "net_send es s = s\<lparr>net_events := net_events s @ es\<rparr>"

section \<open>\<open>Networks\<close>\<close>

definition networks_update_network :: "string \<Rightarrow> network \<Rightarrow> network" where
  "networks_update_network n s =
     (case dict_get (networks s) n of
        None \<Rightarrow> s\<lparr>networks := dict_set n [] (networks s)\<rparr> | Some _ \<Rightarrow> s)"

definition networks_create :: "string \<Rightarrow> unit net" where
  "networks_create n s =
     (if dict_get (networks s) n \<noteq> None then (Inl NetworkAlreadyExist, s)
      else (Inr (), s\<lparr>networks := dict_set n [] (networks s)\<rparr>))"

definition networks_remove_network :: "string \<Rightarrow> unit net" where
  "networks_remove_network n s =
     (case dict_get (networks s) n of
        None \<Rightarrow> (Inl NetworkNotFound, s)
      | Some ports \<Rightarrow>
          (Inr (),
           net_send (map (\<lambda>(d, p). EventNetworkPort n d p False) ports @ [EventNetworkDel n])
             (s\<lparr>networks := dict_del n (networks s)\<rparr>)))"

definition networks_list_ports :: "string \<Rightarrow> network \<Rightarrow> port_ref list ryu" where
  "networks_list_ports n s =
     (case dict_get (networks s) n of None \<Rightarrow> Inl NetworkNotFound | Some ports \<Rightarrow> Inr ports)"

definition networks_add_raw :: "string \<Rightarrow> nat \<Rightarrow> nat \<Rightarrow> unit net" where
  "networks_add_raw n d p s =
     (case dict_get (networks s) n of
        None \<Rightarrow> (Inl (Py KeyError), s)
      | Some ports \<Rightarrow>
          (Inr (), s\<lparr>networks := dict_set n (List.insert (d, p) ports) (networks s)\<rparr>))"

definition networks_remove_raw :: "string \<Rightarrow> nat \<Rightarrow> nat \<Rightarrow> unit net" where
  "networks_remove_raw n d p s =
     (case dict_get (networks s) n of
        None \<Rightarrow> (Inl (Py KeyError), s)
      | Some ports \<Rightarrow>
          if (d, p) \<in> set ports then
            (Inr (),
             net_send [EventNetworkPort n d p False]
               (s\<lparr>networks := dict_set n (remove1 (d, p) ports) (networks s)\<rparr>))
          else (Inr (), s))"

definition networks_remove :: "string \<Rightarrow> nat \<Rightarrow> nat \<Rightarrow> unit net" where
  "networks_remove n d p s =
     (case networks_remove_raw n d p s of
        (Inl (Py KeyError), s') \<Rightarrow> (Inl NetworkNotFound, s')
      | (Inl (Py (ValueError m)), s') \<Rightarrow> (Inl PortNotFound, s')
      | r \<Rightarrow> r)"

definition networks_has_port :: "string \<Rightarrow> nat \<Rightarrow> nat \<Rightarrow> network \<Rightarrow> bool ryu" where
  "networks_has_port n d p s =
     (case dict_get (networks s) n of None \<Rightarrow> Inl (Py KeyError) | Some ps \<Rightarrow> Inr ((d, p) \<in> set ps))"

definition networks_get_dpids :: "string \<Rightarrow> network \<Rightarrow> nat set" where
  "networks_get_dpids n s =
     (case dict_get (networks s) n of None \<Rightarrow> {} | Some ports \<Rightarrow> fst ` set ports)"

section \<open>\<open>DPIDs\<close>\<close>

definition row_of :: "nat \<Rightarrow> network \<Rightarrow> (nat, net_port) dict" where
  "row_of d s = (case dict_get (dpids s) d of None \<Rightarrow> [] | Some r \<Rightarrow> r)"

definition put_port :: "nat \<Rightarrow> nat \<Rightarrow> net_port \<Rightarrow> network \<Rightarrow> network" where
  "put_port d p pt s = s\<lparr>dpids := dict_set d (dict_set p pt (row_of d s)) (dpids s)\<rparr>"

definition setdefault_dpid :: "nat \<Rightarrow> network \<Rightarrow> network" where
  "setdefault_dpid d s =
     (case dict_get (dpids s) d of None \<Rightarrow> s\<lparr>dpids := dict_set d [] (dpids s)\<rparr> | Some _ \<Rightarrow> s)"

definition setdefault_port :: "nat \<Rightarrow> nat \<Rightarrow> string \<Rightarrow> network \<Rightarrow> net_port \<times> network" where
  "setdefault_port d p n s =
     (let s1 = setdefault_dpid d s in
      case dict_get (row_of d s1) p of
        Some pt \<Rightarrow> (pt, s1)
      | None \<Rightarrow> (let pt = \<lparr>np_no = p, np_network = n, np_mac = None\<rparr> in (pt, put_port d p pt s1)))"

definition dpids_setdefault_network :: "nat \<Rightarrow> nat \<Rightarrow> network \<Rightarrow> network" where
  "dpids_setdefault_network d p s = snd (setdefault_port d p (nw_id_unknown s) s)"

definition dpids_update_port :: "nat \<Rightarrow> nat \<Rightarrow> string \<Rightarrow> network \<Rightarrow> network" where
  "dpids_update_port d p n s =
     (let (pt, s1) = setdefault_port d p n s in put_port d p (pt\<lparr>np_network := n\<rparr>) s1)"

definition mac_truthy :: "string option \<Rightarrow> bool" where
  "mac_truthy m = (case m of None \<Rightarrow> False | Some x \<Rightarrow> x \<noteq> [])"

definition dpids_remove_port :: "nat \<Rightarrow> nat \<Rightarrow> unit net" where
  "dpids_remove_port d p s =
     (case dict_get (dpids s) d of
        None \<Rightarrow> (Inl PortNotFound, s)
      | Some row \<Rightarrow>
          let s1 = s\<lparr>dpids := dict_set d (dict_del p row) (dpids s)\<rparr> in
          case dict_get row p of
            None \<Rightarrow> (Inr (), s1)
          | Some pt \<Rightarrow>
              if np_network pt \<noteq> [] \<and> mac_truthy (np_mac pt) then
                (Inr (), net_send [EventMacAddress d p (np_network pt) (the (np_mac pt)) False] s1)
              else (Inr (), s1))"

definition dpids_get_ports ::
  "nat \<Rightarrow> string option \<Rightarrow> string option \<Rightarrow> network \<Rightarrow> net_port list" where
  "dpids_get_ports d nw mac s =
     (case nw of
        None \<Rightarrow> dict_values (row_of d s)
      | Some n \<Rightarrow>
          (case mac of
             None \<Rightarrow> filter (\<lambda>p. np_network p = n) (dict_values (row_of d s))
           | Some m \<Rightarrow>
               filter (\<lambda>p. np_network p = n \<and> np_mac p = Some m) (dict_values (row_of d s))))"

definition dpids_get_port :: "nat \<Rightarrow> nat \<Rightarrow> network \<Rightarrow> net_port ryu" where
  "dpids_get_port d p s =
     (case dict_get (row_of d s) p of None \<Rightarrow> Inl PortNotFound | Some pt \<Rightarrow> Inr pt)"

definition dpids_get_network :: "nat \<Rightarrow> nat \<Rightarrow> network \<Rightarrow> string ryu" where
  "dpids_get_network d p s =
     (case dict_get (row_of d s) p of None \<Rightarrow> Inl PortUnknown | Some pt \<Rightarrow> Inr (np_network pt))"

text \<open>\<open>set(self[dpid].values())\<close>: the ports themselves, not their networks.\<close>

definition dpids_get_networks :: "nat \<Rightarrow> network \<Rightarrow> net_port list ryu" where
  "dpids_get_networks d s =
     (case dict_get (dpids s) d of None \<Rightarrow> Inl (Py KeyError) | Some row \<Rightarrow> Inr (dict_values row))"

definition dpids_get_network_safe :: "nat \<Rightarrow> nat \<Rightarrow> network \<Rightarrow> string" where
  "dpids_get_network_safe d p s =
     (case dict_get (row_of d s) p of None \<Rightarrow> nw_id_unknown s | Some pt \<Rightarrow> np_network pt)"

definition dpids_get_mac :: "nat \<Rightarrow> nat \<Rightarrow> network \<Rightarrow> string option ryu" where
  "dpids_get_mac d p s = map_sum id np_mac (dpids_get_port d p s)"

definition dpids_set_mac_raw :: "string \<Rightarrow> nat \<Rightarrow> nat \<Rightarrow> net_port \<Rightarrow> string \<Rightarrow> unit net" where
  "dpids_set_mac_raw n d p pt mac s =
     (if \<not> (np_network pt = n \<or> np_network pt = nw_id_unknown s) then (Inl PortNotFound, s)
      else
        let s1 = put_port d p (pt\<lparr>np_network := n, np_mac := Some mac\<rparr>) s
        in if n \<noteq> [] \<and> mac \<noteq> [] then (Inr (), net_send [EventMacAddress d p n mac True] s1)
           else (Inr (), s1))"

definition dpids_set_mac :: "string \<Rightarrow> nat \<Rightarrow> nat \<Rightarrow> string \<Rightarrow> unit net" where
  "dpids_set_mac n d p mac s =
     (case dpids_get_port d p s of
        Inl e \<Rightarrow> (Inl e, s)
      | Inr pt \<Rightarrow>
          if np_mac pt \<noteq> None then (Inl MacAddressAlreadyExist, s)
          else dpids_set_mac_raw n d p pt mac s)"

definition dpids_update_mac :: "string \<Rightarrow> nat \<Rightarrow> nat \<Rightarrow> string \<Rightarrow> unit net" where
  "dpids_update_mac n d p mac s =
     (case dpids_get_port d p s of
        Inl e \<Rightarrow> (Inl e, s)
      | Inr pt \<Rightarrow>
          if np_mac pt = None then dpids_set_mac_raw n d p pt mac s
          else if np_mac pt \<noteq> Some mac then (Inl MacAddressAlreadyExist, s)
          else (Inr (), s))"

section \<open>\<open>MacToPort\<close> and \<open>MacAddresses\<close>\<close>

text \<open>Reading a missing address of the \<open>defaultdict\<close> creates it.\<close>

definition mac_row :: "string \<Rightarrow> mac_to_ports \<Rightarrow> port_ref list" where
  "mac_row mac t = (case dict_get t mac of None \<Rightarrow> [] | Some ps \<Rightarrow> ps)"

definition m2p_add_port :: "nat \<Rightarrow> nat \<Rightarrow> string \<Rightarrow> mac_to_ports \<Rightarrow> mac_to_ports" where
  "m2p_add_port d p mac t = dict_set mac (List.insert (d, p) (mac_row mac t)) t"

definition m2p_remove_port :: "nat \<Rightarrow> nat \<Rightarrow> string \<Rightarrow> mac_to_ports \<Rightarrow> mac_to_ports" where
  "m2p_remove_port d p mac t =
     (let ps = remove1 (d, p) (mac_row mac t)
      in if ps = [] then dict_del mac (dict_set mac ps t) else dict_set mac ps t)"

definition m2p_get_ports :: "string \<Rightarrow> mac_to_ports \<Rightarrow> port_ref list \<times> mac_to_ports" where
  "m2p_get_ports mac t = (mac_row mac t, dict_set mac (mac_row mac t) t)"

definition macs_add_port :: "string \<Rightarrow> nat \<Rightarrow> nat \<Rightarrow> string \<Rightarrow> network \<Rightarrow> network" where
  "macs_add_port n d p mac s =
     (let t = (case dict_get (mac_addresses s) n of None \<Rightarrow> [] | Some t \<Rightarrow> t)
      in s\<lparr>mac_addresses := dict_set n (m2p_add_port d p mac t) (mac_addresses s)\<rparr>)"

definition macs_remove_port :: "string \<Rightarrow> nat \<Rightarrow> nat \<Rightarrow> string \<Rightarrow> network \<Rightarrow> network" where
  "macs_remove_port n d p mac s =
     (case dict_get (mac_addresses s) n of
        None \<Rightarrow> s
      | Some t \<Rightarrow>
          let t' = m2p_remove_port d p mac t
          in s\<lparr>mac_addresses := (if t' = [] then dict_del n (dict_set n t' (mac_addresses s))
                                 else dict_set n t' (mac_addresses s))\<rparr>)"

definition macs_get_ports :: "string \<Rightarrow> string \<Rightarrow> network \<Rightarrow> port_ref list \<times> network" where
  "macs_get_ports n mac s =
     (case dict_get (mac_addresses s) n of
        None \<Rightarrow> ([], s)
      | Some t \<Rightarrow>
          if t = [] then ([], s)
          else let (ps, t') = m2p_get_ports mac t
               in (ps, s\<lparr>mac_addresses := dict_set n t' (mac_addresses s)\<rparr>))"

section \<open>\<open>Network\<close>\<close>

definition check_nw_id_unknown :: "string \<Rightarrow> network \<Rightarrow> unit ryu" where
  "check_nw_id_unknown n s = (if n = nw_id_unknown s then Inl NetworkAlreadyExist else Inr ())"

definition net_update_network :: "string \<Rightarrow> unit net" where
  "net_update_network n s =
     (case check_nw_id_unknown n s of Inl e \<Rightarrow> (Inl e, s) | Inr _ \<Rightarrow> (Inr (), networks_update_network n s))"

definition net_create_network :: "string \<Rightarrow> unit net" where
  "net_create_network n s =
     (case check_nw_id_unknown n s of Inl e \<Rightarrow> (Inl e, s) | Inr _ \<Rightarrow> networks_create n s)"

definition list_ports_noraise :: "string \<Rightarrow> network \<Rightarrow> port_ref list" where
  "list_ports_noraise n s = (case networks_list_ports n s of Inl e \<Rightarrow> [] | Inr ps \<Rightarrow> ps)"

definition known_nw_id :: "string \<Rightarrow> network \<Rightarrow> bool" where
  "known_nw_id n s \<longleftrightarrow> n \<noteq> nw_id_unknown s"

definition key_error_to :: "ryu_exn \<Rightarrow> ryu_exn \<Rightarrow> ryu_exn" where
  "key_error_to e x = (if x = Py KeyError then e else x)"

definition move_port :: "string \<Rightarrow> string \<Rightarrow> nat \<Rightarrow> nat \<Rightarrow> unit net" where
  "move_port old n d p s =
     (case networks_add_raw n d p s of
        (Inl e, s1) \<Rightarrow> (Inl e, s1)
      | (Inr _, s1) \<Rightarrow>
          if known_nw_id old s1 then networks_remove_raw old d p s1 else (Inr (), s1))"

definition net_update_port_gen :: "string \<Rightarrow> nat \<Rightarrow> nat \<Rightarrow> bool \<Rightarrow> unit net" where
  "net_update_port_gen n d p port_may_exist s =
     (case check_nw_id_unknown n s of
        Inl e \<Rightarrow> (Inl e, s)
      | Inr _ \<Rightarrow>
          let old = dpids_get_network_safe d p s in
          case networks_has_port n d p s of
            Inl e \<Rightarrow> (Inl (key_error_to NetworkNotFound e), s)
          | Inr here \<Rightarrow>
              if (here \<or> known_nw_id old s) \<and> \<not> port_may_exist then (Inl PortAlreadyExist, s)
              else if old \<noteq> n then
                (case move_port old n d p s of
                   (Inl e, s1) \<Rightarrow> (Inl (key_error_to NetworkNotFound e), s1)
                 | (Inr _, s1) \<Rightarrow>
                     (Inr (), net_send [EventNetworkPort n d p True] (dpids_update_port d p n s1)))
              else (Inr (), dpids_update_port d p n s))"

definition net_create_port :: "string \<Rightarrow> nat \<Rightarrow> nat \<Rightarrow> unit net" where
  "net_create_port n d p = net_update_port_gen n d p False"

definition net_update_port :: "string \<Rightarrow> nat \<Rightarrow> nat \<Rightarrow> unit net" where
  "net_update_port n d p = net_update_port_gen n d p True"

definition get_old_mac :: "string \<Rightarrow> nat \<Rightarrow> nat \<Rightarrow> network \<Rightarrow> string option" where
  "get_old_mac n d p s =
     (case dpids_get_port d p s of
        Inl e \<Rightarrow> None | Inr pt \<Rightarrow> if np_network pt = n then np_mac pt else None)"

definition net_remove_port :: "string \<Rightarrow> nat \<Rightarrow> nat \<Rightarrow> unit net" where
  "net_remove_port n d p s =
     (let old_mac = get_old_mac n d p s in
      case dpids_remove_port d p s of
        (Inl e, s1) \<Rightarrow> (Inl e, s1)
      | (Inr _, s1) \<Rightarrow>
          (case networks_remove n d p s1 of
             (Inl e, s2) \<Rightarrow>
               if e = NetworkNotFound then
                 (Inr (), case old_mac of None \<Rightarrow> s2 | Some m \<Rightarrow> macs_remove_port n d p m s2)
               else (Inl e, s2)
           | (Inr _, s2) \<Rightarrow>
               (Inr (), case old_mac of None \<Rightarrow> s2 | Some m \<Rightarrow> macs_remove_port n d p m s2)))"

definition net_create_mac :: "string \<Rightarrow> nat \<Rightarrow> nat \<Rightarrow> string \<Rightarrow> unit net" where
  "net_create_mac n d p mac s = dpids_set_mac n d p mac (macs_add_port n d p mac s)"

definition net_update_mac :: "string \<Rightarrow> nat \<Rightarrow> nat \<Rightarrow> string \<Rightarrow> unit net" where
  "net_update_mac n d p mac s =
     (let old_mac = get_old_mac n d p s in
      case dpids_update_mac n d p mac s of
        (Inl e, s1) \<Rightarrow> (Inl e, s1)
      | (Inr _, s1) \<Rightarrow>
          let s2 = (case old_mac of None \<Rightarrow> s1 | Some m \<Rightarrow> macs_remove_port n d p m s1)
          in (Inr (), macs_add_port n d p mac s2))"

definition net_list_mac :: "nat \<Rightarrow> nat \<Rightarrow> network \<Rightarrow> string list ryu" where
  "net_list_mac d p s =
     (case dpids_get_mac d p s of
        Inl e \<Rightarrow> Inl e | Inr None \<Rightarrow> Inr [] | Inr (Some m) \<Rightarrow> Inr [m])"

text \<open>Isolation queries; \<open>ext\<close> is \<open>allow_nw_id_external\<close>.\<close>

definition same_network :: "nat \<Rightarrow> string \<Rightarrow> nat \<Rightarrow> string option \<Rightarrow> network \<Rightarrow> bool ryu" where
  "same_network d nw out_port ext s =
     (if nw = nw_id_unknown s then Inl (Py AssertionError)
      else
        let out_nw = dpids_get_network_safe d out_port s
        in if nw = out_nw then Inr True
           else Inr (ext \<noteq> None \<and> (ext = Some nw \<or> ext = Some out_nw)))"

definition filter_ports :: "nat \<Rightarrow> nat \<Rightarrow> string \<Rightarrow> string option \<Rightarrow> network \<Rightarrow> nat list ryu" where
  "filter_ports d in_port nw ext s =
     (if nw = nw_id_unknown s then Inl (Py AssertionError)
      else Inr (map np_no
        (filter (\<lambda>p. np_no p \<noteq> in_port \<and> (np_network p = nw \<or> ext \<noteq> None \<and> ext = Some (np_network p)))
          (dpids_get_ports d None None s))))"

definition net_port_added :: "nat \<Rightarrow> nat \<Rightarrow> nat \<Rightarrow> network \<Rightarrow> network" where
  "net_port_added OFPP_MAX d p s =
     (if p = 0 \<or> p \<ge> OFPP_MAX then s else dpids_setdefault_network d p s)"

definition net_add_datapath :: "nat \<Rightarrow> nat \<Rightarrow> nat list \<Rightarrow> network \<Rightarrow> network" where
  "net_add_datapath OFPP_MAX d ports s =
     fold (net_port_added OFPP_MAX d) ports (setdefault_dpid d s)"

definition net_port_deleted :: "nat \<Rightarrow> nat \<Rightarrow> unit net" where
  "net_port_deleted d p = dpids_remove_port d p"

section \<open>Membership and agreement\<close>

definition in_net :: "network \<Rightarrow> string \<Rightarrow> nat \<Rightarrow> nat \<Rightarrow> bool" where
  "in_net s n d p \<longleftrightarrow> (\<exists>ps. dict_get (networks s) n = Some ps \<and> (d, p) \<in> set ps)"

text \<open>The two views of membership agree: the port sets and the network id in the port object.\<close>

definition agree :: "network \<Rightarrow> bool" where
  "agree s \<longleftrightarrow> (\<forall>n d p. in_net s n d p \<longleftrightarrow>
     n \<noteq> nw_id_unknown s \<and> dpids_get_network_safe d p s = n)"

definition ports_distinct :: "network \<Rightarrow> bool" where
  "ports_distinct s \<longleftrightarrow> (\<forall>n ps. dict_get (networks s) n = Some ps \<longrightarrow> distinct ps)"

lemma agreeD: "agree s \<Longrightarrow> in_net s n d p \<longleftrightarrow> n \<noteq> nw_id_unknown s \<and> dpids_get_network_safe d p s = n"
  by (simp add: agree_def)

lemma net_send_frame [simp]:
  "networks (net_send es s) = networks s" "dpids (net_send es s) = dpids s"
  "mac_addresses (net_send es s) = mac_addresses s" "nw_id_unknown (net_send es s) = nw_id_unknown s"
  by (simp_all add: net_send_def)

lemma row_of_cong: "dpids s = dpids t \<Longrightarrow> row_of d s = row_of d t"
  by (simp add: row_of_def)

lemma safe_cong:
  "dpids s = dpids t \<Longrightarrow> nw_id_unknown s = nw_id_unknown t \<Longrightarrow>
     dpids_get_network_safe d p s = dpids_get_network_safe d p t"
  by (simp add: dpids_get_network_safe_def row_of_cong [of s t] split: option.split)

lemma in_net_cong: "networks s = networks t \<Longrightarrow> in_net s n d p = in_net t n d p"
  by (simp add: in_net_def)

lemma put_port_simps [simp]:
  "networks (put_port d p pt s) = networks s"
  "nw_id_unknown (put_port d p pt s) = nw_id_unknown s"
  "row_of d' (put_port d p pt s) = (if d' = d then dict_set p pt (row_of d s) else row_of d' s)"
  by (simp_all add: put_port_def row_of_def)

lemma setdefault_dpid_simps [simp]:
  "networks (setdefault_dpid d s) = networks s"
  "nw_id_unknown (setdefault_dpid d s) = nw_id_unknown s"
  "row_of d' (setdefault_dpid d s) = row_of d' s"
  by (auto simp: setdefault_dpid_def row_of_def split: option.split)

lemma setdefault_port_simps [simp]:
  "networks (snd (setdefault_port d p n s)) = networks s"
  "nw_id_unknown (snd (setdefault_port d p n s)) = nw_id_unknown s"
  by (auto simp: setdefault_port_def Let_def split: option.split)

lemma dpids_update_port_simps [simp]:
  "networks (dpids_update_port d p n s) = networks s"
  "nw_id_unknown (dpids_update_port d p n s) = nw_id_unknown s"
  by (simp_all add: dpids_update_port_def case_prod_beta)

lemma safe_update_port:
  "dpids_get_network_safe d' p' (dpids_update_port d p n s) =
     (if d' = d \<and> p' = p then n else dpids_get_network_safe d' p' s)"
  by (auto simp: dpids_update_port_def dpids_get_network_safe_def setdefault_port_def Let_def
      split: option.split)

lemma safe_setdefault_network:
  "dpids_get_network_safe d' p' (dpids_setdefault_network d p s) = dpids_get_network_safe d' p' s"
  by (auto simp: dpids_setdefault_network_def dpids_get_network_safe_def setdefault_port_def Let_def
      split: option.split)

lemma set_List_insert: "set (List.insert x xs) = insert x (set xs)"
  by simp

text \<open>Moving a port between two existing networks.\<close>

lemma move_port_ok:
  assumes "dict_get (networks s) n = Some ps" "old \<noteq> n" "ports_distinct s"
    and "known_nw_id old s \<Longrightarrow> dict_get (networks s) old \<noteq> None"
  shows "fst (move_port old n d p s) = Inr ()"
    and "in_net (snd (move_port old n d p s)) n' d' p' \<longleftrightarrow>
      (if d' = d \<and> p' = p then n' = n \<or> (in_net s n' d p \<and> \<not> (n' = old \<and> known_nw_id old s))
       else in_net s n' d' p')"
    and "dpids (snd (move_port old n d p s)) = dpids s"
    and "nw_id_unknown (snd (move_port old n d p s)) = nw_id_unknown s"
    and "ports_distinct (snd (move_port old n d p s))"
proof -
  let ?s1 = "s\<lparr>networks := dict_set n (List.insert (d, p) ps) (networks s)\<rparr>"
  have add: "networks_add_raw n d p s = (Inr (), ?s1)" by (simp add: networks_add_raw_def assms(1))
  have k: "known_nw_id old ?s1 = known_nw_id old s" by (simp add: known_nw_id_def)
  have ds: "distinct (List.insert (d, p) ps)" using assms(1,3) by (auto simp: ports_distinct_def)
  have "fst (move_port old n d p s) = Inr () \<and>
    (in_net (snd (move_port old n d p s)) n' d' p' \<longleftrightarrow>
      (if d' = d \<and> p' = p then n' = n \<or> (in_net s n' d p \<and> \<not> (n' = old \<and> known_nw_id old s))
       else in_net s n' d' p')) \<and>
    dpids (snd (move_port old n d p s)) = dpids s \<and>
    nw_id_unknown (snd (move_port old n d p s)) = nw_id_unknown s \<and>
    ports_distinct (snd (move_port old n d p s))"
  proof (cases "known_nw_id old s")
    case False
    then show ?thesis
      using assms(1,3) ds
      by (auto simp: move_port_def add k in_net_def ports_distinct_def split: if_splits)
  next
    case True
    with assms(4) obtain os where os: "dict_get (networks s) old = Some os" by auto
    have dos: "distinct os" using os assms(3) by (auto simp: ports_distinct_def)
    show ?thesis
      using assms(1,2,3) ds True os dos
      by (auto simp: move_port_def add k networks_remove_raw_def in_net_def ports_distinct_def
          split: if_splits)
  qed
  then show "fst (move_port old n d p s) = Inr ()"
    and "in_net (snd (move_port old n d p s)) n' d' p' \<longleftrightarrow>
      (if d' = d \<and> p' = p then n' = n \<or> (in_net s n' d p \<and> \<not> (n' = old \<and> known_nw_id old s))
       else in_net s n' d' p')"
    and "dpids (snd (move_port old n d p s)) = dpids s"
    and "nw_id_unknown (snd (move_port old n d p s)) = nw_id_unknown s"
    and "ports_distinct (snd (move_port old n d p s))" by simp_all
qed

section \<open>The operations on an agreeing state\<close>

definition net_ok :: "network \<Rightarrow> bool" where
  "net_ok s \<longleftrightarrow> agree s \<and> ports_distinct s"

lemma net_ok_init: "net_ok (network_init u)"
  by (auto simp: net_ok_def agree_def ports_distinct_def in_net_def network_init_def
      dpids_get_network_safe_def row_of_def)

lemma net_ok_cong:
  assumes "networks s = networks t" "nw_id_unknown s = nw_id_unknown t"
    and "\<And>d p. dpids_get_network_safe d p s = dpids_get_network_safe d p t"
  shows "net_ok s = net_ok t"
  using assms by (simp add: net_ok_def agree_def ports_distinct_def in_net_def)

lemma safe_send [simp]: "dpids_get_network_safe d p (net_send es s) = dpids_get_network_safe d p s"
  by (rule safe_cong) simp_all

lemma net_ok_send [simp]: "net_ok (net_send es s) = net_ok s"
  by (rule net_ok_cong) simp_all

text \<open>
  \<open>update_port\<close> on an agreeing state: it fails exactly when the network is unknown, and then
  changes nothing; otherwise the port is in that network and in no other.
\<close>

lemma has_port_iff:
  "networks_has_port n d p s = (if dict_get (networks s) n = None then Inl (Py KeyError) else Inr (in_net s n d p))"
  by (auto simp: networks_has_port_def in_net_def split: option.split)

lemma in_net_exists: "in_net s n d p \<Longrightarrow> dict_get (networks s) n \<noteq> None"
  by (auto simp: in_net_def)

lemma update_port_ok:
  assumes ok: "net_ok s" and n: "n \<noteq> nw_id_unknown s" and ex: "dict_get (networks s) n \<noteq> None"
  shows "fst (net_update_port n d p s) = Inr ()"
    and "net_ok (snd (net_update_port n d p s))"
    and "dpids_get_network_safe d' p' (snd (net_update_port n d p s)) =
      (if d' = d \<and> p' = p then n else dpids_get_network_safe d' p' s)"
    and "nw_id_unknown (snd (net_update_port n d p s)) = nw_id_unknown s"
proof -
  define old where "old = dpids_get_network_safe d p s"
  have ag: "agree s" and di: "ports_distinct s" using ok by (simp_all add: net_ok_def)
  from ex obtain ps where ps: "dict_get (networks s) n = Some ps" by auto
  have c: "check_nw_id_unknown n s = Inr ()" using n by (simp add: check_nw_id_unknown_def)
  have "fst (net_update_port n d p s) = Inr () \<and> net_ok (snd (net_update_port n d p s)) \<and>
    (\<forall>d' p'. dpids_get_network_safe d' p' (snd (net_update_port n d p s)) =
      (if d' = d \<and> p' = p then n else dpids_get_network_safe d' p' s)) \<and>
    nw_id_unknown (snd (net_update_port n d p s)) = nw_id_unknown s"
  proof (cases "old = n")
    case True
    have "snd (net_update_port n d p s) = dpids_update_port d p n s"
      "fst (net_update_port n d p s) = Inr ()"
      using True ps by (simp_all add: net_update_port_def net_update_port_gen_def c has_port_iff
          old_def [symmetric])
    moreover have "net_ok (dpids_update_port d p n s)"
      using ok True by (subst net_ok_cong [of _ s]) (auto simp: safe_update_port old_def)
    ultimately show ?thesis by (simp add: safe_update_port)
  next
    case False
    have old_ex: "known_nw_id old s \<Longrightarrow> dict_get (networks s) old \<noteq> None"
      using agreeD [OF ag, of old d p] by (auto simp: known_nw_id_def old_def dest: in_net_exists)
    note mv = move_port_ok [OF ps False di old_ex, where d = d and p = p]
    obtain s1 where s1: "move_port old n d p s = (Inr (), s1)"
      using mv(1) by (cases "move_port old n d p s") auto
    have f: "fst (net_update_port n d p s) = Inr ()"
      and st: "snd (net_update_port n d p s) =
         net_send [EventNetworkPort n d p True] (dpids_update_port d p n s1)"
      using False ps s1 by (simp_all add: net_update_port_def net_update_port_gen_def c has_port_iff
          old_def [symmetric])
    have safe: "dpids_get_network_safe d' p' (dpids_update_port d p n s1) =
      (if d' = d \<and> p' = p then n else dpids_get_network_safe d' p' s)" for d' p'
      using safe_cong [of s1 s] mv(3,4) s1 by (simp add: safe_update_port)
    have inn: "in_net (dpids_update_port d p n s1) n' d' p' \<longleftrightarrow>
        (if d' = d \<and> p' = p then n' = n else in_net s n' d' p')" for n' d' p'
      using mv(2) [of n' d' p'] s1 agreeD [OF ag, of n' d p] False
      by (simp add: in_net_cong [of "dpids_update_port d p n s1" s1] known_nw_id_def old_def) blast
    have "agree (dpids_update_port d p n s1)"
      unfolding agree_def inn safe using agreeD [OF ag] n mv(4) s1 by auto
    moreover have "ports_distinct (dpids_update_port d p n s1)"
      using mv(5) s1 by (simp add: ports_distinct_def)
    ultimately show ?thesis
      using f st safe mv(4) s1 by (simp add: net_ok_def [symmetric]) (simp add: net_ok_def)
  qed
  then show "fst (net_update_port n d p s) = Inr ()"
    and "net_ok (snd (net_update_port n d p s))"
    and "dpids_get_network_safe d' p' (snd (net_update_port n d p s)) =
      (if d' = d \<and> p' = p then n else dpids_get_network_safe d' p' s)"
    and "nw_id_unknown (snd (net_update_port n d p s)) = nw_id_unknown s" by simp_all
qed

lemma update_port_refused:
  assumes "n = nw_id_unknown s \<or> dict_get (networks s) n = None"
  shows "\<exists>e. net_update_port n d p s = (Inl e, s)"
  using assms
  by (auto simp: net_update_port_def net_update_port_gen_def check_nw_id_unknown_def has_port_iff)

lemma create_network_ok: "net_ok s \<Longrightarrow> net_ok (snd (net_create_network n s))"
proof (cases "n = nw_id_unknown s \<or> dict_get (networks s) n \<noteq> None")
  case True
  assume "net_ok s"
  with True show ?thesis
    by (auto simp: net_create_network_def check_nw_id_unknown_def networks_create_def)
next
  case False
  assume ok: "net_ok s"
  let ?s = "s\<lparr>networks := dict_set n [] (networks s)\<rparr>"
  have inn: "in_net ?s n' d p \<longleftrightarrow> in_net s n' d p" for n' d p
    using False by (auto simp: in_net_def)
  have safe: "dpids_get_network_safe d p ?s = dpids_get_network_safe d p s" for d p
    by (rule safe_cong) simp_all
  have "net_ok ?s"
    using ok unfolding net_ok_def agree_def inn safe by (auto simp: ports_distinct_def)
  with False show ?thesis
    by (auto simp: net_create_network_def check_nw_id_unknown_def networks_create_def)
qed

lemma setdefault_network_ok: "net_ok (dpids_setdefault_network d p s) = net_ok s"
  by (rule net_ok_cong)
     (simp add: dpids_setdefault_network_def, simp add: dpids_setdefault_network_def,
      rule safe_setdefault_network)

lemma port_added_ok: "net_ok s \<Longrightarrow> net_ok (net_port_added m d p s)"
  by (simp add: net_port_added_def setdefault_network_ok)

section \<open>Isolation\<close>

definition rows_wf :: "network \<Rightarrow> bool" where
  "rows_wf s \<longleftrightarrow> (\<forall>d. dict_wf (row_of d s) \<and>
     (\<forall>p pt. dict_get (row_of d s) p = Some pt \<longrightarrow> np_no pt = p))"

lemma filter_ports_iff:
  assumes "rows_wf s" and "nw \<noteq> nw_id_unknown s" and "ext \<noteq> Some (nw_id_unknown s)"
    and "filter_ports d in_port nw ext s = Inr ps"
  shows "p \<in> set ps \<longleftrightarrow> p \<noteq> in_port \<and>
     (dpids_get_network_safe d p s = nw \<or> ext = Some (dpids_get_network_safe d p s))"
proof -
  have wf: "dict_wf (row_of d s)" and no: "\<And>p pt. dict_get (row_of d s) p = Some pt \<Longrightarrow> np_no pt = p"
    using assms(1) by (simp_all add: rows_wf_def)
  have "p \<in> set ps \<longleftrightarrow> (\<exists>pt. dict_get (row_of d s) p = Some pt \<and> p \<noteq> in_port \<and>
      (np_network pt = nw \<or> ext = Some (np_network pt)))"
    using assms(2,4) dict_values_iff [OF wf] no
    by (auto simp: filter_ports_def dpids_get_ports_def) force+
  then show ?thesis
    using assms(2,3) by (auto simp: dpids_get_network_safe_def split: option.splits)
qed

section \<open>Where the two views part\<close>

text \<open>
  Removing a network leaves its id in the port objects.  Moving such a port to a network that
  exists then reports that network as not found, after adding the port to it.
\<close>

lemma update_port_after_remove:
  assumes "n \<noteq> nw_id_unknown s" and "dict_get (networks s) n = Some ps"
    and "dpids_get_network_safe d p s = old" "old \<noteq> nw_id_unknown s" "old \<noteq> n"
    and "dict_get (networks s) old = None"
  shows "fst (net_update_port n d p s) = Inl NetworkNotFound"
    and "in_net (snd (net_update_port n d p s)) n d p"
    and "dpids_get_network_safe d p (snd (net_update_port n d p s)) = old"
proof -
  let ?s1 = "s\<lparr>networks := dict_set n (List.insert (d, p) ps) (networks s)\<rparr>"
  have mv: "move_port old n d p s = (Inl (Py KeyError), ?s1)"
    using assms
    by (simp add: move_port_def networks_add_raw_def networks_remove_raw_def known_nw_id_def)
  have r: "net_update_port n d p s = (Inl NetworkNotFound, ?s1)"
    using assms mv
    by (simp add: net_update_port_def net_update_port_gen_def check_nw_id_unknown_def has_port_iff
        key_error_to_def)
  show "fst (net_update_port n d p s) = Inl NetworkNotFound" by (simp add: r)
  show "in_net (snd (net_update_port n d p s)) n d p" by (simp add: r in_net_def)
  show "dpids_get_network_safe d p (snd (net_update_port n d p s)) = old"
    using safe_cong [of ?s1 s] assms(3) by (simp add: r)
qed

end
