(* ===== verification/Ctl_Dpset.thy ===== *)
theory Ctl_Dpset
  imports Ctl_Tables
begin

text \<open>
  \<open>ryu/controller/dpset.py\<close>: the set of connected switches and their ports.  A datapath object
  is identified by its handle, so that two connections of one switch differ.  The events tell
  an observer the ports of every connected switch.
\<close>

record 'p dp_obj =
  do_handle :: nat
  do_id :: "nat option"
  do_ports :: "(nat, 'p) dict"

datatype 'p dp_event =
    EventDP nat bool "(nat \<times> 'p) list"
  | EventDPReconnected nat "(nat \<times> 'p) list"
  | EventPortAdd nat nat 'p
  | EventPortDelete nat nat 'p
  | EventPortModify nat nat 'p

record 'p dpset =
  dps :: "(nat, 'p dp_obj) dict"
  port_state :: "(nat, (nat, 'p) dict) dict"
  closed :: "nat list"

type_synonym 'p ds_result = "unit res \<times> 'p dpset \<times> 'p dp_event list"

definition dpset_init :: "'p dpset" where
  "dpset_init = \<lparr>dps = [], port_state = [], closed = []\<rparr>"

text \<open>\<open>PortState\<close> is a dictionary; \<open>add\<close> and \<open>modify\<close> assign, \<open>remove\<close> deletes.\<close>

definition ps_add :: "nat \<Rightarrow> 'p \<Rightarrow> (nat, 'p) dict \<Rightarrow> (nat, 'p) dict" where
  "ps_add no p d = dict_set no p d"

definition ps_remove :: "nat \<Rightarrow> (nat, 'p) dict \<Rightarrow> (nat, 'p) dict res" where
  "ps_remove no d = (if dict_get d no = None then Inl KeyError else Inr (dict_del no d))"

text \<open>\<open>_port_added\<close> for every port of the datapath, on a fresh \<open>PortState\<close>.\<close>

definition ports_added :: "(nat \<times> 'p) list \<Rightarrow> (nat, 'p) dict" where
  "ports_added ps = fold (\<lambda>(no, p) d. ps_add no p d) ps []"

definition ds_register :: "'p dp_obj \<Rightarrow> 'p dpset \<Rightarrow> 'p ds_result" where
  "ds_register dp s =
     (case do_id dp of
        None \<Rightarrow> (Inl AssertionError, s, [])
      | Some i \<Rightarrow>
          let old = dict_get (dps s) i;
              s1 = s\<lparr>closed := (case old of None \<Rightarrow> closed s | Some o' \<Rightarrow> closed s @ [do_handle o']),
                     dps := dict_set i dp (dps s)\<rparr>;
              fresh = (dict_get (port_state s1) i = None);
              s2 = (if fresh
                    then s1\<lparr>port_state := dict_set i (ports_added (do_ports dp)) (port_state s1)\<rparr>
                    else s1);
              es1 = (if fresh then [EventDP i True (do_ports dp)] else []);
              es2 = (if old \<noteq> None
                     then [EventDPReconnected i
                             (case dict_get (port_state s2) i of None \<Rightarrow> [] | Some d \<Rightarrow> d)]
                     else [])
          in (Inr (), s2, es1 @ es2))"

definition ds_unregister :: "'p dp_obj \<Rightarrow> 'p dpset \<Rightarrow> 'p ds_result" where
  "ds_unregister dp s =
     (if do_handle dp \<notin> do_handle ` set (dict_values (dps s)) then (Inr (), s, [])
      else
        case do_id dp of
          None \<Rightarrow> (Inl KeyError, s, [])
        | Some i \<Rightarrow>
            (case dict_get (dps s) i of
               None \<Rightarrow> (Inl KeyError, s, [])
             | Some d \<Rightarrow>
                 if do_handle d \<noteq> do_handle dp then (Inl AssertionError, s, [])
                 else
                   (case dict_get (port_state s) i of
                      None \<Rightarrow>
                        (Inl KeyError, s\<lparr>dps := dict_del i (dps s)\<rparr>, [EventDP i False []])
                    | Some ports \<Rightarrow>
                        (Inr (),
                         s\<lparr>dps := dict_del i (dps s), port_state := dict_del i (port_state s)\<rparr>,
                         [EventDP i False ports]))))"

datatype dispatcher = HANDSHAKE_DISPATCHER | CONFIG_DISPATCHER | MAIN_DISPATCHER | DEAD_DISPATCHER

definition ds_dispatcher_change :: "'p dp_obj \<Rightarrow> dispatcher \<Rightarrow> 'p dpset \<Rightarrow> 'p ds_result" where
  "ds_dispatcher_change dp st s =
     (if st = MAIN_DISPATCHER then ds_register dp s
      else if st = DEAD_DISPATCHER then ds_unregister dp s else (Inr (), s, []))"

datatype port_reason = OFPPR_ADD | OFPPR_DELETE | OFPPR_MODIFY | OFPPR_OTHER nat

definition ds_port_status :: "nat \<Rightarrow> port_reason \<Rightarrow> nat \<Rightarrow> 'p \<Rightarrow> 'p dpset \<Rightarrow> 'p ds_result" where
  "ds_port_status i reason no p s =
     (case reason of
        OFPPR_OTHER n \<Rightarrow> (Inl AssertionError, s, [])
      | _ \<Rightarrow>
          (case dict_get (port_state s) i of
             None \<Rightarrow> (Inl KeyError, s, [])
           | Some d \<Rightarrow>
               let upd = (\<lambda>d'. s\<lparr>port_state := dict_set i d' (port_state s)\<rparr>) in
               if reason = OFPPR_ADD then
                 (Inr (), upd (ps_add no p d), [EventPortAdd i no p])
               else if reason = OFPPR_DELETE then
                 (case ps_remove no d of
                    Inl e \<Rightarrow> (Inl e, s, [])
                  | Inr d' \<Rightarrow> (Inr (), upd d', [EventPortDelete i no p]))
               else (Inr (), upd (ps_add no p d), [EventPortModify i no p])))"

definition ds_get :: "nat \<Rightarrow> 'p dpset \<Rightarrow> 'p dp_obj option" where
  "ds_get i s = dict_get (dps s) i"

definition ds_get_port :: "nat \<Rightarrow> nat \<Rightarrow> 'p dpset \<Rightarrow> 'p ryu" where
  "ds_get_port i no s =
     (case dict_get (port_state s) i of
        None \<Rightarrow> Inl PortNotFound
      | Some d \<Rightarrow> (case dict_get d no of None \<Rightarrow> Inl PortNotFound | Some p \<Rightarrow> Inr p))"

definition ds_get_ports :: "nat \<Rightarrow> 'p dpset \<Rightarrow> 'p list ryu" where
  "ds_get_ports i s =
     (case dict_get (port_state s) i of
        None \<Rightarrow> Inl (Py KeyError) | Some d \<Rightarrow> Inr (dict_values d))"

section \<open>Consistency\<close>

text \<open>
  Connected switches and port tables have the same keys, and a switch is stored under its id.
\<close>

definition dpset_ok :: "'p dpset \<Rightarrow> bool" where
  "dpset_ok s \<longleftrightarrow> dict_wf (dps s) \<and> dict_wf (port_state s) \<and>
     (\<forall>i. dict_get (dps s) i = None \<longleftrightarrow> dict_get (port_state s) i = None) \<and>
     (\<forall>i d. dict_get (dps s) i = Some d \<longrightarrow> do_id d = Some i) \<and>
     (\<forall>i ps. dict_get (port_state s) i = Some ps \<longrightarrow> dict_wf ps)"

definition dpset_view :: "'p dpset \<Rightarrow> nat \<Rightarrow> (nat \<rightharpoonup> 'p) option" where
  "dpset_view s i = map_option dict_get (dict_get (port_state s) i)"

text \<open>What an observer makes of an event.\<close>

fun apply_dp_event ::
  "'p dp_event \<Rightarrow> (nat \<Rightarrow> (nat \<rightharpoonup> 'p) option) \<Rightarrow> (nat \<Rightarrow> (nat \<rightharpoonup> 'p) option)"
where
  "apply_dp_event (EventDP i enter ports) v =
     (if enter then v(i := Some (dict_get (ports_added ports))) else v(i := None))"
| "apply_dp_event (EventDPReconnected i ports) v = v"
| "apply_dp_event (EventPortAdd i no p) v = v(i := map_option (\<lambda>m. m(no \<mapsto> p)) (v i))"
| "apply_dp_event (EventPortModify i no p) v = v(i := map_option (\<lambda>m. m(no \<mapsto> p)) (v i))"
| "apply_dp_event (EventPortDelete i no p) v = v(i := map_option (\<lambda>m. m(no := None)) (v i))"

datatype 'p ds_call =
    Dispatcher_change "'p dp_obj" dispatcher
  | Port_status nat port_reason nat 'p

fun do_ds_call :: "'p ds_call \<Rightarrow> 'p dpset \<Rightarrow> 'p dpset \<times> 'p dp_event list" where
  "do_ds_call (Dispatcher_change dp st) s = snd (ds_dispatcher_change dp st s)"
| "do_ds_call (Port_status i reason no p) s = snd (ds_port_status i reason no p s)"

lemma ports_added_wf [simp]: "dict_wf (ports_added ps)"
proof -
  have "dict_wf d \<Longrightarrow> dict_wf (fold (\<lambda>(no, p) d. ps_add no p d) ps d)" for d :: "(nat, 'a) dict"
    by (induction ps arbitrary: d) (auto simp: ps_add_def)
  then show ?thesis by (simp add: ports_added_def)
qed

lemma register_ok:
  assumes "dpset_ok s"
  shows "dpset_ok (fst (snd (ds_register dp s)))"
proof (cases "do_id dp")
  case (Some i)
  then show ?thesis
    using assms by (auto simp: ds_register_def Let_def dpset_ok_def split: if_splits)
qed (use assms in \<open>simp add: ds_register_def\<close>)

lemma unregister_ok:
  assumes "dpset_ok s"
  shows "dpset_ok (fst (snd (ds_unregister dp s)))"
proof (cases "do_id dp")
  case (Some i)
  then show ?thesis
    using assms by (auto simp: ds_unregister_def dpset_ok_def split: option.splits if_splits)
qed (use assms in \<open>simp add: ds_unregister_def\<close>)

lemma port_status_ok:
  assumes "dpset_ok s"
  shows "dpset_ok (fst (snd (ds_port_status i r no p s)))"
proof (cases "dict_get (port_state s) i")
  case (Some d)
  have "dpset_ok (s\<lparr>port_state := dict_set i d' (port_state s)\<rparr>)" if "dict_wf d'" for d'
    using assms that Some by (auto simp: dpset_ok_def)
  moreover have "dict_wf d" using assms Some by (auto simp: dpset_ok_def)
  ultimately show ?thesis
    using assms Some
    by (auto simp: ds_port_status_def Let_def ps_add_def ps_remove_def split: port_reason.split)
qed (use assms in \<open>auto simp: ds_port_status_def split: port_reason.split\<close>)

lemma register_mirror:
  assumes "dpset_ok s"
  shows "dpset_view (fst (snd (ds_register dp s))) =
     fold apply_dp_event (snd (snd (ds_register dp s))) (dpset_view s)"
proof (cases "do_id dp")
  case (Some i)
  then show ?thesis
    by (auto simp: ds_register_def Let_def dpset_view_def fun_eq_iff)
qed (simp add: ds_register_def)

lemma unregister_mirror:
  assumes "dpset_ok s"
  shows "dpset_view (fst (snd (ds_unregister dp s))) =
     fold apply_dp_event (snd (snd (ds_unregister dp s))) (dpset_view s)"
  by (auto simp: ds_unregister_def dpset_view_def fun_eq_iff split: option.splits)

lemma port_status_mirror:
  "dpset_view (fst (snd (ds_port_status i r no p s))) =
     fold apply_dp_event (snd (snd (ds_port_status i r no p s))) (dpset_view s)"
proof (cases "dict_get (port_state s) i")
  case (Some d)
  then show ?thesis
    by (auto simp: ds_port_status_def Let_def dpset_view_def ps_add_def ps_remove_def fun_eq_iff
        split: port_reason.split)
qed (auto simp: ds_port_status_def split: port_reason.split)

interpretation dpset_events: mirrored do_ds_call apply_dp_event dpset_view dpset_ok
proof
  fix s :: "'p dpset" and c
  assume ok: "dpset_ok s"
  show "dpset_ok (fst (do_ds_call c s))"
    using ok by (cases c) (auto simp: ds_dispatcher_change_def register_ok unregister_ok port_status_ok)
  show "dpset_view (fst (do_ds_call c s)) = fold apply_dp_event (snd (do_ds_call c s)) (dpset_view s)"
    using ok by (cases c)
      (auto simp: ds_dispatcher_change_def register_mirror unregister_mirror port_status_mirror)
qed

text \<open>A reconnect closes the old connection; its later end does not remove the switch.\<close>

lemma reconnect_then_old_dies:
  assumes ok: "dpset_ok s" and old: "dict_get (dps s) i = Some old" and new: "do_id new = Some i"
    and fresh: "do_handle new \<noteq> do_handle old"
    and unique: "\<And>j d. dict_get (dps s) j = Some d \<Longrightarrow> do_handle d = do_handle old \<Longrightarrow> j = i"
  defines "s1 \<equiv> fst (snd (ds_register new s))"
  shows "ds_unregister old s1 = (Inr (), s1, [])"
    and "dict_get (dps s1) i = Some new" and "port_state s1 = port_state s"
    and "do_handle old \<in> set (closed s1)"
proof -
  have ps: "dict_get (port_state s) i \<noteq> None"
    using ok old unfolding dpset_ok_def by (metis option.distinct(1))
  have dps: "dps s1 = dict_set i new (dps s)" and cl: "closed s1 = closed s @ [do_handle old]"
    and pst: "port_state s1 = port_state s"
    using ps old new by (auto simp: s1_def ds_register_def Let_def)
  have wf: "dict_wf (dps s1)" using ok by (simp add: dps dpset_ok_def)
  have "do_handle old \<notin> do_handle ` set (dict_values (dps s1))"
    using dict_values_iff [OF wf] fresh unique by (auto simp: dps split: if_splits)
  then show "ds_unregister old s1 = (Inr (), s1, [])" by (simp add: ds_unregister_def)
  show "dict_get (dps s1) i = Some new" by (simp add: dps)
  show "port_state s1 = port_state s" by (rule pst)
  show "do_handle old \<in> set (closed s1)" by (simp add: cl)
qed

end
