(* ===== verification/Ctl_Handshake.thy ===== *)
theory Ctl_Handshake
  imports Ctl_Dpset
begin

text \<open>
  The connection of one switch: \<open>ryu/controller/ofp_handler.py\<close> (version negotiation, features,
  ports, echo) on the state of \<open>Datapath\<close> in \<open>ryu/controller/controller.py\<close>.  Messages sent
  and state-change events are traces.  A message reaches a handler only in the dispatcher
  states the handler was registered for; the inductive relation \<open>conn_step\<close> has one rule per
  handler.
\<close>

section \<open>State\<close>

datatype hello_error =
    No_usable_version "nat set" nat nat
  | Usable_not_negotiated "nat set" "nat set"
  | Lower_version_usable nat nat
  | Unsupported_version nat

datatype conn_msg =
    Hello
  | Hello_failed hello_error
  | Features_request
  | Port_desc_request
  | Echo_request nat
  | Echo_reply nat bytes

record conn =
  c_state :: dispatcher
  c_supported :: "nat set"
  c_version :: nat
  c_id :: "nat option"
  c_ports :: "(nat, nat) dict option"
  c_xid :: nat
  c_unreplied :: "nat list"
  c_out :: "(conn_msg \<times> bool) list"
  c_changes :: "dispatcher list"

definition MAX_XID :: nat where "MAX_XID = 0xffffffff"

text \<open>A new connection; \<open>xid\<close> is \<open>random.randint(0, MAX_XID)\<close>.\<close>

definition conn_init :: "nat set \<Rightarrow> nat \<Rightarrow> conn" where
  "conn_init supported xid =
     \<lparr>c_state = HANDSHAKE_DISPATCHER, c_supported = supported, c_version = Max supported,
      c_id = None, c_ports = None, c_xid = xid, c_unreplied = [], c_out = [],
      c_changes = [HANDSHAKE_DISPATCHER]\<rparr>"

definition set_state :: "dispatcher \<Rightarrow> conn \<Rightarrow> conn" where
  "set_state st c =
     (if c_state c = st then c else c\<lparr>c_state := st, c_changes := c_changes c @ [st]\<rparr>)"

definition conn_close :: "conn \<Rightarrow> conn" where
  "conn_close c = set_state DEAD_DISPATCHER c"

definition set_xid :: "conn \<Rightarrow> nat \<times> conn" where
  "set_xid c = (let x = and (c_xid c + 1) MAX_XID in (x, c\<lparr>c_xid := x\<rparr>))"

definition conn_send :: "conn_msg \<Rightarrow> bool \<Rightarrow> conn \<Rightarrow> conn" where
  "conn_send m close c = (snd (set_xid c))\<lparr>c_out := c_out c @ [(m, close)]\<rparr>"

text \<open>A reply keeps the transaction id it was given.\<close>

definition conn_reply :: "conn_msg \<Rightarrow> conn \<Rightarrow> conn" where
  "conn_reply m c = c\<lparr>c_out := c_out c @ [(m, False)]\<rparr>"

definition hello_failed :: "hello_error \<Rightarrow> conn \<Rightarrow> conn" where
  "hello_failed e c = conn_send (Hello_failed e) True c"

definition set_version :: "nat \<Rightarrow> conn \<Rightarrow> conn res" where
  "set_version v c = (if v \<in> c_supported c then Inr (c\<lparr>c_version := v\<rparr>) else Inl AssertionError)"

section \<open>Handlers\<close>

text \<open>
  The version negotiated from a HELLO of version \<open>v\<close> with the version bitmaps \<open>elements\<close>.
\<close>

definition negotiate :: "nat set \<Rightarrow> nat \<Rightarrow> nat \<Rightarrow> nat list list \<Rightarrow> hello_error + nat" where
  "negotiate supported own v elements =
     (let finish = (\<lambda>usable. if usable = {} then Inl (Unsupported_version v) else Inr (Max usable)) in
      if elements \<noteq> [] then
        let switch_versions = set (concat elements);
            usable = switch_versions \<inter> supported;
            negotiated = Set.filter (\<lambda>x. x \<le> Max supported) switch_versions
        in if negotiated \<noteq> {} \<and> usable = {} then
             Inl (No_usable_version switch_versions (Max supported) (Max negotiated))
           else if negotiated \<noteq> {} \<and> usable \<noteq> {} \<and> Max negotiated \<noteq> Max usable then
             Inl (Usable_not_negotiated negotiated usable)
           else finish usable
      else
        let usable = Set.filter (\<lambda>x. x \<le> v) supported
        in if usable \<noteq> {} \<and> Max usable \<noteq> min v own then
             Inl (Lower_version_usable v (Max usable))
           else finish usable)"

definition hello_handler :: "nat \<Rightarrow> nat list list \<Rightarrow> conn \<Rightarrow> conn \<times> py_exn option" where
  "hello_handler v elements c =
     (case negotiate (c_supported c) (c_version c) v elements of
        Inl e \<Rightarrow> (hello_failed e c, None)
      | Inr version \<Rightarrow>
          (case set_version version c of
             Inl x \<Rightarrow> (c, Some x)
           | Inr c1 \<Rightarrow> (conn_send Features_request False (set_state CONFIG_DISPATCHER c1), None)))"

definition features_handler :: "nat \<Rightarrow> (nat, nat) dict \<Rightarrow> conn \<Rightarrow> conn" where
  "features_handler dpid msg_ports c =
     (let c1 = c\<lparr>c_id := Some dpid\<rparr>;
          c2 = (if c_version c1 < 4 then c1\<lparr>c_ports := Some msg_ports\<rparr>
                else c1\<lparr>c_ports := Some []\<rparr>)
      in if c_version c2 < 4 then set_state MAIN_DISPATCHER c2
         else conn_send Port_desc_request False c2)"

text \<open>Before the features reply the datapath has no \<open>ports\<close>.\<close>

definition port_desc_handler :: "(nat \<times> nat) list \<Rightarrow> bool \<Rightarrow> conn \<Rightarrow> conn \<times> py_exn option" where
  "port_desc_handler body cont c =
     (let r = (case c_ports c of
                 None \<Rightarrow> if body = [] then Inr c else Inl AttributeError
               | Some d \<Rightarrow> Inr (c\<lparr>c_ports := Some (fold (\<lambda>(no, p). dict_set no p) body d)\<rparr>))
      in case r of
           Inl e \<Rightarrow> (c, Some e)
         | Inr c1 \<Rightarrow> if cont then (c1, None) else (set_state MAIN_DISPATCHER c1, None))"

definition echo_request_handler :: "nat \<Rightarrow> bytes \<Rightarrow> conn \<Rightarrow> conn" where
  "echo_request_handler xid data c = conn_reply (Echo_reply xid data) c"

definition acknowledge_echo_reply :: "nat \<Rightarrow> conn \<Rightarrow> conn" where
  "acknowledge_echo_reply xid c = c\<lparr>c_unreplied := remove1 xid (c_unreplied c)\<rparr>"

definition port_status_handler :: "port_reason \<Rightarrow> nat \<Rightarrow> nat \<Rightarrow> conn \<Rightarrow> conn \<times> py_exn option" where
  "port_status_handler reason no p c =
     (case reason of
        OFPPR_OTHER n \<Rightarrow> (c, None)
      | _ \<Rightarrow>
          (case c_ports c of
             None \<Rightarrow> (c, Some AttributeError)
           | Some d \<Rightarrow>
               (c\<lparr>c_ports := Some (if reason = OFPPR_DELETE then dict_del no d else dict_set no p d)\<rparr>,
                None)))"

text \<open>One turn of \<open>_echo_request_loop\<close>; a limit of 0 disables it.\<close>

definition echo_tick :: "nat \<Rightarrow> conn \<Rightarrow> conn" where
  "echo_tick limit c =
     (if limit = 0 then c
      else if length (c_unreplied c) \<le> limit then
        let (x, c1) = set_xid c
        in c1\<lparr>c_unreplied := c_unreplied c1 @ [x], c_out := c_out c1 @ [(Echo_request x, False)]\<rparr>
      else conn_close c)"

section \<open>Negotiation\<close>

lemma choice_bitmap:
  "(if N \<noteq> {} \<and> U = {} then Inl a
    else if N \<noteq> {} \<and> U \<noteq> {} \<and> Max N \<noteq> Max U then Inl b
    else if U = {} then Inl e else Inr (Max U)) = Inr w \<Longrightarrow>
   w = Max U \<and> U \<noteq> {} \<and> (N = {} \<or> Max N = Max U)"
  by (auto split: if_splits)

lemma choice_plain:
  "(if U \<noteq> {} \<and> Max U \<noteq> m then Inl a else if U = {} then Inl b else Inr (Max U)) = Inr w \<Longrightarrow>
   w = Max U \<and> U \<noteq> {} \<and> Max U = m"
  by (auto split: if_splits)

lemma negotiate_bitmap:
  assumes "elements \<noteq> []" and "negotiate supported own v elements = Inr w"
  shows "w = Max (set (concat elements) \<inter> supported)" "set (concat elements) \<inter> supported \<noteq> {}"
    "Set.filter (\<lambda>x. x \<le> Max supported) (set (concat elements)) = {} \<or>
     Max (Set.filter (\<lambda>x. x \<le> Max supported) (set (concat elements))) = w"
  using choice_bitmap [OF assms(2) [unfolded negotiate_def Let_def, simplified assms(1) if_True not_False_eq_True simp_thms]]
  by blast+

lemma negotiate_plain:
  assumes "negotiate supported own v [] = Inr w"
  shows "w = Max (Set.filter (\<lambda>x. x \<le> v) supported)" "Set.filter (\<lambda>x. x \<le> v) supported \<noteq> {}"
    "w = min v own"
  using choice_plain [OF assms [unfolded negotiate_def Let_def, simplified if_False simp_thms]] by blast+

lemma negotiate_sound:
  assumes fin: "finite supported" and n: "negotiate supported own v elements = Inr w"
  shows "w \<in> supported"
    and "elements \<noteq> [] \<Longrightarrow> w \<in> set (concat elements) \<and>
           (\<forall>x \<in> set (concat elements). x \<le> Max supported \<longrightarrow> x \<le> w)"
    and "elements = [] \<Longrightarrow> w = min v own"
proof -
  define sv where "sv = set (concat elements)"
  have bm: "w \<in> sv \<inter> supported" "\<forall>x \<in> sv. x \<le> Max supported \<longrightarrow> x \<le> w" if "elements \<noteq> []"
  proof -
    note b = negotiate_bitmap [OF that n, folded sv_def]
    have "finite (sv \<inter> supported)" using fin by simp
    from Max_in [OF this b(2)] show "w \<in> sv \<inter> supported" using b(1) by simp
    show "\<forall>x \<in> sv. x \<le> Max supported \<longrightarrow> x \<le> w"
    proof (intro ballI impI)
      fix x assume x: "x \<in> sv" "x \<le> Max supported"
      let ?n = "Set.filter (\<lambda>x. x \<le> Max supported) sv"
      have "finite ?n" by (simp add: sv_def)
      moreover have "x \<in> ?n" using x by simp
      ultimately show "x \<le> w" using b(3) Max_ge by blast
    qed
  qed
  have pl: "w \<in> supported \<and> w = min v own" if "elements = []"
  proof -
    note b = negotiate_plain [OF n [unfolded that]]
    have "finite (Set.filter (\<lambda>x. x \<le> v) supported)" using fin by simp
    from Max_in [OF this b(2)] have "w \<in> Set.filter (\<lambda>x. x \<le> v) supported" using b(1) by simp
    then show ?thesis using b(3) by simp
  qed
  show "w \<in> supported" using bm(1) pl by blast
  show "w \<in> set (concat elements) \<and> (\<forall>x \<in> set (concat elements). x \<le> Max supported \<longrightarrow> x \<le> w)"
    if "elements \<noteq> []"
    using bm that by (simp add: sv_def)
  show "w = min v own" if "elements = []" using pl that by blast
qed

lemma Max_is:
  fixes A :: "nat set"
  assumes "finite A" and "w \<in> A" and "\<forall>x \<in> A. x \<le> w"
  shows "Max A = w"
  using assms by (intro Max_eqI) auto

lemma negotiate_complete_bitmap:
  assumes fin: "finite supported" and "elements \<noteq> []" and w: "w \<in> supported" "w \<in> set (concat elements)"
    and top: "\<forall>x \<in> set (concat elements). x \<le> Max supported \<longrightarrow> x \<le> w"
  shows "negotiate supported own v elements = Inr w"
proof -
  let ?sv = "set (concat elements)"
  have le: "x \<le> Max supported" if "x \<in> supported" for x using fin that by simp
  have "Max (?sv \<inter> supported) = w" using fin w top le by (intro Max_is) auto
  moreover have "Max (Set.filter (\<lambda>x. x \<le> Max supported) ?sv) = w"
    using w top le by (intro Max_is) auto
  moreover have "w \<in> ?sv \<inter> supported" "w \<in> Set.filter (\<lambda>x. x \<le> Max supported) ?sv" using w le by auto
  then have "?sv \<inter> supported \<noteq> {}" "Set.filter (\<lambda>x. x \<le> Max supported) ?sv \<noteq> {}" by blast+
  ultimately show ?thesis using assms(2) by (simp only: negotiate_def Let_def) simp
qed

lemma negotiate_complete_plain:
  assumes fin: "finite supported" and w: "w \<in> supported" "w = min v own"
    and top: "\<forall>x \<in> supported. x \<le> v \<longrightarrow> x \<le> w"
  shows "negotiate supported own v [] = Inr w"
proof -
  have "Max (Set.filter (\<lambda>x. x \<le> v) supported) = w" using fin w top by (intro Max_is) auto
  moreover have "w \<in> Set.filter (\<lambda>x. x \<le> v) supported" using w by simp
  then have "Set.filter (\<lambda>x. x \<le> v) supported \<noteq> {}" by blast
  ultimately show ?thesis using w(2) by (simp only: negotiate_def Let_def) simp
qed

lemma negotiate_plain_top:
  assumes "finite supported" and "negotiate supported own v [] = Inr w"
  shows "\<forall>x \<in> supported. x \<le> v \<longrightarrow> x \<le> w"
  using negotiate_plain(1) [OF assms(2)] assms(1) by simp

text \<open>
  The specification quoted in the handler demands the smaller of the version fields unless both
  sides send a bitmap, and Ryu sends none.  A switch that speaks 1.0 and 1.4 and says so gets
  1.0 from a controller of 1.0 and 1.3, where the version fields give 1.3.
\<close>

lemma bitmap_departs_from_version_fields:
  "negotiate {1, 4} 4 5 [[1, 5]] = Inr 1" "min 5 4 = (4 :: nat)" "(4 :: nat) \<in> {1, 4}"
  by (rule negotiate_complete_bitmap) auto

lemma negotiate_single:
  assumes "supported = {s}"
  shows "negotiate supported s v [] = (if s \<le> v then Inr s else Inl (Unsupported_version v))"
proof -
  have "Set.filter (\<lambda>x. x \<le> v) {s} = (if s \<le> v then {s} else {})" by auto
  then show ?thesis using assms by (simp add: negotiate_def Let_def)
qed

section \<open>The connection as a state machine\<close>

datatype conn_event =
    Rx_hello nat "nat list list"
  | Rx_features nat "(nat, nat) dict"
  | Rx_port_desc "(nat \<times> nat) list" bool
  | Rx_echo_request nat bytes
  | Rx_echo_reply nat
  | Rx_port_status port_reason nat nat
  | Tick nat
  | Close

inductive conn_step :: "conn \<Rightarrow> conn_event \<Rightarrow> conn \<Rightarrow> bool" where
  step_hello:
    "c_state c = HANDSHAKE_DISPATCHER \<Longrightarrow>
     conn_step c (Rx_hello v els) (fst (hello_handler v els c))"
| step_features:
    "c_state c = CONFIG_DISPATCHER \<Longrightarrow>
     conn_step c (Rx_features dpid ports) (features_handler dpid ports c)"
| step_port_desc:
    "c_state c = CONFIG_DISPATCHER \<Longrightarrow>
     conn_step c (Rx_port_desc body cont) (fst (port_desc_handler body cont c))"
| step_echo_request:
    "c_state c \<noteq> DEAD_DISPATCHER \<Longrightarrow>
     conn_step c (Rx_echo_request xid data) (echo_request_handler xid data c)"
| step_echo_reply:
    "c_state c \<noteq> DEAD_DISPATCHER \<Longrightarrow>
     conn_step c (Rx_echo_reply xid) (acknowledge_echo_reply xid c)"
| step_port_status:
    "c_state c = MAIN_DISPATCHER \<Longrightarrow>
     conn_step c (Rx_port_status r no p) (fst (port_status_handler r no p c))"
| step_tick: "c_state c \<noteq> DEAD_DISPATCHER \<Longrightarrow> conn_step c (Tick limit) (echo_tick limit c)"
| step_close: "conn_step c Close (conn_close c)"

inductive_simps conn_step_simps:
  "conn_step c (Rx_hello v els) d"
  "conn_step c (Rx_features dpid ports) d"
  "conn_step c (Rx_port_desc body cont) d"

interpretation conn: transition_system
  "\<lambda>c. \<exists>supported xid. finite supported \<and> supported \<noteq> {} \<and> xid \<le> MAX_XID \<and> c = conn_init supported xid"
  conn_step .

text \<open>The order of the dispatcher states.\<close>

fun rank :: "dispatcher \<Rightarrow> nat" where
  "rank HANDSHAKE_DISPATCHER = 0"
| "rank CONFIG_DISPATCHER = 1"
| "rank MAIN_DISPATCHER = 2"
| "rank DEAD_DISPATCHER = 3"

definition conn_inv :: "conn \<Rightarrow> bool" where
  "conn_inv c \<longleftrightarrow>
     finite (c_supported c) \<and> c_version c \<in> c_supported c \<and> c_xid c \<le> MAX_XID \<and>
     (\<forall>x \<in> set (c_unreplied c). x \<le> MAX_XID) \<and>
     c_changes c \<noteq> [] \<and> last (c_changes c) = c_state c \<and> sorted_wrt (<) (map rank (c_changes c)) \<and>
     (c_id c = None \<longleftrightarrow> c_ports c = None)"

lemma set_state_simps [simp]:
  "c_supported (set_state st c) = c_supported c" "c_version (set_state st c) = c_version c"
  "c_xid (set_state st c) = c_xid c" "c_unreplied (set_state st c) = c_unreplied c"
  "c_id (set_state st c) = c_id c" "c_ports (set_state st c) = c_ports c"
  "c_state (set_state st c) = st" "c_out (set_state st c) = c_out c"
  by (auto simp: set_state_def)

lemma set_xid_simps [simp]:
  "c_supported (snd (set_xid c)) = c_supported c" "c_version (snd (set_xid c)) = c_version c"
  "c_unreplied (snd (set_xid c)) = c_unreplied c" "c_id (snd (set_xid c)) = c_id c"
  "c_ports (snd (set_xid c)) = c_ports c" "c_state (snd (set_xid c)) = c_state c"
  "c_changes (snd (set_xid c)) = c_changes c" "c_out (snd (set_xid c)) = c_out c"
  by (simp_all add: set_xid_def Let_def)

lemma set_xid_bound: "fst (set_xid c) \<le> MAX_XID" "c_xid (snd (set_xid c)) = fst (set_xid c)"
proof -
  have "and a MAX_XID \<le> MAX_XID" for a :: nat
  proof -
    have "(MAX_XID :: nat) = mask 32" by (simp add: MAX_XID_def mask_eq_exp_minus_1)
    then have "and a MAX_XID = take_bit 32 a" by (simp add: take_bit_eq_mask)
    moreover have "take_bit 32 a < (2 ^ 32 :: nat)" by (rule take_bit_nat_less_exp)
    ultimately have "and a MAX_XID < 4294967296" by simp
    then show ?thesis unfolding MAX_XID_def by linarith
  qed
  then show "fst (set_xid c) \<le> MAX_XID" by (simp add: set_xid_def Let_def)
  show "c_xid (snd (set_xid c)) = fst (set_xid c)" by (simp add: set_xid_def Let_def)
qed

lemma sorted_snoc_rank:
  assumes "sorted_wrt (<) (map rank xs)" "xs \<noteq> []" "rank (last xs) < rank st"
  shows "sorted_wrt (<) (map rank (xs @ [st]))"
proof -
  have "rank x \<le> rank (last xs)" if "x \<in> set xs" for x
  proof -
    have "sorted (map rank xs)" using assms(1) by (simp add: strict_sorted_iff)
    then have "\<forall>y \<in> set (map rank xs). y \<le> last (map rank xs)"
      using assms(2) by (cases "map rank xs" rule: rev_cases) (auto simp: sorted_append)
    then show ?thesis using that assms(2) by (auto simp: last_map)
  qed
  then show ?thesis using assms by (auto simp: sorted_wrt_append intro: le_less_trans)
qed

lemma conn_inv_set_state:
  assumes "conn_inv c" and "rank (c_state c) \<le> rank st"
  shows "conn_inv (set_state st c)"
proof (cases "c_state c = st")
  case True
  with assms show ?thesis by (simp add: set_state_def)
next
  case False
  have "rank (c_state c) \<noteq> rank st" using False by (cases st; cases "c_state c") auto
  then have "rank (last (c_changes c)) < rank st" using assms by (simp add: conn_inv_def)
  with assms False show ?thesis
    by (simp add: conn_inv_def set_state_def) (use sorted_snoc_rank in fastforce)
qed

lemma conn_inv_out [simp]: "conn_inv (c\<lparr>c_out := m\<rparr>) = conn_inv c"
  by (simp add: conn_inv_def)

lemma conn_inv_xid: "conn_inv c \<Longrightarrow> conn_inv (snd (set_xid c))"
  by (simp add: conn_inv_def set_xid_bound)

lemma conn_inv_send [simp]: "conn_inv c \<Longrightarrow> conn_inv (conn_send m cl c)"
  by (simp add: conn_send_def conn_inv_xid)

lemma conn_inv_init:
  "finite supported \<Longrightarrow> supported \<noteq> {} \<Longrightarrow> xid \<le> MAX_XID \<Longrightarrow> conn_inv (conn_init supported xid)"
  by (simp add: conn_inv_def conn_init_def)

lemma rank_less_3 [simp]: "rank st \<le> 3"
  by (cases st) simp_all

lemma conn_step_inv:
  assumes "conn_step c e d" and "conn_inv c"
  shows "conn_inv d"
  using assms
proof (induction rule: conn_step.induct)
  case (step_hello c v els)
  note inv = step_hello.prems
  show ?case
  proof (cases "negotiate (c_supported c) (c_version c) v els")
    case (Inl e)
    then show ?thesis using inv step_hello by (simp add: hello_handler_def hello_failed_def)
  next
    case (Inr w)
    have w: "w \<in> c_supported c"
      using negotiate_sound(1) [OF _ Inr] inv by (simp add: conn_inv_def)
    have "conn_inv (c\<lparr>c_version := w\<rparr>)" using inv w by (simp add: conn_inv_def)
    then have "conn_inv (set_state CONFIG_DISPATCHER (c\<lparr>c_version := w\<rparr>))"
      by (rule conn_inv_set_state) (simp add: step_hello)
    then show ?thesis
      using step_hello w by (simp add: hello_handler_def Inr set_version_def)
  qed
next
  case (step_features c dpid ports)
  note inv = step_features.prems
  have "conn_inv (c\<lparr>c_id := Some dpid, c_ports := Some x\<rparr>)" for x
    using inv by (simp add: conn_inv_def)
  then show ?case
    using step_features by (simp add: features_handler_def Let_def conn_inv_set_state)
next
  case (step_port_desc c body cont)
  note inv = step_port_desc.prems
  have "conn_inv (c\<lparr>c_ports := Some x\<rparr>)" if "c_ports c = Some y" for x y
    using inv that by (simp add: conn_inv_def)
  then show ?case
    using step_port_desc inv
    by (auto simp: port_desc_handler_def Let_def conn_inv_set_state split: option.split)
next
  case (step_port_status c r no p)
  note inv = step_port_status.prems
  have "conn_inv (c\<lparr>c_ports := Some x\<rparr>)" if "c_ports c = Some y" for x y
    using inv that by (simp add: conn_inv_def)
  then show ?case
    using step_port_status inv
    by (auto simp: port_status_handler_def split: port_reason.split option.split)
next
  case (step_echo_reply c xid)
  note inv = step_echo_reply.prems
  then show ?case
    using inv by (auto simp: acknowledge_echo_reply_def conn_inv_def dest: notin_set_remove1)
next
  case (step_tick c limit)
  note inv = step_tick.prems
  have "conn_inv ((snd (set_xid c))\<lparr>c_unreplied := c_unreplied c @ [fst (set_xid c)]\<rparr>)"
    using inv by (simp add: conn_inv_def set_xid_bound)
  then show ?case
    using step_tick inv
    by (simp add: echo_tick_def case_prod_beta conn_close_def conn_inv_set_state)
next
  case (step_close c)
  note inv = step_close.prems
  then show ?case using inv by (simp add: conn_close_def conn_inv_set_state)
qed (simp_all add: echo_request_handler_def conn_reply_def)

lemma reachable_conn_inv: "conn.reachable c \<Longrightarrow> conn_inv c"
  by (rule conn.invariant_rule [where I = conn_inv]) (auto intro: conn_inv_init conn_step_inv)

text \<open>
  The handler of the port description does not require the features reply: a switch that
  sends an empty description first is in the main state without an id.
\<close>

lemma main_without_id:
  assumes "c_state c = CONFIG_DISPATCHER" "c_id c = None" "c_ports c = None"
  shows "conn_step c (Rx_port_desc [] False) (set_state MAIN_DISPATCHER c)"
  using step_port_desc [OF assms(1), of "[]" False] assms by (simp add: port_desc_handler_def)

end
