(* ===== verification/Ctl_Framing.thy ===== *)
theory Ctl_Framing
  imports Packet_Struct
begin

text \<open>
  \<open>Datapath._recv_loop\<close> in \<open>ryu/controller/controller.py\<close>: cutting the byte stream of a
  switch into OpenFlow messages with the header of \<open>ofproto_parser.header\<close>.  A message whose
  version has no parser raises \<open>OFPUnknownVersion\<close> out of the loop; \<open>known\<close> says which have.
\<close>

definition OFP_HEADER_SIZE :: nat where "OFP_HEADER_SIZE = 8"

record frame =
  fr_version :: nat
  fr_type :: nat
  fr_len :: nat
  fr_xid :: nat
  fr_buf :: bytes

text \<open>\<open>struct.unpack_from('!BBHI', buf)\<close>.\<close>

definition ofp_header :: "bytes \<Rightarrow> nat \<times> nat \<times> nat \<times> nat" where
  "ofp_header buf = (u8_at buf 0, u8_at buf 1, u16_at buf 2, u32_at buf 4)"

text \<open>
  The inner loop: the messages handed to \<open>ofproto_parser.msg\<close>, and the rest of the buffer with
  the new \<open>remaining_read_len\<close>, or the exception.
\<close>

type_synonym drained = "frame list \<times> (bytes \<times> nat) res"

function drain :: "(nat \<Rightarrow> bool) \<Rightarrow> nat \<Rightarrow> bytes \<Rightarrow> drained" where
  "drain known remaining buf =
     (if length buf < OFP_HEADER_SIZE then ([], Inr (buf, remaining))
      else
        let (version, msg_type, len0, xid) = ofp_header buf;
            msg_len = (if len0 < OFP_HEADER_SIZE then OFP_HEADER_SIZE else len0)
        in if length buf < msg_len then ([], Inr (buf, msg_len - length buf))
           else if \<not> known version then ([], Inl (OtherError ''OFPUnknownVersion''))
           else
             let (fs, r) = drain known OFP_HEADER_SIZE (drop msg_len buf)
             in (\<lparr>fr_version = version, fr_type = msg_type, fr_len = msg_len, fr_xid = xid,
                  fr_buf = take msg_len buf\<rparr> # fs, r))"
  by pat_completeness auto
termination
  by (relation "measure (\<lambda>(known, remaining, buf). length buf)") (auto simp: OFP_HEADER_SIZE_def)

declare drain.simps [simp del]

text \<open>The size of the next read.\<close>

definition read_len :: "nat \<Rightarrow> nat" where
  "read_len remaining = (if remaining > OFP_HEADER_SIZE then remaining else OFP_HEADER_SIZE)"

text \<open>
  The outer loop over the chunks that \<open>recv\<close> returns while the datapath is not dead; it ends at
  an exception.
\<close>

fun recv_loop :: "(nat \<Rightarrow> bool) \<Rightarrow> nat \<Rightarrow> bytes \<Rightarrow> bytes list \<Rightarrow> drained" where
  "recv_loop known remaining buf [] = ([], Inr (buf, remaining))"
| "recv_loop known remaining buf (chunk # chunks) =
     (case drain known remaining (buf @ chunk) of
        (fs, Inl e) \<Rightarrow> (fs, Inl e)
      | (fs, Inr (buf', remaining')) \<Rightarrow>
          let (gs, r) = recv_loop known remaining' buf' chunks in (fs @ gs, r))"

text \<open>
  The same loop with its condition \<open>self.state != DEAD_DISPATCHER\<close>, which is tested before each
  read and not between the messages of one read.  \<open>dead seen chunks\<close> says whether the test fails
  after the messages \<open>seen\<close> with \<open>chunks\<close> still unread.  A timed-out read goes back to the test
  and changes nothing; the end of the stream and a failed read end the list of chunks.
\<close>

fun recv_while ::
  "(frame list \<Rightarrow> bytes list \<Rightarrow> bool) \<Rightarrow> (nat \<Rightarrow> bool) \<Rightarrow> frame list \<Rightarrow> nat \<Rightarrow> bytes \<Rightarrow> bytes list \<Rightarrow> drained"
where
  "recv_while dead known seen remaining buf [] = ([], Inr (buf, remaining))"
| "recv_while dead known seen remaining buf (chunk # chunks) =
     (if dead seen (chunk # chunks) then ([], Inr (buf, remaining))
      else
        case drain known remaining (buf @ chunk) of
          (fs, Inl e) \<Rightarrow> (fs, Inl e)
        | (fs, Inr (buf', remaining')) \<Rightarrow>
            let (gs, r) = recv_while dead known (seen @ fs) remaining' buf' chunks in (fs @ gs, r))"

text \<open>So \<open>recv_loop\<close> speaks of the chunks that are read until the loop stops.\<close>

lemma recv_while_prefix:
  "\<exists>n. recv_while dead known seen remaining buf chunks = recv_loop known remaining buf (take n chunks)"
proof (induction chunks arbitrary: seen remaining buf)
  case (Cons c cs)
  show ?case
  proof (cases "dead seen (c # cs)")
    case True
    then show ?thesis by (intro exI [of _ 0]) simp
  next
    case False
    obtain fs r where d: "drain known remaining (buf @ c) = (fs, r)" by (cases "drain known remaining (buf @ c)")
    show ?thesis
    proof (cases r)
      case (Inl e)
      then show ?thesis using d False by (intro exI [of _ 1]) simp
    next
      case (Inr p)
      obtain b m where p: "p = (b, m)" by (cases p)
      from Cons.IH [of "seen @ fs" m b] obtain n where
        "recv_while dead known (seen @ fs) m b cs = recv_loop known m b (take n cs)" by blast
      then show ?thesis using d Inr p False by (intro exI [of _ "Suc n"]) simp
    qed
  qed
qed simp

section \<open>Framing does not depend on the chunks\<close>

definition resume :: "(nat \<Rightarrow> bool) \<Rightarrow> drained \<Rightarrow> bytes \<Rightarrow> drained" where
  "resume known d b =
     (case d of
        (fs, Inl e) \<Rightarrow> (fs, Inl e)
      | (fs, Inr (buf, remaining)) \<Rightarrow>
          let (gs, r) = drain known remaining (buf @ b) in (fs @ gs, r))"

lemma ofp_header_append: "OFP_HEADER_SIZE \<le> length a \<Longrightarrow> ofp_header (a @ b) = ofp_header a"
  by (cases "a = []")
     (simp_all add: ofp_header_def OFP_HEADER_SIZE_def u8_at_def u16_at_def u32_at_def nth_append)

text \<open>The length used for a message, and one turn of the loop in terms of it.\<close>

definition frame_len :: "bytes \<Rightarrow> nat" where
  "frame_len buf =
     (let (v, t, len0, x) = ofp_header buf in if len0 < OFP_HEADER_SIZE then OFP_HEADER_SIZE else len0)"

definition frame_of :: "bytes \<Rightarrow> frame" where
  "frame_of buf =
     (let (v, t, len0, x) = ofp_header buf
      in \<lparr>fr_version = v, fr_type = t, fr_len = frame_len buf, fr_xid = x,
          fr_buf = take (frame_len buf) buf\<rparr>)"

lemma frame_len_bounds: "OFP_HEADER_SIZE \<le> frame_len buf" "0 < frame_len buf"
  by (auto simp: frame_len_def OFP_HEADER_SIZE_def split: prod.split)

lemma frame_of_simps [simp]: "fr_len (frame_of buf) = frame_len buf"
  "fr_buf (frame_of buf) = take (frame_len buf) buf"
  by (simp_all add: frame_of_def case_prod_beta)

lemma drain_short: "length buf < OFP_HEADER_SIZE \<Longrightarrow> drain known remaining buf = ([], Inr (buf, remaining))"
  by (simp add: drain.simps)

lemma drain_step:
  "OFP_HEADER_SIZE \<le> length buf \<Longrightarrow> drain known remaining buf =
     (if length buf < frame_len buf then ([], Inr (buf, frame_len buf - length buf))
      else if \<not> known (fr_version (frame_of buf)) then ([], Inl (OtherError ''OFPUnknownVersion''))
      else (frame_of buf # fst (drain known OFP_HEADER_SIZE (drop (frame_len buf) buf)),
            snd (drain known OFP_HEADER_SIZE (drop (frame_len buf) buf))))"
  by (subst drain.simps)
     (simp add: frame_len_def frame_of_def Let_def case_prod_beta split: prod.split)

lemma frame_append:
  assumes "OFP_HEADER_SIZE \<le> length a"
  shows "frame_len (a @ b) = frame_len a"
    and "\<not> length a < frame_len a \<Longrightarrow> frame_of (a @ b) = frame_of a"
    and "fr_version (frame_of (a @ b)) = fr_version (frame_of a)"
  using assms by (simp_all add: frame_len_def frame_of_def ofp_header_append case_prod_beta)

lemma drain_remaining:
  "OFP_HEADER_SIZE \<le> length buf \<Longrightarrow> drain known m buf = drain known n buf"
  by (subst (1 2) drain.simps) simp

lemma drain_append: "drain known remaining (a @ b) = resume known (drain known remaining a) b"
proof (induction "length a" arbitrary: a remaining rule: less_induct)
  case less
  show ?case
  proof (cases "length a < OFP_HEADER_SIZE")
    case True
    then show ?thesis by (simp add: resume_def drain_short)
  next
    case False
    then have hd: "OFP_HEADER_SIZE \<le> length a" "OFP_HEADER_SIZE \<le> length (a @ b)" by simp_all
    show ?thesis
    proof (cases "length a < frame_len a")
      case True
      then show ?thesis
        using drain_remaining [OF hd(2), of known remaining "frame_len a - length a"]
        by (simp add: drain_step [OF hd(1)] resume_def)
    next
      case False': False
      have IH: "drain known n (drop (frame_len a) a @ b) = resume known (drain known n (drop (frame_len a) a)) b" for n
        by (rule less) (use False' frame_len_bounds [of a] in \<open>simp add: diff_less\<close>)
      obtain fs r where d: "drain known OFP_HEADER_SIZE (drop (frame_len a) a) = (fs, r)"
        by (cases "drain known OFP_HEADER_SIZE (drop (frame_len a) a)")
      show ?thesis
        using False' IH [of OFP_HEADER_SIZE] d
        by (simp add: drain_step [OF hd(1)] drain_step [OF hd(2)] frame_append [OF hd(1)]
            resume_def case_prod_beta split: sum.split)
    qed
  qed
qed

lemma drain_idem:
  assumes "drain known remaining buf = (fs, Inr (buf', remaining'))"
  shows "drain known remaining' buf' = ([], Inr (buf', remaining'))"
  using assms
proof (induction "length buf" arbitrary: buf remaining fs rule: less_induct)
  case less
  show ?case
  proof (cases "length buf < OFP_HEADER_SIZE")
    case True
    with less.prems show ?thesis by (simp add: drain_short)
  next
    case False
    then have hd: "OFP_HEADER_SIZE \<le> length buf" by simp
    show ?thesis
    proof (cases "length buf < frame_len buf")
      case True
      with less.prems have "buf' = buf" "remaining' = frame_len buf - length buf"
        by (auto simp: drain_step [OF hd])
      then show ?thesis using True by (simp add: drain_step [OF hd])
    next
      case False': False
      from less.prems False' have
        "drain known OFP_HEADER_SIZE (drop (frame_len buf) buf) = (tl fs, Inr (buf', remaining'))"
        by (auto simp: drain_step [OF hd] prod_eq_iff split: if_splits)
      then show ?thesis
        using less.hyps [of "drop (frame_len buf) buf"] frame_len_bounds [of buf] False' by auto
    qed
  qed
qed

lemma recv_loop_drain:
  assumes "drain known remaining buf = ([], Inr (buf, remaining))"
  shows "recv_loop known remaining buf chunks = drain known remaining (buf @ concat chunks)"
  using assms
proof (induction chunks arbitrary: remaining buf)
  case (Cons c cs)
  obtain fs r where d: "drain known remaining (buf @ c) = (fs, r)"
    by (cases "drain known remaining (buf @ c)")
  have "drain known remaining (buf @ concat (c # cs)) = resume known (fs, r) (concat cs)"
    using drain_append [of known remaining "buf @ c" "concat cs"] d by simp
  moreover have "recv_loop known remaining buf (c # cs) = resume known (fs, r) (concat cs)"
  proof (cases r)
    case (Inr p)
    obtain b' m' where p: "p = (b', m')" by (cases p)
    have "recv_loop known m' b' cs = drain known m' (b' @ concat cs)"
      by (rule Cons.IH) (rule drain_idem [OF d [unfolded Inr p]])
    then show ?thesis by (simp add: d Inr p resume_def)
  qed (simp add: d resume_def)
  ultimately show ?case by simp
qed simp

text \<open>Every message has at least a header, and the messages with the rest are the stream.\<close>

lemma drain_frames:
  assumes "drain known remaining buf = (fs, r)"
  shows "(\<forall>f \<in> set fs. OFP_HEADER_SIZE \<le> fr_len f \<and> length (fr_buf f) = fr_len f \<and> known (fr_version f)) \<and>
     (\<forall>b m. r = Inr (b, m) \<longrightarrow> concat (map fr_buf fs) @ b = buf)"
  using assms
proof (induction "length buf" arbitrary: buf remaining fs r rule: less_induct)
  case less
  show ?case
  proof (cases "length buf < OFP_HEADER_SIZE")
    case True
    with less.prems show ?thesis by (auto simp: drain_short)
  next
    case False
    then have hd: "OFP_HEADER_SIZE \<le> length buf" by simp
    show ?thesis
    proof (cases "length buf < frame_len buf \<or> \<not> known (fr_version (frame_of buf))")
      case True
      with less.prems show ?thesis by (auto simp: drain_step [OF hd] split: if_splits)
    next
      case False': False
      obtain gs r' where d: "drain known OFP_HEADER_SIZE (drop (frame_len buf) buf) = (gs, r')"
        by (cases "drain known OFP_HEADER_SIZE (drop (frame_len buf) buf)")
      have sm: "length (drop (frame_len buf) buf) < length buf"
        using False' frame_len_bounds [of buf] by auto
      from less.prems False' d have "fs = frame_of buf # gs" "r = r'"
        by (auto simp: drain_step [OF hd])
      with less.hyps [OF sm d] show ?thesis
        using False' frame_len_bounds [of buf] by auto
    qed
  qed
qed

end
