(* ===== verification/Ctl_Properties.thy ===== *)
theory Ctl_Properties
  imports Ctl_Network Ctl_Dpset Ctl_Handshake Ctl_Framing
begin

text \<open>
  The properties of the controller's tables and of the OpenFlow connection: what observers of
  the events know, what keeps networks apart, which version and which states a connection can
  have, and that messages are framed independently of how the bytes arrive.
\<close>

section \<open>Tunnel keys and ports\<close>

lemma tk_ok_empty: "tk_ok []"
  by (simp add: tk_ok_def)

text \<open>
  After any sequence of calls on an empty table no two networks share a tunnel key, and an
  observer that applies the events in order knows exactly the table.
\<close>

theorem tunnel_keys_distinct_and_announced:
  fixes cs :: "'n key_call list"
  shows "inj_on (dict_get (fst (tunnel_keys.run cs []))) (dom (dict_get (fst (tunnel_keys.run cs [])))) \<and>
     dict_get (fst (tunnel_keys.run cs [])) = fold apply_key_event (snd (tunnel_keys.run cs [])) Map.empty"
proof -
  have e: "dict_get ([] :: 'n tunnel_keys) = Map.empty" by (simp add: fun_eq_iff)
  have "tk_ok (fst (tunnel_keys.run cs []))" by (rule tunnel_keys.run_good [OF tk_ok_empty])
  then have "inj_on (dict_get (fst (tunnel_keys.run cs []))) (dom (dict_get (fst (tunnel_keys.run cs []))))"
    by (auto simp: tk_ok_def inj_on_def dom_def)
  then show ?thesis using tunnel_keys.run_mirror [OF tk_ok_empty, of cs] e by simp
qed

text \<open>
   \<open>get_port\<close> answers a port exactly when it is the only port of the switch with that peer,
  and stops on an assertion when two ports have the same peer, which \<open>register_port\<close> admits.
\<close>

theorem get_port_needs_unique_peer:
  assumes "td_ok d"
  shows "(td_get_port dpid remote d = Inr p \<longleftrightarrow>
      (\<forall>q. td_get_remote_dpid dpid q d = Inr remote \<longleftrightarrow> q = p)) \<and>
    (td_get_port dpid remote d = Inl (Py AssertionError) \<longleftrightarrow>
      (\<exists>p q. p \<noteq> q \<and> td_get_remote_dpid dpid p d = Inr remote \<and>
             td_get_remote_dpid dpid q d = Inr remote))"
  using td_get_port_iff [OF assms] by blast

definition two_ports :: tunnel_dpids where
  "two_ports = (\<lambda>_. [(1, 9), (2, 9)])"

theorem get_port_needs_unique_peer_witness: "td_get_port 5 9 two_ports = Inl (Py AssertionError)"
proof -
  have ok: "td_ok two_ports" by (simp add: td_ok_def two_ports_def dict_wf_def)
  have "td_get_remote_dpid 5 1 two_ports = Inr 9 \<and> td_get_remote_dpid 5 2 two_ports = Inr 9"
    by (simp add: td_get_remote_dpid_def two_ports_def dict_get_def)
  then have "\<exists>p q. p \<noteq> q \<and> td_get_remote_dpid 5 p two_ports = Inr 9 \<and> td_get_remote_dpid 5 q two_ports = Inr 9"
    by (metis one_eq_numeral_iff semiring_norm(85))
  then show ?thesis using get_port_needs_unique_peer [OF ok, of 5 9] by blast
qed

section \<open>Networks\<close>

text \<open>
  On a table whose two views of membership agree, moving a port to an existing network
  succeeds, moves that port and no other, and the views agree afterwards.
\<close>

theorem update_port_moves_one_port:
  assumes "net_ok s" and "n \<noteq> nw_id_unknown s" and "dict_get (networks s) n \<noteq> None"
  shows "fst (net_update_port n d p s) = Inr () \<and> net_ok (snd (net_update_port n d p s)) \<and>
     (\<forall>d' p'. dpids_get_network_safe d' p' (snd (net_update_port n d p s)) =
        (if d' = d \<and> p' = p then n else dpids_get_network_safe d' p' s))"
  using update_port_ok [OF assms] by blast

definition one_network :: network where
  "one_network = snd (net_create_network ''red'' (network_init ''unknown''))"

lemma one_network_facts:
  "net_ok one_network" "''red'' \<noteq> nw_id_unknown one_network" "dict_get (networks one_network) ''red'' = Some []"
  using create_network_ok [OF net_ok_init, of "''red''" "''unknown''"]
  by (simp_all add: one_network_def net_create_network_def check_nw_id_unknown_def networks_create_def
      network_init_def net_send_def)

theorem update_port_moves_one_port_witness:
  "fst (net_update_port ''red'' 1 2 one_network) = Inr () \<and>
   dpids_get_network_safe 1 2 (snd (net_update_port ''red'' 1 2 one_network)) = ''red''"
  using update_port_moves_one_port [OF one_network_facts(1,2), of 1 2] one_network_facts(3) by simp

text \<open>
  The ports that \<open>filter_ports\<close> lists for a packet are exactly the other ports of its
  network and, when there is one, of the external network.
\<close>

theorem filter_ports_isolates_networks:
  assumes "rows_wf s" and "nw \<noteq> nw_id_unknown s" and "ext \<noteq> Some (nw_id_unknown s)"
    and "filter_ports d in_port nw ext s = Inr ps"
  shows "set ps = {p. p \<noteq> in_port \<and>
     (dpids_get_network_safe d p s = nw \<or> ext = Some (dpids_get_network_safe d p s))}"
  using filter_ports_iff [OF assms] by blast

definition two_networks :: network where
  "two_networks = (network_init ''unknown'')\<lparr>dpids := [(1,
     [(1, \<lparr>np_no = 1, np_network = ''red'', np_mac = None\<rparr>),
      (2, \<lparr>np_no = 2, np_network = ''red'', np_mac = None\<rparr>),
      (3, \<lparr>np_no = 3, np_network = ''blue'', np_mac = None\<rparr>)])]\<rparr>"

theorem filter_ports_isolates_networks_witness:
  "\<exists>ps. filter_ports 1 1 ''red'' None two_networks = Inr ps \<and> 2 \<in> set ps \<and> 3 \<notin> set ps"
proof -
  have wf: "rows_wf two_networks"
    by (auto simp: rows_wf_def row_of_def two_networks_def dict_get_def dict_wf_def split: if_splits)
  have u: "''red'' \<noteq> nw_id_unknown two_networks" "None \<noteq> Some (nw_id_unknown two_networks)"
    by (simp_all add: two_networks_def network_init_def)
  obtain ps where ps: "filter_ports 1 1 ''red'' None two_networks = Inr ps"
    using u(1) by (auto simp: filter_ports_def)
  have "dpids_get_network_safe 1 2 two_networks = ''red''" "dpids_get_network_safe 1 3 two_networks = ''blue''"
    by (simp_all add: dpids_get_network_safe_def row_of_def two_networks_def dict_get_def)
  then show ?thesis using ps filter_ports_isolates_networks [OF wf u ps] by simp
qed

text \<open>
  When the network that a port still names has been removed, moving the port to a network
  that exists reports that network as not found, having already added the port to it; the port
  object keeps the removed network.
\<close>

theorem moving_port_of_removed_network_fails:
  assumes "n \<noteq> nw_id_unknown s" and "dict_get (networks s) n = Some ps"
    and "dpids_get_network_safe d p s = old" "old \<noteq> nw_id_unknown s" "old \<noteq> n"
    and "dict_get (networks s) old = None"
  shows "fst (net_update_port n d p s) = Inl NetworkNotFound \<and>
     in_net (snd (net_update_port n d p s)) n d p \<and>
     dpids_get_network_safe d p (snd (net_update_port n d p s)) = old"
  using update_port_after_remove [OF assms] by blast

theorem moving_port_of_removed_network_fails_witness:
  "fst (net_update_port ''green'' 1 3 (two_networks\<lparr>networks := [(''green'', [])]\<rparr>)) = Inl NetworkNotFound"
proof -
  let ?s = "two_networks\<lparr>networks := [(''green'', [])]\<rparr>"
  have "dpids_get_network_safe 1 3 ?s = ''blue''" "''green'' \<noteq> nw_id_unknown ?s" "''blue'' \<noteq> nw_id_unknown ?s"
    "dict_get (networks ?s) ''green'' = Some []" "dict_get (networks ?s) ''blue'' = None"
    by (simp_all add: dpids_get_network_safe_def row_of_def two_networks_def dict_get_def network_init_def)
  from moving_port_of_removed_network_fails [OF this(2,4,1,3) _ this(5)] show ?thesis by simp
qed

section \<open>The datapath set\<close>

lemma dpset_ok_init: "dpset_ok dpset_init"
  by (simp add: dpset_ok_def dpset_init_def)

text \<open>
  After any sequence of connection changes and port-status messages, switches and port
  tables have the same identifiers, and an observer that applies the published events in order
  knows exactly the ports of every connected switch.
\<close>

theorem dpset_events_tell_the_ports:
  fixes cs :: "'p ds_call list"
  shows "dpset_ok (fst (dpset_events.run cs dpset_init)) \<and>
   dpset_view (fst (dpset_events.run cs dpset_init)) =
     fold apply_dp_event (snd (dpset_events.run cs dpset_init)) (\<lambda>_. None)"
proof -
  have "dpset_view (dpset_init :: 'p dpset) = (\<lambda>_. None)"
    by (simp add: fun_eq_iff dpset_view_def dpset_init_def)
  then show ?thesis
    using dpset_events.run_good [OF dpset_ok_init, of cs] dpset_events.run_mirror [OF dpset_ok_init, of cs]
    by simp
qed

text \<open>
  When a switch reconnects before its old connection is noticed to be dead, the new
  connection replaces the old, which is closed; the later death of the old connection changes
  nothing and is not announced.
\<close>

theorem late_death_of_replaced_connection:
  assumes "dpset_ok s" and "dict_get (dps s) i = Some old" and "do_id new = Some i"
    and "do_handle new \<noteq> do_handle old"
    and "\<forall>j d. dict_get (dps s) j = Some d \<longrightarrow> do_handle d = do_handle old \<longrightarrow> j = i"
  shows "\<exists>s1. fst (snd (ds_register new s)) = s1 \<and> dict_get (dps s1) i = Some new \<and>
     port_state s1 = port_state s \<and> do_handle old \<in> set (closed s1) \<and>
     ds_unregister old s1 = (Inr (), s1, [])"
  using reconnect_then_old_dies [OF assms(1-4)] assms(5) by blast

definition dp_a :: "nat dp_obj" where
  "dp_a = \<lparr>do_handle = 1, do_id = Some 7, do_ports = []\<rparr>"

definition dp_b :: "nat dp_obj" where
  "dp_b = \<lparr>do_handle = 2, do_id = Some 7, do_ports = []\<rparr>"

definition connected :: "nat dpset" where
  "connected = fst (snd (ds_register dp_a dpset_init))"

theorem late_death_of_replaced_connection_witness:
  "\<exists>s1. fst (snd (ds_register dp_b connected)) = s1 \<and> ds_unregister dp_a s1 = (Inr (), s1, [])"
proof -
  have ok: "dpset_ok connected" unfolding connected_def by (rule register_ok [OF dpset_ok_init])
  have d: "dps connected = [(7, dp_a)]"
    by (simp add: connected_def ds_register_def dp_a_def dpset_init_def Let_def dict_set_def dict_get_def)
  have g: "dict_get (dps connected) 7 = Some dp_a" "do_id dp_b = Some 7" "do_handle dp_b \<noteq> do_handle dp_a"
    "\<forall>j d. dict_get (dps connected) j = Some d \<longrightarrow> do_handle d = do_handle dp_a \<longrightarrow> j = 7"
    by (simp_all add: d dict_get_def dp_a_def dp_b_def)
  show ?thesis using late_death_of_replaced_connection [OF ok g] by blast
qed

section \<open>The OpenFlow connection\<close>

text \<open>
  C17.  Exactly when negotiation succeeds, and with which version.  When the HELLO of the switch
  has version bitmaps, the version is one that both sides have, and no version of the switch
  lies between it and the controller's highest.  When it has none, the version is the smaller
  of the two version fields, which the controller must support, and no other supported version
  may lie between it and the switch's field.  In every other case negotiation fails.
\<close>

theorem negotiated_version_is_right:
  assumes "finite supported"
  shows "negotiate supported own v elements = Inr w \<longleftrightarrow> w \<in> supported \<and>
     (if elements = [] then w = min v own \<and> (\<forall>x \<in> supported. x \<le> v \<longrightarrow> x \<le> w)
      else w \<in> set (concat elements) \<and> (\<forall>x \<in> set (concat elements). x \<le> Max supported \<longrightarrow> x \<le> w))"
    (is "?n = Inr w \<longleftrightarrow> w \<in> supported \<and> ?spec")
proof
  assume n: "?n = Inr w"
  note s = negotiate_sound [OF assms n]
  have ?spec
  proof (cases "elements = []")
    case True
    have "\<forall>x \<in> supported. x \<le> v \<longrightarrow> x \<le> w"
      using negotiate_plain_top [OF assms] n unfolding True .
    with s(3) [OF True] show ?thesis unfolding if_P [OF True] by (rule conjI)
  next
    case False
    show ?thesis unfolding if_not_P [OF False] by (rule s(2) [OF False])
  qed
  then show "w \<in> supported \<and> ?spec" using s(1) by blast
next
  assume w: "w \<in> supported \<and> ?spec"
  show "?n = Inr w"
  proof (cases "elements = []")
    case True
    from w [unfolded if_P [OF True]] show ?thesis unfolding True
      by (elim conjE) (rule negotiate_complete_plain [OF assms])
  next
    case False
    from w [unfolded if_not_P [OF False]] show ?thesis
      by (elim conjE) (rule negotiate_complete_bitmap [OF assms False])
  qed
qed

theorem negotiated_version_is_right_witness:
  "negotiate {1, 4} 4 5 [[1, 2, 4]] = Inr 4 \<and> negotiate {1, 4} 4 4 [] = Inr 4 \<and>
   negotiate {1, 4} 4 2 [] \<noteq> Inr 2 \<and> negotiate {1, 4} 4 2 [] \<noteq> Inr 1"
proof -
  have f: "finite {1, 4 :: nat}" by simp
  show ?thesis unfolding negotiated_version_is_right [OF f] by simp
qed

text \<open>
  In every reachable state of a connection the negotiated version is a supported one, the
  published states only move forward, no state is published twice, the last published state is
  the current one, and transaction ids fit in 32 bits.
\<close>

theorem connection_invariant:
  assumes "conn.reachable c"
  shows "c_version c \<in> c_supported c \<and> sorted_wrt (<) (map rank (c_changes c)) \<and>
     last (c_changes c) = c_state c \<and> c_xid c \<le> 0xffffffff \<and>
     (\<forall>x \<in> set (c_unreplied c). x \<le> 0xffffffff)"
  using reachable_conn_inv [OF assms] unfolding conn_inv_def MAX_XID_def by blast

lemma conn_start: "conn.reachable (conn_init {4} 5)"
  by (rule conn.reach_start, rule exI [of _ "{4}"], rule exI [of _ 5]) (simp add: MAX_XID_def)

theorem connection_invariant_witness: "c_version (conn_init {4} 5) \<in> c_supported (conn_init {4} 5)"
  using connection_invariant [OF conn_start] by blast

text \<open>
  A connection can reach the main state without a datapath id: a port-description reply
  before the features reply is enough.
\<close>

theorem main_state_without_datapath_id:
  "\<exists>c. conn.reachable c \<and> c_state c = MAIN_DISPATCHER \<and> c_id c = None"
proof -
  define c1 where "c1 = fst (hello_handler 4 [] (conn_init {4} 5))"
  have n: "negotiate {4} 4 4 [] = Inr 4" by (simp add: negotiate_single)
  have c1: "c_state c1 = CONFIG_DISPATCHER" "c_id c1 = None" "c_ports c1 = None"
    by (simp_all add: c1_def hello_handler_def conn_init_def n set_version_def conn_send_def)
  have "conn.reachable c1"
    unfolding c1_def by (rule conn.reach_step [OF conn_start step_hello]) (simp add: conn_init_def)
  from conn.reach_step [OF this main_without_id [OF c1]] c1(2)
  show ?thesis by (intro exI [of _ "set_state MAIN_DISPATCHER c1"]) simp
qed

section \<open>Framing\<close>

text \<open>
  C18.  The messages that the receive loop hands on, the bytes it keeps and the exception it
  ends with depend only on the bytes received, not on how \<open>recv\<close> cuts them into chunks.
\<close>

theorem framing_ignores_chunks:
  "recv_loop known OFP_HEADER_SIZE [] chunks = drain known OFP_HEADER_SIZE (concat chunks)"
  using recv_loop_drain [of known OFP_HEADER_SIZE "[]" chunks] drain_short [of "[]" known OFP_HEADER_SIZE]
  by (simp add: OFP_HEADER_SIZE_def)

end
