(* ===== verification/App_Events.thy ===== *)
theory App_Events
  imports Ctl_Tables Py_Strings
begin

text \<open>
  The event bus of \<open>ryu/base/app_manager.py\<close> and \<open>ryu/controller/handler.py\<close>: handler and
  observer tables of an application, the table of service bricks, delivery, and the loading of
  applications with the services they depend on.  An event class and a dispatcher state are
  named by strings; an event is its class and an identity.
\<close>

section \<open>Applications\<close>

record event =
  ev_cls :: string
  ev_no :: nat

text \<open>\<open>_Caller\<close>: the states in which a handler is in effect and the module of the event.\<close>

record caller =
  dispatchers :: "string list"
  ev_source :: "string option"

record handler =
  h_id :: nat
  callers :: "(string, caller) dict"

text \<open>\<open>methods\<close> are the decorated methods, in the order of \<open>inspect.getmembers\<close>.\<close>

record app =
  app_name :: string
  methods :: "handler list"
  app_events :: "string list"
  event_handlers :: "(string, handler list) dict"
  observers :: "(string, (string, string set) dict) dict"
  queue :: "(event \<times> string option) list"
  events_sem :: nat
  is_active :: bool

definition QUEUE_MAX :: nat where "QUEUE_MAX = 128"

definition app_init :: "string \<Rightarrow> handler list \<Rightarrow> string list \<Rightarrow> app" where
  "app_init nm ms evs =
     \<lparr>app_name = nm, methods = ms, app_events = evs, event_handlers = [], observers = [], queue = [],
      events_sem = QUEUE_MAX, is_active = True\<rparr>"

definition register_handler :: "string \<Rightarrow> handler \<Rightarrow> app \<Rightarrow> app" where
  "register_handler ev h a =
     (let hs = (case dict_get (event_handlers a) ev of None \<Rightarrow> [] | Some l \<Rightarrow> l)
      in a\<lparr>event_handlers := dict_set ev (hs @ [h]) (event_handlers a)\<rparr>)"

definition unregister_handler :: "string \<Rightarrow> handler \<Rightarrow> app \<Rightarrow> app res" where
  "unregister_handler ev h a =
     (case dict_get (event_handlers a) ev of
        None \<Rightarrow> Inl KeyError
      | Some l \<Rightarrow>
          if h \<notin> set l then Inl (ValueError ''list.remove(x): x not in list'')
          else let l' = remove1 h l in
            Inr (a\<lparr>event_handlers := (if l' = [] then dict_del ev (event_handlers a)
                                     else dict_set ev l' (event_handlers a))\<rparr>))"

text \<open>\<open>states\<close> is a set or a list; a false one stands for no states.\<close>

definition register_observer :: "string \<Rightarrow> string \<Rightarrow> string set \<Rightarrow> app \<Rightarrow> app" where
  "register_observer ev name states a =
     (let row = (case dict_get (observers a) ev of None \<Rightarrow> [] | Some r \<Rightarrow> r);
          old = (case dict_get row name of None \<Rightarrow> {} | Some st \<Rightarrow> st)
      in a\<lparr>observers := dict_set ev (dict_set name (old \<union> states) row) (observers a)\<rparr>)"

definition unregister_observer :: "string \<Rightarrow> string \<Rightarrow> app \<Rightarrow> app res" where
  "unregister_observer ev name a =
     (case dict_get (observers a) ev of
        None \<Rightarrow> Inl KeyError
      | Some row \<Rightarrow>
          if dict_get row name = None then Inl KeyError
          else Inr (a\<lparr>observers := dict_set ev (dict_del name row) (observers a)\<rparr>))"

definition unregister_observer_all_event :: "string \<Rightarrow> app \<Rightarrow> app" where
  "unregister_observer_all_event name a =
     a\<lparr>observers := map (\<lambda>(ev, row). (ev, dict_del name row)) (observers a)\<rparr>"

text \<open>The test of a handler against the state of the event.\<close>

definition handler_wants :: "string \<Rightarrow> string \<Rightarrow> handler \<Rightarrow> bool" where
  "handler_wants ev state h =
     (case dict_get (callers h) ev of
        None \<Rightarrow> True
      | Some c \<Rightarrow> dispatchers c = [] \<or> state \<in> set (dispatchers c))"

definition get_handlers :: "event \<Rightarrow> string option \<Rightarrow> app \<Rightarrow> handler list" where
  "get_handlers ev state a =
     (let hs = (case dict_get (event_handlers a) (ev_cls ev) of None \<Rightarrow> [] | Some l \<Rightarrow> l)
      in case state of None \<Rightarrow> hs | Some st \<Rightarrow> filter (handler_wants (ev_cls ev) st) hs)"

definition get_observers :: "event \<Rightarrow> string option \<Rightarrow> app \<Rightarrow> string list" where
  "get_observers ev state a =
     (case dict_get (observers a) (ev_cls ev) of
        None \<Rightarrow> []
      | Some row \<Rightarrow>
          map fst (filter (\<lambda>(k, v). state = None \<or> state = Some [] \<or> v = {} \<or> the state \<in> v) row))"

section \<open>Service bricks\<close>

type_synonym bricks = "(string, app) dict"

text \<open>\<open>register_instance\<close>.\<close>

definition register_instance :: "app \<Rightarrow> app" where
  "register_instance a =
     fold (\<lambda>m a. fold (\<lambda>(ev, c) a. register_handler ev m a) (callers m) a) (methods a) a"

definition register_app :: "app \<Rightarrow> bricks \<Rightarrow> bricks res" where
  "register_app a bs =
     (if dict_get bs (app_name a) \<noteq> None then Inl AssertionError
      else Inr (dict_set (app_name a) (register_instance a) bs))"

definition unregister_app :: "string \<Rightarrow> bricks \<Rightarrow> bricks res" where
  "unregister_app name bs = (if dict_get bs name = None then Inl KeyError else Inr (dict_del name bs))"

definition on_app :: "string \<Rightarrow> (app \<Rightarrow> app) \<Rightarrow> bricks \<Rightarrow> bricks" where
  "on_app name f bs = (case dict_get bs name of None \<Rightarrow> bs | Some a \<Rightarrow> dict_set name (f a) bs)"

text \<open>\<open>_lookup_service_brick_by_mod_name\<close>: the last component of the module's name.\<close>

definition brick_of_module :: "string \<Rightarrow> string" where
  "brick_of_module m = last (split_on (CHR ''.'') m)"

definition observe_event :: "string \<Rightarrow> string \<Rightarrow> string \<Rightarrow> string set \<Rightarrow> bricks \<Rightarrow> bricks" where
  "observe_event ev_module ev name states bs =
     on_app (brick_of_module ev_module) (register_observer ev name states) bs"

definition unobserve_event :: "string \<Rightarrow> string \<Rightarrow> string \<Rightarrow> bricks \<Rightarrow> bricks res" where
  "unobserve_event ev_module ev name bs =
     (case dict_get bs (brick_of_module ev_module) of
        None \<Rightarrow> Inr bs
      | Some a \<Rightarrow>
          (case unregister_observer ev name a of
             Inl e \<Rightarrow> Inl e
           | Inr a' \<Rightarrow> Inr (dict_set (brick_of_module ev_module) a' bs)))"

text \<open>\<open>_update_bricks\<close>, for one decorated method and one of its event classes.\<close>

definition update_brick :: "string \<Rightarrow> string \<Rightarrow> caller \<Rightarrow> bricks \<Rightarrow> bricks" where
  "update_brick name ev c bs =
     (if ev_source c = None \<or> ev_source c = Some [] then bs
      else
        let bs1 = observe_event (the (ev_source c)) ev name (set (dispatchers c)) bs
        in fold (\<lambda>b. on_app b (\<lambda>a. if ev \<in> set (app_events a)
                                   then register_observer ev name (set (dispatchers c)) a else a))
             (dict_keys bs1) bs1)"

definition update_bricks :: "bricks \<Rightarrow> bricks" where
  "update_bricks bs =
     fold (\<lambda>(name, a). fold (\<lambda>m. fold (\<lambda>(ev, c). update_brick (app_name a) ev c) (callers m)) (methods a)) bs bs"

text \<open>\<open>uninstantiate\<close> up to the call of \<open>stop\<close>; the application keeps its queue.\<close>

definition uninstantiate :: "string \<Rightarrow> bricks \<Rightarrow> (app \<times> bricks) res" where
  "uninstantiate name bs =
     (case dict_get bs name of
        None \<Rightarrow> Inl KeyError
      | Some a \<Rightarrow>
          Inr (a\<lparr>is_active := False\<rparr>,
               map (\<lambda>(k, b). (k, unregister_observer_all_event name b)) (dict_del name bs)))"

end
