(* ===== verification/App_Delivery.thy ===== *)
theory App_Delivery
  imports App_Events
begin

text \<open>
  Delivery of events to one application of \<open>ryu/base/app_manager.py\<close>, step by step: the
  senders in \<open>_send_event\<close> (a permit of the semaphore, then the queue), the loop of
  \<open>_event_loop\<close> (an item, the permit given back, then the handlers in turn) and \<open>stop\<close>.
  Every step is one uninterrupted stretch of a green thread, so the steps of the senders and
  of the loop interleave freely.  What a handler does is a parameter; \<open>taskexit\<close> says on
  which event it ends in \<open>hub.TaskExit\<close>, every other exception being logged and dropped.
\<close>

section \<open>Delivery state and steps\<close>

type_synonym item = "event \<times> string option"

datatype phase =
    Waiting
  | Taken item
  | Running event "handler list"
  | Ended

text \<open>
  \<open>admitted\<close> are the items whose sender has a permit but has not reached the queue, in any
  order; \<open>puts\<close> and \<open>calls\<close> are the history of the queue and of the handler calls.
\<close>

record delivery =
  receiver :: app
  admitted :: "item list"
  phase :: phase
  puts :: "item list"
  calls :: "(nat \<times> event) list"

definition delivery_init :: "app \<Rightarrow> delivery" where
  "delivery_init a = \<lparr>receiver = a, admitted = [], phase = Waiting, puts = [], calls = []\<rparr>"

text \<open>\<open>ev == self._event_stop\<close>: the class of that event is private to the application.\<close>

definition is_stop :: "event \<Rightarrow> bool" where
  "is_stop ev \<longleftrightarrow> ev_cls ev = ''_EventThreadStop''"

definition handlers_of :: "app \<Rightarrow> item \<Rightarrow> handler list" where
  "handlers_of a it = (if is_stop (fst it) then [] else get_handlers (fst it) (snd it) a)"

text \<open>\<open>self._events_sem.acquire()\<close>, when a permit is left.\<close>

definition acquire :: "item \<Rightarrow> delivery \<Rightarrow> delivery option" where
  "acquire it d =
     (let a = receiver d in
      if events_sem a = 0 then None
      else Some (d\<lparr>receiver := a\<lparr>events_sem := events_sem a - 1\<rparr>, admitted := it # admitted d\<rparr>))"

text \<open>\<open>self.events.put((ev, state))\<close>, when the queue is not full.\<close>

definition put :: "item \<Rightarrow> delivery \<Rightarrow> delivery option" where
  "put it d =
     (let a = receiver d in
      if it \<notin> set (admitted d) \<or> QUEUE_MAX \<le> length (queue a) then None
      else Some (d\<lparr>receiver := a\<lparr>queue := queue a @ [it]\<rparr>, admitted := remove1 it (admitted d),
                   puts := puts d @ [it]\<rparr>))"

text \<open>The head of the loop: its condition and \<open>self.events.get()\<close>.\<close>

definition loop_get :: "delivery \<Rightarrow> delivery option" where
  "loop_get d =
     (let a = receiver d in
      if phase d \<noteq> Waiting then None
      else case queue a of
        [] \<Rightarrow> if is_active a then None else Some (d\<lparr>phase := Ended\<rparr>)
      | it # q \<Rightarrow> Some (d\<lparr>receiver := a\<lparr>queue := q\<rparr>, phase := Taken it\<rparr>))"

text \<open>
  \<open>self._events_sem.release()\<close> on a bounded semaphore raises when every permit is back;
  then the handlers are looked up.
\<close>

definition loop_release :: "delivery \<Rightarrow> delivery res option" where
  "loop_release d =
     (case phase d of
        Taken it \<Rightarrow>
          (let a = receiver d in
           Some (if QUEUE_MAX \<le> events_sem a then Inl (ValueError ''Semaphore released too many times'')
                 else Inr (d\<lparr>receiver := a\<lparr>events_sem := events_sem a + 1\<rparr>,
                             phase := Running (fst it) (handlers_of a it)\<rparr>)))
      | _ \<Rightarrow> None)"

text \<open>One iteration of the loop over the handlers, or its end.\<close>

definition loop_call :: "(nat \<Rightarrow> event \<Rightarrow> bool) \<Rightarrow> delivery \<Rightarrow> delivery option" where
  "loop_call taskexit d =
     (case phase d of
        Running ev [] \<Rightarrow> Some (d\<lparr>phase := Waiting\<rparr>)
      | Running ev (h # hs) \<Rightarrow>
          Some (d\<lparr>calls := calls d @ [(h_id h, ev)],
                  phase := (if taskexit (h_id h) ev then Ended else Running ev hs)\<rparr>)
      | _ \<Rightarrow> None)"

definition deactivate :: "delivery \<Rightarrow> delivery" where
  "deactivate d = d\<lparr>receiver := (receiver d)\<lparr>is_active := False\<rparr>\<rparr>"

inductive bus_step :: "(nat \<Rightarrow> event \<Rightarrow> bool) \<Rightarrow> delivery \<Rightarrow> delivery \<Rightarrow> bool" for taskexit where
  step_acquire: "acquire it d = Some d' \<Longrightarrow> bus_step taskexit d d'"
| step_put: "put it d = Some d' \<Longrightarrow> bus_step taskexit d d'"
| step_get: "loop_get d = Some d' \<Longrightarrow> bus_step taskexit d d'"
| step_release: "loop_release d = Some (Inr d') \<Longrightarrow> bus_step taskexit d d'"
| step_call: "loop_call taskexit d = Some d' \<Longrightarrow> bus_step taskexit d d'"
| step_stop: "bus_step taskexit d (deactivate d)"

text \<open>A delivery starts at an application with its handlers registered and nothing queued.\<close>

definition fresh_app :: "app \<Rightarrow> bool" where
  "fresh_app a \<longleftrightarrow> queue a = [] \<and> events_sem a = QUEUE_MAX"

inductive bus_reach :: "(nat \<Rightarrow> event \<Rightarrow> bool) \<Rightarrow> app \<Rightarrow> delivery \<Rightarrow> bool" for taskexit a where
  bus_start: "bus_reach taskexit a (delivery_init a)"
| bus_next: "bus_reach taskexit a d \<Longrightarrow> bus_step taskexit d d' \<Longrightarrow> bus_reach taskexit a d'"

section \<open>Invariants\<close>

lemma acquire_Some: "acquire it d = Some d' \<longleftrightarrow>
    events_sem (receiver d) \<noteq> 0 \<and>
    d' = d\<lparr>receiver := (receiver d)\<lparr>events_sem := events_sem (receiver d) - 1\<rparr>,
           admitted := it # admitted d\<rparr>"
  by (auto simp: acquire_def Let_def)

lemma put_Some: "put it d = Some d' \<longleftrightarrow>
    it \<in> set (admitted d) \<and> length (queue (receiver d)) < QUEUE_MAX \<and>
    d' = d\<lparr>receiver := (receiver d)\<lparr>queue := queue (receiver d) @ [it]\<rparr>,
           admitted := remove1 it (admitted d), puts := puts d @ [it]\<rparr>"
  by (auto simp: put_def Let_def)

lemma loop_get_Some: "loop_get d = Some d' \<longleftrightarrow>
    phase d = Waiting \<and>
    ((queue (receiver d) = [] \<and> \<not> is_active (receiver d) \<and> d' = d\<lparr>phase := Ended\<rparr>) \<or>
     (\<exists>it q. queue (receiver d) = it # q \<and>
        d' = d\<lparr>receiver := (receiver d)\<lparr>queue := q\<rparr>, phase := Taken it\<rparr>))"
  by (auto simp: loop_get_def Let_def split: list.split)

lemma loop_release_Some: "loop_release d = Some (Inr d') \<longleftrightarrow>
    (\<exists>it. phase d = Taken it \<and> events_sem (receiver d) < QUEUE_MAX \<and>
       d' = d\<lparr>receiver := (receiver d)\<lparr>events_sem := events_sem (receiver d) + 1\<rparr>,
              phase := Running (fst it) (handlers_of (receiver d) it)\<rparr>)"
  by (auto simp: loop_release_def Let_def split: phase.split)

lemma loop_call_Some: "loop_call taskexit d = Some d' \<longleftrightarrow>
    ((\<exists>ev. phase d = Running ev [] \<and> d' = d\<lparr>phase := Waiting\<rparr>) \<or>
     (\<exists>ev h hs. phase d = Running ev (h # hs) \<and>
        d' = d\<lparr>calls := calls d @ [(h_id h, ev)],
               phase := (if taskexit (h_id h) ev then Ended else Running ev hs)\<rparr>))"
  by (auto simp: loop_call_def split: phase.split list.split)

lemmas bus_Some = acquire_Some put_Some loop_get_Some loop_release_Some loop_call_Some

lemma handlers_of_cong:
  assumes "event_handlers b = event_handlers a"
  shows "handlers_of b it = handlers_of a it"
  unfolding handlers_of_def get_handlers_def by (simp only: assms)

text \<open>Every permit is in exactly one place.\<close>

definition permits_out :: "delivery \<Rightarrow> nat" where
  "permits_out d =
     length (admitted d) + length (queue (receiver d)) + (case phase d of Taken _ \<Rightarrow> 1 | _ \<Rightarrow> 0)"

definition permits_ok :: "delivery \<Rightarrow> bool" where
  "permits_ok d \<longleftrightarrow> events_sem (receiver d) + permits_out d = QUEUE_MAX"

lemma length_remove1_member: "x \<in> set xs \<Longrightarrow> Suc (length (remove1 x xs)) = length xs"
  by (induction xs) auto

lemma permits_step:
  assumes "bus_step taskexit d d'" and "permits_ok d"
  shows "permits_ok d'"
proof -
  note defs = permits_ok_def permits_out_def bus_Some
  from assms(1) show ?thesis
  proof cases
    case (step_acquire it)
    with assms(2) show ?thesis by (auto simp: defs)
  next
    case (step_put it)
    with assms(2) length_remove1_member [of it "admitted d"] show ?thesis by (auto simp: defs)
  next
    case step_get
    with assms(2) show ?thesis by (auto simp: defs)
  next
    case step_release
    with assms(2) show ?thesis by (auto simp: defs)
  next
    case step_call
    with assms(2) show ?thesis by (auto simp: defs)
  next
    case step_stop
    with assms(2) show ?thesis by (simp add: defs deactivate_def)
  qed
qed

text \<open>
  The calls an item leads to, what is left of the calls for the item in hand, and the
  invariant: the calls for everything that was queued are the calls made so far, then those in
  progress, then those for the items still in the queue.
\<close>

definition calls_for :: "app \<Rightarrow> item \<Rightarrow> (nat \<times> event) list" where
  "calls_for a it = map (\<lambda>h. (h_id h, fst it)) (handlers_of a it)"

definition in_progress :: "app \<Rightarrow> delivery \<Rightarrow> (nat \<times> event) list" where
  "in_progress a d = (case phase d of
      Taken it \<Rightarrow> calls_for a it
    | Running ev hs \<Rightarrow> map (\<lambda>h. (h_id h, ev)) hs
    | _ \<Rightarrow> [])"

definition handled_ok :: "app \<Rightarrow> delivery \<Rightarrow> bool" where
  "handled_ok a d \<longleftrightarrow>
     event_handlers (receiver d) = event_handlers a \<and>
     (\<exists>rest. concat (map (calls_for a) (puts d)) = calls d @ rest \<and>
       (phase d \<noteq> Ended \<longrightarrow> rest = in_progress a d @ concat (map (calls_for a) (queue (receiver d)))))"

lemma handled_step:
  assumes "bus_step taskexit d d'" and "handled_ok a d"
  shows "handled_ok a d'"
proof -
  have eh: "event_handlers (receiver d) = event_handlers a" using assms(2) by (simp add: handled_ok_def)
  note defs = handled_ok_def in_progress_def bus_Some
  from assms(1) show ?thesis
  proof cases
    case (step_acquire it)
    with assms(2) show ?thesis by (auto simp: defs)
  next
    case (step_put it)
    with assms(2) show ?thesis by (auto simp: defs)
  next
    case step_get
    with assms(2) show ?thesis by (auto simp: defs)
  next
    case step_release
    with assms(2) show ?thesis by (auto simp: defs calls_for_def handlers_of_cong [OF eh])
  next
    case step_call
    with assms(2) show ?thesis by (auto simp: defs)
  next
    case step_stop
    with assms(2) show ?thesis by (auto simp: defs deactivate_def)
  qed
qed

lemma bus_reach_ok:
  "bus_reach taskexit a d \<Longrightarrow> fresh_app a \<Longrightarrow> permits_ok d \<and> handled_ok a d"
proof (induction rule: bus_reach.induct)
  case bus_start
  then show ?case
    by (simp add: fresh_app_def delivery_init_def permits_ok_def permits_out_def handled_ok_def
        in_progress_def)
next
  case (bus_next d d')
  then show ?case by (blast intro: permits_step handled_step)
qed

lemmas bus_reach_permits = bus_reach_ok [THEN conjunct1]
lemmas bus_reach_handled = bus_reach_ok [THEN conjunct2]

end
