(* ===== verification/App_Loading.thy ===== *)
theory App_Loading
  imports App_Events "HOL-Library.Multiset"
begin

text \<open>
  Loading of applications: \<open>get_dependent_services\<close> of \<open>ryu/controller/handler.py\<close> and the
  worklist of \<open>AppManager.load_apps\<close>.  Importing a module is outside the model: a
  parameter tells the application class that \<open>load_app\<close> finds for a name.  The iteration
  order of a Python \<open>set\<close> is the parameter \<open>ord\<close>.
\<close>

section \<open>Classes and their dependencies\<close>

text \<open>
  \<open>ctx_methods\<close> is \<open>None\<close> for a context class that is not an application.
\<close>

record context_class =
  ctx_id :: nat
  ctx_module :: string
  ctx_methods :: "handler list option"

record app_class =
  cls_module :: string
  cls_methods :: "handler list"
  cls_contexts :: "(string, context_class) dict"

text \<open>
  What the interpreter knows of the loaded modules: the class \<open>load_app\<close> returns, the module
  of an event class, \<open>_SERVICE_NAME\<close> and \<open>_REQUIRED_APP\<close> of a module.
\<close>

record module_env =
  load_app :: "string \<Rightarrow> app_class option"
  module_of :: "string \<Rightarrow> string"
  service_name :: "string \<Rightarrow> string option"
  required_app :: "string \<Rightarrow> string list"
  ord :: "string set \<Rightarrow> string list"

definition ord_ok :: "module_env \<Rightarrow> bool" where
  "ord_ok im \<longleftrightarrow> (\<forall>A. finite A \<longrightarrow> set (ord im A) = A \<and> distinct (ord im A))"

definition event_service :: "module_env \<Rightarrow> string \<Rightarrow> string \<Rightarrow> string list" where
  "event_service im m ev =
     (case service_name im (module_of im ev) of
        None \<Rightarrow> []
      | Some s \<Rightarrow> if s = [] \<or> m = s then [] else [s])"

definition get_dependent_services :: "module_env \<Rightarrow> string \<Rightarrow> handler list \<Rightarrow> string list" where
  "get_dependent_services im m ms =
     ord im (set (concat (map (\<lambda>h. concat (map (event_service im m) (dict_keys (callers h)))) ms)
                  @ required_app im m))"

section \<open>The worklist\<close>

record loaded =
  applications_cls :: "(string, app_class) dict"
  contexts_cls :: "(string, context_class) dict"

text \<open>
  The loop over the contexts of a class: \<open>setdefault\<close>, the assertion, the modules seen and
  the services of the contexts that are applications.
\<close>

fun add_contexts :: "module_env \<Rightarrow> (string \<times> context_class) list \<Rightarrow> (string, context_class) dict \<Rightarrow>
    string list \<Rightarrow> string list \<Rightarrow> ((string, context_class) dict \<times> string list \<times> string list) res" where
  "add_contexts im [] cs mods svcs = Inr (cs, mods, svcs)"
| "add_contexts im ((k, c) # rest) cs mods svcs =
     (let v = (case dict_get cs k of Some v \<Rightarrow> v | None \<Rightarrow> c);
          cs' = (case dict_get cs k of Some _ \<Rightarrow> cs | None \<Rightarrow> dict_set k c cs)
      in if ctx_id v \<noteq> ctx_id c then Inl AssertionError
         else add_contexts im rest cs' (mods @ [ctx_module c])
                (case ctx_methods c of
                   None \<Rightarrow> svcs
                 | Some ms \<Rightarrow> svcs @ get_dependent_services im (ctx_module c) ms))"

text \<open>One pass: the names to add to the worklist and the new tables.\<close>

definition load_one :: "module_env \<Rightarrow> string \<Rightarrow> loaded \<Rightarrow> (string list \<times> loaded) res" where
  "load_one im n st =
     (let context_modules = map ctx_module (dict_values (contexts_cls st)) in
      if n \<in> set context_modules then Inr ([], st)
      else case load_app im n of
        None \<Rightarrow> Inr ([], st)
      | Some c \<Rightarrow>
          (case add_contexts im (cls_contexts c) (contexts_cls st) context_modules [] of
             Inl e \<Rightarrow> Inl e
           | Inr (cs, mods, svcs) \<Rightarrow>
               let services = svcs @ filter (\<lambda>i. i \<notin> set mods)
                                       (get_dependent_services im (cls_module c) (cls_methods c))
               in Inr (ord im (set services),
                       \<lparr>applications_cls = dict_set n c (applications_cls st), contexts_cls = cs\<rparr>)))"

partial_function (option) load_loop :: "module_env \<Rightarrow> string list \<Rightarrow> loaded \<Rightarrow> loaded run" where
  "load_loop im names st =
     (case names of
        [] \<Rightarrow> Some (Inr st)
      | n # rest \<Rightarrow>
          (case load_one im n st of
             Inl e \<Rightarrow> Some (Inl e)
           | Inr (services, st') \<Rightarrow>
               load_loop im (rest @ filter (\<lambda>s. s \<notin> set rest) services) st'))"

text \<open>\<open>load_apps\<close>: every argument is a comma separated list of names.\<close>

definition load_apps :: "module_env \<Rightarrow> string list \<Rightarrow> loaded \<Rightarrow> loaded run" where
  "load_apps im args st = load_loop im (concat (map (split_on (CHR '','')) args)) st"

lemma load_loop_Nil [simp]: "load_loop im [] st = Some (Inr st)"
  by (subst load_loop.simps) simp

lemma load_loop_Cons:
  "load_loop im (n # rest) st =
     (case load_one im n st of
        Inl e \<Rightarrow> Some (Inl e)
      | Inr (services, st') \<Rightarrow> load_loop im (rest @ filter (\<lambda>s. s \<notin> set rest) services) st')"
  by (subst load_loop.simps) simp

section \<open>Dependencies that are well-founded\<close>

text \<open>The services a context asks for.\<close>

definition context_services :: "module_env \<Rightarrow> context_class \<Rightarrow> string list" where
  "context_services im x =
     (case ctx_methods x of None \<Rightarrow> [] | Some ms \<Rightarrow> get_dependent_services im (ctx_module x) ms)"

text \<open>The services a class can add to the worklist.\<close>

definition class_services :: "module_env \<Rightarrow> app_class \<Rightarrow> string set" where
  "class_services im c =
     set (get_dependent_services im (cls_module c) (cls_methods c)) \<union>
     (\<Union>x \<in> snd ` set (cls_contexts c). set (context_services im x))"

definition ranked :: "module_env \<Rightarrow> (string \<Rightarrow> nat) \<Rightarrow> bool" where
  "ranked im rank \<longleftrightarrow>
     (\<forall>n c s. load_app im n = Some c \<longrightarrow> s \<in> class_services im c \<longrightarrow> rank s < rank n)"

lemma add_contexts_Cons:
  assumes "add_contexts im ((k, c) # rest) cs mods svcs = Inr r"
  obtains cs' where "add_contexts im rest cs' (mods @ [ctx_module c]) (svcs @ context_services im c) = Inr r"
  using assms by (cases "ctx_methods c")
    (auto simp: Let_def context_services_def split: if_splits option.splits)

lemma add_contexts_services:
  "add_contexts im l cs mods svcs = Inr (cs', mods', svcs') \<Longrightarrow>
   set svcs' \<subseteq> set svcs \<union> (\<Union>x \<in> snd ` set l. set (context_services im x))"
proof (induction l arbitrary: cs mods svcs)
  case (Cons kc rest)
  obtain k c where kc: "kc = (k, c)" by (cases kc)
  obtain cs2 where "add_contexts im rest cs2 (mods @ [ctx_module c]) (svcs @ context_services im c) =
      Inr (cs', mods', svcs')"
    using Cons.prems unfolding kc by (rule add_contexts_Cons)
  from Cons.IH [OF this] show ?case by (auto simp: kc)
qed simp

lemma load_one_services:
  assumes "load_one im n st = Inr (services, st')" and "ord_ok im" and "s \<in> set services"
  obtains c where "load_app im n = Some c" "s \<in> class_services im c"
proof -
  from assms(1,3) obtain c cs mods svcs where c: "load_app im n = Some c"
    and add: "add_contexts im (cls_contexts c) (contexts_cls st)
      (map ctx_module (dict_values (contexts_cls st))) [] = Inr (cs, mods, svcs)"
    and sv: "services = ord im (set (svcs @ filter (\<lambda>i. i \<notin> set mods)
      (get_dependent_services im (cls_module c) (cls_methods c))))"
    by (auto simp: load_one_def Let_def split: if_splits option.splits sum.splits)
  have "s \<in> set svcs \<or> s \<in> set (get_dependent_services im (cls_module c) (cls_methods c))"
    using assms(2,3) by (auto simp: sv ord_ok_def)
  then have "s \<in> class_services im c"
    using add_contexts_services [OF add] by (auto simp: class_services_def)
  with c show thesis by (rule that)
qed

text \<open>Each pass replaces a name by names of smaller rank.\<close>

definition work_order :: "(string \<Rightarrow> nat) \<Rightarrow> (string list \<times> string list) set" where
  "work_order rank = inv_image (mult (measure rank)) mset"

lemma wf_work_order: "wf (work_order rank)"
  by (simp add: work_order_def wf_mult)

lemma worklist_decreases:
  assumes "\<And>s. s \<in> set services \<Longrightarrow> rank s < rank n"
  shows "(rest @ filter P services, n # rest) \<in> work_order rank"
proof -
  have "(mset rest + mset (filter P services), mset rest + {#n#}) \<in> mult (measure rank)"
    using assms by (intro one_step_implies_mult) auto
  then show ?thesis by (simp add: work_order_def)
qed

lemma load_loop_returns:
  assumes "ord_ok im" and "ranked im rank"
  shows "load_loop im names st \<noteq> None"
proof (induction names arbitrary: st rule: wf_induct_rule [OF wf_work_order [of rank]])
  case (1 names)
  show ?case
  proof (cases names)
    case (Cons n rest)
    show ?thesis
    proof (cases "load_one im n st")
      case (Inr r)
      obtain services st' where r: "r = (services, st')" by (cases r)
      have "rank s < rank n" if "s \<in> set services" for s
        using load_one_services [OF Inr [unfolded r] assms(1) that] assms(2)
        by (metis ranked_def)
      then have "(rest @ filter (\<lambda>s. s \<notin> set rest) services, names) \<in> work_order rank"
        unfolding Cons by (rule worklist_decreases)
      then show ?thesis using 1 Inr by (simp add: Cons load_loop_Cons r)
    qed (simp add: Cons load_loop_Cons)
  qed simp
qed

section \<open>Dependencies in a circle\<close>

text \<open>A class without contexts whose only dependent service is \<open>s\<close>.\<close>

definition needs_only :: "module_env \<Rightarrow> string \<Rightarrow> string \<Rightarrow> bool" where
  "needs_only im n s \<longleftrightarrow>
     (\<exists>c. load_app im n = Some c \<and> cls_contexts c = [] \<and>
          get_dependent_services im (cls_module c) (cls_methods c) = [s])"

lemma ord_singleton:
  assumes "ord_ok im"
  shows "ord im {s} = [s]"
proof -
  have "set (ord im {s}) = {s}" "distinct (ord im {s})" using assms by (simp_all add: ord_ok_def)
  then show ?thesis by (cases "ord im {s}") (auto simp: subset_singleton_iff)
qed

lemma load_one_needs_only:
  assumes "needs_only im n s" and "ord_ok im" and "contexts_cls st = []"
  obtains st' where "load_one im n st = Inr ([s], st')" "contexts_cls st' = []"
  using assms by (auto simp: needs_only_def load_one_def dict_values_def ord_singleton)

lemma circle_never_returns:
  assumes "needs_only im m n" and "needs_only im n m" and "ord_ok im" and "contexts_cls st = []"
  shows "load_loop im [m] st = None"
proof -
  have "\<not> (im' = im \<and> (names = [m] \<or> names = [n]) \<and> contexts_cls st' = [])"
    if "load_loop im' names st' = Some y" for im' names st' y
  proof (rule load_loop.raw_induct [of "\<lambda>im' names st' y. \<not> (im' = im \<and> (names = [m] \<or> names = [n]) \<and>
        contexts_cls st' = [])", OF _ that], rule notI, elim conjE, goal_cases)
    case (1 f im' names st' y)
    obtain k s where k: "names = [k]" "s = m \<or> s = n" "needs_only im k s"
      using 1 assms(1,2) by blast
    obtain st2 where st2: "load_one im k st' = Inr ([s], st2)" "contexts_cls st2 = []"
      using load_one_needs_only [OF k(3) assms(3)] 1 by blast
    have "f im [s] st2 = Some y" using 1 k(1) st2(1) by simp
    then have "\<not> (im = im \<and> ([s] = [m] \<or> [s] = [n]) \<and> contexts_cls st2 = [])" by (rule 1(1))
    then show False using k(2) st2(2) by simp
  qed
  then show ?thesis using assms(4) by (cases "load_loop im [m] st") auto
qed

end
