(* ===== verification/App_Properties.thy ===== *)
theory App_Properties
  imports App_Delivery App_Loading
begin

text \<open>
  Properties of the application manager: delivery of events in order and without overflow,
  the states an observer is registered for, and when loading applications ends.
\<close>

section \<open>Delivery\<close>

text \<open>
  C21. The handlers of an application are called for the events put into its queue, in the
  order of the queue and for each event in the order of registration: at any time the calls
  made are an initial part of the calls due, and they are all of them when the loop is waiting
  at an empty queue.
\<close>
theorem events_handled_in_order:
  assumes "bus_reach taskexit a d" and "fresh_app a"
  defines "due \<equiv> concat (map (calls_for a) (puts d))"
  shows "calls d =
    (if phase d = Waiting \<and> queue (receiver d) = [] then due else take (length (calls d)) due)"
  using bus_reach_handled [OF assms(1,2)] by (auto simp: due_def handled_ok_def in_progress_def)

definition sample_handler :: handler where
  "sample_handler = \<lparr>h_id = 7, callers = [(''E'', \<lparr>dispatchers = [''main''], ev_source = Some ''m''\<rparr>)]\<rparr>"

definition sample_app :: app where
  "sample_app = register_instance (app_init ''A'' [sample_handler] [])"

definition sample_event :: event where
  "sample_event = \<lparr>ev_cls = ''E'', ev_no = 1\<rparr>"

definition sample_item :: item where
  "sample_item = (sample_event, Some ''main'')"

lemma sample_app_eq:
  "sample_app = \<lparr>app_name = ''A'', methods = [sample_handler], app_events = [],
     event_handlers = [(''E'', [sample_handler])], observers = [], queue = [], events_sem = 128,
     is_active = True\<rparr>"
  by (simp add: sample_app_def register_instance_def app_init_def register_handler_def QUEUE_MAX_def
      sample_handler_def dict_set_def)

lemma sample_fresh: "fresh_app sample_app"
  by (simp add: fresh_app_def sample_app_eq QUEUE_MAX_def)

text \<open>The run that delivers one event: its sender, the queue, the loop and the handler.\<close>

definition sample_admitted :: delivery where
  "sample_admitted =
     (delivery_init sample_app)\<lparr>receiver := sample_app\<lparr>events_sem := 127\<rparr>, admitted := [sample_item]\<rparr>"

definition sample_queued :: delivery where
  "sample_queued =
     (delivery_init sample_app)\<lparr>receiver := sample_app\<lparr>events_sem := 127, queue := [sample_item]\<rparr>,
        puts := [sample_item]\<rparr>"

definition sample_done :: delivery where
  "sample_done = (delivery_init sample_app)\<lparr>puts := [sample_item], calls := [(7, sample_event)]\<rparr>"

lemma sample_admitted_reach: "bus_reach (\<lambda>_ _. False) sample_app sample_admitted"
  by (rule bus_next [OF bus_start], intro step_acquire [of sample_item])
    (simp add: acquire_Some delivery_init_def sample_app_eq sample_admitted_def)

lemma sample_queued_reach: "bus_reach (\<lambda>_ _. False) sample_app sample_queued"
  by (rule bus_next [OF sample_admitted_reach], intro step_put [of sample_item])
    (simp add: put_Some delivery_init_def sample_app_eq QUEUE_MAX_def sample_queued_def
      sample_admitted_def)

lemma sample_handlers: "handlers_of sample_app sample_item = [sample_handler]"
  by (simp add: handlers_of_def is_stop_def get_handlers_def sample_item_def sample_event_def
      sample_app_eq sample_handler_def handler_wants_def dict_get_def)

lemma sample_done_reach: "bus_reach (\<lambda>_ _. False) sample_app sample_done"
proof -
  let ?took = "sample_queued\<lparr>receiver := sample_app\<lparr>events_sem := 127\<rparr>, phase := Taken sample_item\<rparr>"
  let ?runs = "sample_queued\<lparr>receiver := sample_app, phase := Running sample_event [sample_handler]\<rparr>"
  let ?ran = "?runs\<lparr>calls := [(7, sample_event)], phase := Running sample_event []\<rparr>"
  note defs = bus_Some sample_queued_def delivery_init_def sample_app_eq QUEUE_MAX_def
  have handlers: "handlers_of (sample_app\<lparr>events_sem := 127\<rparr>) sample_item = [sample_handler]"
    by (simp add: handlers_of_cong [of _ sample_app] sample_handlers)
  have "bus_reach (\<lambda>_ _. False) sample_app ?took"
    by (rule bus_next [OF sample_queued_reach], rule step_get) (simp add: defs)
  then have "bus_reach (\<lambda>_ _. False) sample_app ?runs"
    by (rule bus_next, intro step_release)
      (use handlers in \<open>simp add: loop_release_Some QUEUE_MAX_def sample_item_def, simp add: sample_app_eq\<close>)
  then have "bus_reach (\<lambda>_ _. False) sample_app ?ran"
    by (rule bus_next, intro step_call) (simp add: loop_call_Some sample_queued_def sample_handler_def
      delivery_init_def)
  then show ?thesis
    by (rule bus_next, intro step_call)
      (simp add: loop_call_Some sample_queued_def sample_done_def delivery_init_def)
qed

theorem events_handled_in_order_witness:
  "phase sample_done = Waiting \<and> queue (receiver sample_done) = [] \<and>
   calls sample_done = [(7, sample_event)] \<and>
   calls sample_done = concat (map (calls_for sample_app) (puts sample_done))"
  using events_handled_in_order [OF sample_done_reach sample_fresh]
  by (simp add: sample_done_def delivery_init_def sample_app_eq)

text \<open>
  The semaphore keeps the queue within its 128 places: a sender that has its permit
  always finds room, and the loop never gives back more permits than there are.
\<close>
theorem delivery_never_overflows:
  assumes "bus_reach taskexit a d" and "fresh_app a"
  shows "length (admitted d) + length (queue (receiver d)) \<le> 128 \<and>
    set (admitted d) \<subseteq> {it. put it d \<noteq> None} \<and> loop_release d \<noteq> Some (Inl e)"
proof (intro conjI subsetI)
  note ok = bus_reach_permits [OF assms, unfolded permits_ok_def permits_out_def QUEUE_MAX_def]
  show "length (admitted d) + length (queue (receiver d)) \<le> 128" using ok by simp
  show "it \<in> {it. put it d \<noteq> None}" if "it \<in> set (admitted d)" for it
    using ok length_remove1_member [OF that] that by (simp add: put_def QUEUE_MAX_def Let_def)
  show "loop_release d \<noteq> Some (Inl e)"
    using ok by (cases "phase d") (auto simp: loop_release_def QUEUE_MAX_def Let_def)
qed

theorem delivery_never_overflows_witness:
  "length (admitted sample_admitted) + length (queue (receiver sample_admitted)) \<le> 128 \<and>
   set (admitted sample_admitted) \<subseteq> {it. put it sample_admitted \<noteq> None} \<and>
   loop_release sample_admitted \<noteq> Some (Inl AssertionError)"
  by (rule delivery_never_overflows [OF sample_admitted_reach sample_fresh])

section \<open>Observers\<close>

text \<open>
  A handler for every state does not widen an observer that is registered for some
  states: the states of the registrations are united and the empty set of states is lost, so
  the application is not told of events in other states, though its second handler wants them.
\<close>
theorem registration_for_all_states_is_lost:
  assumes "dict_get row name = Some states" and "dict_get (observers a) (ev_cls ev) = Some row"
    and "dict_wf row" and "states \<noteq> {}" and "st \<notin> states" and "st \<noteq> []"
    and "dict_get (callers h) (ev_cls ev) = Some \<lparr>dispatchers = [], ev_source = src\<rparr>"
  shows "handler_wants (ev_cls ev) st h \<and>
    name \<notin> set (get_observers ev (Some st) (register_observer (ev_cls ev) name {} a))"
proof
  show "handler_wants (ev_cls ev) st h" using assms(7) by (simp add: handler_wants_def)
  have same: "dict_set name states row = row"
    using assms(1,3) by (induction row) (auto simp: dict_get_def dict_set_def dict_wf_def)
  have "(name, v) \<in> set row \<Longrightarrow> v = states" for v
    using assms(1,3) by (simp add: dict_in_iff)
  then show "name \<notin> set (get_observers ev (Some st) (register_observer (ev_cls ev) name {} a))"
    using assms(1,2,4-6)
    by (auto simp: get_observers_def register_observer_def Let_def same)
qed

definition watched_app :: app where
  "watched_app = register_observer ''E'' ''B'' {''main''} (app_init ''A'' [] [])"

theorem registration_for_all_states_is_lost_witness:
  "handler_wants ''E'' ''config'' \<lparr>h_id = 1, callers = [(''E'', \<lparr>dispatchers = [], ev_source = Some ''m''\<rparr>)]\<rparr> \<and>
   ''B'' \<notin> set (get_observers sample_event (Some ''config'') (register_observer ''E'' ''B'' {} watched_app))"
  using registration_for_all_states_is_lost
    [of "[(''B'', {''main''})]" "''B''" "{''main''}" watched_app sample_event "''config''"
      "\<lparr>h_id = 1, callers = [(''E'', \<lparr>dispatchers = [], ev_source = Some ''m''\<rparr>)]\<rparr>" "Some ''m''"]
  by (simp add: watched_app_def sample_event_def register_observer_def app_init_def dict_get_def
      dict_set_def dict_wf_def)

section \<open>Loading\<close>

text \<open>
  Loading ends when the dependencies between applications are well-founded.
\<close>
theorem load_apps_returns:
  assumes "ord_ok im" and "ranked im rank"
  shows "load_apps im args st \<noteq> None"
  unfolding load_apps_def using assms by (rule load_loop_returns)

text \<open>A module environment with the given classes, whose sets are iterated in sorted order.\<close>

definition sample_env :: "(string \<times> string list) list \<Rightarrow> module_env" where
  "sample_env deps =
     \<lparr>load_app = (\<lambda>n. map_option (\<lambda>_. \<lparr>cls_module = n, cls_methods = [], cls_contexts = []\<rparr>) (map_of deps n)),
      module_of = id, service_name = (\<lambda>_. None),
      required_app = (\<lambda>n. case map_of deps n of None \<Rightarrow> [] | Some l \<Rightarrow> l),
      ord = sorted_list_of_set\<rparr>"

lemma sample_env_ord_ok: "ord_ok (sample_env deps)"
  by (simp add: ord_ok_def sample_env_def)

lemma sample_env_services:
  "get_dependent_services (sample_env deps) n [] =
     sorted_list_of_set (set (case map_of deps n of None \<Rightarrow> [] | Some l \<Rightarrow> l))"
  by (simp add: get_dependent_services_def sample_env_def)

lemma sample_env_needs_only:
  "map_of deps n = Some [s] \<Longrightarrow> needs_only (sample_env deps) n s"
  unfolding needs_only_def
  by (intro exI [of _ "\<lparr>cls_module = n, cls_methods = [], cls_contexts = []\<rparr>"])
    (simp add: sample_env_services, simp add: sample_env_def)

definition firewall_deps :: "(string \<times> string list) list" where
  "firewall_deps = [(''fw'', [''ofp'', ''wsgi'']), (''ofp'', []), (''wsgi'', [])]"

lemma sample_env_class:
  assumes "load_app (sample_env deps) n = Some c" and "s \<in> class_services (sample_env deps) c"
  obtains l where "map_of deps n = Some l" "s \<in> set l"
proof -
  obtain l where l: "map_of deps n = Some l" and c: "cls_module c = n" "cls_methods c = []"
    "cls_contexts c = []"
    using assms(1) by (auto simp: sample_env_def)
  have "s \<in> set l" using assms(2) by (simp add: class_services_def c sample_env_services l)
  with l show thesis by (rule that)
qed

lemma firewall_ranked: "ranked (sample_env firewall_deps) (\<lambda>n. if n = ''fw'' then 1 else 0)"
  unfolding ranked_def
  by (intro allI impI, erule (1) sample_env_class)
    (auto simp: firewall_deps_def split: if_splits)

theorem load_apps_returns_witness:
  "load_apps (sample_env firewall_deps) [''fw''] \<lparr>applications_cls = [], contexts_cls = []\<rparr> \<noteq> None"
  by (rule load_apps_returns [OF sample_env_ord_ok firewall_ranked])

text \<open>
  Two applications that require each other are loaded over and over: the worklist is
  checked against the contexts and against itself, never against the applications that are
  already loaded.
\<close>
theorem circular_services_never_load:
  assumes "needs_only im m n" and "needs_only im n m" and "ord_ok im"
    and "CHR '','' \<notin> set m" and "contexts_cls st = []"
  shows "load_apps im [m] st = None"
  using circle_never_returns [OF assms(1-3,5)] assms(4) by (simp add: load_apps_def)

theorem circular_services_never_load_witness:
  "load_apps (sample_env [(''a'', [''b'']), (''b'', [''a''])]) [''a'']
     \<lparr>applications_cls = [], contexts_cls = []\<rparr> = None"
  by (rule circular_services_never_load [of _ _ "''b''", OF _ _ sample_env_ord_ok])
    (simp_all add: sample_env_needs_only)

end
