(* ===== verification/Oxm_Fields.thy ===== *)
theory Oxm_Fields
  imports Packet_Struct Py_Strings
begin

unbundle bit_operations_syntax

text \<open>
  OpenFlow extensible match fields: the type descriptors of \<open>ryu/lib/type_desc.py\<close>, the address
  converters of \<open>ryu/lib/addrconv.py\<close>, the field classes of \<open>ryu/ofproto/oxm_fields.py\<close> and the
  conversions and wire format of \<open>ryu/ofproto/oxx_fields.py\<close>.  The \<open>netaddr\<close> package behind the
  address converters is a parameter.  A parser gets \<open>buf\<close> from its offset on.
\<close>

section \<open>Values\<close>

text \<open>User values: integers and texts; a field is given as a value or as a value and a mask.\<close>

datatype uval = UInt int | UText string

datatype uv = Plain_uv uval | Masked_uv uval uval

section \<open>Base64\<close>

text \<open>\<open>b64encode\<close> and the default (discarding) mode of \<open>b64decode\<close>.\<close>

definition b64_char :: "nat \<Rightarrow> char" where
  "b64_char n =
     (if n < 26 then char_of (65 + n) else if n < 52 then char_of (71 + n)
      else if n < 62 then char_of (n - 4) else if n = 62 then CHR ''+'' else CHR ''/'')"

definition b64_val :: "char \<Rightarrow> nat option" where
  "b64_val c =
     (let k = of_char c :: nat in
      if 65 \<le> k \<and> k \<le> 90 then Some (k - 65) else if 97 \<le> k \<and> k \<le> 122 then Some (k - 71)
      else if 48 \<le> k \<and> k \<le> 57 then Some (k + 4) else if k = 43 then Some 62
      else if k = 47 then Some 63 else None)"

fun b64encode :: "bytes \<Rightarrow> string" where
  "b64encode [] = []"
| "b64encode [a] =
     [b64_char (unat a div 4), b64_char (unat a mod 4 * 16), CHR ''='', CHR ''='']"
| "b64encode [a, b] =
     [b64_char (unat a div 4), b64_char (unat a mod 4 * 16 + unat b div 16),
      b64_char (unat b mod 16 * 4), CHR ''='']"
| "b64encode (a # b # c # rest) =
     [b64_char (unat a div 4), b64_char (unat a mod 4 * 16 + unat b div 16),
      b64_char (unat b mod 16 * 4 + unat c div 64), b64_char (unat c mod 64)] @ b64encode rest"

text \<open>\<open>binascii.a2b_base64\<close>: the place in the quad, the bits left over, the pads seen.\<close>

fun a2b_base64 :: "string \<Rightarrow> nat \<Rightarrow> nat \<Rightarrow> nat \<Rightarrow> bytes res" where
  "a2b_base64 [] quad left pads =
     (if quad = 0 then Inr [] else Inl (OtherError ''binascii.Error''))"
| "a2b_base64 (ch # cs) quad left pads =
     (if ch = CHR ''='' then
        if 2 \<le> quad then if 4 \<le> quad + Suc pads then Inr [] else a2b_base64 cs quad left (Suc pads)
        else a2b_base64 cs quad left pads
      else case b64_val ch of
        None \<Rightarrow> a2b_base64 cs quad left pads
      | Some v \<Rightarrow>
          if quad = 0 then a2b_base64 cs 1 v 0
          else if quad = 1 then
            map_sum id ((#) (word_of_nat (left * 4 + v div 16))) (a2b_base64 cs 2 (v mod 16) 0)
          else if quad = 2 then
            map_sum id ((#) (word_of_nat (left * 16 + v div 4))) (a2b_base64 cs 3 (v mod 4) 0)
          else map_sum id ((#) (word_of_nat (left * 64 + v))) (a2b_base64 cs 0 0 0))"

definition b64decode :: "string \<Rightarrow> bytes res" where
  "b64decode s =
     (if \<exists>c \<in> set s. 128 \<le> (of_char c :: nat) then Inl (ValueError ''string argument should contain only ASCII characters'')
      else a2b_base64 s 0 0 0)"

lemma of_char_b64: "of_char (b64_char n) =
    (if n < 26 then 65 + n else if n < 52 then 71 + n else if n < 62 then n - 4
     else if n = 62 then 43 else (47 :: nat))"
  by (simp add: b64_char_def)

lemma b64_val_char [simp]: "n < 64 \<Longrightarrow> b64_val (b64_char n) = Some n"
  unfolding b64_val_def of_char_b64 Let_def by auto

lemma b64_char_props: "n < 64 \<Longrightarrow> b64_char n \<noteq> CHR ''='' \<and> (of_char (b64_char n) :: nat) < 128"
proof
  assume n: "n < 64"
  then show "(of_char (b64_char n) :: nat) < 128" by (auto simp: of_char_b64)
  have "(of_char (b64_char n) :: nat) \<noteq> of_char (CHR ''='')" using n by (auto simp: of_char_b64)
  then show "b64_char n \<noteq> CHR ''=''" by metis
qed

lemmas b64_char_ascii [simp] = b64_char_props [THEN conjunct2]
lemmas b64_char_not_pad [simp] = b64_char_props [THEN conjunct1]

lemma byte_small_div:
  "unat (b :: byte) div 16 < 16" "unat b div 64 < 4" "unat b div 4 < 64"
  using unat_byte_less [of b] by (simp_all add: less_mult_imp_div_less)

lemma quad_less: "(x :: nat) < 4 \<Longrightarrow> y < 16 \<Longrightarrow> x * 16 + y < 64" "x < 16 \<Longrightarrow> y < 4 \<Longrightarrow> x * 4 + y < 64"
  by simp_all

lemma quad_bounds:
  "unat a mod 4 * 16 + unat (b :: byte) div 16 < 64"
  "unat b mod 16 * 4 + unat (c :: byte) div 64 < 64" "unat a mod 4 * 16 < 64" "unat b mod 16 * 4 < 64"
  using quad_less(1) [of "unat a mod 4" "unat b div 16"] quad_less(2) [of "unat b mod 16" "unat c div 64"]
    byte_small_div by simp_all

lemma b64_parts:
  fixes x y :: nat
  shows "y < 16 \<Longrightarrow> (x * 16 + y) div 16 = x" "y < 16 \<Longrightarrow> (x * 16 + y) mod 16 = y"
    "y < 4 \<Longrightarrow> (x * 4 + y) div 4 = x" "y < 4 \<Longrightarrow> (x * 4 + y) mod 4 = y"
  by simp_all

text \<open>The three bytes of a group, put together from its four characters.\<close>

lemma regroup:
  "word_of_nat (unat a div 4 * 4 + unat a mod 4) = (a :: byte)"
  "word_of_nat (unat b div 16 * 16 + unat b mod 16) = (b :: byte)"
  "word_of_nat (unat c div 64 * 64 + unat c mod 64) = (c :: byte)"
  by simp_all

lemma a2b_b64encode: "a2b_base64 (b64encode bs) 0 0 0 = Inr bs"
proof (induction bs rule: b64encode.induct)
  case (4 a b c rest)
  then show ?case
    by (simp add: quad_bounds b64_parts byte_small_div)
qed (simp_all add: quad_bounds b64_parts byte_small_div)

lemma b64encode_ascii: "ch \<in> set (b64encode bs) \<Longrightarrow> (of_char ch :: nat) < 128"
  by (induction bs rule: b64encode.induct) (auto simp: quad_bounds byte_small_div)

lemma b64decode_encode [simp]: "b64decode (b64encode bs) = Inr bs"
  using b64encode_ascii by (fastforce simp: b64decode_def a2b_b64encode)

section \<open>Type descriptors and address converters\<close>

text \<open>
  An \<open>AddressConverter\<close>: \<open>addr_packed\<close> is \<open>self._addr(text).packed\<close>, \<open>addr_fallback\<close> the
  packed address and mask of \<open>self._fallback(text)\<close>, \<open>addr_text\<close> is \<open>bin_to_text\<close>.
\<close>

record address_converter =
  addr_packed :: "uval \<Rightarrow> bytes res"
  addr_fallback :: "(uval \<Rightarrow> (bytes \<times> bytes) res) option"
  addr_text :: "bytes \<Rightarrow> string res"

record netaddr =
  na_mac :: address_converter
  na_ipv4 :: address_converter
  na_ipv6 :: address_converter

definition text_to_bin :: "address_converter \<Rightarrow> uval \<Rightarrow> (bytes \<times> bytes option) res" where
  "text_to_bin c u =
     (case addr_packed c u of
        Inr b \<Rightarrow> Inr (b, None)
      | Inl e \<Rightarrow>
          (case addr_fallback c of
             None \<Rightarrow> Inl e
           | Some f \<Rightarrow> (case f u of Inl e' \<Rightarrow> Inl e' | Inr (ip, netmask) \<Rightarrow> Inr (ip, Some netmask))))"

datatype type_descr = IntDescr nat | MacAddr | IPv4Addr | IPv6Addr | UnknownType

fun td_size :: "type_descr \<Rightarrow> nat option" where
  "td_size (IntDescr n) = Some n"
| "td_size MacAddr = Some 6"
| "td_size IPv4Addr = Some 4"
| "td_size IPv6Addr = Some 16"
| "td_size UnknownType = None"

text \<open>The loops of \<open>IntDescr\<close>; \<open>ord\<close> of an empty slice raises.\<close>

fun int_to_user :: "nat \<Rightarrow> bytes \<Rightarrow> int \<Rightarrow> int res" where
  "int_to_user 0 b i = Inr i"
| "int_to_user (Suc n) [] i = Inl TypeError"
| "int_to_user (Suc n) (c # b) i = int_to_user n b (i * 256 + int (unat c))"

fun int_from_user :: "nat \<Rightarrow> int \<Rightarrow> bytes" where
  "int_from_user 0 i = []"
| "int_from_user (Suc n) i = int_from_user n (i div 256) @ [word_of_int (i mod 256)]"

fun td_to_user :: "netaddr \<Rightarrow> type_descr \<Rightarrow> bytes \<Rightarrow> uval res" where
  "td_to_user na (IntDescr n) b = map_sum id UInt (int_to_user n b 0)"
| "td_to_user na MacAddr b = map_sum id UText (addr_text (na_mac na) b)"
| "td_to_user na IPv4Addr b = map_sum id UText (addr_text (na_ipv4 na) b)"
| "td_to_user na IPv6Addr b = map_sum id UText (addr_text (na_ipv6 na) b)"
| "td_to_user na UnknownType b = Inr (UText (b64encode b))"

fun td_from_user :: "netaddr \<Rightarrow> type_descr \<Rightarrow> uval \<Rightarrow> (bytes \<times> bytes option) res" where
  "td_from_user na (IntDescr n) u =
     (case u of UInt i \<Rightarrow> Inr (int_from_user n i, None) | UText _ \<Rightarrow> Inl TypeError)"
| "td_from_user na MacAddr u = text_to_bin (na_mac na) u"
| "td_from_user na IPv4Addr u = text_to_bin (na_ipv4 na) u"
| "td_from_user na IPv6Addr u = text_to_bin (na_ipv6 na) u"
| "td_from_user na UnknownType u =
     (case u of UInt _ \<Rightarrow> Inl TypeError | UText t \<Rightarrow> map_sum id (\<lambda>b. (b, None)) (b64decode t))"

section \<open>Fields\<close>

text \<open>The number of a field: its type, or the experimenter id with a type.\<close>

datatype onum = Num int | Exp_num nat nat

definition OFPXMC_OPENFLOW_BASIC :: nat where "OFPXMC_OPENFLOW_BASIC = 0x8000"
definition OFPXXC_EXPERIMENTER :: nat where "OFPXXC_EXPERIMENTER = 0xffff"
definition ONF_EXPERIMENTER_ID :: nat where "ONF_EXPERIMENTER_ID = 0x4f4e4600"

record field_desc =
  f_name :: string
  f_class :: nat
  f_oxm_type :: nat
  f_num :: onum
  f_experimenter :: nat
  f_exp_type :: nat
  f_type :: type_descr

definition oxm_class :: "nat \<Rightarrow> nat \<Rightarrow> nat" where
  "oxm_class cls num = num OR push_bit 7 cls"

definition OpenFlowBasic :: "string \<Rightarrow> nat \<Rightarrow> type_descr \<Rightarrow> field_desc" where
  "OpenFlowBasic nm num t =
     \<lparr>f_name = nm, f_class = OFPXMC_OPENFLOW_BASIC, f_oxm_type = oxm_class OFPXMC_OPENFLOW_BASIC num,
      f_num = Num (int (oxm_class OFPXMC_OPENFLOW_BASIC num)), f_experimenter = 0, f_exp_type = 0, f_type = t\<rparr>"

definition ONFExperimenter :: "string \<Rightarrow> nat \<Rightarrow> type_descr \<Rightarrow> field_desc" where
  "ONFExperimenter nm num t =
     \<lparr>f_name = nm, f_class = OFPXXC_EXPERIMENTER, f_oxm_type = oxm_class OFPXXC_EXPERIMENTER num,
      f_num = Exp_num ONF_EXPERIMENTER_ID (oxm_class OFPXXC_EXPERIMENTER num),
      f_experimenter = ONF_EXPERIMENTER_ID, f_exp_type = num, f_type = t\<rparr>"

definition OldONFExperimenter :: "string \<Rightarrow> nat \<Rightarrow> type_descr \<Rightarrow> field_desc" where
  "OldONFExperimenter nm num t =
     \<lparr>f_name = nm, f_class = OFPXXC_EXPERIMENTER, f_oxm_type = oxm_class OFPXXC_EXPERIMENTER 0,
      f_num = Exp_num ONF_EXPERIMENTER_ID num,
      f_experimenter = ONF_EXPERIMENTER_ID, f_exp_type = 2560, f_type = t\<rparr>"

text \<open>The fields of OpenFlow 1.3 itself; the Nicira extensions are appended to these.\<close>

definition oxm_types :: "field_desc list" where
  "oxm_types =
    [OpenFlowBasic ''in_port'' 0 (IntDescr 4), OpenFlowBasic ''in_phy_port'' 1 (IntDescr 4),
     OpenFlowBasic ''metadata'' 2 (IntDescr 8), OpenFlowBasic ''eth_dst'' 3 MacAddr,
     OpenFlowBasic ''eth_src'' 4 MacAddr, OpenFlowBasic ''eth_type'' 5 (IntDescr 2),
     OpenFlowBasic ''vlan_vid'' 6 (IntDescr 2), OpenFlowBasic ''vlan_pcp'' 7 (IntDescr 1),
     OpenFlowBasic ''ip_dscp'' 8 (IntDescr 1), OpenFlowBasic ''ip_ecn'' 9 (IntDescr 1),
     OpenFlowBasic ''ip_proto'' 10 (IntDescr 1), OpenFlowBasic ''ipv4_src'' 11 IPv4Addr,
     OpenFlowBasic ''ipv4_dst'' 12 IPv4Addr, OpenFlowBasic ''tcp_src'' 13 (IntDescr 2),
     OpenFlowBasic ''tcp_dst'' 14 (IntDescr 2), OpenFlowBasic ''udp_src'' 15 (IntDescr 2),
     OpenFlowBasic ''udp_dst'' 16 (IntDescr 2), OpenFlowBasic ''sctp_src'' 17 (IntDescr 2),
     OpenFlowBasic ''sctp_dst'' 18 (IntDescr 2), OpenFlowBasic ''icmpv4_type'' 19 (IntDescr 1),
     OpenFlowBasic ''icmpv4_code'' 20 (IntDescr 1), OpenFlowBasic ''arp_op'' 21 (IntDescr 2),
     OpenFlowBasic ''arp_spa'' 22 IPv4Addr, OpenFlowBasic ''arp_tpa'' 23 IPv4Addr,
     OpenFlowBasic ''arp_sha'' 24 MacAddr, OpenFlowBasic ''arp_tha'' 25 MacAddr,
     OpenFlowBasic ''ipv6_src'' 26 IPv6Addr, OpenFlowBasic ''ipv6_dst'' 27 IPv6Addr,
     OpenFlowBasic ''ipv6_flabel'' 28 (IntDescr 4), OpenFlowBasic ''icmpv6_type'' 29 (IntDescr 1),
     OpenFlowBasic ''icmpv6_code'' 30 (IntDescr 1), OpenFlowBasic ''ipv6_nd_target'' 31 IPv6Addr,
     OpenFlowBasic ''ipv6_nd_sll'' 32 MacAddr, OpenFlowBasic ''ipv6_nd_tll'' 33 MacAddr,
     OpenFlowBasic ''mpls_label'' 34 (IntDescr 4), OpenFlowBasic ''mpls_tc'' 35 (IntDescr 1),
     OpenFlowBasic ''mpls_bos'' 36 (IntDescr 1), OpenFlowBasic ''pbb_isid'' 37 (IntDescr 3),
     OpenFlowBasic ''tunnel_id'' 38 (IntDescr 8), OpenFlowBasic ''ipv6_exthdr'' 39 (IntDescr 2),
     OldONFExperimenter ''pbb_uca'' 2560 (IntDescr 1), ONFExperimenter ''tcp_flags'' 42 (IntDescr 2),
     ONFExperimenter ''actset_output'' 43 (IntDescr 4)]"

text \<open>\<open>name_to_field\<close> and \<open>num_to_field\<close>: the later of two entries wins.\<close>

definition name_to_field :: "field_desc list \<Rightarrow> string \<Rightarrow> field_desc option" where
  "name_to_field fs nm = map_of (rev (map (\<lambda>f. (f_name f, f)) fs)) nm"

definition num_to_field :: "field_desc list \<Rightarrow> onum \<Rightarrow> field_desc option" where
  "num_to_field fs n = map_of (rev (map (\<lambda>f. (f_num f, f)) fs)) n"

definition get_field_info_by_name :: "field_desc list \<Rightarrow> string \<Rightarrow> (onum \<times> type_descr) res" where
  "get_field_info_by_name fs nm =
     (case name_to_field fs nm of
        Some f \<Rightarrow> Inr (f_num f, f_type f)
      | None \<Rightarrow>
          if take 6 nm = ''field_'' then
            (case py_int (split_on (CHR ''_'') nm ! 1) of
               None \<Rightarrow> Inl (ValueError ''invalid literal for int()'')
             | Some i \<Rightarrow> Inr (Num i, UnknownType))
          else Inl KeyError)"

definition get_field_info_by_number :: "field_desc list \<Rightarrow> onum \<Rightarrow> (string \<times> type_descr) res" where
  "get_field_info_by_number fs n =
     (case num_to_field fs n of
        Some f \<Rightarrow> Inr (f_name f, f_type f)
      | None \<Rightarrow>
          (case n of Num i \<Rightarrow> Inr (''field_'' @ int_str i, UnknownType) | Exp_num _ _ \<Rightarrow> Inl KeyError))"

text \<open>
  \<open>_from_user\<close>.  A text in CIDR notation gives its mask; together with an explicit mask, or as
  the mask, it is refused here, where the code goes on with a pair of byte strings that every
  use of it rejects.
\<close>

definition oxm_from_user :: "netaddr \<Rightarrow> field_desc list \<Rightarrow> string \<Rightarrow> uv \<Rightarrow> (onum \<times> bytes \<times> bytes option) res" where
  "oxm_from_user na fs nm u =
     (case get_field_info_by_name fs nm of
        Inl e \<Rightarrow> Inl e
      | Inr (num, t) \<Rightarrow>
          (case u of
             Plain_uv v \<Rightarrow> map_sum id (Pair num) (td_from_user na t v)
           | Masked_uv v m \<Rightarrow>
               (case td_from_user na t v of
                  Inl e \<Rightarrow> Inl e
                | Inr (vb, vm) \<Rightarrow>
                    (case td_from_user na t m of
                       Inl e \<Rightarrow> Inl e
                     | Inr (mb, mm) \<Rightarrow>
                         if vm \<noteq> None \<or> mm \<noteq> None then Inl TypeError else Inr (num, vb, Some mb)))))"

definition oxm_to_user :: "netaddr \<Rightarrow> field_desc list \<Rightarrow> onum \<Rightarrow> bytes \<Rightarrow> bytes option \<Rightarrow> (string \<times> uv) res" where
  "oxm_to_user na fs n v m =
     (case get_field_info_by_number fs n of
        Inl e \<Rightarrow> Inl e
      | Inr (nm, t) \<Rightarrow>
          if td_size t \<noteq> None \<and> td_size t \<noteq> Some (length v)
          then Inl (OtherError ''Unexpected OXM payload length'')
          else (case td_to_user na t v of
                  Inl e \<Rightarrow> Inl e
                | Inr u \<Rightarrow>
                    (case m of
                       None \<Rightarrow> Inr (nm, Plain_uv u)
                     | Some mb \<Rightarrow> map_sum id (\<lambda>um. (nm, Masked_uv u um)) (td_to_user na t mb))))"

text \<open>\<open>_normalize_user\<close>: a field that cannot be converted is left as it is.\<close>

definition oxm_normalize_user :: "netaddr \<Rightarrow> field_desc list \<Rightarrow> string \<Rightarrow> uv \<Rightarrow> (string \<times> uv) res" where
  "oxm_normalize_user na fs k u =
     (case oxm_from_user na fs k u of
        Inl _ \<Rightarrow> Inr (k, u)
      | Inr (n, v, m) \<Rightarrow>
          let v' = (case m of None \<Rightarrow> v | Some mb \<Rightarrow> map2 (AND) v mb)
          in (case oxm_to_user na fs n v' m of
                Inl _ \<Rightarrow> Inr (k, u)
              | Inr (k2, u2) \<Rightarrow> if k2 \<noteq> k then Inl AssertionError else Inr (k2, u2)))"

section \<open>Wire format\<close>

text \<open>
  \<open>_parse_header_impl\<close>: the number, the length of the header with the experimenter part, the mask
  flag, the length of the value and that of the field.
\<close>

definition parse_header_impl :: "bytes \<Rightarrow> (onum \<times> nat \<times> bool \<times> nat \<times> nat) res" where
  "parse_header_impl buf =
     (if length buf < 4 then Inl StructError
      else
        let header = u32_at buf 0;
            oxx_type = drop_bit 9 header;
            hasmask = (drop_bit 8 header AND 1 = 1);
            oxx_class = drop_bit 7 oxx_type;
            oxx_length = header AND 0xff;
            finish = (\<lambda>num exp_hdr_len :: nat.
              let value_len0 = int oxx_length - int exp_hdr_len;
                  value_len = (if hasmask then value_len0 div 2 else value_len0)
              in if value_len \<le> 0 then Inl AssertionError
                 else Inr (num, 4 + exp_hdr_len, hasmask, nat value_len, 4 + oxx_length))
        in if oxx_class = OFPXXC_EXPERIMENTER then
             if length buf < 8 then Inl StructError
             else
               let exp_id = u32_at buf 4
               in if exp_id = ONF_EXPERIMENTER_ID \<and> oxx_type AND 0x7f = 0 then
                    if length buf < 10 then Inl StructError
                    else finish (Exp_num exp_id (u16_at buf 8)) 6
                  else finish (Exp_num exp_id oxx_type) 4
           else finish (Num (int oxx_type)) 0)"

text \<open>\<open>_parse\<close>: the number, the value, the mask and the length of the field.\<close>

definition oxm_parse :: "bytes \<Rightarrow> (onum \<times> bytes \<times> bytes option \<times> nat) res" where
  "oxm_parse buf =
     (case parse_header_impl buf of
        Inl e \<Rightarrow> Inl e
      | Inr (n, total_hdr_len, hasmask, value_len, field_len) \<Rightarrow>
          if length buf < total_hdr_len + value_len then Inl StructError
          else
            let value = slice total_hdr_len (total_hdr_len + value_len) buf
            in if \<not> hasmask then Inr (n, value, None, field_len)
               else if length buf < total_hdr_len + value_len + value_len then Inl StructError
               else Inr (n, value,
                      Some (slice (total_hdr_len + value_len) (total_hdr_len + value_len + value_len) buf),
                      field_len))"

text \<open>\<open>_make_exp_hdr\<close>; an unknown field keeps its number, of which only a plain one can be packed.\<close>

definition make_exp_hdr :: "field_desc list \<Rightarrow> onum \<Rightarrow> (int \<times> bytes) res" where
  "make_exp_hdr fs n =
     (case num_to_field fs n of
        None \<Rightarrow> (case n of Num i \<Rightarrow> Inr (i, []) | Exp_num _ _ \<Rightarrow> Inl TypeError)
      | Some d \<Rightarrow>
          (case n of
             Num i \<Rightarrow> if f_class d = OFPXXC_EXPERIMENTER then Inl TypeError else Inr (i, [])
           | Exp_num exp_id exp_type \<Rightarrow>
               if f_class d \<noteq> OFPXXC_EXPERIMENTER then Inl TypeError
               else if f_experimenter d \<noteq> exp_id then Inl AssertionError
               else
                 let hdr = (if f_exp_type d = 2560 then pack_all [pack_I (f_experimenter d), pack_H (f_exp_type d)]
                            else if f_oxm_type d \<noteq> exp_type OR push_bit 7 OFPXXC_EXPERIMENTER
                            then Inl AssertionError
                            else pack_I (f_experimenter d))
                 in (case hdr of
                       Inl e \<Rightarrow> Inl e
                     | Inr h \<Rightarrow>
                         if drop_bit 7 (f_oxm_type d) \<noteq> OFPXXC_EXPERIMENTER then Inl AssertionError
                         else Inr (int (f_oxm_type d), h))))"

text \<open>\<open>!I\<close> of a Python integer.\<close>

definition pack_I_int :: "int \<Rightarrow> bytes res" where
  "pack_I_int i = (if i < 0 then Inl StructError else pack_I (nat i))"

text \<open>\<open>_serialize\<close>: the bytes packed at the offset; an empty mask counts as none.\<close>

definition oxm_serialize :: "field_desc list \<Rightarrow> onum \<Rightarrow> bytes \<Rightarrow> bytes option \<Rightarrow> bytes res" where
  "oxm_serialize fs n value msk =
     (case make_exp_hdr fs n of
        Inl e \<Rightarrow> Inl e
      | Inr (n', exp_hdr) \<Rightarrow>
          (case msk of
             Some (m # ms) \<Rightarrow>
               if length value \<noteq> length (m # ms) then Inl AssertionError
               else pack_all
                 [pack_I_int (push_bit 9 n' OR push_bit 8 1 OR int (length exp_hdr + length value * 2)),
                  Inr exp_hdr, Inr value, Inr (m # ms)]
           | _ \<Rightarrow>
               pack_all
                 [pack_I_int (push_bit 9 n' OR int (length exp_hdr + length value)),
                  Inr exp_hdr, Inr value]))"

end
