(* ===== verification/Oxm_Codec.thy ===== *)
theory Oxm_Codec
  imports Oxm_Fields Codecs Tcp_Props
begin

unbundle bit_operations_syntax

text \<open>
  The wire format of match fields is read back as it was written, and so are the user values.
\<close>

section \<open>Header arithmetic\<close>

definition tlv_header :: "nat \<Rightarrow> bool \<Rightarrow> nat \<Rightarrow> nat" where
  "tlv_header t hm l = t * 512 + of_bool hm * 256 + l"

lemma tlv_header_or:
  assumes "l < 256"
  shows "push_bit 9 (int t) OR push_bit 8 1 OR int l = int (tlv_header t True l)"
    and "push_bit 9 (int t) OR int l = int (tlv_header t False l)"
proof -
  have a: "push_bit 8 1 OR l = 256 + l" using or_disjoint [of l 8 1] assms by simp
  have b: "push_bit 9 t OR (256 + l) = t * 512 + (256 + l)" using or_disjoint [of "256 + l" 9 t] assms by simp
  have c: "push_bit 9 t OR l = t * 512 + l" using or_disjoint [of l 9 t] assms by simp
  have "push_bit 9 (int t) OR push_bit 8 1 OR int l = int (push_bit 9 t OR (push_bit 8 1 OR l))"
    by (simp add: of_nat_or_eq push_bit_of_nat or.assoc)
  then show "push_bit 9 (int t) OR push_bit 8 1 OR int l = int (tlv_header t True l)"
    by (simp only: a b) (simp add: tlv_header_def)
  have "push_bit 9 (int t) OR int l = int (push_bit 9 t OR l)"
    by (simp add: of_nat_or_eq push_bit_of_nat)
  then show "push_bit 9 (int t) OR int l = int (tlv_header t False l)"
    by (simp only: c) (simp add: tlv_header_def)
qed

lemma tlv_header_parts:
  assumes "t < 8388608" and "l < 256"
  shows "tlv_header t hm l < 4294967296" "drop_bit 9 (tlv_header t hm l) = t"
    "drop_bit 8 (tlv_header t hm l) mod 2 = of_bool hm" "tlv_header t hm l AND 255 = l"
proof -
  let ?x = "of_bool hm * 256 + l"
  have x: "?x < 512" using assms(2) by (cases hm) simp_all
  have h: "tlv_header t hm l = t * 512 + ?x" by (simp add: tlv_header_def)
  show "tlv_header t hm l < 4294967296" using assms x unfolding h by linarith
  show "drop_bit 9 (tlv_header t hm l) = t" using x by (simp add: h drop_bit_eq_div)
  have d: "tlv_header t hm l div 256 = 2 * t + of_bool hm"
    using assms(2) by (simp add: tlv_header_def div_add1_eq)
  show "drop_bit 8 (tlv_header t hm l) mod 2 = of_bool hm"
    using d by (simp add: drop_bit_eq_div)
  have "tlv_header t hm l = l + (2 * t + of_bool hm) * 256" by (simp add: tlv_header_def)
  then have "tlv_header t hm l mod 256 = l" using assms(2) by (simp only: mod_mult_self1) simp
  then show "tlv_header t hm l AND 255 = l" by (simp add: and_masks)
qed

section \<open>Well-formed fields\<close>

text \<open>
  A field the tables lead to and back, whose number is built from its type as the classes
  build it.
\<close>

definition plain_field :: "field_desc \<Rightarrow> bool" where
  "plain_field f \<longleftrightarrow> f_class f \<noteq> OFPXXC_EXPERIMENTER \<and> f_num f = Num (int (f_oxm_type f)) \<and>
     drop_bit 7 (f_oxm_type f) \<noteq> OFPXXC_EXPERIMENTER"

definition exp_field :: "field_desc \<Rightarrow> bool" where
  "exp_field f \<longleftrightarrow> f_class f = OFPXXC_EXPERIMENTER \<and> drop_bit 7 (f_oxm_type f) = OFPXXC_EXPERIMENTER \<and>
     f_experimenter f < 4294967296 \<and>
     (if f_exp_type f = 2560
      then f_num f = Exp_num (f_experimenter f) 2560 \<and> f_experimenter f = ONF_EXPERIMENTER_ID \<and>
           f_oxm_type f AND 0x7f = 0
      else f_num f = Exp_num (f_experimenter f) (f_oxm_type f) \<and>
           f_oxm_type f OR push_bit 7 OFPXXC_EXPERIMENTER = f_oxm_type f \<and>
           \<not> (f_experimenter f = ONF_EXPERIMENTER_ID \<and> f_oxm_type f AND 0x7f = 0))"

definition field_ok :: "field_desc list \<Rightarrow> field_desc \<Rightarrow> bool" where
  "field_ok fs f \<longleftrightarrow> num_to_field fs (f_num f) = Some f \<and> name_to_field fs (f_name f) = Some f \<and>
     f_oxm_type f < 8388608 \<and> (plain_field f \<or> exp_field f)"

lemma num_to_field_distinct:
  "distinct (map f_num fs) \<Longrightarrow> f \<in> set fs \<Longrightarrow> num_to_field fs (f_num f) = Some f"
  unfolding num_to_field_def by (intro map_of_is_SomeI) (simp_all add: rev_map [symmetric] o_def)

lemma name_to_field_distinct:
  "distinct (map f_name fs) \<Longrightarrow> f \<in> set fs \<Longrightarrow> name_to_field fs (f_name f) = Some f"
  unfolding name_to_field_def by (intro map_of_is_SomeI) (simp_all add: rev_map [symmetric] o_def)

lemmas oxm_type_defs = oxm_types_def OpenFlowBasic_def ONFExperimenter_def OldONFExperimenter_def
  oxm_class_def OFPXMC_OPENFLOW_BASIC_def OFPXXC_EXPERIMENTER_def ONF_EXPERIMENTER_ID_def

lemma oxm_types_names: "distinct (map f_name oxm_types)"
  by (simp add: oxm_type_defs)

lemma oxm_types_nums: "distinct (map f_num oxm_types)"
  by (simp add: oxm_type_defs)

lemma oxm_types_shapes:
  "f \<in> set oxm_types \<Longrightarrow> f_oxm_type f < 8388608 \<and> (plain_field f \<or> exp_field f)"
  by (simp only: oxm_types_def list.set insert_iff empty_iff, elim disjE FalseE)
    (simp_all add: oxm_type_defs plain_field_def exp_field_def)

lemma oxm_types_ok: "f \<in> set oxm_types \<Longrightarrow> field_ok oxm_types f"
  by (simp add: field_ok_def num_to_field_distinct name_to_field_distinct oxm_types_names
      oxm_types_nums oxm_types_shapes)

section \<open>One field\<close>

definition exp_hdr_of :: "field_desc \<Rightarrow> bytes" where
  "exp_hdr_of f =
     (if plain_field f then []
      else if f_exp_type f = 2560 then be32 (f_experimenter f) @ be16 2560
      else be32 (f_experimenter f))"

lemma make_exp_hdr_ok:
  assumes "field_ok fs f"
  shows "make_exp_hdr fs (f_num f) = Inr (int (f_oxm_type f), exp_hdr_of f)"
  using assms
  by (auto simp: field_ok_def make_exp_hdr_def exp_hdr_of_def plain_field_def exp_field_def pack_I_def
      pack_H_def split: if_splits)

lemma exp_hdr_length: "length (exp_hdr_of f) \<le> 6"
  by (simp add: exp_hdr_of_def)

definition mask_bytes :: "bytes option \<Rightarrow> bytes" where
  "mask_bytes m = (case m of None \<Rightarrow> [] | Some b \<Rightarrow> b)"

definition mask_fits :: "bytes \<Rightarrow> bytes option \<Rightarrow> bool" where
  "mask_fits v m \<longleftrightarrow> (case m of None \<Rightarrow> True | Some b \<Rightarrow> length b = length v)"

text \<open>The bytes of a field.\<close>

definition field_bytes :: "field_desc \<Rightarrow> bytes \<Rightarrow> bytes option \<Rightarrow> bytes" where
  "field_bytes f v m =
     be32 (tlv_header (f_oxm_type f) (m \<noteq> None) (length (exp_hdr_of f) + length v + length (mask_bytes m)))
     @ exp_hdr_of f @ v @ mask_bytes m"

definition value_fits :: "bytes \<Rightarrow> bool" where
  "value_fits v \<longleftrightarrow> v \<noteq> [] \<and> length v \<le> 124"

lemma oxm_serialize_ok:
  assumes "field_ok fs f" and "value_fits v" and "mask_fits v m"
  shows "oxm_serialize fs (f_num f) v m = Inr (field_bytes f v m)"
proof -
  have v: "v \<noteq> []" "length (exp_hdr_of f) + length v * 2 < 256"
    using assms(2) exp_hdr_length [of f] by (simp_all add: value_fits_def)
  have t: "f_oxm_type f < 8388608" using assms(1) by (simp add: field_ok_def)
  show ?thesis
  proof (cases m)
    case None
    then show ?thesis
      using v t tlv_header_parts(1) [OF t, of "length (exp_hdr_of f) + length v" False]
      by (simp add: oxm_serialize_def make_exp_hdr_ok [OF assms(1)] tlv_header_or(2) pack_I_int_def
          pack_I_def field_bytes_def mask_bytes_def del: of_nat_add)
  next
    case (Some b)
    then obtain x xs where b: "b = x # xs" "length b = length v"
      using assms(3) v(1) by (cases b) (auto simp: mask_fits_def)
    then show ?thesis
      using Some v t tlv_header_parts(1) [OF t, of "length (exp_hdr_of f) + length v * 2" True]
      by (simp add: oxm_serialize_def make_exp_hdr_ok [OF assms(1)] pack_I_int_def
          pack_I_def field_bytes_def mask_bytes_def tlv_header_or(1) [simplified] mult_2_right add.assoc
          del: of_nat_add of_nat_mult)
  qed
qed

lemma field_bytes_length:
  "length (field_bytes f v m) = 4 + length (exp_hdr_of f) + length v + length (mask_bytes m)"
  by (simp add: field_bytes_def)

text \<open>The fields of the header word, then the rest of the experimenter part.\<close>

lemma parse_header_word:
  assumes "4 \<le> length buf" and "u32_at buf 0 = tlv_header t hm len" and "t < 8388608" and "len < 256"
    and "drop_bit 7 t \<noteq> OFPXXC_EXPERIMENTER" and "0 < n"
    and "(if hm then int len div 2 else int len) = int n"
  shows "parse_header_impl buf = Inr (Num (int t), 4, hm, n, 4 + len)"
proof -
  note parts = tlv_header_parts [OF assms(3)]
  have "hm \<Longrightarrow> int len div 2 = int n" "\<not> hm \<Longrightarrow> len = n" using assms(7) by auto
  with assms show ?thesis
    by (cases hm) (simp_all add: parse_header_impl_def Let_def parts del: drop_bit_drop_bit)
qed

lemma parse_header_exp:
  assumes "8 \<le> length buf" and "u32_at buf 0 = tlv_header t hm len" and "t < 8388608" and "len < 256"
    and "drop_bit 7 t = OFPXXC_EXPERIMENTER" and "0 < n"
    and "u32_at buf 4 = e" and "\<not> (e = ONF_EXPERIMENTER_ID \<and> t AND 0x7f = 0)"
    and "(if hm then (int len - 4) div 2 else int len - 4) = int n"
  shows "parse_header_impl buf = Inr (Exp_num e t, 8, hm, n, 4 + len)"
proof -
  note parts = tlv_header_parts [OF assms(3)]
  have "hm \<Longrightarrow> (int len - 4) div 2 = int n" "\<not> hm \<Longrightarrow> int len - 4 = int n" using assms(9) by auto
  with assms(1-8) show ?thesis
    by (cases hm) (auto simp add: parse_header_impl_def Let_def parts simp del: drop_bit_drop_bit)
qed

lemma parse_header_old_onf:
  assumes "10 \<le> length buf" and "u32_at buf 0 = tlv_header t hm len" and "t < 8388608" and "len < 256"
    and "drop_bit 7 t = OFPXXC_EXPERIMENTER" and "0 < n"
    and "u32_at buf 4 = ONF_EXPERIMENTER_ID" and "t AND 0x7f = 0" and "u16_at buf 8 = x"
    and "(if hm then (int len - 6) div 2 else int len - 6) = int n"
  shows "parse_header_impl buf = Inr (Exp_num ONF_EXPERIMENTER_ID x, 10, hm, n, 4 + len)"
proof -
  note parts = tlv_header_parts [OF assms(3)]
  have "hm \<Longrightarrow> (int len - 6) div 2 = int n" "\<not> hm \<Longrightarrow> int len - 6 = int n" using assms(10) by auto
  with assms(1-9) show ?thesis
    by (cases hm) (simp_all add: parse_header_impl_def Let_def parts del: drop_bit_drop_bit)
qed

lemma parse_header_field:
  assumes "field_ok fs f" and "v \<noteq> []" and "length (exp_hdr_of f) + l < 256"
    and "l = (if hm then length v * 2 else length v)"
  shows "parse_header_impl (be32 (tlv_header (f_oxm_type f) hm (length (exp_hdr_of f) + l)) @ exp_hdr_of f @ rest) =
    Inr (f_num f, 4 + length (exp_hdr_of f), hm, length v, 4 + length (exp_hdr_of f) + l)"
proof -
  let ?h = "tlv_header (f_oxm_type f) hm (length (exp_hdr_of f) + l)"
  have t: "f_oxm_type f < 8388608" using assms(1) by (simp add: field_ok_def)
  have w: "u32_at (be32 ?h @ b) 0 = ?h" for b
    using tlv_header_parts(1) [OF t assms(3)] by (rule u32_at_be32)
  have v: "0 < length v" using assms(2) by simp
  have l: "(if hm then int l div 2 else int l) = int (length v)" using assms(4) by simp
  consider "plain_field f" | "\<not> plain_field f" "exp_field f" using assms(1) by (auto simp: field_ok_def)
  then show ?thesis
  proof cases
    case 1
    then have h: "exp_hdr_of f = []" by (simp add: exp_hdr_of_def)
    have "(if hm then int (length (exp_hdr_of f) + l) div 2 else int (length (exp_hdr_of f) + l)) =
        int (length v)"
      using l by (cases hm) (simp_all add: h)
    from parse_header_word [OF _ w t assms(3) _ v this, of "exp_hdr_of f @ rest"] 1 show ?thesis
      by (simp add: h plain_field_def)
  next
    case 2
    then have e: "drop_bit 7 (f_oxm_type f) = OFPXXC_EXPERIMENTER" "f_experimenter f < 4294967296"
      by (simp_all add: exp_field_def)
    show ?thesis
    proof (cases "f_exp_type f = 2560")
      case True
      then have h: "exp_hdr_of f = be32 (f_experimenter f) @ be16 2560" using 2 by (simp add: exp_hdr_of_def)
      let ?b = "be32 ?h @ exp_hdr_of f @ rest"
      have x: "u32_at ?b 4 = f_experimenter f" by (simp add: h u32_at_append u32_at_be32 e(2))
      have y: "u16_at ?b 8 = 2560"
        using u16_at_append [of "be32 ?h @ be32 (f_experimenter f)" 8 "be16 2560 @ rest"]
        by (simp add: h u16_at_be16)
      have "(if hm then (int (length (exp_hdr_of f) + l) - 6) div 2 else int (length (exp_hdr_of f) + l) - 6) =
          int (length v)"
        using l by (cases hm) (simp_all add: h)
      from parse_header_old_onf [OF _ w t assms(3) e(1) v _ _ _ this, of "exp_hdr_of f @ rest" 2560] 2(2) True x y
      show ?thesis by (simp add: exp_field_def h)
    next
      case False
      then have h: "exp_hdr_of f = be32 (f_experimenter f)" using 2 by (simp add: exp_hdr_of_def)
      let ?b = "be32 ?h @ exp_hdr_of f @ rest"
      have x: "u32_at ?b 4 = f_experimenter f" by (simp add: h u32_at_append u32_at_be32 e(2))
      have "(if hm then (int (length (exp_hdr_of f) + l) - 4) div 2 else int (length (exp_hdr_of f) + l) - 4) =
          int (length v)"
        using l by (cases hm) (simp_all add: h)
      from parse_header_exp [OF _ w t assms(3) e(1) v x _ this] 2(2) False
      show ?thesis by (simp add: exp_field_def h)
    qed
  qed
qed

lemma oxm_parse_field:
  assumes "field_ok fs f" and "value_fits v" and "mask_fits v m"
  shows "oxm_parse (field_bytes f v m @ rest) = Inr (f_num f, v, m, length (field_bytes f v m))"
proof -
  let ?e = "exp_hdr_of f"
  have v: "v \<noteq> []" "length ?e + length v * 2 < 256"
    using assms(2) exp_hdr_length [of f] by (simp_all add: value_fits_def)
  show ?thesis
  proof (cases m)
    case None
    have "length ?e + length v < 256" using v(2) by simp
    from parse_header_field [OF assms(1) v(1) this, of False "v @ rest"] show ?thesis
      by (simp add: oxm_parse_def None field_bytes_def mask_bytes_def slice_def Let_def)
  next
    case (Some b)
    then have "length b = length v" using assms(3) by (simp add: mask_fits_def)
    then show ?thesis
      using parse_header_field [OF assms(1) v, of True "v @ b @ rest"] Some
      by (simp add: oxm_parse_def field_bytes_def mask_bytes_def slice_def Let_def mult_2_right add.assoc)
  qed
qed

section \<open>User values\<close>

text \<open>The text or number of a value that is converted to the bytes and back.\<close>

definition user_repr :: "netaddr \<Rightarrow> type_descr \<Rightarrow> uval \<Rightarrow> bytes \<Rightarrow> bool" where
  "user_repr na t u b \<longleftrightarrow> td_from_user na t u = Inr (b, None) \<and> td_to_user na t b = Inr u \<and>
     (td_size t = None \<or> td_size t = Some (length b)) \<and> value_fits b"

lemma int_from_user_length [simp]: "length (int_from_user n i) = n"
  by (induction n arbitrary: i) simp_all

lemma int_to_user_append:
  "length b = n \<Longrightarrow> int_to_user (n + k) (b @ c) i =
     (case int_to_user n b i of Inl e \<Rightarrow> Inl e | Inr j \<Rightarrow> int_to_user k c j)"
  by (induction b arbitrary: n i) auto

lemma int_to_from_user:
  "\<lbrakk>0 \<le> i; i < 256 ^ n\<rbrakk> \<Longrightarrow> int_to_user n (int_from_user n i) j = Inr (j * 256 ^ n + i)"
proof (induction n arbitrary: i j)
  case (Suc n)
  have "i div 256 < 256 ^ n" using Suc.prems by (simp add: div_less_iff_less_mult)
  then have "int_to_user n (int_from_user n (i div 256)) j = Inr (j * 256 ^ n + i div 256)"
    using Suc by simp
  moreover have "int (unat (word_of_int (i mod 256) :: byte)) = i mod 256"
    by (simp add: uint_word_of_int flip: uint_nat)
  ultimately show ?case
    using int_to_user_append [of "int_from_user n (i div 256)" n 1 "[word_of_int (i mod 256)]" j]
    by (simp add: algebra_simps)
qed simp

lemma user_repr_int:
  assumes "0 < n" and "n \<le> 16" and "0 \<le> i" and "i < 256 ^ n"
  shows "user_repr na (IntDescr n) (UInt i) (int_from_user n i)"
proof -
  have "int_from_user n i \<noteq> []" using assms(1) by (metis int_from_user_length length_0_conv neq0_conv)
  then show ?thesis using assms int_to_from_user [of i n 0] by (simp add: user_repr_def value_fits_def)
qed

lemma user_repr_unknown:
  "value_fits b \<Longrightarrow> user_repr na UnknownType (UText (b64encode b)) b"
  by (simp add: user_repr_def)

text \<open>A field with its user value, the bytes of the value and of the mask.\<close>

definition uv_repr :: "netaddr \<Rightarrow> type_descr \<Rightarrow> uv \<Rightarrow> bytes \<Rightarrow> bytes option \<Rightarrow> bool" where
  "uv_repr na t u v m \<longleftrightarrow>
     (case u of
        Plain_uv x \<Rightarrow> m = None \<and> user_repr na t x v
      | Masked_uv x y \<Rightarrow> (\<exists>mb. m = Some mb \<and> user_repr na t x v \<and> user_repr na t y mb \<and> length mb = length v))"

lemma uv_repr_user:
  assumes "field_ok fs f" and "uv_repr na (f_type f) u v m"
  shows "oxm_from_user na fs (f_name f) u = Inr (f_num f, v, m)"
    and "oxm_to_user na fs (f_num f) v m = Inr (f_name f, u)"
proof -
  have f: "get_field_info_by_name fs (f_name f) = Inr (f_num f, f_type f)"
    "get_field_info_by_number fs (f_num f) = Inr (f_name f, f_type f)"
    using assms(1) by (simp_all add: field_ok_def get_field_info_by_name_def get_field_info_by_number_def)
  show "oxm_from_user na fs (f_name f) u = Inr (f_num f, v, m)"
    using assms(2) by (auto simp: oxm_from_user_def f uv_repr_def user_repr_def split: uv.splits)
  show "oxm_to_user na fs (f_num f) v m = Inr (f_name f, u)"
    using assms(2) by (auto simp: oxm_to_user_def f uv_repr_def user_repr_def split: uv.splits)
qed

lemma uv_repr_fits:
  "uv_repr na t u v m \<Longrightarrow> value_fits v \<and> mask_fits v m"
  by (auto simp: uv_repr_def user_repr_def mask_fits_def split: uv.splits)

text \<open>An unmasked value that is its own normal form is kept.\<close>

lemma oxm_normalize_plain:
  assumes "field_ok fs f" and "user_repr na (f_type f) u v"
  shows "oxm_normalize_user na fs (f_name f) (Plain_uv u) = Inr (f_name f, Plain_uv u)"
proof -
  have "uv_repr na (f_type f) (Plain_uv u) v None" using assms(2) by (simp add: uv_repr_def)
  from uv_repr_user [OF assms(1) this] show ?thesis by (simp add: oxm_normalize_user_def)
qed

end
