(* ===== verification/Ofp_Match.thy ===== *)
theory Ofp_Match
  imports Oxm_Codec
begin

unbundle bit_operations_syntax

text \<open>
  \<open>OFPMatch\<close> of \<open>ryu/ofproto/ofproto_v1_3_parser.py\<close>: construction from keyword arguments,
  \<open>serialize\<close> and \<open>parser\<close>.  A parser gets \<open>buf\<close> from its offset on; \<open>OFPTruncatedMessage\<close> is
  modelled without the partial message it carries.
\<close>

section \<open>Packing into a buffer\<close>

text \<open>\<open>msg_pack_into\<close>: the buffer grows by zeros when it is too short.\<close>

definition pack_at :: "nat \<Rightarrow> bytes \<Rightarrow> bytes \<Rightarrow> bytes" where
  "pack_at off bs buf =
     (let b = buf @ replicate (off + length bs - length buf) 0
      in take off b @ bs @ drop (off + length bs) b)"

definition round_up :: "nat \<Rightarrow> nat \<Rightarrow> nat" where
  "round_up x y = (x + y - 1) div y * y"

fun res_map :: "('a \<Rightarrow> 'b res) \<Rightarrow> 'a list \<Rightarrow> 'b list res" where
  "res_map f [] = Inr []"
| "res_map f (x # xs) =
     (case f x of
        Inl e \<Rightarrow> Inl e
      | Inr y \<Rightarrow> (case res_map f xs of Inl e \<Rightarrow> Inl e | Inr ys \<Rightarrow> Inr (y # ys)))"

definition OFPMT_OXM :: nat where "OFPMT_OXM = 1"

definition truncated :: py_exn where "truncated = OtherError ''OFPTruncatedMessage''"

section \<open>Construction\<close>

definition sort_num :: "onum \<Rightarrow> int" where
  "sort_num n = (case n of Num i \<Rightarrow> i | Exp_num e _ \<Rightarrow> int e)"

definition ofp_match :: "netaddr \<Rightarrow> field_desc list \<Rightarrow> (string \<times> uv) list \<Rightarrow> (string \<times> uv) list res" where
  "ofp_match na fs kwargs =
     (case res_map (\<lambda>(k, u). oxm_normalize_user na fs k u) kwargs of
        Inl e \<Rightarrow> Inl e
      | Inr kws \<Rightarrow>
          (case res_map (\<lambda>(k, u). oxm_from_user na fs k u) kws of
             Inl e \<Rightarrow> Inl e
           | Inr fds \<Rightarrow>
               res_map (\<lambda>(n, v, m). oxm_to_user na fs n v m) (sort_key (\<lambda>(n, v, m). sort_num n) fds)))"

section \<open>Serialisation\<close>

fun put_fields :: "field_desc list \<Rightarrow> (onum \<times> bytes \<times> bytes option) list \<Rightarrow> nat \<Rightarrow> bytes \<Rightarrow> (nat \<times> bytes) res" where
  "put_fields fs [] off buf = Inr (off, buf)"
| "put_fields fs ((n, v, m) # rest) off buf =
     (case oxm_serialize fs n v m of
        Inl e \<Rightarrow> Inl e
      | Inr b \<Rightarrow> put_fields fs rest (off + length b) (pack_at off b buf))"

text \<open>The buffer and the length that is returned.\<close>

definition match_serialize ::
    "netaddr \<Rightarrow> field_desc list \<Rightarrow> (string \<times> uv) list \<Rightarrow> nat \<Rightarrow> bytes \<Rightarrow> (nat \<times> bytes) res" where
  "match_serialize na fs fields2 off buf =
     (case res_map (\<lambda>(k, u). oxm_from_user na fs k u) fields2 of
        Inl e \<Rightarrow> Inl e
      | Inr fds \<Rightarrow>
          (case put_fields fs fds (off + 4) buf of
             Inl e \<Rightarrow> Inl e
           | Inr (field_offset, buf1) \<Rightarrow>
               let len = field_offset - off
               in (case pack_all [pack_H OFPMT_OXM, pack_H len] of
                     Inl e \<Rightarrow> Inl e
                   | Inr hdr \<Rightarrow>
                       let pad_len = round_up len 8 - len
                       in Inr (len + pad_len,
                               pack_at field_offset (replicate pad_len 0) (pack_at off hdr buf1)))))"

section \<open>Parsing\<close>

record ofp_match_obj =
  m_type :: nat
  m_length :: nat
  m_fields :: "(string \<times> uv) list"

definition oxm_tlv_header :: "nat \<Rightarrow> nat \<Rightarrow> nat \<Rightarrow> nat" where
  "oxm_tlv_header fld hasmask len =
     push_bit 16 OFPXMC_OPENFLOW_BASIC OR push_bit 9 fld OR push_bit 8 hasmask OR len"

text \<open>
  The field classes of the old interface that are registered for a header: number, size, and
  whether the masked form is registered too.
\<close>

definition old_fields :: "(nat \<times> nat \<times> bool) list" where
  "old_fields =
    [(0, 4, False), (1, 4, False), (2, 8, True), (3, 6, True), (4, 6, True), (5, 2, False),
     (6, 2, True), (7, 1, False), (8, 1, False), (9, 1, False), (10, 1, False), (11, 4, True),
     (12, 4, True), (13, 2, False), (14, 2, False), (15, 2, False), (16, 2, False), (17, 2, False),
     (18, 2, False), (19, 1, False), (20, 1, False), (21, 2, False), (22, 4, True), (23, 4, True),
     (24, 6, True), (25, 6, True), (26, 16, True), (27, 16, True), (28, 4, True), (29, 1, False),
     (30, 1, False), (31, 16, False), (32, 6, False), (33, 6, False), (34, 4, False), (35, 1, False),
     (36, 1, False), (37, 3, True), (38, 8, True), (39, 2, True)]"

definition old_headers :: "nat list" where
  "old_headers =
     concat (map (\<lambda>(f, s, w). oxm_tlv_header f 0 s # (if w then [oxm_tlv_header f 1 (s * 2)] else [])) old_fields)"

text \<open>
  \<open>parser_old\<close>: whether it ends in \<open>struct.error\<close>.  What it collects is only used by a match
  without new-style fields and is not modelled.  A registered class unpacks exactly the length
  in its header.
\<close>

function parser_old_fails :: "int \<Rightarrow> bytes \<Rightarrow> bool" where
  "parser_old_fails len buf =
     (if len \<le> 0 then False
      else if length buf < 4 then True
      else
        let header = u32_at buf 0; field_len = (header AND 0xff) + 4
        in if header \<in> set old_headers \<and> length buf < field_len then True
           else parser_old_fails (len - int field_len) (drop field_len buf))"
  by pat_completeness auto
termination by (relation "measure (\<lambda>(len, buf). nat len)") auto

declare parser_old_fails.simps [simp del]

lemma parse_header_impl_len:
  "parse_header_impl buf = Inr (n, hl, hm, vl, fl) \<Longrightarrow> 4 \<le> fl"
  by (auto simp: parse_header_impl_def Let_def split: if_splits)

lemma oxm_parse_len: "oxm_parse buf = Inr (n, v, m, fl) \<Longrightarrow> 4 \<le> fl"
  by (auto simp: oxm_parse_def Let_def split: if_splits sum.splits dest: parse_header_impl_len)

function parse_fields :: "netaddr \<Rightarrow> field_desc list \<Rightarrow> int \<Rightarrow> bytes \<Rightarrow> (string \<times> uv) list res" where
  "parse_fields na fs len buf =
     (if len \<le> 0 then Inr []
      else case oxm_parse buf of
        Inl e \<Rightarrow> Inl e
      | Inr (n, v, m, field_len) \<Rightarrow>
          (case oxm_to_user na fs n v m of
             Inl e \<Rightarrow> Inl e
           | Inr kv \<Rightarrow> map_sum id ((#) kv) (parse_fields na fs (len - int field_len) (drop field_len buf))))"
  by pat_completeness auto
termination
  by (relation "measure (\<lambda>(na, fs, len, buf). nat len)") (auto dest: oxm_parse_len)

declare parse_fields.simps [simp del]

definition match_parser :: "netaddr \<Rightarrow> field_desc list \<Rightarrow> bytes \<Rightarrow> ofp_match_obj res" where
  "match_parser na fs buf =
     (if length buf < 4 then Inl StructError
      else
        let ty = u16_at buf 0; len = u16_at buf 2;
            old_exc = parser_old_fails (int len - 4) (drop 4 buf)
        in (case parse_fields na fs (int len - 4) (drop 4 buf) of
              Inl e \<Rightarrow> Inl (if e = StructError then truncated else e)
            | Inr fds \<Rightarrow>
                if old_exc then Inl truncated
                else Inr \<lparr>m_type = ty, m_length = len, m_fields = fds\<rparr>))"

section \<open>The match on the wire\<close>

text \<open>A field with the descriptor and the bytes that stand for it.\<close>

record match_field =
  mf_desc :: field_desc
  mf_uv :: uv
  mf_value :: bytes
  mf_mask :: "bytes option"

definition mf_kv :: "match_field \<Rightarrow> string \<times> uv" where
  "mf_kv x = (f_name (mf_desc x), mf_uv x)"

definition mf_wire :: "match_field \<Rightarrow> bytes" where
  "mf_wire x = field_bytes (mf_desc x) (mf_value x) (mf_mask x)"

definition mf_ok :: "netaddr \<Rightarrow> field_desc list \<Rightarrow> match_field \<Rightarrow> bool" where
  "mf_ok na fs x \<longleftrightarrow> field_ok fs (mf_desc x) \<and>
     uv_repr na (f_type (mf_desc x)) (mf_uv x) (mf_value x) (mf_mask x)"

definition match_bytes :: "match_field list \<Rightarrow> bytes" where
  "match_bytes xs =
     (let w = concat (map mf_wire xs); len = 4 + length w
      in be16 OFPMT_OXM @ be16 len @ w @ replicate (round_up len 8 - len) 0)"

definition match_len :: "match_field list \<Rightarrow> nat" where
  "match_len xs = 4 + length (concat (map mf_wire xs))"

lemma round_up_ge: "0 < y \<Longrightarrow> x \<le> round_up x y"
proof -
  assume y: "0 < y"
  have "(x + y - 1) mod y < y" using y by simp
  moreover have "(x + y - 1) div y * y + (x + y - 1) mod y = x + y - 1" by simp
  ultimately show ?thesis unfolding round_up_def using y by linarith
qed

lemma round_up_idem: "y dvd x \<Longrightarrow> 0 < y \<Longrightarrow> round_up x y = x"
proof (elim dvdE)
  fix k
  assume "0 < y" "x = y * k"
  then have "x + y - 1 = k * y + (y - 1)" "(y - 1) div y = 0" by (simp_all add: mult.commute)
  then have "(x + y - 1) div y = k" using \<open>0 < y\<close> by (simp only: div_mult_self3)
  with \<open>x = y * k\<close> show ?thesis by (simp add: round_up_def)
qed

lemma match_len_wire: "length (concat (map mf_wire xs)) + 4 = match_len xs"
  by (simp add: match_len_def)

lemma match_bytes_eq:
  "match_bytes xs = be16 OFPMT_OXM @ be16 (match_len xs) @ concat (map mf_wire xs) @
     replicate (round_up (match_len xs) 8 - match_len xs) 0"
  by (simp add: match_bytes_def match_len_def Let_def)

lemma match_bytes_length: "length (match_bytes xs) = round_up (match_len xs) 8"
  using round_up_ge [of 8 "match_len xs"] by (simp add: match_bytes_def match_len_def Let_def)

lemma pack_at_end: "length buf \<le> off \<Longrightarrow> pack_at off bs buf = buf @ replicate (off - length buf) 0 @ bs"
  by (simp add: pack_at_def Let_def flip: replicate_add)

lemma pack_at_mid: "length pre = off \<Longrightarrow> length old = length bs \<Longrightarrow>
    pack_at off bs (pre @ old @ post) = pre @ bs @ post"
  by (simp add: pack_at_def)

lemma res_map_Inr: "(\<And>x. x \<in> set xs \<Longrightarrow> f (g x) = Inr (h x)) \<Longrightarrow> res_map f (map g xs) = Inr (map h xs)"
  by (induction xs) auto

definition mf_wire_args :: "match_field \<Rightarrow> onum \<times> bytes \<times> bytes option" where
  "mf_wire_args x = (f_num (mf_desc x), mf_value x, mf_mask x)"

lemma mf_from_user: "mf_ok na fs x \<Longrightarrow>
    oxm_from_user na fs (f_name (mf_desc x)) (mf_uv x) = Inr (mf_wire_args x)"
  by (simp add: mf_ok_def mf_wire_args_def uv_repr_user)

lemma mf_to_user: "mf_ok na fs x \<Longrightarrow>
    oxm_to_user na fs (f_num (mf_desc x)) (mf_value x) (mf_mask x) = Inr (mf_kv x)"
  by (simp add: mf_ok_def mf_kv_def uv_repr_user)

lemma mf_serialize: "mf_ok na fs x \<Longrightarrow>
    oxm_serialize fs (f_num (mf_desc x)) (mf_value x) (mf_mask x) = Inr (mf_wire x)"
  by (auto simp: mf_ok_def mf_wire_def dest: uv_repr_fits intro!: oxm_serialize_ok)

lemma mf_parse: "mf_ok na fs x \<Longrightarrow>
    oxm_parse (mf_wire x @ rest) = Inr (f_num (mf_desc x), mf_value x, mf_mask x, length (mf_wire x))"
  unfolding mf_ok_def mf_wire_def using oxm_parse_field uv_repr_fits by blast

lemma put_fields_wire:
  "\<lbrakk>\<forall>x \<in> set xs. mf_ok na fs x; length buf = off\<rbrakk> \<Longrightarrow>
   put_fields fs (map mf_wire_args xs) off buf =
     Inr (off + length (concat (map mf_wire xs)), buf @ concat (map mf_wire xs))"
proof (induction xs arbitrary: off buf)
  case (Cons x xs)
  then have "pack_at off (mf_wire x) buf = buf @ mf_wire x" by (simp add: pack_at_end)
  moreover have "put_fields fs (map mf_wire_args xs) (off + length (mf_wire x)) (buf @ mf_wire x) =
      Inr (off + length (mf_wire x) + length (concat (map mf_wire xs)),
           (buf @ mf_wire x) @ concat (map mf_wire xs))"
    using Cons.prems by (intro Cons.IH) simp_all
  moreover have "mf_ok na fs x" using Cons.prems by simp
  ultimately show ?case
    by (simp add: mf_wire_args_def [of x] mf_serialize [of na fs] add.assoc)
qed simp

lemma put_fields_gap:
  assumes "\<forall>x \<in> set xs. mf_ok na fs x" and "length buf = off"
  obtains old where "put_fields fs (map mf_wire_args xs) (off + 4) buf =
      Inr (off + match_len xs, buf @ old @ concat (map mf_wire xs))"
    "length old = 4 \<or> xs = [] \<and> old = []"
proof (cases xs)
  case Nil
  then show ?thesis using that [of "[]"] by (simp add: match_len_def)
next
  case (Cons x ys)
  have b: "pack_at (off + 4) (mf_wire x) buf = buf @ replicate 4 0 @ mf_wire x"
    using assms(2) by (simp add: pack_at_end)
  have "length (buf @ replicate 4 0 @ mf_wire x) = off + 4 + length (mf_wire x)"
    using assms(2) by simp
  with assms(1) Cons put_fields_wire [of ys na fs "buf @ replicate 4 0 @ mf_wire x"] show ?thesis
    by (intro that [of "replicate 4 0"])
      (simp_all add: mf_wire_args_def [of x] mf_serialize [of na fs] b match_len_def add.assoc)
qed

theorem match_serialize_wire:
  assumes "\<forall>x \<in> set xs. mf_ok na fs x" and "length buf = off" and "match_len xs < 65536"
  shows "match_serialize na fs (map mf_kv xs) off buf =
    Inr (length (match_bytes xs), buf @ match_bytes xs)"
proof -
  let ?w = "concat (map mf_wire xs)" and ?l = "match_len xs"
  let ?hdr = "be16 OFPMT_OXM @ be16 ?l" and ?pad = "replicate (round_up ?l 8 - ?l) (0 :: byte)"
  have u: "res_map (\<lambda>(k, u). oxm_from_user na fs k u) (map mf_kv xs) = Inr (map mf_wire_args xs)"
    using assms(1) by (intro res_map_Inr) (simp add: mf_kv_def mf_from_user)
  obtain old where put: "put_fields fs (map mf_wire_args xs) (off + 4) buf =
      Inr (off + ?l, buf @ old @ ?w)" and old: "length old = 4 \<or> xs = [] \<and> old = []"
    using put_fields_gap [OF assms(1,2)] by blast
  have hdr: "pack_all [pack_H OFPMT_OXM, pack_H ?l] = Inr ?hdr"
    using assms(3) by (simp add: OFPMT_OXM_def)
  have p1: "pack_at off ?hdr (buf @ old @ ?w) = buf @ ?hdr @ ?w"
    using old
  proof
    assume "length old = 4"
    then show ?thesis by (intro pack_at_mid) (simp_all add: assms(2))
  next
    assume "xs = [] \<and> old = []"
    then show ?thesis using assms(2) by (simp add: pack_at_end)
  qed
  have "length (buf @ ?hdr @ ?w) = off + ?l" using assms(2) match_len_wire [of xs] by simp
  then have p2: "pack_at (off + ?l) ?pad (buf @ ?hdr @ ?w) = buf @ ?hdr @ ?w @ ?pad"
    by (subst pack_at_end) simp_all
  have len: "?l + (round_up ?l 8 - ?l) = length (match_bytes xs)"
    using round_up_ge [of 8 ?l] by (simp add: match_bytes_length)
  show ?thesis
    unfolding match_serialize_def u sum.case put prod.case Let_def
    by (simp add: hdr p1 p2 len del: pack_all_Inr append_assoc length_append length_concat map_map)
      (simp add: match_bytes_eq)
qed

section \<open>Reading the match back\<close>

lemma parse_fields_wire:
  "\<forall>x \<in> set xs. mf_ok na fs x \<Longrightarrow>
   parse_fields na fs (int (length (concat (map mf_wire xs)))) (concat (map mf_wire xs) @ rest) =
     Inr (map mf_kv xs)"
proof (induction xs)
  case Nil
  then show ?case by (subst parse_fields.simps) simp
next
  case (Cons x xs)
  have "\<not> int (length (mf_wire x)) + int (length (concat (map mf_wire xs))) \<le> 0"
    by (simp add: mf_wire_def field_bytes_length)
  with Cons show ?case
    by (subst parse_fields.simps) (simp add: mf_parse [of na fs] mf_to_user [of na fs])
qed

lemma parser_old_wire:
  "\<forall>x \<in> set xs. mf_ok na fs x \<Longrightarrow>
   \<not> parser_old_fails (int (length (concat (map mf_wire xs)))) (concat (map mf_wire xs) @ rest)"
proof (induction xs)
  case Nil
  then show ?case by (subst parser_old_fails.simps) simp
next
  case (Cons x xs)
  let ?f = "mf_desc x"
  let ?l = "length (exp_hdr_of ?f) + length (mf_value x) + length (mask_bytes (mf_mask x))"
  have ok: "field_ok fs ?f" "value_fits (mf_value x)" "mask_fits (mf_value x) (mf_mask x)"
    using Cons.prems by (auto simp: mf_ok_def dest: uv_repr_fits)
  have t: "f_oxm_type ?f < 8388608" using ok(1) by (simp add: field_ok_def)
  have "length (mask_bytes (mf_mask x)) \<le> length (mf_value x)"
    using ok(3) by (auto simp: mask_fits_def mask_bytes_def split: option.splits)
  then have l: "?l < 256" using ok(2) exp_hdr_length [of ?f] by (simp add: value_fits_def)
  have h: "u32_at (mf_wire x @ r) 0 = tlv_header (f_oxm_type ?f) (mf_mask x \<noteq> None) ?l" for r
    using tlv_header_parts(1) [OF t l] by (simp add: mf_wire_def field_bytes_def u32_at_be32)
  have n: "length (mf_wire x) = ?l + 4" by (simp add: mf_wire_def field_bytes_length)
  from Cons show ?case
    by (subst parser_old_fails.simps) (simp add: h tlv_header_parts(4) [OF t l] n)
qed

theorem match_parser_wire:
  assumes "\<forall>x \<in> set xs. mf_ok na fs x" and "match_len xs < 65536"
  shows "match_parser na fs (match_bytes xs @ rest) =
    Inr \<lparr>m_type = OFPMT_OXM, m_length = match_len xs, m_fields = map mf_kv xs\<rparr>"
proof -
  let ?w = "concat (map mf_wire xs)"
  let ?b = "match_bytes xs @ rest"
  have d: "drop 4 ?b = ?w @ (replicate (round_up (match_len xs) 8 - match_len xs) 0 @ rest)"
    by (simp add: match_bytes_eq)
  have h: "u16_at ?b 0 = OFPMT_OXM" "u16_at ?b 2 = match_len xs"
    using assms(2) by (simp_all add: match_bytes_eq u16_at_def be16_def OFPMT_OXM_def
        numeral_2_eq_2)
  have l: "int (match_len xs) - 4 = int (length ?w)" by (simp add: match_len_def)
  have "4 \<le> length ?b" by (simp add: match_bytes_def Let_def)
  then show ?thesis
    by (simp add: match_parser_def Let_def h l d parse_fields_wire [OF assms(1)]
        parser_old_wire [OF assms(1)] del: drop_append length_append)
qed

end
