(* ===== verification/Ofp_Actions.thy ===== *)
theory Ofp_Actions
  imports Ofp_Match
begin

unbundle bit_operations_syntax

text \<open>
  Actions and instructions of OpenFlow 1.3 (\<open>ryu/ofproto/ofproto_v1_3_parser.py\<close>): the classes
  with their \<open>serialize\<close> and \<open>parser\<close>.  The Nicira extension actions are not modelled: their
  parser and their serialiser are parameters.  Parsing an action list may never return.
\<close>

section \<open>Actions\<close>

datatype ofp_action =
    ActOutput nat nat
  | ActGroup nat
  | ActSetQueue nat
  | ActSetMplsTtl nat
  | ActDecMplsTtl
  | ActSetNwTtl nat
  | ActDecNwTtl
  | ActCopyTtlOut
  | ActCopyTtlIn
  | ActPushVlan nat
  | ActPushMpls nat
  | ActPopVlan
  | ActPopMpls nat
  | ActSetField string uval
  | ActPushPbb nat
  | ActPopPbb
  | ActExperimenter nat bytes
  | ActNx nat

record ofp_env =
  e_na :: netaddr
  e_fields :: "field_desc list"
  nx_parse :: "bytes \<Rightarrow> ofp_action res"
  nx_serialize :: "nat \<Rightarrow> bytes res"

definition NX_EXPERIMENTER_ID :: nat where "NX_EXPERIMENTER_ID = 0x2320"

fun act_type :: "ofp_action \<Rightarrow> nat" where
  "act_type (ActOutput _ _) = 0"
| "act_type ActCopyTtlOut = 11"
| "act_type ActCopyTtlIn = 12"
| "act_type (ActSetMplsTtl _) = 15"
| "act_type ActDecMplsTtl = 16"
| "act_type (ActPushVlan _) = 17"
| "act_type ActPopVlan = 18"
| "act_type (ActPushMpls _) = 19"
| "act_type (ActPopMpls _) = 20"
| "act_type (ActSetQueue _) = 21"
| "act_type (ActGroup _) = 22"
| "act_type (ActSetNwTtl _) = 23"
| "act_type ActDecNwTtl = 24"
| "act_type (ActSetField _ _) = 25"
| "act_type (ActPushPbb _) = 26"
| "act_type ActPopPbb = 27"
| "act_type (ActExperimenter _ _) = 0xffff"
| "act_type (ActNx _) = 0xffff"

text \<open>What \<open>serialize\<close> packs after the type and the length; padding is zero.\<close>

definition pad_bytes :: "nat \<Rightarrow> bytes res" where
  "pad_bytes n = Inr (replicate n 0)"

fun act_fields :: "ofp_action \<Rightarrow> bytes res list" where
  "act_fields (ActOutput port max_len) = [pack_I port, pack_H max_len, pad_bytes 6]"
| "act_fields (ActGroup g) = [pack_I g]"
| "act_fields (ActSetQueue q) = [pack_I q]"
| "act_fields (ActSetMplsTtl t) = [pack_B t, pad_bytes 3]"
| "act_fields (ActSetNwTtl t) = [pack_B t, pad_bytes 3]"
| "act_fields (ActPushVlan e) = [pack_H e, pad_bytes 2]"
| "act_fields (ActPushMpls e) = [pack_H e, pad_bytes 2]"
| "act_fields (ActPopMpls e) = [pack_H e, pad_bytes 2]"
| "act_fields (ActPushPbb e) = [pack_H e, pad_bytes 2]"
| "act_fields _ = [pad_bytes 4]"

definition act_class_len :: "ofp_action \<Rightarrow> nat" where
  "act_class_len a = (case a of ActOutput _ _ \<Rightarrow> 16 | _ \<Rightarrow> 8)"

text \<open>\<open>OFPActionSetField.serialize\<close>, for an object with a key and a value.\<close>

definition set_field_serialize :: "ofp_env \<Rightarrow> string \<Rightarrow> uval \<Rightarrow> nat \<Rightarrow> bytes \<Rightarrow> (nat \<times> bytes) res" where
  "set_field_serialize env k u off buf =
     (case oxm_from_user (e_na env) (e_fields env) k (Plain_uv u) of
        Inl e \<Rightarrow> Inl e
      | Inr (n, v, m) \<Rightarrow>
          (case oxm_serialize (e_fields env) n v m of
             Inl e \<Rightarrow> Inl e
           | Inr b \<Rightarrow>
               let buf1 = pack_at (off + 4) b buf; len = round_up (4 + length b) 8
               in (case pack_all [pack_H 25, pack_H len] of
                     Inl e \<Rightarrow> Inl e
                   | Inr hdr \<Rightarrow>
                       Inr (len, pack_at (off + 4 + length b) (replicate (len - (4 + length b)) 0)
                                   (pack_at off hdr buf1)))))"

text \<open>\<open>OFPActionExperimenterUnknown.serialize\<close>: the length is rounded up, the data is not padded.\<close>

definition exp_serialize :: "nat \<Rightarrow> bytes \<Rightarrow> nat \<Rightarrow> bytes \<Rightarrow> (nat \<times> bytes) res" where
  "exp_serialize x data off buf =
     (let len = round_up (length data) 8 + 8
      in case pack_all [pack_H 0xffff, pack_H len, pack_I x] of
           Inl e \<Rightarrow> Inl e
         | Inr hdr \<Rightarrow> Inr (len, pack_at (off + 8) data (pack_at off hdr buf)))"

text \<open>\<open>serialize\<close> of an action: its \<open>len\<close> afterwards and the buffer.\<close>

definition action_serialize :: "ofp_env \<Rightarrow> ofp_action \<Rightarrow> nat \<Rightarrow> bytes \<Rightarrow> (nat \<times> bytes) res" where
  "action_serialize env a off buf =
     (case a of
        ActSetField k u \<Rightarrow> set_field_serialize env k u off buf
      | ActExperimenter x data \<Rightarrow> exp_serialize x data off buf
      | ActNx i \<Rightarrow> map_sum id (\<lambda>b. (length b, pack_at off b buf)) (nx_serialize env i)
      | _ \<Rightarrow>
          map_sum id (\<lambda>b. (act_class_len a, pack_at off b buf))
            (pack_all ([pack_H (act_type a), pack_H (act_class_len a)] @ act_fields a)))"

text \<open>The parsers of the old-style field inside a set-field action.\<close>

definition old_field_fails :: "bytes \<Rightarrow> bool" where
  "old_field_fails buf \<longleftrightarrow>
     length buf < 4 \<or>
     (let header = u32_at buf 0 in header \<in> set old_headers \<and> length buf < (header AND 0xff) + 4)"

definition set_field_parser :: "ofp_env \<Rightarrow> bytes \<Rightarrow> (ofp_action \<times> nat) res" where
  "set_field_parser env buf =
     (case oxm_parse (drop 4 buf) of
        Inl e \<Rightarrow> Inl e
      | Inr (n, v, m, _) \<Rightarrow>
          (case oxm_to_user (e_na env) (e_fields env) n v m of
             Inl e \<Rightarrow> Inl e
           | Inr (k, Masked_uv _ _) \<Rightarrow> Inl AssertionError
           | Inr (k, Plain_uv u) \<Rightarrow>
               if old_field_fails (drop 4 buf) then Inl StructError
               else Inr (ActSetField k u, u16_at buf 2)))"

definition exp_parser :: "ofp_env \<Rightarrow> bytes \<Rightarrow> (ofp_action \<times> nat) res" where
  "exp_parser env buf =
     (let len = u16_at buf 2; x = u32_at buf 4; data = slice 8 len buf
      in if x = NX_EXPERIMENTER_ID then map_sum id (\<lambda>a. (a, len)) (nx_parse env data)
         else Inr (ActExperimenter x data, len))"

text \<open>The parsers of the other classes, for a buffer that has the header.\<close>

definition output_parser :: "bytes \<Rightarrow> (ofp_action \<times> nat) res" where
  "output_parser buf =
     (if length buf < 16 then Inl StructError else Inr (ActOutput (u32_at buf 4) (u16_at buf 8), 16))"

definition group_parser :: "bytes \<Rightarrow> (ofp_action \<times> nat) res" where
  "group_parser buf = Inr (ActGroup (u32_at buf 4), 8)"

definition set_queue_parser :: "bytes \<Rightarrow> (ofp_action \<times> nat) res" where
  "set_queue_parser buf = Inr (ActSetQueue (u32_at buf 4), 8)"

definition set_mpls_ttl_parser :: "bytes \<Rightarrow> (ofp_action \<times> nat) res" where
  "set_mpls_ttl_parser buf = Inr (ActSetMplsTtl (u8_at buf 4), 8)"

definition set_nw_ttl_parser :: "bytes \<Rightarrow> (ofp_action \<times> nat) res" where
  "set_nw_ttl_parser buf = Inr (ActSetNwTtl (u8_at buf 4), 8)"

definition push_vlan_parser :: "bytes \<Rightarrow> (ofp_action \<times> nat) res" where
  "push_vlan_parser buf = Inr (ActPushVlan (u16_at buf 4), 8)"

definition push_mpls_parser :: "bytes \<Rightarrow> (ofp_action \<times> nat) res" where
  "push_mpls_parser buf = Inr (ActPushMpls (u16_at buf 4), 8)"

definition pop_mpls_parser :: "bytes \<Rightarrow> (ofp_action \<times> nat) res" where
  "pop_mpls_parser buf = Inr (ActPopMpls (u16_at buf 4), 8)"

definition push_pbb_parser :: "bytes \<Rightarrow> (ofp_action \<times> nat) res" where
  "push_pbb_parser buf = Inr (ActPushPbb (u16_at buf 4), 8)"

lemmas class_parser_defs = output_parser_def group_parser_def set_queue_parser_def set_mpls_ttl_parser_def
  set_nw_ttl_parser_def push_vlan_parser_def push_mpls_parser_def pop_mpls_parser_def push_pbb_parser_def

text \<open>
  \<open>OFPAction.parser\<close>, with the classes that have only a header: the action with its \<open>len\<close>.
\<close>

definition action_parser :: "ofp_env \<Rightarrow> bytes \<Rightarrow> (ofp_action \<times> nat) res" where
  "action_parser env buf =
     (if length buf < 8 then Inl StructError
      else
        let ty = u16_at buf 0 in
        if ty = 0 then output_parser buf
        else if ty = 11 then Inr (ActCopyTtlOut, 8)
        else if ty = 12 then Inr (ActCopyTtlIn, 8)
        else if ty = 15 then set_mpls_ttl_parser buf
        else if ty = 16 then Inr (ActDecMplsTtl, 8)
        else if ty = 17 then push_vlan_parser buf
        else if ty = 18 then Inr (ActPopVlan, 8)
        else if ty = 19 then push_mpls_parser buf
        else if ty = 20 then pop_mpls_parser buf
        else if ty = 21 then set_queue_parser buf
        else if ty = 22 then group_parser buf
        else if ty = 23 then set_nw_ttl_parser buf
        else if ty = 24 then Inr (ActDecNwTtl, 8)
        else if ty = 25 then set_field_parser env buf
        else if ty = 26 then push_pbb_parser buf
        else if ty = 27 then Inr (ActPopPbb, 8)
        else if ty = 0xffff then exp_parser env buf
        else Inl AssertionError)"

section \<open>Instructions\<close>

text \<open>\<open>InsActions\<close> has the type: write, apply or clear.\<close>

datatype ofp_instruction =
    InsGotoTable nat
  | InsWriteMetadata nat nat
  | InsActions nat "ofp_action list"
  | InsMeter nat

definition OFPIT_APPLY_ACTIONS :: nat where "OFPIT_APPLY_ACTIONS = 4"

fun put_actions :: "ofp_env \<Rightarrow> ofp_action list \<Rightarrow> nat \<Rightarrow> bytes \<Rightarrow> (nat \<times> bytes) res" where
  "put_actions env [] off buf = Inr (off, buf)"
| "put_actions env (a # as) off buf =
     (case action_serialize env a off buf of
        Inl e \<Rightarrow> Inl e
      | Inr (len, buf') \<Rightarrow> put_actions env as (off + len) buf')"

definition ins_actions_serialize :: "ofp_env \<Rightarrow> nat \<Rightarrow> ofp_action list \<Rightarrow> nat \<Rightarrow> bytes \<Rightarrow> (nat \<times> bytes) res" where
  "ins_actions_serialize env ty as off buf =
     (case put_actions env as (off + 8) buf of
        Inl e \<Rightarrow> Inl e
      | Inr (action_offset, buf1) \<Rightarrow>
          let len0 = action_offset - off; pad_len = round_up len0 8 - len0; len = len0 + pad_len;
              buf2 = pack_at action_offset (replicate pad_len 0) buf1
          in (case pack_all [pack_H ty, pack_H len, pad_bytes 4] of
                Inl e \<Rightarrow> Inl e
              | Inr hdr \<Rightarrow> Inr (len, pack_at off hdr buf2)))"

definition ins_serialize :: "ofp_env \<Rightarrow> ofp_instruction \<Rightarrow> nat \<Rightarrow> bytes \<Rightarrow> (nat \<times> bytes) res" where
  "ins_serialize env i off buf =
     (case i of
        InsGotoTable t \<Rightarrow>
          map_sum id (\<lambda>b. (8, pack_at off b buf)) (pack_all [pack_H 1, pack_H 8, pack_B t, pad_bytes 3])
      | InsWriteMetadata md mk \<Rightarrow>
          map_sum id (\<lambda>b. (24, pack_at off b buf))
            (pack_all [pack_H 2, pack_H 24, pad_bytes 4, pack_Q md, pack_Q mk])
      | InsActions ty as \<Rightarrow> ins_actions_serialize env ty as off buf
      | InsMeter m \<Rightarrow>
          map_sum id (\<lambda>b. (8, pack_at off b buf)) (pack_all [pack_H 6, pack_H 8, pack_I m]))"

text \<open>The loop over the actions: \<open>None\<close> when it does not end.\<close>

partial_function (option) parse_actions :: "ofp_env \<Rightarrow> int \<Rightarrow> bytes \<Rightarrow> ofp_action list run" where
  "parse_actions env actions_len buf =
     (if actions_len \<le> 0 then Some (Inr [])
      else case action_parser env buf of
        Inl e \<Rightarrow> Some (Inl e)
      | Inr (a, len) \<Rightarrow>
          Option.bind (parse_actions env (actions_len - int len) (drop len buf))
            (\<lambda>r. Some (map_sum id ((#) a) r)))"

text \<open>\<open>OFPInstruction.parser\<close>: nothing for an unknown type.\<close>

definition ins_parser :: "ofp_env \<Rightarrow> bytes \<Rightarrow> (ofp_instruction \<times> nat) option run" where
  "ins_parser env buf =
     (if length buf < 4 then raise StructError
      else
        let ty = u16_at buf 0; len = u16_at buf 2 in
        if ty = 1 then
          if length buf < 8 then raise StructError else ret (Some (InsGotoTable (u8_at buf 4), 8))
        else if ty = 2 then
          if length buf < 24 then raise StructError
          else ret (Some (InsWriteMetadata (u64_at buf 8) (u64_at buf 16), 24))
        else if ty = 3 \<or> ty = 4 \<or> ty = 5 then
          if length buf < 8 then raise StructError
          else (case parse_actions env (int len - 8) (drop 8 buf) of
                  None \<Rightarrow> None
                | Some (Inl e) \<Rightarrow> raise (if e = StructError then truncated else e)
                | Some (Inr as) \<Rightarrow> ret (Some (InsActions ty as, len)))
        else if ty = 6 then
          if length buf < 8 then raise StructError else ret (Some (InsMeter (u32_at buf 4), 8))
        else ret None)"

section \<open>Round trips\<close>

text \<open>An action whose values fit the fields; a set-field action has a field that is known.\<close>

fun action_ok :: "ofp_env \<Rightarrow> ofp_action \<Rightarrow> bool" where
  "action_ok env (ActOutput p m) \<longleftrightarrow> p < 4294967296 \<and> m < 65536"
| "action_ok env (ActGroup g) \<longleftrightarrow> g < 4294967296"
| "action_ok env (ActSetQueue q) \<longleftrightarrow> q < 4294967296"
| "action_ok env (ActSetMplsTtl t) \<longleftrightarrow> t < 256"
| "action_ok env (ActSetNwTtl t) \<longleftrightarrow> t < 256"
| "action_ok env (ActPushVlan e) \<longleftrightarrow> e < 65536"
| "action_ok env (ActPushMpls e) \<longleftrightarrow> e < 65536"
| "action_ok env (ActPopMpls e) \<longleftrightarrow> e < 65536"
| "action_ok env (ActPushPbb e) \<longleftrightarrow> e < 65536"
| "action_ok env (ActSetField k u) \<longleftrightarrow>
     (\<exists>f v. f_name f = k \<and> field_ok (e_fields env) f \<and> user_repr (e_na env) (f_type f) u v)"
| "action_ok env (ActExperimenter x data) \<longleftrightarrow>
     x < 4294967296 \<and> x \<noteq> NX_EXPERIMENTER_ID \<and> 8 dvd length data \<and> length data < 65528"
| "action_ok env (ActNx i) \<longleftrightarrow> False"
| "action_ok env _ \<longleftrightarrow> True"

lemma u16_pre [simp]: "n < 65536 \<Longrightarrow> u16_at (be16 n @ b) 0 = n"
  by (rule u16_at_be16)

lemma u16_at_2: "u16_at (be16 m @ b) 2 = u16_at b 0"
  by (rule u16_at_append) simp

lemma hdr_reads [simp]:
  "t < 65536 \<Longrightarrow> u16_at (be16 t @ b) 0 = t"
  "l < 65536 \<Longrightarrow> u16_at (be16 t @ be16 l @ b) 2 = l"
  "u8_at (be16 t @ be16 l @ b) 4 = u8_at b 0"
  "u16_at (be16 t @ be16 l @ b) 4 = u16_at b 0"
  "u32_at (be16 t @ be16 l @ b) 4 = u32_at b 0"
  "u16_at (be16 t @ be16 l @ be32 x @ b) 8 = u16_at b 0"
  using u8_at_append [of "be16 t @ be16 l" 4 b] u16_at_append [of "be16 t @ be16 l" 4 b]
    u32_at_append [of "be16 t @ be16 l" 4 b] u16_at_append [of "be16 t @ be16 l @ be32 x" 8 b]
  by (simp_all add: u16_at_2)

lemma pack_at_length [simp]: "length buf = off \<Longrightarrow> pack_at off bs buf = buf @ bs"
  by (simp add: pack_at_end)

text \<open>
  What an action and its bytes have to do with each other: the action is written as these bytes
  at the end of any buffer and read back from them before any rest.
\<close>

definition action_wire :: "ofp_env \<Rightarrow> ofp_action \<Rightarrow> bytes \<Rightarrow> bool" where
  "action_wire env a b \<longleftrightarrow> 8 \<le> length b \<and> 8 dvd length b \<and>
     (\<forall>buf. action_serialize env a (length buf) buf = Inr (length b, buf @ b)) \<and>
     (\<forall>rest. action_parser env (b @ rest) = Inr (a, length b))"

definition action_simple :: "ofp_action \<Rightarrow> bool" where
  "action_simple a \<longleftrightarrow> (case a of ActSetField _ _ \<Rightarrow> False | ActExperimenter _ _ \<Rightarrow> False | ActNx _ \<Rightarrow> False | _ \<Rightarrow> True)"

definition action_bytes :: "ofp_action \<Rightarrow> bytes" where
  "action_bytes a = (case pack_all ([pack_H (act_type a), pack_H (act_class_len a)] @ act_fields a) of
     Inl _ \<Rightarrow> [] | Inr b \<Rightarrow> b)"

lemma action_simple_roundtrip:
  assumes "action_ok env a" and "action_simple a"
  shows "action_wire env a (action_bytes a)"
  using assms
  by (cases a) (simp_all add: action_wire_def action_serialize_def action_bytes_def action_simple_def
      act_class_len_def action_parser_def class_parser_defs pad_bytes_def u32_at_be32)

lemma old_field_ok:
  assumes "\<not> parser_old_fails (int (length (field_bytes f v m))) (field_bytes f v m @ rest)"
    and "0 < length (field_bytes f v m)"
  shows "\<not> old_field_fails (field_bytes f v m @ rest)"
  using assms by (subst (asm) parser_old_fails.simps)
    (auto simp: old_field_fails_def Let_def field_bytes_length split: if_splits)

lemma set_field_roundtrip:
  assumes "field_ok (e_fields env) f" and "user_repr (e_na env) (f_type f) u v"
  shows "\<exists>b. action_wire env (ActSetField (f_name f) u) b"
proof -
  let ?x = "\<lparr>mf_desc = f, mf_uv = Plain_uv u, mf_value = v, mf_mask = None\<rparr>"
  have ok: "mf_ok (e_na env) (e_fields env) ?x" using assms by (simp add: mf_ok_def uv_repr_def)
  have w: "mf_wire ?x = field_bytes f v None" by (simp add: mf_wire_def)
  let ?b = "field_bytes f v None" 
  let ?len = "round_up (4 + length ?b) 8"
  have lb: "length ?b \<le> 134" "4 \<le> length ?b"
    using assms(2) exp_hdr_length [of f] by (simp_all add: field_bytes_length mask_bytes_def user_repr_def value_fits_def)
  have ge: "4 + length ?b \<le> ?len" by (rule round_up_ge) simp
  have l8: "?len < 65536" using lb(1) by (simp add: round_up_def)
  have dv: "8 dvd ?len" by (simp add: round_up_def)
  let ?z = "replicate (?len - (4 + length ?b)) (0 :: byte)"
  let ?w = "be16 25 @ be16 ?len @ ?b @ ?z"
  have ser: "set_field_serialize env (f_name f) u (length buf) buf = Inr (?len, buf @ ?w)" for buf
  proof -
    let ?off = "length buf"
    have fu: "oxm_from_user (e_na env) (e_fields env) (f_name f) (Plain_uv u) = Inr (f_num f, v, None)"
      using mf_from_user [OF ok] by (simp add: mf_wire_args_def)
    have os: "oxm_serialize (e_fields env) (f_num f) v None = Inr ?b"
      using mf_serialize [OF ok] by (simp add: w)
    have p1: "pack_at (?off + 4) ?b buf = buf @ replicate 4 0 @ ?b" by (simp add: pack_at_end)
    have p2: "pack_at ?off (be16 25 @ be16 ?len) (buf @ replicate 4 0 @ ?b) = buf @ (be16 25 @ be16 ?len) @ ?b"
      by (rule pack_at_mid) simp_all
    have hdr: "pack_all [pack_H 25, pack_H ?len] = Inr (be16 25 @ be16 ?len)" using l8 by simp
    show ?thesis
      unfolding set_field_serialize_def fu sum.case prod.case os Let_def hdr p1 p2
      by (subst pack_at_length) simp_all
  qed
  have "action_parser env (?w @ rest) = Inr (ActSetField (f_name f) u, ?len)" for rest
  proof -
    have d: "drop 4 (?w @ rest) = ?b @ ?z @ rest" by simp
    have op: "oxm_parse (?b @ r) = Inr (f_num f, v, None, length ?b)" for r
      using mf_parse [OF ok] by (simp add: w)
    have tu: "oxm_to_user (e_na env) (e_fields env) (f_num f) v None = Inr (f_name f, Plain_uv u)"
      using mf_to_user [OF ok] by (simp add: mf_kv_def)
    have old: "\<not> old_field_fails (?b @ r)" for r
      using parser_old_wire [of "[?x]" "e_na env" "e_fields env" r] ok lb(2)
      by (intro old_field_ok) (auto simp: w)
    show ?thesis
      using l8 lb(2)
      by (simp add: action_parser_def set_field_parser_def op tu old Let_def)
  qed
  moreover have wl: "length ?w = ?len" using ge by simp
  moreover have "8 \<le> ?len" using ge lb(2) by linarith
  ultimately show ?thesis
    using ser dv unfolding action_wire_def wl
    by (intro exI [of _ ?w]) (simp only: wl action_serialize_def ofp_action.case, simp)
qed

lemma exp_roundtrip:
  assumes "action_ok env (ActExperimenter x data)"
  shows "action_wire env (ActExperimenter x data) (be16 65535 @ be16 (length data + 8) @ be32 x @ data)"
proof -
  have r: "round_up (length data) 8 = length data" using assms by (simp add: round_up_idem)
  show ?thesis
    using assms
    by (simp add: action_wire_def action_serialize_def exp_serialize_def r pack_I_def action_parser_def
        exp_parser_def Let_def u32_at_be32 slice_def)
qed

lemma action_roundtrip:
  assumes "action_ok env a"
  shows "\<exists>b. action_wire env a b"
proof (cases "action_simple a")
  case True
  then show ?thesis using action_simple_roundtrip [OF assms] by blast
next
  case False
  then consider k u where "a = ActSetField k u" | x d where "a = ActExperimenter x d" | i where "a = ActNx i"
    by (cases a) (auto simp: action_simple_def)
  then show ?thesis
  proof cases
    case 1
    then show ?thesis using assms set_field_roundtrip [of env] by auto
  next
    case 2
    then show ?thesis using assms exp_roundtrip by blast
  next
    case 3
    then show ?thesis using assms by simp
  qed
qed

section \<open>Action lists and instructions\<close>

text \<open>Packing beyond the end does not depend on zeros that are already there.\<close>

lemma pack_at_pad:
  "\<lbrakk>length buf \<le> k; k \<le> off\<rbrakk> \<Longrightarrow> pack_at off bs (buf @ replicate (k - length buf) 0) = pack_at off bs buf"
  by (simp add: pack_at_end flip: replicate_add)

lemma action_serialize_pad:
  "length buf \<le> off \<Longrightarrow>
   action_serialize env a off (buf @ replicate (off - length buf) 0) = action_serialize env a off buf"
  by (cases a) (simp_all add: action_serialize_def set_field_serialize_def exp_serialize_def pack_at_pad
      Let_def split: sum.split del: pack_at_length)

lemma parse_actions_Nil: "len \<le> 0 \<Longrightarrow> parse_actions env len buf = Some (Inr [])"
  by (subst parse_actions.simps) simp

lemma parse_actions_Cons:
  "0 < len \<Longrightarrow> action_parser env buf = Inr (a, n) \<Longrightarrow> parse_actions env len buf =
     map_option (map_sum id ((#) a)) (parse_actions env (len - int n) (drop n buf))"
  by (subst parse_actions.simps) (simp add: map_conv_bind_option o_def)

text \<open>The same contract for lists of actions and for instructions.\<close>

definition actions_wire :: "ofp_env \<Rightarrow> ofp_action list \<Rightarrow> bytes \<Rightarrow> bool" where
  "actions_wire env as b \<longleftrightarrow> 8 dvd length b \<and>
     (\<forall>buf. put_actions env as (length buf) buf = Inr (length buf + length b, buf @ b)) \<and>
     (\<forall>rest. parse_actions env (int (length b)) (b @ rest) = Some (Inr as))"

lemma actions_wire_Nil: "actions_wire env [] []"
  by (simp add: actions_wire_def parse_actions_Nil)

lemma actions_wire_Cons:
  assumes "action_wire env a w" and "actions_wire env as b"
  shows "actions_wire env (a # as) (w @ b)"
proof -
  have "put_actions env as (length buf + length w) (buf @ w) =
      Inr (length buf + length w + length b, buf @ w @ b)" for buf
    using assms(2) by (metis actions_wire_def length_append append.assoc)
  moreover have "parse_actions env (int (length (w @ b))) ((w @ b) @ rest) = Some (Inr (a # as))" for rest
    using assms parse_actions_Cons [of "int (length (w @ b))" env "w @ b @ rest" a "length w"]
    by (auto simp: action_wire_def actions_wire_def)
  ultimately show ?thesis
    using assms by (simp add: actions_wire_def action_wire_def add.assoc)
qed

lemma actions_roundtrip:
  "\<forall>a \<in> set as. action_ok env a \<Longrightarrow> \<exists>b. actions_wire env as b"
proof (induction as)
  case (Cons a as)
  then show ?case using action_roundtrip [of env a] actions_wire_Cons by force
qed (use actions_wire_Nil in blast)

lemma put_actions_behind:
  assumes "actions_wire env as w" and "as \<noteq> []"
  shows "put_actions env as (length buf + k) buf = Inr (length buf + k + length w, buf @ replicate k 0 @ w)"
proof -
  obtain a as' where as: "as = a # as'" using assms(2) by (cases as) auto
  have "put_actions env as (length buf + k) buf =
      put_actions env as (length buf + k) (buf @ replicate (length buf + k - length buf) 0)"
    unfolding as put_actions.simps by (subst action_serialize_pad) simp_all
  also have "\<dots> = Inr (length buf + k + length w, (buf @ replicate k 0) @ w)"
    using assms(1) unfolding actions_wire_def by (metis add_diff_cancel_left' length_append length_replicate)
  finally show ?thesis by simp
qed

lemma put_actions_gap:
  assumes "actions_wire env as w"
  shows "\<exists>buf1. put_actions env as (length buf + k) buf = Inr (length buf + k + length w, buf1) \<and>
    pack_at (length buf + k + length w) [] buf1 = buf @ replicate k 0 @ w"
proof (cases as)
  case Nil
  have "w = []" using assms unfolding Nil actions_wire_def by (metis put_actions.simps(1) Inr_inject
      add_cancel_left_right length_0_conv prod.inject)
  then show ?thesis by (simp add: Nil pack_at_end)
next
  case (Cons a as')
  then show ?thesis using put_actions_behind [OF assms] by simp
qed

definition ins_wire :: "ofp_env \<Rightarrow> ofp_instruction \<Rightarrow> bytes \<Rightarrow> bool" where
  "ins_wire env i b \<longleftrightarrow> 8 \<le> length b \<and>
     (\<forall>buf. ins_serialize env i (length buf) buf = Inr (length b, buf @ b)) \<and>
     (\<forall>rest. ins_parser env (b @ rest) = ret (Some (i, length b)))"

text \<open>An instruction whose values fit; an action list fits when its bytes do.\<close>

definition ins_ok :: "ofp_env \<Rightarrow> ofp_instruction \<Rightarrow> bool" where
  "ins_ok env i \<longleftrightarrow>
     (case i of
        InsGotoTable t \<Rightarrow> t < 256
      | InsWriteMetadata md mk \<Rightarrow> md < 18446744073709551616 \<and> mk < 18446744073709551616
      | InsActions ty as \<Rightarrow> ty \<in> {3, 4, 5} \<and> (\<forall>a \<in> set as. action_ok env a) \<and>
          (\<forall>b. actions_wire env as b \<longrightarrow> length b < 65528)
      | InsMeter m \<Rightarrow> m < 4294967296)"

lemma ins_actions_roundtrip:
  assumes "actions_wire env as w" and "length w < 65528" and "ty = 3 \<or> ty = 4 \<or> ty = 5"
  shows "ins_wire env (InsActions ty as) (be16 ty @ be16 (8 + length w) @ replicate 4 0 @ w)"
proof -
  let ?b = "be16 ty @ be16 (8 + length w) @ replicate 4 0 @ w"
  have dv: "8 dvd length w" using assms(1) by (simp add: actions_wire_def)
  then have r: "round_up (8 + length w) 8 = 8 + length w" by (simp add: round_up_idem)
  have "ins_serialize env (InsActions ty as) (length buf) buf = Inr (length ?b, buf @ ?b)" for buf
  proof -
    obtain buf1 where "put_actions env as (length buf + 8) buf = Inr (length buf + 8 + length w, buf1)"
      and "pack_at (length buf + 8 + length w) [] buf1 = buf @ replicate 8 0 @ w"
      using put_actions_gap [OF assms(1)] by blast
    moreover have "pack_at (length buf) (be16 ty @ be16 (8 + length w) @ replicate 4 0) (buf @ replicate 8 0 @ w) =
        buf @ (be16 ty @ be16 (8 + length w) @ replicate 4 0) @ w"
      by (rule pack_at_mid) simp_all
    ultimately show ?thesis
      using assms(2,3) r
      by (auto simp add: ins_serialize_def ins_actions_serialize_def Let_def pad_bytes_def simp del: pack_at_length)
  qed
  moreover have "ins_parser env (?b @ rest) = ret (Some (InsActions ty as, length ?b))" for rest
    using assms by (auto simp add: ins_parser_def Let_def actions_wire_def)
  ultimately show ?thesis by (simp add: ins_wire_def)
qed

lemma ins_roundtrip:
  assumes "ins_ok env i"
  shows "\<exists>b. ins_wire env i b"
proof (cases i)
  case (InsGotoTable t)
  then show ?thesis
    using assms
    by (intro exI [of _ "be16 1 @ be16 8 @ word_of_nat t # replicate 3 0"])
      (simp add: ins_wire_def ins_ok_def ins_serialize_def ins_parser_def pad_bytes_def)
next
  case (InsWriteMetadata md mk)
  have r: "u64_at (be16 2 @ be16 24 @ replicate 4 0 @ be64 md @ b) 8 = u64_at (be64 md @ b) 0"
    "u64_at (be16 2 @ be16 24 @ replicate 4 0 @ be64 md @ b) 16 = u64_at b 0" for b
    using u64_at_append [of "be16 2 @ be16 24 @ replicate 4 0" 8 "be64 md @ b"]
      u64_at_append [of "be16 2 @ be16 24 @ replicate 4 0 @ be64 md" 16 b] by simp_all
  show ?thesis
    using assms
    by (intro exI [of _ "be16 2 @ be16 24 @ replicate 4 0 @ be64 md @ be64 mk"])
      (simp add: InsWriteMetadata ins_wire_def ins_ok_def ins_serialize_def ins_parser_def pad_bytes_def pack_Q_def
        r u64_at_be64)
next
  case (InsActions ty as)
  then have "\<forall>a \<in> set as. action_ok env a" using assms by (simp add: ins_ok_def)
  then obtain w where "actions_wire env as w" using actions_roundtrip by blast
  then show ?thesis
    using assms InsActions ins_actions_roundtrip [of env as w ty] by (auto simp: ins_ok_def)
next
  case (InsMeter m)
  then show ?thesis
    using assms
    by (intro exI [of _ "be16 6 @ be16 8 @ be32 m"])
      (simp add: ins_wire_def ins_ok_def ins_serialize_def ins_parser_def pack_I_def u32_at_be32)
qed

end
