(* ===== verification/Ofp_Messages.thy ===== *)
theory Ofp_Messages
  imports Ofp_Actions Ctl_Framing
begin

text \<open>
  Messages of OpenFlow 1.3 (\<open>ryu/ofproto/ofproto_v1_3_parser.py\<close>, \<open>ryu/ofproto/ofproto_parser.py\<close>):
  the flow modification and the packet-out the controller serialises, the packet-in and the flow
  modification it parses, and the dispatch of a received message to its parser.
\<close>

section \<open>Flow modification\<close>

record ofp_flow_mod =
  fmd_cookie :: nat
  fmd_cookie_mask :: nat
  fmd_table_id :: nat
  fmd_command :: nat
  fmd_idle_timeout :: nat
  fmd_hard_timeout :: nat
  fmd_priority :: nat
  fmd_buffer_id :: nat
  fmd_out_port :: nat
  fmd_out_group :: nat
  fmd_flags :: nat
  fmd_match :: "(string \<times> uv) list"
  fmd_instructions :: "ofp_instruction list"

definition OFP_VERSION_1_3 :: nat where "OFP_VERSION_1_3 = 4"
definition OFPT_PACKET_IN :: nat where "OFPT_PACKET_IN = 10"
definition OFPT_PACKET_OUT :: nat where "OFPT_PACKET_OUT = 13"
definition OFPT_FLOW_MOD :: nat where "OFPT_FLOW_MOD = 14"

text \<open>\<open>_serialize_header\<close>, over a buffer of at least the size of the header.\<close>

definition put_header :: "nat \<Rightarrow> nat \<Rightarrow> bytes \<Rightarrow> bytes res" where
  "put_header msg_type xid buf =
     map_sum id (\<lambda>h. pack_at 0 h buf)
       (pack_all [pack_B OFP_VERSION_1_3, pack_B msg_type, pack_H (length buf), pack_I xid])"

definition flow_mod_fixed :: "ofp_flow_mod \<Rightarrow> bytes res" where
  "flow_mod_fixed m =
     pack_all [pack_Q (fmd_cookie m), pack_Q (fmd_cookie_mask m), pack_B (fmd_table_id m),
       pack_B (fmd_command m), pack_H (fmd_idle_timeout m), pack_H (fmd_hard_timeout m),
       pack_H (fmd_priority m), pack_I (fmd_buffer_id m), pack_I (fmd_out_port m),
       pack_I (fmd_out_group m), pack_H (fmd_flags m), pad_bytes 2]"

fun put_instructions :: "ofp_env \<Rightarrow> ofp_instruction list \<Rightarrow> nat \<Rightarrow> bytes \<Rightarrow> bytes res" where
  "put_instructions env [] off buf = Inr buf"
| "put_instructions env (i # is) off buf =
     (case ins_serialize env i off buf of
        Inl e \<Rightarrow> Inl e
      | Inr (len, buf') \<Rightarrow> put_instructions env is (off + len) buf')"

text \<open>\<open>serialize\<close>: the empty header, the body, then the header.\<close>

definition flow_mod_serialize :: "ofp_env \<Rightarrow> nat \<Rightarrow> ofp_flow_mod \<Rightarrow> bytes res" where
  "flow_mod_serialize env xid m =
     (case flow_mod_fixed m of
        Inl e \<Rightarrow> Inl e
      | Inr fixed \<Rightarrow>
          (case match_serialize (e_na env) (e_fields env) (fmd_match m) 48 (pack_at 8 fixed (replicate 8 0)) of
             Inl e \<Rightarrow> Inl e
           | Inr (mlen, buf) \<Rightarrow>
               (case put_instructions env (fmd_instructions m) (48 + mlen) buf of
                  Inl e \<Rightarrow> Inl e
                | Inr buf' \<Rightarrow> put_header OFPT_FLOW_MOD xid buf')))"

text \<open>
  The loop over the instructions: an instruction of unknown type is skipped without moving the
  offset.
\<close>

partial_function (option) parse_instructions :: "ofp_env \<Rightarrow> int \<Rightarrow> bytes \<Rightarrow> ofp_instruction list run" where
  "parse_instructions env rem buf =
     (if rem \<le> 0 then Some (Inr [])
      else case ins_parser env buf of
        None \<Rightarrow> None
      | Some (Inl e) \<Rightarrow> Some (Inl (if e = StructError then truncated else e))
      | Some (Inr None) \<Rightarrow> parse_instructions env rem buf
      | Some (Inr (Some (i, len))) \<Rightarrow>
          Option.bind (parse_instructions env (rem - int len) (drop len buf))
            (\<lambda>r. Some (map_sum id ((#) i) r)))"

definition flow_mod_parser :: "ofp_env \<Rightarrow> nat \<Rightarrow> bytes \<Rightarrow> ofp_flow_mod run" where
  "flow_mod_parser env msg_len buf =
     (if length buf < 48 then raise StructError
      else case match_parser (e_na env) (e_fields env) (drop 48 buf) of
        Inl e \<Rightarrow> raise e
      | Inr mt \<Rightarrow>
          let off = 48 + round_up (m_length mt) 8
          in run_bind (parse_instructions env (int msg_len - int off) (drop off buf)) (\<lambda>is.
               ret \<lparr>fmd_cookie = u64_at buf 8, fmd_cookie_mask = u64_at buf 16,
                    fmd_table_id = u8_at buf 24, fmd_command = u8_at buf 25,
                    fmd_idle_timeout = u16_at buf 26, fmd_hard_timeout = u16_at buf 28,
                    fmd_priority = u16_at buf 30, fmd_buffer_id = u32_at buf 32,
                    fmd_out_port = u32_at buf 36, fmd_out_group = u32_at buf 40,
                    fmd_flags = u16_at buf 44, fmd_match = m_fields mt, fmd_instructions = is\<rparr>))"

section \<open>Packet out and packet in\<close>

record ofp_packet_out =
  pko_buffer_id :: nat
  pko_in_port :: nat
  pko_actions :: "ofp_action list"
  pko_data :: "bytes option"

definition packet_out_fixed :: "ofp_packet_out \<Rightarrow> nat \<Rightarrow> bytes res" where
  "packet_out_fixed p actions_len =
     pack_all [pack_I (pko_buffer_id p), pack_I (pko_in_port p), pack_H actions_len, pad_bytes 6]"

text \<open>\<open>actions_len\<close> is the sum of the lengths; the data goes to the end of the buffer.\<close>

definition packet_out_serialize :: "ofp_env \<Rightarrow> nat \<Rightarrow> ofp_packet_out \<Rightarrow> bytes res" where
  "packet_out_serialize env xid p =
     (case put_actions env (pko_actions p) 24 (replicate 8 0) of
        Inl e \<Rightarrow> Inl e
      | Inr (off, buf) \<Rightarrow>
          if pko_data p \<noteq> None \<and> pko_buffer_id p \<noteq> 0xffffffff then Inl AssertionError
          else
            let buf1 = buf @ (case pko_data p of None \<Rightarrow> [] | Some d \<Rightarrow> d)
            in (case packet_out_fixed p (off - 24) of
                  Inl e \<Rightarrow> Inl e
                | Inr fixed \<Rightarrow> put_header OFPT_PACKET_OUT xid (pack_at 8 fixed buf1)))"

record ofp_packet_in =
  pki_buffer_id :: nat
  pki_total_len :: nat
  pki_reason :: nat
  pki_table_id :: nat
  pki_cookie :: nat
  pki_match :: "(string \<times> uv) list"
  pki_data :: bytes

definition packet_in_parser :: "ofp_env \<Rightarrow> bytes \<Rightarrow> ofp_packet_in res" where
  "packet_in_parser env buf =
     (if length buf < 24 then Inl StructError
      else case match_parser (e_na env) (e_fields env) (drop 24 buf) of
        Inl e \<Rightarrow> Inl e
      | Inr mt \<Rightarrow>
          let data = drop (24 + round_up (m_length mt) 8 + 2) buf;
              total_len = u16_at buf 12
          in Inr \<lparr>pki_buffer_id = u32_at buf 8, pki_total_len = total_len, pki_reason = u8_at buf 14,
                  pki_table_id = u8_at buf 15, pki_cookie = u64_at buf 16, pki_match = m_fields mt,
                  pki_data = (if total_len < length data then take total_len data else data)\<rparr>)"

section \<open>Dispatch of a received message\<close>

datatype ofp_message = MFlowMod ofp_flow_mod | MPacketIn ofp_packet_in | MOther nat bytes

text \<open>
  \<open>msg_parser\<close> of version 1.3; the parsers of the other types of messages are a parameter, and
  a type without one is a call of \<open>None\<close>.
\<close>

definition msg_parser_13 ::
    "ofp_env \<Rightarrow> (nat \<Rightarrow> (bytes \<Rightarrow> ofp_message run) option) \<Rightarrow> nat \<Rightarrow> nat \<Rightarrow> bytes \<Rightarrow> ofp_message run" where
  "msg_parser_13 env others msg_type msg_len buf =
     (if msg_type = OFPT_FLOW_MOD then run_bind (flow_mod_parser env msg_len buf) (\<lambda>m. ret (MFlowMod m))
      else if msg_type = OFPT_PACKET_IN then
        (case packet_in_parser env buf of Inl e \<Rightarrow> raise e | Inr p \<Rightarrow> ret (MPacketIn p))
      else case others msg_type of None \<Rightarrow> raise TypeError | Some f \<Rightarrow> f buf)"

text \<open>
  \<open>msg\<close> of \<open>ofproto_parser.py\<close>: a parser error other than a truncated message is logged and the
  result is \<open>None\<close>; a buffer shorter than the message raises in the end.
\<close>

definition ofp_msg ::
    "(nat \<Rightarrow> (nat \<Rightarrow> nat \<Rightarrow> bytes \<Rightarrow> 'm run) option) \<Rightarrow> nat \<Rightarrow> nat \<Rightarrow> nat \<Rightarrow> bytes \<Rightarrow> 'm option run" where
  "ofp_msg parsers ver msg_type msg_len buf =
     (case parsers ver of
        None \<Rightarrow> raise (OtherError ''OFPUnknownVersion'')
      | Some msg_parser \<Rightarrow>
          (case msg_parser msg_type msg_len buf of
             None \<Rightarrow> None
           | Some (Inl e) \<Rightarrow>
               if e = truncated then raise e
               else if length buf < msg_len then raise AssertionError else ret None
           | Some (Inr m) \<Rightarrow> if length buf < msg_len then raise AssertionError else ret (Some m)))"

section \<open>Flow modifications on the wire\<close>

lemma parse_instructions_Nil: "rem \<le> 0 \<Longrightarrow> parse_instructions env rem buf = Some (Inr [])"
  by (subst parse_instructions.simps) simp

lemma parse_instructions_Cons:
  "0 < rem \<Longrightarrow> ins_parser env buf = ret (Some (i, n)) \<Longrightarrow> parse_instructions env rem buf =
     map_option (map_sum id ((#) i)) (parse_instructions env (rem - int n) (drop n buf))"
  by (subst parse_instructions.simps) (simp add: map_conv_bind_option o_def ret_def)

text \<open>An instruction whose type has no class is looked at over and over.\<close>

lemma parse_instructions_unknown:
  assumes "0 < rem" and "ins_parser env buf = ret None"
  shows "parse_instructions env rem buf = None"
proof -
  have "\<not> (env' = env \<and> rem' = rem \<and> buf' = buf)"
    if "parse_instructions env' rem' buf' = Some y" for env' rem' buf' y
  proof (rule parse_instructions.raw_induct
        [of "\<lambda>env' rem' buf' y. \<not> (env' = env \<and> rem' = rem \<and> buf' = buf)", OF _ that],
        rule notI, elim conjE, goal_cases)
    case (1 f env' rem' buf' y)
    then have "f env rem buf = Some y" using assms by (simp add: ret_def)
    then show False using 1(1) by blast
  qed
  then show ?thesis by (cases "parse_instructions env rem buf") auto
qed

definition instructions_wire :: "ofp_env \<Rightarrow> ofp_instruction list \<Rightarrow> bytes \<Rightarrow> bool" where
  "instructions_wire env is b \<longleftrightarrow>
     (\<forall>buf. put_instructions env is (length buf) buf = Inr (buf @ b)) \<and>
     (\<forall>rest. parse_instructions env (int (length b)) (b @ rest) = Some (Inr is))"

lemma instructions_roundtrip:
  "\<forall>i \<in> set is. ins_ok env i \<Longrightarrow> \<exists>b. instructions_wire env is b"
proof (induction "is")
  case Nil
  then show ?case by (intro exI [of _ "[]"]) (simp add: instructions_wire_def parse_instructions_Nil)
next
  case (Cons i "is")
  obtain w where w: "ins_wire env i w" using ins_roundtrip [of env i] Cons.prems by auto
  obtain b where b: "instructions_wire env is b" using Cons by auto
  have "put_instructions env is (length buf + length w) (buf @ w) = Inr (buf @ w @ b)" for buf
    using b unfolding instructions_wire_def by (metis append.assoc length_append)
  moreover have "parse_instructions env (int (length (w @ b))) ((w @ b) @ rest) = Some (Inr (i # is))" for rest
    using w b parse_instructions_Cons [of "int (length (w @ b))" env "w @ b @ rest" i "length w"]
    by (auto simp: ins_wire_def instructions_wire_def)
  ultimately have "instructions_wire env (i # is) (w @ b)"
    using w by (simp add: instructions_wire_def ins_wire_def)
  then show ?case by blast
qed

text \<open>A flow modification whose fields fit their places.\<close>

definition flow_mod_ok :: "ofp_flow_mod \<Rightarrow> bool" where
  "flow_mod_ok m \<longleftrightarrow>
     fmd_cookie m < 18446744073709551616 \<and> fmd_cookie_mask m < 18446744073709551616 \<and>
     fmd_table_id m < 256 \<and> fmd_command m < 256 \<and> fmd_idle_timeout m < 65536 \<and>
     fmd_hard_timeout m < 65536 \<and> fmd_priority m < 65536 \<and> fmd_buffer_id m < 4294967296 \<and>
     fmd_out_port m < 4294967296 \<and> fmd_out_group m < 4294967296 \<and> fmd_flags m < 65536"

definition flow_mod_head :: "ofp_flow_mod \<Rightarrow> bytes" where
  "flow_mod_head m =
     be64 (fmd_cookie m) @ be64 (fmd_cookie_mask m) @ [word_of_nat (fmd_table_id m), word_of_nat (fmd_command m)] @
     be16 (fmd_idle_timeout m) @ be16 (fmd_hard_timeout m) @ be16 (fmd_priority m) @ be32 (fmd_buffer_id m) @
     be32 (fmd_out_port m) @ be32 (fmd_out_group m) @ be16 (fmd_flags m) @ replicate 2 0"

lemma flow_mod_head_length [simp]: "length (flow_mod_head m) = 40"
  by (simp add: flow_mod_head_def)

lemma flow_mod_fixed_ok: "flow_mod_ok m \<Longrightarrow> flow_mod_fixed m = Inr (flow_mod_head m)"
  by (simp add: flow_mod_ok_def flow_mod_fixed_def flow_mod_head_def pad_bytes_def)

definition msg_header :: "nat \<Rightarrow> nat \<Rightarrow> nat \<Rightarrow> bytes" where
  "msg_header msg_type len xid = [word_of_nat OFP_VERSION_1_3, word_of_nat msg_type] @ be16 len @ be32 xid"

lemma msg_header_length [simp]: "length (msg_header t l x) = 8"
  by (simp add: msg_header_def)

lemma put_header_ok:
  assumes "length old = 8" and "t < 256" and "8 + length b < 65536" and "xid < 4294967296"
  shows "put_header t xid (old @ b) = Inr (msg_header t (8 + length b) xid @ b)"
  using assms pack_at_mid [of "[]" 0 old "msg_header t (8 + length b) xid" b]
  by (simp add: put_header_def msg_header_def OFP_VERSION_1_3_def pack_I_def)

lemma flow_mod_reads:
  assumes "flow_mod_ok m" and "length h = 8"
  shows "u64_at (h @ flow_mod_head m @ r) 8 = fmd_cookie m" "u64_at (h @ flow_mod_head m @ r) 16 = fmd_cookie_mask m"
    "u8_at (h @ flow_mod_head m @ r) 24 = fmd_table_id m" "u8_at (h @ flow_mod_head m @ r) 25 = fmd_command m"
    "u16_at (h @ flow_mod_head m @ r) 26 = fmd_idle_timeout m"
    "u16_at (h @ flow_mod_head m @ r) 28 = fmd_hard_timeout m" "u16_at (h @ flow_mod_head m @ r) 30 = fmd_priority m"
    "u32_at (h @ flow_mod_head m @ r) 32 = fmd_buffer_id m" "u32_at (h @ flow_mod_head m @ r) 36 = fmd_out_port m"
    "u32_at (h @ flow_mod_head m @ r) 40 = fmd_out_group m" "u16_at (h @ flow_mod_head m @ r) 44 = fmd_flags m"
  using assms by (simp_all add: flow_mod_ok_def flow_mod_head_def read_fields)

text \<open>The bytes of the message, and what the parser makes of them.\<close>

lemma flow_mod_wire:
  assumes m: "flow_mod_ok m" and xs: "\<forall>x \<in> set xs. mf_ok (e_na env) (e_fields env) x"
    and kv: "fmd_match m = map mf_kv xs" and ib: "instructions_wire env (fmd_instructions m) ib"
    and len: "48 + length (match_bytes xs) + length ib < 65536" and xid: "xid < 4294967296"
  defines "b \<equiv> flow_mod_head m @ match_bytes xs @ ib"
  shows "flow_mod_serialize env xid m = Inr (msg_header OFPT_FLOW_MOD (8 + length b) xid @ b)"
    and "flow_mod_parser env (8 + length b) (msg_header OFPT_FLOW_MOD (8 + length b) xid @ b) = ret m"
proof -
  have l: "match_len xs < 65536"
    using len round_up_ge [of 8 "match_len xs"] by (simp add: match_bytes_length)
  let ?z = "replicate 8 (0 :: byte)"
  have p: "pack_at 8 (flow_mod_head m) ?z = ?z @ flow_mod_head m" by simp
  have ms: "match_serialize (e_na env) (e_fields env) (fmd_match m) 48 (?z @ flow_mod_head m) =
      Inr (length (match_bytes xs), (?z @ flow_mod_head m) @ match_bytes xs)"
    unfolding kv using l by (intro match_serialize_wire [OF xs]) simp_all
  have pi: "put_instructions env (fmd_instructions m) (48 + length (match_bytes xs))
      ((?z @ flow_mod_head m) @ match_bytes xs) = Inr (?z @ b)"
    using ib [unfolded instructions_wire_def, THEN conjunct1, rule_format, of "(?z @ flow_mod_head m) @ match_bytes xs"]
    by (simp add: b_def)
  have "8 + length b < 65536" using len by (simp add: b_def)
  then show "flow_mod_serialize env xid m = Inr (msg_header OFPT_FLOW_MOD (8 + length b) xid @ b)"
    unfolding flow_mod_serialize_def flow_mod_fixed_ok [OF m] sum.case p ms prod.case pi
    using xid by (intro put_header_ok) (simp_all add: OFPT_FLOW_MOD_def)
  let ?h = "msg_header OFPT_FLOW_MOD (8 + length b) xid"
  have d: "drop 48 (?h @ b) = match_bytes xs @ ib" by (simp add: b_def)
  have mp: "match_parser (e_na env) (e_fields env) (match_bytes xs @ ib) =
      Inr \<lparr>m_type = OFPMT_OXM, m_length = match_len xs, m_fields = map mf_kv xs\<rparr>"
    by (rule match_parser_wire [OF xs l])
  let ?off = "48 + round_up (match_len xs) 8"
  have off: "?off = 48 + length (match_bytes xs)" by (simp add: match_bytes_length)
  have di: "drop ?off (?h @ b) = ib" by (simp add: off b_def)
  have li: "int (8 + length b) - int ?off = int (length ib)" by (simp add: off b_def)
  have inst: "parse_instructions env (int (8 + length b) - int ?off) (drop ?off (?h @ b)) =
      ret (fmd_instructions m)"
    unfolding di li using ib [unfolded instructions_wire_def, THEN conjunct2, rule_format, of "[]"]
    by (simp add: ret_def)
  have lb: "\<not> length (?h @ b) < 48" by (simp add: b_def)
  note reads = flow_mod_reads [OF m, of ?h "match_bytes xs @ ib", simplified, folded b_def]
  show "flow_mod_parser env (8 + length b) (?h @ b) = ret m"
    unfolding flow_mod_parser_def d mp sum.case Let_def ofp_match_obj.simps inst run_bind_simps
    using lb reads by (simp add: kv)
qed

end
