(* ===== verification/Ofp_Properties.thy ===== *)
theory Ofp_Properties
  imports Ofp_Messages Fw_Flows Sample_Frames "HOL-Library.Multiset"
begin

text \<open>
  Properties of the OpenFlow messages: the rules of the firewall on the wire, messages that hang
  the parser, and the frames carried by packet-out and packet-in.
\<close>

section \<open>The rules of the firewall\<close>

text \<open>The keyword arguments of \<open>OFPMatch\<close> that a match of the firewall stands for.\<close>

fun kw_of_oxm :: "oxm \<Rightarrow> string \<times> uval" where
  "kw_of_oxm (In_port n) = (''in_port'', UInt (int n))"
| "kw_of_oxm (Eth_type n) = (''eth_type'', UInt (int n))"
| "kw_of_oxm (Eth_src t) = (''eth_src'', UText t)"
| "kw_of_oxm (Eth_dst t) = (''eth_dst'', UText t)"
| "kw_of_oxm (Ip_proto n) = (''ip_proto'', UInt (int n))"
| "kw_of_oxm (Ipv4_src t) = (''ipv4_src'', UText t)"
| "kw_of_oxm (Ipv4_dst t) = (''ipv4_dst'', UText t)"
| "kw_of_oxm (Tcp_src i) = (''tcp_src'', UInt i)"
| "kw_of_oxm (Tcp_dst i) = (''tcp_dst'', UInt i)"
| "kw_of_oxm (Udp_src i) = (''udp_src'', UInt i)"
| "kw_of_oxm (Udp_dst i) = (''udp_dst'', UInt i)"
| "kw_of_oxm (Arp_spa t) = (''arp_spa'', UText t)"

definition kwarg :: "oxm \<Rightarrow> string \<times> uv" where
  "kwarg x = (fst (kw_of_oxm x), Plain_uv (snd (kw_of_oxm x)))"

fun wire_action :: "action \<Rightarrow> ofp_action" where
  "wire_action (Output port max_len) = ActOutput port max_len"

fun wire_instruction :: "instruction \<Rightarrow> ofp_instruction" where
  "wire_instruction (ApplyActions as) = InsActions OFPIT_APPLY_ACTIONS (map wire_action as)"

definition wire_command :: "fm_command \<Rightarrow> nat" where
  "wire_command c = (case c of OFPFC_ADD \<Rightarrow> 0 | OFPFC_DELETE \<Rightarrow> 3)"

text \<open>The \<open>OFPFlowMod\<close> object of a rule: its match is built first and may be refused.\<close>

definition wire_flow_mod :: "ofp_env \<Rightarrow> flow_mod \<Rightarrow> ofp_flow_mod res" where
  "wire_flow_mod env m =
     map_sum id (\<lambda>mt.
       \<lparr>fmd_cookie = 0, fmd_cookie_mask = 0, fmd_table_id = 0, fmd_command = wire_command (fm_command m),
        fmd_idle_timeout = fm_idle m, fmd_hard_timeout = fm_hard m, fmd_priority = fm_priority m,
        fmd_buffer_id = fm_buffer m, fmd_out_port = fm_out_port m, fmd_out_group = fm_out_group m,
        fmd_flags = 0, fmd_match = mt, fmd_instructions = map wire_instruction (fm_instructions m)\<rparr>)
       (ofp_match (e_na env) (e_fields env) (map kwarg (fm_match m)))"

fun oxm_desc :: "oxm \<Rightarrow> field_desc" where
  "oxm_desc (In_port _) = OpenFlowBasic ''in_port'' 0 (IntDescr 4)"
| "oxm_desc (Eth_type _) = OpenFlowBasic ''eth_type'' 5 (IntDescr 2)"
| "oxm_desc (Eth_src _) = OpenFlowBasic ''eth_src'' 4 MacAddr"
| "oxm_desc (Eth_dst _) = OpenFlowBasic ''eth_dst'' 3 MacAddr"
| "oxm_desc (Ip_proto _) = OpenFlowBasic ''ip_proto'' 10 (IntDescr 1)"
| "oxm_desc (Ipv4_src _) = OpenFlowBasic ''ipv4_src'' 11 IPv4Addr"
| "oxm_desc (Ipv4_dst _) = OpenFlowBasic ''ipv4_dst'' 12 IPv4Addr"
| "oxm_desc (Tcp_src _) = OpenFlowBasic ''tcp_src'' 13 (IntDescr 2)"
| "oxm_desc (Tcp_dst _) = OpenFlowBasic ''tcp_dst'' 14 (IntDescr 2)"
| "oxm_desc (Udp_src _) = OpenFlowBasic ''udp_src'' 15 (IntDescr 2)"
| "oxm_desc (Udp_dst _) = OpenFlowBasic ''udp_dst'' 16 (IntDescr 2)"
| "oxm_desc (Arp_spa _) = OpenFlowBasic ''arp_spa'' 22 IPv4Addr"

lemma oxm_desc_in_types: "oxm_desc x \<in> set oxm_types"
  by (cases x) (simp_all add: oxm_types_def)

lemma oxm_desc_name: "f_name (oxm_desc x) = fst (kw_of_oxm x)"
  by (cases x) (simp_all add: OpenFlowBasic_def)

lemma oxm_desc_plain: "plain_field (oxm_desc x)"
  by (cases x) (simp_all add: OpenFlowBasic_def plain_field_def oxm_class_def OFPXMC_OPENFLOW_BASIC_def
      OFPXXC_EXPERIMENTER_def)

text \<open>A match field with a value: an integer in the range of the field or an address as text.\<close>

definition oxm_ok :: "netaddr \<Rightarrow> oxm \<Rightarrow> bool" where
  "oxm_ok na x \<longleftrightarrow> (\<exists>v. user_repr na (f_type (oxm_desc x)) (snd (kw_of_oxm x)) v)"

definition wire_field :: "netaddr \<Rightarrow> oxm \<Rightarrow> match_field" where
  "wire_field na x =
     \<lparr>mf_desc = oxm_desc x, mf_uv = Plain_uv (snd (kw_of_oxm x)),
      mf_value = (case td_from_user na (f_type (oxm_desc x)) (snd (kw_of_oxm x)) of Inl _ \<Rightarrow> [] | Inr (b, _) \<Rightarrow> b),
      mf_mask = None\<rparr>"

definition has_oxm_types :: "ofp_env \<Rightarrow> bool" where
  "has_oxm_types env \<longleftrightarrow> (\<forall>f \<in> set oxm_types. field_ok (e_fields env) f)"

lemma wire_field_ok:
  assumes "has_oxm_types env" and "oxm_ok (e_na env) x"
  shows "mf_ok (e_na env) (e_fields env) (wire_field (e_na env) x)"
  using assms oxm_desc_in_types [of x]
  by (auto simp: has_oxm_types_def oxm_ok_def mf_ok_def wire_field_def uv_repr_def user_repr_def)

lemma wire_field_kv: "mf_kv (wire_field na x) = kwarg x"
  by (simp add: mf_kv_def wire_field_def kwarg_def oxm_desc_name)

lemma td_size_small: "td_size (f_type (oxm_desc x)) \<noteq> None \<and> the (td_size (f_type (oxm_desc x))) \<le> 6"
  by (cases x) (simp_all add: OpenFlowBasic_def)

lemma wire_field_length:
  assumes "oxm_ok na x"
  shows "length (mf_wire (wire_field na x)) \<le> 10"
proof -
  obtain v where "user_repr na (f_type (oxm_desc x)) (snd (kw_of_oxm x)) v" using assms by (auto simp: oxm_ok_def)
  then show ?thesis
    using td_size_small [of x] oxm_desc_plain [of x]
    by (auto simp: wire_field_def mf_wire_def field_bytes_length exp_hdr_of_def mask_bytes_def user_repr_def)
qed

section \<open>Construction sorts the fields\<close>

lemma insort_key_map: "insort_key f (g x) (map g xs) = map g (insort_key (\<lambda>y. f (g y)) x xs)"
  by (induction xs) simp_all

lemma sort_key_map: "sort_key f (map g xs) = map g (sort_key (\<lambda>y. f (g y)) xs)"
  by (induction xs) (simp_all add: insort_key_map)

definition field_order :: "match_field \<Rightarrow> int" where
  "field_order x = sort_num (f_num (mf_desc x))"

lemma ofp_match_fields:
  assumes "\<forall>x \<in> set xs. mf_ok na fs x \<and> (\<exists>u. mf_uv x = Plain_uv u)"
  shows "ofp_match na fs (map mf_kv xs) = Inr (map mf_kv (sort_key field_order xs))"
proof -
  have n: "res_map (\<lambda>(k, u). oxm_normalize_user na fs k u) (map mf_kv xs) = Inr (map mf_kv xs)"
  proof (rule res_map_Inr)
    fix x
    assume "x \<in> set xs"
    then obtain u where "mf_ok na fs x" "mf_uv x = Plain_uv u" using assms by blast
    then show "(case mf_kv x of (k, u) \<Rightarrow> oxm_normalize_user na fs k u) = Inr (mf_kv x)"
      using oxm_normalize_plain [of fs "mf_desc x" na u "mf_value x"]
      by (simp add: mf_kv_def mf_ok_def uv_repr_def)
  qed
  have f: "res_map (\<lambda>(k, u). oxm_from_user na fs k u) (map mf_kv xs) = Inr (map mf_wire_args xs)"
    using assms by (intro res_map_Inr) (simp add: mf_kv_def mf_from_user)
  have s: "sort_key (\<lambda>(n, v, m). sort_num n) (map mf_wire_args xs) =
      map mf_wire_args (sort_key field_order xs)"
    by (simp add: sort_key_map mf_wire_args_def field_order_def [abs_def])
  have t: "res_map (\<lambda>(n, v, m). oxm_to_user na fs n v m) (map mf_wire_args (sort_key field_order xs)) =
      Inr (map mf_kv (sort_key field_order xs))"
    using assms by (intro res_map_Inr) (auto simp: mf_wire_args_def intro!: mf_to_user)
  show ?thesis by (simp add: ofp_match_def n f s t)
qed

section \<open>A rule on the wire and back\<close>

definition rule_ok :: "ofp_env \<Rightarrow> flow_mod \<Rightarrow> bool" where
  "rule_ok env m \<longleftrightarrow>
     (\<forall>x \<in> set (fm_match m). oxm_ok (e_na env) x) \<and> length (fm_match m) \<le> 1000 \<and>
     fm_idle m < 65536 \<and> fm_hard m < 65536 \<and> fm_priority m < 65536 \<and> fm_buffer m < 4294967296 \<and>
     fm_out_port m < 4294967296 \<and> fm_out_group m < 4294967296 \<and>
     (fm_instructions m = [] \<or>
      (\<exists>as. fm_instructions m = [ApplyActions as] \<and> length as \<le> 1000 \<and>
         (\<forall>a \<in> set as. case a of Output p l \<Rightarrow> p < 4294967296 \<and> l < 65536)))"

lemma wire_action_ok:
  "(case a of Output p l \<Rightarrow> p < 4294967296 \<and> l < 65536) \<Longrightarrow>
   action_wire env (wire_action a) (action_bytes (wire_action a)) \<and> length (action_bytes (wire_action a)) = 16"
  using action_simple_roundtrip [of env "wire_action a"]
  by (cases a) (simp add: action_simple_def, simp add: action_bytes_def act_class_len_def pad_bytes_def)

lemma wire_actions_ok:
  "\<forall>a \<in> set as. case a of Output p l \<Rightarrow> p < 4294967296 \<and> l < 65536 \<Longrightarrow>
   \<exists>w. actions_wire env (map wire_action as) w \<and> length w = 16 * length as"
proof (induction as)
  case (Cons a as)
  then obtain w where "actions_wire env (map wire_action as) w" "length w = 16 * length as" by auto
  with Cons.prems wire_action_ok [of a env] show ?case
    by (intro exI [of _ "action_bytes (wire_action a) @ w"]) (auto intro: actions_wire_Cons)
qed (use actions_wire_Nil in auto)

lemma wire_instructions_ok:
  assumes "rule_ok env m"
  shows "\<exists>b. instructions_wire env (map wire_instruction (fm_instructions m)) b \<and> length b \<le> 16008"
proof (cases "fm_instructions m")
  case Nil
  then show ?thesis by (intro exI [of _ "[]"]) (simp add: instructions_wire_def parse_instructions_Nil)
next
  case (Cons i "is")
  then obtain as where as: "fm_instructions m = [ApplyActions as]" "length as \<le> 1000"
    "\<forall>a \<in> set as. case a of Output p l \<Rightarrow> p < 4294967296 \<and> l < 65536"
    using assms by (auto simp: rule_ok_def)
  then obtain w where w: "actions_wire env (map wire_action as) w" "length w = 16 * length as"
    using wire_actions_ok by blast
  let ?b = "be16 4 @ be16 (8 + length w) @ replicate 4 0 @ w"
  have "ins_wire env (InsActions 4 (map wire_action as)) ?b"
    using w as(2) by (intro ins_actions_roundtrip) simp_all
  then have "instructions_wire env [InsActions 4 (map wire_action as)] ?b"
    unfolding instructions_wire_def ins_wire_def
    using parse_instructions_Cons [of "int (length ?b)" env]
    by (auto simp: parse_instructions_Nil)
  then show ?thesis
    using as w(2) by (intro exI [of _ ?b]) (simp add: OFPIT_APPLY_ACTIONS_def)
qed

lemma concat_length_le: "(\<And>x. x \<in> set xs \<Longrightarrow> length (f x) \<le> k) \<Longrightarrow> length (concat (map f xs)) \<le> k * length xs"
  by (induction xs) (force simp: algebra_simps)+

text \<open>A message of version 1.3 as it is received: header, then dispatch.\<close>

definition received :: "ofp_env \<Rightarrow> (nat \<Rightarrow> (bytes \<Rightarrow> ofp_message run) option) \<Rightarrow> bytes \<Rightarrow> ofp_message option run" where
  "received env others buf =
     (case ofp_header buf of (ver, msg_type, msg_len, xid) \<Rightarrow>
        ofp_msg (\<lambda>v. if v = OFP_VERSION_1_3 then Some (msg_parser_13 env others) else None)
          ver msg_type msg_len buf)"

lemma msg_header_reads:
  assumes "t < 256" and "l < 65536" and "x < 4294967296"
  shows "ofp_header (msg_header t l x @ b) = (OFP_VERSION_1_3, t, l, x)"
  using assms by (simp add: ofp_header_def msg_header_def OFP_VERSION_1_3_def read_fields)
    (simp add: u8_at_def)

lemma received_flow_mod:
  assumes "l < 65536" and "xid < 4294967296"
    and "flow_mod_parser env l (msg_header OFPT_FLOW_MOD l xid @ b) = ret m"
    and "l = 8 + length b"
  shows "received env others (msg_header OFPT_FLOW_MOD l xid @ b) = ret (Some (MFlowMod m))"
proof -
  have h: "ofp_header (msg_header OFPT_FLOW_MOD l xid @ b) = (OFP_VERSION_1_3, OFPT_FLOW_MOD, l, xid)"
    using assms(1,2) by (intro msg_header_reads) (simp_all add: OFPT_FLOW_MOD_def)
  have p: "msg_parser_13 env others OFPT_FLOW_MOD l (msg_header OFPT_FLOW_MOD l xid @ b) = ret (MFlowMod m)"
    by (simp add: msg_parser_13_def assms(3))
  have n: "\<not> length (msg_header OFPT_FLOW_MOD l xid @ b) < l" using assms(4) by simp
  show ?thesis by (simp add: received_def h ofp_msg_def p n del: length_append) (simp add: ret_def n del: length_append)
qed

text \<open>
  C19. A rule of the firewall whose addresses convert and whose numbers fit reaches the switch as
  it was meant: the message is built and serialised, and read back it has the same timeouts,
  priority, ports, command and actions and the same match, its fields in the order of their types.
\<close>
theorem firewall_rule_on_wire:
  assumes "has_oxm_types env" and "rule_ok env m" and "xid < 4294967296"
  shows "\<exists>fm b. wire_flow_mod env m = Inr fm \<and> flow_mod_serialize env xid fm = Inr b \<and>
    received env others b = ret (Some (MFlowMod fm)) \<and>
    mset (fmd_match fm) = mset (map kwarg (fm_match m)) \<and>
    fmd_priority fm = fm_priority m \<and> fmd_idle_timeout fm = fm_idle m \<and>
    fmd_hard_timeout fm = fm_hard m \<and> fmd_command fm = wire_command (fm_command m) \<and>
    fmd_instructions fm = map wire_instruction (fm_instructions m)"
proof -
  let ?xs = "map (wire_field (e_na env)) (fm_match m)" and ?ys = "sort_key field_order (map (wire_field (e_na env)) (fm_match m))"
  have ok: "\<forall>x \<in> set ?xs. mf_ok (e_na env) (e_fields env) x \<and> (\<exists>u. mf_uv x = Plain_uv u)"
    using assms(1,2) wire_field_ok by (auto simp: rule_ok_def wire_field_def [of _ x for x])
  have kv: "map kwarg (fm_match m) = map mf_kv ?xs" by (simp add: wire_field_kv)
  have om: "ofp_match (e_na env) (e_fields env) (map kwarg (fm_match m)) = Inr (map mf_kv ?ys)"
    unfolding kv by (rule ofp_match_fields [OF ok])
  obtain fm where fm: "wire_flow_mod env m = Inr fm" "fmd_match fm = map mf_kv ?ys"
    "flow_mod_ok fm" "fmd_priority fm = fm_priority m" "fmd_idle_timeout fm = fm_idle m"
    "fmd_hard_timeout fm = fm_hard m" "fmd_command fm = wire_command (fm_command m)"
    "fmd_instructions fm = map wire_instruction (fm_instructions m)"
    using assms(2) by (auto simp: wire_flow_mod_def om flow_mod_ok_def rule_ok_def wire_command_def
        split: fm_command.split)
  obtain ib where ib: "instructions_wire env (fmd_instructions fm) ib" "length ib \<le> 16008"
    using wire_instructions_ok [OF assms(2)] fm(8) by auto
  have "length (mf_wire x) \<le> 10" if "x \<in> set ?ys" for x
    using that assms(2) wire_field_length by (auto simp: rule_ok_def)
  then have "length (concat (map mf_wire ?ys)) \<le> 10 * length ?ys" by (rule concat_length_le)
  then have "match_len ?ys \<le> 10004" using assms(2) by (simp add: match_len_def rule_ok_def)
  then have "length (match_bytes ?ys) \<le> 10016" by (simp add: match_bytes_length round_up_def)
  then have len: "48 + length (match_bytes ?ys) + length ib < 65536" using ib(2) by simp
  let ?b = "flow_mod_head fm @ match_bytes ?ys @ ib"
  have "\<forall>x \<in> set ?ys. mf_ok (e_na env) (e_fields env) x" using ok by simp
  note wire = flow_mod_wire [OF fm(3) this fm(2) ib(1) len assms(3)]
  have "received env others (msg_header OFPT_FLOW_MOD (8 + length ?b) xid @ ?b) = ret (Some (MFlowMod fm))"
    using len by (intro received_flow_mod [OF _ assms(3) wire(2)]) simp_all
  moreover have "mset (fmd_match fm) = mset (map kwarg (fm_match m))"
    by (simp only: fm(2) kv mset_map mset_sort)
  ultimately show ?thesis using fm wire(1) by blast
qed

text \<open>Converters for the witnesses: dotted quads and raw addresses.\<close>

definition text_only :: "(string \<Rightarrow> bytes res) \<Rightarrow> uval \<Rightarrow> bytes res" where
  "text_only f u = (case u of UInt _ \<Rightarrow> Inl TypeError | UText t \<Rightarrow> f t)"

definition sample_na :: netaddr where
  "sample_na =
     \<lparr>na_mac = \<lparr>addr_packed = text_only (mac_to_bin sample_ac), addr_fallback = None,
               addr_text = (\<lambda>b. Inr (mac_to_text sample_ac b))\<rparr>,
      na_ipv4 = \<lparr>addr_packed = text_only (ip_to_bin sample_ac), addr_fallback = None,
               addr_text = (\<lambda>b. Inr (ip_to_text sample_ac b))\<rparr>,
      na_ipv6 = \<lparr>addr_packed = (\<lambda>_. Inl TypeError), addr_fallback = None, addr_text = (\<lambda>_. Inl TypeError)\<rparr>\<rparr>"

definition sample_env :: ofp_env where
  "sample_env = \<lparr>e_na = sample_na, e_fields = oxm_types, nx_parse = (\<lambda>_. Inl StructError),
     nx_serialize = (\<lambda>_. Inl StructError)\<rparr>"

lemma sample_env_types: "has_oxm_types sample_env"
  by (simp add: has_oxm_types_def sample_env_def oxm_types_ok)

definition sample_rule :: flow_mod where
  "sample_rule = trust_rule [Eth_type 0x0800, Ipv4_src ''65.66.67.68'', Ip_proto 17, Udp_src 7] 3"

lemma sample_quad:
  "quad_bin ''65.66.67.68'' = Inr [65, 66, 67, 68]" "quad_text [65, 66, 67, 68] = ''65.66.67.68''"
  by code_simp+

lemma sample_rule_ok: "rule_ok sample_env sample_rule"
proof -
  have "oxm_ok sample_na (Ipv4_src ''65.66.67.68'')"
    unfolding oxm_ok_def
    by (rule exI [of _ "[65, 66, 67, 68]"]) (simp add: user_repr_def OpenFlowBasic_def text_to_bin_def
        sample_na_def text_only_def sample_ac_def sample_quad value_fits_def)
  moreover have "oxm_ok sample_na (Eth_type 0x0800)" "oxm_ok sample_na (Ip_proto 17)" "oxm_ok sample_na (Udp_src 7)"
    unfolding oxm_ok_def using user_repr_int [of 2 "0x0800"] user_repr_int [of 1 17] user_repr_int [of 2 7]
    by (auto simp: OpenFlowBasic_def)
  ultimately show ?thesis
    by (simp add: rule_ok_def sample_rule_def trust_rule_def flow_add_def flow_mod_default_def
        sample_env_def OFP_NO_BUFFER_def TRUST_FLOW_IDLE_TIMEOUT_def TRUST_FLOW_HARD_TIMEOUT_def
        TRUST_FLOW_PRIORITY_def OFPCML_MAX_def)
qed

theorem firewall_rule_on_wire_witness:
  "\<exists>fm b. wire_flow_mod sample_env sample_rule = Inr fm \<and> flow_mod_serialize sample_env 7 fm = Inr b \<and>
    received sample_env (\<lambda>_. None) b = ret (Some (MFlowMod fm)) \<and>
    mset (fmd_match fm) = mset (map kwarg (fm_match sample_rule)) \<and>
    fmd_priority fm = fm_priority sample_rule \<and> fmd_idle_timeout fm = fm_idle sample_rule \<and>
    fmd_hard_timeout fm = fm_hard sample_rule \<and> fmd_command fm = wire_command (fm_command sample_rule) \<and>
    fmd_instructions fm = map wire_instruction (fm_instructions sample_rule)"
  by (rule firewall_rule_on_wire [OF sample_env_types sample_rule_ok]) simp

section \<open>Messages that hang the parser\<close>

text \<open>
  C20. One flow modification with an instruction of a type the controller has no class for, sent
  by a switch, is parsed for ever: the loop over the instructions does not advance.
\<close>
theorem unknown_instruction_hangs:
  assumes "flow_mod_ok m" and "\<forall>x \<in> set xs. mf_ok (e_na env) (e_fields env) x"
    and "6 < ty" and "ty < 65536" and "xid < 4294967296"
    and "56 + length (match_bytes xs) + length rest < 65536"
  shows "received env others
    (msg_header OFPT_FLOW_MOD (52 + length (match_bytes xs) + length rest) xid @
       flow_mod_head m @ match_bytes xs @ be16 ty @ be16 8 @ rest) = None"
proof -
  let ?l = "52 + length (match_bytes xs) + length rest"
  let ?h = "msg_header OFPT_FLOW_MOD ?l xid" and ?i = "be16 ty @ be16 8 @ rest"
  let ?b = "?h @ flow_mod_head m @ match_bytes xs @ ?i"
  have h: "ofp_header ?b = (OFP_VERSION_1_3, OFPT_FLOW_MOD, ?l, xid)"
    using assms(5,6) by (intro msg_header_reads) (simp_all add: OFPT_FLOW_MOD_def)
  have ml: "match_len xs < 65536" using assms(6) round_up_ge [of 8 "match_len xs"] by (simp add: match_bytes_length)
  have d: "drop 48 ?b = match_bytes xs @ ?i" by simp
  note mp = match_parser_wire [OF assms(2) ml, of ?i]
  let ?off = "48 + round_up (match_len xs) 8"
  have di: "drop ?off ?b = ?i" by (simp add: match_bytes_length [symmetric])
  have "ins_parser env ?i = ret None" using assms(3,4) by (simp add: ins_parser_def Let_def)
  then have p: "parse_instructions env (int ?l - int ?off) (drop ?off ?b) = None"
    unfolding di by (intro parse_instructions_unknown) (simp_all add: match_bytes_length)
  have lb: "\<not> length ?b < 48" by simp
  have "flow_mod_parser env ?l ?b = None"
    unfolding flow_mod_parser_def d mp sum.case Let_def ofp_match_obj.simps p
    using lb by simp
  then have "msg_parser_13 env others OFPT_FLOW_MOD ?l ?b = None" by (simp add: msg_parser_13_def)
  then show ?thesis unfolding received_def h by (simp add: ofp_msg_def)
qed

definition plain_mod :: ofp_flow_mod where
  "plain_mod =
     \<lparr>fmd_cookie = 0, fmd_cookie_mask = 0, fmd_table_id = 0, fmd_command = 0, fmd_idle_timeout = 0,
      fmd_hard_timeout = 0, fmd_priority = 1, fmd_buffer_id = 0, fmd_out_port = 0, fmd_out_group = 0,
      fmd_flags = 0, fmd_match = [], fmd_instructions = []\<rparr>"

theorem unknown_instruction_hangs_witness:
  "received sample_env (\<lambda>_. None)
     (msg_header OFPT_FLOW_MOD (52 + length (match_bytes []) + length [0, 0, 0, 0 :: byte]) 1 @
        flow_mod_head plain_mod @ match_bytes [] @ be16 65535 @ be16 8 @ [0, 0, 0, 0]) = None"
  by (rule unknown_instruction_hangs)
    (simp_all add: flow_mod_ok_def plain_mod_def match_bytes_length match_len_def round_up_def)

section \<open>Frames in packet-out and packet-in\<close>

definition packet_out_head :: "ofp_packet_out \<Rightarrow> nat \<Rightarrow> bytes" where
  "packet_out_head p n = be32 (pko_buffer_id p) @ be32 (pko_in_port p) @ be16 n @ replicate 6 0"

lemma packet_out_fixed_ok:
  "pko_buffer_id p < 4294967296 \<Longrightarrow> pko_in_port p < 4294967296 \<Longrightarrow> n < 65536 \<Longrightarrow>
   packet_out_fixed p n = Inr (packet_out_head p n)"
  by (simp add: packet_out_fixed_def packet_out_head_def pad_bytes_def)

text \<open>
  A packet-out with at least one action carries the actions and then the whole frame.
\<close>
theorem packet_out_carries_frame:
  assumes "actions_wire env (pko_actions p) w" and "pko_actions p \<noteq> []" and "pko_data p = Some d"
    and "pko_buffer_id p = 0xffffffff" and "pko_in_port p < 4294967296" and "xid < 4294967296"
    and "24 + length w + length d < 65536"
  shows "packet_out_serialize env xid p =
    Inr (msg_header OFPT_PACKET_OUT (24 + length w + length d) xid @ packet_out_head p (length w) @ w @ d)"
proof -
  let ?z = "\<lambda>n. replicate n (0 :: byte)"
  have put: "put_actions env (pko_actions p) 24 (?z 8) = Inr (24 + length w, ?z 8 @ ?z 16 @ w)"
    using put_actions_behind [OF assms(1,2), of "?z 8" 16] by simp
  have hd: "packet_out_fixed p (length w) = Inr (packet_out_head p (length w))"
    using assms by (intro packet_out_fixed_ok) simp_all
  have p8: "pack_at 8 (packet_out_head p (length w)) (?z 8 @ ?z 16 @ w @ d) =
      ?z 8 @ packet_out_head p (length w) @ w @ d"
    by (rule pack_at_mid) (simp_all add: packet_out_head_def)
  have "packet_out_serialize env xid p =
      put_header OFPT_PACKET_OUT xid (?z 8 @ packet_out_head p (length w) @ w @ d)"
    using assms(3,4) p8 by (simp add: packet_out_serialize_def put hd)
  then show ?thesis
    using put_header_ok [of "?z 8" OFPT_PACKET_OUT "packet_out_head p (length w) @ w @ d" xid] assms(6,7)
    by (simp add: packet_out_head_def OFPT_PACKET_OUT_def add.assoc)
qed

definition sample_out :: "ofp_action list \<Rightarrow> ofp_packet_out" where
  "sample_out as = \<lparr>pko_buffer_id = 0xffffffff, pko_in_port = 1, pko_actions = as,
     pko_data = Some (map word_of_nat [0..<20])\<rparr>"

lemma sample_actions_wire:
  "actions_wire sample_env [ActOutput 2 0] (action_bytes (ActOutput 2 0) @ [])"
  by (intro actions_wire_Cons actions_wire_Nil action_simple_roundtrip) (simp_all add: action_simple_def)

theorem packet_out_carries_frame_witness:
  "packet_out_serialize sample_env 5 (sample_out [ActOutput 2 0]) =
    Inr (msg_header OFPT_PACKET_OUT (24 + length (action_bytes (ActOutput 2 0) @ []) +
            length (map word_of_nat [0..<20] :: bytes)) 5 @
         packet_out_head (sample_out [ActOutput 2 0]) (length (action_bytes (ActOutput 2 0) @ [])) @
         (action_bytes (ActOutput 2 0) @ []) @ map word_of_nat [0..<20])"
  by (rule packet_out_carries_frame)
    (use sample_actions_wire in \<open>simp_all add: sample_out_def action_bytes_def act_class_len_def pad_bytes_def\<close>)

text \<open>
  A packet-out without actions overwrites the first sixteen bytes of the frame: the frame is
  appended to a buffer that ends after the header, where the fixed fields are packed afterwards.
\<close>
theorem packet_out_without_actions_overwrites:
  assumes "pko_actions p = []" and "pko_data p = Some d" and "16 \<le> length d"
    and "pko_buffer_id p = 0xffffffff" and "pko_in_port p < 4294967296" and "xid < 4294967296"
    and "8 + length d < 65536"
  shows "packet_out_serialize env xid p =
    Inr (msg_header OFPT_PACKET_OUT (8 + length d) xid @ packet_out_head p 0 @ drop 16 d)"
proof -
  let ?z = "replicate 8 (0 :: byte)"
  have hd: "packet_out_fixed p 0 = Inr (packet_out_head p 0)"
    using assms by (intro packet_out_fixed_ok) simp_all
  have "pack_at 8 (packet_out_head p 0) (?z @ take 16 d @ drop 16 d) = ?z @ packet_out_head p 0 @ drop 16 d"
    using assms(3) by (intro pack_at_mid) (simp_all add: packet_out_head_def)
  then have p8: "pack_at 8 (packet_out_head p 0) (?z @ d) = ?z @ packet_out_head p 0 @ drop 16 d" by simp
  have "packet_out_serialize env xid p = put_header OFPT_PACKET_OUT xid (?z @ packet_out_head p 0 @ drop 16 d)"
    using assms(1,2,4) p8 by (simp add: packet_out_serialize_def hd)
  then show ?thesis
    using put_header_ok [of ?z OFPT_PACKET_OUT "packet_out_head p 0 @ drop 16 d" xid] assms(3,6,7)
    by (simp add: packet_out_head_def OFPT_PACKET_OUT_def)
qed

theorem packet_out_without_actions_overwrites_witness:
  "packet_out_serialize sample_env 5 (sample_out []) =
    Inr (msg_header OFPT_PACKET_OUT (8 + length (map word_of_nat [0..<20] :: bytes)) 5 @
         packet_out_head (sample_out []) 0 @ drop 16 (map word_of_nat [0..<20]))"
  by (rule packet_out_without_actions_overwrites) (simp_all add: sample_out_def)

text \<open>
  A packet-in laid out as the protocol has it (header, fixed fields, match, two bytes of
  padding, frame, any padding behind) delivers the frame and the match of the switch.
\<close>
theorem packet_in_delivers_frame:
  assumes "\<forall>x \<in> set xs. mf_ok (e_na env) (e_fields env) x" and "match_len xs < 65536"
    and "pki_buffer_id p < 4294967296" and "pki_total_len p = length (pki_data p)" and "pki_reason p < 256"
    and "pki_table_id p < 256" and "pki_cookie p < 18446744073709551616"
    and "pki_match p = map mf_kv xs" and "length hdr = 8" and "length (pki_data p) < 65536"
  shows "packet_in_parser env
    (hdr @ be32 (pki_buffer_id p) @ be16 (pki_total_len p) @ [word_of_nat (pki_reason p), word_of_nat (pki_table_id p)] @
       be64 (pki_cookie p) @ match_bytes xs @ [0, 0] @ pki_data p @ padding) = Inr p"
proof -
  let ?b = "hdr @ be32 (pki_buffer_id p) @ be16 (pki_total_len p) @
    [word_of_nat (pki_reason p), word_of_nat (pki_table_id p)] @
    be64 (pki_cookie p) @ match_bytes xs @ [0, 0] @ pki_data p @ padding"
  have d: "drop 24 ?b = match_bytes xs @ [0, 0] @ pki_data p @ padding" using assms(9) by simp
  note mp = match_parser_wire [OF assms(1,2), of "[0, 0] @ pki_data p @ padding"]
  have dd: "drop (24 + round_up (match_len xs) 8 + 2) ?b = pki_data p @ padding"
  proof -
    have "drop (24 + k) ?b = drop k (drop 24 ?b)" for k by (simp only: drop_drop add.commute)
    then show ?thesis
      unfolding add.assoc by (simp only: d) (simp add: match_bytes_length [symmetric])
  qed
  have lb: "\<not> length ?b < 24" using assms(9) by simp
  have reads: "u32_at ?b 8 = pki_buffer_id p" "u16_at ?b 12 = pki_total_len p" "u8_at ?b 14 = pki_reason p"
    "u8_at ?b 15 = pki_table_id p" "u64_at ?b 16 = pki_cookie p"
    using assms by (simp_all add: read_fields)
  show ?thesis
    unfolding packet_in_parser_def d mp sum.case Let_def ofp_match_obj.simps dd reads
    using lb assms(4,8) by simp
qed

definition sample_in :: ofp_packet_in where
  "sample_in = \<lparr>pki_buffer_id = 0, pki_total_len = 3, pki_reason = 1, pki_table_id = 0, pki_cookie = 9,
     pki_match = [(''in_port'', Plain_uv (UInt 3))], pki_data = [7, 8, 9]\<rparr>"

lemma sample_in_field: "mf_ok sample_na oxm_types (wire_field sample_na (In_port 3))"
proof -
  have "oxm_ok sample_na (In_port 3)"
    unfolding oxm_ok_def using user_repr_int [of 4 3] by (auto simp: OpenFlowBasic_def)
  then show ?thesis
    using wire_field_ok [OF sample_env_types, of "In_port 3"] by (simp add: sample_env_def)
qed

theorem packet_in_delivers_frame_witness:
  "packet_in_parser sample_env
    (replicate 8 0 @ be32 (pki_buffer_id sample_in) @ be16 (pki_total_len sample_in) @
       [word_of_nat (pki_reason sample_in), word_of_nat (pki_table_id sample_in)] @
       be64 (pki_cookie sample_in) @ match_bytes [wire_field sample_na (In_port 3)] @ [0, 0] @
       pki_data sample_in @ [0, 0]) = Inr sample_in"
proof (rule packet_in_delivers_frame)
  have "oxm_ok sample_na (In_port 3)"
    unfolding oxm_ok_def using user_repr_int [of 4 3] by (auto simp: OpenFlowBasic_def)
  from wire_field_length [OF this] show "match_len [wire_field sample_na (In_port 3)] < 65536"
    by (simp add: match_len_def)
qed (simp_all add: sample_in_def sample_env_def sample_in_field wire_field_kv kwarg_def)

end
