(* ===== verification/Llc.thy ===== *)
theory Llc
  imports Wire Packet_Parse
begin

unbundle bit_operations_syntax

text \<open>
  The 802.2 header of \<open>ryu/lib/packet/llc.py\<close> with its three control formats.  A control class
  is asked for the bytes after the two service access points; its asserts are
  \<open>AssertionError\<close>, which \<open>packet.Packet\<close> does not catch.
\<close>

section \<open>Control formats\<close>

text \<open>I: send number, poll bit, receive number.  S: function, poll bit, receive number.
  U: modifier, poll bit, modifier.\<close>

datatype control =
    ControlFormatI nat nat nat
  | ControlFormatS nat nat nat
  | ControlFormatU nat nat nat

definition control_i_parser :: "bytes \<Rightarrow> (control \<times> bytes) res" where
  "control_i_parser buf =
     (if length buf < 2 then Inl AssertionError
      else let control = u16_at buf 0 in
        if drop_bit 8 control AND 1 \<noteq> 0 then Inl AssertionError
        else Inr (ControlFormatI (drop_bit 9 control AND 127) (drop_bit 8 control AND 1)
                    (drop_bit 1 control AND 127), drop 2 buf))"

definition control_s_parser :: "bytes \<Rightarrow> (control \<times> bytes) res" where
  "control_s_parser buf =
     (if length buf < 2 then Inl AssertionError
      else let control = u16_at buf 0 in
        if drop_bit 8 control AND 3 \<noteq> 1 then Inl AssertionError
        else Inr (ControlFormatS (drop_bit 10 control AND 3) (drop_bit 8 control AND 1)
                    (drop_bit 1 control AND 127), drop 2 buf))"

definition control_u_parser :: "bytes \<Rightarrow> (control \<times> bytes) res" where
  "control_u_parser buf =
     (if length buf < 1 then Inl AssertionError
      else let control = u8_at buf 0 in
        if control AND 3 \<noteq> 3 then Inl AssertionError
        else Inr (ControlFormatU (drop_bit 2 control AND 3) (drop_bit 4 control AND 1)
                    (drop_bit 5 control AND 7), drop 1 buf))"

definition control_i_serialize :: "nat \<Rightarrow> nat \<Rightarrow> nat \<Rightarrow> bytes res" where
  "control_i_serialize ns pf nr =
     pack_H (push_bit 9 ns OR push_bit 8 0 OR push_bit 1 nr OR pf)"

definition control_s_serialize :: "nat \<Rightarrow> nat \<Rightarrow> nat \<Rightarrow> bytes res" where
  "control_s_serialize sf pf nr =
     pack_H (push_bit 10 sf OR push_bit 8 1 OR push_bit 1 nr OR pf)"

definition control_u_serialize :: "nat \<Rightarrow> nat \<Rightarrow> nat \<Rightarrow> bytes res" where
  "control_u_serialize m1 pf m2 =
     pack_B (push_bit 5 m2 OR push_bit 4 pf OR push_bit 2 m1 OR 3)"

fun control_serialize :: "control \<Rightarrow> bytes res" where
  "control_serialize (ControlFormatI ns pf nr) = control_i_serialize ns pf nr"
| "control_serialize (ControlFormatS sf pf nr) = control_s_serialize sf pf nr"
| "control_serialize (ControlFormatU m1 pf m2) = control_u_serialize m1 pf m2"

text \<open>\<open>_get_control\<close>: the key is 0, 1 or 3, and each is registered.\<close>

definition get_control :: "nat \<Rightarrow> bytes \<Rightarrow> (control \<times> bytes) res" where
  "get_control b =
     (if b AND 1 = 0 then control_i_parser
      else if b AND 3 = 1 then control_s_parser
      else control_u_parser)"

section \<open>The header\<close>

record llc =
  dsap_addr :: nat
  ssap_addr :: nat
  llc_control :: control

definition llc_parser :: "bytes \<Rightarrow> (llc \<times> bytes) res" where
  "llc_parser buf =
     (if length buf < 2 then Inl AssertionError
      else if length buf < 3 then Inl StructError
      else
        case get_control (u8_at buf 2) (drop 2 buf) of
          Inl e \<Rightarrow> Inl e
        | Inr (c, information) \<Rightarrow>
            Inr (\<lparr>dsap_addr = u8_at buf 0, ssap_addr = u8_at buf 1, llc_control = c\<rparr>, information))"

definition llc_serialize :: "llc \<Rightarrow> bytes res" where
  "llc_serialize h =
     pack_all [pack_B (dsap_addr h), pack_B (ssap_addr h), control_serialize (llc_control h)]"

definition SAP_BPDU :: nat where "SAP_BPDU = 0x42"

text \<open>The header of a bridge protocol data unit.\<close>

definition llc_bpdu :: llc where
  "llc_bpdu = \<lparr>dsap_addr = SAP_BPDU, ssap_addr = SAP_BPDU, llc_control = ControlFormatU 0 0 0\<rparr>"

section \<open>Round trips\<close>

lemma or_add_low: "b < 2 ^ n \<Longrightarrow> (2 ^ n dvd a) \<Longrightarrow> a OR b = a + (b :: nat)"
  using or_disjoint [of b n "a div 2 ^ n"] by (simp add: push_bit_eq_mult)

lemma control_u_roundtrip:
  assumes "m1 < 4" and "pf < 2" and "m2 < 8"
  shows "control_u_serialize m1 pf m2 = Inr [word_of_nat (m2 * 32 + pf * 16 + m1 * 4 + 3)]"
    and "control_u_parser (word_of_nat (m2 * 32 + pf * 16 + m1 * 4 + 3) # rest) =
      Inr (ControlFormatU m1 pf m2, rest)"
proof -
  have "push_bit 5 m2 OR push_bit 4 pf OR push_bit 2 m1 OR 3 = m2 * 32 + pf * 16 + m1 * 4 + 3"
    using assms by (simp add: or_disjoint or_add_low [where n = 4] push_bit_eq_mult or_add_low [where n = 2]
      or_add_low [where n = 5] mult.commute)
  then show "control_u_serialize m1 pf m2 = Inr [word_of_nat (m2 * 32 + pf * 16 + m1 * 4 + 3)]"
    using assms by (simp add: control_u_serialize_def pack_B_def)
  let ?n = "m2 * 32 + pf * 16 + m1 * 4 + 3"
  have d: "?n div 4 = m2 * 8 + pf * 4 + m1" "?n div 16 = m2 * 2 + pf" "?n div 32 = m2"
    by (rule div_nat_eqI; use assms in simp)+
  have "m1 mod 4 = m1" "pf mod 2 = pf" "m2 mod 8 = m2" using assms by simp_all
  then have m: "(m2 * 8 + pf * 4 + m1) mod 4 = m1" "(m2 * 2 + pf) mod 2 = pf" "?n mod 4 = 3"
    using mod_mult_self3 [of "m2 * 2 + pf" 4 m1] mod_mult_self3 [of "m2 * 8 + pf * 4 + m1" 4 3]
    by (simp_all add: algebra_simps)
  have "?n AND 3 = 3" "drop_bit 2 ?n AND 3 = m1" "drop_bit 4 ?n AND 1 = pf" "drop_bit 5 ?n AND 7 = m2"
    using and_mask [of ?n 2] and_mask [of "?n div 4" 2] and_mask [of "?n div 16" 1] and_mask [of "?n div 32" 3]
      assms by (simp_all only: drop_bit_eq_div) (simp_all add: d m)
  moreover have "u8_at (word_of_nat ?n # rest) 0 = ?n" using assms by (intro u8_at_byte) simp
  ultimately show "control_u_parser (word_of_nat ?n # rest) = Inr (ControlFormatU m1 pf m2, rest)"
    by (simp add: control_u_parser_def Let_def del: of_nat_add of_nat_mult)
qed

lemma llc_bpdu_roundtrip:
  "llc_serialize llc_bpdu = Inr [66, 66, 3]" "llc_parser (66 # 66 # 3 # rest) = Inr (llc_bpdu, rest)"
  by (simp_all add: llc_serialize_def llc_bpdu_def SAP_BPDU_def control_u_serialize_def pack_B_def
      llc_parser_def get_control_def control_u_parser_def u8_at_def)

text \<open>
  The poll bit of the I and S formats is written to the last bit of the second byte and read
  from the first: it is read as the constant type bit of the format.
\<close>

lemma control_i_pf_lost:
  "control_i_parser b = Inr (ControlFormatI ns pf nr, rest) \<Longrightarrow> pf = 0"
  by (auto simp: control_i_parser_def Let_def split: if_splits)

lemma control_s_pf_lost:
  assumes "control_s_parser b = Inr (ControlFormatS sf pf nr, rest)"
  shows "pf = 1"
proof -
  have "drop_bit 8 (u16_at b 0) AND 3 = 1" and pf: "pf = drop_bit 8 (u16_at b 0) AND 1"
    using assms by (auto simp: control_s_parser_def Let_def split: if_splits)
  then have "drop_bit 8 (u16_at b 0) mod 4 = 1" using and_mask [of "drop_bit 8 (u16_at b 0)" 2] by simp
  then show ?thesis by (simp add: pf and_masks) presburger
qed

end
