(* ===== verification/Bpdu.thy ===== *)
theory Bpdu
  imports Llc
begin

unbundle bit_operations_syntax

text \<open>
  Bridge protocol data units (\<open>ryu/lib/packet/bpdu.py\<close>): the bridge, port and timer encodings,
  the three classes with their \<open>check_parameters\<close>, and \<open>bpdu.parser\<close>, which picks the class by
  version and type.  A timer is a float that is a multiple of 1/256 when it comes from the wire,
  which a rational represents exactly.
\<close>

section \<open>Identifiers and timers\<close>

definition be_nat :: "bytes \<Rightarrow> nat" where
  "be_nat b = foldl (\<lambda>n x. n * 256 + unat x) 0 b"

definition be48 :: "nat \<Rightarrow> bytes" where
  "be48 n = map (\<lambda>i. word_of_nat (drop_bit (8 * i) n AND 255)) [5, 4, 3, 2, 1, 0]"

definition encode_bridge_id :: "addrconv \<Rightarrow> nat \<Rightarrow> nat \<Rightarrow> string \<Rightarrow> nat res" where
  "encode_bridge_id ac priority ext mac_address =
     (case mac_to_bin ac mac_address of
        Inl e \<Rightarrow> Inl e
      | Inr b \<Rightarrow> Inr (push_bit 48 (priority + ext) + be_nat b))"

definition decode_bridge_id :: "addrconv \<Rightarrow> nat \<Rightarrow> nat \<times> nat \<times> string" where
  "decode_bridge_id ac bridge_id =
     (drop_bit 48 bridge_id AND 0xf000, drop_bit 48 bridge_id AND 0xfff,
      mac_to_text ac (be48 (bridge_id AND 0xffffffffffff)))"

definition encode_port_id :: "nat \<Rightarrow> nat \<Rightarrow> nat" where
  "encode_port_id priority port_number = push_bit 8 priority + port_number"

definition decode_port_id :: "nat \<Rightarrow> nat \<times> nat" where
  "decode_port_id port_id = (drop_bit 8 port_id AND 0xf0, port_id AND 0xfff)"

definition decode_timer :: "nat \<Rightarrow> rat" where
  "decode_timer timer = of_nat timer / 256"

definition encode_timer :: "rat \<Rightarrow> int" where
  "encode_timer timer = py_trunc timer * 256"

definition pack_H_int :: "int \<Rightarrow> bytes res" where
  "pack_H_int i = (if i < 0 then Inl StructError else pack_H (nat i))"

section \<open>The classes\<close>

record config_bpdu =
  cb_flags :: nat
  root_priority :: nat
  root_system_id_extension :: nat
  root_mac_address :: string
  root_path_cost :: nat
  bridge_priority :: nat
  bridge_system_id_extension :: nat
  bridge_mac_address :: string
  port_priority :: nat
  port_number :: nat
  message_age :: rat
  max_age :: rat
  hello_time :: rat
  forward_delay :: rat

datatype bpdu =
    ConfigurationBPDUs config_bpdu
  | TopologyChangeNotificationBPDUs
  | RstBPDUs config_bpdu

definition timer_ok :: "rat \<Rightarrow> bool" where
  "timer_ok t \<longleftrightarrow> of_int \<lfloor>t * 256\<rfloor> = t * 256"

text \<open>\<open>check_parameters\<close> of the two classes: only the first looks at the flags.\<close>

definition rst_check_parameters :: "config_bpdu \<Rightarrow> bool" where
  "rst_check_parameters b \<longleftrightarrow>
     root_priority b mod 4096 = 0 \<and> bridge_priority b mod 4096 = 0 \<and> port_priority b mod 16 = 0 \<and>
     timer_ok (message_age b) \<and> timer_ok (max_age b) \<and> timer_ok (hello_time b) \<and>
     timer_ok (forward_delay b)"

definition check_parameters :: "config_bpdu \<Rightarrow> bool" where
  "check_parameters b \<longleftrightarrow> drop_bit 1 (cb_flags b) AND 63 = 0 \<and> rst_check_parameters b"

definition unpack_config :: "addrconv \<Rightarrow> bytes \<Rightarrow> config_bpdu" where
  "unpack_config ac buf =
     (let (root_prio, root_ext, root_mac) = decode_bridge_id ac (u64_at buf 1);
          (br_prio, br_ext, br_mac) = decode_bridge_id ac (u64_at buf 13);
          (port_prio, port_no) = decode_port_id (u16_at buf 21)
      in \<lparr>cb_flags = u8_at buf 0, root_priority = root_prio, root_system_id_extension = root_ext,
          root_mac_address = root_mac, root_path_cost = u32_at buf 9,
          bridge_priority = br_prio, bridge_system_id_extension = br_ext,
          bridge_mac_address = br_mac, port_priority = port_prio, port_number = port_no,
          message_age = decode_timer (u16_at buf 23), max_age = decode_timer (u16_at buf 25),
          hello_time = decode_timer (u16_at buf 27), forward_delay = decode_timer (u16_at buf 29)\<rparr>)"

definition config_parser :: "addrconv \<Rightarrow> bytes \<Rightarrow> (config_bpdu \<times> bytes) res" where
  "config_parser ac buf =
     (if length buf < 31 then Inl StructError
      else let b = unpack_config ac buf in
        if check_parameters b then Inr (b, drop 31 buf) else Inl AssertionError)"

text \<open>The rapid version: the same fields, then a length byte that has to be zero.\<close>

definition rst_parser :: "addrconv \<Rightarrow> bytes \<Rightarrow> (config_bpdu \<times> bytes) res" where
  "rst_parser ac buf =
     (if length buf < 31 then Inl StructError
      else let b = unpack_config ac buf in
        if \<not> rst_check_parameters b then Inl AssertionError
        else if length buf < 32 then Inl StructError
        else if u8_at buf 31 \<noteq> 0 then Inl AssertionError
        else Inr (b, drop 32 buf))"

text \<open>A notification drops the header length once more from what follows the header.\<close>

definition tcn_parser :: "bytes \<Rightarrow> bytes" where
  "tcn_parser buf = drop 4 buf"

text \<open>\<open>bpdu.parser\<close>: no object for an unknown version or type, whose bytes are returned.\<close>

definition bpdu_parser :: "addrconv \<Rightarrow> bytes \<Rightarrow> (bpdu option \<times> bytes) res" where
  "bpdu_parser ac buf =
     (if length buf < 4 then Inl AssertionError
      else if u16_at buf 0 \<noteq> 0 then Inl AssertionError
      else let version_id = u8_at buf 2; bpdu_type = u8_at buf 3 in
        if version_id = 0 \<and> bpdu_type = 0 then
          (if length buf < 35 then Inl AssertionError
           else map_sum id (\<lambda>(b, rest). (Some (ConfigurationBPDUs b), rest)) (config_parser ac (drop 4 buf)))
        else if version_id = 0 \<and> bpdu_type = 128 then
          Inr (Some TopologyChangeNotificationBPDUs, tcn_parser (drop 4 buf))
        else if version_id = 2 \<and> bpdu_type = 2 then
          (if length buf < 5 then Inl AssertionError
           else map_sum id (\<lambda>(b, rest). (Some (RstBPDUs b), rest)) (rst_parser ac (drop 4 buf)))
        else Inr (None, buf))"

definition bpdu_header :: "nat \<Rightarrow> nat \<Rightarrow> bytes res" where
  "bpdu_header version_id bpdu_type = pack_all [pack_H 0, pack_B version_id, pack_B bpdu_type]"

definition config_fields :: "addrconv \<Rightarrow> config_bpdu \<Rightarrow> bytes res" where
  "config_fields ac b =
     (case encode_bridge_id ac (root_priority b) (root_system_id_extension b) (root_mac_address b) of
        Inl e \<Rightarrow> Inl e
      | Inr root_id \<Rightarrow>
          (case encode_bridge_id ac (bridge_priority b) (bridge_system_id_extension b) (bridge_mac_address b) of
             Inl e \<Rightarrow> Inl e
           | Inr bridge_id \<Rightarrow>
               pack_all [pack_B (cb_flags b), pack_Q root_id, pack_I (root_path_cost b), pack_Q bridge_id,
                 pack_H (encode_port_id (port_priority b) (port_number b)),
                 pack_H_int (encode_timer (message_age b)), pack_H_int (encode_timer (max_age b)),
                 pack_H_int (encode_timer (hello_time b)), pack_H_int (encode_timer (forward_delay b))]))"

fun bpdu_serialize :: "addrconv \<Rightarrow> bpdu \<Rightarrow> bytes res" where
  "bpdu_serialize ac (ConfigurationBPDUs b) = pack_all [bpdu_header 0 0, config_fields ac b]"
| "bpdu_serialize ac TopologyChangeNotificationBPDUs = bpdu_header 0 128"
| "bpdu_serialize ac (RstBPDUs b) = pack_all [bpdu_header 2 2, config_fields ac b, pack_B 0]"

section \<open>Identifiers are read back\<close>

lemma and_shifted_mask: "(a :: nat) AND push_bit k m = push_bit k (drop_bit k a AND m)"
  by (rule bit_eqI) (auto simp: bit_and_iff bit_push_bit_iff bit_drop_bit_eq)

fun be_bytes :: "nat \<Rightarrow> nat \<Rightarrow> bytes" where
  "be_bytes 0 n = []"
| "be_bytes (Suc k) n = be_bytes k (n div 256) @ [word_of_nat n]"

lemma be_nat_snoc: "be_nat (b @ [x]) = be_nat b * 256 + unat x"
  by (simp add: be_nat_def)

lemma be_nat_be_bytes: "be_nat (be_bytes k n) = n mod 256 ^ k"
proof (induction k arbitrary: n)
  case 0
  then show ?case by (simp add: be_nat_def)
next
  case (Suc k)
  have "n mod (256 * 256 ^ k) = 256 * (n div 256 mod 256 ^ k) + n mod 256" by (rule mod_mult2_eq)
  then show ?case by (simp add: be_nat_snoc Suc unat_byte)
qed

lemma be_nat_less: "be_nat b < 256 ^ length b"
proof (induction b rule: rev_induct)
  case Nil
  then show ?case by (simp add: be_nat_def)
next
  case (snoc x b)
  have "unat x < 256" by (rule unat_byte_less)
  moreover have "be_nat b + 1 \<le> 256 ^ length b" using snoc by simp
  ultimately show ?case by (simp add: be_nat_snoc)
qed

lemma be_bytes_be_nat: "be_bytes (length b) (be_nat b) = b"
proof (induction b rule: rev_induct)
  case Nil
  then show ?case by simp
next
  case (snoc x b)
  have x: "unat x < 256" by (rule unat_byte_less)
  then have "(be_nat b * 256 + unat x) div 256 = be_nat b" by simp
  moreover have "word_of_nat (be_nat b * 256 + unat x) = x"
    by (rule word_unat_eq_iff [THEN iffD2]) (simp only: unat_byte, simp add: x)
  ultimately show ?case using snoc by (simp add: be_nat_snoc del: of_nat_add of_nat_mult)
qed

lemma byte_of_low: "(word_of_nat (n AND 255) :: byte) = word_of_nat n"
  by (rule word_unat_eq_iff [THEN iffD2]) (simp only: unat_byte, simp add: and_masks)

lemma be48_bytes: "be48 n = be_bytes 6 n"
proof -
  have six: "be_bytes 6 n = be_bytes (Suc (Suc (Suc (Suc (Suc (Suc 0)))))) n"
    by (rule arg_cong [where f = "\<lambda>k. be_bytes k n"]) simp
  have div: "n div 256 div 256 = n div 65536" "n div 65536 div 256 = n div 16777216"
    "n div 16777216 div 256 = n div 4294967296" "n div 4294967296 div 256 = n div 1099511627776"
    by (simp_all add: div_mult2_eq [symmetric])
  show ?thesis
    unfolding six be48_def by (simp only: be_bytes.simps div byte_of_low list.map append.simps) (simp add: drop_bit_eq_div)
qed

definition bridge_ident_ok :: "addrconv \<Rightarrow> nat \<Rightarrow> nat \<Rightarrow> string \<Rightarrow> bool" where
  "bridge_ident_ok ac priority ext mac \<longleftrightarrow>
     priority < 65536 \<and> 4096 dvd priority \<and> ext < 4096 \<and> (\<exists>b. mac_text_of ac mac b)"

lemma decode_bridge_id_value:
  assumes "p < 65536" and "4096 dvd p" and "e < 4096" and "m < 281474976710656"
  shows "decode_bridge_id ac (push_bit 48 (p + e) + m) = (p, e, mac_to_text ac (be48 m))"
proof -
  obtain k where p: "p = k * 4096" and k: "k < 16" using assms(1,2) by (auto elim!: dvdE)
  let ?v = "push_bit 48 (p + e) + m"
  have hi: "drop_bit 48 ?v = p + e" and lo: "?v AND 0xffffffffffff = m"
    using assms(4) and_mask [of ?v 48] mod_mult_self3 [of "p + e" 281474976710656 m]
    by (simp_all only: push_bit_eq_mult drop_bit_eq_div) (simp_all add: algebra_simps)
  have "(p + e) AND 0xf000 = push_bit 12 (drop_bit 12 (p + e) AND 15)"
    using and_shifted_mask [of "p + e" 12 15] by simp
  also have "drop_bit 12 (p + e) = k" using assms(3) by (simp add: p drop_bit_eq_div)
  finally have "(p + e) AND 0xf000 = p" using k by (simp add: p and_masks push_bit_eq_mult)
  moreover have "(p + e) AND 0xfff = e" using assms(3) by (simp add: p and_masks)
  ultimately show ?thesis by (simp add: decode_bridge_id_def hi lo)
qed

lemma bridge_id_roundtrip:
  assumes "bridge_ident_ok ac p e mac"
  obtains v where "encode_bridge_id ac p e mac = Inr v" "v < 18446744073709551616"
    "decode_bridge_id ac v = (p, e, mac)"
proof -
  from assms obtain b where ok: "p < 65536" "4096 dvd p" "e < 4096" and b: "mac_text_of ac mac b"
    by (auto simp: bridge_ident_ok_def)
  have len: "length b = 6" and bin: "mac_to_bin ac mac = Inr b" and text_of: "mac_to_text ac b = mac"
    using b by (simp_all add: mac_text_of_def)
  have m: "be_nat b < 281474976710656" using be_nat_less [of b] by (simp add: len)
  have "p + e < 65536" using ok by (auto elim!: dvdE)
  then have "push_bit 48 (p + e) + be_nat b < 18446744073709551616"
    using m by (simp add: push_bit_eq_mult)
  moreover have "be48 (be_nat b) = b" using be_bytes_be_nat [of b] by (simp add: be48_bytes len)
  ultimately show thesis
    using decode_bridge_id_value [OF ok m, of ac] by (intro that) (simp_all add: encode_bridge_id_def bin text_of)
qed

definition port_ident_ok :: "nat \<Rightarrow> nat \<Rightarrow> bool" where
  "port_ident_ok p n \<longleftrightarrow> p < 256 \<and> 16 dvd p \<and> n < 4096"

lemma port_id_roundtrip:
  assumes "port_ident_ok p n"
  shows "encode_port_id p n < 65536" "decode_port_id (encode_port_id p n) = (p, n)"
proof -
  obtain k where p: "p = k * 16" and k: "k < 16"
    using assms by (auto simp: port_ident_ok_def elim!: dvdE)
  have n: "n < 4096" using assms by (simp add: port_ident_ok_def)
  have v: "encode_port_id p n = k * 4096 + n" by (simp add: encode_port_id_def p push_bit_eq_mult)
  show "encode_port_id p n < 65536" using k n by (simp add: v)
  have "drop_bit 8 (k * 4096 + n) AND 0xf0 = push_bit 4 (drop_bit 4 (drop_bit 8 (k * 4096 + n)) AND 15)"
    using and_shifted_mask [of "drop_bit 8 (k * 4096 + n)" 4 15] by simp
  also have "drop_bit 4 (drop_bit 8 (k * 4096 + n)) = k" using n by (simp add: drop_bit_eq_div)
  finally have "drop_bit 8 (k * 4096 + n) AND 0xf0 = p" using k by (simp add: p and_masks push_bit_eq_mult)
  then show "decode_port_id (encode_port_id p n) = (p, n)"
    using n by (simp add: decode_port_id_def v and_masks)
qed

section \<open>Timers lose their fraction\<close>

definition timer_range :: "rat \<Rightarrow> bool" where
  "timer_range t \<longleftrightarrow> 0 \<le> t \<and> t < 256"

lemma timer_roundtrip:
  assumes "timer_range t"
  obtains n where "pack_H_int (encode_timer t) = Inr (be16 n)" "n < 65536"
    "decode_timer n = of_int \<lfloor>t\<rfloor>"
proof -
  have f: "0 \<le> \<lfloor>t\<rfloor>" "\<lfloor>t\<rfloor> < 256" using assms by (auto simp: timer_range_def floor_less_iff)
  let ?n = "nat (\<lfloor>t\<rfloor> * 256)"
  have e: "encode_timer t = int ?n" using assms f by (simp add: encode_timer_def py_trunc_def timer_range_def)
  have n: "?n < 65536" using f by linarith
  have "(of_nat ?n :: rat) = of_int (int ?n)" by simp
  also have "int ?n = \<lfloor>t\<rfloor> * 256" using f by simp
  finally have "decode_timer ?n = of_int \<lfloor>t\<rfloor>" by (simp add: decode_timer_def)
  moreover have "pack_H_int (encode_timer t) = Inr (be16 ?n)"
    unfolding e using n by (simp add: pack_H_int_def pack_H_def del: nat_mult_distrib)
  ultimately show thesis using that n by blast
qed

section \<open>A configuration unit is read back, with whole seconds\<close>

definition config_wf :: "addrconv \<Rightarrow> config_bpdu \<Rightarrow> bool" where
  "config_wf ac b \<longleftrightarrow>
     bridge_ident_ok ac (root_priority b) (root_system_id_extension b) (root_mac_address b) \<and>
     bridge_ident_ok ac (bridge_priority b) (bridge_system_id_extension b) (bridge_mac_address b) \<and>
     port_ident_ok (port_priority b) (port_number b) \<and> root_path_cost b < 4294967296 \<and>
     cb_flags b < 256 \<and>
     timer_range (message_age b) \<and> timer_range (max_age b) \<and> timer_range (hello_time b) \<and>
     timer_range (forward_delay b)"

definition whole_seconds :: "config_bpdu \<Rightarrow> config_bpdu" where
  "whole_seconds b = b\<lparr>message_age := of_int \<lfloor>message_age b\<rfloor>, max_age := of_int \<lfloor>max_age b\<rfloor>,
     hello_time := of_int \<lfloor>hello_time b\<rfloor>, forward_delay := of_int \<lfloor>forward_delay b\<rfloor>\<rparr>"

lemma timer_ok_int [simp]: "timer_ok (of_int i)"
proof -
  have "(of_int i * 256 :: rat) = of_int (i * 256)" by simp
  then show ?thesis unfolding timer_ok_def by (simp only: floor_of_int)
qed

lemma config_fields_wf:
  assumes "config_wf ac b"
  obtains bs where "config_fields ac b = Inr bs" "length bs = 31"
    "\<forall>rest. unpack_config ac (bs @ rest) = whole_seconds b"
proof -
  note wf = assms [unfolded config_wf_def]
  obtain r where r: "encode_bridge_id ac (root_priority b) (root_system_id_extension b) (root_mac_address b) = Inr r"
    "r < 18446744073709551616"
    "decode_bridge_id ac r = (root_priority b, root_system_id_extension b, root_mac_address b)"
    using wf by (elim conjE bridge_id_roundtrip)
  obtain d where d: "encode_bridge_id ac (bridge_priority b) (bridge_system_id_extension b) (bridge_mac_address b) = Inr d"
    "d < 18446744073709551616"
    "decode_bridge_id ac d = (bridge_priority b, bridge_system_id_extension b, bridge_mac_address b)"
    using wf by (elim conjE bridge_id_roundtrip)
  let ?p = "encode_port_id (port_priority b) (port_number b)"
  have p: "?p < 65536" "decode_port_id ?p = (port_priority b, port_number b)"
    using wf by (blast intro: port_id_roundtrip)+
  obtain t1 where t1: "pack_H_int (encode_timer (message_age b)) = Inr (be16 t1)" "t1 < 65536"
    "decode_timer t1 = of_int \<lfloor>message_age b\<rfloor>" using wf by (elim conjE timer_roundtrip)
  obtain t2 where t2: "pack_H_int (encode_timer (max_age b)) = Inr (be16 t2)" "t2 < 65536"
    "decode_timer t2 = of_int \<lfloor>max_age b\<rfloor>" using wf by (elim conjE timer_roundtrip)
  obtain t3 where t3: "pack_H_int (encode_timer (hello_time b)) = Inr (be16 t3)" "t3 < 65536"
    "decode_timer t3 = of_int \<lfloor>hello_time b\<rfloor>" using wf by (elim conjE timer_roundtrip)
  obtain t4 where t4: "pack_H_int (encode_timer (forward_delay b)) = Inr (be16 t4)" "t4 < 65536"
    "decode_timer t4 = of_int \<lfloor>forward_delay b\<rfloor>" using wf by (elim conjE timer_roundtrip)
  let ?bs = "word_of_nat (cb_flags b) # be64 r @ be32 (root_path_cost b) @ be64 d @ be16 ?p @
    be16 t1 @ be16 t2 @ be16 t3 @ be16 t4"
  have c: "cb_flags b < 256" "root_path_cost b < 4294967296" using wf by blast+
  show thesis
  proof (rule that)
    show "config_fields ac b = Inr ?bs"
      by (simp add: config_fields_def r(1,2) d(1,2) t1(1) t2(1) t3(1) t4(1) p(1) c)
    show "length ?bs = 31" by simp
    show "\<forall>rest. unpack_config ac (?bs @ rest) = whole_seconds b"
      by (simp add: unpack_config_def read_fields r(2,3) d(2,3) p t1(2,3) t2(2,3) t3(2,3) t4(2,3) c
          whole_seconds_def)
  qed
qed

lemma check_whole_seconds:
  assumes "config_wf ac b"
  shows "rst_check_parameters (whole_seconds b)"
    and "check_parameters (whole_seconds b) \<longleftrightarrow> drop_bit 1 (cb_flags b) AND 63 = 0"
proof -
  show r: "rst_check_parameters (whole_seconds b)"
    using assms by (simp add: config_wf_def bridge_ident_ok_def port_ident_ok_def rst_check_parameters_def
        whole_seconds_def mod_eq_0_iff_dvd)
  show "check_parameters (whole_seconds b) \<longleftrightarrow> drop_bit 1 (cb_flags b) AND 63 = 0"
    using r by (simp add: check_parameters_def) (simp add: whole_seconds_def)
qed

section \<open>The contract of a codec\<close>

fun bpdu_wf :: "addrconv \<Rightarrow> bpdu \<Rightarrow> bytes \<Rightarrow> bool" where
  "bpdu_wf ac (ConfigurationBPDUs b) payload \<longleftrightarrow>
     config_wf ac b \<and> drop_bit 1 (cb_flags b) AND 63 = 0"
| "bpdu_wf ac TopologyChangeNotificationBPDUs payload \<longleftrightarrow> payload = []"
| "bpdu_wf ac (RstBPDUs b) payload \<longleftrightarrow> config_wf ac b"

fun bpdu_norm :: "bpdu \<Rightarrow> bytes \<Rightarrow> bpdu" where
  "bpdu_norm (ConfigurationBPDUs b) payload = ConfigurationBPDUs (whole_seconds b)"
| "bpdu_norm TopologyChangeNotificationBPDUs payload = TopologyChangeNotificationBPDUs"
| "bpdu_norm (RstBPDUs b) payload = RstBPDUs (whole_seconds b)"

text \<open>The objects the parser knows; the bytes of an unknown type are not one.\<close>

definition bpdu_read :: "addrconv \<Rightarrow> bytes \<Rightarrow> (bpdu \<times> bytes) res" where
  "bpdu_read ac buf =
     (case bpdu_parser ac buf of
        Inl e \<Rightarrow> Inl e
      | Inr (Some p, rest) \<Rightarrow> Inr (p, rest)
      | Inr (None, rest) \<Rightarrow> Inl TypeError)"

lemma bpdu_header_eq:
  "v < 256 \<Longrightarrow> t < 256 \<Longrightarrow> bpdu_header v t = Inr [0, 0, word_of_nat v, word_of_nat t]"
  by (simp add: bpdu_header_def be16_def)

lemma bpdu_header_reads:
  "u16_at ([0, 0, a, b] @ r) 0 = 0" "u8_at ([0, 0, a, b] @ r) 2 = unat a" "u8_at ([0, 0, a, b] @ r) 3 = unat b"
  by (simp_all add: u16_at_def u8_at_def)

lemma config_parser_wf:
  assumes "config_wf ac b" and "drop_bit 1 (cb_flags b) AND 63 = 0"
  obtains bs where "config_fields ac b = Inr bs" "length bs = 31"
    "\<forall>rest. config_parser ac (bs @ rest) = Inr (whole_seconds b, rest)"
proof -
  obtain bs where bs: "config_fields ac b = Inr bs" "length bs = 31"
    "\<forall>rest. unpack_config ac (bs @ rest) = whole_seconds b" using assms(1) by (rule config_fields_wf)
  then show thesis
    using check_whole_seconds(2) [OF assms(1)] assms(2) by (intro that [of bs]) (simp_all add: config_parser_def bs Let_def)
qed

lemma rst_parser_wf:
  assumes "config_wf ac b"
  obtains bs where "config_fields ac b = Inr bs" "length bs = 31"
    "\<forall>rest. rst_parser ac (bs @ 0 # rest) = Inr (whole_seconds b, rest)"
proof -
  obtain bs where bs: "config_fields ac b = Inr bs" "length bs = 31"
    "\<forall>rest. unpack_config ac (bs @ rest) = whole_seconds b" using assms by (rule config_fields_wf)
  moreover have "u8_at (bs @ 0 # rest) 31 = 0" for rest by (simp add: bs(2) read_fields u8_at_def nth_append)
  ultimately show thesis
    using check_whole_seconds(1) [OF assms] by (intro that [of bs]) (simp_all add: rst_parser_def bs Let_def)
qed

lemma bpdu_wire:
  assumes "bpdu_wf ac p payload"
  obtains bs where "bpdu_serialize ac p = Inr bs" "bpdu_read ac (bs @ payload) = Inr (bpdu_norm p payload, payload)"
proof (cases p)
  case (ConfigurationBPDUs b)
  obtain bs where bs: "config_fields ac b = Inr bs" "length bs = 31"
    "\<forall>rest. config_parser ac (bs @ rest) = Inr (whole_seconds b, rest)"
    using assms by (auto simp: ConfigurationBPDUs elim: config_parser_wf)
  have "bpdu_parser ac ([0, 0, 0, 0] @ bs @ payload) = Inr (Some (ConfigurationBPDUs (whole_seconds b)), payload)"
    unfolding bpdu_parser_def bpdu_header_reads Let_def by (simp add: bs)
  then show thesis
    using that [of "[0, 0, 0, 0] @ bs"] by (simp add: ConfigurationBPDUs bpdu_header_eq bs(1) bpdu_read_def)
next
  case TopologyChangeNotificationBPDUs
  have "bpdu_parser ac ([0, 0, 0, 128] @ []) = Inr (Some TopologyChangeNotificationBPDUs, [])"
    unfolding bpdu_parser_def bpdu_header_reads Let_def by (simp add: tcn_parser_def)
  then show thesis
    using that [of "[0, 0, 0, 128]"] assms
    by (simp add: TopologyChangeNotificationBPDUs bpdu_header_eq bpdu_read_def)
next
  case (RstBPDUs b)
  obtain bs where bs: "config_fields ac b = Inr bs" "length bs = 31"
    "\<forall>rest. rst_parser ac (bs @ 0 # rest) = Inr (whole_seconds b, rest)"
    using assms by (auto simp: RstBPDUs elim: rst_parser_wf)
  have "bpdu_parser ac ([0, 0, 2, 2] @ bs @ 0 # payload) = Inr (Some (RstBPDUs (whole_seconds b)), payload)"
    unfolding bpdu_parser_def bpdu_header_reads Let_def by (simp add: bs)
  then show thesis
    using that [of "[0, 0, 2, 2] @ bs @ [0]"] by (simp add: RstBPDUs bpdu_header_eq bs(1) bpdu_read_def)
qed

interpretation bpdu_codec: codec "bpdu_wf ac" "\<lambda>p _. bpdu_serialize ac p" bpdu_norm "bpdu_read ac" for ac
  by unfold_locales (metis bpdu_wire, metis bpdu_wire sum.inject(2))

end
