(* ===== verification/Py_Hex.thy ===== *)
theory Py_Hex
  imports Py_Strings
begin

text \<open>
  Hexadecimal numbers in Python: printing with \<open>'%016x'\<close>, and \<open>int(s, 16)\<close> with its
  whitespace, sign, prefix and underscores.
\<close>

section \<open>Digits\<close>

definition hex_value :: "char \<Rightarrow> nat option" where
  "hex_value c =
     (let n = of_char c :: nat in
      if 48 \<le> n \<and> n \<le> 57 then Some (n - 48)
      else if 97 \<le> n \<and> n \<le> 102 then Some (n - 87)
      else if 65 \<le> n \<and> n \<le> 70 then Some (n - 55)
      else None)"

definition hex_digit :: "nat \<Rightarrow> char" where
  "hex_digit n = (if n < 10 then char_of (48 + n) else char_of (87 + n))"

fun hex_number :: "nat \<Rightarrow> string \<Rightarrow> nat option" where
  "hex_number acc [] = Some acc"
| "hex_number acc (c # cs) =
     (case hex_value c of None \<Rightarrow> None | Some d \<Rightarrow> hex_number (acc * 16 + d) cs)"

fun hex_str :: "nat \<Rightarrow> string" where
  "hex_str n = (if n < 16 then [hex_digit n] else hex_str (n div 16) @ [hex_digit (n mod 16)])"

declare hex_str.simps [simp del]

text \<open>\<open>'%0{k}x' % n\<close>.\<close>

definition hex_padded :: "nat \<Rightarrow> nat \<Rightarrow> string" where
  "hex_padded k n = zfill k (hex_str n)"

section \<open>\<open>int(s, 16)\<close>\<close>

fun hex_underscores :: "bool \<Rightarrow> string \<Rightarrow> string option" where
  "hex_underscores after_digit [] = (if after_digit then Some [] else None)"
| "hex_underscores after_digit (c # cs) =
     (if hex_value c \<noteq> None then map_option (Cons c) (hex_underscores True cs)
      else if c = CHR ''_'' \<and> after_digit then hex_underscores False cs
      else None)"

text \<open>An underscore may follow the prefix \<open>0x\<close>.\<close>

definition drop_prefix :: "string \<Rightarrow> string" where
  "drop_prefix s =
     (if take 2 s = ''0x'' \<or> take 2 s = ''0X''
      then (case drop 2 s of c # cs \<Rightarrow> if c = CHR ''_'' then cs else c # cs | [] \<Rightarrow> [])
      else s)"

definition parse_hex :: "string \<Rightarrow> nat option" where
  "parse_hex s = Option.bind (hex_underscores False (drop_prefix s)) (hex_number 0)"

definition py_int16 :: "string \<Rightarrow> int option" where
  "py_int16 s =
     (case int_strip s of
        [] \<Rightarrow> None
      | c # cs \<Rightarrow>
          if c = CHR ''-'' then map_option (\<lambda>n. - int n) (parse_hex cs)
          else if c = CHR ''+'' then map_option int (parse_hex cs)
          else map_option int (parse_hex (c # cs)))"

section \<open>A number is read back\<close>

lemma hex_value_digit [simp]: "n < 16 \<Longrightarrow> hex_value (hex_digit n) = Some n"
  by (auto simp: hex_value_def hex_digit_def Let_def)

lemma hex_value_zero [simp]: "hex_value (CHR ''0'') = Some 0"
  by (simp add: hex_value_def Let_def)

definition is_hex :: "char \<Rightarrow> bool" where
  "is_hex c \<longleftrightarrow> hex_value c \<noteq> None"

lemma is_hex_simps [simp]: "n < 16 \<Longrightarrow> is_hex (hex_digit n)" "is_hex (CHR ''0'')"
  by (simp_all add: is_hex_def)

lemma hex_not_special: "is_hex c \<Longrightarrow> \<not> is_space c \<and> c \<notin> {CHR ''-'', CHR ''+'', CHR ''x'', CHR ''X'', CHR ''_''}"
  by (auto simp: is_hex_def hex_value_def is_space_def Let_def split: if_splits)

lemma hex_str_hex: "c \<in> set (hex_str n) \<Longrightarrow> is_hex c"
proof (induction n rule: hex_str.induct)
  case (1 n)
  then show ?case by (cases "n < 16") (auto simp: hex_str.simps [of n])
qed

lemma hex_str_not_Nil [simp]: "hex_str n \<noteq> []"
  by (subst hex_str.simps) simp

lemma hex_number_append:
  "hex_number a (s @ t) = Option.bind (hex_number a s) (\<lambda>b. hex_number b t)"
  by (induction s arbitrary: a) (auto split: option.split)

lemma hex_number_str: "hex_number 0 (hex_str n) = Some n"
proof (induction n rule: hex_str.induct)
  case (1 n)
  then show ?case by (cases "n < 16") (auto simp: hex_str.simps [of n] hex_number_append)
qed

lemma hex_number_zeros: "hex_number 0 (replicate k (CHR ''0'') @ s) = hex_number 0 s"
  by (induction k) simp_all

lemma hex_underscores_id: "list_all is_hex s \<Longrightarrow> b \<or> s \<noteq> [] \<Longrightarrow> hex_underscores b s = Some s"
  by (induction s arbitrary: b) (auto simp: is_hex_def)

lemma drop_prefix_id: "list_all is_hex s \<Longrightarrow> drop_prefix s = s"
proof -
  assume h: "list_all is_hex s"
  have "take 2 s \<noteq> CHR ''0'' # c # []" if "\<not> is_hex c" for c
    using h that by (cases s; cases "tl s") auto
  moreover have "\<not> is_hex (CHR ''x'')" "\<not> is_hex (CHR ''X'')" by (simp_all add: is_hex_def hex_value_def Let_def)
  ultimately show ?thesis by (simp add: drop_prefix_def)
qed

lemma py_int16_hex:
  assumes "list_all is_hex s" and "hex_number 0 s = Some n" and "s \<noteq> []"
  shows "py_int16 s = Some (int n)"
proof -
  have "is_hex (hd s)" "is_hex (last s)" using assms(1,3) by (auto simp: list_all_iff)
  then have "int_strip s = s" using hex_not_special by (intro int_strip_id) blast
  moreover obtain c cs where c: "s = c # cs" using assms(3) by (cases s) auto
  moreover have "c \<noteq> CHR ''-''" "c \<noteq> CHR ''+''" using assms(1) c hex_not_special [of c] by auto
  moreover have "parse_hex s = Some n"
    using assms by (simp add: parse_hex_def drop_prefix_id hex_underscores_id)
  ultimately show ?thesis by (simp add: py_int16_def)
qed

lemma hex_padded_hex: "list_all is_hex (hex_padded k n)"
  using hex_str_hex by (auto simp: hex_padded_def zfill_def list_all_iff)

lemma py_int16_padded: "py_int16 (hex_padded k n) = Some (int n)"
  by (rule py_int16_hex [OF hex_padded_hex])
    (simp_all add: hex_padded_def zfill_def hex_number_zeros hex_number_str)

lemma length_hex_str: "0 < k \<Longrightarrow> n < 16 ^ k \<Longrightarrow> length (hex_str n) \<le> k"
proof (induction n arbitrary: k rule: hex_str.induct)
  case (1 n)
  show ?case
  proof (cases "n < 16")
    case True
    with "1.prems" show ?thesis by (simp add: hex_str.simps)
  next
    case False
    with "1.prems" obtain k' where k: "k = Suc k'" "0 < k'" by (cases k; cases "k - 1") auto
    with "1.prems" have "n div 16 < 16 ^ k'" by (simp add: less_mult_imp_div_less)
    with "1.IH" False k have "length (hex_str (n div 16)) \<le> k'" by blast
    with False k show ?thesis by (simp add: hex_str.simps [of n])
  qed
qed

lemma length_hex_padded: "0 < k \<Longrightarrow> n < 16 ^ k \<Longrightarrow> length (hex_padded k n) = k"
  using length_hex_str [of k n] by (simp add: hex_padded_def zfill_def)

end
