(* ===== verification/Stp_Compare.thy ===== *)
theory Stp_Compare
  imports Bpdu Py_Hex
begin

text \<open>
  The comparisons and selections of the spanning tree (\<open>ryu/lib/stplib.py\<close>): identifiers,
  priorities and times, \<open>Stp.compare_root_path\<close> and \<open>Stp.compare_bpdu_info\<close>, and the choice of
  the root port and of the designated ports from what each port has received.
\<close>

section \<open>Identifiers, priorities and times\<close>

record bridge_id =
  bid_priority :: nat
  bid_ext :: nat
  bid_mac :: string
  bid_value :: nat

definition BridgeId :: "addrconv \<Rightarrow> nat \<Rightarrow> nat \<Rightarrow> string \<Rightarrow> bridge_id res" where
  "BridgeId ac p ext mac =
     map_sum id (\<lambda>v. \<lparr>bid_priority = p, bid_ext = ext, bid_mac = mac, bid_value = v\<rparr>)
       (encode_bridge_id ac p ext mac)"

record port_id =
  pid_priority :: nat
  pid_port_no :: nat
  pid_value :: nat

definition PortId :: "nat \<Rightarrow> nat \<Rightarrow> port_id" where
  "PortId p n = \<lparr>pid_priority = p, pid_port_no = n, pid_value = encode_port_id p n\<rparr>"

text \<open>
  \<open>Priority\<close> is built in two ways: from a received unit, and as
  \<open>Priority(bridge_id, 0, None, None)\<close>, what a bridge that takes itself for the root holds.
\<close>

record prio_vector =
  pv_root_id :: bridge_id
  pv_root_path_cost :: nat
  pv_bridge_id :: bridge_id
  pv_port_id :: port_id

datatype priority = OwnPriority bridge_id | RcvPriority prio_vector

fun pr_root_id :: "priority \<Rightarrow> bridge_id" where
  "pr_root_id (OwnPriority b) = b"
| "pr_root_id (RcvPriority v) = pv_root_id v"

fun pr_root_path_cost :: "priority \<Rightarrow> nat" where
  "pr_root_path_cost (OwnPriority b) = 0"
| "pr_root_path_cost (RcvPriority v) = pv_root_path_cost v"

record times =
  t_message_age :: rat
  t_max_age :: rat
  t_hello_time :: rat
  t_forward_delay :: rat

section \<open>Comparisons\<close>

datatype cmp_result = SUPERIOR | REPEATED | INFERIOR

definition cmp_value :: "'a :: linorder \<Rightarrow> 'a \<Rightarrow> cmp_result" where
  "cmp_value a b = (if a < b then SUPERIOR else if a = b then REPEATED else INFERIOR)"

definition cmp_obj :: "times \<Rightarrow> times \<Rightarrow> cmp_result" where
  "cmp_obj a b =
     (if t_message_age a \<noteq> t_message_age b \<or> t_max_age a \<noteq> t_max_age b \<or>
         t_hello_time a \<noteq> t_hello_time b \<or> t_forward_delay a \<noteq> t_forward_delay b
      then SUPERIOR else REPEATED)"

definition compare_root_path :: "int \<Rightarrow> int \<Rightarrow> nat \<Rightarrow> nat \<Rightarrow> nat \<Rightarrow> nat \<Rightarrow> cmp_result" where
  "compare_root_path cost1 cost2 bridge1 bridge2 port1 port2 =
     (let result = cmp_value cost1 cost2 in
      if result \<noteq> REPEATED then result
      else let result = cmp_value bridge1 bridge2 in
        if result \<noteq> REPEATED then result else cmp_value port1 port2)"

text \<open>
  \<open>mac.haddr_to_int\<close>: the colons are dropped and the rest is read with \<open>int(s, 16)\<close>.
\<close>

definition haddr_to_int :: "string \<Rightarrow> int res" where
  "haddr_to_int addr =
     (case py_int16 (filter (\<lambda>c. c \<noteq> CHR '':'') addr) of
        None \<Rightarrow> Inl (ValueError '''') | Some n \<Rightarrow> Inr n)"

text \<open>The last comparison takes a repeated unit of a bridge and port with priority zero for a
  superior one.\<close>

definition compare_repeated :: "prio_vector \<Rightarrow> times \<Rightarrow> prio_vector \<Rightarrow> times \<Rightarrow> cmp_result res" where
  "compare_repeated mine my_times rcv rcv_times =
     (case haddr_to_int (bid_mac (pv_bridge_id mine)) of
        Inl e \<Rightarrow> Inl e
      | Inr mac \<Rightarrow>
          let result1 = cmp_value (int (bid_value (pv_bridge_id rcv))) mac;
              result2 = cmp_value (pid_value (pv_port_id rcv)) (pid_port_no (pv_port_id mine))
          in Inr (if result1 = REPEATED \<and> result2 = REPEATED then SUPERIOR
                  else cmp_obj rcv_times my_times))"

definition compare_bpdu_info ::
  "(prio_vector \<times> times) option \<Rightarrow> prio_vector \<Rightarrow> times \<Rightarrow> cmp_result res"
where
  "compare_bpdu_info held rcv rcv_times =
     (case held of
        None \<Rightarrow> Inr SUPERIOR
      | Some (mine, my_times) \<Rightarrow>
          let result = cmp_value (bid_value (pv_root_id rcv)) (bid_value (pv_root_id mine)) in
          if result \<noteq> REPEATED then Inr result
          else let result = compare_root_path
                  (int (pv_root_path_cost rcv)) (int (pv_root_path_cost mine))
                  (bid_value (pv_bridge_id rcv)) (bid_value (pv_bridge_id mine))
                  (pid_value (pv_port_id rcv)) (pid_value (pv_port_id mine))
          in if result \<noteq> REPEATED then Inr result
             else compare_repeated mine my_times rcv rcv_times)"

section \<open>Priority vectors are ordered lexicographically\<close>

lemma cmp_value_simps [simp]:
  "cmp_value a b = SUPERIOR \<longleftrightarrow> a < b"
  "cmp_value a b = REPEATED \<longleftrightarrow> a = b"
  "cmp_value a b = INFERIOR \<longleftrightarrow> b < a"
  by (auto simp: cmp_value_def)

definition pv_path :: "prio_vector \<Rightarrow> int \<times> nat \<times> nat" where
  "pv_path v = (int (pv_root_path_cost v), bid_value (pv_bridge_id v), pid_value (pv_port_id v))"

definition pv_key :: "prio_vector \<Rightarrow> nat \<times> int \<times> nat \<times> nat" where
  "pv_key v = (bid_value (pv_root_id v), pv_path v)"

lemma compare_root_path_lex:
  "compare_root_path c1 c2 b1 b2 p1 p2 = cmp_value (c1, b1, p1) (c2, b2, p2)"
  by (auto simp: compare_root_path_def cmp_value_def Let_def)

lemma compare_bpdu_info_lex:
  "compare_bpdu_info (Some (mine, mt)) rcv rt =
     (if pv_key rcv = pv_key mine then compare_repeated mine mt rcv rt
      else Inr (cmp_value (pv_key rcv) (pv_key mine)))"
  by (auto simp: compare_bpdu_info_def compare_root_path_lex pv_key_def pv_path_def cmp_value_def Let_def)

end
