(* ===== verification/Stp_Port.thy ===== *)
theory Stp_Port
  imports Stp_Compare
begin

unbundle bit_operations_syntax

text \<open>
  A port of the spanning tree (\<open>class Port\<close> of \<open>ryu/lib/stplib.py\<close>): its data, the messages
  that set its state on the switch (\<open>OfCtl_v1_0\<close>, \<open>OfCtl_v1_2later\<close>), and the frames it sends.
  A thread is a flag that says whether it is running; what one turn of it does is an operation.
\<close>

section \<open>States, roles and the switch\<close>

datatype port_state = DISABLE | BLOCK | LISTEN | LEARN | FORWARD

datatype role = DESIGNATED_PORT | ROOT_PORT | NON_DESIGNATED_PORT

datatype ofp_version = V1_0 | V1_2 | V1_3

fun PORT_CONFIG_V1_0 :: "port_state \<Rightarrow> nat" where
  "PORT_CONFIG_V1_0 DISABLE = 8 OR 4 OR 16 OR 32"
| "PORT_CONFIG_V1_0 BLOCK = 4 OR 16 OR 32"
| "PORT_CONFIG_V1_0 LISTEN = 4 OR 16"
| "PORT_CONFIG_V1_0 LEARN = 16"
| "PORT_CONFIG_V1_0 FORWARD = 0"

fun PORT_CONFIG_V1_2 :: "port_state \<Rightarrow> nat" where
  "PORT_CONFIG_V1_2 DISABLE = 4 OR 32"
| "PORT_CONFIG_V1_2 BLOCK = 32 OR 64"
| "PORT_CONFIG_V1_2 LISTEN = 64"
| "PORT_CONFIG_V1_2 LEARN = 64"
| "PORT_CONFIG_V1_2 FORWARD = 0"

fun PORT_CONFIG_V1_3 :: "port_state \<Rightarrow> nat" where
  "PORT_CONFIG_V1_3 DISABLE = 4 OR 32"
| "PORT_CONFIG_V1_3 BLOCK = 32 OR 64"
| "PORT_CONFIG_V1_3 LISTEN = 64"
| "PORT_CONFIG_V1_3 LEARN = 64"
| "PORT_CONFIG_V1_3 FORWARD = 0"

text \<open>What the library sends: messages to the switch, frames, and events to its observers.\<close>

datatype stp_out =
    PortMod nat nat nat
  | BpduFlow
  | AddNoPktIn nat
  | DelNoPktIn nat
  | FrameOut nat bytes
  | EventTopologyChange
  | EventPortStateChange nat port_state
  | EventPacketIn bytes

definition OFPPC_NO_PACKET_IN :: nat where "OFPPC_NO_PACKET_IN = 64"

text \<open>\<open>set_port_status\<close>: port number, configuration bits, mask.\<close>

definition set_port_status :: "ofp_version \<Rightarrow> nat \<Rightarrow> port_state \<Rightarrow> stp_out list" where
  "set_port_status ver n st =
     (if ver = V1_0 then [PortMod n (PORT_CONFIG_V1_0 st) 127]
      else
        let config = (if ver = V1_2 then PORT_CONFIG_V1_2 st else PORT_CONFIG_V1_3 st)
        in [PortMod n config 101,
            if config AND OFPPC_NO_PACKET_IN \<noteq> 0 then AddNoPktIn n else DelNoPktIn n])"

section \<open>The port\<close>

record of_port =
  op_no :: nat
  op_hw_addr :: string
  op_link :: nat
  op_curr :: nat

record stp_port =
  sp_ofport :: of_port
  sp_enable :: bool
  sp_bridge_id :: bridge_id
  sp_port_id :: port_id
  sp_path_cost :: nat
  sp_state :: "port_state option"
  sp_role :: "role option"
  sp_priority :: priority
  sp_times :: times
  sp_designated :: "(prio_vector \<times> times) option"
  sp_send_thread :: bool
  sp_wait_thread :: bool
  sp_send_tc_flg :: bool
  sp_send_tc_timer :: "rat option"
  sp_send_tcn_flg :: bool

abbreviation sp_no :: "stp_port \<Rightarrow> nat" where
  "sp_no p \<equiv> op_no (sp_ofport p)"

text \<open>\<open>_change_role\<close>: the timer that waits for units runs for the ports that receive them.\<close>

definition change_role :: "role \<Rightarrow> stp_port \<Rightarrow> stp_port" where
  "change_role new p =
     (if sp_role p = Some new then p
      else p\<lparr>sp_role := Some new, sp_wait_thread := (new = ROOT_PORT \<or> new = NON_DESIGNATED_PORT)\<rparr>)"

text \<open>The part of \<open>_change_status\<close> after the notification: flags, sender thread, state.\<close>

definition enter_status :: "port_state \<Rightarrow> stp_port \<Rightarrow> stp_port" where
  "enter_status new p =
     (if new = DISABLE \<or> new = BLOCK then
        p\<lparr>sp_send_tc_flg := False, sp_send_tc_timer := None, sp_send_tcn_flg := False,
          sp_send_thread := False, sp_state := Some new\<rparr>
      else if new = LISTEN then p\<lparr>sp_send_thread := True, sp_state := Some new\<rparr>
      else p\<lparr>sp_state := Some new\<rparr>)"

definition up_state :: "stp_port \<Rightarrow> port_state" where
  "up_state p = (if sp_enable p then LISTEN else DISABLE)"

section \<open>\<open>Port.__init__\<close>\<close>

text \<open>
  \<open>values\<close> is the class attribute \<open>Port._DEFAULT_VALUE\<close> itself: the cost found for one port is
  written into it and is the default of the next.  Of the port's configuration only
  \<open>enable\<close> is read.
\<close>

record port_values =
  pvl_priority :: nat
  pvl_path_cost :: nat

definition port_default_init :: port_values where
  "port_default_init = \<lparr>pvl_priority = 128, pvl_path_cost = 2000000\<rparr>"

definition path_costs :: "(nat \<times> nat) list" where
  "path_costs = [(64, 2000), (32, 20000), (16, 20000), (8, 200000), (4, 200000), (2, 2000000), (1, 2000000)]"

definition rate_cost :: "nat \<Rightarrow> nat option" where
  "rate_cost rates = map_option snd (find (\<lambda>(rate, _). rates AND rate \<noteq> 0) path_costs)"

record port_conf =
  pc_priority :: "nat option"
  pc_path_cost :: "nat option"
  pc_enable :: "bool option"

definition port_values_for :: "of_port \<Rightarrow> port_values \<Rightarrow> port_values" where
  "port_values_for ofp v = (case rate_cost (op_curr ofp) of None \<Rightarrow> v | Some c \<Rightarrow> v\<lparr>pvl_path_cost := c\<rparr>)"

definition new_port ::
  "ofp_version \<Rightarrow> port_conf \<Rightarrow> bridge_id \<Rightarrow> times \<Rightarrow> of_port \<Rightarrow> port_values \<Rightarrow> stp_port \<times> stp_out list \<times> port_values"
where
  "new_port ver conf bid bt ofp v =
     (let v' = port_values_for ofp v;
          en = (case pc_enable conf of None \<Rightarrow> True | Some b \<Rightarrow> b);
          p = \<lparr>sp_ofport = ofp, sp_enable = en, sp_bridge_id = bid,
               sp_port_id = PortId (pvl_priority v') (op_no ofp), sp_path_cost = pvl_path_cost v',
               sp_state = (if en then None else Some DISABLE), sp_role = None,
               sp_priority = OwnPriority bid, sp_times = bt, sp_designated = None,
               sp_send_thread = False, sp_wait_thread = False, sp_send_tc_flg = False,
               sp_send_tc_timer = None, sp_send_tcn_flg = False\<rparr>;
          st = up_state p
      in (enter_status st (change_role DESIGNATED_PORT p),
          (if st \<noteq> DISABLE then set_port_status ver (op_no ofp) st else []) @
          [EventPortStateChange (op_no ofp) st] @
          (if st = DISABLE then set_port_status ver (op_no ofp) st else []),
          v'))"

section \<open>The frames of a port\<close>

definition BRIDGE_GROUP_ADDRESS :: string where
  "BRIDGE_GROUP_ADDRESS = ''01:80:c2:00:00:00''"

definition stp_frame :: "addrconv \<Rightarrow> string \<Rightarrow> nat \<Rightarrow> bpdu \<Rightarrow> bytes res" where
  "stp_frame ac hw len b =
     (case bpdu_serialize ac b of
        Inl e \<Rightarrow> Inl e
      | Inr bs \<Rightarrow>
          (case llc_serialize llc_bpdu of
             Inl e \<Rightarrow> Inl e
           | Inr ls \<Rightarrow>
               map_sum id (\<lambda>(hdr, payload). hdr @ payload)
                 (ethernet_serialize ac
                    \<lparr>eth_dst = BRIDGE_GROUP_ADDRESS, eth_src = hw, ethertype = len\<rparr> (ls @ bs))))"

definition config_bpdu_of :: "nat \<Rightarrow> stp_port \<Rightarrow> config_bpdu" where
  "config_bpdu_of fl p =
     \<lparr>cb_flags = fl,
      root_priority = bid_priority (pr_root_id (sp_priority p)),
      root_system_id_extension = 0,
      root_mac_address = bid_mac (pr_root_id (sp_priority p)),
      root_path_cost = pr_root_path_cost (sp_priority p) + sp_path_cost p,
      bridge_priority = bid_priority (sp_bridge_id p),
      bridge_system_id_extension = 0,
      bridge_mac_address = bid_mac (sp_bridge_id p),
      port_priority = pid_priority (sp_port_id p),
      port_number = sp_no p,
      message_age = t_message_age (sp_times p) + 1,
      max_age = t_max_age (sp_times p),
      hello_time = t_hello_time (sp_times p),
      forward_delay = t_forward_delay (sp_times p)\<rparr>"

definition generate_config_bpdu :: "addrconv \<Rightarrow> nat \<Rightarrow> stp_port \<Rightarrow> bytes res" where
  "generate_config_bpdu ac fl p =
     (let b = config_bpdu_of fl p in
      if \<not> check_parameters b then Inl AssertionError
      else stp_frame ac (op_hw_addr (sp_ofport p)) 38 (ConfigurationBPDUs b))"

definition generate_tcn_bpdu :: "addrconv \<Rightarrow> stp_port \<Rightarrow> bytes res" where
  "generate_tcn_bpdu ac p =
     stp_frame ac (op_hw_addr (sp_ofport p)) 7 TopologyChangeNotificationBPDUs"

text \<open>
  One turn of \<open>_transmit_bpdu\<close>: the port and the frames.  An exception ends the thread; the
  frames sent before it are sent.
\<close>

definition tc_timer_check :: "rat \<Rightarrow> stp_port \<Rightarrow> stp_port" where
  "tc_timer_check clk p =
     (case sp_send_tc_timer p of
        Some t \<Rightarrow> if t < clk then p\<lparr>sp_send_tc_timer := None, sp_send_tc_flg := False\<rparr> else p
      | None \<Rightarrow> p)"

definition transmit_config :: "addrconv \<Rightarrow> rat \<Rightarrow> stp_port \<Rightarrow> stp_port \<times> bytes list res" where
  "transmit_config ac clk p =
     (if sp_role p \<noteq> Some DESIGNATED_PORT then (p, Inr [])
      else let p1 = tc_timer_check clk p in
        (p1, map_sum id (\<lambda>b. [b]) (generate_config_bpdu ac (if sp_send_tc_flg p1 then 1 else 0) p1)))"

definition transmit_tcn :: "addrconv \<Rightarrow> stp_port \<Rightarrow> bytes list res" where
  "transmit_tcn ac p =
     (if sp_send_tcn_flg p then map_sum id (\<lambda>b. [b]) (generate_tcn_bpdu ac p) else Inr [])"

definition transmit_bpdu :: "addrconv \<Rightarrow> rat \<Rightarrow> stp_port \<Rightarrow> stp_port \<times> stp_out list" where
  "transmit_bpdu ac clk p =
     (let (p1, sent) = transmit_config ac clk p in
      case sent of
        Inl e \<Rightarrow> (p1\<lparr>sp_send_thread := False\<rparr>, [])
      | Inr fs \<Rightarrow>
          (case transmit_tcn ac p1 of
             Inl e \<Rightarrow> (p1\<lparr>sp_send_thread := False\<rparr>, map (FrameOut (sp_no p)) fs)
           | Inr gs \<Rightarrow> (p1, map (FrameOut (sp_no p)) (fs @ gs))))"

text \<open>\<open>transmit_tc_bpdu\<close>, \<open>transmit_tcn_bpdu\<close> and \<open>transmit_ack_bpdu\<close>.\<close>

definition transmit_tc_bpdu :: "rat \<Rightarrow> stp_port \<Rightarrow> stp_port" where
  "transmit_tc_bpdu clk p =
     (if sp_send_tc_flg p then p
      else p\<lparr>sp_send_tc_timer := Some (clk + t_max_age (sp_times p) + t_forward_delay (sp_times p)),
             sp_send_tc_flg := True\<rparr>)"

definition transmit_tcn_bpdu :: "stp_port \<Rightarrow> stp_port" where
  "transmit_tcn_bpdu p = p\<lparr>sp_send_tcn_flg := True\<rparr>"

definition transmit_ack_bpdu :: "addrconv \<Rightarrow> stp_port \<Rightarrow> stp_out list res" where
  "transmit_ack_bpdu ac p = map_sum id (\<lambda>b. [FrameOut (sp_no p) b]) (generate_config_bpdu ac 129 p)"

section \<open>Receiving a configuration unit\<close>

text \<open>
  \<open>rcv_config_bpdu\<close>: the verdict, whether a topology change was announced, and the port.
\<close>

definition rcv_vector :: "addrconv \<Rightarrow> config_bpdu \<Rightarrow> prio_vector res" where
  "rcv_vector ac b =
     (case BridgeId ac (root_priority b) (root_system_id_extension b) (root_mac_address b) of
        Inl e \<Rightarrow> Inl e
      | Inr rid \<Rightarrow>
          map_sum id
            (\<lambda>br. \<lparr>pv_root_id = rid, pv_root_path_cost = root_path_cost b, pv_bridge_id = br,
                   pv_port_id = PortId (port_priority b) (port_number b)\<rparr>)
            (BridgeId ac (bridge_priority b) (bridge_system_id_extension b) (bridge_mac_address b)))"

definition rcv_times :: "config_bpdu \<Rightarrow> times" where
  "rcv_times b =
     \<lparr>t_message_age = message_age b, t_max_age = max_age b, t_hello_time = hello_time b,
      t_forward_delay = forward_delay b\<rparr>"

definition rcv_config_bpdu ::
  "addrconv \<Rightarrow> config_bpdu \<Rightarrow> stp_port \<Rightarrow> (cmp_result \<times> bool \<times> stp_port) res"
where
  "rcv_config_bpdu ac b p =
     (case rcv_vector ac b of
        Inl e \<Rightarrow> Inl e
      | Inr v \<Rightarrow>
          (case compare_bpdu_info (sp_designated p) v (rcv_times b) of
             Inl e \<Rightarrow> Inl e
           | Inr info \<Rightarrow>
               let p1 = (if info = SUPERIOR then p\<lparr>sp_designated := Some (v, rcv_times b)\<rparr> else p);
                   listens = (sp_role p = Some ROOT_PORT \<or> sp_role p = Some NON_DESIGNATED_PORT);
                   chk = ((info = SUPERIOR \<or> info = REPEATED) \<and> listens \<or>
                          info = INFERIOR \<and> sp_role p = Some DESIGNATED_PORT);
                   rcv_tc = (chk \<and> cb_flags b AND 1 \<noteq> 0);
                   p2 = (if chk \<and> cb_flags b AND 128 \<noteq> 0 then p1\<lparr>sp_send_tcn_flg := False\<rparr> else p1)
               in Inr (info, rcv_tc, p2)))"

end
