(* ===== verification/Stp_Tree.thy ===== *)
theory Stp_Tree
  imports Stp_Port
begin

text \<open>
  \<open>Bridge._spanning_tree_algorithm\<close> of \<open>ryu/lib/stplib.py\<close>: the root port, the designated ports
  and the roles.  The choices are compared with a reference that speaks of the least priority
  vector instead of a loop.
\<close>

section \<open>The code\<close>

text \<open>The loop of \<open>_select_root_port\<close>: the port held so far competes with the next.\<close>

definition root_candidate :: "bridge_id \<Rightarrow> stp_port option \<Rightarrow> stp_port \<Rightarrow> prio_vector \<Rightarrow> cmp_result" where
  "root_candidate own root_port p port_msg =
     (let root_id = (case root_port of
            None \<Rightarrow> bid_value own
          | Some r \<Rightarrow> (case sp_designated r of None \<Rightarrow> bid_value own | Some (v, _) \<Rightarrow> bid_value (pv_root_id v)))
      in if root_id > bid_value (pv_root_id port_msg) then SUPERIOR
         else if root_id = bid_value (pv_root_id port_msg) then
           (case root_port of
              None \<Rightarrow> INFERIOR
            | Some r \<Rightarrow>
                (case sp_designated r of
                   None \<Rightarrow> INFERIOR
                 | Some (root_msg, _) \<Rightarrow>
                     compare_root_path
                       (int (pv_root_path_cost port_msg)) (int (pv_root_path_cost root_msg))
                       (bid_value (pv_bridge_id port_msg)) (bid_value (pv_bridge_id root_msg))
                       (pid_value (pv_port_id port_msg)) (pid_value (pv_port_id root_msg))))
         else INFERIOR)"

fun select_root_port :: "bridge_id \<Rightarrow> stp_port option \<Rightarrow> stp_port list \<Rightarrow> stp_port option" where
  "select_root_port own root_port [] = root_port"
| "select_root_port own root_port (p # ps) =
     (case sp_designated p of
        None \<Rightarrow> select_root_port own root_port ps
      | Some (port_msg, _) \<Rightarrow>
          if sp_state p = Some DISABLE then select_root_port own root_port ps
          else if root_candidate own root_port p port_msg = SUPERIOR
          then select_root_port own (Some p) ps
          else select_root_port own root_port ps)"

definition is_designated :: "bridge_id \<Rightarrow> prio_vector \<Rightarrow> stp_port \<Rightarrow> bool" where
  "is_designated own root_msg p =
     (case sp_designated p of
        None \<Rightarrow> True
      | Some (port_msg, _) \<Rightarrow>
          bid_value (pv_root_id port_msg) \<noteq> bid_value (pv_root_id root_msg) \<or>
          compare_root_path
            (int (pv_root_path_cost root_msg)) (int (pv_root_path_cost port_msg) - int (sp_path_cost p))
            (bid_value own) (bid_value (pv_bridge_id port_msg))
            (pid_value (sp_port_id p)) (pid_value (pv_port_id port_msg)) = SUPERIOR)"

definition select_designated_port ::
  "bridge_id \<Rightarrow> nat \<Rightarrow> prio_vector \<Rightarrow> stp_port list \<Rightarrow> nat list"
where
  "select_designated_port own root_no root_msg ps =
     map sp_no (filter (\<lambda>p. sp_state p \<noteq> Some DISABLE \<and> sp_no p \<noteq> root_no \<and>
                            is_designated own root_msg p) ps)"

definition not_disabled :: "stp_port \<Rightarrow> bool" where
  "not_disabled p \<longleftrightarrow> sp_state p \<noteq> Some DISABLE"

text \<open>
  The roles by port number, the priority and the times of the root.  The roles of the root port
  and of the designated ports come first in the dictionary, then the others by \<open>setdefault\<close>.
\<close>

definition spanning_tree_algorithm ::
  "bridge_id \<Rightarrow> times \<Rightarrow> stp_port list \<Rightarrow> (nat, role) dict \<times> priority \<times> times"
where
  "spanning_tree_algorithm own own_times ps =
     (case select_root_port own None ps of
        None \<Rightarrow>
          (map (\<lambda>p. (sp_no p, DESIGNATED_PORT)) (filter not_disabled ps), OwnPriority own, own_times)
      | Some root_port \<Rightarrow>
          (case sp_designated root_port of
             None \<Rightarrow> ([], OwnPriority own, own_times)
           | Some (root_msg, root_tms) \<Rightarrow>
               let d_ports = select_designated_port own (sp_no root_port) root_msg ps;
                   first = dict_set (sp_no root_port) ROOT_PORT [];
                   roles = fold (\<lambda>n. dict_set n DESIGNATED_PORT) d_ports first;
                   rest = fold (\<lambda>p d. case dict_get d (sp_no p) of
                                        None \<Rightarrow> dict_set (sp_no p) NON_DESIGNATED_PORT d
                                      | Some _ \<Rightarrow> d) (filter not_disabled ps) roles
               in (rest, RcvPriority root_msg, root_tms)))"

section \<open>The root port has the least priority vector\<close>

text \<open>A port that offers a better root than the bridge itself, and its vector.\<close>

definition offers :: "bridge_id \<Rightarrow> stp_port \<Rightarrow> bool" where
  "offers own p \<longleftrightarrow> sp_state p \<noteq> Some DISABLE \<and>
     (\<exists>v t. sp_designated p = Some (v, t) \<and> bid_value (pv_root_id v) < bid_value own)"

definition offer_key :: "stp_port \<Rightarrow> nat \<times> int \<times> nat \<times> nat" where
  "offer_key p = (case sp_designated p of Some (v, _) \<Rightarrow> pv_key v | None \<Rightarrow> (0, 0, 0, 0))"

text \<open>The reference: of the ports that offer a better root, the first with the least vector.\<close>

fun first_least :: "('a \<Rightarrow> 'k :: linorder) \<Rightarrow> 'a list \<Rightarrow> 'a option" where
  "first_least key [] = None"
| "first_least key (x # xs) =
     (case first_least key xs of
        None \<Rightarrow> Some x
      | Some y \<Rightarrow> Some (if key y < key x then y else x))"

definition reference_root_port :: "bridge_id \<Rightarrow> stp_port list \<Rightarrow> stp_port option" where
  "reference_root_port own ps = first_least offer_key (filter (offers own) ps)"

lemma first_least_None [simp]: "first_least key xs = None \<longleftrightarrow> xs = []"
  by (cases xs) (auto split: option.split)

lemma first_least_Some:
  "first_least key xs = Some x \<Longrightarrow> x \<in> set xs \<and> (\<forall>y \<in> set xs. key x \<le> key y)"
proof (induction xs arbitrary: x)
  case (Cons a xs)
  show ?case
  proof (cases "first_least key xs")
    case None
    with Cons.prems show ?thesis by simp
  next
    case (Some y)
    with Cons.IH [OF Some] Cons.prems show ?thesis by (auto split: if_splits)
  qed
qed simp

text \<open>The loop, started with a port in hand, is the reference on that port and the rest.\<close>

lemma root_candidate_key:
  assumes "sp_designated p = Some (v, t)"
  shows "root_candidate own None p v = SUPERIOR \<longleftrightarrow> bid_value (pv_root_id v) < bid_value own"
    and "offers own r \<Longrightarrow> root_candidate own (Some r) p v = SUPERIOR \<longleftrightarrow> offer_key p < offer_key r"
  using assms
  by (auto simp: root_candidate_def offers_def offer_key_def pv_key_def pv_path_def compare_root_path_lex
      Let_def)

lemma select_root_port_in_hand:
  assumes "offers own r"
  shows "select_root_port own (Some r) ps = first_least offer_key (r # filter (offers own) ps)"
  using assms
proof (induction ps arbitrary: r)
  case Nil
  then show ?case by simp
next
  case (Cons p ps)
  show ?case
  proof (cases "offers own p")
    case True
    then obtain v t where p: "sp_designated p = Some (v, t)" "sp_state p \<noteq> Some DISABLE"
      by (auto simp: offers_def)
    show ?thesis
      using Cons.IH [OF True] Cons.IH [OF Cons.prems] True root_candidate_key(2) [OF p(1) Cons.prems]
      by (auto simp: p split: option.splits)
  next
    case False
    have "root_candidate own (Some r) p v \<noteq> SUPERIOR"
      if "sp_designated p = Some (v, t)" "sp_state p \<noteq> Some DISABLE" for v t
    proof -
      have "\<not> bid_value (pv_root_id v) < bid_value own" using False that by (simp add: offers_def)
      moreover have "fst (offer_key r) < bid_value own"
        using Cons.prems by (auto simp: offers_def offer_key_def pv_key_def)
      ultimately have "\<not> offer_key p < offer_key r"
        using that by (cases "offer_key r") (auto simp: offer_key_def pv_key_def)
      then show ?thesis using root_candidate_key(2) [OF that(1) Cons.prems] by simp
    qed
    then show ?thesis
      using Cons.IH [OF Cons.prems] False by (auto split: option.split)
  qed
qed

lemma select_root_port_reference: "select_root_port own None ps = reference_root_port own ps"
  unfolding reference_root_port_def
proof (induction ps)
  case Nil
  then show ?case by simp
next
  case (Cons p ps)
  show ?case
  proof (cases "offers own p")
    case True
    then obtain v t where p: "sp_designated p = Some (v, t)" "sp_state p \<noteq> Some DISABLE"
      "bid_value (pv_root_id v) < bid_value own"
      by (auto simp: offers_def)
    then show ?thesis using select_root_port_in_hand [OF True] root_candidate_key(1) [OF p(1)] True by simp
  next
    case False
    then show ?thesis
      using Cons.IH by (auto simp: offers_def root_candidate_key(1) split: option.split)
  qed
qed

lemma root_port_None_iff: "select_root_port own None ps = None \<longleftrightarrow> (\<forall>p \<in> set ps. \<not> offers own p)"
  by (simp add: select_root_port_reference reference_root_port_def filter_empty_conv)

lemma root_port_Some:
  assumes "select_root_port own None ps = Some r"
  shows "r \<in> set ps" "offers own r" "\<forall>p \<in> set ps. offers own p \<longrightarrow> offer_key r \<le> offer_key p"
  using first_least_Some [of offer_key "filter (offers own) ps" r] assms
  by (auto simp: select_root_port_reference reference_root_port_def)

section \<open>The roles\<close>

lemma dict_get_fold_set:
  "dict_get (fold (\<lambda>n. dict_set n x) ns d) k = (if k \<in> set ns then Some x else dict_get d k)"
  by (induction ns arbitrary: d) auto

lemma dict_wf_fold_set: "dict_wf d \<Longrightarrow> dict_wf (fold (\<lambda>n. dict_set n x) ns d)"
  by (induction ns arbitrary: d) auto

abbreviation setdefault_role :: "stp_port \<Rightarrow> (nat, role) dict \<Rightarrow> (nat, role) dict" where
  "setdefault_role p d \<equiv> (case dict_get d (sp_no p) of
                            None \<Rightarrow> dict_set (sp_no p) NON_DESIGNATED_PORT d | Some _ \<Rightarrow> d)"

lemma dict_get_fold_setdefault:
  "dict_get (fold setdefault_role ps d) k =
     (case dict_get d k of
        Some r \<Rightarrow> Some r
      | None \<Rightarrow> if k \<in> sp_no ` set ps then Some NON_DESIGNATED_PORT else None)"
proof (induction ps arbitrary: d)
  case (Cons p ps)
  then show ?case by (cases "dict_get d (sp_no p)") (auto split: option.split)
qed (auto split: option.split)

lemma dict_wf_fold_setdefault: "dict_wf d \<Longrightarrow> dict_wf (fold setdefault_role ps d)"
  by (induction ps arbitrary: d) (auto split: option.split)

text \<open>The roles of a bridge that is not the root, port by port.\<close>

lemma algorithm_other_root:
  assumes "select_root_port own None ps = Some r" and "sp_designated r = Some (v, t)"
  obtains roles where "spanning_tree_algorithm own ot ps = (roles, RcvPriority v, t)" "dict_wf roles"
    "\<And>n. dict_get roles n =
       (if n = sp_no r then Some ROOT_PORT
        else if n \<in> set (select_designated_port own (sp_no r) v ps) then Some DESIGNATED_PORT
        else if n \<in> sp_no ` set (filter not_disabled ps) then Some NON_DESIGNATED_PORT else None)"
proof -
  let ?ds = "select_designated_port own (sp_no r) v ps"
  let ?roles = "fold setdefault_role (filter not_disabled ps)
    (fold (\<lambda>n. dict_set n DESIGNATED_PORT) ?ds (dict_set (sp_no r) ROOT_PORT []))"
  have "sp_no r \<notin> set ?ds" by (auto simp: select_designated_port_def)
  then show thesis
    using assms
    by (intro that [of ?roles])
      (auto simp: spanning_tree_algorithm_def Let_def dict_wf_fold_setdefault dict_wf_fold_set
        dict_get_fold_setdefault dict_get_fold_set)
qed

lemma algorithm_own_root:
  assumes "select_root_port own None ps = None"
  shows "spanning_tree_algorithm own ot ps =
    (map (\<lambda>p. (sp_no p, DESIGNATED_PORT)) (filter not_disabled ps), OwnPriority own, ot)"
  using assms by (simp add: spanning_tree_algorithm_def)

end
