(* ===== verification/Stp_Bridge.thy ===== *)
theory Stp_Bridge
  imports Stp_Tree
begin

unbundle bit_operations_syntax

text \<open>
  A bridge of the spanning tree and the application around it (\<open>class Bridge\<close> and
  \<open>class Stp\<close> of \<open>ryu/lib/stplib.py\<close>).  Each handler, timer and thread turn is one operation
  on the bridge; the points inside one where another thread may run (\<open>hub.sleep(0)\<close>) are not
  separate steps.  \<open>br_out\<close> records what the library sends, in order.  \<open>clk\<close> is the time.
\<close>

section \<open>The bridge\<close>

record bridge =
  br_version :: ofp_version
  br_id :: bridge_id
  br_times :: times
  br_root_priority :: priority
  br_root_times :: times
  br_ports :: "(nat, stp_port) dict"
  br_ports_state :: "(nat, nat) dict"
  br_ports_conf :: "nat \<Rightarrow> port_conf"
  br_out :: "stp_out list"

type_synonym bridge_result = "bridge \<times> py_exn option"

definition emit :: "stp_out list \<Rightarrow> bridge \<Rightarrow> bridge" where
  "emit xs br = br\<lparr>br_out := br_out br @ xs\<rparr>"

definition on_port :: "nat \<Rightarrow> (stp_port \<Rightarrow> stp_port) \<Rightarrow> bridge \<Rightarrow> bridge" where
  "on_port n f br = br\<lparr>br_ports := map (\<lambda>(k, p). (k, if k = n then f p else p)) (br_ports br)\<rparr>"

definition on_all_ports :: "(stp_port \<Rightarrow> stp_port) \<Rightarrow> bridge \<Rightarrow> bridge" where
  "on_all_ports f br = br\<lparr>br_ports := map (\<lambda>(k, p). (k, f p)) (br_ports br)\<rparr>"

definition port_list :: "bridge \<Rightarrow> stp_port list" where
  "port_list br = map snd (br_ports br)"

definition is_root_bridge :: "bridge \<Rightarrow> bool" where
  "is_root_bridge br \<longleftrightarrow> bid_value (br_id br) = bid_value (pr_root_id (br_root_priority br))"

section \<open>Topology changes\<close>

definition transmit_tc_all :: "rat \<Rightarrow> bridge \<Rightarrow> bridge" where
  "transmit_tc_all clk br = on_all_ports (transmit_tc_bpdu clk) br"

definition transmit_tcn_root :: "bridge \<Rightarrow> bridge" where
  "transmit_tcn_root br =
     (case find (\<lambda>(_, p). sp_role p = Some ROOT_PORT) (br_ports br) of
        None \<Rightarrow> br
      | Some (n, _) \<Rightarrow> on_port n transmit_tcn_bpdu br)"

definition forward_tc_bpdu :: "bool \<Rightarrow> bridge \<Rightarrow> bridge" where
  "forward_tc_bpdu fwd br = on_all_ports (\<lambda>p. p\<lparr>sp_send_tc_flg := fwd\<rparr>) br"

definition topology_change_notify :: "rat \<Rightarrow> port_state option \<Rightarrow> bridge \<Rightarrow> bridge" where
  "topology_change_notify clk st br =
     (let notice = (if st = Some FORWARD
                    then list_ex (\<lambda>p. sp_role p = Some DESIGNATED_PORT) (port_list br) else True)
      in if notice then
           let br1 = emit [EventTopologyChange] br
           in if is_root_bridge br then transmit_tc_all clk br1 else transmit_tcn_root br1
         else br)"

section \<open>Port operations that reach the bridge\<close>

definition port_change_status :: "rat \<Rightarrow> nat \<Rightarrow> port_state \<Rightarrow> bridge \<Rightarrow> bridge" where
  "port_change_status clk n new br =
     (let old = (case dict_get (br_ports br) n of None \<Rightarrow> None | Some p \<Rightarrow> sp_state p);
          br1 = (if new \<noteq> DISABLE then emit (set_port_status (br_version br) n new) br else br);
          br2 = (if new = FORWARD \<or> (old = Some FORWARD \<and> (new = DISABLE \<or> new = BLOCK))
                 then topology_change_notify clk (Some new) br1 else br1)
      in emit [EventPortStateChange n new] (on_port n (enter_status new) br2))"

definition port_up :: "rat \<Rightarrow> role \<Rightarrow> priority \<Rightarrow> times \<Rightarrow> nat \<Rightarrow> bridge \<Rightarrow> bridge" where
  "port_up clk r prio tms n br =
     (case dict_get (br_ports br) n of
        None \<Rightarrow> br
      | Some p \<Rightarrow>
          port_change_status clk n (up_state p)
            (on_port n (\<lambda>p. change_role r (p\<lparr>sp_priority := prio, sp_times := tms\<rparr>)) br))"

definition port_down :: "rat \<Rightarrow> port_state \<Rightarrow> bool \<Rightarrow> nat \<Rightarrow> bridge \<Rightarrow> bridge" where
  "port_down clk st msg_init n br =
     (case dict_get (br_ports br) n of
        None \<Rightarrow> br
      | Some p \<Rightarrow>
          if \<not> sp_enable p then br
          else port_change_status clk n st
            (on_port n (\<lambda>p. change_role DESIGNATED_PORT
                              (if msg_init then p\<lparr>sp_designated := None\<rparr> else p)) br))"

section \<open>Recalculation\<close>

definition all_ports_down :: "rat \<Rightarrow> bool \<Rightarrow> bridge \<Rightarrow> bridge" where
  "all_ports_down clk init br =
     fold (\<lambda>n b. case dict_get (br_ports b) n of
                   Some p \<Rightarrow> if sp_state p \<noteq> Some DISABLE then port_down clk BLOCK init n b else b
                 | None \<Rightarrow> b)
       (dict_keys (br_ports br)) br"

definition new_roles :: "bool \<Rightarrow> bridge \<Rightarrow> (nat, role) dict \<times> priority \<times> times" where
  "new_roles init br =
     (if init then
        (map (\<lambda>n. (n, DESIGNATED_PORT)) (dict_keys (br_ports br)), OwnPriority (br_id br), br_times br)
      else spanning_tree_algorithm (br_id br) (br_times br) (port_list br))"

definition all_ports_up :: "rat \<Rightarrow> (nat, role) dict \<Rightarrow> bridge \<Rightarrow> bridge" where
  "all_ports_up clk roles br =
     fold (\<lambda>(n, r) b. case dict_get (br_ports b) n of
                        Some p \<Rightarrow> if sp_state p \<noteq> Some DISABLE
                                  then port_up clk r (br_root_priority b) (br_root_times b) n b else b
                      | None \<Rightarrow> b)
       roles br"

definition recalculate_spanning_tree :: "rat \<Rightarrow> bool \<Rightarrow> bridge \<Rightarrow> bridge" where
  "recalculate_spanning_tree clk init br =
     (let br1 = all_ports_down clk init br;
          br2 = (if init then emit [EventTopologyChange] br1 else br1);
          (roles, prio, tms) = new_roles init br2
      in all_ports_up clk roles (br2\<lparr>br_root_priority := prio, br_root_times := tms\<rparr>))"

section \<open>Ports that come and go\<close>

definition MAX_PORT_NO :: nat where "MAX_PORT_NO = 0xfff"

definition port_add :: "of_port \<Rightarrow> port_values \<Rightarrow> bridge \<Rightarrow> bridge \<times> port_values" where
  "port_add ofp v br =
     (if op_no ofp \<le> MAX_PORT_NO then
        let (p, msgs, v') = new_port (br_version br) (br_ports_conf br (op_no ofp)) (br_id br) (br_times br) ofp v
        in ((emit msgs br)\<lparr>br_ports := dict_set (op_no ofp) p (br_ports br),
              br_ports_state := dict_set (op_no ofp) (op_link ofp) (br_ports_state br)\<rparr>, v')
      else (br, v))"

definition link_up :: "rat \<Rightarrow> of_port \<Rightarrow> bridge \<Rightarrow> bridge_result" where
  "link_up clk ofp br =
     (let n = op_no ofp in
      if dict_get (br_ports br) n = None then (br, Some KeyError)
      else
        ((port_up clk DESIGNATED_PORT (br_root_priority br) (br_root_times br) n br)
           \<lparr>br_ports_state := dict_set n (op_link ofp) (br_ports_state br)\<rparr>, None))"

definition link_down :: "rat \<Rightarrow> of_port \<Rightarrow> bridge \<Rightarrow> bridge_result" where
  "link_down clk ofp br =
     (let n = op_no ofp in
      case dict_get (br_ports br) n of
        None \<Rightarrow> (br, Some KeyError)
      | Some p \<Rightarrow>
          let br1 = (port_down clk DISABLE True n br)
                      \<lparr>br_ports_state := dict_set n (op_link ofp) (br_ports_state br)\<rparr>
          in (if sp_role p = Some ROOT_PORT then recalculate_spanning_tree clk True br1 else br1, None))"

definition port_delete :: "rat \<Rightarrow> of_port \<Rightarrow> bridge \<Rightarrow> bridge_result" where
  "port_delete clk ofp br =
     (case link_down clk ofp br of
        (br1, Some e) \<Rightarrow> (br1, Some e)
      | (br1, None) \<Rightarrow>
          (br1\<lparr>br_ports := dict_remove_if (\<lambda>k. k = op_no ofp) (br_ports br1),
               br_ports_state := dict_remove_if (\<lambda>k. k = op_no ofp) (br_ports_state br1)\<rparr>, None))"

datatype port_reason = OFPPR_ADD | OFPPR_DELETE | OFPPR_MODIFY

definition port_status_bridge ::
  "rat \<Rightarrow> port_reason \<Rightarrow> of_port \<Rightarrow> port_values \<Rightarrow> bridge \<Rightarrow> bridge_result \<times> port_values"
where
  "port_status_bridge clk reason ofp v br =
     (case reason of
        OFPPR_ADD \<Rightarrow> (let (br1, v1) = port_add ofp v br in ((br1, None), v1))
      | OFPPR_DELETE \<Rightarrow> (port_delete clk ofp br, v)
      | OFPPR_MODIFY \<Rightarrow>
          ((case dict_get (br_ports_state br) (op_no ofp) of
              None \<Rightarrow> (br, Some KeyError)
            | Some st \<Rightarrow>
                if st = op_link ofp then (br, None)
                else if odd (op_link ofp) then link_down clk ofp br
                else link_up clk ofp br), v))"

section \<open>Timers and threads\<close>

fun next_state :: "port_state \<Rightarrow> role option \<Rightarrow> port_state option" where
  "next_state LISTEN r = Some LEARN"
| "next_state LEARN r =
     Some (if r = Some ROOT_PORT \<or> r = Some DESIGNATED_PORT then FORWARD else BLOCK)"
| "next_state _ r = None"

text \<open>The forward delay of a listening or learning port is over.\<close>

definition state_timeout :: "rat \<Rightarrow> nat \<Rightarrow> bridge \<Rightarrow> bridge" where
  "state_timeout clk n br =
     (case dict_get (br_ports br) n of
        None \<Rightarrow> br
      | Some p \<Rightarrow>
          (case sp_state p of
             None \<Rightarrow> br
           | Some st \<Rightarrow>
               (case next_state st (sp_role p) of
                  None \<Rightarrow> br
                | Some new \<Rightarrow> port_change_status clk n new br)))"

text \<open>No unit has come for the maximal age: the thread ends and the tree is recalculated.\<close>

definition wait_timeout :: "rat \<Rightarrow> nat \<Rightarrow> bridge \<Rightarrow> bridge" where
  "wait_timeout clk n br =
     (case dict_get (br_ports br) n of
        None \<Rightarrow> br
      | Some p \<Rightarrow>
          if sp_wait_thread p
          then recalculate_spanning_tree clk True (on_port n (\<lambda>p. p\<lparr>sp_wait_thread := False\<rparr>) br)
          else br)"

definition hello_turn :: "addrconv \<Rightarrow> rat \<Rightarrow> nat \<Rightarrow> bridge \<Rightarrow> bridge" where
  "hello_turn ac clk n br =
     (case dict_get (br_ports br) n of
        None \<Rightarrow> br
      | Some p \<Rightarrow>
          if sp_send_thread p
          then let (p', msgs) = transmit_bpdu ac clk p in emit msgs (on_port n (\<lambda>_. p') br)
          else br)"

end
