(* ===== verification/Stp_App.thy ===== *)
theory Stp_App
  imports Stp_Bridge
begin

unbundle bit_operations_syntax

text \<open>
  Packets at a bridge, the start of a bridge, and the application \<open>class Stp\<close> of
  \<open>ryu/lib/stplib.py\<close> with its bridges and its two tables of defaults.
\<close>

section \<open>Frames\<close>

text \<open>
  The parsers of the 802.2 header and of the bridge protocol data units take the place of the
  parameter \<open>oth\<close> for those classes.  The object keeps the bytes it was parsed from.
\<close>

fun bpdu_class :: "bpdu \<Rightarrow> string" where
  "bpdu_class (ConfigurationBPDUs b) = ''ConfigurationBPDUs''"
| "bpdu_class TopologyChangeNotificationBPDUs = ''TopologyChangeNotificationBPDUs''"
| "bpdu_class (RstBPDUs b) = ''RstBPDUs''"

definition stp_parsers :: "addrconv \<Rightarrow> other_parsers \<Rightarrow> other_parsers" where
  "stp_parsers ac oth n buf =
     (if n = ''llc'' then
        (case llc_parser buf of
           Inl e \<Rightarrow> raise e
         | Inr (h, rest) \<Rightarrow> ret (Some (POther ''llc'' 2 buf), get_packet_type (dsap_addr h), rest))
      else if n = ''bpdu'' then
        (case bpdu_parser ac buf of
           Inl e \<Rightarrow> raise e
         | Inr (Some b, rest) \<Rightarrow> ret (Some (POther (bpdu_class b) 4 buf), None, rest)
         | Inr (None, rest) \<Rightarrow> ret (Some (PRaw buf), None, []))
      else oth n buf)"

fun bpdu_object :: "addrconv \<Rightarrow> proto_obj \<Rightarrow> bpdu option" where
  "bpdu_object ac (POther n l buf) =
     (case bpdu_parser ac buf of
        Inr (Some b, rest) \<Rightarrow> if n = bpdu_class b then Some b else None
      | _ \<Rightarrow> None)"
| "bpdu_object ac _ = None"

definition received_bpdu :: "addrconv \<Rightarrow> proto_obj list \<Rightarrow> bpdu option" where
  "received_bpdu ac pkt =
     (case List.map_filter (bpdu_object ac) pkt of [] \<Rightarrow> None | b # _ \<Rightarrow> Some b)"

section \<open>\<open>Bridge.packet_in_handler\<close>\<close>

definition receive_config :: "addrconv \<Rightarrow> rat \<Rightarrow> nat \<Rightarrow> config_bpdu \<Rightarrow> bridge \<Rightarrow> bridge_result" where
  "receive_config ac clk n b br =
     (case dict_get (br_ports br) n of
        None \<Rightarrow> (br, None)
      | Some p \<Rightarrow>
          if message_age b > max_age b then (br, None)
          else
            (case rcv_config_bpdu ac b p of
               Inl e \<Rightarrow> (br, Some e)
             | Inr (info, rcv_tc, p') \<Rightarrow>
                 let br1 = on_port n (\<lambda>_. p') br;
                     br2 = (if info = SUPERIOR then recalculate_spanning_tree clk False br1
                            else if rcv_tc then emit [EventTopologyChange] br1 else br1);
                     is_root = (case dict_get (br_ports br2) n of
                                  None \<Rightarrow> False | Some q \<Rightarrow> sp_role q = Some ROOT_PORT)
                 in (if is_root then forward_tc_bpdu rcv_tc br2 else br2, None)))"

definition receive_tcn :: "addrconv \<Rightarrow> rat \<Rightarrow> nat \<Rightarrow> bridge \<Rightarrow> bridge_result" where
  "receive_tcn ac clk n br =
     (case dict_get (br_ports br) n of
        None \<Rightarrow> (br, None)
      | Some p \<Rightarrow>
          (case transmit_ack_bpdu ac p of
             Inl e \<Rightarrow> (br, Some e)
           | Inr msgs \<Rightarrow> (topology_change_notify clk None (emit msgs br), None)))"

definition receive_packet ::
  "addrconv \<Rightarrow> rat \<Rightarrow> nat \<Rightarrow> bytes \<Rightarrow> proto_obj list \<Rightarrow> bridge \<Rightarrow> bridge_result"
where
  "receive_packet ac clk n data pkt br =
     (case received_bpdu ac pkt of
        Some (ConfigurationBPDUs b) \<Rightarrow> receive_config ac clk n b br
      | Some TopologyChangeNotificationBPDUs \<Rightarrow> receive_tcn ac clk n br
      | Some (RstBPDUs b) \<Rightarrow> (br, None)
      | None \<Rightarrow> (emit [EventPacketIn data] br, None))"

text \<open>\<open>None\<close>: the frame is never decoded to the end.\<close>

definition bridge_packet_in ::
  "addrconv \<Rightarrow> other_parsers \<Rightarrow> rat \<Rightarrow> nat option \<Rightarrow> bytes \<Rightarrow> bridge \<Rightarrow> bridge_result option"
where
  "bridge_packet_in ac oth clk in_port data br =
     (case in_port of
        None \<Rightarrow> Some (br, None)
      | Some n \<Rightarrow>
          (case dict_get (br_ports br) n of
             None \<Rightarrow> Some (br, None)
           | Some p \<Rightarrow>
               if sp_state p = Some DISABLE then Some (br, None)
               else
                 (case Packet ac (stp_parsers ac oth) data of
                    None \<Rightarrow> None
                  | Some (Inl e) \<Rightarrow> Some (br, Some e)
                  | Some (Inr pkt) \<Rightarrow> Some (receive_packet ac clk n data pkt br))))"

section \<open>\<open>Bridge.__init__\<close>\<close>

text \<open>
  \<open>values\<close> is the class attribute \<open>Bridge._DEFAULT_VALUE\<close> itself, into which the configuration
  of the bridge is written.
\<close>

record bridge_values =
  bv_priority :: nat
  bv_ext :: nat
  bv_max_age :: rat
  bv_hello_time :: rat
  bv_fwd_delay :: rat

definition bridge_default_init :: bridge_values where
  "bridge_default_init =
     \<lparr>bv_priority = 32768, bv_ext = 0, bv_max_age = 20, bv_hello_time = 2, bv_fwd_delay = 15\<rparr>"

record bridge_conf =
  bc_priority :: "nat option"
  bc_ext :: "nat option"
  bc_max_age :: "rat option"
  bc_hello_time :: "rat option"
  bc_fwd_delay :: "rat option"
  bc_ports :: "nat \<Rightarrow> port_conf"

definition no_port_conf :: port_conf where
  "no_port_conf = \<lparr>pc_priority = None, pc_path_cost = None, pc_enable = None\<rparr>"

definition no_bridge_conf :: bridge_conf where
  "no_bridge_conf = \<lparr>bc_priority = None, bc_ext = None, bc_max_age = None, bc_hello_time = None,
     bc_fwd_delay = None, bc_ports = (\<lambda>_. no_port_conf)\<rparr>"

definition bridge_values_for :: "bridge_conf \<Rightarrow> bridge_values \<Rightarrow> bridge_values" where
  "bridge_values_for c v =
     \<lparr>bv_priority = or_else (bc_priority c) (bv_priority v), bv_ext = or_else (bc_ext c) (bv_ext v),
      bv_max_age = or_else (bc_max_age c) (bv_max_age v),
      bv_hello_time = or_else (bc_hello_time c) (bv_hello_time v),
      bv_fwd_delay = or_else (bc_fwd_delay c) (bv_fwd_delay v)\<rparr>"

text \<open>The two tables of defaults that live as long as the program.\<close>

type_synonym defaults = "bridge_values \<times> port_values"

fun add_ports :: "of_port list \<Rightarrow> port_values \<Rightarrow> bridge \<Rightarrow> bridge \<times> port_values" where
  "add_ports [] v br = (br, v)"
| "add_ports (ofp # ofps) v br = (let (br1, v1) = port_add ofp v br in add_ports ofps v1 br1)"

definition new_bridge ::
  "addrconv \<Rightarrow> ofp_version \<Rightarrow> bridge_conf \<Rightarrow> of_port list \<Rightarrow> defaults \<Rightarrow> bridge res \<times> defaults"
where
  "new_bridge ac ver conf dp_ports ds =
     (let v = bridge_values_for conf (fst ds) in
      case dp_ports of
        [] \<Rightarrow> (Inl IndexError, (v, snd ds))
      | ofp # _ \<Rightarrow>
          (case BridgeId ac (bv_priority v) (bv_ext v) (op_hw_addr ofp) of
             Inl e \<Rightarrow> (Inl e, (v, snd ds))
           | Inr bid \<Rightarrow>
               let tms = \<lparr>t_message_age = 0, t_max_age = bv_max_age v, t_hello_time = bv_hello_time v,
                          t_forward_delay = bv_fwd_delay v\<rparr>;
                   br = \<lparr>br_version = ver, br_id = bid, br_times = tms,
                         br_root_priority = OwnPriority bid, br_root_times = tms, br_ports = [],
                         br_ports_state = [], br_ports_conf = bc_ports conf, br_out = []\<rparr>;
                   (br1, pv) = add_ports dp_ports (snd ds) br
               in (Inr (if ver = V1_0 then br1 else emit [BpduFlow] br1), (v, pv))))"

section \<open>The application\<close>

record stp_app =
  st_config :: "nat \<Rightarrow> bridge_conf option"
  st_bridges :: "(nat, bridge) dict"
  st_defaults :: defaults

definition stp_init :: stp_app where
  "stp_init = \<lparr>st_config = (\<lambda>_. None), st_bridges = [],
     st_defaults = (bridge_default_init, port_default_init)\<rparr>"

definition set_config :: "(nat \<Rightarrow> bridge_conf option) \<Rightarrow> stp_app \<Rightarrow> stp_app" where
  "set_config c s = s\<lparr>st_config := c\<rparr>"

definition unregister_bridge :: "nat \<Rightarrow> stp_app \<Rightarrow> stp_app" where
  "unregister_bridge d s = s\<lparr>st_bridges := dict_remove_if (\<lambda>k. k = d) (st_bridges s)\<rparr>"

definition register_bridge ::
  "addrconv \<Rightarrow> nat \<Rightarrow> ofp_version \<Rightarrow> of_port list \<Rightarrow> stp_app \<Rightarrow> stp_app \<times> py_exn option"
where
  "register_bridge ac d ver ofps s =
     (let s1 = unregister_bridge d s;
          conf = or_else (st_config s1 d) no_bridge_conf
      in case new_bridge ac ver conf ofps (st_defaults s1) of
           (Inl e, ds) \<Rightarrow> (s1\<lparr>st_defaults := ds\<rparr>, Some e)
         | (Inr br, ds) \<Rightarrow> (s1\<lparr>st_defaults := ds, st_bridges := dict_set d br (st_bridges s1)\<rparr>, None))"

text \<open>
  \<open>close\<close> deletes entries of the dictionary it iterates over: after the first deletion the
  iteration raises.
\<close>

definition stp_close :: "stp_app \<Rightarrow> stp_app \<times> py_exn option" where
  "stp_close s =
     (case dict_keys (st_bridges s) of
        [] \<Rightarrow> (s, None)
      | d # _ \<Rightarrow> (unregister_bridge d s, Some (OtherError ''RuntimeError'')))"

definition dispatcher_change ::
  "addrconv \<Rightarrow> bool \<Rightarrow> nat \<Rightarrow> ofp_version \<Rightarrow> of_port list \<Rightarrow> stp_app \<Rightarrow> stp_app \<times> py_exn option"
where
  "dispatcher_change ac main d ver ofps s =
     (if main then register_bridge ac d ver ofps s else (unregister_bridge d s, None))"

definition on_bridge :: "nat \<Rightarrow> bridge \<Rightarrow> stp_app \<Rightarrow> stp_app" where
  "on_bridge d br s = s\<lparr>st_bridges := dict_set d br (st_bridges s)\<rparr>"

definition stp_packet_in ::
  "addrconv \<Rightarrow> other_parsers \<Rightarrow> rat \<Rightarrow> nat \<Rightarrow> nat option \<Rightarrow> bytes \<Rightarrow> stp_app \<Rightarrow> (stp_app \<times> py_exn option) option"
where
  "stp_packet_in ac oth clk d in_port data s =
     (case dict_get (st_bridges s) d of
        None \<Rightarrow> Some (s, None)
      | Some br \<Rightarrow>
          map_option (\<lambda>(br', e). (on_bridge d br' s, e)) (bridge_packet_in ac oth clk in_port data br))"

definition port_status_handler ::
  "rat \<Rightarrow> nat \<Rightarrow> port_reason \<Rightarrow> of_port \<Rightarrow> stp_app \<Rightarrow> stp_app \<times> py_exn option"
where
  "port_status_handler clk d reason ofp s =
     (case dict_get (st_bridges s) d of
        None \<Rightarrow> (s, None)
      | Some br \<Rightarrow>
          (case port_status_bridge clk reason ofp (snd (st_defaults s)) br of
             ((br', e), v) \<Rightarrow> (on_bridge d br' (s\<lparr>st_defaults := (fst (st_defaults s), v)\<rparr>), e)))"

end
