(* ===== verification/Stp_Invariants.thy ===== *)
theory Stp_Invariants
  imports Stp_App
begin

text \<open>
  What every operation of a bridge keeps: at most one root port, whose vector is the priority of
  the root; a disabled port is designated; a port that is not designated does not forward; the
  timers and the sender run only where they belong.  The flags of topology changes play no part,
  so the operations are first described on ports without them.
\<close>

section \<open>Ports without the flags of topology changes\<close>

definition core :: "stp_port \<Rightarrow> stp_port" where
  "core p = p\<lparr>sp_send_tc_flg := False, sp_send_tc_timer := None, sp_send_tcn_flg := False\<rparr>"

definition cores :: "bridge \<Rightarrow> (nat, stp_port) dict" where
  "cores br = map (\<lambda>(k, p). (k, core p)) (br_ports br)"

definition upd :: "nat \<Rightarrow> (stp_port \<Rightarrow> stp_port) \<Rightarrow> (nat, stp_port) dict \<Rightarrow> (nat, stp_port) dict" where
  "upd n f ps = map (\<lambda>(k, p). (k, if k = n then f p else p)) ps"

definition down_port :: "port_state \<Rightarrow> bool \<Rightarrow> stp_port \<Rightarrow> stp_port" where
  "down_port st init p =
     (if sp_enable p
      then enter_status st (change_role DESIGNATED_PORT (if init then p\<lparr>sp_designated := None\<rparr> else p))
      else p)"

definition up_port :: "role \<Rightarrow> priority \<Rightarrow> times \<Rightarrow> stp_port \<Rightarrow> stp_port" where
  "up_port r prio tms p =
     enter_status (up_state p) (change_role r (p\<lparr>sp_priority := prio, sp_times := tms\<rparr>))"

lemma core_simps [simp]:
  "sp_ofport (core p) = sp_ofport p" "sp_enable (core p) = sp_enable p"
  "sp_port_id (core p) = sp_port_id p" "sp_path_cost (core p) = sp_path_cost p"
  "sp_state (core p) = sp_state p" "sp_role (core p) = sp_role p" "sp_designated (core p) = sp_designated p"
  "sp_wait_thread (core p) = sp_wait_thread p" "sp_send_thread (core p) = sp_send_thread p"
  "sp_priority (core p) = sp_priority p" "sp_times (core p) = sp_times p"
  "core (core p) = core p"
  by (simp_all add: core_def)

lemma core_flags [simp]:
  "core (transmit_tc_bpdu clk p) = core p" "core (transmit_tcn_bpdu p) = core p"
  "core (p\<lparr>sp_send_tc_flg := b\<rparr>) = core p"
  by (simp_all add: core_def transmit_tc_bpdu_def transmit_tcn_bpdu_def)

lemma core_enter: "core (enter_status st p) = core (enter_status st (core p))"
  by (simp add: core_def enter_status_def)

lemma core_role: "core (change_role r p) = change_role r (core p)"
  by (simp add: core_def change_role_def)

lemma core_enter_role:
  "core (enter_status st (change_role r p)) = enter_status st (change_role r (core p))"
  by (simp add: core_def enter_status_def change_role_def)

lemma core_updates [simp]:
  "core (p\<lparr>sp_designated := d\<rparr>) = (core p)\<lparr>sp_designated := d\<rparr>"
  "core (p\<lparr>sp_priority := prio\<rparr>) = (core p)\<lparr>sp_priority := prio\<rparr>"
  "core (p\<lparr>sp_times := tms\<rparr>) = (core p)\<lparr>sp_times := tms\<rparr>"
  "core (p\<lparr>sp_wait_thread := b\<rparr>) = (core p)\<lparr>sp_wait_thread := b\<rparr>"
  "core (p\<lparr>sp_send_thread := b\<rparr>) = (core p)\<lparr>sp_send_thread := b\<rparr>"
  by (cases p, simp add: core_def)+

lemma core_down [simp]: "core (down_port st init p) = down_port st init (core p)"
  by (simp add: down_port_def core_enter_role)

lemma core_up [simp]: "core (up_port r prio tms p) = up_port r prio tms (core p)"
  by (simp add: up_port_def core_enter_role up_state_def)

section \<open>Operations on the ports without flags\<close>

lemma br_ports_emit [simp]: "br_ports (emit xs br) = br_ports br"
  by (simp add: emit_def)

lemma dict_get_map: "dict_get (map (\<lambda>(k, p). (k, f k p)) d) n = map_option (f n) (dict_get d n)"
  by (induction d) (auto simp: dict_get_def)

lemma cores_get: "dict_get (cores br) n = map_option core (dict_get (br_ports br) n)"
  unfolding cores_def by (rule dict_get_map)

lemma cores_emit [simp]: "cores (emit xs br) = cores br"
  by (simp add: cores_def)

lemma cores_on_all: "(\<And>p. core (f p) = core p) \<Longrightarrow> cores (on_all_ports f br) = cores br"
  by (simp add: cores_def on_all_ports_def split_def)

lemma cores_on_port: "(\<And>p. core (f p) = g (core p)) \<Longrightarrow> cores (on_port n f br) = upd n g (cores br)"
  by (auto simp: cores_def on_port_def upd_def)

lemma upd_id [simp]: "upd n (\<lambda>p. p) d = d"
  by (induction d) (auto simp: upd_def)

lemma upd_upd: "upd n g (upd n f d) = upd n (\<lambda>p. g (f p)) d"
  by (auto simp: upd_def)

lemma upd_absent: "dict_get d n = None \<Longrightarrow> upd n f d = d"
  by (induction d) (auto simp: upd_def dict_get_def split: if_splits)

lemma upd_cong: "(\<And>p. dict_get d n = Some p \<Longrightarrow> f p = g p) \<Longrightarrow> dict_wf d \<Longrightarrow> upd n f d = upd n g d"
  by (induction d) (force simp: upd_def dict_get_def dict_wf_def split: if_splits)+

lemma dict_keys_upd [simp]: "dict_keys (upd n f d) = dict_keys d"
  by (auto simp: dict_keys_def upd_def)

lemma dict_wf_keys: "dict_wf d \<longleftrightarrow> distinct (dict_keys d)"
  by (simp add: dict_wf_def dict_keys_def)

lemma dict_get_upd: "dict_get (upd n f d) k = (if k = n then map_option f (dict_get d k) else dict_get d k)"
  unfolding upd_def dict_get_map by (cases "dict_get d k") auto

lemma cores_notify [simp]: "cores (topology_change_notify clk st br) = cores br"
proof -
  have "cores (on_port n transmit_tcn_bpdu b) = cores b" for n b
    by (simp add: cores_on_port [where g = "\<lambda>p. p"])
  then show ?thesis
    by (auto simp: topology_change_notify_def transmit_tc_all_def transmit_tcn_root_def Let_def cores_on_all
        split: option.split prod.split)
qed

lemma cores_change_status:
  "cores (port_change_status clk n st br) = upd n (\<lambda>p. core (enter_status st p)) (cores br)"
proof -
  have "cores (on_port n (enter_status st) b) = upd n (\<lambda>p. core (enter_status st p)) (cores b)" for b
    by (rule cores_on_port) (rule core_enter)
  then show ?thesis by (simp add: port_change_status_def Let_def)
qed

lemma core_enter_role_core:
  "core (enter_status st (change_role r (core p))) = enter_status st (change_role r (core p))"
  by (simp add: core_enter_role)

lemma dict_wf_cores [simp]: "dict_wf (cores br) = dict_wf (br_ports br)"
  by (simp add: dict_wf_def cores_def comp_def split_def)

lemma dict_keys_cores [simp]: "dict_keys (cores br) = dict_keys (br_ports br)"
  by (simp add: dict_keys_def cores_def comp_def split_def)

lemma cores_port_up:
  assumes "dict_wf (br_ports br)"
  shows "cores (port_up clk r prio tms n br) = upd n (up_port r prio tms) (cores br)"
proof (cases "dict_get (br_ports br) n")
  case None
  then show ?thesis by (simp add: port_up_def upd_absent cores_get)
next
  case (Some p)
  let ?g = "\<lambda>p. change_role r (p\<lparr>sp_priority := prio, sp_times := tms\<rparr>)"
  have g: "cores (on_port n ?g br) = upd n ?g (cores br)"
    by (rule cores_on_port) (simp add: core_role)
  have "cores (port_up clk r prio tms n br) = upd n (\<lambda>q. core (enter_status (up_state p) (?g q))) (cores br)"
    by (simp add: port_up_def Some cores_change_status g upd_upd)
  also have "\<dots> = upd n (up_port r prio tms) (cores br)"
    using assms by (intro upd_cong) (auto simp: cores_get Some core_enter_role up_port_def up_state_def)
  finally show ?thesis .
qed

lemma cores_port_down:
  assumes "dict_wf (br_ports br)"
  shows "cores (port_down clk st init n br) = upd n (down_port st init) (cores br)"
proof (cases "dict_get (br_ports br) n")
  case None
  then show ?thesis by (simp add: port_down_def upd_absent cores_get)
next
  case (Some p)
  let ?g = "\<lambda>p. change_role DESIGNATED_PORT (if init then p\<lparr>sp_designated := None\<rparr> else p)"
  have g: "cores (on_port n ?g br) = upd n ?g (cores br)"
    by (rule cores_on_port) (simp add: core_role)
  have "cores (port_down clk st init n br) =
      upd n (\<lambda>q. if sp_enable p then core (enter_status st (?g q)) else q) (cores br)"
    by (cases "sp_enable p") (simp_all add: port_down_def Some cores_change_status g upd_upd)
  also have "\<dots> = upd n (down_port st init) (cores br)"
    using assms by (intro upd_cong) (auto simp: cores_get Some core_enter_role down_port_def)
  finally show ?thesis .
qed

lemma dict_wf_of_cores: "cores b = upd n f (cores b0) \<Longrightarrow> dict_wf (br_ports b) = dict_wf (br_ports b0)"
  by (metis dict_keys_upd dict_wf_cores dict_wf_keys)

section \<open>Recalculation\<close>

definition block_port :: "bool \<Rightarrow> stp_port \<Rightarrow> stp_port" where
  "block_port init p = (if sp_state p \<noteq> Some DISABLE then down_port BLOCK init p else p)"

definition raise_port :: "role \<Rightarrow> priority \<Rightarrow> times \<Rightarrow> stp_port \<Rightarrow> stp_port" where
  "raise_port r prio tms p = (if sp_state p \<noteq> Some DISABLE then up_port r prio tms p else p)"

definition by_role :: "(nat, role) dict \<Rightarrow> priority \<Rightarrow> times \<Rightarrow> nat \<Rightarrow> stp_port \<Rightarrow> stp_port" where
  "by_role roles prio tms k p = (case dict_get roles k of None \<Rightarrow> p | Some r \<Rightarrow> raise_port r prio tms p)"

lemma fold_upd_keys: "dict_wf d \<Longrightarrow> fold (\<lambda>n. upd n f) (dict_keys d) d = map (\<lambda>(k, p). (k, f p)) d"
proof (induction d)
  case Nil
  then show ?case by (simp add: dict_keys_def)
next
  case (Cons a d)
  obtain k p where a: "a = (k, p)" by (cases a)
  have notin: "k \<notin> set ns \<Longrightarrow> fold (\<lambda>n. upd n f) ns ((k, q) # e) = (k, q) # fold (\<lambda>n. upd n f) ns e" for ns q e
    by (induction ns arbitrary: e) (auto simp: upd_def)
  have k: "k \<notin> set (dict_keys d)" "dict_wf d" using Cons.prems by (auto simp: a dict_wf_def dict_keys_def)
  have "dict_get d k = None" using k(1) by (meson dict_keys_iff)
  then have "upd k f d = d" by (rule upd_absent)
  then have "fold (\<lambda>n. upd n f) (dict_keys (a # d)) (a # d) = fold (\<lambda>n. upd n f) (dict_keys d) ((k, f p) # d)"
    by (simp add: a dict_keys_def) (simp add: upd_def)
  then show ?case using notin [OF k(1)] Cons.IH [OF k(2)] by (simp add: a)
qed

lemma fold_upd_roles:
  "dict_wf roles \<Longrightarrow>
     fold (\<lambda>(n, r). upd n (F r)) roles d =
     map (\<lambda>(k, p). (k, case dict_get roles k of None \<Rightarrow> p | Some r \<Rightarrow> F r p)) d"
proof (induction roles arbitrary: d)
  case Nil
  then show ?case by simp
next
  case (Cons a roles)
  obtain n r where a: "a = (n, r)" by (cases a)
  have n: "dict_get roles n = None" and wf: "dict_wf roles"
    using Cons.prems by (auto simp: a dict_wf_def dict_get_def map_of_eq_None_iff)
  have "fold (\<lambda>(n, r). upd n (F r)) (a # roles) d =
      map (\<lambda>(k, p). (k, case dict_get roles k of None \<Rightarrow> p | Some r \<Rightarrow> F r p)) (upd n (F r) d)"
    using Cons.IH [OF wf] by (simp add: a)
  also have "\<dots> = map (\<lambda>(k, p). (k, case dict_get (a # roles) k of None \<Rightarrow> p | Some r \<Rightarrow> F r p)) d"
    using n by (auto simp: upd_def a dict_get_def)
  finally show ?case .
qed

lemma cores_all_down:
  assumes "dict_wf (br_ports br)"
  shows "cores (all_ports_down clk init br) = map (\<lambda>(k, p). (k, block_port init p)) (cores br)"
proof -
  let ?F = "\<lambda>n b. case dict_get (br_ports b) n of
                   Some p \<Rightarrow> if sp_state p \<noteq> Some DISABLE then port_down clk BLOCK init n b else b
                 | None \<Rightarrow> b"
  have step: "cores (?F n b) = upd n (block_port init) (cores b)" if wf: "dict_wf (br_ports b)" for n b
  proof (cases "dict_get (br_ports b) n")
    case None
    then show ?thesis by (simp add: upd_absent cores_get)
  next
    case (Some p)
    have "upd n (down_port BLOCK init) (cores b) = upd n (block_port init) (cores b)"
      if "sp_state p \<noteq> Some DISABLE"
      using wf that by (intro upd_cong) (auto simp: cores_get Some block_port_def)
    moreover have "upd n (\<lambda>q. q) (cores b) = upd n (block_port init) (cores b)"
      if "sp_state p = Some DISABLE"
      using wf that by (intro upd_cong) (auto simp: cores_get Some block_port_def)
    ultimately show ?thesis by (simp add: Some cores_port_down [OF wf])
  qed
  have "dict_wf (br_ports b) \<Longrightarrow> cores (fold ?F ns b) = fold (\<lambda>n. upd n (block_port init)) ns (cores b)" for ns b
    by (induction ns arbitrary: b) (simp_all add: step dict_wf_of_cores [OF step])
  then show ?thesis
    using assms fold_upd_keys [of "cores br" "block_port init"] by (simp add: all_ports_down_def)
qed

lemma br_fields_notify [simp]:
  "br_root_priority (topology_change_notify clk st br) = br_root_priority br"
  "br_root_times (topology_change_notify clk st br) = br_root_times br"
  "br_id (topology_change_notify clk st br) = br_id br"
  "br_times (topology_change_notify clk st br) = br_times br"
  "br_ports_state (topology_change_notify clk st br) = br_ports_state br"
  by (simp_all add: topology_change_notify_def transmit_tc_all_def transmit_tcn_root_def on_all_ports_def
      on_port_def emit_def Let_def split: option.split prod.split)

lemma br_fields_status [simp]:
  "br_root_priority (port_change_status clk n st br) = br_root_priority br"
  "br_root_times (port_change_status clk n st br) = br_root_times br"
  "br_id (port_change_status clk n st br) = br_id br"
  "br_times (port_change_status clk n st br) = br_times br"
  "br_ports_state (port_change_status clk n st br) = br_ports_state br"
  by (simp_all add: port_change_status_def Let_def on_port_def emit_def)

lemma br_fields_up [simp]:
  "br_root_priority (port_up clk r prio tms n br) = br_root_priority br"
  "br_root_times (port_up clk r prio tms n br) = br_root_times br"
  "br_id (port_up clk r prio tms n br) = br_id br"
  "br_times (port_up clk r prio tms n br) = br_times br"
  "br_ports_state (port_up clk r prio tms n br) = br_ports_state br"
  by (simp_all add: port_up_def on_port_def split: option.split)

lemma br_fields_down [simp]:
  "br_root_priority (port_down clk st init n br) = br_root_priority br"
  "br_id (port_down clk st init n br) = br_id br"
  "br_times (port_down clk st init n br) = br_times br"
  "br_ports_state (port_down clk st init n br) = br_ports_state br"
  by (simp_all add: port_down_def on_port_def split: option.split)

text \<open>A fold of steps that keep a field keeps it.\<close>

lemma fold_keeps: "(\<And>x b. f (F x b) = f b) \<Longrightarrow> f (fold F xs b) = f b"
  by (induction xs arbitrary: b) simp_all

lemma br_fields_all_down [simp]:
  "br_id (all_ports_down clk init br) = br_id br"
  "br_times (all_ports_down clk init br) = br_times br"
  "br_ports_state (all_ports_down clk init br) = br_ports_state br"
  unfolding all_ports_down_def by (rule fold_keeps, simp split: option.split)+

lemma br_fields_all_up [simp]:
  "br_root_priority (all_ports_up clk roles br) = br_root_priority br"
  "br_root_times (all_ports_up clk roles br) = br_root_times br"
  "br_id (all_ports_up clk roles br) = br_id br"
  "br_times (all_ports_up clk roles br) = br_times br"
  "br_ports_state (all_ports_up clk roles br) = br_ports_state br"
  unfolding all_ports_up_def by (rule fold_keeps, simp split: option.split prod.split)+

lemma cores_all_up:
  assumes "dict_wf (br_ports br)" and "dict_wf roles"
  shows "cores (all_ports_up clk roles br) =
    map (\<lambda>(k, p). (k, by_role roles (br_root_priority br) (br_root_times br) k p)) (cores br)"
proof -
  let ?G = "\<lambda>(n, r) b. case dict_get (br_ports b) n of
                        Some p \<Rightarrow> if sp_state p \<noteq> Some DISABLE
                                  then port_up clk r (br_root_priority b) (br_root_times b) n b else b
                      | None \<Rightarrow> b"
  let ?r = "\<lambda>r. raise_port r (br_root_priority br) (br_root_times br)"
  have step: "cores (?G (n, r) b) = upd n (?r r) (cores b)"
    if wf: "dict_wf (br_ports b)" and rp: "br_root_priority b = br_root_priority br"
      "br_root_times b = br_root_times br" for n r b
  proof (cases "dict_get (br_ports b) n")
    case None
    then show ?thesis by (simp add: upd_absent cores_get)
  next
    case (Some p)
    have "upd n (up_port r (br_root_priority br) (br_root_times br)) (cores b) = upd n (?r r) (cores b)"
      if "sp_state p \<noteq> Some DISABLE"
      using wf that by (intro upd_cong) (auto simp: cores_get Some raise_port_def)
    moreover have "upd n (\<lambda>q. q) (cores b) = upd n (?r r) (cores b)" if "sp_state p = Some DISABLE"
      using wf that by (intro upd_cong) (auto simp: cores_get Some raise_port_def)
    ultimately show ?thesis by (simp add: Some cores_port_up [OF wf] rp)
  qed
  have keep: "br_root_priority (?G x b) = br_root_priority b" "br_root_times (?G x b) = br_root_times b" for x b
    by (simp_all split: option.split prod.split)
  have "dict_wf (br_ports b) \<Longrightarrow> br_root_priority b = br_root_priority br \<Longrightarrow>
      br_root_times b = br_root_times br \<Longrightarrow>
      cores (fold ?G rs b) = fold (\<lambda>(n, r). upd n (?r r)) rs (cores b)" for rs b
  proof (induction rs arbitrary: b)
    case (Cons x rs)
    obtain n r where x: "x = (n, r)" by (cases x)
    show ?case
      using Cons.IH [of "?G x b"] Cons.prems step [of b n r] dict_wf_of_cores [OF step [of b n r]] keep [of x b]
      by (simp add: x)
  qed simp
  then show ?thesis
    using assms fold_upd_roles [OF assms(2), of ?r "cores br"] by (simp add: all_ports_up_def by_role_def)
qed

section \<open>The invariant\<close>

definition port_ok :: "stp_port \<Rightarrow> bool" where
  "port_ok p \<longleftrightarrow>
     sp_state p \<noteq> None \<and> sp_role p \<noteq> None \<and>
     (sp_role p = Some NON_DESIGNATED_PORT \<longrightarrow> sp_state p \<noteq> Some FORWARD) \<and>
     (sp_state p = Some DISABLE \<longrightarrow> sp_role p = Some DESIGNATED_PORT) \<and>
     (\<not> sp_enable p \<longrightarrow> sp_state p = Some DISABLE) \<and>
     (sp_wait_thread p \<longrightarrow> sp_role p \<noteq> Some DESIGNATED_PORT) \<and>
     (sp_send_thread p \<longrightarrow> sp_state p \<in> {Some LISTEN, Some LEARN, Some FORWARD})"

definition ports_ok :: "(nat, stp_port) dict \<Rightarrow> bool" where
  "ports_ok d \<longleftrightarrow> dict_wf d \<and> (\<forall>k p. dict_get d k = Some p \<longrightarrow> sp_no p = k \<and> port_ok p)"

definition is_root_port :: "stp_port \<Rightarrow> bool" where
  "is_root_port p \<longleftrightarrow> sp_role p = Some ROOT_PORT"

definition root_ok :: "bridge_id \<Rightarrow> priority \<Rightarrow> (nat, stp_port) dict \<Rightarrow> bool" where
  "root_ok own prio d \<longleftrightarrow>
     bid_value (pr_root_id prio) \<le> bid_value own \<and>
     (\<forall>n p. dict_get d n = Some p \<and> is_root_port p \<longrightarrow>
        (\<exists>v t. sp_designated p = Some (v, t) \<and> prio = RcvPriority v \<and>
               bid_value (pv_root_id v) < bid_value own) \<and>
        (\<forall>m q. dict_get d m = Some q \<and> is_root_port q \<longrightarrow> m = n))"

definition bridge_ok :: "bridge \<Rightarrow> bool" where
  "bridge_ok br \<longleftrightarrow>
     ports_ok (cores br) \<and> root_ok (br_id br) (br_root_priority br) (cores br) \<and>
     set (dict_keys (br_ports_state br)) = set (dict_keys (br_ports br))"

lemma port_ok_core [simp]: "port_ok (core p) = port_ok p"
  by (simp add: port_ok_def)

lemma is_root_core [simp]: "is_root_port (core p) = is_root_port p"
  by (simp add: is_root_port_def)

subsection \<open>Single ports\<close>

lemma enter_status_fields [simp]:
  "sp_state (enter_status st p) = Some st" "sp_role (enter_status st p) = sp_role p"
  "sp_enable (enter_status st p) = sp_enable p" "sp_ofport (enter_status st p) = sp_ofport p"
  "sp_designated (enter_status st p) = sp_designated p"
  "sp_wait_thread (enter_status st p) = sp_wait_thread p"
  "sp_priority (enter_status st p) = sp_priority p" "sp_times (enter_status st p) = sp_times p"
  "sp_send_thread (enter_status st p) =
     (st = LISTEN \<or> (st \<noteq> DISABLE \<and> st \<noteq> BLOCK \<and> sp_send_thread p))"
  by (auto simp: enter_status_def)

lemma change_role_fields [simp]:
  "sp_role (change_role r p) = Some r" "sp_state (change_role r p) = sp_state p"
  "sp_enable (change_role r p) = sp_enable p" "sp_ofport (change_role r p) = sp_ofport p"
  "sp_designated (change_role r p) = sp_designated p"
  "sp_priority (change_role r p) = sp_priority p" "sp_times (change_role r p) = sp_times p"
  "sp_wait_thread (change_role r p) =
     (if sp_role p = Some r then sp_wait_thread p else r \<noteq> DESIGNATED_PORT)"
  by (auto simp: change_role_def) (cases r; simp)+

lemma block_port_ok:
  assumes "port_ok p"
  shows "port_ok (block_port init p)" "sp_role (block_port init p) = Some DESIGNATED_PORT"
    "sp_state (block_port init p) = (if sp_state p = Some DISABLE then Some DISABLE else Some BLOCK)"
    "sp_ofport (block_port init p) = sp_ofport p" "sp_enable (block_port init p) = sp_enable p"
    "sp_designated (block_port init p) =
       (if init \<and> sp_state p \<noteq> Some DISABLE then None else sp_designated p)"
  using assms by (auto simp: block_port_def down_port_def port_ok_def)

lemma raise_port_ok:
  assumes "port_ok p" and "sp_state p \<noteq> Some FORWARD"
  shows "port_ok (raise_port r prio tms p)"
    "sp_role (raise_port r prio tms p) = (if sp_state p = Some DISABLE then sp_role p else Some r)"
    "sp_state (raise_port r prio tms p) = (if sp_state p = Some DISABLE then Some DISABLE else Some LISTEN)"
    "sp_ofport (raise_port r prio tms p) = sp_ofport p"
    "sp_designated (raise_port r prio tms p) = sp_designated p"
  using assms by (auto simp: raise_port_def up_port_def up_state_def port_ok_def)

lemma down_disable_ok:
  assumes "port_ok p"
  shows "port_ok (down_port DISABLE True p)" "\<not> is_root_port (down_port DISABLE True p)"
    "sp_ofport (down_port DISABLE True p) = sp_ofport p"
  using assms by (auto simp: down_port_def port_ok_def is_root_port_def)

lemma up_designated_ok:
  assumes "port_ok p"
  shows "port_ok (up_port DESIGNATED_PORT prio tms p)" "\<not> is_root_port (up_port DESIGNATED_PORT prio tms p)"
    "sp_ofport (up_port DESIGNATED_PORT prio tms p) = sp_ofport p"
  using assms by (auto simp: up_port_def up_state_def port_ok_def is_root_port_def)

lemma state_timer_ok:
  assumes "port_ok p" and "sp_state p = Some st" and "next_state st (sp_role p) = Some new"
  shows "port_ok (enter_status new p)"
  using assms by (cases st) (auto simp: port_ok_def split: if_splits)

subsection \<open>Dictionaries of ports\<close>

lemma ports_ok_upd:
  assumes "ports_ok d" and "\<And>p. dict_get d n = Some p \<Longrightarrow> sp_no (f p) = sp_no p \<and> port_ok (f p)"
  shows "ports_ok (upd n f d)"
  using assms by (auto simp: ports_ok_def dict_get_upd dict_wf_keys)

lemma dict_wf_map: "dict_wf (map (\<lambda>(k, p). (k, f k p)) d) = dict_wf d"
  by (simp add: dict_wf_def comp_def split_def)

lemma ports_ok_map:
  assumes "ports_ok d" and "\<And>k p. dict_get d k = Some p \<Longrightarrow> sp_no (f k p) = sp_no p \<and> port_ok (f k p)"
  shows "ports_ok (map (\<lambda>(k, p). (k, f k p)) d)"
  using assms unfolding ports_ok_def dict_wf_map dict_get_map by fastforce

lemma root_okD:
  assumes "root_ok own prio d" and "dict_get d n = Some p" and "is_root_port p"
  shows "\<exists>v t. sp_designated p = Some (v, t) \<and> prio = RcvPriority v \<and> bid_value (pv_root_id v) < bid_value own"
    and "dict_get d m = Some q \<Longrightarrow> is_root_port q \<Longrightarrow> m = n"
proof -
  note both = assms(1) [unfolded root_ok_def, THEN conjunct2, THEN spec [of _ n], THEN spec [of _ p],
      THEN mp, OF conjI, OF assms(2,3)]
  show "\<exists>v t. sp_designated p = Some (v, t) \<and> prio = RcvPriority v \<and> bid_value (pv_root_id v) < bid_value own"
    using both by (rule conjunct1)
  show "dict_get d m = Some q \<Longrightarrow> is_root_port q \<Longrightarrow> m = n"
    using both [THEN conjunct2, THEN spec [of _ m], THEN spec [of _ q], THEN mp] by simp
qed

lemma root_ok_le: "root_ok own prio d \<Longrightarrow> bid_value (pr_root_id prio) \<le> bid_value own"
  unfolding root_ok_def by (rule conjunct1)

text \<open>Root ports of the new dictionary are root ports of the old one with the same vector.\<close>

lemma root_ok_sub:
  assumes "root_ok own prio d"
    and "\<And>m p. dict_get d' m = Some p \<Longrightarrow> is_root_port p \<Longrightarrow>
      \<exists>q. dict_get d m = Some q \<and> is_root_port q \<and> sp_designated p = sp_designated q"
  shows "root_ok own prio d'"
  unfolding root_ok_def
proof (intro conjI allI impI root_ok_le [OF assms(1)]; (elim conjE)?)
  fix m p assume p: "dict_get d' m = Some p" "is_root_port p"
  then obtain p' where p': "dict_get d m = Some p'" "is_root_port p'" "sp_designated p = sp_designated p'"
    using assms(2) by blast
  then show "\<exists>v t. sp_designated p = Some (v, t) \<and> prio = RcvPriority v \<and> bid_value (pv_root_id v) < bid_value own"
    using root_okD(1) [OF assms(1) p'(1,2)] by simp
  fix k q assume "dict_get d' k = Some q" "is_root_port q"
  then obtain q' where q': "dict_get d k = Some q'" "is_root_port q'" using assms(2) by blast
  show "k = m" by (rule root_okD(2) [OF assms(1) p'(1,2) q'])
qed

lemma root_ok_upd:
  assumes "root_ok own prio d"
    and "\<And>p. dict_get d n = Some p \<Longrightarrow> is_root_port (f p) \<Longrightarrow> is_root_port p \<and> sp_designated (f p) = sp_designated p"
  shows "root_ok own prio (upd n f d)"
  using assms(1)
proof (rule root_ok_sub)
  fix m p assume "dict_get (upd n f d) m = Some p" "is_root_port p"
  then show "\<exists>q. dict_get d m = Some q \<and> is_root_port q \<and> sp_designated p = sp_designated q"
    using assms(2) by (auto simp: dict_get_upd split: if_splits)
qed

subsection \<open>Recalculation\<close>

lemma ports_ok_get:
  assumes "ports_ok (cores br)" and "dict_get (br_ports br) k = Some p"
  shows "sp_no p = k" "port_ok p"
proof -
  have "dict_get (cores br) k = Some (core p)" by (simp add: cores_get assms(2))
  then have "sp_no (core p) = k \<and> port_ok (core p)" using assms(1) unfolding ports_ok_def by blast
  then show "sp_no p = k" "port_ok p" by simp_all
qed

lemma ports_ok_wf: "ports_ok (cores br) \<Longrightarrow> dict_wf (br_ports br)"
  by (simp add: ports_ok_def)

lemma ports_ok_numbers:
  assumes "ports_ok (cores br)"
  shows "map sp_no (port_list br) = dict_keys (br_ports br)"
proof -
  have "sp_no p = k" if "(k, p) \<in> set (br_ports br)" for k p
    using that ports_ok_wf [OF assms] ports_ok_get [OF assms]
    by (simp add: dict_get_def dict_wf_def)
  then show ?thesis by (auto simp: port_list_def dict_keys_def)
qed

lemma port_list_get:
  assumes "ports_ok (cores br)" and "p \<in> set (port_list br)"
  shows "dict_get (br_ports br) (sp_no p) = Some p"
proof -
  obtain k where "(k, p) \<in> set (br_ports br)" using assms(2) by (auto simp: port_list_def)
  then have "dict_get (br_ports br) k = Some p"
    using ports_ok_wf [OF assms(1)] by (simp add: dict_get_def dict_wf_def)
  with ports_ok_get(1) [OF assms(1) this] show ?thesis by simp
qed

definition roles_fit :: "bridge \<Rightarrow> (nat, role) dict \<Rightarrow> priority \<Rightarrow> bool" where
  "roles_fit br roles prio \<longleftrightarrow>
     bid_value (pr_root_id prio) \<le> bid_value (br_id br) \<and>
     (\<forall>n. dict_get roles n = Some ROOT_PORT \<longrightarrow>
        (\<exists>p v t. dict_get (br_ports br) n = Some p \<and> sp_designated p = Some (v, t) \<and>
                 prio = RcvPriority v \<and> bid_value (pv_root_id v) < bid_value (br_id br)) \<and>
        (\<forall>m. dict_get roles m = Some ROOT_PORT \<longrightarrow> m = n))"

lemma roles_fitD:
  assumes "roles_fit br roles prio" and "dict_get roles n = Some ROOT_PORT"
  shows "\<exists>p v t. dict_get (br_ports br) n = Some p \<and> sp_designated p = Some (v, t) \<and>
      prio = RcvPriority v \<and> bid_value (pv_root_id v) < bid_value (br_id br)"
    and "dict_get roles m = Some ROOT_PORT \<Longrightarrow> m = n"
proof -
  note both = assms(1) [unfolded roles_fit_def, THEN conjunct2, THEN spec [of _ n], THEN mp, OF assms(2)]
  show "\<exists>p v t. dict_get (br_ports br) n = Some p \<and> sp_designated p = Some (v, t) \<and>
      prio = RcvPriority v \<and> bid_value (pv_root_id v) < bid_value (br_id br)"
    using both by (rule conjunct1)
  show "dict_get roles m = Some ROOT_PORT \<Longrightarrow> m = n"
    using both [THEN conjunct2, THEN spec [of _ m]] by simp
qed

lemma dict_get_const: "dict_get (map (\<lambda>n. (f n, x)) ns) k \<in> {None, Some x}"
  by (induction ns) (auto simp: dict_get_def)

lemma new_roles_fit:
  assumes "ports_ok (cores br)" and "new_roles init br = (roles, prio, tms)"
  shows "dict_wf roles" "roles_fit br roles prio"
proof -
  have nums: "distinct (map sp_no (port_list br))"
    using ports_ok_wf [OF assms(1)] by (simp add: ports_ok_numbers [OF assms(1)] dict_wf_keys)
  have "dict_wf roles \<and> roles_fit br roles prio"
  proof (cases "init \<or> select_root_port (br_id br) None (port_list br) = None")
    case True
    then have r: "roles = map (\<lambda>n. (n, DESIGNATED_PORT)) (dict_keys (br_ports br)) \<or>
        roles = map (\<lambda>p. (sp_no p, DESIGNATED_PORT)) (filter not_disabled (port_list br))"
      and prio: "prio = OwnPriority (br_id br)"
      using assms(2) by (auto simp: new_roles_def algorithm_own_root split: if_splits)
    have "dict_get roles n \<noteq> Some ROOT_PORT" for n
      using r dict_get_const [of "\<lambda>n. n" DESIGNATED_PORT "dict_keys (br_ports br)" n]
        dict_get_const [of sp_no DESIGNATED_PORT "filter not_disabled (port_list br)" n] by auto
    moreover have "dict_wf roles"
      using r ports_ok_wf [OF assms(1)] nums
      by (auto simp: dict_wf_def dict_keys_def comp_def distinct_map inj_on_def)
    ultimately show ?thesis by (simp add: roles_fit_def prio)
  next
    case False
    then obtain r where r: "select_root_port (br_id br) None (port_list br) = Some r" and "\<not> init" by auto
    obtain v t where v: "sp_designated r = Some (v, t)" "bid_value (pv_root_id v) < bid_value (br_id br)"
      using root_port_Some(2) [OF r] by (auto simp: offers_def)
    have get: "dict_get (br_ports br) (sp_no r) = Some r"
      by (rule port_list_get [OF assms(1) root_port_Some(1) [OF r]])
    obtain roles' where roles': "spanning_tree_algorithm (br_id br) (br_times br) (port_list br) = (roles', RcvPriority v, t)"
      "dict_wf roles'" "\<And>n. dict_get roles' n = Some ROOT_PORT \<longleftrightarrow> n = sp_no r"
      using algorithm_other_root [OF r v(1), of "br_times br"] by (metis (no_types) option.inject option.distinct(1) role.distinct(1) role.distinct(5))
    then have "roles = roles'" "prio = RcvPriority v"
      using assms(2) \<open>\<not> init\<close> by (auto simp: new_roles_def)
    then show ?thesis using roles' get v by (auto simp: roles_fit_def)
  qed
  then show "dict_wf roles" "roles_fit br roles prio" by simp_all
qed

lemma recalculate_fields [simp]:
  "br_id (recalculate_spanning_tree clk init br) = br_id br"
  "br_times (recalculate_spanning_tree clk init br) = br_times br"
  "br_ports_state (recalculate_spanning_tree clk init br) = br_ports_state br"
  by (simp_all add: recalculate_spanning_tree_def Let_def emit_def split: prod.split)

lemma cores_recalculate:
  assumes "ports_ok (cores br)"
  obtains b1 roles prio tms where
    "cores b1 = map (\<lambda>(k, p). (k, block_port init p)) (cores br)" "br_id b1 = br_id br" "br_times b1 = br_times br"
    "new_roles init b1 = (roles, prio, tms)"
    "cores (recalculate_spanning_tree clk init br) =
       map (\<lambda>(k, p). (k, by_role roles prio tms k (block_port init p))) (cores br)"
    "br_root_priority (recalculate_spanning_tree clk init br) = prio" "ports_ok (cores b1)"
proof -
  let ?b1 = "if init then emit [EventTopologyChange] (all_ports_down clk init br) else all_ports_down clk init br"
  obtain roles prio tms where roles: "new_roles init ?b1 = (roles, prio, tms)" by (cases "new_roles init ?b1")
  have c1: "cores ?b1 = map (\<lambda>(k, p). (k, block_port init p)) (cores br)"
    using cores_all_down [OF ports_ok_wf [OF assms]] by simp
  have ok1: "ports_ok (cores ?b1)"
    using assms unfolding c1
    by (rule ports_ok_map) (use assms in \<open>auto simp: ports_ok_def block_port_ok\<close>)
  let ?b2 = "?b1\<lparr>br_root_priority := prio, br_root_times := tms\<rparr>"
  have c2: "cores ?b2 = cores ?b1" by (simp add: cores_def)
  have rec: "recalculate_spanning_tree clk init br = all_ports_up clk roles ?b2"
    using roles by (simp add: recalculate_spanning_tree_def Let_def)
  have wf2: "dict_wf (br_ports ?b2)" using ports_ok_wf [OF ok1] by simp
  have "cores (recalculate_spanning_tree clk init br) =
      map (\<lambda>(k, p). (k, by_role roles prio tms k p)) (cores ?b2)"
    unfolding rec cores_all_up [OF wf2 new_roles_fit(1) [OF ok1 roles]] by simp
  then have c3: "cores (recalculate_spanning_tree clk init br) =
       map (\<lambda>(k, p). (k, by_role roles prio tms k (block_port init p))) (cores br)"
    unfolding c2 c1 by (auto simp: comp_def)
  show thesis
    by (rule that [OF c1 _ _ roles c3 _ ok1]) (simp_all add: rec emit_def)
qed

lemma recalculate_ok:
  assumes "ports_ok (cores br)"
  shows "ports_ok (cores (recalculate_spanning_tree clk init br))"
    and "root_ok (br_id br) (br_root_priority (recalculate_spanning_tree clk init br))
           (cores (recalculate_spanning_tree clk init br))"
proof -
  obtain b1 roles prio tms where
    c1: "cores b1 = map (\<lambda>(k, p). (k, block_port init p)) (cores br)" and b1: "br_id b1 = br_id br"
    and roles: "new_roles init b1 = (roles, prio, tms)"
    and c2: "cores (recalculate_spanning_tree clk init br) =
       map (\<lambda>(k, p). (k, by_role roles prio tms k (block_port init p))) (cores br)"
    and prio: "br_root_priority (recalculate_spanning_tree clk init br) = prio"
    and ok1: "ports_ok (cores b1)"
    using assms by (rule cores_recalculate)
  have blocked: "port_ok p \<Longrightarrow> port_ok (block_port init p) \<and> sp_state (block_port init p) \<noteq> Some FORWARD" for p
    by (simp add: block_port_ok)
  have fine: "port_ok p \<Longrightarrow> port_ok (by_role roles prio tms k (block_port init p))" for k p
    using blocked [of p] by (auto simp: by_role_def raise_port_ok split: option.split)
  have no: "port_ok p \<Longrightarrow> sp_no (by_role roles prio tms k (block_port init p)) = sp_no p" for k p
    using blocked [of p] by (auto simp: by_role_def raise_port_ok block_port_ok split: option.split)
  show "ports_ok (cores (recalculate_spanning_tree clk init br))"
    unfolding c2 using assms by (rule ports_ok_map) (use assms fine no in \<open>auto simp: ports_ok_def\<close>)
  note fit = new_roles_fit(2) [OF ok1 roles]
  have is_root: "dict_get roles n = Some ROOT_PORT \<and> sp_designated p' = sp_designated (block_port init p)"
    if "port_ok p" "p' = by_role roles prio tms n (block_port init p)" "is_root_port p'" for n p p'
    using that blocked [OF that(1)]
    by (auto simp: by_role_def is_root_port_def raise_port_ok block_port_ok split: option.splits if_splits)
  have shape: "\<exists>q. dict_get (cores br) n = Some q \<and> port_ok q \<and> p = by_role roles prio tms n (block_port init q)"
    if "dict_get (cores (recalculate_spanning_tree clk init br)) n = Some p" for n p
    using that assms by (auto simp: c2 dict_get_map ports_ok_def)
  show "root_ok (br_id br) (br_root_priority (recalculate_spanning_tree clk init br))
      (cores (recalculate_spanning_tree clk init br))"
    unfolding root_ok_def prio
  proof (intro conjI allI impI; (elim conjE)?)
    show "bid_value (pr_root_id prio) \<le> bid_value (br_id br)"
      using fit [unfolded roles_fit_def, THEN conjunct1] b1 by simp
    fix n p assume p: "dict_get (cores (recalculate_spanning_tree clk init br)) n = Some p" "is_root_port p"
    obtain q where q: "dict_get (cores br) n = Some q" "port_ok q"
      "p = by_role roles prio tms n (block_port init q)" using shape [OF p(1)] by blast
    have r: "dict_get roles n = Some ROOT_PORT" "sp_designated p = sp_designated (block_port init q)"
      using is_root [OF q(2,3) p(2)] by auto
    obtain p1 v t where p1: "dict_get (br_ports b1) n = Some p1" "sp_designated p1 = Some (v, t)"
      "prio = RcvPriority v" "bid_value (pv_root_id v) < bid_value (br_id b1)"
      using roles_fitD(1) [OF fit r(1)] by blast
    have "dict_get (cores b1) n = Some (block_port init q)" by (simp add: c1 dict_get_map q(1))
    then have "core p1 = block_port init q" using p1(1) by (simp add: cores_get)
    from arg_cong [OF this, of sp_designated] have "sp_designated (block_port init q) = Some (v, t)"
      using p1(2) by simp
    then show "\<exists>v t. sp_designated p = Some (v, t) \<and> prio = RcvPriority v \<and>
        bid_value (pv_root_id v) < bid_value (br_id br)"
      using r(2) p1(3,4) b1 by simp
    fix m p' assume "dict_get (cores (recalculate_spanning_tree clk init br)) m = Some p'" "is_root_port p'"
    then have "dict_get roles m = Some ROOT_PORT" using shape is_root by blast
    then show "m = n" by (rule roles_fitD(2) [OF fit r(1)])
  qed
qed

lemma recalculate_keys:
  assumes "ports_ok (cores br)"
  shows "dict_keys (br_ports (recalculate_spanning_tree clk init br)) = dict_keys (br_ports br)"
proof -
  obtain roles prio tms where "cores (recalculate_spanning_tree clk init br) =
      map (\<lambda>(k, p). (k, by_role roles prio tms k (block_port init p))) (cores br)"
    using assms by (rule cores_recalculate)
  then have "dict_keys (cores (recalculate_spanning_tree clk init br)) = dict_keys (cores br)"
    by (simp add: dict_keys_def comp_def split_def)
  then show ?thesis by simp
qed

text \<open>Recalculation makes a bridge whose ports are sound a sound bridge.\<close>

lemma recalculate_bridge_ok:
  assumes "ports_ok (cores br)" and "set (dict_keys (br_ports_state br)) = set (dict_keys (br_ports br))"
  shows "bridge_ok (recalculate_spanning_tree clk init br)"
  using assms by (simp add: bridge_ok_def recalculate_ok recalculate_keys)

section \<open>Every operation keeps the invariant\<close>

lemma bridge_ok_ports: "bridge_ok br \<Longrightarrow> ports_ok (cores br)"
  by (simp add: bridge_ok_def)

lemma bridge_ok_get:
  assumes "bridge_ok br" and "dict_get (br_ports br) k = Some p"
  shows "sp_no p = k" "port_ok p"
  using ports_ok_get [OF bridge_ok_ports [OF assms(1)] assms(2)] by simp_all

text \<open>An operation that changes one port, where no port becomes the root port.\<close>

lemma bridge_ok_one_port:
  assumes "bridge_ok br" and "cores br' = upd n f (cores br)" and "br_id br' = br_id br"
    and "br_root_priority br' = br_root_priority br"
    and "set (dict_keys (br_ports_state br')) = set (dict_keys (br_ports br))"
    and f: "\<And>p. dict_get (br_ports br) n = Some p \<Longrightarrow>
      sp_ofport (f (core p)) = sp_ofport p \<and> port_ok (f (core p)) \<and>
      (is_root_port (f (core p)) \<longrightarrow> is_root_port p \<and> sp_designated (f (core p)) = sp_designated p)"
  shows "bridge_ok br'"
proof -
  have old: "\<exists>q. dict_get (br_ports br) n = Some q \<and> p = core q" if "dict_get (cores br) n = Some p" for p
    using that by (auto simp: cores_get)
  have "ports_ok (cores br')"
    unfolding assms(2) using bridge_ok_ports [OF assms(1)] by (rule ports_ok_upd) (use old f in fastforce)
  moreover have "root_ok (br_id br') (br_root_priority br') (cores br')"
    unfolding assms(2-4) using assms(1) [unfolded bridge_ok_def, THEN conjunct2, THEN conjunct1]
    by (rule root_ok_upd) (use old f in fastforce)
  moreover have "dict_keys (br_ports br') = dict_keys (br_ports br)"
    by (metis assms(2) dict_keys_cores dict_keys_upd)
  ultimately show ?thesis using assms(5) by (simp add: bridge_ok_def)
qed

lemma bridge_ok_same:
  assumes "bridge_ok br" and "cores br' = cores br" and "br_id br' = br_id br"
    and "br_root_priority br' = br_root_priority br" and "br_ports_state br' = br_ports_state br"
  shows "bridge_ok br'"
  using assms unfolding bridge_ok_def by (metis dict_keys_cores)

lemma bridge_ok_emit [simp]: "bridge_ok br \<Longrightarrow> bridge_ok (emit xs br)"
  by (rule bridge_ok_same) (simp_all add: emit_def cores_def)

lemma bridge_ok_notify: "bridge_ok br \<Longrightarrow> bridge_ok (topology_change_notify clk st br)"
  by (rule bridge_ok_same) simp_all

lemma bridge_ok_forward_tc: "bridge_ok br \<Longrightarrow> bridge_ok (forward_tc_bpdu b br)"
  by (rule bridge_ok_same) (simp_all add: forward_tc_bpdu_def cores_on_all on_all_ports_def cores_def split_def)

lemma state_timeout_ok:
  assumes "bridge_ok br"
  shows "bridge_ok (state_timeout clk n br)"
proof -
  have "bridge_ok (port_change_status clk n new br)"
    if p: "dict_get (br_ports br) n = Some p" "sp_state p = Some st" "next_state st (sp_role p) = Some new"
    for p st new
  proof (rule bridge_ok_one_port [OF assms cores_change_status])
    show "set (dict_keys (br_ports_state (port_change_status clk n new br))) = set (dict_keys (br_ports br))"
      using assms by (simp add: bridge_ok_def)
    fix q assume "dict_get (br_ports br) n = Some q"
    then have "port_ok (enter_status new (core q))"
      using state_timer_ok [of "core q" st new] bridge_ok_get(2) [OF assms p(1)] p by simp
    then show "sp_ofport (core (enter_status new (core q))) = sp_ofport q \<and>
        port_ok (core (enter_status new (core q))) \<and>
        (is_root_port (core (enter_status new (core q))) \<longrightarrow>
         is_root_port q \<and> sp_designated (core (enter_status new (core q))) = sp_designated q)"
      by (simp add: is_root_port_def)
  qed simp_all
  then show ?thesis using assms by (auto simp: state_timeout_def split: option.split)
qed

end
