(* ===== verification/Stp_Reach.thy ===== *)
theory Stp_Reach
  imports Stp_Invariants
begin

text \<open>
  The operations of a bridge as the steps of a transition system, and the invariant of
  \<open>Stp_Invariants\<close> on every state it reaches.
\<close>

section \<open>Operations on links and ports\<close>

lemma cores_state [simp]: "cores (br\<lparr>br_ports_state := x\<rparr>) = cores br"
  by (simp add: cores_def)

lemma dict_keys_set [simp]: "set (dict_keys (dict_set k v d)) = insert k (set (dict_keys d))"
  by (auto simp: dict_keys_iff split: if_splits)

lemma bridge_ok_keys:
  "bridge_ok br \<Longrightarrow> dict_get (br_ports br) n \<noteq> None \<Longrightarrow>
     insert n (set (dict_keys (br_ports_state br))) = set (dict_keys (br_ports br))"
  unfolding bridge_ok_def dict_keys_iff [symmetric] by (simp only: insert_absorb)

lemma link_up_ok:
  assumes "bridge_ok br"
  shows "bridge_ok (fst (link_up clk ofp br))"
proof (cases "dict_get (br_ports br) (op_no ofp)")
  case None
  then show ?thesis using assms by (simp add: link_up_def Let_def)
next
  case (Some p)
  let ?br = "(port_up clk DESIGNATED_PORT (br_root_priority br) (br_root_times br) (op_no ofp) br)
      \<lparr>br_ports_state := dict_set (op_no ofp) (op_link ofp) (br_ports_state br)\<rparr>"
  have "bridge_ok ?br"
  proof (rule bridge_ok_one_port [OF assms])
    show "cores ?br = upd (op_no ofp) (up_port DESIGNATED_PORT (br_root_priority br) (br_root_times br)) (cores br)"
      using ports_ok_wf [OF bridge_ok_ports [OF assms]] by (simp add: cores_port_up)
    show "set (dict_keys (br_ports_state ?br)) = set (dict_keys (br_ports br))"
      using bridge_ok_keys [OF assms] Some by simp
  qed (use bridge_ok_get(2) [OF assms] in \<open>simp_all add: up_designated_ok\<close>)
  then show ?thesis by (simp add: link_up_def Let_def Some)
qed

lemma link_down_ok:
  assumes "bridge_ok br"
  shows "bridge_ok (fst (link_down clk ofp br))"
proof (cases "dict_get (br_ports br) (op_no ofp)")
  case None
  then show ?thesis using assms by (simp add: link_down_def Let_def)
next
  case (Some p)
  let ?br = "(port_down clk DISABLE True (op_no ofp) br)
      \<lparr>br_ports_state := dict_set (op_no ofp) (op_link ofp) (br_ports_state br)\<rparr>"
  have ok: "bridge_ok ?br"
  proof (rule bridge_ok_one_port [OF assms])
    show "cores ?br = upd (op_no ofp) (down_port DISABLE True) (cores br)"
      using ports_ok_wf [OF bridge_ok_ports [OF assms]] by (simp add: cores_port_down)
    show "set (dict_keys (br_ports_state ?br)) = set (dict_keys (br_ports br))"
      using bridge_ok_keys [OF assms] Some by simp
  qed (use bridge_ok_get(2) [OF assms] in \<open>simp_all add: down_disable_ok\<close>)
  then have "bridge_ok (recalculate_spanning_tree clk True ?br)"
    by (intro recalculate_bridge_ok) (simp_all add: bridge_ok_def)
  with ok show ?thesis by (simp add: link_down_def Let_def Some)
qed

lemma dict_get_cores_remove:
  "cores (br\<lparr>br_ports := dict_remove_if P (br_ports br)\<rparr>) = dict_remove_if P (cores br)"
  by (simp add: cores_def dict_remove_if_def filter_map comp_def split_def)

lemma port_delete_ok:
  assumes "bridge_ok br"
  shows "bridge_ok (fst (port_delete clk ofp br))"
proof -
  obtain b1 e where l: "link_down clk ofp br = (b1, e)" by (cases "link_down clk ofp br")
  have ok: "bridge_ok b1" using link_down_ok [OF assms, of clk ofp] by (simp add: l)
  let ?P = "\<lambda>k. k = op_no ofp"
  let ?b2 = "b1\<lparr>br_ports := dict_remove_if ?P (br_ports b1),
               br_ports_state := dict_remove_if ?P (br_ports_state b1)\<rparr>"
  have c: "cores ?b2 = dict_remove_if ?P (cores b1)"
    using dict_get_cores_remove [where br = b1 and P = ?P] by (simp add: cores_def)
  have "ports_ok (cores ?b2)"
    using bridge_ok_ports [OF ok] unfolding c ports_ok_def by simp
  moreover have "root_ok (br_id ?b2) (br_root_priority ?b2) (cores ?b2)"
    unfolding c using ok [unfolded bridge_ok_def, THEN conjunct2, THEN conjunct1]
    by (simp, elim root_ok_sub) (auto split: if_splits)
  moreover have "set (dict_keys (br_ports_state ?b2)) = set (dict_keys (br_ports ?b2))"
    using ok by (auto simp: bridge_ok_def dict_keys_iff set_eq_iff split: if_splits)
  ultimately have "bridge_ok ?b2" by (simp add: bridge_ok_def)
  with ok show ?thesis by (cases e) (simp_all add: port_delete_def l)
qed

lemma new_port_ok:
  assumes "new_port ver conf bid bt ofp v = (p, msgs, v')"
  shows "sp_ofport p = ofp" "port_ok p" "\<not> is_root_port p"
proof -
  define en where "en \<longleftrightarrow> (case pc_enable conf of None \<Rightarrow> True | Some b \<Rightarrow> b)"
  obtain q where "p = enter_status (up_state q) (change_role DESIGNATED_PORT q)" "sp_ofport q = ofp"
    "sp_enable q = en" "\<not> sp_wait_thread q" "\<not> sp_send_thread q"
    using assms by (auto simp: new_port_def Let_def en_def [symmetric])
  then show "sp_ofport p = ofp" "port_ok p" "\<not> is_root_port p"
    by (cases en; auto simp: up_state_def port_ok_def is_root_port_def)+
qed

lemma port_add_ok:
  assumes "bridge_ok br"
  shows "bridge_ok (fst (port_add ofp v br))"
proof -
  let ?n = "op_no ofp"
  obtain p msgs v' where new: "new_port (br_version br) (br_ports_conf br ?n) (br_id br) (br_times br) ofp v = (p, msgs, v')"
    by (cases "new_port (br_version br) (br_ports_conf br ?n) (br_id br) (br_times br) ofp v")
  note p = new_port_ok [OF new]
  let ?br = "(emit msgs br)\<lparr>br_ports := dict_set ?n p (br_ports br),
      br_ports_state := dict_set ?n (op_link ofp) (br_ports_state br)\<rparr>"
  have get: "dict_get (cores ?br) k = (if k = ?n then Some (core p) else dict_get (cores br) k)" for k
    by (simp add: cores_get)
  have "ports_ok (cores ?br)"
    using bridge_ok_ports [OF assms] p unfolding ports_ok_def get by (simp add: ports_ok_wf)
  moreover have "root_ok (br_id ?br) (br_root_priority ?br) (cores ?br)"
    using assms [unfolded bridge_ok_def, THEN conjunct2, THEN conjunct1] p(3)
    by (simp add: emit_def del: cores_emit, elim root_ok_sub)
      (use get in \<open>auto simp: emit_def split: if_splits\<close>)
  moreover have "set (dict_keys (br_ports_state ?br)) = set (dict_keys (br_ports ?br))"
    using assms by (simp add: bridge_ok_def)
  ultimately have "bridge_ok ?br" by (simp add: bridge_ok_def)
  then show ?thesis using assms by (simp add: port_add_def new Let_def)
qed

lemma port_status_bridge_ok:
  assumes "bridge_ok br" and "port_status_bridge clk reason ofp v br = ((br', e), v')"
  shows "bridge_ok br'"
proof (cases reason)
  case OFPPR_ADD
  with assms(2) port_add_ok [OF assms(1), of ofp v] show ?thesis
    by (simp add: port_status_bridge_def split: prod.splits)
next
  case OFPPR_DELETE
  with assms(2) port_delete_ok [OF assms(1), of clk ofp] show ?thesis
    by (simp add: port_status_bridge_def)
next
  case OFPPR_MODIFY
  with assms(2) assms(1) link_down_ok [OF assms(1), of clk ofp] link_up_ok [OF assms(1), of clk ofp] show ?thesis
    by (auto simp: port_status_bridge_def split: option.splits if_splits)
qed

section \<open>Received units, timers and threads\<close>

lemma cores_on_port_const: "cores (on_port n (\<lambda>_. q) br) = upd n (\<lambda>_. core q) (cores br)"
  by (rule cores_on_port) simp

lemma on_port_fields [simp]:
  "br_id (on_port n f br) = br_id br" "br_root_priority (on_port n f br) = br_root_priority br"
  "br_ports_state (on_port n f br) = br_ports_state br" "br_times (on_port n f br) = br_times br"
  "dict_keys (br_ports (on_port n f br)) = dict_keys (br_ports br)"
  by (simp_all add: on_port_def dict_keys_def comp_def split_def)

lemma bridge_ok_state_keys: "bridge_ok br \<Longrightarrow> set (dict_keys (br_ports_state br)) = set (dict_keys (br_ports br))"
  unfolding bridge_ok_def by (elim conjE)

text \<open>Recalculation after one port was replaced by another of the same number.\<close>

lemma recalculate_after_port:
  assumes "bridge_ok br" and "dict_get (br_ports br) n = Some p"
    and "sp_ofport q = sp_ofport p" and "port_ok q"
  shows "bridge_ok (recalculate_spanning_tree clk init (on_port n (\<lambda>_. q) br))"
proof (rule recalculate_bridge_ok)
  show "ports_ok (cores (on_port n (\<lambda>_. q) br))"
    unfolding cores_on_port_const using bridge_ok_ports [OF assms(1)]
    by (rule ports_ok_upd) (use assms(2-4) in \<open>auto simp: cores_get\<close>)
qed (simp add: bridge_ok_state_keys [OF assms(1)])

lemma wait_timeout_ok:
  assumes "bridge_ok br"
  shows "bridge_ok (wait_timeout clk n br)"
proof (cases "dict_get (br_ports br) n")
  case None
  then show ?thesis using assms by (simp add: wait_timeout_def)
next
  case (Some p)
  let ?q = "p\<lparr>sp_wait_thread := False\<rparr>"
  have "port_ok ?q" using bridge_ok_get(2) [OF assms Some] by (simp add: port_ok_def)
  then have ok: "bridge_ok (recalculate_spanning_tree clk True (on_port n (\<lambda>_. ?q) br))"
    by (intro recalculate_after_port [OF assms Some]) simp_all
  have "p' = p" if "(n, p') \<in> set (br_ports br)" for p'
    using that Some ports_ok_wf [OF bridge_ok_ports [OF assms]] by (simp add: dict_get_def dict_wf_def)
  then have "on_port n (\<lambda>p. p\<lparr>sp_wait_thread := False\<rparr>) br = on_port n (\<lambda>_. ?q) br"
    unfolding on_port_def by (intro arg_cong [where f = "\<lambda>d. br\<lparr>br_ports := d\<rparr>"] map_cong) auto
  with ok assms Some show ?thesis by (simp add: wait_timeout_def)
qed

lemma rcv_config_bpdu_shape:
  assumes "rcv_config_bpdu ac b p = Inr (info, tc, p')"
  obtains q where "q = p \<or> info = SUPERIOR \<and> (\<exists>d. q = p\<lparr>sp_designated := d\<rparr>)"
    "p' = q \<or> p' = q\<lparr>sp_send_tcn_flg := False\<rparr>"
proof -
  obtain v where v: "rcv_vector ac b = Inr v" using assms by (auto simp: rcv_config_bpdu_def split: sum.splits)
  obtain i where i: "compare_bpdu_info (sp_designated p) v (rcv_times b) = Inr i"
    using assms by (auto simp: rcv_config_bpdu_def v split: sum.splits)
  let ?q = "if info = SUPERIOR then p\<lparr>sp_designated := Some (v, rcv_times b)\<rparr> else p"
  have "info = i \<and> (p' = x \<or> p' = y)"
    if "Inr (i, t, if c then x else y) = (Inr (info, tc, p') :: py_exn + cmp_result \<times> bool \<times> stp_port)" for t c x y
    using that by auto
  from this [OF assms [unfolded rcv_config_bpdu_def v i sum.case Let_def]]
  have "p' = ?q \<or> p' = ?q\<lparr>sp_send_tcn_flg := False\<rparr>" by blast
  moreover have "?q = p \<or> info = SUPERIOR \<and> (\<exists>d. ?q = p\<lparr>sp_designated := d\<rparr>)" by auto
  ultimately show thesis using that by blast
qed

lemma rcv_config_bpdu_fields:
  assumes "rcv_config_bpdu ac b p = Inr (info, tc, p')"
  shows "sp_ofport p' = sp_ofport p" "port_ok p' = port_ok p"
    "info \<noteq> SUPERIOR \<Longrightarrow> core p' = core p"
proof -
  obtain q where q: "q = p \<or> info = SUPERIOR \<and> (\<exists>d. q = p\<lparr>sp_designated := d\<rparr>)"
    "p' = q \<or> p' = q\<lparr>sp_send_tcn_flg := False\<rparr>" using assms by (rule rcv_config_bpdu_shape)
  have "port_ok (p\<lparr>sp_designated := d\<rparr>) = port_ok p" "port_ok (q\<lparr>sp_send_tcn_flg := False\<rparr>) = port_ok q"
    "core (q\<lparr>sp_send_tcn_flg := False\<rparr>) = core q" for d
    by (simp_all add: port_ok_def core_def)
  then show "sp_ofport p' = sp_ofport p" "port_ok p' = port_ok p" "info \<noteq> SUPERIOR \<Longrightarrow> core p' = core p"
    using q by auto
qed

lemma receive_config_ok:
  assumes "bridge_ok br"
  shows "bridge_ok (fst (receive_config ac clk n b br))"
proof (cases "dict_get (br_ports br) n")
  case None
  then show ?thesis using assms by (simp add: receive_config_def)
next
  case (Some p)
  have "bridge_ok br2"
    if rcv: "rcv_config_bpdu ac b p = Inr (info, tc, p')"
      and br2: "br2 = (if info = SUPERIOR then recalculate_spanning_tree clk False (on_port n (\<lambda>_. p') br)
            else if tc then emit [EventTopologyChange] (on_port n (\<lambda>_. p') br) else on_port n (\<lambda>_. p') br)"
    for info tc p' br2
  proof (cases "info = SUPERIOR")
    case True
    with br2 show ?thesis
      using recalculate_after_port [OF assms Some] rcv_config_bpdu_fields(1,2) [OF rcv] bridge_ok_get(2) [OF assms Some]
      by simp
  next
    case False
    have "upd n (\<lambda>_. core p) (cores br) = upd n (\<lambda>q. q) (cores br)"
      using ports_ok_wf [OF bridge_ok_ports [OF assms]] by (intro upd_cong) (simp_all add: cores_get Some)
    then have "cores (on_port n (\<lambda>_. p') br) = cores br"
      using rcv_config_bpdu_fields(3) [OF rcv False] by (simp add: cores_on_port_const)
    then have "bridge_ok (on_port n (\<lambda>_. p') br)" by (intro bridge_ok_same [OF assms]) simp_all
    with False br2 show ?thesis by simp
  qed
  then show ?thesis
    using assms by (auto simp: receive_config_def Some Let_def bridge_ok_forward_tc split: sum.split)
qed

lemma receive_packet_ok:
  assumes "bridge_ok br"
  shows "bridge_ok (fst (receive_packet ac clk n data pkt br))"
  using assms receive_config_ok [OF assms]
  by (auto simp: receive_packet_def receive_tcn_def bridge_ok_notify split: option.split bpdu.split sum.split)

lemma bridge_packet_in_ok:
  assumes "bridge_ok br" and "bridge_packet_in ac oth clk in_port data br = Some (br', e)"
  shows "bridge_ok br'"
proof -
  have "fst (receive_packet ac clk n data pkt br) = br'" if "receive_packet ac clk n data pkt br = (br', e)" for n pkt
    using that by simp
  then have "bridge_ok br'" if "receive_packet ac clk n data pkt br = (br', e)" for n pkt
    using that receive_packet_ok [OF assms(1), of ac clk n data pkt] by simp
  with assms show ?thesis
    by (auto simp: bridge_packet_in_def split: option.splits if_splits sum.splits)
qed

lemma tc_timer_check_core [simp]: "core (tc_timer_check clk p) = core p"
  by (simp add: tc_timer_check_def core_def split: option.split)

lemma transmit_bpdu_core:
  assumes "transmit_bpdu ac clk p = (p', msgs)"
  shows "core p' = core p \<or> core p' = (core p)\<lparr>sp_send_thread := False\<rparr>"
proof -
  obtain p1 sent where t: "transmit_config ac clk p = (p1, sent)" by (cases "transmit_config ac clk p")
  then have c: "core p1 = core p" by (auto simp: transmit_config_def Let_def split: if_splits)
  have "p' = p1 \<or> p' = p1\<lparr>sp_send_thread := False\<rparr>"
    using assms by (auto simp: transmit_bpdu_def t split: sum.splits)
  with c show ?thesis by auto
qed

lemma hello_turn_ok:
  assumes "bridge_ok br"
  shows "bridge_ok (hello_turn ac clk n br)"
proof (cases "dict_get (br_ports br) n")
  case None
  then show ?thesis using assms by (simp add: hello_turn_def)
next
  case (Some p)
  obtain p' msgs where t: "transmit_bpdu ac clk p = (p', msgs)" by (cases "transmit_bpdu ac clk p")
  have ok: "port_ok p" using bridge_ok_get(2) [OF assms Some] .
  have same: "sp_ofport (core p') = sp_ofport p \<and> port_ok (core p') \<and>
      (is_root_port (core p') \<longrightarrow> is_root_port p \<and> sp_designated (core p') = sp_designated p)"
  proof -
    have "port_ok ((core p)\<lparr>sp_send_thread := False\<rparr>)" using ok by (simp add: port_ok_def)
    moreover have "is_root_port ((core p)\<lparr>sp_send_thread := False\<rparr>) = is_root_port p"
      by (simp add: is_root_port_def)
    ultimately show ?thesis using transmit_bpdu_core [OF t] ok by (elim disjE) (simp_all only:, simp_all)
  qed
  have "bridge_ok (on_port n (\<lambda>_. p') br)"
    by (rule bridge_ok_one_port [OF assms cores_on_port_const])
      (use bridge_ok_state_keys [OF assms] same Some in simp_all)
  then show ?thesis using assms by (simp add: hello_turn_def Some t)
qed

section \<open>The start\<close>

lemma bridge_ok_empty:
  "br_ports br = [] \<Longrightarrow> br_ports_state br = [] \<Longrightarrow> br_root_priority br = OwnPriority (br_id br) \<Longrightarrow> bridge_ok br"
  by (simp add: bridge_ok_def ports_ok_def root_ok_def cores_def dict_keys_def)

lemma add_ports_ok: "bridge_ok br \<Longrightarrow> bridge_ok (fst (add_ports ofps v br))"
proof (induction ofps arbitrary: v br)
  case Nil
  then show ?case by simp
next
  case (Cons ofp ofps)
  obtain b1 v1 where a: "port_add ofp v br = (b1, v1)" by (cases "port_add ofp v br")
  have "bridge_ok b1" using port_add_ok [OF Cons.prems, of ofp v] by (simp add: a)
  then show ?case using Cons.IH by (simp add: a)
qed

lemma new_bridge_ok:
  assumes "new_bridge ac ver conf ofps ds = (Inr br, ds')"
  shows "bridge_ok br"
proof -
  let ?v = "bridge_values_for conf (fst ds)"
  obtain ofp rest where ofps: "ofps = ofp # rest" using assms by (cases ofps) (auto simp: new_bridge_def)
  obtain bid where bid: "BridgeId ac (bv_priority ?v) (bv_ext ?v) (op_hw_addr ofp) = Inr bid"
    using assms by (cases "BridgeId ac (bv_priority ?v) (bv_ext ?v) (op_hw_addr ofp)") (auto simp: new_bridge_def ofps)
  let ?tms = "\<lparr>t_message_age = 0, t_max_age = bv_max_age ?v, t_hello_time = bv_hello_time ?v,
      t_forward_delay = bv_fwd_delay ?v\<rparr>"
  define b0 where "b0 = \<lparr>br_version = ver, br_id = bid, br_times = ?tms, br_root_priority = OwnPriority bid,
      br_root_times = ?tms, br_ports = [], br_ports_state = [], br_ports_conf = bc_ports conf, br_out = []\<rparr>"
  obtain b1 pv where a: "add_ports ofps (snd ds) b0 = (b1, pv)" by (cases "add_ports ofps (snd ds) b0")
  have "bridge_ok (fst (b1, pv))"
    unfolding a [symmetric] by (rule add_ports_ok, rule bridge_ok_empty) (simp_all add: b0_def)
  moreover have "br = b1 \<or> br = emit [BpduFlow] b1"
    using assms a by (auto simp: new_bridge_def Let_def ofps bid b0_def simp del: add_ports.simps split: if_splits)
  ultimately show ?thesis by auto
qed

section \<open>Runs of a bridge\<close>

datatype bridge_event =
    PacketIn rat "nat option" bytes
  | PortStatus rat port_reason of_port port_values
  | StateTimeout rat nat
  | WaitTimeout rat nat
  | HelloTurn rat nat

fun bridge_step :: "addrconv \<Rightarrow> other_parsers \<Rightarrow> bridge \<Rightarrow> bridge_event \<Rightarrow> bridge option" where
  "bridge_step ac oth br (PacketIn clk in_port data) = map_option fst (bridge_packet_in ac oth clk in_port data br)"
| "bridge_step ac oth br (PortStatus clk reason ofp v) = Some (fst (fst (port_status_bridge clk reason ofp v br)))"
| "bridge_step ac oth br (StateTimeout clk n) = Some (state_timeout clk n br)"
| "bridge_step ac oth br (WaitTimeout clk n) = Some (wait_timeout clk n br)"
| "bridge_step ac oth br (HelloTurn clk n) = Some (hello_turn ac clk n br)"

definition bridge_start :: "addrconv \<Rightarrow> bridge \<Rightarrow> bool" where
  "bridge_start ac br \<longleftrightarrow> (\<exists>ver conf ofps ds. fst (new_bridge ac ver conf ofps ds) = Inr br)"

interpretation stp: transition_system "bridge_start ac" "\<lambda>br ev br'. bridge_step ac oth br ev = Some br'" for ac oth .

lemma bridge_step_ok:
  assumes "bridge_ok br" and "bridge_step ac oth br ev = Some br'"
  shows "bridge_ok br'"
proof (cases ev)
  case (PacketIn clk in_port data)
  with assms bridge_packet_in_ok [OF assms(1)] show ?thesis by auto
next
  case (PortStatus clk reason ofp v)
  obtain b e v' where "port_status_bridge clk reason ofp v br = ((b, e), v')"
    by (cases "port_status_bridge clk reason ofp v br") auto
  with assms PortStatus port_status_bridge_ok [OF assms(1)] show ?thesis by auto
qed (use assms state_timeout_ok wait_timeout_ok hello_turn_ok in auto)

lemma bridge_reachable_ok: "stp.reachable ac oth br \<Longrightarrow> bridge_ok br"
proof (erule stp.invariant_rule)
  show "bridge_ok br" if "bridge_start ac br" for br
    using that new_bridge_ok by (auto simp: bridge_start_def) (metis prod.collapse)
qed (rule bridge_step_ok)

end
