(* ===== verification/Stp_Frames.thy ===== *)
theory Stp_Frames
  imports Stp_Reach
begin

text \<open>
  Units between two bridges: the frame a port sends is decoded by \<open>packet.Packet\<close> into the unit
  it was built from, and the bridge that receives a better root adopts it.
\<close>

section \<open>The frame of a configuration unit\<close>

declare all_zero_append [simp] all_zero_simps [simp]

text \<open>A sent unit has a positive message age, so its bytes are not all zero.\<close>

lemma config_fields_not_zero:
  assumes "config_wf ac b" and "1 \<le> message_age b" and "config_fields ac b = Inr bs"
  shows "\<not> all_zero bs"
proof
  assume z: "all_zero bs"
  obtain bs' where bs': "config_fields ac b = Inr bs'" "length bs' = 31"
    "\<forall>rest. unpack_config ac (bs' @ rest) = whole_seconds b" using assms(1) by (rule config_fields_wf)
  then have u: "length bs = 31" "unpack_config ac bs = whole_seconds b"
    using assms(3) by (auto dest: spec [of _ "[]"])
  have "u16_at bs 23 = 0" using all_zero_nth [OF z, of 23] all_zero_nth [OF z, of 24] u(1) by (simp add: u16_at_def)
  then have "message_age (unpack_config ac bs) = 0"
    by (simp add: unpack_config_def decode_timer_def split: prod.split)
  then have "\<lfloor>message_age b\<rfloor> = 0" by (simp add: u(2) whole_seconds_def)
  then show False using assms(2) by linarith
qed

lemma stp_frame_bytes:
  assumes "bpdu_serialize ac u = Inr bs" and "mac_text_of ac BRIDGE_GROUP_ADDRESS g" and "mac_text_of ac hw s"
    and "len < 65536"
  shows "stp_frame ac hw len u =
    Inr (g @ s @ be16 len @ [66, 66, 3] @ bs @ replicate (43 - length bs) 0)"
  using assms by (simp add: stp_frame_def llc_bpdu_roundtrip ethernet_serialize_def mac_text_of_def Let_def)

definition stp_headers :: "addrconv \<Rightarrow> bytes \<Rightarrow> bytes \<Rightarrow> nat \<Rightarrow> ethernet" where
  "stp_headers ac g s len = \<lparr>eth_dst = mac_to_text ac g, eth_src = mac_to_text ac s, ethertype = len\<rparr>"

text \<open>The loop of \<open>packet.Packet\<close> on such a frame, down to the unit.\<close>

lemma parse_stp_frame:
  assumes "length g = 6" and "length s = 6" and "len \<le> 1500" and "\<not> all_zero rest"
    and "bpdu_parser ac rest = Inr (Some u, tail)" and "all_zero tail"
  shows "Packet ac (stp_parsers ac oth) (g @ s @ be16 len @ [66, 66, 3] @ rest) =
    ret [PEthernet (stp_headers ac g s len), POther ''llc'' 2 ([66, 66, 3] @ rest), POther (bpdu_class u) 4 rest]"
proof -
  let ?P = "parser_loop ac (stp_parsers ac oth)"
  let ?llc = "[66, 66, 3] @ rest"
  have eth: "ethernet_parser ac (g @ s @ be16 len @ ?llc) = Inr (stp_headers ac g s len, ?llc)"
    using assms(1-3) u16_at_append [of "g @ s" 12 "be16 len @ ?llc"] u16_at_be16 [of len ?llc]
    by (simp add: ethernet_parser_def stp_headers_def slice_def)
  have nz: "\<not> all_zero (g @ s @ be16 len @ ?llc)" "\<not> all_zero ?llc" using assms(4) by auto
  have ty: "get_ether_type len = Some (COther ''llc'')" "get_packet_type 66 = Some (COther ''bpdu'')"
    using assms(3) by (simp_all add: get_ether_type_def get_packet_type_def packet_types_def)
  have llc: "llc_parser ?llc = Inr (llc_bpdu, rest)" using llc_bpdu_roundtrip(2) by simp
  have "Packet ac (stp_parsers ac oth) (g @ s @ be16 len @ ?llc) =
      ?P (Some CEthernet) (g @ s @ be16 len @ ?llc) []"
    by (simp add: Packet_def)
  also have "\<dots> = ?P (Some (COther ''llc'')) ?llc [PEthernet (stp_headers ac g s len)]"
    by (subst parser_loop.simps)
      (simp only: option.case nz if_False class_parser.simps eth parsed_of_def sum.case prod.case ret_def,
        simp add: stp_headers_def ty add_proto_def)
  also have "\<dots> = ?P (Some (COther ''bpdu'')) rest [PEthernet (stp_headers ac g s len), POther ''llc'' 2 ?llc]"
    by (subst parser_loop.simps)
      (simp only: option.case nz if_False class_parser.simps stp_parsers_def if_True llc sum.case prod.case ret_def,
        simp add: llc_bpdu_def SAP_BPDU_def ty add_proto_def)
  also have "\<dots> = ?P None tail [PEthernet (stp_headers ac g s len), POther ''llc'' 2 ?llc, POther (bpdu_class u) 4 rest]"
    using assms(4,5) by (subst parser_loop.simps) (simp add: stp_parsers_def ret_def add_proto_def)
  also have "\<dots> = ret [PEthernet (stp_headers ac g s len), POther ''llc'' 2 ?llc, POther (bpdu_class u) 4 rest]"
    using assms(6) by (subst parser_loop.simps) (simp add: with_rest_def ret_def)
  finally show ?thesis .
qed

lemma received_in_frame:
  assumes "bpdu_parser ac rest = Inr (Some u, tail)"
  shows "received_bpdu ac [PEthernet h, POther ''llc'' 2 ([66, 66, 3] @ rest), POther (bpdu_class u) 4 rest] = Some u"
proof -
  have "bpdu_parser ac ([66, 66, 3] @ rest) = Inl AssertionError" by (simp add: bpdu_parser_def u16_at_def)
  then show ?thesis using assms by (simp add: received_bpdu_def List.map_filter_simps)
qed

lemma config_unit_wire:
  assumes "config_wf ac b" and "check_parameters b" and "1 \<le> message_age b"
  obtains bs where "bpdu_serialize ac (ConfigurationBPDUs b) = Inr bs" "length bs = 35" "\<not> all_zero bs"
    "\<forall>r. bpdu_parser ac (bs @ r) = Inr (Some (ConfigurationBPDUs (whole_seconds b)), r)"
proof -
  have fl: "drop_bit 1 (cb_flags b) AND 63 = 0" using assms(2) by (simp add: check_parameters_def)
  obtain bs where bs: "config_fields ac b = Inr bs" "length bs = 31"
    "\<forall>rest. config_parser ac (bs @ rest) = Inr (whole_seconds b, rest)"
    using assms(1) fl by (rule config_parser_wf)
  have "bpdu_parser ac ([0, 0, 0, 0] @ bs @ r) = Inr (Some (ConfigurationBPDUs (whole_seconds b)), r)" for r
    unfolding bpdu_parser_def bpdu_header_reads Let_def by (simp add: bs)
  then show thesis
    using config_fields_not_zero [OF assms(1,3) bs(1)] bs(1,2)
    by (intro that [of "[0, 0, 0, 0] @ bs"]) (simp_all add: bpdu_header_eq)
qed

lemma config_frame_delivered:
  assumes "config_wf ac (config_bpdu_of fl p)" and "check_parameters (config_bpdu_of fl p)"
    and "0 \<le> t_message_age (sp_times p)"
    and "mac_text_of ac BRIDGE_GROUP_ADDRESS g" and "mac_text_of ac (op_hw_addr (sp_ofport p)) s"
  obtains data pkt where "generate_config_bpdu ac fl p = Inr data" "length data = 60"
    "Packet ac (stp_parsers ac oth) data = ret pkt"
    "received_bpdu ac pkt = Some (ConfigurationBPDUs (whole_seconds (config_bpdu_of fl p)))"
proof -
  let ?b = "config_bpdu_of fl p"
  have "1 \<le> message_age ?b" using assms(3) by (simp add: config_bpdu_of_def)
  with assms(1,2) obtain bs where bs: "bpdu_serialize ac (ConfigurationBPDUs ?b) = Inr bs" "length bs = 35"
    "\<not> all_zero bs" "\<forall>r. bpdu_parser ac (bs @ r) = Inr (Some (ConfigurationBPDUs (whole_seconds ?b)), r)"
    by (rule config_unit_wire)
  let ?pad = "replicate 8 0 :: bytes"
  have data: "generate_config_bpdu ac fl p = Inr (g @ s @ be16 38 @ [66, 66, 3] @ bs @ ?pad)"
    using stp_frame_bytes [OF bs(1) assms(4,5), of 38] assms(2) bs(2)
    by (simp add: generate_config_bpdu_def Let_def)
  have par: "bpdu_parser ac (bs @ ?pad) = Inr (Some (ConfigurationBPDUs (whole_seconds ?b)), ?pad)"
    using bs(4) by blast
  have len: "length g = 6" "length s = 6" using assms(4,5) by (simp_all add: mac_text_of_def)
  have zero: "all_zero ?pad" "\<not> all_zero (bs @ ?pad)" using bs(3) by simp_all
  show thesis
    by (rule that [OF data _ parse_stp_frame [OF len _ zero(2) par zero(1)] received_in_frame [OF par]])
      (simp_all add: len bs(2))
qed

section \<open>A better root\<close>

lemma recalculated_root_le:
  assumes "ports_ok (cores br)" and "dict_get (br_ports br) n = Some p" and "sp_state p \<noteq> Some DISABLE"
    and "sp_designated p = Some (v, t)" and "bid_value (pv_root_id v) < bid_value (br_id br)"
  shows "bid_value (pr_root_id (br_root_priority (recalculate_spanning_tree clk False br))) \<le> bid_value (pv_root_id v)"
proof -
  obtain b1 roles prio tms where
    c1: "cores b1 = map (\<lambda>(k, p). (k, block_port False p)) (cores br)" and b1: "br_id b1 = br_id br"
    and roles: "new_roles False b1 = (roles, prio, tms)"
    and prio: "br_root_priority (recalculate_spanning_tree clk False br) = prio"
    and ok1: "ports_ok (cores b1)"
    using assms(1) by (rule cores_recalculate)
  have "port_ok p" by (rule ports_ok_get(2) [OF assms(1,2)])
  then have bp: "sp_state (block_port False (core p)) \<noteq> Some DISABLE"
    "sp_designated (block_port False (core p)) = Some (v, t)"
    using assms(3,4) by (simp_all add: block_port_ok)
  have "dict_get (cores b1) n = Some (block_port False (core p))"
    by (simp add: c1 dict_get_map cores_get assms(2))
  then obtain q where q: "dict_get (br_ports b1) n = Some q" "core q = block_port False (core p)"
    by (auto simp: cores_get)
  have q_in: "q \<in> set (port_list b1)"
    using q(1) by (force simp: port_list_def dict_get_def dest: map_of_SomeD)
  have "sp_state q \<noteq> Some DISABLE" "sp_designated q = Some (v, t)"
    using bp unfolding q(2) [symmetric] by simp_all
  then have off: "offers (br_id b1) q" "offer_key q = pv_key v" using assms(5) b1 by (auto simp: offers_def offer_key_def)
  then obtain r where r: "select_root_port (br_id b1) None (port_list b1) = Some r"
    using root_port_None_iff [of "br_id b1" "port_list b1"] q_in by (cases "select_root_port (br_id b1) None (port_list b1)") auto
  obtain w tw where w: "sp_designated r = Some (w, tw)"
    using root_port_Some(2) [OF r] by (auto simp: offers_def)
  obtain roles' where "spanning_tree_algorithm (br_id b1) (br_times b1) (port_list b1) = (roles', RcvPriority w, tw)"
    using algorithm_other_root [OF r w] by metis
  then have "prio = RcvPriority w" using roles by (simp add: new_roles_def)
  moreover have "offer_key r \<le> pv_key v" using root_port_Some(3) [OF r] q_in off by fastforce
  then have "bid_value (pv_root_id w) \<le> bid_value (pv_root_id v)"
    by (auto simp: offer_key_def w pv_key_def)
  ultimately show ?thesis by (simp add: prio)
qed

lemma rcv_first_unit:
  assumes "rcv_vector ac b = Inr v" and "sp_designated p = None"
  obtains tc p' where "rcv_config_bpdu ac b p = Inr (SUPERIOR, tc, p')"
    "sp_designated p' = Some (v, rcv_times b)" "sp_state p' = sp_state p"
    "sp_ofport p' = sp_ofport p" "port_ok p' = port_ok p"
proof -
  let ?q = "p\<lparr>sp_designated := Some (v, rcv_times b)\<rparr>"
  obtain tc p' where r: "rcv_config_bpdu ac b p = Inr (SUPERIOR, tc, p')" and
    p': "p' = ?q \<or> p' = ?q\<lparr>sp_send_tcn_flg := False\<rparr>"
    using assms by (simp add: rcv_config_bpdu_def compare_bpdu_info_def Let_def)
  have "port_ok ?q = port_ok p" "port_ok (?q\<lparr>sp_send_tcn_flg := False\<rparr>) = port_ok p"
    by (simp_all add: port_ok_def)
  then show thesis using p' by (intro that [OF r]) auto
qed

lemma better_root_adopted:
  assumes "bridge_ok br" and "dict_get (br_ports br) n = Some p" and "sp_state p \<noteq> Some DISABLE"
    and "sp_designated p = None" and "message_age b \<le> max_age b" and "rcv_vector ac b = Inr v"
    and "bid_value (pv_root_id v) < bid_value (br_id br)"
  obtains br' where "receive_config ac clk n b br = (br', None)"
    "bid_value (pr_root_id (br_root_priority br')) \<le> bid_value (pv_root_id v)"
proof -
  obtain tc p' where r: "rcv_config_bpdu ac b p = Inr (SUPERIOR, tc, p')"
    and p': "sp_designated p' = Some (v, rcv_times b)" "sp_state p' = sp_state p"
      "sp_ofport p' = sp_ofport p" "port_ok p' = port_ok p"
    using assms(6,4) by (rule rcv_first_unit)
  let ?b1 = "on_port n (\<lambda>_. p') br"
  have ok: "ports_ok (cores ?b1)"
    unfolding cores_on_port_const using bridge_ok_ports [OF assms(1)]
    by (rule ports_ok_upd) (use p'(3,4) bridge_ok_get(2) [OF assms(1,2)] assms(2) in \<open>auto simp: cores_get\<close>)
  have get: "dict_get (br_ports ?b1) n = Some p'"
    using assms(2) by (simp add: on_port_def dict_get_map)
  let ?b2 = "recalculate_spanning_tree clk False ?b1"
  have le: "bid_value (pr_root_id (br_root_priority ?b2)) \<le> bid_value (pv_root_id v)"
    by (rule recalculated_root_le [OF ok get _ p'(1)]) (use p' assms(3,7) in simp_all)
  have "br_root_priority (forward_tc_bpdu tc ?b2) = br_root_priority ?b2"
    by (simp add: forward_tc_bpdu_def on_all_ports_def)
  with le that show thesis
    using assms(5) by (auto simp: receive_config_def assms(2) r Let_def split: if_splits)
qed

end
