(* ===== verification/Stp_Samples.thy ===== *)
theory Stp_Samples
  imports Stp_Frames
begin

text \<open>
  Two bridges with one port each, on which the hypotheses of properties are shown to be
  satisfiable, and a converter that prints an address as six hexadecimal pairs.
\<close>

definition hex_pair :: "byte \<Rightarrow> string" where
  "hex_pair b = [hex_digit (unat b div 16), hex_digit (unat b mod 16)]"

fun hex_text :: "bytes \<Rightarrow> string" where
  "hex_text [] = []"
| "hex_text [b] = hex_pair b"
| "hex_text (b # bs) = hex_pair b @ CHR '':'' # hex_text bs"

fun pair_bytes :: "nat list \<Rightarrow> bytes" where
  "pair_bytes (a # b # r) = word_of_nat (a * 16 + b) # pair_bytes r"
| "pair_bytes _ = []"

definition hex_bin :: "string \<Rightarrow> bytes res" where
  "hex_bin s = Inr (pair_bytes (List.map_filter hex_value s))"

definition hex_ac :: addrconv where
  "hex_ac = \<lparr>mac_to_text = hex_text, mac_to_bin = hex_bin, ip_to_text = (\<lambda>b. []), ip_to_bin = (\<lambda>s. Inl TypeError)\<rparr>"

definition no_oth :: other_parsers where
  "no_oth = (\<lambda>n b. raise StructError)"

definition hw_a :: string where "hw_a = ''00:00:00:00:00:01''"
definition hw_b :: string where "hw_b = ''00:00:00:00:00:02''"

lemma hex_addresses:
  "mac_text_of hex_ac hw_a [0, 0, 0, 0, 0, 1]" "mac_text_of hex_ac hw_b [0, 0, 0, 0, 0, 2]"
  "mac_text_of hex_ac BRIDGE_GROUP_ADDRESS [1, 0x80, 0xc2, 0, 0, 0]"
  unfolding mac_text_of_def hex_ac_def hw_a_def hw_b_def BRIDGE_GROUP_ADDRESS_def by code_simp+

definition id_a :: bridge_id where
  "id_a = \<lparr>bid_priority = 4096, bid_ext = 0, bid_mac = hw_a, bid_value = 4096 * 281474976710656 + 1\<rparr>"

definition id_b :: bridge_id where
  "id_b = \<lparr>bid_priority = 32768, bid_ext = 0, bid_mac = hw_b, bid_value = 32768 * 281474976710656 + 2\<rparr>"

lemma hex_bridge_ids:
  "BridgeId hex_ac 4096 0 hw_a = Inr id_a" "BridgeId hex_ac 32768 0 hw_b = Inr id_b"
  using hex_addresses(1,2)
  by (simp_all add: BridgeId_def encode_bridge_id_def mac_text_of_def id_a_def id_b_def be_nat_def push_bit_eq_mult)

definition default_times :: times where
  "default_times = \<lparr>t_message_age = 0, t_max_age = 20, t_hello_time = 2, t_forward_delay = 15\<rparr>"

definition ofp_a :: of_port where "ofp_a = \<lparr>op_no = 1, op_hw_addr = hw_a, op_link = 0, op_curr = 16\<rparr>"
definition ofp_b :: of_port where "ofp_b = \<lparr>op_no = 1, op_hw_addr = hw_b, op_link = 0, op_curr = 16\<rparr>"

definition fresh_port :: "bridge_id \<Rightarrow> of_port \<Rightarrow> stp_port" where
  "fresh_port bid ofp =
     \<lparr>sp_ofport = ofp, sp_enable = True, sp_bridge_id = bid, sp_port_id = PortId 128 (op_no ofp),
      sp_path_cost = 20000, sp_state = Some LISTEN, sp_role = Some DESIGNATED_PORT,
      sp_priority = OwnPriority bid, sp_times = default_times, sp_designated = None,
      sp_send_thread = True, sp_wait_thread = False, sp_send_tc_flg = False, sp_send_tc_timer = None,
      sp_send_tcn_flg = False\<rparr>"

definition bridge_b :: bridge where
  "bridge_b =
     \<lparr>br_version = V1_3, br_id = id_b, br_times = default_times, br_root_priority = OwnPriority id_b,
      br_root_times = default_times, br_ports = [(1, fresh_port id_b ofp_b)], br_ports_state = [(1, 0)],
      br_ports_conf = (\<lambda>_. no_port_conf),
      br_out = [PortMod 1 64 101, AddNoPktIn 1, EventPortStateChange 1 LISTEN, BpduFlow]\<rparr>"

lemma and_numerals: "(16 :: nat) AND 64 = 0" "(16 :: nat) AND 32 = 0" "(16 :: nat) AND 16 = 16" "(64 :: nat) AND 64 = 64"
  by simp_all

lemma new_port_fresh:
  assumes "op_curr ofp = 16" and "pvl_priority v = 128"
  shows "new_port V1_3 no_port_conf bid default_times ofp v =
    (fresh_port bid ofp, [PortMod (op_no ofp) 64 101, AddNoPktIn (op_no ofp), EventPortStateChange (op_no ofp) LISTEN],
     v\<lparr>pvl_path_cost := 20000\<rparr>)"
  using assms
  by (simp add: new_port_def no_port_conf_def Let_def port_values_for_def rate_cost_def path_costs_def
      up_state_def enter_status_def change_role_def fresh_port_def set_port_status_def OFPPC_NO_PACKET_IN_def)

lemma new_bridge_b:
  "new_bridge hex_ac V1_3 no_bridge_conf [ofp_b] (bridge_default_init, port_default_init) =
     (Inr bridge_b, (bridge_default_init, port_default_init\<lparr>pvl_path_cost := 20000\<rparr>))"
proof -
  have v: "bridge_values_for no_bridge_conf bridge_default_init = bridge_default_init"
    by (simp add: bridge_values_for_def no_bridge_conf_def or_else_def bridge_default_init_def)
  have p: "pvl_priority port_default_init = 128" by (simp add: port_default_init_def)
  have t: "\<lparr>t_message_age = 0, t_max_age = 20, t_hello_time = 2, t_forward_delay = 15\<rparr> = default_times"
    by (simp add: default_times_def)
  have d: "bv_priority bridge_default_init = 32768" "bv_ext bridge_default_init = 0"
    "bv_max_age bridge_default_init = 20" "bv_hello_time bridge_default_init = 2"
    "bv_fwd_delay bridge_default_init = 15" "bc_ports no_bridge_conf = (\<lambda>_. no_port_conf)"
    "op_hw_addr ofp_b = hw_b" "op_no ofp_b = 1" "op_link ofp_b = 0" "op_curr ofp_b = 16"
    by (simp_all add: bridge_default_init_def no_bridge_conf_def ofp_b_def)
  show ?thesis
    using new_port_fresh [of ofp_b port_default_init id_b] p hex_bridge_ids(2)
    by (simp add: new_bridge_def v d Let_def t port_add_def MAX_PORT_NO_def emit_def bridge_b_def dict_set_def)
qed

lemma bridge_b_start: "bridge_start hex_ac bridge_b"
  unfolding bridge_start_def using new_bridge_b by (metis fst_conv)

lemma bridge_b_reachable: "stp.reachable hex_ac no_oth bridge_b"
  by (rule stp.reach_start, rule bridge_b_start)

section \<open>A run to forwarding\<close>

definition port_b :: "port_state \<Rightarrow> stp_port" where
  "port_b st = (fresh_port id_b ofp_b)\<lparr>sp_state := Some st\<rparr>"

definition learning_b :: bridge where
  "learning_b = bridge_b\<lparr>br_ports := [(1, port_b LEARN)],
     br_out := br_out bridge_b @ [PortMod 1 64 101, AddNoPktIn 1, EventPortStateChange 1 LEARN]\<rparr>"

lemma to_learning: "bridge_step hex_ac no_oth bridge_b (StateTimeout 15 1) = Some learning_b"
  by (simp add: state_timeout_def bridge_b_def learning_b_def port_b_def fresh_port_def dict_get_def
      port_change_status_def emit_def on_port_def enter_status_def set_port_status_def Let_def
      OFPPC_NO_PACKET_IN_def)

lemma learning_reachable: "stp.reachable hex_ac no_oth learning_b"
  by (rule stp.reach_step [OF bridge_b_reachable to_learning])

lemma forwards_next:
  obtains b p where "bridge_step hex_ac no_oth learning_b (StateTimeout 30 1) = Some b"
    "dict_get (br_ports b) 1 = Some p" "sp_state p = Some FORWARD"
proof -
  let ?b = "state_timeout 30 1 learning_b"
  have c: "cores learning_b = [(1, core (port_b LEARN))]" by (simp add: cores_def learning_b_def)
  have "?b = port_change_status 30 1 FORWARD learning_b"
    by (simp add: state_timeout_def learning_b_def port_b_def fresh_port_def dict_get_def)
  then have "cores ?b = [(1, core (enter_status FORWARD (core (port_b LEARN))))]"
    by (simp add: cores_change_status c upd_def)
  then have "dict_get (cores ?b) 1 = Some (core (enter_status FORWARD (core (port_b LEARN))))"
    by (simp add: dict_get_def)
  then obtain p where p: "dict_get (br_ports ?b) 1 = Some p"
    "core p = core (enter_status FORWARD (core (port_b LEARN)))" by (auto simp: cores_get)
  have "sp_state p = Some FORWARD" using arg_cong [OF p(2), of sp_state] by simp
  with p(1) show thesis by (intro that) simp_all
qed

section \<open>A better root\<close>

definition unit_a :: config_bpdu where
  "unit_a = config_bpdu_of 0 (fresh_port id_a ofp_a)"

definition vector_a :: prio_vector where
  "vector_a = \<lparr>pv_root_id = id_a, pv_root_path_cost = 20000, pv_bridge_id = id_a, pv_port_id = PortId 128 1\<rparr>"

lemma unit_a_fields:
  "cb_flags unit_a = 0" "root_priority unit_a = 4096" "root_system_id_extension unit_a = 0"
  "root_mac_address unit_a = hw_a" "root_path_cost unit_a = 20000" "bridge_priority unit_a = 4096"
  "bridge_system_id_extension unit_a = 0" "bridge_mac_address unit_a = hw_a" "port_priority unit_a = 128"
  "port_number unit_a = 1" "message_age unit_a = 1" "max_age unit_a = 20" "hello_time unit_a = 2"
  "forward_delay unit_a = 15"
  by (simp_all add: unit_a_def config_bpdu_of_def fresh_port_def id_a_def ofp_a_def default_times_def PortId_def)

lemma unit_a_vector: "rcv_vector hex_ac unit_a = Inr vector_a"
  using hex_bridge_ids(1) by (simp add: rcv_vector_def unit_a_fields vector_a_def)

lemma timer_ok_numerals: "timer_ok 1" "timer_ok 2" "timer_ok 15" "timer_ok 20"
  using timer_ok_int [of 1] timer_ok_int [of 2] timer_ok_int [of 15] timer_ok_int [of 20] by simp_all

lemma unit_a_wf: "config_wf hex_ac unit_a" "check_parameters unit_a"
proof -
  have "\<exists>b. mac_text_of hex_ac hw_a b" using hex_addresses(1) by blast
  then show "config_wf hex_ac unit_a"
    by (simp add: config_wf_def unit_a_fields bridge_ident_ok_def port_ident_ok_def timer_range_def)
  show "check_parameters unit_a"
    using timer_ok_numerals by (simp add: check_parameters_def rst_check_parameters_def unit_a_fields)
qed

lemma unit_a_whole: "whole_seconds unit_a = unit_a"
proof -
  have "\<lfloor>20 :: rat\<rfloor> = 20" "\<lfloor>2 :: rat\<rfloor> = 2" "\<lfloor>15 :: rat\<rfloor> = 15" "\<lfloor>1 :: rat\<rfloor> = 1" by simp_all
  then show ?thesis unfolding whole_seconds_def unit_a_fields by (simp add: unit_a_def config_bpdu_of_def
      fresh_port_def default_times_def)
qed

text \<open>A bridge with one port that offers a better root makes it the root port.\<close>

lemma only_port_becomes_root:
  assumes "cores br = [(n, p)]" and "sp_no p = n" and "port_ok p" and "sp_state p \<noteq> Some DISABLE"
    and "sp_designated p = Some (v, t)" and "bid_value (pv_root_id v) < bid_value (br_id br)"
  obtains q where "dict_get (br_ports (recalculate_spanning_tree clk False br)) n = Some q" "sp_role q = Some ROOT_PORT"
proof -
  have ok: "ports_ok (cores br)" using assms(1-3) by (simp add: ports_ok_def dict_wf_def dict_get_def)
  obtain b1 roles prio tms where
    c1: "cores b1 = map (\<lambda>(k, p). (k, block_port False p)) (cores br)" and b1: "br_id b1 = br_id br"
    and roles: "new_roles False b1 = (roles, prio, tms)"
    and c2: "cores (recalculate_spanning_tree clk False br) =
       map (\<lambda>(k, p). (k, by_role roles prio tms k (block_port False p))) (cores br)"
    using ok by (rule cores_recalculate)
  note bp = block_port_ok [OF assms(3), of False]
  obtain q where q: "br_ports b1 = [(n, q)]" "core q = block_port False p"
    using c1 assms(1) by (auto simp: cores_def)
  have f: "sp_designated q = Some (v, t)" "sp_state q = Some BLOCK" "sp_no q = n"
    using arg_cong [OF q(2), of sp_designated] arg_cong [OF q(2), of sp_state] arg_cong [OF q(2), of sp_ofport]
      bp assms(2,4,5) by simp_all
  have "offers (br_id b1) q" using f assms(6) b1 by (simp add: offers_def)
  then have sel: "select_root_port (br_id b1) None (port_list b1) = Some q"
    by (simp only: select_root_port_reference) (simp add: reference_root_port_def port_list_def q(1))
  obtain roles' where "spanning_tree_algorithm (br_id b1) (br_times b1) (port_list b1) = (roles', RcvPriority v, t)"
    "dict_get roles' n = Some ROOT_PORT"
    using algorithm_other_root [OF sel f(1), of "br_times b1"] f(3) by metis
  then have r: "dict_get roles n = Some ROOT_PORT" using roles by (simp add: new_roles_def)
  have "dict_get (cores (recalculate_spanning_tree clk False br)) n = Some (raise_port ROOT_PORT prio tms (block_port False p))"
    by (simp add: c2 assms(1) dict_get_def by_role_def r [unfolded dict_get_def])
  then obtain q' where q': "dict_get (br_ports (recalculate_spanning_tree clk False br)) n = Some q'"
    "core q' = raise_port ROOT_PORT prio tms (block_port False p)" by (auto simp: cores_get)
  have "sp_role q' = Some ROOT_PORT"
    using arg_cong [OF q'(2), of sp_role] bp assms(4) by (simp add: raise_port_ok)
  with q'(1) that show thesis by blast
qed

lemma bridge_b_port: "dict_get (br_ports bridge_b) 1 = Some (fresh_port id_b ofp_b)"
  by (simp add: bridge_b_def dict_get_def)

lemma b_adopts_a:
  obtains br p where "stp.reachable hex_ac no_oth br" "dict_get (br_ports br) 1 = Some p" "sp_role p = Some ROOT_PORT"
proof -
  have age: "0 \<le> t_message_age (sp_times (fresh_port id_a ofp_a))" by (simp add: fresh_port_def default_times_def)
  have hw: "mac_text_of hex_ac (op_hw_addr (sp_ofport (fresh_port id_a ofp_a))) [0, 0, 0, 0, 0, 1]"
    using hex_addresses(1) by (simp add: fresh_port_def ofp_a_def)
  obtain data pkt where d: "Packet hex_ac (stp_parsers hex_ac no_oth) data = ret pkt"
    "received_bpdu hex_ac pkt = Some (ConfigurationBPDUs unit_a)"
    using config_frame_delivered [OF unit_a_wf [unfolded unit_a_def] age hex_addresses(3) hw] unit_a_whole
    by (metis unit_a_def)
  let ?p = "fresh_port id_b ofp_b"
  have p0: "sp_designated ?p = None" "sp_state ?p = Some LISTEN" by (simp_all add: fresh_port_def)
  obtain tc p' where r: "rcv_config_bpdu hex_ac unit_a ?p = Inr (SUPERIOR, tc, p')"
    and p': "sp_designated p' = Some (vector_a, rcv_times unit_a)" "sp_state p' = Some LISTEN"
      "sp_ofport p' = ofp_b" "port_ok p'"
  proof (rule rcv_first_unit [OF unit_a_vector p0(1)])
    have ok: "port_ok ?p" using bridge_ok_get(2) [OF bridge_reachable_ok [OF bridge_b_reachable] bridge_b_port] .
    fix tc p' assume "rcv_config_bpdu hex_ac unit_a ?p = Inr (SUPERIOR, tc, p')"
      "sp_designated p' = Some (vector_a, rcv_times unit_a)" "sp_state p' = sp_state ?p"
      "sp_ofport p' = sp_ofport ?p" "port_ok p' = port_ok ?p"
    then show thesis using ok p0 by (intro that) (simp_all add: fresh_port_def)
  qed
  let ?b1 = "on_port 1 (\<lambda>_. p') bridge_b"
  have c: "cores ?b1 = [(1, core p')]" by (simp add: cores_def on_port_def bridge_b_def)
  obtain q where q: "dict_get (br_ports (recalculate_spanning_tree 0 False ?b1)) 1 = Some q" "sp_role q = Some ROOT_PORT"
    by (rule only_port_becomes_root [OF c, of vector_a "rcv_times unit_a" 0])
      (simp_all add: p' ofp_b_def vector_a_def id_a_def bridge_b_def id_b_def)
  let ?b2 = "forward_tc_bpdu tc (recalculate_spanning_tree 0 False ?b1)"
  have g: "dict_get (br_ports ?b2) 1 = Some (q\<lparr>sp_send_tc_flg := tc\<rparr>)"
    using q(1) by (simp add: forward_tc_bpdu_def on_all_ports_def dict_get_map)
  have "bridge_packet_in hex_ac no_oth 0 (Some 1) data bridge_b = Some (?b2, None)"
    using d q r by (simp add: bridge_packet_in_def bridge_b_port [unfolded One_nat_def] p0(2) ret_def receive_packet_def receive_config_def
        unit_a_fields Let_def)
  then have "bridge_step hex_ac no_oth bridge_b (PacketIn 0 (Some 1) data) = Some ?b2" by simp
  from stp.reach_step [OF bridge_b_reachable this] g q(2) that show thesis by simp
qed

end
