(* ===== verification/Stp_Properties.thy ===== *)
theory Stp_Properties
  imports Stp_Samples
begin

text \<open>
  Properties of the spanning tree: the root port and the roles, what forwards and since when,
  the frames between two bridges, and the tables of defaults.
\<close>

section \<open>Ports on the tree\<close>

text \<open>
  C22. In every state a bridge can reach, at most one port is the root port; the vector it
  received is the priority the bridge holds for the root, and that root is better than the
  bridge itself.
\<close>
theorem one_root_port:
  assumes "stp.reachable ac oth br" and "dict_get (br_ports br) n = Some p" and "sp_role p = Some ROOT_PORT"
    and "dict_get (br_ports br) m = Some q" and "sp_role q = Some ROOT_PORT"
  shows "m = n \<and> (\<exists>v t. sp_designated p = Some (v, t) \<and> br_root_priority br = RcvPriority v \<and>
    bid_value (pv_root_id v) < bid_value (br_id br))"
proof -
  have r: "root_ok (br_id br) (br_root_priority br) (cores br)"
    using bridge_reachable_ok [OF assms(1)] unfolding bridge_ok_def by (elim conjE)
  have get: "dict_get (cores br) n = Some (core p)" "dict_get (cores br) m = Some (core q)"
    using assms by (simp_all add: cores_get)
  have root: "is_root_port (core p)" "is_root_port (core q)" using assms by (simp_all add: is_root_port_def)
  show ?thesis using root_okD(1) [OF r get(1) root(1)] root_okD(2) [OF r get(1) root(1) get(2) root(2)] by simp
qed

theorem one_root_port_witness:
  "\<exists>(br :: bridge) p v t. dict_get (br_ports br) 1 = Some p \<and> sp_designated p = Some (v, t) \<and>
     br_root_priority br = RcvPriority v \<and> bid_value (pv_root_id v) < bid_value (br_id br)"
proof -
  obtain br p where r: "stp.reachable hex_ac no_oth br" "dict_get (br_ports br) 1 = Some p"
    "sp_role p = Some ROOT_PORT" by (rule b_adopts_a)
  show ?thesis using one_root_port [OF r r(2,3)] r(2) by blast
qed

text \<open>
  C23. Only enabled ports on the tree forward: a port that forwards is the root port or a
  designated port, and a disabled port is designated and sends no units.
\<close>
theorem only_tree_ports_forward:
  assumes "stp.reachable ac oth br" and "dict_get (br_ports br) n = Some p" and "sp_state p = Some FORWARD"
  shows "sp_role p \<in> {Some ROOT_PORT, Some DESIGNATED_PORT} \<and> sp_enable p"
proof -
  have "port_ok p" by (rule bridge_ok_get(2) [OF bridge_reachable_ok [OF assms(1)] assms(2)])
  then show ?thesis using assms(3) by (cases "sp_role p"; cases "the (sp_role p)") (auto simp: port_ok_def)
qed

theorem only_tree_ports_forward_witness:
  "\<exists>br p. stp.reachable hex_ac no_oth br \<and> dict_get (br_ports br) 1 = Some p \<and> sp_state p = Some FORWARD \<and>
     sp_role p \<in> {Some ROOT_PORT, Some DESIGNATED_PORT} \<and> sp_enable p"
proof -
  obtain br p where f: "bridge_step hex_ac no_oth learning_b (StateTimeout 30 1) = Some br"
    "dict_get (br_ports br) 1 = Some p" "sp_state p = Some FORWARD" by (rule forwards_next)
  have "stp.reachable hex_ac no_oth br" by (rule stp.reach_step [OF learning_reachable f(1)])
  with only_tree_ports_forward [OF this f(2,3)] f(2,3) show ?thesis by blast
qed

text \<open>
  C24. The root port is chosen right: the loop over the ports yields the port that the reference
  names, the first of those with the least priority vector among the ports that offer a better
  root than the bridge itself.
\<close>
theorem root_port_is_least:
  "select_root_port own None ps = first_least offer_key (filter (offers own) ps)"
  unfolding select_root_port_reference reference_root_port_def ..

section \<open>Delays\<close>

lemma recalculate_listens:
  assumes "ports_ok (cores br)"
    and "dict_get (br_ports (recalculate_spanning_tree clk init br)) n = Some p'"
  shows "sp_state p' \<in> {Some DISABLE, Some BLOCK, Some LISTEN}"
proof -
  obtain roles prio tms where c: "cores (recalculate_spanning_tree clk init br) =
      map (\<lambda>(k, p). (k, by_role roles prio tms k (block_port init p))) (cores br)"
    using assms(1) by (rule cores_recalculate)
  have "dict_get (cores (recalculate_spanning_tree clk init br)) n = Some (core p')"
    by (simp add: cores_get assms(2))
  then obtain q where q: "dict_get (cores br) n = Some q"
    "core p' = by_role roles prio tms n (block_port init q)" by (auto simp: c dict_get_map)
  have ok: "port_ok q" using assms(1) q(1) unfolding ports_ok_def by blast
  have "sp_state (by_role roles prio tms n (block_port init q)) \<in> {Some DISABLE, Some BLOCK, Some LISTEN}"
    using ok by (auto simp: by_role_def raise_port_ok block_port_ok split: option.split)
  then show ?thesis unfolding q(2) [symmetric] by simp
qed

text \<open>The ports that learn or forward after an operation did so before it.\<close>

definition no_advance :: "bridge \<Rightarrow> bridge \<Rightarrow> bool" where
  "no_advance br br' \<longleftrightarrow>
     (\<forall>n p'. dict_get (br_ports br') n = Some p' \<longrightarrow> sp_state p' \<in> {Some LEARN, Some FORWARD} \<longrightarrow>
        (\<exists>p. dict_get (br_ports br) n = Some p \<and> sp_state p = sp_state p'))"

lemma no_advance_upd:
  assumes "cores br' = upd n f (cores br)"
    and "\<And>p. dict_get (br_ports br) n = Some p \<Longrightarrow>
      sp_state (f (core p)) \<in> {Some DISABLE, Some BLOCK, Some LISTEN, sp_state p}"
  shows "no_advance br br'"
  unfolding no_advance_def
proof (intro allI impI)
  fix k p' assume p': "dict_get (br_ports br') k = Some p'" "sp_state p' \<in> {Some LEARN, Some FORWARD}"
  have "dict_get (upd n f (cores br)) k = Some (core p')" using p'(1) by (simp add: assms(1) [symmetric] cores_get)
  then obtain p where p: "dict_get (br_ports br) k = Some p" "core p' = (if k = n then f (core p) else core p)"
    by (auto simp: dict_get_upd cores_get split: if_splits)
  have "sp_state p' = sp_state (if k = n then f (core p) else core p)"
    unfolding p(2) [symmetric] by simp
  then have "sp_state p' = sp_state p" using assms(2) [of p] p(1) p'(2) by (auto split: if_splits)
  with p(1) show "\<exists>p. dict_get (br_ports br) k = Some p \<and> sp_state p = sp_state p'" by auto
qed

lemma no_advance_same: "cores br' = cores br \<Longrightarrow> no_advance br br'"
  using no_advance_upd [of br' 0 "\<lambda>p. p" br] by simp

lemma no_advance_trans: "no_advance a b \<Longrightarrow> no_advance b c \<Longrightarrow> no_advance a c"
  unfolding no_advance_def by metis

lemma no_advance_recalculate:
  "ports_ok (cores b) \<Longrightarrow> no_advance br (recalculate_spanning_tree clk init b)"
  using recalculate_listens [of b clk init] by (fastforce simp: no_advance_def)

lemma no_advance_refl [simp]: "no_advance br br"
  by (simp add: no_advance_same)

lemma no_advance_down: "dict_wf (br_ports br) \<Longrightarrow> st \<in> {DISABLE, BLOCK} \<Longrightarrow>
    no_advance br ((port_down clk st init n br)\<lparr>br_ports_state := x\<rparr>)"
  by (rule no_advance_upd [where f = "down_port st init" and n = n])
    (auto simp: cores_port_down down_port_def)

lemma no_advance_up: "dict_wf (br_ports br) \<Longrightarrow>
    no_advance br ((port_up clk r prio tms n br)\<lparr>br_ports_state := x\<rparr>)"
  by (rule no_advance_upd [where f = "up_port r prio tms" and n = n])
    (auto simp: cores_port_up up_port_def up_state_def)

lemma no_advance_link:
  assumes "bridge_ok br"
  shows "no_advance br (fst (link_up clk ofp br))" "no_advance br (fst (link_down clk ofp br))"
proof -
  have wf: "dict_wf (br_ports br)" by (rule ports_ok_wf [OF bridge_ok_ports [OF assms]])
  show "no_advance br (fst (link_up clk ofp br))"
    using no_advance_up [OF wf] by (simp add: link_up_def Let_def)
  show "no_advance br (fst (link_down clk ofp br))"
  proof (cases "dict_get (br_ports br) (op_no ofp)")
    case None
    then show ?thesis by (simp add: link_down_def Let_def)
  next
    case (Some p)
    let ?b = "(port_down clk DISABLE True (op_no ofp) br)
      \<lparr>br_ports_state := dict_set (op_no ofp) (op_link ofp) (br_ports_state br)\<rparr>"
    have "ports_ok (cores ?b)"
      using bridge_ok_ports [OF assms] bridge_ok_get(2) [OF assms]
      by (simp add: cores_port_down [OF wf], elim ports_ok_upd) (auto simp: cores_get down_disable_ok)
    with no_advance_down [OF wf] show ?thesis
      by (simp add: link_down_def Let_def Some no_advance_recalculate)
  qed
qed

lemma no_advance_delete:
  assumes "bridge_ok br"
  shows "no_advance br (fst (port_delete clk ofp br))"
proof -
  obtain b e where l: "link_down clk ofp br = (b, e)" by (cases "link_down clk ofp br")
  have "no_advance br b" using no_advance_link(2) [OF assms, of clk ofp] by (simp add: l)
  moreover have "no_advance b (b\<lparr>br_ports := dict_remove_if P (br_ports b), br_ports_state := x\<rparr>)" for P x
    by (auto simp: no_advance_def split: if_splits)
  ultimately show ?thesis by (cases e) (auto simp: port_delete_def l intro: no_advance_trans)
qed

lemma no_advance_add: "no_advance br (fst (port_add ofp v br))"
proof -
  obtain p msgs v' where new:
    "new_port (br_version br) (br_ports_conf br (op_no ofp)) (br_id br) (br_times br) ofp v = (p, msgs, v')"
    by (cases "new_port (br_version br) (br_ports_conf br (op_no ofp)) (br_id br) (br_times br) ofp v")
  have "sp_state p \<in> {Some DISABLE, Some LISTEN}"
    using new by (auto simp: new_port_def Let_def up_state_def)
  then show ?thesis by (auto simp: port_add_def new Let_def no_advance_def split: if_splits)
qed

lemma no_advance_port_status:
  assumes "bridge_ok br" and "port_status_bridge clk reason ofp v br = ((br', e), v')"
  shows "no_advance br br'"
proof (cases reason)
  case OFPPR_ADD
  with assms(2) no_advance_add [of br ofp v] show ?thesis by (simp add: port_status_bridge_def split: prod.splits)
next
  case OFPPR_DELETE
  with assms(2) no_advance_delete [OF assms(1), of clk ofp] show ?thesis by (simp add: port_status_bridge_def)
next
  case OFPPR_MODIFY
  with assms(2) no_advance_link [OF assms(1), of clk ofp] show ?thesis
    by (auto simp: port_status_bridge_def split: option.splits if_splits)
qed

lemma no_advance_receive:
  assumes "bridge_ok br"
  shows "no_advance br (fst (receive_packet ac clk n data pkt br))"
proof -
  have config: "no_advance br (fst (receive_config ac clk n b br))" for b
  proof (cases "dict_get (br_ports br) n")
    case None
    then show ?thesis by (simp add: receive_config_def)
  next
    case (Some p)
    have tc: "no_advance br b1 \<Longrightarrow> no_advance br (forward_tc_bpdu t b1)" for b1 t
      by (rule no_advance_trans, assumption, rule no_advance_same)
        (simp add: forward_tc_bpdu_def cores_on_all)
    have put: "no_advance br (on_port n (\<lambda>_. q) br)" if "core q = core p" for q
    proof (rule no_advance_upd [OF cores_on_port_const])
      show "sp_state (core q) \<in> {Some DISABLE, Some BLOCK, Some LISTEN, sp_state p'}"
        if "dict_get (br_ports br) n = Some p'" for p'
        using \<open>core q = core p\<close> that Some by (simp only: option.inject, simp)
    qed
    have keep: "no_advance br (emit xs (on_port n (\<lambda>_. q) br))" if "core q = core p" for q xs
      by (rule no_advance_trans [OF put [OF that]], rule no_advance_same) simp
    have re: "no_advance br (recalculate_spanning_tree clk False (on_port n (\<lambda>_. q) br))"
      if "rcv_config_bpdu ac b p = Inr (i, t, q)" for i t q
    proof (rule no_advance_recalculate)
      show "ports_ok (cores (on_port n (\<lambda>_. q) br))"
        unfolding cores_on_port_const using bridge_ok_ports [OF assms]
        by (rule ports_ok_upd)
          (use rcv_config_bpdu_fields(1,2) [OF that] bridge_ok_get(2) [OF assms Some] Some in \<open>auto simp: cores_get\<close>)
    qed
    show ?thesis
      using re put keep rcv_config_bpdu_fields(3) [of ac b p]
      by (auto simp: receive_config_def Some Let_def intro!: tc split: sum.split)
  qed
  have "no_advance br (fst (receive_tcn ac clk n br))"
    by (auto simp: receive_tcn_def intro!: no_advance_same split: option.split sum.split)
  with config show ?thesis
    by (auto simp: receive_packet_def intro: no_advance_same split: option.split bpdu.split)
qed

lemma no_advance_step:
  assumes "bridge_ok br" and "bridge_step ac oth br ev = Some br'"
    and "\<nexists>clk n. ev = StateTimeout clk n"
  shows "no_advance br br'"
proof (cases ev)
  case (PacketIn clk in_port data)
  have "no_advance br b" if "receive_packet ac clk n data pkt br = (b, e)" for n pkt b e
    using no_advance_receive [OF assms(1), of ac clk n data pkt] by (simp add: that)
  with assms(2) show ?thesis
    by (auto simp: PacketIn bridge_packet_in_def split: option.splits if_splits sum.splits)
next
  case (PortStatus clk reason ofp v)
  obtain b e v' where "port_status_bridge clk reason ofp v br = ((b, e), v')"
    by (cases "port_status_bridge clk reason ofp v br") auto
  with assms PortStatus no_advance_port_status [OF assms(1)] show ?thesis by auto
next
  case (StateTimeout clk n)
  with assms(3) show ?thesis by simp
next
  case (WaitTimeout clk n)
  have no_wait: "port_ok p \<Longrightarrow> port_ok (p\<lparr>sp_wait_thread := False\<rparr>)"
    "port_ok p \<Longrightarrow> port_ok ((core p)\<lparr>sp_wait_thread := False\<rparr>)" for p
    by (simp_all add: port_ok_def)
  have "ports_ok (cores (on_port n (\<lambda>p. p\<lparr>sp_wait_thread := False\<rparr>) br))"
    using bridge_ok_ports [OF assms(1)] bridge_ok_get(2) [OF assms(1)]
    by (subst cores_on_port [where g = "\<lambda>p. p\<lparr>sp_wait_thread := False\<rparr>"], simp, elim ports_ok_upd)
      (auto simp: cores_get no_wait)
  then show ?thesis
    using assms(2) by (auto simp: WaitTimeout wait_timeout_def intro: no_advance_recalculate split: option.split)
next
  case (HelloTurn clk n)
  show ?thesis
  proof (cases "dict_get (br_ports br) n")
    case None
    with assms(2) show ?thesis by (simp add: HelloTurn hello_turn_def)
  next
    case (Some p)
    obtain q msgs where t: "transmit_bpdu ac clk p = (q, msgs)" by (cases "transmit_bpdu ac clk p")
    have "sp_state (core q) = sp_state p" using transmit_bpdu_core [OF t] by (elim disjE) (simp_all only:, simp_all)
    then have "no_advance br (emit msgs (on_port n (\<lambda>_. q) br))"
      by (intro no_advance_upd [where f = "\<lambda>_. core q" and n = n]) (simp_all add: cores_on_port_const Some)
    with assms(2) show ?thesis by (auto simp: HelloTurn hello_turn_def Some t)
  qed
qed

text \<open>
  C25. A port begins to forward only by its own timer and only from learning, and begins to
  learn only by its own timer from listening: whatever else happens to the bridge, two forward
  delays lie between a recalculation and the first frame that is forwarded.
\<close>
theorem forwarding_takes_two_delays:
  assumes "stp.reachable ac oth br" and "bridge_step ac oth br ev = Some br'"
    and "dict_get (br_ports br) n = Some p" and "dict_get (br_ports br') n = Some p'"
    and "sp_state p' = Some st" and "st = LEARN \<or> st = FORWARD" and "sp_state p \<noteq> Some st"
  shows "sp_state p = Some (if st = LEARN then LISTEN else LEARN) \<and> (\<exists>clk. ev = StateTimeout clk n)"
proof -
  note ok = bridge_reachable_ok [OF assms(1)]
  have "\<not> no_advance br br'"
  proof
    assume "no_advance br br'"
    then have "sp_state p' \<in> {Some LEARN, Some FORWARD} \<longrightarrow> sp_state p = sp_state p'"
      using assms(3,4) unfolding no_advance_def by fastforce
    then show False using assms(5-7) by auto
  qed
  then obtain clk m where ev: "ev = StateTimeout clk m" using no_advance_step [OF ok assms(2)] by blast
  have br': "br' = state_timeout clk m br" using assms(2) by (simp add: ev)
  have get: "dict_get (cores br') n = Some (core p')" by (simp add: cores_get assms(4))
  show ?thesis
  proof (cases "\<exists>q new. dict_get (br_ports br) m = Some q \<and> next_state (the (sp_state q)) (sp_role q) = Some new \<and> sp_state q \<noteq> None")
    case True
    then obtain q old new where q: "dict_get (br_ports br) m = Some q" "sp_state q = Some old"
      "next_state old (sp_role q) = Some new" by auto
    then have "br' = port_change_status clk m new br" by (simp add: br' state_timeout_def)
    then have c: "dict_get (upd m (\<lambda>p. core (enter_status new p)) (cores br)) n = Some (core p')"
      using get by (simp add: cores_change_status)
    show ?thesis
    proof (cases "n = m")
      case True
      then have "core p' = core (enter_status new (core p))" using c assms(3) by (simp add: dict_get_upd cores_get)
      from arg_cong [OF this, of sp_state] have "st = new" using assms(5) by simp
      then show ?thesis
        using q assms(3,6) True ev by (cases old) (auto split: if_splits)
    next
      case False
      then have "core p' = core p" using c assms(3) by (simp add: dict_get_upd cores_get)
      from arg_cong [OF this, of sp_state] show ?thesis using assms(5,7) by simp
    qed
  next
    case False
    then have "br' = br" by (auto simp: br' state_timeout_def split: option.split)
    then show ?thesis using assms(3-5,7) by simp
  qed
qed

theorem forwarding_takes_two_delays_witness:
  "sp_state (port_b LEARN) = Some LEARN \<and> (\<exists>clk. StateTimeout 30 1 = StateTimeout clk 1)"
proof -
  obtain br p where f: "bridge_step hex_ac no_oth learning_b (StateTimeout 30 1) = Some br"
    "dict_get (br_ports br) 1 = Some p" "sp_state p = Some FORWARD" by (rule forwards_next)
  have g: "dict_get (br_ports learning_b) 1 = Some (port_b LEARN)" by (simp add: learning_b_def dict_get_def)
  show ?thesis
    using forwarding_takes_two_delays [OF learning_reachable f(1) g f(2,3)] by (simp add: port_b_def)
qed

section \<open>Units between bridges\<close>

text \<open>
  The frame a port sends is 60 bytes long and a bridge that receives it finds in it the
  unit it was built from, its timers in whole seconds.
\<close>
theorem config_unit_reaches_neighbour:
  assumes "config_wf ac (config_bpdu_of fl p)" and "check_parameters (config_bpdu_of fl p)"
    and "0 \<le> t_message_age (sp_times p)"
    and "mac_text_of ac BRIDGE_GROUP_ADDRESS g" and "mac_text_of ac (op_hw_addr (sp_ofport p)) s"
  shows "\<exists>data pkt. generate_config_bpdu ac fl p = Inr data \<and> length data = 60 \<and>
    Packet ac (stp_parsers ac oth) data = ret pkt \<and>
    received_bpdu ac pkt = Some (ConfigurationBPDUs (whole_seconds (config_bpdu_of fl p)))"
  using config_frame_delivered [OF assms] by metis

theorem config_unit_reaches_neighbour_witness:
  "\<exists>data pkt. generate_config_bpdu hex_ac 0 (fresh_port id_a ofp_a) = Inr data \<and> length data = 60 \<and>
     Packet hex_ac (stp_parsers hex_ac no_oth) data = ret pkt \<and>
     received_bpdu hex_ac pkt = Some (ConfigurationBPDUs unit_a)"
  using config_unit_reaches_neighbour [OF unit_a_wf [unfolded unit_a_def] _ hex_addresses(3), of "[0, 0, 0, 0, 0, 1]" no_oth]
    hex_addresses(1) unit_a_whole
  by (simp add: unit_a_def fresh_port_def default_times_def ofp_a_def)

text \<open>
  A bridge that has heard nothing on a port and receives there a unit with a better root
  than itself holds a root at least as good from then on.
\<close>
theorem better_root_is_adopted:
  assumes "stp.reachable ac oth br" and "dict_get (br_ports br) n = Some p" and "sp_state p \<noteq> Some DISABLE"
    and "sp_designated p = None" and "message_age b \<le> max_age b" and "rcv_vector ac b = Inr v"
    and "bid_value (pv_root_id v) < bid_value (br_id br)"
  shows "\<exists>br'. receive_config ac clk n b br = (br', None) \<and>
    bid_value (pr_root_id (br_root_priority br')) \<le> bid_value (pv_root_id v) \<and> \<not> is_root_bridge br'"
proof -
  have ok: "bridge_ok br" by (rule bridge_reachable_ok [OF assms(1)])
  obtain br' where br': "receive_config ac clk n b br = (br', None)"
    "bid_value (pr_root_id (br_root_priority br')) \<le> bid_value (pv_root_id v)"
    using ok assms(2-7) by (rule better_root_adopted)
  have "br_id br' = br_id br"
    using br'(1) by (auto simp: receive_config_def forward_tc_bpdu_def on_all_ports_def emit_def Let_def
        split: option.splits sum.splits prod.splits if_splits)
  with br' assms(7) show ?thesis by (auto simp: is_root_bridge_def)
qed

theorem better_root_is_adopted_witness:
  "\<exists>br'. receive_config hex_ac 0 1 unit_a bridge_b = (br', None) \<and>
     bid_value (pr_root_id (br_root_priority br')) \<le> bid_value id_a \<and> \<not> is_root_bridge br'"
  using better_root_is_adopted [OF bridge_b_reachable bridge_b_port _ _ _ unit_a_vector, of 0]
  by (simp add: fresh_port_def unit_a_fields vector_a_def id_a_def bridge_b_def id_b_def)

text \<open>
  A root bridge with a system identifier extension announces another root: the extension is
  missing from its units, so the root they name is better than the bridge itself, which would
  take its own unit, received on another of its ports, for the unit of a better root.
\<close>
theorem extension_is_not_announced:
  assumes "BridgeId ac prio ext mac = Inr own" and "0 < ext" and "sp_priority p = OwnPriority own"
    and "rcv_vector ac (config_bpdu_of fl p) = Inr v"
  shows "bid_value (pv_root_id v) + ext * 281474976710656 = bid_value own \<and>
    bid_value (pv_root_id v) < bid_value own"
proof -
  obtain b where b: "mac_to_bin ac mac = Inr b" and own: "bid_value own = push_bit 48 (prio + ext) + be_nat b"
    "bid_priority own = prio" "bid_mac own = mac"
    using assms(1) by (auto simp: BridgeId_def encode_bridge_id_def map_sum_def split: sum.splits)
  have "bid_value (pv_root_id v) = push_bit 48 prio + be_nat b"
    using assms(4) by (auto simp: rcv_vector_def config_bpdu_of_def assms(3) BridgeId_def own encode_bridge_id_def b
        map_sum_def split: sum.splits)
  then show ?thesis using assms(2) by (simp add: own push_bit_eq_mult algebra_simps)
qed

definition id_ext :: bridge_id where
  "id_ext = id_a\<lparr>bid_ext := 5, bid_value := 4101 * 281474976710656 + 1\<rparr>"

theorem extension_is_not_announced_witness:
  "bid_value (pv_root_id vector_a) + 5 * 281474976710656 = bid_value id_ext \<and>
   bid_value (pv_root_id vector_a) < bid_value id_ext"
proof (rule extension_is_not_announced)
  let ?p = "(fresh_port id_a ofp_a)\<lparr>sp_priority := OwnPriority id_ext\<rparr>"
  show "BridgeId hex_ac 4096 5 hw_a = Inr id_ext"
    using hex_addresses(1) by (simp add: BridgeId_def encode_bridge_id_def mac_text_of_def id_ext_def id_a_def
        be_nat_def push_bit_eq_mult)
  show "sp_priority ?p = OwnPriority id_ext" by simp
  have "config_bpdu_of 0 ?p = unit_a"
    by (simp add: unit_a_def config_bpdu_of_def fresh_port_def id_ext_def id_a_def)
  then show "rcv_vector hex_ac (config_bpdu_of 0 ?p) = Inr vector_a" by (simp add: unit_a_vector)
qed simp

text \<open>
  A unit that is heard again is taken for a superior one exactly when the bridge and the port
  that sent it have priority zero; every such unit then recalculates the tree.
\<close>
theorem repeated_unit_verdict:
  assumes "BridgeId ac prio ext mac = Inr (pv_bridge_id v)" and "pv_port_id v = PortId pprio n"
    and "mac_to_bin ac mac = Inr b" and "haddr_to_int mac = Inr (int (be_nat b))" and "length b = 6"
  shows "compare_bpdu_info (Some (v, t)) v t =
    Inr (if prio + ext = 0 \<and> pprio = 0 then SUPERIOR else REPEATED)"
proof -
  have own: "bid_value (pv_bridge_id v) = push_bit 48 (prio + ext) + be_nat b" "bid_mac (pv_bridge_id v) = mac"
    using assms(1,3) by (simp_all add: BridgeId_def encode_bridge_id_def) (metis bridge_id.select_convs)+
  have "int (bid_value (pv_bridge_id v)) = int (be_nat b) \<longleftrightarrow> prio + ext = 0"
    unfolding of_nat_eq_iff by (simp add: own push_bit_eq_mult)
  moreover have "pid_value (pv_port_id v) = pid_port_no (pv_port_id v) \<longleftrightarrow> pprio = 0"
    by (simp add: assms(2) PortId_def encode_port_id_def push_bit_eq_mult)
  ultimately show ?thesis
    by (simp add: compare_bpdu_info_lex compare_repeated_def own(2) assms(4) cmp_obj_def)
qed

theorem repeated_unit_verdict_witness:
  "compare_bpdu_info (Some (vector_a, default_times)) vector_a default_times = Inr REPEATED"
proof -
  have "haddr_to_int hw_a = Inr 1" unfolding hw_a_def by code_simp
  then have "haddr_to_int hw_a = Inr (int (be_nat [0, 0, 0, 0, 0, 1]))" by (simp add: be_nat_def)
  with repeated_unit_verdict [of hex_ac 4096 0 hw_a vector_a 128 1 "[0, 0, 0, 0, 0, 1]" default_times]
  show ?thesis using hex_bridge_ids(1) hex_addresses(1) by (simp add: vector_a_def mac_text_of_def)
qed

section \<open>Defaults\<close>

lemma br_id_port_add: "br_id (fst (port_add ofp v br)) = br_id br"
  by (simp add: port_add_def emit_def split: prod.split)

lemma br_id_add_ports: "br_id (fst (add_ports ofps v br)) = br_id br"
proof (induction ofps arbitrary: v br)
  case (Cons ofp ofps)
  have "br_id b = br_id br" if "port_add ofp v br = (b, v')" for b v'
    using br_id_port_add [of ofp v br] by (simp add: that)
  then show ?case by (auto simp: Cons.IH split: prod.split)
qed simp

lemma new_bridge_priority:
  assumes "new_bridge ac ver conf ofps ds = (r, ds')"
  shows "fst ds' = bridge_values_for conf (fst ds)"
    and "r = Inr br \<Longrightarrow> bid_priority (br_id br) = bv_priority (bridge_values_for conf (fst ds))"
proof -
  let ?v = "bridge_values_for conf (fst ds)"
  have "fst ds' = ?v \<and> (r = Inr br \<longrightarrow> bid_priority (br_id br) = bv_priority ?v)"
  proof (cases ofps)
    case Nil
    with assms show ?thesis by (auto simp: new_bridge_def Let_def)
  next
    case (Cons ofp rest)
    show ?thesis
    proof (cases "BridgeId ac (bv_priority ?v) (bv_ext ?v) (op_hw_addr ofp)")
      case (Inl e)
      with assms Cons show ?thesis by (auto simp: new_bridge_def Let_def)
    next
      case (Inr bid)
      then have p: "bid_priority bid = bv_priority ?v" by (auto simp: BridgeId_def map_sum_def split: sum.splits)
      have "br_id b = br_id b0" if "add_ports ofps w b0 = (b, w')" for b w b0 w'
        using br_id_add_ports [of ofps w b0] by (simp add: that)
      with assms p Inr show ?thesis
        by (auto simp: new_bridge_def Let_def Cons emit_def simp del: add_ports.simps split: prod.splits if_splits)
    qed
  qed
  then show "fst ds' = ?v" "r = Inr br \<Longrightarrow> bid_priority (br_id br) = bv_priority ?v" by simp_all
qed

text \<open>
  The configuration of one bridge becomes the default of the next: a bridge without a
  configuration of its own starts with the priority that was configured for the bridge before it.
\<close>
theorem configuration_leaks:
  assumes "st_config s d1 = Some conf" and "bc_priority conf = Some x" and "st_config s d2 = None"
    and "register_bridge ac d1 ver1 ofps1 s = (s1, e1)"
    and "register_bridge ac d2 ver2 ofps2 s1 = (s2, None)"
  shows "\<exists>br. dict_get (st_bridges s2) d2 = Some br \<and> bid_priority (br_id br) = x"
proof -
  obtain r1 ds1 where n1: "new_bridge ac ver1 conf ofps1 (st_defaults s) = (r1, ds1)"
    by (cases "new_bridge ac ver1 conf ofps1 (st_defaults s)")
  have s1: "st_defaults s1 = ds1" "st_config s1 = st_config s"
    using assms(1,4) n1
    by (cases r1; auto simp: register_bridge_def unregister_bridge_def or_else_def Let_def)+
  have v1: "bv_priority (fst ds1) = x"
    using new_bridge_priority(1) [OF n1] assms(2) by (simp add: bridge_values_for_def or_else_def)
  obtain r2 ds2 where n2: "new_bridge ac ver2 no_bridge_conf ofps2 ds1 = (r2, ds2)"
    by (cases "new_bridge ac ver2 no_bridge_conf ofps2 ds1")
  obtain br where br: "r2 = Inr br" "dict_get (st_bridges s2) d2 = Some br"
    using assms(3,5) n2 s1 by (cases r2; auto simp: register_bridge_def unregister_bridge_def or_else_def Let_def)
  have "bid_priority (br_id br) = x"
    using new_bridge_priority(2) [OF n2 br(1)] v1 by (simp add: bridge_values_for_def no_bridge_conf_def or_else_def)
  with br(2) show ?thesis by blast
qed

theorem configuration_leaks_witness:
  "\<exists>br. dict_get (st_bridges (fst (register_bridge hex_ac 2 V1_3 [ofp_b]
      (fst (register_bridge hex_ac 1 V1_3 []
        (set_config ((\<lambda>_. None)(1 \<mapsto> no_bridge_conf\<lparr>bc_priority := Some 4096\<rparr>)) stp_init)))))) 2 = Some br \<and>
     bid_priority (br_id br) = 4096"
proof (rule configuration_leaks)
  let ?s = "set_config ((\<lambda>_. None)(1 \<mapsto> no_bridge_conf\<lparr>bc_priority := Some 4096\<rparr>)) stp_init"
  let ?r1 = "register_bridge hex_ac 1 V1_3 [] ?s"
  let ?r2 = "register_bridge hex_ac 2 V1_3 [ofp_b] (fst ?r1)"
  show "st_config ?s 1 = Some (no_bridge_conf\<lparr>bc_priority := Some 4096\<rparr>)" "st_config ?s 2 = None"
    by (simp_all add: set_config_def)
  show "?r1 = (fst ?r1, snd ?r1)" by simp
  have "BridgeId hex_ac 4096 0 hw_b = Inr (id_b\<lparr>bid_priority := 4096, bid_value := 4096 * 281474976710656 + 2\<rparr>)"
    using hex_addresses(2) by (simp add: BridgeId_def encode_bridge_id_def mac_text_of_def id_b_def
        be_nat_def push_bit_eq_mult)
  then have "snd ?r2 = None"
    by (simp add: register_bridge_def unregister_bridge_def set_config_def stp_init_def new_bridge_def
        bridge_values_for_def or_else_def no_bridge_conf_def bridge_default_init_def ofp_b_def Let_def
        split: prod.split)
  then show "?r2 = (fst ?r2, None)" by (metis prod.collapse)
qed simp

end
