(* ===== verification/Slow.thy ===== *)
theory Slow
  imports Wire Packet_Parse
begin

unbundle bit_operations_syntax

text \<open>
  Slow protocols (\<open>ryu/lib/packet/slow.py\<close>): the link aggregation control unit with its actor
  and partner information, and the class \<open>slow\<close>, which picks the unit's class by subtype.  The
  asserts of the parser and of the constructor are \<open>AssertionError\<close>.
\<close>

section \<open>The unit\<close>

record lacp_state =
  ls_activity :: nat
  ls_timeout :: nat
  ls_aggregation :: nat
  ls_synchronization :: nat
  ls_collecting :: nat
  ls_distributing :: nat
  ls_defaulted :: nat
  ls_expired :: nat

record lacp_info =
  li_system_priority :: nat
  li_system :: string
  li_key :: nat
  li_port_priority :: nat
  li_port :: nat
  li_state :: lacp_state

record lacp =
  lacp_version :: nat
  lacp_actor :: lacp_info
  lacp_partner :: lacp_info
  lacp_max_delay :: nat

text \<open>The constructor checks that every state bit \<open>x\<close> has \<open>1 = x | 1\<close>.\<close>

definition state_bits_ok :: "lacp_state \<Rightarrow> bool" where
  "state_bits_ok s \<longleftrightarrow>
     list_all (\<lambda>x. 1 = x OR 1)
       [ls_activity s, ls_timeout s, ls_aggregation s, ls_synchronization s,
        ls_collecting s, ls_distributing s, ls_defaulted s, ls_expired s]"

definition new_lacp :: "nat \<Rightarrow> lacp_info \<Rightarrow> lacp_info \<Rightarrow> nat \<Rightarrow> lacp res" where
  "new_lacp v actor partner delay =
     (if state_bits_ok (li_state actor) \<and> state_bits_ok (li_state partner)
      then Inr \<lparr>lacp_version = v, lacp_actor = actor, lacp_partner = partner, lacp_max_delay = delay\<rparr>
      else Inl AssertionError)"

definition state_byte :: "lacp_state \<Rightarrow> nat" where
  "state_byte s =
     push_bit 0 (ls_activity s) OR push_bit 1 (ls_timeout s) OR push_bit 2 (ls_aggregation s) OR
     push_bit 3 (ls_synchronization s) OR push_bit 4 (ls_collecting s) OR
     push_bit 5 (ls_distributing s) OR push_bit 6 (ls_defaulted s) OR push_bit 7 (ls_expired s)"

definition state_of_byte :: "nat \<Rightarrow> lacp_state" where
  "state_of_byte b =
     \<lparr>ls_activity = drop_bit 0 b AND 1, ls_timeout = drop_bit 1 b AND 1,
      ls_aggregation = drop_bit 2 b AND 1, ls_synchronization = drop_bit 3 b AND 1,
      ls_collecting = drop_bit 4 b AND 1, ls_distributing = drop_bit 5 b AND 1,
      ls_defaulted = drop_bit 6 b AND 1, ls_expired = drop_bit 7 b AND 1\<rparr>"

section \<open>Parsing\<close>

definition unpack_info :: "addrconv \<Rightarrow> bytes \<Rightarrow> nat \<Rightarrow> lacp_info" where
  "unpack_info ac buf i =
     \<lparr>li_system_priority = u16_at buf (i + 2), li_system = mac_to_text ac (slice (i + 4) (i + 10) buf),
      li_key = u16_at buf (i + 10), li_port_priority = u16_at buf (i + 12), li_port = u16_at buf (i + 14),
      li_state = state_of_byte (u8_at buf (i + 16))\<rparr>"

definition tlv_at :: "bytes \<Rightarrow> nat \<Rightarrow> nat \<Rightarrow> nat \<Rightarrow> bool" where
  "tlv_at buf i tag len \<longleftrightarrow> u8_at buf i = tag \<and> u8_at buf (i + 1) = len"

definition lacp_parser :: "addrconv \<Rightarrow> bytes \<Rightarrow> (lacp \<times> bytes) res" where
  "lacp_parser ac buf =
     (if length buf \<noteq> 110 then Inl AssertionError
      else if u8_at buf 0 \<noteq> 1 \<or> u8_at buf 1 \<noteq> 1 then Inl AssertionError
      else if \<not> tlv_at buf 2 1 20 then Inl AssertionError
      else if \<not> tlv_at buf 22 2 20 then Inl AssertionError
      else if \<not> tlv_at buf 42 3 16 then Inl AssertionError
      else if \<not> tlv_at buf 58 0 0 then Inl AssertionError
      else map_sum id (\<lambda>l. (l, drop 110 buf))
             (new_lacp (u8_at buf 1) (unpack_info ac buf 2) (unpack_info ac buf 22) (u16_at buf 44)))"

text \<open>No class is known for the other subtypes: \<open>None\<close>, and the bytes are returned.\<close>

definition slow_parser :: "addrconv \<Rightarrow> bytes \<Rightarrow> (lacp option \<times> bytes) res" where
  "slow_parser ac buf =
     (case buf of
        [] \<Rightarrow> Inl StructError
      | subtype # _ \<Rightarrow>
          if subtype = 1 then map_sum id (\<lambda>(l, rest). (Some l, rest)) (lacp_parser ac buf)
          else Inr (None, buf))"

section \<open>Serialising\<close>

definition info_bytes :: "addrconv \<Rightarrow> nat \<Rightarrow> lacp_info \<Rightarrow> bytes res" where
  "info_bytes ac tag a =
     (case mac_to_bin ac (li_system a) of
        Inl e \<Rightarrow> Inl e
      | Inr system \<Rightarrow>
          pack_all [pack_B tag, pack_B 20, pack_H (li_system_priority a), Inr system, pack_H (li_key a),
            pack_H (li_port_priority a), pack_H (li_port a), pack_B (state_byte (li_state a)),
            Inr (replicate 3 0)])"

definition lacp_serialize :: "addrconv \<Rightarrow> lacp \<Rightarrow> bytes res" where
  "lacp_serialize ac l =
     pack_all [pack_all [pack_B 1, pack_B (lacp_version l)],
       info_bytes ac 1 (lacp_actor l), info_bytes ac 2 (lacp_partner l),
       pack_all [pack_B 3, pack_B 16, pack_H (lacp_max_delay l), Inr (replicate 12 0)],
       Inr ([0, 0] @ replicate 50 0)]"

section \<open>The state byte\<close>

lemma bit_of_or_1: "(1 :: nat) = x OR 1 \<longleftrightarrow> x < 2"
proof
  assume "1 = x OR 1"
  moreover have "x = x AND (x OR 1)" by (rule bit_eqI) (auto simp: bit_and_iff bit_or_iff)
  ultimately have "x = x AND 1" by simp
  then have "x = x mod 2" by (simp add: and_masks)
  then show "x < 2" by presburger
next
  assume "x < 2"
  then have "x = 0 \<or> x = 1" by auto
  then show "1 = x OR 1" by auto
qed

lemma drop_bit_and_1: "drop_bit k b AND 1 = of_bool (bit (b :: nat) k)"
  by (simp add: and_masks bit_iff_odd_drop_bit mod2_eq_if)

lemma bit_small: "x < 2 \<Longrightarrow> bit (x :: nat) j \<longleftrightarrow> j = 0 \<and> x = 1"
proof -
  assume "x < 2"
  then have "x = 0 \<or> x = 1" by auto
  then show ?thesis by (auto simp: bit_Suc_0_iff)
qed

lemma of_bool_small: "x < 2 \<Longrightarrow> of_bool (x = Suc 0) = (x :: nat)"
  by (cases "x = 1") auto

lemma state_byte_roundtrip:
  assumes "state_bits_ok s"
  shows "state_of_byte (state_byte s) = s" and "state_byte s < 256"
proof -
  have b: "ls_activity s < 2" "ls_timeout s < 2" "ls_aggregation s < 2" "ls_synchronization s < 2"
    "ls_collecting s < 2" "ls_distributing s < 2" "ls_defaulted s < 2" "ls_expired s < 2"
    using assms by (simp_all only: state_bits_ok_def bit_of_or_1 list.pred_inject)
  show "state_of_byte (state_byte s) = s"
    unfolding state_of_byte_def drop_bit_and_1 state_byte_def bit_or_iff bit_push_bit_iff
    using b by (cases s) (simp add: bit_small of_bool_small)
  have "take_bit 8 (state_byte s) = state_byte s"
    using b by (simp add: state_byte_def take_bit_push_bit take_bit_nat_eq_self)
  then show "state_byte s < 256" using take_bit_nat_less_exp [of 8 "state_byte s"] by simp
qed

section \<open>A unit is read back\<close>

definition info_wf :: "addrconv \<Rightarrow> lacp_info \<Rightarrow> bool" where
  "info_wf ac a \<longleftrightarrow>
     li_system_priority a < 65536 \<and> (\<exists>b. mac_text_of ac (li_system a) b) \<and> li_key a < 65536 \<and>
     li_port_priority a < 65536 \<and> li_port a < 65536 \<and> state_bits_ok (li_state a)"

definition lacp_wf :: "addrconv \<Rightarrow> lacp \<Rightarrow> bytes \<Rightarrow> bool" where
  "lacp_wf ac l payload \<longleftrightarrow>
     lacp_version l = 1 \<and> info_wf ac (lacp_actor l) \<and> info_wf ac (lacp_partner l) \<and>
     lacp_max_delay l < 65536 \<and> payload = []"

lemma info_bytes_wf:
  assumes "info_wf ac a" and "tag < 256"
  obtains bs where "info_bytes ac tag a = Inr bs" "length bs = 20"
    "\<forall>pre rest. length pre = k \<longrightarrow>
       unpack_info ac (pre @ bs @ rest) k = a \<and> tlv_at (pre @ bs @ rest) k tag 20"
proof -
  from assms(1) obtain m where m: "length m = 6" "mac_to_bin ac (li_system a) = Inr m"
    "mac_to_text ac m = li_system a"
    and f: "li_system_priority a < 65536" "li_key a < 65536" "li_port_priority a < 65536"
      "li_port a < 65536" "state_bits_ok (li_state a)"
    by (auto simp: info_wf_def mac_text_of_def)
  let ?bs = "word_of_nat tag # word_of_nat 20 # be16 (li_system_priority a) @ m @ be16 (li_key a) @
    be16 (li_port_priority a) @ be16 (li_port a) @ word_of_nat (state_byte (li_state a)) # replicate 3 0"
  have st: "state_byte (li_state a) < 256" "state_of_byte (state_byte (li_state a)) = li_state a"
    using state_byte_roundtrip [OF f(5)] by simp_all
  show thesis
  proof (rule that [of ?bs])
    show "info_bytes ac tag a = Inr ?bs" by (simp add: info_bytes_def m f st assms(2))
    show "length ?bs = 20" by (simp add: m)
    have "slice (k + 4) (k + 10) (pre @ ?bs @ rest) = m" if "length pre = k" for pre rest
      unfolding slice_behind [OF that] by (simp add: slice_def be16_def m)
    then show "\<forall>pre rest. length pre = k \<longrightarrow>
       unpack_info ac (pre @ ?bs @ rest) k = a \<and> tlv_at (pre @ ?bs @ rest) k tag 20"
      by (simp add: unpack_info_def tlv_at_def read_fields m f st assms(2)) (simp add: u8_at_def)
  qed
qed

lemma lacp_parser_accepts:
  assumes "length buf = 110" and "u8_at buf 0 = 1" and "u8_at buf 1 = 1"
    and "tlv_at buf 2 1 20" and "tlv_at buf 22 2 20" and "tlv_at buf 42 3 16" and "tlv_at buf 58 0 0"
    and "new_lacp 1 (unpack_info ac buf 2) (unpack_info ac buf 22) (u16_at buf 44) = Inr l"
  shows "lacp_parser ac buf = Inr (l, [])"
  unfolding lacp_parser_def assms(2,3) using assms by simp

lemma lacp_wire:
  assumes "lacp_wf ac l payload"
  obtains bs where "lacp_serialize ac l = Inr bs" "length bs = 110" "hd bs = 1"
    "lacp_parser ac (bs @ payload) = Inr (l, payload)"
proof -
  from assms have wf: "lacp_version l = 1" "info_wf ac (lacp_actor l)" "info_wf ac (lacp_partner l)"
    "lacp_max_delay l < 65536" "payload = []"
    by (simp_all add: lacp_wf_def)
  have tags: "(1 :: nat) < 256" "(2 :: nat) < 256" by simp_all
  obtain a where a: "info_bytes ac 1 (lacp_actor l) = Inr a" "length a = 20"
    "\<forall>pre rest. length pre = 2 \<longrightarrow>
       unpack_info ac (pre @ a @ rest) 2 = lacp_actor l \<and> tlv_at (pre @ a @ rest) 2 1 20"
    by (rule info_bytes_wf [OF wf(2) tags(1)])
  obtain b where b: "info_bytes ac 2 (lacp_partner l) = Inr b" "length b = 20"
    "\<forall>pre rest. length pre = 22 \<longrightarrow>
       unpack_info ac (pre @ b @ rest) 22 = lacp_partner l \<and> tlv_at (pre @ b @ rest) 22 2 20"
    by (rule info_bytes_wf [OF wf(3) tags(2)])
  let ?col = "[3, 16] @ be16 (lacp_max_delay l) @ replicate 12 0"
  let ?trm = "[0, 0] @ replicate 50 0 :: bytes"
  let ?bs = "[1, 1] @ a @ b @ ?col @ ?trm"
  have ser: "lacp_serialize ac l = Inr ?bs" using wf(1,4) by (simp add: lacp_serialize_def a(1) [unfolded One_nat_def] b(1))
  have len: "length ?bs = 110" by (simp add: a(2) b(2))
  have head: "u8_at ?bs 0 = 1" "u8_at ?bs 1 = 1" by (simp_all add: u8_at_def)
  have act: "unpack_info ac ?bs 2 = lacp_actor l" "tlv_at ?bs 2 1 20"
    using a(3) [rule_format, of "[1, 1]" "b @ ?col @ ?trm"] by simp_all
  have par: "unpack_info ac ?bs 22 = lacp_partner l" "tlv_at ?bs 22 2 20"
    using b(3) [rule_format, of "[1, 1] @ a" "?col @ ?trm"] a(2) by simp_all
  have col: "tlv_at ?bs 42 3 16" "u16_at ?bs 44 = lacp_max_delay l" and trm: "tlv_at ?bs 58 0 0"
    using wf(4) by (simp_all add: tlv_at_def read_fields a(2) b(2)) (simp_all add: u8_at_def)
  have "state_bits_ok (li_state (lacp_actor l))" "state_bits_ok (li_state (lacp_partner l))"
    using wf(2,3) by (simp_all add: info_wf_def)
  then have new: "new_lacp 1 (lacp_actor l) (lacp_partner l) (lacp_max_delay l) = Inr l"
    using wf(1) by (cases l) (simp add: new_lacp_def)
  then have "lacp_parser ac ?bs = Inr (l, [])"
    by (intro lacp_parser_accepts len head act par col trm) (simp only: act par col)
  then have "lacp_parser ac (?bs @ payload) = Inr (l, payload)" by (simp only: wf(5) append_Nil2)
  then show thesis using that [OF ser len] by simp
qed

interpretation lacp_codec: codec "lacp_wf ac" "\<lambda>l _. lacp_serialize ac l" "\<lambda>l _. l" "lacp_parser ac" for ac
  by unfold_locales (metis lacp_wire, metis lacp_wire sum.inject(2))

end
