(* ===== verification/Lacp.thy ===== *)
theory Lacp
  imports Slow
begin

text \<open>
  The link aggregation library of \<open>ryu/lib/lacplib.py\<close>: the slave interfaces of the bonds, the
  packet-in and flow-removed handlers, the flow that watches an interface, and the response
  unit.  \<open>ll_out\<close> records what the library sends, in order.
\<close>

section \<open>State\<close>

record slave =
  sl_enabled :: bool
  sl_timeout :: nat

datatype lacp_out =
    LacpFlow nat nat string nat
  | LacpFrame nat nat bytes
  | EventSlaveStateChanged nat nat bool
  | LacpEventPacketIn bytes

text \<open>A bond is a dictionary with one datapath and the interfaces of its ports.\<close>

type_synonym bond = "nat \<times> (nat, slave) dict"

record lacp_lib =
  ll_bonds :: "bond list"
  ll_out :: "lacp_out list"

text \<open>What the handlers read of a datapath: its id, version, and the addresses of its ports.\<close>

record lacp_dp =
  ld_id :: nat
  ld_version :: nat
  ld_hw :: "nat \<Rightarrow> string option"

definition OFPP_LOCAL_of :: "nat \<Rightarrow> nat" where
  "OFPP_LOCAL_of ver = (if ver = 1 then 0xfffe else 0xfffffffe)"

definition lacp_emit :: "lacp_out \<Rightarrow> lacp_lib \<Rightarrow> lacp_lib" where
  "lacp_emit x s = s\<lparr>ll_out := ll_out s @ [x]\<rparr>"

definition lacp_init :: lacp_lib where
  "lacp_init = \<lparr>ll_bonds = [], ll_out = []\<rparr>"

definition lacp_add :: "nat \<Rightarrow> nat list \<Rightarrow> lacp_lib \<Rightarrow> lacp_lib \<times> py_exn option" where
  "lacp_add dpid ports s =
     (if length ports < 2 then (s, Some AssertionError)
      else
        let ifs = fold (\<lambda>port. dict_set port \<lparr>sl_enabled = False, sl_timeout = 0\<rparr>) ports []
        in (s\<lparr>ll_bonds := ll_bonds s @ [(dpid, ifs)]\<rparr>, None))"

section \<open>Slave interfaces\<close>

fun get_slave :: "bond list \<Rightarrow> nat \<Rightarrow> nat \<Rightarrow> slave option" where
  "get_slave [] dpid port = None"
| "get_slave ((d, ifs) # bonds) dpid port =
     (if d = dpid then
        (case dict_get ifs port of Some sl \<Rightarrow> Some sl | None \<Rightarrow> get_slave bonds dpid port)
      else get_slave bonds dpid port)"

text \<open>\<open>slave[...] = ...\<close> on the interface that \<open>_get_slave\<close> finds.\<close>

fun update_slave :: "(slave \<Rightarrow> slave) \<Rightarrow> nat \<Rightarrow> nat \<Rightarrow> bond list \<Rightarrow> bond list" where
  "update_slave f dpid port [] = []"
| "update_slave f dpid port ((d, ifs) # bonds) =
     (if d = dpid then
        (case dict_get ifs port of
           Some sl \<Rightarrow> (d, dict_set port (f sl) ifs) # bonds
         | None \<Rightarrow> (d, ifs) # update_slave f dpid port bonds)
      else (d, ifs) # update_slave f dpid port bonds)"

definition get_slave_enabled :: "nat \<Rightarrow> nat \<Rightarrow> lacp_lib \<Rightarrow> bool" where
  "get_slave_enabled dpid port s =
     (case get_slave (ll_bonds s) dpid port of Some sl \<Rightarrow> sl_enabled sl | None \<Rightarrow> False)"

definition set_slave_enabled :: "nat \<Rightarrow> nat \<Rightarrow> bool \<Rightarrow> lacp_lib \<Rightarrow> lacp_lib" where
  "set_slave_enabled dpid port en s =
     s\<lparr>ll_bonds := update_slave (\<lambda>sl. sl\<lparr>sl_enabled := en\<rparr>) dpid port (ll_bonds s)\<rparr>"

definition get_slave_timeout :: "nat \<Rightarrow> nat \<Rightarrow> lacp_lib \<Rightarrow> nat" where
  "get_slave_timeout dpid port s =
     (case get_slave (ll_bonds s) dpid port of Some sl \<Rightarrow> sl_timeout sl | None \<Rightarrow> 0)"

definition set_slave_timeout :: "nat \<Rightarrow> nat \<Rightarrow> nat \<Rightarrow> lacp_lib \<Rightarrow> lacp_lib" where
  "set_slave_timeout dpid port t s =
     s\<lparr>ll_bonds := update_slave (\<lambda>sl. sl\<lparr>sl_timeout := t\<rparr>) dpid port (ll_bonds s)\<rparr>"

section \<open>The flow and the response\<close>

text \<open>
  \<open>_add_flow\<close> has an entry for OpenFlow 1.0, 1.2 and 1.3; the entries build the same match, from
  the address as text, and the same flow but for the version's encoding.
\<close>

definition add_lacp_flow ::
  "addrconv \<Rightarrow> string \<Rightarrow> nat \<Rightarrow> nat \<Rightarrow> lacp_dp \<Rightarrow> lacp_lib \<Rightarrow> lacp_lib \<times> py_exn option"
where
  "add_lacp_flow ac hw_src port t dp s =
     (if ld_version dp \<notin> {1, 3, 4} then (s, Some AssertionError)
      else
        case mac_to_bin ac hw_src of
          Inl e \<Rightarrow> (s, Some e)
        | Inr b \<Rightarrow> (lacp_emit (LacpFlow (ld_id dp) port hw_src t) s, None))"

definition create_lacp :: "lacp_dp \<Rightarrow> nat \<Rightarrow> lacp \<Rightarrow> lacp res" where
  "create_lacp dp port req =
     (case ld_hw dp (OFPP_LOCAL_of (ld_version dp)) of
        None \<Rightarrow> Inl KeyError
      | Some actor_system \<Rightarrow>
          let them = lacp_actor req in
          new_lacp 1
            \<lparr>li_system_priority = 0xffff, li_system = actor_system, li_key = li_key them,
             li_port_priority = 0xff, li_port = port,
             li_state = (li_state them)\<lparr>ls_activity := 0, ls_defaulted := 0, ls_expired := 0\<rparr>\<rparr>
            them 0)"

definition SLOW_PROTOCOL_MULTICAST :: string where
  "SLOW_PROTOCOL_MULTICAST = ''01:80:c2:00:00:02''"

definition create_response :: "addrconv \<Rightarrow> lacp_dp \<Rightarrow> nat \<Rightarrow> lacp \<Rightarrow> bytes res" where
  "create_response ac dp port req =
     (case ld_hw dp port of
        None \<Rightarrow> Inl KeyError
      | Some hw_src \<Rightarrow>
          (case create_lacp dp port req of
             Inl e \<Rightarrow> Inl e
           | Inr l \<Rightarrow>
               (case lacp_serialize ac l of
                  Inl e \<Rightarrow> Inl e
                | Inr bs \<Rightarrow>
                    map_sum id (\<lambda>(hdr, payload). hdr @ payload)
                      (ethernet_serialize ac
                         \<lparr>eth_dst = SLOW_PROTOCOL_MULTICAST, eth_src = hw_src, ethertype = 0x8809\<rparr> bs))))"

section \<open>The handlers\<close>

definition idle_timeout_of :: "lacp \<Rightarrow> nat" where
  "idle_timeout_of req = (if ls_timeout (li_state (lacp_actor req)) = 1 then 3 else 90)"

text \<open>The first half of \<open>_do_lacp\<close>: the interface is up.\<close>

definition slave_up :: "nat \<Rightarrow> nat \<Rightarrow> lacp_lib \<Rightarrow> lacp_lib" where
  "slave_up dpid port s =
     (if get_slave_enabled dpid port s then s
      else lacp_emit (EventSlaveStateChanged dpid port True) (set_slave_enabled dpid port True s))"

text \<open>The second: the interface is watched with the timeout that its partner asks for.\<close>

definition slave_watch ::
  "addrconv \<Rightarrow> string \<Rightarrow> nat \<Rightarrow> nat \<Rightarrow> lacp_dp \<Rightarrow> lacp_lib \<Rightarrow> lacp_lib \<times> py_exn option"
where
  "slave_watch ac hw_src port t dp s =
     (if t = get_slave_timeout (ld_id dp) port s then (s, None)
      else add_lacp_flow ac hw_src port t dp (set_slave_timeout (ld_id dp) port t s))"

definition do_lacp ::
  "addrconv \<Rightarrow> lacp_dp \<Rightarrow> nat option \<Rightarrow> lacp \<Rightarrow> string \<Rightarrow> lacp_lib \<Rightarrow> lacp_lib \<times> py_exn option"
where
  "do_lacp ac dp in_port req hw_src s =
     (case in_port of
        None \<Rightarrow> (s, Some KeyError)
      | Some port \<Rightarrow>
          (case slave_watch ac hw_src port (idle_timeout_of req) dp (slave_up (ld_id dp) port s) of
             (s1, Some e) \<Rightarrow> (s1, Some e)
           | (s1, None) \<Rightarrow>
               (case create_response ac dp port req of
                  Inl e \<Rightarrow> (s1, Some e)
                | Inr data \<Rightarrow> (lacp_emit (LacpFrame (ld_id dp) port data) s1, None))))"

text \<open>The parser of \<open>slow\<close> takes its place in \<open>packet.Packet\<close>.\<close>

definition lacp_parsers :: "addrconv \<Rightarrow> other_parsers \<Rightarrow> other_parsers" where
  "lacp_parsers ac oth n buf =
     (if n = ''slow'' then
        (case slow_parser ac buf of
           Inl e \<Rightarrow> raise e
         | Inr (Some l, rest) \<Rightarrow> ret (Some (POther ''lacp'' 110 buf), None, rest)
         | Inr (None, rest) \<Rightarrow> ret (None, None, rest))
      else oth n buf)"

fun lacp_object :: "addrconv \<Rightarrow> proto_obj \<Rightarrow> lacp option" where
  "lacp_object ac (POther n l buf) =
     (if n = ''lacp'' then (case slow_parser ac buf of Inr (Some u, rest) \<Rightarrow> Some u | _ \<Rightarrow> None) else None)"
| "lacp_object ac _ = None"

definition lacp_receive ::
  "addrconv \<Rightarrow> lacp_dp \<Rightarrow> nat option \<Rightarrow> bytes \<Rightarrow> proto_obj list \<Rightarrow> lacp_lib \<Rightarrow> lacp_lib \<times> py_exn option"
where
  "lacp_receive ac dp in_port data pkt s =
     (case List.map_filter (lacp_object ac) pkt of
        [] \<Rightarrow> (lacp_emit (LacpEventPacketIn data) s, None)
      | [req] \<Rightarrow>
          (case get_protocols pkt CEthernet of
             [PEthernet e] \<Rightarrow> do_lacp ac dp in_port req (eth_src e) s
           | _ \<Rightarrow> (s, Some (ValueError '''')))
      | _ \<Rightarrow> (s, Some (ValueError '''')))"

definition lacp_packet_in ::
  "addrconv \<Rightarrow> other_parsers \<Rightarrow> lacp_dp \<Rightarrow> nat option \<Rightarrow> bytes \<Rightarrow> lacp_lib \<Rightarrow> (lacp_lib \<times> py_exn option) option"
where
  "lacp_packet_in ac oth dp in_port data s =
     (case Packet ac (lacp_parsers ac oth) data of
        None \<Rightarrow> None
      | Some (Inl e) \<Rightarrow> Some (s, Some e)
      | Some (Inr pkt) \<Rightarrow> Some (lacp_receive ac dp in_port data pkt s))"

text \<open>
  \<open>match['in_port']\<close> and \<open>match['eth_type']\<close> of the removed flow raise when the match has no such
  field.
\<close>

definition flow_removed ::
  "lacp_dp \<Rightarrow> nat option \<Rightarrow> nat option \<Rightarrow> lacp_lib \<Rightarrow> lacp_lib \<times> py_exn option"
where
  "flow_removed dp in_port dl_type s =
     (case (in_port, dl_type) of
        (Some port, Some t) \<Rightarrow>
          if t \<noteq> 0x8809 then (s, None)
          else (lacp_emit (EventSlaveStateChanged (ld_id dp) port False)
                  (set_slave_timeout (ld_id dp) port 0 (set_slave_enabled (ld_id dp) port False s)), None)
      | _ \<Rightarrow> (s, Some KeyError))"

end
