(* ===== verification/Lacp_Properties.thy ===== *)
theory Lacp_Properties
  imports Lacp Sample_Frames
begin

text \<open>
  Properties of the link aggregation library: what its outputs tell about the interfaces, and
  the response that reaches the partner.
\<close>

section \<open>Interfaces are found after an update\<close>

lemma get_update_slave:
  "get_slave (update_slave f dpid port bonds) d p =
     (if d = dpid \<and> p = port then map_option f (get_slave bonds d p) else get_slave bonds d p)"
  by (induction bonds) (auto split: option.splits)

lemma slave_simps [simp]:
  "get_slave (ll_bonds (set_slave_enabled dpid port en s)) d p =
     (if d = dpid \<and> p = port then map_option (sl_enabled_update (\<lambda>_. en)) (get_slave (ll_bonds s) d p)
      else get_slave (ll_bonds s) d p)"
  "get_slave (ll_bonds (set_slave_timeout dpid port t s)) d p =
     (if d = dpid \<and> p = port then map_option (sl_timeout_update (\<lambda>_. t)) (get_slave (ll_bonds s) d p)
      else get_slave (ll_bonds s) d p)"
  "get_slave (ll_bonds (lacp_emit x s)) d p = get_slave (ll_bonds s) d p"
  "ll_out (set_slave_enabled dpid port en s) = ll_out s"
  "ll_out (set_slave_timeout dpid port t s) = ll_out s"
  "ll_out (lacp_emit x s) = ll_out s @ [x]"
  by (simp_all add: set_slave_enabled_def set_slave_timeout_def lacp_emit_def get_update_slave)

section \<open>What the outputs tell\<close>

text \<open>
  An observer that sees only the outputs: an interface is up since the last event says so, and
  watched by the last flow since it was last reported down.
\<close>

record told =
  told_up :: bool
  told_watch :: "nat option"

fun tell :: "nat \<Rightarrow> nat \<Rightarrow> lacp_out \<Rightarrow> told \<Rightarrow> told" where
  "tell d p (EventSlaveStateChanged dpid port en) v =
     (if d = dpid \<and> p = port then \<lparr>told_up = en, told_watch = (if en then told_watch v else None)\<rparr> else v)"
| "tell d p (LacpFlow dpid port hw_src t) v =
     (if d = dpid \<and> p = port then v\<lparr>told_watch := Some t\<rparr> else v)"
| "tell d p _ v = v"

definition told_of :: "nat \<Rightarrow> nat \<Rightarrow> lacp_out list \<Rightarrow> told" where
  "told_of d p out = fold (tell d p) out \<lparr>told_up = False, told_watch = None\<rparr>"

lemma told_of_snoc [simp]:
  "told_of d p (out @ [x]) = tell d p x (told_of d p out)"
  by (simp add: told_of_def)

lemma told_of_Nil [simp]: "told_of d p [] = \<lparr>told_up = False, told_watch = None\<rparr>"
  by (simp add: told_of_def)

text \<open>
  What the partner of an interface has last asked for since the interface was last down: nothing,
  or to be watched with the short or the long timeout.  Then the outputs must tell, and the
  interface must hold, the following.
\<close>

definition timeout_for :: "bool \<Rightarrow> nat" where
  "timeout_for short = (if short then 3 else 90)"

definition told_as :: "bool option \<Rightarrow> told" where
  "told_as a = \<lparr>told_up = (a \<noteq> None), told_watch = map_option timeout_for a\<rparr>"

definition slave_as :: "bool option \<Rightarrow> slave" where
  "slave_as a = \<lparr>sl_enabled = (a \<noteq> None), sl_timeout = (case a of None \<Rightarrow> 0 | Some short \<Rightarrow> timeout_for short)\<rparr>"

definition supervised :: "(nat \<Rightarrow> nat \<Rightarrow> bool option) \<Rightarrow> lacp_lib \<Rightarrow> bool" where
  "supervised a s \<longleftrightarrow>
     (\<forall>d p. told_of d p (ll_out s) = told_as (a d p) \<and>
        get_slave (ll_bonds s) d p \<in> {None, Some (slave_as (a d p))})"

lemma supervisedD:
  assumes "supervised a s"
  shows "told_of d p (ll_out s) = told_as (a d p)"
    and "get_slave (ll_bonds s) d p = None \<or> get_slave (ll_bonds s) d p = Some (slave_as (a d p))"
  using assms unfolding supervised_def by blast+

lemma supervised_emit:
  "supervised a s \<Longrightarrow> (\<And>d p v. tell d p x v = v) \<Longrightarrow> supervised a (lacp_emit x s)"
  by (simp add: supervised_def)

text \<open>The request of one port becomes another.\<close>

definition now_asked :: "nat \<Rightarrow> nat \<Rightarrow> bool option \<Rightarrow> (nat \<Rightarrow> nat \<Rightarrow> bool option) \<Rightarrow> nat \<Rightarrow> nat \<Rightarrow> bool option" where
  "now_asked dpid port x a d p = (if d = dpid \<and> p = port then x else a d p)"

section \<open>The handlers keep it\<close>

text \<open>The interface of one port, before and after the two halves of \<open>_do_lacp\<close>.\<close>

lemma slave_up_get:
  "get_slave (ll_bonds (slave_up dpid port s)) d p =
     (if d = dpid \<and> p = port then map_option (sl_enabled_update (\<lambda>_. True)) (get_slave (ll_bonds s) d p)
      else get_slave (ll_bonds s) d p)"
  by (auto simp: slave_up_def get_slave_enabled_def split: option.splits)

lemma slave_up_out:
  "told_of d p (ll_out (slave_up dpid port s)) =
     (if d = dpid \<and> p = port \<and> \<not> get_slave_enabled dpid port s
      then (told_of d p (ll_out s))\<lparr>told_up := True\<rparr> else told_of d p (ll_out s))"
  by (auto simp: slave_up_def)

lemma add_lacp_flow_ok:
  "ld_version dp \<in> {1, 3, 4} \<Longrightarrow> mac_to_bin ac hw_src = Inr b \<Longrightarrow>
     add_lacp_flow ac hw_src port t dp s = (lacp_emit (LacpFlow (ld_id dp) port hw_src t) s, None)"
  by (auto simp: add_lacp_flow_def)

lemma slave_watch_supervised:
  assumes "supervised a s" and "ld_version dp \<in> {1, 3, 4}" and "mac_to_bin ac hw_src = Inr b"
  obtains s1 where
    "slave_watch ac hw_src port (timeout_for short) dp (slave_up (ld_id dp) port s) = (s1, None)"
    "supervised (now_asked (ld_id dp) port (Some short) a) s1"
proof -
  let ?t = "timeout_for short"
  let ?u = "slave_up (ld_id dp) port s"
  let ?keep = "?t = get_slave_timeout (ld_id dp) port ?u"
  let ?s1 = "if ?keep then ?u else lacp_emit (LacpFlow (ld_id dp) port hw_src ?t) (set_slave_timeout (ld_id dp) port ?t ?u)"
  have t: "?t \<noteq> 0" by (simp add: timeout_for_def)
  have "slave_watch ac hw_src port ?t dp ?u = (?s1, None)"
    by (simp add: slave_watch_def add_lacp_flow_ok [OF assms(2,3)])
  moreover have "told_of d p (ll_out ?s1) = told_as (now_asked (ld_id dp) port (Some short) a d p) \<and>
      get_slave (ll_bonds ?s1) d p \<in> {None, Some (slave_as (now_asked (ld_id dp) port (Some short) a d p))}" for d p
  proof (cases "d = ld_id dp \<and> p = port")
    case True
    note inv = supervisedD [OF assms(1), of "ld_id dp" port]
    from inv(2) show ?thesis
    proof
      assume none: "get_slave (ll_bonds s) (ld_id dp) port = None"
      then show ?thesis
        using True inv(1) t
        by (simp add: slave_up_get slave_up_out get_slave_timeout_def get_slave_enabled_def told_as_def now_asked_def)
    next
      assume "get_slave (ll_bonds s) (ld_id dp) port = Some (slave_as (a (ld_id dp) port))"
      then show ?thesis
        using True inv(1) t
        by (cases "a (ld_id dp) port") (simp_all add: slave_up_get slave_up_out get_slave_timeout_def
            get_slave_enabled_def told_as_def slave_as_def now_asked_def)
    qed
  next
    case False
    then have "get_slave (ll_bonds ?s1) d p = get_slave (ll_bonds s) d p"
      "told_of d p (ll_out ?s1) = told_of d p (ll_out s)"
      by (auto simp: slave_up_get slave_up_out)
    then show ?thesis using supervisedD [OF assms(1), of d p] False by (auto simp: now_asked_def)
  qed
  ultimately show thesis using that unfolding supervised_def by blast
qed

text \<open>The address of the sender comes from the frame, so it is converted back.\<close>

lemma parser_loop_keeps:
  assumes "parser_loop ac oth cls rest acc = Some (Inr pkt)"
  shows "\<exists>more. pkt = acc @ more"
proof -
  have "\<forall>pkt. y = Inr pkt \<longrightarrow> (\<exists>more. pkt = acc @ more)" if "parser_loop ac oth cls rest acc = Some y" for y
  proof (rule parser_loop.raw_induct
      [where P = "\<lambda>ac oth cls rest acc y. \<forall>pkt. y = Inr pkt \<longrightarrow> (\<exists>more. pkt = acc @ more)", OF _ that],
      goal_cases)
    case (1 f ac oth cls rest acc y)
    have "\<exists>more. pkt = acc @ more"
      if "f ac oth cls' rest' (add_proto acc q) = Some (Inr pkt)" for cls' rest' q pkt
      using 1(1) [OF that] by (auto simp: add_proto_def split: option.splits if_splits)
    then show ?case
      using 1(2) by (auto simp: with_rest_def split: option.splits if_splits sum.splits prod.splits)
  qed
  then show ?thesis using assms by blast
qed

lemma sender_of_frame:
  assumes "Packet ac oth data = Some (Inr pkt)" and "get_protocols pkt CEthernet = [PEthernet e]"
  obtains b where "length b = 6" "eth_src e = mac_to_text ac b"
proof -
  have ne: "data \<noteq> []" using assms by (auto simp: Packet_def ret_def get_protocols_def)
  note loop = assms(1) [unfolded Packet_start [OF ne]]
  show thesis
  proof (cases "ethernet_parser ac data")
    case (Inl x)
    then have "pkt = [PRaw data] \<or> pkt = []"
      using loop by (subst (asm) parser_loop.simps)
        (auto simp: with_rest_def parsed_of_def raise_def split: if_splits)
    then show thesis using assms(2) by (auto simp: get_protocols_def)
  next
    case (Inr y)
    obtain h r where y: "y = (h, r)" by (cases y)
    have z: "\<not> all_zero data" 
      using loop assms(2) by (auto simp: parser_loop_done with_rest_def get_protocols_def)
    have "parser_loop ac oth (get_ether_type (ethertype h)) r [PEthernet h] = Some (Inr pkt)"
      using loop parser_loop_step [OF z, of ac oth CEthernet] Inr
      by (simp add: y parsed_of_def ret_def add_proto_def)
    then obtain more where "pkt = [PEthernet h] @ more" using parser_loop_keeps by blast
    then have "e = h" using assms(2) by (simp add: get_protocols_def)
    moreover obtain b where "length b = 6" "eth_src h = mac_to_text ac b"
      using Inr that [of "slice 6 12 data"] by (auto simp: y ethernet_parser_def slice_def split: if_splits)
    ultimately show thesis using that by simp
  qed
qed

section \<open>The library as a transition system\<close>

datatype lacp_event =
    LacpPacketIn lacp_dp "nat option" bytes
  | LacpFlowRemoved lacp_dp "nat option" "nat option"

text \<open>
  The unit in a frame, and what the events of a run say of the wishes of the partner of one port:
  a unit that arrives there asks for the short or the long timeout with the bit LACP_Timeout of
  its actor, and the removal of the flow for the slow protocols forgets it.
\<close>

definition request_of :: "addrconv \<Rightarrow> proto_obj list \<Rightarrow> lacp option" where
  "request_of ac pkt =
     (case (List.map_filter (lacp_object ac) pkt, get_protocols pkt CEthernet) of
        ([req], [PEthernet e]) \<Rightarrow> Some req
      | _ \<Rightarrow> None)"

definition lacp_request :: "addrconv \<Rightarrow> other_parsers \<Rightarrow> bytes \<Rightarrow> lacp option" where
  "lacp_request ac oth data =
     (case Packet ac (lacp_parsers ac oth) data of
        Some (Inr pkt) \<Rightarrow> request_of ac pkt
      | _ \<Rightarrow> None)"

definition asks_short :: "lacp \<Rightarrow> bool" where
  "asks_short req \<longleftrightarrow> ls_timeout (li_state (lacp_actor req)) = 1"

fun hear :: "addrconv \<Rightarrow> other_parsers \<Rightarrow> nat \<Rightarrow> nat \<Rightarrow> lacp_event \<Rightarrow> bool option \<Rightarrow> bool option" where
  "hear ac oth d p (LacpPacketIn dp in_port data) v =
     (case lacp_request ac oth data of
        Some req \<Rightarrow> if ld_id dp = d \<and> in_port = Some p then Some (asks_short req) else v
      | None \<Rightarrow> v)"
| "hear ac oth d p (LacpFlowRemoved dp in_port dl_type) v =
     (if ld_id dp = d \<and> in_port = Some p \<and> dl_type = Some 0x8809 then None else v)"

definition asked :: "addrconv \<Rightarrow> other_parsers \<Rightarrow> lacp_event list \<Rightarrow> nat \<Rightarrow> nat \<Rightarrow> bool option" where
  "asked ac oth es d p = fold (hear ac oth d p) es None"

text \<open>
  A handler runs to its end; the switch speaks a version the library has flows for.  An
  exception ends the handler, what it did stays.
\<close>

fun lacp_step :: "addrconv \<Rightarrow> other_parsers \<Rightarrow> lacp_lib \<Rightarrow> lacp_event \<Rightarrow> lacp_lib \<Rightarrow> bool" where
  "lacp_step ac oth s (LacpPacketIn dp in_port data) t \<longleftrightarrow>
     ld_version dp \<in> {1, 3, 4} \<and> (\<exists>x. lacp_packet_in ac oth dp in_port data s = Some (t, x))"
| "lacp_step ac oth s (LacpFlowRemoved dp in_port dl_type) t \<longleftrightarrow>
     t = fst (flow_removed dp in_port dl_type s)"

definition lacp_start :: "lacp_lib \<Rightarrow> bool" where
  "lacp_start s \<longleftrightarrow> (\<exists>conf. s = fold (\<lambda>(dpid, ports) s. fst (lacp_add dpid ports s)) conf lacp_init)"

interpretation lacp: transition_system lacp_start "lacp_step ac oth" for ac oth .

lemma get_slave_append:
  "get_slave (bonds @ [(d', ifs)]) d p =
     (case get_slave bonds d p of Some sl \<Rightarrow> Some sl | None \<Rightarrow> if d' = d then dict_get ifs p else None)"
  by (induction bonds) (auto split: option.splits if_splits)

lemma fresh_ifs:
  "dict_get (fold (\<lambda>port. dict_set port sl0) ports ifs) p = (if p \<in> set ports then Some sl0 else dict_get ifs p)"
  by (induction ports arbitrary: ifs) auto

definition all_fresh :: "lacp_lib \<Rightarrow> bool" where
  "all_fresh s \<longleftrightarrow> ll_out s = [] \<and>
     (\<forall>d p sl. get_slave (ll_bonds s) d p = Some sl \<longrightarrow> sl = \<lparr>sl_enabled = False, sl_timeout = 0\<rparr>)"

lemma add_fresh: "all_fresh s \<Longrightarrow> all_fresh (fst (lacp_add d ps s))"
  by (auto simp: lacp_add_def Let_def all_fresh_def get_slave_append fresh_ifs split: option.splits if_splits)

lemma start_supervised:
  assumes "lacp_start s"
  shows "supervised (\<lambda>d p. None) s"
proof -
  have "all_fresh (fold (\<lambda>(d, ps) s. fst (lacp_add d ps s)) conf s)" if "all_fresh s" for conf s
    using that by (induction conf arbitrary: s) (auto simp: add_fresh)
  moreover have "all_fresh lacp_init" by (simp add: all_fresh_def lacp_init_def)
  ultimately have "all_fresh s" using assms by (auto simp: lacp_start_def)
  then have out: "ll_out s = []" and
    fresh: "get_slave (ll_bonds s) d p = Some sl \<Longrightarrow> sl = \<lparr>sl_enabled = False, sl_timeout = 0\<rparr>" for d p sl
    unfolding all_fresh_def by blast+
  show ?thesis
    unfolding supervised_def
  proof (intro allI conjI)
    fix d p
    show "told_of d p (ll_out s) = told_as None" by (simp add: out told_as_def)
    show "get_slave (ll_bonds s) d p \<in> {None, Some (slave_as None)}"
      using fresh [of d p] by (cases "get_slave (ll_bonds s) d p") (auto simp: slave_as_def)
  qed
qed

lemma supervised_frame: "supervised a s \<Longrightarrow> supervised a (lacp_emit (LacpFrame d p b) s)"
  by (rule supervised_emit) simp_all

text \<open>What a unit asks for is what is told, also when the response cannot be built.\<close>

lemma do_lacp_supervised:
  assumes "supervised a s" and "ld_version dp \<in> {1, 3, 4}" and "mac_to_bin ac hw_src = Inr b"
  shows "supervised (now_asked (ld_id dp) port (Some (asks_short req)) a) (fst (do_lacp ac dp (Some port) req hw_src s))"
proof -
  obtain s1 where s1:
    "slave_watch ac hw_src port (timeout_for (asks_short req)) dp (slave_up (ld_id dp) port s) = (s1, None)"
    "supervised (now_asked (ld_id dp) port (Some (asks_short req)) a) s1"
    by (rule slave_watch_supervised [OF assms])
  have "idle_timeout_of req = timeout_for (asks_short req)"
    by (simp add: idle_timeout_of_def timeout_for_def asks_short_def)
  then show ?thesis using s1 by (simp add: do_lacp_def supervised_frame split: sum.split)
qed

lemma lacp_receive_cases:
  "request_of ac pkt = None \<and> lacp_receive ac dp in_port data pkt s = (lacp_emit (LacpEventPacketIn data) s, None) \<or>
   request_of ac pkt = None \<and> lacp_receive ac dp in_port data pkt s = (s, Some (ValueError '''')) \<or>
   (\<exists>req e. request_of ac pkt = Some req \<and> get_protocols pkt CEthernet = [PEthernet e] \<and>
      lacp_receive ac dp in_port data pkt s = do_lacp ac dp in_port req (eth_src e) s)"
  by (auto simp: request_of_def lacp_receive_def split: list.split proto_obj.split)

definition hears :: "addrconv \<Rightarrow> other_parsers \<Rightarrow> lacp_event \<Rightarrow> (nat \<Rightarrow> nat \<Rightarrow> bool option) \<Rightarrow> nat \<Rightarrow> nat \<Rightarrow> bool option" where
  "hears ac oth e a d p = hear ac oth d p e (a d p)"

lemma packet_in_supervised:
  assumes "supervised a s" and "ld_version dp \<in> {1, 3, 4}" and "addrconv_ok ac"
    and "lacp_packet_in ac oth dp in_port data s = Some (t, x)"
  shows "supervised (hears ac oth (LacpPacketIn dp in_port data) a) t"
proof (cases "\<exists>pkt. Packet ac (lacp_parsers ac oth) data = Some (Inr pkt)")
  case False
  then have "t = s" "lacp_request ac oth data = None"
    using assms(4) by (auto simp: lacp_packet_in_def lacp_request_def split: option.splits sum.splits)
  moreover from this(2) have "hears ac oth (LacpPacketIn dp in_port data) a = a" by (simp add: hears_def fun_eq_iff)
  ultimately show ?thesis using assms(1) by simp
next
  case True
  then obtain pkt where pkt: "Packet ac (lacp_parsers ac oth) data = Some (Inr pkt)" by blast
  then have r: "lacp_receive ac dp in_port data pkt s = (t, x)" and q: "lacp_request ac oth data = request_of ac pkt"
    using assms(4) by (simp_all add: lacp_packet_in_def lacp_request_def)
  have same: "hears ac oth (LacpPacketIn dp in_port data) a = a" if "request_of ac pkt = None \<or> in_port = None"
    using that q by (auto simp: hears_def fun_eq_iff split: option.split)
  from lacp_receive_cases [of ac pkt dp in_port data s] show ?thesis
  proof (elim disjE conjE exE)
    assume "request_of ac pkt = None" "lacp_receive ac dp in_port data pkt s = (lacp_emit (LacpEventPacketIn data) s, None)"
    then show ?thesis using same r supervised_emit [OF assms(1), of "LacpEventPacketIn data"] by simp
  next
    assume "request_of ac pkt = None" "lacp_receive ac dp in_port data pkt s = (s, Some (ValueError ''''))"
    then show ?thesis using same r assms(1) by simp
  next
    fix req e
    assume req: "request_of ac pkt = Some req" and e: "get_protocols pkt CEthernet = [PEthernet e]"
      and d: "lacp_receive ac dp in_port data pkt s = do_lacp ac dp in_port req (eth_src e) s"
    show ?thesis
    proof (cases in_port)
      case None
      then show ?thesis using same r d assms(1) by (simp add: do_lacp_def)
    next
      case (Some port)
      obtain b where "length b = 6" "eth_src e = mac_to_text ac b" using pkt e by (rule sender_of_frame)
      then have "mac_to_bin ac (eth_src e) = Inr b" using assms(3) by (simp add: addrconv_ok_def)
      from do_lacp_supervised [OF assms(1,2) this, of port req]
      have "supervised (now_asked (ld_id dp) port (Some (asks_short req)) a) t"
        using Some r d by (metis fst_conv)
      moreover have "now_asked (ld_id dp) port (Some (asks_short req)) a = hears ac oth (LacpPacketIn dp in_port data) a"
        using Some req q by (auto simp: now_asked_def hears_def fun_eq_iff)
      ultimately show ?thesis by simp
    qed
  qed
qed

lemma down_supervised:
  assumes "supervised a s"
  shows "supervised (now_asked dpid port None a) (lacp_emit (EventSlaveStateChanged dpid port False)
    (set_slave_timeout dpid port 0 (set_slave_enabled dpid port False s)))" (is "supervised _ ?s1")
proof -
  have "told_of d p (ll_out ?s1) = told_as (now_asked dpid port None a d p) \<and>
      get_slave (ll_bonds ?s1) d p \<in> {None, Some (slave_as (now_asked dpid port None a d p))}" for d p
  proof (cases "d = dpid \<and> p = port")
    case True
    then show ?thesis
      using supervisedD(2) [OF assms, of dpid port] by (auto simp: told_as_def slave_as_def now_asked_def)
  next
    case False
    then show ?thesis using supervisedD [OF assms, of d p] by (auto simp: now_asked_def)
  qed
  then show ?thesis unfolding supervised_def by blast
qed

lemma flow_removed_supervised:
  assumes "supervised a s"
  shows "supervised (hears ac oth (LacpFlowRemoved dp in_port dl_type) a) (fst (flow_removed dp in_port dl_type s))"
proof (cases "\<exists>port. in_port = Some port \<and> dl_type = Some 0x8809")
  case True
  then obtain port where p: "in_port = Some port" "dl_type = Some 0x8809" by blast
  then have "hears ac oth (LacpFlowRemoved dp in_port dl_type) a = now_asked (ld_id dp) port None a"
    by (auto simp: hears_def now_asked_def fun_eq_iff)
  then show ?thesis using down_supervised [OF assms] p by (simp add: flow_removed_def)
next
  case False
  then have "hears ac oth (LacpFlowRemoved dp in_port dl_type) a = a" by (auto simp: hears_def fun_eq_iff)
  then show ?thesis using assms False by (auto simp: flow_removed_def split: option.split)
qed

lemma step_supervised:
  "supervised a s \<Longrightarrow> addrconv_ok ac \<Longrightarrow> lacp_step ac oth s e t \<Longrightarrow> supervised (hears ac oth e a) t"
  by (cases e) (auto intro: packet_in_supervised flow_removed_supervised)

lemma steps_supervised:
  assumes "lacp.steps ac oth s es t" and "supervised a s" and "addrconv_ok ac"
  shows "supervised (\<lambda>d p. fold (hear ac oth d p) es (a d p)) t"
  using assms(1,2)
proof (induction arbitrary: a rule: lacp.steps.induct)
  case (steps_cons s e t es u)
  from steps_cons.IH [OF step_supervised [OF steps_cons.prems assms(3) steps_cons.hyps(1)]]
  show ?case by (simp add: hears_def)
qed simp

section \<open>Frames of the protocol\<close>

declare all_zero_append [simp] all_zero_simps [simp]

definition lacp_headers :: "addrconv \<Rightarrow> bytes \<Rightarrow> bytes \<Rightarrow> ethernet" where
  "lacp_headers ac g s = \<lparr>eth_dst = mac_to_text ac g, eth_src = mac_to_text ac s, ethertype = 0x8809\<rparr>"

text \<open>A frame with a well-formed unit is decoded to it, and the handler finds it.\<close>

lemma lacp_frame_parsed:
  assumes "length g = 6" and "length s = 6" and "lacp_wf ac l []"
  obtains bs where "lacp_serialize ac l = Inr bs" "length bs = 110"
    "Packet ac (lacp_parsers ac oth) (g @ s @ be16 0x8809 @ bs) =
       ret [PEthernet (lacp_headers ac g s), POther ''lacp'' 110 bs]"
    "lacp_object ac (POther ''lacp'' 110 bs) = Some l"
proof -
  obtain bs where bs: "lacp_serialize ac l = Inr bs" "length bs = 110" "hd bs = 1" "lacp_parser ac bs = Inr (l, [])"
    using assms(3) by (rule lacp_wire) simp
  let ?P = "parser_loop ac (lacp_parsers ac oth)"
  obtain c where c: "bs = 1 # c" using bs(2,3) by (cases bs) auto
  have nz: "\<not> all_zero bs" "\<not> all_zero (g @ s @ be16 0x8809 @ bs)" by (simp_all add: c)
  have slow: "slow_parser ac bs = Inr (Some l, [])" using bs(4) by (simp add: slow_parser_def c)
  have eth: "ethernet_parser ac (g @ s @ be16 0x8809 @ bs) = Inr (lacp_headers ac g s, bs)"
    using assms(1,2) u16_at_append [of "g @ s" 12 "be16 0x8809 @ bs"] u16_at_be16 [of "0x8809" bs]
    by (simp add: ethernet_parser_def lacp_headers_def slice_def)
  have ty: "get_ether_type 0x8809 = Some (COther ''slow'')"
    by (simp add: get_ether_type_def get_packet_type_def packet_types_def)
  have "Packet ac (lacp_parsers ac oth) (g @ s @ be16 0x8809 @ bs) = ?P (Some CEthernet) (g @ s @ be16 0x8809 @ bs) []"
    using assms(1) by (intro Packet_start) auto
  also have "\<dots> = ?P (Some (COther ''slow'')) bs (add_proto [] (Some (PEthernet (lacp_headers ac g s))))"
    by (rule parser_loop_step [OF nz(2)]) (simp add: eth parsed_of_def lacp_headers_def ty ret_def)
  also have "\<dots> = ?P None [] (add_proto (add_proto [] (Some (PEthernet (lacp_headers ac g s)))) (Some (POther ''lacp'' 110 bs)))"
    by (rule parser_loop_step [OF nz(1)]) (simp add: lacp_parsers_def slow ret_def)
  also have "\<dots> = ret [PEthernet (lacp_headers ac g s), POther ''lacp'' 110 bs]"
    by (simp add: parser_loop_done with_rest_def add_proto_def ret_def)
  finally show thesis by (rule that [OF bs(1,2)]) (simp add: slow)
qed

lemma lacp_frame_received:
  assumes "length g = 6" and "length s = 6" and "lacp_wf ac l []" and "lacp_serialize ac l = Inr bs"
  shows "lacp_packet_in ac oth dp in_port (g @ s @ be16 0x8809 @ bs) lib =
    Some (do_lacp ac dp in_port l (mac_to_text ac s) lib)"
proof -
  obtain bs' where "lacp_serialize ac l = Inr bs'"
    "Packet ac (lacp_parsers ac oth) (g @ s @ be16 0x8809 @ bs') =
       ret [PEthernet (lacp_headers ac g s), POther ''lacp'' 110 bs']"
    "lacp_object ac (POther ''lacp'' 110 bs') = Some l"
    using assms(1-3) by (rule lacp_frame_parsed)
  then show ?thesis
    using assms(4) by (simp add: lacp_packet_in_def ret_def lacp_receive_def List.map_filter_simps
        get_protocols_def del: lacp_object.simps(1)) (simp add: lacp_headers_def)
qed

section \<open>The response\<close>

text \<open>The unit that answers \<open>req\<close>: its partner is the actor of the request.\<close>

lemma create_lacp_ok:
  assumes "ld_hw dp (OFPP_LOCAL_of (ld_version dp)) = Some system" and "lacp_wf ac req []"
    and "mac_text_of ac system b" and "port < 65536"
  obtains l where "create_lacp dp port req = Inr l" "lacp_wf ac l []" "lacp_partner l = lacp_actor req"
    "li_system (lacp_actor l) = system" "li_port (lacp_actor l) = port"
    "ls_timeout (li_state (lacp_actor l)) = ls_timeout (li_state (lacp_actor req))"
proof -
  let ?them = "lacp_actor req"
  let ?me = "\<lparr>li_system_priority = 0xffff, li_system = system, li_key = li_key ?them, li_port_priority = 0xff,
      li_port = port, li_state = (li_state ?them)\<lparr>ls_activity := 0, ls_defaulted := 0, ls_expired := 0\<rparr>\<rparr>"
  let ?l = "\<lparr>lacp_version = 1, lacp_actor = ?me, lacp_partner = ?them, lacp_max_delay = 0\<rparr>"
  have them: "info_wf ac ?them" using assms(2) by (simp add: lacp_wf_def)
  then have ok: "state_bits_ok (li_state ?them)" by (simp add: info_wf_def)
  then have me_ok: "state_bits_ok (li_state ?me)" by (simp add: state_bits_ok_def)
  then have me: "info_wf ac ?me" using them assms(3,4) by (auto simp: info_wf_def)
  show thesis
  proof (rule that [of ?l])
    show "create_lacp dp port req = Inr ?l" using ok me_ok by (simp add: create_lacp_def assms(1) new_lacp_def Let_def)
    show "lacp_wf ac ?l []" using me them by (simp add: lacp_wf_def)
  qed simp_all
qed

lemma response_bytes:
  assumes "ld_hw dp port = Some hw" and "mac_text_of ac hw s" and "mac_text_of ac SLOW_PROTOCOL_MULTICAST g"
    and "create_lacp dp port req = Inr l" and "lacp_serialize ac l = Inr bs" and "length bs = 110"
  shows "create_response ac dp port req = Inr (g @ s @ be16 0x8809 @ bs)"
  using assms by (simp add: create_response_def ethernet_serialize_def mac_text_of_def Let_def)

section \<open>A bond of two interfaces\<close>

definition lacp_dp_1 :: lacp_dp where
  "lacp_dp_1 = \<lparr>ld_id = 1, ld_version = 4, ld_hw = (\<lambda>_. Some ''ABCDEF'')\<rparr>"

definition lacp_lib_1 :: lacp_lib where
  "lacp_lib_1 = fst (lacp_add 1 [1, 2] lacp_init)"

definition no_bits :: lacp_state where
  "no_bits = \<lparr>ls_activity = 1, ls_timeout = 1, ls_aggregation = 1, ls_synchronization = 0, ls_collecting = 0,
     ls_distributing = 0, ls_defaulted = 0, ls_expired = 0\<rparr>"

definition lacp_side :: lacp_info where
  "lacp_side = \<lparr>li_system_priority = 1, li_system = ''GHIJKL'', li_key = 7, li_port_priority = 255, li_port = 3,
     li_state = no_bits\<rparr>"

definition lacp_unit :: lacp where
  "lacp_unit = \<lparr>lacp_version = 1, lacp_actor = lacp_side, lacp_partner = lacp_side, lacp_max_delay = 0\<rparr>"

lemma sample_mac: "mac_text_of sample_ac ''GHIJKL'' [71, 72, 73, 74, 75, 76]"
  unfolding mac_text_of_def sample_ac_def by code_simp

lemma lacp_unit_wf: "lacp_wf sample_ac lacp_unit []"
  using sample_mac by (auto simp: lacp_wf_def lacp_unit_def info_wf_def lacp_side_def state_bits_ok_def no_bits_def)

lemma lacp_lib_1_start: "lacp_start lacp_lib_1"
  unfolding lacp_start_def lacp_lib_1_def by (rule exI [of _ "[(1, [1, 2])]"]) simp

text \<open>The same unit from a partner that wants the long timeout.\<close>

definition lacp_unit_long :: lacp where
  "lacp_unit_long = lacp_unit\<lparr>lacp_actor := lacp_side\<lparr>li_state := no_bits\<lparr>ls_timeout := 0\<rparr>\<rparr>\<rparr>"

lemma lacp_unit_long_wf: "lacp_wf sample_ac lacp_unit_long []"
  using sample_mac by (auto simp: lacp_wf_def lacp_unit_def lacp_unit_long_def info_wf_def lacp_side_def
      state_bits_ok_def no_bits_def)

lemma units_ask: "asks_short lacp_unit" "\<not> asks_short lacp_unit_long"
  by (simp_all add: asks_short_def lacp_unit_def lacp_unit_long_def lacp_side_def no_bits_def)

lemma unit_heard:
  assumes "lacp_wf sample_ac l []"
  obtains data t where "lacp_request sample_ac sample_oth data = Some l"
    "lacp_step sample_ac sample_oth s (LacpPacketIn lacp_dp_1 (Some 1) data) t"
proof -
  let ?g = "[0, 0, 0, 0, 0, 0] :: bytes" and ?m = "[71, 72, 73, 74, 75, 76] :: bytes"
  have len: "length ?g = 6" "length ?m = 6" by simp_all
  obtain bs where bs: "lacp_serialize sample_ac l = Inr bs"
    "Packet sample_ac (lacp_parsers sample_ac sample_oth) (?g @ ?m @ be16 0x8809 @ bs) =
       ret [PEthernet (lacp_headers sample_ac ?g ?m), POther ''lacp'' 110 bs]"
    "lacp_object sample_ac (POther ''lacp'' 110 bs) = Some l"
    by (rule lacp_frame_parsed [OF len assms])
  note got = lacp_frame_received [OF len assms bs(1), of sample_oth lacp_dp_1 "Some 1" s]
  show thesis
  proof (rule that)
    show "lacp_request sample_ac sample_oth (?g @ ?m @ be16 0x8809 @ bs) = Some l"
      unfolding lacp_request_def bs(2) using bs(3)
      by (simp add: ret_def request_of_def List.map_filter_simps get_protocols_def del: lacp_object.simps(1))
    show "lacp_step sample_ac sample_oth s (LacpPacketIn lacp_dp_1 (Some 1) (?g @ ?m @ be16 0x8809 @ bs))
        (fst (do_lacp sample_ac lacp_dp_1 (Some 1) l (mac_to_text sample_ac ?m) s))"
      unfolding lacp_step.simps got
      by (cases "do_lacp sample_ac lacp_dp_1 (Some 1) l (mac_to_text sample_ac ?m) s") (simp add: lacp_dp_1_def)
  qed
qed

section \<open>The properties\<close>

text \<open>
  C26.  After every run of the library from its configuration, the outputs tell of each port what
  its partner has last asked for: if the last unit since the port was last down asked for the
  short timeout, the last event says that the interface is up and the last flow since then
  watches it with an idle timeout of 3 seconds; if it asked for the long one, of 90 seconds; if
  there was no unit since then, the last event, if any, says that it is down and no flow watches
  it.  An interface of a bond is in the state that was told.
\<close>
theorem slaves_are_watched:
  assumes "lacp_start s0" and "lacp.steps ac oth s0 es s" and "addrconv_ok ac"
  shows "told_of d p (ll_out s) =
      (case asked ac oth es d p of
         None \<Rightarrow> \<lparr>told_up = False, told_watch = None\<rparr>
       | Some short \<Rightarrow> \<lparr>told_up = True, told_watch = Some (if short then 3 else 90)\<rparr>) \<and>
    get_slave (ll_bonds s) d p \<in> {None, Some (case asked ac oth es d p of
         None \<Rightarrow> \<lparr>sl_enabled = False, sl_timeout = 0\<rparr>
       | Some short \<Rightarrow> \<lparr>sl_enabled = True, sl_timeout = (if short then 3 else 90)\<rparr>)}"
proof -
  have inv: "supervised (\<lambda>d p. asked ac oth es d p) s"
    using steps_supervised [OF assms(2) start_supervised [OF assms(1)] assms(3)] by (simp add: asked_def)
  show ?thesis
    using supervisedD [OF inv, of d p]
    by (auto simp: told_as_def slave_as_def timeout_for_def split: option.splits)
qed

text \<open>A unit that asks for the short timeout and then one that asks for the long one.\<close>

theorem slaves_are_watched_witness:
  "\<exists>es s. lacp.steps sample_ac sample_oth lacp_lib_1 es s \<and> length es = 2 \<and>
     told_of 1 1 (ll_out s) = \<lparr>told_up = True, told_watch = Some 90\<rparr>"
proof -
  obtain f1 s1 where r1: "lacp_request sample_ac sample_oth f1 = Some lacp_unit"
    "lacp_step sample_ac sample_oth lacp_lib_1 (LacpPacketIn lacp_dp_1 (Some 1) f1) s1"
    by (rule unit_heard [OF lacp_unit_wf])
  obtain f2 s2 where r2: "lacp_request sample_ac sample_oth f2 = Some lacp_unit_long"
    "lacp_step sample_ac sample_oth s1 (LacpPacketIn lacp_dp_1 (Some 1) f2) s2"
    by (rule unit_heard [OF lacp_unit_long_wf])
  let ?es = "[LacpPacketIn lacp_dp_1 (Some 1) f1, LacpPacketIn lacp_dp_1 (Some 1) f2]"
  have st: "lacp.steps sample_ac sample_oth lacp_lib_1 ?es s2"
    by (intro lacp.steps_cons [OF r1(2)] lacp.steps_cons [OF r2(2)] lacp.steps_nil)
  have a: "asked sample_ac sample_oth ?es 1 1 = Some False"
    using units_ask by (simp add: asked_def r1(1) r2(1) lacp_dp_1_def)
  have "told_of 1 1 (ll_out s2) = \<lparr>told_up = True, told_watch = Some 90\<rparr>"
    using slaves_are_watched [OF lacp_lib_1_start st sample_ac_ok, of 1 1] unfolding a by simp
  moreover have "length ?es = 2" by simp
  ultimately show ?thesis using st by blast
qed

text \<open>
  The response to a unit is a frame of 124 bytes that decodes to a unit whose partner part is
  the actor part of the request, and whose actor part names the local port's address and the port.
\<close>
theorem response_names_partner:
  assumes "lacp_wf ac req []" and "ld_hw dp port = Some hw" and "mac_text_of ac hw s"
    and "ld_hw dp (OFPP_LOCAL_of (ld_version dp)) = Some system" and "mac_text_of ac system b"
    and "mac_text_of ac SLOW_PROTOCOL_MULTICAST g" and "port < 65536"
  shows "\<exists>data pkt l. create_response ac dp port req = Inr data \<and> length data = 124 \<and>
    Packet ac (lacp_parsers ac oth) data = ret pkt \<and> List.map_filter (lacp_object ac) pkt = [l] \<and>
    lacp_partner l = lacp_actor req \<and> li_system (lacp_actor l) = system \<and> li_port (lacp_actor l) = port \<and>
    ls_timeout (li_state (lacp_actor l)) = ls_timeout (li_state (lacp_actor req))"
proof -
  obtain l where l: "create_lacp dp port req = Inr l" "lacp_wf ac l []" "lacp_partner l = lacp_actor req"
    "li_system (lacp_actor l) = system" "li_port (lacp_actor l) = port"
    "ls_timeout (li_state (lacp_actor l)) = ls_timeout (li_state (lacp_actor req))"
    by (rule create_lacp_ok [OF assms(4,1,5,7)])
  have len: "length g = 6" "length s = 6" using assms(3,6) by (simp_all add: mac_text_of_def)
  obtain bs where bs: "lacp_serialize ac l = Inr bs" "length bs = 110"
    "Packet ac (lacp_parsers ac oth) (g @ s @ be16 0x8809 @ bs) =
       ret [PEthernet (lacp_headers ac g s), POther ''lacp'' 110 bs]"
    "lacp_object ac (POther ''lacp'' 110 bs) = Some l" using len l(2) by (rule lacp_frame_parsed)
  have "List.map_filter (lacp_object ac) [PEthernet (lacp_headers ac g s), POther ''lacp'' 110 bs] = [l]"
    using bs(4) by (simp add: List.map_filter_simps del: lacp_object.simps(1))
  then show ?thesis
    using response_bytes [OF assms(2,3,6) l(1) bs(1,2)] bs(2,3) l(3-6) len by fastforce
qed

text \<open>A converter that knows the group address by its usual text.\<close>

definition group_ac :: addrconv where
  "group_ac = sample_ac\<lparr>
     mac_to_text := (\<lambda>b. if b = [1, 0x80, 0xc2, 0, 0, 2] then SLOW_PROTOCOL_MULTICAST else raw_text b),
     mac_to_bin := (\<lambda>t. if t = SLOW_PROTOCOL_MULTICAST then Inr [1, 0x80, 0xc2, 0, 0, 2] else raw_bin t)\<rparr>"

lemma group_macs:
  "mac_text_of group_ac SLOW_PROTOCOL_MULTICAST [1, 0x80, 0xc2, 0, 0, 2]"
  "mac_text_of group_ac ''GHIJKL'' [71, 72, 73, 74, 75, 76]"
  "mac_text_of group_ac ''ABCDEF'' [65, 66, 67, 68, 69, 70]"
  unfolding mac_text_of_def group_ac_def sample_ac_def SLOW_PROTOCOL_MULTICAST_def by code_simp+

lemma group_unit_wf: "lacp_wf group_ac lacp_unit []"
  using group_macs(2) by (auto simp: lacp_wf_def lacp_unit_def info_wf_def lacp_side_def state_bits_ok_def no_bits_def)

theorem response_names_partner_witness:
  "\<exists>data pkt l. create_response group_ac lacp_dp_1 1 lacp_unit = Inr data \<and> length data = 124 \<and>
     Packet group_ac (lacp_parsers group_ac sample_oth) data = ret pkt \<and>
     List.map_filter (lacp_object group_ac) pkt = [l] \<and> lacp_partner l = lacp_side"
  using response_names_partner [OF group_unit_wf _ group_macs(3) _ group_macs(3,1), of lacp_dp_1 1 sample_oth]
  by (auto simp: lacp_dp_1_def lacp_unit_def)

text \<open>
  On a switch that speaks a version the library has no flow for, the first unit fails after the
  interface is reported up, and the second is answered without a flow: the interface is up and
  nothing watches it.
\<close>
theorem unknown_version_is_not_watched:
  assumes "ld_version dp \<notin> {1, 3, 4}" and "get_slave (ll_bonds s) (ld_id dp) port = Some sl"
    and "sl_timeout sl = 0" and "told_watch (told_of (ld_id dp) port (ll_out s)) = None"
    and "create_response ac dp port req = Inr data"
  shows "\<exists>s1 s2. do_lacp ac dp (Some port) req hw_src s = (s1, Some AssertionError) \<and>
    do_lacp ac dp (Some port) req hw_src s1 = (s2, None) \<and>
    get_slave_enabled (ld_id dp) port s2 \<and> told_watch (told_of (ld_id dp) port (ll_out s2)) = None"
proof -
  let ?t = "idle_timeout_of req"
  let ?u = "slave_up (ld_id dp) port s"
  let ?s1 = "set_slave_timeout (ld_id dp) port ?t ?u"
  have t: "?t \<noteq> 0" by (simp add: idle_timeout_of_def)
  have u: "get_slave (ll_bonds ?u) (ld_id dp) port = Some (sl\<lparr>sl_enabled := True\<rparr>)"
    using assms(2) by (simp add: slave_up_get)
  have first: "do_lacp ac dp (Some port) req hw_src s = (?s1, Some AssertionError)"
    using assms(1,3) t by (simp add: do_lacp_def slave_watch_def get_slave_timeout_def u add_lacp_flow_def)
  have s1: "get_slave (ll_bonds ?s1) (ld_id dp) port = Some (sl\<lparr>sl_enabled := True, sl_timeout := ?t\<rparr>)"
    using u by simp
  let ?s2 = "lacp_emit (LacpFrame (ld_id dp) port data) ?s1"
  have en: "get_slave_enabled (ld_id dp) port ?s1" unfolding get_slave_enabled_def s1 by simp
  then have up: "slave_up (ld_id dp) port ?s1 = ?s1" by (simp only: slave_up_def if_True)
  have "get_slave_timeout (ld_id dp) port ?s1 = ?t" unfolding get_slave_timeout_def s1 by simp
  then have second: "do_lacp ac dp (Some port) req hw_src ?s1 = (?s2, None)"
    unfolding do_lacp_def option.case up slave_watch_def by (simp add: assms(5))
  have "told_watch (told_of (ld_id dp) port (ll_out ?u)) = None"
    using assms(4) by (simp add: slave_up_out)
  then have "told_watch (told_of (ld_id dp) port (ll_out ?s2)) = None" by simp
  moreover have "get_slave_enabled (ld_id dp) port ?s2"
    using en by (simp only: get_slave_enabled_def slave_simps)
  ultimately show ?thesis using first second by blast
qed

theorem unknown_version_is_not_watched_witness:
  "\<exists>s1 s2. do_lacp group_ac (lacp_dp_1\<lparr>ld_version := 5\<rparr>) (Some 1) lacp_unit ''GHIJKL'' lacp_lib_1 =
       (s1, Some AssertionError) \<and>
     do_lacp group_ac (lacp_dp_1\<lparr>ld_version := 5\<rparr>) (Some 1) lacp_unit ''GHIJKL'' s1 = (s2, None) \<and>
     get_slave_enabled 1 1 s2 \<and> told_watch (told_of 1 1 (ll_out s2)) = None"
proof -
  let ?dp = "lacp_dp_1\<lparr>ld_version := 5\<rparr>"
  obtain l where l: "create_lacp ?dp 1 lacp_unit = Inr l" "lacp_wf group_ac l []"
    by (rule create_lacp_ok [of ?dp "''ABCDEF''" group_ac lacp_unit "[65, 66, 67, 68, 69, 70]" 1])
      (simp_all add: lacp_dp_1_def group_unit_wf group_macs)
  obtain bs where bs: "lacp_serialize group_ac l = Inr bs" "length bs = 110" using l(2) by (rule lacp_wire)
  have "ld_hw ?dp 1 = Some ''ABCDEF''" by (simp add: lacp_dp_1_def)
  then have "create_response group_ac ?dp 1 lacp_unit =
      Inr ([1, 0x80, 0xc2, 0, 0, 2] @ [65, 66, 67, 68, 69, 70] @ be16 0x8809 @ bs)"
    by (rule response_bytes [OF _ group_macs(3,1) l(1) bs])
  moreover have "get_slave (ll_bonds lacp_lib_1) 1 1 = Some \<lparr>sl_enabled = False, sl_timeout = 0\<rparr>"
    "ll_out lacp_lib_1 = []"
    by (simp_all add: lacp_lib_1_def lacp_add_def lacp_init_def)
  ultimately show ?thesis
    using unknown_version_is_not_watched [of ?dp lacp_lib_1 1] by (simp add: lacp_dp_1_def)
qed

end
