(* ===== verification/Topo_Ports.thy ===== *)
theory Topo_Ports
  imports Prelude
begin

text \<open>
  \<open>PortDataState\<close> of \<open>ryu/topology/switches.py\<close>: a dictionary whose keys are also kept in a
  doubly linked ring of list objects, which gives the order of iteration.  The ring is modelled
  as the code has it, with a store of nodes; \<open>ring\<close> relates it to the list of keys it stands
  for, and every operation is shown to be the list operation of its name.
\<close>

section \<open>Data of a port\<close>

text \<open>A \<open>Port\<close> object is a key through \<open>__eq__\<close> and \<open>__hash__\<close>: datapath id and number.\<close>

type_synonym port_key = "nat \<times> nat"

record port_data =
  pd_is_down :: bool
  pd_lldp :: bytes
  pd_timestamp :: "rat option"
  pd_sent :: nat

definition new_port_data :: "bool \<Rightarrow> bytes \<Rightarrow> port_data" where
  "new_port_data down data = \<lparr>pd_is_down = down, pd_lldp = data, pd_timestamp = None, pd_sent = 0\<rparr>"

definition pd_lldp_sent :: "rat \<Rightarrow> port_data \<Rightarrow> port_data" where
  "pd_lldp_sent clk d = d\<lparr>pd_timestamp := Some clk, pd_sent := pd_sent d + 1\<rparr>"

definition pd_lldp_received :: "port_data \<Rightarrow> port_data" where
  "pd_lldp_received d = d\<lparr>pd_sent := 0\<rparr>"

definition pd_clear_timestamp :: "port_data \<Rightarrow> port_data" where
  "pd_clear_timestamp d = d\<lparr>pd_timestamp := None\<rparr>"

definition pd_set_down :: "bool \<Rightarrow> port_data \<Rightarrow> port_data" where
  "pd_set_down down d = d\<lparr>pd_is_down := down\<rparr>"

section \<open>The ring\<close>

text \<open>
  Node 0 is the sentinel \<open>_root\<close>; \<open>n_prev\<close>, \<open>n_next\<close> and \<open>n_key\<close> are the three items of a node.
  A node that is taken out keeps its items and is no longer reached.
\<close>

record pds =
  pds_dict :: "port_key \<Rightarrow> port_data option"
  pds_map :: "port_key \<Rightarrow> nat option"
  n_prev :: "nat \<Rightarrow> nat"
  n_next :: "nat \<Rightarrow> nat"
  n_key :: "nat \<Rightarrow> port_key"
  n_fresh :: nat

definition pds_empty :: pds where
  "pds_empty = \<lparr>pds_dict = (\<lambda>_. None), pds_map = (\<lambda>_. None), n_prev = (\<lambda>_. 0), n_next = (\<lambda>_. 0),
     n_key = (\<lambda>_. (0, 0)), n_fresh = 1\<rparr>"

definition remove_key :: "port_key \<Rightarrow> pds \<Rightarrow> pds res" where
  "remove_key k s =
     (case pds_map s k of
        None \<Rightarrow> Inl KeyError
      | Some a \<Rightarrow>
          let link_prev = n_prev s a; link_next = n_next s a in
          Inr (s\<lparr>pds_map := (pds_map s)(k := None), n_next := (n_next s)(link_prev := link_next),
                 n_prev := (n_prev s)(link_next := link_prev)\<rparr>))"

definition append_key :: "port_key \<Rightarrow> pds \<Rightarrow> pds" where
  "append_key k s =
     (let last = n_prev s 0; a = n_fresh s in
      s\<lparr>n_fresh := a + 1, n_key := (n_key s)(a := k),
        n_next := ((n_next s)(a := 0))(last := a), n_prev := ((n_prev s)(a := last))(0 := a),
        pds_map := (pds_map s)(k \<mapsto> a)\<rparr>)"

definition prepend_key :: "port_key \<Rightarrow> pds \<Rightarrow> pds" where
  "prepend_key k s =
     (let first = n_next s 0; a = n_fresh s in
      s\<lparr>n_fresh := a + 1, n_key := (n_key s)(a := k),
        n_prev := ((n_prev s)(a := 0))(first := a), n_next := ((n_next s)(a := first))(0 := a),
        pds_map := (pds_map s)(k \<mapsto> a)\<rparr>)"

definition move_last_key :: "port_key \<Rightarrow> pds \<Rightarrow> pds res" where
  "move_last_key k s = map_sum id (append_key k) (remove_key k s)"

definition move_front_key :: "port_key \<Rightarrow> pds \<Rightarrow> pds res" where
  "move_front_key k s = map_sum id (prepend_key k) (remove_key k s)"

text \<open>\<open>__iter__\<close>: the loop from \<open>root[_NEXT]\<close> back to the sentinel.\<close>

partial_function (option) iter_from :: "pds \<Rightarrow> nat \<Rightarrow> port_key list option" where
  "iter_from s a =
     (if a = 0 then Some [] else Option.bind (iter_from s (n_next s a)) (\<lambda>ks. Some (n_key s a # ks)))"

definition pds_iter :: "pds \<Rightarrow> port_key list option" where
  "pds_iter s = iter_from s (n_next s 0)"

section \<open>The operations\<close>

definition pds_set :: "port_key \<Rightarrow> port_data \<Rightarrow> pds \<Rightarrow> pds" where
  "pds_set k d s = s\<lparr>pds_dict := (pds_dict s)(k \<mapsto> d)\<rparr>"

definition pds_add_port :: "port_key \<Rightarrow> bool \<Rightarrow> bytes \<Rightarrow> pds \<Rightarrow> pds" where
  "pds_add_port k down data s =
     (case pds_dict s k of
        None \<Rightarrow> pds_set k (new_port_data down data) (prepend_key k s)
      | Some d \<Rightarrow> pds_set k (d\<lparr>pd_is_down := down\<rparr>) s)"

text \<open>The port's data is changed before the ring is, and stays changed when the ring raises.\<close>

definition pds_lldp_sent :: "rat \<Rightarrow> port_key \<Rightarrow> pds \<Rightarrow> pds \<times> port_data res" where
  "pds_lldp_sent clk k s =
     (case pds_dict s k of
        None \<Rightarrow> (s, Inl KeyError)
      | Some d \<Rightarrow>
          let d' = pd_lldp_sent clk d; s1 = pds_set k d' s in
          (case move_last_key k s1 of Inl e \<Rightarrow> (s1, Inl e) | Inr s2 \<Rightarrow> (s2, Inr d')))"

definition pds_lldp_received :: "port_key \<Rightarrow> pds \<Rightarrow> pds res" where
  "pds_lldp_received k s =
     (case pds_dict s k of None \<Rightarrow> Inl KeyError | Some d \<Rightarrow> Inr (pds_set k (pd_lldp_received d) s))"

definition pds_move_front :: "port_key \<Rightarrow> pds \<Rightarrow> pds \<times> py_exn option" where
  "pds_move_front k s =
     (case pds_dict s k of
        None \<Rightarrow> (s, None)
      | Some d \<Rightarrow>
          let s1 = pds_set k (pd_clear_timestamp d) s in
          (case move_front_key k s1 of Inl e \<Rightarrow> (s1, Some e) | Inr s2 \<Rightarrow> (s2, None)))"

definition pds_set_down :: "port_key \<Rightarrow> bool \<Rightarrow> pds \<Rightarrow> pds \<times> py_exn option" where
  "pds_set_down k down s =
     (case pds_dict s k of
        None \<Rightarrow> (s, Some KeyError)
      | Some d \<Rightarrow>
          let s1 = pds_set k (pd_clear_timestamp (pd_set_down down d)) s in
          if down then (s1, None)
          else (case move_front_key k s1 of Inl e \<Rightarrow> (s1, Some e) | Inr s2 \<Rightarrow> (s2, None)))"

definition pds_del_port :: "port_key \<Rightarrow> pds \<Rightarrow> pds \<times> py_exn option" where
  "pds_del_port k s =
     (case pds_dict s k of
        None \<Rightarrow> (s, Some KeyError)
      | Some d \<Rightarrow>
          let s1 = s\<lparr>pds_dict := (pds_dict s)(k := None)\<rparr> in
          (case remove_key k s1 of Inl e \<Rightarrow> (s1, Some e) | Inr s2 \<Rightarrow> (s2, None)))"

text \<open>\<open>items\<close>: the keys in the order of the ring, each with its data.\<close>

definition pds_items :: "pds \<Rightarrow> (port_key \<times> port_data) list run" where
  "pds_items s =
     (case pds_iter s of
        None \<Rightarrow> None
      | Some ks \<Rightarrow>
          if list_all (\<lambda>k. pds_dict s k \<noteq> None) ks
          then ret (map (\<lambda>k. (k, the (pds_dict s k))) ks) else raise KeyError)"

section \<open>What the ring stands for\<close>

text \<open>The nodes between \<open>p\<close> and \<open>q\<close>, linked in both directions.\<close>

fun linked :: "(nat \<Rightarrow> nat) \<Rightarrow> (nat \<Rightarrow> nat) \<Rightarrow> nat \<Rightarrow> nat list \<Rightarrow> nat \<Rightarrow> bool" where
  "linked nx pv p [] q \<longleftrightarrow> nx p = q \<and> pv q = p"
| "linked nx pv p (a # as) q \<longleftrightarrow> nx p = a \<and> pv a = p \<and> linked nx pv a as q"

definition ring_nodes :: "pds \<Rightarrow> nat list \<Rightarrow> bool" where
  "ring_nodes s as \<longleftrightarrow>
     linked (n_next s) (n_prev s) 0 as 0 \<and> distinct (0 # as) \<and> list_all (\<lambda>a. a < n_fresh s) as \<and>
     0 < n_fresh s \<and> distinct (map (n_key s) as) \<and>
     (\<forall>k a. pds_map s k = Some a \<longleftrightarrow> a \<in> set as \<and> n_key s a = k)"

definition ring :: "pds \<Rightarrow> port_key list \<Rightarrow> bool" where
  "ring s ks \<longleftrightarrow> (\<exists>as. ring_nodes s as \<and> ks = map (n_key s) as)"

lemma linked_append: "linked nx pv p (as @ b # bs) q \<longleftrightarrow> linked nx pv p as b \<and> linked nx pv b bs q"
  by (induction as arbitrary: p) auto

lemma linked_upd_next:
  "x \<notin> set (p # as) \<Longrightarrow> linked (nx(x := y)) pv p as q = linked nx pv p as q"
  by (induction as arbitrary: p) auto

lemma linked_upd_prev:
  "x \<notin> set as \<Longrightarrow> x \<noteq> q \<Longrightarrow> linked nx (pv(x := y)) p as q = linked nx pv p as q"
  by (induction as arbitrary: p) auto

lemma linked_neighbours:
  "linked nx pv p (as @ a # bs) q \<Longrightarrow> pv a \<in> set (p # as) \<and> nx a \<in> set (bs @ [q])"
proof (induction as arbitrary: p)
  case Nil
  then show ?case by (cases bs) auto
next
  case (Cons c as)
  then show ?case by fastforce
qed

lemma linked_remove:
  assumes "linked nx pv p (as @ a # bs) q" and "distinct (as @ a # bs)"
    and "p \<notin> set (as @ a # bs)" and "q \<notin> set (as @ a # bs)"
  shows "linked (nx(pv a := nx a)) (pv(nx a := pv a)) p (as @ bs) q"
  using assms
proof (induction as arbitrary: p)
  case Nil
  show ?case
  proof (cases bs)
    case Nil
    then show ?thesis using Nil.prems by simp
  next
    case (Cons b cs)
    have eq: "pv a = p" "nx a = b" "linked nx pv b cs q" using Nil.prems Cons by simp_all
    have "linked (nx(p := b)) (pv(b := p)) b cs q"
      using Nil.prems Cons eq(3) by (simp add: linked_upd_next linked_upd_prev del: fun_upd_apply)
    then show ?thesis unfolding eq Cons append_Nil linked.simps fun_upd_same by blast
  qed
next
  case (Cons c as)
  then have "pv a \<in> set (c # as) \<and> nx a \<in> set (bs @ [q])" by (intro linked_neighbours) auto
  then have "pv a \<noteq> p" "nx a \<noteq> c" using Cons.prems by auto
  then show ?case using Cons by simp
qed

lemma linked_last: "linked nx pv p as q \<Longrightarrow> pv q \<in> set (p # as)"
  by (induction as arbitrary: p) auto

lemma linked_end:
  assumes "linked nx pv p as q" and "a \<notin> set (p # q # as)" and "p \<notin> set as" and "q \<notin> set as" and "distinct as"
  shows "linked (nx(a := q, pv q := a)) (pv(a := pv q, q := a)) p as a"
  using assms
proof (induction as arbitrary: p)
  case Nil
  then show ?case by simp
next
  case (Cons c as)
  have "pv q \<in> set (c # as)" by (rule linked_last [of nx pv c as q]) (use Cons.prems in simp)
  then have "pv q \<noteq> p" "pv q \<noteq> a" using Cons.prems by auto
  then show ?case using Cons by simp
qed

lemma linked_insert_last:
  assumes "linked nx pv p as q" and "a \<notin> set (p # q # as)" and "p \<notin> set as" and "q \<notin> set as" and "distinct as"
  shows "linked (nx(a := q, pv q := a)) (pv(a := pv q, q := a)) p (as @ [a]) q"
proof -
  have "pv q \<noteq> a" using linked_last [OF assms(1)] assms(2) by auto
  then show ?thesis using linked_end [OF assms] by (simp add: linked_append)
qed

lemma linked_insert_first:
  assumes "linked nx pv p as q" and "a \<notin> set (p # q # as)" and "p \<notin> set as" and "q \<notin> set as" and "distinct as"
  shows "linked (nx(a := nx p, p := a)) (pv(a := p, nx p := a)) p (a # as) q"
proof (cases as)
  case Nil
  then show ?thesis using assms by simp
next
  case (Cons c cs)
  then show ?thesis using assms by (auto simp: linked_upd_next linked_upd_prev)
qed

section \<open>The operations on the ring\<close>

lemma ring_nodesD:
  assumes "ring_nodes s as"
  shows "linked (n_next s) (n_prev s) 0 as 0" "distinct (0 # as)" "\<forall>a\<in>set as. a < n_fresh s" "0 < n_fresh s"
    "distinct (map (n_key s) as)" "pds_map s k = Some a \<longleftrightarrow> a \<in> set as \<and> n_key s a = k"
  using assms unfolding ring_nodes_def list_all_iff by blast+

lemma ring_nodesI:
  assumes "linked (n_next s) (n_prev s) 0 as 0" and "distinct (0 # as)" and "\<forall>a\<in>set as. a < n_fresh s"
    and "0 < n_fresh s" and "distinct (map (n_key s) as)"
    and "\<And>k a. pds_map s k = Some a \<longleftrightarrow> a \<in> set as \<and> n_key s a = k"
  shows "ring_nodes s as"
  using assms unfolding ring_nodes_def list_all_iff by blast

lemma ring_empty: "ring pds_empty []"
  by (auto simp: ring_def ring_nodes_def pds_empty_def)

lemma remove_nodes:
  assumes "ring_nodes s as" and "pds_map s k = Some a"
  obtains s' bs cs where "as = bs @ a # cs" "remove_key k s = Inr s'" "ring_nodes s' (bs @ cs)"
    "n_key s' = n_key s" "pds_dict s' = pds_dict s" "n_key s a = k"
proof -
  have a: "a \<in> set as" "n_key s a = k" using ring_nodesD(6) [OF assms(1)] assms(2) by blast+
  then obtain bs cs where as: "as = bs @ a # cs" by (meson split_list)
  let ?s' = "s\<lparr>pds_map := (pds_map s)(k := None), n_next := (n_next s)(n_prev s a := n_next s a),
    n_prev := (n_prev s)(n_next s a := n_prev s a)\<rparr>"
  note r = ring_nodesD [OF assms(1), unfolded as]
  have "ring_nodes ?s' (bs @ cs)"
  proof (rule ring_nodesI)
    show "linked (n_next ?s') (n_prev ?s') 0 (bs @ cs) 0"
      using linked_remove [OF r(1)] r(2) by simp
    show "pds_map ?s' k' = Some a' \<longleftrightarrow> a' \<in> set (bs @ cs) \<and> n_key ?s' a' = k'" for k' a'
      using r(2,5) r(6) [of k' a'] a(2) by (auto simp: image_iff)
  qed (use r in auto)
  then show thesis by (rule that [OF as _ _ _ _ a(2), rotated]) (simp_all add: remove_key_def assms(2) Let_def)
qed

lemma ring_remove:
  assumes "ring s ks" and "k \<in> set ks"
  obtains s' where "remove_key k s = Inr s'" "ring s' (remove1 k ks)" "pds_dict s' = pds_dict s"
proof -
  from assms(1) obtain as where as: "ring_nodes s as" "ks = map (n_key s) as" by (auto simp: ring_def)
  from assms(2) obtain a where a: "a \<in> set as" "n_key s a = k" by (auto simp: as(2))
  then have "pds_map s k = Some a" using ring_nodesD(6) [OF as(1)] by blast
  with as(1) obtain s' bs cs where s': "as = bs @ a # cs" "remove_key k s = Inr s'" "ring_nodes s' (bs @ cs)"
    "n_key s' = n_key s" "pds_dict s' = pds_dict s" by (rule remove_nodes)
  have "k \<notin> n_key s ` set bs" using ring_nodesD(5) [OF as(1)] a(2) by (auto simp: s'(1))
  then have "remove1 k ks = map (n_key s') (bs @ cs)"
    by (simp add: as(2) s'(1,4) a(2) remove1_append)
  with s'(3) have "ring s' (remove1 k ks)" unfolding ring_def by (intro exI conjI)
  then show thesis by (rule that [OF s'(2) _ s'(5)])
qed

lemma ring_remove_missing:
  assumes "ring s ks" and "k \<notin> set ks"
  shows "remove_key k s = Inl KeyError"
proof -
  from assms(1) obtain as where as: "ring_nodes s as" "ks = map (n_key s) as" by (auto simp: ring_def)
  have "pds_map s k = None" using ring_nodesD(6) [OF as(1)] as(2) assms(2) by (cases "pds_map s k") auto
  then show ?thesis by (simp add: remove_key_def)
qed

lemma ring_append:
  assumes "ring s ks" and "k \<notin> set ks"
  shows "ring (append_key k s) (ks @ [k])"
proof -
  from assms(1) obtain as where as: "ring_nodes s as" "ks = map (n_key s) as" by (auto simp: ring_def)
  note r = ring_nodesD [OF as(1)]
  let ?a = "n_fresh s"
  let ?s' = "append_key k s"
  have fresh: "?a \<notin> set (0 # 0 # as)" using r(3,4) by auto
  have key: "map (n_key ?s') as = ks" "n_key ?s' ?a = k" using fresh by (auto simp: append_key_def Let_def as(2))
  have "ring_nodes ?s' (as @ [?a])"
  proof (rule ring_nodesI)
    show "linked (n_next ?s') (n_prev ?s') 0 (as @ [?a]) 0"
      using linked_insert_last [OF r(1) fresh] r(2) by (simp add: append_key_def Let_def)
    show "distinct (map (n_key ?s') (as @ [?a]))"
      using r(5) assms(2) unfolding as(2) [symmetric] by (simp only: map_append list.map key) simp
    show "pds_map ?s' k' = Some a' \<longleftrightarrow> a' \<in> set (as @ [?a]) \<and> n_key ?s' a' = k'" for k' a'
      using r(6) [of k' a'] fresh assms(2) by (auto simp: append_key_def Let_def as(2))
    show "\<forall>a\<in>set (as @ [?a]). a < n_fresh ?s'" using r(3) by (auto simp: append_key_def Let_def)
  qed (use r(2,4) fresh in \<open>simp_all add: append_key_def Let_def\<close>)
  moreover have "ks @ [k] = map (n_key ?s') (as @ [?a])" by (simp only: map_append list.map key)
  ultimately show ?thesis unfolding ring_def by (intro exI conjI)
qed

lemma ring_prepend:
  assumes "ring s ks" and "k \<notin> set ks"
  shows "ring (prepend_key k s) (k # ks)"
proof -
  from assms(1) obtain as where as: "ring_nodes s as" "ks = map (n_key s) as" by (auto simp: ring_def)
  note r = ring_nodesD [OF as(1)]
  let ?a = "n_fresh s"
  let ?s' = "prepend_key k s"
  have fresh: "?a \<notin> set (0 # 0 # as)" using r(3,4) by auto
  have key: "map (n_key ?s') as = ks" "n_key ?s' ?a = k" using fresh by (auto simp: prepend_key_def Let_def as(2))
  have "ring_nodes ?s' (?a # as)"
  proof (rule ring_nodesI)
    show "linked (n_next ?s') (n_prev ?s') 0 (?a # as) 0"
      using linked_insert_first [OF r(1) fresh] r(2) by (simp add: prepend_key_def Let_def)
    show "distinct (map (n_key ?s') (?a # as))"
      using r(5) assms(2) unfolding as(2) [symmetric] by (simp only: map_append list.map key) simp
    show "pds_map ?s' k' = Some a' \<longleftrightarrow> a' \<in> set (?a # as) \<and> n_key ?s' a' = k'" for k' a'
      using r(6) [of k' a'] fresh assms(2) by (auto simp: prepend_key_def Let_def as(2))
    show "\<forall>a\<in>set (?a # as). a < n_fresh ?s'" using r(3) by (auto simp: prepend_key_def Let_def)
  qed (use r(2,4) fresh in \<open>simp_all add: prepend_key_def Let_def\<close>)
  moreover have "k # ks = map (n_key ?s') (?a # as)" by (simp only: list.map key)
  ultimately show ?thesis unfolding ring_def by (intro exI conjI)
qed

text \<open>The iteration ends and yields the keys in order.\<close>

lemma iter_linked:
  "linked (n_next s) (n_prev s) p as 0 \<Longrightarrow> 0 \<notin> set as \<Longrightarrow> iter_from s (n_next s p) = Some (map (n_key s) as)"
proof (induction as arbitrary: p)
  case Nil
  then show ?case by (subst iter_from.simps) simp
next
  case (Cons a as)
  then show ?case by (subst iter_from.simps) simp
qed

lemma ring_iter:
  assumes "ring s ks"
  shows "pds_iter s = Some ks"
proof -
  from assms obtain as where as: "ring_nodes s as" "ks = map (n_key s) as" by (auto simp: ring_def)
  show ?thesis using iter_linked [OF ring_nodesD(1) [OF as(1)]] ring_nodesD(2) [OF as(1)] by (simp add: pds_iter_def as(2))
qed

lemma ring_distinct: "ring s ks \<Longrightarrow> distinct ks"
  by (auto simp: ring_def dest: ring_nodesD(5))

section \<open>The refinement\<close>

text \<open>
  The specification is a list of keys with their data, in the order of iteration; \<open>pds_abs\<close>
  relates the object to it.
\<close>

type_synonym port_list = "(port_key, port_data) dict"

definition pds_abs :: "pds \<Rightarrow> port_list \<Rightarrow> bool" where
  "pds_abs s xs \<longleftrightarrow> ring s (map fst xs) \<and> pds_dict s = map_of xs"

definition take_out :: "port_key \<Rightarrow> port_list \<Rightarrow> port_list" where
  "take_out k xs = dict_remove_if (\<lambda>x. x = k) xs"

definition spec_add :: "port_key \<Rightarrow> bool \<Rightarrow> bytes \<Rightarrow> port_list \<Rightarrow> port_list" where
  "spec_add k down data xs =
     (case map_of xs k of
        None \<Rightarrow> (k, new_port_data down data) # xs
      | Some d \<Rightarrow> dict_set k (d\<lparr>pd_is_down := down\<rparr>) xs)"

definition spec_sent :: "rat \<Rightarrow> port_key \<Rightarrow> port_list \<Rightarrow> port_list" where
  "spec_sent clk k xs =
     (case map_of xs k of None \<Rightarrow> xs | Some d \<Rightarrow> take_out k xs @ [(k, pd_lldp_sent clk d)])"

definition spec_received :: "port_key \<Rightarrow> port_list \<Rightarrow> port_list" where
  "spec_received k xs =
     (case map_of xs k of None \<Rightarrow> xs | Some d \<Rightarrow> dict_set k (pd_lldp_received d) xs)"

definition spec_front :: "port_key \<Rightarrow> port_list \<Rightarrow> port_list" where
  "spec_front k xs =
     (case map_of xs k of None \<Rightarrow> xs | Some d \<Rightarrow> (k, pd_clear_timestamp d) # take_out k xs)"

definition spec_set_down :: "port_key \<Rightarrow> bool \<Rightarrow> port_list \<Rightarrow> port_list" where
  "spec_set_down k down xs =
     (case map_of xs k of
        None \<Rightarrow> xs
      | Some d \<Rightarrow>
          let d' = pd_clear_timestamp (pd_set_down down d) in
          if down then dict_set k d' xs else (k, d') # take_out k xs)"

lemma filter_absent: "k \<notin> fst ` set xs \<Longrightarrow> filter (\<lambda>(x, _). \<not> x = k) xs = xs"
  by (force simp: filter_id_conv)

lemma keys_take_out: "distinct (map fst xs) \<Longrightarrow> map fst (take_out k xs) = remove1 k (map fst xs)"
  unfolding take_out_def dict_remove_if_def
proof (induction xs)
  case (Cons x xs)
  then show ?case by (cases x) (auto simp: filter_absent)
qed simp

lemma map_of_take_out: "map_of (take_out k xs) = (map_of xs)(k := None)"
  by (rule ext) (simp add: take_out_def dict_remove_if_def map_of_filter_keys)

lemma keys_set_present: "k \<in> set (map fst xs) \<Longrightarrow> map fst (dict_set k d xs) = map fst xs"
  by (simp add: dict_set_def update_keys)

lemma map_of_set: "map_of (dict_set k d xs) = (map_of xs)(k \<mapsto> d)"
  by (rule ext) (simp add: dict_set_def update_conv')

lemma abs_distinct: "pds_abs s xs \<Longrightarrow> distinct (map fst xs)"
  by (auto simp: pds_abs_def dest: ring_distinct)

lemma abs_get: "pds_abs s xs \<Longrightarrow> pds_dict s k = map_of xs k"
  by (simp add: pds_abs_def)

lemma map_of_key: "map_of xs k = Some d \<Longrightarrow> k \<in> set (map fst xs)"
  by (force dest: map_of_SomeD)

lemma abs_set:
  assumes "pds_abs s xs" and "map_of xs k = Some d"
  shows "pds_abs (pds_set k d' s) (dict_set k d' xs)"
proof -
  have "ring (pds_set k d' s) ks = ring s ks" for ks by (simp add: ring_def ring_nodes_def pds_set_def)
  then show ?thesis
    using assms(1) map_of_key [OF assms(2)] by (simp add: pds_abs_def keys_set_present map_of_set) (simp add: pds_set_def)
qed

text \<open>A key that is present is taken out of the ring and put back at one of its ends.\<close>

lemma abs_move:
  assumes "pds_abs s xs" and "map_of xs k = Some d"
  obtains s1 where "remove_key k (pds_set k d' s) = Inr s1"
    "pds_abs (append_key k s1) (take_out k xs @ [(k, d')])"
    "pds_abs (prepend_key k s1) ((k, d') # take_out k xs)"
proof -
  let ?s = "pds_set k d' s"
  have abs: "pds_abs ?s (dict_set k d' xs)" using assms by (rule abs_set)
  have k: "k \<in> set (map fst xs)" using assms(2) by (rule map_of_key)
  have r: "ring ?s (map fst xs)" using abs k by (simp add: pds_abs_def keys_set_present)
  obtain s1 where s1: "remove_key k ?s = Inr s1" "ring s1 (remove1 k (map fst xs))" "pds_dict s1 = pds_dict ?s"
    using r k by (rule ring_remove)
  have dist: "distinct (map fst xs)" using assms(1) by (rule abs_distinct)
  have r1: "ring s1 (map fst (take_out k xs))" using s1(2) by (simp add: keys_take_out [OF dist])
  have new: "k \<notin> set (map fst (take_out k xs))" using dist by (simp add: keys_take_out)
  have dict: "pds_dict s1 = (map_of xs)(k \<mapsto> d')" using s1(3) abs by (simp add: pds_abs_def map_of_set)
  have "pds_dict (append_key k s1) = pds_dict s1" "pds_dict (prepend_key k s1) = pds_dict s1"
    by (simp_all add: append_key_def prepend_key_def Let_def)
  moreover have "map_of (take_out k xs @ [(k, d')]) = (map_of xs)(k \<mapsto> d')"
    "map_of ((k, d') # take_out k xs) = (map_of xs)(k \<mapsto> d')"
    by (auto simp: map_of_take_out map_add_def fun_eq_iff split: option.split)
  ultimately show thesis
    using ring_append [OF r1 new] ring_prepend [OF r1 new] dict
    by (intro that [OF s1(1)]) (simp_all add: pds_abs_def)
qed

lemma abs_empty: "pds_abs pds_empty []"
  using ring_empty by (simp add: pds_abs_def pds_empty_def fun_eq_iff)

lemma abs_add:
  assumes "pds_abs s xs"
  shows "pds_abs (pds_add_port k down data s) (spec_add k down data xs)"
proof (cases "map_of xs k")
  case None
  then have k: "k \<notin> set (map fst xs)" by (simp add: map_of_eq_None_iff)
  let ?s1 = "prepend_key k s"
  have "ring ?s1 (k # map fst xs)" using assms k by (intro ring_prepend) (auto simp: pds_abs_def)
  then have "ring (pds_set k d ?s1) (k # map fst xs)" for d by (simp add: ring_def ring_nodes_def pds_set_def)
  moreover have "pds_dict ?s1 = pds_dict s" by (simp add: prepend_key_def Let_def)
  ultimately show ?thesis
    using assms None by (simp add: pds_add_port_def spec_add_def pds_abs_def) (simp add: pds_set_def)
next
  case (Some d)
  then show ?thesis using abs_set [OF assms Some] by (simp add: pds_add_port_def spec_add_def abs_get [OF assms])
qed

lemma abs_sent:
  assumes "pds_abs s xs"
  obtains s' r where "pds_lldp_sent clk k s = (s', r)" "pds_abs s' (spec_sent clk k xs)"
    "r = (case map_of xs k of None \<Rightarrow> Inl KeyError | Some d \<Rightarrow> Inr (pd_lldp_sent clk d))"
proof (cases "map_of xs k")
  case None
  then show thesis using that assms by (simp add: pds_lldp_sent_def spec_sent_def abs_get [OF assms])
next
  case (Some d)
  obtain s1 where "remove_key k (pds_set k (pd_lldp_sent clk d) s) = Inr s1"
    "pds_abs (append_key k s1) (take_out k xs @ [(k, pd_lldp_sent clk d)])"
    using assms Some by (rule abs_move)
  then show thesis
    using that Some by (simp add: pds_lldp_sent_def spec_sent_def abs_get [OF assms] move_last_key_def Let_def)
qed

lemma abs_received:
  assumes "pds_abs s xs"
  shows "case pds_lldp_received k s of Inl e \<Rightarrow> map_of xs k = None | Inr s' \<Rightarrow> pds_abs s' (spec_received k xs)"
  using abs_set [OF assms, of k] by (simp add: pds_lldp_received_def spec_received_def abs_get [OF assms] split: option.split)

lemma abs_front:
  assumes "pds_abs s xs"
  obtains s' where "pds_move_front k s = (s', None)" "pds_abs s' (spec_front k xs)"
proof (cases "map_of xs k")
  case None
  then show thesis using that assms by (simp add: pds_move_front_def spec_front_def abs_get [OF assms])
next
  case (Some d)
  obtain s1 where "remove_key k (pds_set k (pd_clear_timestamp d) s) = Inr s1"
    "pds_abs (prepend_key k s1) ((k, pd_clear_timestamp d) # take_out k xs)"
    using assms Some by (rule abs_move)
  then show thesis
    using that Some by (simp add: pds_move_front_def spec_front_def abs_get [OF assms] move_front_key_def Let_def)
qed

lemma abs_set_down:
  assumes "pds_abs s xs"
  obtains s' where "pds_set_down k down s = (s', if map_of xs k = None then Some KeyError else None)"
    "pds_abs s' (spec_set_down k down xs)"
proof (cases "map_of xs k")
  case None
  then show thesis using that assms by (simp add: pds_set_down_def spec_set_down_def abs_get [OF assms])
next
  case (Some d)
  let ?d = "pd_clear_timestamp (pd_set_down down d)"
  obtain s1 where "remove_key k (pds_set k ?d s) = Inr s1" "pds_abs (prepend_key k s1) ((k, ?d) # take_out k xs)"
    using assms Some by (rule abs_move)
  then show thesis
    using that abs_set [OF assms Some] Some
    by (cases down) (simp_all add: pds_set_down_def spec_set_down_def abs_get [OF assms] move_front_key_def Let_def)
qed

lemma abs_del:
  assumes "pds_abs s xs"
  obtains s' where "pds_del_port k s = (s', if map_of xs k = None then Some KeyError else None)"
    "pds_abs s' (take_out k xs)"
proof (cases "map_of xs k")
  case None
  then have "take_out k xs = xs"
    by (simp add: take_out_def dict_remove_if_def map_of_eq_None_iff filter_absent)
  then show thesis using that assms None by (simp add: pds_del_port_def abs_get [OF assms])
next
  case (Some d)
  let ?s = "s\<lparr>pds_dict := (pds_dict s)(k := None)\<rparr>"
  have "ring ?s (map fst xs)" using assms by (simp add: pds_abs_def ring_def ring_nodes_def)
  then obtain s1 where s1: "remove_key k ?s = Inr s1" "ring s1 (remove1 k (map fst xs))" "pds_dict s1 = pds_dict ?s"
    using map_of_key [OF Some] by (rule ring_remove)
  then have "pds_abs s1 (take_out k xs)"
    using assms by (simp add: pds_abs_def keys_take_out [OF abs_distinct [OF assms]] map_of_take_out)
  then show thesis using that Some s1(1) by (simp add: pds_del_port_def abs_get [OF assms])
qed

lemma abs_items:
  assumes "pds_abs s xs"
  shows "pds_items s = ret xs"
proof -
  have d: "distinct (map fst xs)" using assms by (rule abs_distinct)
  have "pds_iter s = Some (map fst xs)" using assms by (auto simp: pds_abs_def ring_iter)
  moreover have "list_all (\<lambda>k. pds_dict s k \<noteq> None) (map fst xs)"
    using assms by (auto simp: pds_abs_def list_all_iff map_of_eq_None_iff)
  moreover have "map (\<lambda>k. (k, the (pds_dict s k))) (map fst xs) = xs"
    using assms d by (auto simp: pds_abs_def intro!: map_idI)
  ultimately show ?thesis by (simp add: pds_items_def)
qed

end
