(* ===== verification/Topo_Links.thy ===== *)
theory Topo_Links
  imports Topo_Ports Ctl_Tables
begin

text \<open>
  \<open>LinkState\<close> and \<open>HostState\<close> of \<open>ryu/topology/switches.py\<close>: the table of links with the time each
  was last seen, the index of the links by their source, and the table of hosts.  A \<open>Port\<close> or
  \<open>Link\<close> object in these tables is read through its key only, so it is its key here.
\<close>

section \<open>Links\<close>

type_synonym topo_link = "port_key \<times> port_key"

text \<open>
  \<open>ls_map\<close> is the \<open>defaultdict\<close> of \<open>defaultdict\<close>s: for a source its destinations in the order of
  insertion; a source that is not there has none.
\<close>

record link_state =
  ls_times :: "(topo_link, rat) dict"
  ls_map :: "port_key \<Rightarrow> port_key list"

definition links_empty :: link_state where
  "links_empty = \<lparr>ls_times = [], ls_map = (\<lambda>_. [])\<rparr>"

definition has_link :: "link_state \<Rightarrow> topo_link \<Rightarrow> bool" where
  "has_link s l \<longleftrightarrow> dict_get (ls_times s) l \<noteq> None"

definition get_peers :: "port_key \<Rightarrow> link_state \<Rightarrow> port_key list" where
  "get_peers src s = ls_map s src"

text \<open>The answer tells whether the reverse link is up.\<close>

definition update_link :: "rat \<Rightarrow> port_key \<Rightarrow> port_key \<Rightarrow> link_state \<Rightarrow> link_state \<times> bool" where
  "update_link clk src dst s =
     (let dsts = ls_map s src;
          s1 = s\<lparr>ls_times := dict_set (src, dst) clk (ls_times s),
                 ls_map := (ls_map s)(src := if dst \<in> set dsts then dsts else dsts @ [dst])\<rparr>
      in (s1, has_link s1 (dst, src)))"

definition drop_time :: "topo_link \<Rightarrow> link_state \<Rightarrow> link_state" where
  "drop_time l s = s\<lparr>ls_times := dict_del l (ls_times s)\<rparr>"

definition drop_peer :: "port_key \<Rightarrow> port_key \<Rightarrow> link_state \<Rightarrow> link_state" where
  "drop_peer src dst s = s\<lparr>ls_map := (ls_map s)(src := remove1 dst (ls_map s src))\<rparr>"

definition link_down :: "topo_link \<Rightarrow> link_state \<Rightarrow> link_state \<times> py_exn option" where
  "link_down l s =
     (if \<not> has_link s l then (s, Some KeyError)
      else let s1 = drop_time l s in
        if snd l \<notin> set (ls_map s1 (fst l)) then (s1, Some KeyError)
        else (drop_peer (fst l) (snd l) s1, None))"

definition rev_link_set_timestamp :: "topo_link \<Rightarrow> rat \<Rightarrow> link_state \<Rightarrow> link_state" where
  "rev_link_set_timestamp l t s =
     (if has_link s l then s\<lparr>ls_times := dict_set l t (ls_times s)\<rparr> else s)"

text \<open>
  The loop of \<open>port_deleted\<close>.  The peers are a view of the dictionary that the body changes when
  a port is its own peer; the iteration then raises.
\<close>

fun delete_peers ::
  "port_key \<Rightarrow> port_key list \<Rightarrow> link_state \<Rightarrow> port_key list \<Rightarrow> link_state \<times> port_key list res"
where
  "delete_peers src [] s revs = (s, Inr revs)"
| "delete_peers src (dst # dsts) s revs =
     (if \<not> has_link s (src, dst) then (s, Inl KeyError)
      else
        let s1 = drop_time (dst, src) (drop_time (src, dst) s) in
        if src \<in> set (ls_map s1 dst) then
          (if dst = src then (drop_peer dst src s1, Inl (OtherError ''RuntimeError''))
           else delete_peers src dsts (drop_peer dst src s1) (revs @ [dst]))
        else delete_peers src dsts s1 revs)"

definition port_deleted :: "port_key \<Rightarrow> link_state \<Rightarrow> link_state \<times> (port_key list \<times> port_key list) res" where
  "port_deleted src s =
     (let dsts = get_peers src s in
      case delete_peers src dsts s [] of
        (s1, Inl e) \<Rightarrow> (s1, Inl e)
      | (s1, Inr revs) \<Rightarrow> (s1\<lparr>ls_map := (ls_map s1)(src := [])\<rparr>, Inr (dsts, revs)))"

section \<open>The index agrees with the table\<close>

definition links_ok :: "link_state \<Rightarrow> bool" where
  "links_ok s \<longleftrightarrow>
     dict_wf (ls_times s) \<and> (\<forall>src. distinct (ls_map s src)) \<and>
     (\<forall>src dst. dst \<in> set (ls_map s src) \<longleftrightarrow> has_link s (src, dst)) \<and> (\<forall>p. \<not> has_link s (p, p))"

lemma links_okD:
  assumes "links_ok s"
  shows "dict_wf (ls_times s)" "distinct (ls_map s p)" "q \<in> set (ls_map s p) \<longleftrightarrow> has_link s (p, q)" "\<not> has_link s (p, p)"
  using assms unfolding links_ok_def by blast+

lemma links_empty_ok: "links_ok links_empty" "\<not> has_link links_empty l"
  by (simp_all add: links_ok_def links_empty_def has_link_def)

lemma has_link_simps [simp]:
  "has_link (drop_time l s) m \<longleftrightarrow> m \<noteq> l \<and> has_link s m"
  "has_link (drop_peer p q s) m \<longleftrightarrow> has_link s m"
  "has_link (s\<lparr>ls_map := f\<rparr>) m \<longleftrightarrow> has_link s m"
  "has_link (s\<lparr>ls_times := dict_set l t (ls_times s), ls_map := f\<rparr>) m \<longleftrightarrow> m = l \<or> has_link s m"
  "has_link (s\<lparr>ls_times := dict_set l t (ls_times s)\<rparr>) m \<longleftrightarrow> m = l \<or> has_link s m"
  "ls_map (drop_time l s) = ls_map s"
  "ls_times (drop_peer p q s) = ls_times s"
  by (auto simp: has_link_def drop_time_def drop_peer_def)

lemma update_link_ok:
  assumes "links_ok s" and "src \<noteq> dst"
  shows "links_ok (fst (update_link clk src dst s))"
    "has_link (fst (update_link clk src dst s)) l \<longleftrightarrow> l = (src, dst) \<or> has_link s l"
    "snd (update_link clk src dst s) \<longleftrightarrow> has_link s (dst, src)"
  using assms by (auto simp: update_link_def Let_def links_ok_def)

lemma links_down_ok:
  assumes "links_ok s"
  shows "links_ok (fst (link_down l s))" "has_link (fst (link_down l s)) m \<longleftrightarrow> m \<noteq> l \<and> has_link s m"
    "snd (link_down l s) = None \<longleftrightarrow> has_link s l"
proof -
  obtain p q where l: "l = (p, q)" by (cases l)
  note D = links_okD [OF assms]
  have "links_ok (drop_peer p q (drop_time (p, q) s))"
    using assms unfolding links_ok_def
    by (simp add: drop_peer_def) (auto simp: drop_time_def drop_peer_def dict_wf_remove_if)
  then show "links_ok (fst (link_down l s))" using assms D(3) by (simp add: link_down_def Let_def l)
  show "has_link (fst (link_down l s)) m \<longleftrightarrow> m \<noteq> l \<and> has_link s m"
    using D(3) by (auto simp: link_down_def Let_def l)
  show "snd (link_down l s) = None \<longleftrightarrow> has_link s l" using D(3) by (simp add: link_down_def Let_def l)
qed

lemma set_timestamp_ok:
  "links_ok s \<Longrightarrow> links_ok (rev_link_set_timestamp l t s)"
  "has_link (rev_link_set_timestamp l t s) m \<longleftrightarrow> has_link s m"
  by (auto simp: rev_link_set_timestamp_def links_ok_def)

text \<open>What the loop has left when the peers \<open>dsts\<close> are still to be visited.\<close>

lemma delete_peers_ok:
  assumes "distinct dsts" and "src \<notin> set dsts" and "dict_wf (ls_times s)" and "\<forall>p. distinct (ls_map s p)"
    and "\<forall>dst\<in>set dsts. has_link s (src, dst)"
    and "\<forall>p q. p \<noteq> src \<longrightarrow> (q \<in> set (ls_map s p) \<longleftrightarrow> has_link s (p, q))"
  obtains s1 where
    "delete_peers src dsts s revs = (s1, Inr (revs @ filter (\<lambda>dst. has_link s (dst, src)) dsts))"
    "dict_wf (ls_times s1)" "\<forall>p. distinct (ls_map s1 p)" "ls_map s1 src = ls_map s src"
    "\<forall>p q. p \<noteq> src \<longrightarrow> (q \<in> set (ls_map s1 p) \<longleftrightarrow> has_link s1 (p, q))"
    "\<forall>p q. has_link s1 (p, q) \<longleftrightarrow> has_link s (p, q) \<and> \<not> (p = src \<and> q \<in> set dsts) \<and> \<not> (q = src \<and> p \<in> set dsts)"
  using assms
proof (induction dsts arbitrary: s revs thesis)
  case Nil
  show ?case by (rule Nil.prems(1) [OF _ Nil.prems(4,5) refl Nil.prems(7)]) simp_all
next
  case (Cons dst dsts)
  let ?s1 = "drop_time (dst, src) (drop_time (src, dst) s)"
  let ?s2 = "if src \<in> set (ls_map ?s1 dst) then drop_peer dst src ?s1 else ?s1"
  let ?revs = "if has_link s (dst, src) then revs @ [dst] else revs"
  have ne: "dst \<noteq> src" using Cons.prems(3) by auto
  have idx: "src \<in> set (ls_map s dst) \<longleftrightarrow> has_link s (dst, src)" using Cons.prems(7) ne by blast
  have link: "has_link s (src, dst)" using Cons.prems(6) by simp
  have step: "delete_peers src (dst # dsts) s revs = delete_peers src dsts ?s2 ?revs"
    using ne idx link by (simp add: Let_def)
  have h: "has_link ?s2 m \<longleftrightarrow> m \<noteq> (src, dst) \<and> m \<noteq> (dst, src) \<and> has_link s m" for m by auto
  have m: "ls_map ?s2 p = (if p = dst then remove1 src (ls_map s p) else ls_map s p)" for p
    by (auto simp: drop_peer_def remove1_idem)
  obtain s1 where s1:
    "delete_peers src dsts ?s2 ?revs = (s1, Inr (?revs @ filter (\<lambda>dst. has_link ?s2 (dst, src)) dsts))"
    "dict_wf (ls_times s1)" "\<forall>p. distinct (ls_map s1 p)" "ls_map s1 src = ls_map ?s2 src"
    "\<forall>p q. p \<noteq> src \<longrightarrow> (q \<in> set (ls_map s1 p) \<longleftrightarrow> has_link s1 (p, q))"
    "\<forall>p q. has_link s1 (p, q) \<longleftrightarrow> has_link ?s2 (p, q) \<and> \<not> (p = src \<and> q \<in> set dsts) \<and> \<not> (q = src \<and> p \<in> set dsts)"
  proof (rule Cons.IH)
    show "distinct dsts" "src \<notin> set dsts" using Cons.prems(2,3) by auto
    show "dict_wf (ls_times ?s2)" using Cons.prems(4) by (simp add: drop_time_def)
    show "\<forall>p. distinct (ls_map ?s2 p)" unfolding m using Cons.prems(5) by (intro allI) (metis distinct_remove1)
    show "\<forall>d\<in>set dsts. has_link ?s2 (src, d)" using Cons.prems(2,6) ne by (auto simp: h)
    show "\<forall>p q. p \<noteq> src \<longrightarrow> (q \<in> set (ls_map ?s2 p) \<longleftrightarrow> has_link ?s2 (p, q))"
    proof (intro allI impI)
      fix p q assume p: "p \<noteq> src"
      have "distinct (ls_map s p)" "q \<in> set (ls_map s p) \<longleftrightarrow> has_link s (p, q)" using Cons.prems(5,7) p by blast+
      then show "q \<in> set (ls_map ?s2 p) \<longleftrightarrow> has_link ?s2 (p, q)" unfolding h m using p by auto
    qed
  qed
  have same: "filter (\<lambda>d. has_link ?s2 (d, src)) dsts = filter (\<lambda>d. has_link s (d, src)) dsts"
    using Cons.prems(2,3) by (intro filter_cong) (auto simp: h)
  show ?case
  proof (rule Cons.prems(1))
    show "delete_peers src (dst # dsts) s revs = (s1, Inr (revs @ filter (\<lambda>d. has_link s (d, src)) (dst # dsts)))"
      unfolding step s1(1) same by simp
    show "ls_map s1 src = ls_map s src" using s1(4) m [of src] ne by simp
    show "\<forall>p q. has_link s1 (p, q) \<longleftrightarrow>
        has_link s (p, q) \<and> \<not> (p = src \<and> q \<in> set (dst # dsts)) \<and> \<not> (q = src \<and> p \<in> set (dst # dsts))"
    proof (intro allI)
      fix p q
      have "has_link s1 (p, q) \<longleftrightarrow> has_link ?s2 (p, q) \<and> \<not> (p = src \<and> q \<in> set dsts) \<and> \<not> (q = src \<and> p \<in> set dsts)"
        by (rule s1(6) [THEN spec, THEN spec])
      then show "has_link s1 (p, q) \<longleftrightarrow>
          has_link s (p, q) \<and> \<not> (p = src \<and> q \<in> set (dst # dsts)) \<and> \<not> (q = src \<and> p \<in> set (dst # dsts))"
        unfolding h by auto
    qed
  qed (rule s1)+
qed

text \<open>The links that leave the port go, and with each of them its reverse.\<close>

lemma port_deleted_ok:
  assumes "links_ok s"
  obtains s1 revs where "port_deleted src s = (s1, Inr (ls_map s src, revs))" "links_ok s1"
    "\<forall>p q. has_link s1 (p, q) \<longleftrightarrow>
      has_link s (p, q) \<and> p \<noteq> src \<and> \<not> (q = src \<and> has_link s (src, p))"
    "revs = filter (\<lambda>dst. has_link s (dst, src)) (ls_map s src)"
proof -
  note D = links_okD [OF assms]
  obtain s1 where s1:
    "delete_peers src (ls_map s src) s [] = (s1, Inr ([] @ filter (\<lambda>dst. has_link s (dst, src)) (ls_map s src)))"
    "dict_wf (ls_times s1)" "\<forall>p. distinct (ls_map s1 p)" "ls_map s1 src = ls_map s src"
    "\<forall>p q. p \<noteq> src \<longrightarrow> (q \<in> set (ls_map s1 p) \<longleftrightarrow> has_link s1 (p, q))"
    "\<forall>p q. has_link s1 (p, q) \<longleftrightarrow> has_link s (p, q) \<and> \<not> (p = src \<and> q \<in> set (ls_map s src)) \<and> \<not> (q = src \<and> p \<in> set (ls_map s src))"
    by (rule delete_peers_ok [of "ls_map s src" src s "[]"]) (use D in auto)
  let ?s2 = "s1\<lparr>ls_map := (ls_map s1)(src := [])\<rparr>"
  have h: "has_link ?s2 (p, q) \<longleftrightarrow> has_link s (p, q) \<and> p \<noteq> src \<and> \<not> (q = src \<and> has_link s (src, p))" for p q
  proof -
    have "has_link s1 (p, q) \<longleftrightarrow>
        has_link s (p, q) \<and> \<not> (p = src \<and> q \<in> set (ls_map s src)) \<and> \<not> (q = src \<and> p \<in> set (ls_map s src))"
      by (rule s1(6) [THEN spec, THEN spec])
    then show ?thesis unfolding D(3) has_link_simps by blast
  qed
  have "links_ok ?s2"
    unfolding links_ok_def
  proof (intro conjI allI)
    show "q \<in> set (ls_map ?s2 p) \<longleftrightarrow> has_link ?s2 (p, q)" for p q
    proof (cases "p = src")
      case True
      then show ?thesis unfolding h by simp
    next
      case False
      then have "q \<in> set (ls_map s1 p) \<longleftrightarrow> has_link s1 (p, q)" using s1(5) by blast
      then show ?thesis using False by simp
    qed
    show "\<not> has_link ?s2 (p, p)" for p unfolding h using D(4) by blast
    show "dict_wf (ls_times ?s2)" using s1(2) by simp
    show "distinct (ls_map ?s2 p)" for p using s1(3) [THEN spec, of p] by simp
  qed
  moreover have "port_deleted src s = (?s2, Inr (ls_map s src, filter (\<lambda>dst. has_link s (dst, src)) (ls_map s src)))"
    using s1(1) by (simp add: port_deleted_def get_peers_def Let_def)
  moreover have "\<forall>p q. has_link ?s2 (p, q) \<longleftrightarrow> has_link s (p, q) \<and> p \<noteq> src \<and> \<not> (q = src \<and> has_link s (src, p))"
    using h by (intro allI)
  ultimately show thesis by (intro that [of ?s2]) (assumption | rule refl)+
qed

section \<open>Hosts\<close>

record host =
  h_mac :: string
  h_port :: port_key
  h_ipv4 :: "string list"
  h_ipv6 :: "string list"

type_synonym host_state = "(string, host) dict"

definition new_host :: "string \<Rightarrow> port_key \<Rightarrow> host" where
  "new_host mac port = \<lparr>h_mac = mac, h_port = port, h_ipv4 = [], h_ipv6 = []\<rparr>"

text \<open>\<open>setdefault\<close>: a host that is there stays.\<close>

definition hosts_add :: "host \<Rightarrow> host_state \<Rightarrow> host_state" where
  "hosts_add h hs = (if dict_get hs (h_mac h) = None then dict_set (h_mac h) h hs else hs)"

text \<open>An address that is known moves to the end.\<close>

definition push_addr :: "string option \<Rightarrow> string list \<Rightarrow> string list" where
  "push_addr a as = (case a of None \<Rightarrow> as | Some x \<Rightarrow> remove1 x as @ [x])"

definition hosts_update_ip :: "string \<Rightarrow> string option \<Rightarrow> string option \<Rightarrow> host_state \<Rightarrow> host_state" where
  "hosts_update_ip mac ip_v4 ip_v6 hs =
     (case dict_get hs mac of
        None \<Rightarrow> hs
      | Some h \<Rightarrow>
          dict_set mac (h\<lparr>h_ipv4 := push_addr ip_v4 (h_ipv4 h), h_ipv6 := push_addr ip_v6 (h_ipv6 h)\<rparr>) hs)"

definition hosts_get_by_dpid :: "nat \<Rightarrow> host_state \<Rightarrow> host list" where
  "hosts_get_by_dpid dpid hs = filter (\<lambda>h. fst (h_port h) = dpid) (dict_values hs)"

text \<open>Every host is stored under its address and has no address twice.\<close>

definition hosts_ok :: "host_state \<Rightarrow> bool" where
  "hosts_ok hs \<longleftrightarrow> dict_wf hs \<and>
     (\<forall>m h. dict_get hs m = Some h \<longrightarrow> h_mac h = m \<and> distinct (h_ipv4 h) \<and> distinct (h_ipv6 h))"

lemma push_addr_distinct: "distinct as \<Longrightarrow> distinct (push_addr a as)"
  by (auto simp: push_addr_def split: option.split)

lemma hosts_add_ok: "hosts_ok hs \<Longrightarrow> distinct (h_ipv4 h) \<Longrightarrow> distinct (h_ipv6 h) \<Longrightarrow> hosts_ok (hosts_add h hs)"
  by (auto simp: hosts_add_def hosts_ok_def)

lemma hosts_update_ip_ok: "hosts_ok hs \<Longrightarrow> hosts_ok (hosts_update_ip mac ip4 ip6 hs)"
  by (auto simp: hosts_update_ip_def hosts_ok_def push_addr_distinct split: option.split)

end
