(* ===== verification/Topo_Order.thy ===== *)
theory Topo_Order
  imports Topo_Ports
begin

text \<open>
  The contract of the port table that the discovery loop relies on: every operation is the list
  operation of its name, and the times of the last transmissions stay in the order of iteration.
\<close>

section \<open>Times in order\<close>

definition stamps :: "port_list \<Rightarrow> rat list" where
  "stamps xs = List.map_filter (\<lambda>(k, d). pd_timestamp d) xs"

definition ordered :: "rat \<Rightarrow> port_list \<Rightarrow> bool" where
  "ordered t xs \<longleftrightarrow> sorted (stamps xs) \<and> (\<forall>u\<in>set (stamps xs). u \<le> t)"

lemma stamps_simps [simp]:
  "stamps [] = []"
  "stamps ((k, d) # xs) = (case pd_timestamp d of None \<Rightarrow> stamps xs | Some u \<Rightarrow> u # stamps xs)"
  "stamps (xs @ ys) = stamps xs @ stamps ys"
  by (simp_all add: stamps_def List.map_filter_def split: option.split)

lemma stamps_set_same:
  "map_of xs k = Some d \<Longrightarrow> pd_timestamp d' = pd_timestamp d \<Longrightarrow> stamps (dict_set k d' xs) = stamps xs"
  by (induction xs) (auto simp: dict_set_def split: if_splits option.split)

lemma stamps_set_None:
  "pd_timestamp d' = None \<Longrightarrow>
     set (stamps (dict_set k d' xs)) \<subseteq> set (stamps xs) \<and> (sorted (stamps xs) \<longrightarrow> sorted (stamps (dict_set k d' xs)))"
proof (induction xs)
  case (Cons x xs)
  then show ?case by (cases x) (auto simp: dict_set_def subset_iff split: option.splits)
qed (simp add: dict_set_def)

lemma stamps_take_out:
  "set (stamps (take_out k xs)) \<subseteq> set (stamps xs) \<and> (sorted (stamps xs) \<longrightarrow> sorted (stamps (take_out k xs)))"
proof (induction xs)
  case (Cons x xs)
  then show ?case by (cases x) (auto simp: take_out_def dict_remove_if_def subset_iff split: option.splits)
qed (simp add: take_out_def dict_remove_if_def)

lemma ordered_mono: "ordered t xs \<Longrightarrow> t \<le> u \<Longrightarrow> ordered u xs"
  by (force simp: ordered_def)

lemma ordered_Nil: "ordered t []"
  by (simp add: ordered_def)

lemma ordered_add: "ordered t xs \<Longrightarrow> ordered t (spec_add k down data xs)"
  by (auto simp: spec_add_def ordered_def new_port_data_def stamps_set_same split: option.split)

lemma ordered_sent: "ordered t xs \<Longrightarrow> t \<le> clk \<Longrightarrow> ordered clk (spec_sent clk k xs)"
  using stamps_take_out [of k xs]
  by (force simp: spec_sent_def ordered_def pd_lldp_sent_def sorted_append split: option.split)

lemma ordered_received: "ordered t xs \<Longrightarrow> ordered t (spec_received k xs)"
  by (auto simp: spec_received_def ordered_def pd_lldp_received_def stamps_set_same split: option.split)

lemma ordered_take_out: "ordered t xs \<Longrightarrow> ordered t (take_out k xs)"
  using stamps_take_out [of k xs] by (auto simp: ordered_def)

lemma ordered_front: "ordered t xs \<Longrightarrow> ordered t (spec_front k xs)"
  using stamps_take_out [of k xs]
  by (auto simp: spec_front_def ordered_def pd_clear_timestamp_def split: option.split)

lemma ordered_set_None: "ordered t xs \<Longrightarrow> pd_timestamp d = None \<Longrightarrow> ordered t (dict_set k d xs)"
  using stamps_set_None [of d k xs] by (auto simp: ordered_def)

lemma ordered_set_down: "ordered t xs \<Longrightarrow> ordered t (spec_set_down k down xs)"
  using ordered_take_out [of t xs k] ordered_set_None [of t xs]
  by (auto simp: spec_set_down_def pd_clear_timestamp_def Let_def split: option.split) (simp add: ordered_def)

section \<open>The contract\<close>

definition in_order :: "('s \<Rightarrow> port_list \<Rightarrow> bool) \<Rightarrow> rat \<Rightarrow> 's \<Rightarrow> bool" where
  "in_order rep t s \<longleftrightarrow> (\<exists>xs. rep s xs \<and> ordered t xs)"

locale port_store =
  fixes rep :: "'s \<Rightarrow> port_list \<Rightarrow> bool"
    and fresh :: 's
    and add :: "port_key \<Rightarrow> bool \<Rightarrow> bytes \<Rightarrow> 's \<Rightarrow> 's"
    and sent :: "rat \<Rightarrow> port_key \<Rightarrow> 's \<Rightarrow> 's \<times> port_data res"
    and received :: "port_key \<Rightarrow> 's \<Rightarrow> 's res"
    and front :: "port_key \<Rightarrow> 's \<Rightarrow> 's \<times> py_exn option"
    and set_down :: "port_key \<Rightarrow> bool \<Rightarrow> 's \<Rightarrow> 's \<times> py_exn option"
    and del :: "port_key \<Rightarrow> 's \<Rightarrow> 's \<times> py_exn option"
    and items :: "'s \<Rightarrow> (port_key \<times> port_data) list run"
  assumes rep_fresh: "rep fresh []"
    and rep_add: "rep s xs \<Longrightarrow> rep (add k down data s) (spec_add k down data xs)"
    and rep_sent: "rep s xs \<Longrightarrow> rep (fst (sent clk k s)) (spec_sent clk k xs)"
    and rep_received: "rep s xs \<Longrightarrow> received k s = Inr s' \<Longrightarrow> rep s' (spec_received k xs)"
    and rep_front: "rep s xs \<Longrightarrow> rep (fst (front k s)) (spec_front k xs) \<and> snd (front k s) = None"
    and rep_set_down: "rep s xs \<Longrightarrow> rep (fst (set_down k down s)) (spec_set_down k down xs)"
    and rep_del: "rep s xs \<Longrightarrow> rep (fst (del k s)) (take_out k xs)"
    and rep_items: "rep s xs \<Longrightarrow> items s = ret xs"
begin

lemma order_fresh: "in_order rep t fresh"
  using rep_fresh ordered_Nil by (auto simp: in_order_def)

lemma order_mono: "in_order rep t s \<Longrightarrow> t \<le> u \<Longrightarrow> in_order rep u s"
  using ordered_mono by (auto simp: in_order_def)

lemma order_add: "in_order rep t s \<Longrightarrow> in_order rep t (add k down data s)"
  unfolding in_order_def using rep_add ordered_add by blast

lemma order_sent: "in_order rep t s \<Longrightarrow> t \<le> clk \<Longrightarrow> in_order rep clk (fst (sent clk k s))"
  unfolding in_order_def using rep_sent ordered_sent by blast

lemma order_received: "in_order rep t s \<Longrightarrow> received k s = Inr s' \<Longrightarrow> in_order rep t s'"
  unfolding in_order_def using rep_received ordered_received by blast

lemma order_front: "in_order rep t s \<Longrightarrow> in_order rep t (fst (front k s)) \<and> snd (front k s) = None"
  unfolding in_order_def using rep_front ordered_front by blast

lemma order_set_down: "in_order rep t s \<Longrightarrow> in_order rep t (fst (set_down k down s))"
  unfolding in_order_def using rep_set_down ordered_set_down by blast

lemma order_del: "in_order rep t s \<Longrightarrow> in_order rep t (fst (del k s))"
  unfolding in_order_def using rep_del ordered_take_out by blast

lemma order_items:
  assumes "in_order rep t s"
  obtains xs where "items s = ret xs" "rep s xs" "sorted (stamps xs)"
  using assms rep_items unfolding in_order_def ordered_def by blast

end

interpretation pds: port_store pds_abs pds_empty pds_add_port pds_lldp_sent pds_lldp_received pds_move_front
  pds_set_down pds_del_port pds_items
proof
  fix s xs k down data clk s'
  assume abs: "pds_abs s xs"
  obtain t r where "pds_lldp_sent clk k s = (t, r)" "pds_abs t (spec_sent clk k xs)" using abs by (rule abs_sent)
  then show "pds_abs (fst (pds_lldp_sent clk k s)) (spec_sent clk k xs)" by simp
  obtain t where "pds_move_front k s = (t, None)" "pds_abs t (spec_front k xs)" using abs by (rule abs_front)
  then show "pds_abs (fst (pds_move_front k s)) (spec_front k xs) \<and> snd (pds_move_front k s) = None" by simp
  obtain t where "pds_set_down k down s = (t, if map_of xs k = None then Some KeyError else None)"
    "pds_abs t (spec_set_down k down xs)" using abs by (rule abs_set_down)
  then show "pds_abs (fst (pds_set_down k down s)) (spec_set_down k down xs)" by simp
  obtain t where "pds_del_port k s = (t, if map_of xs k = None then Some KeyError else None)"
    "pds_abs t (take_out k xs)" using abs by (rule abs_del)
  then show "pds_abs (fst (pds_del_port k s)) (take_out k xs)" by simp
  show "pds_abs (pds_add_port k down data s) (spec_add k down data xs)" using abs by (rule abs_add)
  show "pds_abs s' (spec_received k xs)" if "pds_lldp_received k s = Inr s'"
    using abs_received [OF abs, of k] that by simp
  show "pds_items s = ret xs" using abs by (rule abs_items)
qed (rule abs_empty)

section \<open>Sequences of operations\<close>

datatype pds_call =
    AddPort port_key bool bytes
  | LldpSent rat port_key
  | LldpReceived port_key
  | MoveFront port_key
  | SetDown port_key bool
  | DelPort port_key

fun do_pds :: "pds_call \<Rightarrow> pds \<Rightarrow> pds" where
  "do_pds (AddPort k down data) s = pds_add_port k down data s"
| "do_pds (LldpSent clk k) s = fst (pds_lldp_sent clk k s)"
| "do_pds (LldpReceived k) s = (case pds_lldp_received k s of Inl e \<Rightarrow> s | Inr t \<Rightarrow> t)"
| "do_pds (MoveFront k) s = fst (pds_move_front k s)"
| "do_pds (SetDown k down) s = fst (pds_set_down k down s)"
| "do_pds (DelPort k) s = fst (pds_del_port k s)"

fun spec_pds :: "pds_call \<Rightarrow> port_list \<Rightarrow> port_list" where
  "spec_pds (AddPort k down data) xs = spec_add k down data xs"
| "spec_pds (LldpSent clk k) xs = spec_sent clk k xs"
| "spec_pds (LldpReceived k) xs = spec_received k xs"
| "spec_pds (MoveFront k) xs = spec_front k xs"
| "spec_pds (SetDown k down) xs = spec_set_down k down xs"
| "spec_pds (DelPort k) xs = take_out k xs"

lemma do_pds_abs:
  assumes "pds_abs s xs"
  shows "pds_abs (do_pds c s) (spec_pds c xs)"
proof (cases c)
  case (LldpReceived k)
  then show ?thesis using abs_received [OF assms, of k] assms by (auto simp: spec_received_def split: sum.splits)
qed (use pds.rep_add [OF assms] pds.rep_sent [OF assms] pds.rep_front [OF assms] pds.rep_set_down [OF assms]
    pds.rep_del [OF assms] in simp_all)

lemma run_pds_abs: "pds_abs s xs \<Longrightarrow> pds_abs (fold do_pds cs s) (fold spec_pds cs xs)"
  by (induction cs arbitrary: s xs) (simp_all add: do_pds_abs)

end
