(* ===== verification/Lldp.thy ===== *)
theory Lldp
  imports Wire
begin

unbundle bit_operations_syntax

text \<open>
  Link layer discovery units (\<open>ryu/lib/packet/lldp.py\<close>): the ten kinds of type-length-value
  items, each with the constructor that reads it from bytes and the one that builds it from its
  fields, and the unit, whose parser turns every failure into "no object".
\<close>

section \<open>Items\<close>

datatype tlv_body =
    End
  | ChassisID nat bytes
  | PortID nat bytes
  | TTL nat
  | PortDescription bytes
  | SystemName bytes
  | SystemDescription bytes
  | SystemCapabilities nat nat
  | ManagementAddress nat nat bytes nat nat nat bytes
  | OrganizationallySpecific bytes nat bytes

record tlv =
  tlv_typelen :: nat
  tlv_len :: nat
  tlv_body :: tlv_body

fun body_type :: "tlv_body \<Rightarrow> nat" where
  "body_type End = 0"
| "body_type (ChassisID s b) = 1"
| "body_type (PortID s b) = 2"
| "body_type (TTL t) = 3"
| "body_type (PortDescription b) = 4"
| "body_type (SystemName b) = 5"
| "body_type (SystemDescription b) = 6"
| "body_type (SystemCapabilities c e) = 7"
| "body_type (ManagementAddress al ast a ist n ol oid) = 8"
| "body_type (OrganizationallySpecific oui s b) = 127"

abbreviation tlv_type :: "tlv \<Rightarrow> nat" where
  "tlv_type t \<equiv> body_type (tlv_body t)"

section \<open>Building an item\<close>

text \<open>The length that the constructor computes, and the bounds \<open>_len_valid\<close> compares it with.\<close>

fun body_len :: "tlv_body \<Rightarrow> nat" where
  "body_len End = 0"
| "body_len (ChassisID s b) = 1 + length b"
| "body_len (PortID s b) = 1 + length b"
| "body_len (TTL t) = 2"
| "body_len (PortDescription b) = length b"
| "body_len (SystemName b) = length b"
| "body_len (SystemDescription b) = length b"
| "body_len (SystemCapabilities c e) = 4"
| "body_len (ManagementAddress al ast a ist n ol oid) = 2 + al - 1 + 6 + ol"
| "body_len (OrganizationallySpecific oui s b) = 4 + length b"

fun len_bounds :: "tlv_body \<Rightarrow> nat \<times> nat" where
  "len_bounds End = (0, 511)"
| "len_bounds (ChassisID s b) = (2, 256)"
| "len_bounds (PortID s b) = (2, 256)"
| "len_bounds (TTL t) = (2, 2)"
| "len_bounds (PortDescription b) = (0, 255)"
| "len_bounds (SystemName b) = (0, 255)"
| "len_bounds (SystemDescription b) = (0, 255)"
| "len_bounds (SystemCapabilities c e) = (4, 4)"
| "len_bounds (ManagementAddress al ast a ist n ol oid) = (9, 167)"
| "len_bounds (OrganizationallySpecific oui s b) = (4, 511)"

definition len_valid :: "tlv_body \<Rightarrow> bool" where
  "len_valid b \<longleftrightarrow> fst (len_bounds b) \<le> body_len b \<and> body_len b \<le> snd (len_bounds b)"

text \<open>\<open>_addr_len_valid\<close> joins its two bounds with \<open>or\<close>.\<close>

definition addr_len_valid :: "nat \<Rightarrow> bool" where
  "addr_len_valid al \<longleftrightarrow> 1 \<le> al \<or> al \<le> 31"

definition oid_len_valid :: "nat \<Rightarrow> bool" where
  "oid_len_valid ol \<longleftrightarrow> ol \<le> 128"

fun lens_computed :: "tlv_body \<Rightarrow> bool" where
  "lens_computed (ManagementAddress al ast a ist n ol oid) \<longleftrightarrow>
     al = length a + 1 \<and> ol = length oid \<and> addr_len_valid al \<and> oid_len_valid ol"
| "lens_computed _ \<longleftrightarrow> True"

text \<open>The constructors that take fields; the end item is built without a check.\<close>

definition new_tlv :: "tlv_body \<Rightarrow> tlv res" where
  "new_tlv b =
     (if lens_computed b \<and> len_valid b
      then Inr \<lparr>tlv_typelen = push_bit 9 (body_type b) OR body_len b, tlv_len = body_len b, tlv_body = b\<rparr>
      else Inl AssertionError)"

section \<open>Reading an item\<close>

text \<open>\<open>LLDPBasicTLV.get_type\<close> and the base constructor: type and length, then the information.\<close>

definition get_tlv_type :: "bytes \<Rightarrow> nat res" where
  "get_tlv_type buf =
     (if length buf < 2 then Inl StructError else Inr (drop_bit 9 (u16_at buf 0 AND 0xfe00)))"

definition basic_tlv :: "bytes \<Rightarrow> (nat \<times> nat \<times> bytes) res" where
  "basic_tlv buf =
     (if length buf < 2 then Inl StructError
      else let typelen = u16_at buf 0; len = typelen AND 0x1ff in
        if length buf < len + 2 then Inl AssertionError
        else Inr (typelen, len, take len (drop 2 buf)))"

definition parse_management :: "bytes \<Rightarrow> tlv_body res" where
  "parse_management info =
     (if length info < 2 then Inl StructError
      else let addr_len = u8_at info 0; addr_subtype = u8_at info 1 in
        if \<not> addr_len_valid addr_len then Inl AssertionError
        else let offset = 2 + addr_len - 1; intf = slice offset (offset + 6) info in
          if length intf \<noteq> 6 then Inl StructError
          else let oid_len = u8_at intf 5 in
            if \<not> oid_len_valid oid_len then Inl AssertionError
            else Inr (ManagementAddress addr_len addr_subtype (slice 2 offset info)
                        (u8_at intf 0) (u32_at intf 1) oid_len (drop (offset + 6) info)))"

definition parse_body :: "nat \<Rightarrow> bytes \<Rightarrow> tlv_body res" where
  "parse_body ty info =
     (if ty = 0 then Inr End
      else if ty = 1 then (if length info < 1 then Inl StructError else Inr (ChassisID (u8_at info 0) (drop 1 info)))
      else if ty = 2 then (if length info < 1 then Inl StructError else Inr (PortID (u8_at info 0) (drop 1 info)))
      else if ty = 3 then (if length info < 2 then Inl StructError else Inr (TTL (u16_at info 0)))
      else if ty = 4 then Inr (PortDescription info)
      else if ty = 5 then Inr (SystemName info)
      else if ty = 6 then Inr (SystemDescription info)
      else if ty = 7 then
        (if length info < 4 then Inl StructError else Inr (SystemCapabilities (u16_at info 0) (u16_at info 2)))
      else if ty = 8 then parse_management info
      else if ty = 127 then
        (if length info < 4 then Inl StructError
         else Inr (OrganizationallySpecific (take 3 info) (u8_at info 3) (drop 4 info)))
      else Inl KeyError)"

definition parse_tlv :: "bytes \<Rightarrow> tlv res" where
  "parse_tlv buf =
     (case get_tlv_type buf of
        Inl e \<Rightarrow> Inl e
      | Inr ty \<Rightarrow>
          (case basic_tlv buf of
             Inl e \<Rightarrow> Inl e
           | Inr (typelen, len, info) \<Rightarrow>
               map_sum id (\<lambda>b. \<lparr>tlv_typelen = typelen, tlv_len = len, tlv_body = b\<rparr>) (parse_body ty info)))"

section \<open>Writing an item\<close>

definition info_fields :: "tlv_body \<Rightarrow> bytes res list" where
  "info_fields b =
     (case b of
        End \<Rightarrow> []
      | ChassisID s d \<Rightarrow> [pack_B s, Inr d]
      | PortID s d \<Rightarrow> [pack_B s, Inr d]
      | TTL t \<Rightarrow> [pack_H t]
      | PortDescription d \<Rightarrow> [Inr d]
      | SystemName d \<Rightarrow> [Inr d]
      | SystemDescription d \<Rightarrow> [Inr d]
      | SystemCapabilities c e \<Rightarrow> [pack_H c, pack_H e]
      | ManagementAddress al ast a ist n ol oid \<Rightarrow>
          [pack_B al, pack_B ast, Inr a, pack_B ist, pack_I n, pack_B ol, Inr oid]
      | OrganizationallySpecific oui s d \<Rightarrow> [Inr oui, pack_B s, Inr d])"

definition tlv_serialize :: "tlv \<Rightarrow> bytes res" where
  "tlv_serialize t = pack_all (pack_H (tlv_typelen t) # info_fields (tlv_body t))"

section \<open>The unit\<close>

text \<open>
  The loop of \<open>_parser\<close>: the items up to the end item, and the bytes behind it.  Each item takes
  at least its two header bytes, so the loop ends.
\<close>

function parse_tlvs :: "bytes \<Rightarrow> (tlv list \<times> bytes) res" where
  "parse_tlvs buf =
     (if buf = [] then Inr ([], [])
      else
        case parse_tlv buf of
          Inl e \<Rightarrow> Inl e
        | Inr t \<Rightarrow>
            let rest = drop (2 + tlv_len t) buf in
            if tlv_type t = 0 then Inr ([t], rest)
            else if rest = [] then Inl AssertionError
            else map_sum id (\<lambda>(ts, r). (t # ts, r)) (parse_tlvs rest))"
  by pat_completeness auto
termination
  by (relation "measure length") auto

definition tlvs_valid :: "tlv list \<Rightarrow> bool" where
  "tlvs_valid ts \<longleftrightarrow>
     4 \<le> length ts \<and> tlv_type (ts ! 0) = 1 \<and> tlv_type (ts ! 1) = 2 \<and> tlv_type (ts ! 2) = 3 \<and>
     tlv_type (last ts) = 0"

definition lldp_parser_raw :: "bytes \<Rightarrow> (tlv list \<times> bytes) res" where
  "lldp_parser_raw buf =
     (case parse_tlvs buf of
        Inl e \<Rightarrow> Inl e
      | Inr (ts, rest) \<Rightarrow> if tlvs_valid ts then Inr (ts, rest) else Inl AssertionError)"

text \<open>\<open>parser\<close> catches everything: no object, and the bytes it was given.\<close>

definition lldp_parser :: "bytes \<Rightarrow> tlv list option \<times> bytes" where
  "lldp_parser buf =
     (case lldp_parser_raw buf of Inl e \<Rightarrow> (None, buf) | Inr (ts, rest) \<Rightarrow> (Some ts, rest))"

definition lldp_serialize :: "tlv list \<Rightarrow> bytes res" where
  "lldp_serialize ts = pack_all (map tlv_serialize ts)"

definition lldp_len :: "tlv list \<Rightarrow> nat" where
  "lldp_len ts = sum_list (map (\<lambda>t. 2 + tlv_len t) ts)"

section \<open>Items are read back\<close>

text \<open>The fields fit their places in the frame.\<close>

fun body_fits :: "tlv_body \<Rightarrow> bool" where
  "body_fits End \<longleftrightarrow> True"
| "body_fits (ChassisID s b) \<longleftrightarrow> s < 256"
| "body_fits (PortID s b) \<longleftrightarrow> s < 256"
| "body_fits (TTL t) \<longleftrightarrow> t < 65536"
| "body_fits (PortDescription b) \<longleftrightarrow> True"
| "body_fits (SystemName b) \<longleftrightarrow> True"
| "body_fits (SystemDescription b) \<longleftrightarrow> True"
| "body_fits (SystemCapabilities c e) \<longleftrightarrow> c < 65536 \<and> e < 65536"
| "body_fits (ManagementAddress al ast a ist n ol oid) \<longleftrightarrow> al < 256 \<and> ast < 256 \<and> ist < 256 \<and> n < 4294967296 \<and> ol < 256"
| "body_fits (OrganizationallySpecific oui s b) \<longleftrightarrow> length oui = 3 \<and> s < 256"

text \<open>An item that a constructor has built and whose fields fit.\<close>

definition tlv_wf :: "tlv \<Rightarrow> bool" where
  "tlv_wf t \<longleftrightarrow> new_tlv (tlv_body t) = Inr t \<and> body_fits (tlv_body t)"

lemma body_len_bound: "len_valid b \<Longrightarrow> body_len b < 512"
  by (cases b) (auto simp: len_valid_def)

lemma body_type_bound: "body_type b < 128"
  by (cases b) auto

lemma typelen_value:
  assumes "ty < 128" and "len < (512 :: nat)"
  shows "push_bit 9 ty OR len = ty * 512 + len" "push_bit 9 ty OR len < 65536"
    "drop_bit 9 ((push_bit 9 ty OR len) AND 0xfe00) = ty" "(push_bit 9 ty OR len) AND 0x1ff = len"
proof -
  show v: "push_bit 9 ty OR len = ty * 512 + len" using or_disjoint [of len 9 ty] assms(2) by simp
  then show "push_bit 9 ty OR len < 65536" using assms by simp
  show "(push_bit 9 ty OR len) AND 0x1ff = len" using and_mask [of "ty * 512 + len" 9] assms(2) by (simp add: v)
  have "drop_bit 9 ((ty * 512 + len) AND 0xfe00) = drop_bit 9 (ty * 512 + len) AND drop_bit 9 0xfe00"
    by (rule bit_eqI) (simp add: bit_and_iff bit_drop_bit_eq)
  also have "drop_bit 9 (ty * 512 + len) = ty" using assms(2) by (simp add: drop_bit_eq_div)
  also have "drop_bit 9 (0xfe00 :: nat) = 127" by (simp add: drop_bit_eq_div)
  finally show "drop_bit 9 ((push_bit 9 ty OR len) AND 0xfe00) = ty"
    using and_mask [of ty 7] assms(1) by (simp add: v)
qed

lemma management_wf:
  assumes "al = length a + 1" and "ol = length oid" and "oid_len_valid ol" and "al < 256" and "ast < 256"
    and "ist < 256" and "n < 4294967296"
  shows "parse_management (word_of_nat al # word_of_nat ast # a @ word_of_nat ist # be32 n @ word_of_nat ol # oid) =
    Inr (ManagementAddress al ast a ist n ol oid)"
proof -
  let ?intf = "word_of_nat ist # be32 n @ [word_of_nat ol]"
  let ?info = "word_of_nat al # word_of_nat ast # a @ ?intf @ oid"
  have ol: "ol < 256" using assms(3) by (simp add: oid_len_valid_def)
  have off: "2 + al - 1 = 2 + length a" using assms(1) by simp
  have intf: "slice (2 + length a) (2 + length a + 6) ?info = ?intf"
    using slice_behind [of "word_of_nat al # word_of_nat ast # a" "2 + length a" 0 6 "?intf @ oid"]
    by (simp add: slice_def be32_def)
  have addr: "slice 2 (2 + length a) ?info = a" by (simp add: slice_def)
  have skip: "drop (length xs) (xs @ oid) = oid" for xs :: bytes by simp
  let ?pre = "word_of_nat al # word_of_nat ast # a @ ?intf"
  have pre: "?info = ?pre @ oid" and len: "2 + length a + 6 = length ?pre" by (simp_all add: be32_def)
  have rest: "drop (2 + length a + 6) ?info = oid" unfolding pre len by (rule skip)
  have head: "u8_at ?info 0 = al" "u8_at ?info 1 = ast"
    using assms(4,5) by (simp_all add: read_fields) 
  have "u8_at ?intf 0 = ist" "u32_at ?intf 1 = n" "u8_at ?intf 5 = ol"
    using assms(6,7) ol by (simp_all add: read_fields)
  moreover have "addr_len_valid al" using assms(1) by (simp add: addr_len_valid_def)
  ultimately have "parse_management ?info = Inr (ManagementAddress al ast a ist n ol oid)"
    unfolding parse_management_def Let_def head off intf addr rest using assms(3) by (simp add: be32_def)
  then show ?thesis by simp
qed

lemma body_wire:
  assumes "lens_computed b" and "len_valid b" and "body_fits b"
  obtains info where "pack_all (info_fields b) = Inr info" "length info = body_len b"
    "parse_body (body_type b) info = Inr b"
proof (cases b)
  case (ManagementAddress al ast a ist n ol oid)
  then have c: "al = length a + 1" "ol = length oid" "oid_len_valid ol" "al < 256" "ast < 256" "ist < 256"
    "n < 4294967296" "ol < 256"
    using assms by auto
  let ?info = "word_of_nat al # word_of_nat ast # a @ word_of_nat ist # be32 n @ word_of_nat ol # oid"
  have "pack_all (info_fields b) = Inr ?info" by (simp add: ManagementAddress info_fields_def c(4-8))
  moreover have "length ?info = body_len b" by (simp add: ManagementAddress c(1,2))
  moreover have "parse_body (body_type b) ?info = Inr b"
    using management_wf [OF c(1-7)] by (simp only: ManagementAddress body_type.simps) (simp add: parse_body_def)
  ultimately show thesis by (rule that)
next
  case (OrganizationallySpecific oui s d)
  then show thesis
    using assms by (intro that [of "oui @ word_of_nat s # d"])
      (simp_all add: info_fields_def parse_body_def read_fields)
qed (use assms in \<open>auto intro!: that simp: info_fields_def parse_body_def len_valid_def read_fields
    u16_at_be16 [where rest = "[]", simplified]\<close>)

lemma tlv_wire:
  assumes "tlv_wf t"
  obtains bs where "tlv_serialize t = Inr bs" "length bs = 2 + tlv_len t"
    "\<forall>rest. parse_tlv (bs @ rest) = Inr t"
proof -
  let ?b = "tlv_body t"
  have ok: "lens_computed ?b" "len_valid ?b" "body_fits ?b"
    and t: "tlv_typelen t = push_bit 9 (body_type ?b) OR body_len ?b" "tlv_len t = body_len ?b"
    using assms by (cases t; auto simp: tlv_wf_def new_tlv_def split: if_splits)+
  obtain info where info: "pack_all (info_fields ?b) = Inr info" "length info = body_len ?b"
    "parse_body (body_type ?b) info = Inr ?b" using ok by (rule body_wire)
  note v = typelen_value [OF body_type_bound body_len_bound [OF ok(2)]]
  let ?tl = "push_bit 9 (body_type ?b) OR body_len ?b"
  have "tlv_serialize t = Inr (be16 ?tl @ info)" using v(2) by (simp add: tlv_serialize_def t(1) info(1))
  moreover have "parse_tlv (be16 ?tl @ info @ rest) = Inr t" for rest
  proof -
    have u: "u16_at (be16 ?tl @ info @ rest) 0 = ?tl" using v(2) by (rule u16_at_be16)
    have "get_tlv_type (be16 ?tl @ info @ rest) = Inr (body_type ?b)" unfolding get_tlv_type_def u v(3) by simp
    moreover have "basic_tlv (be16 ?tl @ info @ rest) = Inr (?tl, body_len ?b, info)"
      unfolding basic_tlv_def Let_def u v(4) using info(2) by simp
    ultimately show ?thesis using t info(3) by (cases t) (simp add: parse_tlv_def)
  qed
  ultimately show thesis using info(2) t(2) by (intro that [of "be16 ?tl @ info"]) simp_all
qed

section \<open>The unit is read back\<close>

lemma parse_tlvs_step:
  assumes "\<forall>rest. parse_tlv (bs @ rest) = Inr t" and "length bs = 2 + tlv_len t"
  shows "parse_tlvs (bs @ rest) =
    (if tlv_type t = 0 then Inr ([t], rest)
     else if rest = [] then Inl AssertionError
     else map_sum id (\<lambda>(ts, r). (t # ts, r)) (parse_tlvs rest))"
proof -
  have ne: "bs @ rest \<noteq> []" using assms(2) by auto
  have p: "parse_tlv (bs @ rest) = Inr t" using assms(1) by blast
  have d: "drop (2 + tlv_len t) (bs @ rest) = rest" unfolding assms(2) [symmetric] by simp
  show ?thesis unfolding parse_tlvs.simps [of "bs @ rest"] p Let_def sum.case d using ne by (simp only: if_False)
qed

lemma tlv_serialize_not_Nil: "tlv_serialize t = Inr bs \<Longrightarrow> bs \<noteq> []"
  by (auto simp: tlv_serialize_def pack_H_def be16_def split: if_splits sum.splits)

lemma parse_tlvs_wire:
  assumes "\<forall>t\<in>set ts. tlv_wf t \<and> tlv_type t \<noteq> 0" and "tlv_wf e" and "tlv_type e = 0"
  shows "\<exists>bs. pack_all (map tlv_serialize (ts @ [e])) = Inr bs \<and> bs \<noteq> [] \<and>
    length bs = lldp_len (ts @ [e]) \<and> (\<forall>rest. parse_tlvs (bs @ rest) = Inr (ts @ [e], rest))"
  using assms(1)
proof (induction ts)
  case Nil
  obtain b where b: "tlv_serialize e = Inr b" "length b = 2 + tlv_len e" "\<forall>rest. parse_tlv (b @ rest) = Inr e"
    using assms(2) by (rule tlv_wire)
  then show ?case
    using tlv_serialize_not_Nil [OF b(1)] assms(3) parse_tlvs_step [OF b(3,2)]
    by (simp add: lldp_len_def del: parse_tlvs.simps)
next
  case (Cons t ts)
  then obtain bs where bs: "pack_all (map tlv_serialize (ts @ [e])) = Inr bs" "bs \<noteq> []"
    "length bs = lldp_len (ts @ [e])" "\<forall>rest. parse_tlvs (bs @ rest) = Inr (ts @ [e], rest)" by auto
  obtain b where b: "tlv_serialize t = Inr b" "length b = 2 + tlv_len t" "\<forall>rest. parse_tlv (b @ rest) = Inr t"
    using Cons.prems by (auto elim: tlv_wire)
  have "parse_tlvs (b @ bs @ rest) = Inr ((t # ts) @ [e], rest)" for rest
    using Cons.prems bs(2,4) parse_tlvs_step [OF b(3,2), of "bs @ rest"] by (simp del: parse_tlvs.simps)
  then show ?case
    using b(1,2) bs(1-3) by (intro exI [of _ "b @ bs"]) (simp add: lldp_len_def del: parse_tlvs.simps)
qed

definition lldp_wf :: "tlv list \<Rightarrow> bytes \<Rightarrow> bool" where
  "lldp_wf ts payload \<longleftrightarrow>
     tlvs_valid ts \<and> (\<forall>t\<in>set ts. tlv_wf t) \<and> (\<forall>t\<in>set (butlast ts). tlv_type t \<noteq> 0)"

lemma lldp_wire:
  assumes "lldp_wf ts payload"
  obtains bs where "lldp_serialize ts = Inr bs" "length bs = lldp_len ts" "bs \<noteq> []"
    "lldp_parser (bs @ rest) = (Some ts, rest)" "lldp_parser_raw (bs @ rest) = Inr (ts, rest)"
proof -
  from assms have v: "tlvs_valid ts" and ne: "ts \<noteq> []" and wf: "\<forall>t\<in>set ts. tlv_wf t" "\<forall>t\<in>set (butlast ts). tlv_type t \<noteq> 0"
    by (auto simp: lldp_wf_def tlvs_valid_def)
  have ts: "butlast ts @ [last ts] = ts" using ne by simp
  have "\<forall>t\<in>set (butlast ts). tlv_wf t \<and> tlv_type t \<noteq> 0" using wf by (auto dest: in_set_butlastD)
  moreover have "tlv_wf (last ts)" "tlv_type (last ts) = 0" using v ne wf(1) by (auto simp: tlvs_valid_def)
  ultimately obtain bs where bs: "pack_all (map tlv_serialize ts) = Inr bs" "bs \<noteq> []" "length bs = lldp_len ts"
    "\<forall>rest. parse_tlvs (bs @ rest) = Inr (ts, rest)"
    using parse_tlvs_wire [of "butlast ts" "last ts"] unfolding ts by blast
  have "parse_tlvs (bs @ rest) = Inr (ts, rest)" using bs(4) by blast
  then show thesis
    using v bs(1-3) by (intro that [of bs]) (simp_all add: lldp_serialize_def lldp_parser_def lldp_parser_raw_def del: parse_tlvs.simps)
qed

interpretation lldp_codec: codec lldp_wf "\<lambda>ts _. lldp_serialize ts" "\<lambda>ts _. ts" lldp_parser_raw
  by unfold_locales (metis lldp_wire, metis lldp_wire sum.inject(2))

end
