(* ===== verification/Topo_Lldp.thy ===== *)
theory Topo_Lldp
  imports Lldp Py_Hex Sample_Frames
begin

text \<open>
  \<open>LLDPPacket\<close> of \<open>ryu/topology/switches.py\<close>: the frame that announces a port of a switch, and
  what the controller reads back when the frame arrives at another switch.
\<close>

section \<open>Text\<close>

definition ascii :: "string \<Rightarrow> bytes" where
  "ascii s = map (\<lambda>c. word_of_nat (of_char c)) s"

definition dpid_to_str :: "nat \<Rightarrow> string" where
  "dpid_to_str dpid = hex_padded 16 dpid"

definition str_to_dpid :: "string \<Rightarrow> int res" where
  "str_to_dpid s =
     (if length s \<noteq> 16 then Inl AssertionError
      else case py_int16 s of None \<Rightarrow> Inl (ValueError '''') | Some n \<Rightarrow> Inr n)"

text \<open>\<open>bytes.decode('utf-8')\<close>: the code points, or nothing when the bytes are not well-formed.\<close>

definition utf8_cont :: "byte \<Rightarrow> bool" where
  "utf8_cont b \<longleftrightarrow> 0x80 \<le> unat b \<and> unat b \<le> 0xbf"

definition utf8_second :: "nat \<Rightarrow> byte \<Rightarrow> bool" where
  "utf8_second lead b \<longleftrightarrow>
     (if lead = 0xe0 then 0xa0 else if lead = 0xf0 then 0x90 else 0x80) \<le> unat b \<and>
     unat b \<le> (if lead = 0xed then 0x9f else if lead = 0xf4 then 0x8f else 0xbf)"

fun utf8_decode :: "bytes \<Rightarrow> nat list option" where
  "utf8_decode [] = Some []"
| "utf8_decode (a # r) =
     (let n = unat a in
      if n < 0x80 then map_option (Cons n) (utf8_decode r)
      else if 0xc2 \<le> n \<and> n \<le> 0xdf then
        (case r of
           b # r1 \<Rightarrow>
             if utf8_cont b then map_option (Cons ((n - 0xc0) * 64 + (unat b - 0x80))) (utf8_decode r1) else None
         | _ \<Rightarrow> None)
      else if 0xe0 \<le> n \<and> n \<le> 0xef then
        (case r of
           b # c # r2 \<Rightarrow>
             if utf8_second n b \<and> utf8_cont c
             then map_option (Cons ((n - 0xe0) * 4096 + (unat b - 0x80) * 64 + (unat c - 0x80))) (utf8_decode r2)
             else None
         | _ \<Rightarrow> None)
      else if 0xf0 \<le> n \<and> n \<le> 0xf4 then
        (case r of
           b # c # d # r3 \<Rightarrow>
             if utf8_second n b \<and> utf8_cont c \<and> utf8_cont d
             then map_option (Cons ((n - 0xf0) * 262144 + (unat b - 0x80) * 4096 + (unat c - 0x80) * 64 + (unat d - 0x80)))
                    (utf8_decode r3)
             else None
         | _ \<Rightarrow> None)
      else None)"

text \<open>
  \<open>int\<close> replaces the code points above 127 before it reads a number: decimal digits of other
  scripts by ASCII digits, spaces by a space, everything else by a question mark.  This part of
  the Unicode tables is the parameter \<open>uni\<close>.
\<close>

definition to_ascii :: "(nat \<Rightarrow> char) \<Rightarrow> nat list \<Rightarrow> string" where
  "to_ascii uni cps = map (\<lambda>n. if n < 128 then char_of n else uni n) cps"

section \<open>The frame\<close>

definition LLDP_MAC_NEAREST_BRIDGE :: string where
  "LLDP_MAC_NEAREST_BRIDGE = ''01:80:c2:00:00:0e''"

definition CHASSIS_ID_PREFIX :: string where
  "CHASSIS_ID_PREFIX = ''dpid:''"

definition chassis_id_of :: "nat \<Rightarrow> bytes" where
  "chassis_id_of dpid = ascii (CHASSIS_ID_PREFIX @ dpid_to_str dpid)"

fun all_res :: "'a res list \<Rightarrow> 'a list res" where
  "all_res [] = Inr []"
| "all_res (r # rs) = (case r of Inl e \<Rightarrow> Inl e | Inr x \<Rightarrow> map_sum id (Cons x) (all_res rs))"

definition lldp_tlvs :: "nat \<Rightarrow> nat \<Rightarrow> nat \<Rightarrow> tlv list res" where
  "lldp_tlvs dpid port_no t =
     all_res [new_tlv (ChassisID 7 (chassis_id_of dpid)),
       (case pack_I port_no of Inl e \<Rightarrow> Inl e | Inr b \<Rightarrow> new_tlv (PortID 2 b)),
       new_tlv (TTL t), new_tlv End]"

definition lldp_packet :: "addrconv \<Rightarrow> nat \<Rightarrow> nat \<Rightarrow> string \<Rightarrow> nat \<Rightarrow> bytes res" where
  "lldp_packet ac dpid port_no dl_addr t =
     (case lldp_tlvs dpid port_no t of
        Inl e \<Rightarrow> Inl e
      | Inr ts \<Rightarrow>
          (case lldp_serialize ts of
             Inl e \<Rightarrow> Inl e
           | Inr data \<Rightarrow>
               map_sum id (\<lambda>(hdr, payload). hdr @ payload)
                 (ethernet_serialize ac
                    \<lparr>eth_dst = LLDP_MAC_NEAREST_BRIDGE, eth_src = dl_addr, ethertype = 0x88cc\<rparr> data)))"

section \<open>Reading it\<close>

definition lldp_parsers :: "other_parsers \<Rightarrow> other_parsers" where
  "lldp_parsers oth n buf =
     (if n = ''lldp'' then
        (case lldp_parser buf of
           (Some ts, rest) \<Rightarrow> ret (Some (POther ''lldp'' (lldp_len ts) buf), None, rest)
         | (None, rest) \<Rightarrow> ret (None, None, rest))
      else oth n buf)"

definition LLDPUnknownFormat :: py_exn where
  "LLDPUnknownFormat = OtherError ''LLDPUnknownFormat''"

text \<open>\<open>tlv.subtype\<close> of an item that has one, and the bytes after it.\<close>

fun chassis_item :: "tlv_body \<Rightarrow> (nat \<times> bytes) res" where
  "chassis_item (ChassisID s b) = Inr (s, b)"
| "chassis_item _ = Inl AttributeError"

fun port_item :: "tlv_body \<Rightarrow> (nat \<times> bytes) res" where
  "port_item (PortID s b) = Inr (s, b)"
| "port_item _ = Inl AttributeError"

definition read_chassis :: "(nat \<Rightarrow> char) \<Rightarrow> tlv \<Rightarrow> int res" where
  "read_chassis uni t =
     (case chassis_item (tlv_body t) of
        Inl e \<Rightarrow> Inl e
      | Inr (subtype, b) \<Rightarrow>
          if subtype \<noteq> 7 then Inl LLDPUnknownFormat
          else
            case utf8_decode b of
              None \<Rightarrow> Inl (OtherError ''UnicodeDecodeError'')
            | Some cps \<Rightarrow>
                if take 5 cps \<noteq> map of_char CHASSIS_ID_PREFIX then Inl LLDPUnknownFormat
                else str_to_dpid (to_ascii uni (drop 5 cps)))"

text \<open>The message of the last error formats the bytes with \<open>%d\<close>, which raises itself.\<close>

definition read_port :: "tlv \<Rightarrow> nat res" where
  "read_port t =
     (case port_item (tlv_body t) of
        Inl e \<Rightarrow> Inl e
      | Inr (subtype, b) \<Rightarrow>
          if subtype \<noteq> 2 then Inl LLDPUnknownFormat
          else if length b \<noteq> 4 then Inl TypeError
          else Inr (u32_at b 0))"

definition read_tlvs :: "(nat \<Rightarrow> char) \<Rightarrow> tlv list \<Rightarrow> (int \<times> nat) res" where
  "read_tlvs uni ts =
     (case read_chassis uni (ts ! 0) of
        Inl e \<Rightarrow> Inl e
      | Inr dpid \<Rightarrow> map_sum id (\<lambda>port_no. (dpid, port_no)) (read_port (ts ! 1)))"

definition lldp_parse :: "addrconv \<Rightarrow> (nat \<Rightarrow> char) \<Rightarrow> other_parsers \<Rightarrow> bytes \<Rightarrow> (int \<times> nat) run" where
  "lldp_parse ac uni oth data =
     run_bind (Packet ac (lldp_parsers oth) data) (\<lambda>pkt.
       case pkt of
         [] \<Rightarrow> raise (OtherError ''StopIteration'')
       | PEthernet e # rest \<Rightarrow>
           (case rest of
              [] \<Rightarrow> raise (OtherError ''StopIteration'')
            | POther n l buf # _ \<Rightarrow>
                (if n = ''lldp'' then
                   (case lldp_parser buf of
                      (Some ts, _) \<Rightarrow> lift_res (read_tlvs uni ts)
                    | (None, _) \<Rightarrow> raise LLDPUnknownFormat)
                 else raise LLDPUnknownFormat)
            | _ \<Rightarrow> raise LLDPUnknownFormat)
       | _ \<Rightarrow> raise AssertionError)"

section \<open>What is sent is read back\<close>

lemma utf8_ascii: "list_all (\<lambda>c. (of_char c :: nat) < 128) s \<Longrightarrow> utf8_decode (ascii s) = Some (map of_char s)"
  by (induction s) (auto simp: ascii_def)

lemma hex_ascii: "is_hex c \<Longrightarrow> (of_char c :: nat) < 128"
  by (auto simp: is_hex_def hex_value_def Let_def split: if_splits)

lemma to_ascii_chars: "list_all (\<lambda>c. (of_char c :: nat) < 128) s \<Longrightarrow> to_ascii uni (map of_char s) = s"
  by (induction s) (auto simp: to_ascii_def)

lemma dpid_ascii: "list_all (\<lambda>c. (of_char c :: nat) < 128) (dpid_to_str d)"
  using hex_padded_hex hex_ascii by (auto simp: dpid_to_str_def list_all_iff)

lemma prefix_ascii: "list_all (\<lambda>c. (of_char c :: nat) < 128) CHASSIS_ID_PREFIX" "length CHASSIS_ID_PREFIX = 5"
  by (simp_all add: CHASSIS_ID_PREFIX_def)

lemma str_to_dpid_str: "d < 2 ^ 64 \<Longrightarrow> str_to_dpid (dpid_to_str d) = Inr (int d)"
  using length_hex_padded [of 16 d] by (simp add: str_to_dpid_def dpid_to_str_def py_int16_padded)

lemma chassis_text:
  assumes "d < 2 ^ 64" and "tlv_body t = ChassisID 7 (chassis_id_of d)"
  shows "read_chassis uni t = Inr (int d)"
proof -
  let ?s = "CHASSIS_ID_PREFIX @ dpid_to_str d"
  have "list_all (\<lambda>c. (of_char c :: nat) < 128) ?s" using dpid_ascii prefix_ascii by simp
  then have dec: "utf8_decode (chassis_id_of d) = Some (map of_char ?s)" unfolding chassis_id_of_def by (rule utf8_ascii)
  have "take 5 (map of_char ?s) = (map of_char CHASSIS_ID_PREFIX :: nat list)"
    "drop 5 (map of_char ?s) = (map of_char (dpid_to_str d) :: nat list)"
    using prefix_ascii(2) by simp_all
  then show ?thesis
    using str_to_dpid_str [OF assms(1)] to_ascii_chars [OF dpid_ascii]
    by (simp only: read_chassis_def assms(2) chassis_item.simps sum.case prod.case dec option.case) simp
qed

lemma port_text:
  assumes "n < 2 ^ 32" and "tlv_body t = PortID 2 (be32 n)"
  shows "read_port t = Inr n"
  using assms u32_at_be32 [of n "[]"] by (simp add: read_port_def)

lemma dpid_text_length: "d < 2 ^ 64 \<Longrightarrow> length (chassis_id_of d) = 21"
  using length_hex_padded [of 16 d] prefix_ascii(2) by (simp add: chassis_id_of_def ascii_def dpid_to_str_def)

text \<open>The four items of the unit are built, and are what the decoder reads.\<close>

lemma lldp_tlvs_ok:
  assumes "d < 2 ^ 64" and "n < 2 ^ 32" and "t < 65536"
  obtains ts where "lldp_tlvs d n t = Inr ts" "lldp_wf ts []" "lldp_len ts = 37" "read_tlvs uni ts = Inr (int d, n)"
proof -
  let ?tl = "\<lambda>b. \<lparr>tlv_typelen = push_bit 9 (body_type b) OR body_len b, tlv_len = body_len b, tlv_body = b\<rparr>"
  let ?ts = "map ?tl [ChassisID 7 (chassis_id_of d), PortID 2 (be32 n), TTL t, End]"
  note len = dpid_text_length [OF assms(1)]
  have new: "new_tlv b = Inr (?tl b)" if "b \<in> {ChassisID 7 (chassis_id_of d), PortID 2 (be32 n), TTL t, End}" for b
    using that len by (auto simp: new_tlv_def len_valid_def)
  have "lldp_tlvs d n t = Inr ?ts"
    using assms(2) by (simp add: lldp_tlvs_def new pack_I_def)
  moreover have "lldp_wf ?ts []"
    using assms(3) by (auto simp: lldp_wf_def tlvs_valid_def tlv_wf_def new)
  moreover have "lldp_len ?ts = 37" by (simp add: lldp_len_def len)
  moreover have "read_tlvs uni ?ts = Inr (int d, n)"
    using chassis_text [OF assms(1), of "?ts ! 0"] port_text [OF assms(2), of "?ts ! 1"] by (simp add: read_tlvs_def)
  ultimately show thesis by (rule that)
qed

definition lldp_headers :: "addrconv \<Rightarrow> bytes \<Rightarrow> bytes \<Rightarrow> ethernet" where
  "lldp_headers ac g s = \<lparr>eth_dst = mac_to_text ac g, eth_src = mac_to_text ac s, ethertype = 0x88cc\<rparr>"

lemma parse_lldp_frame:
  assumes "length g = 6" and "length s = 6" and "\<not> all_zero bs" and "lldp_parser bs = (Some ts, rest)"
    and "all_zero rest" and "lldp_len ts \<noteq> 0"
  shows "Packet ac (lldp_parsers oth) (g @ s @ be16 0x88cc @ bs) =
    ret [PEthernet (lldp_headers ac g s), POther ''lldp'' (lldp_len ts) bs]"
proof -
  let ?P = "parser_loop ac (lldp_parsers oth)"
  have nz: "\<not> all_zero (g @ s @ be16 0x88cc @ bs)" using assms(3) by (simp add: all_zero_append)
  have eth: "ethernet_parser ac (g @ s @ be16 0x88cc @ bs) = Inr (lldp_headers ac g s, bs)"
    using assms(1,2) u16_at_append [of "g @ s" 12 "be16 0x88cc @ bs"] u16_at_be16 [of "0x88cc" bs]
    by (simp add: ethernet_parser_def lldp_headers_def slice_def)
  have ty: "get_ether_type 0x88cc = Some (COther ''lldp'')"
    by (simp add: get_ether_type_def get_packet_type_def packet_types_def)
  have "Packet ac (lldp_parsers oth) (g @ s @ be16 0x88cc @ bs) = ?P (Some CEthernet) (g @ s @ be16 0x88cc @ bs) []"
    using assms(1) by (intro Packet_start) auto
  also have "\<dots> = ?P (Some (COther ''lldp'')) bs (add_proto [] (Some (PEthernet (lldp_headers ac g s))))"
    by (rule parser_loop_step [OF nz]) (simp add: eth parsed_of_def lldp_headers_def ty ret_def)
  also have "\<dots> = ?P None rest (add_proto (add_proto [] (Some (PEthernet (lldp_headers ac g s))))
      (Some (POther ''lldp'' (lldp_len ts) bs)))"
    by (rule parser_loop_step [OF assms(3)]) (simp add: lldp_parsers_def assms(4) ret_def)
  also have "\<dots> = ret [PEthernet (lldp_headers ac g s), POther ''lldp'' (lldp_len ts) bs]"
    using assms(5,6) by (simp add: parser_loop_done with_rest_def add_proto_def ret_def)
  finally show ?thesis .
qed

lemma lldp_parser_zero:
  assumes "all_zero bs"
  shows "lldp_parser bs = (None, bs)"
proof -
  have u: "u16_at bs 0 = 0" if "2 \<le> length bs"
    using that all_zero_nth [OF assms, of 0] all_zero_nth [OF assms, of 1] by (cases bs; cases "tl bs") (auto simp: u16_at_def)
  have "parse_tlvs bs = Inr ([], []) \<or> (\<exists>e. parse_tlvs bs = Inl e) \<or> (\<exists>t r. parse_tlvs bs = Inr ([t], r))"
  proof (cases "parse_tlv bs")
    case (Inr t)
    then have "tlv_body t = End"
      using u by (auto simp: parse_tlv_def get_tlv_type_def parse_body_def split: if_splits sum.splits)
    then show ?thesis using Inr by (simp add: Let_def)
  qed simp
  then show ?thesis by (auto simp: lldp_parser_def lldp_parser_raw_def tlvs_valid_def simp del: parse_tlvs.simps)
qed

section \<open>The frame is read back\<close>

lemma lldp_frame_read:
  assumes "d < 2 ^ 64" and "n < 2 ^ 32" and "t < 65536"
    and "mac_text_of ac LLDP_MAC_NEAREST_BRIDGE g" and "mac_text_of ac dl_addr s"
  obtains frame where "lldp_packet ac d n dl_addr t = Inr frame" "length frame = 60"
    "lldp_parse ac uni oth frame = ret (int d, n)"
proof -
  obtain ts where ts: "lldp_tlvs d n t = Inr ts" "lldp_wf ts []" "lldp_len ts = 37" "read_tlvs uni ts = Inr (int d, n)"
    using assms(1-3) by (rule lldp_tlvs_ok)
  obtain bs where bs: "lldp_serialize ts = Inr bs" "length bs = 37"
    "lldp_parser (bs @ replicate 9 0) = (Some ts, replicate 9 0)"
    using ts(2,3) by (metis lldp_wire)
  let ?data = "bs @ replicate 9 0"
  have mac: "mac_to_bin ac LLDP_MAC_NEAREST_BRIDGE = Inr g" "length g = 6" "mac_to_bin ac dl_addr = Inr s" "length s = 6"
    using assms(4,5) by (simp_all add: mac_text_of_def)
  have "lldp_packet ac d n dl_addr t = Inr (g @ s @ be16 0x88cc @ ?data)"
    using bs(2) by (simp add: lldp_packet_def ts(1) bs(1) ethernet_serialize_def mac(1,3) Let_def)
  moreover have "\<not> all_zero ?data" using lldp_parser_zero [of ?data] bs(3) by auto
  then have "Packet ac (lldp_parsers oth) (g @ s @ be16 0x88cc @ ?data) =
      ret [PEthernet (lldp_headers ac g s), POther ''lldp'' (lldp_len ts) ?data]"
    by (rule parse_lldp_frame [OF mac(2,4) _ bs(3)]) (simp_all add: all_zero_simps ts(3))
  then have "lldp_parse ac uni oth (g @ s @ be16 0x88cc @ ?data) = ret (int d, n)"
    by (simp add: lldp_parse_def bs(3) ts(4) lift_res_def ret_def)
  moreover have "length (g @ s @ be16 0x88cc @ ?data) = 60" using mac(2,4) bs(2) by (simp add: be16_def)
  ultimately show thesis using that by blast
qed

end
