(* ===== verification/Ipv6.thy ===== *)
theory Ipv6
  imports Wire
begin

text \<open>
  \<open>ryu/lib/packet/ipv6.py\<close>: the IPv6 header and its extension headers (hop-by-hop and destination
  options, source routes of type 3, fragments, authentication).  The conversion of addresses
  (\<open>addrconv.ipv6\<close>, that is \<open>netaddr\<close>) is the parameter \<open>a6\<close>.
\<close>

section \<open>Addresses\<close>

record addr6 =
  ip6_to_text :: "bytes \<Rightarrow> string"
  ip6_to_bin :: "string \<Rightarrow> bytes res"

definition ip6_text_of :: "addr6 \<Rightarrow> string \<Rightarrow> bytes \<Rightarrow> bool" where
  "ip6_text_of a6 t b \<longleftrightarrow> length b = 16 \<and> ip6_to_bin a6 t = Inr b \<and> ip6_to_text a6 b = t"

text \<open>\<open>struct.pack('%ds' % n, b)\<close> cuts or fills with zeros.\<close>

definition pack_s :: "nat \<Rightarrow> bytes \<Rightarrow> bytes" where
  "pack_s n b = take n b @ replicate (n - length b) 0"

section \<open>Options\<close>

text \<open>The length of an option of type 0 is \<open>-1\<close>; an option of length 0 or \<open>-1\<close> has no data.\<close>

record ip6_option =
  opt_type :: nat
  opt_len :: int
  opt_data :: "bytes option"

definition ip6_option_parser :: "bytes \<Rightarrow> ip6_option res" where
  "ip6_option_parser buf =
     (if length buf < 1 then Inl StructError
      else if u8_at buf 0 = 0 then Inr \<lparr>opt_type = 0, opt_len = - 1, opt_data = None\<rparr>
      else if length buf < 2 then Inl StructError
      else
        let n = u8_at buf 1 in
        if n = 0 then Inr \<lparr>opt_type = u8_at buf 0, opt_len = 0, opt_data = None\<rparr>
        else if length buf < 2 + n then Inl StructError
        else Inr \<lparr>opt_type = u8_at buf 0, opt_len = int n, opt_data = Some (slice 2 (2 + n) buf)\<rparr>)"

definition ip6_option_serialize :: "ip6_option \<Rightarrow> bytes res" where
  "ip6_option_serialize p =
     (if opt_type p = 0 then Inr [0]
      else if opt_len p = 0 then pack_all [pack_B (opt_type p), pack_B 0]
      else if opt_len p < 0 then Inl StructError
      else pack_all [pack_B (opt_type p), pack_B (nat (opt_len p)),
             (case opt_data p of None \<Rightarrow> Inl StructError | Some d \<Rightarrow> Inr (pack_s (nat (opt_len p)) d))])"

definition ip6_option_size :: "ip6_option \<Rightarrow> nat" where
  "ip6_option_size p = nat (2 + opt_len p)"

section \<open>Extension headers\<close>

datatype ext_hdr =
    HopOpts (ext_nxt: nat) nat "ip6_option list option"
  | DstOpts (ext_nxt: nat) nat "ip6_option list option"
  | Routing3 (ext_nxt: nat) nat nat nat nat nat "string list"
  | Fragment (ext_nxt: nat) nat nat nat
  | Auth (ext_nxt: nat) nat nat nat bytes

definition rt_pad :: "nat \<Rightarrow> nat \<Rightarrow> string list \<Rightarrow> nat" where
  "rt_pad cmpi cmpe adrs =
     nat ((8 - ((int (length adrs) - 1) * (16 - int cmpi) + (16 - int cmpe) mod 8)) mod 8)"

definition rt_size :: "nat \<Rightarrow> nat \<Rightarrow> string list \<Rightarrow> int" where
  "rt_size cmpi cmpe adrs =
     ((int (length adrs) - 1) * (16 - int cmpi) + (16 - int cmpe) + int (rt_pad cmpi cmpe adrs)) div 8"

fun ext_len :: "ext_hdr \<Rightarrow> nat" where
  "ext_len (HopOpts n sz d) = 8 + sz"
| "ext_len (DstOpts n sz d) = 8 + sz"
| "ext_len (Routing3 n sz t s ci ce ads) = (sz + 1) * 8"
| "ext_len (Fragment n off mf i) = 8"
| "ext_len (Auth n sz spi sq d) = (sz + 2) * 4"

text \<open>The loop of \<open>opt_header.parser\<close>: \<open>size\<close> bytes of the header are read.\<close>

lemma ip6_option_parser_size:
  "ip6_option_parser b = Inr p \<Longrightarrow> 0 < ip6_option_size p"
  by (auto simp: ip6_option_parser_def ip6_option_size_def Let_def split: if_splits)

function parse_opts :: "nat \<Rightarrow> nat \<Rightarrow> bytes \<Rightarrow> ip6_option list res" where
  "parse_opts pos data_len buf =
     (if pos < data_len then
        (case ip6_option_parser (drop pos buf) of
           Inl e \<Rightarrow> Inl e
         | Inr p \<Rightarrow> map_sum id (Cons p) (parse_opts (pos + ip6_option_size p) data_len buf))
      else Inr [])"
  by pat_completeness auto

termination
  by (relation "measure (\<lambda>(pos, data_len, buf). data_len - pos)") (auto dest: ip6_option_parser_size)

declare parse_opts.simps [simp del]

definition opt_header_parser ::
  "(nat \<Rightarrow> nat \<Rightarrow> ip6_option list option \<Rightarrow> ext_hdr) \<Rightarrow> bytes \<Rightarrow> ext_hdr res" where
  "opt_header_parser con buf =
     (if length buf < 2 then Inl StructError
      else
        let n = u8_at buf 1 in
        case parse_opts 2 (8 + n) buf of
          Inl e \<Rightarrow> Inl e
        | Inr ps \<Rightarrow> if n mod 8 = 0 then Inr (con (u8_at buf 0) n (Some ps)) else Inl AssertionError)"

text \<open>The addresses of a source route: all but the last lose \<open>cmpi\<close> bytes, the last \<open>cmpe\<close>.\<close>

function parse_adrs :: "addr6 \<Rightarrow> nat \<Rightarrow> nat \<Rightarrow> nat \<Rightarrow> nat \<Rightarrow> bytes \<Rightarrow> string list res" where
  "parse_adrs a6 cmpi cmpe stop data buf =
     (if cmpi < 16 \<and> data < stop then
        (if length buf < data + (16 - cmpi) then Inl StructError
         else map_sum id (Cons (ip6_to_text a6 (replicate cmpi 0 @ slice data (data + (16 - cmpi)) buf)))
                (parse_adrs a6 cmpi cmpe stop (data + (16 - cmpi)) buf))
      else if length buf < data + (16 - cmpe) then Inl StructError
      else Inr [ip6_to_text a6 (replicate cmpe 0 @ slice data (data + (16 - cmpe)) buf)])"
  by pat_completeness auto

termination
  by (relation "measure (\<lambda>(a6, cmpi, cmpe, stop, data, buf). stop - data)") auto

declare parse_adrs.simps [simp del]

definition routing_type3_parser :: "addr6 \<Rightarrow> bytes \<Rightarrow> ext_hdr res" where
  "routing_type3_parser a6 buf =
     (if length buf < 8 then Inl StructError
      else
        let sz = u8_at buf 1; cmpi = drop_bit 4 (u8_at buf 4); cmpe = u8_at buf 4 AND 15;
            pad = drop_bit 4 (u8_at buf 5) in
        map_sum id (Routing3 (u8_at buf 0) sz (u8_at buf 2) (u8_at buf 3) cmpi cmpe)
          (if sz = 0 then Inr [] else parse_adrs a6 cmpi cmpe ((sz + 1) * 8 - ((16 - cmpe) + pad)) 8 buf))"

text \<open>
  \<open>routing.parser\<close> returns no header for the other types, and the caller takes its length.
\<close>

definition routing_parser :: "addr6 \<Rightarrow> bytes \<Rightarrow> ext_hdr res" where
  "routing_parser a6 buf =
     (if length buf < 3 then Inl StructError
      else if u8_at buf 2 = 3 then routing_type3_parser a6 buf
      else Inl TypeError)"

definition fragment_parser :: "bytes \<Rightarrow> ext_hdr res" where
  "fragment_parser buf =
     (if length buf < 8 then Inl StructError
      else Inr (Fragment (u8_at buf 0) (drop_bit 3 (u16_at buf 2)) (u16_at buf 2 AND 1) (u32_at buf 4)))"

definition auth_parser :: "bytes \<Rightarrow> ext_hdr res" where
  "auth_parser buf =
     (if length buf < 12 then Inl StructError
      else
        let sz = u8_at buf 1 in
        if (sz + 2) * 4 < 12 \<or> length buf < (sz + 2) * 4 then Inl StructError
        else Inr (Auth (u8_at buf 0) sz (u32_at buf 4) (u32_at buf 8) (slice 12 ((sz + 2) * 4) buf)))"

text \<open>\<open>_IPV6_EXT_HEADER_TYPE\<close>.\<close>

definition ext_parser :: "addr6 \<Rightarrow> nat \<Rightarrow> (bytes \<Rightarrow> ext_hdr res) option" where
  "ext_parser a6 t =
     (if t = 0 then Some (opt_header_parser HopOpts)
      else if t = 60 then Some (opt_header_parser DstOpts)
      else if t = 43 then Some (routing_parser a6)
      else if t = 44 then Some fragment_parser
      else if t = 51 then Some auth_parser
      else None)"

section \<open>Writing extension headers\<close>

fun opts_serialize :: "ip6_option list \<Rightarrow> bytes res" where
  "opts_serialize [] = Inr []"
| "opts_serialize (p # ps) =
     (case ip6_option_serialize p of Inl e \<Rightarrow> Inl e | Inr b \<Rightarrow> map_sum id (append b) (opts_serialize ps))"

definition opts_filled :: "ip6_option list option \<Rightarrow> ip6_option list" where
  "opts_filled data =
     (case data of None \<Rightarrow> [\<lparr>opt_type = 1, opt_len = 4, opt_data = Some [0, 0, 0, 0]\<rparr>] | Some ps \<Rightarrow> ps)"

lemma opts_filled_Some [simp]: "opts_filled (Some ps) = ps"
  by (simp add: opts_filled_def)

definition opt_header_serialize :: "nat \<Rightarrow> nat \<Rightarrow> ip6_option list option \<Rightarrow> bytes res" where
  "opt_header_serialize nxt sz data =
     (case pack_all [pack_B nxt, pack_B sz] of
        Inl e \<Rightarrow> Inl e
      | Inr b \<Rightarrow> map_sum id (append b) (opts_serialize (opts_filled data)))"

fun adrs_serialize :: "addr6 \<Rightarrow> nat \<Rightarrow> nat \<Rightarrow> string list \<Rightarrow> bytes res" where
  "adrs_serialize a6 cmpi cmpe [] = Inl IndexError"
| "adrs_serialize a6 cmpi cmpe [a] =
     (case ip6_to_bin a6 a of Inl e \<Rightarrow> Inl e | Inr b \<Rightarrow> Inr (pack_s (16 - cmpe) (slice cmpe 16 b)))"
| "adrs_serialize a6 cmpi cmpe (a # as) =
     (case ip6_to_bin a6 a of
        Inl e \<Rightarrow> Inl e
      | Inr b \<Rightarrow> map_sum id (append (pack_s (16 - cmpi) (slice cmpi 16 b))) (adrs_serialize a6 cmpi cmpe as))"

definition pack_int_B :: "int \<Rightarrow> bytes res" where
  "pack_int_B n = (if 0 \<le> n then pack_B (nat n) else Inl StructError)"

definition routing_type3_serialize ::
  "addr6 \<Rightarrow> nat \<Rightarrow> nat \<Rightarrow> nat \<Rightarrow> nat \<Rightarrow> nat \<Rightarrow> nat \<Rightarrow> string list \<Rightarrow> bytes res" where
  "routing_type3_serialize a6 nxt size0 ty seg cmpi cmpe adrs =
     (let sz = (if size0 = 0 then rt_size cmpi cmpe adrs else int size0) in
      case pack_all [pack_B nxt, pack_int_B sz, pack_B ty, pack_B seg,
             pack_B (push_bit 4 cmpi OR cmpe), pack_B (push_bit 4 (rt_pad cmpi cmpe adrs))] of
        Inl e \<Rightarrow> Inl e
      | Inr b \<Rightarrow>
          if sz = 0 then Inr (b @ [0, 0])
          else map_sum id (append (b @ [0, 0])) (adrs_serialize a6 cmpi cmpe adrs))"

fun ext_serialize :: "addr6 \<Rightarrow> ext_hdr \<Rightarrow> bytes res" where
  "ext_serialize a6 (HopOpts n sz d) = opt_header_serialize n sz d"
| "ext_serialize a6 (DstOpts n sz d) = opt_header_serialize n sz d"
| "ext_serialize a6 (Routing3 n sz t s ci ce ads) = routing_type3_serialize a6 n sz t s ci ce ads"
| "ext_serialize a6 (Fragment n off mf i) =
     pack_all [pack_B n, Inr [0], pack_H (push_bit 3 off OR mf), pack_I i]"
| "ext_serialize a6 (Auth n sz spi sq d) =
     pack_all [pack_B n, pack_B sz, Inr [0, 0], pack_I spi, pack_I sq,
       (if (sz + 2) * 4 < 12 then Inl StructError else Inr (pack_s ((sz + 2) * 4 - 12) d))]"

text \<open>
  What \<open>serialize\<close> leaves in the object: the default option, and the size of a source route that
  had none.  The size is what the header's length is taken from afterwards.
\<close>

fun ext_filled :: "ext_hdr \<Rightarrow> ext_hdr" where
  "ext_filled (HopOpts n sz d) = HopOpts n sz (Some (opts_filled d))"
| "ext_filled (DstOpts n sz d) = DstOpts n sz (Some (opts_filled d))"
| "ext_filled (Routing3 n sz t s ci ce ads) =
     Routing3 n (if sz = 0 then nat (rt_size ci ce ads) else sz) t s ci ce ads"
| "ext_filled (Fragment n off mf i) = Fragment n off mf i"
| "ext_filled (Auth n sz spi sq d) = Auth n sz spi sq d"

fun exts_serialize :: "addr6 \<Rightarrow> ext_hdr list \<Rightarrow> bytes res" where
  "exts_serialize a6 [] = Inr []"
| "exts_serialize a6 (h # hs) =
     (case ext_serialize a6 h of Inl e \<Rightarrow> Inl e | Inr b \<Rightarrow> map_sum id (append b) (exts_serialize a6 hs))"

section \<open>The header\<close>

record ipv6 =
  ip6_version :: nat
  traffic_class :: nat
  flow_label :: nat
  payload_length :: nat
  ip6_nxt :: nat
  hop_limit :: nat
  ip6_src :: string
  ip6_dst :: string
  ext_hdrs :: "ext_hdr list"

definition exts_len :: "ext_hdr list \<Rightarrow> nat" where
  "exts_len hs = sum_list (map ext_len hs)"

definition ipv6_len :: "ipv6 \<Rightarrow> nat" where
  "ipv6_len h = 40 + exts_len (ext_hdrs h)"

lemma ext_parser_ok:
  assumes "ext_parser a6 t = Some f" and "f b = Inr h"
  shows "b \<noteq> []" "0 < ext_len h"
  using assms
  by (auto simp: ext_parser_def opt_header_parser_def routing_parser_def routing_type3_parser_def
      fragment_parser_def auth_parser_def Let_def map_sum_def split: if_splits sum.splits)

text \<open>The loop of \<open>ipv6.parser\<close> over the extension headers: they and the type of what follows.\<close>

function parse_exts :: "addr6 \<Rightarrow> nat \<Rightarrow> bytes \<Rightarrow> (ext_hdr list \<times> nat) res" where
  "parse_exts a6 t buf =
     (case ext_parser a6 t of
        None \<Rightarrow> Inr ([], t)
      | Some f \<Rightarrow>
          (case f buf of
             Inl e \<Rightarrow> Inl e
           | Inr h \<Rightarrow> map_sum id (\<lambda>(hs, l). (h # hs, l)) (parse_exts a6 (ext_nxt h) (drop (ext_len h) buf))))"
  by pat_completeness auto

termination
proof (relation "measure (\<lambda>(a6, t, buf). length buf)")
  fix a6 t buf f h
  assume "ext_parser a6 t = Some f" and "f buf = Inr h"
  from ext_parser_ok [OF this] show "((a6, ext_nxt h, drop (ext_len h) buf), a6, t, buf) \<in> measure (\<lambda>(a6, t, buf). length buf)"
    by simp
qed simp

declare parse_exts.simps [simp del]

text \<open>The last component is the payload, the one before the protocol that it is of.\<close>

definition ipv6_parser :: "addr6 \<Rightarrow> bytes \<Rightarrow> (ipv6 \<times> nat \<times> bytes) res" where
  "ipv6_parser a6 buf =
     (if length buf < 40 then Inl StructError
      else
        let v = u32_at buf 0; pl = u16_at buf 4; n = u8_at buf 6 in
        case parse_exts a6 n (drop 40 buf) of
          Inl e \<Rightarrow> Inl e
        | Inr (hs, l) \<Rightarrow>
            (let h = \<lparr>ip6_version = drop_bit 28 v, traffic_class = drop_bit 20 v AND 255,
                      flow_label = v AND 1048575, payload_length = pl, ip6_nxt = n, hop_limit = u8_at buf 7,
                      ip6_src = ip6_to_text a6 (slice 8 24 buf), ip6_dst = ip6_to_text a6 (slice 24 40 buf),
                      ext_hdrs = hs\<rparr>;
                 off = 40 + exts_len hs
             in Inr (h, l, slice off (off + pl) buf)))"

definition ipv6_fixed :: "addr6 \<Rightarrow> ipv6 \<Rightarrow> nat \<Rightarrow> bytes res" where
  "ipv6_fixed a6 h pl =
     (case pack_all [ip6_to_bin a6 (ip6_src h), ip6_to_bin a6 (ip6_dst h)] of
        Inl e \<Rightarrow> Inl e
      | Inr addrs \<Rightarrow>
          pack_all [pack_I (push_bit 28 (ip6_version h) OR push_bit 20 (traffic_class h) OR flow_label h),
            pack_H pl, pack_B (ip6_nxt h), pack_B (hop_limit h), Inr addrs])"

text \<open>
  A length of zero is filled in, with the extension headers, whose objects are complete by then.
\<close>

definition ipv6_serialize :: "addr6 \<Rightarrow> ipv6 \<Rightarrow> bytes \<Rightarrow> (bytes \<times> ipv6) res" where
  "ipv6_serialize a6 h payload =
     (case ipv6_fixed a6 h (payload_length h) of
        Inl e \<Rightarrow> Inl e
      | Inr b \<Rightarrow>
          (case exts_serialize a6 (ext_hdrs h) of
             Inl e \<Rightarrow> Inl e
           | Inr x \<Rightarrow>
               let hs = map ext_filled (ext_hdrs h) in
               if payload_length h = 0 then
                 (let pl = length payload + exts_len hs in
                  case ipv6_fixed a6 h pl of
                    Inl e \<Rightarrow> Inl e
                  | Inr b' \<Rightarrow> Inr (b' @ x, h\<lparr>payload_length := pl, ext_hdrs := hs\<rparr>))
               else Inr (b @ x, h\<lparr>ext_hdrs := hs\<rparr>)))"

end
