(* ===== verification/Topo_Switches.thy ===== *)
theory Topo_Switches
  imports Topo_Links Topo_Order Topo_Lldp Ctl_Dpset Ipv6
begin

unbundle bit_operations_syntax

text \<open>
  The application \<open>Switches\<close> of \<open>ryu/topology/switches.py\<close>: switches and ports as the controller
  sees them, the links found with discovery frames, the hosts seen on edge ports.  A handler
  returns the state it leaves and the exception that ended it, if any; what it sends, events to
  the observers and messages to switches, is appended to \<open>tw_out\<close>.
\<close>

section \<open>Ports and switches\<close>

record ofp_desc =
  od_no :: nat
  od_hw :: string
  od_name :: bytes
  od_config :: nat
  od_state :: nat

text \<open>A connection: the datapath object by its handle.\<close>

record topo_dp =
  td_handle :: nat
  td_id :: "nat option"
  td_version :: nat
  td_ports :: "(nat, ofp_desc) dict"

record topo_port =
  tp_dpid :: nat
  tp_version :: nat
  tp_desc :: ofp_desc

definition port_key_of :: "topo_port \<Rightarrow> port_key" where
  "port_key_of p = (tp_dpid p, od_no (tp_desc p))"

definition OFPP_MAX_of :: "nat \<Rightarrow> nat" where
  "OFPP_MAX_of v = (if v = 1 then 0xff00 else 0xffffff00)"

definition is_reserved :: "topo_port \<Rightarrow> bool" where
  "is_reserved p \<longleftrightarrow> od_no (tp_desc p) > OFPP_MAX_of (tp_version p)"

text \<open>\<open>OFPPS_LINK_DOWN\<close> and \<open>OFPPC_PORT_DOWN\<close> are bit 0 in every version.\<close>

definition is_down :: "topo_port \<Rightarrow> bool" where
  "is_down p \<longleftrightarrow> od_state (tp_desc p) AND 1 > 0 \<or> od_config (tp_desc p) AND 1 > 0"

record topo_switch =
  sw_dp :: topo_dp
  sw_ports :: "topo_port list"

definition sw_add_port :: "nat \<Rightarrow> ofp_desc \<Rightarrow> topo_switch \<Rightarrow> topo_switch" where
  "sw_add_port dpid d sw =
     (let p = \<lparr>tp_dpid = dpid, tp_version = td_version (sw_dp sw), tp_desc = d\<rparr> in
      if is_reserved p then sw else sw\<lparr>sw_ports := sw_ports sw @ [p]\<rparr>)"

section \<open>The application\<close>

record topo_conf =
  link_discovery :: bool
  install_flow :: bool
  explicit_drop :: bool

datatype topo_out =
    TopoSwitchEnter topo_switch
  | TopoSwitchLeave topo_switch
  | TopoSwitchReconnected topo_switch
  | TopoPortAdd topo_port
  | TopoPortDelete topo_port
  | TopoPortModify topo_port
  | TopoLinkAdd topo_link
  | TopoLinkDelete topo_link
  | TopoHostAdd host
  | TopoHostMove host host
  | CloseDp nat
  | LldpFlow nat nat
  | LldpOut nat nat bytes
  | DropBuffer nat nat nat

text \<open>
  \<open>tw_pending\<close> and \<open>tw_wait\<close> are local variables of \<open>lldp_loop\<close>: the ports still to be served,
  one after each sleep, and the timeout of the wait at its end.
\<close>

record switches =
  tw_dps :: "(nat, topo_dp) dict"
  tw_port_state :: "(nat, (nat, ofp_desc) dict) dict"
  tw_ports :: pds
  tw_links :: link_state
  tw_hosts :: host_state
  tw_lldp_event :: bool
  tw_pending :: "port_key list"
  tw_wait :: "rat option"
  tw_out :: "topo_out list"

type_synonym topo_result = "switches \<times> py_exn option"

definition topo_init :: switches where
  "topo_init = \<lparr>tw_dps = [], tw_port_state = [], tw_ports = pds_empty, tw_links = links_empty, tw_hosts = [],
     tw_lldp_event = False, tw_pending = [], tw_wait = None, tw_out = []\<rparr>"

definition topo_emit :: "topo_out \<Rightarrow> switches \<Rightarrow> switches" where
  "topo_emit x s = s\<lparr>tw_out := tw_out s @ [x]\<rparr>"

text \<open>The next part of a handler runs unless the last has raised.\<close>

definition after :: "topo_result \<Rightarrow> (switches \<Rightarrow> topo_result) \<Rightarrow> topo_result" where
  "after r f = (case r of (s, None) \<Rightarrow> f s | (s, Some e) \<Rightarrow> (s, Some e))"

definition LLDP_SEND_PERIOD_PER_PORT :: rat where "LLDP_SEND_PERIOD_PER_PORT = 9 / 10"
definition LINK_TIMEOUT :: rat where "LINK_TIMEOUT = 10"
definition TOPO_DEFAULT_TTL :: nat where "TOPO_DEFAULT_TTL = 120"

section \<open>Registration and lookup\<close>

definition fresh_port_state :: "topo_dp \<Rightarrow> (nat, ofp_desc) dict" where
  "fresh_port_state dp = fold (\<lambda>d. dict_set (od_no d) d) (dict_values (td_ports dp)) []"

definition topo_register :: "topo_dp \<Rightarrow> switches \<Rightarrow> topo_result" where
  "topo_register dp s =
     (case td_id dp of
        None \<Rightarrow> (s, Some AssertionError)
      | Some i \<Rightarrow>
          let s1 = s\<lparr>tw_dps := dict_set i dp (tw_dps s)\<rparr> in
          if dict_get (tw_port_state s1) i = None
          then (s1\<lparr>tw_port_state := dict_set i (fresh_port_state dp) (tw_port_state s1)\<rparr>, None)
          else (s1, None))"

definition topo_unregister :: "nat \<Rightarrow> topo_dp \<Rightarrow> switches \<Rightarrow> topo_result" where
  "topo_unregister i dp s =
     (case dict_get (tw_dps s) i of
        None \<Rightarrow> (s, None)
      | Some d \<Rightarrow>
          if td_handle d \<noteq> td_handle dp then (s, None)
          else let s1 = s\<lparr>tw_dps := dict_del i (tw_dps s)\<rparr> in
            if dict_get (tw_port_state s1) i = None then (s1, Some KeyError)
            else (s1\<lparr>tw_port_state := dict_del i (tw_port_state s1)\<rparr>, None))"

definition get_switch :: "nat \<Rightarrow> switches \<Rightarrow> topo_switch option res" where
  "get_switch i s =
     (case dict_get (tw_dps s) i of
        None \<Rightarrow> Inr None
      | Some dp \<Rightarrow>
          (case dict_get (tw_port_state s) i of
             None \<Rightarrow> Inl KeyError
           | Some ps \<Rightarrow> Inr (Some (fold (sw_add_port i) (dict_values ps) \<lparr>sw_dp = dp, sw_ports = []\<rparr>))))"

definition get_port :: "nat \<Rightarrow> nat \<Rightarrow> switches \<Rightarrow> topo_port option res" where
  "get_port i no s =
     map_sum id
       (\<lambda>sw. case sw of None \<Rightarrow> None | Some x \<Rightarrow> find (\<lambda>p. od_no (tp_desc p) = no) (sw_ports x)) (get_switch i s)"

text \<open>The id of a datapath may be missing, and the id read from a frame may be negative.\<close>

definition get_port_of :: "nat option \<Rightarrow> nat \<Rightarrow> switches \<Rightarrow> topo_port option res" where
  "get_port_of i no s = (case i of None \<Rightarrow> Inr None | Some n \<Rightarrow> get_port n no s)"

definition key_of_int :: "int \<Rightarrow> nat option" where
  "key_of_int n = (if n < 0 then None else Some (nat n))"

definition topo_port_added :: "addrconv \<Rightarrow> topo_port \<Rightarrow> switches \<Rightarrow> topo_result" where
  "topo_port_added ac p s =
     (case lldp_packet ac (tp_dpid p) (od_no (tp_desc p)) (od_hw (tp_desc p)) TOPO_DEFAULT_TTL of
        Inl e \<Rightarrow> (s, Some e)
      | Inr data \<Rightarrow> (s\<lparr>tw_ports := pds_add_port (port_key_of p) (is_down p) data (tw_ports s)\<rparr>, None))"

definition is_edge_port :: "port_key \<Rightarrow> switches \<Rightarrow> bool" where
  "is_edge_port k s \<longleftrightarrow> list_all (\<lambda>l. k \<noteq> fst l \<and> k \<noteq> snd l) (dict_keys (ls_times (tw_links s)))"

section \<open>A port goes\<close>

definition topo_move_front :: "port_key \<Rightarrow> switches \<Rightarrow> topo_result" where
  "topo_move_front k s = (case pds_move_front k (tw_ports s) of (p, e) \<Rightarrow> (s\<lparr>tw_ports := p\<rparr>, e))"

fun rev_links_down :: "port_key \<Rightarrow> port_key list \<Rightarrow> switches \<Rightarrow> topo_result" where
  "rev_links_down k [] s = (s, None)"
| "rev_links_down k (d # ds) s =
     after (topo_move_front d (topo_emit (TopoLinkDelete (d, k)) s)) (rev_links_down k ds)"

text \<open>\<open>_link_down\<close>, which swallows a \<open>KeyError\<close> of the link table.\<close>

definition topo_link_down :: "port_key \<Rightarrow> switches \<Rightarrow> topo_result" where
  "topo_link_down k s =
     (case port_deleted k (tw_links s) of
        (ls, Inl e) \<Rightarrow> (s\<lparr>tw_links := ls\<rparr>, if e = KeyError then None else Some e)
      | (ls, Inr (dsts, revs)) \<Rightarrow>
          rev_links_down k revs (fold (\<lambda>d. topo_emit (TopoLinkDelete (k, d))) dsts (s\<lparr>tw_links := ls\<rparr>)))"

definition topo_del_port :: "port_key \<Rightarrow> switches \<Rightarrow> topo_result" where
  "topo_del_port k s = (case pds_del_port k (tw_ports s) of (p, e) \<Rightarrow> (s\<lparr>tw_ports := p\<rparr>, e))"

definition port_gone :: "port_key \<Rightarrow> switches \<Rightarrow> topo_result" where
  "port_gone k s = after (topo_del_port k s) (topo_link_down k)"

fun ports_gone :: "topo_port list \<Rightarrow> switches \<Rightarrow> topo_result" where
  "ports_gone [] s = (s, None)"
| "ports_gone (p # ps) s =
     (if is_reserved p then ports_gone ps s else after (port_gone (port_key_of p) s) (ports_gone ps))"

fun add_all_ports :: "addrconv \<Rightarrow> topo_port list \<Rightarrow> switches \<Rightarrow> topo_result" where
  "add_all_ports ac [] s = (s, None)"
| "add_all_ports ac (p # ps) s =
     (if is_reserved p then add_all_ports ac ps s else after (topo_port_added ac p s) (add_all_ports ac ps))"

definition set_lldp_event :: "switches \<Rightarrow> topo_result" where
  "set_lldp_event s = (s\<lparr>tw_lldp_event := True\<rparr>, None)"

section \<open>A switch connects or disconnects\<close>

text \<open>The flow that sends discovery frames to the controller; \<open>OFPCML_NO_BUFFER\<close> from 1.2 on.\<close>

definition install_lldp_flow :: "topo_dp \<Rightarrow> switches \<Rightarrow> switches" where
  "install_lldp_flow dp s =
     (if td_version dp = 1 then topo_emit (LldpFlow (td_handle dp) 60) s
      else if td_version dp \<ge> 3 then topo_emit (LldpFlow (td_handle dp) 0xffff) s else s)"

definition switch_enters :: "addrconv \<Rightarrow> topo_conf \<Rightarrow> topo_dp \<Rightarrow> switches \<Rightarrow> topo_result" where
  "switch_enters ac conf dp s =
     (let old = (case td_id dp of None \<Rightarrow> None | Some i \<Rightarrow> dict_get (tw_dps s) i);
          s1 = (case old of None \<Rightarrow> s | Some d \<Rightarrow> topo_emit (CloseDp (td_handle d)) s)
      in after (topo_register dp s1) (\<lambda>s2.
        case get_switch (the (td_id dp)) s2 of
          Inl e \<Rightarrow> (s2, Some e)
        | Inr None \<Rightarrow> (s2, Some AttributeError)
        | Inr (Some sw) \<Rightarrow>
            let s3 = topo_emit (if old = None then TopoSwitchEnter sw else TopoSwitchReconnected sw) s2 in
            if \<not> link_discovery conf then (s3, None)
            else
              let s4 = (if install_flow conf then install_lldp_flow dp s3 else s3) in
              after (if old = None then add_all_ports ac (sw_ports sw) s4 else (s4, None)) set_lldp_event))"

definition switch_leaves :: "topo_conf \<Rightarrow> topo_dp \<Rightarrow> switches \<Rightarrow> topo_result" where
  "switch_leaves conf dp s =
     (case td_id dp of
        None \<Rightarrow> (s, None)
      | Some i \<Rightarrow>
          (case get_switch i s of
             Inl e \<Rightarrow> (s, Some e)
           | Inr None \<Rightarrow> (s, None)
           | Inr (Some sw) \<Rightarrow>
               if td_handle (sw_dp sw) \<noteq> td_handle dp then (s, None)
               else after (topo_unregister i dp s) (\<lambda>s1.
                 let s2 = topo_emit (TopoSwitchLeave sw) s1 in
                 if \<not> link_discovery conf then (s2, None)
                 else after (ports_gone (sw_ports sw) s2) set_lldp_event)))"

definition state_change_handler :: "addrconv \<Rightarrow> topo_conf \<Rightarrow> topo_dp \<Rightarrow> dispatcher \<Rightarrow> switches \<Rightarrow> topo_result" where
  "state_change_handler ac conf dp st s =
     (if st = MAIN_DISPATCHER then switch_enters ac conf dp s
      else if st = DEAD_DISPATCHER then switch_leaves conf dp s else (s, None))"

section \<open>The status of a port changes\<close>

text \<open>\<open>self.port_state[dp.id]\<close>, changed by \<open>f\<close>.\<close>

definition upd_port_state ::
  "nat option \<Rightarrow> ((nat, ofp_desc) dict \<Rightarrow> (nat, ofp_desc) dict res) \<Rightarrow> switches \<Rightarrow> topo_result"
where
  "upd_port_state i f s =
     (case Option.bind i (dict_get (tw_port_state s)) of
        None \<Rightarrow> (s, Some KeyError)
      | Some ps \<Rightarrow>
          (case f ps of
             Inl e \<Rightarrow> (s, Some e)
           | Inr ps' \<Rightarrow> (s\<lparr>tw_port_state := dict_set (the i) ps' (tw_port_state s)\<rparr>, None)))"

text \<open>The part of each branch that link discovery does, on the port if it is known and not reserved.\<close>

definition on_port :: "topo_dp \<Rightarrow> ofp_desc \<Rightarrow> (topo_port \<Rightarrow> switches \<Rightarrow> topo_result) \<Rightarrow> switches \<Rightarrow> topo_result" where
  "on_port dp d f s =
     (case get_port_of (td_id dp) (od_no d) s of
        Inl e \<Rightarrow> (s, Some e)
      | Inr None \<Rightarrow> (s, None)
      | Inr (Some p) \<Rightarrow> if is_reserved p then (s, None) else after (f p s) set_lldp_event)"

definition topo_set_down :: "topo_port \<Rightarrow> switches \<Rightarrow> topo_result" where
  "topo_set_down p s =
     (case pds_set_down (port_key_of p) (is_down p) (tw_ports s) of
        (q, Some e) \<Rightarrow> (s\<lparr>tw_ports := q\<rparr>, Some e)
      | (q, None) \<Rightarrow>
          if is_down p then topo_link_down (port_key_of p) (s\<lparr>tw_ports := q\<rparr>) else (s\<lparr>tw_ports := q\<rparr>, None))"

definition port_status_handler ::
  "addrconv \<Rightarrow> topo_conf \<Rightarrow> topo_dp \<Rightarrow> port_reason \<Rightarrow> ofp_desc \<Rightarrow> switches \<Rightarrow> topo_result"
where
  "port_status_handler ac conf dp reason d s =
     (let p = \<lparr>tp_dpid = the (td_id dp), tp_version = td_version dp, tp_desc = d\<rparr>;
          put = (\<lambda>ps. Inr (dict_set (od_no d) d ps));
          discover = (\<lambda>f s. if link_discovery conf then on_port dp d f s else (s, None)) in
      case reason of
        OFPPR_ADD \<Rightarrow>
          after (upd_port_state (td_id dp) put s) (\<lambda>s1.
            discover (topo_port_added ac) (topo_emit (TopoPortAdd p) s1))
      | OFPPR_DELETE \<Rightarrow>
          let s1 = topo_emit (TopoPortDelete p) s in
          if \<not> link_discovery conf then (s1, None)
          else after (on_port dp d (\<lambda>q. port_gone (port_key_of q)) s1)
                 (upd_port_state (td_id dp) (\<lambda>ps. if dict_get ps (od_no d) = None then Inl KeyError
                                                  else Inr (dict_del (od_no d) ps)))
      | OFPPR_MODIFY \<Rightarrow>
          after (upd_port_state (td_id dp) put s) (\<lambda>s1. discover topo_set_down (topo_emit (TopoPortModify p) s1))
      | OFPPR_OTHER n \<Rightarrow> (s, Some AssertionError))"

section \<open>A frame arrives\<close>

record topo_packet =
  tk_dp :: topo_dp
  tk_in_port :: "nat option"
  tk_buffer :: nat
  tk_data :: bytes

definition drop_packet :: "topo_packet \<Rightarrow> switches \<Rightarrow> topo_result" where
  "drop_packet msg s =
     (let dp = tk_dp msg in
      if tk_buffer msg = 0xffffffff then (s, None)
      else if td_version dp = 1 \<or> td_version dp \<ge> 3 then
        (case tk_in_port msg of
           None \<Rightarrow> (s, Some KeyError)
         | Some n \<Rightarrow> (topo_emit (DropBuffer (td_handle dp) (tk_buffer msg) n) s, None))
      else (s, None))"

fun del_hosts :: "string list \<Rightarrow> switches \<Rightarrow> topo_result" where
  "del_hosts [] s = (s, None)"
| "del_hosts (m # ms) s =
     (if dict_get (tw_hosts s) m = None then (s, Some KeyError)
      else del_hosts ms (s\<lparr>tw_hosts := dict_del m (tw_hosts s)\<rparr>))"

text \<open>A link that was not known is announced before the table holds it.\<close>

definition announce_link :: "topo_link \<Rightarrow> switches \<Rightarrow> topo_result" where
  "announce_link l s =
     (if has_link (tw_links s) l then (s, None)
      else
        let s1 = topo_emit (TopoLinkAdd l) s in
        del_hosts (map h_mac (filter (\<lambda>h. \<not> is_edge_port (h_port h) s1) (dict_values (tw_hosts s1)))) s1)"

definition store_link :: "rat \<Rightarrow> topo_link \<Rightarrow> switches \<Rightarrow> topo_result" where
  "store_link clk l s =
     (case update_link clk (fst l) (snd l) (tw_links s) of
        (ls, rev_up) \<Rightarrow>
          let s1 = s\<lparr>tw_links := ls\<rparr> in
          if rev_up then (s1, None) else after (topo_move_front (snd l) s1) set_lldp_event)"

definition link_found :: "topo_conf \<Rightarrow> rat \<Rightarrow> topo_packet \<Rightarrow> topo_link \<Rightarrow> switches \<Rightarrow> topo_result" where
  "link_found conf clk msg l s =
     after (announce_link l s) (\<lambda>s1. after (store_link clk l s1) (\<lambda>s2.
       if explicit_drop conf then drop_packet msg s2 else (s2, None)))"

text \<open>
  A datapath of version 1.1 would leave \<open>dst_port_no\<close> unbound; its use raises.
\<close>

definition lldp_received_from ::
  "topo_conf \<Rightarrow> rat \<Rightarrow> topo_packet \<Rightarrow> int \<Rightarrow> nat \<Rightarrow> switches \<Rightarrow> topo_result"
where
  "lldp_received_from conf clk msg src_dpid src_port_no s =
     (let dp = tk_dp msg in
      if td_version dp \<ge> 3 \<and> tk_in_port msg = None then (s, Some KeyError)
      else
        case get_port_of (key_of_int src_dpid) src_port_no s of
          Inl e \<Rightarrow> (s, Some e)
        | Inr None \<Rightarrow> (s, None)
        | Inr (Some p) \<Rightarrow>
            if td_id dp = Some (tp_dpid p) then (s, None)
            else
              let s1 = (case pds_lldp_received (port_key_of p) (tw_ports s) of
                          Inl e \<Rightarrow> s | Inr r \<Rightarrow> s\<lparr>tw_ports := r\<rparr>) in
              if td_version dp \<noteq> 1 \<and> td_version dp < 3 then (s1, Some (OtherError ''UnboundLocalError''))
              else
                case get_port_of (td_id dp) (the (tk_in_port msg)) s1 of
                  Inl e \<Rightarrow> (s1, Some e)
                | Inr None \<Rightarrow> (s1, None)
                | Inr (Some q) \<Rightarrow> link_found conf clk msg (port_key_of p, port_key_of q) s1)"

definition lldp_packet_in_handler ::
  "addrconv \<Rightarrow> (nat \<Rightarrow> char) \<Rightarrow> other_parsers \<Rightarrow> topo_conf \<Rightarrow> rat \<Rightarrow> topo_packet \<Rightarrow> switches \<Rightarrow> topo_result option"
where
  "lldp_packet_in_handler ac uni oth conf clk msg s =
     (if \<not> link_discovery conf then Some (s, None)
      else
        case lldp_parse ac uni oth (tk_data msg) of
          None \<Rightarrow> None
        | Some (Inl e) \<Rightarrow> Some (s, if e = LLDPUnknownFormat then None else Some e)
        | Some (Inr (src_dpid, src_port_no)) \<Rightarrow> Some (lldp_received_from conf clk msg src_dpid src_port_no s))"

section \<open>Hosts\<close>

text \<open>\<open>ip6\<close> converts the addresses of an IPv6 header.\<close>

definition learn_ip ::
  "addrconv \<Rightarrow> addr6 \<Rightarrow> ethernet \<Rightarrow> bytes \<Rightarrow> switches \<Rightarrow> topo_result"
where
  "learn_ip ac ip6 eth data s =
     (let upd = (\<lambda>a b. (s\<lparr>tw_hosts := hosts_update_ip (eth_src eth) a b (tw_hosts s)\<rparr>, None)) in
      if ethertype eth = 0x0806 then
        (case arp_parser ac data of Inl e \<Rightarrow> (s, Some e) | Inr (h, _) \<Rightarrow> upd (Some (src_ip h)) None)
      else if ethertype eth = 0x0800 then
        (case ipv4_parser ac data of Inl e \<Rightarrow> (s, Some e) | Inr (h, _) \<Rightarrow> upd (Some (src h)) None)
      else if ethertype eth = 0x86dd then
        (case ipv6_parser ip6 data of Inl e \<Rightarrow> (s, Some e) | Inr (h, _) \<Rightarrow> upd None (Some (ip6_src h)))
      else (s, None))"

definition learn_host :: "string \<Rightarrow> port_key \<Rightarrow> switches \<Rightarrow> switches" where
  "learn_host mac k s =
     (let h = new_host mac k in
      case dict_get (tw_hosts s) mac of
        None \<Rightarrow> topo_emit (TopoHostAdd h) (s\<lparr>tw_hosts := hosts_add h (tw_hosts s)\<rparr>)
      | Some old \<Rightarrow>
          if h_port old \<noteq> k
          then topo_emit (TopoHostMove old h) (s\<lparr>tw_hosts := dict_set mac h (tw_hosts s)\<rparr>) else s)"

definition host_discovery_packet_in_handler ::
  "addrconv \<Rightarrow> addr6 \<Rightarrow> topo_packet \<Rightarrow> switches \<Rightarrow> topo_result"
where
  "host_discovery_packet_in_handler ac ip6 msg s =
     (case ethernet_parser ac (tk_data msg) of
        Inl e \<Rightarrow> (s, Some e)
      | Inr (eth, data) \<Rightarrow>
          if ethertype eth \<in> {0x88cc, 0x8902} then (s, None)
          else
            case tk_in_port msg of
              None \<Rightarrow> (s, Some KeyError)
            | Some n \<Rightarrow>
                (case get_port_of (td_id (tk_dp msg)) n s of
                   Inl e \<Rightarrow> (s, Some e)
                 | Inr None \<Rightarrow> (s, None)
                 | Inr (Some p) \<Rightarrow>
                     if \<not> is_edge_port (port_key_of p) s then (s, None)
                     else learn_ip ac ip6 eth data (learn_host (eth_src eth) (port_key_of p) s)))"

section \<open>The two loops\<close>

definition send_lldp_packet :: "rat \<Rightarrow> port_key \<Rightarrow> switches \<Rightarrow> switches" where
  "send_lldp_packet clk k s =
     (case pds_lldp_sent clk k (tw_ports s) of
        (q, Inl e) \<Rightarrow> s\<lparr>tw_ports := q\<rparr>
      | (q, Inr d) \<Rightarrow>
          let s1 = s\<lparr>tw_ports := q\<rparr> in
          if pd_is_down d then s1
          else
            case dict_get (tw_dps s1) (fst k) of
              None \<Rightarrow> s1
            | Some dp \<Rightarrow>
                if td_version dp = 1 \<or> td_version dp \<ge> 3
                then topo_emit (LldpOut (td_handle dp) (snd k) (pd_lldp d)) s1 else s1)"

text \<open>The scan at the head of \<open>lldp_loop\<close>, which stops at the first port whose time has not come.\<close>

fun lldp_scan :: "rat \<Rightarrow> (port_key \<times> port_data) list \<Rightarrow> port_key list \<times> port_key list \<times> rat option" where
  "lldp_scan clk [] = ([], [], None)"
| "lldp_scan clk ((k, d) # r) =
     (let (ports_now, ports, timeout) = lldp_scan clk r in
      case pd_timestamp d of
        None \<Rightarrow> (k # ports_now, ports, timeout)
      | Some t \<Rightarrow>
          if t + LLDP_SEND_PERIOD_PER_PORT \<le> clk then (ports_now, k # ports, timeout)
          else ([], [], Some (t + LLDP_SEND_PERIOD_PER_PORT - clk)))"

definition lldp_turn :: "rat \<Rightarrow> switches \<Rightarrow> topo_result option" where
  "lldp_turn clk s =
     (let s1 = s\<lparr>tw_lldp_event := False\<rparr> in
      case pds_items (tw_ports s1) of
        None \<Rightarrow> None
      | Some (Inl e) \<Rightarrow> Some (s1, Some e)
      | Some (Inr items) \<Rightarrow>
          (case lldp_scan clk items of
             (ports_now, ports, timeout) \<Rightarrow>
               Some ((fold (send_lldp_packet clk) ports_now s1)
                       \<lparr>tw_pending := ports,
                        tw_wait := (if timeout \<noteq> None \<and> ports \<noteq> [] then Some 0 else timeout)\<rparr>, None)))"

definition lldp_next :: "rat \<Rightarrow> switches \<Rightarrow> switches" where
  "lldp_next clk s =
     (case tw_pending s of [] \<Rightarrow> s | k # ks \<Rightarrow> send_lldp_packet clk k (s\<lparr>tw_pending := ks\<rparr>))"

definition expired_links :: "rat \<Rightarrow> link_state \<Rightarrow> topo_link list" where
  "expired_links clk ls = map fst (filter (\<lambda>(l, t). t + LINK_TIMEOUT < clk) (ls_times ls))"

fun links_expire :: "rat \<Rightarrow> topo_link list \<Rightarrow> topo_link list \<Rightarrow> switches \<Rightarrow> topo_result" where
  "links_expire clk deleted [] s = (s, None)"
| "links_expire clk deleted (l # ls) s =
     (case link_down l (tw_links s) of
        (t, Some e) \<Rightarrow> (s\<lparr>tw_links := t\<rparr>, Some e)
      | (t, None) \<Rightarrow>
          let s1 = topo_emit (TopoLinkDelete l) (s\<lparr>tw_links := t\<rparr>); rev_link = (snd l, fst l) in
          if rev_link \<in> set deleted then links_expire clk deleted ls s1
          else
            let s2 = s1\<lparr>tw_links := rev_link_set_timestamp rev_link (clk - LINK_TIMEOUT) (tw_links s1)\<rparr> in
            if pds_dict (tw_ports s2) (snd l) = None then links_expire clk deleted ls s2
            else after (topo_move_front (snd l) s2) (\<lambda>s3.
              after (set_lldp_event s3) (links_expire clk deleted ls)))"

definition link_turn :: "rat \<Rightarrow> switches \<Rightarrow> topo_result" where
  "link_turn clk s = (let deleted = expired_links clk (tw_links s) in links_expire clk deleted deleted s)"

section \<open>Requests\<close>

fun switches_of :: "topo_dp list \<Rightarrow> switches \<Rightarrow> topo_switch option list res" where
  "switches_of [] s = Inr []"
| "switches_of (dp # rest) s =
     (case (case td_id dp of None \<Rightarrow> Inr None | Some i \<Rightarrow> get_switch i s) of
        Inl e \<Rightarrow> Inl e
      | Inr sw \<Rightarrow> map_sum id (Cons sw) (switches_of rest s))"

definition switch_request_handler :: "nat option \<Rightarrow> switches \<Rightarrow> topo_switch option list res" where
  "switch_request_handler i s =
     (case i of
        None \<Rightarrow> switches_of (dict_values (tw_dps s)) s
      | Some n \<Rightarrow>
          if dict_get (tw_dps s) n = None then Inr [] else map_sum id (\<lambda>sw. [sw]) (get_switch n s))"

definition link_request_handler :: "nat option \<Rightarrow> switches \<Rightarrow> topo_link list" where
  "link_request_handler i s =
     (let ls = dict_keys (ls_times (tw_links s)) in
      case i of None \<Rightarrow> ls | Some n \<Rightarrow> filter (\<lambda>l. fst (fst l) = n) ls)"

definition host_request_handler :: "nat option \<Rightarrow> switches \<Rightarrow> host list" where
  "host_request_handler i s =
     (case i of None \<Rightarrow> dict_values (tw_hosts s) | Some n \<Rightarrow> hosts_get_by_dpid n (tw_hosts s))"

end
