(* ===== verification/Topo_Invariants.thy ===== *)
theory Topo_Invariants
  imports Topo_Switches
begin

text \<open>
  What holds of the state of topology discovery between two handlers, whether they end normally
  or with an exception: the tables are consistent, the ports are in the order of their last
  transmission, and the link events sent so far add up to the link table.
\<close>

section \<open>What the events tell\<close>

fun tell_link :: "topo_out \<Rightarrow> topo_link set \<Rightarrow> topo_link set" where
  "tell_link (TopoLinkAdd l) L = insert l L"
| "tell_link (TopoLinkDelete l) L = L - {l}"
| "tell_link _ L = L"

definition told_links :: "switches \<Rightarrow> topo_link set" where
  "told_links s = fold tell_link (tw_out s) {}"

definition link_set :: "switches \<Rightarrow> topo_link set" where
  "link_set s = {l. has_link (tw_links s) l}"

lemma told_emit [simp]: "told_links (topo_emit x s) = tell_link x (told_links s)"
  by (simp add: told_links_def topo_emit_def)

lemma told_frame [simp]:
  "told_links (s\<lparr>tw_ports := q\<rparr>) = told_links s" "told_links (s\<lparr>tw_links := ls\<rparr>) = told_links s"
  "told_links (s\<lparr>tw_hosts := hs\<rparr>) = told_links s" "told_links (s\<lparr>tw_dps := d\<rparr>) = told_links s"
  "told_links (s\<lparr>tw_port_state := ps\<rparr>) = told_links s" "told_links (s\<lparr>tw_lldp_event := b\<rparr>) = told_links s"
  "told_links (s\<lparr>tw_pending := ks\<rparr>) = told_links s" "told_links (s\<lparr>tw_wait := w\<rparr>) = told_links s"
  by (simp_all add: told_links_def)

lemma emit_fields [simp]:
  "tw_dps (topo_emit x s) = tw_dps s" "tw_port_state (topo_emit x s) = tw_port_state s"
  "tw_ports (topo_emit x s) = tw_ports s" "tw_links (topo_emit x s) = tw_links s"
  "tw_hosts (topo_emit x s) = tw_hosts s" "tw_pending (topo_emit x s) = tw_pending s"
  by (simp_all add: topo_emit_def)

lemma emits_fields [simp]:
  "tw_dps (fold (\<lambda>d. topo_emit (f d)) ds s) = tw_dps s"
  "tw_port_state (fold (\<lambda>d. topo_emit (f d)) ds s) = tw_port_state s"
  "tw_ports (fold (\<lambda>d. topo_emit (f d)) ds s) = tw_ports s"
  "tw_links (fold (\<lambda>d. topo_emit (f d)) ds s) = tw_links s"
  "tw_hosts (fold (\<lambda>d. topo_emit (f d)) ds s) = tw_hosts s"
  by (induction ds arbitrary: s) simp_all

lemma told_emits: "told_links (fold (\<lambda>d. topo_emit (TopoLinkDelete (f d))) ds s) = told_links s - f ` set ds"
  by (induction ds arbitrary: s) auto

section \<open>The invariant\<close>

definition registered :: "switches \<Rightarrow> bool" where
  "registered s \<longleftrightarrow>
     (\<forall>i. dict_get (tw_dps s) i = None \<longleftrightarrow> dict_get (tw_port_state s) i = None) \<and>
     (\<forall>i d. dict_get (tw_dps s) i = Some d \<longrightarrow> td_id d = Some i)"

abbreviation ports_in_order :: "rat \<Rightarrow> pds \<Rightarrow> bool" where
  "ports_in_order \<equiv> in_order pds_abs"

definition tables_ok :: "rat \<Rightarrow> switches \<Rightarrow> bool" where
  "tables_ok t s \<longleftrightarrow>
     registered s \<and> ports_in_order t (tw_ports s) \<and> links_ok (tw_links s) \<and> hosts_ok (tw_hosts s)"

definition topo_inv :: "rat \<Rightarrow> switches \<Rightarrow> bool" where
  "topo_inv t s \<longleftrightarrow> tables_ok t s \<and> told_links s = link_set s"

lemma tables_okD:
  assumes "tables_ok t s"
  shows "registered s" "ports_in_order t (tw_ports s)" "links_ok (tw_links s)" "hosts_ok (tw_hosts s)"
  using assms by (simp_all add: tables_ok_def)

lemma topo_invD: "topo_inv t s \<Longrightarrow> tables_ok t s" "topo_inv t s \<Longrightarrow> told_links s = link_set s"
  by (simp_all add: topo_inv_def)

lemma registered_frame [simp]:
  "registered (topo_emit x s) = registered s" "registered (s\<lparr>tw_ports := q\<rparr>) = registered s"
  "registered (s\<lparr>tw_links := ls\<rparr>) = registered s" "registered (s\<lparr>tw_hosts := hs\<rparr>) = registered s"
  "registered (s\<lparr>tw_lldp_event := b\<rparr>) = registered s" "registered (s\<lparr>tw_pending := ks\<rparr>) = registered s"
  "registered (s\<lparr>tw_wait := w\<rparr>) = registered s"
  "registered (fold (\<lambda>d. topo_emit (f d)) ds s) = registered s"
  by (simp_all add: registered_def)

lemma link_set_frame [simp]:
  "link_set (topo_emit x s) = link_set s" "link_set (s\<lparr>tw_ports := q\<rparr>) = link_set s"
  "link_set (s\<lparr>tw_hosts := hs\<rparr>) = link_set s" "link_set (s\<lparr>tw_dps := d\<rparr>) = link_set s"
  "link_set (s\<lparr>tw_port_state := ps\<rparr>) = link_set s" "link_set (s\<lparr>tw_lldp_event := b\<rparr>) = link_set s"
  "link_set (s\<lparr>tw_pending := ks\<rparr>) = link_set s" "link_set (s\<lparr>tw_wait := w\<rparr>) = link_set s"
  "link_set (s\<lparr>tw_links := ls\<rparr>) = {l. has_link ls l}"
  by (simp_all add: link_set_def)

lemma tables_frame [simp]:
  "tables_ok t (topo_emit x s) = tables_ok t s" "tables_ok t (s\<lparr>tw_lldp_event := b\<rparr>) = tables_ok t s"
  "tables_ok t (s\<lparr>tw_pending := ks\<rparr>) = tables_ok t s" "tables_ok t (s\<lparr>tw_wait := w\<rparr>) = tables_ok t s"
  "tables_ok t (fold (\<lambda>d. topo_emit (f d)) ds s) = tables_ok t s"
  by (simp_all add: tables_ok_def)

lemma inv_frame [simp]:
  "topo_inv t (s\<lparr>tw_lldp_event := b\<rparr>) = topo_inv t s" "topo_inv t (s\<lparr>tw_pending := ks\<rparr>) = topo_inv t s"
  "topo_inv t (s\<lparr>tw_wait := w\<rparr>) = topo_inv t s"
  by (simp_all add: topo_inv_def)

lemma inv_ports: "topo_inv t s \<Longrightarrow> ports_in_order t' q \<Longrightarrow> t \<le> t' \<Longrightarrow> topo_inv t' (s\<lparr>tw_ports := q\<rparr>)"
  by (simp add: topo_inv_def tables_ok_def)

lemma inv_hosts: "topo_inv t s \<Longrightarrow> hosts_ok hs \<Longrightarrow> topo_inv t (s\<lparr>tw_hosts := hs\<rparr>)"
  by (simp add: topo_inv_def tables_ok_def)

lemma inv_emit: "topo_inv t s \<Longrightarrow> tell_link x (told_links s) = told_links s \<Longrightarrow> topo_inv t (topo_emit x s)"
  by (simp add: topo_inv_def)

lemma inv_mono: "topo_inv t s \<Longrightarrow> t \<le> u \<Longrightarrow> topo_inv u s"
  using pds.order_mono by (auto simp: topo_inv_def tables_ok_def)

lemma init_inv: "topo_inv t topo_init"
  using pds.order_fresh [of t] links_empty_ok
  by (auto simp: topo_inv_def tables_ok_def topo_init_def registered_def hosts_ok_def told_links_def link_set_def)

text \<open>A handler keeps a property of the state when both parts of a sequence do.\<close>

lemma after_keeps:
  "P (fst r) \<Longrightarrow> (\<And>s. r = (s, None) \<Longrightarrow> P s \<Longrightarrow> Q (fst (f s))) \<Longrightarrow> (\<And>s. P s \<Longrightarrow> Q s) \<Longrightarrow> Q (fst (after r f))"
  by (auto simp: after_def split: prod.split option.split)

lemma after_inv:
  "topo_inv t (fst r) \<Longrightarrow> (\<And>s. r = (s, None) \<Longrightarrow> topo_inv t s \<Longrightarrow> topo_inv t (fst (f s))) \<Longrightarrow> topo_inv t (fst (after r f))"
  by (rule after_keeps)

lemma set_event_inv [simp]: "topo_inv t (fst (set_lldp_event s)) = topo_inv t s"
  by (simp add: set_lldp_event_def)

section \<open>Ports and links go\<close>

lemma move_front_fields:
  assumes "ports_in_order t (tw_ports s)"
  shows "snd (topo_move_front k s) = None" "ports_in_order t (tw_ports (fst (topo_move_front k s)))"
    "tw_links (fst (topo_move_front k s)) = tw_links s" "told_links (fst (topo_move_front k s)) = told_links s"
    "tw_hosts (fst (topo_move_front k s)) = tw_hosts s" "registered (fst (topo_move_front k s)) = registered s"
  using pds.order_front [OF assms, of k]
  by (cases "pds_move_front k (tw_ports s)"; simp add: topo_move_front_def)+

lemma move_front_inv: "topo_inv t s \<Longrightarrow> topo_inv t (fst (topo_move_front k s))"
  using move_front_fields [of t s k] by (simp add: topo_inv_def tables_ok_def link_set_def)

lemma rev_links_down_ok:
  assumes "tables_ok t s"
  shows "tables_ok t (fst (rev_links_down k ds s))" "tw_links (fst (rev_links_down k ds s)) = tw_links s"
    "told_links (fst (rev_links_down k ds s)) = told_links s - (\<lambda>d. (d, k)) ` set ds"
    "snd (rev_links_down k ds s) = None"
proof -
  have "tables_ok t (fst (rev_links_down k ds s)) \<and> tw_links (fst (rev_links_down k ds s)) = tw_links s \<and>
    told_links (fst (rev_links_down k ds s)) = told_links s - (\<lambda>d. (d, k)) ` set ds \<and> snd (rev_links_down k ds s) = None"
    using assms
  proof (induction ds arbitrary: s)
    case (Cons d ds)
    let ?s = "topo_emit (TopoLinkDelete (d, k)) s"
    have p: "ports_in_order t (tw_ports ?s)" using Cons.prems by (simp add: tables_ok_def)
    note m = move_front_fields [OF p, of d]
    obtain s1 where s1: "topo_move_front d ?s = (s1, None)" using m(1) by (cases "topo_move_front d ?s") simp
    have "tables_ok t s1" using m(2-6) Cons.prems by (simp add: s1 tables_ok_def)
    then show ?case using Cons.IH [of s1] m(3,4) by (auto simp: after_def s1)
  qed simp
  then show "tables_ok t (fst (rev_links_down k ds s))" "tw_links (fst (rev_links_down k ds s)) = tw_links s"
    "told_links (fst (rev_links_down k ds s)) = told_links s - (\<lambda>d. (d, k)) ` set ds"
    "snd (rev_links_down k ds s) = None" by simp_all
qed

lemma topo_link_down_ok:
  assumes "topo_inv t s"
  shows "topo_inv t (fst (topo_link_down k s))" "snd (topo_link_down k s) = None"
    "link_set (fst (topo_link_down k s)) =
      {(p, q). (p, q) \<in> link_set s \<and> p \<noteq> k \<and> \<not> (q = k \<and> (k, p) \<in> link_set s)}"
proof -
  have ok: "tables_ok t s" and tell: "told_links s = link_set s" using assms by (simp_all add: topo_inv_def)
  note L = tables_okD(3) [OF ok]
  obtain ls revs where ls: "port_deleted k (tw_links s) = (ls, Inr (ls_map (tw_links s) k, revs))" "links_ok ls"
    "\<forall>p q. has_link ls (p, q) \<longleftrightarrow> has_link (tw_links s) (p, q) \<and> p \<noteq> k \<and> \<not> (q = k \<and> has_link (tw_links s) (k, p))"
    "revs = filter (\<lambda>dst. has_link (tw_links s) (dst, k)) (ls_map (tw_links s) k)"
    using L by (rule port_deleted_ok)
  let ?s1 = "fold (\<lambda>d. topo_emit (TopoLinkDelete (k, d))) (ls_map (tw_links s) k) (s\<lparr>tw_links := ls\<rparr>)"
  have r: "topo_link_down k s = rev_links_down k revs ?s1" by (simp add: topo_link_down_def ls(1))
  have ok1: "tables_ok t ?s1" using ok ls(2) by (simp add: tables_ok_def)
  note R = rev_links_down_ok [OF ok1, of k revs]
  have links: "link_set (fst (topo_link_down k s)) = {l. has_link ls l}" using R(2) by (simp add: r link_set_def)
  show set: "link_set (fst (topo_link_down k s)) =
      {(p, q). (p, q) \<in> link_set s \<and> p \<noteq> k \<and> \<not> (q = k \<and> (k, p) \<in> link_set s)}"
  proof (rule set_eqI)
    fix l :: topo_link
    obtain p q where l: "l = (p, q)" by (cases l)
    have "has_link ls (p, q) \<longleftrightarrow> has_link (tw_links s) (p, q) \<and> p \<noteq> k \<and> \<not> (q = k \<and> has_link (tw_links s) (k, p))"
      by (rule ls(3) [THEN spec, THEN spec])
    then show "l \<in> link_set (fst (topo_link_down k s)) \<longleftrightarrow>
        l \<in> {(p, q). (p, q) \<in> link_set s \<and> p \<noteq> k \<and> \<not> (q = k \<and> (k, p) \<in> link_set s)}"
      unfolding links l by (simp add: link_set_def)
  qed
  have "told_links (fst (topo_link_down k s)) =
      link_set s - Pair k ` set (ls_map (tw_links s) k) - (\<lambda>d. (d, k)) ` set revs"
    using R(3) told_emits [of "Pair k" "ls_map (tw_links s) k" "s\<lparr>tw_links := ls\<rparr>"] tell by (simp add: r)
  also have "\<dots> = link_set (fst (topo_link_down k s))"
    unfolding set ls(4) using links_okD(3) [OF L] by (auto simp: link_set_def)
  finally show "topo_inv t (fst (topo_link_down k s))" using R(1) by (simp add: topo_inv_def r)
  show "snd (topo_link_down k s) = None" using R(4) by (simp add: r)
qed

lemma topo_del_port_inv: "topo_inv t s \<Longrightarrow> topo_inv t (fst (topo_del_port k s))"
  using pds.order_del [of t "tw_ports s" k]
  by (cases "pds_del_port k (tw_ports s)") (auto simp: topo_del_port_def topo_inv_def tables_ok_def)

lemma port_gone_inv: "topo_inv t s \<Longrightarrow> topo_inv t (fst (port_gone k s))"
  unfolding port_gone_def by (rule after_inv) (simp_all add: topo_del_port_inv topo_link_down_ok)

lemma ports_gone_inv: "topo_inv t s \<Longrightarrow> topo_inv t (fst (ports_gone ps s))"
  by (induction ps arbitrary: s) (auto intro!: after_inv simp: port_gone_inv)

lemma port_added_inv: "topo_inv t s \<Longrightarrow> topo_inv t (fst (topo_port_added ac p s))"
  using pds.order_add
  by (auto simp: topo_port_added_def topo_inv_def tables_ok_def split: sum.split)

lemma add_all_ports_inv: "topo_inv t s \<Longrightarrow> topo_inv t (fst (add_all_ports ac ps s))"
  by (induction ps arbitrary: s) (auto intro!: after_inv simp: port_added_inv)

section \<open>Switches and ports change\<close>

lemma inv_registered: "topo_inv t s \<Longrightarrow> registered s' \<Longrightarrow> s' = s\<lparr>tw_dps := d, tw_port_state := ps\<rparr> \<Longrightarrow> topo_inv t s'"
  by (simp add: topo_inv_def tables_ok_def)

lemma register_inv:
  assumes "topo_inv t s"
  shows "topo_inv t (fst (topo_register dp s))"
proof (cases "td_id dp")
  case (Some i)
  have r: "registered s" using assms by (simp add: topo_inv_def tables_ok_def)
  show ?thesis
    using assms r by (auto simp: topo_register_def Some Let_def topo_inv_def tables_ok_def)
      (auto simp: registered_def Some split: if_splits)
qed (use assms in \<open>simp add: topo_register_def\<close>)

lemma unregister_inv:
  assumes "topo_inv t s"
  shows "topo_inv t (fst (topo_unregister i dp s))"
proof -
  have r: "registered s" using assms by (simp add: topo_inv_def tables_ok_def)
  show ?thesis
    using assms r by (auto simp: topo_unregister_def Let_def topo_inv_def tables_ok_def split: option.split)
      (auto simp: registered_def split: if_splits)
qed

lemma switch_enters_inv: "topo_inv t s \<Longrightarrow> topo_inv t (fst (switch_enters ac conf dp s))"
  unfolding switch_enters_def Let_def
  by (rule after_inv)
    (auto simp: inv_emit register_inv add_all_ports_inv install_lldp_flow_def Let_def
      intro!: after_inv split: option.split sum.split)

lemma switch_leaves_inv: "topo_inv t s \<Longrightarrow> topo_inv t (fst (switch_leaves conf dp s))"
  by (auto simp: switch_leaves_def inv_emit unregister_inv ports_gone_inv Let_def
      intro!: after_inv split: option.split sum.split)

lemma state_change_inv: "topo_inv t s \<Longrightarrow> topo_inv t (fst (state_change_handler ac conf dp st s))"
  by (simp add: state_change_handler_def switch_enters_inv switch_leaves_inv)

lemma upd_port_state_inv:
  assumes "topo_inv t s"
  shows "topo_inv t (fst (upd_port_state i f s))"
proof -
  have r: "registered s" using assms by (simp add: topo_inv_def tables_ok_def)
  show ?thesis
    using assms r
    by (auto simp: upd_port_state_def topo_inv_def tables_ok_def split: option.split sum.split)
      (auto simp: registered_def split: if_splits bind_splits)
qed

lemma on_port_inv:
  "topo_inv t s \<Longrightarrow> (\<And>p s. topo_inv t s \<Longrightarrow> topo_inv t (fst (f p s))) \<Longrightarrow> topo_inv t (fst (on_port dp d f s))"
  by (auto simp: on_port_def intro!: after_inv split: sum.split option.split)

lemma set_down_inv:
  assumes "topo_inv t s"
  shows "topo_inv t (fst (topo_set_down p s))"
proof -
  obtain q x where q: "pds_set_down (port_key_of p) (is_down p) (tw_ports s) = (q, x)" by fastforce
  have "ports_in_order t q"
    using pds.order_set_down [of t "tw_ports s" "port_key_of p" "is_down p"] assms
    by (simp add: q topo_inv_def tables_ok_def)
  then have "topo_inv t (s\<lparr>tw_ports := q\<rparr>)" using inv_ports [OF assms] by simp
  then show ?thesis by (simp add: topo_set_down_def q topo_link_down_ok split: option.split)
qed

lemma port_status_inv: "topo_inv t s \<Longrightarrow> topo_inv t (fst (port_status_handler ac conf dp reason d s))"
  unfolding port_status_handler_def Let_def
  by (cases reason)
    (auto intro!: after_inv on_port_inv simp: upd_port_state_inv inv_emit port_added_inv port_gone_inv set_down_inv)

section \<open>Frames\<close>

definition port_of :: "nat \<Rightarrow> topo_dp \<Rightarrow> ofp_desc \<Rightarrow> topo_port" where
  "port_of i dp d = \<lparr>tp_dpid = i, tp_version = td_version dp, tp_desc = d\<rparr>"

text \<open>A switch object has the ports of the table that are not reserved.\<close>

lemma switch_ports:
  "fold (sw_add_port i) ds sw =
     sw\<lparr>sw_ports := sw_ports sw @ filter (\<lambda>p. \<not> is_reserved p) (map (port_of i (sw_dp sw)) ds)\<rparr>"
  by (induction ds arbitrary: sw) (simp_all add: sw_add_port_def port_of_def Let_def)

lemma get_switch_ok:
  assumes "get_switch i s = Inr (Some sw)"
  obtains ps where "dict_get (tw_dps s) i = Some (sw_dp sw)" "dict_get (tw_port_state s) i = Some ps"
    "sw_ports sw = filter (\<lambda>p. \<not> is_reserved p) (map (port_of i (sw_dp sw)) (dict_values ps))"
  using assms by (auto simp: get_switch_def switch_ports split: option.splits)

lemma get_port_dpid: "get_port i no s = Inr (Some p) \<Longrightarrow> tp_dpid p = i"
  by (force simp: get_port_def get_switch_def switch_ports port_of_def split: option.splits sum.splits dest: find_SomeD)

lemma get_port_of_dpid: "get_port_of i no s = Inr (Some p) \<Longrightarrow> i = Some (tp_dpid p)"
  by (auto simp: get_port_of_def get_port_dpid split: option.splits)

lemma drop_packet_inv: "topo_inv t s \<Longrightarrow> topo_inv t (fst (drop_packet msg s))"
  by (auto simp: drop_packet_def Let_def inv_emit split: option.split)

lemma del_hosts_fields:
  "registered s' = registered s \<and> tw_links s' = tw_links s \<and> tw_ports s' = tw_ports s \<and> tw_out s' = tw_out s"
  if "del_hosts ms s = (s', x)" for s' x
  using that by (induction ms arbitrary: s) (auto split: if_splits simp: registered_def)

lemma hosts_del_ok: "hosts_ok hs \<Longrightarrow> hosts_ok (dict_del m hs)"
  by (auto simp: hosts_ok_def dict_del_def dict_wf_remove_if)

lemma del_hosts_hosts_ok: "hosts_ok (tw_hosts s) \<Longrightarrow> hosts_ok (tw_hosts (fst (del_hosts ms s)))"
  by (induction ms arbitrary: s) (auto simp: hosts_del_ok)

lemma hosts_stored: "hosts_ok hs \<Longrightarrow> h \<in> set (dict_values hs) \<Longrightarrow> dict_get hs (h_mac h) = Some h"
  by (force simp: hosts_ok_def dict_values_def dict_get_def dict_wf_def)

lemma hosts_distinct: "hosts_ok hs \<Longrightarrow> distinct (map h_mac (dict_values hs))"
proof -
  assume ok: "hosts_ok hs"
  have "map h_mac (dict_values hs) = map fst hs"
    using ok by (auto simp: hosts_ok_def dict_values_def dict_get_def dict_wf_def)
  then show ?thesis using ok by (simp add: hosts_ok_def dict_wf_def)
qed

lemma del_hosts_returns:
  "distinct ms \<Longrightarrow> \<forall>m\<in>set ms. dict_get (tw_hosts s) m \<noteq> None \<Longrightarrow> snd (del_hosts ms s) = None"
proof (induction ms arbitrary: s)
  case (Cons m ms)
  let ?s = "s\<lparr>tw_hosts := dict_del m (tw_hosts s)\<rparr>"
  have "\<forall>x\<in>set ms. dict_get (tw_hosts ?s) x \<noteq> None" using Cons.prems by auto
  then have "snd (del_hosts ms ?s) = None" using Cons.IH [of ?s] Cons.prems(1) by simp
  then show ?case using Cons.prems(2) by auto
qed simp

text \<open>Every host that is deleted is there: announcing a link does not raise.\<close>

lemma announce_returns:
  assumes "hosts_ok (tw_hosts s)"
  shows "snd (announce_link l s) = None"
proof -
  let ?s = "topo_emit (TopoLinkAdd l) s"
  let ?hs = "filter (\<lambda>h. \<not> is_edge_port (h_port h) ?s) (dict_values (tw_hosts ?s))"
  have "distinct (map h_mac ?hs)"
    using hosts_distinct [OF assms] by (simp add: distinct_map_filter)
  moreover have "\<forall>m\<in>set (map h_mac ?hs). dict_get (tw_hosts ?s) m \<noteq> None"
    using hosts_stored [OF assms] by auto
  ultimately have "snd (del_hosts (map h_mac ?hs) ?s) = None" by (rule del_hosts_returns)
  then show ?thesis by (simp add: announce_link_def Let_def)
qed

lemma announce_ok:
  assumes "topo_inv t s" and "announce_link l s = (s1, x)"
  shows "tables_ok t s1" "tw_links s1 = tw_links s" "told_links s1 = insert l (link_set s)"
proof -
  have ok: "tables_ok t s" "told_links s = link_set s" using assms(1) by (simp_all add: topo_inv_def)
  have "tables_ok t s1 \<and> tw_links s1 = tw_links s \<and> told_links s1 = insert l (link_set s)"
  proof (cases "has_link (tw_links s) l")
    case True
    then show ?thesis using assms(2) ok by (auto simp: announce_link_def link_set_def)
  next
    case False
    let ?s = "topo_emit (TopoLinkAdd l) s"
    let ?ms = "map h_mac (filter (\<lambda>h. \<not> is_edge_port (h_port h) ?s) (dict_values (tw_hosts ?s)))"
    have d: "del_hosts ?ms ?s = (s1, x)" using assms(2) False by (simp add: announce_link_def Let_def)
    note f = del_hosts_fields [OF d]
    have "hosts_ok (tw_hosts (fst (del_hosts ?ms ?s)))"
      by (rule del_hosts_hosts_ok) (use ok(1) in \<open>simp add: tables_ok_def\<close>)
    then have "hosts_ok (tw_hosts s1)" unfolding d by simp
    moreover have "told_links s1 = told_links ?s" using f by (simp add: told_links_def)
    ultimately show ?thesis using f ok by (simp add: tables_ok_def)
  qed
  then show "tables_ok t s1" "tw_links s1 = tw_links s" "told_links s1 = insert l (link_set s)" by simp_all
qed

lemma store_link_inv:
  assumes "tables_ok t s" and "told_links s = insert l (link_set s)" and "fst l \<noteq> snd l"
  shows "topo_inv t (fst (store_link clk l s))"
proof -
  obtain ls b where u: "update_link clk (fst l) (snd l) (tw_links s) = (ls, b)" by fastforce
  note U = update_link_ok [OF tables_okD(3) [OF assms(1)] assms(3), of clk, unfolded u fst_conv snd_conv]
  let ?s = "s\<lparr>tw_links := ls\<rparr>"
  have "link_set ?s = insert l (link_set s)" using U(2) by (auto simp: link_set_def)
  then have "topo_inv t ?s" using assms(1,2) U(1) by (simp add: topo_inv_def tables_ok_def)
  then show ?thesis
    by (auto simp: store_link_def u Let_def intro!: after_inv move_front_inv)
qed

lemma link_found_inv:
  assumes "topo_inv t s" and "fst l \<noteq> snd l"
  shows "topo_inv t (fst (link_found conf clk msg l s))"
proof -
  obtain s1 where s1: "announce_link l s = (s1, None)"
    using announce_returns [of s l] assms(1) by (cases "announce_link l s") (simp add: topo_inv_def tables_ok_def)
  have "tables_ok t s1" "told_links s1 = insert l (link_set s1)"
    using announce_ok [OF assms(1) s1] by (simp_all add: link_set_def)
  then have "topo_inv t (fst (store_link clk l s1))" using assms(2) by (rule store_link_inv)
  then show ?thesis
    by (auto simp: link_found_def s1 after_def drop_packet_inv split: prod.splits option.split)
qed

lemma received_inv:
  assumes "topo_inv t s"
  shows "topo_inv t (case pds_lldp_received k (tw_ports s) of Inl e \<Rightarrow> s | Inr r \<Rightarrow> s\<lparr>tw_ports := r\<rparr>)"
  using pds.order_received [of t "tw_ports s" k] assms inv_ports [OF assms, of t]
  by (auto simp: topo_inv_def tables_ok_def split: sum.split)

lemma lldp_received_inv:
  assumes "topo_inv t s"
  shows "topo_inv t (fst (lldp_received_from conf clk msg d n s))"
proof (cases "get_port_of (key_of_int d) n s")
  case (Inr src)
  show ?thesis
  proof (cases src)
    case (Some p)
    let ?dp = "tk_dp msg"
    let ?s1 = "case pds_lldp_received (port_key_of p) (tw_ports s) of Inl e \<Rightarrow> s | Inr r \<Rightarrow> s\<lparr>tw_ports := r\<rparr>"
    have s1: "topo_inv t ?s1" using assms by (rule received_inv)
    have "port_key_of p \<noteq> port_key_of q"
      if "get_port_of (td_id ?dp) no ?s1 = Inr (Some q)" "td_id ?dp \<noteq> Some (tp_dpid p)" for no q
      using get_port_of_dpid [OF that(1)] that(2) by (simp add: port_key_of_def)
    then show ?thesis
      using assms s1 unfolding lldp_received_from_def Let_def Inr Some
      by (auto intro!: link_found_inv split: sum.split option.split simp del: inv_frame)
  qed (use assms Inr in \<open>simp add: lldp_received_from_def Let_def\<close>)
qed (use assms in \<open>simp add: lldp_received_from_def Let_def\<close>)

lemma lldp_packet_in_inv:
  "topo_inv t s \<Longrightarrow> lldp_packet_in_handler ac uni oth conf clk msg s = Some r \<Longrightarrow> topo_inv t (fst r)"
  by (auto simp: lldp_packet_in_handler_def lldp_received_inv split: if_splits option.splits sum.splits)

lemma learn_host_inv:
  assumes "topo_inv t s"
  shows "topo_inv t (learn_host mac k s)"
proof -
  have ok: "hosts_ok (tw_hosts s)" using assms by (simp add: topo_inv_def tables_ok_def)
  have "hosts_ok (hosts_add (new_host mac k) (tw_hosts s))" "hosts_ok (dict_set mac (new_host mac k) (tw_hosts s))"
    using hosts_add_ok [OF ok, of "new_host mac k"] ok by (auto simp: new_host_def hosts_ok_def)
  then show ?thesis
    using assms by (auto simp: learn_host_def Let_def inv_emit inv_hosts split: option.split)
qed

lemma learn_ip_inv: "topo_inv t s \<Longrightarrow> topo_inv t (fst (learn_ip ac ip6 eth data s))"
  using hosts_update_ip_ok
  by (auto simp: learn_ip_def Let_def inv_hosts topo_invD(1) [THEN tables_okD(4)] split: sum.split)

lemma host_discovery_inv: "topo_inv t s \<Longrightarrow> topo_inv t (fst (host_discovery_packet_in_handler ac ip6 msg s))"
  by (auto simp: host_discovery_packet_in_handler_def learn_ip_inv learn_host_inv split: sum.split option.split)

section \<open>Loops\<close>

lemma send_lldp_inv:
  assumes "topo_inv t s" and "t \<le> clk"
  shows "topo_inv clk (send_lldp_packet clk k s)"
proof -
  obtain q r where q: "pds_lldp_sent clk k (tw_ports s) = (q, r)" by fastforce
  have "ports_in_order clk q"
    using pds.order_sent [of t "tw_ports s" clk k] assms by (simp add: q topo_inv_def tables_ok_def)
  then have "topo_inv clk (s\<lparr>tw_ports := q\<rparr>)" using inv_ports assms by blast
  then show ?thesis by (auto simp: send_lldp_packet_def q Let_def inv_emit split: sum.split option.split)
qed

lemma send_all_inv:
  assumes "topo_inv t s" and "t \<le> clk"
  shows "topo_inv clk (fold (send_lldp_packet clk) ks s)"
proof -
  have "topo_inv clk s" using assms by (rule inv_mono)
  then show ?thesis by (induction ks arbitrary: s) (simp_all add: send_lldp_inv)
qed

text \<open>The scan always ends: the ring of ports is finite and every key in it has its data.\<close>

lemma lldp_turn_runs:
  assumes "topo_inv t s" and "t \<le> clk"
  obtains s1 where "lldp_turn clk s = Some (s1, None)" "topo_inv clk s1"
proof -
  let ?s = "s\<lparr>tw_lldp_event := False\<rparr>"
  have "ports_in_order t (tw_ports ?s)" using assms(1) by (simp add: topo_inv_def tables_ok_def)
  then obtain xs where xs: "pds_items (tw_ports ?s) = ret xs" by (rule pds.order_items)
  obtain ks ks' w where scan: "lldp_scan clk xs = (ks, ks', w)" by (cases "lldp_scan clk xs") auto
  have "topo_inv t ?s" using assms(1) by simp
  then have "topo_inv clk (fold (send_lldp_packet clk) ks ?s)" using assms(2) by (rule send_all_inv)
  then have "topo_inv clk ((fold (send_lldp_packet clk) ks ?s)
      \<lparr>tw_pending := ks', tw_wait := (if w \<noteq> None \<and> ks' \<noteq> [] then Some 0 else w)\<rparr>)"
    by (simp only: inv_frame)
  moreover have "lldp_turn clk s =
      Some ((fold (send_lldp_packet clk) ks ?s)
        \<lparr>tw_pending := ks', tw_wait := (if w \<noteq> None \<and> ks' \<noteq> [] then Some 0 else w)\<rparr>, None)"
    using xs by (simp only: lldp_turn_def Let_def ret_def option.case sum.case scan prod.case)
  ultimately show thesis by (rule that [rotated])
qed

lemma lldp_next_inv: "topo_inv t s \<Longrightarrow> t \<le> clk \<Longrightarrow> topo_inv clk (lldp_next clk s)"
  by (auto simp: lldp_next_def inv_mono send_lldp_inv split: list.split)

lemma links_expire_inv:
  "topo_inv t s \<Longrightarrow> topo_inv t (fst (links_expire clk deleted ls s))"
proof (induction ls arbitrary: s)
  case (Cons l ls)
  obtain ls1 x where d: "link_down l (tw_links s) = (ls1, x)" by fastforce
  have ok: "links_ok (tw_links s)" using Cons.prems by (simp add: topo_inv_def tables_ok_def)
  note D = links_down_ok [OF ok, of l, unfolded d fst_conv snd_conv]
  show ?case
  proof (cases x)
    case (Some e)
    then have "\<not> has_link (tw_links s) l" using D(3) by simp
    then have "ls1 = tw_links s" using d by (simp add: link_down_def)
    then show ?thesis using Cons.prems by (simp add: d Some)
  next
    case None
    let ?s1 = "topo_emit (TopoLinkDelete l) (s\<lparr>tw_links := ls1\<rparr>)"
    let ?s2 = "?s1\<lparr>tw_links := rev_link_set_timestamp (snd l, fst l) (clk - LINK_TIMEOUT) (tw_links ?s1)\<rparr>"
    have s1: "topo_inv t ?s1"
      using Cons.prems D(1,2) by (auto simp: topo_inv_def tables_ok_def link_set_def)
    have s2: "topo_inv t ?s2"
      using s1 set_timestamp_ok by (auto simp: topo_inv_def tables_ok_def link_set_def)
    have front: "topo_inv t (fst (after (topo_move_front (snd l) ?s2)
        (\<lambda>s3. after (set_lldp_event s3) (links_expire clk deleted ls))))"
      by (rule after_inv [OF move_front_inv [OF s2]], rule after_inv) (simp_all add: Cons.IH)
    show ?thesis
      unfolding links_expire.simps d prod.case None option.case Let_def
      using Cons.IH [OF s1] Cons.IH [OF s2] front by simp
  qed
qed simp

lemma link_turn_inv: "topo_inv t s \<Longrightarrow> topo_inv t (fst (link_turn clk s))"
  by (simp add: link_turn_def Let_def links_expire_inv)

section \<open>The application as a transition system\<close>

datatype topo_event =
    StateChange topo_dp dispatcher
  | PortStatus topo_dp port_reason ofp_desc
  | LldpPacketIn topo_packet
  | HostPacketIn topo_packet
  | LldpTurn
  | LldpNext
  | LinkTurn

text \<open>
  Handlers and turns of the two loops are atomic; \<open>lldp_loop\<close> is interrupted by its sleeps, so
  each port it serves after one is a step of its own.  An exception ends the step.
\<close>

fun topo_do ::
  "addrconv \<Rightarrow> (nat \<Rightarrow> char) \<Rightarrow> other_parsers \<Rightarrow> addr6 \<Rightarrow> topo_conf \<Rightarrow> rat \<Rightarrow> topo_event \<Rightarrow>
    switches \<Rightarrow> topo_result option"
where
  "topo_do ac uni oth ip6 conf clk (StateChange dp st) s = Some (state_change_handler ac conf dp st s)"
| "topo_do ac uni oth ip6 conf clk (PortStatus dp reason d) s = Some (port_status_handler ac conf dp reason d s)"
| "topo_do ac uni oth ip6 conf clk (LldpPacketIn msg) s = lldp_packet_in_handler ac uni oth conf clk msg s"
| "topo_do ac uni oth ip6 conf clk (HostPacketIn msg) s = Some (host_discovery_packet_in_handler ac ip6 msg s)"
| "topo_do ac uni oth ip6 conf clk LldpTurn s = lldp_turn clk s"
| "topo_do ac uni oth ip6 conf clk LldpNext s = Some (lldp_next clk s, None)"
| "topo_do ac uni oth ip6 conf clk LinkTurn s = Some (link_turn clk s)"

text \<open>The state with the time of the last step; the clock does not go back.\<close>

definition topo_step ::
  "addrconv \<Rightarrow> (nat \<Rightarrow> char) \<Rightarrow> other_parsers \<Rightarrow> addr6 \<Rightarrow> topo_conf \<Rightarrow>
    rat \<times> switches \<Rightarrow> topo_event \<Rightarrow> rat \<times> switches \<Rightarrow> bool"
where
  "topo_step ac uni oth ip6 conf c e c' \<longleftrightarrow>
     fst c \<le> fst c' \<and> (\<exists>x. topo_do ac uni oth ip6 conf (fst c') e (snd c) = Some (snd c', x))"

definition topo_start :: "rat \<times> switches \<Rightarrow> bool" where
  "topo_start c \<longleftrightarrow> snd c = topo_init"

interpretation topo: transition_system topo_start "topo_step ac uni oth ip6 conf" for ac uni oth ip6 conf .

lemma topo_do_inv:
  assumes "topo_inv t s" and "t \<le> clk" and "topo_do ac uni oth ip6 conf clk e s = Some (s', x)"
  shows "topo_inv clk s'"
proof -
  have inv: "topo_inv clk s" using assms(1,2) by (rule inv_mono)
  show ?thesis
  proof (cases e)
    case (LldpPacketIn msg)
    then show ?thesis using lldp_packet_in_inv [OF inv] assms(3) by fastforce
  next
    case LldpTurn
    obtain s1 where "lldp_turn clk s = Some (s1, None)" "topo_inv clk s1" using assms(1,2) by (rule lldp_turn_runs)
    then show ?thesis using assms(3) LldpTurn by simp
  next
    case LldpNext
    then show ?thesis using lldp_next_inv [OF assms(1,2)] assms(3) by simp
  next
    case (StateChange dp st)
    then show ?thesis using state_change_inv [OF inv, of ac conf dp st] assms(3) by simp
  next
    case (PortStatus dp reason d)
    then show ?thesis using port_status_inv [OF inv, of ac conf dp reason d] assms(3) by simp
  next
    case (HostPacketIn msg)
    then show ?thesis using host_discovery_inv [OF inv, of ac ip6 msg] assms(3) by simp
  next
    case LinkTurn
    then show ?thesis using link_turn_inv [OF inv, of clk] assms(3) by simp
  qed
qed

lemma topo_reachable_inv:
  assumes "topo.reachable ac uni oth ip6 conf c"
  shows "topo_inv (fst c) (snd c)"
  using assms
proof (rule topo.invariant_rule [where I = "\<lambda>c. topo_inv (fst c) (snd c)"])
  show "topo_inv (fst c) (snd c)" if "topo_start c" for c using that by (simp add: topo_start_def init_inv)
  show "topo_inv (fst c') (snd c')" if "topo_inv (fst c) (snd c)" and "topo_step ac uni oth ip6 conf c e c'" for c e c'
    using that topo_do_inv unfolding topo_step_def by blast
qed

end
