(* ===== verification/Ipv6_Codec.thy ===== *)
theory Ipv6_Codec
  imports Ipv6
begin

text \<open>
  The codec contract of the IPv6 header with any chain of well-formed extension headers.
\<close>

section \<open>Options\<close>

definition ip6_option_wf :: "ip6_option \<Rightarrow> bool" where
  "ip6_option_wf p \<longleftrightarrow> opt_type p < 256 \<and>
     (case opt_data p of
        None \<Rightarrow> opt_len p = (if opt_type p = 0 then - 1 else 0)
      | Some d \<Rightarrow> 0 < opt_type p \<and> opt_len p = int (length d) \<and> 0 < length d \<and> length d < 256)"

lemma pack_s_full [simp]: "pack_s (length d) d = d"
  by (simp add: pack_s_def)

lemma slice_middle: "\<lbrakk>length pre = k; length b = n\<rbrakk> \<Longrightarrow> slice k (k + n) (pre @ b @ rest) = b"
  by (auto simp: slice_def)

lemma ip6_option_ok:
  assumes "ip6_option_wf p"
  obtains b where "ip6_option_serialize p = Inr b" "length b = ip6_option_size p"
    "ip6_option_parser (b @ rest) = Inr p"
proof (cases "opt_data p")
  case None
  then show thesis
  proof (cases "opt_type p = 0")
    case True
    with None assms show thesis
      by (intro that [of "[0]"]) (cases p; simp add: ip6_option_wf_def ip6_option_serialize_def
          ip6_option_size_def ip6_option_parser_def u8_at_def)+
  next
    case False
    with None assms show thesis
      by (intro that [of "[word_of_nat (opt_type p), 0]"]) (cases p; simp add: ip6_option_wf_def
          ip6_option_serialize_def ip6_option_size_def ip6_option_parser_def u8_at_def)+
  qed
next
  case (Some d)
  with assms have w: "0 < opt_type p" "opt_type p < 256" "opt_len p = int (length d)" "0 < length d" "length d < 256"
    by (auto simp: ip6_option_wf_def)
  show thesis
    using w Some
    by (intro that [of "word_of_nat (opt_type p) # word_of_nat (length d) # d"])
      (cases p; simp add: ip6_option_serialize_def ip6_option_size_def ip6_option_parser_def u8_at_def slice_def)+
qed

definition opts_size :: "ip6_option list \<Rightarrow> nat" where
  "opts_size ps = sum_list (map ip6_option_size ps)"

lemma parse_opts_wire:
  assumes "list_all ip6_option_wf ps" and "length pre = pos" and "pos + opts_size ps = n"
  shows "\<exists>b. opts_serialize ps = Inr b \<and> length b = opts_size ps \<and> parse_opts pos n (pre @ b @ rest) = Inr ps"
  using assms
proof (induction ps arbitrary: pre pos)
  case Nil
  then show ?case by (subst parse_opts.simps) (simp add: opts_size_def)
next
  case (Cons p ps)
  obtain b where b: "ip6_option_serialize p = Inr b" "length b = ip6_option_size p"
    "\<And>rest. ip6_option_parser (b @ rest) = Inr p"
    using Cons.prems(1) by (metis ip6_option_ok list.pred_inject(2) sum.inject(2))
  have "0 < ip6_option_size p" using ip6_option_parser_size [OF b(3)] .
  moreover obtain b' where b': "opts_serialize ps = Inr b'" "length b' = opts_size ps"
    "parse_opts (pos + ip6_option_size p) n ((pre @ b) @ b' @ rest) = Inr ps"
    using Cons.IH [of "pre @ b" "pos + ip6_option_size p"] Cons.prems b(2) by (auto simp: opts_size_def)
  ultimately show ?case
    using Cons.prems(2,3) b
    by (intro exI [of _ "b @ b'"]) (subst parse_opts.simps, simp add: opts_size_def)
qed

definition opt_header_wf :: "nat \<Rightarrow> nat \<Rightarrow> ip6_option list option \<Rightarrow> bool" where
  "opt_header_wf n sz d \<longleftrightarrow> n < 256 \<and> sz < 256 \<and> sz mod 8 = 0 \<and>
     (case d of None \<Rightarrow> False | Some ps \<Rightarrow> list_all ip6_option_wf ps \<and> opts_size ps = 6 + sz)"

lemma opt_header_ok:
  assumes "opt_header_wf n sz d"
  shows "\<exists>b. opt_header_serialize n sz d = Inr b \<and> length b = 8 + sz \<and>
    opt_header_parser con (b @ rest) = Inr (con n sz d)"
proof -
  obtain ps where ps: "d = Some ps" "list_all ip6_option_wf ps" "opts_size ps = 6 + sz"
    and w: "n < 256" "sz < 256" "sz mod 8 = 0"
    using assms by (auto simp: opt_header_wf_def split: option.splits)
  let ?h = "[word_of_nat n, word_of_nat sz] :: bytes"
  obtain b where "opts_serialize ps = Inr b" "length b = 6 + sz" "parse_opts 2 (8 + sz) (?h @ b @ rest) = Inr ps"
    using parse_opts_wire [OF ps(2), of ?h 2 "8 + sz" rest] ps(3) by auto
  then show ?thesis
    using w by (intro exI [of _ "?h @ b"]) (simp add: ps(1) opt_header_serialize_def opt_header_parser_def u8_at_def)
qed

section \<open>Source routes\<close>

definition adr_wf :: "addr6 \<Rightarrow> nat \<Rightarrow> string \<Rightarrow> bool" where
  "adr_wf a6 c a \<longleftrightarrow> (\<exists>b. ip6_text_of a6 a b \<and> take c b = replicate c 0)"

lemma adr_wire:
  assumes "adr_wf a6 c a" and "c < 16"
  obtains b where "ip6_to_bin a6 a = Inr b" "pack_s (16 - c) (slice c 16 b) = drop c b" "length (drop c b) = 16 - c"
    "ip6_to_text a6 (replicate c 0 @ drop c b) = a"
proof -
  obtain b where b: "length b = 16" "ip6_to_bin a6 a = Inr b" "ip6_to_text a6 b = a" "take c b = replicate c 0"
    using assms(1) by (auto simp: adr_wf_def ip6_text_of_def)
  have "replicate c 0 @ drop c b = b" using b(4) append_take_drop_id [of c b] by simp
  with b that [of b] show thesis by (simp add: pack_s_def slice_def)
qed

lemma parse_adrs_wire:
  assumes "ads \<noteq> []" and "list_all (adr_wf a6 ci) (butlast ads)" and "adr_wf a6 ce (last ads)"
    and "ci < 16" and "ce < 16" and "length pre = pos" and "stop = pos + (length ads - 1) * (16 - ci)"
  shows "\<exists>b. adrs_serialize a6 ci ce ads = Inr b \<and> length b = (length ads - 1) * (16 - ci) + (16 - ce) \<and>
    parse_adrs a6 ci ce stop pos (pre @ b @ rest) = Inr ads"
  using assms
proof (induction ads arbitrary: pre pos)
  case (Cons a as)
  show ?case
  proof (cases as)
    case Nil
    obtain b where b: "ip6_to_bin a6 a = Inr b" "pack_s (16 - ce) (slice ce 16 b) = drop ce b"
      "length (drop ce b) = 16 - ce" "ip6_to_text a6 (replicate ce 0 @ drop ce b) = a"
      using Cons.prems(3,5) Nil by (auto elim: adr_wire)
    have "slice pos (pos + (16 - ce)) (pre @ drop ce b @ rest) = drop ce b"
      by (rule slice_middle [OF Cons.prems(6) b(3)])
    then show ?thesis
      using b Nil Cons.prems(6,7)
      by (intro exI [of _ "drop ce b"]) (subst parse_adrs.simps, simp)
  next
    case (Cons a' as')
    obtain b where b: "ip6_to_bin a6 a = Inr b" "pack_s (16 - ci) (slice ci 16 b) = drop ci b"
      "length (drop ci b) = 16 - ci" "ip6_to_text a6 (replicate ci 0 @ drop ci b) = a"
      using Cons.prems(2,4) Cons by (auto elim: adr_wire)
    have sl: "slice pos (pos + (16 - ci)) (pre @ drop ci b @ r) = drop ci b" for r
      by (rule slice_middle [OF Cons.prems(6) b(3)])
    have stop: "stop = pos + (16 - ci) + (length as - 1) * (16 - ci)"
      using Cons.prems(7) Cons by simp
    obtain b' where b': "adrs_serialize a6 ci ce as = Inr b'" "length b' = (length as - 1) * (16 - ci) + (16 - ce)"
      "parse_adrs a6 ci ce stop (pos + (16 - ci)) ((pre @ drop ci b) @ b' @ rest) = Inr as"
      using Cons.IH [of "pre @ drop ci b" "pos + (16 - ci)"] Cons.prems(2-6) Cons b(3) stop by auto
    define k where "k = 16 - ci"
    have k: "0 < k" "pos < stop" using stop Cons.prems(4) by (simp_all add: k_def)
    note F = b(2-4) b'(2,3) sl [of "b' @ rest"]
    show ?thesis
      using b(1) b'(1) F [folded k_def] Cons Cons.prems(4,6) k
      by (intro exI [of _ "drop ci b @ b'"]) (subst parse_adrs.simps, simp add: k_def [symmetric])
  qed
qed simp

definition routing_wf :: "addr6 \<Rightarrow> nat \<Rightarrow> nat \<Rightarrow> nat \<Rightarrow> nat \<Rightarrow> nat \<Rightarrow> nat \<Rightarrow> string list \<Rightarrow> bool" where
  "routing_wf a6 n sz t s ci ce ads \<longleftrightarrow> n < 256 \<and> t = 3 \<and> s < 256 \<and> ci < 16 \<and> ce < 16 \<and> sz < 256 \<and>
     (if sz = 0 then ads = [] \<and> rt_size ci ce ads = 0
      else ads \<noteq> [] \<and> rt_pad ci ce ads = 0 \<and> sz * 8 = (length ads - 1) * (16 - ci) + (16 - ce) \<and>
        list_all (adr_wf a6 ci) (butlast ads) \<and> adr_wf a6 ce (last ads))"

lemma rt_pad_less: "rt_pad ci ce ads < 8"
  unfolding rt_pad_def by (subst nat_less_iff) simp_all

lemma routing_ok:
  assumes "routing_wf a6 n sz t s ci ce ads"
  shows "\<exists>b. routing_type3_serialize a6 n sz t s ci ce ads = Inr b \<and> length b = (sz + 1) * 8 \<and>
    routing_parser a6 (b @ rest) = Inr (Routing3 n sz t s ci ce ads)"
proof -
  define p where "p = rt_pad ci ce ads"
  have w: "n < 256" "t = 3" "s < 256" "ci < 16" "ce < 16" "sz < 256" "p < 8"
    using assms rt_pad_less by (auto simp: routing_wf_def p_def)
  define x y where "x = ci * 16 + ce" and "y = p * 16"
  have c: "push_bit 4 ci OR ce = x" "x < 256" "push_bit 4 p = y" "y < 256"
    using w nibbles [of ce ci] by (simp_all add: push_bit_eq_mult x_def y_def)
  let ?h = "[word_of_nat n, word_of_nat sz, 3, word_of_nat s, word_of_nat x, word_of_nat y, 0, 0] :: bytes"
  have u3: "unat (3 :: byte) = 3" by simp
  have rd: "u8_at (?h @ r) 0 = n" "u8_at (?h @ r) 1 = sz" "u8_at (?h @ r) 2 = 3" "u8_at (?h @ r) 3 = s"
    "u8_at (?h @ r) 4 = x" "u8_at (?h @ r) 5 = y" for r
    using w c(2,4) by (simp_all add: u8_at_def u3)
  have fl: "drop_bit 4 x = ci" "x AND 15 = ce" "drop_bit 4 y = p"
    using w by (simp_all add: drop_bit_eq_div and_masks x_def y_def)
  show ?thesis
  proof (cases "sz = 0")
    case True
    then have a: "ads = []" "rt_size ci ce [] = 0" using assms by (auto simp: routing_wf_def)
    have "routing_type3_serialize a6 n sz t s ci ce ads = Inr ?h"
      using w c a True p_def
      by (simp add: routing_type3_serialize_def Let_def pack_int_B_def)
    moreover have "routing_parser a6 (?h @ rest) = Inr (Routing3 n sz t s ci ce ads)"
      unfolding routing_parser_def routing_type3_parser_def rd fl Let_def using True a(1) w(2) by simp
    ultimately show ?thesis using True by (intro exI [of _ ?h]) simp
  next
    case False
    then have a: "ads \<noteq> []" "p = 0" "sz * 8 = (length ads - 1) * (16 - ci) + (16 - ce)"
      "list_all (adr_wf a6 ci) (butlast ads)" "adr_wf a6 ce (last ads)"
      using assms by (simp_all add: routing_wf_def p_def)
    let ?stop = "(sz + 1) * 8 - ((16 - ce) + p)"
    have "?stop = 8 + (length ads - 1) * (16 - ci)" using a(2,3) by simp
    then obtain b where b: "adrs_serialize a6 ci ce ads = Inr b" "length b = sz * 8"
      "parse_adrs a6 ci ce ?stop 8 (?h @ b @ rest) = Inr ads"
      using parse_adrs_wire [OF a(1,4,5) w(4,5), of ?h 8 ?stop rest] a(3) by auto
    have "routing_type3_serialize a6 n sz t s ci ce ads = Inr (?h @ b)"
      using w c False b(1)
      by (simp add: routing_type3_serialize_def Let_def pack_int_B_def p_def [symmetric])
    moreover have "routing_parser a6 (?h @ b @ rest) = Inr (Routing3 n sz t s ci ce ads)"
      unfolding routing_parser_def routing_type3_parser_def rd fl Let_def using False w(2) b(3) by simp
    ultimately show ?thesis using b(2) by (intro exI [of _ "?h @ b"]) simp
  qed
qed

section \<open>All extension headers\<close>

fun ext_type :: "ext_hdr \<Rightarrow> nat" where
  "ext_type (HopOpts n sz d) = 0"
| "ext_type (DstOpts n sz d) = 60"
| "ext_type (Routing3 n sz t s ci ce ads) = 43"
| "ext_type (Fragment n off mf i) = 44"
| "ext_type (Auth n sz spi sq d) = 51"

fun ext_wf :: "addr6 \<Rightarrow> ext_hdr \<Rightarrow> bool" where
  "ext_wf a6 (HopOpts n sz d) = opt_header_wf n sz d"
| "ext_wf a6 (DstOpts n sz d) = opt_header_wf n sz d"
| "ext_wf a6 (Routing3 n sz t s ci ce ads) = routing_wf a6 n sz t s ci ce ads"
| "ext_wf a6 (Fragment n off mf i) = (n < 256 \<and> off < 8192 \<and> mf < 2 \<and> i < 4294967296)"
| "ext_wf a6 (Auth n sz spi sq d) =
     (n < 256 \<and> 0 < sz \<and> sz < 256 \<and> spi < 4294967296 \<and> sq < 4294967296 \<and> length d = (sz + 2) * 4 - 12)"

lemma fragment_ok:
  assumes "n < 256" "off < 8192" "mf < 2" "i < 4294967296"
  shows "\<exists>b. ext_serialize a6 (Fragment n off mf i) = Inr b \<and> length b = 8 \<and>
    fragment_parser (b @ rest) = Inr (Fragment n off mf i)"
proof -
  define x where "x = off * 8 + mf"
  have x2: "x = (off * 4) * 2 + mf" by (simp add: x_def)
  have "x mod 2 = mf" using assms(3) unfolding x2 mod_mult_self3 by simp
  then have x: "push_bit 3 off OR mf = x" "x < 65536" "drop_bit 3 x = off" "x AND 1 = mf"
    using assms or_disjoint [of mf 3 off] by (simp_all add: x_def drop_bit_eq_div and_masks)
  let ?b = "word_of_nat n # 0 # be16 x @ be32 i"
  have "u8_at (?b @ rest) 0 = n" "u16_at (?b @ rest) 2 = x" "u32_at (?b @ rest) 4 = i"
    using assms x(2) by (simp_all add: read_fields)
  then have "fragment_parser (?b @ rest) = Inr (Fragment n off mf i)"
    unfolding fragment_parser_def using x(3,4) by simp
  then show ?thesis using assms x by (intro exI [of _ ?b]) simp
qed

lemma auth_ok:
  assumes "n < 256" "0 < sz" "sz < 256" "spi < 4294967296" "sq < 4294967296" "length d = (sz + 2) * 4 - 12"
  shows "\<exists>b. ext_serialize a6 (Auth n sz spi sq d) = Inr b \<and> length b = (sz + 2) * 4 \<and>
    auth_parser (b @ rest) = Inr (Auth n sz spi sq d)"
proof -
  let ?h = "word_of_nat n # word_of_nat sz # 0 # 0 # be32 spi @ be32 sq"
  have rd: "u8_at (?h @ r) 0 = n" "u8_at (?h @ r) 1 = sz" "u32_at (?h @ r) 4 = spi" "u32_at (?h @ r) 8 = sq" for r
    using assms by (simp_all add: read_fields)
  have len: "(sz + 2) * 4 = 12 + length d" "12 \<le> (sz + 2) * 4" using assms(2,6) by simp_all
  have "slice 12 (12 + length d) (?h @ d @ rest) = d" by (rule slice_middle) simp_all
  then have "auth_parser (?h @ d @ rest) = Inr (Auth n sz spi sq d)"
    unfolding auth_parser_def rd Let_def len(1) by simp
  moreover have "ext_serialize a6 (Auth n sz spi sq d) = Inr (?h @ d)"
    using assms(1,3-5) len by simp
  moreover have "length (?h @ d) = (sz + 2) * 4" using len by simp
  ultimately show ?thesis unfolding append_assoc [symmetric] by blast
qed

lemma ext_ok:
  assumes "ext_wf a6 h"
  obtains b f where "ext_serialize a6 h = Inr b" "length b = ext_len h"
    "ext_parser a6 (ext_type h) = Some f" "f (b @ rest) = Inr h"
proof (cases h)
  case (HopOpts n sz d)
  then show thesis
    using opt_header_ok [of n sz d HopOpts rest] assms that by (auto simp: ext_parser_def)
next
  case (DstOpts n sz d)
  then show thesis
    using opt_header_ok [of n sz d DstOpts rest] assms that by (auto simp: ext_parser_def)
next
  case (Routing3 n sz t s ci ce ads)
  then show thesis
    using routing_ok [of a6 n sz t s ci ce ads rest] assms that by (auto simp: ext_parser_def)
next
  case (Fragment n off mf i)
  then show thesis
    using fragment_ok [of n off mf i a6 rest] assms that by (auto simp: ext_parser_def)
next
  case (Auth n sz spi sq d)
  then show thesis
    using auth_ok [of n sz spi sq d a6 rest] assms that by (auto simp: ext_parser_def)
qed

text \<open>Each header names the type of the next; the last one names a protocol.\<close>

fun ext_chain :: "addr6 \<Rightarrow> nat \<Rightarrow> ext_hdr list \<Rightarrow> bool" where
  "ext_chain a6 t [] \<longleftrightarrow> ext_parser a6 t = None"
| "ext_chain a6 t (h # hs) \<longleftrightarrow> t = ext_type h \<and> ext_wf a6 h \<and> ext_chain a6 (ext_nxt h) hs"

definition ext_last :: "nat \<Rightarrow> ext_hdr list \<Rightarrow> nat" where
  "ext_last t hs = (if hs = [] then t else ext_nxt (last hs))"

text \<open>A well-formed header is complete: its size is not left to \<open>serialize\<close>.\<close>

lemma ext_wf_filled: "ext_wf a6 h \<Longrightarrow> ext_filled h = h"
  by (cases h) (auto simp: opt_header_wf_def routing_wf_def split: if_splits option.splits)

lemma ext_chain_filled: "ext_chain a6 t hs \<Longrightarrow> map ext_filled hs = hs"
  by (induction hs arbitrary: t) (auto simp: ext_wf_filled)

lemma exts_ok:
  assumes "ext_chain a6 t hs"
  shows "\<exists>b. exts_serialize a6 hs = Inr b \<and> length b = exts_len hs \<and>
    parse_exts a6 t (b @ rest) = Inr (hs, ext_last t hs)"
  using assms
proof (induction hs arbitrary: t)
  case Nil
  then show ?case by (subst parse_exts.simps) (simp add: exts_len_def ext_last_def)
next
  case (Cons h hs)
  obtain b' where b': "exts_serialize a6 hs = Inr b'" "length b' = exts_len hs"
    "parse_exts a6 (ext_nxt h) (b' @ rest) = Inr (hs, ext_last (ext_nxt h) hs)"
    using Cons.IH [of "ext_nxt h"] Cons.prems by auto
  obtain b f where b: "ext_serialize a6 h = Inr b" "length b = ext_len h"
    "ext_parser a6 t = Some f" "f (b @ b' @ rest) = Inr h"
    using ext_ok [of a6 h "b' @ rest"] Cons.prems by auto
  show ?case
    using b b' by (intro exI [of _ "b @ b'"]) (subst parse_exts.simps, simp add: exts_len_def ext_last_def)
qed

section \<open>The header\<close>

definition ipv6_wf :: "addr6 \<Rightarrow> ipv6 \<Rightarrow> bytes \<Rightarrow> bool" where
  "ipv6_wf a6 h payload \<longleftrightarrow>
     ip6_version h < 16 \<and> traffic_class h < 256 \<and> flow_label h < 1048576 \<and> ip6_nxt h < 256 \<and> hop_limit h < 256 \<and>
     length payload + exts_len (ext_hdrs h) < 65536 \<and>
     (payload_length h = 0 \<or> length payload \<le> payload_length h \<and> payload_length h < 65536) \<and>
     (\<exists>b. ip6_text_of a6 (ip6_src h) b) \<and> (\<exists>b. ip6_text_of a6 (ip6_dst h) b) \<and>
     ext_chain a6 (ip6_nxt h) (ext_hdrs h)"

definition ipv6_norm :: "ipv6 \<Rightarrow> bytes \<Rightarrow> ipv6" where
  "ipv6_norm h payload =
     (if payload_length h = 0 then h\<lparr>payload_length := length payload + exts_len (ext_hdrs h)\<rparr> else h)"

lemma label_bits:
  assumes "v < 16" and "c < 256" and "l < (1048576 :: nat)"
  defines "x \<equiv> push_bit 28 v OR push_bit 20 c OR l"
  shows "x < 4294967296" "drop_bit 28 x = v" "drop_bit 20 x AND 255 = c" "x AND 1048575 = l"
proof -
  have "push_bit 20 c OR l = c * 1048576 + l" using or_disjoint [of l 20 c] assms(3) by simp
  moreover have lo: "c * 1048576 + l < 268435456" using assms(2,3) by simp
  ultimately have x: "x = v * 268435456 + (c * 1048576 + l)"
    using or_disjoint [of "c * 1048576 + l" 28 v] by (simp add: x_def or.assoc)
  show "x < 4294967296" using x lo assms(1) by simp
  show "drop_bit 28 x = v" using lo by (simp add: x drop_bit_eq_div)
  have x': "x = (v * 256 + c) * 1048576 + l" by (simp add: x)
  have "x div 1048576 = v * 256 + c" using assms(3) by (simp only: x') simp
  moreover have "x mod 1048576 = l" using assms(3) unfolding x' mod_mult_self3 by simp
  ultimately show "drop_bit 20 x AND 255 = c" "x AND 1048575 = l"
    using and_mask [of x 20] assms(2) by (simp_all add: drop_bit_eq_div and_masks)
qed

lemma ipv6_fixed_ok:
  assumes "ipv6_wf a6 h payload" and "pl < 65536"
  shows "\<exists>b. ipv6_fixed a6 h pl = Inr b \<and> length b = 40 \<and>
    (\<forall>rest. ipv6_parser a6 (b @ rest) =
       (case parse_exts a6 (ip6_nxt h) rest of
          Inl e \<Rightarrow> Inl e
        | Inr (hs, l) \<Rightarrow> Inr (h\<lparr>payload_length := pl, ext_hdrs := hs\<rparr>, l,
            slice (40 + exts_len hs) (40 + exts_len hs + pl) (b @ rest))))"
proof -
  obtain s d where sd: "length s = 16" "ip6_to_bin a6 (ip6_src h) = Inr s" "ip6_to_text a6 s = ip6_src h"
    "length d = 16" "ip6_to_bin a6 (ip6_dst h) = Inr d" "ip6_to_text a6 d = ip6_dst h"
    using assms(1) by (auto simp: ipv6_wf_def ip6_text_of_def)
  have w: "ip6_version h < 16" "traffic_class h < 256" "flow_label h < 1048576" "ip6_nxt h < 256" "hop_limit h < 256"
    using assms(1) by (simp_all add: ipv6_wf_def)
  define x where "x = push_bit 28 (ip6_version h) OR push_bit 20 (traffic_class h) OR flow_label h"
  note X = label_bits [OF w(1-3), folded x_def]
  let ?b = "be32 x @ be16 pl @ word_of_nat (ip6_nxt h) # word_of_nat (hop_limit h) # s @ d"
  have rd: "u32_at (?b @ r) 0 = x" "u16_at (?b @ r) 4 = pl" "u8_at (?b @ r) 6 = ip6_nxt h" "u8_at (?b @ r) 7 = hop_limit h"
    "slice 8 24 (?b @ r) = s" "slice 24 40 (?b @ r) = d" "drop 40 (?b @ r) = r" for r
    using w(4,5) assms(2) X(1) sd(1,4) slice_middle [of "take 8 ?b" 8 s 16 "d @ r"] slice_middle [of "take 24 ?b" 24 d 16 r]
    by (simp_all add: read_fields)
  have "ipv6_fixed a6 h pl = Inr ?b"
    using w(4,5) assms(2) X(1) by (simp add: ipv6_fixed_def sd x_def)
  moreover have "length ?b = 40" using sd by simp
  moreover have "ipv6_parser a6 (?b @ r) =
       (case parse_exts a6 (ip6_nxt h) r of
          Inl e \<Rightarrow> Inl e
        | Inr (hs, l) \<Rightarrow> Inr (h\<lparr>payload_length := pl, ext_hdrs := hs\<rparr>, l,
            slice (40 + exts_len hs) (40 + exts_len hs + pl) (?b @ r)))" for r
    unfolding ipv6_parser_def rd Let_def X(2-4) using sd(1,4) by (cases h) (simp add: sd(3,6) split: sum.split)
  ultimately show ?thesis by blast
qed

lemma ipv6_ok:
  assumes "ipv6_wf a6 h payload"
  shows "\<exists>b. ipv6_serialize a6 h payload = Inr (b, ipv6_norm h payload) \<and> length b = ipv6_len h \<and>
    ipv6_parser a6 (b @ payload) = Inr (ipv6_norm h payload, ext_last (ip6_nxt h) (ext_hdrs h), payload)"
proof -
  let ?pl = "payload_length (ipv6_norm h payload)"
  have pl: "?pl < 65536" "length payload \<le> ?pl" "payload_length h < 65536"
    using assms by (auto simp: ipv6_wf_def ipv6_norm_def)
  obtain x where x: "exts_serialize a6 (ext_hdrs h) = Inr x" "length x = exts_len (ext_hdrs h)"
    "parse_exts a6 (ip6_nxt h) (x @ payload) = Inr (ext_hdrs h, ext_last (ip6_nxt h) (ext_hdrs h))"
    using exts_ok [of a6 "ip6_nxt h" "ext_hdrs h" payload] assms by (auto simp: ipv6_wf_def)
  obtain b where b: "ipv6_fixed a6 h ?pl = Inr b" "length b = 40"
    "ipv6_parser a6 (b @ x @ payload) = Inr (h\<lparr>payload_length := ?pl\<rparr>, ext_last (ip6_nxt h) (ext_hdrs h),
       slice (40 + exts_len (ext_hdrs h)) (40 + exts_len (ext_hdrs h) + ?pl) (b @ x @ payload))"
    using ipv6_fixed_ok [OF assms pl(1)] x(3) by fastforce
  have "slice (40 + exts_len (ext_hdrs h)) (40 + exts_len (ext_hdrs h) + ?pl) (b @ x @ payload) = payload"
    using b(2) x(2) pl(2) by (simp add: slice_def)
  moreover have "h\<lparr>payload_length := ?pl\<rparr> = ipv6_norm h payload" by (simp add: ipv6_norm_def)
  moreover have hs: "map ext_filled (ext_hdrs h) = ext_hdrs h" "h\<lparr>ext_hdrs := ext_hdrs h\<rparr> = h"
    "h\<lparr>payload_length := l, ext_hdrs := ext_hdrs h\<rparr> = h\<lparr>payload_length := l\<rparr>" for l
    using assms by (auto simp: ipv6_wf_def dest: ext_chain_filled)
  moreover have "ipv6_serialize a6 h payload = Inr (b @ x, ipv6_norm h payload)"
  proof (cases "payload_length h = 0")
    case True
    obtain b0 where "ipv6_fixed a6 h 0 = Inr b0" using ipv6_fixed_ok [OF assms pl(3)] True by auto
    then show ?thesis using True x(1) b(1) by (simp add: ipv6_serialize_def ipv6_norm_def Let_def hs)
  next
    case False
    then show ?thesis using x(1) b(1) by (simp add: ipv6_serialize_def ipv6_norm_def hs)
  qed
  ultimately show ?thesis using b(2,3) x(2) by (intro exI [of _ "b @ x"]) (simp add: ipv6_len_def)
qed

interpretation ipv6_codec: codec "ipv6_wf a6" "\<lambda>h p. map_sum id fst (ipv6_serialize a6 h p)" ipv6_norm
    "\<lambda>b. map_sum id (\<lambda>(h, l, rest). (h, rest)) (ipv6_parser a6 b)" for a6
proof
  fix h payload assume wf: "ipv6_wf a6 h payload"
  then show "\<exists>b. map_sum id fst (ipv6_serialize a6 h payload) = Inr b" using ipv6_ok [OF wf] by auto
  show "map_sum id (\<lambda>(h, l, rest). (h, rest)) (ipv6_parser a6 (b @ payload)) = Inr (ipv6_norm h payload, payload)"
    if "map_sum id fst (ipv6_serialize a6 h payload) = Inr b" for b
    using that ipv6_ok [OF wf] by auto
qed

text \<open>A converter that prints an address as one character per byte.\<close>

definition sample_a6 :: addr6 where
  "sample_a6 = \<lparr>ip6_to_text = map (\<lambda>x. char_of (unat x)),
     ip6_to_bin = (\<lambda>s. if length s = 16 then Inr (map (\<lambda>c. word_of_nat (of_char c)) s)
                    else Inl (OtherError ''AddrFormatError''))\<rparr>"

lemma sample_a6_text: "length b = 16 \<Longrightarrow> ip6_text_of sample_a6 (ip6_to_text sample_a6 b) b"
  by (simp add: ip6_text_of_def sample_a6_def unat_byte_less comp_def)

end
