(* ===== verification/Topo_Properties.thy ===== *)
theory Topo_Properties
  imports Stp_Samples Topo_Invariants Ipv6_Codec
begin

text \<open>
  Properties of topology discovery: the table of ports behind its ring of nodes, the discovery
  frame, what the events tell about the links, the scan of the discovery loop, and a switch that
  leaves.
\<close>

declare all_zero_append [simp] all_zero_simps [simp]

section \<open>The table of ports\<close>

text \<open>
  C27.  Whatever operations are called on the table of ports, in whatever order, iterating over it
  ends and yields exactly the ports and the data of the list that the same operations make of the
  empty list: a new port and one that is moved go to the front, one that was served to the end.
\<close>

theorem port_table_is_ordered_list:
  "pds_items (fold do_pds calls pds_empty) = ret (fold spec_pds calls [])"
  using run_pds_abs [OF abs_empty] by (rule abs_items)

section \<open>The discovery frame\<close>

text \<open>
  C30.  The discovery frame that the controller builds for port \<open>n\<close> of switch \<open>d\<close> is decoded, at
  whatever switch it arrives, to that switch and port: for every datapath id of 64 bits, every
  port number of 32 bits and every port address.
\<close>

theorem lldp_frame_roundtrip:
  assumes "d < 2 ^ 64" and "n < 2 ^ 32" and "t < 65536"
    and "mac_text_of ac LLDP_MAC_NEAREST_BRIDGE g" and "mac_text_of ac dl_addr s"
  shows "\<exists>frame. lldp_packet ac d n dl_addr t = Inr frame \<and> length frame = 60 \<and>
    lldp_parse ac uni oth frame = ret (int d, n)"
  using assms by (rule lldp_frame_read) blast

lemma lldp_frame_roundtrip_witness:
  "\<exists>frame. lldp_packet hex_ac 7 3 hw_a 120 = Inr frame \<and> length frame = 60 \<and>
    lldp_parse hex_ac (\<lambda>_. CHR ''?'') no_oth frame = ret (int 7, 3)"
proof (rule lldp_frame_roundtrip)
  show "mac_text_of hex_ac LLDP_MAC_NEAREST_BRIDGE [1, 0x80, 0xc2, 0, 0, 0x0e]"
    unfolding mac_text_of_def hex_ac_def LLDP_MAC_NEAREST_BRIDGE_def by code_simp
  show "mac_text_of hex_ac hw_a [0, 0, 0, 0, 0, 1]" by (rule hex_addresses)
qed simp_all

section \<open>The scan of the discovery loop\<close>

definition due :: "rat \<Rightarrow> port_data \<Rightarrow> bool" where
  "due clk d \<longleftrightarrow> (\<exists>t. pd_timestamp d = Some t \<and> t + LLDP_SEND_PERIOD_PER_PORT \<le> clk)"

lemma none_due: "\<forall>u\<in>set (stamps xs). \<not> u + LLDP_SEND_PERIOD_PER_PORT \<le> clk \<Longrightarrow> filter (\<lambda>(k, d). due clk d) xs = []"
  by (induction xs) (auto simp: due_def split: option.splits)

lemma scan_selects_due:
  "sorted (stamps xs) \<Longrightarrow> fst (snd (lldp_scan clk xs)) = map fst (filter (\<lambda>(k, d). due clk d) xs)"
proof (induction xs)
  case (Cons x xs)
  obtain k d where x: "x = (k, d)" by (cases x)
  show ?case
  proof (cases "pd_timestamp d")
    case None
    then show ?thesis using Cons by (auto simp: x due_def split: prod.split)
  next
    case (Some t)
    then have srt: "sorted (stamps xs)" "\<forall>u\<in>set (stamps xs). t \<le> u" using Cons.prems by (auto simp: x)
    show ?thesis
    proof (cases "t + LLDP_SEND_PERIOD_PER_PORT \<le> clk")
      case True
      then show ?thesis using Cons.IH [OF srt(1)] Some by (auto simp: x due_def split: prod.split)
    next
      case False
      then have "filter (\<lambda>(k, d). due clk d) xs = []" using srt(2) by (intro none_due) force
      then show ?thesis using False Some by (auto simp: x due_def split: prod.split)
    qed
  qed
qed simp

text \<open>
  C29.  The discovery loop stops its scan at the first port whose time has not come, and still
  serves every port that is due: in every reachable state the scan ends without an exception and
  selects exactly the ports whose last frame was sent a period ago or earlier.
\<close>

theorem scan_finds_every_due_port:
  assumes "topo.reachable ac uni oth ip6 conf c" and "fst c \<le> clk"
  shows "\<exists>items s. pds_items (tw_ports (snd c)) = ret items \<and> lldp_turn clk (snd c) = Some (s, None) \<and>
    tw_pending s = map fst (filter (\<lambda>(k, d). due clk d) items)"
proof -
  have inv: "topo_inv (fst c) (snd c)" using assms(1) by (rule topo_reachable_inv)
  then have "ports_in_order (fst c) (tw_ports (snd c))" by (simp add: topo_inv_def tables_ok_def)
  then obtain xs where xs: "pds_items (tw_ports (snd c)) = ret xs" "sorted (stamps xs)" by (rule pds.order_items)
  obtain ks ks' w where scan: "lldp_scan clk xs = (ks, ks', w)" by (cases "lldp_scan clk xs") auto
  have "ks' = map fst (filter (\<lambda>(k, d). due clk d) xs)" using scan_selects_due [OF xs(2), of clk] by (simp add: scan)
  moreover obtain s where "lldp_turn clk (snd c) = Some (s, None)" using inv assms(2) by (rule lldp_turn_runs)
  moreover from this have "tw_pending s = ks'" using xs(1) by (auto simp: lldp_turn_def ret_def scan Let_def)
  ultimately show ?thesis using xs(1) by blast
qed

section \<open>What the events tell\<close>

text \<open>
  C28.  In every reachable state, after normal and after failed handlers, the links that the
  application reports on request are exactly those that an observer computes from the link events
  sent so far.
\<close>

theorem link_events_tell_the_links:
  assumes "topo.reachable ac uni oth ip6 conf c"
  shows "set (link_request_handler None (snd c)) = fold tell_link (tw_out (snd c)) {}"
proof -
  have "told_links (snd c) = link_set (snd c)"
    using topo_reachable_inv [OF assms] by (rule topo_invD)
  moreover have "set (link_request_handler None (snd c)) = link_set (snd c)"
    by (auto simp: link_request_handler_def link_set_def has_link_def dict_keys_iff)
  ultimately show ?thesis by (simp add: told_links_def)
qed

section \<open>A switch leaves\<close>

lemma after_None: "after r f = (s', None) \<longleftrightarrow> (\<exists>s. r = (s, None) \<and> f s = (s', None))"
  by (auto simp: after_def split: prod.splits option.splits)

lemma prepend_dict [simp]: "pds_dict (prepend_key k q) = pds_dict q"
  by (simp add: prepend_key_def Let_def)

lemma remove_dict: "remove_key k q = Inr q' \<Longrightarrow> pds_dict q' = pds_dict q"
  by (auto simp: remove_key_def Let_def split: option.splits)

lemma del_port_dict:
  assumes "ports_in_order t q" and "pds_del_port k q = (q', None)"
  shows "pds_dict q' = (pds_dict q)(k := None)"
proof -
  obtain d where d: "pds_dict q k = Some d" using assms(2) by (auto simp: pds_del_port_def split: option.splits)
  show ?thesis
    using assms(2) remove_dict [of k "q\<lparr>pds_dict := (pds_dict q)(k := None)\<rparr>" q']
    by (auto simp: pds_del_port_def d Let_def split: sum.splits)
qed

lemma move_front_dict: "pds_dict (fst (pds_move_front k q)) j = None \<longleftrightarrow> pds_dict q j = None"
proof (cases "pds_dict q k")
  case (Some d)
  let ?q = "pds_set k (pd_clear_timestamp d) q"
  have same: "pds_dict ?q j = None \<longleftrightarrow> pds_dict q j = None" using Some by (simp add: pds_set_def)
  show ?thesis
  proof (cases "remove_key k ?q")
    case (Inl e)
    then show ?thesis using same by (simp add: pds_move_front_def Some move_front_key_def Let_def)
  next
    case (Inr q')
    then show ?thesis
      using same remove_dict [OF Inr] by (simp add: pds_move_front_def Some move_front_key_def Let_def)
  qed
qed (simp add: pds_move_front_def)

lemma rev_links_down_dict:
  "pds_dict (tw_ports (fst (rev_links_down k ds s))) j = None \<longleftrightarrow> pds_dict (tw_ports s) j = None"
proof (induction ds arbitrary: s)
  case (Cons d ds)
  let ?s = "topo_emit (TopoLinkDelete (d, k)) s"
  have "pds_dict (tw_ports (fst (topo_move_front d ?s))) j = None \<longleftrightarrow> pds_dict (tw_ports s) j = None"
    using move_front_dict [of d "tw_ports s" j]
    by (cases "pds_move_front d (tw_ports s)") (simp add: topo_move_front_def)
  moreover obtain s1 x where s1: "topo_move_front d ?s = (s1, x)" by fastforce
  ultimately have "pds_dict (tw_ports s1) j = None \<longleftrightarrow> pds_dict (tw_ports s) j = None" by simp
  then show ?case using Cons.IH [of s1] by (cases x) (simp_all add: after_def s1)
qed simp

lemma link_down_dict:
  "pds_dict (tw_ports (fst (topo_link_down k s))) j = None \<longleftrightarrow> pds_dict (tw_ports s) j = None"
  by (auto simp: topo_link_down_def rev_links_down_dict split: prod.split sum.split)

text \<open>What is gone when a port has gone, and stays gone.\<close>

definition gone :: "port_key \<Rightarrow> switches \<Rightarrow> bool" where
  "gone k s \<longleftrightarrow> pds_dict (tw_ports s) k = None \<and> (\<forall>q. (k, q) \<notin> link_set s)"

lemma port_gone_done:
  assumes "topo_inv t s" and "port_gone k s = (s', None)"
  shows "gone k s'" "gone j s \<Longrightarrow> gone j s'"
proof -
  obtain s1 where s1: "topo_del_port k s = (s1, None)" "topo_link_down k s1 = (s', None)"
    using assms(2) by (auto simp: port_gone_def after_None)
  obtain q where q: "pds_del_port k (tw_ports s) = (q, None)" "s1 = s\<lparr>tw_ports := q\<rparr>"
    using s1(1) by (auto simp: topo_del_port_def split: prod.splits)
  have ord: "ports_in_order t (tw_ports s)" using assms(1) by (simp add: topo_inv_def tables_ok_def)
  have inv: "topo_inv t s1" using topo_del_port_inv [OF assms(1), of k] by (simp add: s1(1))
  note D = del_port_dict [OF ord q(1)]
  note L = topo_link_down_ok(3) [OF inv, of k, unfolded s1(2) fst_conv]
  note K = link_down_dict [of k s1, unfolded s1(2) fst_conv]
  show "gone k s'" using D K [of k] by (auto simp: gone_def L q(2))
  show "gone j s'" if "gone j s" using that D K [of j] by (auto simp: gone_def L q(2))
qed

lemma ports_gone_done:
  assumes "topo_inv t s" and "ports_gone ps s = (s', None)"
  shows "(\<forall>p\<in>set ps. is_reserved p \<or> gone (port_key_of p) s') \<and> (\<forall>j. gone j s \<longrightarrow> gone j s')"
  using assms
proof (induction ps arbitrary: s)
  case (Cons p ps)
  show ?case
  proof (cases "is_reserved p")
    case True
    then show ?thesis using Cons.IH [OF Cons.prems(1)] Cons.prems(2) by simp
  next
    case False
    then obtain s1 where s1: "port_gone (port_key_of p) s = (s1, None)" "ports_gone ps s1 = (s', None)"
      using Cons.prems(2) by (auto simp: after_None)
    have "topo_inv t s1" using port_gone_inv [OF Cons.prems(1), of "port_key_of p"] by (simp add: s1(1))
    then have "(\<forall>p\<in>set ps. is_reserved p \<or> gone (port_key_of p) s') \<and> (\<forall>j. gone j s1 \<longrightarrow> gone j s')"
      using s1(2) by (rule Cons.IH)
    moreover have "gone (port_key_of p) s1" "\<forall>j. gone j s \<longrightarrow> gone j s1"
      using port_gone_done [OF Cons.prems(1) s1(1)] by blast+
    ultimately show ?thesis unfolding list.set by blast
  qed
qed simp

lemma switch_ports_unreserved:
  "get_switch i s = Inr (Some sw) \<Longrightarrow> p \<in> set (sw_ports sw) \<Longrightarrow> \<not> is_reserved p \<and> tp_dpid p = i"
  by (erule get_switch_ok) (auto simp: port_of_def)

lemma gone_dps [simp]:
  "tw_dps (fst (topo_move_front k s)) = tw_dps s" "tw_dps (fst (topo_del_port k s)) = tw_dps s"
  by (simp_all add: topo_move_front_def topo_del_port_def split: prod.split)

lemma after_dps:
  "tw_dps (fst r) = D \<Longrightarrow> (\<And>s. tw_dps s = D \<Longrightarrow> tw_dps (fst (f s)) = D) \<Longrightarrow> tw_dps (fst (after r f)) = D"
  by (rule after_keeps)

lemma rev_links_down_dps [simp]: "tw_dps (fst (rev_links_down k ds s)) = tw_dps s"
  by (induction ds arbitrary: s) (auto intro!: after_dps)

lemma topo_link_down_dps [simp]: "tw_dps (fst (topo_link_down k s)) = tw_dps s"
  by (simp add: topo_link_down_def split: prod.split sum.split)

lemma ports_gone_dps: "tw_dps (fst (ports_gone ps s)) = tw_dps s"
  by (induction ps arbitrary: s) (auto intro!: after_dps simp: port_gone_def)

text \<open>
  C31.  When the handler for a lost connection ends without an exception, the switch is no longer
  known, none of its ports is served by the discovery loop any more and no link that is reported
  on request leaves from one of them.
\<close>

theorem left_switch_is_forgotten:
  assumes "topo.reachable ac uni oth ip6 conf (t, s)" and "link_discovery conf"
    and "td_id dp = Some i" and "get_switch i s = Inr (Some sw)" and "td_handle (sw_dp sw) = td_handle dp"
    and "switch_leaves conf dp s = (s', None)"
  shows "get_switch i s' = Inr None \<and>
    list_all (\<lambda>p. pds_dict (tw_ports s') (port_key_of p) = None \<and>
      list_all (\<lambda>l. fst l \<noteq> port_key_of p) (link_request_handler None s')) (sw_ports sw)"
proof -
  have inv: "topo_inv t s" using topo_reachable_inv [OF assms(1)] by simp
  obtain s1 where s1: "topo_unregister i dp s = (s1, None)"
    "after (ports_gone (sw_ports sw) (topo_emit (TopoSwitchLeave sw) s1)) set_lldp_event = (s', None)"
    using assms(2-6) by (auto simp: switch_leaves_def after_None Let_def)
  obtain s2 where s2: "ports_gone (sw_ports sw) (topo_emit (TopoSwitchLeave sw) s1) = (s2, None)"
    "s' = s2\<lparr>tw_lldp_event := True\<rparr>"
    using s1(2) by (auto simp: after_None set_lldp_event_def)
  have "topo_inv t (topo_emit (TopoSwitchLeave sw) s1)"
    using unregister_inv [OF inv, of i dp] by (simp add: s1(1) inv_emit)
  then have gone: "gone (port_key_of p) s2" if "p \<in> set (sw_ports sw)" for p
    using ports_gone_done [OF _ s2(1)] switch_ports_unreserved [OF assms(4) that] that by blast
  have "dict_get (tw_dps s) i = Some (sw_dp sw)" using assms(4) by (rule get_switch_ok)
  then have "dict_get (tw_dps s1) i = None"
    using s1(1) assms(5) by (auto simp: topo_unregister_def Let_def split: if_splits)
  moreover have "tw_dps s2 = tw_dps s1"
    using ports_gone_dps [of "sw_ports sw" "topo_emit (TopoSwitchLeave sw) s1"] by (simp add: s2(1))
  ultimately have "get_switch i s' = Inr None" by (simp add: get_switch_def s2(2))
  moreover have "list_all (\<lambda>l. fst l \<noteq> port_key_of p) (link_request_handler None s')" if "p \<in> set (sw_ports sw)" for p
    using gone [OF that]
    by (force simp: gone_def link_set_def has_link_def dict_keys_iff list_all_iff link_request_handler_def s2(2))
  moreover have "pds_dict (tw_ports s') (port_key_of p) = None" if "p \<in> set (sw_ports sw)" for p
    using gone [OF that] by (simp add: gone_def s2(2))
  ultimately show ?thesis by (simp add: list_all_iff)
qed

section \<open>Two switches and a link\<close>

definition desc_of :: "string \<Rightarrow> ofp_desc" where
  "desc_of hw = \<lparr>od_no = 1, od_hw = hw, od_name = [], od_config = 0, od_state = 0\<rparr>"

definition dp_a :: topo_dp where
  "dp_a = \<lparr>td_handle = 10, td_id = Some 1, td_version = 4, td_ports = [(1, desc_of hw_a)]\<rparr>"

definition dp_b :: topo_dp where
  "dp_b = \<lparr>td_handle = 20, td_id = Some 2, td_version = 4, td_ports = [(1, desc_of hw_b)]\<rparr>"

definition topo_conf_1 :: topo_conf where
  "topo_conf_1 = \<lparr>link_discovery = True, install_flow = True, explicit_drop = True\<rparr>"

definition frame_a :: bytes where
  "frame_a = (case lldp_packet hex_ac 1 1 hw_a 120 of Inr d \<Rightarrow> d | Inl e \<Rightarrow> [])"

definition topo_1 :: switches where
  "topo_1 = fst (switch_enters hex_ac topo_conf_1 dp_a topo_init)"

lemma group_address: "mac_text_of hex_ac LLDP_MAC_NEAREST_BRIDGE [1, 0x80, 0xc2, 0, 0, 0x0e]"
  unfolding mac_text_of_def hex_ac_def LLDP_MAC_NEAREST_BRIDGE_def by code_simp

lemma frame_a_ok:
  "lldp_packet hex_ac 1 1 hw_a 120 = Inr frame_a" "lldp_parse hex_ac uni oth frame_a = ret (1, 1)"
proof -
  obtain f where f: "lldp_packet hex_ac 1 1 hw_a 120 = Inr f" "lldp_parse hex_ac uni oth f = ret (int 1, 1)"
    by (rule lldp_frame_read [OF _ _ _ group_address hex_addresses(1), of 1 1 120 uni oth]) simp_all
  then show "lldp_packet hex_ac 1 1 hw_a 120 = Inr frame_a" "lldp_parse hex_ac uni oth frame_a = ret (1, 1)"
    by (simp_all add: frame_a_def)
qed

definition sw_a :: topo_switch where
  "sw_a = \<lparr>sw_dp = dp_a, sw_ports = [\<lparr>tp_dpid = 1, tp_version = 4, tp_desc = desc_of hw_a\<rparr>]\<rparr>"

lemma topo_1_enters:
  "switch_enters hex_ac topo_conf_1 dp_a topo_init =
     (\<lparr>tw_dps = [(1, dp_a)], tw_port_state = [(1, [(1, desc_of hw_a)])],
       tw_ports = pds_add_port (1, 1) False frame_a pds_empty, tw_links = links_empty, tw_hosts = [],
       tw_lldp_event = True, tw_pending = [], tw_wait = None,
       tw_out = [TopoSwitchEnter sw_a, LldpFlow 10 0xffff]\<rparr>, None)"
  using frame_a_ok(1)
  by (simp add: switch_enters_def dp_a_def topo_init_def topo_register_def fresh_port_state_def dict_values_def
      desc_of_def dict_set_def get_switch_def dict_get_def sw_add_port_def is_reserved_def OFPP_MAX_of_def after_def
      topo_emit_def topo_conf_1_def install_lldp_flow_def topo_port_added_def TOPO_DEFAULT_TTL_def port_key_of_def
      is_down_def set_lldp_event_def sw_a_def Let_def)

lemma topo_1_fields:
  "tw_dps topo_1 = [(1, dp_a)]" "tw_port_state topo_1 = [(1, [(1, desc_of hw_a)])]"
  "tw_ports topo_1 = pds_add_port (1, 1) False frame_a pds_empty"
  by (simp_all add: topo_1_def topo_1_enters)

lemma topo_1_reachable: "topo.reachable hex_ac uni oth ip6 topo_conf_1 (0, topo_1)"
proof (rule topo.reach_step [OF topo.reach_start])
  show "topo_start (0, topo_init)" by (simp add: topo_start_def)
  show "topo_step hex_ac uni oth ip6 topo_conf_1 (0, topo_init) (StateChange dp_a MAIN_DISPATCHER) (0, topo_1)"
    by (simp add: topo_step_def state_change_handler_def topo_1_def)
      (cases "switch_enters hex_ac topo_conf_1 dp_a topo_init"; simp)
qed

lemma port_gone_returns:
  assumes "topo_inv t s" and "pds_dict (tw_ports s) k \<noteq> None"
  shows "snd (port_gone k s) = None"
proof -
  obtain xs where xs: "pds_abs (tw_ports s) xs" using assms(1) by (auto simp: topo_inv_def tables_ok_def in_order_def)
  obtain q where "pds_del_port k (tw_ports s) = (q, if map_of xs k = None then Some KeyError else None)"
    using xs by (rule abs_del)
  then have d: "topo_del_port k s = (s\<lparr>tw_ports := q\<rparr>, None)"
    using assms(2) by (simp add: topo_del_port_def abs_get [OF xs])
  have "topo_inv t (s\<lparr>tw_ports := q\<rparr>)" using topo_del_port_inv [OF assms(1), of k] by (simp add: d)
  then show ?thesis using topo_link_down_ok(2) by (simp add: port_gone_def d after_def)
qed

lemma topo_1_leaves:
  obtains s where "switch_leaves topo_conf_1 dp_a topo_1 = (s, None)"
proof -
  let ?p = "\<lparr>tp_dpid = 1, tp_version = 4, tp_desc = desc_of hw_a\<rparr>"
  have inv: "topo_inv 0 topo_1" using topo_reachable_inv [OF topo_1_reachable] by simp
  obtain s1 where s1: "topo_unregister 1 dp_a topo_1 = (s1, None)"
    by (simp add: topo_unregister_def topo_1_fields dict_get_def Let_def)
  have p: "tw_ports s1 = pds_add_port (1, 1) False frame_a pds_empty"
    using s1 by (auto simp: topo_1_fields topo_unregister_def Let_def split: option.splits if_splits)
  let ?s = "topo_emit (TopoSwitchLeave sw_a) s1"
  have "topo_inv 0 ?s" using unregister_inv [OF inv, of 1 dp_a] unfolding s1 by (simp add: inv_emit)
  moreover have "pds_dict (tw_ports ?s) (1, 1) \<noteq> None"
    by (simp add: p pds_add_port_def pds_empty_def pds_set_def)
  ultimately have "snd (port_gone (port_key_of ?p) ?s) = None"
    by (intro port_gone_returns) (simp_all add: port_key_of_def desc_of_def)
  then obtain s2 where s2: "port_gone (port_key_of ?p) ?s = (s2, None)" by (cases "port_gone (port_key_of ?p) ?s") simp
  have "\<not> is_reserved ?p" by (simp add: is_reserved_def desc_of_def OFPP_MAX_of_def)
  moreover have "sw_ports sw_a = [?p]" by (simp add: sw_a_def)
  ultimately have "ports_gone (sw_ports sw_a) ?s = (s2, None)"
    by (simp only: ports_gone.simps if_False s2 after_def prod.case option.case)
  moreover have "get_switch 1 topo_1 = Inr (Some sw_a)"
    by (simp add: topo_1_fields get_switch_def dict_get_def dict_values_def sw_add_port_def is_reserved_def
        OFPP_MAX_of_def dp_a_def desc_of_def sw_a_def)
  ultimately show thesis
    using s1 by (intro that) (simp add: switch_leaves_def topo_conf_1_def after_def sw_a_def dp_a_def set_lldp_event_def)
qed

text \<open>The second switch connects, and the frame of the first arrives there.\<close>

definition topo_2 :: switches where
  "topo_2 = fst (switch_enters hex_ac topo_conf_1 dp_b topo_1)"

definition msg_b :: topo_packet where
  "msg_b = \<lparr>tk_dp = dp_b, tk_in_port = Some 1, tk_buffer = 0xffffffff, tk_data = frame_a\<rparr>"

lemma enters_dps:
  "tw_dps (fst (add_all_ports ac ps s)) = tw_dps s" "tw_port_state (fst (add_all_ports ac ps s)) = tw_port_state s"
proof -
  have one: "tw_dps (fst (topo_port_added ac p s)) = tw_dps s \<and> tw_port_state (fst (topo_port_added ac p s)) = tw_port_state s"
    for p s by (simp add: topo_port_added_def split: sum.split)
  have "tw_dps (fst (add_all_ports ac ps s)) = tw_dps s \<and> tw_port_state (fst (add_all_ports ac ps s)) = tw_port_state s"
  proof (induction ps arbitrary: s)
    case (Cons p ps)
    obtain s1 x where s1: "topo_port_added ac p s = (s1, x)" by fastforce
    then show ?case using Cons.IH one [of p s] by (cases x) (simp_all add: after_def)
  qed simp
  then show "tw_dps (fst (add_all_ports ac ps s)) = tw_dps s"
    "tw_port_state (fst (add_all_ports ac ps s)) = tw_port_state s" by simp_all
qed

lemma after_event_dps:
  "tw_dps (fst (after r set_lldp_event)) = tw_dps (fst r)"
  "tw_port_state (fst (after r set_lldp_event)) = tw_port_state (fst r)"
  by (simp_all add: after_def set_lldp_event_def split: prod.split option.split)

lemma new_switch_tables:
  assumes "td_id dp = Some i" and "dict_get (tw_dps s) i = None" and "dict_get (tw_port_state s) i = None"
  shows "tw_dps (fst (switch_enters ac conf dp s)) = dict_set i dp (tw_dps s)"
    "tw_port_state (fst (switch_enters ac conf dp s)) = dict_set i (fresh_port_state dp) (tw_port_state s)"
proof -
  let ?s1 = "s\<lparr>tw_dps := dict_set i dp (tw_dps s), tw_port_state := dict_set i (fresh_port_state dp) (tw_port_state s)\<rparr>"
  have r: "topo_register dp s = (?s1, None)" using assms by (simp add: topo_register_def Let_def)
  obtain sw where "get_switch i ?s1 = Inr (Some sw)" by (simp add: get_switch_def)
  then show "tw_dps (fst (switch_enters ac conf dp s)) = dict_set i dp (tw_dps s)"
    "tw_port_state (fst (switch_enters ac conf dp s)) = dict_set i (fresh_port_state dp) (tw_port_state s)"
    using assms(1,2) r
    by (simp_all add: switch_enters_def after_def [of "(?s1, None)"] after_event_dps enters_dps install_lldp_flow_def Let_def)
qed

lemma topo_2_fields:
  "tw_dps topo_2 = [(1, dp_a), (2, dp_b)]"
  "tw_port_state topo_2 = [(1, [(1, desc_of hw_a)]), (2, [(1, desc_of hw_b)])]"
proof -
  have b: "td_id dp_b = Some 2" "fresh_port_state dp_b = [(1, desc_of hw_b)]"
    by (simp_all add: dp_b_def fresh_port_state_def dict_values_def desc_of_def dict_set_def)
  have new: "dict_get (tw_dps topo_1) 2 = None" "dict_get (tw_port_state topo_1) 2 = None"
    by (simp_all add: topo_1_fields dict_get_def)
  note T = new_switch_tables [OF b(1) new, of hex_ac topo_conf_1, folded topo_2_def]
  show "tw_dps topo_2 = [(1, dp_a), (2, dp_b)]"
    "tw_port_state topo_2 = [(1, [(1, desc_of hw_a)]), (2, [(1, desc_of hw_b)])]"
    by (simp_all add: T b(2) topo_1_fields dict_set_def)
qed

lemma topo_2_reachable: "topo.reachable hex_ac uni oth ip6 topo_conf_1 (0, topo_2)"
proof (rule topo.reach_step [OF topo_1_reachable])
  show "topo_step hex_ac uni oth ip6 topo_conf_1 (0, topo_1) (StateChange dp_b MAIN_DISPATCHER) (0, topo_2)"
    by (simp add: topo_step_def state_change_handler_def topo_2_def)
      (cases "switch_enters hex_ac topo_conf_1 dp_b topo_1"; simp)
qed

lemma store_link_stores: "l \<in> link_set (fst (store_link clk l s))"
proof -
  obtain ls b where u: "update_link clk (fst l) (snd l) (tw_links s) = (ls, b)" by fastforce
  have "has_link ls l" using u by (auto simp: update_link_def Let_def has_link_def)
  then show ?thesis
    by (auto simp: store_link_def u Let_def link_set_def after_def set_lldp_event_def topo_move_front_def
        split: prod.splits option.split)
qed

lemma link_found_stores:
  assumes "topo_inv t s"
  shows "l \<in> link_set (fst (link_found conf clk msg l s))"
proof -
  obtain s1 where s1: "announce_link l s = (s1, None)"
    using announce_returns [of s l] assms by (cases "announce_link l s") (simp add: topo_inv_def tables_ok_def)
  obtain s2 x where s2: "store_link clk l s1 = (s2, x)" by fastforce
  have "l \<in> link_set s2" using store_link_stores [of l clk s1] by (simp add: s2)
  moreover have "link_set (fst (drop_packet msg s2)) = link_set s2"
    by (simp add: drop_packet_def Let_def split: option.split)
  ultimately show ?thesis by (cases x) (simp_all add: link_found_def s1 s2 after_def)
qed

lemma link_a_b_found:
  obtains s where "topo.reachable hex_ac uni oth ip6 topo_conf_1 (1, s)" "((1, 1), (2, 1)) \<in> link_set s"
proof -
  have inv: "topo_inv 0 topo_2" using topo_reachable_inv [OF topo_2_reachable] by simp
  let ?pa = "port_of 1 dp_a (desc_of hw_a)" and ?pb = "port_of 2 dp_b (desc_of hw_b)"
  have port: "get_port_of (Some 1) 1 s = Inr (Some ?pa)" "get_port_of (Some 2) 1 s = Inr (Some ?pb)"
    if "tw_dps s = tw_dps topo_2" "tw_port_state s = tw_port_state topo_2" for s
    using that by (simp_all add: get_port_of_def get_port_def get_switch_def topo_2_fields dict_get_def dict_values_def
        sw_add_port_def is_reserved_def port_of_def OFPP_MAX_of_def dp_a_def dp_b_def desc_of_def)
  let ?s = "case pds_lldp_received (1, 1) (tw_ports topo_2) of Inl e \<Rightarrow> topo_2 | Inr r \<Rightarrow> topo_2\<lparr>tw_ports := r\<rparr>"
  have s: "tw_dps ?s = tw_dps topo_2" "tw_port_state ?s = tw_port_state topo_2" by (simp_all split: sum.split)
  have keys: "port_key_of ?pa = (1, 1)" "port_key_of ?pb = (2, 1)" "tp_dpid ?pa = 1"
    by (simp_all add: port_key_of_def port_of_def desc_of_def)
  have int: "key_of_int 1 = Some 1" by (simp add: key_of_int_def)
  have msg: "tk_dp msg_b = dp_b" "tk_in_port msg_b = Some 1" "td_id dp_b = Some 2" "td_version dp_b = 4"
    by (simp_all add: msg_b_def dp_b_def)
  have "lldp_received_from topo_conf_1 1 msg_b 1 1 topo_2 = link_found topo_conf_1 1 msg_b ((1, 1), (2, 1)) ?s"
    unfolding lldp_received_from_def Let_def msg int port(1) [OF refl refl] sum.case option.case keys option.sel
      port(2) [OF s] by simp
  moreover have "topo_inv 0 ?s" using inv by (rule received_inv)
  ultimately have link: "((1, 1), (2, 1)) \<in> link_set (fst (lldp_received_from topo_conf_1 1 msg_b 1 1 topo_2))"
    using link_found_stores by simp
  have "lldp_packet_in_handler hex_ac uni oth topo_conf_1 1 msg_b topo_2 =
      Some (lldp_received_from topo_conf_1 1 msg_b 1 1 topo_2)"
    using frame_a_ok(2) [of uni oth] by (simp add: lldp_packet_in_handler_def topo_conf_1_def msg_b_def ret_def)
  then have "topo_step hex_ac uni oth ip6 topo_conf_1 (0, topo_2) (LldpPacketIn msg_b)
      (1, fst (lldp_received_from topo_conf_1 1 msg_b 1 1 topo_2))"
    by (cases "lldp_received_from topo_conf_1 1 msg_b 1 1 topo_2") (simp add: topo_step_def)
  then show thesis using topo.reach_step [OF topo_2_reachable] link that by blast
qed

lemma scan_finds_every_due_port_witness:
  "\<exists>items s. pds_items (tw_ports topo_1) = ret items \<and> lldp_turn 1 topo_1 = Some (s, None) \<and>
    tw_pending s = map fst (filter (\<lambda>(k, d). due 1 d) items)"
  using scan_finds_every_due_port [OF topo_1_reachable, of 1] by simp

lemma link_events_tell_the_links_witness:
  "\<exists>s. set (link_request_handler None s) = fold tell_link (tw_out s) {} \<and>
    ((1, 1), (2, 1)) \<in> set (link_request_handler None s)"
proof -
  obtain s where s: "topo.reachable hex_ac (\<lambda>_. CHR ''?'') no_oth sample_a6 topo_conf_1 (1, s)"
    "((1, 1), (2, 1)) \<in> link_set s" by (rule link_a_b_found)
  have "((1, 1), (2, 1)) \<in> set (link_request_handler None s)"
    using s(2) by (simp add: link_request_handler_def link_set_def has_link_def dict_keys_iff)
  then show ?thesis using link_events_tell_the_links [OF s(1)] by auto
qed

lemma get_switch_a: "get_switch 1 topo_1 = Inr (Some sw_a)"
  by (simp add: topo_1_fields get_switch_def dict_get_def dict_values_def sw_add_port_def is_reserved_def
      OFPP_MAX_of_def dp_a_def desc_of_def sw_a_def)

lemma left_switch_is_forgotten_witness:
  "\<exists>s. switch_leaves topo_conf_1 dp_a topo_1 = (s, None) \<and> get_switch 1 s = Inr None \<and>
    pds_dict (tw_ports s) (1, 1) = None"
proof -
  obtain s where s: "switch_leaves topo_conf_1 dp_a topo_1 = (s, None)" by (rule topo_1_leaves)
  have "get_switch 1 s = Inr None \<and>
    list_all (\<lambda>p. pds_dict (tw_ports s) (port_key_of p) = None \<and>
      list_all (\<lambda>l. fst l \<noteq> port_key_of p) (link_request_handler None s)) (sw_ports sw_a)"
    by (rule left_switch_is_forgotten [OF topo_1_reachable _ _ get_switch_a _ s])
      (simp_all add: topo_conf_1_def dp_a_def sw_a_def)
  then show ?thesis using s by (simp add: sw_a_def port_key_of_def desc_of_def)
qed

section \<open>A port that is not in the table of ports\<close>

lemma del_port_keeps_missing:
  "pds_dict q j = None \<Longrightarrow> pds_dict (fst (pds_del_port k q)) j = None"
  by (auto simp: pds_del_port_def Let_def dest: remove_dict split: option.split sum.split)

lemma port_gone_keeps_missing:
  assumes "pds_dict (tw_ports s) j = None"
  shows "pds_dict (tw_ports (fst (port_gone k s))) j = None"
proof -
  obtain q x where q: "pds_del_port k (tw_ports s) = (q, x)" by fastforce
  have "pds_dict q j = None" using del_port_keeps_missing [OF assms, of k] by (simp add: q)
  then show ?thesis
    using link_down_dict [of k "s\<lparr>tw_ports := q\<rparr>" j]
    by (cases x) (simp_all add: port_gone_def topo_del_port_def q after_def)
qed

lemma ports_gone_raises:
  "p \<in> set ps \<Longrightarrow> \<not> is_reserved p \<Longrightarrow> pds_dict (tw_ports s) (port_key_of p) = None \<Longrightarrow> snd (ports_gone ps s) \<noteq> None"
proof (induction ps arbitrary: s)
  case (Cons q ps)
  obtain s1 x where s1: "port_gone (port_key_of q) s = (s1, x)" by fastforce
  have missing: "pds_dict (tw_ports s1) (port_key_of p) = None"
    using port_gone_keeps_missing [OF Cons.prems(3), of "port_key_of q"] by (simp add: s1)
  show ?case
  proof (cases "p = q")
    case True
    then have "x \<noteq> None"
      using s1 Cons.prems(3) by (auto simp: port_gone_def topo_del_port_def pds_del_port_def after_def)
    then show ?thesis using Cons.prems(2) True by (auto simp: after_def s1)
  next
    case False
    then have p: "p \<in> set ps" using Cons.prems(1) by simp
    show ?thesis
      using Cons.IH [OF p Cons.prems(2,3)] Cons.IH [OF p Cons.prems(2) missing]
      by (cases x) (simp_all add: after_def s1)
  qed
qed simp

text \<open>
  C32.  A switch that reconnects keeps the port table of its first connection, so a port that
  appeared in between is in neither table.  A status message about it then raises after the first
  table has taken it, and from then on the handler for the loss of the switch raises as well: it
  unregisters the switch and stops at that port, before the event that wakes the discovery loop.
\<close>

theorem unknown_port_breaks_leave:
  assumes "link_discovery conf" and "td_id dp = Some i" and "dict_get (tw_dps s) i = Some dp"
    and "dict_get (tw_port_state s) i = Some ps" and "od_no d \<le> OFPP_MAX_of (td_version dp)"
    and "pds_dict (tw_ports s) (i, od_no d) = None"
  shows "\<exists>s1. port_status_handler ac conf dp OFPPR_MODIFY d s = (s1, Some KeyError) \<and>
    snd (switch_leaves conf dp s1) \<noteq> None \<and> get_switch i (fst (switch_leaves conf dp s1)) = Inr None"
proof -
  let ?ps = "dict_set (od_no d) d ps"
  let ?s1 = "s\<lparr>tw_port_state := dict_set i ?ps (tw_port_state s)\<rparr>"
  let ?s2 = "topo_emit (TopoPortModify (port_of i dp d)) ?s1"
  let ?ports = "filter (\<lambda>p. \<not> is_reserved p) (map (port_of i dp) (dict_values ?ps))"
  let ?is_it = "\<lambda>p. od_no (tp_desc p) = od_no d"
  have sw: "get_switch i s' = Inr (Some \<lparr>sw_dp = dp, sw_ports = ?ports\<rparr>)"
    if "tw_dps s' = tw_dps s" "tw_port_state s' = tw_port_state ?s1" for s'
    using that assms(3) by (simp add: get_switch_def switch_ports)
  have d: "d \<in> set (dict_values ?ps)"
    using dict_get_set [of "od_no d" d ps "od_no d"] by (force simp: dict_get_def dict_values_def dest: map_of_SomeD)
  have free: "\<not> is_reserved (port_of i dp d)" using assms(5) by (simp add: is_reserved_def port_of_def)
  have mem: "port_of i dp d \<in> set ?ports" using d free by simp
  obtain p where p: "find ?is_it ?ports = Some p"
    using find_NoneD [OF _ mem, of ?is_it] by (cases "find ?is_it ?ports") (auto simp: port_of_def)
  then have "p \<in> set ?ports" "od_no (tp_desc p) = od_no d" by (auto dest: find_SomeD)
  then have pk: "port_key_of p = (i, od_no d)" "\<not> is_reserved p" by (auto simp: port_key_of_def port_of_def)
  have get: "get_port_of (td_id dp) (od_no d) ?s2 = Inr (Some p)"
    using sw [of ?s2] p by (simp add: get_port_of_def get_port_def assms(2))
  have down: "topo_set_down p ?s2 = (?s2, Some KeyError)"
    using assms(6) by (simp add: topo_set_down_def pds_set_down_def pk(1))
  have on: "on_port dp d topo_set_down ?s2 = (?s2, Some KeyError)"
    using get pk(2) down by (simp add: on_port_def after_def)
  have upd: "upd_port_state (td_id dp) (\<lambda>ps. Inr (dict_set (od_no d) d ps)) s = (?s1, None)"
    using assms(2,4) by (simp add: upd_port_state_def)
  have status: "port_status_handler ac conf dp OFPPR_MODIFY d s = (?s2, Some KeyError)"
    using upd on assms(1,2) by (simp add: port_status_handler_def after_def port_of_def)
  let ?sw = "\<lparr>sw_dp = dp, sw_ports = ?ports\<rparr>"
  obtain s3 where s3: "topo_unregister i dp ?s2 = (s3, None)" "tw_ports s3 = tw_ports s" "dict_get (tw_dps s3) i = None"
    using assms(3) by (simp add: topo_unregister_def Let_def)
  have raises: "snd (ports_gone ?ports (topo_emit (TopoSwitchLeave ?sw) s3)) \<noteq> None"
    using mem free assms(6) s3(2) by (intro ports_gone_raises) (auto simp: port_key_of_def port_of_def)
  then obtain s4 e where s4: "ports_gone ?ports (topo_emit (TopoSwitchLeave ?sw) s3) = (s4, Some e)"
    by (cases "ports_gone ?ports (topo_emit (TopoSwitchLeave ?sw) s3)") auto
  have "switch_leaves conf dp ?s2 = (s4, Some e)"
    using assms(1,2) sw [of ?s2] s3(1) s4 by (simp add: switch_leaves_def after_def Let_def)
  moreover have "tw_dps s4 = tw_dps s3"
    using ports_gone_dps [of ?ports "topo_emit (TopoSwitchLeave ?sw) s3"] by (simp add: s4)
  then have "get_switch i s4 = Inr None" using s3(3) by (simp add: get_switch_def)
  ultimately show ?thesis using status by (intro exI [of _ ?s2]) simp
qed

text \<open>Port 2 of the first switch is reported before any other message about it.\<close>

lemma unknown_port_breaks_leave_witness:
  "\<exists>s. port_status_handler hex_ac topo_conf_1 dp_a OFPPR_MODIFY ((desc_of hw_a)\<lparr>od_no := 2\<rparr>) topo_1 = (s, Some KeyError) \<and>
    snd (switch_leaves topo_conf_1 dp_a s) \<noteq> None \<and> get_switch 1 (fst (switch_leaves topo_conf_1 dp_a s)) = Inr None"
proof (rule unknown_port_breaks_leave)
  show "link_discovery topo_conf_1" by (simp add: topo_conf_1_def)
  show "td_id dp_a = Some 1" by (simp add: dp_a_def)
  show "dict_get (tw_dps topo_1) 1 = Some dp_a" by (simp add: topo_1_fields dict_get_def)
  show "dict_get (tw_port_state topo_1) 1 = Some [(1, desc_of hw_a)]" by (simp add: topo_1_fields dict_get_def)
  show "od_no ((desc_of hw_a)\<lparr>od_no := 2\<rparr>) \<le> OFPP_MAX_of (td_version dp_a)"
    by (simp add: desc_of_def dp_a_def OFPP_MAX_of_def)
  show "pds_dict (tw_ports topo_1) (1, od_no ((desc_of hw_a)\<lparr>od_no := 2\<rparr>)) = None"
    by (simp add: topo_1_fields pds_add_port_def pds_empty_def pds_set_def prepend_key_def Let_def)
qed

end
