(* ===== verification/Vrrp.thy ===== *)
theory Vrrp
  imports Ipv6_Codec Packet_Parse Py_Hex
begin

unbundle bit_operations_syntax

text \<open>
  \<open>ryu/lib/packet/vrrp.py\<close>: advertisements of the virtual router redundancy protocol, versions 2
  and 3, over IPv4 and IPv6.  Priority and interval come from the configuration and are
  integers; the other fields are naturals.  \<open>ac\<close> and \<open>a6\<close> convert addresses.
\<close>

section \<open>Constants\<close>

definition vrrp_from_version_type :: "nat \<Rightarrow> nat \<times> nat" where
  "vrrp_from_version_type vt = (drop_bit 4 vt, vt AND 15)"

definition vrrp_to_version_type :: "nat \<Rightarrow> nat \<Rightarrow> nat" where
  "vrrp_to_version_type v t = (push_bit 4 v OR t)"

definition VRRP_PRIORITY_RELEASE_RESPONSIBILITY :: int where
  "VRRP_PRIORITY_RELEASE_RESPONSIBILITY = 0"

definition VRRP_PRIORITY_BACKUP_DEFAULT :: int where
  "VRRP_PRIORITY_BACKUP_DEFAULT = 100"

definition VRRP_PRIORITY_ADDRESS_OWNER :: int where
  "VRRP_PRIORITY_ADDRESS_OWNER = 255"

definition VRRP_TYPE_ADVERTISEMENT :: nat where
  "VRRP_TYPE_ADVERTISEMENT = 1"

definition vrrp_ipv4_src_mac_address :: "nat \<Rightarrow> string" where
  "vrrp_ipv4_src_mac_address rid = ''00:00:5E:00:01:'' @ hex_padded 2 rid"

definition vrrp_ipv6_src_mac_address :: "nat \<Rightarrow> string" where
  "vrrp_ipv6_src_mac_address rid = ''00:00:5E:00:02:'' @ hex_padded 2 rid"

definition VRRP_IPV4_DST_MAC_ADDRESS :: string where
  "VRRP_IPV4_DST_MAC_ADDRESS = ''01:00:5E:00:00:12''"

definition VRRP_IPV4_DST_ADDRESS :: string where
  "VRRP_IPV4_DST_ADDRESS = ''224.0.0.18''"

definition VRRP_IPV6_DST_MAC_ADDRESS :: string where
  "VRRP_IPV6_DST_MAC_ADDRESS = ''33:33:00:00:00:12''"

definition VRRP_IPV6_DST_ADDRESS :: string where
  "VRRP_IPV6_DST_ADDRESS = ''ff02::12''"

section \<open>Addresses\<close>

definition is_ipv6 :: "addrconv \<Rightarrow> addr6 \<Rightarrow> string \<Rightarrow> bool res" where
  "is_ipv6 ac a6 t =
     (case ip_to_bin ac t of
        Inr b \<Rightarrow> Inr False
      | Inl e \<Rightarrow> (case ip6_to_bin a6 t of Inl e' \<Rightarrow> Inl e' | Inr b \<Rightarrow> Inr True))"

definition ip_text_to_bin :: "addrconv \<Rightarrow> addr6 \<Rightarrow> string \<Rightarrow> bytes res" where
  "ip_text_to_bin ac a6 t =
     (case is_ipv6 ac a6 t of Inl e \<Rightarrow> Inl e | Inr True \<Rightarrow> ip6_to_bin a6 t | Inr False \<Rightarrow> ip_to_bin ac t)"

text \<open>The order of addresses decides between routers of the same priority.\<close>

definition ip_address_lt :: "addrconv \<Rightarrow> addr6 \<Rightarrow> string \<Rightarrow> string \<Rightarrow> bool res" where
  "ip_address_lt ac a6 x y =
     (case ip_text_to_bin ac a6 x of
        Inl e \<Rightarrow> Inl e
      | Inr a \<Rightarrow> (case ip_text_to_bin ac a6 y of Inl e \<Rightarrow> Inl e | Inr b \<Rightarrow> Inr (a < b)))"

section \<open>The object\<close>

record vrrp =
  vr_version :: nat
  vr_type :: nat
  vrid :: nat
  vr_priority :: int
  count_ip :: nat
  max_adver_int :: int
  vr_checksum :: "nat option"
  ip_addresses :: "string list"
  auth_type :: "nat option"
  auth_data :: "(nat \<times> nat) option"
  vr_ipv6 :: bool
  vr_ident :: nat

definition sec_in_unit :: "nat \<Rightarrow> int res" where
  "sec_in_unit ver = (if ver = 2 then Inr 1 else if ver = 3 then Inr 100 else Inl KeyError)"

definition sec_to_max_adver_int :: "nat \<Rightarrow> rat \<Rightarrow> int res" where
  "sec_to_max_adver_int ver s = map_sum id (\<lambda>u. py_trunc (s * of_int u)) (sec_in_unit ver)"

definition max_adver_int_to_sec :: "nat \<Rightarrow> int \<Rightarrow> rat res" where
  "max_adver_int_to_sec ver n = map_sum id (\<lambda>u. of_int n / of_int u) (sec_in_unit ver)"

definition max_adver_int_in_sec :: "vrrp \<Rightarrow> rat res" where
  "max_adver_int_in_sec v = max_adver_int_to_sec (vr_version v) (max_adver_int v)"

definition new_vrrp ::
  "addrconv \<Rightarrow> addr6 \<Rightarrow> nat \<Rightarrow> nat \<Rightarrow> nat \<Rightarrow> int \<Rightarrow> nat \<Rightarrow> int \<Rightarrow> nat option \<Rightarrow> string list \<Rightarrow>
   nat option \<Rightarrow> (nat \<times> nat) option \<Rightarrow> vrrp res"
where
  "new_vrrp ac a6 ver ty rid prio cnt mai ck ips auth data =
     (if length ips \<noteq> cnt then Inl AssertionError
      else case ips of
        [] \<Rightarrow> Inl IndexError
      | ip # _ \<Rightarrow>
          map_sum id (\<lambda>six.
            \<lparr>vr_version = ver, vr_type = ty, vrid = rid, vr_priority = prio, count_ip = cnt, max_adver_int = mai,
             vr_checksum = ck, ip_addresses = ips, auth_type = auth, auth_data = data, vr_ipv6 = six, vr_ident = 0\<rparr>)
            (is_ipv6 ac a6 ip))"

text \<open>Without an interval the conversion of the default is called with one argument too few.\<close>

definition create_version ::
  "addrconv \<Rightarrow> addr6 \<Rightarrow> nat \<Rightarrow> nat \<Rightarrow> nat \<Rightarrow> int option \<Rightarrow> int option \<Rightarrow> string list \<Rightarrow>
   nat option \<Rightarrow> (nat \<times> nat) option \<Rightarrow> vrrp res"
where
  "create_version ac a6 ver ty rid prio mai ips auth data =
     (if ver \<noteq> 2 \<and> ver \<noteq> 3 then Inl (ValueError ''unknown VRRP version'')
      else case mai of
        None \<Rightarrow> Inl TypeError
      | Some m \<Rightarrow>
          new_vrrp ac a6 ver ty rid (case prio of None \<Rightarrow> VRRP_PRIORITY_BACKUP_DEFAULT | Some p \<Rightarrow> p)
            (length ips) m None ips auth data)"

text \<open>\<open>vrrpv2.create\<close> and \<open>vrrpv3.create\<close>.\<close>

definition vrrp_create ::
  "addrconv \<Rightarrow> addr6 \<Rightarrow> nat \<Rightarrow> nat \<Rightarrow> nat \<Rightarrow> int \<Rightarrow> int \<Rightarrow> string list \<Rightarrow> vrrp res"
where
  "vrrp_create ac a6 ver ty rid prio mai ips =
     (if ver = 2 then create_version ac a6 2 ty rid (Some prio) (Some mai) ips (Some 0) (Some (0, 0))
      else create_version ac a6 3 ty rid (Some prio) (Some mai) ips None None)"

definition vrrp_len :: "vrrp \<Rightarrow> nat res" where
  "vrrp_len v =
     (if vr_version v = 2 then Inr (8 + 4 * count_ip v + 8)
      else if vr_version v = 3 then Inr (8 + (if vr_ipv6 v then 16 else 4) * count_ip v)
      else Inl KeyError)"

definition get_identification :: "vrrp \<Rightarrow> nat \<times> vrrp" where
  "get_identification v =
     (let i = (vr_ident v + 1) AND 65535; i' = (if i = 0 then (i + 1) AND 65535 else i)
      in (i', v\<lparr>vr_ident := i'\<rparr>))"

section \<open>Reading\<close>

fun pieces :: "nat \<Rightarrow> nat \<Rightarrow> bytes \<Rightarrow> bytes list" where
  "pieces n 0 b = []"
| "pieces n (Suc k) b = take n b # pieces n k (drop n b)"

definition vrrpv2_parser :: "addrconv \<Rightarrow> addr6 \<Rightarrow> bytes \<Rightarrow> (vrrp \<times> bytes) res" where
  "vrrpv2_parser ac a6 buf =
     (if length buf < 8 then Inl StructError
      else
        let (ver, ty) = vrrp_from_version_type (u8_at buf 0); cnt = u8_at buf 3 in
        if length buf < 8 + 4 * cnt + 8 then Inl StructError
        else
          case new_vrrp ac a6 ver ty (u8_at buf 1) (int (u8_at buf 2)) cnt (int (u8_at buf 5)) (Some (u16_at buf 6))
                 (map (ip_to_text ac) (pieces 4 cnt (drop 8 buf))) (Some (u8_at buf 4))
                 (Some (u32_at buf (8 + 4 * cnt), u32_at buf (8 + 4 * cnt + 4))) of
            Inl e \<Rightarrow> Inl e
          | Inr v \<Rightarrow> map_sum id (\<lambda>n. (v, drop n buf)) (vrrp_len v))"

text \<open>The family of the addresses is guessed from the number of bytes per address.\<close>

definition vrrpv3_parser :: "addrconv \<Rightarrow> addr6 \<Rightarrow> bytes \<Rightarrow> (vrrp \<times> bytes) res" where
  "vrrpv3_parser ac a6 buf =
     (if length buf < 8 then Inl StructError
      else
        let (ver, ty) = vrrp_from_version_type (u8_at buf 0); cnt = u8_at buf 3; mai = u16_at buf 4 AND 4095 in
        if cnt = 0 then Inl (OtherError ''ZeroDivisionError'')
        else
          let alen = (length buf - 8) div cnt in
          if alen \<noteq> 4 \<and> alen \<noteq> 16 then Inl (ValueError ''unknown address version'')
          else
            case new_vrrp ac a6 ver ty (u8_at buf 1) (int (u8_at buf 2)) cnt (int mai) (Some (u16_at buf 6))
                   (map (if alen = 4 then ip_to_text ac else ip6_to_text a6) (pieces alen cnt (drop 8 buf))) None None of
              Inl e \<Rightarrow> Inl e
            | Inr v \<Rightarrow> map_sum id (\<lambda>n. (v, drop n buf)) (vrrp_len v))"

definition vrrp_parser :: "addrconv \<Rightarrow> addr6 \<Rightarrow> bytes \<Rightarrow> (vrrp \<times> bytes) res" where
  "vrrp_parser ac a6 buf =
     (if length buf < 1 then Inl StructError
      else
        let ver = fst (vrrp_from_version_type (u8_at buf 0)) in
        if ver = 2 then vrrpv2_parser ac a6 buf else if ver = 3 then vrrpv3_parser ac a6 buf else Inl KeyError)"

section \<open>Writing\<close>

text \<open>The enclosing header.\<close>

datatype net_hdr = Net4 ipv4 | Net6 ipv6

definition net_checksum :: "bool \<Rightarrow> addrconv \<Rightarrow> addr6 \<Rightarrow> net_hdr \<Rightarrow> nat \<Rightarrow> bytes \<Rightarrow> nat res" where
  "net_checksum le ac a6 net len payload =
     (case net of
        Net4 h \<Rightarrow> checksum_ip le ac
          (if version h = 4 then V4 (src h) (dst h) (proto h) else Other_version (version h)) len payload
      | Net6 h \<Rightarrow>
          if ip6_version h = 4 then Inl (OtherError ''AddrFormatError'')
          else if ip6_version h \<noteq> 6 then Inl (ValueError ''Unknown IP version'')
          else map_sum id (\<lambda>header. checksum le (header @ payload))
            (pack_all [ip6_to_bin a6 (ip6_src h), ip6_to_bin a6 (ip6_dst h), pack_I len, Inr [0, 0, 0],
               pack_B (ip6_nxt h)]))"

definition put_checksum :: "nat \<Rightarrow> bytes \<Rightarrow> bytes" where
  "put_checksum c b = take 6 b @ be16 c @ drop 8 b"

definition vrrpv2_pack :: "addrconv \<Rightarrow> vrrp \<Rightarrow> nat \<Rightarrow> nat \<Rightarrow> nat \<times> nat \<Rightarrow> bytes res" where
  "vrrpv2_pack ac v ck auth data =
     pack_all ([pack_B (vrrp_to_version_type (vr_version v) (vr_type v)), pack_B (vrid v), pack_int_B (vr_priority v),
         pack_B (count_ip v), pack_B auth, pack_int_B (max_adver_int v), pack_H ck] @
       map (ip_to_bin ac) (ip_addresses v) @ [pack_I (fst data), pack_I (snd data)])"

text \<open>
  The object keeps what serialising fills in: the checksum is set to zero before the fields are
  packed, so it stays zero when they do not fit.
\<close>

definition vrrpv2_serialize :: "bool \<Rightarrow> addrconv \<Rightarrow> vrrp \<Rightarrow> vrrp \<times> bytes res" where
  "vrrpv2_serialize le ac v =
     (if vr_ipv6 v then (v, Inl AssertionError)
      else
        let ck = (case vr_checksum v of None \<Rightarrow> 0 | Some c \<Rightarrow> c);
            auth = (case auth_type v of None \<Rightarrow> 0 | Some a \<Rightarrow> a);
            data = (case auth_data v of None \<Rightarrow> (0, 0) | Some d \<Rightarrow> d);
            v1 = v\<lparr>vr_checksum := Some ck, auth_type := Some auth, auth_data := Some data\<rparr> in
        case vrrpv2_pack ac v ck auth data of
          Inl e \<Rightarrow> (v1, Inl e)
        | Inr buf \<Rightarrow>
            if vr_checksum v \<noteq> None then (v1, Inr buf)
            else (let c = checksum le buf in (v1\<lparr>vr_checksum := Some c\<rparr>, Inr (put_checksum c buf))))"

definition vrrpv3_pack :: "(string \<Rightarrow> bytes res) \<Rightarrow> vrrp \<Rightarrow> nat \<Rightarrow> bytes res" where
  "vrrpv3_pack conv v ck =
     pack_all ([pack_B (vrrp_to_version_type (vr_version v) (vr_type v)), pack_B (vrid v), pack_int_B (vr_priority v),
         pack_B (count_ip v),
         (if 0 \<le> max_adver_int v then pack_H (nat (max_adver_int v)) else Inl StructError), pack_H ck] @
       map conv (ip_addresses v))"

definition vrrpv3_serialize :: "bool \<Rightarrow> addrconv \<Rightarrow> addr6 \<Rightarrow> vrrp \<Rightarrow> net_hdr \<Rightarrow> vrrp \<times> bytes res" where
  "vrrpv3_serialize le ac a6 v net =
     (let conv = (case net of Net4 h \<Rightarrow> ip_to_bin ac | Net6 h \<Rightarrow> ip6_to_bin a6);
          ck = (case vr_checksum v of None \<Rightarrow> 0 | Some c \<Rightarrow> c);
          v1 = v\<lparr>vr_checksum := Some ck\<rparr> in
      if 4095 < max_adver_int v then (v1, Inl AssertionError)
      else case vrrpv3_pack conv v ck of
          Inl e \<Rightarrow> (v1, Inl e)
        | Inr buf \<Rightarrow>
            if vr_checksum v \<noteq> None then (v1, Inr buf)
            else (case net_checksum le ac a6 net (length buf) buf of
                Inl e \<Rightarrow> (v1, Inl e)
              | Inr c \<Rightarrow> (v1\<lparr>vr_checksum := Some c\<rparr>, Inr (put_checksum c buf))))"

definition vrrp_serialize :: "bool \<Rightarrow> addrconv \<Rightarrow> addr6 \<Rightarrow> vrrp \<Rightarrow> net_hdr \<Rightarrow> vrrp \<times> bytes res" where
  "vrrp_serialize le ac a6 v net =
     (if vr_version v = 2 then vrrpv2_serialize le ac v
      else if vr_version v = 3 then vrrpv3_serialize le ac a6 v net
      else (v, Inl KeyError))"

section \<open>Checks of a receiver\<close>

definition vrrp_is_valid :: "vrrp \<Rightarrow> bool" where
  "vrrp_is_valid v \<longleftrightarrow>
     (vr_version v = 2 \<or> vr_version v = 3) \<and> vr_type v = VRRP_TYPE_ADVERTISEMENT \<and>
     1 \<le> vrid v \<and> vrid v \<le> 255 \<and> 0 \<le> vr_priority v \<and> vr_priority v \<le> 255 \<and>
     (vr_version v = 2 \<longrightarrow> auth_type v = Some 0) \<and>
     1 \<le> max_adver_int v \<and> max_adver_int v \<le> (if vr_version v = 2 then 255 else 4095) \<and>
     count_ip v = length (ip_addresses v)"

definition is_valid_ttl :: "net_hdr \<Rightarrow> bool res" where
  "is_valid_ttl net =
     (case net of
        Net4 h \<Rightarrow>
          if version h = 4 then Inr (ttl h = 255)
          else if version h = 6 then Inl AttributeError else Inl (ValueError ''invalid ip version'')
      | Net6 h \<Rightarrow>
          if ip6_version h = 4 then Inl AttributeError
          else if ip6_version h = 6 then Inr (hop_limit h = 255) else Inl (ValueError ''invalid ip version''))"

definition checksum_ok :: "bool \<Rightarrow> addrconv \<Rightarrow> addr6 \<Rightarrow> vrrp \<Rightarrow> net_hdr \<Rightarrow> bytes \<Rightarrow> bool res" where
  "checksum_ok le ac a6 v net buf =
     (if vr_version v = 2 then Inr (checksum le buf = 0)
      else if vr_version v = 3 then
        (case vrrp_len v of
           Inl e \<Rightarrow> Inl e
         | Inr n \<Rightarrow> map_sum id (\<lambda>c. c = 0) (net_checksum le ac a6 net n buf))
      else Inl KeyError)"

section \<open>Frames\<close>

text \<open>
  \<open>create_packet\<close> and \<open>Packet.serialize\<close>: the object after it, and the frame.  The length in the
  IPv6 header counts the header itself.
\<close>

definition vrrp_ip4 :: "string \<Rightarrow> nat \<Rightarrow> ipv4" where
  "vrrp_ip4 primary ident =
     \<lparr>version = 4, header_length = 5, tos = 0xc0, total_length = 0, identification = ident, flags = 0, offset = 0,
      ttl = 255, proto = 112, csum = 0, src = primary, dst = VRRP_IPV4_DST_ADDRESS, option = None\<rparr>"

definition vrrp_ip6 :: "string \<Rightarrow> nat \<Rightarrow> ipv6" where
  "vrrp_ip6 primary len =
     \<lparr>ip6_version = 6, traffic_class = 0xc0, flow_label = 0, payload_length = 40 + len, ip6_nxt = 112,
      hop_limit = 255, ip6_src = primary, ip6_dst = VRRP_IPV6_DST_ADDRESS, ext_hdrs = []\<rparr>"

definition vrrp_eth :: "vrrp \<Rightarrow> ethernet" where
  "vrrp_eth v =
     (if vr_ipv6 v then \<lparr>eth_dst = VRRP_IPV6_DST_MAC_ADDRESS, eth_src = vrrp_ipv6_src_mac_address (vrid v), ethertype = 0x86dd\<rparr>
      else \<lparr>eth_dst = VRRP_IPV4_DST_MAC_ADDRESS, eth_src = vrrp_ipv4_src_mac_address (vrid v), ethertype = 0x0800\<rparr>)"

definition link_headers :: "ethernet \<Rightarrow> nat option \<Rightarrow> proto_obj list" where
  "link_headers e vlan_id =
     (case vlan_id of
        None \<Rightarrow> [PEthernet e]
      | Some n \<Rightarrow> [PEthernet (e\<lparr>ethertype := 0x8100\<rparr>),
          PVlan \<lparr>pcp = 0, cfi = 0, vid = n, vlan_ethertype = ethertype e\<rparr>])"

definition vrrp_frame ::
  "bool \<Rightarrow> addrconv \<Rightarrow> addr6 \<Rightarrow> vrrp \<Rightarrow> string \<Rightarrow> nat option \<Rightarrow> vrrp \<times> bytes res"
where
  "vrrp_frame le ac a6 v primary vlan_id =
     (if vr_ipv6 v then
        (case vrrp_len v of
           Inl e \<Rightarrow> (v, Inl e)
         | Inr n \<Rightarrow>
             (let h = vrrp_ip6 primary n in
              case vrrp_serialize le ac a6 v (Net6 h) of
                (v1, Inl e) \<Rightarrow> (v1, Inl e)
              | (v1, Inr body) \<Rightarrow>
                  (case ipv6_serialize a6 h body of
                     Inl e \<Rightarrow> (v1, Inl e)
                   | Inr (hdr, _) \<Rightarrow> (v1, serialize le ac (link_headers (vrrp_eth v) vlan_id @ [PRaw (hdr @ body)])))))
      else
        (let (i, v0) = get_identification v; h = vrrp_ip4 primary i in
         case vrrp_serialize le ac a6 v0 (Net4 h) of
           (v1, Inl e) \<Rightarrow> (v1, Inl e)
         | (v1, Inr body) \<Rightarrow>
             (v1, serialize le ac (link_headers (vrrp_eth v) vlan_id @ [PIpv4 h, PRaw body]))))"

text \<open>
  A decoded frame keeps an IPv6 header and an advertisement as the bytes they were read from;
  \<open>net_of\<close> and \<open>vrrp_of\<close> are the objects.
\<close>

definition vrrp_parsers :: "addrconv \<Rightarrow> addr6 \<Rightarrow> other_parsers \<Rightarrow> other_parsers" where
  "vrrp_parsers ac a6 oth n buf =
     (if n = ''vrrp'' then
        (case vrrp_parser ac a6 buf of
           Inl e \<Rightarrow> raise e
         | Inr (v, rest) \<Rightarrow>
             (case vrrp_len v of Inl e \<Rightarrow> raise e | Inr l \<Rightarrow> ret (Some (POther ''vrrp'' l buf), None, rest)))
      else if n = ''ipv6'' then
        (case ipv6_parser a6 buf of
           Inl e \<Rightarrow> raise e
         | Inr (h, t, rest) \<Rightarrow> ret (Some (POther ''ipv6'' (ipv6_len h) buf), get_packet_type t, rest))
      else oth n buf)"

fun net_of :: "addr6 \<Rightarrow> proto_obj \<Rightarrow> net_hdr option" where
  "net_of a6 (PIpv4 h) = Some (Net4 h)"
| "net_of a6 (POther n l b) =
     (if n = ''ipv6'' then (case ipv6_parser a6 b of Inl e \<Rightarrow> None | Inr (h, _) \<Rightarrow> Some (Net6 h)) else None)"
| "net_of a6 _ = None"

fun vrrp_of :: "addrconv \<Rightarrow> addr6 \<Rightarrow> proto_obj \<Rightarrow> vrrp option" where
  "vrrp_of ac a6 (POther n l b) =
     (if n = ''vrrp'' then (case vrrp_parser ac a6 b of Inl e \<Rightarrow> None | Inr (v, _) \<Rightarrow> Some v) else None)"
| "vrrp_of ac a6 _ = None"

text \<open>\<open>get_payload\<close>: the first IP header, when an advertisement follows it.\<close>

fun get_payload :: "addrconv \<Rightarrow> addr6 \<Rightarrow> proto_obj list \<Rightarrow> (net_hdr \<times> vrrp) option" where
  "get_payload ac a6 [] = None"
| "get_payload ac a6 (p # r) =
     (case net_of a6 p of
        None \<Rightarrow> get_payload ac a6 r
      | Some h \<Rightarrow>
          (case r of
             [] \<Rightarrow> None
           | q # _ \<Rightarrow>
               (case vrrp_of ac a6 q of
                  None \<Rightarrow> None
                | Some v \<Rightarrow> if proto_truthy p \<and> proto_truthy q then Some (h, v) else None)))"

end
