(* ===== verification/Vrrp_Monitor.thy ===== *)
theory Vrrp_Monitor
  imports Vrrp
begin

text \<open>
  \<open>ryu/services/protocols/vrrp\<close>: the configuration of a virtual router and its interface
  (\<open>event.py\<close>), its statistics (\<open>manager.py\<close>), and the monitor that decides which frames are
  advertisements for it and programs its switch (\<open>monitor.py\<close>, \<open>monitor_openflow.py\<close>).
  Configuration and statistics are objects that monitor and router share; the statistics are
  passed along, the fields of the configuration that a monitor reads never change.
\<close>

section \<open>Configuration\<close>

datatype admin_state = AdminFlag bool | AdminText string

record vrrp_config =
  cf_version :: nat
  cf_admin_state :: admin_state
  cf_vrid :: nat
  cf_priority :: int
  cf_ip_addresses :: "string list"
  cf_interval :: rat
  cf_preempt_mode :: bool
  cf_preempt_delay :: rat
  cf_accept_mode :: bool
  cf_is_ipv6 :: bool
  cf_statistics_interval :: rat

definition new_config ::
  "addrconv \<Rightarrow> addr6 \<Rightarrow> nat \<Rightarrow> admin_state \<Rightarrow> nat option \<Rightarrow> int \<Rightarrow> string list option \<Rightarrow> rat \<Rightarrow> bool \<Rightarrow> rat \<Rightarrow>
   bool \<Rightarrow> rat \<Rightarrow> vrrp_config res"
where
  "new_config ac a6 ver adm rid prio ips ival pmode pdelay amode sival =
     (case (rid, ips) of
        (Some r, Some as) \<Rightarrow>
          (case as of
             [] \<Rightarrow> Inl IndexError
           | a # _ \<Rightarrow> map_sum id (\<lambda>six.
               \<lparr>cf_version = ver, cf_admin_state = adm, cf_vrid = r, cf_priority = prio, cf_ip_addresses = as,
                cf_interval = ival, cf_preempt_mode = pmode, cf_preempt_delay = pdelay, cf_accept_mode = amode,
                cf_is_ipv6 = six, cf_statistics_interval = sival\<rparr>) (is_ipv6 ac a6 a))
      | _ \<Rightarrow> Inl AssertionError)"

definition address_owner :: "vrrp_config \<Rightarrow> bool" where
  "address_owner cf \<longleftrightarrow> cf_priority cf = VRRP_PRIORITY_ADDRESS_OWNER"

text \<open>\<open>VRRPInterfaceOpenFlow\<close>.\<close>

record vrrp_interface =
  if_mac :: string
  if_primary :: string
  if_vlan :: "nat option"
  if_dpid :: nat
  if_port_no :: nat

record vrrp_statistics =
  tx_packets :: nat
  rx_packets :: nat
  rx_zero_prio :: nat
  tx_zero_prio :: nat
  rx_invalid :: nat
  idle_to_master :: nat
  idle_to_backup :: nat
  backup_to_master :: nat
  master_to_backup :: nat

definition new_statistics :: vrrp_statistics where
  "new_statistics = \<lparr>tx_packets = 0, rx_packets = 0, rx_zero_prio = 0, tx_zero_prio = 0, rx_invalid = 0,
     idle_to_master = 0, idle_to_backup = 0, backup_to_master = 0, master_to_backup = 0\<rparr>"

section \<open>Received frames\<close>

text \<open>\<open>len(proto)\<close>.\<close>

fun proto_len :: "proto_obj \<Rightarrow> nat" where
  "proto_len (PEthernet h) = 14"
| "proto_len (PVlan h) = 4"
| "proto_len (PSvlan h) = 4"
| "proto_len (PArp h) = 28"
| "proto_len (PIpv4 h) = header_length h * 4"
| "proto_len (PTcp h) = tcp_offset h * 4"
| "proto_len (PUdp h) = 8"
| "proto_len (POther n l b) = l"
| "proto_len (PRaw b) = length b"

text \<open>The position of the advertisement: the headers up to the IP header it follows.\<close>

fun payload_offset :: "addr6 \<Rightarrow> proto_obj list \<Rightarrow> nat" where
  "payload_offset a6 [] = 0"
| "payload_offset a6 (p # r) = proto_len p + (if net_of a6 p = None then payload_offset a6 r else 0)"

definition vlan_matches :: "nat option \<Rightarrow> proto_obj \<Rightarrow> bool" where
  "vlan_matches vl p =
     (case p of PVlan h \<Rightarrow> vl = Some (vid h) | _ \<Rightarrow> vl = None)"

text \<open>
  \<open>_parse_received_packet\<close>: the decoded frame and the advertisement in it, if the frame is one
  for this router.
\<close>

definition accept_advertisement ::
  "bool \<Rightarrow> addrconv \<Rightarrow> addr6 \<Rightarrow> vrrp_config \<Rightarrow> bytes \<Rightarrow> proto_obj list \<Rightarrow> net_hdr \<Rightarrow> vrrp \<Rightarrow> bool res"
where
  "accept_advertisement le ac a6 cf data pkt ip v =
     (case is_valid_ttl ip of
        Inl e \<Rightarrow> Inl e
      | Inr ok \<Rightarrow>
          if \<not> ok \<or> vr_version v \<noteq> cf_version cf \<or> \<not> vrrp_is_valid v then Inr False
          else
            (case vrrp_len v of
               Inl e \<Rightarrow> Inl e
             | Inr n \<Rightarrow>
                 map_sum id (\<lambda>sum_ok. sum_ok \<and> vrid v = cf_vrid cf \<and> vr_ipv6 v = cf_is_ipv6 cf)
                   (checksum_ok le ac a6 v ip (slice (payload_offset a6 pkt) (payload_offset a6 pkt + n) data))))"

definition parse_received_packet ::
  "bool \<Rightarrow> addrconv \<Rightarrow> addr6 \<Rightarrow> other_parsers \<Rightarrow> vrrp_config \<Rightarrow> vrrp_interface \<Rightarrow> bytes \<Rightarrow>
   (proto_obj list \<times> vrrp) option run"
where
  "parse_received_packet le ac a6 oth cf itf data =
     run_bind (Packet ac (vrrp_parsers ac a6 oth) data) (\<lambda>pkt.
       if length pkt < 2 \<or> \<not> vlan_matches (if_vlan itf) (pkt ! 1) then ret None
       else case get_payload ac a6 pkt of
         None \<Rightarrow> ret None
       | Some (ip, v) \<Rightarrow>
           run_bind (lift_res (accept_advertisement le ac a6 cf data pkt ip v)) (\<lambda>ok.
             ret (if ok then Some (pkt, v) else None)))"

text \<open>\<open>_send_vrrp_packet_received\<close>: the statistics and what the router is sent.\<close>

definition send_vrrp_packet_received ::
  "bool \<Rightarrow> addrconv \<Rightarrow> addr6 \<Rightarrow> other_parsers \<Rightarrow> vrrp_config \<Rightarrow> vrrp_interface \<Rightarrow> bytes \<Rightarrow> vrrp_statistics \<Rightarrow>
   (vrrp_statistics \<times> proto_obj list option) run"
where
  "send_vrrp_packet_received le ac a6 oth cf itf data st =
     run_bind (parse_received_packet le ac a6 oth cf itf data) (\<lambda>r.
       case r of
         None \<Rightarrow> ret (st\<lparr>rx_invalid := rx_invalid st + 1\<rparr>, None)
       | Some (pkt, v) \<Rightarrow>
           ret (st\<lparr>rx_zero_prio := rx_zero_prio st + (if vr_priority v = 0 then 1 else 0),
                   rx_packets := rx_packets st + 1\<rparr>, Some pkt))"

text \<open>\<open>packet_in_handler\<close>: \<open>in_port\<close> is what the match of the message says, if anything.\<close>

definition monitor_packet_in ::
  "bool \<Rightarrow> addrconv \<Rightarrow> addr6 \<Rightarrow> other_parsers \<Rightarrow> vrrp_config \<Rightarrow> vrrp_interface \<Rightarrow> nat \<Rightarrow> nat option \<Rightarrow> bytes \<Rightarrow>
   vrrp_statistics \<Rightarrow> (vrrp_statistics \<times> proto_obj list option) run"
where
  "monitor_packet_in le ac a6 oth cf itf dpid in_port data st =
     (if dpid \<noteq> if_dpid itf \<or> in_port \<noteq> Some (if_port_no itf) then ret (st, None)
      else send_vrrp_packet_received le ac a6 oth cf itf data st)"

section \<open>The switch\<close>

datatype monitor_value = MonText string | MonNumber nat

type_synonym monitor_match = "(string \<times> monitor_value) list"

datatype monitor_msg =
    MonDelete monitor_match
  | MonAdd monitor_match
  | MonPacketOut nat bytes

definition monitor_match :: "addrconv \<Rightarrow> addr6 \<Rightarrow> vrrp_config \<Rightarrow> vrrp_interface \<Rightarrow> monitor_match res" where
  "monitor_match ac a6 cf itf =
     (case cf_ip_addresses cf of
        [] \<Rightarrow> Inl IndexError
      | a # _ \<Rightarrow>
          map_sum id (\<lambda>six.
            [(''in_port'', MonNumber (if_port_no itf))] @
            (if six then
               [(''eth_dst'', MonText VRRP_IPV6_DST_MAC_ADDRESS),
                (''eth_src'', MonText (vrrp_ipv6_src_mac_address (cf_vrid cf))),
                (''eth_type'', MonNumber 0x86dd), (''ipv6_dst'', MonText VRRP_IPV6_DST_ADDRESS)]
             else
               [(''eth_dst'', MonText VRRP_IPV4_DST_MAC_ADDRESS),
                (''eth_src'', MonText (vrrp_ipv4_src_mac_address (cf_vrid cf))),
                (''eth_type'', MonNumber 0x0800), (''ipv4_dst'', MonText VRRP_IPV4_DST_ADDRESS)]) @
            (case if_vlan itf of None \<Rightarrow> [] | Some n \<Rightarrow> [(''vlan_vid'', MonNumber n)]) @
            [(''ip_proto'', MonNumber 112)])
          (is_ipv6 ac a6 a))"

text \<open>\<open>dp\<close> says whether the switch is known to topology discovery; without it nothing is sent.\<close>

definition monitor_initialize ::
  "addrconv \<Rightarrow> addr6 \<Rightarrow> vrrp_config \<Rightarrow> vrrp_interface \<Rightarrow> bool \<Rightarrow> monitor_msg list res"
where
  "monitor_initialize ac a6 cf itf dp =
     (if dp then map_sum id (\<lambda>m. [MonDelete m, MonAdd m]) (monitor_match ac a6 cf itf) else Inr [])"

definition monitor_shutdown ::
  "addrconv \<Rightarrow> addr6 \<Rightarrow> vrrp_config \<Rightarrow> vrrp_interface \<Rightarrow> bool \<Rightarrow> monitor_msg list res"
where
  "monitor_shutdown ac a6 cf itf dp =
     (if dp then map_sum id (\<lambda>m. [MonDelete m]) (monitor_match ac a6 cf itf) else Inr [])"

definition monitor_transmit :: "vrrp_interface \<Rightarrow> bool \<Rightarrow> bytes \<Rightarrow> monitor_msg list" where
  "monitor_transmit itf dp data = (if dp then [MonPacketOut (if_port_no itf) data] else [])"

datatype vrrp_state = VInitialize | VMaster | VBackup

text \<open>\<open>vrrp_state_changed_handler\<close>: the old state is missing at the start.\<close>

definition vrrp_state_changed_handler ::
  "addrconv \<Rightarrow> addr6 \<Rightarrow> vrrp_config \<Rightarrow> vrrp_interface \<Rightarrow> bool \<Rightarrow> vrrp_state option \<Rightarrow> vrrp_state \<Rightarrow> vrrp_statistics \<Rightarrow>
   (vrrp_statistics \<times> monitor_msg list) res"
where
  "vrrp_state_changed_handler ac a6 cf itf dp old new st =
     (case new of
        VInitialize \<Rightarrow>
          map_sum id (Pair st)
            (if old \<noteq> None then monitor_shutdown ac a6 cf itf dp else monitor_initialize ac a6 cf itf dp)
      | _ \<Rightarrow>
          Inr (case old of
                 Some VInitialize \<Rightarrow>
                   if new = VMaster then st\<lparr>idle_to_master := idle_to_master st + 1\<rparr>
                   else st\<lparr>idle_to_backup := idle_to_backup st + 1\<rparr>
               | Some VMaster \<Rightarrow> st\<lparr>master_to_backup := master_to_backup st + 1\<rparr>
               | _ \<Rightarrow> st\<lparr>backup_to_master := backup_to_master st + 1\<rparr>, []))"

end
