(* ===== verification/Vrrp_Router.thy ===== *)
theory Vrrp_Router
  imports Vrrp_Monitor
begin

text \<open>
  \<open>ryu/services/protocols/vrrp/router.py\<close>: the virtual router, its timers, and the states of
  versions 2 and 3.  A handler returns the router it leaves and the exception that ended it, if
  any; what it sends is appended to \<open>rt_out\<close>.  Times are rationals.
\<close>

section \<open>Timers and parameters\<close>

text \<open>
  A \<open>Timer\<close> has no thread, one that waits until a time, or one that has called the handler: it
  counts as running until it is cancelled or started again.  \<open>cancel\<close>, and \<open>start\<close> of a running
  timer, wait for the old thread to end; here the old thread is gone at once.
\<close>

datatype vtimer = Idle | Armed rat | Fired

definition timer_start :: "rat \<Rightarrow> rat \<Rightarrow> vtimer" where
  "timer_start clk interval = Armed (clk + interval)"

definition timer_running :: "vtimer \<Rightarrow> bool" where
  "timer_running t \<longleftrightarrow> t \<noteq> Idle"

text \<open>\<open>VRRPParams\<close>: without an interval the arithmetic raises \<open>TypeError\<close>.\<close>

definition skew_time :: "vrrp_config \<Rightarrow> rat option \<Rightarrow> rat res" where
  "skew_time cf mai =
     (if cf_version cf = 2 then Inr ((256 - of_int (cf_priority cf)) / 256)
      else if cf_version cf = 3 then
        (case mai of None \<Rightarrow> Inl TypeError | Some m \<Rightarrow> Inr ((256 - of_int (cf_priority cf)) * m / 256))
      else Inl (ValueError ''unknown vrrp version''))"

definition master_down_interval :: "vrrp_config \<Rightarrow> rat option \<Rightarrow> rat res" where
  "master_down_interval cf mai =
     (case mai of None \<Rightarrow> Inl TypeError | Some m \<Rightarrow> map_sum id (\<lambda>s. 3 * m + s) (skew_time cf mai))"

section \<open>The router\<close>

datatype vrrp_out =
    VStateChanged "vrrp_state option" vrrp_state
  | VTransmit bytes

record vrrp_router =
  rt_config :: vrrp_config
  rt_iface :: vrrp_interface
  rt_stats :: vrrp_statistics
  rt_interval :: "rat option"
  rt_state :: "vrrp_state option"
  rt_cached :: "vrrp option"
  rt_master_down :: vtimer
  rt_adver :: vtimer
  rt_preempt :: vtimer
  rt_stats_out :: vtimer
  rt_out :: "vrrp_out list"

type_synonym rt_result = "vrrp_router \<times> py_exn option"

definition new_router :: "vrrp_config \<Rightarrow> vrrp_interface \<Rightarrow> vrrp_statistics \<Rightarrow> vrrp_router" where
  "new_router cf itf st =
     \<lparr>rt_config = cf, rt_iface = itf, rt_stats = st, rt_interval = None, rt_state = None, rt_cached = None,
      rt_master_down = Idle, rt_adver = Idle, rt_preempt = Idle, rt_stats_out = Idle, rt_out = []\<rparr>"

text \<open>One part of a handler after another, unless it raised.\<close>

definition rt_then :: "rt_result \<Rightarrow> (vrrp_router \<Rightarrow> rt_result) \<Rightarrow> rt_result" where
  "rt_then a f = (case a of (r, None) \<Rightarrow> f r | (r, Some e) \<Rightarrow> (r, Some e))"

definition rt_emit :: "vrrp_out \<Rightarrow> vrrp_router \<Rightarrow> vrrp_router" where
  "rt_emit x r = r\<lparr>rt_out := rt_out r @ [x]\<rparr>"

definition state_change :: "vrrp_state \<Rightarrow> vrrp_router \<Rightarrow> vrrp_router" where
  "state_change new r = rt_emit (VStateChanged (rt_state r) new) (r\<lparr>rt_state := Some new\<rparr>)"

definition start_master_down :: "rat \<Rightarrow> rat res \<Rightarrow> vrrp_router \<Rightarrow> rt_result" where
  "start_master_down clk interval r =
     (case interval of Inl e \<Rightarrow> (r, Some e) | Inr i \<Rightarrow> (r\<lparr>rt_master_down := timer_start clk i\<rparr>, None))"

definition start_adver :: "rat \<Rightarrow> vrrp_router \<Rightarrow> vrrp_router" where
  "start_adver clk r = r\<lparr>rt_adver := timer_start clk (cf_interval (rt_config r))\<rparr>"

text \<open>The advertisement of the configuration, made when there is none.\<close>

definition make_advertisement :: "addrconv \<Rightarrow> addr6 \<Rightarrow> vrrp_config \<Rightarrow> vrrp res" where
  "make_advertisement ac a6 cf =
     (case sec_to_max_adver_int (cf_version cf) (cf_interval cf) of
        Inl e \<Rightarrow> Inl e
      | Inr m \<Rightarrow>
          create_version ac a6 (cf_version cf) VRRP_TYPE_ADVERTISEMENT (cf_vrid cf) (Some (cf_priority cf)) (Some m)
            (cf_ip_addresses cf) None None)"

text \<open>The one with priority 0 that gives the role up.\<close>

definition release_advertisement :: "addrconv \<Rightarrow> addr6 \<Rightarrow> vrrp \<Rightarrow> vrrp res" where
  "release_advertisement ac a6 v =
     vrrp_create ac a6 (vr_version v) (vr_type v) (vrid v) VRRP_PRIORITY_RELEASE_RESPONSIBILITY (max_adver_int v)
       (ip_addresses v)"

definition transmit ::
  "bool \<Rightarrow> addrconv \<Rightarrow> addr6 \<Rightarrow> bool \<Rightarrow> vrrp \<Rightarrow> vrrp_router \<Rightarrow> rt_result"
where
  "transmit le ac a6 keep v r =
     (case vrrp_frame le ac a6 v (if_primary (rt_iface r)) (if_vlan (rt_iface r)) of
        (v', x) \<Rightarrow>
          (let r' = (if keep then r\<lparr>rt_cached := Some v'\<rparr> else r) in
           case x of
             Inl e \<Rightarrow> (r', Some e)
           | Inr frame \<Rightarrow>
               (rt_emit (VTransmit frame) (r'\<lparr>rt_stats := (rt_stats r')\<lparr>tx_packets := tx_packets (rt_stats r') + 1\<rparr>\<rparr>), None)))"

definition count_zero_prio :: "vrrp \<Rightarrow> vrrp_router \<Rightarrow> vrrp_router" where
  "count_zero_prio v r =
     (if vr_priority v = 0 then r\<lparr>rt_stats := (rt_stats r)\<lparr>tx_zero_prio := tx_zero_prio (rt_stats r) + 1\<rparr>\<rparr> else r)"

definition send_advertisement :: "bool \<Rightarrow> addrconv \<Rightarrow> addr6 \<Rightarrow> bool \<Rightarrow> vrrp_router \<Rightarrow> rt_result" where
  "send_advertisement le ac a6 release r =
     (case (case rt_cached r of None \<Rightarrow> make_advertisement ac a6 (rt_config r) | Some v \<Rightarrow> Inr v) of
        Inl e \<Rightarrow> (r, Some e)
      | Inr v \<Rightarrow>
          (let r1 = r\<lparr>rt_cached := Some v\<rparr> in
           if release then
             (case release_advertisement ac a6 v of
                Inl e \<Rightarrow> (r1, Some e)
              | Inr w \<Rightarrow> transmit le ac a6 False w (count_zero_prio v r1))
           else transmit le ac a6 True v (count_zero_prio v r1)))"

section \<open>The states\<close>

text \<open>What both versions have in common: the part of a master that sends, and becoming master.\<close>

definition master_adver :: "bool \<Rightarrow> addrconv \<Rightarrow> addr6 \<Rightarrow> rat \<Rightarrow> vrrp_router \<Rightarrow> rt_result" where
  "master_adver le ac a6 clk r =
     rt_then (send_advertisement le ac a6 False r) (\<lambda>r1. (start_adver clk r1, None))"

definition backup_master_down :: "bool \<Rightarrow> addrconv \<Rightarrow> addr6 \<Rightarrow> rat \<Rightarrow> vrrp_router \<Rightarrow> rt_result" where
  "backup_master_down le ac a6 clk r =
     rt_then (send_advertisement le ac a6 False r)
       (\<lambda>r1. (start_adver clk (state_change VMaster (r1\<lparr>rt_preempt := Idle\<rparr>)), None))"

text \<open>An event is dispatched to the state object; before \<open>start\<close> there is none.\<close>

definition on_state ::
  "vrrp_router \<Rightarrow> rt_result \<Rightarrow> rt_result \<Rightarrow> rt_result \<Rightarrow> rt_result"
where
  "on_state r ini mas bak =
     (case rt_state r of None \<Rightarrow> (r, Some AttributeError) | Some VInitialize \<Rightarrow> ini | Some VMaster \<Rightarrow> mas | Some VBackup \<Rightarrow> bak)"

definition master_down_handler :: "bool \<Rightarrow> addrconv \<Rightarrow> addr6 \<Rightarrow> rat \<Rightarrow> vrrp_router \<Rightarrow> rt_result" where
  "master_down_handler le ac a6 clk r = on_state r (r, None) (r, None) (backup_master_down le ac a6 clk r)"

definition adver_handler :: "bool \<Rightarrow> addrconv \<Rightarrow> addr6 \<Rightarrow> rat \<Rightarrow> vrrp_router \<Rightarrow> rt_result" where
  "adver_handler le ac a6 clk r = on_state r (r, None) (master_adver le ac a6 clk r) (r, None)"

definition preempt_delay_handler :: "bool \<Rightarrow> addrconv \<Rightarrow> addr6 \<Rightarrow> rat \<Rightarrow> vrrp_router \<Rightarrow> rt_result" where
  "preempt_delay_handler le ac a6 clk r = on_state r (r, None) (r, None) (backup_master_down le ac a6 clk r)"

definition statistics_handler :: "rat \<Rightarrow> vrrp_router \<Rightarrow> rt_result" where
  "statistics_handler clk r =
     (r\<lparr>rt_stats_out := timer_start clk (cf_statistics_interval (rt_config r))\<rparr>, None)"

subsection \<open>Received advertisements\<close>

definition net_src :: "net_hdr \<Rightarrow> string" where
  "net_src net = (case net of Net4 h \<Rightarrow> src h | Net6 h \<Rightarrow> ip6_src h)"

text \<open>Whether a master yields: to a higher priority, or to a higher address of its own priority.\<close>

definition yields :: "addrconv \<Rightarrow> addr6 \<Rightarrow> vrrp_router \<Rightarrow> net_hdr \<Rightarrow> vrrp \<Rightarrow> bool res" where
  "yields ac a6 r ip v =
     (if cf_priority (rt_config r) < vr_priority v then Inr True
      else if cf_priority (rt_config r) = vr_priority v then ip_address_lt ac a6 (if_primary (rt_iface r)) (net_src ip)
      else Inr False)"

definition v2_master_received ::
  "bool \<Rightarrow> addrconv \<Rightarrow> addr6 \<Rightarrow> rat \<Rightarrow> net_hdr \<Rightarrow> vrrp \<Rightarrow> vrrp_router \<Rightarrow> rt_result"
where
  "v2_master_received le ac a6 clk ip v r =
     (if vr_priority v = 0 then master_adver le ac a6 clk r
      else case yields ac a6 r ip v of
        Inl e \<Rightarrow> (r, Some e)
      | Inr False \<Rightarrow> (r, None)
      | Inr True \<Rightarrow>
          (let r1 = state_change VBackup (r\<lparr>rt_adver := Idle\<rparr>)
           in start_master_down clk (master_down_interval (rt_config r1) (rt_interval r1)) r1))"

definition v3_master_received ::
  "bool \<Rightarrow> addrconv \<Rightarrow> addr6 \<Rightarrow> rat \<Rightarrow> net_hdr \<Rightarrow> vrrp \<Rightarrow> vrrp_router \<Rightarrow> rt_result"
where
  "v3_master_received le ac a6 clk ip v r =
     (if vr_priority v = 0 then master_adver le ac a6 clk r
      else case yields ac a6 r ip v of
        Inl e \<Rightarrow> (r, Some e)
      | Inr False \<Rightarrow> (r, None)
      | Inr True \<Rightarrow>
          (case max_adver_int_in_sec v of
             Inl e \<Rightarrow> (r\<lparr>rt_adver := Idle\<rparr>, Some e)
           | Inr m \<Rightarrow>
               (let r1 = state_change VBackup (r\<lparr>rt_adver := Idle, rt_interval := Some m\<rparr>)
                in start_master_down clk (master_down_interval (rt_config r1) (rt_interval r1)) r1)))"

text \<open>A backup of higher priority waits for its own timer, or for the delay when there is one.\<close>

definition preempt_wait :: "rat \<Rightarrow> vrrp \<Rightarrow> vrrp_router \<Rightarrow> rt_result" where
  "preempt_wait clk v r =
     (let cf = rt_config r in
      if cf_preempt_mode cf \<and> 0 < cf_preempt_delay cf \<and> vr_priority v < cf_priority cf then
        start_master_down clk (master_down_interval cf (rt_interval r))
          (if timer_running (rt_preempt r) then r else r\<lparr>rt_preempt := timer_start clk (cf_preempt_delay cf)\<rparr>)
      else (r, None))"

definition v2_backup_received :: "rat \<Rightarrow> vrrp \<Rightarrow> vrrp_router \<Rightarrow> rt_result" where
  "v2_backup_received clk v r =
     (let cf = rt_config r in
      if vr_priority v = 0 then start_master_down clk (skew_time cf (rt_interval r)) r
      else if \<not> cf_preempt_mode cf \<or> cf_priority cf \<le> vr_priority v then
        start_master_down clk (master_down_interval cf (rt_interval r)) (r\<lparr>rt_preempt := Idle\<rparr>)
      else preempt_wait clk v r)"

definition v3_backup_received :: "rat \<Rightarrow> vrrp \<Rightarrow> vrrp_router \<Rightarrow> rt_result" where
  "v3_backup_received clk v r =
     (let cf = rt_config r in
      if vr_priority v = 0 then start_master_down clk (skew_time cf (rt_interval r)) r
      else if \<not> cf_preempt_mode cf \<or> cf_priority cf \<le> vr_priority v then
        (case max_adver_int_in_sec v of
           Inl e \<Rightarrow> (r, Some e)
         | Inr m \<Rightarrow> start_master_down clk (master_down_interval cf (Some m)) (r\<lparr>rt_interval := Some m\<rparr>))
      else preempt_wait clk v r)"

definition vrrp_received_handler ::
  "bool \<Rightarrow> addrconv \<Rightarrow> addr6 \<Rightarrow> rat \<Rightarrow> proto_obj list \<Rightarrow> vrrp_router \<Rightarrow> rt_result"
where
  "vrrp_received_handler le ac a6 clk pkt r =
     (let with_payload = (\<lambda>f. case get_payload ac a6 pkt of None \<Rightarrow> (r, Some AttributeError) | Some (ip, v) \<Rightarrow> f ip v) in
      if cf_version (rt_config r) = 2 then
        on_state r (r, None) (with_payload (\<lambda>ip v. v2_master_received le ac a6 clk ip v r))
          (with_payload (\<lambda>ip v. v2_backup_received clk v r))
      else
        on_state r (r, None) (with_payload (\<lambda>ip v. v3_master_received le ac a6 clk ip v r))
          (with_payload (\<lambda>ip v. v3_backup_received clk v r)))"

subsection \<open>Requests\<close>

definition vrrp_shutdown_request_handler :: "bool \<Rightarrow> addrconv \<Rightarrow> addr6 \<Rightarrow> vrrp_router \<Rightarrow> rt_result" where
  "vrrp_shutdown_request_handler le ac a6 r =
     on_state r (r, None)
       (rt_then (send_advertisement le ac a6 True (r\<lparr>rt_adver := Idle\<rparr>)) (\<lambda>r1. (state_change VInitialize r1, None)))
       (state_change VInitialize (r\<lparr>rt_master_down := Idle, rt_preempt := Idle\<rparr>), None)"

record config_change =
  ch_priority :: "int option"
  ch_interval :: "rat option"
  ch_preempt_mode :: "bool option"
  ch_preempt_delay :: "rat option"
  ch_accept_mode :: "bool option"

definition change_config :: "config_change \<Rightarrow> vrrp_config \<Rightarrow> vrrp_config" where
  "change_config ch cf =
     cf\<lparr>cf_priority := or_else (ch_priority ch) (cf_priority cf),
        cf_interval := or_else (ch_interval ch) (cf_interval cf),
        cf_preempt_mode := or_else (ch_preempt_mode ch) (cf_preempt_mode cf),
        cf_preempt_delay := or_else (ch_preempt_delay ch) (cf_preempt_delay cf),
        cf_accept_mode := or_else (ch_accept_mode ch) (cf_accept_mode cf)\<rparr>"

definition master_config_change ::
  "bool \<Rightarrow> addrconv \<Rightarrow> addr6 \<Rightarrow> rat \<Rightarrow> config_change \<Rightarrow> vrrp_router \<Rightarrow> rt_result"
where
  "master_config_change le ac a6 clk ch r =
     (if ch_priority ch \<noteq> None \<or> ch_interval ch \<noteq> None then master_adver le ac a6 clk (r\<lparr>rt_adver := Idle\<rparr>)
      else (r, None))"

definition backup_config_change ::
  "bool \<Rightarrow> addrconv \<Rightarrow> addr6 \<Rightarrow> rat \<Rightarrow> config_change \<Rightarrow> vrrp_router \<Rightarrow> rt_result"
where
  "backup_config_change le ac a6 clk ch r =
     rt_then
       (if ch_priority ch \<noteq> None \<and> address_owner (rt_config r)
        then backup_master_down le ac a6 clk (r\<lparr>rt_master_down := Idle\<rparr>) else (r, None))
       (\<lambda>r1. (if ch_preempt_mode ch \<noteq> None \<or> ch_preempt_delay ch \<noteq> None then r1\<lparr>rt_preempt := Idle\<rparr> else r1, None))"

definition vrrp_config_change_request_handler ::
  "bool \<Rightarrow> addrconv \<Rightarrow> addr6 \<Rightarrow> rat \<Rightarrow> config_change \<Rightarrow> vrrp_router \<Rightarrow> rt_result"
where
  "vrrp_config_change_request_handler le ac a6 clk ch r =
     (let r1 = r\<lparr>rt_config := change_config ch (rt_config r), rt_cached := None\<rparr> in
      on_state r1 (r1, None) (master_config_change le ac a6 clk ch r1) (backup_config_change le ac a6 clk ch r1))"

text \<open>
  \<open>api.vrrp_config_change\<close> passes its arguments by position, and the fourth position of the event is
  the delay.  A flag is the number 0 or 1.
\<close>

definition vrrp_config_change :: "int option \<Rightarrow> rat option \<Rightarrow> bool option \<Rightarrow> bool option \<Rightarrow> config_change" where
  "vrrp_config_change priority interval preempt_mode accept_mode =
     \<lparr>ch_priority = priority, ch_interval = interval, ch_preempt_mode = preempt_mode,
      ch_preempt_delay = map_option of_bool accept_mode, ch_accept_mode = None\<rparr>"

section \<open>Start\<close>

definition become_master :: "bool \<Rightarrow> addrconv \<Rightarrow> addr6 \<Rightarrow> rat \<Rightarrow> vrrp_router \<Rightarrow> rt_result" where
  "become_master le ac a6 clk r =
     rt_then (send_advertisement le ac a6 False r) (\<lambda>r1. (start_adver clk (state_change VMaster r1), None))"

definition become_backup :: "rat \<Rightarrow> vrrp_router \<Rightarrow> rt_result" where
  "become_backup clk r =
     (let r1 = state_change VBackup r
      in start_master_down clk (master_down_interval (rt_config r1) (rt_interval r1)) r1)"

definition v2_start :: "bool \<Rightarrow> addrconv \<Rightarrow> addr6 \<Rightarrow> rat \<Rightarrow> vrrp_router \<Rightarrow> rt_result" where
  "v2_start le ac a6 clk r =
     (let r1 = state_change VInitialize (r\<lparr>rt_interval := Some (cf_interval (rt_config r))\<rparr>) in
      if address_owner (rt_config r) then become_master le ac a6 clk r1 else become_backup clk r1)"

definition v3_start :: "bool \<Rightarrow> addrconv \<Rightarrow> addr6 \<Rightarrow> rat \<Rightarrow> vrrp_router \<Rightarrow> rt_result" where
  "v3_start le ac a6 clk r =
     (let r1 = state_change VInitialize r; cf = rt_config r in
      rt_then
        (if address_owner cf \<or> cf_admin_state cf = AdminText ''master'' then become_master le ac a6 clk r1
         else become_backup clk (r1\<lparr>rt_interval := Some (cf_interval cf)\<rparr>))
        (\<lambda>r2. (r2\<lparr>rt_stats_out := timer_start clk (cf_statistics_interval cf)\<rparr>, None)))"

definition router_start :: "bool \<Rightarrow> addrconv \<Rightarrow> addr6 \<Rightarrow> rat \<Rightarrow> vrrp_router \<Rightarrow> rt_result" where
  "router_start le ac a6 clk r =
     (if cf_version (rt_config r) = 2 then v2_start le ac a6 clk r else v3_start le ac a6 clk r)"

end
