(* ===== verification/Vrrp_Frames.thy ===== *)
theory Vrrp_Frames
  imports Vrrp_Router Net_Properties
begin

text \<open>
  What is sent is read back: the body of an advertisement, its checksum, and the whole frame over
  IPv4 and IPv6, with and without a VLAN tag.
\<close>

section \<open>Addresses\<close>

definition fam_text_of :: "addrconv \<Rightarrow> addr6 \<Rightarrow> bool \<Rightarrow> string \<Rightarrow> bytes \<Rightarrow> bool" where
  "fam_text_of ac a6 six t b \<longleftrightarrow> (if six then ip6_text_of a6 t b else ip_text_of ac t b)"

definition fam_bin :: "addrconv \<Rightarrow> addr6 \<Rightarrow> bool \<Rightarrow> string \<Rightarrow> bytes res" where
  "fam_bin ac a6 six = (if six then ip6_to_bin a6 else ip_to_bin ac)"

definition fam_text :: "addrconv \<Rightarrow> addr6 \<Rightarrow> bool \<Rightarrow> bytes \<Rightarrow> string" where
  "fam_text ac a6 six = (if six then ip6_to_text a6 else ip_to_text ac)"

definition fam_len :: "bool \<Rightarrow> nat" where
  "fam_len six = (if six then 16 else 4)"

lemma fam_textD:
  assumes "fam_text_of ac a6 six t b"
  shows "length b = fam_len six" "fam_bin ac a6 six t = Inr b" "fam_text ac a6 six b = t"
  using assms
  by (auto simp: fam_text_of_def fam_len_def fam_bin_def fam_text_def ip6_text_of_def ip_text_of_def split: if_splits)

lemma pack_addresses:
  assumes "list_all2 (fam_text_of ac a6 six) ips bs"
  shows "pack_all (map (fam_bin ac a6 six) ips @ fs) = map_sum id (append (concat bs)) (pack_all fs)"
  using assms
  by (induction rule: list_all2_induct) (auto simp: fam_textD map_sum_def split: sum.split)

lemma pieces_concat:
  assumes "list_all2 (fam_text_of ac a6 six) ips bs"
  shows "map (fam_text ac a6 six) (pieces (fam_len six) (length ips) (concat bs @ rest)) = ips"
    and "length (concat bs) = fam_len six * length ips"
  using assms
  by (induction rule: list_all2_induct) (auto simp: fam_textD)

section \<open>The body\<close>

definition vrrp_wf :: "addrconv \<Rightarrow> addr6 \<Rightarrow> vrrp \<Rightarrow> bytes list \<Rightarrow> bool" where
  "vrrp_wf ac a6 v bs \<longleftrightarrow>
     (vr_version v = 2 \<and> \<not> vr_ipv6 v \<and> auth_type v \<in> {None, Some 0} \<and> auth_data v \<in> {None, Some (0, 0)} \<or>
      vr_version v = 3 \<and> auth_type v = None \<and> auth_data v = None) \<and>
     vr_type v < 16 \<and> vrid v < 256 \<and> 0 \<le> vr_priority v \<and> vr_priority v < 256 \<and>
     0 \<le> max_adver_int v \<and> max_adver_int v < (if vr_version v = 2 then 256 else 4096) \<and>
     count_ip v = length (ip_addresses v) \<and> ip_addresses v \<noteq> [] \<and> count_ip v < 256 \<and>
     list_all2 (fam_text_of ac a6 (vr_ipv6 v)) (ip_addresses v) bs \<and>
     is_ipv6 ac a6 (hd (ip_addresses v)) = Inr (vr_ipv6 v)"

definition vrrp_front :: "vrrp \<Rightarrow> bytes" where
  "vrrp_front v =
     [word_of_nat (vr_version v * 16 + vr_type v), word_of_nat (vrid v), word_of_nat (nat (vr_priority v)),
      word_of_nat (count_ip v)] @
     (if vr_version v = 2 then [0, word_of_nat (nat (max_adver_int v))] else be16 (nat (max_adver_int v)))"

definition vrrp_back :: "vrrp \<Rightarrow> bytes list \<Rightarrow> bytes" where
  "vrrp_back v bs = concat bs @ (if vr_version v = 2 then be32 0 @ be32 0 else [])"

definition vrrp_body :: "vrrp \<Rightarrow> bytes list \<Rightarrow> nat \<Rightarrow> bytes" where
  "vrrp_body v bs ck = vrrp_front v @ be16 ck @ vrrp_back v bs"

lemma vrrp_front_length [simp]: "length (vrrp_front v) = 6"
  by (simp add: vrrp_front_def)

lemma put_body: "put_checksum c (vrrp_body v bs 0) = vrrp_body v bs c"
  by (simp add: put_checksum_def vrrp_body_def)

lemma vrrp_pack_ok:
  assumes "vrrp_wf ac a6 v bs" and "ck < 65536"
  shows "vr_version v = 2 \<Longrightarrow> vrrpv2_pack ac v ck 0 (0, 0) = Inr (vrrp_body v bs ck)"
    and "vr_version v = 3 \<Longrightarrow> vrrpv3_pack (fam_bin ac a6 (vr_ipv6 v)) v ck = Inr (vrrp_body v bs ck)"
proof -
  have w: "vr_type v < 16" "vrid v < 256" "0 \<le> vr_priority v" "nat (vr_priority v) < 256"
    "0 \<le> max_adver_int v" "nat (max_adver_int v) < (if vr_version v = 2 then 256 else 4096)" "count_ip v < 256"
    using assms(1) by (auto simp: vrrp_wf_def)
  have vt: "vr_version v \<in> {2, 3} \<Longrightarrow> vrrp_to_version_type (vr_version v) (vr_type v) = vr_version v * 16 + vr_type v"
    using nibbles [OF w(1)] by (simp add: vrrp_to_version_type_def)
  have l: "list_all2 (fam_text_of ac a6 (vr_ipv6 v)) (ip_addresses v) bs" using assms(1) by (simp add: vrrp_wf_def)
  show "vrrpv2_pack ac v ck 0 (0, 0) = Inr (vrrp_body v bs ck)" if 2: "vr_version v = 2"
  proof -
    have "fam_bin ac a6 (vr_ipv6 v) = ip_to_bin ac" using assms(1) 2 by (auto simp: vrrp_wf_def fam_bin_def)
    then have "pack_all (map (ip_to_bin ac) (ip_addresses v) @ [pack_I 0, pack_I 0]) = Inr (vrrp_back v bs)"
      using pack_addresses [OF l, of "[pack_I 0, pack_I 0]"] 2 by (simp add: vrrp_back_def)
    then show ?thesis
      using w assms(2) 2 vt by (simp add: vrrpv2_pack_def pack_int_B_def vrrp_body_def vrrp_front_def)
  qed
  show "vrrpv3_pack (fam_bin ac a6 (vr_ipv6 v)) v ck = Inr (vrrp_body v bs ck)" if 3: "vr_version v = 3"
  proof -
    have "pack_all (map (fam_bin ac a6 (vr_ipv6 v)) (ip_addresses v)) = Inr (vrrp_back v bs)"
      using pack_addresses [OF l, of "[]"] 3 by (simp add: vrrp_back_def)
    then show ?thesis
      using w assms(2) 3 vt by (simp add: vrrpv3_pack_def pack_int_B_def vrrp_body_def vrrp_front_def)
  qed
qed

section \<open>The checksum\<close>

definition net_ok :: "addrconv \<Rightarrow> addr6 \<Rightarrow> bool \<Rightarrow> net_hdr \<Rightarrow> bool" where
  "net_ok ac a6 six net \<longleftrightarrow>
     (case net of
        Net4 h \<Rightarrow> \<not> six \<and> version h = 4 \<and> proto h < 256 \<and> ttl h = 255 \<and>
          (\<exists>s d. length s = 4 \<and> ip_to_bin ac (src h) = Inr s \<and> length d = 4 \<and> ip_to_bin ac (dst h) = Inr d)
      | Net6 h \<Rightarrow> six \<and> ip6_version h = 6 \<and> ip6_nxt h < 256 \<and> hop_limit h = 255 \<and>
          (\<exists>s d. length s = 16 \<and> ip6_to_bin a6 (ip6_src h) = Inr s \<and> length d = 16 \<and> ip6_to_bin a6 (ip6_dst h) = Inr d))"

definition vrrp_sum :: "bool \<Rightarrow> addrconv \<Rightarrow> addr6 \<Rightarrow> net_hdr \<Rightarrow> vrrp \<Rightarrow> bytes list \<Rightarrow> nat res" where
  "vrrp_sum le ac a6 net v bs =
     (let b = vrrp_body v bs 0 in
      if vr_version v = 2 then Inr (checksum le b) else net_checksum le ac a6 net (length b) b)"

text \<open>The pseudo header, an even number of bytes.\<close>

lemma net_checksum_pseudo:
  assumes "net_ok ac a6 six net" and "n < 65536"
  obtains p where "even (length p)" "length p \<le> 40" "\<forall>b. net_checksum le ac a6 net n b = Inr (checksum le (p @ b))"
proof (cases net)
  case (Net4 h)
  then obtain s d where "version h = 4" "proto h < 256" "length s = 4" "ip_to_bin ac (src h) = Inr s"
    "length d = 4" "ip_to_bin ac (dst h) = Inr d"
    using assms(1) by (auto simp: net_ok_def)
  then show thesis
    using that [of "s @ d @ 0 # word_of_nat (proto h) # be16 n"] Net4 assms(2)
    by (simp add: net_checksum_def checksum_ip_def)
next
  case (Net6 h)
  then obtain s d where "ip6_version h = 6" "ip6_nxt h < 256" "length s = 16" "ip6_to_bin a6 (ip6_src h) = Inr s"
    "length d = 16" "ip6_to_bin a6 (ip6_dst h) = Inr d"
    using assms(1) by (auto simp: net_ok_def)
  then show thesis
    using that [of "s @ d @ be32 n @ [0, 0, 0, word_of_nat (ip6_nxt h)]"] Net6 assms(2)
    by (simp add: net_checksum_def)
qed

lemma vrrp_body_length:
  assumes "vrrp_wf ac a6 v bs"
  shows "vrrp_len v = Inr (length (vrrp_body v bs ck))" and "length (vrrp_body v bs ck) < 5000"
    and "12 \<le> length (vrrp_body v bs ck)"
proof -
  have l: "length (concat bs) = fam_len (vr_ipv6 v) * count_ip v"
    using pieces_concat(2) assms by (fastforce simp: vrrp_wf_def)
  have c: "0 < count_ip v" "count_ip v < 256" using assms by (auto simp: vrrp_wf_def)
  have "length (vrrp_body v bs ck) = 8 + fam_len (vr_ipv6 v) * count_ip v + (if vr_version v = 2 then 8 else 0)"
    by (simp add: vrrp_body_def vrrp_back_def l)
  then show "vrrp_len v = Inr (length (vrrp_body v bs ck))" "length (vrrp_body v bs ck) < 5000"
    "12 \<le> length (vrrp_body v bs ck)"
    using c assms by (auto simp: vrrp_wf_def vrrp_len_def fam_len_def simp del: length_greater_0_conv)
qed

lemma vrrp_sum_ok:
  assumes "vrrp_wf ac a6 v bs" and "net_ok ac a6 (vr_ipv6 v) net"
  obtains c where "vrrp_sum le ac a6 net v bs = Inr c" "c < 65536"
    "checksum_ok le ac a6 v net (vrrp_body v bs c) = Inr True"
proof -
  let ?n = "length (vrrp_body v bs 0)"
  note len = vrrp_body_length [OF assms(1)]
  have be0: "be16 0 = [0, 0]" by (simp add: be16_def)
  have ins: "checksum le (p @ vrrp_body v bs (checksum le (p @ vrrp_body v bs 0))) = 0"
    if "even (length p)" "length p \<le> 40" for p
    using that len(2) [of 0] checksum_insert [of "p @ vrrp_front v" "vrrp_back v bs" le]
    by (simp add: vrrp_body_def be0 fits_def)
  show thesis
  proof (cases "vr_version v = 2")
    case True
    with ins [of "[]"] show thesis
      by (intro that [of "checksum le (vrrp_body v bs 0)"])
        (simp_all add: vrrp_sum_def Let_def checksum_ok_def checksum_bound)
  next
    case False
    have "?n < 65536" using len(2) [of 0] by linarith
    from assms(2) this obtain p where p: "even (length p)" "length p \<le> 40"
      "\<forall>b. net_checksum le ac a6 net ?n b = Inr (checksum le (p @ b))"
      by (rule net_checksum_pseudo [where le = le])
    have 3: "vr_version v = 3" using assms(1) False by (auto simp: vrrp_wf_def)
    let ?c = "checksum le (p @ vrrp_body v bs 0)"
    have "checksum_ok le ac a6 v net (vrrp_body v bs ?c) =
        map_sum id (\<lambda>c. c = 0) (net_checksum le ac a6 net ?n (vrrp_body v bs ?c))"
      by (simp add: checksum_ok_def 3 len(1) [of 0])
    then have "checksum_ok le ac a6 v net (vrrp_body v bs ?c) = Inr True"
      using p(3) ins [OF p(1,2)] by simp
    moreover have "vrrp_sum le ac a6 net v bs = Inr ?c" using p(3) False by (simp add: vrrp_sum_def Let_def)
    ultimately show thesis using that checksum_bound by blast
  qed
qed

section \<open>Writing and reading the body\<close>

text \<open>What serialising leaves in the object.\<close>

definition vrrp_filled :: "vrrp \<Rightarrow> nat \<Rightarrow> vrrp" where
  "vrrp_filled v c =
     (if vr_version v = 2 then v\<lparr>vr_checksum := Some c, auth_type := Some 0, auth_data := Some (0, 0)\<rparr>
      else v\<lparr>vr_checksum := Some c\<rparr>)"

lemma vrrp_serialize_ok:
  assumes "vrrp_wf ac a6 v bs" and "net_ok ac a6 (vr_ipv6 v) net"
    and "vrrp_sum le ac a6 net v bs = Inr c" and "vr_checksum v \<in> {None, Some c}" and "c < 65536"
  shows "vrrp_serialize le ac a6 v net = (vrrp_filled v c, Inr (vrrp_body v bs c))"
proof (cases "vr_version v = 2")
  case True
  have d: "(case auth_type v of None \<Rightarrow> 0 | Some a \<Rightarrow> a) = 0" "(case auth_data v of None \<Rightarrow> (0, 0) | Some d \<Rightarrow> d) = (0, 0)"
    "\<not> vr_ipv6 v"
    using assms(1) True by (auto simp: vrrp_wf_def)
  have c: "c = checksum le (vrrp_body v bs 0)" using assms(3) True by (simp add: vrrp_sum_def Let_def)
  have p: "vrrpv2_pack ac v 0 0 (0, 0) = Inr (vrrp_body v bs 0)" "vrrpv2_pack ac v c 0 (0, 0) = Inr (vrrp_body v bs c)"
    using vrrp_pack_ok(1) [OF assms(1)] True assms(5) by simp_all
  show ?thesis
    using assms(4) p
    by (auto simp: vrrp_serialize_def vrrpv2_serialize_def True d Let_def vrrp_filled_def put_body c [symmetric])
next
  case False
  then have 3: "vr_version v = 3" using assms(1) by (auto simp: vrrp_wf_def)
  have conv: "(case net of Net4 h \<Rightarrow> ip_to_bin ac | Net6 h \<Rightarrow> ip6_to_bin a6) = fam_bin ac a6 (vr_ipv6 v)"
    using assms(2) by (auto simp: net_ok_def fam_bin_def split: net_hdr.splits)
  have c: "net_checksum le ac a6 net (length (vrrp_body v bs 0)) (vrrp_body v bs 0) = Inr c"
    using assms(3) False by (simp add: vrrp_sum_def Let_def)
  have p: "vrrpv3_pack (fam_bin ac a6 (vr_ipv6 v)) v 0 = Inr (vrrp_body v bs 0)"
    "vrrpv3_pack (fam_bin ac a6 (vr_ipv6 v)) v c = Inr (vrrp_body v bs c)"
    using vrrp_pack_ok(2) [OF assms(1)] 3 assms(5) by simp_all
  have m: "\<not> 4095 < max_adver_int v" using assms(1) 3 by (auto simp: vrrp_wf_def)
  show ?thesis
    using assms(4) p c m
    by (auto simp: vrrp_serialize_def vrrpv3_serialize_def 3 conv Let_def vrrp_filled_def put_body)
qed

lemma vrrp_body_reads:
  assumes "vrrp_wf ac a6 v bs" and "c < 65536"
  shows "u8_at (vrrp_body v bs c) 0 = vr_version v * 16 + vr_type v" "u8_at (vrrp_body v bs c) 1 = vrid v"
    "u8_at (vrrp_body v bs c) 2 = nat (vr_priority v)" "u8_at (vrrp_body v bs c) 3 = count_ip v"
    "u16_at (vrrp_body v bs c) 6 = c" "drop 8 (vrrp_body v bs c) = vrrp_back v bs"
    "vr_version v = 2 \<Longrightarrow> u8_at (vrrp_body v bs c) 4 = 0 \<and> u8_at (vrrp_body v bs c) 5 = nat (max_adver_int v)"
    "vr_version v = 3 \<Longrightarrow> u16_at (vrrp_body v bs c) 4 = nat (max_adver_int v)"
proof -
  define vt where "vt = vr_version v * 16 + vr_type v"
  have w: "vt < 256" "vrid v < 256" "nat (vr_priority v) < 256" "count_ip v < 256"
    "nat (max_adver_int v) < (if vr_version v = 2 then 256 else 65536)"
    using assms(1) by (auto simp: vrrp_wf_def vt_def)
  show "u8_at (vrrp_body v bs c) 0 = vr_version v * 16 + vr_type v" "u8_at (vrrp_body v bs c) 1 = vrid v"
    "u8_at (vrrp_body v bs c) 2 = nat (vr_priority v)" "u8_at (vrrp_body v bs c) 3 = count_ip v"
    using w by (simp_all add: vrrp_body_def vrrp_front_def vt_def [symmetric] u8_at_def)
  show "u16_at (vrrp_body v bs c) 6 = c" "drop 8 (vrrp_body v bs c) = vrrp_back v bs"
    using assms(2) by (simp_all add: vrrp_body_def read_behind u16_at_be16)
  show "u8_at (vrrp_body v bs c) 4 = 0 \<and> u8_at (vrrp_body v bs c) 5 = nat (max_adver_int v)" if "vr_version v = 2"
    using w that by (simp add: vrrp_body_def vrrp_front_def u8_at_def)
  show "u16_at (vrrp_body v bs c) 4 = nat (max_adver_int v)" if "vr_version v = 3"
    using w that by (simp add: vrrp_body_def vrrp_front_def u16_at_def be16_def)
qed

text \<open>The object a receiver builds: its identification counter starts anew.\<close>

definition vrrp_received :: "vrrp \<Rightarrow> nat \<Rightarrow> vrrp" where
  "vrrp_received v c = (vrrp_filled v c)\<lparr>vr_ident := 0\<rparr>"

lemma new_vrrp_of:
  assumes "vrrp_wf ac a6 v bs"
  shows "new_vrrp ac a6 (vr_version v) (vr_type v) (vrid v) (vr_priority v) (count_ip v) (max_adver_int v) (Some c) (ip_addresses v) auth data =
    Inr (v\<lparr>vr_checksum := Some c, auth_type := auth, auth_data := data, vr_ident := 0\<rparr>)"
proof -
  obtain ip ips where ip: "ip_addresses v = ip # ips" using assms by (cases "ip_addresses v") (auto simp: vrrp_wf_def)
  then show ?thesis
    using assms by (cases v) (simp add: vrrp_wf_def new_vrrp_def)
qed

lemma vrrp_parse_ok:
  assumes "vrrp_wf ac a6 v bs" and "c < 65536"
  shows "vrrp_parser ac a6 (vrrp_body v bs c) = Inr (vrrp_received v c, [])"
proof -
  let ?b = "vrrp_body v bs c"
  note rd = vrrp_body_reads [OF assms]
  note len = vrrp_body_length [OF assms(1), of c]
  have vt: "drop_bit 4 (vr_version v * 16 + vr_type v) = vr_version v" "(vr_version v * 16 + vr_type v) AND 15 = vr_type v"
    using assms(1) by (simp_all add: vrrp_wf_def drop_bit_eq_div and_masks)
  have nn: "0 \<le> vr_priority v" "0 \<le> max_adver_int v" using assms(1) by (simp_all add: vrrp_wf_def)
  have f: "vrrp_from_version_type (u8_at ?b 0) = (vr_version v, vr_type v)"
    by (simp add: vrrp_from_version_type_def rd vt)
  have vlen: "vrrp_len (v\<lparr>vr_checksum := Some c, auth_type := a, auth_data := d, vr_ident := 0\<rparr>) = Inr (length ?b)" for a d
    unfolding len(1) [symmetric] by (simp add: vrrp_len_def)
  have l: "list_all2 (fam_text_of ac a6 (vr_ipv6 v)) (ip_addresses v) bs" "count_ip v = length (ip_addresses v)"
    "count_ip v \<noteq> 0"
    using assms(1) by (auto simp: vrrp_wf_def)
  note pc = pieces_concat [OF l(1)]
  show ?thesis
  proof (cases "vr_version v = 2")
    case True
    then have 4: "\<not> vr_ipv6 v" using assms(1) by (simp add: vrrp_wf_def)
    have ips: "map (ip_to_text ac) (pieces 4 (count_ip v) (vrrp_back v bs)) = ip_addresses v"
      using pc(1) 4 l(2) by (simp add: vrrp_back_def fam_text_def fam_len_def)
    have "length (concat bs) = 4 * count_ip v" using pc(2) 4 l(2) by (simp add: fam_len_def)
    then have au: "u32_at ?b (8 + 4 * count_ip v) = 0" "u32_at ?b (8 + 4 * count_ip v + 4) = 0"
      and "length ?b = 8 + 4 * count_ip v + 8"
      using True u32_at_be32 [of 0] u32_at_be32 [of 0 "[]"]
      by (simp_all add: vrrp_body_def vrrp_back_def read_behind)
    then show ?thesis
      using rd(7) [OF True] True
      by (simp add: vrrp_parser_def vrrpv2_parser_def f [unfolded True] rd(2) [unfolded One_nat_def] rd(3-6) nn ips au new_vrrp_of [OF assms(1), unfolded True] vlen
          vrrp_received_def vrrp_filled_def)
  next
    case False
    then have 3: "vr_version v = 3" using assms(1) by (auto simp: vrrp_wf_def)
    have lb: "length ?b = 8 + fam_len (vr_ipv6 v) * count_ip v"
      using pc(2) l(2) 3 by (simp add: vrrp_body_def vrrp_back_def)
    then have al: "(length ?b - 8) div count_ip v = fam_len (vr_ipv6 v)" using l(3) by simp
    have conv: "(if fam_len (vr_ipv6 v) = 4 then ip_to_text ac else ip6_to_text a6) = fam_text ac a6 (vr_ipv6 v)"
      by (simp add: fam_len_def fam_text_def)
    have ips: "map (fam_text ac a6 (vr_ipv6 v)) (pieces (fam_len (vr_ipv6 v)) (count_ip v) (vrrp_back v bs)) = ip_addresses v"
      using pc(1) [of "[]"] l(2) 3 by (simp add: vrrp_back_def)
    have fl: "fam_len (vr_ipv6 v) = 4 \<or> fam_len (vr_ipv6 v) = 16" by (simp add: fam_len_def)
    have m: "nat (max_adver_int v) AND 4095 = nat (max_adver_int v)"
      using assms(1) 3 by (auto simp: vrrp_wf_def and_masks)
    have au: "v\<lparr>vr_checksum := Some c, auth_type := None, auth_data := None, vr_ident := 0\<rparr> = vrrp_received v c"
      using assms(1) 3 by (cases v) (simp add: vrrp_wf_def vrrp_received_def vrrp_filled_def)
    have ge: "8 \<le> length ?b" "?b \<noteq> []" using len(3) by auto
    show ?thesis
      using rd(8) [OF 3] 3 l(3) ge fl
      by (auto simp: vrrp_parser_def vrrpv3_parser_def f [unfolded 3] rd(2) [unfolded One_nat_def] rd(3-6) nn al conv ips m Let_def
          new_vrrp_of [OF assms(1), unfolded 3] vlen au [symmetric] simp del: length_greater_0_conv)
  qed
qed

section \<open>The link layer\<close>

definition link_bytes :: "bytes \<Rightarrow> bytes \<Rightarrow> nat option \<Rightarrow> nat \<Rightarrow> bytes" where
  "link_bytes d s vl t = d @ s @ (case vl of None \<Rightarrow> be16 t | Some n \<Rightarrow> be16 0x8100 @ be16 n @ be16 t)"

definition link_pad :: "nat option \<Rightarrow> bytes \<Rightarrow> bytes" where
  "link_pad vl pl = replicate ((case vl of None \<Rightarrow> 46 | Some n \<Rightarrow> 42) - length pl) 0"

definition link_protos :: "addrconv \<Rightarrow> bytes \<Rightarrow> bytes \<Rightarrow> nat option \<Rightarrow> nat \<Rightarrow> proto_obj list" where
  "link_protos ac d s vl t =
     link_headers \<lparr>eth_dst = mac_to_text ac d, eth_src = mac_to_text ac s, ethertype = t\<rparr> vl"

definition link_ok :: "addrconv \<Rightarrow> ethernet \<Rightarrow> bytes \<Rightarrow> bytes \<Rightarrow> nat option \<Rightarrow> bool" where
  "link_ok ac e d s vl \<longleftrightarrow>
     mac_to_bin ac (eth_dst e) = Inr d \<and> length d = 6 \<and> mac_to_bin ac (eth_src e) = Inr s \<and> length s = 6 \<and>
     ethertype e < 65536 \<and> (case vl of None \<Rightarrow> True | Some n \<Rightarrow> n < 4096)"

lemma link_serialize:
  assumes "link_ok ac e d s vl"
  shows "serialize le ac (link_headers e vl @ [PRaw pl]) = Inr (link_bytes d s vl (ethertype e) @ pl @ link_pad vl pl)"
  using assms
  by (auto simp: link_ok_def link_headers_def link_bytes_def link_pad_def serialize_def ethernet_serialize_def
      vlan_serialize_def Let_def push_bit_eq_mult split: option.split)

lemma link_types:
  "get_ether_type 0x8100 = Some CVlan" "get_ether_type 0x0800 = Some CIpv4" "get_ether_type 0x86dd = Some (COther ''ipv6'')"
  "get_packet_type 112 = Some (COther ''vrrp'')"
  by (simp_all add: get_ether_type_def get_packet_type_def packet_types_def)

lemma link_read:
  assumes "link_ok ac e d s vl" and "get_ether_type (ethertype e) = Some c" and "\<not> all_zero pl"
  shows "Packet ac oth (link_bytes d s vl (ethertype e) @ pl @ z) =
    parser_loop ac oth (Some c) (pl @ z) (link_protos ac d s vl (ethertype e))"
proof -
  let ?P = "parser_loop ac oth" and ?t = "ethertype e"
  have l: "length d = 6" "length s = 6" "?t < 65536" using assms(1) by (simp_all add: link_ok_def)
  have nz: "\<not> all_zero (x @ pl @ z)" for x using assms(3) by (simp add: all_zero_append)
  have pk: "Packet ac oth (d @ x) = ?P (Some CEthernet) (d @ x) []" for x
    using l(1) by (intro Packet_start) auto
  have eth: "ethernet_parser ac (d @ s @ be16 t @ r) =
      Inr (\<lparr>eth_dst = mac_to_text ac d, eth_src = mac_to_text ac s, ethertype = t\<rparr>, r)" if "t < 65536" for t r
    using l that u16_at_append [of "d @ s" 12 "be16 t @ r"] u16_at_be16 [of t r]
    by (simp add: ethernet_parser_def slice_def)
  show ?thesis
  proof (cases vl)
    case None
    let ?h = "\<lparr>eth_dst = mac_to_text ac d, eth_src = mac_to_text ac s, ethertype = ?t\<rparr>"
    have "?P (Some CEthernet) (d @ s @ be16 ?t @ pl @ z) [] = ?P (Some c) (pl @ z) (add_proto [] (Some (PEthernet ?h)))"
      by (rule parser_loop_step) (use nz [of "d @ s @ be16 ?t"] in simp, simp add: eth l(3) parsed_of_def assms(2) ret_def)
    then show ?thesis
      by (simp add: None pk link_bytes_def link_protos_def link_headers_def add_proto_def)
  next
    case (Some n)
    let ?h = "\<lparr>eth_dst = mac_to_text ac d, eth_src = mac_to_text ac s, ethertype = 0x8100\<rparr>"
    let ?v = "\<lparr>pcp = 0, cfi = 0, vid = n, vlan_ethertype = ?t\<rparr>"
    have n: "n < 4096" using assms(1) Some by (simp add: link_ok_def)
    have vp: "vlan_parser (be16 n @ be16 ?t @ pl @ z) = Inr (?v, pl @ z)"
      using vlan_parser_bytes [of n ?t "pl @ z"] n l(3) by simp
    have "?P (Some CEthernet) (d @ s @ be16 0x8100 @ be16 n @ be16 ?t @ pl @ z) [] =
        ?P (Some CVlan) (be16 n @ be16 ?t @ pl @ z) (add_proto [] (Some (PEthernet ?h)))"
      by (rule parser_loop_step)
        (use nz [of "d @ s @ be16 0x8100 @ be16 n @ be16 ?t"] in simp, simp add: eth parsed_of_def link_types ret_def)
    also have "\<dots> = ?P (Some c) (pl @ z) (add_proto (add_proto [] (Some (PEthernet ?h))) (Some (PVlan ?v)))"
      by (rule parser_loop_step)
        (use nz [of "be16 n @ be16 ?t"] in simp, simp add: vp parsed_of_def assms(2) ret_def)
    finally show ?thesis
      by (simp add: Some pk link_bytes_def link_protos_def link_headers_def add_proto_def)
  qed
qed

section \<open>The network layer\<close>

text \<open>Bytes behind the length that an IPv4 header announces are padding.\<close>

lemma ipv4_parser_padded:
  assumes "ipv4_parser ac b = Inr (h, p)" and "total_length h \<le> length b" and "header_length h * 4 \<le> length b"
  shows "ipv4_parser ac (b @ z) = Inr (h, p)"
proof -
  have l: "20 \<le> length b" using assms(1) by (auto simp: ipv4_parser_def split: if_splits)
  have r: "u8_at (b @ z) i = u8_at b i" "Suc i < 20 \<Longrightarrow> u16_at (b @ z) i = u16_at b i" if "i < 20" for i
    using l that by (simp_all add: u8_at_def u16_at_def nth_append)
  have sl: "slice i j (b @ z) = slice i j b" if "j \<le> length b" for i j
    using that by (simp add: slice_def)
  from assms l show ?thesis
    by (auto simp: ipv4_parser_def Let_def r sl split: if_splits)
qed

definition vrrp_ip4_sent :: "string \<Rightarrow> nat \<Rightarrow> bytes \<Rightarrow> nat \<Rightarrow> ipv4" where
  "vrrp_ip4_sent primary i body c = (vrrp_ip4 primary i)\<lparr>total_length := 20 + length body, csum := c\<rparr>"

lemma vrrp_ip4_ok:
  assumes "ip_text_of ac primary s" and "ip_text_of ac VRRP_IPV4_DST_ADDRESS d" and "i < 65536" and "length body < 5000"
  obtains hb c where "ipv4_serialize le ac (vrrp_ip4 primary i) body = Inr (hb, vrrp_ip4_sent primary i body c)"
    "length hb = 20" "\<forall>z. ipv4_parser ac (hb @ body @ z) = Inr (vrrp_ip4_sent primary i body c, body)"
proof -
  let ?h = "vrrp_ip4 primary i"
  have wf: "ipv4_wf ac ?h body" using assms by (auto simp: ipv4_wf_def vrrp_ip4_def opt_bytes_def)
  obtain s' d' c where sd: "ip_text_of ac (src ?h) s'" "ip_text_of ac (dst ?h) d'"
    and ser: "ipv4_serialize le ac ?h body = Inr (ipv4_front ?h body c (s' @ d' @ opt_bytes ?h),
       ?h\<lparr>total_length := header_length ?h * 4 + length body, csum := c\<rparr>)"
    by (rule ipv4_serialize_bytes [OF wf])
  let ?hb = "ipv4_front ?h body c (s' @ d' @ opt_bytes ?h)" and ?h' = "vrrp_ip4_sent primary i body c"
  have h': "?h\<lparr>total_length := header_length ?h * 4 + length body, csum := c\<rparr> = ?h'"
    by (simp add: vrrp_ip4_sent_def vrrp_ip4_def)
  have len: "length ?hb = 20"
    using sd by (simp add: ipv4_front_def ipv4_bytes_def ip_text_of_def vrrp_ip4_def opt_bytes_def)
  have "ipv4_norm le ac ?h body = ?h'" using ser h' by (simp add: ipv4_norm_def)
  then have "ipv4_parser ac (?hb @ body) = Inr (?h', body)" using ipv4_roundtrip [OF wf, of le] ser h' by auto
  from ipv4_parser_padded [OF this] len
  have "ipv4_parser ac (?hb @ body @ z) = Inr (?h', body)" for z
    by (simp add: vrrp_ip4_sent_def vrrp_ip4_def)
  with that ser len h' show thesis by auto
qed

lemma vrrp_ip6_ok:
  assumes "ip6_text_of a6 primary s" and "ip6_text_of a6 VRRP_IPV6_DST_ADDRESS d" and "length body = n" and "n < 5000"
  obtains hb where "ipv6_serialize a6 (vrrp_ip6 primary n) body = Inr (hb, vrrp_ip6 primary n)"
    "length hb = 40" "ipv6_parser a6 (hb @ body) = Inr (vrrp_ip6 primary n, 112, body)"
proof -
  have wf: "ipv6_wf a6 (vrrp_ip6 primary n) body"
    using assms by (auto simp: ipv6_wf_def vrrp_ip6_def exts_len_def ext_parser_def)
  have "ipv6_norm (vrrp_ip6 primary n) body = vrrp_ip6 primary n" by (simp add: ipv6_norm_def vrrp_ip6_def)
  with ipv6_ok [OF wf] that show thesis by (auto simp: ipv6_len_def exts_len_def ext_last_def vrrp_ip6_def)
qed

section \<open>The frame\<close>

definition group_address :: "bool \<Rightarrow> string" where
  "group_address six = (if six then VRRP_IPV6_DST_ADDRESS else VRRP_IPV4_DST_ADDRESS)"

text \<open>The sender's addresses can be written, and are read back where the receiver looks at them.\<close>

definition sender_ok :: "addrconv \<Rightarrow> addr6 \<Rightarrow> vrrp \<Rightarrow> string \<Rightarrow> nat option \<Rightarrow> bool" where
  "sender_ok ac a6 v primary vl \<longleftrightarrow>
     (\<exists>b. fam_text_of ac a6 (vr_ipv6 v) primary b) \<and> (\<exists>b. fam_text_of ac a6 (vr_ipv6 v) (group_address (vr_ipv6 v)) b) \<and>
     (\<exists>d s. link_ok ac (vrrp_eth v) d s vl)"

definition frame_net :: "vrrp \<Rightarrow> string \<Rightarrow> nat \<Rightarrow> net_hdr" where
  "frame_net v primary i =
     (if vr_ipv6 v then Net6 (vrrp_ip6 primary (8 + 16 * count_ip v)) else Net4 (vrrp_ip4 primary i))"

lemma frame_net_ok:
  assumes "sender_ok ac a6 v primary vl"
  shows "net_ok ac a6 (vr_ipv6 v) (frame_net v primary i)"
proof -
  obtain s d where "fam_text_of ac a6 (vr_ipv6 v) primary s" "fam_text_of ac a6 (vr_ipv6 v) (group_address (vr_ipv6 v)) d"
    using assms by (auto simp: sender_ok_def)
  then show ?thesis
    by (cases "vr_ipv6 v") (auto simp: fam_text_of_def net_ok_def frame_net_def vrrp_ip4_def vrrp_ip6_def group_address_def
      ip_text_of_def ip6_text_of_def)
qed

text \<open>The checksum does not depend on the identification of the datagram.\<close>

definition frame_sum :: "bool \<Rightarrow> addrconv \<Rightarrow> addr6 \<Rightarrow> vrrp \<Rightarrow> bytes list \<Rightarrow> string \<Rightarrow> nat" where
  "frame_sum le ac a6 v bs primary =
     (case vrrp_sum le ac a6 (frame_net v primary 0) v bs of Inl e \<Rightarrow> 0 | Inr c \<Rightarrow> c)"

lemma vrrp_sum_net4:
  assumes "version h = 4" and "version h' = 4" and "src h' = src h" and "dst h' = dst h" and "proto h' = proto h"
  shows "net_checksum le ac a6 (Net4 h') n b = net_checksum le ac a6 (Net4 h) n b"
  using assms by (simp add: net_checksum_def)

lemma frame_sum_ok:
  assumes "vrrp_wf ac a6 v bs" and "sender_ok ac a6 v primary vl"
  shows "vrrp_sum le ac a6 (frame_net v primary i) v bs = Inr (frame_sum le ac a6 v bs primary)"
    and "frame_sum le ac a6 v bs primary < 65536"
    and "checksum_ok le ac a6 v (frame_net v primary i) (vrrp_body v bs (frame_sum le ac a6 v bs primary)) = Inr True"
proof -
  have nc: "net_checksum le ac a6 (frame_net v primary i) n b = net_checksum le ac a6 (frame_net v primary 0) n b" for i n b
    by (auto simp: frame_net_def vrrp_ip4_def intro: vrrp_sum_net4)
  have eq: "vrrp_sum le ac a6 (frame_net v primary i) v bs = vrrp_sum le ac a6 (frame_net v primary 0) v bs" for i
    by (simp add: vrrp_sum_def Let_def nc [of i])
  obtain c where c: "vrrp_sum le ac a6 (frame_net v primary 0) v bs = Inr c" "c < 65536"
    "checksum_ok le ac a6 v (frame_net v primary 0) (vrrp_body v bs c) = Inr True"
    using assms(1) frame_net_ok [OF assms(2)] by (rule vrrp_sum_ok)
  have fs: "frame_sum le ac a6 v bs primary = c" by (simp add: frame_sum_def c(1))
  show "vrrp_sum le ac a6 (frame_net v primary i) v bs = Inr (frame_sum le ac a6 v bs primary)"
    "frame_sum le ac a6 v bs primary < 65536"
    using c eq [of i] fs by simp_all
  show "checksum_ok le ac a6 v (frame_net v primary i) (vrrp_body v bs (frame_sum le ac a6 v bs primary)) = Inr True"
    using c(3) by (simp only: fs checksum_ok_def nc [of i])
qed

text \<open>An object that can be sent: new, or with the checksum of its first transmission.\<close>

definition frame_ready :: "bool \<Rightarrow> addrconv \<Rightarrow> addr6 \<Rightarrow> vrrp \<Rightarrow> bytes list \<Rightarrow> string \<Rightarrow> nat option \<Rightarrow> bool" where
  "frame_ready le ac a6 v bs primary vl \<longleftrightarrow>
     vrrp_wf ac a6 v bs \<and> sender_ok ac a6 v primary vl \<and>
     vr_checksum v \<in> {None, Some (frame_sum le ac a6 v bs primary)}"

lemma wf_ident [simp]:
  "vrrp_wf ac a6 (v\<lparr>vr_ident := i\<rparr>) bs = vrrp_wf ac a6 v bs"
  "sender_ok ac a6 (v\<lparr>vr_ident := i\<rparr>) primary vl = sender_ok ac a6 v primary vl"
  "vrrp_body (v\<lparr>vr_ident := i\<rparr>) bs c = vrrp_body v bs c"
  "frame_net (v\<lparr>vr_ident := i\<rparr>) primary j = frame_net v primary j"
  "vrrp_len (v\<lparr>vr_ident := i\<rparr>) = vrrp_len v"
  by (simp_all add: vrrp_wf_def sender_ok_def vrrp_body_def vrrp_front_def vrrp_back_def frame_net_def vrrp_eth_def vrrp_len_def)

lemma frame_sum_ident [simp]: "frame_sum le ac a6 (v\<lparr>vr_ident := i\<rparr>) bs primary = frame_sum le ac a6 v bs primary"
  by (simp add: frame_sum_def vrrp_sum_def)

lemma wf_filled:
  assumes "vrrp_wf ac a6 v bs"
  shows "vrrp_wf ac a6 (vrrp_filled v c) bs" "vrrp_body (vrrp_filled v c) bs k = vrrp_body v bs k"
    "sender_ok ac a6 (vrrp_filled v c) primary vl = sender_ok ac a6 v primary vl"
    "frame_net (vrrp_filled v c) primary j = frame_net v primary j"
proof -
  have "vr_version v = 2 \<and> \<not> vr_ipv6 v \<or> vr_version v = 3 \<and> auth_type v = None \<and> auth_data v = None"
    using assms by (auto simp: vrrp_wf_def)
  then show "vrrp_wf ac a6 (vrrp_filled v c) bs" using assms by (elim disjE) (simp_all add: vrrp_wf_def vrrp_filled_def)
  show "vrrp_body (vrrp_filled v c) bs k = vrrp_body v bs k"
    "sender_ok ac a6 (vrrp_filled v c) primary vl = sender_ok ac a6 v primary vl"
    "frame_net (vrrp_filled v c) primary j = frame_net v primary j"
    by (simp_all add: vrrp_filled_def sender_ok_def vrrp_body_def vrrp_front_def vrrp_back_def frame_net_def vrrp_eth_def)
qed

lemma frame_sum_filled:
  assumes "vrrp_wf ac a6 v bs"
  shows "frame_sum le ac a6 (vrrp_filled v c) bs primary = frame_sum le ac a6 v bs primary"
proof -
  have "vr_version (vrrp_filled v c) = vr_version v" by (simp add: vrrp_filled_def)
  then show ?thesis using wf_filled [OF assms, of c] by (simp add: frame_sum_def vrrp_sum_def)
qed

definition sent_vrrp :: "bool \<Rightarrow> addrconv \<Rightarrow> addr6 \<Rightarrow> vrrp \<Rightarrow> bytes list \<Rightarrow> string \<Rightarrow> vrrp" where
  "sent_vrrp le ac a6 v bs primary =
     vrrp_filled (if vr_ipv6 v then v else snd (get_identification v)) (frame_sum le ac a6 v bs primary)"

lemma get_ident: "get_identification v = (i, w) \<Longrightarrow> w = v\<lparr>vr_ident := i\<rparr> \<and> i < 65536"
  by (auto simp: get_identification_def Let_def and_masks)

lemma sent_ready:
  assumes "frame_ready le ac a6 v bs primary vl"
  shows "frame_ready le ac a6 (sent_vrrp le ac a6 v bs primary) bs primary vl"
proof -
  have "v = v\<lparr>vr_ident := vr_ident v\<rparr>" by simp
  moreover have "snd (get_identification v) = v\<lparr>vr_ident := fst (get_identification v)\<rparr>"
    using get_ident [of v "fst (get_identification v)" "snd (get_identification v)"] by simp
  ultimately obtain i where i: "(if vr_ipv6 v then v else snd (get_identification v)) = v\<lparr>vr_ident := i\<rparr>"
    by metis
  define w where "w = v\<lparr>vr_ident := i\<rparr>"
  have w: "vrrp_wf ac a6 w bs" "sender_ok ac a6 w primary vl" "frame_sum le ac a6 w bs primary = frame_sum le ac a6 v bs primary"
    using assms by (simp_all add: frame_ready_def w_def)
  have "vr_checksum (vrrp_filled w c) = Some c" for c by (simp add: vrrp_filled_def)
  then show ?thesis
    unfolding sent_vrrp_def i w_def [symmetric] frame_ready_def
    by (simp add: wf_filled [OF w(1)] frame_sum_filled [OF w(1)] w)
qed

section \<open>Reading a frame\<close>

lemma body_not_zero:
  assumes "vrrp_wf ac a6 v bs" and "c < 65536"
  shows "\<not> all_zero (vrrp_body v bs c)"
proof
  assume z: "all_zero (vrrp_body v bs c)"
  have "0 < length (vrrp_body v bs c)" by (simp add: vrrp_body_def)
  then have "u8_at (vrrp_body v bs c) 0 = 0" using all_zero_nth [OF z] by (simp add: u8_at_def)
  then show False using vrrp_body_reads(1) [OF assms] assms(1) by (auto simp: vrrp_wf_def)
qed

lemma received_len:
  assumes "vrrp_wf ac a6 v bs"
  shows "vrrp_len (vrrp_received v c) = Inr (length (vrrp_body v bs k))"
proof -
  have "vrrp_len (vrrp_received v c) = vrrp_len v" by (simp add: vrrp_received_def vrrp_filled_def vrrp_len_def)
  then show ?thesis using vrrp_body_length(1) [OF assms, of k] by simp
qed

lemma body_step:
  assumes "vrrp_wf ac a6 v bs" and "c < 65536"
  shows "parser_loop ac (vrrp_parsers ac a6 oth) (Some (COther ''vrrp'')) (vrrp_body v bs c) acc =
    ret (acc @ [POther ''vrrp'' (length (vrrp_body v bs c)) (vrrp_body v bs c)])"
proof -
  let ?b = "vrrp_body v bs c"
  have "class_parser ac (vrrp_parsers ac a6 oth) (COther ''vrrp'') ?b =
      Some (Inr (Some (POther ''vrrp'' (length ?b) ?b), None, []))"
    using vrrp_parse_ok [OF assms] received_len [OF assms(1), of c c] by (simp add: vrrp_parsers_def ret_def)
  from parser_loop_step [OF body_not_zero [OF assms] this] show ?thesis
    using vrrp_body_length(3) [OF assms(1), of c]
    by (auto simp: parser_loop_done with_rest_def add_proto_def all_zero_def ret_def)
qed

lemma frame_packet:
  assumes "vrrp_wf ac a6 v bs" and "c < 65536" and "link_ok ac e d s vl" and "get_ether_type (ethertype e) = Some C"
    and "class_parser ac (vrrp_parsers ac a6 oth) C (hb @ vrrp_body v bs c @ z) =
      Some (Inr (Some p, Some (COther ''vrrp''), vrrp_body v bs c))" and "proto_truthy p"
  shows "Packet ac (vrrp_parsers ac a6 oth) (link_bytes d s vl (ethertype e) @ (hb @ vrrp_body v bs c) @ z) =
    ret (link_protos ac d s vl (ethertype e) @ [p, POther ''vrrp'' (length (vrrp_body v bs c)) (vrrp_body v bs c)])"
proof -
  have nz: "\<not> all_zero (hb @ vrrp_body v bs c)" "\<not> all_zero ((hb @ vrrp_body v bs c) @ z)"
    using body_not_zero [OF assms(1,2)] by (simp_all add: all_zero_append)
  have "parser_loop ac (vrrp_parsers ac a6 oth) (Some C) ((hb @ vrrp_body v bs c) @ z) acc =
      parser_loop ac (vrrp_parsers ac a6 oth) (Some (COther ''vrrp'')) (vrrp_body v bs c) (add_proto acc (Some p))" for acc
    using assms(5) by (intro parser_loop_step nz(2)) simp
  then show ?thesis
    unfolding link_read [OF assms(3,4) nz(1)] using assms(6) by (simp add: body_step [OF assms(1,2)] add_proto_def)
qed

lemma link_protos_payload:
  assumes "net_of a6 p = Some net"
  shows "get_payload ac a6 (link_protos ac d s vl t @ p # r) = get_payload ac a6 (p # r)"
    and "payload_offset a6 (link_protos ac d s vl t @ p # r) = (if vl = None then 14 else 18) + proto_len p"
    and "vlan_matches vl ((link_protos ac d s vl t @ p # r) ! 1)"
  using assms
  by (auto simp: link_protos_def link_headers_def vlan_matches_def split: option.splits proto_obj.splits)

lemma link_bytes_length:
  assumes "link_ok ac e d s vl"
  shows "length (link_bytes d s vl t) = (if vl = None then 14 else 18)"
  using assms by (auto simp: link_bytes_def link_ok_def split: option.split)

text \<open>A frame on its way: what it decodes to and what a receiver finds in it.\<close>

definition carries ::
  "bool \<Rightarrow> addrconv \<Rightarrow> addr6 \<Rightarrow> other_parsers \<Rightarrow> nat option \<Rightarrow> bytes \<Rightarrow> proto_obj list \<Rightarrow> net_hdr \<Rightarrow> vrrp \<Rightarrow> bool"
where
  "carries le ac a6 oth vl frame pkt net w \<longleftrightarrow>
     Packet ac (vrrp_parsers ac a6 oth) frame = ret pkt \<and> 2 \<le> length pkt \<and> vlan_matches vl (pkt ! 1) \<and>
     get_payload ac a6 pkt = Some (net, w) \<and> is_valid_ttl net = Inr True \<and>
     (\<exists>n. vrrp_len w = Inr n \<and>
        checksum_ok le ac a6 w net (slice (payload_offset a6 pkt) (payload_offset a6 pkt + n) frame) = Inr True)"

lemma carries_frame:
  assumes "vrrp_wf ac a6 v bs" and "c < 65536" and "link_ok ac e d s vl" and "get_ether_type (ethertype e) = Some C"
    and "class_parser ac (vrrp_parsers ac a6 oth) C (hb @ vrrp_body v bs c @ z) =
      Some (Inr (Some p, Some (COther ''vrrp''), vrrp_body v bs c))" and "proto_truthy p"
    and "net_of a6 p = Some net" and "proto_len p = length hb" and "is_valid_ttl net = Inr True"
    and "checksum_ok le ac a6 v net (vrrp_body v bs c) = Inr True"
  shows "carries le ac a6 oth vl (link_bytes d s vl (ethertype e) @ (hb @ vrrp_body v bs c) @ z)
    (link_protos ac d s vl (ethertype e) @ [p, POther ''vrrp'' (length (vrrp_body v bs c)) (vrrp_body v bs c)])
    net (vrrp_received v c)"
proof -
  let ?b = "vrrp_body v bs c" and ?q = "POther ''vrrp'' (length (vrrp_body v bs c)) (vrrp_body v bs c)"
  let ?pkt = "link_protos ac d s vl (ethertype e) @ [p, ?q]"
  let ?frame = "link_bytes d s vl (ethertype e) @ (hb @ ?b) @ z"
  note L = link_protos_payload [OF assms(7)]
  have "get_payload ac a6 [p, ?q] = Some (net, vrrp_received v c)"
    using assms(6,7) vrrp_parse_ok [OF assms(1,2)] vrrp_body_length(3) [OF assms(1), of c] by auto
  then have gp: "get_payload ac a6 ?pkt = Some (net, vrrp_received v c)" unfolding L(1) .
  have off: "payload_offset a6 ?pkt = length (link_bytes d s vl (ethertype e) @ hb)"
    unfolding L(2) assms(8) by (simp add: link_bytes_length [OF assms(3)])
  have sl: "slice (payload_offset a6 ?pkt) (payload_offset a6 ?pkt + length ?b) ?frame = ?b"
    using slice_middle [OF off [symmetric] refl, of ?b z] by simp
  have "checksum_ok le ac a6 (vrrp_received v c) net ?b = Inr True"
    using assms(10) by (auto simp: checksum_ok_def vrrp_received_def vrrp_filled_def vrrp_len_def split: if_splits)
  then show ?thesis
    unfolding carries_def
    using frame_packet [OF assms(1-6)] L(3) gp assms(9) received_len [OF assms(1), of c c] sl
    by auto
qed

text \<open>
  Whatever can be sent is read back: over IPv4 and IPv6, with and without a VLAN tag, padded or
  not, and the first time as well as later.
\<close>

lemma vrrp_frame_carries:
  assumes "frame_ready le ac a6 v bs primary vl"
  obtains frame pkt net where
    "vrrp_frame le ac a6 v primary vl = (sent_vrrp le ac a6 v bs primary, Inr frame)"
    "carries le ac a6 oth vl frame pkt net (vrrp_received v (frame_sum le ac a6 v bs primary))" "net_src net = primary"
proof -
  define c where "c = frame_sum le ac a6 v bs primary"
  have wf: "vrrp_wf ac a6 v bs" and snd_ok: "sender_ok ac a6 v primary vl" and ck: "vr_checksum v \<in> {None, Some c}"
    using assms by (simp_all add: frame_ready_def c_def)
  note S = frame_sum_ok [where le = le, OF wf snd_ok, folded c_def]
  obtain b g d s where fam: "fam_text_of ac a6 (vr_ipv6 v) primary b"
    "fam_text_of ac a6 (vr_ipv6 v) (group_address (vr_ipv6 v)) g" and link: "link_ok ac (vrrp_eth v) d s vl"
    using snd_ok by (auto simp: sender_ok_def)
  have ser: "vrrp_serialize le ac a6 (v\<lparr>vr_ident := i\<rparr>) (frame_net v primary j) =
      (vrrp_filled (v\<lparr>vr_ident := i\<rparr>) c, Inr (vrrp_body v bs c))" for i j
    using vrrp_serialize_ok [of ac a6 "v\<lparr>vr_ident := i\<rparr>" bs "frame_net v primary j" le c]
      wf frame_net_ok [OF snd_ok] frame_sum_ok(1) [of ac a6 "v\<lparr>vr_ident := i\<rparr>" bs primary vl le j] snd_ok S(2) ck
    by (simp add: c_def)
  have sv: "sent_vrrp le ac a6 v bs primary = vrrp_filled (if vr_ipv6 v then v else snd (get_identification v)) c"
    by (simp add: sent_vrrp_def c_def)
  note len = vrrp_body_length [OF wf, of c]
  show thesis
  proof (cases "vr_ipv6 v")
    case True
    let ?n = "8 + 16 * count_ip v"
    have n: "vrrp_len v = Inr ?n" "length (vrrp_body v bs c) = ?n"
      using True wf len(1) by (auto simp: vrrp_wf_def vrrp_len_def)
    obtain hb where hb: "ipv6_serialize a6 (vrrp_ip6 primary ?n) (vrrp_body v bs c) = Inr (hb, vrrp_ip6 primary ?n)"
      "length hb = 40" "ipv6_parser a6 (hb @ vrrp_body v bs c) = Inr (vrrp_ip6 primary ?n, 112, vrrp_body v bs c)"
      using fam True n(2) len(2)
      by (auto simp: fam_text_of_def group_address_def intro: vrrp_ip6_ok [of a6 primary b g "vrrp_body v bs c" ?n])
    let ?p = "POther ''ipv6'' 40 (hb @ vrrp_body v bs c)"
    have cls: "class_parser ac (vrrp_parsers ac a6 oth) (COther ''ipv6'') (hb @ vrrp_body v bs c @ []) =
        Some (Inr (Some ?p, Some (COther ''vrrp''), vrrp_body v bs c))"
      by (simp add: vrrp_parsers_def hb(3) link_types ipv6_len_def vrrp_ip6_def exts_len_def ret_def)
    have ty: "get_ether_type (ethertype (vrrp_eth v)) = Some (COther ''ipv6'')"
      using True by (simp add: vrrp_eth_def link_types)
    have net: "net_of a6 ?p = Some (frame_net v primary 0)" "is_valid_ttl (frame_net v primary 0) = Inr True"
      by (simp_all add: hb(3) frame_net_def True is_valid_ttl_def vrrp_ip6_def)
    have "carries le ac a6 oth vl (link_bytes d s vl (ethertype (vrrp_eth v)) @ (hb @ vrrp_body v bs c) @ [])
      (link_protos ac d s vl (ethertype (vrrp_eth v)) @ [?p, POther ''vrrp'' (length (vrrp_body v bs c)) (vrrp_body v bs c)])
      (frame_net v primary 0) (vrrp_received v c)"
      by (rule carries_frame [OF wf S(2) link ty cls _ net(1) _ net(2) S(3)]) (simp_all add: hb(2))
    moreover have "link_pad vl (hb @ vrrp_body v bs c) = []"
      using hb(2) len(3) by (auto simp: link_pad_def split: option.split)
    then have "vrrp_frame le ac a6 v primary vl = (sent_vrrp le ac a6 v bs primary,
        Inr (link_bytes d s vl (ethertype (vrrp_eth v)) @ (hb @ vrrp_body v bs c) @ []))"
      using ser [of "vr_ident v" 0] link_serialize [OF link, of le "hb @ vrrp_body v bs c"]
      by (simp add: vrrp_frame_def True n(1) Let_def frame_net_def hb(1) sv)
    moreover have "net_src (frame_net v primary 0) = primary" by (simp add: frame_net_def True net_src_def vrrp_ip6_def)
    ultimately show thesis using that [folded c_def] by blast
  next
    case False
    obtain i w where gi: "get_identification v = (i, w)" by (cases "get_identification v") blast
    note i = gi get_ident [OF gi, THEN conjunct1] get_ident [OF gi, THEN conjunct2]
    obtain hb cs where hb: "ipv4_serialize le ac (vrrp_ip4 primary i) (vrrp_body v bs c) =
        Inr (hb, vrrp_ip4_sent primary i (vrrp_body v bs c) cs)" "length hb = 20"
      "\<forall>z. ipv4_parser ac (hb @ vrrp_body v bs c @ z) = Inr (vrrp_ip4_sent primary i (vrrp_body v bs c) cs, vrrp_body v bs c)"
      using fam False len(2) i(3)
      by (auto simp: fam_text_of_def group_address_def intro: vrrp_ip4_ok [of ac primary b g i "vrrp_body v bs c" le])
    let ?h = "vrrp_ip4_sent primary i (vrrp_body v bs c) cs"
    have cls: "class_parser ac (vrrp_parsers ac a6 oth) CIpv4 (hb @ vrrp_body v bs c @ z) =
        Some (Inr (Some (PIpv4 ?h), Some (COther ''vrrp''), vrrp_body v bs c))" for z
      by (simp add: hb(3) parsed_of_def vrrp_ip4_sent_def vrrp_ip4_def link_types ret_def)
    have ty: "get_ether_type (ethertype (vrrp_eth v)) = Some CIpv4"
      using False by (simp add: vrrp_eth_def link_types)
    have net: "net_of a6 (PIpv4 ?h) = Some (Net4 ?h)" "is_valid_ttl (Net4 ?h) = Inr True"
      by (simp_all add: is_valid_ttl_def vrrp_ip4_sent_def vrrp_ip4_def)
    have nc: "net_checksum le ac a6 (frame_net v primary i) n x = net_checksum le ac a6 (Net4 ?h) n x" for n x
      unfolding frame_net_def using False by (auto intro!: vrrp_sum_net4 simp: vrrp_ip4_sent_def vrrp_ip4_def)
    have "checksum_ok le ac a6 v (Net4 ?h) (vrrp_body v bs c) = Inr True"
      using S(3) [of i] by (simp only: checksum_ok_def nc)
    then have "carries le ac a6 oth vl (link_bytes d s vl (ethertype (vrrp_eth v)) @ (hb @ vrrp_body v bs c) @
        link_pad vl (hb @ vrrp_body v bs c))
      (link_protos ac d s vl (ethertype (vrrp_eth v)) @
        [PIpv4 ?h, POther ''vrrp'' (length (vrrp_body v bs c)) (vrrp_body v bs c)])
      (Net4 ?h) (vrrp_received v c)"
      by (intro carries_frame [OF wf S(2) link ty cls _ net(1) _ net(2)])
        (simp_all add: hb(2) vrrp_ip4_sent_def vrrp_ip4_def)
    moreover have "serialize le ac (link_headers (vrrp_eth v) vl @ [PIpv4 (vrrp_ip4 primary i), PRaw (vrrp_body v bs c)]) =
        serialize le ac (link_headers (vrrp_eth v) vl @ [PRaw (hb @ vrrp_body v bs c)])"
      using hb(1) by (simp add: serialize_def)
    then have "vrrp_frame le ac a6 v primary vl = (sent_vrrp le ac a6 v bs primary,
        Inr (link_bytes d s vl (ethertype (vrrp_eth v)) @ (hb @ vrrp_body v bs c) @ link_pad vl (hb @ vrrp_body v bs c)))"
      using ser [of i i] link_serialize [OF link, of le "hb @ vrrp_body v bs c"]
      by (simp add: vrrp_frame_def False i frame_net_def sv)
    moreover have "net_src (Net4 ?h) = primary" by (simp add: net_src_def vrrp_ip4_sent_def vrrp_ip4_def)
    ultimately show thesis using that [folded c_def] by blast
  qed
qed

end
