(* ===== verification/Vrrp_Sending.thy ===== *)
theory Vrrp_Sending
  imports Vrrp_Frames
begin

text \<open>
  What a router with a sound configuration sends is accepted by the monitor of every router it
  shares the link, the identifier and the version with.
\<close>

section \<open>Sound configurations\<close>

definition interval_ok :: "nat \<Rightarrow> rat \<Rightarrow> bool" where
  "interval_ok ver s \<longleftrightarrow>
     (case sec_to_max_adver_int ver s of
        Inl e \<Rightarrow> False
      | Inr m \<Rightarrow> 1 \<le> m \<and> m \<le> (if ver = 2 then 255 else 4095))"

definition config_ok :: "addrconv \<Rightarrow> addr6 \<Rightarrow> vrrp_config \<Rightarrow> vrrp_interface \<Rightarrow> bytes list \<Rightarrow> bool" where
  "config_ok ac a6 cf itf bs \<longleftrightarrow>
     (cf_version cf = 2 \<and> \<not> cf_is_ipv6 cf \<or> cf_version cf = 3) \<and> 1 \<le> cf_vrid cf \<and> cf_vrid cf < 256 \<and>
     0 \<le> cf_priority cf \<and> cf_priority cf < 256 \<and> interval_ok (cf_version cf) (cf_interval cf) \<and>
     cf_ip_addresses cf \<noteq> [] \<and> length (cf_ip_addresses cf) < 256 \<and>
     list_all2 (fam_text_of ac a6 (cf_is_ipv6 cf)) (cf_ip_addresses cf) bs \<and>
     is_ipv6 ac a6 (hd (cf_ip_addresses cf)) = Inr (cf_is_ipv6 cf) \<and>
     (\<exists>b. fam_text_of ac a6 (cf_is_ipv6 cf) (if_primary itf) b) \<and>
     is_ipv6 ac a6 (if_primary itf) = Inr (cf_is_ipv6 cf) \<and>
     (\<exists>b. fam_text_of ac a6 (cf_is_ipv6 cf) (group_address (cf_is_ipv6 cf)) b) \<and>
     (\<forall>v. vrid v = cf_vrid cf \<longrightarrow> vr_ipv6 v = cf_is_ipv6 cf \<longrightarrow> (\<exists>d s. link_ok ac (vrrp_eth v) d s (if_vlan itf)))"

text \<open>An object that says what the configuration says, with the given priority.\<close>

definition speaks_for :: "vrrp_config \<Rightarrow> int \<Rightarrow> vrrp \<Rightarrow> bool" where
  "speaks_for cf prio v \<longleftrightarrow>
     vr_version v = cf_version cf \<and> vr_type v = 1 \<and> vrid v = cf_vrid cf \<and> vr_priority v = prio \<and>
     sec_to_max_adver_int (cf_version cf) (cf_interval cf) = Inr (max_adver_int v) \<and>
     ip_addresses v = cf_ip_addresses cf \<and> count_ip v = length (ip_addresses v) \<and> vr_ipv6 v = cf_is_ipv6 cf"

lemma config_versions: "config_ok ac a6 cf itf bs \<Longrightarrow> cf_version cf = 2 \<or> cf_version cf = 3"
  by (auto simp: config_ok_def)

lemma speaks_for_ready:
  assumes "config_ok ac a6 cf itf bs" and "speaks_for cf prio v" and "0 \<le> prio" and "prio < 256"
    and "vr_checksum v \<in> {None, Some (frame_sum le ac a6 v bs (if_primary itf))}"
    and "cf_version cf = 2 \<and> auth_type v \<in> {None, Some 0} \<and> auth_data v \<in> {None, Some (0, 0)} \<or>
      cf_version cf = 3 \<and> auth_type v = None \<and> auth_data v = None"
  shows "frame_ready le ac a6 v bs (if_primary itf) (if_vlan itf)"
proof -
  have m: "1 \<le> max_adver_int v" "max_adver_int v \<le> (if cf_version cf = 2 then 255 else 4095)"
    using assms(1,2) by (auto simp: config_ok_def interval_ok_def speaks_for_def)
  have f: "vr_version v = cf_version cf" "vr_ipv6 v = cf_is_ipv6 cf" "ip_addresses v = cf_ip_addresses cf"
    "count_ip v = length (cf_ip_addresses cf)" "vrid v = cf_vrid cf" "vr_type v = 1" "vr_priority v = prio"
    using assms(2) by (simp_all add: speaks_for_def)
  have "vrrp_wf ac a6 v bs"
    using assms(1,3,4,6) m by (auto simp: vrrp_wf_def f config_ok_def)
  moreover have "sender_ok ac a6 v (if_primary itf) (if_vlan itf)"
    using assms(1) by (auto simp: sender_ok_def config_ok_def f)
  ultimately show ?thesis using assms(5) by (simp add: frame_ready_def)
qed

section \<open>Making advertisements\<close>

lemma make_advertisement_ok:
  assumes "config_ok ac a6 cf itf bs"
  obtains v where "make_advertisement ac a6 cf = Inr v" "speaks_for cf (cf_priority cf) v"
    "vr_checksum v = None" "auth_type v = None" "auth_data v = None"
proof -
  obtain m where m: "sec_to_max_adver_int (cf_version cf) (cf_interval cf) = Inr m"
    using assms by (auto simp: config_ok_def interval_ok_def split: sum.splits)
  obtain a as where a: "cf_ip_addresses cf = a # as" "is_ipv6 ac a6 a = Inr (cf_is_ipv6 cf)"
    using assms by (cases "cf_ip_addresses cf") (auto simp: config_ok_def)
  show thesis
    using m a config_versions [OF assms] that
    by (auto simp: make_advertisement_def create_version_def new_vrrp_def VRRP_TYPE_ADVERTISEMENT_def speaks_for_def)
qed

lemma release_advertisement_ok:
  assumes "config_ok ac a6 cf itf bs" and "speaks_for cf prio v"
  obtains w where "release_advertisement ac a6 v = Inr w" "speaks_for cf 0 w" "vr_checksum w = None"
    "cf_version cf = 2 \<and> auth_type w = Some 0 \<and> auth_data w = Some (0, 0) \<or>
     cf_version cf = 3 \<and> auth_type w = None \<and> auth_data w = None"
proof -
  obtain a as where a: "cf_ip_addresses cf = a # as" "is_ipv6 ac a6 a = Inr (cf_is_ipv6 cf)"
    using assms(1) by (cases "cf_ip_addresses cf") (auto simp: config_ok_def)
  let ?w = "\<lparr>vr_version = cf_version cf, vr_type = 1, vrid = cf_vrid cf, vr_priority = 0, count_ip = length (a # as),
    max_adver_int = max_adver_int v, vr_checksum = None, ip_addresses = a # as,
    auth_type = (if cf_version cf = 2 then Some 0 else None), auth_data = (if cf_version cf = 2 then Some (0, 0) else None),
    vr_ipv6 = cf_is_ipv6 cf, vr_ident = 0\<rparr>"
  have "release_advertisement ac a6 v = Inr ?w"
    using a config_versions [OF assms(1)] assms(2)
    by (auto simp: release_advertisement_def vrrp_create_def create_version_def new_vrrp_def speaks_for_def
        VRRP_PRIORITY_RELEASE_RESPONSIBILITY_def)
  moreover have "speaks_for cf 0 ?w" using assms(2) a(1) by (simp add: speaks_for_def)
  ultimately show thesis using config_versions [OF assms(1)] by (intro that [of ?w]) auto
qed

section \<open>Sending\<close>

text \<open>The cached advertisement, if any, is the one of the configuration.\<close>

definition cache_ok :: "bool \<Rightarrow> addrconv \<Rightarrow> addr6 \<Rightarrow> bytes list \<Rightarrow> vrrp_router \<Rightarrow> bool" where
  "cache_ok le ac a6 bs r \<longleftrightarrow>
     (case rt_cached r of
        None \<Rightarrow> True
      | Some v \<Rightarrow>
          speaks_for (rt_config r) (cf_priority (rt_config r)) v \<and>
          frame_ready le ac a6 v bs (if_primary (rt_iface r)) (if_vlan (rt_iface r)))"

text \<open>A frame that says what the configuration says, to everybody on the link.\<close>

definition announces ::
  "bool \<Rightarrow> addrconv \<Rightarrow> addr6 \<Rightarrow> vrrp_config \<Rightarrow> vrrp_interface \<Rightarrow> int \<Rightarrow> bytes \<Rightarrow> bool"
where
  "announces le ac a6 cf itf prio frame \<longleftrightarrow>
     (\<forall>oth. \<exists>pkt net w. carries le ac a6 oth (if_vlan itf) frame pkt net w \<and> net_src net = if_primary itf \<and>
        speaks_for cf prio w \<and> vrrp_is_valid w)"

lemma received_valid:
  assumes "config_ok ac a6 cf itf bs" and "speaks_for cf prio v" and "0 \<le> prio" and "prio < 256"
  shows "speaks_for cf prio (vrrp_received v c)" "vrrp_is_valid (vrrp_received v c)"
proof -
  show s: "speaks_for cf prio (vrrp_received v c)"
    using assms(2) by (simp add: speaks_for_def vrrp_received_def vrrp_filled_def)
  have m: "1 \<le> max_adver_int v" "max_adver_int v \<le> (if cf_version cf = 2 then 255 else 4095)"
    using assms(1,2) by (auto simp: config_ok_def interval_ok_def speaks_for_def)
  have f: "vr_version v = cf_version cf" "vrid v = cf_vrid cf" "vr_type v = 1" "vr_priority v = prio"
    "count_ip v = length (ip_addresses v)"
    using assms(2) by (simp_all add: speaks_for_def)
  have "cf_version cf = 2 \<or> cf_version cf = 3" "1 \<le> cf_vrid cf" "cf_vrid cf < 256"
    using assms(1) by (auto simp: config_ok_def)
  then show "vrrp_is_valid (vrrp_received v c)"
    using m assms(3,4)
    by (auto simp: vrrp_is_valid_def vrrp_received_def vrrp_filled_def f VRRP_TYPE_ADVERTISEMENT_def)
qed

lemma transmit_ok:
  assumes "config_ok ac a6 (rt_config r) (rt_iface r) bs" and "speaks_for (rt_config r) prio v" and "0 \<le> prio" and "prio < 256"
    and "frame_ready le ac a6 v bs (if_primary (rt_iface r)) (if_vlan (rt_iface r))"
  obtains frame where
    "transmit le ac a6 keep v r =
      (r\<lparr>rt_cached := (if keep then Some (sent_vrrp le ac a6 v bs (if_primary (rt_iface r))) else rt_cached r),
         rt_stats := (rt_stats r)\<lparr>tx_packets := tx_packets (rt_stats r) + 1\<rparr>, rt_out := rt_out r @ [VTransmit frame]\<rparr>, None)"
    "announces le ac a6 (rt_config r) (rt_iface r) prio frame"
proof -
  let ?v' = "sent_vrrp le ac a6 v bs (if_primary (rt_iface r))"
  obtain frame where frame: "vrrp_frame le ac a6 v (if_primary (rt_iface r)) (if_vlan (rt_iface r)) = (?v', Inr frame)"
    using assms(5) by (rule vrrp_frame_carries)
  have "announces le ac a6 (rt_config r) (rt_iface r) prio frame"
    unfolding announces_def
  proof
    fix oth
    obtain frame' pkt net where "vrrp_frame le ac a6 v (if_primary (rt_iface r)) (if_vlan (rt_iface r)) = (?v', Inr frame')"
      "carries le ac a6 oth (if_vlan (rt_iface r)) frame' pkt net
         (vrrp_received v (frame_sum le ac a6 v bs (if_primary (rt_iface r))))" "net_src net = if_primary (rt_iface r)"
      using assms(5) by (rule vrrp_frame_carries)
    then show "\<exists>pkt net w. carries le ac a6 oth (if_vlan (rt_iface r)) frame pkt net w \<and> net_src net = if_primary (rt_iface r) \<and>
        speaks_for (rt_config r) prio w \<and> vrrp_is_valid w"
      using frame received_valid [OF assms(1-4)] by (metis Pair_inject sum.inject(2))
  qed
  moreover have "transmit le ac a6 keep v r =
      (r\<lparr>rt_cached := (if keep then Some ?v' else rt_cached r),
         rt_stats := (rt_stats r)\<lparr>tx_packets := tx_packets (rt_stats r) + 1\<rparr>, rt_out := rt_out r @ [VTransmit frame]\<rparr>, None)"
    by (simp add: transmit_def frame Let_def rt_emit_def)
  ultimately show thesis using that by blast
qed

text \<open>The parts of a router that sending leaves alone.\<close>

definition same_control :: "vrrp_router \<Rightarrow> vrrp_router \<Rightarrow> bool" where
  "same_control r r' \<longleftrightarrow>
     rt_config r' = rt_config r \<and> rt_iface r' = rt_iface r \<and> rt_interval r' = rt_interval r \<and> rt_state r' = rt_state r \<and>
     rt_master_down r' = rt_master_down r \<and> rt_adver r' = rt_adver r \<and> rt_preempt r' = rt_preempt r \<and>
     rt_stats_out r' = rt_stats_out r"

lemma send_advertisement_ok:
  assumes "config_ok ac a6 (rt_config r) (rt_iface r) bs" and "cache_ok le ac a6 bs r"
  obtains r' frame where "send_advertisement le ac a6 release r = (r', None)" "same_control r r'" "cache_ok le ac a6 bs r'"
    "rt_out r' = rt_out r @ [VTransmit frame]"
    "announces le ac a6 (rt_config r) (rt_iface r) (if release then 0 else cf_priority (rt_config r)) frame"
proof -
  let ?cf = "rt_config r" and ?itf = "rt_iface r"
  have prio: "0 \<le> cf_priority ?cf" "cf_priority ?cf < 256" using assms(1) by (simp_all add: config_ok_def)
  obtain v where v: "(case rt_cached r of None \<Rightarrow> make_advertisement ac a6 ?cf | Some v \<Rightarrow> Inr v) = Inr v"
    "speaks_for ?cf (cf_priority ?cf) v" "frame_ready le ac a6 v bs (if_primary ?itf) (if_vlan ?itf)"
  proof (cases "rt_cached r")
    case None
    obtain v where "make_advertisement ac a6 ?cf = Inr v" "speaks_for ?cf (cf_priority ?cf) v"
      "vr_checksum v = None" "auth_type v = None" "auth_data v = None"
      using assms(1) by (rule make_advertisement_ok)
    with that None show thesis
      using speaks_for_ready [OF assms(1) _ prio, of v le] config_versions [OF assms(1)] by auto
  next
    case (Some v)
    with that assms(2) show thesis by (simp add: cache_ok_def)
  qed
  define r1 where "r1 = count_zero_prio v (r\<lparr>rt_cached := Some v\<rparr>)"
  have r1: "same_control r r1" "rt_out r1 = rt_out r" "rt_cached r1 = Some v"
    by (simp_all add: r1_def count_zero_prio_def same_control_def)
  then have cf: "rt_config r1 = ?cf" "rt_iface r1 = ?itf" by (simp_all add: same_control_def)
  note ready = sent_ready [OF v(3)]
  have sp: "speaks_for ?cf (cf_priority ?cf) (sent_vrrp le ac a6 v bs (if_primary ?itf))"
    using v(2) by (simp add: speaks_for_def sent_vrrp_def vrrp_filled_def get_identification_def Let_def)
  show thesis
  proof (cases release)
    case True
    obtain w where w: "release_advertisement ac a6 v = Inr w" "speaks_for ?cf 0 w" "vr_checksum w = None"
      "?cf = ?cf \<and> (cf_version ?cf = 2 \<and> auth_type w = Some 0 \<and> auth_data w = Some (0, 0) \<or>
        cf_version ?cf = 3 \<and> auth_type w = None \<and> auth_data w = None)"
      using release_advertisement_ok [OF assms(1) v(2)] by blast
    have "frame_ready le ac a6 w bs (if_primary ?itf) (if_vlan ?itf)"
      using speaks_for_ready [OF assms(1) w(2), of le] w(3,4) by auto
    then obtain frame where t: "transmit le ac a6 False w r1 =
        (r1\<lparr>rt_cached := rt_cached r1, rt_stats := (rt_stats r1)\<lparr>tx_packets := tx_packets (rt_stats r1) + 1\<rparr>,
            rt_out := rt_out r1 @ [VTransmit frame]\<rparr>, None)" "announces le ac a6 ?cf ?itf 0 frame"
      using transmit_ok [of ac a6 r1 bs 0 w le False] assms(1) w(2) cf by auto
    then show thesis
      using True v(1) w(1) r1 v(2,3) cf
      by (intro that [of "fst (transmit le ac a6 False w r1)" frame])
        (simp_all add: send_advertisement_def Let_def r1_def [symmetric] same_control_def cache_ok_def)
  next
    case False
    obtain frame where t: "transmit le ac a6 True v r1 =
        (r1\<lparr>rt_cached := Some (sent_vrrp le ac a6 v bs (if_primary ?itf)),
            rt_stats := (rt_stats r1)\<lparr>tx_packets := tx_packets (rt_stats r1) + 1\<rparr>,
            rt_out := rt_out r1 @ [VTransmit frame]\<rparr>, None)" "announces le ac a6 ?cf ?itf (cf_priority ?cf) frame"
      using transmit_ok [of ac a6 r1 bs "cf_priority ?cf" v le True] assms(1) v(2,3) cf prio by auto
    then show thesis
      using False v(1) r1 cf ready sp
      by (intro that [of "fst (transmit le ac a6 True v r1)" frame])
        (simp_all add: send_advertisement_def Let_def r1_def [symmetric] same_control_def cache_ok_def)
  qed
qed

section \<open>Receiving\<close>

text \<open>A monitor takes a frame of a router of its group.\<close>

lemma announces_accepted:
  assumes "announces le ac a6 cf itf prio frame" and "if_vlan itf' = if_vlan itf" and "cf_version cf' = cf_version cf"
    and "cf_vrid cf' = cf_vrid cf" and "cf_is_ipv6 cf' = cf_is_ipv6 cf"
  obtains pkt net w where "get_payload ac a6 pkt = Some (net, w)" "speaks_for cf prio w" "net_src net = if_primary itf"
    "send_vrrp_packet_received le ac a6 oth cf' itf' frame st =
       ret (st\<lparr>rx_zero_prio := rx_zero_prio st + (if prio = 0 then 1 else 0), rx_packets := rx_packets st + 1\<rparr>, Some pkt)"
proof -
  obtain pkt net w where c: "carries le ac a6 oth (if_vlan itf) frame pkt net w" "net_src net = if_primary itf"
    "speaks_for cf prio w" "vrrp_is_valid w"
    using assms(1) unfolding announces_def by blast
  obtain n where n: "Packet ac (vrrp_parsers ac a6 oth) frame = ret pkt" "\<not> length pkt < 2" "vlan_matches (if_vlan itf) (pkt ! 1)"
    "get_payload ac a6 pkt = Some (net, w)" "is_valid_ttl net = Inr True" "vrrp_len w = Inr n"
    "checksum_ok le ac a6 w net (slice (payload_offset a6 pkt) (payload_offset a6 pkt + n) frame) = Inr True"
    using c(1) by (auto simp: carries_def)
  have f: "vr_version w = cf_version cf'" "vrid w = cf_vrid cf'" "vr_ipv6 w = cf_is_ipv6 cf'" "vr_priority w = prio"
    using c(3) assms(3-5) by (simp_all add: speaks_for_def)
  have "accept_advertisement le ac a6 cf' frame pkt net w = Inr True"
    using n(5-7) c(4) f by (simp add: accept_advertisement_def)
  then have "parse_received_packet le ac a6 oth cf' itf' frame = ret (Some (pkt, w))"
    using n(1-4) assms(2) by (simp add: parse_received_packet_def lift_res_def ret_def)
  then show thesis using that [OF n(4) c(3) c(2)] f(4) by (simp add: send_vrrp_packet_received_def)
qed

end
