(* ===== verification/Vrrp_System.thy ===== *)
theory Vrrp_System
  imports Vrrp_Sending
begin

text \<open>
  A virtual router with its event queue, as a transition system: time passes, timers expire and
  put an event into the queue, advertisements and requests arrive in it, and the application
  handles the event at its head.  The queue of the code holds 128 events and a thread that puts
  one more waits; here the queue has no bound.  The invariant says that a router never runs out
  of what makes it act: a master has an advertisement ahead of it, a backup the end of its
  patience.
\<close>

section \<open>Events\<close>

datatype vrrp_event =
    EvMasterDown
  | EvAdver
  | EvPreempt
  | EvStats
  | EvReceived "proto_obj list"
  | EvShutdown
  | EvConfig config_change

fun handle :: "bool \<Rightarrow> addrconv \<Rightarrow> addr6 \<Rightarrow> rat \<Rightarrow> vrrp_event \<Rightarrow> vrrp_router \<Rightarrow> rt_result" where
  "handle le ac a6 clk EvMasterDown r = master_down_handler le ac a6 clk r"
| "handle le ac a6 clk EvAdver r = adver_handler le ac a6 clk r"
| "handle le ac a6 clk EvPreempt r = preempt_delay_handler le ac a6 clk r"
| "handle le ac a6 clk EvStats r = statistics_handler clk r"
| "handle le ac a6 clk (EvReceived pkt) r = vrrp_received_handler le ac a6 clk pkt r"
| "handle le ac a6 clk EvShutdown r = vrrp_shutdown_request_handler le ac a6 r"
| "handle le ac a6 clk (EvConfig ch) r = vrrp_config_change_request_handler le ac a6 clk ch r"

text \<open>What a monitor and the manager deliver: accepted advertisements, changes within the ranges.\<close>

definition change_ok :: "nat \<Rightarrow> config_change \<Rightarrow> bool" where
  "change_ok ver ch \<longleftrightarrow>
     (case ch_priority ch of None \<Rightarrow> True | Some p \<Rightarrow> 0 \<le> p \<and> p < 256) \<and>
     (case ch_interval ch of None \<Rightarrow> True | Some s \<Rightarrow> interval_ok ver s)"

fun delivered :: "addrconv \<Rightarrow> addr6 \<Rightarrow> nat \<Rightarrow> vrrp_event \<Rightarrow> bool" where
  "delivered ac a6 ver (EvReceived pkt) \<longleftrightarrow>
     (\<exists>net w b. get_payload ac a6 pkt = Some (net, w) \<and> vr_version w = ver \<and> ip_text_to_bin ac a6 (net_src net) = Inr b)"
| "delivered ac a6 ver EvShutdown \<longleftrightarrow> True"
| "delivered ac a6 ver (EvConfig ch) \<longleftrightarrow> change_ok ver ch"
| "delivered ac a6 ver _ \<longleftrightarrow> False"

section \<open>What handlers keep\<close>

definition router_ok :: "bool \<Rightarrow> addrconv \<Rightarrow> addr6 \<Rightarrow> bytes list \<Rightarrow> vrrp_router \<Rightarrow> bool" where
  "router_ok le ac a6 bs r \<longleftrightarrow>
     config_ok ac a6 (rt_config r) (rt_iface r) bs \<and> cache_ok le ac a6 bs r \<and> rt_state r \<noteq> None \<and>
     (rt_state r = Some VBackup \<or> cf_version (rt_config r) = 2 \<longrightarrow> rt_interval r \<noteq> None)"

definition pending :: "vtimer \<Rightarrow> vrrp_event \<Rightarrow> vrrp_event list \<Rightarrow> bool" where
  "pending t e q \<longleftrightarrow> (\<exists>d. t = Armed d) \<or> e \<in> set q"

definition live :: "vrrp_event list \<Rightarrow> vrrp_router \<Rightarrow> bool" where
  "live q r \<longleftrightarrow>
     (rt_state r = Some VMaster \<longrightarrow> pending (rt_adver r) EvAdver q) \<and>
     (rt_state r = Some VBackup \<longrightarrow> pending (rt_master_down r) EvMasterDown q)"

lemma cache_ok_cong:
  "\<lbrakk>rt_cached r' = rt_cached r; rt_config r' = rt_config r; rt_iface r' = rt_iface r\<rbrakk> \<Longrightarrow>
    cache_ok le ac a6 bs r' = cache_ok le ac a6 bs r"
  by (simp add: cache_ok_def cong: option.case_cong)

lemma cache_ok_updates [simp]:
  "cache_ok le ac a6 bs (r\<lparr>rt_state := x\<rparr>) = cache_ok le ac a6 bs r"
  "cache_ok le ac a6 bs (r\<lparr>rt_master_down := t\<rparr>) = cache_ok le ac a6 bs r"
  "cache_ok le ac a6 bs (r\<lparr>rt_adver := t\<rparr>) = cache_ok le ac a6 bs r"
  "cache_ok le ac a6 bs (r\<lparr>rt_preempt := t\<rparr>) = cache_ok le ac a6 bs r"
  "cache_ok le ac a6 bs (r\<lparr>rt_stats_out := t\<rparr>) = cache_ok le ac a6 bs r"
  "cache_ok le ac a6 bs (r\<lparr>rt_out := os\<rparr>) = cache_ok le ac a6 bs r"
  "cache_ok le ac a6 bs (r\<lparr>rt_interval := i\<rparr>) = cache_ok le ac a6 bs r"
  by (simp_all add: cache_ok_def cong: option.case_cong)

lemmas rt_defs = state_change_def rt_emit_def start_adver_def timer_start_def rt_then_def

lemma master_adver_ok:
  assumes "router_ok le ac a6 bs r"
  obtains r' frame where "master_adver le ac a6 clk r = (r', None)" "router_ok le ac a6 bs r'"
    "same_control r (r'\<lparr>rt_adver := rt_adver r\<rparr>)" "rt_adver r' = Armed (clk + cf_interval (rt_config r))"
    "rt_out r' = rt_out r @ [VTransmit frame]"
    "announces le ac a6 (rt_config r) (rt_iface r) (cf_priority (rt_config r)) frame"
proof -
  have ok: "config_ok ac a6 (rt_config r) (rt_iface r) bs" "cache_ok le ac a6 bs r" using assms by (simp_all add: router_ok_def)
  obtain r1 frame where s: "send_advertisement le ac a6 False r = (r1, None)" "same_control r r1" "cache_ok le ac a6 bs r1"
    "rt_out r1 = rt_out r @ [VTransmit frame]"
    "announces le ac a6 (rt_config r) (rt_iface r) (if False then 0 else cf_priority (rt_config r)) frame"
    using ok by (rule send_advertisement_ok [where release = False])
  have "master_adver le ac a6 clk r = (start_adver clk r1, None)" by (simp add: master_adver_def rt_then_def s(1))
  moreover have "router_ok le ac a6 bs (start_adver clk r1)" "same_control r ((start_adver clk r1)\<lparr>rt_adver := rt_adver r\<rparr>)"
    "rt_adver (start_adver clk r1) = Armed (clk + cf_interval (rt_config r))"
    "rt_out (start_adver clk r1) = rt_out r @ [VTransmit frame]"
    using assms s by (simp_all add: router_ok_def same_control_def rt_defs)
  ultimately show thesis using that s(5) by simp
qed

lemma backup_master_down_ok:
  assumes "router_ok le ac a6 bs r"
  obtains r' frame where "backup_master_down le ac a6 clk r = (r', None)" "router_ok le ac a6 bs r'"
    "rt_state r' = Some VMaster" "rt_adver r' = Armed (clk + cf_interval (rt_config r))"
    "rt_config r' = rt_config r" "rt_iface r' = rt_iface r" "rt_interval r' = rt_interval r" "rt_preempt r' = Idle"
    "rt_out r' = rt_out r @ [VTransmit frame, VStateChanged (rt_state r) VMaster]"
    "announces le ac a6 (rt_config r) (rt_iface r) (cf_priority (rt_config r)) frame"
proof -
  have ok: "config_ok ac a6 (rt_config r) (rt_iface r) bs" "cache_ok le ac a6 bs r" using assms by (simp_all add: router_ok_def)
  obtain r1 frame where s: "send_advertisement le ac a6 False r = (r1, None)" "same_control r r1" "cache_ok le ac a6 bs r1"
    "rt_out r1 = rt_out r @ [VTransmit frame]"
    "announces le ac a6 (rt_config r) (rt_iface r) (if False then 0 else cf_priority (rt_config r)) frame"
    using ok by (rule send_advertisement_ok [where release = False])
  let ?r' = "start_adver clk (state_change VMaster (r1\<lparr>rt_preempt := Idle\<rparr>))"
  have "backup_master_down le ac a6 clk r = (?r', None)" by (simp add: backup_master_down_def rt_then_def s(1))
  moreover have "router_ok le ac a6 bs ?r'"
    using assms s by (auto simp: router_ok_def same_control_def rt_defs)
  ultimately show thesis using that s by (simp add: same_control_def rt_defs)
qed

lemma down_interval_ok:
  assumes "config_ok ac a6 cf itf bs" and "mai \<noteq> None"
  obtains i where "master_down_interval cf mai = Inr i"
  using assms(2) config_versions [OF assms(1)] that by (auto simp: master_down_interval_def skew_time_def)

lemma skew_ok:
  assumes "config_ok ac a6 cf itf bs" and "mai \<noteq> None"
  obtains i where "skew_time cf mai = Inr i"
proof -
  obtain m where m: "mai = Some m" using assms(2) by auto
  from config_versions [OF assms(1)] show thesis
  proof
    assume "cf_version cf = 2"
    then show thesis using that [of "(256 - of_int (cf_priority cf)) / 256"] by (simp add: skew_time_def)
  next
    assume "cf_version cf = 3"
    then show thesis using that [of "(256 - of_int (cf_priority cf)) * m / 256"] by (simp add: skew_time_def m)
  qed
qed

text \<open>Handling one event: no exception, the router stays sound, and it stays alive.\<close>

definition good_step :: "bool \<Rightarrow> addrconv \<Rightarrow> addr6 \<Rightarrow> bytes list \<Rightarrow> vrrp_event list \<Rightarrow> rt_result \<Rightarrow> bool" where
  "good_step le ac a6 bs q res \<longleftrightarrow> snd res = None \<and> router_ok le ac a6 bs (fst res) \<and> live q (fst res)"

lemma good_stepI: "res = (r', None) \<Longrightarrow> router_ok le ac a6 bs r' \<Longrightarrow> live q r' \<Longrightarrow> good_step le ac a6 bs q res"
  by (simp add: good_step_def)

lemma live_tl:
  "live (e # q) r \<Longrightarrow> rt_state r = Some VMaster \<longrightarrow> e \<noteq> EvAdver \<Longrightarrow> rt_state r = Some VBackup \<longrightarrow> e \<noteq> EvMasterDown \<Longrightarrow> live q r"
  by (auto simp: live_def pending_def)

lemma good_master_down:
  assumes "router_ok le ac a6 bs r"
  shows "good_step le ac a6 bs q (backup_master_down le ac a6 clk r)"
proof -
  obtain r' frame where "backup_master_down le ac a6 clk r = (r', None)" "router_ok le ac a6 bs r'" "rt_state r' = Some VMaster"
    "rt_adver r' = Armed (clk + cf_interval (rt_config r))"
    using assms by (rule backup_master_down_ok)
  then show ?thesis by (intro good_stepI [where r' = r']) (simp_all add: live_def pending_def)
qed

lemma good_master_adver:
  assumes "router_ok le ac a6 bs r" and "rt_state r = Some VMaster"
  shows "good_step le ac a6 bs q (master_adver le ac a6 clk r)"
proof -
  obtain r' where "master_adver le ac a6 clk r = (r', None)" "router_ok le ac a6 bs r'" "same_control r (r'\<lparr>rt_adver := rt_adver r\<rparr>)"
    "rt_adver r' = Armed (clk + cf_interval (rt_config r))"
    using assms(1) by (rule master_adver_ok)
  then show ?thesis using assms(2) by (intro good_stepI [where r' = r']) (simp_all add: live_def pending_def same_control_def)
qed

lemma good_start_master_down:
  assumes "router_ok le ac a6 bs r" and "rt_state r = Some VBackup" and "interval = Inr i"
  shows "good_step le ac a6 bs q (start_master_down clk interval r)"
  using assms by (simp add: good_step_def start_master_down_def router_ok_def live_def pending_def timer_start_def)

lemma yields_ok:
  assumes "router_ok le ac a6 bs r" and "ip_text_to_bin ac a6 (net_src net) = Inr x"
  obtains b where "yields ac a6 r net w = Inr b"
proof -
  obtain y where "ip_text_to_bin ac a6 (if_primary (rt_iface r)) = Inr y"
    using assms(1) fam_textD(2) [of ac a6 "cf_is_ipv6 (rt_config r)"]
    by (fastforce simp: router_ok_def config_ok_def ip_text_to_bin_def fam_bin_def split: bool.splits)
  then have "\<exists>b. ip_address_lt ac a6 (if_primary (rt_iface r)) (net_src net) = Inr b"
    using assms(2) by (simp add: ip_address_lt_def)
  then have "\<exists>b. yields ac a6 r net w = Inr b" by (auto simp: yields_def)
  then show thesis using that by blast
qed

lemma router_ok_change:
  assumes "router_ok le ac a6 bs r" and "change_ok (cf_version (rt_config r)) ch"
  shows "router_ok le ac a6 bs (r\<lparr>rt_config := change_config ch (rt_config r), rt_cached := None\<rparr>)"
proof -
  have "config_ok ac a6 (change_config ch (rt_config r)) (rt_iface r) bs"
    using assms by (auto simp: router_ok_def config_ok_def change_config_def change_ok_def or_else_def split: option.splits)
  then show ?thesis using assms(1) by (simp add: router_ok_def cache_ok_def change_config_def)
qed

lemma good_received:
  assumes "router_ok le ac a6 bs r" and "live (EvReceived pkt # q) r"
    and "delivered ac a6 (cf_version (rt_config r)) (EvReceived pkt)"
  shows "good_step le ac a6 bs q (vrrp_received_handler le ac a6 clk pkt r)"
proof -
  obtain net w x where d: "get_payload ac a6 pkt = Some (net, w)" "vr_version w = cf_version (rt_config r)"
    "ip_text_to_bin ac a6 (net_src net) = Inr x"
    using assms(3) by auto
  have cfg: "config_ok ac a6 (rt_config r) (rt_iface r) bs" using assms(1) by (simp add: router_ok_def)
  have lv: "live q r" by (rule live_tl [OF assms(2)]) simp_all
  have stay: "good_step le ac a6 bs q (r, None)" using assms(1) lv by (simp add: good_step_def)
  obtain u where "sec_in_unit (vr_version w) = Inr u"
    using config_versions [OF cfg] d(2) by (auto simp: sec_in_unit_def)
  then obtain m where m: "max_adver_int_in_sec w = Inr m"
    by (simp add: max_adver_int_in_sec_def max_adver_int_to_sec_def)
  obtain b where y: "yields ac a6 r net w = Inr b" using assms(1) d(3) by (rule yields_ok)
  have backup: "good_step le ac a6 bs q (start_master_down clk iv (r\<lparr>rt_interval := i, rt_preempt := p\<rparr>))"
    if "rt_state r = Some VBackup" "i \<noteq> None" "iv = Inr j" for i p iv j
    using assms(1) that by (intro good_start_master_down) (simp_all add: router_ok_def)
  have down: "\<exists>j. master_down_interval (rt_config r) (Some k) = Inr j" for k
    using down_interval_ok [OF cfg, of "Some k"] by blast
  show ?thesis
  proof (cases "rt_state r")
    case None
    with assms(1) show ?thesis by (simp add: router_ok_def)
  next
    case (Some st)
    show ?thesis
    proof (cases st)
      case VInitialize
      then show ?thesis using Some stay by (simp add: vrrp_received_handler_def on_state_def Let_def)
    next
      case VMaster
      have yield: "good_step le ac a6 bs q (let r1 = state_change VBackup (r\<lparr>rt_adver := Idle, rt_interval := Some k\<rparr>)
          in start_master_down clk (master_down_interval (rt_config r1) (rt_interval r1)) r1)" for k
      proof -
        obtain j where "master_down_interval (rt_config r) (Some k) = Inr j" using down by blast
        then show ?thesis unfolding Let_def using assms(1)
          by (intro good_start_master_down [where i = j]) (simp_all add: router_ok_def rt_defs)
      qed
      have v2: "good_step le ac a6 bs q (v2_master_received le ac a6 clk net w r)" if two: "cf_version (rt_config r) = 2"
      proof -
        obtain k where "rt_interval r = Some k" using assms(1) two by (auto simp: router_ok_def)
        then have same: "r\<lparr>rt_adver := Idle, rt_interval := Some k\<rparr> = r\<lparr>rt_adver := Idle\<rparr>" by simp
        note yield [of k, unfolded same]
        then show ?thesis
          using good_master_adver [OF assms(1)] Some VMaster stay y by (simp add: v2_master_received_def split: bool.split)
      qed
      have "good_step le ac a6 bs q (v3_master_received le ac a6 clk net w r)"
        using good_master_adver [OF assms(1)] Some VMaster stay y m yield [of m]
        by (simp add: v3_master_received_def split: bool.split)
      with v2 Some VMaster d(1) show ?thesis by (simp add: vrrp_received_handler_def on_state_def Let_def)
    next
      case VBackup
      then have st: "rt_state r = Some VBackup" using Some by simp
      obtain k where k: "rt_interval r = Some k" using assms(1) st by (auto simp: router_ok_def)
      obtain j where j: "master_down_interval (rt_config r) (Some k) = Inr j" using down by blast
      obtain sk where sk: "skew_time (rt_config r) (Some k) = Inr sk" using skew_ok [OF cfg, of "Some k"] by blast
      obtain jm where jm: "master_down_interval (rt_config r) (Some m) = Inr jm" using down by blast
      have g: "good_step le ac a6 bs q (start_master_down clk iv (r\<lparr>rt_preempt := p\<rparr>))" if "iv = Inr i" for iv i p
      proof -
        have same: "r\<lparr>rt_interval := Some k, rt_preempt := p\<rparr> = r\<lparr>rt_preempt := p\<rparr>" using k by (cases r) simp
        show ?thesis using backup [OF st _ that, of "Some k" p] unfolding same by simp
      qed
      have wait: "good_step le ac a6 bs q (preempt_wait clk w r)"
        using stay g [OF j, of "rt_preempt r"] g [OF j] by (simp add: preempt_wait_def Let_def k)
      have "good_step le ac a6 bs q (v2_backup_received clk w r)"
        using g [OF sk, of "rt_preempt r"] g [OF j] wait by (simp add: v2_backup_received_def Let_def k)
      moreover have "good_step le ac a6 bs q (v3_backup_received clk w r)"
        using g [OF sk, of "rt_preempt r"] backup [OF st _ jm, of "Some m" "rt_preempt r"] wait m
        by (simp add: v3_backup_received_def Let_def k)
      ultimately show ?thesis using st d(1) by (simp add: vrrp_received_handler_def on_state_def Let_def)
    qed
  qed
qed

lemma handle_good:
  assumes "router_ok le ac a6 bs r" and "live (e # q) r"
    and "e \<in> {EvMasterDown, EvAdver, EvPreempt, EvStats} \<or> delivered ac a6 (cf_version (rt_config r)) e"
  shows "good_step le ac a6 bs q (handle le ac a6 clk e r)"
proof -
  obtain st where st: "rt_state r = Some st" using assms(1) by (auto simp: router_ok_def)
  have stay: "good_step le ac a6 bs q (r, None)" if "st = VMaster \<longrightarrow> e \<noteq> EvAdver" "st = VBackup \<longrightarrow> e \<noteq> EvMasterDown"
    using assms(1) live_tl [OF assms(2)] that st by (simp add: good_step_def)
  show ?thesis
  proof (cases e)
    case EvMasterDown
    then show ?thesis using st stay good_master_down [OF assms(1)]
      by (cases st) (simp_all add: master_down_handler_def on_state_def)
  next
    case EvAdver
    then show ?thesis using st stay good_master_adver [OF assms(1)]
      by (cases st) (simp_all add: adver_handler_def on_state_def)
  next
    case EvPreempt
    then show ?thesis using st stay good_master_down [OF assms(1)]
      by (cases st) (simp_all add: preempt_delay_handler_def on_state_def)
  next
    case EvStats
    then show ?thesis using stay by (simp add: statistics_handler_def good_step_def router_ok_def live_def)
  next
    case (EvReceived pkt)
    then show ?thesis using good_received [OF assms(1)] assms(2,3) by simp
  next
    case EvShutdown
    show ?thesis
    proof (cases st)
      case VMaster
      let ?r = "r\<lparr>rt_adver := Idle\<rparr>"
      have ok: "config_ok ac a6 (rt_config ?r) (rt_iface ?r) bs" "cache_ok le ac a6 bs ?r"
        using assms(1) by (simp_all add: router_ok_def)
      obtain r1 where "send_advertisement le ac a6 True ?r = (r1, None)" "same_control ?r r1" "cache_ok le ac a6 bs r1"
        using ok by (rule send_advertisement_ok [where release = True])
      then show ?thesis using EvShutdown st VMaster assms(1)
        by (simp add: vrrp_shutdown_request_handler_def on_state_def rt_defs good_step_def router_ok_def live_def same_control_def)
    qed (use EvShutdown st stay assms(1) in \<open>simp_all add: vrrp_shutdown_request_handler_def on_state_def rt_defs good_step_def
      router_ok_def live_def\<close>)
  next
    case (EvConfig ch)
    let ?r = "r\<lparr>rt_config := change_config ch (rt_config r), rt_cached := None\<rparr>"
    have ch: "change_ok (cf_version (rt_config r)) ch" using assms(3) EvConfig by simp
    have ok: "router_ok le ac a6 bs ?r" by (rule router_ok_change [OF assms(1) ch])
    have upd: "router_ok le ac a6 bs (x\<lparr>rt_adver := t\<rparr>)" "router_ok le ac a6 bs (x\<lparr>rt_master_down := t\<rparr>)"
      "router_ok le ac a6 bs (x\<lparr>rt_preempt := t\<rparr>)" "live q (x\<lparr>rt_preempt := t\<rparr>) = live q x"
      if "router_ok le ac a6 bs x" for x t
      using that by (simp_all add: router_ok_def live_def)
    have lv: "live q ?r" using live_tl [OF assms(2)] EvConfig by (simp add: live_def)
    show ?thesis
    proof (cases st)
      case VInitialize
      then show ?thesis using EvConfig st ok by (simp add: vrrp_config_change_request_handler_def on_state_def Let_def good_step_def live_def)
    next
      case VMaster
      then show ?thesis using EvConfig st ok lv upd(1) good_master_adver [of le ac a6 bs "?r\<lparr>rt_adver := Idle\<rparr>" q clk]
        by (simp add: vrrp_config_change_request_handler_def on_state_def Let_def master_config_change_def good_step_def)
    next
      case VBackup
      have "good_step le ac a6 bs q (backup_master_down le ac a6 clk (?r\<lparr>rt_master_down := Idle\<rparr>))"
        by (rule good_master_down) (rule upd(2) [OF ok])
      then have a: "good_step le ac a6 bs q (if ch_priority ch \<noteq> None \<and> address_owner (rt_config ?r)
          then backup_master_down le ac a6 clk (?r\<lparr>rt_master_down := Idle\<rparr>) else (?r, None))"
        using ok lv by (simp add: good_step_def)
      then have "good_step le ac a6 bs q (backup_config_change le ac a6 clk ch ?r)"
        unfolding backup_config_change_def
        by (auto simp: good_step_def rt_then_def upd split: prod.split option.split)
      then show ?thesis using EvConfig st VBackup by (simp add: vrrp_config_change_request_handler_def on_state_def Let_def)
    qed
  qed
qed

section \<open>Starting\<close>

lemma good_then_stats:
  assumes "good_step le ac a6 bs q res"
  shows "good_step le ac a6 bs q (rt_then res (\<lambda>r. (r\<lparr>rt_stats_out := t\<rparr>, None)))"
proof (cases res)
  case (Pair r x)
  with assms show ?thesis by (simp add: good_step_def rt_then_def router_ok_def live_def)
qed

lemma start_good:
  assumes "config_ok ac a6 cf itf bs"
  shows "good_step le ac a6 bs q (router_start le ac a6 clk (new_router cf itf st))"
proof -
  let ?i = "\<lambda>m. state_change VInitialize ((new_router cf itf st)\<lparr>rt_interval := m\<rparr>)"
  have master: "good_step le ac a6 bs q (become_master le ac a6 clk (?i m))" if m: "cf_version cf = 2 \<longrightarrow> m \<noteq> None" for m
  proof -
    have "config_ok ac a6 (rt_config (?i m)) (rt_iface (?i m)) bs" "cache_ok le ac a6 bs (?i m)"
      using assms by (simp_all add: rt_defs new_router_def cache_ok_def)
    then obtain r1 where "send_advertisement le ac a6 False (?i m) = (r1, None)" "same_control (?i m) r1" "cache_ok le ac a6 bs r1"
      by (rule send_advertisement_ok [where release = False])
    then show ?thesis using assms m
      by (auto simp: become_master_def rt_defs good_step_def router_ok_def live_def pending_def same_control_def new_router_def)
  qed
  have backup: "good_step le ac a6 bs q (become_backup clk (?i (Some k)))" for k
  proof -
    obtain j where "master_down_interval cf (Some k) = Inr j" using down_interval_ok [OF assms, of "Some k"] by blast
    then show ?thesis unfolding become_backup_def Let_def
      by (intro good_start_master_down [where i = j])
        (use assms in \<open>simp_all add: rt_defs router_ok_def new_router_def cache_ok_def\<close>)
  qed
  have upd: "(new_router cf itf st)\<lparr>rt_interval := None\<rparr> = new_router cf itf st" by (simp add: new_router_def)
  have cf: "rt_config (new_router cf itf st) = cf" by (simp add: new_router_def)
  have st: "(state_change VInitialize (new_router cf itf st))\<lparr>rt_interval := m\<rparr> = ?i m" for m
    by (simp add: state_change_def rt_emit_def new_router_def)
  have v2: "good_step le ac a6 bs q (v2_start le ac a6 clk (new_router cf itf st))"
    using master [of "Some (cf_interval cf)"] backup [of "cf_interval cf"] by (simp add: v2_start_def Let_def cf)
  have v3: "good_step le ac a6 bs q (v3_start le ac a6 clk (new_router cf itf st))" if "cf_version cf = 3"
  proof -
    have "good_step le ac a6 bs q (if address_owner cf \<or> cf_admin_state cf = AdminText ''master''
        then become_master le ac a6 clk (?i None) else become_backup clk (?i (Some (cf_interval cf))))"
      using master [of None] backup [of "cf_interval cf"] that by simp
    then show ?thesis unfolding v3_start_def Let_def cf upd st by (rule good_then_stats)
  qed
  show ?thesis using v2 v3 config_versions [OF assms] by (auto simp: router_start_def cf)
qed

section \<open>The transition system\<close>

datatype timer_kind = TkMasterDown | TkAdver | TkPreempt | TkStats

fun timer_of :: "timer_kind \<Rightarrow> vrrp_router \<Rightarrow> vtimer" where
  "timer_of TkMasterDown r = rt_master_down r"
| "timer_of TkAdver r = rt_adver r"
| "timer_of TkPreempt r = rt_preempt r"
| "timer_of TkStats r = rt_stats_out r"

fun fire :: "timer_kind \<Rightarrow> vrrp_router \<Rightarrow> vrrp_router" where
  "fire TkMasterDown r = r\<lparr>rt_master_down := Fired\<rparr>"
| "fire TkAdver r = r\<lparr>rt_adver := Fired\<rparr>"
| "fire TkPreempt r = r\<lparr>rt_preempt := Fired\<rparr>"
| "fire TkStats r = r\<lparr>rt_stats_out := Fired\<rparr>"

fun timer_event :: "timer_kind \<Rightarrow> vrrp_event" where
  "timer_event TkMasterDown = EvMasterDown"
| "timer_event TkAdver = EvAdver"
| "timer_event TkPreempt = EvPreempt"
| "timer_event TkStats = EvStats"

record vsys =
  vs_clock :: rat
  vs_router :: vrrp_router
  vs_queue :: "vrrp_event list"

datatype vlabel = LTick rat | LExpire timer_kind | LArrive vrrp_event | LHandle

inductive vsys_step :: "bool \<Rightarrow> addrconv \<Rightarrow> addr6 \<Rightarrow> vsys \<Rightarrow> vlabel \<Rightarrow> vsys \<Rightarrow> bool" for le ac a6 where
  tick: "vs_clock s \<le> t \<Longrightarrow> vsys_step le ac a6 s (LTick t) (s\<lparr>vs_clock := t\<rparr>)"
| expire: "timer_of k (vs_router s) = Armed d \<Longrightarrow> d \<le> vs_clock s \<Longrightarrow>
    vsys_step le ac a6 s (LExpire k)
      (s\<lparr>vs_router := fire k (vs_router s), vs_queue := vs_queue s @ [timer_event k]\<rparr>)"
| arrive: "delivered ac a6 (cf_version (rt_config (vs_router s))) e \<Longrightarrow>
    vsys_step le ac a6 s (LArrive e) (s\<lparr>vs_queue := vs_queue s @ [e]\<rparr>)"
| handle_event: "vs_queue s = e # q \<Longrightarrow> handle le ac a6 (vs_clock s) e (vs_router s) = (r', x) \<Longrightarrow>
    vsys_step le ac a6 s LHandle (s\<lparr>vs_router := r', vs_queue := q\<rparr>)"

inductive_cases vsys_stepE: "vsys_step le ac a6 s l s'"

definition vsys_start :: "bool \<Rightarrow> addrconv \<Rightarrow> addr6 \<Rightarrow> bytes list \<Rightarrow> vsys \<Rightarrow> bool" where
  "vsys_start le ac a6 bs s \<longleftrightarrow>
     vs_queue s = [] \<and>
     (\<exists>cf itf st. config_ok ac a6 cf itf bs \<and>
        vs_router s = fst (router_start le ac a6 (vs_clock s) (new_router cf itf st)))"

interpretation vrouter: transition_system "vsys_start le ac a6 bs" "vsys_step le ac a6" for le ac a6 bs .

text \<open>
  The events in the queue are the router's own or were delivered; the version of the router they
  were checked for does not change.
\<close>

definition queue_ok :: "addrconv \<Rightarrow> addr6 \<Rightarrow> nat \<Rightarrow> vrrp_event list \<Rightarrow> bool" where
  "queue_ok ac a6 ver q \<longleftrightarrow> (\<forall>e\<in>set q. e \<in> {EvMasterDown, EvAdver, EvPreempt, EvStats} \<or> delivered ac a6 ver e)"

definition vsys_inv :: "bool \<Rightarrow> addrconv \<Rightarrow> addr6 \<Rightarrow> bytes list \<Rightarrow> vsys \<Rightarrow> bool" where
  "vsys_inv le ac a6 bs s \<longleftrightarrow>
     router_ok le ac a6 bs (vs_router s) \<and> live (vs_queue s) (vs_router s) \<and>
     queue_ok ac a6 (cf_version (rt_config (vs_router s))) (vs_queue s)"

text \<open>Only a change request changes the configuration, and it leaves the version alone.\<close>

lemma keep_then:
  assumes "rt_config (fst a) = c" and "\<And>r. rt_config (fst (f r)) = rt_config r"
  shows "rt_config (fst (rt_then a f)) = c"
  using assms by (cases a) (simp add: rt_then_def split: option.split)

lemma keep_send [simp]: "rt_config (fst (send_advertisement le ac a6 rel r)) = rt_config r"
  by (simp add: send_advertisement_def transmit_def count_zero_prio_def rt_emit_def Let_def split: sum.split prod.split)

lemma keep_start [simp]: "rt_config (fst (start_master_down clk iv r)) = rt_config r"
  by (simp add: start_master_down_def split: sum.split)

lemma keep_parts [simp]:
  "rt_config (fst (master_adver le ac a6 clk r)) = rt_config r"
  "rt_config (fst (backup_master_down le ac a6 clk r)) = rt_config r"
  "rt_config (state_change st r) = rt_config r"
  unfolding master_adver_def backup_master_down_def
  by (auto intro!: keep_then simp: state_change_def rt_emit_def start_adver_def)

lemma keep_received [simp]:
  "rt_config (fst (v2_master_received le ac a6 clk net w r)) = rt_config r"
  "rt_config (fst (v3_master_received le ac a6 clk net w r)) = rt_config r"
  "rt_config (fst (v2_backup_received clk w r)) = rt_config r"
  "rt_config (fst (v3_backup_received clk w r)) = rt_config r"
  by (simp_all add: v2_master_received_def v3_master_received_def v2_backup_received_def v3_backup_received_def
      preempt_wait_def Let_def split: sum.split bool.split)

lemma keep_on_state:
  assumes "rt_config (fst a) = c" and "rt_config (fst b) = c" and "rt_config (fst d) = c" and "rt_config r = c"
  shows "rt_config (fst (on_state r a b d)) = c"
  using assms by (simp add: on_state_def split: option.split vrrp_state.split)

lemma handle_version: "cf_version (rt_config (fst (handle le ac a6 clk e r))) = cf_version (rt_config r)"
proof (cases e)
  case (EvReceived pkt)
  then have "rt_config (fst (handle le ac a6 clk e r)) = rt_config r"
    by (auto simp: vrrp_received_handler_def Let_def intro!: keep_on_state split: option.split)
  then show ?thesis by simp
next
  case EvShutdown
  then have "rt_config (fst (handle le ac a6 clk e r)) = rt_config r"
    by (auto simp: vrrp_shutdown_request_handler_def intro!: keep_on_state keep_then)
  then show ?thesis by simp
next
  case (EvConfig ch)
  have "rt_config (fst (handle le ac a6 clk e r)) = change_config ch (rt_config r)"
    unfolding EvConfig handle.simps vrrp_config_change_request_handler_def Let_def
    by (auto simp: master_config_change_def backup_config_change_def intro!: keep_on_state keep_then)
  then show ?thesis by (simp add: change_config_def)
qed (auto simp: master_down_handler_def adver_handler_def preempt_delay_handler_def statistics_handler_def
  intro!: arg_cong [where f = cf_version] keep_on_state)

lemma vsys_inv_step:
  assumes "vsys_inv le ac a6 bs s" and "vsys_step le ac a6 s l s'"
  shows "vsys_inv le ac a6 bs s'"
  using assms(2)
proof (cases rule: vsys_step.cases)
  case (tick t)
  then show ?thesis using assms(1) by (simp add: vsys_inv_def)
next
  case (expire k d)
  have "router_ok le ac a6 bs (fire k (vs_router s))" "rt_config (fire k (vs_router s)) = rt_config (vs_router s)"
    using assms(1) by (cases k; simp add: vsys_inv_def router_ok_def)+
  moreover have "live (vs_queue s @ [timer_event k]) (fire k (vs_router s))"
    using assms(1) by (cases k) (auto simp: vsys_inv_def live_def pending_def)
  moreover have "timer_event k \<in> {EvMasterDown, EvAdver, EvPreempt, EvStats}" by (cases k) simp_all
  ultimately show ?thesis using assms(1) expire(2) by (auto simp: vsys_inv_def queue_ok_def)
next
  case (arrive e)
  then show ?thesis using assms(1) by (auto simp: vsys_inv_def queue_ok_def live_def pending_def)
next
  case (handle_event e q r' x)
  note I = assms(1) [unfolded vsys_inv_def handle_event(3)]
  have "good_step le ac a6 bs q (handle le ac a6 (vs_clock s) e (vs_router s))"
    using I by (intro handle_good) (auto simp: queue_ok_def)
  moreover have "cf_version (rt_config r') = cf_version (rt_config (vs_router s))"
    using handle_version [of le ac a6 "vs_clock s" e "vs_router s"] handle_event(4) by simp
  ultimately show ?thesis using I handle_event(2,4) by (auto simp: vsys_inv_def good_step_def queue_ok_def)
qed

lemma vsys_reachable_inv:
  assumes "vrouter.reachable le ac a6 bs s"
  shows "vsys_inv le ac a6 bs s"
proof (rule vrouter.invariant_rule [OF assms])
  fix s assume "vsys_start le ac a6 bs s"
  then obtain cf itf st where s: "vs_queue s = []" "config_ok ac a6 cf itf bs"
    "vs_router s = fst (router_start le ac a6 (vs_clock s) (new_router cf itf st))"
    by (auto simp: vsys_start_def)
  then show "vsys_inv le ac a6 bs s"
    using start_good [OF s(2), of le "[]" "vs_clock s" st] by (simp add: vsys_inv_def good_step_def queue_ok_def)
qed (rule vsys_inv_step)

end
