(* ===== verification/Vrrp_Samples.thy ===== *)
theory Vrrp_Samples
  imports Vrrp_System Stp_Samples
begin

text \<open>
  Routers of a group with the address 10.0.0.1 on which the hypotheses of properties are shown to
  be satisfiable, with converters of dotted quads and of hexadecimal pairs.
\<close>

definition vrrp_ac :: addrconv where
  "vrrp_ac = \<lparr>mac_to_text = hex_text, mac_to_bin = hex_bin, ip_to_text = quad_text, ip_to_bin = quad_bin\<rparr>"

definition group_config :: "int \<Rightarrow> vrrp_config" where
  "group_config prio =
     \<lparr>cf_version = 3, cf_admin_state = AdminFlag False, cf_vrid = 1, cf_priority = prio, cf_ip_addresses = [''10.0.0.1''],
      cf_interval = 1, cf_preempt_mode = True, cf_preempt_delay = 0, cf_accept_mode = False, cf_is_ipv6 = False,
      cf_statistics_interval = 30\<rparr>"

definition port_iface :: "string \<Rightarrow> vrrp_interface" where
  "port_iface primary =
     \<lparr>if_mac = ''00:00:00:00:00:01'', if_primary = primary, if_vlan = None, if_dpid = 1, if_port_no = 1\<rparr>"

lemma vrrp_quads:
  "ip_text_of vrrp_ac ''10.0.0.1'' [10, 0, 0, 1]" "ip_text_of vrrp_ac ''10.0.0.2'' [10, 0, 0, 2]"
  "ip_text_of vrrp_ac ''10.0.0.3'' [10, 0, 0, 3]" "ip_text_of vrrp_ac VRRP_IPV4_DST_ADDRESS [224, 0, 0, 18]"
  unfolding ip_text_of_def vrrp_ac_def VRRP_IPV4_DST_ADDRESS_def by code_simp+

lemma vrrp_macs:
  "hex_bin VRRP_IPV4_DST_MAC_ADDRESS = Inr [1, 0, 94, 0, 0, 18]"
  "hex_bin (vrrp_ipv4_src_mac_address 1) = Inr [0, 0, 94, 0, 1, 1]"
  unfolding VRRP_IPV4_DST_MAC_ADDRESS_def vrrp_ipv4_src_mac_address_def by code_simp+

lemma is_ipv4: "ip_text_of vrrp_ac t b \<Longrightarrow> is_ipv6 vrrp_ac a6 t = Inr False"
  by (simp add: is_ipv6_def ip_text_of_def)

lemma group_config_ok:
  assumes "0 \<le> prio" and "prio < 256" and "ip_text_of vrrp_ac primary b"
  shows "config_ok vrrp_ac sample_a6 (group_config prio) (port_iface primary) [[10, 0, 0, 1]]"
proof -
  have "\<exists>d s. link_ok vrrp_ac (vrrp_eth v) d s None" if "vrid v = 1" "\<not> vr_ipv6 v" for v
    using that vrrp_macs by (simp add: link_ok_def vrrp_eth_def vrrp_ac_def)
  moreover have "interval_ok 3 1"
    by (simp add: interval_ok_def sec_to_max_adver_int_def sec_in_unit_def py_trunc_def)
  ultimately show ?thesis
    using assms vrrp_quads is_ipv4 [OF vrrp_quads(1)] is_ipv4 [OF assms(3)]
    by (auto simp: config_ok_def group_config_def port_iface_def fam_text_of_def group_address_def)
qed

definition group_router :: "vrrp_state \<Rightarrow> int \<Rightarrow> string \<Rightarrow> vrrp_router" where
  "group_router st prio primary =
     (new_router (group_config prio) (port_iface primary) new_statistics)\<lparr>rt_state := Some st, rt_interval := Some 1\<rparr>"

lemma group_router_ok:
  assumes "0 \<le> prio" and "prio < 256" and "ip_text_of vrrp_ac primary b"
  shows "router_ok le vrrp_ac sample_a6 [[10, 0, 0, 1]] (group_router st prio primary)"
  using group_config_ok [OF assms]
  by (simp add: router_ok_def group_router_def new_router_def cache_ok_def)

lemma group_router_sel [simp]:
  "rt_state (group_router st prio primary) = Some st" "rt_config (group_router st prio primary) = group_config prio"
  "rt_iface (group_router st prio primary) = port_iface primary" "rt_interval (group_router st prio primary) = Some 1"
  "rt_cached (group_router st prio primary) = None" "rt_out (group_router st prio primary) = []"
  by (simp_all add: group_router_def new_router_def)

lemma group_config_sel [simp]:
  "cf_version (group_config prio) = 3" "cf_priority (group_config prio) = prio" "cf_is_ipv6 (group_config prio) = False"
  "cf_vrid (group_config prio) = 1" "cf_preempt_mode (group_config prio) = True" "cf_interval (group_config prio) = 1"
  by (simp_all add: group_config_def)

text \<open>A decoded advertisement of priority 200 from 10.0.0.2.\<close>

definition group_adv :: vrrp where
  "group_adv =
     \<lparr>vr_version = 3, vr_type = 1, vrid = 1, vr_priority = 200, count_ip = 1, max_adver_int = 100, vr_checksum = None,
      ip_addresses = [''10.0.0.1''], auth_type = None, auth_data = None, vr_ipv6 = False, vr_ident = 0\<rparr>"

definition group_pkt :: "proto_obj list" where
  "group_pkt = [PIpv4 (vrrp_ip4 ''10.0.0.2'' 1), POther ''vrrp'' 12 (vrrp_body group_adv [[10, 0, 0, 1]] 0)]"

lemma group_pkt_payload:
  "get_payload vrrp_ac sample_a6 group_pkt = Some (Net4 (vrrp_ip4 ''10.0.0.2'' 1), vrrp_received group_adv 0)"
proof -
  have "vrrp_wf vrrp_ac sample_a6 group_adv [[10, 0, 0, 1]]"
    using vrrp_quads(1) is_ipv4 [OF vrrp_quads(1)] by (simp add: vrrp_wf_def group_adv_def fam_text_of_def)
  from vrrp_parse_ok [OF this, of 0] show ?thesis by (simp add: group_pkt_def vrrp_ip4_def)
qed

text \<open>A system that starts as a backup.\<close>

definition group_sys :: "vrrp_event list \<Rightarrow> vsys" where
  "group_sys q =
     \<lparr>vs_clock = 0,
      vs_router = fst (router_start True vrrp_ac sample_a6 0
        (new_router (group_config 100) (port_iface ''10.0.0.3'') new_statistics)),
      vs_queue = q\<rparr>"

lemma group_sys_reachable:
  "vrouter.reachable True vrrp_ac sample_a6 [[10, 0, 0, 1]] (group_sys [EvShutdown])"
proof -
  have "vsys_start True vrrp_ac sample_a6 [[10, 0, 0, 1]] (group_sys [])"
    using group_config_ok [OF _ _ vrrp_quads(3), of 100] by (auto simp: vsys_start_def group_sys_def)
  then have r: "vrouter.reachable True vrrp_ac sample_a6 [[10, 0, 0, 1]] (group_sys [])"
    by (rule vrouter.reach_start)
  have "vsys_step True vrrp_ac sample_a6 (group_sys []) (LArrive EvShutdown)
      ((group_sys [])\<lparr>vs_queue := vs_queue (group_sys []) @ [EvShutdown]\<rparr>)"
    by (rule vsys_step.arrive) simp
  then have "vsys_step True vrrp_ac sample_a6 (group_sys []) (LArrive EvShutdown) (group_sys [EvShutdown])"
    by (simp add: group_sys_def)
  with r show ?thesis by (rule vrouter.reach_step)
qed

end
