(* ===== verification/Vrrp_Properties.thy ===== *)
theory Vrrp_Properties
  imports Vrrp_Samples
begin

text \<open>
  The properties of the redundancy protocol and of the IPv6 header: routers that do not stall,
  two masters of which one remains, backups that wake up in the order of their priorities, the
  handover at a shutdown, and a change of the configuration that silences a master.
\<close>

section \<open>Hearing a frame\<close>

text \<open>
  A frame on the port of a router: its monitor decodes and counts it, and the router handles the
  advertisement the monitor passes on.  Both work on the same statistics.
\<close>

definition hear ::
  "bool \<Rightarrow> addrconv \<Rightarrow> addr6 \<Rightarrow> other_parsers \<Rightarrow> rat \<Rightarrow> bytes \<Rightarrow> vrrp_router \<Rightarrow> rt_result run"
where
  "hear le ac a6 oth clk frame r =
     run_bind (monitor_packet_in le ac a6 oth (rt_config r) (rt_iface r) (if_dpid (rt_iface r))
         (Some (if_port_no (rt_iface r))) frame (rt_stats r))
       (\<lambda>(st, p).
         let r1 = r\<lparr>rt_stats := st\<rparr> in
         ret (case p of None \<Rightarrow> (r1, None) | Some pkt \<Rightarrow> vrrp_received_handler le ac a6 clk pkt r1))"

text \<open>Routers of one group on one link.\<close>

definition same_group :: "vrrp_router \<Rightarrow> vrrp_router \<Rightarrow> bool" where
  "same_group a b \<longleftrightarrow>
     cf_version (rt_config a) = cf_version (rt_config b) \<and> cf_vrid (rt_config a) = cf_vrid (rt_config b) \<and>
     cf_is_ipv6 (rt_config a) = cf_is_ipv6 (rt_config b) \<and> if_vlan (rt_iface a) = if_vlan (rt_iface b)"

lemma same_group_sym: "same_group a b \<Longrightarrow> same_group b a"
  by (simp add: same_group_def)

text \<open>What a router of the group announces is heard as an advertisement of its priority.\<close>

lemma hear_announced:
  assumes "announces le ac a6 (rt_config a) (rt_iface a) prio frame" and "same_group a b"
  obtains pkt net w where "get_payload ac a6 pkt = Some (net, w)" "speaks_for (rt_config a) prio w"
    "net_src net = if_primary (rt_iface a)"
    "hear le ac a6 oth clk frame b =
       ret (vrrp_received_handler le ac a6 clk pkt
         (b\<lparr>rt_stats := (rt_stats b)\<lparr>rx_zero_prio := rx_zero_prio (rt_stats b) + (if prio = 0 then 1 else 0),
                                    rx_packets := rx_packets (rt_stats b) + 1\<rparr>\<rparr>))"
proof -
  have g: "if_vlan (rt_iface b) = if_vlan (rt_iface a)" "cf_version (rt_config b) = cf_version (rt_config a)"
    "cf_vrid (rt_config b) = cf_vrid (rt_config a)" "cf_is_ipv6 (rt_config b) = cf_is_ipv6 (rt_config a)"
    using assms(2) by (simp_all add: same_group_def)
  obtain pkt net w where p: "get_payload ac a6 pkt = Some (net, w)" "speaks_for (rt_config a) prio w"
    "net_src net = if_primary (rt_iface a)"
    "send_vrrp_packet_received le ac a6 oth (rt_config b) (rt_iface b) frame (rt_stats b) =
       ret ((rt_stats b)\<lparr>rx_zero_prio := rx_zero_prio (rt_stats b) + (if prio = 0 then 1 else 0),
                        rx_packets := rx_packets (rt_stats b) + 1\<rparr>, Some pkt)"
    using assms(1) g by (rule announces_accepted)
  show thesis using that [OF p(1-3)] p(4) by (simp add: hear_def monitor_packet_in_def Let_def)
qed

lemma router_ok_stats [simp]: "router_ok le ac a6 bs (r\<lparr>rt_stats := st\<rparr>) = router_ok le ac a6 bs r"
  by (simp add: router_ok_def cache_ok_def cong: option.case_cong)

section \<open>Two masters\<close>

text \<open>The address a router compares.\<close>

definition speaker :: "addrconv \<Rightarrow> addr6 \<Rightarrow> vrrp_router \<Rightarrow> bytes \<Rightarrow> bool" where
  "speaker ac a6 r b \<longleftrightarrow> fam_text_of ac a6 (cf_is_ipv6 (rt_config r)) (if_primary (rt_iface r)) b"

lemma speaker_bin:
  assumes "router_ok le ac a6 bs r" and "speaker ac a6 r b"
  shows "ip_text_to_bin ac a6 (if_primary (rt_iface r)) = Inr b"
  using assms fam_textD(2) [of ac a6 "cf_is_ipv6 (rt_config r)"]
  by (fastforce simp: router_ok_def config_ok_def speaker_def ip_text_to_bin_def fam_bin_def split: bool.splits)

text \<open>The order in which masters prevail.\<close>

definition outranks :: "int \<Rightarrow> bytes \<Rightarrow> int \<Rightarrow> bytes \<Rightarrow> bool" where
  "outranks p a q b \<longleftrightarrow> q < p \<or> p = q \<and> b < a"

lemma yields_iff:
  assumes "router_ok le ac a6 bs r" and "speaker ac a6 r b" and "ip_text_to_bin ac a6 (net_src net) = Inr a"
  shows "yields ac a6 r net w = Inr (outranks (vr_priority w) a (cf_priority (rt_config r)) b)"
  using speaker_bin [OF assms(1,2)] assms(3) by (simp add: yields_def ip_address_lt_def outranks_def)

lemma master_hears:
  assumes "router_ok le ac a6 bs r" and "rt_state r = Some VMaster" and "speaker ac a6 r b"
    and "get_payload ac a6 pkt = Some (net, w)" and "vr_version w = cf_version (rt_config r)" and "vr_priority w \<noteq> 0"
    and "ip_text_to_bin ac a6 (net_src net) = Inr a"
  obtains r' where "vrrp_received_handler le ac a6 clk pkt r = (r', None)"
    "if outranks (vr_priority w) a (cf_priority (rt_config r)) b then
       rt_state r' = Some VBackup \<and> rt_adver r' = Idle \<and> (\<exists>d. rt_master_down r' = Armed d)
     else r' = r"
proof -
  note y = yields_iff [OF assms(1,3,7)]
  have cfg: "config_ok ac a6 (rt_config r) (rt_iface r) bs" using assms(1) by (simp add: router_ok_def)
  obtain u where "sec_in_unit (vr_version w) = Inr u"
    using config_versions [OF cfg] assms(5) by (auto simp: sec_in_unit_def)
  then obtain m where m: "max_adver_int_in_sec w = Inr m"
    by (simp add: max_adver_int_in_sec_def max_adver_int_to_sec_def)
  have down: "\<exists>j. master_down_interval (rt_config r) (Some k) = Inr j" for k
    using down_interval_ok [OF cfg, of "Some k"] by blast
  show thesis
  proof (cases "outranks (vr_priority w) a (cf_priority (rt_config r)) b")
    case False
    then show thesis
      using that [of r] assms(2,4,6) y
      by (simp add: vrrp_received_handler_def on_state_def Let_def v2_master_received_def v3_master_received_def)
  next
    case True
    have "\<exists>r'. vrrp_received_handler le ac a6 clk pkt r = (r', None) \<and> rt_state r' = Some VBackup \<and> rt_adver r' = Idle \<and>
        (\<exists>d. rt_master_down r' = Armed d)"
    proof (cases "cf_version (rt_config r) = 2")
      case two: True
      then obtain k where k: "rt_interval r = Some k" using assms(1) by (auto simp: router_ok_def)
      then obtain j where "master_down_interval (rt_config r) (rt_interval r) = Inr j" using down [of k] by auto
      then show ?thesis using True two assms(2,4,6) y
        by (simp add: vrrp_received_handler_def on_state_def Let_def v2_master_received_def start_master_down_def
            state_change_def rt_emit_def timer_start_def)
    next
      case False
      obtain j where "master_down_interval (rt_config r) (Some m) = Inr j" using down by blast
      then show ?thesis using True False assms(2,4,6) y m
        by (simp add: vrrp_received_handler_def on_state_def Let_def v3_master_received_def start_master_down_def
            state_change_def rt_emit_def timer_start_def)
    qed
    then show thesis using that True by auto
  qed
qed

lemma master_sends:
  assumes "router_ok le ac a6 bs r"
  obtains r' frame where "send_advertisement le ac a6 False r = (r', None)" "router_ok le ac a6 bs r'" "same_control r r'"
    "rt_out r' = rt_out r @ [VTransmit frame]"
    "announces le ac a6 (rt_config r) (rt_iface r) (cf_priority (rt_config r)) frame"
proof -
  have ok: "config_ok ac a6 (rt_config r) (rt_iface r) bs" "cache_ok le ac a6 bs r" using assms by (simp_all add: router_ok_def)
  obtain r1 frame where s: "send_advertisement le ac a6 False r = (r1, None)" "same_control r r1" "cache_ok le ac a6 bs r1"
    "rt_out r1 = rt_out r @ [VTransmit frame]"
    "announces le ac a6 (rt_config r) (rt_iface r) (if False then 0 else cf_priority (rt_config r)) frame"
    using ok by (rule send_advertisement_ok [where release = False])
  have "router_ok le ac a6 bs r1" using assms s(2,3) by (simp add: router_ok_def same_control_def)
  with that s show thesis by simp
qed

text \<open>One master hears another.\<close>

lemma master_hears_master:
  assumes "router_ok le ac a6 bs r" and "rt_state r = Some VMaster" and "speaker ac a6 r b"
    and "router_ok le ac a6 cs q" and "speaker ac a6 q c" and "same_group q r" and "cf_priority (rt_config q) \<noteq> 0"
    and "announces le ac a6 (rt_config q) (rt_iface q) (cf_priority (rt_config q)) frame"
  obtains r' where "hear le ac a6 oth clk frame r = ret (r', None)"
    "rt_state r' = Some (if outranks (cf_priority (rt_config q)) c (cf_priority (rt_config r)) b then VBackup else VMaster)"
    "outranks (cf_priority (rt_config q)) c (cf_priority (rt_config r)) b \<longrightarrow>
       rt_adver r' = Idle \<and> (\<exists>d. rt_master_down r' = Armed d)"
proof -
  let ?st = "(rt_stats r)\<lparr>rx_zero_prio := rx_zero_prio (rt_stats r) + (if cf_priority (rt_config q) = 0 then 1 else 0),
    rx_packets := rx_packets (rt_stats r) + 1\<rparr>"
  let ?r = "r\<lparr>rt_stats := ?st\<rparr>"
  obtain pkt net w where p: "get_payload ac a6 pkt = Some (net, w)" "speaks_for (rt_config q) (cf_priority (rt_config q)) w"
    "net_src net = if_primary (rt_iface q)"
    "hear le ac a6 oth clk frame r = ret (vrrp_received_handler le ac a6 clk pkt ?r)"
    using assms(8,6) by (rule hear_announced)
  have w: "vr_version w = cf_version (rt_config ?r)" "vr_priority w = cf_priority (rt_config q)"
    using p(2) assms(6) by (simp_all add: speaks_for_def same_group_def)
  have c: "ip_text_to_bin ac a6 (net_src net) = Inr c" using speaker_bin [OF assms(4,5)] p(3) by simp
  have r: "router_ok le ac a6 bs ?r" "rt_state ?r = Some VMaster" "speaker ac a6 ?r b" "vr_priority w \<noteq> 0"
    using assms(1-3,7) w(2) by (simp_all add: speaker_def)
  obtain r' where "vrrp_received_handler le ac a6 clk pkt ?r = (r', None)"
    "if outranks (vr_priority w) c (cf_priority (rt_config ?r)) b then
       rt_state r' = Some VBackup \<and> rt_adver r' = Idle \<and> (\<exists>d. rt_master_down r' = Armed d)
     else r' = ?r"
    using r(1-3) p(1) w(1) r(4) c by (rule master_hears)
  then show thesis using that p(4) w(2) assms(2) by (auto split: if_splits)
qed

text \<open>
  C33. Two masters of one group with different addresses each send an advertisement. Once both have heard the
  other's, exactly one of them is still master: the one of the higher priority, and of two with the
  same priority the one with the higher address. The other is a backup that waits for it, with its
  own advertisements stopped, and neither handler raises.
\<close>

theorem two_masters_resolve:
  assumes "router_ok le ac a6 as ra" and "rt_state ra = Some VMaster" and "speaker ac a6 ra a"
    and "router_ok le ac a6 bs rb" and "rt_state rb = Some VMaster" and "speaker ac a6 rb b"
    and "same_group ra rb" and "a \<noteq> b"
    and "cf_priority (rt_config ra) \<noteq> 0" and "cf_priority (rt_config rb) \<noteq> 0"
  shows "\<exists>ra1 fa rb1 fb ra2 rb2 winner loser.
    send_advertisement le ac a6 False ra = (ra1, None) \<and> rt_out ra1 = rt_out ra @ [VTransmit fa] \<and>
    send_advertisement le ac a6 False rb = (rb1, None) \<and> rt_out rb1 = rt_out rb @ [VTransmit fb] \<and>
    hear le ac a6 oth clk fb ra1 = ret (ra2, None) \<and> hear le ac a6 oth clk fa rb1 = ret (rb2, None) \<and>
    (winner, loser) =
      (if outranks (cf_priority (rt_config ra)) a (cf_priority (rt_config rb)) b then (ra2, rb2) else (rb2, ra2)) \<and>
    rt_state winner = Some VMaster \<and> rt_state loser = Some VBackup \<and> rt_adver loser = Idle \<and>
    (\<exists>d. rt_master_down loser = Armed d)"
proof -
  let ?pa = "cf_priority (rt_config ra)" and ?pb = "cf_priority (rt_config rb)"
  obtain ra1 fa where A: "send_advertisement le ac a6 False ra = (ra1, None)" "router_ok le ac a6 as ra1" "same_control ra ra1"
    "rt_out ra1 = rt_out ra @ [VTransmit fa]" "announces le ac a6 (rt_config ra) (rt_iface ra) ?pa fa"
    using assms(1) by (rule master_sends)
  obtain rb1 fb where B: "send_advertisement le ac a6 False rb = (rb1, None)" "router_ok le ac a6 bs rb1" "same_control rb rb1"
    "rt_out rb1 = rt_out rb @ [VTransmit fb]" "announces le ac a6 (rt_config rb) (rt_iface rb) ?pb fb"
    using assms(4) by (rule master_sends)
  have a1: "rt_config ra1 = rt_config ra" "rt_iface ra1 = rt_iface ra" "rt_state ra1 = Some VMaster" "speaker ac a6 ra1 a"
    using A(3) assms(2,3) by (simp_all add: same_control_def speaker_def)
  have b1: "rt_config rb1 = rt_config rb" "rt_iface rb1 = rt_iface rb" "rt_state rb1 = Some VMaster" "speaker ac a6 rb1 b"
    using B(3) assms(5,6) by (simp_all add: same_control_def speaker_def)
  have g: "same_group ra rb1" "same_group rb ra1" using assms(7) a1 b1 by (simp_all add: same_group_def)
  obtain ra2 where a2: "hear le ac a6 oth clk fb ra1 = ret (ra2, None)"
    "rt_state ra2 = Some (if outranks ?pb b (cf_priority (rt_config ra1)) a then VBackup else VMaster)"
    "outranks ?pb b (cf_priority (rt_config ra1)) a \<longrightarrow> rt_adver ra2 = Idle \<and> (\<exists>d. rt_master_down ra2 = Armed d)"
    using A(2) a1(3,4) assms(4,6) g(2) assms(10) B(5) by (rule master_hears_master)
  obtain rb2 where b2: "hear le ac a6 oth clk fa rb1 = ret (rb2, None)"
    "rt_state rb2 = Some (if outranks ?pa a (cf_priority (rt_config rb1)) b then VBackup else VMaster)"
    "outranks ?pa a (cf_priority (rt_config rb1)) b \<longrightarrow> rt_adver rb2 = Idle \<and> (\<exists>d. rt_master_down rb2 = Armed d)"
    using B(2) b1(3,4) assms(1,3) g(1) assms(9) A(5) by (rule master_hears_master)
  have one: "outranks ?pb b ?pa a \<longleftrightarrow> \<not> outranks ?pa a ?pb b" using assms(8) by (auto simp: outranks_def)
  show ?thesis
  proof (cases "outranks ?pa a ?pb b")
    case True
    then show ?thesis using A(1,4) B(1,4) a2 b2 one a1(1) b1(1) by auto
  next
    case False
    then show ?thesis using A(1,4) B(1,4) a2 b2 one a1(1) b1(1) by auto
  qed
qed

lemma two_masters_resolve_witness:
  "\<exists>ra1 fa rb1 fb ra2 rb2.
    send_advertisement True vrrp_ac sample_a6 False (group_router VMaster 100 ''10.0.0.2'') = (ra1, None) \<and>
    send_advertisement True vrrp_ac sample_a6 False (group_router VMaster 100 ''10.0.0.3'') = (rb1, None) \<and>
    rt_out ra1 = [VTransmit fa] \<and> rt_out rb1 = [VTransmit fb] \<and>
    hear True vrrp_ac sample_a6 no_oth 0 fb ra1 = ret (ra2, None) \<and>
    hear True vrrp_ac sample_a6 no_oth 0 fa rb1 = ret (rb2, None) \<and>
    rt_state ra2 = Some VBackup \<and> rt_state rb2 = Some VMaster"
proof -
  let ?a = "group_router VMaster 100 ''10.0.0.2''" and ?b = "group_router VMaster 100 ''10.0.0.3''"
  have h: "router_ok True vrrp_ac sample_a6 [[10, 0, 0, 1]] ?a" "router_ok True vrrp_ac sample_a6 [[10, 0, 0, 1]] ?b"
    using vrrp_quads by (auto intro: group_router_ok)
  have sp: "speaker vrrp_ac sample_a6 ?a [10, 0, 0, 2]" "speaker vrrp_ac sample_a6 ?b [10, 0, 0, 3]" "same_group ?a ?b"
    using vrrp_quads by (simp_all add: speaker_def fam_text_of_def port_iface_def same_group_def)
  have o: "\<not> outranks 100 [10, 0, 0, 2] 100 [10, 0, 0, 3]" by (simp add: outranks_def)
  show ?thesis
    using two_masters_resolve [OF h(1) _ sp(1) h(2) _ sp(2,3), of no_oth 0] o by auto
qed

section \<open>Backups\<close>

text \<open>
  The interval with which a backup computes its patience: version 3 takes the one it is told,
  except from a master that gives up.
\<close>

definition heard_interval :: "vrrp_router \<Rightarrow> vrrp \<Rightarrow> rat option" where
  "heard_interval r w =
     (if cf_version (rt_config r) = 3 \<and> vr_priority w \<noteq> 0
      then (case max_adver_int_in_sec w of Inl e \<Rightarrow> None | Inr m \<Rightarrow> Some m) else rt_interval r)"

definition patience :: "nat \<Rightarrow> int \<Rightarrow> rat \<Rightarrow> vrrp \<Rightarrow> rat" where
  "patience ver prio m w =
     (if vr_priority w = 0 then 0 else 3 * m) + (256 - of_int prio) * (if ver = 2 then 1 else m) / 256"

definition obeys :: "vrrp_router \<Rightarrow> vrrp \<Rightarrow> bool" where
  "obeys r w \<longleftrightarrow>
     vr_priority w = 0 \<or> \<not> cf_preempt_mode (rt_config r) \<or> cf_priority (rt_config r) \<le> vr_priority w"

lemma backup_hears:
  assumes "rt_state r = Some VBackup" and "cf_version (rt_config r) = ver" and "ver \<in> {2, 3}"
    and "get_payload ac a6 pkt = Some (net, w)" and "obeys r w" and "heard_interval r w = Some m"
  obtains r' where "vrrp_received_handler le ac a6 clk pkt r = (r', None)" "rt_state r' = Some VBackup"
    "rt_master_down r' = Armed (clk + patience ver (cf_priority (rt_config r)) m w)"
    "rt_config r' = rt_config r" "rt_iface r' = rt_iface r" "rt_stats r' = rt_stats r" "rt_cached r' = rt_cached r"
    "rt_interval r' = Some m" "rt_out r' = rt_out r"
proof -
  let ?cf = "rt_config r"
  have "\<exists>r'. vrrp_received_handler le ac a6 clk pkt r = (r', None) \<and> rt_state r' = Some VBackup \<and>
    rt_master_down r' = Armed (clk + patience ver (cf_priority (rt_config r)) m w) \<and>
    rt_config r' = rt_config r \<and> rt_iface r' = rt_iface r \<and> rt_stats r' = rt_stats r \<and> rt_cached r' = rt_cached r \<and>
    rt_interval r' = Some m \<and> rt_out r' = rt_out r"
  proof (cases "ver = 2")
    case True
    then show ?thesis using assms
      by (auto simp: vrrp_received_handler_def on_state_def v2_backup_received_def Let_def obeys_def heard_interval_def
          start_master_down_def skew_time_def master_down_interval_def timer_start_def patience_def)
  next
    case False
    then have 3: "ver = 3" using assms(3) by simp
    show ?thesis
    proof (cases "vr_priority w = 0")
      case True
      then show ?thesis using assms 3
        by (auto simp: vrrp_received_handler_def on_state_def v3_backup_received_def Let_def heard_interval_def
            start_master_down_def skew_time_def timer_start_def patience_def)
    next
      case False
      then have "max_adver_int_in_sec w = Inr m" using assms(2,6) 3 by (simp add: heard_interval_def split: sum.splits)
      then show ?thesis using assms False 3
        by (auto simp: vrrp_received_handler_def on_state_def v3_backup_received_def Let_def obeys_def
            start_master_down_def skew_time_def master_down_interval_def timer_start_def patience_def)
    qed
  qed
  then show thesis using that by blast
qed

lemma patience_order:
  assumes "0 < m" and "q < p"
  shows "patience ver p m w < patience ver q m w"
proof -
  have "(of_int q :: rat) < of_int p" using assms(2) by simp
  then have "(256 - of_int p) * x < (256 - of_int q) * x" if "0 < x" for x :: rat
    using that by simp
  then show ?thesis using assms(1) by (simp add: patience_def)
qed

lemma patience_bounds:
  assumes "0 < m" and "0 \<le> p" and "p < 256"
  shows "(if vr_priority w = 0 then 0 else 3 * m) < patience ver p m w"
    and "patience ver p m w \<le> (if vr_priority w = 0 then 0 else 3 * m) + (if ver = 2 then 1 else m)"
proof -
  have p: "0 \<le> (of_int p :: rat)" "(of_int p :: rat) < 256" using assms(2,3) by simp_all
  have "0 < (256 - of_int p) * x" "(256 - of_int p) * x \<le> 256 * x" if "0 < x" for x :: rat
    using that p by simp_all
  then show "(if vr_priority w = 0 then 0 else 3 * m) < patience ver p m w"
    "patience ver p m w \<le> (if vr_priority w = 0 then 0 else 3 * m) + (if ver = 2 then 1 else m)"
    using assms(1) by (simp_all add: patience_def)
qed

text \<open>
  C34. Two backups that handle the same advertisement of a master they obey wake up in the order of their
  priorities: the one of the higher priority strictly first, both later than three intervals and
  not later than one interval (in version 2 one second) after that. When the master gives up, the
  three intervals are left out.
\<close>

theorem higher_priority_wakes_first:
  assumes "rt_state ra = Some VBackup" and "rt_state rb = Some VBackup"
    and "cf_version (rt_config ra) = ver" and "cf_version (rt_config rb) = ver" and "ver \<in> {2, 3}"
    and "get_payload ac a6 pkt = Some (net, w)" and "obeys ra w" and "obeys rb w"
    and "heard_interval ra w = Some m" and "heard_interval rb w = Some m" and "0 < m"
    and "cf_priority (rt_config rb) < cf_priority (rt_config ra)"
    and "0 \<le> cf_priority (rt_config rb)" and "cf_priority (rt_config ra) < 256"
  shows "\<exists>ra' rb' da db.
    vrrp_received_handler le ac a6 clk pkt ra = (ra', None) \<and> rt_master_down ra' = Armed (clk + da) \<and>
    vrrp_received_handler le ac a6 clk pkt rb = (rb', None) \<and> rt_master_down rb' = Armed (clk + db) \<and>
    (if vr_priority w = 0 then 0 else 3 * m) < da \<and> da < db \<and>
    db \<le> (if vr_priority w = 0 then 0 else 3 * m) + (if ver = 2 then 1 else m)"
proof -
  let ?da = "patience ver (cf_priority (rt_config ra)) m w" and ?db = "patience ver (cf_priority (rt_config rb)) m w"
  obtain ra' where a: "vrrp_received_handler le ac a6 clk pkt ra = (ra', None)" "rt_master_down ra' = Armed (clk + ?da)"
    using assms(1,3,5,6,7,9) by (rule backup_hears)
  obtain rb' where b: "vrrp_received_handler le ac a6 clk pkt rb = (rb', None)" "rt_master_down rb' = Armed (clk + ?db)"
    using assms(2,4,5,6,8,10) by (rule backup_hears)
  have "?da < ?db" using assms(11,12) by (rule patience_order)
  moreover have "(if vr_priority w = 0 then 0 else 3 * m) < ?da" using assms(11-14) by (intro patience_bounds(1)) simp_all
  moreover have "?db \<le> (if vr_priority w = 0 then 0 else 3 * m) + (if ver = 2 then 1 else m)"
    using assms(11-14) by (intro patience_bounds(2)) simp_all
  ultimately show ?thesis using a b by blast
qed

lemma higher_priority_wakes_first_witness:
  "\<exists>ra rb da db.
    vrrp_received_handler True vrrp_ac sample_a6 5 group_pkt (group_router VBackup 150 ''10.0.0.3'') = (ra, None) \<and>
    vrrp_received_handler True vrrp_ac sample_a6 5 group_pkt (group_router VBackup 100 ''10.0.0.1'') = (rb, None) \<and>
    rt_master_down ra = Armed (5 + da) \<and> rt_master_down rb = Armed (5 + db) \<and> 3 < da \<and> da < db \<and> db \<le> 4"
proof -
  let ?a = "group_router VBackup 150 ''10.0.0.3''" and ?b = "group_router VBackup 100 ''10.0.0.1''"
  let ?w = "vrrp_received group_adv 0"
  have w: "vr_priority ?w = 200" "max_adver_int_in_sec ?w = Inr 1"
    by (simp_all add: vrrp_received_def vrrp_filled_def group_adv_def max_adver_int_in_sec_def max_adver_int_to_sec_def
        sec_in_unit_def)
  have o: "obeys ?a ?w" "obeys ?b ?w" "heard_interval ?a ?w = Some 1" "heard_interval ?b ?w = Some 1"
    using w by (simp_all add: obeys_def heard_interval_def)
  show ?thesis
    using higher_priority_wakes_first [OF _ _ _ _ _ group_pkt_payload o, of 3 True 5] w by auto
qed

section \<open>Handing over\<close>

lemma zero_prio_kept:
  assumes "router_ok le ac a6 bs r" and "cf_priority (rt_config r) \<noteq> 0"
  shows "tx_zero_prio (rt_stats (fst (send_advertisement le ac a6 release r))) = tx_zero_prio (rt_stats r)"
proof -
  have ok: "config_ok ac a6 (rt_config r) (rt_iface r) bs" "cache_ok le ac a6 bs r" using assms(1) by (simp_all add: router_ok_def)
  obtain v where v: "(case rt_cached r of None \<Rightarrow> make_advertisement ac a6 (rt_config r) | Some v \<Rightarrow> Inr v) = Inr v"
    "vr_priority v \<noteq> 0"
  proof (cases "rt_cached r")
    case None
    obtain v where "make_advertisement ac a6 (rt_config r) = Inr v" "speaks_for (rt_config r) (cf_priority (rt_config r)) v"
      using ok(1) by (rule make_advertisement_ok)
    with that None assms(2) show thesis by (simp add: speaks_for_def)
  next
    case (Some v)
    with that ok(2) assms(2) show thesis by (simp add: cache_ok_def speaks_for_def)
  qed
  have "tx_zero_prio (rt_stats (fst (transmit le ac a6 keep w x))) = tx_zero_prio (rt_stats x)" for keep w x
    by (simp add: transmit_def rt_emit_def Let_def split: prod.split sum.split)
  then show ?thesis using v by (simp add: send_advertisement_def count_zero_prio_def Let_def split: sum.split)
qed

lemma shutdown_sends:
  assumes "router_ok le ac a6 as ra" and "rt_state ra = Some VMaster" and "cf_priority (rt_config ra) \<noteq> 0"
  obtains ra' frame where "vrrp_shutdown_request_handler le ac a6 ra = (ra', None)" "rt_state ra' = Some VInitialize"
    "rt_adver ra' = Idle" "rt_out ra' = rt_out ra @ [VTransmit frame, VStateChanged (Some VMaster) VInitialize]"
    "tx_zero_prio (rt_stats ra') = tx_zero_prio (rt_stats ra)" "announces le ac a6 (rt_config ra) (rt_iface ra) 0 frame"
proof -
  let ?ra = "ra\<lparr>rt_adver := Idle\<rparr>"
  have okA: "router_ok le ac a6 as ?ra" using assms(1) by (simp add: router_ok_def)
  then have "config_ok ac a6 (rt_config ?ra) (rt_iface ?ra) as" "cache_ok le ac a6 as ?ra" by (simp_all add: router_ok_def)
  then obtain r1 frame where s: "send_advertisement le ac a6 True ?ra = (r1, None)" "same_control ?ra r1"
    "rt_out r1 = rt_out ?ra @ [VTransmit frame]"
    "announces le ac a6 (rt_config ?ra) (rt_iface ?ra) (if True then 0 else cf_priority (rt_config ?ra)) frame"
    by (rule send_advertisement_ok [where release = True])
  let ?ra' = "state_change VInitialize r1"
  have "vrrp_shutdown_request_handler le ac a6 ra = (?ra', None)"
    by (simp add: vrrp_shutdown_request_handler_def on_state_def assms(2) s(1) rt_then_def)
  moreover have "tx_zero_prio (rt_stats r1) = tx_zero_prio (rt_stats ra)"
    using zero_prio_kept [OF okA, of True] assms(3) s(1) by simp
  moreover have "announces le ac a6 (rt_config ra) (rt_iface ra) 0 frame" using s(4) by simp
  ultimately show thesis
    using that [of ?ra' frame] s(2,3) assms(2) by (simp add: state_change_def rt_emit_def same_control_def)
qed

text \<open>
  C35. A master that is shut down sends one last advertisement, of priority 0. A backup of its group
  that hears it waits for its skew time alone, and when that is over it becomes master. The receiver
  counts the advertisement as one of priority 0, the sender does not.
\<close>

theorem shutdown_hands_over:
  assumes "router_ok le ac a6 as ra" and "rt_state ra = Some VMaster" and "cf_priority (rt_config ra) \<noteq> 0"
    and "router_ok le ac a6 bs rb" and "rt_state rb = Some VBackup" and "same_group ra rb"
  shows "\<exists>ra' frame rb' skew rb''.
    vrrp_shutdown_request_handler le ac a6 ra = (ra', None) \<and> rt_state ra' = Some VInitialize \<and> rt_adver ra' = Idle \<and>
    rt_out ra' = rt_out ra @ [VTransmit frame, VStateChanged (Some VMaster) VInitialize] \<and>
    tx_zero_prio (rt_stats ra') = tx_zero_prio (rt_stats ra) \<and>
    hear le ac a6 oth clk frame rb = ret (rb', None) \<and> rt_state rb' = Some VBackup \<and>
    rx_zero_prio (rt_stats rb') = rx_zero_prio (rt_stats rb) + 1 \<and>
    skew_time (rt_config rb) (rt_interval rb) = Inr skew \<and> rt_master_down rb' = Armed (clk + skew) \<and>
    master_down_handler le ac a6 (clk + skew) rb' = (rb'', None) \<and> rt_state rb'' = Some VMaster"
proof -
  obtain ra' frame where A: "vrrp_shutdown_request_handler le ac a6 ra = (ra', None)" "rt_state ra' = Some VInitialize"
    "rt_adver ra' = Idle" "rt_out ra' = rt_out ra @ [VTransmit frame, VStateChanged (Some VMaster) VInitialize]"
    "tx_zero_prio (rt_stats ra') = tx_zero_prio (rt_stats ra)" "announces le ac a6 (rt_config ra) (rt_iface ra) 0 frame"
    using assms(1-3) by (rule shutdown_sends)
  let ?rb = "rb\<lparr>rt_stats := (rt_stats rb)\<lparr>rx_zero_prio := rx_zero_prio (rt_stats rb) + 1, rx_packets := rx_packets (rt_stats rb) + 1\<rparr>\<rparr>"
  obtain pkt net w where p: "get_payload ac a6 pkt = Some (net, w)" "speaks_for (rt_config ra) 0 w"
    "hear le ac a6 oth clk frame rb = ret (vrrp_received_handler le ac a6 clk pkt ?rb)"
    by (rule hear_announced [OF A(6) assms(6), of oth clk]) simp
  have w: "vr_priority w = 0" using p(2) by (simp add: speaks_for_def)
  obtain m where m: "rt_interval rb = Some m" using assms(4,5) by (auto simp: router_ok_def)
  have "config_ok ac a6 (rt_config rb) (rt_iface rb) bs" using assms(4) by (simp add: router_ok_def)
  then have ver: "cf_version (rt_config rb) \<in> {2, 3}" by (auto dest: config_versions)
  have h: "rt_state ?rb = Some VBackup" "cf_version (rt_config ?rb) = cf_version (rt_config rb)" "obeys ?rb w"
    "heard_interval ?rb w = Some m"
    using assms(5) w m by (simp_all add: obeys_def heard_interval_def)
  obtain rb' where b: "vrrp_received_handler le ac a6 clk pkt ?rb = (rb', None)" "rt_state rb' = Some VBackup"
    "rt_master_down rb' = Armed (clk + patience (cf_version (rt_config rb)) (cf_priority (rt_config ?rb)) m w)"
    "rt_config rb' = rt_config ?rb" "rt_iface rb' = rt_iface ?rb" "rt_stats rb' = rt_stats ?rb" "rt_cached rb' = rt_cached ?rb"
    "rt_interval rb' = Some m"
    using h(1,2) ver p(1) h(3,4) by (rule backup_hears)
  let ?skew = "patience (cf_version (rt_config rb)) (cf_priority (rt_config rb)) m w"
  have skew: "skew_time (rt_config rb) (rt_interval rb) = Inr ?skew"
    using ver by (auto simp: m skew_time_def patience_def w)
  have "router_ok le ac a6 bs rb'"
    using assms(4) b(2,4,5,7,8) by (simp add: router_ok_def cache_ok_def cong: option.case_cong)
  then obtain rb'' fr where d: "backup_master_down le ac a6 (clk + ?skew) rb' = (rb'', None)" "rt_state rb'' = Some VMaster"
    by (rule backup_master_down_ok [where clk = "clk + ?skew"])
  show ?thesis
    using A(1-5) p(3) b(1,2,3,6) skew d by (auto simp: master_down_handler_def on_state_def)
qed

lemma shutdown_hands_over_witness:
  "\<exists>ra frame rb rb'.
    vrrp_shutdown_request_handler True vrrp_ac sample_a6 (group_router VMaster 200 ''10.0.0.2'') = (ra, None) \<and>
    rt_state ra = Some VInitialize \<and> rt_out ra = [VTransmit frame, VStateChanged (Some VMaster) VInitialize] \<and>
    hear True vrrp_ac sample_a6 no_oth 5 frame (group_router VBackup 128 ''10.0.0.3'') = ret (rb, None) \<and>
    rt_master_down rb = Armed (5 + 1 / 2) \<and>
    master_down_handler True vrrp_ac sample_a6 (5 + 1 / 2) rb = (rb', None) \<and> rt_state rb' = Some VMaster"
proof -
  let ?a = "group_router VMaster 200 ''10.0.0.2''" and ?b = "group_router VBackup 128 ''10.0.0.3''"
  have h: "router_ok True vrrp_ac sample_a6 [[10, 0, 0, 1]] ?a" "router_ok True vrrp_ac sample_a6 [[10, 0, 0, 1]] ?b"
    using vrrp_quads by (auto intro: group_router_ok)
  have g: "same_group ?a ?b" by (simp add: same_group_def port_iface_def)
  have pr: "cf_priority (rt_config ?a) \<noteq> 0" by simp
  have sk: "skew_time (rt_config ?b) (rt_interval ?b) = Inr (1 / 2)" by (simp add: skew_time_def)
  obtain ra frame rb skew rb' where r:
    "vrrp_shutdown_request_handler True vrrp_ac sample_a6 ?a = (ra, None)" "rt_state ra = Some VInitialize"
    "rt_out ra = rt_out ?a @ [VTransmit frame, VStateChanged (Some VMaster) VInitialize]"
    "hear True vrrp_ac sample_a6 no_oth 5 frame ?b = ret (rb, None)"
    "skew_time (rt_config ?b) (rt_interval ?b) = Inr skew" "rt_master_down rb = Armed (5 + skew)"
    "master_down_handler True vrrp_ac sample_a6 (5 + skew) rb = (rb', None)" "rt_state rb' = Some VMaster"
    using shutdown_hands_over [OF h(1) group_router_sel(1) pr h(2) group_router_sel(1) g, of no_oth 5] by blast
  have s: "skew = 1 / 2" using r(5) sk by simp
  have o: "rt_out ra = [VTransmit frame, VStateChanged (Some VMaster) VInitialize]" using r(3) by simp
  show ?thesis using r(1,2,4) o r(6-8) [unfolded s] by blast
qed

section \<open>A change that silences\<close>

lemma pack_all_fails: "\<exists>e. pack_all (fs @ Inl x # gs) = Inl e"
proof (induction fs)
  case (Cons f fs)
  then show ?case by (cases f) auto
qed simp

lemma frame_fails:
  assumes "vr_version v = 2 \<or> vr_version v = 3"
    and "(if vr_version v = 2 then 255 else 4095) < max_adver_int v"
  obtains v' e where "vrrp_frame le ac a6 v primary vl = (v', Inl e)"
proof -
  have "\<exists>v' e. vrrp_serialize le ac a6 x net = (v', Inl e)" if x: "vr_version x = vr_version v" "max_adver_int x = max_adver_int v" for x net
  proof (cases "vr_version v = 2")
    case True
    have big: "pack_int_B (max_adver_int x) = Inl StructError" using assms(2) True x(2) by (simp add: pack_int_B_def pack_B_def)
    have "\<exists>e. vrrpv2_pack ac x ck au d = Inl e" for ck au d
      unfolding vrrpv2_pack_def big
      using pack_all_fails [of "[pack_B (vrrp_to_version_type (vr_version x) (vr_type x)), pack_B (vrid x),
          pack_int_B (vr_priority x), pack_B (count_ip x), pack_B au]" StructError] by simp
    then have "\<exists>v' e. vrrpv2_serialize le ac x = (v', Inl e)"
      unfolding vrrpv2_serialize_def Let_def
      by (metis (no_types, lifting) sum.simps(5))
    then show ?thesis using x True by (simp add: vrrp_serialize_def)
  next
    case False
    then show ?thesis using assms x by (simp add: vrrp_serialize_def vrrpv3_serialize_def)
  qed
  note fail = this
  show thesis
  proof (cases "vr_ipv6 v")
    case True
    obtain n where n: "vrrp_len v = Inr n" using assms(1) by (auto simp: vrrp_len_def)
    obtain v' e where "vrrp_serialize le ac a6 v (Net6 (vrrp_ip6 primary n)) = (v', Inl e)"
      using fail [of v "Net6 (vrrp_ip6 primary n)"] by auto
    then show thesis using that True n by (simp add: vrrp_frame_def Let_def)
  next
    case False
    obtain i v0 where g: "get_identification v = (i, v0)" by fastforce
    then have "vr_version v0 = vr_version v" "max_adver_int v0 = max_adver_int v"
      by (auto simp: get_identification_def Let_def)
    then obtain v' e where "vrrp_serialize le ac a6 v0 (Net4 (vrrp_ip4 primary i)) = (v', Inl e)"
      using fail [of v0 "Net4 (vrrp_ip4 primary i)"] by auto
    then show thesis using that False g by (simp add: vrrp_frame_def Let_def)
  qed
qed

text \<open>
  C36. A master whose advertisement interval is changed to one the field of the advertisement cannot hold
  (in version 3 from 40.96 seconds on, in version 2 from 256) raises while it handles the request, and
  from then on neither sends nor has a timer that could make it send: it stays master, silent, and an
  advertisement of a router of lower priority leaves it as it is.
\<close>

theorem bad_interval_silences_master:
  assumes "router_ok le ac a6 bs r" and "rt_state r = Some VMaster"
    and "sec_to_max_adver_int (cf_version (rt_config r)) secs = Inr n"
    and "(if cf_version (rt_config r) = 2 then 255 else 4095) < n"
    and "ch_interval ch = Some secs"
  shows "\<exists>r' e. vrrp_config_change_request_handler le ac a6 clk ch r = (r', Some e) \<and>
    rt_state r' = Some VMaster \<and> rt_adver r' = Idle \<and> rt_out r' = rt_out r \<and> rt_stats r' = (rt_stats r)\<lparr>tx_zero_prio := tx_zero_prio (rt_stats r')\<rparr> \<and>
    (\<forall>clk' pkt net w. get_payload ac a6 pkt = Some (net, w) \<longrightarrow> vr_priority w \<noteq> 0 \<longrightarrow>
       vr_priority w < cf_priority (rt_config r') \<longrightarrow> vrrp_received_handler le ac a6 clk' pkt r' = (r', None))"
proof -
  let ?cf = "change_config ch (rt_config r)"
  let ?r = "r\<lparr>rt_config := ?cf, rt_cached := None, rt_adver := Idle\<rparr>"
  have cfg: "config_ok ac a6 (rt_config r) (rt_iface r) bs" using assms(1) by (simp add: router_ok_def)
  have cf: "cf_version ?cf = cf_version (rt_config r)" "cf_interval ?cf = secs" "cf_vrid ?cf = cf_vrid (rt_config r)"
    "cf_ip_addresses ?cf = cf_ip_addresses (rt_config r)"
    by (simp_all add: change_config_def or_else_def assms(5))
  obtain a as where a: "cf_ip_addresses (rt_config r) = a # as" "is_ipv6 ac a6 a = Inr (cf_is_ipv6 (rt_config r))"
    using cfg by (cases "cf_ip_addresses (rt_config r)") (auto simp: config_ok_def)
  obtain v where v: "make_advertisement ac a6 ?cf = Inr v" "vr_version v = cf_version (rt_config r)" "max_adver_int v = n"
    using assms(3) a config_versions [OF cfg] by (auto simp: make_advertisement_def cf create_version_def new_vrrp_def)
  define r1 where "r1 = count_zero_prio v (r\<lparr>rt_config := ?cf, rt_adver := Idle, rt_cached := Some v\<rparr>)"
  have r1: "rt_state r1 = Some VMaster" "rt_adver r1 = Idle" "rt_out r1 = rt_out r" "rt_config r1 = ?cf"
    "rt_stats r1 = (rt_stats r)\<lparr>tx_zero_prio := tx_zero_prio (rt_stats r1)\<rparr>"
    using assms(2) by (simp_all add: r1_def count_zero_prio_def)
  obtain v' e where f: "vrrp_frame le ac a6 v (if_primary (rt_iface r1)) (if_vlan (rt_iface r1)) = (v', Inl e)"
    by (rule frame_fails [of v le ac a6]) (use v(2,3) assms(4) config_versions [OF cfg] in auto)
  let ?r' = "r1\<lparr>rt_cached := Some v'\<rparr>"
  have send: "send_advertisement le ac a6 False ?r = (?r', Some e)"
    using v(1) f by (simp add: send_advertisement_def Let_def transmit_def r1_def [symmetric])
  have 1: "vrrp_config_change_request_handler le ac a6 clk ch r = (?r', Some e)"
    using send assms(2,5)
    by (simp add: vrrp_config_change_request_handler_def Let_def on_state_def master_config_change_def master_adver_def rt_then_def)
  have 2: "vrrp_received_handler le ac a6 clk' pkt ?r' = (?r', None)"
    if "get_payload ac a6 pkt = Some (net, w)" "vr_priority w \<noteq> 0" "vr_priority w < cf_priority (rt_config ?r')"
    for clk' pkt net w
    using that r1(1) by (simp add: vrrp_received_handler_def on_state_def Let_def v2_master_received_def
        v3_master_received_def yields_def)
  have 3: "rt_stats ?r' = (rt_stats r)\<lparr>tx_zero_prio := tx_zero_prio (rt_stats ?r')\<rparr>" using r1(5) by simp
  show ?thesis
    using 1 2 3 r1(1-3) by (intro exI [of _ ?r'] exI [of _ e]) simp
qed

lemma bad_interval_silences_master_witness:
  "\<exists>r e. vrrp_config_change_request_handler True vrrp_ac sample_a6 0
      \<lparr>ch_priority = None, ch_interval = Some 41, ch_preempt_mode = None, ch_preempt_delay = None, ch_accept_mode = None\<rparr>
      (group_router VMaster 200 ''10.0.0.2'') = (r, Some e) \<and>
    rt_state r = Some VMaster \<and> rt_adver r = Idle \<and> rt_out r = []"
proof -
  have h: "router_ok True vrrp_ac sample_a6 [[10, 0, 0, 1]] (group_router VMaster 200 ''10.0.0.2'')"
    using vrrp_quads by (auto intro: group_router_ok)
  have n: "sec_to_max_adver_int 3 41 = Inr 4100" by (simp add: sec_to_max_adver_int_def sec_in_unit_def py_trunc_def)
  show ?thesis
    using bad_interval_silences_master [OF h, of 41 4100
      "\<lparr>ch_priority = None, ch_interval = Some 41, ch_preempt_mode = None, ch_preempt_delay = None, ch_accept_mode = None\<rparr>" 0] n
    by auto
qed

section \<open>Liveness of one router\<close>

text \<open>
  C37. In every reachable state of a router that was started with a sound configuration and is only given
  advertisements its monitor accepted and changes within the ranges, the router has a state; a master
  has an advertisement ahead of it (a timer that will expire, or the event of one in its queue), a
  backup the expiry of its patience, whose interval is known; and handling the next event raises
  nothing.
\<close>

theorem router_never_stalls:
  assumes "vrouter.reachable le ac a6 bs s"
  shows "rt_state (vs_router s) \<noteq> None \<and>
    (rt_state (vs_router s) = Some VMaster \<longrightarrow> pending (rt_adver (vs_router s)) EvAdver (vs_queue s)) \<and>
    (rt_state (vs_router s) = Some VBackup \<longrightarrow>
       pending (rt_master_down (vs_router s)) EvMasterDown (vs_queue s) \<and> rt_interval (vs_router s) \<noteq> None) \<and>
    (\<forall>e q. vs_queue s = e # q \<longrightarrow> snd (handle le ac a6 (vs_clock s) e (vs_router s)) = None)"
proof -
  have I: "router_ok le ac a6 bs (vs_router s)" "live (vs_queue s) (vs_router s)"
    "queue_ok ac a6 (cf_version (rt_config (vs_router s))) (vs_queue s)"
    using vsys_reachable_inv [OF assms] by (simp_all add: vsys_inv_def)
  have "snd (handle le ac a6 (vs_clock s) e (vs_router s)) = None" if "vs_queue s = e # q" for e q
  proof -
    have "good_step le ac a6 bs q (handle le ac a6 (vs_clock s) e (vs_router s))"
      using I that by (intro handle_good) (auto simp: queue_ok_def)
    then show ?thesis by (simp add: good_step_def)
  qed
  then show ?thesis using I(1,2) by (simp add: router_ok_def live_def)
qed

lemma router_never_stalls_witness:
  "rt_state (vs_router (group_sys [EvShutdown])) \<noteq> None \<and>
   snd (handle True vrrp_ac sample_a6 0 EvShutdown (vs_router (group_sys [EvShutdown]))) = None"
  using router_never_stalls [OF group_sys_reachable] by (simp add: group_sys_def)

section \<open>The IPv6 header\<close>

text \<open>
  C38. An IPv6 header with a chain of well-formed extension headers is read back from its bytes followed by
  the payload: the same header (with the length filled in when it was left out), the type of what
  follows the last extension header, and the payload; and the bytes are as many as the header says.
\<close>

theorem ipv6_header_roundtrip:
  assumes "ipv6_wf a6 h payload"
  shows "\<exists>b. ipv6_serialize a6 h payload = Inr (b, ipv6_norm h payload) \<and> length b = ipv6_len h \<and>
    ipv6_parser a6 (b @ payload) = Inr (ipv6_norm h payload, ext_last (ip6_nxt h) (ext_hdrs h), payload)"
  using assms by (rule ipv6_ok)

lemma ipv6_header_roundtrip_witness:
  "\<exists>h b. ext_hdrs h = [HopOpts 44 0 (Some [\<lparr>opt_type = 1, opt_len = 4, opt_data = Some [0, 0, 0, 0]\<rparr>]), Fragment 17 5 1 9] \<and>
    ipv6_serialize sample_a6 h [1, 2, 3] = Inr (b, h\<lparr>payload_length := 19\<rparr>) \<and> length b = 56 \<and>
    ipv6_parser sample_a6 (b @ [1, 2, 3]) = Inr (h\<lparr>payload_length := 19\<rparr>, 17, [1, 2, 3])"
proof -
  define h where "h = \<lparr>ip6_version = 6, traffic_class = 0, flow_label = 7, payload_length = 0, ip6_nxt = 0, hop_limit = 64,
    ip6_src = ip6_to_text sample_a6 (replicate 16 1), ip6_dst = ip6_to_text sample_a6 (replicate 16 2),
    ext_hdrs = [HopOpts 44 0 (Some [\<lparr>opt_type = 1, opt_len = 4, opt_data = Some [0, 0, 0, 0]\<rparr>]), Fragment 17 5 1 9]\<rparr>"
  have "ip6_text_of sample_a6 (ip6_src h) (replicate 16 1)" "ip6_text_of sample_a6 (ip6_dst h) (replicate 16 2)"
    unfolding h_def by (simp_all add: sample_a6_text del: replicate.simps)
  moreover have "ext_chain sample_a6 (ip6_nxt h) (ext_hdrs h)"
    by (simp add: h_def opt_header_wf_def opts_size_def ip6_option_size_def ip6_option_wf_def ext_parser_def)
  moreover have len: "exts_len (ext_hdrs h) = 16" "payload_length h = 0" "ext_last (ip6_nxt h) (ext_hdrs h) = 17"
    by (simp_all add: h_def exts_len_def ext_last_def)
  ultimately have wf: "ipv6_wf sample_a6 h [1, 2, 3]"
    by (auto simp: ipv6_wf_def h_def)
  have "ipv6_norm h [1, 2, 3] = h\<lparr>payload_length := 19\<rparr>" "ipv6_len h = 56"
    using len by (simp_all add: ipv6_norm_def ipv6_len_def)
  with ipv6_header_roundtrip [OF wf] len(3)
  have "\<exists>b. ipv6_serialize sample_a6 h [1, 2, 3] = Inr (b, h\<lparr>payload_length := 19\<rparr>) \<and> length b = 56 \<and>
    ipv6_parser sample_a6 (b @ [1, 2, 3]) = Inr (h\<lparr>payload_length := 19\<rparr>, 17, [1, 2, 3])"
    by simp
  moreover have "ext_hdrs h =
      [HopOpts 44 0 (Some [\<lparr>opt_type = 1, opt_len = 4, opt_data = Some [0, 0, 0, 0]\<rparr>]), Fragment 17 5 1 9]"
    by (simp add: h_def)
  ultimately show ?thesis by blast
qed

end
