(* ===== verification/Vrrp_Manager.thy ===== *)
theory Vrrp_Manager
  imports Vrrp_System App_Events Topo_Lldp
begin

text \<open>
  \<open>ryu/services/protocols/vrrp/manager.py\<close>: the table of virtual routers by name, the two
  applications of each (router and monitor on an OpenFlow port) in the table of the application
  manager, and the loop that takes stopped routers down.  The decorated methods of the two
  application classes are parameters.
\<close>

section \<open>Names\<close>

definition interface_str :: "vrrp_interface \<Rightarrow> string" where
  "interface_str itf =
     ''VRRPInterfaceOpenFlow<'' @ if_mac itf @ '', '' @ if_primary itf @ '', '' @
     (case if_vlan itf of None \<Rightarrow> ''None'' | Some n \<Rightarrow> nat_str n) @ '', '' @ dpid_to_str (if_dpid itf) @ '', '' @
     nat_str (if_port_no itf) @ ''>''"

definition instance_name :: "vrrp_interface \<Rightarrow> nat \<Rightarrow> bool \<Rightarrow> string" where
  "instance_name itf rid six =
     ''VRRP-Router-'' @ interface_str itf @ ''-'' @ nat_str rid @ ''-'' @ (if six then ''ipv6'' else ''ipv4'')"

definition monitor_name :: "vrrp_interface \<Rightarrow> nat \<Rightarrow> string" where
  "monitor_name itf rid = ''VRRPInterfaceMonitorOpenFlow-'' @ interface_str itf @ ''-'' @ nat_str rid"

section \<open>State\<close>

text \<open>
  An instance shares its configuration with its router, so it is read there; a router object
  that was made stays known here until it is taken down.
\<close>

record vrrp_instance =
  vi_name :: string
  vi_monitor :: string
  vi_iface :: vrrp_interface
  vi_state :: "vrrp_state option"

datatype manager_out =
    ConfigReply "string option"
  | ListReply "(vrrp_instance \<times> vrrp_config option) list"
  | Proxy string vrrp_event

record vrrp_manager =
  vm_instances :: "(string, vrrp_instance) dict"
  vm_routers :: "(string, vrrp_router) dict"
  vm_bricks :: bricks
  vm_shutdown :: "(string \<times> string) list"
  vm_out :: "manager_out list"

type_synonym vm_result = "vrrp_manager \<times> py_exn option"

definition vm_emit :: "manager_out \<Rightarrow> vrrp_manager \<Rightarrow> vrrp_manager" where
  "vm_emit x m = m\<lparr>vm_out := vm_out m @ [x]\<rparr>"

section \<open>Operations\<close>

text \<open>\<open>AppManager.instantiate\<close> of an application of the given name.\<close>

definition instantiate_app :: "string \<Rightarrow> handler list \<Rightarrow> string list \<Rightarrow> bricks \<Rightarrow> bricks res" where
  "instantiate_app name ms evs bs = map_sum id update_bricks (register_app (app_init name ms evs) bs)"

definition pipe_events :: "string \<Rightarrow> string \<Rightarrow> string \<Rightarrow> bricks \<Rightarrow> bricks" where
  "pipe_events manager name mname bs =
     on_app mname (register_observer ''EventVRRPReceived'' name {})
       (on_app name (register_observer ''EventVRRPTransmitRequest'' mname {})
         (on_app name (register_observer ''EventVRRPStateChanged'' mname {})
           (on_app manager (register_observer ''EventVRRPShutdownRequest'' name {}) bs)))"

definition config_request_handler ::
  "bool \<Rightarrow> addrconv \<Rightarrow> addr6 \<Rightarrow> handler list \<Rightarrow> handler list \<Rightarrow> rat \<Rightarrow> vrrp_config \<Rightarrow> vrrp_interface \<Rightarrow> vrrp_manager \<Rightarrow> vm_result"
where
  "config_request_handler le ac a6 mon_ms rt_ms clk cf itf m =
     (let name = instance_name itf (cf_vrid cf) (cf_is_ipv6 cf); mname = monitor_name itf (cf_vrid cf) in
      if dict_get (vm_instances m) name \<noteq> None then (vm_emit (ConfigReply None) m, None)
      else case instantiate_app mname mon_ms [] (vm_bricks m) of
        Inl e \<Rightarrow> (m, Some e)
      | Inr b1 \<Rightarrow>
          if cf_version cf \<noteq> 2 \<and> cf_version cf \<noteq> 3 then (m\<lparr>vm_bricks := b1\<rparr>, Some KeyError)
          else case instantiate_app name rt_ms [''EventVRRPStateChanged''] b1 of
            Inl e \<Rightarrow> (m\<lparr>vm_bricks := b1\<rparr>, Some e)
          | Inr b2 \<Rightarrow>
              (case router_start le ac a6 clk (new_router cf itf new_statistics) of
                 (r, x) \<Rightarrow>
                   (let m1 = m\<lparr>vm_bricks := pipe_events ''VRRPManager'' name mname b2,
                        vm_instances := dict_set name \<lparr>vi_name = name, vi_monitor = mname, vi_iface = itf, vi_state = None\<rparr>
                          (vm_instances m),
                        vm_routers := dict_set name r (vm_routers m)\<rparr>
                    in case x of
                      Some e \<Rightarrow> (m1, Some e)
                    | None \<Rightarrow> (vm_emit (ConfigReply (Some name)) m1, None))))"

definition proxy_event :: "string \<Rightarrow> vrrp_event \<Rightarrow> vrrp_manager \<Rightarrow> vrrp_manager" where
  "proxy_event name ev m =
     (case dict_get (vm_instances m) name of None \<Rightarrow> m | Some i \<Rightarrow> vm_emit (Proxy (vi_name i) ev) m)"

definition shutdown_request_handler :: "string \<Rightarrow> vrrp_manager \<Rightarrow> vrrp_manager" where
  "shutdown_request_handler name m = proxy_event name EvShutdown m"

definition config_change_request_handler :: "string \<Rightarrow> config_change \<Rightarrow> vrrp_manager \<Rightarrow> vrrp_manager" where
  "config_change_request_handler name ch m = proxy_event name (EvConfig ch) m"

definition manager_state_change ::
  "string \<Rightarrow> vrrp_state option \<Rightarrow> vrrp_state \<Rightarrow> vrrp_manager \<Rightarrow> vm_result"
where
  "manager_state_change name old new m =
     (case dict_get (vm_instances m) name of
        None \<Rightarrow> (m, Some AssertionError)
      | Some i \<Rightarrow>
          (let m1 = m\<lparr>vm_instances := dict_set name (i\<lparr>vi_state := Some new\<rparr>) (vm_instances m)\<rparr> in
           (if old \<noteq> None \<and> new = VInitialize then m1\<lparr>vm_shutdown := vm_shutdown m1 @ [(vi_name i, vi_monitor i)]\<rparr> else m1,
            None)))"

text \<open>One turn of \<open>_shutdown_loop\<close>; with an empty queue it waits.\<close>

definition shutdown_turn :: "vrrp_manager \<Rightarrow> vm_result" where
  "shutdown_turn m =
     (case vm_shutdown m of
        [] \<Rightarrow> (m, None)
      | (name, mname) # q \<Rightarrow>
          (let m0 = m\<lparr>vm_shutdown := q\<rparr> in
           case uninstantiate name (vm_bricks m) of
             Inl e \<Rightarrow> (m0, Some e)
           | Inr (_, b1) \<Rightarrow>
               (let m1 = m0\<lparr>vm_bricks := b1, vm_routers := dict_del name (vm_routers m)\<rparr> in
                case uninstantiate mname b1 of
                  Inl e \<Rightarrow> (m1, Some e)
                | Inr (_, b2) \<Rightarrow>
                    (let m2 = m1\<lparr>vm_bricks := b2\<rparr> in
                     if dict_get (vm_instances m) name = None then (m2, Some KeyError)
                     else (m2\<lparr>vm_instances := dict_del name (vm_instances m)\<rparr>, None)))))"

definition list_request_handler :: "string option \<Rightarrow> vrrp_manager \<Rightarrow> vrrp_manager" where
  "list_request_handler name m =
     (let entry = (\<lambda>i. (i, map_option rt_config (dict_get (vm_routers m) (vi_name i)))) in
      vm_emit (ListReply
        (case name of
           None \<Rightarrow> map entry (dict_values (vm_instances m))
         | Some n \<Rightarrow> (case dict_get (vm_instances m) n of None \<Rightarrow> [] | Some i \<Rightarrow> [entry i]))) m)"

end
