(* ===== verification/Vrrp_Instances.thy ===== *)
theory Vrrp_Instances
  imports Vrrp_Manager Vrrp_Samples
begin

text \<open>
  The manager of virtual routers as a transition system: its table and the applications of its
  instances agree, a router that stopped is taken down completely, and what the names of
  monitors leave out.
\<close>

section \<open>Names\<close>

lemma names_differ: "instance_name itf rid six \<noteq> monitor_name itf' rid'"
  by (simp add: instance_name_def monitor_name_def)

lemma family_suffix:
  assumes "xs @ (if s then ''ipv6'' else ''ipv4'') = ys @ (if t then ''ipv6'' else ''ipv4'')"
  shows "xs = ys \<and> s = t"
  using assms by (cases s; cases t) auto

text \<open>The name of a router holds the name of its monitor, and the family besides.\<close>

lemma instance_name_parts:
  assumes "instance_name itf rid six = instance_name itf' rid' six'"
  shows "monitor_name itf rid = monitor_name itf' rid'" and "six = six'"
proof -
  have "(interface_str itf @ ''-'' @ nat_str rid @ ''-'') @ (if six then ''ipv6'' else ''ipv4'') =
      (interface_str itf' @ ''-'' @ nat_str rid' @ ''-'') @ (if six' then ''ipv6'' else ''ipv4'')"
    using assms by (simp add: instance_name_def)
  from family_suffix [OF this]
  show "monitor_name itf rid = monitor_name itf' rid'" "six = six'" by (simp_all add: monitor_name_def)
qed

section \<open>Applications\<close>

definition known :: "bricks \<Rightarrow> string \<Rightarrow> bool" where
  "known bs k \<longleftrightarrow> dict_get bs k \<noteq> None"

lemma known_on_app [simp]: "known (on_app b f bs) = known bs"
  by (auto simp: known_def on_app_def fun_eq_iff split: option.split)

lemma known_fold: "(\<And>x bs. known (g x bs) = known bs) \<Longrightarrow> known (fold g xs bs) = known bs"
  by (induction xs arbitrary: bs) simp_all

lemma known_update_brick [simp]: "known (update_brick name ev c bs) = known bs"
  by (simp add: update_brick_def observe_event_def Let_def known_fold)

lemma known_update_bricks [simp]: "known (update_bricks bs) = known bs"
  unfolding update_bricks_def by (intro known_fold) (auto intro!: known_fold)

lemma known_pipe_events [simp]: "known (pipe_events p name mname bs) = known bs"
  by (simp add: pipe_events_def)

lemma instantiate_app_cases:
  "instantiate_app name ms evs bs =
     (if known bs name then Inl AssertionError
      else Inr (update_bricks (dict_set name (register_instance (app_init name ms evs)) bs)))"
  by (simp add: instantiate_app_def register_app_def known_def app_init_def)

lemma known_set [simp]: "known (dict_set k a bs) n \<longleftrightarrow> n = k \<or> known bs n"
  by (simp add: known_def)

lemma uninstantiate_cases:
  "known bs name \<Longrightarrow> \<exists>a bs'. uninstantiate name bs = Inr (a, bs') \<and> (\<forall>k. known bs' k \<longleftrightarrow> k \<noteq> name \<and> known bs k)"
  by (auto simp: uninstantiate_def known_def dict_get_map)

section \<open>Runs\<close>

datatype manager_label =
    MRequest rat vrrp_config vrrp_interface
  | MShutdown string
  | MChange string config_change
  | MNotice string "vrrp_state option" vrrp_state
  | MList "string option"
  | MTurn

text \<open>A router that stopped says nothing more (\<open>initialized_router_is_silent\<close>).\<close>

inductive manager_step ::
  "bool \<Rightarrow> addrconv \<Rightarrow> addr6 \<Rightarrow> handler list \<Rightarrow> handler list \<Rightarrow> vrrp_manager \<Rightarrow> manager_label \<Rightarrow> vrrp_manager \<Rightarrow> bool"
  for le ac a6 mms rms
where
  m_request: "manager_step le ac a6 mms rms m (MRequest clk cf itf) (fst (config_request_handler le ac a6 mms rms clk cf itf m))"
| m_shutdown: "manager_step le ac a6 mms rms m (MShutdown n) (shutdown_request_handler n m)"
| m_change: "manager_step le ac a6 mms rms m (MChange n ch) (config_change_request_handler n ch m)"
| m_notice: "n \<notin> fst ` set (vm_shutdown m) \<Longrightarrow>
    manager_step le ac a6 mms rms m (MNotice n old new) (fst (manager_state_change n old new m))"
| m_list: "manager_step le ac a6 mms rms m (MList n) (list_request_handler n m)"
| m_turn: "manager_step le ac a6 mms rms m MTurn (fst (shutdown_turn m))"

definition manager_start :: "vrrp_manager \<Rightarrow> bool" where
  "manager_start m \<longleftrightarrow> vm_instances m = [] \<and> vm_routers m = [] \<and> vm_shutdown m = []"

interpretation vmanager: transition_system manager_start "manager_step le ac a6 mms rms" for le ac a6 mms rms .

text \<open>The handling of an event by a router that was shut down.\<close>

lemma initialized_router_is_silent:
  assumes "rt_state r = Some VInitialize"
  shows "\<exists>r'. handle le ac a6 clk e r = (r', None) \<and> rt_state r' = Some VInitialize \<and> rt_out r' = rt_out r"
  using assms
  by (cases e) (simp_all add: master_down_handler_def adver_handler_def preempt_delay_handler_def statistics_handler_def
    vrrp_received_handler_def vrrp_shutdown_request_handler_def vrrp_config_change_request_handler_def on_state_def Let_def)

definition named :: "string \<Rightarrow> vrrp_instance \<Rightarrow> bool" where
  "named k i \<longleftrightarrow>
     vi_name i = k \<and> (\<exists>rid six. k = instance_name (vi_iface i) rid six \<and> vi_monitor i = monitor_name (vi_iface i) rid)"

definition instance_ok :: "bricks \<Rightarrow> string \<Rightarrow> vrrp_instance \<Rightarrow> bool" where
  "instance_ok bs k i \<longleftrightarrow>
     named k i \<and> known bs k \<and> known bs (vi_monitor i)"

definition manager_inv :: "vrrp_manager \<Rightarrow> bool" where
  "manager_inv m \<longleftrightarrow>
     (\<forall>k i. dict_get (vm_instances m) k = Some i \<longrightarrow> instance_ok (vm_bricks m) k i) \<and>
     (\<forall>k i k' i'. dict_get (vm_instances m) k = Some i \<longrightarrow> dict_get (vm_instances m) k' = Some i' \<longrightarrow> k \<noteq> k' \<longrightarrow>
        vi_monitor i \<noteq> vi_monitor i') \<and>
     distinct (map fst (vm_shutdown m)) \<and>
     (\<forall>n mn. (n, mn) \<in> set (vm_shutdown m) \<longrightarrow> (\<exists>i. dict_get (vm_instances m) n = Some i \<and> vi_monitor i = mn))"

lemma inv_instance: "manager_inv m \<Longrightarrow> dict_get (vm_instances m) k = Some i \<Longrightarrow> instance_ok (vm_bricks m) k i"
  by (simp add: manager_inv_def)

lemma inv_monitors:
  "\<lbrakk>manager_inv m; dict_get (vm_instances m) k = Some i; dict_get (vm_instances m) k' = Some i'; k \<noteq> k'\<rbrakk> \<Longrightarrow>
    vi_monitor i \<noteq> vi_monitor i'"
  unfolding manager_inv_def by blast

lemma inv_stopped:
  assumes "manager_inv m" and "(n, mn) \<in> set (vm_shutdown m)"
  obtains i where "dict_get (vm_instances m) n = Some i" "vi_monitor i = mn"
  using assms unfolding manager_inv_def by blast

lemma inv_distinct: "manager_inv m \<Longrightarrow> distinct (map fst (vm_shutdown m))"
  by (simp add: manager_inv_def)

lemma manager_invI:
  assumes "\<And>k i. dict_get (vm_instances m) k = Some i \<Longrightarrow> instance_ok (vm_bricks m) k i"
    and "\<And>k i k' i'. \<lbrakk>dict_get (vm_instances m) k = Some i; dict_get (vm_instances m) k' = Some i'; k \<noteq> k'\<rbrakk> \<Longrightarrow>
      vi_monitor i \<noteq> vi_monitor i'"
    and "distinct (map fst (vm_shutdown m))"
    and "\<And>n mn. (n, mn) \<in> set (vm_shutdown m) \<Longrightarrow> \<exists>i. dict_get (vm_instances m) n = Some i \<and> vi_monitor i = mn"
  shows "manager_inv m"
  unfolding manager_inv_def using assms by blast

lemma named_differ:
  assumes "named k i" and "named k' i'"
  shows "k \<noteq> vi_monitor i'"
proof -
  obtain rid six rid' where "k = instance_name (vi_iface i) rid six" "vi_monitor i' = monitor_name (vi_iface i') rid'"
    using assms unfolding named_def by blast
  then show ?thesis by (simp add: names_differ)
qed

lemma manager_inv_emit [simp]: "manager_inv (vm_emit x m) = manager_inv m"
  by (simp add: manager_inv_def vm_emit_def)

lemma instance_ok_mono:
  "instance_ok bs k i \<Longrightarrow> (\<And>n. known bs n \<Longrightarrow> known bs' n) \<Longrightarrow> instance_ok bs' k i"
  by (auto simp: instance_ok_def)

lemma inv_more_bricks:
  assumes "manager_inv m" and "\<And>n. known (vm_bricks m) n \<Longrightarrow> known bs n"
  shows "manager_inv (m\<lparr>vm_bricks := bs\<rparr>)"
proof (rule manager_invI; simp)
  show "instance_ok bs k i" if "dict_get (vm_instances m) k = Some i" for k i
    using inv_instance [OF assms(1) that] assms(2) by (rule instance_ok_mono)
qed (use assms(1) in \<open>auto dest: inv_monitors inv_distinct elim: inv_stopped\<close>)

lemma inv_request:
  assumes "manager_inv m"
  shows "manager_inv (fst (config_request_handler le ac a6 mms rms clk cf itf m))"
proof -
  let ?n = "instance_name itf (cf_vrid cf) (cf_is_ipv6 cf)" and ?mn = "monitor_name itf (cf_vrid cf)"
  let ?b1 = "update_bricks (dict_set ?mn (register_instance (app_init ?mn mms [])) (vm_bricks m))"
  let ?b2 = "update_bricks (dict_set ?n (register_instance (app_init ?n rms [''EventVRRPStateChanged''])) ?b1)"
  let ?i = "\<lparr>vi_name = ?n, vi_monitor = ?mn, vi_iface = itf, vi_state = None\<rparr>"
  show ?thesis
  proof (cases "dict_get (vm_instances m) ?n = None \<and> \<not> known (vm_bricks m) ?mn \<and> (cf_version cf = 2 \<or> cf_version cf = 3) \<and>
      \<not> known ?b1 ?n")
    case False
    have "manager_inv (m\<lparr>vm_bricks := ?b1\<rparr>)" by (rule inv_more_bricks [OF assms]) simp
    then show ?thesis using False assms
      by (auto simp: config_request_handler_def Let_def instantiate_app_cases)
  next
    case True
    obtain r x where r: "router_start le ac a6 clk (new_router cf itf new_statistics) = (r, x)" by fastforce
    define bs where "bs = pipe_events ''VRRPManager'' ?n ?mn ?b2"
    have bs: "known bs k \<longleftrightarrow> k = ?n \<or> k = ?mn \<or> known (vm_bricks m) k" for k by (simp add: bs_def)
    have new: "instance_ok bs ?n ?i" by (auto simp: instance_ok_def bs named_def)
    have old: "instance_ok bs k i" "vi_monitor i \<noteq> ?mn" if "dict_get (vm_instances m) k = Some i" for k i
    proof -
      have ok: "instance_ok (vm_bricks m) k i" using assms that by (rule inv_instance)
      then show "instance_ok bs k i" by (rule instance_ok_mono) (simp add: bs)
      show "vi_monitor i \<noteq> ?mn" using ok True by (auto simp: instance_ok_def)
    qed
    have "manager_inv (m\<lparr>vm_bricks := bs, vm_instances := dict_set ?n ?i (vm_instances m), vm_routers := rs\<rparr>)" for rs
    proof (rule manager_invI; simp)
      show "instance_ok bs k i" if "(if k = ?n then Some ?i else dict_get (vm_instances m) k) = Some i" for k i
        using that new old(1) by (simp split: if_splits)
      show "vi_monitor i \<noteq> vi_monitor i'"
        if "(if k = ?n then Some ?i else dict_get (vm_instances m) k) = Some i"
          "(if k' = ?n then Some ?i else dict_get (vm_instances m) k') = Some i'" "k \<noteq> k'" for k i k' i'
        using that old(2) [of k i] old(2) [of k' i'] inv_monitors [OF assms, of k i k' i'] by (auto split: if_splits)
      show "distinct (map fst (vm_shutdown m))" using assms by (rule inv_distinct)
      fix n mn assume "(n, mn) \<in> set (vm_shutdown m)"
      with assms obtain i where "dict_get (vm_instances m) n = Some i" "vi_monitor i = mn" by (rule inv_stopped)
      then show "(n = ?n \<longrightarrow> ?mn = mn) \<and> (n \<noteq> ?n \<longrightarrow> (\<exists>i. dict_get (vm_instances m) n = Some i \<and> vi_monitor i = mn))"
        using True by auto
    qed
    note inv = this
    have c: "dict_get (vm_instances m) ?n = None" "\<not> known (vm_bricks m) ?mn" "\<not> (cf_version cf \<noteq> 2 \<and> cf_version cf \<noteq> 3)"
      "\<not> known ?b1 ?n" using True by auto
    show ?thesis
      using inv c unfolding config_request_handler_def Let_def instantiate_app_cases r bs_def by (cases x) auto
  qed
qed

lemma inv_add_stop:
  assumes "manager_inv m" and "dict_get (vm_instances m) n = Some i" and "n \<notin> fst ` set (vm_shutdown m)"
  shows "manager_inv (m\<lparr>vm_shutdown := vm_shutdown m @ [(n, vi_monitor i)]\<rparr>)" (is "manager_inv ?m")
proof (rule manager_invI)
  show "instance_ok (vm_bricks ?m) k j" if "dict_get (vm_instances ?m) k = Some j" for k j
    using inv_instance [OF assms(1), of k j] that by simp
  show "vi_monitor j \<noteq> vi_monitor j'"
    if "dict_get (vm_instances ?m) k = Some j" "dict_get (vm_instances ?m) k' = Some j'" "k \<noteq> k'" for k j k' j'
    using inv_monitors [OF assms(1), of k j k' j'] that by simp
  show "distinct (map fst (vm_shutdown ?m))" using inv_distinct [OF assms(1)] assms(3) by simp
  fix n' mn assume "(n', mn) \<in> set (vm_shutdown ?m)"
  then consider "n' = n" "mn = vi_monitor i" | "(n', mn) \<in> set (vm_shutdown m)" by auto
  then show "\<exists>j. dict_get (vm_instances ?m) n' = Some j \<and> vi_monitor j = mn"
  proof cases
    case 1
    then show ?thesis using assms(2) by simp
  next
    case 2
    with assms(1) obtain j where "dict_get (vm_instances m) n' = Some j" "vi_monitor j = mn" by (rule inv_stopped)
    then show ?thesis by simp
  qed
qed

lemma inv_notice:
  assumes "manager_inv m" and "n \<notin> fst ` set (vm_shutdown m)"
  shows "manager_inv (fst (manager_state_change n old new m))"
proof (cases "dict_get (vm_instances m) n")
  case None
  then show ?thesis using assms(1) by (simp add: manager_state_change_def)
next
  case (Some i)
  let ?j = "i\<lparr>vi_state := Some new\<rparr>"
  let ?m = "m\<lparr>vm_instances := dict_set n ?j (vm_instances m)\<rparr>"
  have ok: "instance_ok (vm_bricks m) n i" using assms(1) Some by (rule inv_instance)
  then have i: "instance_ok (vm_bricks m) n ?j" "vi_name i = n" by (auto simp: instance_ok_def named_def)
  have inv: "manager_inv ?m"
  proof (rule manager_invI; simp)
    show "instance_ok (vm_bricks m) k j" if "(if k = n then Some ?j else dict_get (vm_instances m) k) = Some j" for k j
      using that i(1) inv_instance [OF assms(1)] by (simp split: if_splits)
    show "vi_monitor j \<noteq> vi_monitor j'"
      if "(if k = n then Some ?j else dict_get (vm_instances m) k) = Some j"
        "(if k' = n then Some ?j else dict_get (vm_instances m) k') = Some j'" "k \<noteq> k'" for k j k' j'
      using that Some inv_monitors [OF assms(1), of k _ k'] by (auto split: if_splits)
    show "distinct (map fst (vm_shutdown m))" using assms(1) by (rule inv_distinct)
    fix n' mn assume "(n', mn) \<in> set (vm_shutdown m)"
    with assms(1) obtain j where "dict_get (vm_instances m) n' = Some j" "vi_monitor j = mn" by (rule inv_stopped)
    then show "(n' = n \<longrightarrow> vi_monitor i = mn) \<and> (n' \<noteq> n \<longrightarrow> (\<exists>j. dict_get (vm_instances m) n' = Some j \<and> vi_monitor j = mn))"
      using Some by auto
  qed
  have "manager_inv (?m\<lparr>vm_shutdown := vm_shutdown ?m @ [(n, vi_monitor ?j)]\<rparr>)"
    using inv by (rule inv_add_stop) (use assms(2) in simp_all)
  with inv show ?thesis by (cases "old \<noteq> None \<and> new = VInitialize") (auto simp: manager_state_change_def Some Let_def i(2))
qed

text \<open>Taking a stopped router down.\<close>

lemma shutdown_turn_ok:
  assumes "manager_inv m" and "vm_shutdown m = (n, mn) # q"
  obtains m' where "shutdown_turn m = (m', None)" "vm_shutdown m' = q" "manager_inv m'"
    "vm_instances m' = dict_del n (vm_instances m)" "\<forall>k. known (vm_bricks m') k \<longleftrightarrow> k \<noteq> n \<and> k \<noteq> mn \<and> known (vm_bricks m) k"
    "vm_out m' = vm_out m"
proof -
  have "(n, mn) \<in> set (vm_shutdown m)" using assms(2) by simp
  with assms(1) obtain i where i: "dict_get (vm_instances m) n = Some i" "vi_monitor i = mn" by (rule inv_stopped)
  have ok: "instance_ok (vm_bricks m) n i" using assms(1) i(1) by (rule inv_instance)
  then have k: "known (vm_bricks m) n" "known (vm_bricks m) mn" "named n i" "n \<noteq> mn"
    using i(2) named_differ [of n i n i] by (auto simp: instance_ok_def)
  obtain a b1 where b1: "uninstantiate n (vm_bricks m) = Inr (a, b1)" "\<forall>k. known b1 k \<longleftrightarrow> k \<noteq> n \<and> known (vm_bricks m) k"
    using uninstantiate_cases [OF k(1)] by blast
  then have "known b1 mn" using k by auto
  then obtain a' b2 where b2: "uninstantiate mn b1 = Inr (a', b2)" "\<forall>k. known b2 k \<longleftrightarrow> k \<noteq> mn \<and> known b1 k"
    using uninstantiate_cases by blast
  let ?m' = "m\<lparr>vm_shutdown := q, vm_bricks := b2, vm_routers := dict_del n (vm_routers m),
    vm_instances := dict_del n (vm_instances m)\<rparr>"
  have turn: "shutdown_turn m = (?m', None)"
    using assms(2) b1(1) b2(1) i(1) by (simp add: shutdown_turn_def Let_def)
  have kn: "known b2 k \<longleftrightarrow> k \<noteq> n \<and> k \<noteq> mn \<and> known (vm_bricks m) k" for k using b1(2) b2(2) by auto
  have inst: "dict_get (vm_instances ?m') k = (if k = n then None else dict_get (vm_instances m) k)" for k by simp
  have "manager_inv ?m'"
  proof (rule manager_invI)
    show "instance_ok (vm_bricks ?m') k j" if "dict_get (vm_instances ?m') k = Some j" for k j
    proof -
      have j: "k \<noteq> n" "dict_get (vm_instances m) k = Some j" using that by (auto split: if_splits)
      have okj: "instance_ok (vm_bricks m) k j" using assms(1) j(2) by (rule inv_instance)
      then have "named k j" by (simp add: instance_ok_def)
      then have "k \<noteq> mn" "n \<noteq> vi_monitor j" using named_differ k(3) i(2) by blast+
      moreover have "vi_monitor j \<noteq> mn" using inv_monitors [OF assms(1) j(2) i(1) j(1)] i(2) by simp
      ultimately show ?thesis using okj j(1) by (auto simp: instance_ok_def kn)
    qed
    show "vi_monitor j \<noteq> vi_monitor j'"
      if "dict_get (vm_instances ?m') k = Some j" "dict_get (vm_instances ?m') k' = Some j'" "k \<noteq> k'" for k j k' j'
      using that inv_monitors [OF assms(1), of k j k' j'] by (simp split: if_splits)
    show "distinct (map fst (vm_shutdown ?m'))" using inv_distinct [OF assms(1)] assms(2) by simp
    fix n' mn' assume "(n', mn') \<in> set (vm_shutdown ?m')"
    then have q: "(n', mn') \<in> set q" by simp
    then have "n' \<noteq> n" using inv_distinct [OF assms(1)] assms(2) by force
    moreover have "(n', mn') \<in> set (vm_shutdown m)" using q assms(2) by simp
    with assms(1) obtain j where "dict_get (vm_instances m) n' = Some j" "vi_monitor j = mn'" by (rule inv_stopped)
    ultimately show "\<exists>j. dict_get (vm_instances ?m') n' = Some j \<and> vi_monitor j = mn'" by simp
  qed
  with that turn kn show thesis by simp
qed

lemma manager_inv_step:
  assumes "manager_inv m" and "manager_step le ac a6 mms rms m l m'"
  shows "manager_inv m'"
  using assms(2)
proof cases
  case m_turn
  show ?thesis
  proof (cases "vm_shutdown m")
    case Nil
    then show ?thesis using assms(1) m_turn by (simp add: shutdown_turn_def)
  next
    case (Cons x q)
    obtain n mn where "x = (n, mn)" by fastforce
    then have "vm_shutdown m = (n, mn) # q" using Cons by simp
    with assms(1) obtain m1 where "shutdown_turn m = (m1, None)" "manager_inv m1" by (rule shutdown_turn_ok)
    then show ?thesis using m_turn by simp
  qed
next
  case (m_request clk cf itf)
  then show ?thesis using assms(1) inv_request by simp
next
  case (m_notice n old new)
  then show ?thesis using assms(1) inv_notice by simp
next
  case (m_shutdown n)
  then show ?thesis using assms(1) by (simp add: shutdown_request_handler_def proxy_event_def split: option.split)
next
  case (m_change n ch)
  then show ?thesis using assms(1) by (simp add: config_change_request_handler_def proxy_event_def split: option.split)
next
  case (m_list n)
  then show ?thesis using assms(1) by (simp add: list_request_handler_def Let_def)
qed

lemma manager_reachable_inv:
  assumes "vmanager.reachable le ac a6 mms rms m"
  shows "manager_inv m"
proof (rule vmanager.invariant_rule [OF assms])
  show "manager_inv m0" if "manager_start m0" for m0
    using that by (simp add: manager_start_def manager_inv_def)
qed (rule manager_inv_step)

section \<open>Granting requests\<close>

lemma router_start_ok:
  assumes "config_ok ac a6 cf itf bs"
  shows "snd (router_start le ac a6 clk (new_router cf itf st)) = None"
  using start_good [OF assms, of le "[]"] by (simp add: good_step_def)

text \<open>A request for names that are free.\<close>

lemma request_accepted:
  assumes "config_ok ac a6 cf itf bs" and "n = instance_name itf (cf_vrid cf) (cf_is_ipv6 cf)"
    and "mn = monitor_name itf (cf_vrid cf)"
    and "dict_get (vm_instances m) n = None" and "\<not> known (vm_bricks m) n" and "\<not> known (vm_bricks m) mn"
  obtains m' i where "config_request_handler le ac a6 mms rms clk cf itf m = (m', None)"
    "vm_out m' = vm_out m @ [ConfigReply (Some n)]" "dict_get (vm_instances m') n = Some i" "vi_monitor i = mn" "vm_shutdown m' = vm_shutdown m"
    "\<forall>k. k \<noteq> n \<longrightarrow> dict_get (vm_instances m') k = dict_get (vm_instances m) k"
proof -
  have v: "\<not> (cf_version cf \<noteq> 2 \<and> cf_version cf \<noteq> 3)" using config_versions [OF assms(1)] by auto
  obtain r where r: "router_start le ac a6 clk (new_router cf itf new_statistics) = (r, None)"
    using router_start_ok [OF assms(1), of le clk new_statistics] by (cases "router_start le ac a6 clk (new_router cf itf new_statistics)") simp
  have k: "\<not> known (update_bricks (dict_set mn (register_instance (app_init mn mms [])) (vm_bricks m))) n"
    using assms(2,3,5) names_differ by simp
  show thesis
    using that assms(4,6) k v r unfolding config_request_handler_def Let_def instantiate_app_cases assms(2,3) [symmetric]
    by (simp add: vm_emit_def)
qed

text \<open>A manager that runs one router, and that router stopped.\<close>

definition one_router :: vrrp_manager where
  "one_router =
     fst (config_request_handler True vrrp_ac sample_a6 [] [] 0 (group_config 100) (port_iface ''10.0.0.3'')
       \<lparr>vm_instances = [], vm_routers = [], vm_bricks = [], vm_shutdown = [], vm_out = []\<rparr>)"

definition one_name :: string where
  "one_name = instance_name (port_iface ''10.0.0.3'') 1 False"

definition one_stopped :: vrrp_manager where
  "one_stopped = fst (manager_state_change one_name (Some VBackup) VInitialize one_router)"

lemma one_router_facts:
  "vmanager.reachable True vrrp_ac sample_a6 [] [] one_router"
  "\<exists>i. dict_get (vm_instances one_router) one_name = Some i \<and> vi_monitor i = monitor_name (port_iface ''10.0.0.3'') 1"
  "vm_shutdown one_router = []" "k \<noteq> one_name \<Longrightarrow> dict_get (vm_instances one_router) k = None"
proof -
  let ?m = "\<lparr>vm_instances = [], vm_routers = [], vm_bricks = [], vm_shutdown = [], vm_out = []\<rparr> :: vrrp_manager"
  have c: "config_ok vrrp_ac sample_a6 (group_config 100) (port_iface ''10.0.0.3'') [[10, 0, 0, 1]]"
    by (rule group_config_ok [OF _ _ vrrp_quads(3)]) simp_all
  have n: "one_name = instance_name (port_iface ''10.0.0.3'') (cf_vrid (group_config 100)) (cf_is_ipv6 (group_config 100))"
    "monitor_name (port_iface ''10.0.0.3'') 1 = monitor_name (port_iface ''10.0.0.3'') (cf_vrid (group_config 100))"
    by (simp_all add: one_name_def)
  have free: "dict_get (vm_instances ?m) k = None" "\<not> known (vm_bricks ?m) k" for k by (simp_all add: known_def)
  obtain m' i where m: "config_request_handler True vrrp_ac sample_a6 [] [] 0 (group_config 100) (port_iface ''10.0.0.3'') ?m = (m', None)"
    "vm_out m' = vm_out ?m @ [ConfigReply (Some one_name)]"
    "dict_get (vm_instances m') one_name = Some i" "vi_monitor i = monitor_name (port_iface ''10.0.0.3'') 1"
    "vm_shutdown m' = vm_shutdown ?m" "\<forall>k. k \<noteq> one_name \<longrightarrow> dict_get (vm_instances m') k = dict_get (vm_instances ?m) k"
    using c n free(1) free(2) free(2) by (rule request_accepted)
  have o: "one_router = m'" using m(1) by (simp add: one_router_def)
  have "manager_start ?m" by (simp add: manager_start_def)
  then have "vmanager.reachable True vrrp_ac sample_a6 [] [] ?m" by (rule vmanager.reach_start)
  then show "vmanager.reachable True vrrp_ac sample_a6 [] [] one_router"
    unfolding one_router_def by (rule vmanager.reach_step) (rule manager_step.m_request)
  show "\<exists>i. dict_get (vm_instances one_router) one_name = Some i \<and> vi_monitor i = monitor_name (port_iface ''10.0.0.3'') 1"
    "vm_shutdown one_router = []" "k \<noteq> one_name \<Longrightarrow> dict_get (vm_instances one_router) k = None"
    using m(3-6) o by auto
qed

lemma one_stopped_facts:
  "vmanager.reachable True vrrp_ac sample_a6 [] [] one_stopped"
  "vm_shutdown one_stopped = [(one_name, monitor_name (port_iface ''10.0.0.3'') 1)]"
proof -
  have "manager_step True vrrp_ac sample_a6 [] [] one_router (MNotice one_name (Some VBackup) VInitialize) one_stopped"
    unfolding one_stopped_def by (rule manager_step.m_notice) (simp add: one_router_facts(3))
  with one_router_facts(1) show "vmanager.reachable True vrrp_ac sample_a6 [] [] one_stopped" by (rule vmanager.reach_step)
  obtain i where i: "dict_get (vm_instances one_router) one_name = Some i" "vi_monitor i = monitor_name (port_iface ''10.0.0.3'') 1"
    using one_router_facts(2) by blast
  have "instance_ok (vm_bricks one_router) one_name i"
    using manager_reachable_inv [OF one_router_facts(1)] i(1) by (rule inv_instance)
  then have "vi_name i = one_name" by (simp add: instance_ok_def named_def)
  then show "vm_shutdown one_stopped = [(one_name, monitor_name (port_iface ''10.0.0.3'') 1)]"
    using i by (simp add: one_stopped_def manager_state_change_def Let_def one_router_facts(3))
qed

section \<open>Properties\<close>

text \<open>
  C39. In every reachable state of the manager, the turn of the loop that takes a stopped router
  down raises nothing: the router leaves the table, its two applications leave the application
  manager, all other routers stay; and a new request for a router of that name with a sound
  configuration is then granted.
\<close>

theorem stopped_router_frees_its_names:
  assumes "vmanager.reachable le ac a6 mms rms m" and "vm_shutdown m = (n, mn) # q"
  shows "\<exists>m'. shutdown_turn m = (m', None) \<and> vm_shutdown m' = q \<and>
    dict_get (vm_instances m') n = None \<and> \<not> known (vm_bricks m') n \<and> \<not> known (vm_bricks m') mn \<and>
    (\<forall>k i. k \<noteq> n \<longrightarrow> dict_get (vm_instances m) k = Some i \<longrightarrow>
       dict_get (vm_instances m') k = Some i \<and> known (vm_bricks m') k \<and> known (vm_bricks m') (vi_monitor i)) \<and>
    (\<forall>clk cf itf bs. config_ok ac a6 cf itf bs \<longrightarrow> n = instance_name itf (cf_vrid cf) (cf_is_ipv6 cf) \<longrightarrow>
       (\<exists>m''. config_request_handler le ac a6 mms rms clk cf itf m' = (m'', None) \<and>
          vm_out m'' = vm_out m' @ [ConfigReply (Some n)]))"
proof -
  have I: "manager_inv m" using assms(1) by (rule manager_reachable_inv)
  obtain m' where m': "shutdown_turn m = (m', None)" "vm_shutdown m' = q" "manager_inv m'"
    "vm_instances m' = dict_del n (vm_instances m)" "\<forall>k. known (vm_bricks m') k \<longleftrightarrow> k \<noteq> n \<and> k \<noteq> mn \<and> known (vm_bricks m) k"
    using I assms(2) by (rule shutdown_turn_ok)
  have others: "dict_get (vm_instances m') k = Some i \<and> known (vm_bricks m') k \<and> known (vm_bricks m') (vi_monitor i)"
    if "k \<noteq> n" "dict_get (vm_instances m) k = Some i" for k i
  proof -
    have "dict_get (vm_instances m') k = Some i" using that m'(4) by simp
    with inv_instance [OF m'(3) this] show ?thesis by (simp add: instance_ok_def)
  qed
  have again: "\<exists>m''. config_request_handler le ac a6 mms rms clk cf itf m' = (m'', None) \<and>
      vm_out m'' = vm_out m' @ [ConfigReply (Some n)]"
    if c: "config_ok ac a6 cf itf bs" "n = instance_name itf (cf_vrid cf) (cf_is_ipv6 cf)" for clk cf itf bs
  proof -
    have "(n, mn) \<in> set (vm_shutdown m)" using assms(2) by simp
    with I obtain i where i: "dict_get (vm_instances m) n = Some i" "vi_monitor i = mn" by (rule inv_stopped)
    have "named n i" using inv_instance [OF I i(1)] by (simp add: instance_ok_def)
    then obtain rid six where "n = instance_name (vi_iface i) rid six" "mn = monitor_name (vi_iface i) rid"
      using i(2) unfolding named_def by blast
    then have "mn = monitor_name itf (cf_vrid cf)" using c(2) instance_name_parts(1) by metis
    moreover have "dict_get (vm_instances m') n = None" "\<not> known (vm_bricks m') n" "\<not> known (vm_bricks m') mn"
      using m'(4,5) by auto
    ultimately obtain m'' i where "config_request_handler le ac a6 mms rms clk cf itf m' = (m'', None)"
      "vm_out m'' = vm_out m' @ [ConfigReply (Some n)]"
      using request_accepted [OF c] by metis
    then show ?thesis by blast
  qed
  show ?thesis using m' others again by (intro exI [of _ m']) auto
qed

lemma stopped_router_frees_its_names_witness:
  "\<exists>m m'. shutdown_turn one_stopped = (m, None) \<and> dict_get (vm_instances m) one_name = None \<and>
     config_request_handler True vrrp_ac sample_a6 [] [] 7 (group_config 100) (port_iface ''10.0.0.3'') m = (m', None) \<and>
     vm_out m' = vm_out m @ [ConfigReply (Some one_name)]"
proof -
  have c: "config_ok vrrp_ac sample_a6 (group_config 100) (port_iface ''10.0.0.3'') [[10, 0, 0, 1]]"
    by (rule group_config_ok [OF _ _ vrrp_quads(3)]) simp_all
  have n: "one_name = instance_name (port_iface ''10.0.0.3'') (cf_vrid (group_config 100)) (cf_is_ipv6 (group_config 100))"
    by (simp add: one_name_def)
  show ?thesis using stopped_router_frees_its_names [OF one_stopped_facts] c n by blast
qed

text \<open>
  C40. While a router runs for an identifier on an interface, a request for the same identifier on the
  same interface with the other address family is not granted, although the table has no router of
  that name: the name of the monitor does not tell the families apart, registering it fails with an
  assertion, and the request is left without a reply.
\<close>

theorem second_family_is_refused:
  assumes "vmanager.reachable le ac a6 mms rms m"
    and "dict_get (vm_instances m) (instance_name itf (cf_vrid cf) (\<not> cf_is_ipv6 cf)) \<noteq> None"
    and "dict_get (vm_instances m) (instance_name itf (cf_vrid cf) (cf_is_ipv6 cf)) = None"
  shows "config_request_handler le ac a6 mms rms clk cf itf m = (m, Some AssertionError)"
proof -
  let ?k = "instance_name itf (cf_vrid cf) (\<not> cf_is_ipv6 cf)"
  have I: "manager_inv m" using assms(1) by (rule manager_reachable_inv)
  obtain i where i: "dict_get (vm_instances m) ?k = Some i" using assms(2) by auto
  then have ok: "instance_ok (vm_bricks m) ?k i" using inv_instance [OF I] by blast
  then obtain rid six where n: "?k = instance_name (vi_iface i) rid six" "vi_monitor i = monitor_name (vi_iface i) rid"
    unfolding instance_ok_def named_def by blast
  then have "vi_monitor i = monitor_name itf (cf_vrid cf)" using instance_name_parts(1) by metis
  then have "known (vm_bricks m) (monitor_name itf (cf_vrid cf))" using ok by (simp add: instance_ok_def)
  then show ?thesis using assms(3) by (simp add: config_request_handler_def Let_def instantiate_app_cases)
qed

lemma second_family_is_refused_witness:
  "config_request_handler True vrrp_ac sample_a6 [] [] 7 ((group_config 100)\<lparr>cf_is_ipv6 := True\<rparr>) (port_iface ''10.0.0.3'') one_router =
     (one_router, Some AssertionError)"
proof (rule second_family_is_refused [OF one_router_facts(1)])
  show "dict_get (vm_instances one_router) (instance_name (port_iface ''10.0.0.3'')
      (cf_vrid ((group_config 100)\<lparr>cf_is_ipv6 := True\<rparr>)) (\<not> cf_is_ipv6 ((group_config 100)\<lparr>cf_is_ipv6 := True\<rparr>))) \<noteq> None"
    using one_router_facts(2) by (auto simp: one_name_def)
  have "instance_name (port_iface ''10.0.0.3'') 1 True \<noteq> one_name"
    using instance_name_parts(2) unfolding one_name_def by blast
  then show "dict_get (vm_instances one_router) (instance_name (port_iface ''10.0.0.3'')
      (cf_vrid ((group_config 100)\<lparr>cf_is_ipv6 := True\<rparr>)) (cf_is_ipv6 ((group_config 100)\<lparr>cf_is_ipv6 := True\<rparr>))) = None"
    using one_router_facts(4) by simp
qed

end
