(* ===== verification/Spec2Isabelle.thy ===== *)
theory Spec2Isabelle
  imports Fw_Input_Properties Net_Properties Ctl_Properties App_Properties Ofp_Properties Stp_Properties
    Lacp_Properties Topo_Properties Vrrp_Properties Vrrp_Instances
begin

text \<open>
  A model of the SDN firewall (\<open>src/src\<close>) and of the parts of the Ryu framework that it runs on or that
  run beside it in the same controller (\<open>src/ryu/ryu\<close>).

  \<^bold>\<open>The program.\<close> A switch connects (\<open>ofp_handler.py\<close>, \<open>controller.py\<close>), its bytes are framed into OpenFlow
  messages and parsed (\<open>ofproto_v1_3_parser.py\<close>), each message becomes an event that the application manager
  (\<open>app_manager.py\<close>) hands to the applications registered for it. The firewall (\<open>firewall_app.py\<close>) decodes
  the frame of a packet-in with the packet library (\<open>lib/packet\<close>), runs its checks (addresses, ports, flags,
  rate, ARP bindings, payload signatures of \<open>dpi_engine.py\<close>), drops or forwards the packet, and after five
  packets of a flow installs rules in the switch. Its REST interface (\<open>firewall_wsgi.py\<close>) changes the policy
  and withdraws rules. Spanning tree, link aggregation, topology discovery and the redundancy of routers are
  further applications on the same events and the same packet library.

  \<^bold>\<open>Foundations.\<close> Bytes are \<open>8 word\<close>s, the fields of headers words of their width, Python's integers
  \<open>int\<close> or \<open>nat\<close>, its strings lists of characters. An operation that may raise is a value of
  \<open>exn + 'a\<close>; one that may also never return is an option of that (\<open>Prelude\<close>), with \<open>None\<close> only for a loop
  without end: such loops are \<open>partial_function (option)\<close> and no fuel is used for them. Dictionaries keep their
  order of insertion where the code iterates over them. \<open>Py_Strings\<close> and \<open>Py_Hex\<close> model decimal and hexadecimal
  printing and parsing, \<open>strip\<close>, \<open>split\<close>; \<open>Packet_Struct\<close> and \<open>Wire\<close> model \<open>struct.pack\<close> and \<open>unpack_from\<close>.
  \<open>transition_system\<close> (in \<open>Prelude\<close>) is the interface of everything that runs: firewall, connection, bridge,
  aggregation, discovery, virtual router; the invariants are proved once per step and lifted to runs there.

  \<^bold>\<open>The firewall.\<close>
  \<^item> \<open>Fw_State\<close>: the fields of \<open>FirewallApp\<close>, its constants, log, counters and the trace of messages sent.
  \<^item> \<open>Dpi_Engine\<close> (with \<open>Regex\<close>, the fragment of \<open>re\<close> behind the built-in signatures, matched by derivatives)
    and \<open>Inspector\<close>, the interface between the flow table and the matcher.
  \<^item> \<open>Fw_Checks\<close>: \<open>_check_*\<close>; \<open>Fw_Trust\<close>: \<open>_record_trust\<close>, \<open>_install_trust_flow\<close>, \<open>_check_dpi\<close> and the
    flushes; \<open>Fw_Packet_In\<close>: the handlers; \<open>Fw_Wsgi\<close>: the REST handlers; \<open>Fw_System\<close>: all of them as the
    steps of one transition system.
  \<^item> \<open>Fw_Invariants\<close>, \<open>Fw_Flows\<close>, \<open>Fw_Rate\<close> hold the lemmas: the contract every check keeps, what messages
    leave in the tables of the switches, the reference rate limiter. \<open>Fw_Properties\<close>, \<open>Fw_Flow_Properties\<close>,
    \<open>Fw_Input_Properties\<close> state what blocked, refused and forwarded packets can cause, when a flow is promoted
    and inspected, the bounds of the tables, and which frames the handler returns on.

  \<^bold>\<open>The packet library.\<close> \<open>Headers\<close> (Ethernet, VLAN, ARP, IPv4, UDP), \<open>Tcp\<close> (with its options),
  \<open>Ipv6\<close> (with its extension headers; contract in \<open>Ipv6_Codec\<close>), \<open>Llc\<close>, \<open>Bpdu\<close>, \<open>Slow\<close> (LACP), \<open>Lldp\<close>,
  \<open>Vrrp\<close> are the codecs, \<open>Packet_Utils\<close> the checksum and \<open>Packet_Parse\<close> the loop
  of \<open>Packet\<close> over the headers. It also has the header class of OpenFlow (\<open>openflow.py\<close>) and the
  headers that the loop comes to on a frame. \<open>Codecs\<close> gives every header the same contract (a locale: what is
  serialised is parsed back, and the rest of the buffer is untouched), \<open>Net_Properties\<close> composes them to frames.
  \<open>Tcp_Props\<close> characterises the option lists on which decoding does not end.

  \<^bold>\<open>OpenFlow.\<close> \<open>Ctl_Framing\<close> (\<open>Datapath._recv_loop\<close>; \<open>recv_while\<close> has its condition on the state of the
  datapath, \<open>recv_loop\<close> is given the chunks read while it holds), \<open>Ctl_Handshake\<close> (negotiation, when it
  succeeds and with which version, and the states of a connection), \<open>Oxm_Fields\<close> and \<open>Oxm_Codec\<close> (match fields), \<open>Ofp_Match\<close>, \<open>Ofp_Actions\<close>, \<open>Ofp_Messages\<close>
  (flow modification, packet-out, packet-in); properties in \<open>Ctl_Properties\<close> and \<open>Ofp_Properties\<close>.

  \<^bold>\<open>The controller.\<close> \<open>Ctl_Tables\<close> (\<open>mac_to_port.py\<close>, \<open>mac_to_network.py\<close>, \<open>tunnels.py\<close>), \<open>Ctl_Network\<close>
  (\<open>network.py\<close>), \<open>Ctl_Dpset\<close> (\<open>dpset.py\<close>). \<open>App_Events\<close>, \<open>App_Delivery\<close>, \<open>App_Loading\<close> are the application
  manager: handlers and observers, the bounded queue with its semaphore as a step relation, and the worklist
  of \<open>load_apps\<close>; properties in \<open>App_Properties\<close>.

  \<^bold>\<open>Spanning tree\<close> (\<open>stplib.py\<close>). \<open>Stp_Compare\<close> (comparison of units), \<open>Stp_Port\<close>, \<open>Stp_Tree\<close> (selection of
  root and designated ports), \<open>Stp_Bridge\<close> (recalculation, timers, states of ports), \<open>Stp_App\<close> (packet-in of a
  bridge). \<open>Stp_Invariants\<close> proves what every operation keeps, \<open>Stp_Reach\<close> lifts it to runs, \<open>Stp_Frames\<close>
  carries units from one bridge to another, \<open>Stp_Properties\<close> states the properties.

  \<^bold>\<open>Link aggregation\<close> (\<open>lacplib.py\<close>). \<open>Lacp\<close> and \<open>Lacp_Properties\<close>: slave states, timeouts, the response.
  What the library tells of a port is compared with what its partner has asked for in the events of the run.

  \<^bold>\<open>Topology discovery\<close> (\<open>topology/switches.py\<close>). \<open>Topo_Ports\<close> (\<open>PortDataState\<close> with its ring of nodes in an
  explicit heap, \<open>PortState\<close>), \<open>Topo_Links\<close> (\<open>LinkState\<close>, \<open>HostState\<close>), \<open>Topo_Lldp\<close> (\<open>LLDPPacket\<close>),
  \<open>Topo_Switches\<close> (the handlers and the two loops). \<open>Topo_Order\<close> is the contract of the port table as a list
  ordered by time (locale \<open>port_store\<close>), \<open>Topo_Invariants\<close> proves what every handler keeps, also when it
  ends with an exception, \<open>Topo_Properties\<close> states the properties.

  \<^bold>\<open>Redundancy of routers\<close> (\<open>services/protocols/vrrp\<close>). \<open>Vrrp\<close> (advertisements and their frames),
  \<open>Vrrp_Monitor\<close> (\<open>monitor.py\<close>, \<open>monitor_openflow.py\<close>: which frames are advertisements for a router, the rule
  in its switch, the statistics), \<open>Vrrp_Router\<close> (\<open>router.py\<close>: timers, states and requests, versions 2 and 3).
  \<open>Vrrp_Frames\<close> proves that a frame is read back as it was meant, over IPv4, IPv6 and a VLAN;
  \<open>Vrrp_Sending\<close> that what a router with a sound configuration sends passes every check of the monitors of its
  group; \<open>Vrrp_System\<close> makes one router with its event queue a transition system and proves its invariant;
  \<open>Vrrp_Properties\<close> puts monitor and router together (\<open>hear\<close>) and states what two routers do to each other.
  \<open>Vrrp_Manager\<close> (\<open>manager.py\<close>: the table of routers and their applications), \<open>Vrrp_Instances\<close> (its runs).

  \<open>Sample_Frames\<close>, \<open>Stp_Samples\<close> and \<open>Vrrp_Samples\<close> hold the concrete frames, converters, bridges and routers of the witnesses.
\<close>

text \<open>
  \<^bold>\<open>Parameters.\<close> Code outside the repository is an argument of the definitions: the conversion of addresses
  (\<open>netaddr\<close>), the compilation of user patterns (\<open>re.compile\<close>), the Unicode tables behind \<open>str.isdigit\<close> and
  \<open>str.strip\<close>, the clock, the parsers of headers that are not modelled.
  What is assumed of them is a named hypothesis (\<open>addr_ok\<close> and the like: a conversion is undone by its
  inverse) and the witnesses instantiate it.

  \<^bold>\<open>Atomicity.\<close> One handler, one turn of a loop, one REST request is one step. In the code green threads switch
  only at blocking calls; the points inside a handler of \<open>stplib.py\<close> at which \<open>hub.sleep(0)\<close> lets another
  thread run, and the blocking of a full event queue inside a handler of \<open>switches.py\<close>, are not separate steps.
  In \<open>router.py\<close> \<open>Timer.cancel\<close> waits for the thread of the timer to end, which is a point at which other
  threads run; in the model a cancelled timer is gone at once. \<open>Vrrp_System\<close> lets the event queue of a router
  grow without the bound of 128, so a thread that is blocked on a full queue is not a state of the model.
  A step reads the clock once; times that are floats in the code are rationals.

  \<^bold>\<open>Not modelled.\<close> Sockets, TLS, logging, the web server, the JSON forms, \<open>from_jsondict\<close> and \<open>__str__\<close>;
  the other OpenFlow versions and the messages of 1.3 other than flow modification, packet-out and packet-in;
  the actions of Nicira, the old match interface, addresses with a prefix length as text, what a truncated
  message keeps of its contents; the packet protocols and protocol libraries that no modelled component uses
  (ICMP, IGMP, MPLS, BGP, OSPF, Zebra, BFD, CFM, DHCP); OVSDB, NETCONF and Mininet, which are clients of
  external systems or vendored. Of the redundancy protocol the monitor on a network device of Linux is left out.

  \<^bold>\<open>Loops.\<close> Loops over data that shrinks are \<open>fun\<close> or \<open>function\<close> with a termination proof. The loops of the
  packet decoder, the TCP options, the instructions of a flow modification, the worklist of \<open>load_apps\<close> and
  the iteration over the ring of ports have no such measure in general: that they return is proved where it
  holds, and where it fails a property gives an input on which the value is \<open>None\<close>.
\<close>

end
